(* ===== verification/Prelude.thy ===== *)
theory Prelude
  imports Main "HOL-Library.Word"
begin

text \<open>
  Shared ground of the development: results of fallible code, byte buffers and the
  little-endian readers of Node's Buffer, JavaScript numbers where their precision shows,
  and the string operations the components use.

  A JavaScript string is modelled by the list of its UTF-8 bytes (\<open>string\<close> is
  \<open>char list\<close>, a char is a byte). A Buffer is a list of \<open>8 word\<close>. Fallible code returns
  \<open>'e + 'a\<close>: \<open>Inl\<close> is the thrown error, \<open>Inr\<close> the returned value.
\<close>

unbundle bit_operations_syntax

named_theorems result_simps "rules that evaluate or invert a sequence of fallible steps"
named_theorems buffer_simps "rules about slices and fixed-width reads of a buffer"

section \<open>Results\<close>

definition bind_res :: "'e + 'a \<Rightarrow> ('a \<Rightarrow> 'e + 'b) \<Rightarrow> 'e + 'b" where
  "bind_res m f = (case m of Inl e \<Rightarrow> Inl e | Inr a \<Rightarrow> f a)"

lemma bind_res_simps [simp]:
  "bind_res (Inl e) f = Inl e"
  "bind_res (Inr a) f = f a"
  by (simp_all add: bind_res_def)

lemma bind_res_eq_Inr [result_simps]:
  "bind_res m f = Inr b \<longleftrightarrow> (\<exists>a. m = Inr a \<and> f a = Inr b)"
  by (cases m) simp_all

lemma bind_res_eq_Inl [result_simps]:
  "bind_res m f = Inl e \<longleftrightarrow> m = Inl e \<or> (\<exists>a. m = Inr a \<and> f a = Inl e)"
  by (cases m) simp_all

lemma bind_res_cong [fundef_cong]:
  "m = m' \<Longrightarrow> (\<And>a. m' = Inr a \<Longrightarrow> f a = g a) \<Longrightarrow> bind_res m f = bind_res m' g"
  by (cases m') simp_all

text \<open>The \<open>for\<close> loops that push one result per element and stop at the first throw.\<close>

fun map_res :: "('a \<Rightarrow> 'e + 'b) \<Rightarrow> 'a list \<Rightarrow> 'e + 'b list" where
  "map_res f [] = Inr []"
| "map_res f (x # xs) = bind_res (f x) (\<lambda>y. bind_res (map_res f xs) (\<lambda>ys. Inr (y # ys)))"

fun fold_res :: "('s \<Rightarrow> 'a \<Rightarrow> 'e + 's) \<Rightarrow> 's \<Rightarrow> 'a list \<Rightarrow> 'e + 's" where
  "fold_res f s [] = Inr s"
| "fold_res f s (x # xs) = bind_res (f s x) (\<lambda>s'. fold_res f s' xs)"

lemma fold_res_cong [fundef_cong]:
  "xs = ys \<Longrightarrow> s = t \<Longrightarrow> (\<And>x u. x \<in> set ys \<Longrightarrow> f u x = g u x) \<Longrightarrow>
   fold_res f s xs = fold_res g t ys"
  by (induction xs arbitrary: s t ys) (auto intro!: bind_res_cong)

lemma map_res_length: "map_res f xs = Inr ys \<Longrightarrow> length ys = length xs"
  by (induction xs arbitrary: ys) (auto simp: result_simps)

lemma fold_res_append:
  "fold_res f s (xs @ ys) = bind_res (fold_res f s xs) (\<lambda>t. fold_res f t ys)"
proof (induction xs arbitrary: s)
  case (Cons x xs)
  then show ?case by (cases "f s x") simp_all
qed simp

lemma fold_res_invariant:
  assumes "fold_res f s xs = Inr t" "I s"
    and "\<And>u x v. x \<in> set xs \<Longrightarrow> I u \<Longrightarrow> f u x = Inr v \<Longrightarrow> I v"
  shows "I t"
  using assms
proof (induction xs arbitrary: s)
  case (Cons x xs)
  from Cons.prems(1) obtain u where "f s x = Inr u" "fold_res f u xs = Inr t"
    by (auto simp: result_simps)
  with Cons.prems(2,3) Cons.IH [of u] show ?case by auto
qed simp

section \<open>Buffers\<close>

type_synonym byte = "8 word"
type_synonym bytes = "byte list"

text \<open>\<open>buf.subarray(a, b)\<close> for \<open>0 \<le> a\<close> and \<open>0 \<le> b\<close>: both ends are clamped to the length.\<close>

definition subarray :: "'a list \<Rightarrow> nat \<Rightarrow> nat \<Rightarrow> 'a list" where
  "subarray xs a b = take (b - a) (drop a xs)"

lemma length_subarray [simp]: "length (subarray xs a b) = min (b - a) (length xs - a)"
  by (simp add: subarray_def)

lemma subarray_append_right [buffer_simps]:
  "length xs \<le> a \<Longrightarrow> subarray (xs @ ys) a b = subarray ys (a - length xs) (b - length xs)"
  by (simp add: subarray_def)

lemma subarray_append_left [buffer_simps]:
  "b \<le> length xs \<Longrightarrow> subarray (xs @ ys) a b = subarray xs a b"
  by (cases "a \<le> b") (simp_all add: subarray_def)

lemma subarray_whole [buffer_simps]: "length xs \<le> b \<Longrightarrow> subarray xs 0 b = xs"
  by (simp add: subarray_def)

lemma subarray_empty [simp]: "b \<le> a \<Longrightarrow> subarray xs a b = []"
  by (simp add: subarray_def)

text \<open>The position of the first occurrence; JavaScript's \<open>indexOf\<close> returns -1 for \<open>None\<close>.\<close>

fun index_of :: "'a \<Rightarrow> 'a list \<Rightarrow> nat option" where
  "index_of y [] = None"
| "index_of y (x # xs) = (if x = y then Some 0 else map_option Suc (index_of y xs))"

lemma index_of_None_iff: "index_of y xs = None \<longleftrightarrow> y \<notin> set xs"
  by (induction xs) auto

lemma index_of_SomeD:
  "index_of y xs = Some i \<Longrightarrow> i < length xs \<and> xs ! i = y \<and> y \<notin> set (take i xs)"
  by (induction xs arbitrary: i) (auto split: if_splits)

lemma index_of_append:
  "index_of y (xs @ ys) =
     (case index_of y xs of Some i \<Rightarrow> Some i | None \<Rightarrow> map_option (\<lambda>i. length xs + i) (index_of y ys))"
proof (induction xs)
  case Nil
  show ?case by (cases "index_of y ys") simp_all
next
  case (Cons x xs)
  then show ?case
    by (cases "index_of y ys") (auto simp: option.map_comp comp_def split: option.splits)
qed

lemma index_of_first [simp]: "y \<notin> set xs \<Longrightarrow> index_of y (xs @ y # ys) = Some (length xs)"
  by (simp add: index_of_append index_of_None_iff [symmetric])

text \<open>
  \<open>le_nat\<close> reads a byte list as a little-endian number, \<open>le_bytes k n\<close> writes the low
  \<open>k\<close> bytes of \<open>n\<close>.
\<close>

fun le_nat :: "bytes \<Rightarrow> nat" where
  "le_nat [] = 0"
| "le_nat (b # bs) = unat b + 256 * le_nat bs"

fun le_bytes :: "nat \<Rightarrow> nat \<Rightarrow> bytes" where
  "le_bytes 0 n = []"
| "le_bytes (Suc k) n = of_nat n # le_bytes k (n div 256)"

lemma length_le_bytes [simp]: "length (le_bytes k n) = k"
  by (induction k arbitrary: n) simp_all

lemma unat_of_nat_byte [simp]: "unat (of_nat n :: byte) = n mod 256"
  by (simp add: unat_of_nat)

lemma unat_byte_less [simp]: "unat (b :: byte) < 256"
  using unsigned_less [of b] by simp

lemma le_nat_le_bytes: "le_nat (le_bytes k n) = n mod 256 ^ k"
proof (induction k arbitrary: n)
  case (Suc k)
  have "n mod (256 * 256 ^ k) = 256 * (n div 256 mod 256 ^ k) + n mod 256"
    by (rule mod_mult2_eq)
  then show ?case by (simp add: Suc)
qed simp

lemma le_nat_le_bytes_id: "n < 256 ^ k \<Longrightarrow> le_nat (le_bytes k n) = n"
  by (simp add: le_nat_le_bytes)

lemma le_nat_less: "le_nat bs < 256 ^ length bs"
proof (induction bs)
  case (Cons b bs)
  have "unat b < 256" by simp
  then have "unat b + 256 * le_nat bs < 256 * (1 + le_nat bs)" by simp
  also have "\<dots> \<le> 256 * 256 ^ length bs"
    using Cons.IH by (intro mult_le_mono2) simp
  finally show ?case by simp
qed simp

lemma le_bytes_le_nat: "le_bytes (length bs) (le_nat bs) = bs"
proof (induction bs)
  case (Cons b bs)
  have "(unat b + 256 * le_nat bs) div 256 = le_nat bs" by simp
  moreover have "unat (of_nat (unat b + 256 * le_nat bs) :: byte) = unat b"
    by (simp only: unat_of_nat_byte) simp
  then have "(of_nat (unat b + 256 * le_nat bs) :: byte) = b"
    by (simp only: word_unat_eq_iff)
  ultimately show ?case using Cons.IH by (simp del: of_nat_add of_nat_mult)
qed simp

text \<open>
  \<open>readUInt32LE\<close> and \<open>readBigUInt64LE\<close>. Node throws outside the buffer; every read of the
  modelled code stands behind a length check of the source, which the models keep.
\<close>

definition read_u32 :: "bytes \<Rightarrow> nat \<Rightarrow> nat" where
  "read_u32 bs off = le_nat (subarray bs off (off + 4))"

definition read_u64 :: "bytes \<Rightarrow> nat \<Rightarrow> nat" where
  "read_u64 bs off = le_nat (subarray bs off (off + 8))"

lemma read_u32_append_right [buffer_simps]:
  "length xs \<le> off \<Longrightarrow> read_u32 (xs @ ys) off = read_u32 ys (off - length xs)"
  by (auto simp: read_u32_def subarray_def dest!: le_Suc_ex)

lemma read_u64_append_right [buffer_simps]:
  "length xs \<le> off \<Longrightarrow> read_u64 (xs @ ys) off = read_u64 ys (off - length xs)"
  by (auto simp: read_u64_def subarray_def dest!: le_Suc_ex)

lemma read_u32_append_left [buffer_simps]:
  "off + 4 \<le> length xs \<Longrightarrow> read_u32 (xs @ ys) off = read_u32 xs off"
  by (simp add: read_u32_def buffer_simps)

lemma read_u64_append_left [buffer_simps]:
  "off + 8 \<le> length xs \<Longrightarrow> read_u64 (xs @ ys) off = read_u64 xs off"
  by (simp add: read_u64_def buffer_simps)

lemma read_u32_le_bytes [buffer_simps]: "n < 2 ^ 32 \<Longrightarrow> read_u32 (le_bytes 4 n) 0 = n"
  by (simp add: read_u32_def subarray_def le_nat_le_bytes_id)

lemma read_u64_le_bytes [buffer_simps]: "n < 2 ^ 64 \<Longrightarrow> read_u64 (le_bytes 8 n) 0 = n"
  by (simp add: read_u64_def subarray_def le_nat_le_bytes_id)

lemma read_u32_less: "read_u32 bs off < 2 ^ 32"
proof -
  have "le_nat (subarray bs off (off + 4)) < 256 ^ length (subarray bs off (off + 4))"
    by (rule le_nat_less)
  also have "\<dots> \<le> 256 ^ 4" by (intro power_increasing) simp_all
  finally show ?thesis by (simp add: read_u32_def)
qed

section \<open>Association lists\<close>

lemma map_of_filter_key: "map_of (filter (\<lambda>(d, _). P d) xs) k = (if P k then map_of xs k else None)"
  by (induction xs) auto

end
