(* ===== verification/Js_Text.thy ===== *)
theory Js_Text
  imports Prelude
begin

text \<open>
  The string operations and the number conversions of the JavaScript standard library that
  the components use: \<open>startsWith\<close>, \<open>split\<close>, \<open>trim\<close>, decimal parsing by \<open>Number\<close> and
  \<open>Number.parseInt\<close>, and the rounding of large integers to a double.

  White space is ASCII white space: the multi-byte spaces that JavaScript also trims do not
  occur in the texts modelled here (flag values, wire headers, pid files).
\<close>

section \<open>Strings\<close>

definition starts_with :: "string \<Rightarrow> string \<Rightarrow> bool" where
  "starts_with s p \<longleftrightarrow> take (length p) s = p"

lemma starts_with_append [simp]: "starts_with (p @ s) p"
  by (simp add: starts_with_def)

lemma starts_with_iff: "starts_with s p \<longleftrightarrow> (\<exists>r. s = p @ r)"
  unfolding starts_with_def by (metis append_eq_conv_conj append_take_drop_id)

text \<open>\<open>s.split(c)\<close> for a separator of one character; the result is never empty.\<close>

fun cons_head :: "'a \<Rightarrow> 'a list list \<Rightarrow> 'a list list" where
  "cons_head x [] = [[x]]"
| "cons_head x (y # ys) = (x # y) # ys"

fun split_on :: "char \<Rightarrow> string \<Rightarrow> string list" where
  "split_on c [] = [[]]"
| "split_on c (x # xs) = (if x = c then [] # split_on c xs else cons_head x (split_on c xs))"

lemma split_on_not_Nil [simp]: "split_on c s \<noteq> []"
  by (induction s) (auto, metis cons_head.elims list.distinct(1))

lemma split_on_absent [simp]: "c \<notin> set s \<Longrightarrow> split_on c s = [s]"
  by (induction s) auto

lemma split_on_append: "c \<notin> set s \<Longrightarrow> split_on c (s @ c # t) = s # split_on c t"
  by (induction s) auto

lemma split_on_parts: "p \<in> set (split_on c s) \<Longrightarrow> c \<notin> set p"
proof (induction s arbitrary: p)
  case (Cons x s)
  then show ?case by (cases "split_on c s") (auto split: if_splits)
qed simp

text \<open>\<open>xs.join(c)\<close>.\<close>

fun join_on :: "char \<Rightarrow> string list \<Rightarrow> string" where
  "join_on c [] = []"
| "join_on c [s] = s"
| "join_on c (s # t # ts) = s @ c # join_on c (t # ts)"

lemma join_on_cons_head: "ps \<noteq> [] \<Longrightarrow> join_on c (cons_head x ps) = x # join_on c ps"
  by (cases ps; cases "tl ps") simp_all

lemma join_split_on: "join_on c (split_on c s) = s"
proof (induction s)
  case (Cons x s)
  show ?case
  proof (cases "x = c")
    case True
    obtain p ps where "split_on c s = p # ps" by (meson list.exhaust split_on_not_Nil)
    with True Cons.IH show ?thesis by simp
  next
    case False
    then show ?thesis using Cons.IH by (simp add: join_on_cons_head)
  qed
qed simp

lemma join_on_append: "xs \<noteq> [] \<Longrightarrow> ys \<noteq> [] \<Longrightarrow> join_on c (xs @ ys) = join_on c xs @ c # join_on c ys"
proof (induction c xs rule: join_on.induct)
  case (2 c s)
  then show ?case by (cases ys) simp_all
qed simp_all

lemma split_on_concat: "split_on c (s @ c # t) = split_on c s @ split_on c t"
proof (induction s)
  case (Cons x s)
  obtain p ps where "split_on c s = p # ps" by (meson list.exhaust split_on_not_Nil)
  with Cons.IH show ?case by simp
qed simp

definition is_space :: "char \<Rightarrow> bool" where
  "is_space c \<longleftrightarrow> (of_char c :: nat) \<in> {9, 10, 11, 12, 13, 32}"

definition trim_start :: "string \<Rightarrow> string" where
  "trim_start s = dropWhile is_space s"

definition trim :: "string \<Rightarrow> string" where
  "trim s = rev (dropWhile is_space (rev (dropWhile is_space s)))"

abbreviation nl_char :: char where "nl_char \<equiv> CHR 0x0A"
abbreviation cr_char :: char where "cr_char \<equiv> CHR 0x0D"

text \<open>\<open>s.split(/\r?\n/)\<close> and \<open>s.split(/\s+/)\<close>.\<close>

fun split_crlf :: "string \<Rightarrow> string list" where
  "split_crlf [] = [[]]"
| "split_crlf (x # xs) =
     (if x = nl_char then [] # split_crlf xs
      else if x = cr_char \<and> take 1 xs = [nl_char] then split_crlf xs
      else cons_head x (split_crlf xs))"

text \<open>
  The second equation leaves a carriage return out when a line feed follows: the separator
  is then the pair, and the recursive call meets the line feed next.
\<close>

fun split_spaces_aux :: "bool \<Rightarrow> string \<Rightarrow> string list" where
  "split_spaces_aux in_run [] = [[]]"
| "split_spaces_aux in_run (x # xs) =
     (if is_space x then (if in_run then split_spaces_aux True xs else [] # split_spaces_aux True xs)
      else cons_head x (split_spaces_aux False xs))"

definition split_spaces :: "string \<Rightarrow> string list" where
  "split_spaces s = split_spaces_aux False s"

lemma split_crlf_sample: "split_crlf (''ab'' @ [cr_char, nl_char] @ ''c'' @ [nl_char]) = [''ab'', ''c'', '''']"
  by simp

lemma split_spaces_sample: "split_spaces ''attach  x y'' = [''attach'', ''x'', ''y'']"
  by (simp add: split_spaces_def is_space_def)

text \<open>\<open>buf.toString("ascii")\<close> clears the top bit of every byte (Node's documented decoding).\<close>

definition ascii_of :: "bytes \<Rightarrow> string" where
  "ascii_of bs = map (\<lambda>b. char_of (unat b mod 128)) bs"

text \<open>\<open>Buffer.from(s)\<close>: the bytes of a string.\<close>

definition bytes_of :: "string \<Rightarrow> bytes" where
  "bytes_of s = map (\<lambda>c. of_nat (of_char c)) s"

definition text_of :: "bytes \<Rightarrow> string" where
  "text_of bs = map (\<lambda>b. char_of (unat b)) bs"

lemma text_of_bytes_of [simp]: "text_of (bytes_of s) = s"
  by (simp add: text_of_def bytes_of_def comp_def map_idI)

lemma text_of_append [simp]: "text_of (xs @ ys) = text_of xs @ text_of ys"
  by (simp add: text_of_def)

lemma bytes_of_append [simp]: "bytes_of (xs @ ys) = bytes_of xs @ bytes_of ys"
  by (simp add: bytes_of_def)

lemma length_bytes_of [simp]: "length (bytes_of s) = length s"
  by (simp add: bytes_of_def)

definition is_ascii :: "string \<Rightarrow> bool" where
  "is_ascii s \<longleftrightarrow> (\<forall>c \<in> set s. (of_char c :: nat) < 128)"

lemma ascii_of_bytes_of: "is_ascii s \<Longrightarrow> ascii_of (bytes_of s) = s"
  by (induction s) (simp_all add: ascii_of_def bytes_of_def is_ascii_def)

section \<open>Decimal numbers\<close>

definition is_digit :: "char \<Rightarrow> bool" where
  "is_digit c \<longleftrightarrow> 48 \<le> (of_char c :: nat) \<and> (of_char c :: nat) \<le> 57"

definition digit_val :: "char \<Rightarrow> nat" where
  "digit_val c = of_char c - 48"

text \<open>\<open>/^[0-9]+$/.test(s)\<close>\<close>

definition all_digits :: "string \<Rightarrow> bool" where
  "all_digits s \<longleftrightarrow> s \<noteq> [] \<and> list_all is_digit s"

definition dec_value :: "string \<Rightarrow> nat" where
  "dec_value s = foldl (\<lambda>n c. 10 * n + digit_val c) 0 s"

fun dec_string :: "nat \<Rightarrow> string" where
  "dec_string n =
     (if n < 10 then [char_of (48 + n)] else dec_string (n div 10) @ [char_of (48 + n mod 10)])"

declare dec_string.simps [simp del]

lemma dec_value_snoc: "dec_value (s @ [c]) = 10 * dec_value s + digit_val c"
  by (simp add: dec_value_def)

lemma digit_val_char [simp]: "(d::nat) < 10 \<Longrightarrow> digit_val (char_of (48 + d)) = d"
  by (simp add: digit_val_def)

lemma is_digit_char [simp]: "(d::nat) < 10 \<Longrightarrow> is_digit (char_of (48 + d))"
  by (simp add: is_digit_def)

lemma dec_value_dec_string [simp]: "dec_value (dec_string n) = n"
proof (induction n rule: dec_string.induct)
  case (1 n)
  show ?case
  proof (cases "n < 10")
    case True
    then show ?thesis by (simp add: dec_string.simps [of n] dec_value_def)
  next
    case False
    with 1 have "dec_value (dec_string (n div 10)) = n div 10" by blast
    with False show ?thesis by (simp add: dec_string.simps [of n] dec_value_snoc)
  qed
qed

lemma all_digits_dec_string [simp]: "all_digits (dec_string n)"
proof (induction n rule: dec_string.induct)
  case (1 n)
  show ?case
  proof (cases "n < 10")
    case True
    then show ?thesis by (simp add: dec_string.simps [of n] all_digits_def)
  next
    case False
    with 1 have "all_digits (dec_string (n div 10))" by blast
    with False show ?thesis by (simp add: dec_string.simps [of n] all_digits_def)
  qed
qed

lemma dec_string_not_Nil [simp]: "dec_string n \<noteq> []"
  using all_digits_dec_string [of n] by (simp add: all_digits_def)

lemma dec_string_digit: "c \<in> set (dec_string n) \<Longrightarrow> is_digit c"
  using all_digits_dec_string [of n] by (auto simp: all_digits_def list_all_iff)

lemma dec_string_ascii [simp]: "is_ascii (dec_string n)"
  unfolding is_ascii_def using dec_string_digit [of _ n] by (fastforce simp: is_digit_def)

lemma dec_string_absent: "\<not> is_digit c \<Longrightarrow> c \<notin> set (dec_string n)"
  using dec_string_digit by blast

subsection \<open>Doubles\<close>

text \<open>
  \<open>Number(n)\<close> of a non-negative integer: exact below \<open>2 ^ 53\<close>, else rounded to 53
  significant bits, ties to even.
\<close>

definition div_half_even :: "nat \<Rightarrow> nat \<Rightarrow> nat" where
  "div_half_even a b =
     (let q = a div b; r = a mod b
      in if 2 * r < b \<or> (2 * r = b \<and> even q) then q else Suc q)"

fun bit_len :: "nat \<Rightarrow> nat" where
  "bit_len n = (if n = 0 then 0 else Suc (bit_len (n div 2)))"

declare bit_len.simps [simp del]

definition round53 :: "nat \<Rightarrow> nat" where
  "round53 n =
     (if n < 2 ^ 53 then n
      else (let e = bit_len n - 53 in div_half_even n (2 ^ e) * 2 ^ e))"

lemma round53_exact [simp]: "n < 2 ^ 53 \<Longrightarrow> round53 n = n"
  by (simp add: round53_def)

text \<open>The first integer that rounds to Infinity.\<close>

definition double_overflow :: nat where
  "double_overflow = 2 ^ 1024 - 2 ^ 970"

datatype jsnum = NaN | PosInf | NegInf | Fin int

fun is_finite :: "jsnum \<Rightarrow> bool" where
  "is_finite (Fin n) = True"
| "is_finite _ = False"

definition signed_num :: "bool \<Rightarrow> nat \<Rightarrow> jsnum" where
  "signed_num neg n =
     (if double_overflow \<le> n then (if neg then NegInf else PosInf)
      else Fin (if neg then - int (round53 n) else int (round53 n)))"

text \<open>\<open>Number(s)\<close> of a string of digits, and \<open>Number.parseInt(s, 10)\<close>.\<close>

definition number_of_digits :: "string \<Rightarrow> jsnum" where
  "number_of_digits s = signed_num False (dec_value s)"

definition parse_int :: "string \<Rightarrow> jsnum" where
  "parse_int s0 =
     (let s = trim_start s0;
          neg = (take 1 s = ''-'');
          body = (if neg \<or> take 1 s = ''+'' then drop 1 s else s);
          ds = takeWhile is_digit body
      in if ds = [] then NaN else signed_num neg (dec_value ds))"

lemma double_overflow_large: "2 ^ 53 < double_overflow"
  by (simp add: double_overflow_def)

lemma signed_num_small [simp]: "n < 2 ^ 53 \<Longrightarrow> signed_num False n = Fin (int n)"
  using double_overflow_large by (simp add: signed_num_def)

lemma takeWhile_digits: "list_all is_digit s \<Longrightarrow> takeWhile is_digit s = s"
  by (simp add: list_all_iff)

lemma parse_int_dec_string [simp]: "n < 2 ^ 53 \<Longrightarrow> parse_int (dec_string n) = Fin (int n)"
proof -
  assume n: "n < 2 ^ 53"
  have d: "all_digits (dec_string n)" by simp
  then have hd: "is_digit (hd (dec_string n))" by (cases "dec_string n") (simp_all add: all_digits_def)
  have trim: "trim_start (dec_string n) = dec_string n"
    using hd by (cases "dec_string n") (auto simp: trim_start_def is_space_def is_digit_def)
  have sign: "take 1 (dec_string n) \<noteq> ''-''" "take 1 (dec_string n) \<noteq> ''+''"
    using hd by (cases "dec_string n"; auto simp: is_digit_def)+
  have digits: "takeWhile is_digit (dec_string n) = dec_string n"
    using d by (intro takeWhile_digits) (simp add: all_digits_def)
  show ?thesis
    using n by (simp add: parse_int_def Let_def trim sign [simplified] digits)
qed

section \<open>A line of text at the head of a buffer\<close>

lemma newline_byte: "nl_char \<notin> set line \<Longrightarrow> (10 :: byte) \<notin> set (bytes_of line)"
proof
  assume line: "nl_char \<notin> set line" and "(10 :: byte) \<in> set (bytes_of line)"
  then obtain c where c: "c \<in> set line" "(of_nat (of_char c) :: byte) = 10"
    unfolding bytes_of_def by (metis (no_types, lifting) image_iff list.set_map)
  have "(of_char c :: nat) = unat (of_nat (of_char c) :: byte)" by (simp add: unat_of_nat)
  then have "of_char c = (of_char nl_char :: nat)" using c(2) by simp
  then have "c = nl_char" by (simp only: of_char_eq_iff)
  then show False using c(1) line by simp
qed

lemma line_head:
  assumes "nl_char \<notin> set line"
  shows "index_of 10 (bytes_of (line @ [nl_char]) @ r) = Some (length line)"
    and "take (length line) (bytes_of (line @ [nl_char]) @ r) = bytes_of line"
    and "drop (Suc (length line)) (bytes_of (line @ [nl_char]) @ r) = r"
proof -
  have split: "bytes_of (line @ [nl_char]) @ r = bytes_of line @ 10 # r" by (simp add: bytes_of_def)
  show "index_of 10 (bytes_of (line @ [nl_char]) @ r) = Some (length line)"
    unfolding split using index_of_first [OF newline_byte [OF assms], of r] by simp
  show "take (length line) (bytes_of (line @ [nl_char]) @ r) = bytes_of line" unfolding split by simp
  show "drop (Suc (length line)) (bytes_of (line @ [nl_char]) @ r) = r" unfolding split by simp
qed

lemma dec_string_no_newline [simp]: "nl_char \<notin> set (dec_string n)"
  by (rule dec_string_absent) (simp add: is_digit_def)

lemma dec_string_no_space [simp]: "CHR '' '' \<notin> set (dec_string n)"
  by (rule dec_string_absent) (simp add: is_digit_def)

end
