(* ===== verification/Vmstate_Codec.thy ===== *)
theory Vmstate_Codec
  imports Js_Text
begin

text \<open>
  The \<open>.vmstate\<close> container of \<^verbatim>\<open>packages/runtime/src/vm/vmstate-chain.ts\<close>: a 64-byte header
  (magic, version, architecture, section count, topology hash) and a sequence of sections,
  each a 16-byte header (tag, id, length) and its payload. \<open>read_vmstate\<close> and
  \<open>write_vmstate\<close> are the code's functions on the file's bytes; the lemmas show that what
  one writes the other reads back. Decompression (zlib) is the parameter \<open>gunzip\<close>.
\<close>

section \<open>Data\<close>

definition TAG_RAM :: "32 word" where "TAG_RAM = 1"
definition TAG_VCPU :: "32 word" where "TAG_VCPU = 2"
definition TAG_RAM_DELTA :: "32 word" where "TAG_RAM_DELTA = 8"
definition TAG_ROOTDISK_DELTA :: "32 word" where "TAG_ROOTDISK_DELTA = 9"

definition ARCH_AARCH64 :: "32 word" where "ARCH_AARCH64 = 1"
definition ARCH_X86_64 :: "32 word" where "ARCH_X86_64 = 2"

definition MAGIC :: bytes where "MAGIC = bytes_of ''VMSTATE'' @ [0]"

abbreviation HEADER_SIZE :: nat where "HEADER_SIZE \<equiv> 64"
abbreviation SECTION_HEADER_SIZE :: nat where "SECTION_HEADER_SIZE \<equiv> 16"
abbreviation MAX_SAFE_INTEGER :: nat where "MAX_SAFE_INTEGER \<equiv> 9007199254740991"

record vmstate_section =
  sec_tag :: "32 word"
  sec_id :: "32 word"
  payload :: bytes

record decoded_vmstate =
  arch :: "32 word option"
  topology_hash :: bytes
  sections :: "vmstate_section list"

datatype boot_code = BOOT_VMSTATE_UNSUPPORTED | BOOT_SNAPSHOT_NOT_FOUND

datatype vm_error =
    Truncated_header nat
  | Bad_magic
  | Unsupported_version nat
  | Unsupported_arch nat
  | Truncated_section_header
  | Section_overflows
  | Gunzip_failed
  | Out_of_range \<comment> \<open>Node's RangeError of a fixed-width write\<close>
  | Not_incremental
  | Boot_error boot_code string
  | Truncated_vcpu_payload
  | Truncated_vcpu_entry
  | Truncated_vcpu_name
  | Truncated_vcpu_value
  | Bad_register_width nat
  | Section_too_large

section \<open>Reading\<close>

definition looks_gzip :: "bytes \<Rightarrow> bool" where
  "looks_gzip raw \<longleftrightarrow> 2 \<le> length raw \<and> raw ! 0 = 0x1f \<and> raw ! 1 = 0x8b"

definition maybe_gunzip :: "(bytes \<Rightarrow> bytes option) \<Rightarrow> bytes \<Rightarrow> vm_error + bytes" where
  "maybe_gunzip gunzip raw =
     (if looks_gzip raw
      then (case gunzip raw of None \<Rightarrow> Inl Gunzip_failed | Some bs \<Rightarrow> Inr bs)
      else Inr raw)"

text \<open>The \<open>for\<close> loop over the section count. A length above \<open>Number.MAX_SAFE_INTEGER\<close> is
  refused by the code; \<open>Number\<close> of the 64-bit length is safe exactly below that bound.\<close>

fun read_sections :: "nat \<Rightarrow> bytes \<Rightarrow> nat \<Rightarrow> vm_error + vmstate_section list" where
  "read_sections 0 bs off = Inr []"
| "read_sections (Suc n) bs off =
     (if length bs < off + SECTION_HEADER_SIZE then Inl Truncated_section_header
      else
        let tag = of_nat (read_u32 bs off);
            id = of_nat (read_u32 bs (off + 4));
            len = read_u64 bs (off + 8);
            off' = off + SECTION_HEADER_SIZE
        in if MAX_SAFE_INTEGER < len \<or> length bs < off' + len then Inl Section_overflows
           else bind_res (read_sections n bs (off' + len)) (\<lambda>rest.
                  Inr (\<lparr>sec_tag = tag, sec_id = id, payload = subarray bs off' (off' + len)\<rparr> # rest)))"

definition parse_vmstate :: "bytes \<Rightarrow> vm_error + decoded_vmstate" where
  "parse_vmstate bs =
     (if length bs < HEADER_SIZE then Inl (Truncated_header (length bs))
      else if subarray bs 0 (length MAGIC) \<noteq> MAGIC then Inl Bad_magic
      else if read_u32 bs 8 \<noteq> 1 then Inl (Unsupported_version (read_u32 bs 8))
      else
        let a = of_nat (read_u32 bs 12)
        in if a \<noteq> ARCH_AARCH64 \<and> a \<noteq> ARCH_X86_64 then Inl (Unsupported_arch (read_u32 bs 12))
           else bind_res (read_sections (read_u32 bs 16) bs HEADER_SIZE) (\<lambda>ss.
                  Inr \<lparr>arch = Some a, topology_hash = subarray bs 24 56, sections = ss\<rparr>))"

definition read_vmstate :: "(bytes \<Rightarrow> bytes option) \<Rightarrow> bytes \<Rightarrow> vm_error + decoded_vmstate" where
  "read_vmstate gunzip raw = bind_res (maybe_gunzip gunzip raw) parse_vmstate"

definition vmstate_section_tags :: "(bytes \<Rightarrow> bytes option) \<Rightarrow> bytes \<Rightarrow> vm_error + 32 word list" where
  "vmstate_section_tags gunzip raw =
     bind_res (read_vmstate gunzip raw) (\<lambda>v. Inr (map sec_tag (sections v)))"

section \<open>Writing\<close>

text \<open>\<open>src.copy(out, off)\<close>: overwrite in place, cut off at the end of the target.\<close>

definition put_at :: "nat \<Rightarrow> bytes \<Rightarrow> bytes \<Rightarrow> bytes" where
  "put_at off src out = take off out @ take (length out - off) src @ drop (off + length src) out"

fun write_sections :: "vmstate_section list \<Rightarrow> nat \<Rightarrow> bytes \<Rightarrow> vm_error + bytes" where
  "write_sections [] off out = Inr out"
| "write_sections (s # ss) off out =
     (let len = length (payload s) in
      if 2 ^ 64 \<le> len then Inl Out_of_range
      else
        let out1 = put_at off (le_bytes 4 (unat (sec_tag s))) out;
            out2 = put_at (off + 4) (le_bytes 4 (unat (sec_id s))) out1;
            out3 = put_at (off + 8) (le_bytes 8 len) out2;
            off' = off + SECTION_HEADER_SIZE;
            out4 = put_at off' (payload s) out3
        in write_sections ss (off' + len) out4)"

definition vmstate_size :: "vmstate_section list \<Rightarrow> nat" where
  "vmstate_size ss = foldl (\<lambda>t s. t + (SECTION_HEADER_SIZE + length (payload s))) HEADER_SIZE ss"

definition write_vmstate :: "decoded_vmstate \<Rightarrow> vm_error + bytes" where
  "write_vmstate v =
     (if 2 ^ 32 \<le> length (sections v) then Inl Out_of_range
      else
        let out0 = replicate (vmstate_size (sections v)) 0;
            out1 = put_at 0 MAGIC out0;
            out2 = put_at 8 (le_bytes 4 1) out1;
            out3 = put_at 12 (le_bytes 4 (unat (case arch v of None \<Rightarrow> ARCH_AARCH64 | Some a \<Rightarrow> a))) out2;
            out4 = put_at 16 (le_bytes 4 (length (sections v))) out3;
            out5 = put_at 24 (topology_hash v) out4
        in write_sections (sections v) HEADER_SIZE out5)"

section \<open>The format\<close>

text \<open>The layout the two functions agree on, as one expression.\<close>

definition encode_section :: "vmstate_section \<Rightarrow> bytes" where
  "encode_section s =
     le_bytes 4 (unat (sec_tag s)) @ le_bytes 4 (unat (sec_id s)) @
     le_bytes 8 (length (payload s)) @ payload s"

definition encode_header :: "32 word \<Rightarrow> nat \<Rightarrow> bytes \<Rightarrow> bytes" where
  "encode_header a n h = MAGIC @ le_bytes 4 1 @ le_bytes 4 (unat a) @ le_bytes 4 n @ replicate 4 0 @ h @ replicate 8 0"

definition encode_vmstate :: "32 word \<Rightarrow> bytes \<Rightarrow> vmstate_section list \<Rightarrow> bytes" where
  "encode_vmstate a h ss = encode_header a (length ss) h @ concat (map encode_section ss)"

definition wf_section :: "vmstate_section \<Rightarrow> bool" where
  "wf_section s \<longleftrightarrow> length (payload s) \<le> MAX_SAFE_INTEGER"

text \<open>What every vmstate the reader returns satisfies.\<close>

definition wf_vmstate :: "decoded_vmstate \<Rightarrow> bool" where
  "wf_vmstate v \<longleftrightarrow>
     (arch v = Some ARCH_AARCH64 \<or> arch v = Some ARCH_X86_64) \<and>
     length (topology_hash v) = 32 \<and> length (sections v) < 2 ^ 32 \<and>
     list_all wf_section (sections v)"

lemma length_MAGIC [simp]: "length MAGIC = 8"
  by (simp add: MAGIC_def)

lemma length_encode_section [simp]: "length (encode_section s) = 16 + length (payload s)"
  by (simp add: encode_section_def)

lemma length_encode_header [simp]: "length (encode_header a n h) = 32 + length h"
  by (simp add: encode_header_def)

lemma vmstate_size_eq: "vmstate_size ss = 64 + length (concat (map encode_section ss))"
proof -
  have "foldl (\<lambda>t s. t + (16 + length (payload s))) k ss = k + length (concat (map encode_section ss))" for k
    by (induction ss arbitrary: k) simp_all
  then show ?thesis by (simp add: vmstate_size_def)
qed

lemma unat_u32_less [simp]: "unat (w :: 32 word) < 2 ^ 32"
  using unsigned_less [of w] by simp

lemma read_u32_of_word [buffer_simps]: "read_u32 (le_bytes 4 (unat (w :: 32 word))) 0 = unat w"
  using unat_u32_less by (rule read_u32_le_bytes)

subsection \<open>The writer produces the format\<close>

lemma write_sections_format:
  assumes "length p = off" "length r = length (concat (map encode_section ss))"
    and "list_all wf_section ss"
  shows "write_sections ss off (p @ r) = Inr (p @ concat (map encode_section ss))"
  using assms
proof (induction ss arbitrary: p off r)
  case (Cons s ss)
  let ?len = "length (payload s)"
  let ?r' = "drop (16 + ?len) r"
  have len: "\<not> 2 ^ 64 \<le> ?len"
    using Cons.prems(3) by (simp add: wf_section_def)
  have r: "16 + ?len \<le> length r" using Cons.prems(2) by simp
  have step: "write_sections (s # ss) off (p @ r) =
      write_sections ss (off + 16 + ?len) ((p @ encode_section s) @ ?r')"
    using len r Cons.prems(1)
    by (simp add: Let_def encode_section_def put_at_def drop_drop add.commute add.left_commute)
  also have "\<dots> = Inr ((p @ encode_section s) @ concat (map encode_section ss))"
    using Cons.prems by (intro Cons.IH) simp_all
  finally show ?case by simp
qed simp

lemma write_vmstate_format:
  assumes "wf_vmstate v" "arch v = Some a"
  shows "write_vmstate v = Inr (encode_vmstate a (topology_hash v) (sections v))"
proof -
  let ?ss = "sections v" and ?h = "topology_hash v"
  let ?body = "replicate (length (concat (map encode_section ?ss))) (0 :: byte)"
  have h: "length ?h = 32" and n: "\<not> 2 ^ 32 \<le> length ?ss" and ss: "list_all wf_section ?ss"
    using assms(1) by (simp_all add: wf_vmstate_def)
  have zeros: "replicate (vmstate_size ?ss) (0 :: byte) = replicate 8 0 @ replicate 4 0 @ replicate 4 0 @
      replicate 4 0 @ replicate 4 0 @ replicate 32 0 @ replicate 8 0 @ ?body"
    by (simp add: vmstate_size_eq replicate_add [symmetric])
  have "write_vmstate v = write_sections ?ss 64 (encode_header a (length ?ss) ?h @ ?body)"
    unfolding write_vmstate_def Let_def if_not_P [OF n] assms(2) option.case zeros
    using h by (simp add: put_at_def encode_header_def)
  also have "\<dots> = Inr (encode_header a (length ?ss) ?h @ concat (map encode_section ?ss))"
    using h ss by (intro write_sections_format) simp_all
  finally show ?thesis by (simp add: encode_vmstate_def)
qed

subsection \<open>The reader reads the format\<close>

lemma read_section_header:
  assumes "length p = off" "length (payload s) < 2 ^ 64"
  shows "read_u32 (p @ encode_section s @ r) off = unat (sec_tag s)"
    and "read_u32 (p @ encode_section s @ r) (off + 4) = unat (sec_id s)"
    and "read_u64 (p @ encode_section s @ r) (off + 8) = length (payload s)"
    and "subarray (p @ encode_section s @ r) (off + 16) (off + 16 + length (payload s)) = payload s"
  using assms by (simp_all add: encode_section_def buffer_simps subarray_def)

lemma read_sections_format:
  assumes "length p = off" "list_all wf_section ss"
  shows "read_sections (length ss) (p @ concat (map encode_section ss) @ r) off = Inr ss"
  using assms
proof (induction ss arbitrary: p off)
  case (Cons s ss)
  let ?rest = "concat (map encode_section ss) @ r"
  have w: "length (payload s) \<le> MAX_SAFE_INTEGER" using Cons.prems by (simp add: wf_section_def)
  have hd: "length (payload s) < 2 ^ 64" using w by simp
  have IH: "read_sections (length ss) ((p @ encode_section s) @ ?rest) (off + 16 + length (payload s)) = Inr ss"
    using Cons.prems by (intro Cons.IH) simp_all
  note fields = read_section_header [OF Cons.prems(1) hd, where r = ?rest]
  show ?case
    using w Cons.prems(1) IH
    by (simp add: Let_def fields add.assoc [symmetric])
qed simp

lemma parse_encode_vmstate:
  assumes "a = ARCH_AARCH64 \<or> a = ARCH_X86_64" "length h = 32" "length ss < 2 ^ 32" "list_all wf_section ss"
  shows "parse_vmstate (encode_vmstate a h ss @ r) = Inr \<lparr>arch = Some a, topology_hash = h, sections = ss\<rparr>"
proof -
  let ?hd = "encode_header a (length ss) h"
  let ?bs = "?hd @ concat (map encode_section ss) @ r"
  have "length ?bs \<ge> 64" using assms(2) by simp
  moreover have "subarray ?bs 0 8 = MAGIC" "read_u32 ?bs 8 = 1" "read_u32 ?bs 12 = unat a"
      "read_u32 ?bs 16 = length ss" "subarray ?bs 24 56 = h"
    using assms(2,3) by (simp_all add: encode_header_def buffer_simps subarray_def)
  moreover have "read_sections (length ss) ?bs 64 = Inr ss"
    using assms(2,4) by (intro read_sections_format) simp_all
  ultimately show ?thesis
    using assms(1) by (auto simp: parse_vmstate_def encode_vmstate_def Let_def)
qed

lemma encode_vmstate_raw: "\<not> looks_gzip (encode_vmstate a h ss)"
  by (simp add: looks_gzip_def encode_vmstate_def encode_header_def MAGIC_def bytes_of_def)

lemma encode_vmstate_not_gzip: "maybe_gunzip gz (encode_vmstate a h ss) = Inr (encode_vmstate a h ss)"
  by (simp add: maybe_gunzip_def encode_vmstate_raw)

subsection \<open>What the reader returns is well formed\<close>

lemma read_sections_wf:
  "read_sections n bs off = Inr ss \<Longrightarrow> length ss = n \<and> list_all wf_section ss"
proof (induction n arbitrary: off ss)
  case (Suc n)
  let ?len = "read_u64 bs (off + 8)"
  from Suc.prems obtain s rest where ss: "ss = s # rest"
    and rest: "read_sections n bs (off + 16 + ?len) = Inr rest"
    and s: "payload s = subarray bs (off + 16) (off + 16 + ?len)"
    and len: "?len \<le> MAX_SAFE_INTEGER"
    by (auto simp: Let_def result_simps split: if_splits)
  then show ?case using Suc.IH [OF rest] by (simp add: wf_section_def)
qed simp

lemma parse_vmstate_wf: "parse_vmstate bs = Inr v \<Longrightarrow> wf_vmstate v"
  using read_u32_less [of bs 16]
  by (auto simp: parse_vmstate_def wf_vmstate_def Let_def result_simps
      dest!: read_sections_wf split: if_splits)

lemma read_vmstate_wf: "read_vmstate gz raw = Inr v \<Longrightarrow> wf_vmstate v"
  by (auto simp: read_vmstate_def result_simps dest: parse_vmstate_wf)

lemma write_read_vmstate:
  assumes "wf_vmstate v" "write_vmstate v = Inr bs"
  shows "read_vmstate gz bs = Inr v"
proof -
  obtain a where a: "arch v = Some a" "a = ARCH_AARCH64 \<or> a = ARCH_X86_64"
    using assms(1) by (auto simp: wf_vmstate_def)
  then have bs: "bs = encode_vmstate a (topology_hash v) (sections v)"
    using write_vmstate_format [OF assms(1) a(1)] assms(2) by simp
  have "parse_vmstate (encode_vmstate a (topology_hash v) (sections v) @ []) =
      Inr \<lparr>arch = Some a, topology_hash = topology_hash v, sections = sections v\<rparr>"
    using assms(1) a(2) by (intro parse_encode_vmstate) (simp_all add: wf_vmstate_def)
  then show ?thesis
    using a(1) by (simp add: bs read_vmstate_def encode_vmstate_not_gzip)
qed

end
