(* ===== verification/Rootdisk_Delta.thy ===== *)
theory Rootdisk_Delta
  imports Vmstate_Codec
begin

text \<open>
  Rootdisk deltas of \<^verbatim>\<open>packages/runtime/src/vm/vmstate-chain.ts\<close>: a 56-byte header (disk size,
  block size, SHA-256 of the body) and extents, each an offset, a length and the bytes to
  write. The disk is the byte list of the file that the code writes through \<open>fd\<close>; a failing
  step returns the disk as far as it was written. Parameters: \<open>sha256\<close> (node:crypto), and
  \<open>accept n\<close>, the number of bytes the kernel takes of a write of \<open>n\<close> bytes.
\<close>

abbreviation DELTA_HEADER_SIZE :: nat where "DELTA_HEADER_SIZE \<equiv> 56"
abbreviation DELTA_BLOCK_SIZE :: nat where "DELTA_BLOCK_SIZE \<equiv> 4096"

record rootdisk_delta =
  disk_size :: nat
  body :: bytes

record delta_extent =
  extent_off :: nat
  extent_len :: nat
  data_off :: nat

abbreviation unsupported :: "string \<Rightarrow> vm_error" where
  "unsupported m \<equiv> Boot_error BOOT_VMSTATE_UNSUPPORTED m"

section \<open>The header\<close>

definition assert_delta_header :: "bytes \<Rightarrow> vm_error + unit" where
  "assert_delta_header p =
     (if length p < DELTA_HEADER_SIZE then Inl (unsupported ''truncated rootdisk delta header'') else Inr ())"

definition read_delta_disk_size :: "bytes \<Rightarrow> vm_error + nat" where
  "read_delta_disk_size p =
     (let n = read_u64 p 0 in
      if MAX_SAFE_INTEGER < n then Inl (unsupported ''invalid rootdisk delta size'') else Inr n)"

definition assert_delta_block_size :: "nat \<Rightarrow> vm_error + unit" where
  "assert_delta_block_size n =
     (if n \<noteq> DELTA_BLOCK_SIZE then Inl (unsupported ''unsupported rootdisk delta block size'') else Inr ())"

definition assert_delta_size_matches :: "bytes \<Rightarrow> nat \<Rightarrow> vm_error + unit" where
  "assert_delta_size_matches disk n =
     (if length disk \<noteq> n then Inl (unsupported ''rootdisk delta size mismatch'') else Inr ())"

definition assert_delta_hash :: "(bytes \<Rightarrow> bytes) \<Rightarrow> bytes \<Rightarrow> bytes \<Rightarrow> vm_error + unit" where
  "assert_delta_hash sha256 p b =
     (if sha256 b \<noteq> subarray p 16 48 then Inl (unsupported ''rootdisk delta hash mismatch'') else Inr ())"

definition parse_delta_payload :: "(bytes \<Rightarrow> bytes) \<Rightarrow> bytes \<Rightarrow> bytes \<Rightarrow> vm_error + rootdisk_delta" where
  "parse_delta_payload sha256 disk p =
     bind_res (assert_delta_header p) (\<lambda>_.
     bind_res (read_delta_disk_size p) (\<lambda>n.
     bind_res (assert_delta_block_size (read_u32 p 8)) (\<lambda>_.
     bind_res (assert_delta_size_matches disk n) (\<lambda>_.
     let b = drop DELTA_HEADER_SIZE p in
     bind_res (assert_delta_hash sha256 p b) (\<lambda>_.
     Inr \<lparr>disk_size = n, body = b\<rparr>)))))"

section \<open>The extents\<close>

text \<open>The comparisons are on JavaScript numbers, so a difference may be negative.\<close>

definition extent_is_valid :: "rootdisk_delta \<Rightarrow> delta_extent \<Rightarrow> bool" where
  "extent_is_valid d x \<longleftrightarrow>
     extent_off x \<le> MAX_SAFE_INTEGER \<and> extent_len x \<le> MAX_SAFE_INTEGER \<and>
     int (extent_len x) \<le> int (disk_size d) - int (extent_off x) \<and>
     int (extent_len x) \<le> int (length (body d)) - int (data_off x)"

definition read_extent :: "rootdisk_delta \<Rightarrow> nat \<Rightarrow> vm_error + delta_extent" where
  "read_extent d off =
     (if length (body d) < off + 16 then Inl (unsupported ''truncated rootdisk delta extent'')
      else
        let x = \<lparr>extent_off = read_u64 (body d) off, extent_len = read_u64 (body d) (off + 8),
                 data_off = off + 16\<rparr>
        in if extent_is_valid d x then Inr x else Inl (unsupported ''invalid rootdisk delta extent''))"

text \<open>\<open>pwrite\<close>: overwrite in place; a write past the end leaves a hole of zeros.\<close>

definition pwrite :: "bytes \<Rightarrow> bytes \<Rightarrow> nat \<Rightarrow> bytes" where
  "pwrite disk bs pos =
     (if bs = [] then disk
      else take pos (disk @ replicate (pos - length disk) 0) @ bs @ drop (pos + length bs) disk)"

function write_all_at :: "(nat \<Rightarrow> nat) \<Rightarrow> bytes \<Rightarrow> nat \<Rightarrow> nat \<Rightarrow> bytes \<Rightarrow> bytes \<times> vm_error option" where
  "write_all_at accept bs pos off disk =
     (if off < length bs then
        let n = min (accept (length bs - off)) (length bs - off) in
        if n = 0 then (disk, Some (unsupported ''short write applying rootdisk delta''))
        else write_all_at accept bs pos (off + n) (pwrite disk (subarray bs off (off + n)) (pos + off))
      else (disk, None))"
  by pat_completeness auto
termination
  by (relation "measure (\<lambda>(accept, bs, pos, off, disk). length bs - off)") auto

declare write_all_at.simps [simp del]

lemma read_extent_advances: "read_extent d off = Inr x \<Longrightarrow> off < data_off x + extent_len x"
  by (auto simp: read_extent_def Let_def split: if_splits)

function apply_extents :: "(nat \<Rightarrow> nat) \<Rightarrow> rootdisk_delta \<Rightarrow> nat \<Rightarrow> bytes \<Rightarrow> bytes \<times> vm_error option" where
  "apply_extents accept d off disk =
     (if off < length (body d) then
        (case read_extent d off of
           Inl e \<Rightarrow> (disk, Some e)
         | Inr x \<Rightarrow>
             (case write_all_at accept (subarray (body d) (data_off x) (data_off x + extent_len x))
                     (extent_off x) 0 disk of
                (disk', Some e) \<Rightarrow> (disk', Some e)
              | (disk', None) \<Rightarrow> apply_extents accept d (data_off x + extent_len x) disk'))
      else (disk, None))"
  by pat_completeness auto
termination
  by (relation "measure (\<lambda>(accept, d, off, disk). length (body d) - off)")
     (auto dest!: read_extent_advances)

declare apply_extents.simps [simp del]

definition apply_rootdisk_delta ::
    "(bytes \<Rightarrow> bytes) \<Rightarrow> (nat \<Rightarrow> nat) \<Rightarrow> bytes \<Rightarrow> bytes \<Rightarrow> bytes \<times> vm_error option" where
  "apply_rootdisk_delta sha256 accept p disk =
     (case parse_delta_payload sha256 disk p of
        Inl e \<Rightarrow> (disk, Some e)
      | Inr d \<Rightarrow> apply_extents accept d 0 disk)"

section \<open>Writing in place\<close>

lemma length_pwrite [simp]: "pos + length bs \<le> length disk \<Longrightarrow> length (pwrite disk bs pos) = length disk"
  by (simp add: pwrite_def)

lemma pwrite_in_range:
  "pos + length bs \<le> length disk \<Longrightarrow> pwrite disk bs pos = take pos disk @ bs @ drop (pos + length bs) disk"
  by (cases "bs = []") (simp_all add: pwrite_def)

lemma pwrite_pwrite:
  assumes "pos + length bs + length cs \<le> length disk"
  shows "pwrite (pwrite disk bs pos) cs (pos + length bs) = pwrite disk (bs @ cs) pos"
  using assms by (simp add: pwrite_in_range ac_simps)

lemma write_all_at_from:
  assumes "\<And>n. 0 < n \<Longrightarrow> 0 < accept n" "pos + length bs \<le> length disk" "off \<le> length bs"
  shows "write_all_at accept bs pos off (pwrite disk (take off bs) pos) = (pwrite disk bs pos, None)"
  using assms(3)
proof (induction "length bs - off" arbitrary: off rule: less_induct)
  case less
  show ?case
  proof (cases "off < length bs")
    case True
    let ?n = "min (accept (length bs - off)) (length bs - off)"
    have n: "0 < ?n" "off + ?n \<le> length bs" using assms(1) True by auto
    have fit: "pos + length (take off bs) + length (subarray bs off (off + ?n)) \<le> length disk"
      using assms(2) n(2) less.prems by auto
    have "length (take off bs) = off" using less.prems by simp
    moreover have "take off bs @ subarray bs off (off + ?n) = take (off + ?n) bs"
      unfolding subarray_def by (simp only: take_add diff_add_inverse)
    ultimately have "pwrite (pwrite disk (take off bs) pos) (subarray bs off (off + ?n)) (pos + off)
        = pwrite disk (take (off + ?n) bs) pos"
      using pwrite_pwrite [OF fit] by simp
    moreover have "write_all_at accept bs pos (off + ?n) (pwrite disk (take (off + ?n) bs) pos)
        = (pwrite disk bs pos, None)"
      using n True by (intro less.hyps) auto
    ultimately show ?thesis
      using True n by (subst write_all_at.simps) (simp add: Let_def)
  next
    case False
    then show ?thesis using less.prems by (subst write_all_at.simps) simp
  qed
qed

text \<open>However the kernel cuts a write into pieces, the loop writes all of it.\<close>

lemma write_all_at_eq:
  assumes "\<And>n. 0 < n \<Longrightarrow> 0 < accept n" "pos + length bs \<le> length disk"
  shows "write_all_at accept bs pos 0 disk = (pwrite disk bs pos, None)"
  using write_all_at_from [OF assms, where off = 0] by (simp add: pwrite_def)

section \<open>A delta as a list of writes\<close>

text \<open>The format of a delta, and the disk it stands for: its writes in order.\<close>

fun encode_extents :: "(nat \<times> bytes) list \<Rightarrow> bytes" where
  "encode_extents [] = []"
| "encode_extents ((off, data) # xs) = le_bytes 8 off @ le_bytes 8 (length data) @ data @ encode_extents xs"

definition encode_delta :: "(bytes \<Rightarrow> bytes) \<Rightarrow> nat \<Rightarrow> (nat \<times> bytes) list \<Rightarrow> bytes" where
  "encode_delta sha256 n xs =
     le_bytes 8 n @ le_bytes 4 DELTA_BLOCK_SIZE @ replicate 4 0 @
     sha256 (encode_extents xs) @ replicate 8 0 @ encode_extents xs"

fun apply_writes :: "bytes \<Rightarrow> (nat \<times> bytes) list \<Rightarrow> bytes" where
  "apply_writes disk [] = disk"
| "apply_writes disk ((off, data) # xs) = apply_writes (pwrite disk data off) xs"

fun writes_fit :: "nat \<Rightarrow> (nat \<times> bytes) list \<Rightarrow> bool" where
  "writes_fit n [] = True"
| "writes_fit n ((off, data) # xs) = (off + length data \<le> n \<and> writes_fit n xs)"

lemma apply_writes_length: "writes_fit (length disk) xs \<Longrightarrow> length (apply_writes disk xs) = length disk"
  by (induction disk xs rule: apply_writes.induct) simp_all

lemma read_extent_encoded:
  assumes "body d = p @ le_bytes 8 off @ le_bytes 8 (length data) @ data @ r"
    and "off + length data \<le> disk_size d" "disk_size d \<le> MAX_SAFE_INTEGER"
  shows "read_extent d (length p) =
     Inr \<lparr>extent_off = off, extent_len = length data, data_off = length p + 16\<rparr>"
proof -
  have "read_u64 (body d) (length p) = off" "read_u64 (body d) (length p + 8) = length data"
    using assms by (simp_all add: buffer_simps)
  then show ?thesis
    using assms by (simp add: read_extent_def Let_def extent_is_valid_def)
qed

lemma apply_extents_encoded:
  assumes "\<And>n. 0 < n \<Longrightarrow> 0 < accept n"
    and "body d = p @ encode_extents xs" "disk_size d \<le> MAX_SAFE_INTEGER"
    and "length disk = disk_size d" "writes_fit (disk_size d) xs"
  shows "apply_extents accept d (length p) disk = (apply_writes disk xs, None)"
  using assms(2,4,5)
proof (induction xs arbitrary: p disk rule: encode_extents.induct)
  case 1
  then show ?case by (subst apply_extents.simps) simp
next
  case (2 off data xs)
  let ?p' = "p @ le_bytes 8 off @ le_bytes 8 (length data) @ data"
  have b: "body d = p @ le_bytes 8 off @ le_bytes 8 (length data) @ data @ encode_extents xs"
    using "2.prems" by simp
  have fit: "off + length data \<le> disk_size d" using "2.prems" by simp
  have slice: "subarray (body d) (length p + 16) (length p + 16 + length data) = data"
    by (simp add: b subarray_def)
  have wr: "write_all_at accept data off 0 disk = (pwrite disk data off, None)"
    using assms(1) fit "2.prems" by (intro write_all_at_eq) simp_all
  have "apply_extents accept d (length ?p') (pwrite disk data off) = (apply_writes (pwrite disk data off) xs, None)"
    using "2.prems" fit by (intro "2.IH") simp_all
  then show ?case
    using read_extent_encoded [OF b fit assms(3)] slice wr b
    by (subst apply_extents.simps) (simp add: add.assoc)
qed

text \<open>Applying an encoded delta performs exactly its writes.\<close>

lemma apply_encoded_delta:
  assumes "\<And>n. 0 < n \<Longrightarrow> 0 < accept n" "\<And>x. length (sha256 x) = 32"
    and "length disk \<le> MAX_SAFE_INTEGER" "writes_fit (length disk) xs"
  shows "apply_rootdisk_delta sha256 accept (encode_delta sha256 (length disk) xs) disk
     = (apply_writes disk xs, None)"
proof -
  let ?p = "encode_delta sha256 (length disk) xs" and ?b = "encode_extents xs"
  have "read_u64 ?p 0 = length disk" "read_u32 ?p 8 = DELTA_BLOCK_SIZE" "subarray ?p 16 48 = sha256 ?b"
      "drop DELTA_HEADER_SIZE ?p = ?b" "DELTA_HEADER_SIZE \<le> length ?p"
    using assms(2,3) by (simp_all add: encode_delta_def buffer_simps subarray_def)
  then have "parse_delta_payload sha256 disk ?p = Inr \<lparr>disk_size = length disk, body = ?b\<rparr>"
    using assms(3)
    by (simp add: parse_delta_payload_def assert_delta_header_def read_delta_disk_size_def
        assert_delta_block_size_def assert_delta_size_matches_def assert_delta_hash_def Let_def)
  moreover have "apply_extents accept \<lparr>disk_size = length disk, body = ?b\<rparr> (length ([] :: bytes)) disk
      = (apply_writes disk xs, None)"
    using assms by (intro apply_extents_encoded) simp_all
  ultimately show ?thesis by (simp add: apply_rootdisk_delta_def)
qed

section \<open>Any payload at all\<close>

text \<open>A slice that fits is written within the disk, so no payload, however broken, changes
  the disk's size or a byte that none of its extents names.\<close>

lemma write_all_at_length:
  "pos + length bs \<le> length disk \<Longrightarrow> length (fst (write_all_at accept bs pos off disk)) = length disk"
proof (induction accept bs pos off disk rule: write_all_at.induct)
  case (1 accept bs pos off disk)
  let ?n = "min (accept (length bs - off)) (length bs - off)"
  show ?case
  proof (cases "off < length bs \<and> ?n \<noteq> 0")
    case True
    have fit: "pos + off + length (subarray bs off (off + ?n)) \<le> length disk"
      using 1(2) True by auto
    have "length (fst (write_all_at accept bs pos (off + ?n)
        (pwrite disk (subarray bs off (off + ?n)) (pos + off)))) = length disk"
      using True 1(1) [OF _ refl] 1(2) fit by (metis length_pwrite)
    then show ?thesis using True by (subst write_all_at.simps) (simp add: Let_def)
  next
    case False
    then show ?thesis by (subst write_all_at.simps) (auto simp: Let_def)
  qed
qed

lemma read_extent_fits:
  "read_extent d off = Inr x \<Longrightarrow>
   extent_off x + length (subarray (body d) (data_off x) (data_off x + extent_len x)) \<le> disk_size d"
  by (auto simp: read_extent_def extent_is_valid_def Let_def split: if_splits)

lemma apply_extents_length:
  "length disk = disk_size d \<Longrightarrow> length (fst (apply_extents accept d off disk)) = length disk"
proof (induction accept d off disk rule: apply_extents.induct)
  case (1 accept d off disk)
  show ?case
  proof (cases "off < length (body d)")
    case True
    show ?thesis
    proof (cases "read_extent d off")
      case (Inr x)
      let ?s = "subarray (body d) (data_off x) (data_off x + extent_len x)"
      obtain disk' e where w: "write_all_at accept ?s (extent_off x) 0 disk = (disk', e)" by fastforce
      have "length disk' = length disk"
        using write_all_at_length [of "extent_off x" ?s disk accept 0] read_extent_fits [OF Inr] w 1(2)
        by simp
      then show ?thesis
        using True Inr w 1 by (subst apply_extents.simps) (cases e; simp)
    qed (use True in \<open>subst apply_extents.simps, simp\<close>)
  qed (subst apply_extents.simps, simp)
qed

lemma apply_rootdisk_delta_length:
  "length (fst (apply_rootdisk_delta sha256 accept p disk)) = length disk"
proof (cases "parse_delta_payload sha256 disk p")
  case (Inr d)
  then have "length disk = disk_size d"
    by (auto simp: parse_delta_payload_def assert_delta_size_matches_def Let_def result_simps split: if_splits)
  then show ?thesis using Inr by (simp add: apply_rootdisk_delta_def apply_extents_length)
qed (simp add: apply_rootdisk_delta_def)

text \<open>An accepted payload carries the hash of its body.\<close>

lemma apply_rootdisk_delta_hash:
  assumes "apply_rootdisk_delta sha256 accept p disk = (disk', None)"
  shows "sha256 (drop DELTA_HEADER_SIZE p) = subarray p 16 48"
  using assms
  by (cases "parse_delta_payload sha256 disk p")
     (auto simp: apply_rootdisk_delta_def parse_delta_payload_def assert_delta_hash_def Let_def
        result_simps split: if_splits)

end
