(* ===== verification/Posix_Path.thy ===== *)
theory Posix_Path
  imports Js_Text
begin

text \<open>
  The lexical path operations of Node's \<^verbatim>\<open>path\<close> module on POSIX hosts. An absolute,
  normalised path such as \<^verbatim>\<open>/a/b\<close> is the list of its segments, so two paths are the same
  string exactly when they are the same list; a path as a caller writes it is a string.
\<close>

type_synonym path = "string list"

abbreviation slash :: char where "slash \<equiv> CHR ''/''"

definition segments :: "string \<Rightarrow> string list" where
  "segments s = filter (\<lambda>p. p \<noteq> '''' \<and> p \<noteq> ''.'') (split_on slash s)"

definition is_absolute :: "string \<Rightarrow> bool" where
  "is_absolute s \<longleftrightarrow> starts_with s ''/''"

text \<open>Walk the segments over the path read so far (kept reversed); above the root stays at
  the root.\<close>

fun walk :: "string list \<Rightarrow> string list \<Rightarrow> path" where
  "walk acc [] = rev acc"
| "walk acc (p # ps) = (if p = ''..'' then walk (tl acc) ps else walk (p # acc) ps)"

text \<open>\<open>path.resolve(base, s)\<close> for an absolute \<open>base\<close>; \<open>path.resolve(s)\<close> has the working
  directory as its base.\<close>

definition resolve :: "path \<Rightarrow> string \<Rightarrow> path" where
  "resolve base s = walk (if is_absolute s then [] else rev base) (segments s)"

fun strip_common :: "'a list \<Rightarrow> 'a list \<Rightarrow> 'a list \<times> 'a list" where
  "strip_common (x # xs) (y # ys) = (if x = y then strip_common xs ys else (x # xs, y # ys))"
| "strip_common xs ys = (xs, ys)"

text \<open>\<open>path.relative(from, to)\<close> between two resolved paths.\<close>

definition relative :: "path \<Rightarrow> path \<Rightarrow> string" where
  "relative from_dir to_dir =
     (case strip_common from_dir to_dir of
        (up, down) \<Rightarrow> join_on slash (replicate (length up) ''..'' @ down))"

text \<open>A proper segment: what normalisation leaves.\<close>

definition segment_ok :: "string \<Rightarrow> bool" where
  "segment_ok p \<longleftrightarrow> p \<noteq> '''' \<and> p \<noteq> ''.'' \<and> p \<noteq> ''..'' \<and> slash \<notin> set p"

definition canonical :: "path \<Rightarrow> bool" where
  "canonical ps \<longleftrightarrow> list_all segment_ok ps"

lemma segments_no_slash: "p \<in> set (segments s) \<Longrightarrow> p \<noteq> '''' \<and> p \<noteq> ''.'' \<and> slash \<notin> set p"
  by (auto simp: segments_def dest: split_on_parts)

lemma walk_canonical:
  "list_all segment_ok acc \<Longrightarrow> (\<And>p. p \<in> set ps \<Longrightarrow> p \<noteq> '''' \<and> p \<noteq> ''.'' \<and> slash \<notin> set p) \<Longrightarrow>
   canonical (walk acc ps)"
proof (induction acc ps rule: walk.induct)
  case (2 acc p ps)
  show ?case
  proof (cases "p = ''..''")
    case True
    have "list_all segment_ok (tl acc)" using "2.prems"(1) by (cases acc) simp_all
    then show ?thesis using True "2.IH"(1) "2.prems"(2) by simp
  next
    case False
    then show ?thesis using "2.IH"(2) "2.prems" by (simp add: segment_ok_def)
  qed
qed (simp add: canonical_def)

lemma resolve_canonical: "canonical base \<Longrightarrow> canonical (resolve base s)"
  unfolding resolve_def
  by (rule walk_canonical) (auto simp: canonical_def dest: segments_no_slash)

lemma walk_ok: "list_all segment_ok ps \<Longrightarrow> walk acc ps = rev acc @ ps"
  by (induction ps arbitrary: acc) (simp_all add: segment_ok_def)

lemma walk_ups: "walk acc (replicate n ''..'' @ ps) = walk (drop n acc) ps"
  by (induction n arbitrary: acc) (simp_all add: drop_Suc)

lemma split_join_on:
  "ps \<noteq> [] \<Longrightarrow> (\<And>p. p \<in> set ps \<Longrightarrow> c \<notin> set p) \<Longrightarrow> split_on c (join_on c ps) = ps"
proof (induction c ps rule: join_on.induct)
  case (3 c s t ts)
  then show ?case by (simp add: split_on_append)
qed simp_all

lemma segments_join:
  assumes "\<And>p. p \<in> set ps \<Longrightarrow> slash \<notin> set p \<and> p \<noteq> '''' \<and> p \<noteq> ''.''"
  shows "segments (join_on slash ps) = ps"
proof (cases "ps = []")
  case False
  then have "split_on slash (join_on slash ps) = ps"
    using assms by (intro split_join_on) auto
  then show ?thesis using assms by (simp add: segments_def filter_id_conv)
qed (simp add: segments_def)

lemma not_absolute_join:
  assumes "\<And>p. p \<in> set ps \<Longrightarrow> slash \<notin> set p \<and> p \<noteq> ''''"
  shows "\<not> is_absolute (join_on slash ps)"
proof (cases ps)
  case (Cons s ts)
  then obtain c s' where s: "s = c # s'" "c \<noteq> slash" using assms [of s] by (cases s) auto
  have "\<exists>r. join_on slash (s # ts) = c # r" by (cases ts) (simp_all add: s)
  then show ?thesis using s Cons by (auto simp: is_absolute_def starts_with_def)
qed (simp add: is_absolute_def starts_with_def)

lemma strip_common_split:
  "strip_common xs ys = (up, down) \<Longrightarrow> \<exists>zs. xs = zs @ up \<and> ys = zs @ down"
proof (induction xs ys rule: strip_common.induct)
  case (1 x xs y ys)
  show ?case
  proof (cases "x = y")
    case True
    then obtain zs where "xs = zs @ up \<and> ys = zs @ down" using 1 by auto
    then have "x # xs = (x # zs) @ up \<and> y # ys = (x # zs) @ down" using True by simp
    then show ?thesis by blast
  next
    case False
    then show ?thesis using "1.prems" by simp
  qed
qed simp_all

text \<open>Following the relative path from where it starts leads to where it points.\<close>

lemma resolve_relative:
  assumes "canonical from_dir" "canonical to_dir"
  shows "resolve from_dir (relative from_dir to_dir) = to_dir"
proof -
  obtain up down where strip: "strip_common from_dir to_dir = (up, down)" by fastforce
  then obtain zs where zs: "from_dir = zs @ up" "to_dir = zs @ down"
    using strip_common_split by blast
  let ?ps = "replicate (length up) ''..'' @ down"
  have down: "list_all segment_ok down" using assms(2) by (simp add: zs canonical_def)
  have rel: "relative from_dir to_dir = join_on slash ?ps" by (simp add: relative_def strip)
  have ps: "slash \<notin> set p \<and> p \<noteq> '''' \<and> p \<noteq> ''.''" if "p \<in> set ?ps" for p
  proof -
    have "p = ''..'' \<or> p \<in> set down" using that by (cases "length up") auto
    moreover have "slash \<notin> set ''..'' \<and> ''..'' \<noteq> '''' \<and> ''..'' \<noteq> ''.''" by simp
    ultimately show ?thesis using down by (metis list_all_iff segment_ok_def)
  qed
  have seg: "segments (join_on slash ?ps) = ?ps"
    using ps by (rule segments_join)
  have rel_abs: "\<not> is_absolute (join_on slash ?ps)"
    using ps by (intro not_absolute_join) blast
  have "resolve from_dir (relative from_dir to_dir) = walk (drop (length up) (rev from_dir)) down"
    by (simp only: resolve_def rel seg rel_abs if_False walk_ups)
  then show ?thesis using down by (simp add: zs walk_ok)
qed

lemma relative_self: "relative p p = ''''"
proof -
  have "strip_common p p = ([], [])" by (induction p) simp_all
  then show ?thesis by (simp add: relative_def)
qed

lemma resolve_dot: "canonical base \<Longrightarrow> resolve base ''.'' = base"
  by (simp add: resolve_def is_absolute_def starts_with_def segments_def)

section \<open>Texts of paths\<close>

text \<open>The text of a normalised absolute path.\<close>

definition path_text :: "path \<Rightarrow> string" where
  "path_text ps = slash # join_on slash ps"

lemma segments_concat: "segments (s @ slash # t) = segments s @ segments t"
  by (simp add: segments_def split_on_concat)

lemma segments_path_text: "canonical ps \<Longrightarrow> segments (path_text ps) = ps"
proof -
  assume "canonical ps"
  then have "segments (join_on slash ps) = ps"
    by (intro segments_join) (auto simp: canonical_def list_all_iff segment_ok_def)
  then show ?thesis using segments_concat [of "[]" "join_on slash ps"] by (simp add: path_text_def segments_def)
qed

lemma path_text_inj: "canonical a \<Longrightarrow> canonical b \<Longrightarrow> path_text a = path_text b \<Longrightarrow> a = b"
  by (metis segments_path_text)

end
