(* ===== verification/Vmstate_Chain.thy ===== *)
theory Vmstate_Chain
  imports Rootdisk_Delta Posix_Path
begin

text \<open>
  Checkpoint chains of \<^verbatim>\<open>packages/runtime/src/vm/vmstate-chain.ts\<close>: a bundle directory holds
  \<^verbatim>\<open>state.vmstate\<close>, \<^verbatim>\<open>meta.json\<close> and, for a base, the disk image; \<open>meta.json\<close> of a later
  checkpoint names its parent. \<open>materialize_vmstate_chain\<close> walks to the base, combines the
  RAM sections and replays the disk deltas into a fresh directory.

  The host's files are a \<open>store\<close>: the contents of binary files, and of the \<^verbatim>\<open>meta.json\<close>
  files as the parsed document (\<open>None\<close> where JSON.parse rejects the text). Parameters are
  \<open>gunzip\<close>, \<open>sha256\<close>, \<open>accept\<close> (see \<open>Rootdisk_Delta\<close>) and the name \<open>temp_dir\<close> of the fresh
  directory, which the code draws at random. The texts of error messages are cut to their
  fixed part.
\<close>

section \<open>Documents and files\<close>

datatype root_disk =
    Block (rd_file: string) (rd_path: "path option") (rd_size: nat) (rd_sha256: bytes)
  | Delta
  | No_disk

record snapshot_meta =
  root_disk :: "root_disk option"
  checkpoint_parent :: "string option"
  other_fields :: string \<comment> \<open>the remaining fields, carried along as they are\<close>

record store =
  blobs :: "(path \<times> bytes) list"
  metas :: "(path \<times> snapshot_meta option) list"

record chain_item =
  ck_dir :: path
  ck_meta :: snapshot_meta
  ck_state :: decoded_vmstate

definition VMSTATE_FILE :: string where "VMSTATE_FILE = ''state.vmstate''"
definition VMSTATE_ROOTDISK_FILE :: string where "VMSTATE_ROOTDISK_FILE = ''rootdisk.img''"

definition write_blob :: "path \<Rightarrow> bytes \<Rightarrow> store \<Rightarrow> store" where
  "write_blob p bs st = st\<lparr>blobs := (p, bs) # filter (\<lambda>(q, _). q \<noteq> p) (blobs st)\<rparr>"

text \<open>\<open>rmSync(dir, { recursive: true })\<close>\<close>

definition under :: "path \<Rightarrow> path \<Rightarrow> bool" where
  "under dir p \<longleftrightarrow> take (length dir) p = dir"

definition remove_tree :: "path \<Rightarrow> store \<Rightarrow> store" where
  "remove_tree dir st =
     st\<lparr>blobs := filter (\<lambda>(p, _). \<not> under dir p) (blobs st),
        metas := filter (\<lambda>(p, _). \<not> under dir p) (metas st)\<rparr>"

section \<open>Parent links\<close>

definition relative_checkpoint_parent :: "path \<Rightarrow> string \<Rightarrow> string option \<Rightarrow> string option" where
  "relative_checkpoint_parent cwd snap_dir parent_dir =
     (case parent_dir of
        None \<Rightarrow> None
      | Some p \<Rightarrow>
          if p = '''' then None
          else let rel = relative (resolve cwd snap_dir) (resolve cwd p)
               in Some (if rel = '''' then ''.'' else rel))"

text \<open>The code returns an absolute \<open>parent\<close> as it is; its users resolve it.\<close>

definition resolve_checkpoint_parent :: "path \<Rightarrow> string \<Rightarrow> path" where
  "resolve_checkpoint_parent snap_dir parent =
     (if is_absolute parent then resolve [] parent else resolve snap_dir parent)"

definition read_meta :: "store \<Rightarrow> path \<Rightarrow> vm_error + snapshot_meta" where
  "read_meta st dir =
     (case map_of (metas st) (dir @ [''meta.json'']) of
        None \<Rightarrow> Inl (Boot_error BOOT_SNAPSHOT_NOT_FOUND ''checkpoint parent meta missing'')
      | Some None \<Rightarrow> Inl (Boot_error BOOT_SNAPSHOT_NOT_FOUND ''failed to read checkpoint parent meta'')
      | Some (Some m) \<Rightarrow> Inr m)"

lemma filter_shrinks:
  assumes "x \<in> set xs" "P x" "\<not> Q x" "\<And>y. Q y \<Longrightarrow> P y"
  shows "length (filter Q xs) < length (filter P xs)"
  using assms(1)
proof (induction xs)
  case (Cons y ys)
  have "length (filter Q ys) \<le> length (filter P ys)"
    using assms(4) by (induction ys) auto
  then show ?case using Cons assms(2-4) by auto
qed simp

text \<open>
  The walk to the base. The code pushes the items and reverses the list at the end, so
  putting each in front of \<open>out\<close> gives the list it returns, base first. The walk ends: every
  round visits a bundle not seen before, and the store is finite.
\<close>

function read_chain ::
    "(bytes \<Rightarrow> bytes option) \<Rightarrow> store \<Rightarrow> path list \<Rightarrow> chain_item list \<Rightarrow> path \<Rightarrow> snapshot_meta \<Rightarrow>
     vm_error + chain_item list" where
  "read_chain gunzip st seen out dir meta =
     (if dir \<in> set seen then Inl (Boot_error BOOT_VMSTATE_UNSUPPORTED ''checkpoint parent cycle'')
      else
        (case map_of (blobs st) (dir @ [VMSTATE_FILE]) of
           None \<Rightarrow> Inl (Boot_error BOOT_SNAPSHOT_NOT_FOUND ''checkpoint state missing'')
         | Some raw \<Rightarrow>
             bind_res (read_vmstate gunzip raw) (\<lambda>state.
             let out' = \<lparr>ck_dir = dir, ck_meta = meta, ck_state = state\<rparr> # out in
             (case checkpoint_parent meta of
                None \<Rightarrow> Inr out'
              | Some parent \<Rightarrow>
                  if parent = '''' then Inr out'
                  else
                    let dir' = resolve_checkpoint_parent dir parent in
                    bind_res (read_meta st dir') (\<lambda>meta'.
                    read_chain gunzip st (dir # seen) out' dir' meta')))))"
  by pat_completeness auto

termination
proof (relation "measure (\<lambda>(gz, st, seen, out, dir, meta).
    length (filter (\<lambda>p. butlast p \<notin> set seen) (map fst (blobs st))))")
  fix st :: store and seen :: "path list" and dir :: path and raw
  fix gz out meta state out' parent dir' meta'
  assume new: "dir \<notin> set seen" and found: "map_of (blobs st) (dir @ [VMSTATE_FILE]) = Some raw"
  have "dir @ [VMSTATE_FILE] \<in> set (map fst (blobs st))"
    using map_of_SomeD [OF found] by force
  then show "((gz, st, dir # seen, out', dir', meta'), (gz, st, seen, out, dir, meta))
      \<in> measure (\<lambda>(gz, st, seen, out, dir, meta).
          length (filter (\<lambda>p. butlast p \<notin> set seen) (map fst (blobs st))))"
    using new by (auto intro!: filter_shrinks)
qed simp

declare read_chain.simps [simp del]

definition read_checkpoint_chain ::
    "(bytes \<Rightarrow> bytes option) \<Rightarrow> path \<Rightarrow> store \<Rightarrow> string \<Rightarrow> snapshot_meta \<Rightarrow> vm_error + chain_item list" where
  "read_checkpoint_chain gunzip cwd st target_dir target_meta =
     read_chain gunzip st [] [] (resolve cwd target_dir) target_meta"

section \<open>Combining the RAM sections\<close>

text \<open>The \<open>for\<close> loops from the last index down to 0.\<close>

fun latest_from :: "('a \<Rightarrow> bool) \<Rightarrow> 'a list \<Rightarrow> nat \<Rightarrow> nat option" where
  "latest_from P xs 0 = None"
| "latest_from P xs (Suc i) = (if P (xs ! i) then Some i else latest_from P xs i)"

definition find_latest_ram_base :: "chain_item list \<Rightarrow> nat option" where
  "find_latest_ram_base chain =
     latest_from (\<lambda>c. \<exists>s \<in> set (sections (ck_state c)). sec_tag s = TAG_RAM) chain (length chain)"

definition find_latest_rootdisk_base :: "chain_item list \<Rightarrow> nat option" where
  "find_latest_rootdisk_base chain =
     latest_from (\<lambda>c. case root_disk (ck_meta c) of Some (Block _ _ _ _) \<Rightarrow> True | _ \<Rightarrow> False) chain (length chain)"

definition sections_with_tag :: "32 word \<Rightarrow> chain_item \<Rightarrow> vmstate_section list" where
  "sections_with_tag t c = filter (\<lambda>s. sec_tag s = t) (sections (ck_state c))"

definition combine_vmstate_ram :: "chain_item list \<Rightarrow> vm_error + decoded_vmstate" where
  "combine_vmstate_ram chain =
     (let target = ck_state (last chain) in
      case find_latest_ram_base chain of
        None \<Rightarrow> Inl (unsupported ''checkpoint chain has no full RAM base'')
      | Some i \<Rightarrow>
          (case find (\<lambda>s. sec_tag s = TAG_RAM) (sections (ck_state (chain ! i))) of
             None \<Rightarrow> Inl (unsupported ''checkpoint chain has no full RAM base'')
           | Some base_ram \<Rightarrow>
               Inr \<lparr>arch = arch target, topology_hash = topology_hash target,
                    sections = base_ram # concat (map (sections_with_tag TAG_RAM_DELTA) (drop (Suc i) chain)) @
                      filter (\<lambda>s. sec_tag s \<noteq> TAG_RAM \<and> sec_tag s \<noteq> TAG_RAM_DELTA \<and>
                                  sec_tag s \<noteq> TAG_ROOTDISK_DELTA) (sections target)\<rparr>))"

definition state_has_delta_sections :: "(bytes \<Rightarrow> bytes option) \<Rightarrow> bytes \<Rightarrow> vm_error + bool" where
  "state_has_delta_sections gunzip raw =
     bind_res (vmstate_section_tags gunzip raw) (\<lambda>tags.
       Inr (TAG_RAM_DELTA \<in> set tags \<or> TAG_ROOTDISK_DELTA \<in> set tags))"

section \<open>Replaying the disk\<close>

text \<open>The nested loops over the items above the base and their sections, in order.\<close>

fun apply_deltas :: "(bytes \<Rightarrow> bytes) \<Rightarrow> (nat \<Rightarrow> nat) \<Rightarrow> bytes list \<Rightarrow> bytes \<Rightarrow> bytes \<times> vm_error option" where
  "apply_deltas sha256 accept [] disk = (disk, None)"
| "apply_deltas sha256 accept (p # ps) disk =
     (case apply_rootdisk_delta sha256 accept p disk of
        (disk', Some e) \<Rightarrow> (disk', Some e)
      | (disk', None) \<Rightarrow> apply_deltas sha256 accept ps disk')"

definition rootdisk_deltas :: "chain_item list \<Rightarrow> bytes list" where
  "rootdisk_deltas items = map payload (concat (map (sections_with_tag TAG_ROOTDISK_DELTA) items))"

text \<open>\<open>reflinkCopy\<close> copies the base image; \<open>join\<close> resolves the recorded file name.\<close>

definition materialize_rootdisk ::
    "(bytes \<Rightarrow> bytes) \<Rightarrow> (nat \<Rightarrow> nat) \<Rightarrow> path \<Rightarrow> chain_item list \<Rightarrow> store \<Rightarrow> (vm_error + root_disk) \<times> store" where
  "materialize_rootdisk sha256 accept temp_dir chain st =
     (case find_latest_rootdisk_base chain of
        None \<Rightarrow> (Inl (unsupported ''checkpoint chain has no full rootdisk base''), st)
      | Some i \<Rightarrow>
          let dest = temp_dir @ [VMSTATE_ROOTDISK_FILE]; base = chain ! i in
          (case root_disk (ck_meta base) of
             Some (Block f _ _ _) \<Rightarrow>
               (case map_of (blobs st) (walk (rev (ck_dir base)) (segments f)) of
                  None \<Rightarrow> (Inl (Boot_error BOOT_SNAPSHOT_NOT_FOUND ''rootdisk base missing''), st)
                | Some base_image \<Rightarrow>
                    (case apply_deltas sha256 accept (rootdisk_deltas (drop (Suc i) chain)) base_image of
                       (disk, Some e) \<Rightarrow> (Inl e, write_blob dest disk st)
                     | (disk, None) \<Rightarrow>
                         (Inr (Block VMSTATE_ROOTDISK_FILE (Some dest) (length disk) (sha256 disk)),
                          write_blob dest disk st)))
           | _ \<Rightarrow> (Inl (unsupported ''invalid vmstate rootdisk base metadata''), st)))"

section \<open>Materialisation\<close>

record materialized =
  temp_dir_of :: path
  state_path :: path
  meta_of :: snapshot_meta

definition materialize_in ::
    "(bytes \<Rightarrow> bytes) \<Rightarrow> (nat \<Rightarrow> nat) \<Rightarrow> path \<Rightarrow> chain_item list \<Rightarrow> snapshot_meta \<Rightarrow> store \<Rightarrow>
     (vm_error + materialized) \<times> store" where
  "materialize_in sha256 accept temp_dir chain target_meta st =
     (let path = temp_dir @ [VMSTATE_FILE] in
      case bind_res (combine_vmstate_ram chain) write_vmstate of
        Inl e \<Rightarrow> (Inl e, st)
      | Inr bs \<Rightarrow>
          let st1 = write_blob path bs st;
              (disk, st2) =
                (if root_disk target_meta = Some No_disk then (Inr No_disk, st1)
                 else materialize_rootdisk sha256 accept temp_dir chain st1)
          in (case disk of
                Inl e \<Rightarrow> (Inl e, st2)
              | Inr d \<Rightarrow>
                  (Inr \<lparr>temp_dir_of = temp_dir, state_path = path,
                        meta_of = target_meta\<lparr>root_disk := Some d\<rparr>\<rparr>, st2)))"

definition materialize_vmstate_chain ::
    "(bytes \<Rightarrow> bytes option) \<Rightarrow> (bytes \<Rightarrow> bytes) \<Rightarrow> (nat \<Rightarrow> nat) \<Rightarrow> path \<Rightarrow> path \<Rightarrow> string \<Rightarrow> snapshot_meta \<Rightarrow>
     store \<Rightarrow> (vm_error + materialized) \<times> store" where
  "materialize_vmstate_chain gunzip sha256 accept cwd temp_dir target_dir target_meta st =
     (case read_checkpoint_chain gunzip cwd st target_dir target_meta of
        Inl e \<Rightarrow> (Inl e, st)
      | Inr chain \<Rightarrow>
          let deltas = (case map_of (blobs st) (resolve cwd target_dir @ [VMSTATE_FILE]) of
                          None \<Rightarrow> Inr False \<comment> \<open>not reached: the chain holds the target\<close>
                        | Some raw \<Rightarrow> state_has_delta_sections gunzip raw)
          in (case (if length chain = 1 then deltas else Inr True) of
                Inl e \<Rightarrow> (Inl e, st)
              | Inr False \<Rightarrow> (Inl Not_incremental, st)
              | Inr True \<Rightarrow>
                  (case materialize_in sha256 accept temp_dir chain target_meta st of
                     (Inl e, st') \<Rightarrow> (Inl e, remove_tree temp_dir st')
                   | (Inr m, st') \<Rightarrow> (Inr m, st'))))"

section \<open>Parent links lead back\<close>

lemma resolve_checkpoint_parent_eq: "resolve_checkpoint_parent dir p = resolve dir p"
  by (simp add: resolve_checkpoint_parent_def resolve_def)

lemma relative_parent_resolves:
  assumes "canonical cwd" "parent_dir \<noteq> ''''"
  shows "\<exists>rel. relative_checkpoint_parent cwd snap_dir (Some parent_dir) = Some rel \<and> rel \<noteq> '''' \<and>
    resolve_checkpoint_parent (resolve cwd snap_dir) rel = resolve cwd parent_dir"
proof -
  let ?from = "resolve cwd snap_dir" and ?to = "resolve cwd parent_dir"
  have can: "canonical ?from" "canonical ?to" using assms(1) by (simp_all add: resolve_canonical)
  have to_eq: "resolve ?from (relative ?from ?to) = ?to" using can by (rule resolve_relative)
  have "?to = ?from" if "relative ?from ?to = ''''"
    using to_eq that by (simp add: resolve_def is_absolute_def starts_with_def segments_def)
  then show ?thesis
    using assms(2) can to_eq
    by (auto simp: relative_checkpoint_parent_def resolve_checkpoint_parent_eq Let_def resolve_dot)
qed

section \<open>The chain that is read\<close>

text \<open>What it means for a list of items, base first, to be a checkpoint chain of the store:
  the base names no parent, every later item's parent is the item before it, no bundle
  occurs twice, and every state is the decoded file of its bundle.\<close>

definition has_parent :: "snapshot_meta \<Rightarrow> bool" where
  "has_parent m \<longleftrightarrow> checkpoint_parent m \<noteq> None \<and> checkpoint_parent m \<noteq> Some ''''"

definition parent_of :: "store \<Rightarrow> chain_item \<Rightarrow> path \<Rightarrow> snapshot_meta \<Rightarrow> bool" where
  "parent_of st c dir meta \<longleftrightarrow>
     has_parent (ck_meta c) \<and>
     dir = resolve_checkpoint_parent (ck_dir c) (the (checkpoint_parent (ck_meta c))) \<and>
     read_meta st dir = Inr meta"

fun parent_links :: "store \<Rightarrow> chain_item list \<Rightarrow> bool" where
  "parent_links st (c # d # cs) = (parent_of st d (ck_dir c) (ck_meta c) \<and> parent_links st (d # cs))"
| "parent_links st cs = True"

definition state_read :: "(bytes \<Rightarrow> bytes option) \<Rightarrow> store \<Rightarrow> chain_item \<Rightarrow> bool" where
  "state_read gunzip st c \<longleftrightarrow>
     (case map_of (blobs st) (ck_dir c @ [VMSTATE_FILE]) of
        None \<Rightarrow> False
      | Some raw \<Rightarrow> read_vmstate gunzip raw = Inr (ck_state c))"

definition checkpoint_chain :: "(bytes \<Rightarrow> bytes option) \<Rightarrow> store \<Rightarrow> chain_item list \<Rightarrow> bool" where
  "checkpoint_chain gunzip st cs \<longleftrightarrow>
     cs \<noteq> [] \<and> \<not> has_parent (ck_meta (hd cs)) \<and> parent_links st cs \<and>
     distinct (map ck_dir cs) \<and> list_all (state_read gunzip st) cs"

definition pending :: "store \<Rightarrow> chain_item list \<Rightarrow> path \<Rightarrow> snapshot_meta \<Rightarrow> bool" where
  "pending st out dir meta \<longleftrightarrow> (out = [] \<or> parent_of st (hd out) dir meta)"

lemma parent_links_Cons:
  "parent_links st (c # cs) \<longleftrightarrow> (cs = [] \<or> parent_of st (hd cs) (ck_dir c) (ck_meta c)) \<and> parent_links st cs"
  by (cases cs) simp_all

text \<open>One round of the walk, inverted: the item it adds, and either the end or the next round.\<close>

lemma read_chain_round:
  assumes "read_chain gz st seen out dir meta = Inr chain"
  obtains state where "dir \<notin> set seen" "state_read gz st \<lparr>ck_dir = dir, ck_meta = meta, ck_state = state\<rparr>"
    and "if has_parent meta
         then \<exists>dir' meta'. parent_of st \<lparr>ck_dir = dir, ck_meta = meta, ck_state = state\<rparr> dir' meta' \<and>
           read_chain gz st (dir # seen) (\<lparr>ck_dir = dir, ck_meta = meta, ck_state = state\<rparr> # out) dir' meta' = Inr chain
         else chain = \<lparr>ck_dir = dir, ck_meta = meta, ck_state = state\<rparr> # out"
proof -
  have new: "dir \<notin> set seen"
    using assms by (subst (asm) read_chain.simps) (auto split: if_splits)
  obtain raw where raw: "map_of (blobs st) (dir @ [VMSTATE_FILE]) = Some raw"
    using assms new by (subst (asm) read_chain.simps) (auto split: option.splits)
  obtain state where state: "read_vmstate gz raw = Inr state"
    using assms new raw by (subst (asm) read_chain.simps) (auto simp: result_simps)
  show ?thesis
  proof (rule that [of state])
    show "if has_parent meta
         then \<exists>dir' meta'. parent_of st \<lparr>ck_dir = dir, ck_meta = meta, ck_state = state\<rparr> dir' meta' \<and>
           read_chain gz st (dir # seen) (\<lparr>ck_dir = dir, ck_meta = meta, ck_state = state\<rparr> # out) dir' meta' = Inr chain
         else chain = \<lparr>ck_dir = dir, ck_meta = meta, ck_state = state\<rparr> # out"
      using assms new raw state
      by (subst (asm) read_chain.simps)
         (auto simp: has_parent_def parent_of_def Let_def result_simps split: option.splits if_splits)
  qed (use new raw state in \<open>simp_all add: state_read_def\<close>)
qed

lemma read_chain_sound:
  assumes "read_chain gz st seen out dir meta = Inr chain"
    and "pending st out dir meta" "parent_links st out" "distinct (map ck_dir out)"
    and "set (map ck_dir out) = set seen" "list_all (state_read gz st) out"
  shows "checkpoint_chain gz st chain \<and> (\<exists>pre. chain = pre @ out) \<and>
    (out = [] \<longrightarrow> ck_dir (last chain) = dir \<and> ck_meta (last chain) = meta)"
  using assms
proof (induction gz st seen out dir meta rule: read_chain.induct)
  case (1 gz st seen out dir meta)
  obtain state where new: "dir \<notin> set seen"
    and sr: "state_read gz st \<lparr>ck_dir = dir, ck_meta = meta, ck_state = state\<rparr>"
    and next_round: "if has_parent meta
         then \<exists>dir' meta'. parent_of st \<lparr>ck_dir = dir, ck_meta = meta, ck_state = state\<rparr> dir' meta' \<and>
           read_chain gz st (dir # seen) (\<lparr>ck_dir = dir, ck_meta = meta, ck_state = state\<rparr> # out) dir' meta' = Inr chain
         else chain = \<lparr>ck_dir = dir, ck_meta = meta, ck_state = state\<rparr> # out"
    using "1.prems"(1) by (rule read_chain_round)
  let ?c = "\<lparr>ck_dir = dir, ck_meta = meta, ck_state = state\<rparr>"
  have links: "parent_links st (?c # out)"
    using "1.prems"(2,3) by (auto simp: parent_links_Cons pending_def)
  have dist: "distinct (map ck_dir (?c # out))" and seen: "set (map ck_dir (?c # out)) = set (dir # seen)"
    and states: "list_all (state_read gz st) (?c # out)"
    using "1.prems" new sr by auto
  show ?case
  proof (cases "has_parent meta")
    case False
    then show ?thesis
      using next_round links dist states by (auto simp: checkpoint_chain_def)
  next
    case True
    then obtain dir' meta' where p: "parent_of st ?c dir' meta'"
      and rec: "read_chain gz st (dir # seen) (?c # out) dir' meta' = Inr chain"
      using next_round by auto
    obtain raw where raw: "map_of (blobs st) (dir @ [VMSTATE_FILE]) = Some raw" "read_vmstate gz raw = Inr state"
      using sr by (auto simp: state_read_def split: option.splits)
    obtain parent where parent: "checkpoint_parent meta = Some parent" "parent \<noteq> ''''"
      using True by (auto simp: has_parent_def)
    have "dir' = resolve_checkpoint_parent dir parent" "read_meta st dir' = Inr meta'"
      using p parent by (auto simp: parent_of_def)
    then have "checkpoint_chain gz st chain \<and> (\<exists>pre. chain = pre @ ?c # out) \<and>
        (?c # out = [] \<longrightarrow> ck_dir (last chain) = dir' \<and> ck_meta (last chain) = meta')"
      using "1.IH" [OF new raw refl parent refl, of meta'] rec p links dist seen states
      by (simp add: pending_def)
    then show ?thesis by auto
  qed
qed

lemma read_checkpoint_chain_sound:
  assumes "read_checkpoint_chain gz cwd st target_dir target_meta = Inr chain"
  shows "checkpoint_chain gz st chain" "ck_dir (last chain) = resolve cwd target_dir"
    "ck_meta (last chain) = target_meta"
  using read_chain_sound [OF assms [unfolded read_checkpoint_chain_def]]
  by (simp_all add: pending_def)

section \<open>What the combined state holds\<close>

lemma latest_from_Some_iff:
  "latest_from P xs n = Some i \<longleftrightarrow> i < n \<and> P (xs ! i) \<and> (\<forall>j. i < j \<and> j < n \<longrightarrow> \<not> P (xs ! j))"
  by (induction n) (auto simp: less_Suc_eq)

lemma latest_from_split:
  assumes "P x" "\<forall>y \<in> set ys. \<not> P y"
  shows "latest_from P (xs @ x # ys) (length (xs @ x # ys)) = Some (length xs)"
  unfolding latest_from_Some_iff using assms by (auto simp: nth_append nth_Cons')

lemma latest_from_SomeE:
  assumes "latest_from P xs (length xs) = Some i"
  obtains pre x post where "xs = pre @ x # post" "length pre = i" "P x" "\<forall>y \<in> set post. \<not> P y"
proof -
  from assms have i: "i < length xs" "P (xs ! i)" "\<forall>j. i < j \<and> j < length xs \<longrightarrow> \<not> P (xs ! j)"
    by (auto simp: latest_from_Some_iff)
  have "\<not> P y" if "y \<in> set (drop (Suc i) xs)" for y
  proof -
    from that obtain k where "k < length xs - Suc i" "y = xs ! (Suc i + k)"
      by (auto simp: in_set_conv_nth)
    then show ?thesis using i(3) by auto
  qed
  then show thesis
    using that [of "take i xs" "xs ! i" "drop (Suc i) xs"] i id_take_nth_drop [OF i(1)] by simp
qed

definition has_ram :: "chain_item \<Rightarrow> bool" where
  "has_ram c \<longleftrightarrow> (\<exists>s \<in> set (sections (ck_state c)). sec_tag s = TAG_RAM)"

definition device_sections :: "chain_item \<Rightarrow> vmstate_section list" where
  "device_sections c =
     filter (\<lambda>s. sec_tag s \<noteq> TAG_RAM \<and> sec_tag s \<noteq> TAG_RAM_DELTA \<and> sec_tag s \<noteq> TAG_ROOTDISK_DELTA)
       (sections (ck_state c))"

lemma find_latest_ram_base_split:
  "has_ram base \<Longrightarrow> \<forall>c \<in> set post. \<not> has_ram c \<Longrightarrow>
   find_latest_ram_base (pre @ base # post) = Some (length pre)"
  unfolding find_latest_ram_base_def by (rule latest_from_split) (auto simp: has_ram_def)

lemma has_ram_find:
  assumes "has_ram c"
  obtains s where "find (\<lambda>s. sec_tag s = TAG_RAM) (sections (ck_state c)) = Some s" "sec_tag s = TAG_RAM"
    "s \<in> set (sections (ck_state c))"
proof -
  have "find (\<lambda>s. sec_tag s = TAG_RAM) (sections (ck_state c)) \<noteq> None"
    using assms by (auto simp: has_ram_def find_None_iff)
  then obtain s where s: "find (\<lambda>s. sec_tag s = TAG_RAM) (sections (ck_state c)) = Some s" by blast
  then show thesis using that [OF s] by (auto simp: find_Some_iff)
qed

lemma combine_split:
  assumes "has_ram base" "\<forall>c \<in> set post. \<not> has_ram c"
    and "find (\<lambda>s. sec_tag s = TAG_RAM) (sections (ck_state base)) = Some ram"
  shows "combine_vmstate_ram (pre @ base # post) =
    Inr \<lparr>arch = arch (ck_state (last (base # post))), topology_hash = topology_hash (ck_state (last (base # post))),
      sections = ram # concat (map (sections_with_tag TAG_RAM_DELTA) post) @ device_sections (last (base # post))\<rparr>"
  using find_latest_ram_base_split [OF assms(1,2), of pre] assms(3)
  by (simp add: combine_vmstate_ram_def Let_def device_sections_def)

text \<open>Every successful combination has this shape.\<close>

lemma combine_cases:
  assumes "combine_vmstate_ram chain = Inr v"
  obtains pre base post ram where "chain = pre @ base # post" "has_ram base" "\<forall>c \<in> set post. \<not> has_ram c"
    "ram \<in> set (sections (ck_state base))" "sec_tag ram = TAG_RAM"
    "v = \<lparr>arch = arch (ck_state (last chain)), topology_hash = topology_hash (ck_state (last chain)),
      sections = ram # concat (map (sections_with_tag TAG_RAM_DELTA) post) @ device_sections (last chain)\<rparr>"
proof -
  obtain i where "find_latest_ram_base chain = Some i"
    using assms by (auto simp: combine_vmstate_ram_def Let_def split: option.splits)
  then obtain pre base post where c: "chain = pre @ base # post" "has_ram base" "\<forall>c \<in> set post. \<not> has_ram c"
    unfolding find_latest_ram_base_def has_ram_def by (rule latest_from_SomeE)
  obtain ram where ram: "find (\<lambda>s. sec_tag s = TAG_RAM) (sections (ck_state base)) = Some ram"
      "sec_tag ram = TAG_RAM" "ram \<in> set (sections (ck_state base))"
    using c(2) by (rule has_ram_find)
  show thesis
    using that [OF c ram(3,2)] combine_split [OF c(2,3) ram(1), of pre] assms c(1) by simp
qed

lemma combine_no_base:
  "(\<exists>e. combine_vmstate_ram chain = Inl e) \<longleftrightarrow> \<not> (\<exists>c \<in> set chain. has_ram c)"
proof
  assume "\<exists>e. combine_vmstate_ram chain = Inl e"
  moreover have False if c: "c \<in> set chain" "has_ram c" and e: "combine_vmstate_ram chain = Inl e" for c e
  proof -
    obtain pre base post where b: "chain = pre @ base # post" "has_ram base" "\<forall>c \<in> set post. \<not> has_ram c"
      using c split_list_last_prop [of chain has_ram] by blast
    obtain ram where "find (\<lambda>s. sec_tag s = TAG_RAM) (sections (ck_state base)) = Some ram"
      using b(2) by (rule has_ram_find)
    then show False using e b combine_split [OF b(2,3), of ram pre] by simp
  qed
  ultimately show "\<not> (\<exists>c \<in> set chain. has_ram c)" by blast
next
  assume "\<not> (\<exists>c \<in> set chain. has_ram c)"
  then show "\<exists>e. combine_vmstate_ram chain = Inl e"
    by (metis combine_cases in_set_conv_decomp obj_sumE)
qed

lemma sections_with_tag_tag: "s \<in> set (sections_with_tag t c) \<Longrightarrow> sec_tag s = t"
  by (simp add: sections_with_tag_def)

lemma combine_sections_tags:
  assumes "combine_vmstate_ram chain = Inr v"
  shows "length (filter (\<lambda>s. sec_tag s = TAG_RAM) (sections v)) = 1"
    and "\<forall>s \<in> set (sections v). sec_tag s \<noteq> TAG_ROOTDISK_DELTA"
proof -
  obtain post ram where ram: "sec_tag ram = TAG_RAM" and v:
      "sections v = ram # concat (map (sections_with_tag TAG_RAM_DELTA) post) @ device_sections (last chain)"
    using assms by (auto elim!: combine_cases)
  have "filter (\<lambda>s. sec_tag s = TAG_RAM) (concat (map (sections_with_tag TAG_RAM_DELTA) post)) = []"
    by (auto simp: filter_empty_conv TAG_RAM_def TAG_RAM_DELTA_def dest!: sections_with_tag_tag)
  moreover have "filter (\<lambda>s. sec_tag s = TAG_RAM) (device_sections (last chain)) = []"
    by (auto simp: filter_empty_conv device_sections_def)
  ultimately show "length (filter (\<lambda>s. sec_tag s = TAG_RAM) (sections v)) = 1"
    by (simp add: v ram)
  show "\<forall>s \<in> set (sections v). sec_tag s \<noteq> TAG_ROOTDISK_DELTA"
    using ram by (auto simp: v device_sections_def TAG_RAM_def TAG_RAM_DELTA_def TAG_ROOTDISK_DELTA_def
        dest!: sections_with_tag_tag)
qed

lemma combine_wf:
  assumes "combine_vmstate_ram chain = Inr v" "\<forall>c \<in> set chain. wf_vmstate (ck_state c)"
    and "length (sections v) < 2 ^ 32"
  shows "wf_vmstate v"
proof -
  obtain pre base post ram where c: "chain = pre @ base # post" "ram \<in> set (sections (ck_state base))"
    "v = \<lparr>arch = arch (ck_state (last chain)), topology_hash = topology_hash (ck_state (last chain)),
      sections = ram # concat (map (sections_with_tag TAG_RAM_DELTA) post) @ device_sections (last chain)\<rparr>"
    using assms(1) by (auto elim!: combine_cases)
  have wf: "list_all wf_section (sections (ck_state x))" if "x \<in> set chain" for x
    using assms(2) that by (simp add: wf_vmstate_def)
  have target: "last chain \<in> set chain" by (simp add: c(1))
  have "list_all wf_section (sections v)"
    using wf [of base] wf [OF target] wf c(1,2)
    by (auto simp: c(3) list_all_iff sections_with_tag_def device_sections_def)
  then show ?thesis using assms(2,3) target by (auto simp: wf_vmstate_def c(3))
qed

section \<open>What materialisation leaves on the host\<close>

lemma map_of_write_blob: "map_of (blobs (write_blob p bs st)) q = (if q = p then Some bs else map_of (blobs st) q)"
  by (simp add: write_blob_def map_of_filter_key)

lemma metas_write_blob [simp]: "metas (write_blob p bs st) = metas st"
  by (simp add: write_blob_def)

lemma under_append [simp]: "under dir (dir @ q)"
  by (simp add: under_def)

lemma map_of_remove_tree:
  "map_of (blobs (remove_tree dir st)) p = (if under dir p then None else map_of (blobs st) p)"
  "map_of (metas (remove_tree dir st)) p = (if under dir p then None else map_of (metas st) p)"
  by (simp_all add: remove_tree_def map_of_filter_key)

text \<open>Two stores agree outside a directory.\<close>

definition same_outside :: "path \<Rightarrow> store \<Rightarrow> store \<Rightarrow> bool" where
  "same_outside dir st st' \<longleftrightarrow>
     (\<forall>p. \<not> under dir p \<longrightarrow> map_of (blobs st') p = map_of (blobs st) p \<and> map_of (metas st') p = map_of (metas st) p)"

lemma same_outside_refl [simp]: "same_outside dir st st"
  by (simp add: same_outside_def)

lemma same_outside_trans: "same_outside d a b \<Longrightarrow> same_outside d b c \<Longrightarrow> same_outside d a c"
  by (simp add: same_outside_def)

lemma same_outside_write: "same_outside dir st (write_blob (dir @ q) bs st)"
  by (auto simp: same_outside_def map_of_write_blob)

lemma same_outside_remove: "same_outside dir st (remove_tree dir st)"
  by (auto simp: same_outside_def map_of_remove_tree)

lemma apply_deltas_length: "length (fst (apply_deltas sha256 accept ps disk)) = length disk"
proof (induction ps arbitrary: disk)
  case (Cons p ps)
  obtain disk' e where d: "apply_rootdisk_delta sha256 accept p disk = (disk', e)" by fastforce
  then have "length disk' = length disk"
    using apply_rootdisk_delta_length [of sha256 accept p disk] by simp
  then show ?case using d Cons.IH [of disk'] by (cases e) simp_all
qed simp

lemma materialize_rootdisk_frame:
  "same_outside temp_dir st (snd (materialize_rootdisk sha256 accept temp_dir chain st))"
  by (auto simp: materialize_rootdisk_def Let_def same_outside_write
      split: option.splits root_disk.splits prod.splits)

lemma materialize_in_frame:
  "same_outside temp_dir st (snd (materialize_in sha256 accept temp_dir chain m st))"
proof (cases "bind_res (combine_vmstate_ram chain) write_vmstate")
  case (Inr bs)
  let ?st1 = "write_blob (temp_dir @ [VMSTATE_FILE]) bs st"
  have "same_outside temp_dir ?st1 (snd (materialize_rootdisk sha256 accept temp_dir chain ?st1))"
    by (rule materialize_rootdisk_frame)
  then show ?thesis
    using Inr same_outside_write [of temp_dir st "[VMSTATE_FILE]" bs]
    by (auto simp: materialize_in_def Let_def elim: same_outside_trans split: prod.splits sum.splits)
qed (simp add: materialize_in_def Let_def)

text \<open>Whatever happens, no file outside the fresh directory changes.\<close>

lemma materialize_frame:
  "same_outside temp_dir st (snd (materialize_vmstate_chain gz sha256 accept cwd temp_dir dir m st))"
proof (cases "read_checkpoint_chain gz cwd st dir m")
  case (Inr chain)
  obtain r st' where run: "materialize_in sha256 accept temp_dir chain m st = (r, st')" by fastforce
  then have same: "same_outside temp_dir st st'"
    using materialize_in_frame [of temp_dir st sha256 accept chain m] by simp
  then have "same_outside temp_dir st (remove_tree temp_dir st')"
    using same_outside_remove same_outside_trans by blast
  then show ?thesis
    using Inr run same by (auto simp: materialize_vmstate_chain_def Let_def split: sum.splits bool.splits)
qed (simp add: materialize_vmstate_chain_def)

text \<open>A failure leaves nothing behind: with a fresh directory, the files are as before.\<close>

definition fresh_dir :: "path \<Rightarrow> store \<Rightarrow> bool" where
  "fresh_dir dir st \<longleftrightarrow> (\<forall>p. under dir p \<longrightarrow> map_of (blobs st) p = None \<and> map_of (metas st) p = None)"

lemma materialize_failure:
  assumes "materialize_vmstate_chain gz sha256 accept cwd temp_dir dir m st = (Inl e, st')"
    and "fresh_dir temp_dir st"
  shows "map_of (blobs st') = map_of (blobs st) \<and> map_of (metas st') = map_of (metas st)"
proof -
  have out: "same_outside temp_dir st st'"
    using materialize_frame [of temp_dir st gz sha256 accept cwd dir m] assms(1) by simp
  have "st' = st \<or> (\<exists>st1. st' = remove_tree temp_dir st1)"
    using assms(1)
    by (auto simp: materialize_vmstate_chain_def Let_def split: sum.splits bool.splits prod.splits)
  then have "fresh_dir temp_dir st'"
    using assms(2) by (auto simp: fresh_dir_def map_of_remove_tree)
  then show ?thesis
    using out assms(2) by (auto simp: same_outside_def fresh_dir_def fun_eq_iff) metis+
qed

text \<open>A success leaves the combined state and the disk the returned document describes.\<close>

definition disk_described :: "(bytes \<Rightarrow> bytes) \<Rightarrow> store \<Rightarrow> root_disk option \<Rightarrow> bool" where
  "disk_described sha256 st rd \<longleftrightarrow>
     (case rd of
        Some No_disk \<Rightarrow> True
      | Some (Block f (Some p) n h) \<Rightarrow>
          (case map_of (blobs st) p of None \<Rightarrow> False | Some disk \<Rightarrow> n = length disk \<and> h = sha256 disk)
      | _ \<Rightarrow> False)"

lemma materialize_rootdisk_success:
  assumes "materialize_rootdisk sha256 accept temp_dir chain st = (Inr d, st')"
  shows "disk_described sha256 st' (Some d)"
    and "map_of (blobs st') (temp_dir @ [VMSTATE_FILE]) = map_of (blobs st) (temp_dir @ [VMSTATE_FILE])"
  using assms
  by (auto simp: materialize_rootdisk_def disk_described_def map_of_write_blob Let_def
      VMSTATE_FILE_def VMSTATE_ROOTDISK_FILE_def split: option.splits root_disk.splits prod.splits)

text \<open>The disk of a chain whose deltas are well encoded: the writes of all the deltas above the
  latest full image, in order.\<close>

lemma apply_deltas_encoded:
  assumes "\<And>n. 0 < n \<Longrightarrow> 0 < accept n" "\<And>x. length (sha256 x) = 32"
    and "length disk \<le> MAX_SAFE_INTEGER" "\<forall>ws \<in> set wss. writes_fit (length disk) ws"
  shows "apply_deltas sha256 accept (map (encode_delta sha256 (length disk)) wss) disk = (foldl apply_writes disk wss, None)"
  using assms(3,4)
proof (induction wss arbitrary: disk)
  case (Cons ws wss)
  have fit: "writes_fit (length disk) ws" using Cons.prems by simp
  have "apply_rootdisk_delta sha256 accept (encode_delta sha256 (length disk) ws) disk = (apply_writes disk ws, None)"
    using assms(1,2) Cons.prems(1) fit by (rule apply_encoded_delta)
  then show ?case using Cons.IH [of "apply_writes disk ws"] Cons.prems by (simp add: apply_writes_length [OF fit])
qed simp

definition has_full_disk :: "chain_item \<Rightarrow> bool" where
  "has_full_disk c \<longleftrightarrow> (case root_disk (ck_meta c) of Some (Block _ _ _ _) \<Rightarrow> True | _ \<Rightarrow> False)"

lemma materialize_rootdisk_replays:
  assumes "root_disk (ck_meta base) = Some (Block f q n h)" "\<forall>c \<in> set post. \<not> has_full_disk c"
    and "map_of (blobs st) (resolve (ck_dir base) f) = Some img" "\<not> is_absolute f"
    and "rootdisk_deltas post = map (encode_delta sha256 (length img)) wss"
    and "\<And>n. 0 < n \<Longrightarrow> 0 < accept n" "\<And>x. length (sha256 x) = 32"
    and "length img \<le> MAX_SAFE_INTEGER" "\<forall>ws \<in> set wss. writes_fit (length img) ws"
  shows "materialize_rootdisk sha256 accept temp_dir (pre @ base # post) st =
    (let disk = foldl apply_writes img wss; dest = temp_dir @ [VMSTATE_ROOTDISK_FILE]
     in (Inr (Block VMSTATE_ROOTDISK_FILE (Some dest) (length img) (sha256 disk)), write_blob dest disk st))"
proof -
  have "find_latest_rootdisk_base (pre @ base # post) = Some (length pre)"
    unfolding find_latest_rootdisk_base_def
    by (rule latest_from_split) (use assms(1,2) in \<open>simp_all add: has_full_disk_def\<close>)
  moreover have replay: "apply_deltas sha256 accept (rootdisk_deltas post) img = (foldl apply_writes img wss, None)"
    unfolding assms(5) using assms(6-9) by (rule apply_deltas_encoded)
  moreover have "length (foldl apply_writes img wss) = length img"
    using apply_deltas_length [of sha256 accept "rootdisk_deltas post" img] by (simp add: replay)
  ultimately show ?thesis
    using assms(1,3,4) by (simp add: materialize_rootdisk_def resolve_def Let_def)
qed

lemma write_vmstate_count: "write_vmstate v = Inr bs \<Longrightarrow> length (sections v) < 2 ^ 32"
  by (auto simp: write_vmstate_def split: if_splits)

lemma checkpoint_chain_wf:
  "checkpoint_chain gz st chain \<Longrightarrow> c \<in> set chain \<Longrightarrow> wf_vmstate (ck_state c)"
  by (auto simp: checkpoint_chain_def list_all_iff state_read_def dest!: read_vmstate_wf split: option.splits)

lemma materialize_in_success:
  assumes "materialize_in sha256 accept temp_dir chain m st = (Inr r, st')"
    and "\<forall>c \<in> set chain. wf_vmstate (ck_state c)"
  shows "\<exists>v bs. combine_vmstate_ram chain = Inr v \<and> map_of (blobs st') (state_path r) = Some bs \<and>
      read_vmstate gz bs = Inr v"
    and "disk_described sha256 st' (root_disk (meta_of r))"
proof -
  obtain v bs where v: "combine_vmstate_ram chain = Inr v" and bs: "write_vmstate v = Inr bs"
    using assms(1)
    by (cases "bind_res (combine_vmstate_ram chain) write_vmstate")
       (auto simp: materialize_in_def Let_def result_simps)
  have wf: "wf_vmstate v"
    using v assms(2) write_vmstate_count [OF bs] by (rule combine_wf)
  let ?p = "temp_dir @ [VMSTATE_FILE]" and ?st1 = "write_blob (temp_dir @ [VMSTATE_FILE]) bs st"
  have st1: "map_of (blobs ?st1) ?p = Some bs" by (simp add: map_of_write_blob)
  have "state_path r = ?p \<and> map_of (blobs st') ?p = Some bs \<and> disk_described sha256 st' (root_disk (meta_of r))"
  proof (cases "root_disk m = Some No_disk")
    case True
    then show ?thesis
      using assms(1) v bs st1 by (auto simp: materialize_in_def Let_def disk_described_def)
  next
    case False
    then obtain d where "materialize_rootdisk sha256 accept temp_dir chain ?st1 = (Inr d, st')"
      and r: "r = \<lparr>temp_dir_of = temp_dir, state_path = ?p, meta_of = m\<lparr>root_disk := Some d\<rparr>\<rparr>"
      using assms(1) v bs
      by (auto simp: materialize_in_def Let_def split: prod.splits sum.splits)
    then show ?thesis
      using materialize_rootdisk_success [of sha256 accept temp_dir chain ?st1 d st'] st1 by simp
  qed
  then show "\<exists>v bs. combine_vmstate_ram chain = Inr v \<and> map_of (blobs st') (state_path r) = Some bs \<and>
      read_vmstate gz bs = Inr v"
    and "disk_described sha256 st' (root_disk (meta_of r))"
    using v write_read_vmstate [OF wf bs] by auto
qed

lemma materialize_success:
  assumes "materialize_vmstate_chain gz sha256 accept cwd temp_dir dir m st = (Inr r, st')"
  shows "\<exists>chain v bs. read_checkpoint_chain gz cwd st dir m = Inr chain \<and> combine_vmstate_ram chain = Inr v \<and>
      map_of (blobs st') (state_path r) = Some bs \<and> read_vmstate gz bs = Inr v"
    and "disk_described sha256 st' (root_disk (meta_of r))"
proof -
  obtain chain where chain: "read_checkpoint_chain gz cwd st dir m = Inr chain"
    and run: "materialize_in sha256 accept temp_dir chain m st = (Inr r, st')"
    using assms
    by (auto simp: materialize_vmstate_chain_def Let_def split: sum.splits bool.splits prod.splits)
  have wf: "\<forall>c \<in> set chain. wf_vmstate (ck_state c)"
    using checkpoint_chain_wf [OF read_checkpoint_chain_sound(1) [OF chain]] by blast
  show "\<exists>chain v bs. read_checkpoint_chain gz cwd st dir m = Inr chain \<and> combine_vmstate_ram chain = Inr v \<and>
      map_of (blobs st') (state_path r) = Some bs \<and> read_vmstate gz bs = Inr v"
    and "disk_described sha256 st' (root_disk (meta_of r))"
    using materialize_in_success [OF run wf] chain by blast+
qed

end
