(* ===== verification/Vmstate_Facts.thy ===== *)
theory Vmstate_Facts
  imports Vmstate_Codec
begin

text \<open>
  \<^verbatim>\<open>packages/runtime/src/vm/vmstate-metadata.ts\<close>: the facts a restore checks before it trusts
  a vmstate file (architecture, topology, pointer authentication), found by a second, lazy
  walk over the container, and the two caches that remember which files were already
  hashed. Parameters: \<open>gunzip\<close>, \<open>sha256\<close>, and the host's view of a file.
\<close>

section \<open>Architecture and backend\<close>

datatype guest_arch = Arm64 | Amd64 | Unknown_arch
datatype vmstate_backend = Hvf | Kvm | Unknown_backend

definition vmstate_arch_name :: "32 word \<Rightarrow> guest_arch" where
  "vmstate_arch_name a =
     (if a = ARCH_AARCH64 then Arm64 else if a = ARCH_X86_64 then Amd64 else Unknown_arch)"

definition current_vmstate_backend :: "string \<Rightarrow> vmstate_backend" where
  "current_vmstate_backend platform =
     (if platform = ''darwin'' then Hvf else if platform = ''linux'' then Kvm else Unknown_backend)"

text \<open>The environment override \<open>MACHINEN_GUEST_ARCH\<close> comes first, then \<open>process.arch\<close>.\<close>

definition current_vmstate_guest_arch :: "string option \<Rightarrow> string \<Rightarrow> guest_arch" where
  "current_vmstate_guest_arch override process_arch =
     (if override = Some ''arm64'' \<or> override = Some ''aarch64'' then Arm64
      else if override = Some ''amd64'' \<or> override = Some ''x86_64'' \<or> override = Some ''x64'' then Amd64
      else if process_arch = ''arm64'' then Arm64
      else if process_arch = ''x64'' then Amd64
      else Unknown_arch)"

section \<open>Facts of a container\<close>

record vmstate_header =
  h_arch :: guest_arch
  h_section_count :: nat
  h_topology_hash :: bytes

definition parse_vmstate_header :: "bytes \<Rightarrow> vm_error + vmstate_header" where
  "parse_vmstate_header bs =
     (if length bs < HEADER_SIZE then Inl (Truncated_header (length bs))
      else if subarray bs 0 (length MAGIC) \<noteq> MAGIC then Inl Bad_magic
      else if read_u32 bs 8 \<noteq> 1 then Inl (Unsupported_version (read_u32 bs 8))
      else
        let a = vmstate_arch_name (of_nat (read_u32 bs 12))
        in if a = Unknown_arch then Inl (Unsupported_arch (read_u32 bs 12))
           else Inr \<lparr>h_arch = a, h_section_count = read_u32 bs 16, h_topology_hash = subarray bs 24 56\<rparr>)"

text \<open>One section: its tag, its payload and where the next one starts.\<close>

definition read_vmstate_section :: "bytes \<Rightarrow> nat \<Rightarrow> vm_error + (32 word \<times> bytes \<times> nat)" where
  "read_vmstate_section bs off =
     (if length bs < off + 16 then Inl Truncated_section_header
      else
        let len = read_u64 bs (off + 8); start = off + 16
        in if MAX_SAFE_INTEGER < len \<or> length bs < start + len then Inl Section_overflows
           else Inr (of_nat (read_u32 bs off), subarray bs start (start + len), start + len))"

text \<open>The entries of a vcpu payload: name length, name, value length, value. The walk stops at
  the first entry with the wanted name. Names are compared by \<open>same\<close>: the TypeScript reader
  decodes them as ASCII text first, the native reader compares the bytes.\<close>

fun find_vcpu_entry :: "(bytes \<Rightarrow> bool) \<Rightarrow> nat \<Rightarrow> bytes \<Rightarrow> nat \<Rightarrow> vm_error + 64 word option" where
  "find_vcpu_entry same 0 p off = Inr None"
| "find_vcpu_entry same (Suc n) p off =
     (if length p < off + 1 then Inl Truncated_vcpu_entry
      else
        let name_len = unat (p ! off); off1 = off + 1
        in if length p < off1 + name_len + 4 then Inl Truncated_vcpu_name
           else
             let name = subarray p off1 (off1 + name_len);
                 off2 = off1 + name_len;
                 value_len = read_u32 p off2;
                 off3 = off2 + 4
             in if length p < off3 + value_len then Inl Truncated_vcpu_value
                else if same name then
                  (if value_len \<noteq> 8 then Inl (Bad_register_width value_len)
                   else Inr (Some (of_nat (read_u64 p off3))))
                else find_vcpu_entry same n p (off3 + value_len))"

definition read_vcpu_u64 :: "bytes \<Rightarrow> string \<Rightarrow> vm_error + 64 word option" where
  "read_vcpu_u64 p needle =
     (if length p < 4 then Inl Truncated_vcpu_payload
      else find_vcpu_entry (\<lambda>name. ascii_of name = needle) (read_u32 p 0) p 4)"

definition SCTLR_NAME :: string where "SCTLR_NAME = ''SCTLR_EL1''"

fun read_vmstate_sctlr :: "nat \<Rightarrow> bytes \<Rightarrow> nat \<Rightarrow> vm_error + 64 word option" where
  "read_vmstate_sctlr 0 bs off = Inr None"
| "read_vmstate_sctlr (Suc n) bs off =
     bind_res (read_vmstate_section bs off) (\<lambda>(tag, p, next_off).
       if tag = TAG_VCPU then
         bind_res (read_vcpu_u64 p SCTLR_NAME) (\<lambda>v.
           case v of Some x \<Rightarrow> Inr (Some x) | None \<Rightarrow> read_vmstate_sctlr n bs next_off)
       else read_vmstate_sctlr n bs next_off)"

definition SCTLR_PAUTH_MASK :: "64 word" where
  "SCTLR_PAUTH_MASK = push_bit 31 1 OR push_bit 30 1 OR push_bit 27 1 OR push_bit 13 1"

record vmstate_facts =
  f_header :: vmstate_header
  f_sctlr :: "64 word option"
  f_pauth_active :: "bool option"

definition facts_of :: "vmstate_header \<Rightarrow> 64 word option \<Rightarrow> vmstate_facts" where
  "facts_of h sctlr = \<lparr>f_header = h, f_sctlr = sctlr,
     f_pauth_active = map_option (\<lambda>x. x AND SCTLR_PAUTH_MASK \<noteq> 0) sctlr\<rparr>"

text \<open>The in-process reader, for compressed files.\<close>

definition read_facts_from_buffer :: "(bytes \<Rightarrow> bytes option) \<Rightarrow> bytes \<Rightarrow> vm_error + vmstate_facts" where
  "read_facts_from_buffer gunzip raw =
     bind_res (maybe_gunzip gunzip raw) (\<lambda>bs.
     bind_res (parse_vmstate_header bs) (\<lambda>h.
     bind_res (read_vmstate_sctlr (h_section_count h) bs HEADER_SIZE) (\<lambda>sctlr.
     Inr (facts_of h sctlr))))"

subsection \<open>The native reader\<close>

text \<open>Raw files are read by the native helper (\<^verbatim>\<open>packages/runtime/native/src/vmstate.zig\<close>). Its
  header checks are those of \<open>parse_vmstate_header\<close>, in the same order. Its walk does not stop at
  the register: every section is checked against the size of the file, and until the register
  is found a vcpu payload above 16 MiB is refused before it is read.\<close>

definition MAX_VCPU_PAYLOAD_BYTES :: nat where
  "MAX_VCPU_PAYLOAD_BYTES = 16 * 1024 * 1024"

definition read_vcpu_u64_native :: "bytes \<Rightarrow> string \<Rightarrow> vm_error + 64 word option" where
  "read_vcpu_u64_native p needle =
     (if length p < 4 then Inl Truncated_vcpu_payload
      else find_vcpu_entry (\<lambda>name. name = bytes_of needle) (read_u32 p 0) p 4)"

fun read_sctlr_native :: "nat \<Rightarrow> bytes \<Rightarrow> nat \<Rightarrow> 64 word option \<Rightarrow> vm_error + 64 word option" where
  "read_sctlr_native 0 bs off found = Inr found"
| "read_sctlr_native (Suc n) bs off found =
     (if length bs < off + 16 then Inl Truncated_section_header
      else
        let tag = of_nat (read_u32 bs off) :: 32 word; len = read_u64 bs (off + 8); start = off + 16
        in if length bs < start + len then Inl Section_overflows
           else if tag = TAG_VCPU \<and> found = None then
             (if MAX_VCPU_PAYLOAD_BYTES < len then Inl Section_too_large
              else bind_res (read_vcpu_u64_native (subarray bs start (start + len)) SCTLR_NAME)
                (read_sctlr_native n bs (start + len)))
           else read_sctlr_native n bs (start + len) found)"

definition read_vmstate_facts_native :: "bytes \<Rightarrow> vm_error + vmstate_facts" where
  "read_vmstate_facts_native bs =
     bind_res (parse_vmstate_header bs) (\<lambda>h.
     bind_res (read_sctlr_native (h_section_count h) bs HEADER_SIZE None) (\<lambda>sctlr.
     Inr (facts_of h sctlr)))"

definition read_vmstate_facts :: "(bytes \<Rightarrow> bytes option) \<Rightarrow> bytes \<Rightarrow> vm_error + vmstate_facts" where
  "read_vmstate_facts gunzip raw =
     (if looks_gzip raw then read_facts_from_buffer gunzip raw else read_vmstate_facts_native raw)"

subsection \<open>Both walks agree with the full decoder\<close>

text \<open>The first vcpu section that names the register, over decoded sections.\<close>

fun sctlr_of_sections :: "vmstate_section list \<Rightarrow> vm_error + 64 word option" where
  "sctlr_of_sections [] = Inr None"
| "sctlr_of_sections (s # ss) =
     (if sec_tag s = TAG_VCPU then
        bind_res (read_vcpu_u64 (payload s) SCTLR_NAME) (\<lambda>v.
          case v of Some x \<Rightarrow> Inr (Some x) | None \<Rightarrow> sctlr_of_sections ss)
      else sctlr_of_sections ss)"

fun native_sctlr_of_sections :: "vmstate_section list \<Rightarrow> vm_error + 64 word option" where
  "native_sctlr_of_sections [] = Inr None"
| "native_sctlr_of_sections (s # ss) =
     (if sec_tag s = TAG_VCPU then
        if MAX_VCPU_PAYLOAD_BYTES < length (payload s) then Inl Section_too_large
        else bind_res (read_vcpu_u64_native (payload s) SCTLR_NAME) (\<lambda>v.
          case v of Some x \<Rightarrow> Inr (Some x) | None \<Rightarrow> native_sctlr_of_sections ss)
      else native_sctlr_of_sections ss)"

text \<open>The reader that a file gets is chosen by its first two bytes.\<close>

definition sctlr_as_read :: "bytes \<Rightarrow> vmstate_section list \<Rightarrow> vm_error + 64 word option" where
  "sctlr_as_read raw ss = (if looks_gzip raw then sctlr_of_sections ss else native_sctlr_of_sections ss)"

text \<open>One decoded section, as both walks see it.\<close>

lemma read_sections_step:
  assumes "read_sections (Suc n) bs off = Inr ss"
  obtains s rest where "ss = s # rest" "read_sections n bs (off + 16 + read_u64 bs (off + 8)) = Inr rest"
    "sec_tag s = of_nat (read_u32 bs off)" "payload s = subarray bs (off + 16) (off + 16 + read_u64 bs (off + 8))"
    "\<not> length bs < off + 16"
    "\<not> (MAX_SAFE_INTEGER < read_u64 bs (off + 8) \<or> length bs < off + 16 + read_u64 bs (off + 8))"
    "length (payload s) = read_u64 bs (off + 8)"
  using assms by (auto simp: Let_def result_simps subarray_def split: if_splits)

lemma read_vmstate_sctlr_decoded:
  "read_sections n bs off = Inr ss \<Longrightarrow> read_vmstate_sctlr n bs off = sctlr_of_sections ss"
proof (induction n arbitrary: off ss)
  case (Suc n)
  obtain s rest where s: "ss = s # rest" "read_sections n bs (off + 16 + read_u64 bs (off + 8)) = Inr rest"
    "sec_tag s = of_nat (read_u32 bs off)" "payload s = subarray bs (off + 16) (off + 16 + read_u64 bs (off + 8))"
    and ok: "\<not> length bs < off + 16"
      "\<not> (MAX_SAFE_INTEGER < read_u64 bs (off + 8) \<or> length bs < off + 16 + read_u64 bs (off + 8))"
    by (rule read_sections_step [OF Suc.prems])
  have "read_vmstate_section bs off = Inr (sec_tag s, payload s, off + 16 + read_u64 bs (off + 8))"
    using ok by (simp add: read_vmstate_section_def Let_def s(3,4))
  then show ?case using Suc.IH [OF s(2)] by (simp add: s(1))
qed simp

lemma read_sctlr_native_rest:
  "read_sections n bs off = Inr ss \<Longrightarrow> read_sctlr_native n bs off (Some x) = Inr (Some x)"
proof (induction n arbitrary: off ss)
  case (Suc n)
  show ?case
    by (rule read_sections_step [OF Suc.prems]) (use Suc.IH in \<open>simp add: Let_def\<close>)
qed simp

lemma read_sctlr_native_decoded:
  "read_sections n bs off = Inr ss \<Longrightarrow> read_sctlr_native n bs off None = native_sctlr_of_sections ss"
proof (induction n arbitrary: off ss)
  case (Suc n)
  obtain s rest where s: "ss = s # rest" "read_sections n bs (off + 16 + read_u64 bs (off + 8)) = Inr rest"
    "sec_tag s = of_nat (read_u32 bs off)" "payload s = subarray bs (off + 16) (off + 16 + read_u64 bs (off + 8))"
    and ok: "\<not> length bs < off + 16"
      "\<not> (MAX_SAFE_INTEGER < read_u64 bs (off + 8) \<or> length bs < off + 16 + read_u64 bs (off + 8))"
    and len: "length (payload s) = read_u64 bs (off + 8)"
    by (rule read_sections_step [OF Suc.prems])
  have rest: "read_sctlr_native n bs (off + 16 + read_u64 bs (off + 8)) =
      (\<lambda>v. case v of Some x \<Rightarrow> Inr (Some x) | None \<Rightarrow> native_sctlr_of_sections rest)"
    using Suc.IH [OF s(2)] read_sctlr_native_rest [OF s(2)] by (auto simp: fun_eq_iff split: option.splits)
  show ?case
    using ok len by (simp add: Let_def s(1,3) rest) (simp add: s(4))
qed simp

lemma parse_header_decoded:
  assumes "parse_vmstate bs = Inr v"
  shows "\<exists>a. arch v = Some a \<and> parse_vmstate_header bs = Inr \<lparr>h_arch = vmstate_arch_name a,
      h_section_count = length (sections v), h_topology_hash = topology_hash v\<rparr> \<and>
    read_sections (length (sections v)) bs HEADER_SIZE = Inr (sections v)"
proof -
  let ?a = "of_nat (read_u32 bs 12) :: 32 word"
  have ok: "\<not> length bs < HEADER_SIZE" "subarray bs 0 (length MAGIC) = MAGIC" "read_u32 bs 8 = 1"
      "?a = ARCH_AARCH64 \<or> ?a = ARCH_X86_64"
    and ss: "read_sections (read_u32 bs 16) bs HEADER_SIZE = Inr (sections v)"
    and v: "arch v = Some ?a" "topology_hash v = subarray bs 24 56"
    using assms by (auto simp: parse_vmstate_def Let_def result_simps split: if_splits)
  have n: "read_u32 bs 16 = length (sections v)" using read_sections_wf [OF ss] by simp
  have "vmstate_arch_name ?a \<noteq> Unknown_arch" using ok(4) by (auto simp: vmstate_arch_name_def)
  then have "parse_vmstate_header bs = Inr \<lparr>h_arch = vmstate_arch_name ?a,
      h_section_count = length (sections v), h_topology_hash = topology_hash v\<rparr>"
    using ok(1-3) by (simp only: parse_vmstate_header_def Let_def v(2) n) simp
  then show ?thesis using ss v(1) n by simp
qed

lemma read_facts_decoded:
  assumes "read_vmstate gz raw = Inr v" "sctlr_as_read raw (sections v) = Inr r"
  shows "\<exists>a. arch v = Some a \<and> read_vmstate_facts gz raw =
    Inr \<lparr>f_header = \<lparr>h_arch = vmstate_arch_name a, h_section_count = length (sections v),
           h_topology_hash = topology_hash v\<rparr>,
         f_sctlr = r, f_pauth_active = map_option (\<lambda>x. x AND SCTLR_PAUTH_MASK \<noteq> 0) r\<rparr>"
proof -
  obtain bs where bs: "maybe_gunzip gz raw = Inr bs" "parse_vmstate bs = Inr v"
    using assms(1) by (auto simp: read_vmstate_def result_simps)
  obtain a where a: "arch v = Some a" "parse_vmstate_header bs = Inr \<lparr>h_arch = vmstate_arch_name a,
      h_section_count = length (sections v), h_topology_hash = topology_hash v\<rparr>"
    "read_sections (length (sections v)) bs HEADER_SIZE = Inr (sections v)"
    using parse_header_decoded [OF bs(2)] by blast
  have raw: "\<not> looks_gzip raw \<Longrightarrow> bs = raw" using bs(1) by (simp add: maybe_gunzip_def)
  show ?thesis
    using a bs(1) raw assms(2) read_vmstate_sctlr_decoded [OF a(3)] read_sctlr_native_decoded [OF a(3)]
    by (cases "looks_gzip raw")
      (simp_all add: read_vmstate_facts_def read_facts_from_buffer_def read_vmstate_facts_native_def sctlr_as_read_def facts_of_def)
qed

text \<open>Where the native reader answers, the file is whole: the decoder reads every section of
  it, also those behind the register. A file cut off anywhere is refused.\<close>

lemma read_sctlr_native_whole:
  "read_sctlr_native n bs off found = Inr r \<Longrightarrow> length bs \<le> MAX_SAFE_INTEGER \<Longrightarrow> \<exists>ss. read_sections n bs off = Inr ss"
proof (induction n arbitrary: off found)
  case (Suc n)
  let ?len = "read_u64 bs (off + 8)"
  have ok: "\<not> length bs < off + 16" "\<not> length bs < off + 16 + ?len"
    using Suc.prems(1) by (auto simp: Let_def split: if_splits)
  moreover have "\<exists>found'. read_sctlr_native n bs (off + 16 + ?len) found' = Inr r"
    using Suc.prems(1) by (auto simp: Let_def result_simps split: if_splits)
  then obtain ss where "read_sections n bs (off + 16 + ?len) = Inr ss" using Suc.IH Suc.prems(2) by blast
  ultimately show ?case using Suc.prems(2) by (simp add: Let_def)
qed simp

lemma native_facts_whole:
  assumes "read_vmstate_facts gz raw = Inr facts" "\<not> looks_gzip raw" "length raw \<le> MAX_SAFE_INTEGER"
  shows "\<exists>v. read_vmstate gz raw = Inr v \<and> native_sctlr_of_sections (sections v) = Inr (f_sctlr facts)"
proof -
  obtain h r where h: "parse_vmstate_header raw = Inr h" and r: "read_sctlr_native (h_section_count h) raw HEADER_SIZE None = Inr r"
    and facts: "facts = facts_of h r"
    using assms(1,2) by (auto simp: read_vmstate_facts_def read_vmstate_facts_native_def result_simps)
  obtain ss where ss: "read_sections (h_section_count h) raw HEADER_SIZE = Inr ss"
    using read_sctlr_native_whole [OF r assms(3)] by blast
  have "\<exists>a t. parse_vmstate raw = Inr \<lparr>arch = a, topology_hash = t, sections = ss\<rparr>"
    using h ss by (auto simp: parse_vmstate_header_def parse_vmstate_def vmstate_arch_name_def Let_def split: if_splits)
  then show ?thesis
    using assms(2) r read_sctlr_native_decoded [OF ss] by (auto simp: read_vmstate_def maybe_gunzip_def facts facts_of_def)
qed

text \<open>A register that is written as the first entry of a vcpu payload is found.\<close>

lemma read_vcpu_first:
  assumes "is_ascii name" "length name < 256" "n < 2 ^ 32 - 1" "v < 2 ^ 64"
  shows "read_vcpu_u64 (le_bytes 4 (Suc n) @ [of_nat (length name)] @ bytes_of name @ le_bytes 4 8 @ le_bytes 8 v @ r) name =
    Inr (Some (of_nat v))" (is "read_vcpu_u64 ?b name = _")
    and "read_vcpu_u64_native (le_bytes 4 (Suc n) @ [of_nat (length name)] @ bytes_of name @ le_bytes 4 8 @ le_bytes 8 v @ r) name =
    Inr (Some (of_nat v))"
proof -
  define h :: bytes where "h = le_bytes 4 (Suc n) @ [of_nat (length name)]"
  let ?p = "h @ bytes_of name @ le_bytes 4 8 @ le_bytes 8 v @ r"
  have h: "length h = 5" "unat (h ! 4) = length name" "read_u32 h 0 = Suc n"
    using assms(2,3) by (simp_all add: h_def buffer_simps nth_append)
  then have p: "read_u32 ?p 0 = Suc n" "unat (?p ! 4) = length name" "subarray ?p 5 (5 + length name) = bytes_of name"
    "read_u32 ?p (5 + length name) = 8" "read_u64 ?p (9 + length name) = v" "length ?p = 17 + length name + length r"
    using assms(4) by (simp_all add: buffer_simps nth_append)
  have "read_vcpu_u64 ?p name = Inr (Some (of_nat v))" "read_vcpu_u64_native ?p name = Inr (Some (of_nat v))"
    unfolding read_vcpu_u64_def read_vcpu_u64_native_def p(1) find_vcpu_entry.simps Let_def
    using p(2-6) ascii_of_bytes_of [OF assms(1)] by (simp_all add: add.commute add.left_commute)
  then show "read_vcpu_u64 ?b name = Inr (Some (of_nat v))" "read_vcpu_u64_native ?b name = Inr (Some (of_nat v))"
    by (simp_all add: h_def)
qed

lemma bit_single: "k < 64 \<Longrightarrow> bit (push_bit k 1 :: 64 word) i \<longleftrightarrow> i = k"
  by (auto simp: bit_exp_iff)

lemma pauth_mask_bits:
  "x AND SCTLR_PAUTH_MASK \<noteq> 0 \<longleftrightarrow> bit x 31 \<or> bit x 30 \<or> bit x 27 \<or> bit x 13" for x :: "64 word"
proof -
  have mask: "bit SCTLR_PAUTH_MASK i \<longleftrightarrow> i = 31 \<or> i = 30 \<or> i = 27 \<or> i = 13" for i
    by (simp only: SCTLR_PAUTH_MASK_def bit_or_iff) (simp only: bit_single numeral_less_iff rel_simps simp_thms disj_assoc)
  have "x AND SCTLR_PAUTH_MASK \<noteq> 0 \<longleftrightarrow> (\<exists>i. bit (x AND SCTLR_PAUTH_MASK) i)"
    by (metis bit_0_eq bit_eqI bot_apply bot_bool_def)
  also have "\<dots> \<longleftrightarrow> (\<exists>i. bit x i \<and> (i = 31 \<or> i = 30 \<or> i = 27 \<or> i = 13))"
    by (simp add: bit_and_iff mask)
  finally show ?thesis by auto
qed

section \<open>Identities of files\<close>

record host_file =
  st_dev :: nat
  st_ino :: nat
  st_mtime :: nat
  st_ctime :: nat
  content :: bytes

type_synonym host = "string \<Rightarrow> host_file option"

datatype fs_error = No_such_file

record identity =
  id_path :: "string option"
  id_size :: nat
  id_sha256 :: bytes
  id_sample :: "bytes option"

record identity_stamp =
  s_dev :: nat
  s_ino :: nat
  s_size :: nat
  s_mtime :: nat
  s_ctime :: nat
  s_sample :: bytes

record disk_stamp =
  d_dev :: nat
  d_ino :: nat
  d_size :: nat

record identity_caches =
  trusted :: "string \<rightharpoonup> identity \<times> identity_stamp"
  managed :: "string \<rightharpoonup> disk_stamp"

definition stat_file :: "host \<Rightarrow> string \<Rightarrow> fs_error + host_file" where
  "stat_file host p = (case host p of None \<Rightarrow> Inl No_such_file | Some f \<Rightarrow> Inr f)"

text \<open>\<open>new Set(xs)\<close> keeps the first of equal elements.\<close>

definition dedup :: "'a list \<Rightarrow> 'a list" where
  "dedup xs = rev (remdups (rev xs))"

definition sample_offsets :: "nat \<Rightarrow> nat list" where
  "sample_offsets n =
     (if n = 0 then [] else let final = (if 4096 < n then n - 4096 else 0) in dedup [0, n div 2, final])"

definition sample_sha256 :: "(bytes \<Rightarrow> bytes) \<Rightarrow> bytes \<Rightarrow> bytes" where
  "sample_sha256 sha256 c = sha256 (concat (map (\<lambda>o'. subarray c o' (o' + 4096)) (sample_offsets (length c))))"

text \<open>The read loop of \<open>sha256File\<close>, a mebibyte at a time.\<close>

function read_chunks :: "bytes \<Rightarrow> nat \<Rightarrow> bytes" where
  "read_chunks c pos =
     (if pos < length c then subarray c pos (pos + 1048576) @ read_chunks c (pos + 1048576) else [])"
  by pat_completeness auto
termination
  by (relation "measure (\<lambda>(c, pos). length c - pos)") auto

declare read_chunks.simps [simp del]

definition file_identity :: "(bytes \<Rightarrow> bytes) \<Rightarrow> host \<Rightarrow> string \<Rightarrow> fs_error + identity" where
  "file_identity sha256 host p =
     bind_res (stat_file host p) (\<lambda>f.
       Inr \<lparr>id_path = Some p, id_size = length (content f), id_sha256 = sha256 (read_chunks (content f) 0),
            id_sample = None\<rparr>)"

definition identity_stamp_of :: "(bytes \<Rightarrow> bytes) \<Rightarrow> host \<Rightarrow> string \<Rightarrow> fs_error + identity_stamp" where
  "identity_stamp_of sha256 host p =
     bind_res (stat_file host p) (\<lambda>f.
       Inr \<lparr>s_dev = st_dev f, s_ino = st_ino f, s_size = length (content f), s_mtime = st_mtime f,
            s_ctime = st_ctime f, s_sample = sample_sha256 sha256 (content f)\<rparr>)"

definition remember_trusted :: "(bytes \<Rightarrow> bytes) \<Rightarrow> host \<Rightarrow> identity \<Rightarrow> identity_caches \<Rightarrow> fs_error + identity_caches" where
  "remember_trusted sha256 host ident c =
     (case id_path ident of
        None \<Rightarrow> Inr c
      | Some p \<Rightarrow>
          if p = '''' then Inr c
          else bind_res (identity_stamp_of sha256 host p) (\<lambda>stamp.
            if s_size stamp \<noteq> id_size ident then Inr c
            else Inr (c\<lparr>trusted := (trusted c)(p \<mapsto> (ident, stamp))\<rparr>)))"

definition trusted_identity ::
    "(bytes \<Rightarrow> bytes) \<Rightarrow> host \<Rightarrow> string \<Rightarrow> identity_caches \<Rightarrow> fs_error + (identity option \<times> identity_caches)" where
  "trusted_identity sha256 host p c =
     (case trusted c p of
        None \<Rightarrow> Inr (None, c)
      | Some (ident, stamp) \<Rightarrow>
          bind_res (identity_stamp_of sha256 host p) (\<lambda>now.
            if stamp \<noteq> now then Inr (None, c\<lparr>trusted := (trusted c)(p := None)\<rparr>)
            else Inr (Some ident, c)))"

definition remember_managed :: "host \<Rightarrow> string \<Rightarrow> identity_caches \<Rightarrow> fs_error + identity_caches" where
  "remember_managed host p c =
     bind_res (stat_file host p) (\<lambda>f.
       Inr (c\<lparr>managed := (managed c)(p \<mapsto>
         \<lparr>d_dev = st_dev f, d_ino = st_ino f, d_size = length (content f)\<rparr>)\<rparr>))"

definition trusted_managed :: "host \<Rightarrow> string \<Rightarrow> identity_caches \<Rightarrow> fs_error + (nat option \<times> identity_caches)" where
  "trusted_managed host p c =
     (case managed c p of
        None \<Rightarrow> Inr (None, c)
      | Some stamp \<Rightarrow>
          bind_res (stat_file host p) (\<lambda>f.
            if d_dev stamp \<noteq> st_dev f \<or> d_ino stamp \<noteq> st_ino f \<or> d_size stamp \<noteq> length (content f)
            then Inr (None, c\<lparr>managed := (managed c)(p := None)\<rparr>)
            else Inr (Some (length (content f)), c)))"

lemma read_chunks_all: "read_chunks c pos = drop pos c"
proof (induction c pos rule: read_chunks.induct)
  case (1 c pos)
  show ?case
  proof (cases "pos < length c")
    case True
    then have "read_chunks c pos = take 1048576 (drop pos c) @ drop (pos + 1048576) c"
      using 1 by (subst read_chunks.simps) (simp add: subarray_def)
    then show ?thesis by (metis append_take_drop_id drop_drop add.commute)
  qed (subst read_chunks.simps, simp)
qed

lemma file_identity_whole:
  "host p = Some f \<Longrightarrow> file_identity sha256 host p =
     Inr \<lparr>id_path = Some p, id_size = length (content f), id_sha256 = sha256 (content f), id_sample = None\<rparr>"
  by (simp add: file_identity_def stat_file_def read_chunks_all)

lemma sample_offsets_in_range: "o' \<in> set (sample_offsets n) \<Longrightarrow> o' < n"
  by (auto simp: sample_offsets_def dedup_def Let_def split: if_splits)

text \<open>What the cache of trusted identities promises: an entry was stamped when its file had
  the recorded size.\<close>

definition caches_ok :: "identity_caches \<Rightarrow> bool" where
  "caches_ok c \<longleftrightarrow> (\<forall>p ident stamp. trusted c p = Some (ident, stamp) \<longrightarrow>
     id_path ident = Some p \<and> s_size stamp = id_size ident)"

lemma remember_trusted_ok: "caches_ok c \<Longrightarrow> remember_trusted sha256 host i c = Inr c' \<Longrightarrow> caches_ok c'"
  by (auto simp: remember_trusted_def caches_ok_def result_simps split: option.splits if_splits)

lemma trusted_identity_ok: "caches_ok c \<Longrightarrow> trusted_identity sha256 host p c = Inr (r, c') \<Longrightarrow> caches_ok c'"
  by (auto simp: trusted_identity_def caches_ok_def result_simps split: option.splits if_splits)

lemma trusted_identity_hit:
  assumes "caches_ok c" "trusted_identity sha256 host p c = Inr (Some i, c')"
  obtains f where "host p = Some f" "id_path i = Some p" "id_size i = length (content f)" "c' = c"
    "trusted c p = Some (i, \<lparr>s_dev = st_dev f, s_ino = st_ino f, s_size = length (content f),
       s_mtime = st_mtime f, s_ctime = st_ctime f, s_sample = sample_sha256 sha256 (content f)\<rparr>)"
proof -
  obtain f where f: "host p = Some f" "c' = c" "trusted c p = Some (i, \<lparr>s_dev = st_dev f, s_ino = st_ino f,
      s_size = length (content f), s_mtime = st_mtime f, s_ctime = st_ctime f,
      s_sample = sample_sha256 sha256 (content f)\<rparr>)"
    using assms(2)
    by (auto simp: trusted_identity_def identity_stamp_of_def stat_file_def result_simps
        split: option.splits if_splits)
  have "id_path i = Some p" "id_size i = length (content f)"
    using assms(1) [unfolded caches_ok_def, rule_format, OF f(3)] by simp_all
  then show thesis using that f by blast
qed

text \<open>A file that changed its stamp is forgotten: until it is remembered again, no lookup
  trusts it, whatever the host then shows.\<close>

lemma trusted_identity_miss_forgets:
  assumes "trusted_identity sha256 host p c = Inr (None, c')"
  shows "trusted_identity sha256 host' p c' = Inr (None, c')"
proof -
  have "trusted c' p = None"
  proof (cases "trusted c p")
    case None
    then show ?thesis using assms by (auto simp: trusted_identity_def)
  next
    case (Some e)
    obtain ident stamp where "e = (ident, stamp)" by fastforce
    then show ?thesis
      using assms Some by (cases "identity_stamp_of sha256 host p") (auto simp: trusted_identity_def split: if_splits)
  qed
  then show ?thesis by (simp add: trusted_identity_def)
qed

lemma remember_then_trusted:
  assumes "host p = Some f" "p \<noteq> ''''" "file_identity sha256 host p = Inr i"
  shows "\<exists>c'. remember_trusted sha256 host i c = Inr c' \<and> trusted_identity sha256 host p c' = Inr (Some i, c')"
proof -
  have i: "id_path i = Some p" "id_size i = length (content f)"
    using assms(3) file_identity_whole [of host p f sha256, OF assms(1)] by auto
  obtain stamp where stamp: "identity_stamp_of sha256 host p = Inr stamp" "s_size stamp = length (content f)"
    using assms(1) by (simp add: identity_stamp_of_def stat_file_def)
  then have "remember_trusted sha256 host i c = Inr (c\<lparr>trusted := (trusted c)(p \<mapsto> (i, stamp))\<rparr>)"
    using assms(2) i by (simp add: remember_trusted_def)
  then show ?thesis using stamp by (simp add: trusted_identity_def)
qed

end
