(* ===== verification/Lazy_Pagemap.thy ===== *)
theory Lazy_Pagemap
  imports Js_Text
begin

text \<open>
  \<^verbatim>\<open>packages/runtime/src/lazy-pagemap.ts\<close>: before a lazy restore, every present pagemap entry
  inside an anonymous private mapping gets the flag \<open>PE_LAZY\<close>. The images are streams of
  length-prefixed protobuf messages; the code walks the fields of a message and re-encodes
  one varint in place. BigInts are \<open>nat\<close>; where the code converts one with \<open>Number\<close> and then
  uses JavaScript's 32-bit operators, the conversion is written out (\<open>round53\<close>, \<open>low32\<close>).
  Positions past the end of a buffer only end a walk, so they need no rounding.
\<close>

section \<open>Constants and results\<close>

definition IMG_COMMON_MAGIC :: nat where "IMG_COMMON_MAGIC = 0x54564319"
definition PAGEMAP_MAGIC :: nat where "PAGEMAP_MAGIC = 0x56084025"
definition MM_MAGIC :: nat where "MM_MAGIC = 0x57492820"

abbreviation PE_LAZY :: "32 word" where "PE_LAZY \<equiv> 2"
abbreviation PE_PRESENT :: "32 word" where "PE_PRESENT \<equiv> 4"

definition VMA_ANON_PRIVATE :: "32 word" where "VMA_ANON_PRIVATE = push_bit 4 1"
definition VMA_LAZY_INELIGIBLE :: "32 word" where
  "VMA_LAZY_INELIGIBLE = push_bit 7 1 OR push_bit 8 1 OR push_bit 11 1"

datatype pm_error =
    Too_short
  | Bad_common_magic nat
  | Bad_image_magic nat
  | Missing_size_prefix
  | Truncated_message
  | Varint_truncated
  | Varint_overflow
  | Varint_negative
  | Unsupported_wire_type nat
  | Length_out_of_range \<comment> \<open>Node's RangeError of \<open>writeUInt32LE\<close>\<close>

text \<open>The operand of a bitwise operator: a number's low 32 bits.\<close>

definition low32 :: "nat \<Rightarrow> 32 word" where "low32 n = of_nat n"

section \<open>Varints and fields\<close>

function read_varint_from :: "bytes \<Rightarrow> nat \<Rightarrow> nat \<Rightarrow> nat \<Rightarrow> pm_error + (nat \<times> nat)" where
  "read_varint_from buf p shift acc =
     (if length buf \<le> p then Inl Varint_truncated
      else
        let b = unat (buf ! p); acc' = acc + (b mod 128) * 2 ^ shift
        in if b < 128 then Inr (acc', Suc p)
           else if 63 < shift + 7 then Inl Varint_overflow
           else read_varint_from buf (Suc p) (shift + 7) acc')"
  by pat_completeness auto
termination
  by (relation "measure (\<lambda>(buf, p, shift, acc). 64 - shift)") auto

declare read_varint_from.simps [simp del]

definition read_varint :: "bytes \<Rightarrow> nat \<Rightarrow> pm_error + (nat \<times> nat)" where
  "read_varint buf pos = read_varint_from buf pos 0 0"

text \<open>\<open>v >>> 7\<close> of the non-negative 32-bit value.\<close>

fun varint_bytes :: "nat \<Rightarrow> bytes" where
  "varint_bytes v = (if v < 128 then [of_nat v] else of_nat (v mod 128 + 128) # varint_bytes (v div 128))"

declare varint_bytes.simps [simp del]

definition encode_varint :: "int \<Rightarrow> pm_error + bytes" where
  "encode_varint v = (if v < 0 then Inl Varint_negative else Inr (varint_bytes (nat v)))"

definition skip_field :: "bytes \<Rightarrow> nat \<Rightarrow> nat \<Rightarrow> pm_error + nat" where
  "skip_field buf pos wire_type =
     (if wire_type = 0 then bind_res (read_varint buf pos) (\<lambda>(v, nxt). Inr nxt)
      else if wire_type = 1 then Inr (pos + 8)
      else if wire_type = 2 then bind_res (read_varint buf pos) (\<lambda>(len, nxt). Inr (nxt + len))
      else if wire_type = 5 then Inr (pos + 4)
      else Inl (Unsupported_wire_type wire_type))"

lemma read_varint_from_bounds:
  "read_varint_from buf p shift acc = Inr (v, nxt) \<Longrightarrow> p < nxt \<and> nxt \<le> length buf"
proof (induction buf p shift acc rule: read_varint_from.induct)
  case (1 buf p shift acc)
  have p: "p < length buf"
    using "1.prems" by (subst (asm) read_varint_from.simps) (auto split: if_splits)
  show ?case
  proof (cases "unat (buf ! p) < 128")
    case True
    then show ?thesis using "1.prems" p by (subst (asm) read_varint_from.simps) (auto simp: Let_def)
  next
    case False
    then have "read_varint_from buf (Suc p) (shift + 7) (acc + (unat (buf ! p) mod 128) * 2 ^ shift) = Inr (v, nxt)"
      and "\<not> 63 < shift + 7"
      using "1.prems" p by (subst (asm) read_varint_from.simps, auto simp: Let_def split: if_splits)+
    then show ?thesis using "1.IH" [OF _ refl refl False] p by fastforce
  qed
qed

lemma read_varint_bounds: "read_varint buf pos = Inr (v, nxt) \<Longrightarrow> pos < nxt \<and> nxt \<le> length buf"
  unfolding read_varint_def by (rule read_varint_from_bounds)

lemma skip_field_ge: "skip_field buf pos w = Inr nxt \<Longrightarrow> pos \<le> nxt"
  by (auto simp: skip_field_def result_simps dest!: read_varint_bounds split: if_splits)

section \<open>Memory maps: the lazy ranges\<close>

record vma_range =
  lo :: nat
  hi :: nat

record parsed_vma =
  vma_start :: "nat option"
  vma_end :: "nat option"
  vma_status :: "nat option"

function parse_vma_from :: "bytes \<Rightarrow> nat \<Rightarrow> parsed_vma \<Rightarrow> pm_error + parsed_vma" where
  "parse_vma_from buf pos vma =
     (if pos < length buf then
        bind_res (read_varint buf pos) (\<lambda>(tag, p1).
          if tag mod 8 = 0 then
            bind_res (read_varint buf p1) (\<lambda>(v, p2).
              let vma' = (if tag div 8 = 1 then vma\<lparr>vma_start := Some v\<rparr>
                          else if tag div 8 = 2 then vma\<lparr>vma_end := Some v\<rparr>
                          else if tag div 8 = 7 then vma\<lparr>vma_status := Some (round53 v)\<rparr>
                          else vma)
              in parse_vma_from buf p2 vma')
          else bind_res (skip_field buf p1 (tag mod 8)) (\<lambda>p2. parse_vma_from buf p2 vma))
      else Inr vma)"
  by pat_completeness auto
termination
  by (relation "measure (\<lambda>(buf, pos, vma). length buf - pos)")
     (auto dest!: read_varint_bounds skip_field_ge)

definition parse_vma_entry :: "bytes \<Rightarrow> pm_error + parsed_vma" where
  "parse_vma_entry buf = parse_vma_from buf 0 \<lparr>vma_start = None, vma_end = None, vma_status = None\<rparr>"

text \<open>The range of a mapping that may be restored lazily.\<close>

definition lazy_range_of :: "parsed_vma \<Rightarrow> vma_range option" where
  "lazy_range_of vma =
     (case (vma_status vma, vma_start vma, vma_end vma) of
        (Some st, Some a, Some b) \<Rightarrow>
          if low32 st AND VMA_ANON_PRIVATE \<noteq> 0 \<and> low32 st AND VMA_LAZY_INELIGIBLE = 0
          then Some \<lparr>lo = a, hi = b\<rparr> else None
      | _ \<Rightarrow> None)"

function parse_ranges_from :: "bytes \<Rightarrow> nat \<Rightarrow> vma_range list \<Rightarrow> pm_error + vma_range list" where
  "parse_ranges_from body pos ranges =
     (if pos < length body then
        bind_res (read_varint body pos) (\<lambda>(tag, p1).
          if tag div 8 = 27 \<and> tag mod 8 = 2 then
            bind_res (read_varint body p1) (\<lambda>(len, p2).
            bind_res (parse_vma_entry (subarray body p2 (p2 + len))) (\<lambda>vma.
              parse_ranges_from body (p2 + len)
                (case lazy_range_of vma of Some r \<Rightarrow> ranges @ [r] | None \<Rightarrow> ranges)))
          else bind_res (skip_field body p1 (tag mod 8)) (\<lambda>p2. parse_ranges_from body p2 ranges))
      else Inr ranges)"
  by pat_completeness auto
termination
  by (relation "measure (\<lambda>(body, pos, ranges). length body - pos)")
     (auto dest!: read_varint_bounds skip_field_ge)

definition parse_lazy_ranges_from_mm :: "bytes \<Rightarrow> pm_error + vma_range list" where
  "parse_lazy_ranges_from_mm input =
     (if length input < 8 then Inl Too_short
      else if read_u32 input 0 \<noteq> IMG_COMMON_MAGIC then Inl (Bad_common_magic (read_u32 input 0))
      else if read_u32 input 4 \<noteq> MM_MAGIC then Inl (Bad_image_magic (read_u32 input 4))
      else if length input < 12 then Inl Missing_size_prefix
      else
        let n = read_u32 input 8
        in if length input < 12 + n then Inl Truncated_message
           else parse_ranges_from (subarray input 12 (12 + n)) 0 [])"

definition vaddr_in_lazy_range :: "nat \<Rightarrow> nat \<Rightarrow> vma_range list \<Rightarrow> bool" where
  "vaddr_in_lazy_range vaddr len ranges \<longleftrightarrow> (\<exists>r \<in> set ranges. lo r \<le> vaddr \<and> vaddr + len \<le> hi r)"

section \<open>Pagemap entries\<close>

text \<open>\<open>flags_val\<close> is the position and the length of the flags varint, absent (-1 in the code)
  until a flags field is met.\<close>

record entry_fields =
  flags_val :: "(nat \<times> nat) option"
  flags :: nat
  vaddr :: "nat option"
  nr_pages :: "nat option"
  compat_nr_pages :: "nat option"

definition no_fields :: entry_fields where
  "no_fields = \<lparr>flags_val = None, flags = 0, vaddr = None, nr_pages = None, compat_nr_pages = None\<rparr>"

definition apply_entry_field :: "entry_fields \<Rightarrow> nat \<Rightarrow> nat \<Rightarrow> nat \<Rightarrow> nat \<Rightarrow> entry_fields" where
  "apply_entry_field f field v val_start val_next =
     (if field = 1 then f\<lparr>vaddr := Some v\<rparr>
      else if field = 2 then f\<lparr>compat_nr_pages := Some v\<rparr>
      else if field = 4 then f\<lparr>flags_val := Some (val_start, val_next - val_start), flags := round53 v\<rparr>
      else if field = 5 then f\<lparr>nr_pages := Some v\<rparr>
      else f)"

definition read_entry_field :: "bytes \<Rightarrow> nat \<Rightarrow> entry_fields \<Rightarrow> pm_error + (nat \<times> entry_fields)" where
  "read_entry_field msg pos f =
     bind_res (read_varint msg pos) (\<lambda>(tag, p1).
       if tag mod 8 \<noteq> 0 then bind_res (skip_field msg p1 (tag mod 8)) (\<lambda>p2. Inr (p2, f))
       else bind_res (read_varint msg p1) (\<lambda>(v, p2).
         Inr (p2, apply_entry_field f (tag div 8) v p1 p2)))"

lemma read_entry_field_advances: "read_entry_field msg pos f = Inr (p, g) \<Longrightarrow> pos < p"
  by (fastforce simp: read_entry_field_def result_simps dest!: read_varint_bounds skip_field_ge split: if_splits)

function parse_fields_from :: "bytes \<Rightarrow> nat \<Rightarrow> entry_fields \<Rightarrow> pm_error + entry_fields" where
  "parse_fields_from msg pos f =
     (if pos < length msg
      then bind_res (read_entry_field msg pos f) (\<lambda>(p, g). parse_fields_from msg p g)
      else Inr f)"
  by pat_completeness auto
termination
  by (relation "measure (\<lambda>(msg, pos, f). length msg - pos)") (auto dest!: read_entry_field_advances)

declare parse_vma_from.simps [simp del] parse_ranges_from.simps [simp del] parse_fields_from.simps [simp del]

definition parse_entry_fields :: "bytes \<Rightarrow> pm_error + entry_fields" where
  "parse_entry_fields msg = parse_fields_from msg 0 no_fields"

definition entry_is_already_lazy :: "entry_fields \<Rightarrow> bool" where
  "entry_is_already_lazy f \<longleftrightarrow> low32 (flags f) AND PE_LAZY \<noteq> 0"

definition entry_page_count :: "entry_fields \<Rightarrow> nat" where
  "entry_page_count f =
     (case nr_pages f of Some n \<Rightarrow> n | None \<Rightarrow> (case compat_nr_pages f of Some n \<Rightarrow> n | None \<Rightarrow> 0))"

definition entry_should_become_lazy :: "entry_fields \<Rightarrow> vma_range list \<Rightarrow> bool" where
  "entry_should_become_lazy f ranges \<longleftrightarrow>
     (case vaddr f of
        None \<Rightarrow> False
      | Some a \<Rightarrow> low32 (flags f) AND PE_PRESENT \<noteq> 0 \<and> ranges \<noteq> [] \<and>
          vaddr_in_lazy_range a (entry_page_count f * 4096) ranges)"

record entry_rewrite =
  e_out :: bytes
  e_changed :: bool
  e_already :: bool

text \<open>\<open>flags | PE_LAZY\<close> is a signed 32-bit number. Where no flags field was met its position
  is -1; the code does not get here then, as the flags are 0 and not present.\<close>

definition rewrite_entry_flags :: "bytes \<Rightarrow> entry_fields \<Rightarrow> pm_error + entry_rewrite" where
  "rewrite_entry_flags msg f =
     bind_res (encode_varint (sint (low32 (flags f) OR PE_LAZY))) (\<lambda>bs.
       case flags_val f of
         None \<Rightarrow> Inr \<lparr>e_out = butlast msg @ bs @ drop (length msg - 1) msg, e_changed = True, e_already = False\<rparr>
       | Some (p, l) \<Rightarrow> Inr \<lparr>e_out = take p msg @ bs @ drop (p + l) msg, e_changed = True, e_already = False\<rparr>)"

definition rewrite_entry :: "bytes \<Rightarrow> vma_range list \<Rightarrow> pm_error + entry_rewrite" where
  "rewrite_entry msg ranges =
     bind_res (parse_entry_fields msg) (\<lambda>f.
       if entry_is_already_lazy f then Inr \<lparr>e_out = msg, e_changed = False, e_already = True\<rparr>
       else if \<not> entry_should_become_lazy f ranges then Inr \<lparr>e_out = msg, e_changed = False, e_already = False\<rparr>
       else rewrite_entry_flags msg f)"

section \<open>Pagemap files\<close>

record rewrite_state =
  r_out :: bytes
  r_changed :: bool
  r_flagged :: nat
  r_already :: nat

definition validate_pagemap_header :: "bytes \<Rightarrow> pm_error + unit" where
  "validate_pagemap_header input =
     (if length input < 8 then Inl Too_short
      else if read_u32 input 0 \<noteq> IMG_COMMON_MAGIC then Inl (Bad_common_magic (read_u32 input 0))
      else if read_u32 input 4 \<noteq> PAGEMAP_MAGIC then Inl (Bad_image_magic (read_u32 input 4))
      else Inr ())"

definition read_pagemap_message :: "bytes \<Rightarrow> nat \<Rightarrow> pm_error + (bytes \<times> nat)" where
  "read_pagemap_message input pos =
     (if length input < pos + 4 then Inl Missing_size_prefix
      else
        let start = pos + 4; nxt = start + read_u32 input pos
        in if length input < nxt then Inl Truncated_message else Inr (subarray input start nxt, nxt))"

definition rewrite_entry_message :: "rewrite_state \<Rightarrow> bytes \<Rightarrow> vma_range list \<Rightarrow> pm_error + (rewrite_state \<times> bytes)" where
  "rewrite_entry_message st msg ranges =
     bind_res (rewrite_entry msg ranges) (\<lambda>r.
       let st1 = (if e_already r then st\<lparr>r_already := Suc (r_already st)\<rparr> else st)
       in if e_changed r
          then Inr (st1\<lparr>r_flagged := Suc (r_flagged st1), r_changed := True\<rparr>, e_out r)
          else Inr (st1, msg))"

definition append_message :: "bytes \<Rightarrow> bytes \<Rightarrow> pm_error + bytes" where
  "append_message out msg =
     (if 2 ^ 32 \<le> length msg then Inl Length_out_of_range
      else Inr (out @ le_bytes 4 (length msg) @ msg))"

definition append_rewritten :: "rewrite_state \<Rightarrow> bool \<Rightarrow> bytes \<Rightarrow> vma_range list \<Rightarrow> pm_error + rewrite_state" where
  "append_rewritten st is_first msg ranges =
     bind_res (if is_first then Inr (st, msg) else rewrite_entry_message st msg ranges) (\<lambda>(st', msg').
     bind_res (append_message (r_out st') msg') (\<lambda>out. Inr (st'\<lparr>r_out := out\<rparr>)))"

lemma read_pagemap_message_advances: "read_pagemap_message input pos = Inr (m, nxt) \<Longrightarrow> pos < nxt \<and> nxt \<le> length input"
  by (auto simp: read_pagemap_message_def Let_def split: if_splits)

text \<open>The \<open>for\<close> loop over the generator \<open>pagemapMessages\<close>.\<close>

function rewrite_messages :: "bytes \<Rightarrow> vma_range list \<Rightarrow> nat \<Rightarrow> bool \<Rightarrow> rewrite_state \<Rightarrow> pm_error + rewrite_state" where
  "rewrite_messages input ranges pos is_first st =
     (if pos < length input then
        bind_res (read_pagemap_message input pos) (\<lambda>(msg, nxt).
        bind_res (append_rewritten st is_first msg ranges) (\<lambda>st'.
          rewrite_messages input ranges nxt False st'))
      else Inr st)"
  by pat_completeness auto
termination
  by (relation "measure (\<lambda>(input, ranges, pos, is_first, st). length input - pos)")
     (auto dest!: read_pagemap_message_advances)

declare rewrite_messages.simps [simp del]

definition rewrite_pagemap :: "bytes \<Rightarrow> vma_range list \<Rightarrow> pm_error + rewrite_state" where
  "rewrite_pagemap input ranges =
     bind_res (validate_pagemap_header input) (\<lambda>_.
       rewrite_messages input ranges 8 True
         \<lparr>r_out = subarray input 0 8, r_changed = False, r_flagged = 0, r_already = 0\<rparr>)"

section \<open>An image directory\<close>

type_synonym image_dir = "(string \<times> bytes) list"

text \<open>\<open>/^mm-(\d+)\.img$/\<close> and \<open>/^pagemap-(\d+)\.img$/\<close>: the digits, if the name matches.\<close>

definition image_pid :: "string \<Rightarrow> string \<Rightarrow> string option" where
  "image_pid pre name =
     (let rest = drop (length pre) name; ds = take (length rest - 4) rest
      in if starts_with name pre \<and> drop (length rest - 4) rest = ''.img'' \<and> all_digits ds then Some ds else None)"

datatype mark_counts = Counts (files_rewritten: nat) (entries_flagged: nat) (entries_already_lazy: nat)

fun collect_ranges :: "image_dir \<Rightarrow> (string \<rightharpoonup> vma_range list) \<Rightarrow> pm_error + (string \<rightharpoonup> vma_range list)" where
  "collect_ranges [] m = Inr m"
| "collect_ranges ((name, bs) # rest) m =
     (case image_pid ''mm-'' name of
        None \<Rightarrow> collect_ranges rest m
      | Some pid \<Rightarrow> bind_res (parse_lazy_ranges_from_mm bs) (\<lambda>r. collect_ranges rest (m(pid \<mapsto> r))))"

text \<open>Files rewritten before a throw stay rewritten, so the directory is returned either way.\<close>

fun mark_files :: "(string \<rightharpoonup> vma_range list) \<Rightarrow> image_dir \<Rightarrow> mark_counts \<Rightarrow> (pm_error + mark_counts) \<times> image_dir" where
  "mark_files m [] c = (Inr c, [])"
| "mark_files m ((name, bs) # rest) c =
     (case image_pid ''pagemap-'' name of
        None \<Rightarrow> (let (r, rest') = mark_files m rest c in (r, (name, bs) # rest'))
      | Some pid \<Rightarrow>
          (case rewrite_pagemap bs (case m pid of None \<Rightarrow> [] | Some r \<Rightarrow> r) of
             Inl e \<Rightarrow> (Inl e, (name, bs) # rest)
           | Inr st \<Rightarrow>
               let c1 = Counts (files_rewritten c) (entries_flagged c) (entries_already_lazy c + r_already st);
                   c2 = (if r_changed st then Counts (Suc (files_rewritten c1)) (entries_flagged c1 + r_flagged st)
                                                (entries_already_lazy c1) else c1);
                   (r, rest') = mark_files m rest c2
               in (r, (name, if r_changed st then r_out st else bs) # rest')))"

definition mark_pagemaps_lazy :: "image_dir \<Rightarrow> (pm_error + mark_counts) \<times> image_dir" where
  "mark_pagemaps_lazy dir =
     (case collect_ranges dir Map.empty of
        Inl e \<Rightarrow> (Inl e, dir)
      | Inr m \<Rightarrow> mark_files m dir (Counts 0 0 0))"

section \<open>Varints round trip\<close>

lemma varint_bytes_not_Nil [simp]: "varint_bytes v \<noteq> []"
  by (subst varint_bytes.simps) simp

lemma read_varint_from_encoded:
  assumes "v < 2 ^ (7 * k)" "shift + 7 * k \<le> 70" "0 < k"
  shows "read_varint_from (pre @ varint_bytes v @ post) (length pre) shift acc =
    Inr (acc + v * 2 ^ shift, length pre + length (varint_bytes v))"
  using assms
proof (induction v arbitrary: pre shift acc k rule: varint_bytes.induct)
  case (1 v)
  show ?case
  proof (cases "v < 128")
    case True
    then show ?thesis
      by (subst read_varint_from.simps) (simp add: varint_bytes.simps [of v] Let_def nth_append)
  next
    case False
    obtain j where k: "k = Suc j" using "1.prems"(3) by (cases k) auto
    have j: "0 < j" using False "1.prems"(1) k by (cases j) auto
    have v: "v div 128 < 2 ^ (7 * j)"
      using "1.prems"(1) by (simp add: k power_add less_mult_imp_div_less mult.commute)
    let ?b = "of_nat (v mod 128 + 128) :: byte"
    have b: "unat ?b = v mod 128 + 128"
      unfolding unat_of_nat_byte by (rule mod_less) (use mod_less_divisor [of 128 v] in simp)
    have split: "varint_bytes v = ?b # varint_bytes (v div 128)"
      using False by (subst varint_bytes.simps) simp
    have IH: "read_varint_from ((pre @ [?b]) @ varint_bytes (v div 128) @ post) (length (pre @ [?b])) (shift + 7)
        (acc + v mod 128 * 2 ^ shift) =
      Inr (acc + v mod 128 * 2 ^ shift + v div 128 * 2 ^ (shift + 7),
        length (pre @ [?b]) + length (varint_bytes (v div 128)))"
      using False v j "1.prems"(2) by (intro "1.IH" [where k = j]) (simp_all add: k)
    have value_eq: "acc + v mod 128 * 2 ^ shift + v div 128 * 2 ^ (shift + 7) = acc + v * 2 ^ shift"
    proof -
      have "acc + r * x + q * (x * 128) = acc + (r + 128 * q) * x" for q r x :: nat
        by (simp add: algebra_simps)
      from this [of "v mod 128" "2 ^ shift" "v div 128"] show ?thesis
        by (simp only: power_add mod_mult_div_eq) simp
    qed
    have shift_ok: "\<not> 63 < shift + 7" using "1.prems"(2) j by (simp add: k)
    have at: "(pre @ varint_bytes v @ post) ! length pre = ?b" by (simp add: split nth_append)
    have "read_varint_from (pre @ varint_bytes v @ post) (length pre) shift acc =
      read_varint_from (pre @ varint_bytes v @ post) (Suc (length pre)) (shift + 7) (acc + v mod 128 * 2 ^ shift)"
      using shift_ok by (subst read_varint_from.simps) (simp add: at b Let_def del: of_nat_add)
    then show ?thesis using IH value_eq by (simp add: split)
  qed
qed

lemma read_varint_encoded:
  "v < 2 ^ 70 \<Longrightarrow> read_varint (pre @ varint_bytes v @ post) (length pre) =
     Inr (v, length pre + length (varint_bytes v))"
  using read_varint_from_encoded [of v 10 0] by (simp add: read_varint_def)

section \<open>Reading is local\<close>

text \<open>A read that ends at or before \<open>n\<close> depends on the first \<open>n\<close> bytes only, and a read from
  \<open>p\<close> on depends on the bytes from \<open>p\<close> on only.\<close>

lemma read_varint_from_local:
  assumes "read_varint_from buf p shift acc = Inr (v, nxt)" "nxt \<le> n" "take n buf = take n buf'"
  shows "read_varint_from buf' p shift acc = Inr (v, nxt)"
  using assms
proof (induction buf p shift acc rule: read_varint_from.induct)
  case (1 buf p shift acc)
  have p: "p < nxt" "nxt \<le> length buf" using read_varint_from_bounds [OF "1.prems"(1)] by auto
  then have pn: "p < n" "p < length buf" using "1.prems"(2) by auto
  then have p': "p < length buf'" using "1.prems"(3) by (metis length_take min_less_iff_conj)
  have same: "buf' ! p = buf ! p" using "1.prems"(3) pn by (metis nth_take)
  show ?case
  proof (cases "unat (buf ! p) < 128")
    case True
    then show ?thesis
      using "1.prems"(1) pn p' same
      by (subst (asm) read_varint_from.simps, subst read_varint_from.simps) (simp add: Let_def)
  next
    case False
    have rec: "read_varint_from buf (Suc p) (shift + 7) (acc + unat (buf ! p) mod 128 * 2 ^ shift) = Inr (v, nxt)"
      and ok: "\<not> 63 < shift + 7"
      using "1.prems"(1) pn False
      by (subst (asm) read_varint_from.simps, auto simp: Let_def split: if_splits)+
    have "read_varint_from buf' (Suc p) (shift + 7) (acc + unat (buf ! p) mod 128 * 2 ^ shift) = Inr (v, nxt)"
      using pn(2) by (intro "1.IH" [OF _ refl refl False ok rec "1.prems"(2,3)]) simp
    then show ?thesis
      using p' same False ok by (subst read_varint_from.simps) (simp add: Let_def)
  qed
qed

lemma read_varint_local:
  "read_varint buf p = Inr (v, nxt) \<Longrightarrow> nxt \<le> n \<Longrightarrow> take n buf = take n buf' \<Longrightarrow>
   read_varint buf' p = Inr (v, nxt)"
  unfolding read_varint_def by (rule read_varint_from_local)

lemma nth_drop_eq:
  assumes "drop a buf = drop b buf'" "a \<le> p" "p < length buf"
  shows "b + (p - a) < length buf'" "buf' ! (b + (p - a)) = buf ! p"
proof -
  have len: "length buf - a = length buf' - b" using assms(1) by (metis length_drop)
  then show lt: "b + (p - a) < length buf'" using assms(2,3) by linarith
  have "drop a buf ! (p - a) = buf ! p" using assms(2,3) by simp
  moreover have "drop b buf' ! (p - a) = buf' ! (b + (p - a))" using lt by simp
  ultimately show "buf' ! (b + (p - a)) = buf ! p" using assms(1) by simp
qed

lemma read_varint_from_shift:
  assumes "read_varint_from buf p shift acc = Inr (v, nxt)" "a \<le> p" "drop a buf = drop b buf'"
  shows "read_varint_from buf' (b + (p - a)) shift acc = Inr (v, b + (nxt - a))"
  using assms
proof (induction buf p shift acc rule: read_varint_from.induct)
  case (1 buf p shift acc)
  have p: "p < nxt" "nxt \<le> length buf" using read_varint_from_bounds [OF "1.prems"(1)] by auto
  then have pl: "p < length buf" by simp
  note same = nth_drop_eq [OF "1.prems"(3,2) pl]
  show ?case
  proof (cases "unat (buf ! p) < 128")
    case True
    then show ?thesis
      using "1.prems"(1,2) pl same
      by (subst (asm) read_varint_from.simps, subst read_varint_from.simps) (auto simp: Let_def)
  next
    case False
    have rec: "read_varint_from buf (Suc p) (shift + 7) (acc + unat (buf ! p) mod 128 * 2 ^ shift) = Inr (v, nxt)"
      and ok: "\<not> 63 < shift + 7"
      using "1.prems"(1) pl False
      by (subst (asm) read_varint_from.simps, auto simp: Let_def split: if_splits)+
    have "read_varint_from buf' (b + (Suc p - a)) (shift + 7) (acc + unat (buf ! p) mod 128 * 2 ^ shift) =
        Inr (v, b + (nxt - a))"
      using pl "1.prems"(2) by (intro "1.IH" [OF _ refl refl False ok rec _ "1.prems"(3)]) simp_all
    then have "read_varint_from buf' (Suc (b + (p - a))) (shift + 7) (acc + unat (buf ! p) mod 128 * 2 ^ shift) =
        Inr (v, b + (nxt - a))"
      using "1.prems"(2) by (simp add: Suc_diff_le)
    then show ?thesis
      using same False ok by (subst read_varint_from.simps) (simp add: Let_def)
  qed
qed

lemma read_varint_shift:
  "read_varint buf p = Inr (v, nxt) \<Longrightarrow> a \<le> p \<Longrightarrow> drop a buf = drop b buf' \<Longrightarrow>
   read_varint buf' (b + (p - a)) = Inr (v, b + (nxt - a))"
  unfolding read_varint_def by (rule read_varint_from_shift)

lemma skip_field_local:
  assumes "skip_field buf p w = Inr nxt" "nxt \<le> n" "take n buf = take n buf'"
  shows "skip_field buf' p w = Inr nxt"
  using assms by (auto simp: skip_field_def result_simps dest: read_varint_local [OF _ _ assms(3)] split: if_splits)

lemma skip_field_shift:
  assumes "skip_field buf p w = Inr nxt" "a \<le> p" "drop a buf = drop b buf'"
  shows "skip_field buf' (b + (p - a)) w = Inr (b + (nxt - a))"
  using assms
  by (fastforce simp: skip_field_def result_simps
      dest: read_varint_shift [OF _ assms(2,3)] read_varint_bounds split: if_splits)

section \<open>Replacing the flags varint\<close>

lemma apply_entry_field_flags: "apply_entry_field f 4 v a b = f\<lparr>flags_val := Some (a, b - a), flags := round53 v\<rparr>"
  by (simp add: apply_entry_field_def)

lemma apply_entry_field_other:
  assumes "field \<noteq> 4"
  shows "apply_entry_field (f\<lparr>flags_val := x, flags := y\<rparr>) field v a b =
      (apply_entry_field f field v a' b')\<lparr>flags_val := x, flags := y\<rparr>"
    and "flags_val (apply_entry_field f field v a b) = flags_val f"
    and "flags (apply_entry_field f field v a b) = flags f"
  using assms by (simp_all add: apply_entry_field_def)

text \<open>One step of the field walk, with the flags untouched or set from this step.\<close>

lemma read_entry_field_cases:
  assumes "read_entry_field msg pos f = Inr (q, h)"
  obtains (flags) v p1 tag where
      "read_varint msg pos = Inr (tag, p1)" "tag mod 8 = 0" "tag div 8 = 4"
      "read_varint msg p1 = Inr (v, q)" "h = f\<lparr>flags_val := Some (p1, q - p1), flags := round53 v\<rparr>"
    | (other) "flags_val h = flags_val f" "flags h = flags f"
      "\<And>x y. read_entry_field msg pos (f\<lparr>flags_val := x, flags := y\<rparr>) =
        Inr (q, h\<lparr>flags_val := x, flags := y\<rparr>)"
proof -
  obtain tag p1 where tag: "read_varint msg pos = Inr (tag, p1)"
    using assms by (auto simp: read_entry_field_def result_simps)
  show thesis
  proof (cases "tag mod 8 = 0 \<and> tag div 8 = 4")
    case True
    then obtain v where "read_varint msg p1 = Inr (v, q)" "h = apply_entry_field f (tag div 8) v p1 q"
      using assms tag by (auto simp: read_entry_field_def result_simps)
    then show thesis
      using True tag flags by (simp add: apply_entry_field_flags)
  next
    case False
    note no_flags = False
    show thesis
    proof (cases "tag mod 8 = 0")
      case True
      with no_flags have "tag div 8 \<noteq> 4" by simp
      moreover obtain v where "read_varint msg p1 = Inr (v, q)" "h = apply_entry_field f (tag div 8) v p1 q"
        using assms tag True by (auto simp: read_entry_field_def result_simps)
      ultimately show thesis
        using True tag apply_entry_field_other [of "tag div 8"]
        by (intro other) (auto simp: read_entry_field_def)
    next
      case False
      then show thesis
        using assms tag by (intro other) (auto simp: read_entry_field_def result_simps)
    qed
  qed
qed

lemma parse_fields_flags_grow:
  assumes "parse_fields_from msg pos f = Inr g"
  shows "flags_val g = flags_val f \<and> flags g = flags f \<or>
    (\<exists>p l. flags_val g = Some (p, l) \<and> pos < p \<and> 0 < l \<and> p + l \<le> length msg)"
  using assms
proof (induction msg pos f rule: parse_fields_from.induct)
  case (1 msg pos f)
  show ?case
  proof (cases "pos < length msg")
    case False
    then show ?thesis using "1.prems" by (subst (asm) parse_fields_from.simps) simp
  next
    case True
    then obtain q h where step: "read_entry_field msg pos f = Inr (q, h)"
      and rest: "parse_fields_from msg q h = Inr g"
      using "1.prems" by (subst (asm) parse_fields_from.simps) (auto simp: result_simps)
    have IH: "flags_val g = flags_val h \<and> flags g = flags h \<or>
      (\<exists>p l. flags_val g = Some (p, l) \<and> q < p \<and> 0 < l \<and> p + l \<le> length msg)"
      using "1.IH" [OF True step refl rest] .
    from step have adv: "pos < q" by (rule read_entry_field_advances)
    from step show ?thesis
    proof (cases rule: read_entry_field_cases)
      case (flags v p1 tag)
      then show ?thesis using IH adv by (auto dest!: read_varint_bounds)
    next
      case other
      then show ?thesis using IH adv by auto
    qed
  qed
qed

lemma read_entry_field_shift:
  assumes "read_entry_field msg pos f = Inr (q, h)" "a \<le> pos" "drop a msg = drop b msg'"
    and "flags_val h = flags_val f" "flags h = flags f"
    and "\<And>p l. flags_val f = Some (p, l) \<Longrightarrow> p \<le> pos"
  shows "read_entry_field msg' (b + (pos - a)) (f\<lparr>flags_val := x, flags := y\<rparr>) =
    Inr (b + (q - a), h\<lparr>flags_val := x, flags := y\<rparr>)"
proof -
  obtain tag p1 where tag: "read_varint msg pos = Inr (tag, p1)"
    using assms(1) by (auto simp: read_entry_field_def result_simps)
  have p1: "pos < p1" "a \<le> p1" using tag assms(2) by (auto dest: read_varint_bounds)
  have tag': "read_varint msg' (b + (pos - a)) = Inr (tag, b + (p1 - a))"
    using tag assms(2,3) by (rule read_varint_shift)
  have not_flags: "\<not> (tag mod 8 = 0 \<and> tag div 8 = 4)"
    using assms(1,4) assms(6) [of p1 "q - p1"] tag p1(1)
    by (auto simp: read_entry_field_def result_simps apply_entry_field_def split: if_splits)
  show ?thesis
  proof (cases "tag mod 8 = 0")
    case False
    then have "skip_field msg p1 (tag mod 8) = Inr q" "h = f"
      using assms(1) tag by (auto simp: read_entry_field_def result_simps split: if_splits)
    then show ?thesis
      using False skip_field_shift [OF _ p1(2) assms(3)] by (simp add: read_entry_field_def tag')
  next
    case True
    then obtain v where v: "read_varint msg p1 = Inr (v, q)" and h: "h = apply_entry_field f (tag div 8) v p1 q"
      using assms(1) tag by (auto simp: read_entry_field_def result_simps split: if_splits)
    have "read_varint msg' (b + (p1 - a)) = Inr (v, b + (q - a))"
      using v p1(2) assms(3) by (rule read_varint_shift)
    then show ?thesis
      using True not_flags h by (simp add: read_entry_field_def tag' apply_entry_field_other(1))
  qed
qed

lemma parse_fields_tail:
  assumes "parse_fields_from msg pos f = Inr g" "a \<le> pos" "drop a msg = drop b msg'"
    and "flags_val f = Some (p, l)" "p + l \<le> pos" "flags_val g = Some (p, l)"
  shows "parse_fields_from msg' (b + (pos - a)) (f\<lparr>flags_val := x, flags := y\<rparr>) =
    Inr (g\<lparr>flags_val := x, flags := y\<rparr>)"
  using assms
proof (induction msg pos f rule: parse_fields_from.induct)
  case (1 msg pos f)
  have len: "length msg - a = length msg' - b" using "1.prems"(3) by (metis length_drop)
  show ?case
  proof (cases "pos < length msg")
    case False
    then have "\<not> b + (pos - a) < length msg'" using len "1.prems"(2) by linarith
    then show ?thesis using "1.prems"(1) False
      by (subst parse_fields_from.simps, subst (asm) parse_fields_from.simps) simp
  next
    case True
    then obtain q h where step: "read_entry_field msg pos f = Inr (q, h)"
      and rest: "parse_fields_from msg q h = Inr g"
      using "1.prems"(1) by (subst (asm) parse_fields_from.simps) (auto simp: result_simps)
    from step have adv: "pos < q" by (rule read_entry_field_advances)
    have pos': "b + (pos - a) < length msg'" using True len "1.prems"(2) by linarith
    from step have same: "flags_val h = flags_val f \<and> flags h = flags f"
    proof (cases rule: read_entry_field_cases)
      case (flags v p1 tag)
      then have "pos < p1" by (auto dest: read_varint_bounds)
      then have "flags_val g \<noteq> Some (p, l)"
        using parse_fields_flags_grow [OF rest] flags(5) "1.prems"(5) adv by auto
      then show ?thesis using "1.prems"(6) by simp
    qed simp
    have step': "read_entry_field msg' (b + (pos - a)) (f\<lparr>flags_val := x, flags := y\<rparr>) =
        Inr (b + (q - a), h\<lparr>flags_val := x, flags := y\<rparr>)"
      using same "1.prems"(4,5) by (intro read_entry_field_shift [OF step "1.prems"(2,3)]) auto
    have "parse_fields_from msg' (b + (q - a)) (h\<lparr>flags_val := x, flags := y\<rparr>) =
        Inr (g\<lparr>flags_val := x, flags := y\<rparr>)"
      using same adv "1.prems" by (intro "1.IH" [OF True step refl rest]) auto
    then show ?thesis using pos' step' by (subst parse_fields_from.simps) simp
  qed
qed

lemma read_entry_field_local:
  assumes "read_entry_field msg pos f = Inr (q, h)" "q \<le> n" "take n msg = take n msg'"
  shows "read_entry_field msg' pos f = Inr (q, h)"
proof -
  obtain tag p1 where tag: "read_varint msg pos = Inr (tag, p1)"
    using assms(1) by (auto simp: read_entry_field_def result_simps)
  have "p1 \<le> q"
    using assms(1) tag by (auto simp: read_entry_field_def result_simps dest: read_varint_bounds skip_field_ge split: if_splits)
  then have "read_varint msg' pos = Inr (tag, p1)" using read_varint_local [OF tag _ assms(3)] assms(2) by simp
  then show ?thesis
    using assms(1,2) tag
    by (auto simp: read_entry_field_def result_simps
        dest: skip_field_local [OF _ _ assms(3)] read_varint_local [OF _ _ assms(3)] split: if_splits)
qed

theorem parse_fields_replace:
  assumes "parse_fields_from (A @ V @ B) pos f = Inr g"
    and "flags_val g = Some (length A, length V)" "flags_val f \<noteq> flags_val g"
    and "w < 2 ^ 70"
  shows "parse_fields_from (A @ varint_bytes w @ B) pos f =
    Inr (g\<lparr>flags_val := Some (length A, length (varint_bytes w)), flags := round53 w\<rparr>)"
proof -
  let ?W = "varint_bytes w" and ?x = "Some (length A, length (varint_bytes w))"
  have "parse_fields_from msg pos f = Inr g \<Longrightarrow> msg = A @ V @ B \<Longrightarrow> flags_val f \<noteq> flags_val g \<Longrightarrow>
    parse_fields_from (A @ ?W @ B) pos f = Inr (g\<lparr>flags_val := ?x, flags := round53 w\<rparr>)" for msg
  proof (induction msg pos f rule: parse_fields_from.induct)
    case (1 msg pos f)
    have pos: "pos < length A"
      using parse_fields_flags_grow [OF "1.prems"(1)] "1.prems"(3) assms(2) by auto
    then have in_msg: "pos < length msg" "pos < length (A @ ?W @ B)" by (simp_all add: "1.prems"(2))
    then obtain q h where step: "read_entry_field msg pos f = Inr (q, h)"
      and rest: "parse_fields_from msg q h = Inr g"
      using "1.prems"(1) by (subst (asm) parse_fields_from.simps) (auto simp: result_simps)
    have pre: "take (length A) msg = take (length A) (A @ ?W @ B)" by (simp add: "1.prems"(2))
    show ?case
    proof (cases "flags_val h = flags_val g")
      case False
      then have "q \<le> length A"
        using parse_fields_flags_grow [OF rest] assms(2) by auto
      then have "read_entry_field (A @ ?W @ B) pos f = Inr (q, h)"
        using read_entry_field_local [OF step _ pre] by simp
      moreover have "parse_fields_from (A @ ?W @ B) q h = Inr (g\<lparr>flags_val := ?x, flags := round53 w\<rparr>)"
        using "1.IH" [OF in_msg(1) step refl rest "1.prems"(2) False] .
      ultimately show ?thesis using in_msg(2) by (subst parse_fields_from.simps) simp
    next
      case True
      from step show ?thesis
      proof (cases rule: read_entry_field_cases)
        case other
        then show ?thesis using True "1.prems"(3) by simp
      next
        case (flags v p1 tag)
        have p1: "p1 = length A" and q: "q = length A + length V"
          using flags(4,5) True assms(2) read_varint_bounds [OF flags(4)] by auto
        have "read_varint (A @ ?W @ B) pos = Inr (tag, length A)"
          using read_varint_local [OF flags(1) _ pre] p1 by simp
        moreover have "read_varint (A @ ?W @ B) (length A) = Inr (w, length A + length ?W)"
          by (rule read_varint_encoded [OF assms(4)])
        ultimately have "read_entry_field (A @ ?W @ B) pos f =
            Inr (length A + length ?W, f\<lparr>flags_val := ?x, flags := round53 w\<rparr>)"
          using flags(2,3) by (simp add: read_entry_field_def apply_entry_field_def)
        moreover have "parse_fields_from (A @ ?W @ B) (length A + length ?W + (q - q)) (h\<lparr>flags_val := ?x, flags := round53 w\<rparr>) =
            Inr (g\<lparr>flags_val := ?x, flags := round53 w\<rparr>)"
          by (rule parse_fields_tail [OF rest, where a = q and p = "length A" and l = "length V"])
             (use True assms(2) in \<open>simp_all add: "1.prems"(2) q\<close>)
        ultimately show ?thesis
          using in_msg(2) by (subst parse_fields_from.simps) (simp add: flags(5))
      qed
    qed
  qed
  then show ?thesis using assms(1,3) by simp
qed

section \<open>What a rewrite does to one entry\<close>

lemma parse_entry_no_flags:
  "parse_entry_fields msg = Inr f \<Longrightarrow> flags_val f = None \<Longrightarrow> flags f = 0"
  by (auto simp: parse_entry_fields_def no_fields_def dest!: parse_fields_flags_grow)

lemma lazy_or: "(w OR 2) AND 2 \<noteq> (0 :: 32 word)"
  by (simp add: bit_eq_iff) (auto simp: bit_simps intro!: exI [of _ 1])

lemma low32_nat_sint: "0 \<le> sint w \<Longrightarrow> low32 (nat (sint w)) = w"
  by (simp add: low32_def of_nat_nat)

lemma rewrite_entry_changed:
  assumes "rewrite_entry msg ranges = Inr r" "e_changed r"
  obtains f g where "parse_entry_fields msg = Inr f" "\<not> entry_is_already_lazy f"
    "entry_should_become_lazy f ranges"
    "parse_entry_fields (e_out r) = Inr g" "flags g = nat (sint (low32 (flags f) OR PE_LAZY))"
    "low32 (flags g) = low32 (flags f) OR PE_LAZY"
    "vaddr g = vaddr f" "nr_pages g = nr_pages f" "compat_nr_pages g = compat_nr_pages f"
proof -
  obtain f where f: "parse_entry_fields msg = Inr f" "\<not> entry_is_already_lazy f"
      "entry_should_become_lazy f ranges" and r: "rewrite_entry_flags msg f = Inr r"
    using assms by (auto simp: rewrite_entry_def result_simps split: if_splits)
  let ?w = "low32 (flags f) OR PE_LAZY"
  have present: "flags_val f \<noteq> None"
    using f(1,3) parse_entry_no_flags by (force simp: entry_should_become_lazy_def low32_def split: option.splits)
  then obtain p l where pl: "flags_val f = Some (p, l)" by auto
  have nonneg: "0 \<le> sint ?w" and out: "e_out r = take p msg @ varint_bytes (nat (sint ?w)) @ drop (p + l) msg"
    using r pl by (auto simp: rewrite_entry_flags_def encode_varint_def split: if_splits)
  have bound: "p + l \<le> length msg"
    using f(1) pl by (auto simp: parse_entry_fields_def no_fields_def dest!: parse_fields_flags_grow)
  have small: "nat (sint ?w) < 2 ^ 31" using sint_lt [of ?w] nonneg by (simp add: nat_less_iff)
  define A V B where "A = take p msg" and "V = take l (drop p msg)" and "B = drop (p + l) msg"
  have msg: "msg = A @ V @ B"
    unfolding A_def V_def B_def by (metis append_take_drop_id drop_drop add.commute)
  have lens: "length A = p" "length V = l" using bound by (simp_all add: A_def V_def)
  have "parse_fields_from (A @ V @ B) 0 no_fields = Inr f"
    using f(1) msg by (simp add: parse_entry_fields_def)
  then have "parse_fields_from (A @ varint_bytes (nat (sint ?w)) @ B) 0 no_fields =
      Inr (f\<lparr>flags_val := Some (length A, length (varint_bytes (nat (sint ?w)))), flags := round53 (nat (sint ?w))\<rparr>)"
    by (rule parse_fields_replace) (use pl lens small in \<open>simp_all add: no_fields_def\<close>)
  then have g: "parse_entry_fields (e_out r) =
      Inr (f\<lparr>flags_val := Some (p, length (varint_bytes (nat (sint ?w)))), flags := nat (sint ?w)\<rparr>)"
    using out small bound by (simp add: parse_entry_fields_def A_def B_def min.absorb2)
  show thesis
    by (rule that [OF f g]) (simp_all add: low32_nat_sint [OF nonneg])
qed

lemma rewrite_entry_flags_changed: "rewrite_entry_flags msg f = Inr r \<Longrightarrow> e_changed r \<and> \<not> e_already r"
  by (auto simp: rewrite_entry_flags_def result_simps split: option.splits)

lemma rewrite_entry_unchanged:
  "rewrite_entry msg ranges = Inr r \<Longrightarrow> \<not> e_changed r \<Longrightarrow> e_out r = msg"
  by (auto simp: rewrite_entry_def result_simps dest: rewrite_entry_flags_changed split: if_splits)

lemma rewrite_entry_exclusive: "rewrite_entry msg ranges = Inr r \<Longrightarrow> \<not> (e_changed r \<and> e_already r)"
  by (auto simp: rewrite_entry_def result_simps dest: rewrite_entry_flags_changed split: if_splits)

lemma rewrite_entry_stable:
  assumes "rewrite_entry msg ranges = Inr r"
  shows "rewrite_entry (e_out r) ranges = Inr \<lparr>e_out = e_out r, e_changed = False, e_already = e_already r \<or> e_changed r\<rparr>"
proof (cases "e_changed r")
  case True
  from assms True show ?thesis
  proof (rule rewrite_entry_changed)
    fix f g
    assume g: "parse_entry_fields (e_out r) = Inr g" "low32 (flags g) = low32 (flags f) OR PE_LAZY"
    then have "entry_is_already_lazy g" by (simp add: entry_is_already_lazy_def lazy_or)
    then show ?thesis using g(1) True by (simp add: rewrite_entry_def)
  qed
next
  case False
  then have "e_out r = msg" using assms by (rule rewrite_entry_unchanged [rotated])
  moreover from this False have "r = \<lparr>e_out = e_out r, e_changed = False, e_already = e_already r\<rparr>"
    by (cases r) simp
  ultimately show ?thesis using assms False by simp
qed

section \<open>A pagemap as a list of messages\<close>

definition frame :: "bytes \<Rightarrow> bytes" where "frame m = le_bytes 4 (length m) @ m"

definition stream :: "bytes list \<Rightarrow> bytes" where "stream msgs = concat (map frame msgs)"

definition framable :: "bytes list \<Rightarrow> bool" where "framable msgs \<longleftrightarrow> (\<forall>m \<in> set msgs. length m < 2 ^ 32)"

lemma stream_simps [simp]: "stream [] = []" "stream (m # ms) = frame m @ stream ms"
  by (simp_all add: stream_def)

lemma framable_simps [simp]: "framable []" "framable (m # ms) \<longleftrightarrow> length m < 2 ^ 32 \<and> framable ms"
  by (simp_all add: framable_def)

lemma length_frame [simp]: "length (frame m) = 4 + length m" by (simp add: frame_def)

fun rewrite_list :: "vma_range list \<Rightarrow> bool \<Rightarrow> rewrite_state \<Rightarrow> bytes list \<Rightarrow> pm_error + rewrite_state" where
  "rewrite_list ranges is_first st [] = Inr st"
| "rewrite_list ranges is_first st (m # ms) =
     bind_res (append_rewritten st is_first m ranges) (\<lambda>st'. rewrite_list ranges False st' ms)"

lemma read_framed_message:
  assumes "length m < 2 ^ 32"
  shows "read_pagemap_message (pre @ frame m @ post) (length pre) = Inr (m, length pre + 4 + length m)"
  using assms by (simp add: read_pagemap_message_def frame_def Let_def buffer_simps)

lemma rewrite_messages_stream:
  "framable msgs \<Longrightarrow>
   rewrite_messages (pre @ stream msgs) ranges (length pre) is_first st = rewrite_list ranges is_first st msgs"
proof (induction msgs arbitrary: pre is_first st)
  case Nil
  then show ?case by (subst rewrite_messages.simps) simp
next
  case (Cons m ms)
  have "rewrite_messages ((pre @ frame m) @ stream ms) ranges (length (pre @ frame m)) False u =
      rewrite_list ranges False u ms" for u
    using Cons.prems by (intro Cons.IH) simp
  then show ?case using Cons.prems
    by (subst rewrite_messages.simps) (simp add: read_framed_message ac_simps cong: bind_res_cong)
qed

lemma read_pagemap_message_frame:
  assumes "read_pagemap_message input pos = Inr (m, nxt)"
  shows "length m < 2 ^ 32" "drop pos input = frame m @ drop nxt input"
proof -
  let ?n = "read_u32 input pos"
  have le: "pos + 4 + ?n \<le> length input" and m: "m = subarray input (pos + 4) (pos + 4 + ?n)"
    and nxt: "nxt = pos + 4 + ?n"
    using assms by (auto simp: read_pagemap_message_def Let_def split: if_splits)
  have len: "length m = ?n" using le m by simp
  show "length m < 2 ^ 32" using len read_u32_less [of input pos] by simp
  have "le_bytes (length (subarray input pos (pos + 4))) (le_nat (subarray input pos (pos + 4))) =
      subarray input pos (pos + 4)"
    by (rule le_bytes_le_nat)
  then have "le_bytes 4 (length m) = take 4 (drop pos input)"
    using le by (simp add: len read_u32_def subarray_def)
  moreover have "m = take ?n (drop (pos + 4) input)" using m by (simp add: subarray_def)
  moreover have "drop nxt input = drop ?n (drop (pos + 4) input)" by (simp add: nxt ac_simps)
  moreover have "drop (pos + 4) input = drop 4 (drop pos input)" by (simp add: ac_simps)
  ultimately show "drop pos input = frame m @ drop nxt input"
    by (simp only: frame_def append_assoc append_take_drop_id)
qed

lemma rewrite_messages_list:
  assumes "rewrite_messages input ranges pos is_first st = Inr st'"
  shows "\<exists>msgs. drop pos input = stream msgs \<and> framable msgs \<and> rewrite_list ranges is_first st msgs = Inr st'"
  using assms
proof (induction input ranges pos is_first st rule: rewrite_messages.induct)
  case (1 input ranges pos is_first st)
  show ?case
  proof (cases "pos < length input")
    case False
    then show ?thesis using "1.prems" by (subst (asm) rewrite_messages.simps) (auto intro!: exI [of _ "[]"])
  next
    case True
    then obtain m nxt st1 where read: "read_pagemap_message input pos = Inr (m, nxt)"
      and step: "append_rewritten st is_first m ranges = Inr st1"
      and rest: "rewrite_messages input ranges nxt False st1 = Inr st'"
      using "1.prems" by (subst (asm) rewrite_messages.simps) (auto simp: result_simps)
    obtain ms where "drop nxt input = stream ms" "framable ms" "rewrite_list ranges False st1 ms = Inr st'"
      using "1.IH" [OF True read refl step rest] by blast
    then show ?thesis
      using read_pagemap_message_frame [OF read] step by (intro exI [of _ "m # ms"]) simp
  qed
qed

section \<open>The rewrite is idempotent\<close>

text \<open>What a second pass does to the bytes \<open>x\<close> that a pass from \<open>st\<close> to \<open>st'\<close> wrote.\<close>

definition second_pass :: "rewrite_state \<Rightarrow> rewrite_state \<Rightarrow> bytes \<Rightarrow> rewrite_state \<Rightarrow> rewrite_state" where
  "second_pass st st' x u = u\<lparr>r_out := r_out u @ x,
     r_already := r_already u + (r_flagged st' - r_flagged st) + (r_already st' - r_already st)\<rparr>"

definition grown :: "rewrite_state \<Rightarrow> rewrite_state \<Rightarrow> bool" where
  "grown st st' \<longleftrightarrow> r_flagged st \<le> r_flagged st' \<and> r_already st \<le> r_already st' \<and>
     (r_changed st' \<longleftrightarrow> r_changed st \<or> r_flagged st < r_flagged st')"

lemma grown_trans: "grown s t \<Longrightarrow> grown t u \<Longrightarrow> grown s u"
  by (auto simp: grown_def)

lemma second_pass_trans:
  "grown s t \<Longrightarrow> grown t u \<Longrightarrow> second_pass t u y (second_pass s t x v) = second_pass s u (x @ y) v"
  by (simp add: second_pass_def grown_def)

lemma append_rewritten_stable:
  assumes "append_rewritten st is_first m ranges = Inr st'"
  shows "grown st st' \<and> (\<exists>m'. r_out st' = r_out st @ frame m' \<and> length m' < 2 ^ 32 \<and>
    (r_flagged st = r_flagged st' \<longrightarrow> m' = m) \<and>
    (\<forall>u. append_rewritten u is_first m' ranges = Inr (second_pass st st' (frame m') u)))"
proof (cases is_first)
  case True
  then have "st' = st\<lparr>r_out := r_out st @ frame m\<rparr>" "length m < 2 ^ 32"
    using assms by (auto simp: append_rewritten_def append_message_def frame_def split: if_splits)
  then show ?thesis
    using True by (auto simp: append_rewritten_def append_message_def frame_def second_pass_def grown_def)
next
  case False
  then obtain r where r: "rewrite_entry m ranges = Inr r"
    using assms by (auto simp: append_rewritten_def rewrite_entry_message_def result_simps)
  have unchanged: "\<not> e_changed r \<Longrightarrow> e_out r = m" using r by (rule rewrite_entry_unchanged)
  have one: "\<not> (e_changed r \<and> e_already r)" using r by (rule rewrite_entry_exclusive)
  have st': "length (e_out r) < 2 ^ 32"
    "st' = st\<lparr>r_out := r_out st @ frame (e_out r), r_changed := r_changed st \<or> e_changed r,
      r_flagged := r_flagged st + of_bool (e_changed r), r_already := r_already st + of_bool (e_already r)\<rparr>"
    using assms False r unchanged
    by (auto simp: append_rewritten_def rewrite_entry_message_def append_message_def frame_def Let_def
        split: if_splits)
  have fields: "r_out st' = r_out st @ frame (e_out r)" "r_changed st' \<longleftrightarrow> r_changed st \<or> e_changed r"
    "r_flagged st' = r_flagged st + of_bool (e_changed r)" "r_already st' = r_already st + of_bool (e_already r)"
    by (simp_all add: st'(2))
  have "append_rewritten u is_first (e_out r) ranges = Inr (second_pass st st' (frame (e_out r)) u)" for u
    using False rewrite_entry_stable [OF r] st'(1) one
    by (auto simp: append_rewritten_def rewrite_entry_message_def append_message_def frame_def Let_def
        second_pass_def fields)
  moreover have "grown st st'" by (simp add: grown_def fields)
  moreover have "r_flagged st = r_flagged st' \<longrightarrow> e_out r = m" using unchanged by (auto simp: fields)
  ultimately show ?thesis using fields(1) st'(1) by blast
qed

lemma rewrite_list_stable:
  assumes "rewrite_list ranges is_first st msgs = Inr st'" "framable msgs"
  shows "grown st st' \<and> (\<exists>msgs'. r_out st' = r_out st @ stream msgs' \<and> framable msgs' \<and>
    length msgs' = length msgs \<and> (r_flagged st = r_flagged st' \<longrightarrow> msgs' = msgs) \<and>
    (\<forall>u. rewrite_list ranges is_first u msgs' = Inr (second_pass st st' (stream msgs') u)))"
  using assms
proof (induction ranges is_first st msgs rule: rewrite_list.induct)
  case (1 ranges is_first st)
  then show ?case by (simp add: grown_def second_pass_def)
next
  case (2 ranges is_first st m ms)
  obtain st1 where step: "append_rewritten st is_first m ranges = Inr st1"
    and rest: "rewrite_list ranges False st1 ms = Inr st'"
    using "2.prems"(1) by (auto simp: result_simps)
  have "framable ms" using "2.prems"(2) by simp
  from "2.IH" [OF step rest this] obtain ms' where g1: "grown st1 st'" and ms':
    "r_out st' = r_out st1 @ stream ms'" "framable ms'" "length ms' = length ms"
    "r_flagged st1 = r_flagged st' \<longrightarrow> ms' = ms"
    "\<forall>u. rewrite_list ranges False u ms' = Inr (second_pass st1 st' (stream ms') u)"
    by blast
  from append_rewritten_stable [OF step] obtain m' where g0: "grown st st1" and m':
    "r_out st1 = r_out st @ frame m'" "length m' < 2 ^ 32" "r_flagged st = r_flagged st1 \<longrightarrow> m' = m"
    "\<forall>u. append_rewritten u is_first m' ranges = Inr (second_pass st st1 (frame m') u)"
    by blast
  have "rewrite_list ranges is_first u (m' # ms') = Inr (second_pass st st' (stream (m' # ms')) u)" for u
    using m'(4) ms'(5) by (simp add: second_pass_trans [OF g0 g1])
  moreover have "r_flagged st = r_flagged st' \<longrightarrow> m' # ms' = m # ms"
    using m'(3) ms'(4) g0 g1 by (auto simp: grown_def)
  moreover have "r_out st' = r_out st @ stream (m' # ms')" "framable (m' # ms')"
    "length (m' # ms') = length (m # ms)"
    using m'(1,2) ms'(1,2,3) by simp_all
  ultimately show ?case
    using grown_trans [OF g0 g1] by (intro conjI exI [of _ "m' # ms'"]) blast+
qed

lemma rewrite_pagemap_list:
  assumes "rewrite_pagemap input ranges = Inr st"
  obtains msgs where "input = take 8 input @ stream msgs" "framable msgs" "8 \<le> length input"
    "validate_pagemap_header input = Inr ()"
    "rewrite_list ranges True \<lparr>r_out = take 8 input, r_changed = False, r_flagged = 0, r_already = 0\<rparr> msgs = Inr st"
proof -
  have header: "validate_pagemap_header input = Inr ()" "8 \<le> length input"
    using assms by (auto simp: rewrite_pagemap_def result_simps validate_pagemap_header_def split: if_splits)
  then have "rewrite_messages input ranges 8 True
      \<lparr>r_out = take 8 input, r_changed = False, r_flagged = 0, r_already = 0\<rparr> = Inr st"
    using assms by (simp add: rewrite_pagemap_def subarray_def)
  from rewrite_messages_list [OF this] obtain msgs where "drop 8 input = stream msgs" "framable msgs"
    "rewrite_list ranges True \<lparr>r_out = take 8 input, r_changed = False, r_flagged = 0, r_already = 0\<rparr> msgs = Inr st"
    by blast
  with header show thesis by (intro that [of msgs]) (simp_all, metis append_take_drop_id)
qed

lemma header_prefix:
  "8 \<le> length xs \<Longrightarrow> validate_pagemap_header (take 8 xs @ ys) = validate_pagemap_header xs"
  by (cases "take 8 xs @ ys = xs") (simp_all add: validate_pagemap_header_def read_u32_def subarray_def drop_take)

lemma rewrite_pagemap_of_list:
  assumes "length h = 8" "validate_pagemap_header (h @ stream msgs) = Inr ()" "framable msgs"
  shows "rewrite_pagemap (h @ stream msgs) ranges =
    rewrite_list ranges True \<lparr>r_out = h, r_changed = False, r_flagged = 0, r_already = 0\<rparr> msgs"
  using assms rewrite_messages_stream [OF assms(3), of h ranges True]
  by (simp add: rewrite_pagemap_def subarray_def)

theorem rewrite_pagemap_idempotent:
  assumes "rewrite_pagemap input ranges = Inr st"
  shows "rewrite_pagemap (r_out st) ranges =
    Inr \<lparr>r_out = r_out st, r_changed = False, r_flagged = 0, r_already = r_already st + r_flagged st\<rparr>"
    and "r_changed st \<longleftrightarrow> 0 < r_flagged st"
    and "\<not> r_changed st \<Longrightarrow> r_out st = input"
proof -
  from assms obtain msgs where msgs: "input = take 8 input @ stream msgs" "framable msgs" "8 \<le> length input"
    "validate_pagemap_header input = Inr ()"
    "rewrite_list ranges True \<lparr>r_out = take 8 input, r_changed = False, r_flagged = 0, r_already = 0\<rparr> msgs = Inr st"
    by (rule rewrite_pagemap_list)
  from rewrite_list_stable [OF msgs(5,2)] obtain msgs' where msgs':
    "r_out st = take 8 input @ stream msgs'" "framable msgs'" "r_changed st \<longleftrightarrow> 0 < r_flagged st"
    "r_flagged st = 0 \<longrightarrow> msgs' = msgs"
    "\<And>u. rewrite_list ranges True u msgs' = Inr (u\<lparr>r_out := r_out u @ stream msgs',
        r_already := r_already u + r_flagged st + r_already st\<rparr>)"
    by (auto simp: grown_def second_pass_def)
  have "validate_pagemap_header (take 8 input @ stream msgs') = Inr ()"
    using header_prefix [OF msgs(3)] msgs(4) by simp
  then show "rewrite_pagemap (r_out st) ranges =
    Inr \<lparr>r_out = r_out st, r_changed = False, r_flagged = 0, r_already = r_already st + r_flagged st\<rparr>"
    using rewrite_pagemap_of_list [of "take 8 input" msgs'] msgs(3) msgs'(1,2) by (simp add: msgs'(5) ac_simps)
  show "r_changed st \<longleftrightarrow> 0 < r_flagged st" by (rule msgs'(3))
  show "r_out st = input" if "\<not> r_changed st" using that msgs' msgs(1) by simp
qed

section \<open>A whole image directory, twice\<close>

lemma image_pid_exclusive: "image_pid ''pagemap-'' name = Some p \<Longrightarrow> image_pid ''mm-'' name = None"
  by (cases name) (auto simp: image_pid_def Let_def starts_with_def split: if_splits)

lemma mark_files_names: "mark_files m dir c = (r, dir') \<Longrightarrow> map fst dir' = map fst dir"
proof (induction dir arbitrary: c dir')
  case (Cons f rest)
  then show ?case
    by (cases f) (fastforce simp: Let_def split: option.splits sum.splits prod.splits)
qed simp

lemma mark_files_collect:
  "mark_files m dir c = (r, dir') \<Longrightarrow> collect_ranges dir' m0 = collect_ranges dir m0"
proof (induction dir arbitrary: c dir' m0)
  case (Cons f rest)
  obtain name bs where f: "f = (name, bs)" by (cases f)
  show ?case
  proof (cases "image_pid ''pagemap-'' name")
    case None
    obtain r1 d1 where "mark_files m rest c = (r1, d1)" by (cases "mark_files m rest c")
    then show ?thesis
      using Cons.prems Cons.IH [of c d1] None by (auto simp: f split: option.splits)
  next
    case (Some pid)
    have no_mm: "image_pid ''mm-'' name = None" using Some by (rule image_pid_exclusive)
    show ?thesis
      using Cons.prems no_mm
      by (auto simp: f Some Let_def split: sum.splits prod.splits dest: Cons.IH)
  qed
qed simp

text \<open>What a second pass counts.\<close>

definition second_counts :: "mark_counts \<Rightarrow> mark_counts \<Rightarrow> mark_counts \<Rightarrow> mark_counts" where
  "second_counts c c' d = Counts (files_rewritten d) (entries_flagged d)
     (entries_already_lazy d + (entries_flagged c' - entries_flagged c) + (entries_already_lazy c' - entries_already_lazy c))"

definition counts_grown :: "mark_counts \<Rightarrow> mark_counts \<Rightarrow> bool" where
  "counts_grown c c' \<longleftrightarrow> entries_flagged c \<le> entries_flagged c' \<and> entries_already_lazy c \<le> entries_already_lazy c' \<and>
     files_rewritten c \<le> files_rewritten c'"

text \<open>The counts after one pagemap file.\<close>

definition count_file :: "rewrite_state \<Rightarrow> mark_counts \<Rightarrow> mark_counts" where
  "count_file st c = (if r_changed st
     then Counts (Suc (files_rewritten c)) (entries_flagged c + r_flagged st) (entries_already_lazy c + r_already st)
     else Counts (files_rewritten c) (entries_flagged c) (entries_already_lazy c + r_already st))"

lemma mark_files_pagemap:
  assumes "image_pid ''pagemap-'' name = Some pid"
    and "rewrite_pagemap bs (case m pid of None \<Rightarrow> [] | Some r \<Rightarrow> r) = Inr st"
  shows "mark_files m ((name, bs) # rest) c =
    (let (r, rest') = mark_files m rest (count_file st c)
     in (r, (name, if r_changed st then r_out st else bs) # rest'))"
  using assms by (simp add: Let_def count_file_def)

lemma mark_files_second:
  assumes "mark_files m dir c = (Inr c', dir')"
  shows "counts_grown c c' \<and> (\<forall>d. mark_files m dir' d = (Inr (second_counts c c' d), dir'))"
  using assms
proof (induction dir arbitrary: c dir')
  case Nil
  then show ?case by (auto simp: counts_grown_def second_counts_def)
next
  case (Cons f rest)
  obtain name bs where f: "f = (name, bs)" by (cases f)
  show ?case
  proof (cases "image_pid ''pagemap-'' name")
    case None
    then obtain d1 where rest: "mark_files m rest c = (Inr c', d1)" and dir': "dir' = (name, bs) # d1"
      using Cons.prems by (auto simp: f split: prod.splits)
    show ?thesis using Cons.IH [OF rest] None by (simp add: dir')
  next
    case (Some pid)
    let ?ranges = "case m pid of None \<Rightarrow> [] | Some r \<Rightarrow> r"
    obtain st where st: "rewrite_pagemap bs ?ranges = Inr st"
      using Cons.prems by (cases "rewrite_pagemap bs ?ranges") (simp_all add: f Some)
    obtain d1 where rest: "mark_files m rest (count_file st c) = (Inr c', d1)"
      and dir': "dir' = (name, if r_changed st then r_out st else bs) # d1"
      using Cons.prems by (auto simp: f mark_files_pagemap [where m = m, OF Some st] split: prod.splits simp del: mark_files.simps)
    let ?st2 = "\<lparr>r_out = r_out st, r_changed = False, r_flagged = 0, r_already = r_already st + r_flagged st\<rparr>"
    have again: "rewrite_pagemap (if r_changed st then r_out st else bs) ?ranges = Inr ?st2"
      using rewrite_pagemap_idempotent [OF st] by auto
    note IH = Cons.IH [OF rest]
    have grown: "counts_grown c c'" using IH by (auto simp: counts_grown_def count_file_def split: if_splits)
    have counts: "second_counts (count_file st c) c' (count_file ?st2 d) = second_counts c c' d" for d
      using IH rewrite_pagemap_idempotent(2) [OF st]
      by (auto simp: second_counts_def count_file_def counts_grown_def split: if_splits)
    have "mark_files m dir' d = (Inr (second_counts c c' d), dir')" for d
      unfolding dir' using conjunct2 [OF IH] counts
      by (simp add: mark_files_pagemap [where m = m, OF Some again] del: mark_files.simps)
    then show ?thesis using grown by blast
  qed
qed

lemma mark_pagemaps_lazy_second:
  assumes "mark_pagemaps_lazy dir = (Inr c, dir')"
  shows "mark_pagemaps_lazy dir' = (Inr (Counts 0 0 (entries_flagged c + entries_already_lazy c)), dir')"
proof -
  obtain m where m: "collect_ranges dir Map.empty = Inr m" and files: "mark_files m dir (Counts 0 0 0) = (Inr c, dir')"
    using assms by (auto simp: mark_pagemaps_lazy_def split: sum.splits)
  have "collect_ranges dir' Map.empty = Inr m" using mark_files_collect [OF files] m by simp
  then show ?thesis
    using mark_files_second [OF files] by (simp add: mark_pagemaps_lazy_def second_counts_def)
qed

text \<open>What marking may touch: the contents of pagemap files.\<close>

fun same_file :: "string \<times> bytes \<Rightarrow> string \<times> bytes \<Rightarrow> bool" where
  "same_file (n, b) (n', b') \<longleftrightarrow> n' = n \<and> (image_pid ''pagemap-'' n = None \<longrightarrow> b' = b)"

lemma same_files_refl [simp]: "list_all2 same_file dir dir"
  by (auto simp: list_all2_same)

lemma mark_files_others: "mark_files m dir c = (r, dir') \<Longrightarrow> list_all2 same_file dir dir'"
proof (induction dir arbitrary: c dir')
  case (Cons f rest)
  then show ?case
    by (cases f) (fastforce simp: Let_def split: option.splits sum.splits prod.splits)
qed simp

lemma mark_pagemaps_lazy_others: "list_all2 same_file dir (snd (mark_pagemaps_lazy dir))"
proof (cases "collect_ranges dir Map.empty")
  case (Inr m)
  then show ?thesis
    using mark_files_others [of m dir "Counts 0 0 0"] by (cases "mark_files m dir (Counts 0 0 0)") (simp add: mark_pagemaps_lazy_def)
qed (simp add: mark_pagemaps_lazy_def)

end
