(* ===== verification/Stream_Parser.thy ===== *)
theory Stream_Parser
  imports Js_Text
begin

text \<open>
  The contract of an incremental parser fed from a socket. Data events cut the byte stream at
  arbitrary places; the code appends each chunk to a buffer and parses as far as it can.
  \<open>feed s d\<close> is the handler of one data event, \<open>view\<close> what the rest of the program can tell of
  a state (output chunks are only seen concatenated), \<open>live\<close> that the parser has met neither
  the end of the stream nor an error, \<open>rest\<close> the bytes it holds unparsed.
\<close>

locale stream_parser =
  fixes feed :: "'s \<Rightarrow> bytes \<Rightarrow> 's"
    and view :: "'s \<Rightarrow> 'v"
    and live :: "'s \<Rightarrow> bool"
    and rest :: "'s \<Rightarrow> bytes"
  assumes feed_cong: "view s = view t \<Longrightarrow> view (feed s d) = view (feed t d)"
    and feed_append: "live (feed s a) \<Longrightarrow> view (feed s (a @ b)) = view (feed (feed s a) b)"
    and feed_halted: "live s \<Longrightarrow> \<not> live (feed s a) \<Longrightarrow> rest (feed s (a @ b)) = rest (feed s a) @ b"
    and feed_nothing: "live s \<Longrightarrow> rest s = [] \<Longrightarrow> view (feed s []) = view s"
begin

text \<open>However the stream is cut, the parser ends where one big chunk would have taken it.\<close>

theorem chunking:
  assumes "live s" "rest s = []" "[] \<notin> set chunks" "rest (feed s (concat chunks)) = []"
  shows "view (foldl feed s chunks) = view (feed s (concat chunks))"
proof -
  have prefix_live: "live (feed s a)" if "concat chunks = a @ b" "b \<noteq> []" for a b
    using feed_halted [OF assms(1), of a b] assms(4) that by auto
  have "concat chunks = concat cs @ b \<Longrightarrow> [] \<notin> set cs \<Longrightarrow>
      view (foldl feed s cs) = view (feed s (concat cs))" for cs b
  proof (induction cs arbitrary: b rule: rev_induct)
    case Nil
    then show ?case using feed_nothing [OF assms(1,2)] by simp
  next
    case (snoc c cs)
    have "live (feed s (concat cs))"
      using snoc.prems by (intro prefix_live [of _ "c @ b"]) auto
    then have "view (feed s (concat cs @ c)) = view (feed (feed s (concat cs)) c)"
      by (rule feed_append)
    also have "\<dots> = view (feed (foldl feed s cs) c)"
      using snoc.IH [of "c @ b"] snoc.prems by (intro feed_cong) simp
    finally show ?case by simp
  qed
  from this [of chunks "[]"] show ?thesis using assms(3) by simp
qed

end

end
