(* ===== verification/Exec_Wire.thy ===== *)
theory Exec_Wire
  imports Stream_Parser
begin

text \<open>
  \<^verbatim>\<open>packages/runtime/src/exec.ts\<close>, the frames that the guest's exec agent sends: \<open>O <n>\<close> and
  \<open>E <n>\<close> lines followed by \<open>n\<close> bytes of output, and a last line \<open>X <code>\<close>. The exec parser
  splits both channels, each into a sink or into the caller's callback; the PTY parser only
  knows \<open>O\<close> and \<open>X\<close>. A length is the double that \<open>parseInt\<close> returned, kept as a \<open>nat\<close>: it is
  exact below \<open>2 ^ 53\<close>, and no longer frame can end.
\<close>

section \<open>The exec parser\<close>

datatype exec_tag = Tag_O | Tag_E

datatype exec_header = Exit_header jsnum | Payload_header exec_tag nat

datatype exec_error =
    Unknown_frame_tag string
  | Bad_frame_length "string option"
  | Bad_session_row string
  | Bad_session_name
  | Agent_unavailable "string"
  | Agent_timeout
  | Socket_error (sock_code: "string option") (sock_message: string)

text \<open>\<open>on_stdout\<close> and \<open>on_stderr\<close> tell whether the caller passed a callback; \<open>stdout_calls\<close> and
  \<open>stderr_calls\<close> are the chunks the callbacks were called with, in order.\<close>

record exec_state =
  stdout_bufs :: "bytes list"
  stderr_bufs :: "bytes list"
  stdout_calls :: "bytes list"
  stderr_calls :: "bytes list"
  exit_code :: "jsnum option"
  buf :: bytes
  awaiting_bytes :: nat
  payload_tag :: "exec_tag option"
  on_stdout :: bool
  on_stderr :: bool

definition parse_exec_frame_length :: "string option \<Rightarrow> exec_error + nat" where
  "parse_exec_frame_length n_str =
     (case parse_int (case n_str of None \<Rightarrow> [] | Some s \<Rightarrow> s) of
        Fin n \<Rightarrow> if n < 0 then Inl (Bad_frame_length n_str) else Inr (nat n)
      | _ \<Rightarrow> Inl (Bad_frame_length n_str))"

text \<open>\<open>const [tag, nStr] = line.split(" ")\<close>\<close>

definition header_parts :: "string \<Rightarrow> string \<times> string option" where
  "header_parts line =
     (case split_on (CHR '' '') line of
        [] \<Rightarrow> ([], None)
      | [tag] \<Rightarrow> (tag, None)
      | tag # n_str # _ \<Rightarrow> (tag, Some n_str))"

definition parse_exec_header_line :: "string \<Rightarrow> exec_error + exec_header" where
  "parse_exec_header_line line =
     (let (tag, n_str) = header_parts line
      in if tag = ''X'' then Inr (Exit_header (parse_int (case n_str of None \<Rightarrow> ''0'' | Some s \<Rightarrow> s)))
         else if tag = ''O'' then bind_res (parse_exec_frame_length n_str) (\<lambda>n. Inr (Payload_header Tag_O n))
         else if tag = ''E'' then bind_res (parse_exec_frame_length n_str) (\<lambda>n. Inr (Payload_header Tag_E n))
         else Inl (Unknown_frame_tag tag))"

text \<open>The header line is taken off the buffer before it is parsed, also when parsing throws.\<close>

definition read_exec_header :: "exec_state \<Rightarrow> exec_state \<times> (exec_error + exec_header) option" where
  "read_exec_header s =
     (case index_of 10 (buf s) of
        None \<Rightarrow> (s, None)
      | Some nl \<Rightarrow> (s\<lparr>buf := drop (nl + 1) (buf s)\<rparr>,
                   Some (parse_exec_header_line (ascii_of (subarray (buf s) 0 nl)))))"

definition deliver_exec_payload :: "exec_state \<Rightarrow> bytes \<Rightarrow> exec_state" where
  "deliver_exec_payload s chunk =
     (case payload_tag s of
        Some Tag_O \<Rightarrow> if on_stdout s then s\<lparr>stdout_calls := stdout_calls s @ [chunk]\<rparr>
                      else s\<lparr>stdout_bufs := stdout_bufs s @ [chunk]\<rparr>
      | Some Tag_E \<Rightarrow> if on_stderr s then s\<lparr>stderr_calls := stderr_calls s @ [chunk]\<rparr>
                      else s\<lparr>stderr_bufs := stderr_bufs s @ [chunk]\<rparr>
      | None \<Rightarrow> s)"

definition clear_payload_tag_if_complete :: "exec_state \<Rightarrow> exec_state" where
  "clear_payload_tag_if_complete s = (if awaiting_bytes s = 0 then s\<lparr>payload_tag := None\<rparr> else s)"

definition consume_exec_payload :: "exec_state \<Rightarrow> exec_state \<times> bool" where
  "consume_exec_payload s =
     (if buf s = [] then (s, False)
      else
        let n = min (awaiting_bytes s) (length (buf s)); chunk = subarray (buf s) 0 n;
            s1 = s\<lparr>buf := drop n (buf s), awaiting_bytes := awaiting_bytes s - n\<rparr>
        in (clear_payload_tag_if_complete (deliver_exec_payload s1 chunk), True))"

lemma deliver_frame [simp]:
  "buf (deliver_exec_payload s c) = buf s" "awaiting_bytes (deliver_exec_payload s c) = awaiting_bytes s"
  "exit_code (deliver_exec_payload s c) = exit_code s"
  by (simp_all add: deliver_exec_payload_def split: option.split exec_tag.split)

lemma clear_frame [simp]:
  "buf (clear_payload_tag_if_complete s) = buf s"
  "awaiting_bytes (clear_payload_tag_if_complete s) = awaiting_bytes s"
  "exit_code (clear_payload_tag_if_complete s) = exit_code s"
  by (simp_all add: clear_payload_tag_if_complete_def)

lemma consume_progress:
  "consume_exec_payload s = (s', True) \<Longrightarrow> 0 < awaiting_bytes s \<Longrightarrow> length (buf s') < length (buf s)"
  by (auto simp: consume_exec_payload_def Let_def split: if_splits)

lemma read_header_progress:
  "read_exec_header s = (s', Some r) \<Longrightarrow> length (buf s') < length (buf s)"
  by (auto simp: read_exec_header_def dest!: index_of_SomeD split: option.splits)

text \<open>\<open>stepExecParser\<close>: the state it leaves, and the error if it throws.\<close>

function step_exec_parser :: "exec_state \<Rightarrow> exec_state \<times> exec_error option" where
  "step_exec_parser s =
     (if 0 < awaiting_bytes s then
        (case consume_exec_payload s of
           (s', False) \<Rightarrow> (s', None)
         | (s', True) \<Rightarrow> step_exec_parser s')
      else
        (case read_exec_header s of
           (s', None) \<Rightarrow> (s', None)
         | (s', Some (Inl e)) \<Rightarrow> (s', Some e)
         | (s', Some (Inr (Exit_header code))) \<Rightarrow> (s'\<lparr>exit_code := Some code\<rparr>, None)
         | (s', Some (Inr (Payload_header tag n))) \<Rightarrow>
             step_exec_parser (s'\<lparr>awaiting_bytes := n, payload_tag := Some tag\<rparr>)))"
  by pat_completeness auto
termination
  by (relation "measure (\<lambda>s. length (buf s))") (auto dest: consume_progress [OF sym] read_header_progress [OF sym])

declare step_exec_parser.simps [simp del]

lemma step_exec_payload:
  "0 < awaiting_bytes s \<Longrightarrow> consume_exec_payload s = (s', True) \<Longrightarrow> step_exec_parser s = step_exec_parser s'"
  "0 < awaiting_bytes s \<Longrightarrow> consume_exec_payload s = (s', False) \<Longrightarrow> step_exec_parser s = (s', None)"
  by (subst step_exec_parser.simps, simp)+

lemma step_exec_header:
  "awaiting_bytes s = 0 \<Longrightarrow> read_exec_header s = (s', None) \<Longrightarrow> step_exec_parser s = (s', None)"
  "awaiting_bytes s = 0 \<Longrightarrow> read_exec_header s = (s', Some (Inl e)) \<Longrightarrow> step_exec_parser s = (s', Some e)"
  "awaiting_bytes s = 0 \<Longrightarrow> read_exec_header s = (s', Some (Inr (Exit_header c))) \<Longrightarrow>
     step_exec_parser s = (s'\<lparr>exit_code := Some c\<rparr>, None)"
  "awaiting_bytes s = 0 \<Longrightarrow> read_exec_header s = (s', Some (Inr (Payload_header tag n))) \<Longrightarrow>
     step_exec_parser s = step_exec_parser (s'\<lparr>awaiting_bytes := n, payload_tag := Some tag\<rparr>)"
  by (subst step_exec_parser.simps, simp)+

text \<open>The socket's data handler: it appends the chunk and steps the parser.\<close>

definition feed_exec :: "exec_state \<Rightarrow> bytes \<Rightarrow> exec_state \<times> exec_error option" where
  "feed_exec s data = step_exec_parser (s\<lparr>buf := buf s @ data\<rparr>)"

definition initial_exec_state :: "bool \<Rightarrow> bool \<Rightarrow> exec_state" where
  "initial_exec_state tee_out tee_err =
     \<lparr>stdout_bufs = [], stderr_bufs = [], stdout_calls = [], stderr_calls = [], exit_code = None, buf = [],
      awaiting_bytes = 0, payload_tag = None, on_stdout = tee_out, on_stderr = tee_err\<rparr>"

section \<open>The PTY parser\<close>

record pty_parser_state =
  pty_buffer :: bytes
  pty_awaiting :: nat

datatype pty_frame_header = Pty_exit_header jsnum | Pty_stdout_header nat | Pty_error_header exec_error

text \<open>What the parser does to its handlers, in order.\<close>

datatype pty_call = Stdout_write bytes | On_exit jsnum | On_error exec_error

definition create_pty_parser_state :: pty_parser_state where
  "create_pty_parser_state = \<lparr>pty_buffer = [], pty_awaiting = 0\<rparr>"

definition parse_pty_output_header :: "string option \<Rightarrow> pty_frame_header" where
  "parse_pty_output_header n_str =
     (case parse_int (case n_str of None \<Rightarrow> [] | Some s \<Rightarrow> s) of
        Fin n \<Rightarrow> if n < 0 then Pty_error_header (Bad_frame_length n_str) else Pty_stdout_header (nat n)
      | _ \<Rightarrow> Pty_error_header (Bad_frame_length n_str))"

definition parse_pty_header_line :: "string \<Rightarrow> pty_frame_header" where
  "parse_pty_header_line line =
     (let (tag, n_str) = header_parts line
      in if tag = ''X'' then Pty_exit_header (parse_int (case n_str of None \<Rightarrow> ''0'' | Some s \<Rightarrow> s))
         else if tag = ''O'' then parse_pty_output_header n_str
         else Pty_error_header (Unknown_frame_tag tag))"

definition take_pty_header_line :: "pty_parser_state \<Rightarrow> (pty_parser_state \<times> string) option" where
  "take_pty_header_line s =
     (case index_of 10 (pty_buffer s) of
        None \<Rightarrow> None
      | Some nl \<Rightarrow> Some (s\<lparr>pty_buffer := drop (nl + 1) (pty_buffer s)\<rparr>, ascii_of (subarray (pty_buffer s) 0 nl)))"

definition handle_pty_header_line :: "pty_parser_state \<Rightarrow> string \<Rightarrow> pty_parser_state \<times> pty_call list \<times> bool" where
  "handle_pty_header_line s line =
     (case parse_pty_header_line line of
        Pty_error_header e \<Rightarrow> (s, [On_error e], False)
      | Pty_exit_header code \<Rightarrow> (s, [On_exit code], False)
      | Pty_stdout_header n \<Rightarrow> (s\<lparr>pty_awaiting := n\<rparr>, [], True))"

definition consume_pty_payload :: "pty_parser_state \<Rightarrow> pty_parser_state \<times> pty_call list \<times> bool" where
  "consume_pty_payload s =
     (if pty_buffer s = [] then (s, [], False)
      else
        let n = min (pty_awaiting s) (length (pty_buffer s))
        in (\<lparr>pty_buffer = drop n (pty_buffer s), pty_awaiting = pty_awaiting s - n\<rparr>,
            [Stdout_write (subarray (pty_buffer s) 0 n)], True))"

definition consume_next_pty_frame :: "pty_parser_state \<Rightarrow> pty_parser_state \<times> pty_call list \<times> bool" where
  "consume_next_pty_frame s =
     (if 0 < pty_awaiting s then consume_pty_payload s
      else (case take_pty_header_line s of
              None \<Rightarrow> (s, [], False)
            | Some (s', line) \<Rightarrow> handle_pty_header_line s' line))"

lemma consume_next_progress:
  "consume_next_pty_frame s = (s', calls, True) \<Longrightarrow> length (pty_buffer s') < length (pty_buffer s)"
  by (auto simp: consume_next_pty_frame_def consume_pty_payload_def take_pty_header_line_def
      handle_pty_header_line_def Let_def dest!: index_of_SomeD split: if_splits option.splits pty_frame_header.splits)

text \<open>The \<open>while\<close> loop of \<open>ingestPtyOutput\<close>.\<close>

function drain_pty :: "pty_parser_state \<Rightarrow> pty_parser_state \<times> pty_call list" where
  "drain_pty s =
     (case consume_next_pty_frame s of
        (s', calls, False) \<Rightarrow> (s', calls)
      | (s', calls, True) \<Rightarrow> (let (s'', more) = drain_pty s' in (s'', calls @ more)))"
  by pat_completeness auto
termination
  by (relation "measure (\<lambda>s. length (pty_buffer s))") (auto dest: consume_next_progress [OF sym])

declare drain_pty.simps [simp del]

definition ingest_pty_output :: "pty_parser_state \<Rightarrow> bytes \<Rightarrow> pty_parser_state \<times> pty_call list" where
  "ingest_pty_output s data = drain_pty (s\<lparr>pty_buffer := pty_buffer s @ data\<rparr>)"

section \<open>The exec parser does not see how the stream is cut\<close>

text \<open>The chunks of a channel are only seen concatenated.\<close>

definition squash :: "exec_state \<Rightarrow> exec_state" where
  "squash s = s\<lparr>stdout_bufs := [concat (stdout_bufs s)], stderr_bufs := [concat (stderr_bufs s)],
     stdout_calls := [concat (stdout_calls s)], stderr_calls := [concat (stderr_calls s)]\<rparr>"

abbreviation more :: "exec_state \<Rightarrow> bytes \<Rightarrow> exec_state" where
  "more s b \<equiv> s\<lparr>buf := buf s @ b\<rparr>"

lemma more_update:
  "s\<lparr>awaiting_bytes := n, payload_tag := t, buf := x\<rparr> = s\<lparr>buf := x, awaiting_bytes := n, payload_tag := t\<rparr>"
  by simp

lemma squash_eq_iff:
  "squash s = squash t \<longleftrightarrow>
     concat (stdout_bufs s) = concat (stdout_bufs t) \<and> concat (stderr_bufs s) = concat (stderr_bufs t) \<and>
     concat (stdout_calls s) = concat (stdout_calls t) \<and> concat (stderr_calls s) = concat (stderr_calls t) \<and>
     exit_code s = exit_code t \<and> buf s = buf t \<and> awaiting_bytes s = awaiting_bytes t \<and>
     payload_tag s = payload_tag t \<and> on_stdout s = on_stdout t \<and> on_stderr s = on_stderr t"
  by (cases s; cases t) (auto simp: squash_def)

lemma read_exec_header_fst:
  "read_exec_header s = (s', r) \<Longrightarrow> s' = s\<lparr>buf := buf s'\<rparr>"
  by (auto simp: read_exec_header_def split: option.splits)

lemma squash_update:
  "squash s = squash t \<Longrightarrow> squash (s\<lparr>buf := b, awaiting_bytes := n\<rparr>) = squash (t\<lparr>buf := b, awaiting_bytes := n\<rparr>)"
  by (simp add: squash_eq_iff)

lemma squash_deliver:
  assumes "squash s = squash t"
  shows "squash (deliver_exec_payload s c) = squash (deliver_exec_payload t c)"
proof -
  have eq: "payload_tag s = payload_tag t" "on_stdout s = on_stdout t" "on_stderr s = on_stderr t"
    using assms by (simp_all add: squash_eq_iff)
  show ?thesis
  proof (cases "payload_tag t")
    case None
    then show ?thesis using assms eq by (simp add: deliver_exec_payload_def)
  next
    case (Some tag)
    then show ?thesis
      using assms eq by (cases tag; cases "on_stdout t"; cases "on_stderr t")
        (simp_all add: deliver_exec_payload_def squash_eq_iff)
  qed
qed

lemma squash_clear:
  "squash s = squash t \<Longrightarrow> squash (clear_payload_tag_if_complete s) = squash (clear_payload_tag_if_complete t)"
  by (simp add: squash_eq_iff clear_payload_tag_if_complete_def)

lemma consume_squash:
  assumes "squash s = squash t"
  shows "squash (fst (consume_exec_payload s)) = squash (fst (consume_exec_payload t))"
    and "snd (consume_exec_payload s) = snd (consume_exec_payload t)"
proof -
  have eq: "buf s = buf t" "awaiting_bytes s = awaiting_bytes t"
    using assms by (simp_all add: squash_eq_iff)
  show "squash (fst (consume_exec_payload s)) = squash (fst (consume_exec_payload t))"
    using squash_clear [OF squash_deliver [OF squash_update [OF assms]]] assms
    by (simp add: consume_exec_payload_def Let_def eq)
  show "snd (consume_exec_payload s) = snd (consume_exec_payload t)"
    by (simp add: consume_exec_payload_def Let_def eq)
qed

lemma header_squash:
  assumes "squash s = squash t"
  shows "squash (fst (read_exec_header s)) = squash (fst (read_exec_header t))"
    and "snd (read_exec_header s) = snd (read_exec_header t)"
proof -
  have eq: "buf s = buf t" using assms by (simp add: squash_eq_iff)
  have upd: "squash (s\<lparr>buf := b\<rparr>) = squash (t\<lparr>buf := b\<rparr>)" for b using assms by (simp add: squash_eq_iff)
  show "squash (fst (read_exec_header s)) = squash (fst (read_exec_header t))"
    using assms upd by (simp add: read_exec_header_def eq split: option.split)
  show "snd (read_exec_header s) = snd (read_exec_header t)"
    by (simp add: read_exec_header_def eq split: option.split)
qed

lemma step_squash:
  assumes "squash s = squash t"
  shows "squash (fst (step_exec_parser s)) = squash (fst (step_exec_parser t)) \<and>
    snd (step_exec_parser s) = snd (step_exec_parser t)"
  using assms
proof (induction s arbitrary: t rule: step_exec_parser.induct)
  case (1 s)
  have await: "awaiting_bytes t = awaiting_bytes s" using "1.prems" by (simp add: squash_eq_iff)
  show ?case
  proof (cases "0 < awaiting_bytes s")
    case True
    obtain s1 b where s1: "consume_exec_payload s = (s1, b)" by (cases "consume_exec_payload s")
    obtain t1 b' where t1: "consume_exec_payload t = (t1, b')" by (cases "consume_exec_payload t")
    have same: "squash s1 = squash t1" "b' = b" using consume_squash [OF "1.prems"] s1 t1 by simp_all
    show ?thesis
    proof (cases b)
      case True
      then show ?thesis
        using "1.IH"(1) [OF \<open>0 < awaiting_bytes s\<close> s1 [symmetric]] same s1 t1 await \<open>0 < awaiting_bytes s\<close>
        by (simp add: step_exec_parser.simps [of s] step_exec_parser.simps [of t])
    next
      case False
      then show ?thesis
        using same s1 t1 await \<open>0 < awaiting_bytes s\<close>
        by (simp add: step_exec_parser.simps [of s] step_exec_parser.simps [of t])
    qed
  next
    case False
    obtain s1 r where s1: "read_exec_header s = (s1, r)" by (cases "read_exec_header s")
    obtain t1 r' where t1: "read_exec_header t = (t1, r')" by (cases "read_exec_header t")
    have same: "squash s1 = squash t1" "r' = r" using header_squash [OF "1.prems"] s1 t1 by simp_all
    note unfold = step_exec_parser.simps [of s] step_exec_parser.simps [of t]
    consider (none) "r = None" | (err) e where "r = Some (Inl e)"
      | (exit) c where "r = Some (Inr (Exit_header c))"
      | (payload) tag n where "r = Some (Inr (Payload_header tag n))"
      by (metis exec_header.exhaust option.exhaust sum.exhaust)
    then show ?thesis
    proof cases
      case payload
      have upd: "squash (s1\<lparr>awaiting_bytes := n, payload_tag := Some tag\<rparr>) =
          squash (t1\<lparr>awaiting_bytes := n, payload_tag := Some tag\<rparr>)"
        using same(1) by (simp add: squash_eq_iff)
      show ?thesis
        using "1.IH"(2) [OF False s1 [symmetric] payload refl refl upd] same s1 t1 payload await False
        by (simp add: unfold)
    qed (use same s1 t1 await False in \<open>auto simp: unfold squash_eq_iff\<close>)
  qed
qed

lemma header_more:
  assumes "read_exec_header s = (s1, Some r)"
  shows "read_exec_header (more s b) = (more s1 b, Some r)"
  using assms by (auto simp: read_exec_header_def index_of_append buffer_simps
      dest!: index_of_SomeD split: option.splits)

lemma deliver_update:
  "deliver_exec_payload (s\<lparr>buf := b, awaiting_bytes := n\<rparr>) c =
   (deliver_exec_payload s c)\<lparr>buf := b, awaiting_bytes := n\<rparr>"
  by (simp add: deliver_exec_payload_def split: option.split exec_tag.split)

lemma clear_update:
  "clear_payload_tag_if_complete (s\<lparr>buf := b, awaiting_bytes := n\<rparr>) =
   (clear_payload_tag_if_complete (s\<lparr>awaiting_bytes := n\<rparr>))\<lparr>buf := b\<rparr>"
  by (simp add: clear_payload_tag_if_complete_def)

lemma deliver_twice:
  "squash (deliver_exec_payload (deliver_exec_payload s a) b) = squash (deliver_exec_payload s (a @ b))"
proof (cases "payload_tag s")
  case None
  then show ?thesis by (simp add: deliver_exec_payload_def)
next
  case (Some tag)
  then show ?thesis
    by (cases tag; cases "on_stdout s"; cases "on_stderr s") (simp_all add: deliver_exec_payload_def squash_def)
qed

lemma consume_more:
  assumes "consume_exec_payload s = (s1, True)" "awaiting_bytes s \<le> length (buf s)"
  shows "consume_exec_payload (more s b) = (more s1 b, True)"
proof -
  have "buf s \<noteq> []" and
    s1: "s1 = clear_payload_tag_if_complete (deliver_exec_payload
      (s\<lparr>buf := drop (awaiting_bytes s) (buf s), awaiting_bytes := 0\<rparr>) (subarray (buf s) 0 (awaiting_bytes s)))"
    using assms by (auto simp: consume_exec_payload_def Let_def split: if_splits)
  then show ?thesis
    using assms(2)
    by (simp add: consume_exec_payload_def Let_def deliver_update clear_update buffer_simps)
qed

text \<open>A payload that runs past the chunk: the rest of it comes with the next chunk.\<close>

lemma consume_short:
  assumes "consume_exec_payload s = (s1, True)" "length (buf s) < awaiting_bytes s"
  shows "s1 = deliver_exec_payload (s\<lparr>buf := [], awaiting_bytes := awaiting_bytes s - length (buf s)\<rparr>) (buf s)"
  using assms
  by (auto simp: consume_exec_payload_def Let_def clear_payload_tag_if_complete_def buffer_simps split: if_splits)

lemma deliver_fields [simp]:
  "payload_tag (deliver_exec_payload s c) = payload_tag s"
  by (simp add: deliver_exec_payload_def split: option.split exec_tag.split)

lemma consume_short_more:
  assumes "consume_exec_payload s = (s1, True)" "length (buf s) < awaiting_bytes s" "b \<noteq> []"
  shows "squash (fst (consume_exec_payload (more s b))) = squash (fst (consume_exec_payload (more s1 b)))"
    and "snd (consume_exec_payload (more s b))" "snd (consume_exec_payload (more s1 b))"
proof -
  let ?n = "length (buf s)"
  let ?m = "min (awaiting_bytes s - ?n) (length b)"
  note s1 = consume_short [OF assms(1,2)]
  have lhs: "consume_exec_payload (more s b) =
      (clear_payload_tag_if_complete ((deliver_exec_payload s (buf s @ take ?m b))
        \<lparr>buf := drop ?m b, awaiting_bytes := awaiting_bytes s - (?n + ?m)\<rparr>), True)"
  proof -
    have "min (awaiting_bytes s) (length (buf s @ b)) = ?n + ?m" using assms(2) by simp
    then show ?thesis using assms(3)
      by (simp add: consume_exec_payload_def Let_def subarray_def deliver_update)
  qed
  have rhs: "consume_exec_payload (more s1 b) =
      (clear_payload_tag_if_complete ((deliver_exec_payload (deliver_exec_payload s (buf s)) (take ?m b))
        \<lparr>buf := drop ?m b, awaiting_bytes := awaiting_bytes s - (?n + ?m)\<rparr>), True)"
    using assms(3) by (simp add: consume_exec_payload_def Let_def subarray_def deliver_update s1)
  show "squash (fst (consume_exec_payload (more s b))) = squash (fst (consume_exec_payload (more s1 b)))"
    unfolding lhs rhs fst_conv
    by (intro squash_clear squash_update) (simp add: deliver_twice)
  show "snd (consume_exec_payload (more s b))" "snd (consume_exec_payload (more s1 b))"
    by (simp_all add: lhs rhs)
qed

text \<open>Stopping with neither an exit code nor an error: the rest of the stream continues as if it
  had come at once.\<close>

lemma step_exec_continue:
  assumes "step_exec_parser s = (t, None)" "exit_code t = None"
  shows "squash (fst (step_exec_parser (more s b))) = squash (fst (step_exec_parser (more t b))) \<and>
    snd (step_exec_parser (more s b)) = snd (step_exec_parser (more t b))"
  using assms
proof (induction s arbitrary: t rule: step_exec_parser.induct)
  case (1 s)
  show ?case
  proof (cases "0 < awaiting_bytes s")
    case True
    obtain s1 c where s1: "consume_exec_payload s = (s1, c)" by (cases "consume_exec_payload s")
    show ?thesis
    proof (cases c)
      case False
      then have "t = s" using "1.prems"(1) True s1
        by (auto simp: step_exec_parser.simps [of s] consume_exec_payload_def Let_def split: if_splits)
      then show ?thesis by simp
    next
      case True
      note go = \<open>0 < awaiting_bytes s\<close> s1 [unfolded eqTrueI [OF True]]
      have rest: "step_exec_parser s1 = (t, None)"
        using "1.prems"(1) step_exec_payload(1) [OF go] by simp
      show ?thesis
      proof (cases "awaiting_bytes s \<le> length (buf s)")
        case le: True
        have "step_exec_parser (more s b) = step_exec_parser (more s1 b)"
          using go consume_more [OF go(2) le] by (simp add: step_exec_parser.simps [of "more s b"])
        then show ?thesis using "1.IH"(1) [OF go(1) s1 [symmetric] eqTrueI [OF True] rest "1.prems"(2)] by simp
      next
        case False
        then have short: "length (buf s) < awaiting_bytes s" by simp
        have s1_eq: "buf s1 = []" "0 < awaiting_bytes s1"
          using short by (simp_all add: consume_short [OF go(2) short])
        then have "step_exec_parser s1 = (s1, None)"
          by (intro step_exec_payload(2)) (simp_all add: consume_exec_payload_def)
        then have t: "t = s1" using rest by simp
        show ?thesis
        proof (cases "b = []")
          case True
          then show ?thesis using rest "1.prems"(1) t by simp
        next
          case False
          obtain u where u: "consume_exec_payload (more s b) = (u, True)"
            using consume_short_more(2) [OF go(2) short False] by (metis prod.collapse)
          obtain v where v: "consume_exec_payload (more s1 b) = (v, True)"
            using consume_short_more(3) [OF go(2) short False] by (metis prod.collapse)
          have "squash u = squash v" using consume_short_more(1) [OF go(2) short False] u v by simp
          from step_squash [OF this] show ?thesis
            using u v go(1) s1_eq(2)
            by (simp add: t step_exec_parser.simps [of "more s b"] step_exec_parser.simps [of "more s1 b"])
        qed
      qed
    qed
  next
    case False
    obtain s1 r where s1: "read_exec_header s = (s1, r)" by (cases "read_exec_header s")
    show ?thesis
    proof (cases r)
      case None
      then have "t = s" using "1.prems"(1) False s1
        by (auto simp: step_exec_parser.simps [of s] read_exec_header_def split: option.splits)
      then show ?thesis by simp
    next
      case (Some h)
      obtain tag n where h: "h = Inr (Payload_header tag n)"
        and rest: "step_exec_parser (s1\<lparr>awaiting_bytes := n, payload_tag := Some tag\<rparr>) = (t, None)"
        using "1.prems" False s1 Some
        by (auto simp: step_exec_parser.simps [of s] split: sum.splits exec_header.splits)
      have "step_exec_parser (more s b) = step_exec_parser (more (s1\<lparr>awaiting_bytes := n, payload_tag := Some tag\<rparr>) b)"
        using False header_more [OF s1 [unfolded Some]] h by (simp add: more_update step_exec_parser.simps [of "more s b"])
      then show ?thesis
        using "1.IH"(2) [OF False s1 [symmetric] Some h refl rest "1.prems"(2)] by simp
    qed
  qed
qed

text \<open>After the exit frame or an error nothing more is parsed: the rest stays in the buffer.\<close>

lemma step_exec_halted:
  assumes "step_exec_parser s = (t, e)" "exit_code s = None" "exit_code t \<noteq> None \<or> e \<noteq> None"
  shows "step_exec_parser (more s b) = (more t b, e)"
  using assms
proof (induction s arbitrary: t rule: step_exec_parser.induct)
  case (1 s)
  show ?case
  proof (cases "0 < awaiting_bytes s")
    case True
    obtain s1 c where s1: "consume_exec_payload s = (s1, c)" by (cases "consume_exec_payload s")
    have c: c
      using "1.prems" True s1
      by (cases c) (auto simp: step_exec_parser.simps [of s] consume_exec_payload_def Let_def split: if_splits)
    note go = True s1 [unfolded eqTrueI [OF c]]
    have rest: "step_exec_parser s1 = (t, e)"
      using "1.prems"(1) step_exec_payload(1) [OF go] by simp
    have exit: "exit_code s1 = None"
      using go(2) "1.prems"(2) by (auto simp: consume_exec_payload_def Let_def split: if_splits)
    have le: "awaiting_bytes s \<le> length (buf s)"
    proof (rule ccontr)
      assume "\<not> ?thesis"
      then have short: "length (buf s) < awaiting_bytes s" by simp
      have "buf s1 = []" "0 < awaiting_bytes s1"
        using short by (simp_all add: consume_short [OF go(2) short])
      then have "step_exec_parser s1 = (s1, None)"
        by (intro step_exec_payload(2)) (simp_all add: consume_exec_payload_def)
      then have "t = s1 \<and> e = None" using rest by simp
      then show False using exit "1.prems"(3) by simp
    qed
    have "step_exec_parser (more s b) = step_exec_parser (more s1 b)"
      using go consume_more [OF go(2) le] by (simp add: step_exec_parser.simps [of "more s b"])
    then show ?thesis using "1.IH"(1) [OF go(1) s1 [symmetric] eqTrueI [OF c] rest exit "1.prems"(3)] by simp
  next
    case False
    obtain s1 r where s1: "read_exec_header s = (s1, r)" by (cases "read_exec_header s")
    have exit: "exit_code s1 = None"
      using s1 "1.prems"(2) by (auto simp: read_exec_header_def split: option.splits)
    show ?thesis
    proof (cases r)
      case None
      then show ?thesis using "1.prems"(1,3) False s1 exit by (simp add: step_exec_parser.simps [of s])
    next
      case (Some h)
      note hdr = header_more [OF s1 [unfolded Some], of b]
      consider (err) x where "h = Inl x" | (exit) c where "h = Inr (Exit_header c)"
        | (payload) tag n where "h = Inr (Payload_header tag n)"
        by (metis exec_header.exhaust sum.exhaust)
      then show ?thesis
      proof cases
        case payload
        have rest: "step_exec_parser (s1\<lparr>awaiting_bytes := n, payload_tag := Some tag\<rparr>) = (t, e)"
          using "1.prems"(1) step_exec_header(4) [of s s1 tag n] False s1 Some payload by simp
        have "step_exec_parser (more s b) = step_exec_parser (more (s1\<lparr>awaiting_bytes := n, payload_tag := Some tag\<rparr>) b)"
          using False hdr payload step_exec_header(4) [of "more s b" "more s1 b" tag n] by (simp add: more_update)
        then show ?thesis
          using "1.IH"(2) [OF False s1 [symmetric] Some payload refl rest _ "1.prems"(3)] exit by simp
      next
        case err
        then show ?thesis
          using "1.prems"(1) False s1 Some hdr step_exec_header(2) [of s s1 x]
            step_exec_header(2) [of "more s b" "more s1 b" x] by simp
      next
        case exit
        then show ?thesis
          using "1.prems"(1) False s1 Some hdr step_exec_header(3) [of s s1 c]
            step_exec_header(3) [of "more s b" "more s1 b" c] by auto
      qed
    qed
  qed
qed

text \<open>One data event of a request; after a throw the socket is destroyed and there is no other.\<close>

fun exec_data :: "exec_state \<times> exec_error option \<Rightarrow> bytes \<Rightarrow> exec_state \<times> exec_error option" where
  "exec_data (s, None) data = feed_exec s data"
| "exec_data (s, Some e) data = (s, Some e)"

definition exec_view :: "exec_state \<times> exec_error option \<Rightarrow> exec_state \<times> exec_error option" where
  "exec_view p = (squash (fst p), snd p)"

definition exec_live :: "exec_state \<times> exec_error option \<Rightarrow> bool" where
  "exec_live p \<longleftrightarrow> exit_code (fst p) = None \<and> snd p = None"

lemma step_exec_exit: "step_exec_parser s = (t, e) \<Longrightarrow> exit_code t = None \<Longrightarrow> exit_code s = None"
proof (induction s arbitrary: t rule: step_exec_parser.induct)
  case (1 s)
  show ?case
  proof (cases "0 < awaiting_bytes s")
    case True
    obtain s1 c where s1: "consume_exec_payload s = (s1, c)" by (cases "consume_exec_payload s")
    have "exit_code s1 = exit_code s"
      using s1 by (auto simp: consume_exec_payload_def Let_def split: if_splits)
    then show ?thesis
      using "1.IH"(1) [OF True s1 [symmetric], of t] "1.prems" step_exec_payload [of s s1] True s1 by (cases c) simp_all
  next
    case False
    obtain s1 r where s1: "read_exec_header s = (s1, r)" by (cases "read_exec_header s")
    have same: "exit_code s1 = exit_code s"
      using s1 by (auto simp: read_exec_header_def split: option.splits)
    consider (none) "r = None" | (err) x where "r = Some (Inl x)"
      | (exit) c where "r = Some (Inr (Exit_header c))"
      | (payload) tag n where "r = Some (Inr (Payload_header tag n))"
      by (metis exec_header.exhaust option.exhaust sum.exhaust)
    then show ?thesis
    proof cases
      case payload
      have "step_exec_parser (s1\<lparr>awaiting_bytes := n, payload_tag := Some tag\<rparr>) = (t, e)"
        using "1.prems"(1) step_exec_header(4) [of s s1 tag n] False s1 payload by simp
      from "1.IH"(2) [OF False s1 [symmetric] payload refl refl this "1.prems"(2)] show ?thesis
        using same by simp
    next
      case none
      then show ?thesis using "1.prems" step_exec_header(1) [of s s1] False s1 same by simp
    next
      case err
      then show ?thesis using "1.prems" step_exec_header(2) [of s s1 x] False s1 same by simp
    next
      case exit
      then show ?thesis using "1.prems" step_exec_header(3) [of s s1 c] False s1 by auto
    qed
  qed
qed

interpretation exec_stream: stream_parser exec_data exec_view exec_live "\<lambda>p. buf (fst p)"
proof
  fix p q :: "exec_state \<times> exec_error option" and d
  assume same: "exec_view p = exec_view q"
  obtain s e t where p: "p = (s, e)" "q = (t, e)" using same by (cases p; cases q) (simp add: exec_view_def)
  have "squash (more s d) = squash (more t d)"
    using same by (simp add: p exec_view_def squash_eq_iff)
  then have "squash (fst (step_exec_parser (more s d))) = squash (fst (step_exec_parser (more t d))) \<and>
      snd (step_exec_parser (more s d)) = snd (step_exec_parser (more t d))"
    by (rule step_squash)
  then show "exec_view (exec_data p d) = exec_view (exec_data q d)"
    using same by (cases e) (simp_all add: p exec_view_def feed_exec_def)
next
  fix p a b
  assume live: "exec_live (exec_data p a)"
  obtain s e where p: "p = (s, e)" by (cases p)
  have e: "e = None" using live by (cases e) (simp_all add: p exec_live_def)
  obtain t where t: "step_exec_parser (more s a) = (t, None)" "exit_code t = None"
    using live by (cases "step_exec_parser (more s a)") (simp add: p e exec_live_def feed_exec_def)
  show "exec_view (exec_data p (a @ b)) = exec_view (exec_data (exec_data p a) b)"
    using step_exec_continue [OF t, of b] t(1) by (simp add: p e exec_view_def feed_exec_def)
next
  fix p a b
  assume live: "exec_live p" and halted: "\<not> exec_live (exec_data p a)"
  obtain s where p: "p = (s, None)" and s: "exit_code s = None"
    using live by (cases p) (simp add: exec_live_def)
  obtain t e where t: "step_exec_parser (more s a) = (t, e)" by (cases "step_exec_parser (more s a)")
  have "exit_code t \<noteq> None \<or> e \<noteq> None" using halted t by (simp add: p exec_live_def feed_exec_def)
  from step_exec_halted [OF t _ this, of b] s show "buf (fst (exec_data p (a @ b))) = buf (fst (exec_data p a)) @ b"
    using t by (simp add: p feed_exec_def)
next
  fix p
  assume live: "exec_live p" and empty: "buf (fst p) = []"
  obtain s where p: "p = (s, None)" using live by (cases p) (simp add: exec_live_def)
  have "step_exec_parser s = (s, None)"
  proof (cases "0 < awaiting_bytes s")
    case True
    then show ?thesis using empty by (intro step_exec_payload(2)) (simp_all add: p consume_exec_payload_def)
  next
    case False
    then show ?thesis using empty by (intro step_exec_header(1)) (simp_all add: p read_exec_header_def)
  qed
  then show "exec_view (exec_data p []) = exec_view p" by (simp add: p feed_exec_def)
qed

section \<open>What the agent sends arrives\<close>

datatype out_frame = Out_frame bytes | Err_frame bytes

fun frame_bytes :: "out_frame \<Rightarrow> bytes" where
  "frame_bytes (Out_frame p) = p"
| "frame_bytes (Err_frame p) = p"

fun out_payload :: "out_frame \<Rightarrow> bytes" where
  "out_payload (Out_frame p) = p"
| "out_payload (Err_frame p) = []"

fun err_payload :: "out_frame \<Rightarrow> bytes" where
  "err_payload (Out_frame p) = []"
| "err_payload (Err_frame p) = p"

definition header_line :: "string \<Rightarrow> nat \<Rightarrow> bytes" where
  "header_line tag n = bytes_of (tag @ '' '' @ dec_string n @ [nl_char])"

fun encode_frame :: "out_frame \<Rightarrow> bytes" where
  "encode_frame (Out_frame p) = header_line ''O'' (length p) @ p"
| "encode_frame (Err_frame p) = header_line ''E'' (length p) @ p"

definition encode_stream :: "out_frame list \<Rightarrow> nat \<Rightarrow> bytes" where
  "encode_stream fs code = concat (map encode_frame fs) @ header_line ''X'' code"

lemma header_line_index:
  assumes "tag \<in> {''O'', ''E'', ''X''}"
  shows "index_of 10 (header_line tag n @ r) = Some (length (header_line tag n) - 1)"
    and "drop (length (header_line tag n)) (header_line tag n @ r) = r"
    and "ascii_of (subarray (header_line tag n @ r) 0 (length (header_line tag n) - 1)) = tag @ '' '' @ dec_string n"
    and "0 < length (header_line tag n)"
proof -
  let ?l = "tag @ '' '' @ dec_string n"
  have line: "header_line tag n = bytes_of (?l @ [nl_char])" by (simp add: header_line_def)
  have ascii: "is_ascii ?l"
    using assms dec_string_ascii [of n] by (auto simp: is_ascii_def)
  have no_nl: "nl_char \<notin> set ?l" using assms by auto
  show "index_of 10 (header_line tag n @ r) = Some (length (header_line tag n) - 1)"
    unfolding line using line_head(1) [OF no_nl, of r] by simp
  show "drop (length (header_line tag n)) (header_line tag n @ r) = r" by simp
  show "ascii_of (subarray (header_line tag n @ r) 0 (length (header_line tag n) - 1)) = ?l"
    using ascii_of_bytes_of [OF ascii] line_head(2) [OF no_nl, of r] by (simp add: line subarray_def)
  show "0 < length (header_line tag n)" by (simp add: line)
qed

lemma header_parts_line:
  assumes "tag \<in> {''O'', ''E'', ''X''}"
  shows "header_parts (tag @ '' '' @ dec_string n) = (tag, Some (dec_string n))"
proof -
  have "CHR '' '' \<notin> set (dec_string n)" by (rule dec_string_absent) (simp add: is_digit_def)
  moreover have "CHR '' '' \<notin> set tag" using assms by auto
  ultimately have "split_on (CHR '' '') (tag @ '' '' @ dec_string n) = [tag, dec_string n]"
    using split_on_append [of "CHR '' ''" tag "dec_string n"] by simp
  then show ?thesis by (simp add: header_parts_def)
qed

lemma parse_exec_header_frame:
  assumes "n < 2 ^ 53"
  shows "parse_exec_header_line (''O'' @ '' '' @ dec_string n) = Inr (Payload_header Tag_O n)"
    and "parse_exec_header_line (''E'' @ '' '' @ dec_string n) = Inr (Payload_header Tag_E n)"
    and "parse_exec_header_line (''X'' @ '' '' @ dec_string n) = Inr (Exit_header (Fin (int n)))"
  using assms header_parts_line [of "''O''" n] header_parts_line [of "''E''" n] header_parts_line [of "''X''" n]
  by (simp_all add: parse_exec_header_line_def parse_exec_frame_length_def)

lemma read_exec_header_line:
  assumes "tag \<in> {''O'', ''E'', ''X''}"
  shows "read_exec_header (s\<lparr>buf := header_line tag n @ r\<rparr>) =
    (s\<lparr>buf := r\<rparr>, Some (parse_exec_header_line (tag @ '' '' @ dec_string n)))"
  using header_line_index [OF assms] by (simp add: read_exec_header_def)

text \<open>A state that has taken \<open>o_bytes\<close> and \<open>e_bytes\<close> more than \<open>s\<close>.\<close>

definition received :: "exec_state \<Rightarrow> bytes \<Rightarrow> bytes \<Rightarrow> exec_state \<Rightarrow> bool" where
  "received s o_bytes e_bytes t \<longleftrightarrow>
     on_stdout t = on_stdout s \<and> on_stderr t = on_stderr s \<and> exit_code t = exit_code s \<and>
     concat (stdout_bufs t) = concat (stdout_bufs s) @ (if on_stdout s then [] else o_bytes) \<and>
     concat (stdout_calls t) = concat (stdout_calls s) @ (if on_stdout s then o_bytes else []) \<and>
     concat (stderr_bufs t) = concat (stderr_bufs s) @ (if on_stderr s then [] else e_bytes) \<and>
     concat (stderr_calls t) = concat (stderr_calls s) @ (if on_stderr s then e_bytes else [])"

lemma received_trans: "received s a b t \<Longrightarrow> received t c d u \<Longrightarrow> received s (a @ c) (b @ d) u"
  by (simp add: received_def)

lemma received_buf [simp]: "received s a b (t\<lparr>buf := x\<rparr>) = received s a b t"
  "received (s\<lparr>buf := x\<rparr>) a b t = received s a b t"
  by (simp_all add: received_def)

lemma step_encoded_frame:
  assumes "awaiting_bytes s = 0" "length (frame_bytes f) < 2 ^ 53"
  shows "\<exists>u. step_exec_parser (s\<lparr>buf := encode_frame f @ r\<rparr>) = step_exec_parser (u\<lparr>buf := r\<rparr>) \<and>
    awaiting_bytes u = 0 \<and> received s (out_payload f) (err_payload f) u"
proof -
  obtain tag name p where f: "frame_bytes f = p" "encode_frame f = header_line name (length p) @ p"
      "name \<in> {''O'', ''E'', ''X''}" "parse_exec_header_line (name @ '' '' @ dec_string (length p)) = Inr (Payload_header tag (length p))"
      "tag = Tag_O \<and> out_payload f = p \<and> err_payload f = [] \<or> tag = Tag_E \<and> out_payload f = [] \<and> err_payload f = p"
    using assms(2) parse_exec_header_frame [of "length (frame_bytes f)"] by (cases f) auto
  let ?s1 = "s\<lparr>buf := p @ r, awaiting_bytes := length p, payload_tag := Some tag\<rparr>"
  have "read_exec_header (s\<lparr>buf := encode_frame f @ r\<rparr>) =
      (s\<lparr>buf := p @ r\<rparr>, Some (Inr (Payload_header tag (length p))))"
    using read_exec_header_line [OF f(3), where s = s and n = "length p" and r = "p @ r"] f(2,4) by simp
  then have head: "step_exec_parser (s\<lparr>buf := encode_frame f @ r\<rparr>) = step_exec_parser ?s1"
    using assms(1) step_exec_header(4) [of "s\<lparr>buf := encode_frame f @ r\<rparr>"] by simp
  show ?thesis
  proof (cases "p = []")
    case True
    have "?s1 = (s\<lparr>awaiting_bytes := 0, payload_tag := Some tag\<rparr>)\<lparr>buf := r\<rparr>" using True by simp
    moreover have "received s (out_payload f) (err_payload f) (s\<lparr>awaiting_bytes := 0, payload_tag := Some tag\<rparr>)"
      using f(5) True by (auto simp: received_def)
    ultimately show ?thesis using head
      by (intro exI [of _ "s\<lparr>awaiting_bytes := 0, payload_tag := Some tag\<rparr>"]) simp
  next
    case False
    let ?d = "deliver_exec_payload (s\<lparr>payload_tag := Some tag, buf := r, awaiting_bytes := 0\<rparr>) p"
    have consume: "consume_exec_payload ?s1 = (clear_payload_tag_if_complete ?d, True)"
      using False by (simp add: consume_exec_payload_def Let_def subarray_def)
    have "received s (out_payload f) (err_payload f) (clear_payload_tag_if_complete ?d)"
      using f(5) by (auto simp: received_def deliver_exec_payload_def clear_payload_tag_if_complete_def)
    moreover have same: "(clear_payload_tag_if_complete ?d)\<lparr>buf := r\<rparr> = clear_payload_tag_if_complete ?d"
      using f(5) by (auto simp: deliver_exec_payload_def clear_payload_tag_if_complete_def)
    moreover have "step_exec_parser (s\<lparr>buf := encode_frame f @ r\<rparr>) = step_exec_parser (clear_payload_tag_if_complete ?d)"
      using False head step_exec_payload(1) [OF _ consume] by simp
    ultimately show ?thesis
      by (intro exI [of _ "clear_payload_tag_if_complete ?d"]) (simp only: same, simp)
  qed
qed

lemma step_encoded_stream:
  assumes "awaiting_bytes s = 0" "\<forall>f \<in> set fs. length (frame_bytes f) < 2 ^ 53" "code < 2 ^ 53"
  shows "\<exists>u. step_exec_parser (s\<lparr>buf := encode_stream fs code\<rparr>) = (u\<lparr>buf := [], exit_code := Some (Fin (int code))\<rparr>, None) \<and>
    received s (concat (map out_payload fs)) (concat (map err_payload fs)) u"
  using assms(1,2)
proof (induction fs arbitrary: s)
  case Nil
  have "read_exec_header (s\<lparr>buf := encode_stream [] code\<rparr>) = (s\<lparr>buf := []\<rparr>, Some (Inr (Exit_header (Fin (int code)))))"
    using read_exec_header_line [where tag = "''X''" and s = s and n = code and r = "[]"] parse_exec_header_frame(3) [OF assms(3)]
    by (simp add: encode_stream_def)
  then have "step_exec_parser (s\<lparr>buf := encode_stream [] code\<rparr>) = (s\<lparr>buf := [], exit_code := Some (Fin (int code))\<rparr>, None)"
    using Nil.prems(1) step_exec_header(3) [of "s\<lparr>buf := encode_stream [] code\<rparr>"] by simp
  then show ?case by (intro exI [of _ s]) (simp add: received_def)
next
  case (Cons f fs)
  have split: "encode_stream (f # fs) code = encode_frame f @ encode_stream fs code" by (simp add: encode_stream_def)
  have "length (frame_bytes f) < 2 ^ 53" using Cons.prems(2) by simp
  from step_encoded_frame [OF Cons.prems(1) this, of "encode_stream fs code"] obtain u where
    u: "step_exec_parser (s\<lparr>buf := encode_stream (f # fs) code\<rparr>) = step_exec_parser (u\<lparr>buf := encode_stream fs code\<rparr>)"
       "awaiting_bytes u = 0" "received s (out_payload f) (err_payload f) u"
    by (auto simp: split)
  from Cons.IH [OF u(2)] Cons.prems(2) obtain v where
    v: "step_exec_parser (u\<lparr>buf := encode_stream fs code\<rparr>) = (v\<lparr>buf := [], exit_code := Some (Fin (int code))\<rparr>, None)"
       "received u (concat (map out_payload fs)) (concat (map err_payload fs)) v"
    by auto
  from received_trans [OF u(3) v(2)] u(1) v(1) show ?case by (intro exI [of _ v]) simp
qed

text \<open>The final state of a request whose stream came in pieces.\<close>

lemma exec_stream_arrives:
  assumes "concat chunks = encode_stream fs code" "[] \<notin> set chunks"
    and "\<forall>f \<in> set fs. length (frame_bytes f) < 2 ^ 53" "code < 2 ^ 53"
  shows "\<exists>t. foldl exec_data (initial_exec_state tee_out tee_err, None) chunks = (t, None) \<and>
    exit_code t = Some (Fin (int code)) \<and>
    concat (if tee_out then stdout_calls t else stdout_bufs t) = concat (map out_payload fs) \<and>
    concat (if tee_err then stderr_calls t else stderr_bufs t) = concat (map err_payload fs) \<and>
    (tee_out \<longrightarrow> concat (stdout_bufs t) = []) \<and> (tee_err \<longrightarrow> concat (stderr_bufs t) = [])"
proof -
  let ?i = "initial_exec_state tee_out tee_err"
  obtain u where u: "step_exec_parser (?i\<lparr>buf := encode_stream fs code\<rparr>) = (u\<lparr>buf := [], exit_code := Some (Fin (int code))\<rparr>, None)"
      "received ?i (concat (map out_payload fs)) (concat (map err_payload fs)) u"
    using step_encoded_stream [OF _ assms(3,4), of ?i] by (auto simp: initial_exec_state_def)
  have whole: "exec_data (?i, None) (concat chunks) = (u\<lparr>buf := [], exit_code := Some (Fin (int code))\<rparr>, None)"
    using u(1) by (simp add: assms(1) feed_exec_def initial_exec_state_def)
  have "exec_view (foldl exec_data (?i, None) chunks) = exec_view (exec_data (?i, None) (concat chunks))"
    using assms(2) whole
    by (intro exec_stream.chunking) (simp_all add: exec_live_def initial_exec_state_def)
  then obtain t where t: "foldl exec_data (?i, None) chunks = (t, None)"
      "squash t = squash (u\<lparr>buf := [], exit_code := Some (Fin (int code))\<rparr>)"
    unfolding whole by (cases "foldl exec_data (?i, None) chunks") (auto simp: exec_view_def)
  then show ?thesis
    using u(2) by (simp add: squash_eq_iff received_def initial_exec_state_def split: if_splits)
qed

section \<open>The PTY parser does not see how the stream is cut\<close>

text \<open>All bytes written to the terminal, and the calls of the other two handlers.\<close>

fun written :: "pty_call list \<Rightarrow> bytes" where
  "written [] = []"
| "written (Stdout_write b # cs) = b @ written cs"
| "written (c # cs) = written cs"

fun endings :: "pty_call list \<Rightarrow> pty_call list" where
  "endings [] = []"
| "endings (Stdout_write b # cs) = endings cs"
| "endings (c # cs) = c # endings cs"

lemma written_append [simp]: "written (xs @ ys) = written xs @ written ys"
  by (induction xs rule: written.induct) simp_all

lemma endings_append [simp]: "endings (xs @ ys) = endings xs @ endings ys"
  by (induction xs rule: endings.induct) simp_all

abbreviation pty_more :: "pty_parser_state \<Rightarrow> bytes \<Rightarrow> pty_parser_state" where
  "pty_more s b \<equiv> s\<lparr>pty_buffer := pty_buffer s @ b\<rparr>"

lemma drain_pty_stop: "consume_next_pty_frame s = (t, cs, False) \<Longrightarrow> drain_pty s = (t, cs)"
  by (subst drain_pty.simps) simp

lemma drain_pty_go:
  "consume_next_pty_frame s = (s1, cs, True) \<Longrightarrow> drain_pty s1 = (t, ds) \<Longrightarrow> drain_pty s = (t, cs @ ds)"
  by (subst drain_pty.simps) simp

lemma consume_next_stuck:
  "consume_next_pty_frame s = (t, [], False) \<Longrightarrow> t = s"
  by (auto simp: consume_next_pty_frame_def consume_pty_payload_def handle_pty_header_line_def Let_def
      split: if_splits option.splits pty_frame_header.splits)

lemma consume_next_full:
  assumes "consume_next_pty_frame s = (s1, cs, go)" "go \<or> cs \<noteq> []"
    and "\<not> length (pty_buffer s) < pty_awaiting s"
  shows "consume_next_pty_frame (pty_more s b) = (pty_more s1 b, cs, go)"
proof (cases "0 < pty_awaiting s")
  case True
  then have "pty_buffer s \<noteq> []" using assms(3) by auto
  then show ?thesis
    using assms True by (auto simp: consume_next_pty_frame_def consume_pty_payload_def Let_def buffer_simps)
next
  case False
  then obtain nl where nl: "index_of 10 (pty_buffer s) = Some nl"
    using assms(1,2) by (auto simp: consume_next_pty_frame_def take_pty_header_line_def split: option.splits)
  then have "nl < length (pty_buffer s)" by (auto dest: index_of_SomeD)
  then show ?thesis
    using assms(1) False nl
    by (auto simp: consume_next_pty_frame_def take_pty_header_line_def index_of_append buffer_simps
        handle_pty_header_line_def split: pty_frame_header.splits)
qed

lemma consume_next_short:
  assumes "length (pty_buffer s) < pty_awaiting s" "pty_buffer s \<noteq> []"
  shows "consume_next_pty_frame s =
    (\<lparr>pty_buffer = [], pty_awaiting = pty_awaiting s - length (pty_buffer s)\<rparr>, [Stdout_write (pty_buffer s)], True)"
  using assms by (simp add: consume_next_pty_frame_def consume_pty_payload_def Let_def buffer_simps)

lemma consume_next_short_more:
  assumes "length (pty_buffer s) < pty_awaiting s" "b \<noteq> []"
  shows "\<exists>x c. consume_next_pty_frame (pty_more s b) = (x, [Stdout_write (pty_buffer s @ c)], True) \<and>
    consume_next_pty_frame \<lparr>pty_buffer = b, pty_awaiting = pty_awaiting s - length (pty_buffer s)\<rparr> =
      (x, [Stdout_write c], True)"
proof -
  let ?m = "min (pty_awaiting s - length (pty_buffer s)) (length b)"
  have "min (pty_awaiting s) (length (pty_buffer s @ b)) = length (pty_buffer s) + ?m" using assms(1) by simp
  then show ?thesis
    using assms by (simp add: consume_next_pty_frame_def consume_pty_payload_def Let_def subarray_def)
qed

lemma consume_next_starved:
  "0 < pty_awaiting s \<Longrightarrow> pty_buffer s = [] \<Longrightarrow> consume_next_pty_frame s = (s, [], False)"
  by (simp add: consume_next_pty_frame_def consume_pty_payload_def)

lemma drain_pty_continue:
  assumes "drain_pty s = (t, cs)" "endings cs = []"
  shows "\<exists>u ds es. drain_pty (pty_more s b) = (u, ds) \<and> drain_pty (pty_more t b) = (u, es) \<and>
    written ds = written cs @ written es \<and> endings ds = endings es"
  using assms
proof (induction s arbitrary: t cs rule: drain_pty.induct)
  case (1 s)
  obtain s1 c go where next_frame: "consume_next_pty_frame s = (s1, c, go)" by (cases "consume_next_pty_frame s") auto
  show ?case
  proof (cases go)
    case False
    then have stop: "t = s1" "cs = c" using drain_pty_stop [of s s1 c] next_frame "1.prems"(1) by simp_all
    have "c = []"
      using next_frame False "1.prems"(2) stop(2)
      by (auto simp: consume_next_pty_frame_def consume_pty_payload_def handle_pty_header_line_def Let_def
          split: if_splits option.splits pty_frame_header.splits)
    then have "t = s" using consume_next_stuck next_frame False stop(1) by simp
    then show ?thesis using \<open>c = []\<close> stop(2) by (cases "drain_pty (pty_more s b)") auto
  next
    case True
    obtain t1 ds1 where rest: "drain_pty s1 = (t1, ds1)" by (cases "drain_pty s1")
    have t: "t = t1" "cs = c @ ds1" using drain_pty_go [OF _ rest] next_frame True "1.prems"(1) by auto
    show ?thesis
    proof (cases "length (pty_buffer s) < pty_awaiting s")
      case short: True
      then have ne: "pty_buffer s \<noteq> []"
        using next_frame True by (auto simp: consume_next_starved)
      have s1: "s1 = \<lparr>pty_buffer = [], pty_awaiting = pty_awaiting s - length (pty_buffer s)\<rparr>"
        and c: "c = [Stdout_write (pty_buffer s)]"
        using consume_next_short [OF short ne] next_frame by simp_all
      have "drain_pty s1 = (s1, [])"
        using short by (intro drain_pty_stop consume_next_starved) (simp_all add: s1)
      then have t1: "t = s1" "cs = [Stdout_write (pty_buffer s)]" using rest t c by simp_all
      show ?thesis
      proof (cases "b = []")
        case True
        then show ?thesis using "1.prems"(1) t1 \<open>drain_pty s1 = (s1, [])\<close> by simp
      next
        case False
        from consume_next_short_more [OF short False] obtain x d where
          x: "consume_next_pty_frame (pty_more s b) = (x, [Stdout_write (pty_buffer s @ d)], True)"
          "consume_next_pty_frame (pty_more s1 b) = (x, [Stdout_write d], True)"
          by (auto simp: s1)
        obtain u es where u: "drain_pty x = (u, es)" by (cases "drain_pty x")
        show ?thesis
          using drain_pty_go [OF x(1) u] drain_pty_go [OF x(2) u] by (simp add: t1)
      qed
    next
      case False
      have step: "consume_next_pty_frame (pty_more s b) = (pty_more s1 b, c, True)"
        using consume_next_full [OF next_frame _ False] True by simp
      have "endings ds1 = []" "endings c = []" using "1.prems"(2) t(2) by simp_all
      from "1.IH" [OF next_frame [symmetric] refl eqTrueI [OF True] rest this(1)] obtain u ds es where
        "drain_pty (pty_more s1 b) = (u, ds)" "drain_pty (pty_more t1 b) = (u, es)"
        "written ds = written ds1 @ written es" "endings ds = endings es"
        by blast
      with drain_pty_go [OF step this(1)] \<open>endings c = []\<close> show ?thesis by (simp add: t)
    qed
  qed
qed

lemma drain_pty_halted:
  assumes "drain_pty s = (t, cs)" "endings cs \<noteq> []"
  shows "drain_pty (pty_more s b) = (pty_more t b, cs)"
  using assms
proof (induction s arbitrary: t cs rule: drain_pty.induct)
  case (1 s)
  obtain s1 c go where next_frame: "consume_next_pty_frame s = (s1, c, go)" by (cases "consume_next_pty_frame s") auto
  show ?case
  proof (cases go)
    case False
    then have stop: "t = s1" "cs = c" using drain_pty_stop [of s s1 c] next_frame "1.prems"(1) by simp_all
    then have "c \<noteq> []" using "1.prems"(2) by auto
    moreover have "\<not> 0 < pty_awaiting s"
      using next_frame False \<open>c \<noteq> []\<close>
      by (auto simp: consume_next_pty_frame_def consume_pty_payload_def Let_def split: if_splits)
    ultimately have "consume_next_pty_frame (pty_more s b) = (pty_more s1 b, c, False)"
      using consume_next_full [OF next_frame] False by simp
    then show ?thesis using stop by (simp add: drain_pty_stop)
  next
    case True
    obtain t1 ds1 where rest: "drain_pty s1 = (t1, ds1)" by (cases "drain_pty s1")
    have t: "t = t1" "cs = c @ ds1" using drain_pty_go [OF _ rest] next_frame True "1.prems"(1) by auto
    have c: "endings c = []"
      using next_frame True
      by (auto simp: consume_next_pty_frame_def consume_pty_payload_def handle_pty_header_line_def Let_def
          split: if_splits option.splits pty_frame_header.splits)
    then have ends: "endings ds1 \<noteq> []" using "1.prems"(2) t(2) by simp
    have full: "\<not> length (pty_buffer s) < pty_awaiting s"
    proof
      assume short: "length (pty_buffer s) < pty_awaiting s"
      then have ne: "pty_buffer s \<noteq> []" using next_frame True by (auto simp: consume_next_starved)
      have "drain_pty s1 = (s1, [])"
        using short consume_next_short [OF short ne] next_frame
        by (intro drain_pty_stop consume_next_starved) auto
      then show False using rest ends by simp
    qed
    have step: "consume_next_pty_frame (pty_more s b) = (pty_more s1 b, c, True)"
      using consume_next_full [OF next_frame _ full] True by simp
    have "drain_pty (pty_more s1 b) = (pty_more t1 b, ds1)"
      using "1.IH" [OF next_frame [symmetric] refl eqTrueI [OF True] rest ends] .
    with drain_pty_go [OF step this] show ?thesis by (simp add: t)
  qed
qed

text \<open>One data event of a PTY session; after \<open>onError\<close> the socket is destroyed.\<close>

definition pty_failed :: "pty_call list \<Rightarrow> bool" where
  "pty_failed calls \<longleftrightarrow> (\<exists>c \<in> set calls. case c of On_error _ \<Rightarrow> True | _ \<Rightarrow> False)"

definition pty_data :: "pty_parser_state \<times> pty_call list \<Rightarrow> bytes \<Rightarrow> pty_parser_state \<times> pty_call list" where
  "pty_data p data =
     (if pty_failed (snd p) then p
      else let (s, calls) = ingest_pty_output (fst p) data in (s, snd p @ calls))"

definition pty_view :: "pty_parser_state \<times> pty_call list \<Rightarrow> pty_parser_state \<times> bytes \<times> pty_call list" where
  "pty_view p = (fst p, written (snd p), endings (snd p))"

lemma pty_failed_endings: "pty_failed calls \<longleftrightarrow> pty_failed (endings calls)"
  by (induction calls rule: endings.induct) (auto simp: pty_failed_def)

lemma pty_failed_live: "endings calls = [] \<Longrightarrow> \<not> pty_failed calls"
  using pty_failed_endings [of calls] by (simp add: pty_failed_def)

interpretation pty_stream: stream_parser pty_data pty_view "\<lambda>p. endings (snd p) = []" "\<lambda>p. pty_buffer (fst p)"
proof
  fix p q :: "pty_parser_state \<times> pty_call list" and d
  assume "pty_view p = pty_view q"
  then show "pty_view (pty_data p d) = pty_view (pty_data q d)"
    using pty_failed_endings [of "snd p"] pty_failed_endings [of "snd q"]
    by (auto simp: pty_view_def pty_data_def split: prod.split)
next
  fix p a b
  assume live: "endings (snd (pty_data p a)) = []"
  then have ok: "\<not> pty_failed (snd p)"
    using pty_failed_live [of "snd (pty_data p a)"] by (auto simp: pty_data_def split: if_splits)
  obtain t cs where t: "drain_pty (pty_more (fst p) a) = (t, cs)" by (cases "drain_pty (pty_more (fst p) a)")
  then have a: "pty_data p a = (t, snd p @ cs)" using ok by (simp add: pty_data_def ingest_pty_output_def)
  have cs: "endings cs = []" "\<not> pty_failed (snd p @ cs)" using live a pty_failed_live by auto
  from drain_pty_continue [OF t cs(1), of b] show "pty_view (pty_data p (a @ b)) = pty_view (pty_data (pty_data p a) b)"
    unfolding a using ok cs by (auto simp: pty_view_def pty_data_def ingest_pty_output_def)
next
  fix p a b
  assume live: "endings (snd p) = []" and halted: "endings (snd (pty_data p a)) \<noteq> []"
  have ok: "\<not> pty_failed (snd p)" using live by (rule pty_failed_live)
  obtain t cs where t: "drain_pty (pty_more (fst p) a) = (t, cs)" by (cases "drain_pty (pty_more (fst p) a)")
  have "endings cs \<noteq> []" using halted live ok t by (simp add: pty_data_def ingest_pty_output_def)
  from drain_pty_halted [OF t this, of b] show "pty_buffer (fst (pty_data p (a @ b))) = pty_buffer (fst (pty_data p a)) @ b"
    using t ok by (simp add: pty_data_def ingest_pty_output_def)
next
  fix p :: "pty_parser_state \<times> pty_call list"
  assume live: "endings (snd p) = []" and empty: "pty_buffer (fst p) = []"
  have "consume_next_pty_frame (fst p) = (fst p, [], False)"
    using empty by (simp add: consume_next_pty_frame_def consume_pty_payload_def take_pty_header_line_def)
  then have "drain_pty (fst p) = (fst p, [])" by (rule drain_pty_stop)
  moreover have "(fst p)\<lparr>pty_buffer := []\<rparr> = fst p" using empty by simp
  ultimately have "drain_pty ((fst p)\<lparr>pty_buffer := []\<rparr>) = (fst p, [])" by (simp only:)
  then show "pty_view (pty_data p []) = pty_view p"
    by (simp add: pty_view_def pty_data_def ingest_pty_output_def empty)
qed

lemma take_pty_header_line_encoded:
  assumes "tag \<in> {''O'', ''E'', ''X''}"
  shows "take_pty_header_line \<lparr>pty_buffer = header_line tag n @ r, pty_awaiting = k\<rparr> =
    Some (\<lparr>pty_buffer = r, pty_awaiting = k\<rparr>, tag @ '' '' @ dec_string n)"
  using header_line_index [OF assms] by (simp add: take_pty_header_line_def)

lemma drain_pty_stream:
  assumes "\<forall>p \<in> set ps. length p < 2 ^ 53" "code < 2 ^ 53"
  shows "\<exists>calls. drain_pty \<lparr>pty_buffer = encode_stream (map Out_frame ps) code, pty_awaiting = 0\<rparr> =
      (\<lparr>pty_buffer = [], pty_awaiting = 0\<rparr>, calls) \<and>
    written calls = concat ps \<and> endings calls = [On_exit (Fin (int code))]"
  using assms(1)
proof (induction ps)
  case Nil
  have "consume_next_pty_frame \<lparr>pty_buffer = encode_stream [] code, pty_awaiting = 0\<rparr> =
      (\<lparr>pty_buffer = [], pty_awaiting = 0\<rparr>, [On_exit (Fin (int code))], False)"
    using take_pty_header_line_encoded [where tag = "''X''" and n = code and r = "[]" and k = 0]
      header_parts_line [of "''X''" code] assms(2)
    by (simp add: encode_stream_def consume_next_pty_frame_def handle_pty_header_line_def parse_pty_header_line_def)
  then show ?case by (simp add: drain_pty_stop)
next
  case (Cons p ps)
  let ?tail = "encode_stream (map Out_frame ps) code"
  have split: "encode_stream (map Out_frame (p # ps)) code = header_line ''O'' (length p) @ p @ ?tail"
    by (simp add: encode_stream_def)
  have head: "consume_next_pty_frame \<lparr>pty_buffer = encode_stream (map Out_frame (p # ps)) code, pty_awaiting = 0\<rparr> =
      (\<lparr>pty_buffer = p @ ?tail, pty_awaiting = length p\<rparr>, [], True)"
    using take_pty_header_line_encoded [where tag = "''O''" and n = "length p" and r = "p @ ?tail" and k = 0]
      header_parts_line [of "''O''" "length p"] Cons.prems
    unfolding split
    by (simp add: consume_next_pty_frame_def handle_pty_header_line_def parse_pty_header_line_def
        parse_pty_output_header_def)
  from Cons obtain calls where IH: "drain_pty \<lparr>pty_buffer = ?tail, pty_awaiting = 0\<rparr> =
      (\<lparr>pty_buffer = [], pty_awaiting = 0\<rparr>, calls)" "written calls = concat ps"
      "endings calls = [On_exit (Fin (int code))]"
    by auto
  show ?case
  proof (cases "p = []")
    case True
    then show ?thesis using drain_pty_go [OF head, of _ calls] IH by simp
  next
    case False
    have "consume_next_pty_frame \<lparr>pty_buffer = p @ ?tail, pty_awaiting = length p\<rparr> =
        (\<lparr>pty_buffer = ?tail, pty_awaiting = 0\<rparr>, [Stdout_write p], True)"
      using False by (simp add: consume_next_pty_frame_def consume_pty_payload_def Let_def subarray_def)
    from drain_pty_go [OF head drain_pty_go [OF this IH(1)]] show ?thesis using IH(2,3) by simp
  qed
qed

lemma pty_stream_arrives:
  assumes "concat chunks = encode_stream (map Out_frame ps) code" "[] \<notin> set chunks"
    and "\<forall>p \<in> set ps. length p < 2 ^ 53" "code < 2 ^ 53"
  shows "\<exists>calls. foldl pty_data (create_pty_parser_state, []) chunks = (create_pty_parser_state, calls) \<and>
    written calls = concat ps \<and> endings calls = [On_exit (Fin (int code))]"
proof -
  let ?i = "(create_pty_parser_state, []) :: pty_parser_state \<times> pty_call list"
  obtain calls where calls: "pty_data ?i (concat chunks) = (create_pty_parser_state, calls)"
      "written calls = concat ps" "endings calls = [On_exit (Fin (int code))]"
    using drain_pty_stream [OF assms(3,4)]
    by (auto simp: pty_data_def pty_failed_def ingest_pty_output_def create_pty_parser_state_def assms(1))
  have "pty_view (foldl pty_data ?i chunks) = pty_view (pty_data ?i (concat chunks))"
    using assms(2) calls by (intro pty_stream.chunking) (simp_all add: create_pty_parser_state_def)
  then show ?thesis
    unfolding calls(1) using calls(2,3) by (cases "foldl pty_data ?i chunks") (auto simp: pty_view_def)
qed

end
