(* ===== verification/Exec_Client.thy ===== *)
theory Exec_Client
  imports Exec_Wire "HOL-Library.Sublist"
begin

text \<open>
  \<^verbatim>\<open>packages/runtime/src/exec.ts\<close>, the client side around the frame parsers: the bytes of each
  request, one request on one socket, the connect and run retry loops, and the PTY session.
  Sockets and timers are a list of events; a clock reading is a \<open>nat\<close> of milliseconds. What is
  written to a socket is the list of the \<open>write\<close> calls. Results are bytes; the UTF-8 decoding
  of \<open>toString\<close> is left to the reader of the record.
\<close>

section \<open>Requests\<close>

definition EXEC_LEGACY_MAX_BYTES :: nat where "EXEC_LEGACY_MAX_BYTES = 3500"

definition has_newline :: "string \<Rightarrow> bool" where
  "has_newline s \<longleftrightarrow> nl_char \<in> set s \<or> cr_char \<in> set s"

definition length_prefixed :: "string \<Rightarrow> string \<Rightarrow> bytes list" where
  "length_prefixed op payload = [bytes_of (op @ '' '' @ dec_string (length payload) @ [nl_char]), bytes_of payload]"

text \<open>\<open>runOnSocket\<close>\<close>

definition exec_request :: "string \<Rightarrow> bytes list" where
  "exec_request cmd =
     (if has_newline cmd \<or> EXEC_LEGACY_MAX_BYTES < length cmd then length_prefixed ''EXEC2'' cmd
      else [bytes_of (''EXEC '' @ cmd @ [nl_char])])"

definition reseed_request :: "string \<Rightarrow> bytes list" where
  "reseed_request seed_hex = length_prefixed ''RESEED'' seed_hex"

definition sync_request :: "bytes list" where
  "sync_request = [bytes_of (''SYNC'' @ [nl_char])]"

definition pty_list_request :: "bytes list" where
  "pty_list_request = [bytes_of (''PTYLIST'' @ [nl_char])]"

definition session_char :: "char \<Rightarrow> bool" where
  "session_char c \<longleftrightarrow> is_digit c \<or> (65 \<le> (of_char c :: nat) \<and> (of_char c :: nat) \<le> 90) \<or>
     (97 \<le> (of_char c :: nat) \<and> (of_char c :: nat) \<le> 122) \<or> c \<in> {CHR ''_'', CHR ''.'', CHR ''-''}"

definition validate_pty_session_name :: "string \<Rightarrow> exec_error + unit" where
  "validate_pty_session_name name =
     (if list_all session_char name \<and> 1 \<le> length name \<and> length name \<le> 64 then Inr () else Inl Bad_session_name)"

definition pty_kill_request :: "string \<Rightarrow> exec_error + bytes list" where
  "pty_kill_request name = bind_res (validate_pty_session_name name) (\<lambda>_. Inr (length_prefixed ''PTYKILL'' name))"

text \<open>\<open>parsePtySessionList\<close>: \<open>split\<close>, \<open>filter\<close>, \<open>map\<close> over the rows of the reply.\<close>

definition parse_pty_session_row :: "string \<Rightarrow> exec_error + (string \<times> int)" where
  "parse_pty_session_row line =
     (let parts = split_on (CHR 0x09) line;
          name = hd parts;
          pid = parse_int (if length parts < 2 then [] else parts ! 1)
      in if name = [] then Inl (Bad_session_row line)
         else case pid of Fin n \<Rightarrow> Inr (name, n) | _ \<Rightarrow> Inl (Bad_session_row line))"

definition parse_pty_session_list :: "string \<Rightarrow> exec_error + (string \<times> int) list" where
  "parse_pty_session_list stdout =
     map_res parse_pty_session_row (filter (\<lambda>line. 0 < length line) (split_on nl_char stdout))"

section \<open>One request on one socket\<close>

record exec_result =
  res_exit :: jsnum
  res_stdout :: bytes
  res_stderr :: bytes

record request =
  req_parser :: exec_state
  req_settled :: "(exec_error + exec_result) option"
  req_timer :: bool
  req_destroyed :: bool

datatype socket_event = Data bytes | Sock_error "string option" string | Sock_close | Timer_fires

datatype timeout_opt = Unset | Disabled | Millis nat

definition exec_deadline :: "timeout_opt \<Rightarrow> nat option" where
  "exec_deadline opt = (case opt of Unset \<Rightarrow> Some (5 * 60 * 1000) | Disabled \<Rightarrow> None | Millis n \<Rightarrow> Some n)"

definition start_request :: "bool \<Rightarrow> bool \<Rightarrow> timeout_opt \<Rightarrow> request" where
  "start_request tee_out tee_err opt =
     \<lparr>req_parser = initial_exec_state tee_out tee_err, req_settled = None,
      req_timer = (exec_deadline opt \<noteq> None), req_destroyed = False\<rparr>"

text \<open>\<open>done\<close> and \<open>fail\<close> of the promise: only the first call counts.\<close>

definition settle :: "exec_error + exec_result \<Rightarrow> request \<Rightarrow> request" where
  "settle x r = (case req_settled r of None \<Rightarrow> r\<lparr>req_settled := Some x\<rparr> | Some _ \<Rightarrow> r)"

definition finish_request :: "request \<Rightarrow> request" where
  "finish_request r =
     (let r1 = r\<lparr>req_timer := False\<rparr>; p = req_parser r
      in case exit_code p of
           None \<Rightarrow> settle (Inl (Agent_unavailable ''VsockExec.run: agent closed connection before X frame'')) r1
         | Some code \<Rightarrow> settle (Inr \<lparr>res_exit = code, res_stdout = concat (stdout_bufs p),
                                   res_stderr = concat (stderr_bufs p)\<rparr>) r1)"

fun request_event :: "request \<Rightarrow> socket_event \<Rightarrow> request" where
  "request_event r (Data d) =
     (if req_destroyed r then r
      else case feed_exec (req_parser r) d of
             (p, None) \<Rightarrow> r\<lparr>req_parser := p\<rparr>
           | (p, Some e) \<Rightarrow> (settle (Inl e) (r\<lparr>req_parser := p\<rparr>))\<lparr>req_destroyed := True\<rparr>)"
| "request_event r (Sock_error code msg) = settle (Inl (Socket_error code msg)) (r\<lparr>req_timer := False\<rparr>)"
| "request_event r Sock_close = finish_request r"
| "request_event r Timer_fires =
     (if req_timer r then (settle (Inl Agent_timeout) r)\<lparr>req_timer := False, req_destroyed := True\<rparr> else r)"

definition run_request :: "request \<Rightarrow> socket_event list \<Rightarrow> request" where
  "run_request r evs = foldl request_event r evs"

lemma settle_keeps: "req_settled r = Some x \<Longrightarrow> settle y r = r"
  by (simp add: settle_def)

lemma request_event_settled: "req_settled r = Some x \<Longrightarrow> req_settled (request_event r ev) = Some x"
  by (cases ev) (auto simp: settle_def finish_request_def Let_def split: option.splits prod.splits)

lemma run_request_settled: "req_settled r = Some x \<Longrightarrow> req_settled (run_request r evs) = Some x"
  unfolding run_request_def by (induction evs arbitrary: r) (simp_all add: request_event_settled)

text \<open>The close of the socket always settles a request, for good; so does its deadline.\<close>

lemma finish_request_settled: "req_settled (finish_request r) \<noteq> None"
  by (simp add: finish_request_def settle_def Let_def split: option.split)

lemma run_request_close:
  "req_settled (run_request r (evs @ [Sock_close])) \<noteq> None \<and>
   req_settled (run_request r (evs @ Sock_close # late)) = req_settled (run_request r (evs @ [Sock_close]))"
proof -
  let ?r = "finish_request (run_request r evs)"
  obtain x where x: "req_settled ?r = Some x" using finish_request_settled by blast
  have "run_request r (evs @ [Sock_close]) = ?r" "run_request r (evs @ Sock_close # late) = run_request ?r late"
    by (simp_all add: run_request_def)
  then show ?thesis using x run_request_settled [OF x] by simp
qed

lemma timer_kept: "req_timer r \<Longrightarrow> req_timer (run_request r (map Data ds))"
proof (induction ds arbitrary: r)
  case Nil
  then show ?case by (simp add: run_request_def)
next
  case (Cons d ds)
  then have "req_timer (request_event r (Data d))"
    by (auto simp: settle_def split: prod.split option.split)
  then show ?case using Cons.IH by (simp add: run_request_def)
qed

lemma run_request_deadline:
  assumes "exec_deadline opt \<noteq> None"
  shows "req_settled (run_request (start_request a b opt) (map Data ds @ [Timer_fires])) \<noteq> None"
proof -
  let ?r = "run_request (start_request a b opt) (map Data ds)"
  have "req_timer ?r" using assms by (intro timer_kept) (simp add: start_request_def)
  then have "req_settled (request_event ?r Timer_fires) \<noteq> None" by (simp add: settle_def split: option.split)
  then show ?thesis by (simp add: run_request_def)
qed

lemma run_request_data:
  assumes "foldl exec_data (req_parser r, None) chunks = (t, None)" "\<not> req_destroyed r"
  shows "run_request r (map Data chunks) = r\<lparr>req_parser := t\<rparr>"
  using assms
proof (induction chunks arbitrary: r)
  case Nil
  then show ?case by (simp add: run_request_def)
next
  case (Cons c cs)
  obtain p e where p: "feed_exec (req_parser r) c = (p, e)" by (cases "feed_exec (req_parser r) c")
  have stuck: "foldl exec_data (q, Some x) ds = (q, Some x)" for q x ds
    by (induction ds) simp_all
  have e: "e = None" using Cons.prems(1) p stuck by (cases e) simp_all
  have "run_request (r\<lparr>req_parser := p\<rparr>) (map Data cs) = (r\<lparr>req_parser := p\<rparr>)\<lparr>req_parser := t\<rparr>"
    using Cons.prems p e by (intro Cons.IH) simp_all
  then show ?case using p e Cons.prems(2) by (simp add: run_request_def)
qed

lemma run_request_arrives:
  assumes "concat chunks = encode_stream fs code" "[] \<notin> set chunks"
    and "\<forall>f \<in> set fs. length (frame_bytes f) < 2 ^ 53" "code < 2 ^ 53"
  shows "req_settled (run_request (start_request False False opt) (map Data chunks @ [Sock_close])) =
    Some (Inr \<lparr>res_exit = Fin (int code), res_stdout = concat (map out_payload fs),
               res_stderr = concat (map err_payload fs)\<rparr>)"
proof -
  from exec_stream_arrives [OF assms, of False False] obtain t where
    t: "foldl exec_data (initial_exec_state False False, None) chunks = (t, None)"
      "exit_code t = Some (Fin (int code))" "concat (stdout_bufs t) = concat (map out_payload fs)"
      "concat (stderr_bufs t) = concat (map err_payload fs)"
    by auto
  have "run_request (start_request False False opt) (map Data chunks) = (start_request False False opt)\<lparr>req_parser := t\<rparr>"
    using t(1) by (intro run_request_data) (simp_all add: start_request_def)
  then show ?thesis
    using t(2-4) by (simp add: run_request_def finish_request_def settle_def start_request_def)
qed

section \<open>Retries\<close>

text \<open>What the world answers, in the order the loops ask: a connect attempt or a request on a
  connected socket, each with the milliseconds it took (the request's include the closing of
  the socket).\<close>

datatype 'r attempt =
    Connected nat
  | Refused string nat
  | Answered 'r nat
  | Broken exec_error nat

text \<open>\<open>/agent closed connection before X frame/.test(err.message)\<close> on the errors of a request.\<close>

fun is_transient_agent_error :: "exec_error \<Rightarrow> bool" where
  "is_transient_agent_error (Socket_error code msg) \<longleftrightarrow>
     code = Some ''EPIPE'' \<or> code = Some ''ECONNRESET'' \<or>
     sublist ''agent closed connection before X frame'' msg"
| "is_transient_agent_error (Agent_unavailable msg) \<longleftrightarrow> sublist ''agent closed connection before X frame'' msg"
| "is_transient_agent_error _ \<longleftrightarrow> False"

definition connect_retry_message :: "string option \<Rightarrow> string" where
  "connect_retry_message last_err = (case last_err of None \<Rightarrow> ''no error'' | Some m \<Rightarrow> m)"

definition connect_retry_error :: "string \<Rightarrow> nat \<Rightarrow> string option \<Rightarrow> exec_error" where
  "connect_retry_error uds total_ms last_err =
     Agent_unavailable (''VsockExec: could not reach '' @ uds @ '' within '' @ dec_string total_ms @ ''ms: '' @
       connect_retry_message last_err)"

text \<open>\<open>connectWithRetry\<close>: \<open>None\<close> while the world has not answered the next attempt, else the
  thrown error or the time at which the socket was there and the attempts left.\<close>

fun connect_with_retry ::
  "string \<Rightarrow> nat \<Rightarrow> nat \<Rightarrow> nat \<Rightarrow> nat \<Rightarrow> string option \<Rightarrow> 'r attempt list \<Rightarrow> (exec_error + (nat \<times> 'r attempt list)) option"
where
  "connect_with_retry uds total_ms deadline retry_ms now last_err (Connected d # es) =
     (if now < deadline then Some (Inr (now + d, es)) else Some (Inl (connect_retry_error uds total_ms last_err)))"
| "connect_with_retry uds total_ms deadline retry_ms now last_err (Refused m d # es) =
     (if now < deadline then connect_with_retry uds total_ms deadline retry_ms (now + d + retry_ms) (Some m) es
      else Some (Inl (connect_retry_error uds total_ms last_err)))"
| "connect_with_retry uds total_ms deadline retry_ms now last_err es =
     (if now < deadline then None else Some (Inl (connect_retry_error uds total_ms last_err)))"

fun transient_message :: "exec_error \<Rightarrow> string" where
  "transient_message (Socket_error code msg) = msg"
| "transient_message (Agent_unavailable msg) = msg"
| "transient_message _ = ''no error''"

definition run_retry_error :: "string \<Rightarrow> nat \<Rightarrow> string option \<Rightarrow> exec_error" where
  "run_retry_error label total_ms last_err =
     Agent_unavailable (''VsockExec.'' @ label @ '': agent did not respond within '' @ dec_string total_ms @ ''ms: '' @
       connect_retry_message last_err)"

lemma connect_with_retry_shorter:
  "connect_with_retry uds total_ms deadline retry_ms now last_err es = Some (Inr (t, es')) \<Longrightarrow> length es' < length es"
  by (induction uds total_ms deadline retry_ms now last_err es rule: connect_with_retry.induct)
     (auto split: if_splits)

text \<open>\<open>runWithRetry\<close>\<close>

function run_with_retry ::
  "string \<Rightarrow> string \<Rightarrow> nat \<Rightarrow> nat \<Rightarrow> nat \<Rightarrow> nat \<Rightarrow> string option \<Rightarrow> 'r attempt list \<Rightarrow> (exec_error + 'r) option"
where
  "run_with_retry uds label total_ms deadline retry_ms now last_err es =
     (if now < deadline then
        (case connect_with_retry uds (deadline - now) deadline retry_ms now None es of
           None \<Rightarrow> None
         | Some (Inl e) \<Rightarrow> Some (Inl e)
         | Some (Inr (t, Answered r d # es')) \<Rightarrow> Some (Inr r)
         | Some (Inr (t, Broken e d # es')) \<Rightarrow>
             if is_transient_agent_error e
             then run_with_retry uds label total_ms deadline retry_ms (t + d + retry_ms) (Some (transient_message e)) es'
             else Some (Inl e)
         | Some (Inr (t, es')) \<Rightarrow> None)
      else Some (Inl (run_retry_error label total_ms last_err)))"
  by pat_completeness auto
termination
  by (relation "measure (\<lambda>(uds, label, total_ms, deadline, retry_ms, now, last_err, es). length es)")
     (auto dest!: connect_with_retry_shorter)

declare run_with_retry.simps [simp del]

definition vsock_exec_run :: "string \<Rightarrow> string \<Rightarrow> nat option \<Rightarrow> nat option \<Rightarrow> nat \<Rightarrow> 'r attempt list \<Rightarrow> (exec_error + 'r) option" where
  "vsock_exec_run uds label connect_timeout_ms retry_opt now es =
     (let total_ms = (case connect_timeout_ms of None \<Rightarrow> 30000 | Some n \<Rightarrow> n);
          retry_ms = (case retry_opt of None \<Rightarrow> 250 | Some n \<Rightarrow> n)
      in run_with_retry uds label total_ms (now + total_ms) retry_ms now None es)"

text \<open>An attempt that the loops may repeat.\<close>

fun repeated :: "'r attempt \<Rightarrow> bool" where
  "repeated (Broken e d) = is_transient_agent_error e"
| "repeated (Answered r d) = False"
| "repeated _ = True"

lemma connect_with_retry_consumed:
  "connect_with_retry uds total_ms deadline retry_ms now last_err es = Some (Inr (t, es')) \<Longrightarrow>
   \<exists>pre d. es = pre @ Connected d # es' \<and> (\<forall>a \<in> set pre. \<exists>m k. a = Refused m k) \<and> now \<le> t"
proof (induction uds total_ms deadline retry_ms now last_err es rule: connect_with_retry.induct)
  case (1 uds total_ms deadline retry_ms now last_err d es)
  then show ?case by (auto split: if_splits)
next
  case (2 uds total_ms deadline retry_ms now last_err m d es)
  then obtain pre k where "es = pre @ Connected k # es'" "\<forall>a \<in> set pre. \<exists>m k. a = Refused m k"
      "now + d + retry_ms \<le> t"
    by (auto split: if_splits)
  then show ?case by (intro exI [of _ "Refused m d # pre"] exI [of _ k]) auto
qed (auto split: if_splits)

text \<open>A result is the answer of the one attempt that was not repeated, and every attempt before
  it failed in a way that a restart of the agent explains.\<close>

lemma run_with_retry_answer:
  "run_with_retry uds label total_ms deadline retry_ms now last_err es = Some (Inr r) \<Longrightarrow>
   \<exists>pre d post. es = pre @ Answered r d # post \<and> (\<forall>a \<in> set pre. repeated a)"
proof (induction uds label total_ms deadline retry_ms now last_err es rule: run_with_retry.induct)
  case (1 uds label total_ms deadline retry_ms now last_err es)
  from "1.prems" have now: "now < deadline" by (subst (asm) run_with_retry.simps) (simp split: if_splits)
  obtain t es1 where con: "connect_with_retry uds (deadline - now) deadline retry_ms now None es = Some (Inr (t, es1))"
    using "1.prems" now by (subst (asm) run_with_retry.simps) (auto split: option.splits sum.splits)
  from connect_with_retry_consumed [OF con] obtain pre d where
    pre: "es = pre @ Connected d # es1" "\<forall>a \<in> set pre. \<exists>m k. a = Refused m k" by blast
  have quiet: "\<forall>a \<in> set (pre @ [Connected d]). repeated a" using pre(2) by auto
  consider (answer) k es2 where "es1 = Answered r k # es2"
    | (again) e k es2 where "es1 = Broken e k # es2" "is_transient_agent_error e"
      "run_with_retry uds label total_ms deadline retry_ms (t + k + retry_ms) (Some (transient_message e)) es2 = Some (Inr r)"
    using "1.prems" now con
    by (subst (asm) run_with_retry.simps) (auto split: list.splits attempt.splits if_splits)
  then show ?case
  proof cases
    case answer
    then show ?thesis using pre(1) quiet by (intro exI [of _ "pre @ [Connected d]"] exI [of _ k] exI [of _ es2]) auto
  next
    case again
    have "\<exists>pre d post. es2 = pre @ Answered r d # post \<and> (\<forall>a \<in> set pre. repeated a)"
      using "1.IH" [OF now con] again by simp
    then obtain pre2 k2 post where "es2 = pre2 @ Answered r k2 # post" "\<forall>a \<in> set pre2. repeated a" by blast
    then show ?thesis
      using pre(1) quiet again
      by (intro exI [of _ "(pre @ [Connected d]) @ Broken e k # pre2"] exI [of _ k2] exI [of _ post]) auto
  qed
qed

fun refusals :: "(string \<times> nat) list \<Rightarrow> 'r attempt list" where
  "refusals [] = []"
| "refusals ((m, d) # ds) = Refused m d # refusals ds"

text \<open>When nothing listens, the loop ends once the attempts have used up the time.\<close>

lemma connect_with_retry_gives_up:
  assumes "deadline \<le> now + length ds * retry_ms"
  shows "\<exists>e. connect_with_retry uds total_ms deadline retry_ms now last_err (refusals ds) = Some (Inl e)"
  using assms
proof (induction ds arbitrary: now last_err)
  case (Cons x ds)
  obtain m d where x: "x = (m, d)" by (cases x)
  have "deadline \<le> now + d + retry_ms + length ds * retry_ms" using Cons.prems by simp
  then show ?case using Cons.IH [of "now + d + retry_ms" "Some m"] by (simp add: x)
qed simp

lemma run_with_retry_gives_up:
  assumes "deadline \<le> now + length ds * retry_ms"
  shows "\<exists>e. run_with_retry uds label total_ms deadline retry_ms now last_err (refusals ds :: 'r attempt list) = Some (Inl e)"
proof (cases "now < deadline")
  case True
  obtain e where "connect_with_retry uds (deadline - now) deadline retry_ms now None (refusals ds :: 'r attempt list) = Some (Inl e)"
    using connect_with_retry_gives_up [OF assms] by blast
  then show ?thesis using True by (subst run_with_retry.simps) simp
next
  case False
  then show ?thesis by (subst run_with_retry.simps) simp
qed

section \<open>PTY sessions\<close>

datatype session_name = Default_session | One_shot | Named string

record pty_options =
  cols :: nat
  rows :: nat
  session :: session_name

definition DEFAULT_PTY_SESSION_NAME :: string where "DEFAULT_PTY_SESSION_NAME = ''default''"

abbreviation num_field :: "nat \<Rightarrow> string" where "num_field n \<equiv> '' '' @ dec_string n"

text \<open>\<open>writePtyStartFrame\<close>: the name is checked before anything is written.\<close>

definition write_pty_start_frame :: "string \<Rightarrow> pty_options \<Rightarrow> exec_error + bytes list" where
  "write_pty_start_frame cmd opts =
     (let tail = (if 0 < length cmd then [bytes_of cmd] else [])
      in if session opts = One_shot
         then Inr (bytes_of (''PTY'' @ num_field (cols opts) @ num_field (rows opts) @ num_field (length cmd) @ [nl_char]) # tail)
         else
           let name = (case session opts of Named n \<Rightarrow> n | _ \<Rightarrow> DEFAULT_PTY_SESSION_NAME)
           in bind_res (validate_pty_session_name name) (\<lambda>_.
                Inr (bytes_of (''PTYSESSION'' @ num_field (cols opts) @ num_field (rows opts) @
                      num_field (length name) @ num_field (length cmd) @ [nl_char]) # bytes_of name # tail)))"

datatype pty_socket = No_socket | Open_socket | Destroyed_socket

record pty_session =
  pty_sock :: pty_socket
  pty_exit_code :: "jsnum option"
  pty_settled :: "(exec_error + jsnum) option"
  pty_parser :: pty_parser_state
  pty_listening :: bool \<comment> \<open>the socket's and stdin's handlers are attached\<close>
  pty_sent :: "bytes list"
  pty_shown :: bytes

definition start_pty :: pty_session where
  "start_pty = \<lparr>pty_sock = No_socket, pty_exit_code = None, pty_settled = None, pty_parser = create_pty_parser_state,
     pty_listening = False, pty_sent = [], pty_shown = []\<rparr>"

definition reject_pty :: "exec_error \<Rightarrow> pty_session \<Rightarrow> pty_session" where
  "reject_pty e s =
     (case pty_settled s of
        Some _ \<Rightarrow> s
      | None \<Rightarrow> s\<lparr>pty_settled := Some (Inl e),
                 pty_sock := (if pty_sock s = Open_socket then Destroyed_socket else pty_sock s)\<rparr>)"

definition resolve_pty :: "pty_session \<Rightarrow> pty_session" where
  "resolve_pty s =
     (case pty_settled s of
        Some _ \<Rightarrow> s
      | None \<Rightarrow> s\<lparr>pty_settled := Some (case pty_exit_code s of
                  None \<Rightarrow> Inl (Agent_unavailable ''VsockExec.startPty: agent closed before X frame'')
                | Some code \<Rightarrow> Inr code)\<rparr>)"

fun pty_handler :: "pty_session \<Rightarrow> pty_call \<Rightarrow> pty_session" where
  "pty_handler s (Stdout_write b) = s\<lparr>pty_shown := pty_shown s @ b\<rparr>"
| "pty_handler s (On_exit code) = s\<lparr>pty_exit_code := Some code\<rparr>"
| "pty_handler s (On_error e) = reject_pty e s"

definition on_socket_data :: "bytes \<Rightarrow> pty_session \<Rightarrow> pty_session" where
  "on_socket_data d s =
     (let (p, calls) = ingest_pty_output (pty_parser s) d in foldl pty_handler (s\<lparr>pty_parser := p\<rparr>) calls)"

definition input_frame :: "bytes \<Rightarrow> bytes list" where
  "input_frame b = [bytes_of (''I '' @ dec_string (length b) @ [nl_char]), b]"

definition on_stdin_data :: "bytes \<Rightarrow> pty_session \<Rightarrow> pty_session" where
  "on_stdin_data b s =
     (if pty_sock s \<noteq> Open_socket \<or> b = [] then s else s\<lparr>pty_sent := pty_sent s @ input_frame b\<rparr>)"

definition resize_frame :: "nat \<Rightarrow> nat \<Rightarrow> bytes list" where
  "resize_frame c r = [bytes_of (''R'' @ num_field c @ num_field r @ [nl_char])]"

definition resize_pty :: "nat \<Rightarrow> nat \<Rightarrow> pty_session \<Rightarrow> pty_session" where
  "resize_pty c r s = (if pty_sock s \<noteq> Open_socket then s else s\<lparr>pty_sent := pty_sent s @ resize_frame c r\<rparr>)"

definition cancel_pty :: "pty_session \<Rightarrow> pty_session" where
  "cancel_pty s = (if pty_sock s = Open_socket then s\<lparr>pty_sock := Destroyed_socket\<rparr> else s)"

text \<open>The body of the \<open>async\<close> block once the connect attempt has come back.\<close>

definition connected_pty :: "string \<Rightarrow> pty_options \<Rightarrow> pty_session \<Rightarrow> pty_session" where
  "connected_pty cmd opts s =
     (let s1 = s\<lparr>pty_sock := Open_socket\<rparr>
      in case write_pty_start_frame cmd opts of
           Inl e \<Rightarrow> reject_pty e s1
         | Inr ws \<Rightarrow> s1\<lparr>pty_sent := pty_sent s1 @ ws, pty_listening := True\<rparr>)"

datatype pty_event =
    Pty_connected
  | Pty_connect_failed exec_error
  | Pty_socket_data bytes
  | Pty_socket_error exec_error
  | Pty_socket_close
  | Pty_stdin bytes
  | Pty_resize nat nat
  | Pty_cancel

text \<open>Handlers run only while they are attached; a destroyed socket delivers no data.\<close>

fun pty_step :: "string \<Rightarrow> pty_options \<Rightarrow> pty_session \<Rightarrow> pty_event \<Rightarrow> pty_session" where
  "pty_step cmd opts s Pty_connected = (if pty_sock s = No_socket \<and> pty_settled s = None then connected_pty cmd opts s else s)"
| "pty_step cmd opts s (Pty_connect_failed e) = (if pty_sock s = No_socket then reject_pty e s else s)"
| "pty_step cmd opts s (Pty_socket_data d) = (if pty_listening s \<and> pty_sock s = Open_socket then on_socket_data d s else s)"
| "pty_step cmd opts s (Pty_socket_error e) = (if pty_listening s then reject_pty e s else s)"
| "pty_step cmd opts s Pty_socket_close =
     (if pty_listening s then resolve_pty (s\<lparr>pty_sock := Destroyed_socket, pty_listening := False\<rparr>) else s)"
| "pty_step cmd opts s (Pty_stdin b) = (if pty_listening s then on_stdin_data b s else s)"
| "pty_step cmd opts s (Pty_resize c r) = resize_pty c r s"
| "pty_step cmd opts s Pty_cancel = cancel_pty s"

definition run_pty :: "string \<Rightarrow> pty_options \<Rightarrow> pty_session \<Rightarrow> pty_event list \<Rightarrow> pty_session" where
  "run_pty cmd opts s evs = foldl (pty_step cmd opts) s evs"

lemma reject_settled: "pty_settled s = Some x \<Longrightarrow> reject_pty e s = s"
  by (simp add: reject_pty_def)

lemma handler_settled: "pty_settled s = Some x \<Longrightarrow> pty_settled (foldl pty_handler s calls) = Some x"
proof (induction calls arbitrary: s)
  case (Cons c cs)
  then show ?case by (cases c) (simp_all add: reject_settled)
qed simp

lemma pty_step_settled: "pty_settled s = Some x \<Longrightarrow> pty_settled (pty_step cmd opts s ev) = Some x"
  by (cases ev) (auto simp: reject_settled resolve_pty_def on_socket_data_def on_stdin_data_def resize_pty_def
      cancel_pty_def handler_settled split: prod.split)

lemma run_pty_settled: "pty_settled s = Some x \<Longrightarrow> pty_settled (run_pty cmd opts s evs) = Some x"
  unfolding run_pty_def by (induction evs arbitrary: s) (simp_all add: pty_step_settled)

text \<open>Nothing is written to the socket after it is destroyed or the session is settled.\<close>

lemma handler_sent [simp]: "pty_sent (foldl pty_handler s calls) = pty_sent s"
proof (induction calls arbitrary: s)
  case (Cons c cs)
  then show ?case by (cases c) (simp_all add: reject_pty_def split: option.split)
qed simp

section \<open>The agent's side of the wire\<close>

text \<open>
  What the documented protocol makes of the bytes, as a specification: the guest reads a line of
  less than 4096 bytes (256 for the frames of a PTY connection), then as many bytes as the
  line announces (at most 1 MiB of command, 64 KiB of input). Numbers are plain digits.
\<close>

definition read_line :: "nat \<Rightarrow> bytes \<Rightarrow> (string \<times> bytes) option" where
  "read_line cap b =
     (case index_of 10 b of
        None \<Rightarrow> None
      | Some nl \<Rightarrow> if cap \<le> nl then None else Some (text_of (take nl b), drop (Suc nl) b))"

definition read_exact :: "nat \<Rightarrow> string \<Rightarrow> bytes \<Rightarrow> (bytes \<times> bytes) option" where
  "read_exact cap digits b =
     (if all_digits digits \<and> dec_value digits \<le> cap \<and> dec_value digits \<le> length b
      then Some (take (dec_value digits) b, drop (dec_value digits) b) else None)"

definition agent_command :: "bytes \<Rightarrow> bytes option" where
  "agent_command b =
     (case read_line 4096 b of
        None \<Rightarrow> None
      | Some (line, r) \<Rightarrow>
          if starts_with line ''EXEC2 '' then map_option fst (read_exact 1048576 (drop 6 line) r)
          else if starts_with line ''EXEC '' then Some (bytes_of (drop 5 line))
          else None)"

datatype pty_input = Input bytes | Resize nat nat

fun encode_input :: "pty_input \<Rightarrow> bytes" where
  "encode_input (Input b) = concat (input_frame b)"
| "encode_input (Resize c r) = concat (resize_frame c r)"

definition agent_input :: "bytes \<Rightarrow> (pty_input \<times> bytes) option" where
  "agent_input b =
     (case read_line 256 b of
        None \<Rightarrow> None
      | Some (line, r) \<Rightarrow>
          if starts_with line ''I '' then map_option (\<lambda>(d, r'). (Input d, r')) (read_exact 65536 (drop 2 line) r)
          else if starts_with line ''R '' then
            (case split_on (CHR '' '') (drop 2 line) of
               [c, w] \<Rightarrow> if all_digits c \<and> all_digits w then Some (Resize (dec_value c) (dec_value w), r) else None
             | _ \<Rightarrow> None)
          else None)"

lemma agent_input_progress: "agent_input b = Some (i, r) \<Longrightarrow> length r < length b"
  by (auto simp: agent_input_def read_line_def read_exact_def dest!: index_of_SomeD
      split: option.splits if_splits list.splits)

function agent_inputs :: "bytes \<Rightarrow> pty_input list" where
  "agent_inputs b = (case agent_input b of None \<Rightarrow> [] | Some (i, r) \<Rightarrow> i # agent_inputs r)"
  by pat_completeness auto
termination
  by (relation "measure length") (auto dest: agent_input_progress)

declare agent_inputs.simps [simp del]

lemma read_line_text:
  assumes "nl_char \<notin> set line" "length line < cap"
  shows "read_line cap (bytes_of (line @ [nl_char]) @ r) = Some (line, r)"
  unfolding read_line_def line_head(1) [OF assms(1)] option.case line_head(2,3) [OF assms(1)]
  using assms(2) by simp

lemma read_exact_dec: "length p \<le> cap \<Longrightarrow> read_exact cap (dec_string (length p)) (p @ r) = Some (p, r)"
  by (simp add: read_exact_def)

lemma dec_string_length: "n < 10 ^ k \<Longrightarrow> 0 < k \<Longrightarrow> length (dec_string n) \<le> k"
proof (induction n arbitrary: k rule: dec_string.induct)
  case (1 n)
  show ?case
  proof (cases "n < 10")
    case True
    then show ?thesis using "1.prems" by (simp add: dec_string.simps [of n])
  next
    case False
    then obtain j where j: "k = Suc j" "0 < j" using "1.prems" by (cases k; cases "k - 1") auto
    have "n div 10 < 10 ^ j" using "1.prems"(1) j(1) by (simp add: less_mult_imp_div_less mult.commute)
    then have "length (dec_string (n div 10)) \<le> j" using "1.IH" [OF False] j(2) by blast
    then show ?thesis using False j(1) by (simp add: dec_string.simps [of n])
  qed
qed

lemma agent_command_request:
  assumes "length cmd \<le> 1048576"
  shows "agent_command (concat (exec_request cmd)) = Some (bytes_of cmd)"
proof (cases "has_newline cmd \<or> EXEC_LEGACY_MAX_BYTES < length cmd")
  case True
  have len: "length (dec_string (length cmd)) \<le> 7" using assms by (intro dec_string_length) simp_all
  have "read_line 4096 (bytes_of ((''EXEC2 '' @ dec_string (length cmd)) @ [nl_char]) @ bytes_of cmd) =
      Some (''EXEC2 '' @ dec_string (length cmd), bytes_of cmd)"
    using len by (intro read_line_text) simp_all
  then show ?thesis
    using True assms read_exact_dec [of "bytes_of cmd" 1048576 "[]"]
    by (simp add: agent_command_def exec_request_def length_prefixed_def starts_with_def)
next
  case False
  have "read_line 4096 (bytes_of ((''EXEC '' @ cmd) @ [nl_char]) @ []) = Some (''EXEC '' @ cmd, [])"
    using False by (intro read_line_text) (simp_all add: has_newline_def EXEC_LEGACY_MAX_BYTES_def)
  then show ?thesis
    using False by (simp add: agent_command_def exec_request_def starts_with_def)
qed

lemma agent_input_encoded:
  assumes "case i of Input b \<Rightarrow> length b \<le> 65536 | Resize c w \<Rightarrow> c < 2 ^ 16 \<and> w < 2 ^ 16"
  shows "agent_input (encode_input i @ r) = Some (i, r)"
proof (cases i)
  case (Input b)
  have b: "length b \<le> 65536" using assms Input by simp
  have len: "length (dec_string (length b)) \<le> 7" using b by (intro dec_string_length) simp_all
  have "read_line 256 (bytes_of ((''I '' @ dec_string (length b)) @ [nl_char]) @ (b @ r)) =
      Some (''I '' @ dec_string (length b), b @ r)"
    using len by (intro read_line_text) simp_all
  then show ?thesis
    using read_exact_dec [OF b] by (simp add: Input agent_input_def input_frame_def starts_with_def)
next
  case (Resize c w)
  have len: "length (dec_string c) \<le> 5" "length (dec_string w) \<le> 5"
    using assms Resize by (auto intro!: dec_string_length)
  let ?l = "''R '' @ dec_string c @ '' '' @ dec_string w"
  have "read_line 256 (bytes_of (?l @ [nl_char]) @ r) = Some (?l, r)"
    using len by (intro read_line_text) simp_all
  moreover have "split_on (CHR '' '') (dec_string c @ '' '' @ dec_string w) = [dec_string c, dec_string w]"
    using split_on_append [of "CHR '' ''" "dec_string c" "dec_string w"] by simp
  ultimately show ?thesis
    by (simp add: Resize agent_input_def resize_frame_def starts_with_def)
qed

definition input_fits :: "pty_input \<Rightarrow> bool" where
  "input_fits i = (case i of Input b \<Rightarrow> length b \<le> 65536 | Resize c w \<Rightarrow> c < 2 ^ 16 \<and> w < 2 ^ 16)"

lemma agent_inputs_encoded:
  "list_all input_fits is \<Longrightarrow> agent_inputs (concat (map encode_input is)) = is"
proof (induction "is")
  case Nil
  then show ?case by (subst agent_inputs.simps) (simp add: agent_input_def read_line_def)
next
  case (Cons i ins)
  then have "agent_input (encode_input i @ concat (map encode_input ins)) = Some (i, concat (map encode_input ins))"
    by (intro agent_input_encoded) (simp add: input_fits_def)
  then show ?case using Cons by (subst agent_inputs.simps) simp
qed

text \<open>What of an event reaches the guest as input.\<close>

fun accepted_input :: "pty_session \<Rightarrow> pty_event \<Rightarrow> pty_input list" where
  "accepted_input s (Pty_stdin b) =
     (if pty_listening s \<and> pty_sock s = Open_socket \<and> b \<noteq> [] then [Input b] else [])"
| "accepted_input s (Pty_resize c r) = (if pty_sock s = Open_socket then [Resize c r] else [])"
| "accepted_input s _ = []"

fun accepted_inputs :: "string \<Rightarrow> pty_options \<Rightarrow> pty_session \<Rightarrow> pty_event list \<Rightarrow> pty_input list" where
  "accepted_inputs cmd opts s [] = []"
| "accepted_inputs cmd opts s (ev # evs) =
     accepted_input s ev @ accepted_inputs cmd opts (pty_step cmd opts s ev) evs"

lemma reject_frame [simp]: "pty_sent (reject_pty e s) = pty_sent s"
  "pty_sock (reject_pty e s) = No_socket \<longleftrightarrow> pty_sock s = No_socket"
  by (simp_all add: reject_pty_def split: option.split)

lemma handler_sock: "pty_sock (foldl pty_handler s calls) = No_socket \<longleftrightarrow> pty_sock s = No_socket"
proof (induction calls arbitrary: s)
  case (Cons c cs)
  then show ?case by (cases c) simp_all
qed simp

lemma pty_step_sent:
  assumes "pty_sock s \<noteq> No_socket"
  shows "concat (pty_sent (pty_step cmd opts s ev)) = concat (pty_sent s) @ concat (map encode_input (accepted_input s ev)) \<and>
    pty_sock (pty_step cmd opts s ev) \<noteq> No_socket"
  using assms
  by (cases ev) (auto simp: resolve_pty_def on_socket_data_def on_stdin_data_def resize_pty_def cancel_pty_def
      handler_sock split: prod.split option.split)

lemma run_pty_sent:
  assumes "pty_sock s \<noteq> No_socket"
  shows "concat (pty_sent (run_pty cmd opts s evs)) =
    concat (pty_sent s) @ concat (map encode_input (accepted_inputs cmd opts s evs))"
  using assms
proof (induction evs arbitrary: s)
  case Nil
  then show ?case by (simp add: run_pty_def)
next
  case (Cons ev evs)
  then show ?case using pty_step_sent [OF Cons.prems, of cmd opts ev] by (simp add: run_pty_def)
qed

lemma start_pty_sent:
  assumes "write_pty_start_frame cmd opts = Inr ws"
    and "list_all input_fits (accepted_inputs cmd opts (connected_pty cmd opts start_pty) evs)"
  shows "\<exists>input. concat (pty_sent (run_pty cmd opts start_pty (Pty_connected # evs))) = concat ws @ input \<and>
    agent_inputs input = accepted_inputs cmd opts (connected_pty cmd opts start_pty) evs"
proof -
  let ?s = "connected_pty cmd opts start_pty"
  have s: "pty_sock ?s \<noteq> No_socket" "concat (pty_sent ?s) = concat ws"
    by (simp_all add: connected_pty_def assms(1) start_pty_def)
  have "run_pty cmd opts start_pty (Pty_connected # evs) = run_pty cmd opts ?s evs"
    by (simp add: run_pty_def start_pty_def)
  then show ?thesis
    using run_pty_sent [OF s(1), of cmd opts evs] s(2) agent_inputs_encoded [OF assms(2)] by auto
qed

section \<open>A PTY session shows what the agent sends\<close>

fun exit_after :: "jsnum option \<Rightarrow> pty_call list \<Rightarrow> jsnum option" where
  "exit_after e [] = e"
| "exit_after e (On_exit code # cs) = exit_after (Some code) cs"
| "exit_after e (c # cs) = exit_after e cs"

lemma exit_after_append: "exit_after e (cs @ ds) = exit_after (exit_after e cs) ds"
  by (induction e cs rule: exit_after.induct) simp_all

lemma exit_after_endings: "exit_after e calls = exit_after e (endings calls)"
  by (induction e calls rule: exit_after.induct) simp_all

lemma pty_failed_simps [simp]:
  "\<not> pty_failed []" "pty_failed (Stdout_write b # cs) = pty_failed cs" "pty_failed (On_exit x # cs) = pty_failed cs"
  "pty_failed (On_error e # cs)" "pty_failed (cs @ ds) \<longleftrightarrow> pty_failed cs \<or> pty_failed ds"
  by (auto simp: pty_failed_def)

lemma handler_calls:
  "\<not> pty_failed calls \<Longrightarrow> foldl pty_handler s calls =
     s\<lparr>pty_exit_code := exit_after (pty_exit_code s) calls, pty_shown := pty_shown s @ written calls\<rparr>"
proof (induction calls arbitrary: s)
  case (Cons c cs)
  then show ?case by (cases c) simp_all
qed simp

lemma run_pty_data:
  assumes "pty_listening s" "pty_sock s = Open_socket"
    and "foldl pty_data (pty_parser s, cs0) chunks = (p, cs)" "\<not> pty_failed cs"
  shows "\<exists>ds. cs = cs0 @ ds \<and> run_pty cmd opts s (map Pty_socket_data chunks) =
    s\<lparr>pty_exit_code := exit_after (pty_exit_code s) ds, pty_parser := p, pty_shown := pty_shown s @ written ds\<rparr>"
  using assms
proof (induction chunks arbitrary: s cs0)
  case Nil
  then show ?case by (simp add: run_pty_def)
next
  case (Cons c chunks)
  have stuck: "pty_failed (snd q) \<Longrightarrow> foldl pty_data q xs = q" for q xs
    by (induction xs) (simp_all add: pty_data_def)
  obtain q calls where q: "ingest_pty_output (pty_parser s) c = (q, calls)" by (cases "ingest_pty_output (pty_parser s) c")
  have ok0: "\<not> pty_failed cs0"
    using stuck [of "(pty_parser s, cs0)" "c # chunks"] Cons.prems(3,4) by auto
  then have first: "pty_data (pty_parser s, cs0) c = (q, cs0 @ calls)" by (simp add: pty_data_def q)
  have rest: "foldl pty_data (q, cs0 @ calls) chunks = (p, cs)" using Cons.prems(3) first by simp
  have ok: "\<not> pty_failed calls" using stuck [of "(q, cs0 @ calls)" chunks] rest Cons.prems(4) by auto
  let ?s = "s\<lparr>pty_exit_code := exit_after (pty_exit_code s) calls, pty_parser := q, pty_shown := pty_shown s @ written calls\<rparr>"
  have step: "pty_step cmd opts s (Pty_socket_data c) = ?s"
    using Cons.prems(1,2) by (simp add: on_socket_data_def q handler_calls [OF ok])
  have "\<exists>ds. cs = (cs0 @ calls) @ ds \<and> run_pty cmd opts ?s (map Pty_socket_data chunks) =
      ?s\<lparr>pty_exit_code := exit_after (pty_exit_code ?s) ds, pty_parser := p, pty_shown := pty_shown ?s @ written ds\<rparr>"
    using Cons.prems(1,2,4) rest by (intro Cons.IH) simp_all
  then show ?case
    using step by (auto simp: run_pty_def exit_after_append)
qed

lemma pty_session_arrives:
  assumes "write_pty_start_frame cmd opts = Inr ws"
    and "concat chunks = encode_stream (map Out_frame ps) code" "[] \<notin> set chunks"
    and "\<forall>p \<in> set ps. length p < 2 ^ 53" "code < 2 ^ 53"
  shows "pty_settled (run_pty cmd opts start_pty (Pty_connected # map Pty_socket_data chunks @ [Pty_socket_close])) =
      Some (Inr (Fin (int code))) \<and>
    pty_shown (run_pty cmd opts start_pty (Pty_connected # map Pty_socket_data chunks @ [Pty_socket_close])) = concat ps"
proof -
  let ?s = "connected_pty cmd opts start_pty"
  have s: "pty_listening ?s" "pty_sock ?s = Open_socket" "pty_parser ?s = create_pty_parser_state"
    "pty_shown ?s = []" "pty_settled ?s = None" "pty_exit_code ?s = None"
    by (simp_all add: connected_pty_def assms(1) start_pty_def)
  from pty_stream_arrives [OF assms(2-5)] obtain calls where
    calls: "foldl pty_data (pty_parser ?s, []) chunks = (create_pty_parser_state, calls)"
      "written calls = concat ps" "endings calls = [On_exit (Fin (int code))]"
    using s(3) by auto
  have "\<not> pty_failed calls" using pty_failed_endings [of calls] calls(3) by simp
  from run_pty_data [OF s(1,2) calls(1) this, of cmd opts]
  have data: "run_pty cmd opts ?s (map Pty_socket_data chunks) =
      ?s\<lparr>pty_exit_code := Some (Fin (int code)), pty_parser := create_pty_parser_state, pty_shown := concat ps\<rparr>"
    using calls(2,3) s(4,6) exit_after_endings [of None calls] by auto
  have first: "pty_step cmd opts start_pty Pty_connected = ?s" by (simp add: start_pty_def)
  have "run_pty cmd opts start_pty (Pty_connected # map Pty_socket_data chunks @ [Pty_socket_close]) =
      pty_step cmd opts (run_pty cmd opts ?s (map Pty_socket_data chunks)) Pty_socket_close"
    using first by (simp add: run_pty_def)
  then show ?thesis using s by (simp add: data resolve_pty_def)
qed

end
