(* ===== verification/Sandboxes.thy ===== *)
theory Sandboxes
  imports Js_Text "HOL-Library.AList"
begin

text \<open>
  \<^verbatim>\<open>packages/runtime/src/multiplex.ts\<close>, the class \<open>Sandboxes\<close>: the registry of live VMs that one
  terminal multiplexes. A \<open>Map\<close> is an association list in insertion order. Entries and
  subscriber sets are objects that closures keep hold of, so they live in stores and the maps
  hold references: the output handler of a VM keeps its entry after a removal, an unsubscribe
  function keeps its set. A VM is a number; what is written to a VM's stdin is logged.
\<close>

datatype source = Stdout | Stderr

type_synonym vm = nat
datatype listener = Supervisor_listener nat | Other_listener nat

record sandbox_entry =
  entry_id :: string
  entry_vm :: vm
  scrollback :: bytes
  added_at :: nat

record sandboxes =
  items :: "(string \<times> nat) list"
  entries :: "sandbox_entry list"
  subs :: "(string \<times> nat) list"
  sub_sets :: "listener list list"
  scrollback_bytes :: nat
  vm_stdin :: "(vm \<times> bytes) list"

datatype sandbox_error = Id_duplicate string | Id_unknown string

definition new_sandboxes :: "nat option \<Rightarrow> sandboxes" where
  "new_sandboxes n = \<lparr>items = [], entries = [], subs = [], sub_sets = [],
     scrollback_bytes = (case n of None \<Rightarrow> 8 * 1024 | Some k \<Rightarrow> k), vm_stdin = []\<rparr>"

text \<open>\<open>add\<close>: the new entry's reference is what the output handlers of the VM are closed over.\<close>

definition add_sandbox :: "string \<Rightarrow> vm \<Rightarrow> nat \<Rightarrow> sandboxes \<Rightarrow> sandbox_error + (sandboxes \<times> nat)" where
  "add_sandbox i v now s =
     (if map_of (items s) i \<noteq> None then Inl (Id_duplicate i)
      else
        let e = length (entries s)
        in Inr (s\<lparr>entries := entries s @ [\<lparr>entry_id = i, entry_vm = v, scrollback = [], added_at = now\<rparr>],
                  items := items s @ [(i, e)]\<rparr>, e))"

definition remove_sandbox :: "string \<Rightarrow> sandboxes \<Rightarrow> sandboxes" where
  "remove_sandbox i s = s\<lparr>items := AList.delete i (items s), subs := AList.delete i (subs s)\<rparr>"

definition list_sandboxes :: "sandboxes \<Rightarrow> (string \<times> nat) list" where
  "list_sandboxes s = map (\<lambda>(_, e). (entry_id (entries s ! e), added_at (entries s ! e))) (items s)"

definition get_sandbox :: "string \<Rightarrow> sandboxes \<Rightarrow> sandbox_entry option" where
  "get_sandbox i s = map_option (\<lambda>e. entries s ! e) (map_of (items s) i)"

definition send_sandbox :: "string \<Rightarrow> bytes \<Rightarrow> sandboxes \<Rightarrow> sandboxes \<times> bool" where
  "send_sandbox i data s =
     (case get_sandbox i s of
        None \<Rightarrow> (s, False)
      | Some e \<Rightarrow> (s\<lparr>vm_stdin := vm_stdin s @ [(entry_vm e, data)]\<rparr>, True))"

text \<open>\<open>onOutput\<close> returns the reference of the set it added \<open>fn\<close> to: the unsubscribe function.\<close>

definition on_output :: "string \<Rightarrow> listener \<Rightarrow> sandboxes \<Rightarrow> sandboxes \<times> nat" where
  "on_output i fn s =
     (case map_of (subs s) i of
        Some k \<Rightarrow> (s\<lparr>sub_sets := (sub_sets s)[k := (if fn \<in> set (sub_sets s ! k) then sub_sets s ! k
                                                    else sub_sets s ! k @ [fn])]\<rparr>, k)
      | None \<Rightarrow> (s\<lparr>sub_sets := sub_sets s @ [[fn]], subs := subs s @ [(i, length (sub_sets s))]\<rparr>,
                 length (sub_sets s)))"

definition unsubscribe :: "nat \<Rightarrow> listener \<Rightarrow> sandboxes \<Rightarrow> sandboxes" where
  "unsubscribe k fn s = s\<lparr>sub_sets := (sub_sets s)[k := filter (\<lambda>f. f \<noteq> fn) (sub_sets s ! k)]\<rparr>"

definition keep_last :: "nat \<Rightarrow> bytes \<Rightarrow> bytes" where
  "keep_last n b = (if length b \<le> n then b else drop (length b - n) b)"

text \<open>\<open>record\<close>: the listeners called, in order; each gets the chunk.\<close>

definition record_output :: "nat \<Rightarrow> bytes \<Rightarrow> sandboxes \<Rightarrow> sandboxes \<times> listener list" where
  "record_output e chunk s =
     (let en = entries s ! e;
          s1 = s\<lparr>entries := (entries s)[e := en\<lparr>scrollback := keep_last (scrollback_bytes s) (scrollback en @ chunk)\<rparr>]\<rparr>
      in (s1, case map_of (subs s1) (entry_id en) of None \<Rightarrow> [] | Some k \<Rightarrow> sub_sets s1 ! k))"

text \<open>When \<open>vm.wait()\<close> settles, the id that the VM was added under is removed.\<close>

definition vm_exited :: "nat \<Rightarrow> sandboxes \<Rightarrow> sandboxes" where
  "vm_exited e s = remove_sandbox (entry_id (entries s ! e)) s"

section \<open>The registry's invariant\<close>

definition registry_ok :: "sandboxes \<Rightarrow> bool" where
  "registry_ok s \<longleftrightarrow>
     distinct (map fst (items s)) \<and> distinct (map snd (items s)) \<and> distinct (map fst (subs s)) \<and>
     (\<forall>(i, e) \<in> set (items s). e < length (entries s) \<and> entry_id (entries s ! e) = i) \<and>
     (\<forall>(i, k) \<in> set (subs s). k < length (sub_sets s)) \<and>
     (\<forall>en \<in> set (entries s). length (scrollback en) \<le> scrollback_bytes s)"

lemma registry_ok_new: "registry_ok (new_sandboxes n)"
  by (simp add: registry_ok_def new_sandboxes_def)

lemma registry_ok_add:
  assumes "registry_ok s" "add_sandbox i v now s = Inr (s', e)"
  shows "registry_ok s'"
proof -
  have fresh: "i \<notin> fst ` set (items s)"
    using assms(2) by (auto simp: add_sandbox_def map_of_eq_None_iff split: if_splits)
  have bound: "e' < length (entries s)" if "(j, e') \<in> set (items s)" for j e'
    using assms(1) that by (auto simp: registry_ok_def)
  then have "length (entries s) \<notin> snd ` set (items s)" by fastforce
  then show ?thesis
    using assms fresh
    by (auto simp: registry_ok_def add_sandbox_def Let_def nth_append split: if_splits)
       (fastforce dest: bound)+
qed

lemma distinct_fst_delete: "distinct (map fst xs) \<Longrightarrow> distinct (map fst (AList.delete i xs))"
  by (rule distinct_delete)

lemma delete_subset: "set (AList.delete i xs) \<subseteq> set xs"
  by (auto simp: AList.delete_eq)

lemma distinct_snd_delete: "distinct (map snd xs) \<Longrightarrow> distinct (map snd (AList.delete i xs))"
  by (induction xs) (auto simp: AList.delete_eq)

lemma registry_ok_remove: "registry_ok s \<Longrightarrow> registry_ok (remove_sandbox i s)"
  using delete_subset [of i "items s"] delete_subset [of i "subs s"]
  by (auto simp: registry_ok_def remove_sandbox_def distinct_fst_delete distinct_snd_delete)

lemma registry_ok_send: "registry_ok s \<Longrightarrow> registry_ok (fst (send_sandbox i d s))"
  by (auto simp: registry_ok_def send_sandbox_def split: option.split)

lemma registry_ok_subscribe: "registry_ok s \<Longrightarrow> registry_ok (fst (on_output i fn s))"
  by (auto simp: registry_ok_def on_output_def map_of_eq_None_iff less_SucI split: option.split)

lemma registry_ok_unsubscribe: "registry_ok s \<Longrightarrow> registry_ok (unsubscribe k fn s)"
  by (auto simp: registry_ok_def unsubscribe_def)

lemma length_keep_last: "length (keep_last n b) = min n (length b)"
  by (simp add: keep_last_def)

lemma registry_ok_record:
  assumes "registry_ok s" "e < length (entries s)"
  shows "registry_ok (fst (record_output e chunk s))"
proof -
  have "x \<in> set ((entries s)[e := y]) \<Longrightarrow> x = y \<or> x \<in> set (entries s)" for x y
    using set_update_subset_insert [of "entries s" e y] by auto
  then show ?thesis
    using assms by (fastforce simp: registry_ok_def record_output_def Let_def length_keep_last nth_list_update)
qed

section \<open>Scrollback\<close>

lemma keep_last_append: "keep_last n (keep_last n a @ b) = keep_last n (a @ b)"
  by (auto simp: keep_last_def drop_append add.commute)

text \<open>Output of one entry after a sequence of chunks.\<close>

definition record_all :: "nat \<Rightarrow> bytes list \<Rightarrow> sandboxes \<Rightarrow> sandboxes" where
  "record_all e chunks s = foldl (\<lambda>s c. fst (record_output e c s)) s chunks"

lemma record_all_scrollback:
  assumes "e < length (entries s)" "length (scrollback (entries s ! e)) \<le> scrollback_bytes s"
  shows "scrollback (entries (record_all e chunks s) ! e) =
    keep_last (scrollback_bytes s) (scrollback (entries s ! e) @ concat chunks)"
  using assms
proof (induction chunks arbitrary: s)
  case Nil
  then show ?case by (simp add: record_all_def keep_last_def)
next
  case (Cons c cs)
  let ?s = "fst (record_output e c s)"
  have s: "e < length (entries ?s)" "scrollback_bytes ?s = scrollback_bytes s"
    "scrollback (entries ?s ! e) = keep_last (scrollback_bytes s) (scrollback (entries s ! e) @ c)"
    using Cons.prems(1) by (simp_all add: record_output_def Let_def)
  have "scrollback (entries (record_all e cs ?s) ! e) =
      keep_last (scrollback_bytes s) (keep_last (scrollback_bytes s) (scrollback (entries s ! e) @ c) @ concat cs)"
    using Cons.IH [of ?s] s by (simp add: length_keep_last)
  then show ?case by (simp add: record_all_def keep_last_append)
qed

section \<open>Delivery\<close>

text \<open>The contract of \<open>send\<close>: what is sent under an id that is registered arrives, in order, and
  the id stays registered.\<close>

locale byte_sink =
  fixes send :: "'i \<Rightarrow> bytes \<Rightarrow> 's \<Rightarrow> 's"
    and reachable :: "'i \<Rightarrow> 's \<Rightarrow> bool"
    and delivered :: "'i \<Rightarrow> 's \<Rightarrow> bytes"
  assumes send_delivers: "reachable i s \<Longrightarrow> delivered i (send i d s) = delivered i s @ d"
    and send_keeps: "reachable i s \<Longrightarrow> reachable i (send i d s)"
begin

lemma send_all:
  "reachable i s \<Longrightarrow> delivered i (foldl (\<lambda>s d. send i d s) s ds) = delivered i s @ concat ds \<and>
   reachable i (foldl (\<lambda>s d. send i d s) s ds)"
  by (induction ds arbitrary: s) (simp_all add: send_delivers send_keeps)

end

text \<open>What the VM registered under an id has read from its stdin.\<close>

definition stdin_of :: "vm \<Rightarrow> sandboxes \<Rightarrow> bytes" where
  "stdin_of v s = concat (map snd (filter (\<lambda>(w, _). w = v) (vm_stdin s)))"

definition delivered_to :: "string \<Rightarrow> sandboxes \<Rightarrow> bytes" where
  "delivered_to i s = (case get_sandbox i s of None \<Rightarrow> [] | Some e \<Rightarrow> stdin_of (entry_vm e) s)"

lemma get_after_send [simp]: "get_sandbox j (fst (send_sandbox i d s)) = get_sandbox j s"
  by (simp add: send_sandbox_def get_sandbox_def split: option.split)

interpretation registry: byte_sink "\<lambda>i d s. fst (send_sandbox i d s)" "\<lambda>i s. get_sandbox i s \<noteq> None" delivered_to
proof
  show "get_sandbox i s \<noteq> None \<Longrightarrow> delivered_to i (fst (send_sandbox i d s)) = delivered_to i s @ d" for i d s
    by (auto simp: delivered_to_def) (auto simp: send_sandbox_def stdin_of_def)
qed simp

end
