(* ===== verification/Supervisor.thy ===== *)
theory Supervisor
  imports Sandboxes
begin

text \<open>
  \<^verbatim>\<open>packages/runtime/src/multiplex.ts\<close>, the class \<open>Supervisor\<close>: slash commands while detached, a
  pipe to one sandbox while attached, two \<open>Ctrl-]\<close> in a row to come back. The state holds the
  fields of the class and what the code sees of its surroundings: the registry, the input's
  raw mode, the window size, the VMs that have a \<open>resize\<close> method. Every write to the output is
  recorded. A handler that throws returns the error beside the state it leaves.
\<close>

record supervisor =
  registry :: sandboxes
  cmd_prefix :: string
  raw_tty_on_attach :: bool
  forward_resize :: bool
  attached_id :: "string option"
  attached_unsub :: "(nat \<times> listener) option"
  last_gs :: bool
  stopped :: bool
  running :: bool
  prior_raw_state :: "bool option"
  winch_handler :: "vm option"
  raw_capable :: bool \<comment> \<open>\<open>input.isTTY\<close> and \<open>setRawMode\<close> is a function\<close>
  is_raw :: bool
  window :: "nat \<times> nat"
  resizable :: "vm list"
  resizes :: "(vm \<times> nat \<times> nat) list"
  out :: "bytes list"
  next_listener :: nat

definition new_supervisor ::
  "sandboxes \<Rightarrow> string option \<Rightarrow> bool option \<Rightarrow> bool option \<Rightarrow> bool \<Rightarrow> bool \<Rightarrow> bool \<Rightarrow> bool \<Rightarrow> nat \<times> nat \<Rightarrow> vm list \<Rightarrow> supervisor"
where
  "new_supervisor sb pfx raw_opt resize_opt in_tty has_set_raw raw0 out_tty win rs =
     \<lparr>registry = sb, cmd_prefix = (case pfx of None \<Rightarrow> ''/'' | Some p \<Rightarrow> p),
      raw_tty_on_attach = (case raw_opt of None \<Rightarrow> in_tty | Some b \<Rightarrow> b),
      forward_resize = (case resize_opt of None \<Rightarrow> out_tty | Some b \<Rightarrow> b),
      attached_id = None, attached_unsub = None, last_gs = False, stopped = False, running = False,
      prior_raw_state = None, winch_handler = None, raw_capable = (in_tty \<and> has_set_raw), is_raw = raw0,
      window = win, resizable = rs, resizes = [], out = [], next_listener = 0\<rparr>"

definition print :: "string \<Rightarrow> supervisor \<Rightarrow> supervisor" where
  "print msg s = s\<lparr>out := out s @ [bytes_of msg]\<rparr>"

definition nl :: string where "nl = [nl_char]"

text \<open>An em dash is three bytes of UTF-8.\<close>

definition banner_text :: "supervisor \<Rightarrow> string" where
  "banner_text s =
     ''machinen supervisor '' @ [CHR 0xE2, CHR 0x80, CHR 0x94] @ '' commands start with '' @ [CHR 0x27] @ cmd_prefix s @
       [CHR 0x27] @ nl @
     ''  /ls           list sandboxes'' @ nl @
     ''  /attach <id>  forward terminal to/from a sandbox (Ctrl-] Ctrl-] to detach)'' @ nl @
     ''  /quit         stop the supervisor'' @ nl @
     ''  /help         show this message'' @ nl"

text \<open>\<open>if (this.attachedId)\<close>: the empty string is falsy.\<close>

definition is_attached :: "supervisor \<Rightarrow> bool" where
  "is_attached s \<longleftrightarrow> (case attached_id s of None \<Rightarrow> False | Some i \<Rightarrow> i \<noteq> [])"

definition enter_raw_tty :: "supervisor \<Rightarrow> supervisor" where
  "enter_raw_tty s = (if raw_capable s then s\<lparr>prior_raw_state := Some (is_raw s), is_raw := True\<rparr> else s)"

definition leave_raw_tty :: "supervisor \<Rightarrow> supervisor" where
  "leave_raw_tty s =
     (if raw_capable s
      then (case prior_raw_state s of None \<Rightarrow> s | Some r \<Rightarrow> s\<lparr>is_raw := r, prior_raw_state := None\<rparr>)
      else s)"

definition push_size :: "vm \<Rightarrow> supervisor \<Rightarrow> supervisor" where
  "push_size v s = s\<lparr>resizes := resizes s @ [(v, fst (window s), snd (window s))]\<rparr>"

definition install_winch_handler :: "sandbox_entry \<Rightarrow> supervisor \<Rightarrow> supervisor" where
  "install_winch_handler e s =
     (if entry_vm e \<in> set (resizable s) then (push_size (entry_vm e) s)\<lparr>winch_handler := Some (entry_vm e)\<rparr> else s)"

definition remove_winch_handler :: "supervisor \<Rightarrow> supervisor" where
  "remove_winch_handler s = s\<lparr>winch_handler := None\<rparr>"

definition detach :: "supervisor \<Rightarrow> supervisor" where
  "detach s =
     (if \<not> is_attached s then s
      else
        let s1 = (case attached_unsub s of None \<Rightarrow> s | Some (k, fn) \<Rightarrow> s\<lparr>registry := unsubscribe k fn (registry s)\<rparr>);
            prev = the (attached_id s);
            s2 = s1\<lparr>attached_unsub := None, attached_id := None, last_gs := False\<rparr>
        in print (nl @ ''-- detached from '' @ prev @ '' --'' @ nl) (leave_raw_tty (remove_winch_handler s2)))"

text \<open>The terminal handoff at the end of \<open>attach\<close>.\<close>

definition hand_over_terminal :: "sandbox_entry \<Rightarrow> supervisor \<Rightarrow> supervisor" where
  "hand_over_terminal e s =
     (let s1 = (if raw_tty_on_attach s then enter_raw_tty s else s)
      in if forward_resize s1 then install_winch_handler e s1 else s1)"

definition attach :: "string \<Rightarrow> supervisor \<Rightarrow> supervisor \<times> sandbox_error option" where
  "attach i s0 =
     (let s = detach s0
      in case get_sandbox i (registry s) of
           None \<Rightarrow> (s, Some (Id_unknown i))
         | Some e \<Rightarrow>
             let s1 = s\<lparr>attached_id := Some i\<rparr>;
                 s2 = (if 0 < length (scrollback e) then s1\<lparr>out := out s1 @ [scrollback e]\<rparr> else s1);
                 fn = Supervisor_listener (next_listener s2);
                 (sb, k) = on_output i fn (registry s2);
                 s3 = s2\<lparr>registry := sb, attached_unsub := Some (k, fn), next_listener := Suc (next_listener s2)\<rparr>
             in (print (nl @ ''-- attached to '' @ i @ '' (Ctrl-] Ctrl-] to detach) --'' @ nl)
                   (hand_over_terminal e s3), None))"

text \<open>\<open>onEnd\<close>, and \<open>stop\<close> which calls it once \<open>run\<close> has been called.\<close>

definition on_end :: "supervisor \<Rightarrow> supervisor" where
  "on_end s = (detach s)\<lparr>running := False\<rparr>"

definition stop :: "supervisor \<Rightarrow> supervisor" where
  "stop s = (if stopped s then s else on_end (detach (s\<lparr>stopped := True\<rparr>)))"

definition run :: "supervisor \<Rightarrow> supervisor" where
  "run s = (print (banner_text s) s)\<lparr>running := True\<rparr>"

section \<open>Commands\<close>

definition do_ls :: "supervisor \<Rightarrow> supervisor" where
  "do_ls s =
     (let rows = list_sandboxes (registry s)
      in if rows = [] then print (''(no sandboxes registered)'' @ nl) s
         else foldl (\<lambda>s r. print (''  '' @ fst r @ nl) s) s rows)"

definition handle_command :: "string \<Rightarrow> supervisor \<Rightarrow> supervisor \<times> sandbox_error option" where
  "handle_command raw s =
     (let line = trim raw
      in if \<not> starts_with line (cmd_prefix s)
         then (print (''(unknown input; commands start with '' @ [CHR 0x27] @ cmd_prefix s @ [CHR 0x27] @ ''. try /help)'' @ nl) s, None)
         else
           let words = split_spaces (drop (length (cmd_prefix s)) line); cmd = hd words
           in if cmd = ''ls'' then (do_ls s, None)
              else if cmd = ''attach'' then
                (if 2 \<le> length words \<and> words ! 1 \<noteq> [] then attach (words ! 1) s
                 else (print (''usage: /attach <id>'' @ nl) s, None))
              else if cmd = ''help'' then (print (banner_text s) s, None)
              else if cmd = ''quit'' \<or> cmd = ''exit'' then (stop s, None)
              else (print (''unknown command: '' @ cmd @ nl) s, None))"

definition handle_detached_line :: "string \<Rightarrow> supervisor \<Rightarrow> supervisor \<times> sandbox_error option" where
  "handle_detached_line line s = (if line \<noteq> [] then handle_command line s else (s, None))"

fun handle_lines :: "string list \<Rightarrow> supervisor \<Rightarrow> supervisor \<times> sandbox_error option" where
  "handle_lines [] s = (s, None)"
| "handle_lines (l # ls) s =
     (case handle_detached_line l s of
        (s', None) \<Rightarrow> handle_lines ls s'
      | (s', Some e) \<Rightarrow> (s', Some e))"

definition ingest_detached :: "bytes \<Rightarrow> supervisor \<Rightarrow> supervisor \<times> sandbox_error option" where
  "ingest_detached chunk s = handle_lines (split_crlf (text_of chunk)) s"

section \<open>Input\<close>

text \<open>\<open>chunk.subarray(0, b)\<close> where \<open>b\<close> may be negative: it then counts from the end.\<close>

definition js_prefix :: "bytes \<Rightarrow> int \<Rightarrow> bytes" where
  "js_prefix xs b = take (nat (if b < 0 then max 0 (int (length xs) + b) else b)) xs"

text \<open>\<open>markCtrlRightBracket\<close> and the scan of \<open>findDetachSequence\<close> from index \<open>i\<close> on.\<close>

definition mark_ctrl_right_bracket :: "bool \<Rightarrow> bool \<Rightarrow> bool \<times> bool" where
  "mark_ctrl_right_bracket gs is_gs = (if \<not> is_gs then (False, False) else if gs then (gs, True) else (True, False))"

fun scan_detach :: "bool \<Rightarrow> nat \<Rightarrow> bytes \<Rightarrow> bool \<times> nat option" where
  "scan_detach gs i [] = (gs, None)"
| "scan_detach gs i (b # bs) =
     (case mark_ctrl_right_bracket gs (b = 0x1d) of
        (gs', True) \<Rightarrow> (gs', Some i)
      | (gs', False) \<Rightarrow> scan_detach gs' (Suc i) bs)"

definition find_detach_sequence :: "bytes \<Rightarrow> supervisor \<Rightarrow> supervisor \<times> nat option" where
  "find_detach_sequence chunk s = (let (gs, i) = scan_detach (last_gs s) 0 chunk in (s\<lparr>last_gs := gs\<rparr>, i))"

definition send_attached :: "bytes \<Rightarrow> supervisor \<Rightarrow> supervisor" where
  "send_attached chunk s =
     (if is_attached s then s\<lparr>registry := fst (send_sandbox (the (attached_id s)) chunk (registry s))\<rparr> else s)"

lemma scan_detach_bound: "scan_detach gs i bs = (gs', Some k) \<Longrightarrow> i \<le> k \<and> k < i + length bs"
  by (induction gs i bs rule: scan_detach.induct) (fastforce split: prod.splits bool.splits)+

function ingest :: "bytes \<Rightarrow> supervisor \<Rightarrow> supervisor \<times> sandbox_error option" where
  "ingest chunk s =
     (if \<not> is_attached s then ingest_detached chunk s
      else
        (case find_detach_sequence chunk s of
           (s1, None) \<Rightarrow> (send_attached chunk s1, None)
         | (s1, Some i) \<Rightarrow>
             let before = js_prefix chunk (int i - 1);
                 s2 = detach (if 0 < length before then send_attached before s1 else s1);
                 remainder = drop (Suc i) chunk
             in if 0 < length remainder then ingest remainder s2 else (s2, None)))"
  by pat_completeness auto
termination
  by (relation "measure (\<lambda>(chunk, s). length chunk)")
     (auto simp: find_detach_sequence_def Let_def dest!: scan_detach_bound split: prod.splits)

declare ingest.simps [simp del]

section \<open>Events\<close>

datatype sup_event =
    Run_call
  | Input_data bytes
  | Input_end
  | Vm_output nat bytes source
  | Vm_exit nat
  | Window_resized "nat \<times> nat"
  | Add_call string vm nat
  | Remove_call string
  | Attach_call string
  | Detach_call
  | Stop_call

definition supervisor_writes :: "listener list \<Rightarrow> bytes \<Rightarrow> bytes list" where
  "supervisor_writes ls chunk = map (\<lambda>_. chunk) (filter (\<lambda>l. case l of Supervisor_listener _ \<Rightarrow> True | _ \<Rightarrow> False) ls)"

fun sup_step :: "supervisor \<Rightarrow> sup_event \<Rightarrow> supervisor \<times> sandbox_error option" where
  "sup_step s Run_call = (run s, None)"
| "sup_step s (Input_data d) = (if running s then ingest d s else (s, None))"
| "sup_step s Input_end = (if running s then (on_end s, None) else (s, None))"
| "sup_step s (Vm_output e chunk src) =
     (let (sb, ls) = record_output e chunk (registry s)
      in (s\<lparr>registry := sb, out := out s @ supervisor_writes ls chunk\<rparr>, None))"
| "sup_step s (Vm_exit e) = (s\<lparr>registry := vm_exited e (registry s)\<rparr>, None)"
| "sup_step s (Window_resized w) =
     (let s1 = s\<lparr>window := w\<rparr> in (case winch_handler s1 of None \<Rightarrow> s1 | Some v \<Rightarrow> push_size v s1, None))"
| "sup_step s (Add_call i v now) =
     (case add_sandbox i v now (registry s) of
        Inl e \<Rightarrow> (s, Some e)
      | Inr (r, e) \<Rightarrow> (s\<lparr>registry := r\<rparr>, None))"
| "sup_step s (Remove_call i) = (s\<lparr>registry := remove_sandbox i (registry s)\<rparr>, None)"
| "sup_step s (Attach_call i) = attach i s"
| "sup_step s Detach_call = (detach s, None)"
| "sup_step s Stop_call = (stop s, None)"

text \<open>A VM's output and exit come through the entry it was added with; \<open>run\<close> is called while no
  run is in progress; \<open>add\<close> takes any id, and the invariants below need it not to be empty (see
  \<open>is_attached\<close>).\<close>

fun event_possible :: "supervisor \<Rightarrow> sup_event \<Rightarrow> bool" where
  "event_possible s (Vm_output e c src) \<longleftrightarrow> e < length (entries (registry s))"
| "event_possible s (Vm_exit e) \<longleftrightarrow> e < length (entries (registry s))"
| "event_possible s (Add_call i v now) \<longleftrightarrow> i \<noteq> []"
| "event_possible s Run_call \<longleftrightarrow> \<not> running s"
| "event_possible s _ \<longleftrightarrow> True"

text \<open>The states a session reaches, in any order of events.\<close>

inductive sup_session :: "supervisor \<Rightarrow> supervisor \<Rightarrow> bool" for s0 :: supervisor where
  sup_start: "sup_session s0 s0"
| sup_event_step: "sup_session s0 s \<Longrightarrow> event_possible s ev \<Longrightarrow> sup_session s0 (fst (sup_step s ev))"

section \<open>Forwarding and detaching\<close>

abbreviation gs_byte :: byte where "gs_byte \<equiv> 0x1d"

text \<open>No two \<open>Ctrl-]\<close> in a row.\<close>

fun no_pair :: "bytes \<Rightarrow> bool" where
  "no_pair (x # y # r) \<longleftrightarrow> \<not> (x = gs_byte \<and> y = gs_byte) \<and> no_pair (y # r)"
| "no_pair _ \<longleftrightarrow> True"

definition pending_gs :: "bool \<Rightarrow> bytes" where "pending_gs gs = (if gs then [gs_byte] else [])"

lemma no_pair_prefix: "no_pair (xs @ ys) \<Longrightarrow> no_pair xs"
  by (induction xs rule: no_pair.induct) simp_all

lemma no_pair_suffix: "no_pair (xs @ ys) \<Longrightarrow> no_pair ys"
proof (induction xs)
  case (Cons x xs)
  have "no_pair (xs @ ys)" using Cons.prems by (cases "xs @ ys") simp_all
  then show ?case by (rule Cons.IH)
qed simp

lemma scan_no_pair:
  "no_pair (pending_gs gs @ bs) \<Longrightarrow>
   scan_detach gs k bs = (if bs = [] then gs else last bs = gs_byte, None)"
proof (induction gs k bs rule: scan_detach.induct)
  case (2 gs i b bs)
  have "no_pair (pending_gs (b = gs_byte) @ bs)"
    using "2.prems" by (cases bs; cases gs) (auto simp: pending_gs_def)
  moreover have "mark_ctrl_right_bracket gs (b = gs_byte) = (b = gs_byte, False)"
    using "2.prems" by (auto simp: mark_ctrl_right_bracket_def pending_gs_def)
  ultimately show ?case using "2.IH" by simp
qed simp

lemma scan_pair:
  "no_pair (pending_gs gs @ a @ [gs_byte]) \<Longrightarrow>
   scan_detach gs k (a @ gs_byte # gs_byte # b) = (True, Some (k + Suc (length a)))"
proof (induction a arbitrary: gs k)
  case Nil
  then show ?case by (auto simp: pending_gs_def mark_ctrl_right_bracket_def split: if_splits)
next
  case (Cons x xs)
  have "no_pair (pending_gs (x = gs_byte) @ xs @ [gs_byte])"
    using Cons.prems by (cases xs; cases gs) (auto simp: pending_gs_def)
  moreover have "mark_ctrl_right_bracket gs (x = gs_byte) = (x = gs_byte, False)"
    using Cons.prems by (cases xs) (auto simp: mark_ctrl_right_bracket_def pending_gs_def)
  ultimately show ?case using Cons.IH [of "x = gs_byte" "Suc k"] by simp
qed

lemma ingest_forward:
  assumes "attached_id s = Some i" "i \<noteq> []" "no_pair (pending_gs (last_gs s) @ chunk)"
  shows "ingest chunk s = (s\<lparr>registry := fst (send_sandbox i chunk (registry s)),
    last_gs := (if chunk = [] then last_gs s else last chunk = gs_byte)\<rparr>, None)"
  using assms scan_no_pair [OF assms(3), of 0]
  by (subst ingest.simps) (simp add: is_attached_def find_detach_sequence_def send_attached_def)

definition type_in :: "supervisor \<Rightarrow> bytes list \<Rightarrow> supervisor" where
  "type_in s chunks = foldl (\<lambda>s c. fst (sup_step s (Input_data c))) s chunks"

lemma type_in_forward:
  assumes "running s" "attached_id s = Some i" "i \<noteq> []" "no_pair (pending_gs (last_gs s) @ concat chunks)"
  shows "registry (type_in s chunks) = foldl (\<lambda>r d. fst (send_sandbox i d r)) (registry s) chunks \<and>
    attached_id (type_in s chunks) = Some i \<and> running (type_in s chunks)"
  using assms
proof (induction chunks arbitrary: s)
  case Nil
  then show ?case by (simp add: type_in_def)
next
  case (Cons c cs)
  let ?s = "s\<lparr>registry := fst (send_sandbox i c (registry s)),
    last_gs := (if c = [] then last_gs s else last c = gs_byte)\<rparr>"
  have c: "no_pair (pending_gs (last_gs s) @ c)"
    using Cons.prems(4) no_pair_prefix [of "pending_gs (last_gs s) @ c" "concat cs"] by simp
  have "no_pair (pending_gs (last_gs ?s) @ concat cs)"
  proof (cases c rule: rev_cases)
    case Nil
    then show ?thesis using Cons.prems(4) by simp
  next
    case (snoc xs x)
    then have "no_pair ([x] @ concat cs)"
      using Cons.prems(4) no_pair_suffix [of "pending_gs (last_gs s) @ xs" "[x] @ concat cs"] by simp
    then show ?thesis using snoc no_pair_suffix [of "[x]" "concat cs"] by (auto simp: pending_gs_def)
  qed
  then have "registry (type_in ?s cs) = foldl (\<lambda>r d. fst (send_sandbox i d r)) (registry ?s) cs \<and>
      attached_id (type_in ?s cs) = Some i \<and> running (type_in ?s cs)"
    using Cons.prems by (intro Cons.IH) simp_all
  moreover have "fst (sup_step s (Input_data c)) = ?s"
    using Cons.prems(1) ingest_forward [OF Cons.prems(2,3) c] by simp
  ultimately show ?case by (simp add: type_in_def)
qed

lemma type_in_delivers:
  assumes "running s" "attached_id s = Some i" "i \<noteq> []" "get_sandbox i (registry s) \<noteq> None"
    and "no_pair (pending_gs (last_gs s) @ concat chunks)"
  shows "delivered_to i (registry (type_in s chunks)) = delivered_to i (registry s) @ concat chunks"
    and "attached_id (type_in s chunks) = Some i"
  using type_in_forward [OF assms(1-3,5)] registry.send_all [of i "registry s" chunks] assms(4) by simp_all

lemma detach_attached_id [simp]: "is_attached s \<Longrightarrow> attached_id (detach s) = None"
  by (simp add: detach_def Let_def print_def leave_raw_tty_def remove_winch_handler_def split: option.split)

lemma detach_not_attached [simp]: "\<not> is_attached (detach s)"
  by (cases "is_attached s") (simp_all add: is_attached_def, simp add: detach_def is_attached_def)

lemma delivered_unsubscribe [simp]: "delivered_to i (unsubscribe k fn r) = delivered_to i r"
  by (simp add: delivered_to_def get_sandbox_def stdin_of_def unsubscribe_def split: option.split)

lemma delivered_detach [simp]: "delivered_to i (registry (detach s)) = delivered_to i (registry s)"
  by (simp add: detach_def Let_def print_def leave_raw_tty_def remove_winch_handler_def split: option.split)

text \<open>The pair inside one chunk: what stands before it is delivered, the pair is not.\<close>

lemma ingest_pair:
  assumes "attached_id s = Some i" "i \<noteq> []" "get_sandbox i (registry s) \<noteq> None"
    and "no_pair (pending_gs (last_gs s) @ a @ [gs_byte])"
  shows "\<exists>t. ingest (a @ [gs_byte, gs_byte]) s = (t, None) \<and> attached_id t = None \<and>
    delivered_to i (registry t) = delivered_to i (registry s) @ a"
proof -
  let ?s1 = "s\<lparr>last_gs := True\<rparr>"
  let ?s2 = "if a \<noteq> [] then send_attached a ?s1 else ?s1"
  have "find_detach_sequence (a @ [gs_byte, gs_byte]) s = (?s1, Some (Suc (length a)))"
    using scan_pair [OF assms(4), of 0 "[]"] by (simp add: find_detach_sequence_def)
  then have "ingest (a @ [gs_byte, gs_byte]) s = (detach ?s2, None)"
    using assms(1,2) by (subst ingest.simps) (simp add: is_attached_def js_prefix_def Let_def)
  moreover have "is_attached ?s2" using assms(1,2) by (simp add: is_attached_def send_attached_def)
  moreover have "delivered_to i (registry ?s2) = delivered_to i (registry s) @ a"
    using assms(1-3) registry.send_delivers [of i "registry s" a] by (simp add: is_attached_def send_attached_def)
  ultimately show ?thesis by simp
qed

text \<open>The pair cut by a chunk boundary: \<open>subarray(0, -1)\<close> is sent, all but the last byte of the
  chunk that completes the pair.\<close>

lemma ingest_cut_pair:
  assumes "attached_id s = Some i" "i \<noteq> []" "last_gs s" "rest \<noteq> []"
  shows "ingest (gs_byte # rest) s = ingest rest (detach (send_attached (gs_byte # butlast rest) s))"
proof -
  have "s\<lparr>last_gs := True\<rparr> = s" using assms(3) by simp
  then have find: "find_detach_sequence (gs_byte # rest) s = (s, Some 0)"
    using assms(3) by (simp add: find_detach_sequence_def mark_ctrl_right_bracket_def)
  have "js_prefix (gs_byte # rest) (int 0 - 1) = gs_byte # butlast rest"
    using assms(4) by (cases rest rule: rev_cases) (simp_all add: js_prefix_def nat_add_distrib)
  then show ?thesis
    using assms(1,2,4) find by (subst ingest.simps) (simp add: is_attached_def Let_def)
qed

section \<open>Invariants of a session\<close>

text \<open>A property that every primitive of the supervisor keeps holds after every event.\<close>

locale sup_invariant =
  fixes P :: "supervisor \<Rightarrow> bool"
  assumes P_print: "P s \<Longrightarrow> P (print m s)"
    and P_detach: "P s \<Longrightarrow> P (detach s)"
    and P_attach: "P s \<Longrightarrow> P (fst (attach i s))"
    and P_flags: "P s \<Longrightarrow> P (s\<lparr>stopped := a\<rparr>)" "P s \<Longrightarrow> P (s\<lparr>running := b\<rparr>)" "P s \<Longrightarrow> P (s\<lparr>last_gs := c\<rparr>)"
      "P s \<Longrightarrow> P (s\<lparr>window := w\<rparr>)" "P s \<Longrightarrow> P (s\<lparr>out := x\<rparr>)" "P s \<Longrightarrow> P (s\<lparr>resizes := y\<rparr>)"
    and P_send: "P s \<Longrightarrow> P (s\<lparr>registry := fst (send_sandbox i d (registry s))\<rparr>)"
    and P_record: "P s \<Longrightarrow> e < length (entries (registry s)) \<Longrightarrow>
      P (s\<lparr>registry := fst (record_output e chunk (registry s))\<rparr>)"
    and P_removed: "P s \<Longrightarrow> P (s\<lparr>registry := remove_sandbox i (registry s)\<rparr>)"
    and P_added: "P s \<Longrightarrow> i \<noteq> [] \<Longrightarrow> add_sandbox i v now (registry s) = Inr (r, e) \<Longrightarrow> P (s\<lparr>registry := r\<rparr>)"
begin

lemma P_on_end: "P s \<Longrightarrow> P (on_end s)"
  by (simp add: on_end_def P_detach P_flags)

lemma P_stop: "P s \<Longrightarrow> P (stop s)"
  by (simp add: stop_def P_on_end P_detach P_flags)

lemma P_run: "P s \<Longrightarrow> P (run s)"
  by (simp add: run_def P_print P_flags)

lemma P_ls: "P s \<Longrightarrow> P (do_ls s)"
proof -
  have "P s \<Longrightarrow> P (foldl (\<lambda>s r. print (f r) s) s rows)" for f and rows :: "(string \<times> nat) list" and s
    by (induction rows arbitrary: s) (simp_all add: P_print)
  then show "P s \<Longrightarrow> P (do_ls s)" by (simp add: do_ls_def Let_def P_print)
qed

lemma P_command: "P s \<Longrightarrow> P (fst (handle_command raw s))"
  by (simp add: handle_command_def Let_def P_print P_attach P_ls P_stop)

lemma P_lines: "P s \<Longrightarrow> P (fst (handle_lines ls s))"
proof (induction ls arbitrary: s)
  case (Cons l ls)
  have "P (fst (handle_detached_line l s))" using Cons.prems by (simp add: handle_detached_line_def P_command)
  then show ?case using Cons.IH by (auto split: prod.split option.split)
qed simp

lemma P_send_attached: "P s \<Longrightarrow> P (send_attached d s)"
  by (simp add: send_attached_def P_send)

lemma P_ingest: "P s \<Longrightarrow> P (fst (ingest chunk s))"
proof (induction "length chunk" arbitrary: chunk s rule: less_induct)
  case less
  obtain s1 r where find: "find_detach_sequence chunk s = (s1, r)" by (cases "find_detach_sequence chunk s")
  have s1: "P s1" using less.prems find by (auto simp: find_detach_sequence_def Let_def P_flags split: prod.splits)
  show ?case
  proof (cases "is_attached s")
    case False
    then show ?thesis using less.prems by (subst ingest.simps) (simp add: ingest_detached_def P_lines)
  next
    case attached: True
    show ?thesis
    proof (cases r)
      case None
      then show ?thesis using attached find s1 by (subst ingest.simps) (simp add: P_send_attached)
    next
      case (Some i)
      let ?b = "js_prefix chunk (int i - 1)"
      let ?s2 = "detach (if 0 < length ?b then send_attached ?b s1 else s1)"
      have s2: "P ?s2" using s1 by (simp add: P_detach P_send_attached)
      have "P (fst (ingest (drop (Suc i) chunk) ?s2))" if "0 < length (drop (Suc i) chunk)"
        using that by (intro less.hyps s2) simp
      then show ?thesis using attached find Some s2 by (subst ingest.simps) (simp add: Let_def)
    qed
  qed
qed

theorem P_step:
  assumes "P s" "event_possible s ev"
  shows "P (fst (sup_step s ev))"
proof (cases ev)
  case (Vm_output e c src)
  have "P (s\<lparr>registry := fst (record_output e c (registry s))\<rparr>)"
    using assms Vm_output by (intro P_record) simp_all
  moreover obtain sb ls where "record_output e c (registry s) = (sb, ls)" by (cases "record_output e c (registry s)")
  ultimately show ?thesis using P_flags(5) [of "s\<lparr>registry := sb\<rparr>"] by (simp add: Vm_output)
next
  case (Window_resized w)
  then show ?thesis
    using P_flags(4) [OF assms(1), of w] P_flags(6)
    by (auto simp: push_size_def Let_def split: option.split)
next
  case (Add_call i v now)
  then show ?thesis
    using assms P_added [of s i v now] by (auto split: sum.split)
qed (simp_all add: assms(1) P_ingest P_on_end P_removed vm_exited_def P_attach P_detach P_stop P_run)

theorem P_reached: "sup_session s0 s \<Longrightarrow> P s0 \<Longrightarrow> P s"
  by (induction rule: sup_session.induct) (simp_all add: P_step)

end

subsection \<open>The terminal's raw mode\<close>

definition raw_inv :: "bool \<Rightarrow> supervisor \<Rightarrow> bool" where
  "raw_inv r0 s \<longleftrightarrow>
     [] \<notin> fst ` set (items (registry s)) \<and>
     (if is_attached s \<and> raw_capable s \<and> raw_tty_on_attach s
      then prior_raw_state s = Some r0 \<and> is_raw s
      else prior_raw_state s = None \<and> is_raw s = r0)"

lemma items_frame [simp]:
  "items (unsubscribe k fn r) = items r" "items (fst (send_sandbox i d r)) = items r"
  "items (fst (on_output i fn r)) = items r" "items (fst (record_output e c r)) = items r"
  by (simp_all add: unsubscribe_def send_sandbox_def on_output_def record_output_def Let_def split: option.split)

lemma fst_delete: "fst ` set (AList.delete i xs) \<subseteq> fst ` set xs"
  by (auto simp: AList.delete_eq)

lemma print_fields [simp]:
  "registry (print m s) = registry s" "is_attached (print m s) = is_attached s"
  "raw_capable (print m s) = raw_capable s" "raw_tty_on_attach (print m s) = raw_tty_on_attach s"
  "prior_raw_state (print m s) = prior_raw_state s" "is_raw (print m s) = is_raw s"
  by (simp_all add: print_def is_attached_def)

lemma is_attached_update [simp]:
  "is_attached (s\<lparr>registry := r\<rparr>) = is_attached s" "is_attached (s\<lparr>stopped := a\<rparr>) = is_attached s"
  "is_attached (s\<lparr>running := a\<rparr>) = is_attached s" "is_attached (s\<lparr>last_gs := a\<rparr>) = is_attached s"
  "is_attached (s\<lparr>window := w\<rparr>) = is_attached s" "is_attached (s\<lparr>out := x\<rparr>) = is_attached s"
  "is_attached (s\<lparr>resizes := y\<rparr>) = is_attached s"
  "is_attached (s\<lparr>prior_raw_state := p, is_raw := b\<rparr>) = is_attached s"
  by (simp_all add: is_attached_def)

lemma raw_inv_detach: "raw_inv r0 s \<Longrightarrow> raw_inv r0 (detach s)"
  by (cases "is_attached s")
     (auto simp: raw_inv_def detach_def Let_def print_def leave_raw_tty_def remove_winch_handler_def is_attached_def
      split: option.splits if_splits)

lemma install_winch_frame [simp]:
  "registry (install_winch_handler e s) = registry s" "is_attached (install_winch_handler e s) = is_attached s"
  "raw_capable (install_winch_handler e s) = raw_capable s"
  "raw_tty_on_attach (install_winch_handler e s) = raw_tty_on_attach s"
  "prior_raw_state (install_winch_handler e s) = prior_raw_state s" "is_raw (install_winch_handler e s) = is_raw s"
  "attached_unsub (install_winch_handler e s) = attached_unsub s"
  by (simp_all add: install_winch_handler_def push_size_def is_attached_def)

lemma raw_inv_hand_over:
  assumes "prior_raw_state s = None" "is_raw s = r0" "is_attached s" "[] \<notin> fst ` set (items (registry s))"
  shows "raw_inv r0 (print m (hand_over_terminal e s))"
  using assms by (simp add: raw_inv_def hand_over_terminal_def enter_raw_tty_def Let_def)

lemma attach_found:
  assumes "get_sandbox i (registry (detach s)) = Some e"
  shows "\<exists>t m. attach i s = (print m (hand_over_terminal e t), None) \<and> attached_id t = Some i \<and>
    prior_raw_state t = prior_raw_state (detach s) \<and> is_raw t = is_raw (detach s) \<and>
    registry t = fst (on_output i (Supervisor_listener (next_listener (detach s))) (registry (detach s))) \<and>
    attached_unsub t = Some (snd (on_output i (Supervisor_listener (next_listener (detach s))) (registry (detach s))),
      Supervisor_listener (next_listener (detach s)))"
proof -
  let ?s = "detach s"
  obtain sb k where "on_output i (Supervisor_listener (next_listener ?s)) (registry ?s) = (sb, k)"
    by (cases "on_output i (Supervisor_listener (next_listener ?s)) (registry ?s)")
  then show ?thesis
    using assms by (cases "scrollback e = []") (force simp: attach_def Let_def)+
qed

lemma raw_inv_attach:
  assumes "raw_inv r0 s"
  shows "raw_inv r0 (fst (attach i s))"
proof -
  let ?s = "detach s"
  have inv: "raw_inv r0 ?s" using assms by (rule raw_inv_detach)
  have free: "prior_raw_state ?s = None" "is_raw ?s = r0" using inv by (simp_all add: raw_inv_def)
  show ?thesis
  proof (cases "get_sandbox i (registry ?s)")
    case None
    then show ?thesis using inv by (simp add: attach_def)
  next
    case (Some e)
    then have "i \<noteq> []" using inv by (force simp: get_sandbox_def raw_inv_def dest!: map_of_SomeD)
    moreover have "[] \<notin> fst ` set (items (registry ?s))" using inv by (simp add: raw_inv_def)
    moreover from attach_found [OF Some] obtain t m where
      t: "attach i s = (print m (hand_over_terminal e t), None)" "attached_id t = Some i"
        "prior_raw_state t = prior_raw_state ?s" "is_raw t = is_raw ?s"
        "registry t = fst (on_output i (Supervisor_listener (next_listener ?s)) (registry ?s))"
      by blast
    ultimately have "raw_inv r0 (print m (hand_over_terminal e t))"
      using free by (intro raw_inv_hand_over) (simp_all add: is_attached_def)
    then show ?thesis by (simp add: t(1))
  qed
qed

lemma items_added: "add_sandbox i v now r = Inr (r', e) \<Longrightarrow> fst ` set (items r') = insert i (fst ` set (items r))"
  by (auto simp: add_sandbox_def Let_def split: if_splits)

interpretation raw: sup_invariant "raw_inv r0" for r0
proof
  have "fst ` set (items (remove_sandbox i r)) \<subseteq> fst ` set (items r)" for i r
    using fst_delete [of i "items r"] by (simp add: remove_sandbox_def)
  then have "[] \<notin> fst ` set (items (remove_sandbox i r))" if "[] \<notin> fst ` set (items r)" for i r
    using that by blast
  then show "raw_inv r0 s \<Longrightarrow> raw_inv r0 (s\<lparr>registry := remove_sandbox i (registry s)\<rparr>)" for s i
    by (simp add: raw_inv_def)
  show "raw_inv r0 s \<Longrightarrow> i \<noteq> [] \<Longrightarrow> add_sandbox i v now (registry s) = Inr (r, e) \<Longrightarrow> raw_inv r0 (s\<lparr>registry := r\<rparr>)"
    for s i v now r e
    by (simp add: raw_inv_def items_added)
qed (simp_all only: raw_inv_detach raw_inv_attach, simp_all add: raw_inv_def)

subsection \<open>One echo\<close>

fun is_supervisor :: "listener \<Rightarrow> bool" where
  "is_supervisor (Supervisor_listener _) = True"
| "is_supervisor (Other_listener _) = False"

definition echo_inv :: "supervisor \<Rightarrow> bool" where
  "echo_inv s \<longleftrightarrow> registry_ok (registry s) \<and> [] \<notin> fst ` set (items (registry s)) \<and>
     (\<forall>k < length (sub_sets (registry s)). distinct (sub_sets (registry s) ! k) \<and>
        (\<forall>l \<in> set (sub_sets (registry s) ! k). is_supervisor l \<longrightarrow> is_attached s \<and> attached_unsub s = Some (k, l)))"

lemma nth_update_if: "j < length xs \<Longrightarrow> xs[i := x] ! j = (if i = j then x else xs ! j)"
  by simp

lemma detach_registry:
  "registry (detach s) = (if is_attached s
     then (case attached_unsub s of None \<Rightarrow> registry s | Some (k, fn) \<Rightarrow> unsubscribe k fn (registry s))
     else registry s)"
  by (simp add: detach_def Let_def leave_raw_tty_def remove_winch_handler_def split: option.split)

lemma echo_inv_detach:
  assumes "echo_inv s"
  shows "echo_inv (detach s)"
    and "k < length (sub_sets (registry (detach s))) \<Longrightarrow> l \<in> set (sub_sets (registry (detach s)) ! k) \<Longrightarrow> \<not> is_supervisor l"
proof -
  have silent: "\<not> is_supervisor l" if "k < length (sub_sets (registry (detach s)))"
      "l \<in> set (sub_sets (registry (detach s)) ! k)" for k l
  proof (cases "is_attached s \<and> attached_unsub s \<noteq> None")
    case False
    then have "registry (detach s) = registry s" by (cases "attached_unsub s") (auto simp: detach_registry)
    then show ?thesis using assms that False by (auto simp: echo_inv_def)
  next
    case True
    then obtain a b where ab: "attached_unsub s = Some (a, b)" by auto
    then have reg: "registry (detach s) = unsubscribe a b (registry s)" using True by (simp add: detach_registry)
    have k: "k < length (sub_sets (registry s))" using that(1) by (simp add: reg unsubscribe_def)
    have l: "l \<in> set (sub_sets (registry s) ! k)" "a = k \<longrightarrow> l \<noteq> b"
      using that(2) k by (auto simp: reg unsubscribe_def nth_update_if split: if_splits)
    then show ?thesis using assms k ab by (auto simp: echo_inv_def)
  qed
  moreover have "distinct (sub_sets (registry (detach s)) ! k)" if "k < length (sub_sets (registry (detach s)))" for k
    using assms that
    by (cases "is_attached s"; cases "attached_unsub s")
       (auto simp: detach_registry echo_inv_def unsubscribe_def nth_update_if)
  moreover have "registry_ok (registry (detach s))" "[] \<notin> fst ` set (items (registry (detach s)))"
    using assms by (auto simp: detach_registry echo_inv_def registry_ok_unsubscribe split: option.split)
  ultimately show "echo_inv (detach s)" unfolding echo_inv_def by blast
  show "k < length (sub_sets (registry (detach s))) \<Longrightarrow> l \<in> set (sub_sets (registry (detach s)) ! k) \<Longrightarrow> \<not> is_supervisor l"
    by (rule silent)
qed

lemma on_output_sets:
  assumes "registry_ok r"
  shows "\<forall>j < length (sub_sets (fst (on_output i fn r))). \<forall>l \<in> set (sub_sets (fst (on_output i fn r)) ! j).
      (l = fn \<and> j = snd (on_output i fn r)) \<or> (j < length (sub_sets r) \<and> l \<in> set (sub_sets r ! j))"
    and "\<forall>j < length (sub_sets r). distinct (sub_sets r ! j) \<Longrightarrow>
      \<forall>j < length (sub_sets (fst (on_output i fn r))). distinct (sub_sets (fst (on_output i fn r)) ! j)"
proof -
  show "\<forall>j < length (sub_sets (fst (on_output i fn r))). \<forall>l \<in> set (sub_sets (fst (on_output i fn r)) ! j).
      (l = fn \<and> j = snd (on_output i fn r)) \<or> (j < length (sub_sets r) \<and> l \<in> set (sub_sets r ! j))"
    by (auto simp: on_output_def nth_append nth_update_if split: option.splits if_splits)
  show "\<forall>j < length (sub_sets (fst (on_output i fn r))). distinct (sub_sets (fst (on_output i fn r)) ! j)"
    if "\<forall>j < length (sub_sets r). distinct (sub_sets r ! j)"
    using that by (auto simp: on_output_def nth_append nth_update_if split: option.splits if_splits)
qed

lemma hand_over_frame [simp]:
  "registry (hand_over_terminal e s) = registry s" "is_attached (hand_over_terminal e s) = is_attached s"
  "attached_unsub (hand_over_terminal e s) = attached_unsub s"
  by (simp_all add: hand_over_terminal_def enter_raw_tty_def Let_def)

lemma print_unsub [simp]: "attached_unsub (print m s) = attached_unsub s"
  by (simp add: print_def)

lemma echo_inv_attach:
  assumes "echo_inv s"
  shows "echo_inv (fst (attach i s))"
proof (cases "get_sandbox i (registry (detach s))")
  case None
  then show ?thesis using echo_inv_detach(1) [OF assms] by (simp add: attach_def)
next
  case (Some e)
  let ?r = "registry (detach s)" and ?fn = "Supervisor_listener (next_listener (detach s))"
  have inv: "echo_inv (detach s)" using assms by (rule echo_inv_detach)
  then have "i \<noteq> []" using Some by (force simp: get_sandbox_def echo_inv_def dest!: map_of_SomeD)
  from attach_found [OF Some] obtain t m where
    t: "attach i s = (print m (hand_over_terminal e t), None)" "attached_id t = Some i"
      "registry t = fst (on_output i ?fn ?r)" "attached_unsub t = Some (snd (on_output i ?fn ?r), ?fn)"
    by blast
  have ok: "registry_ok ?r" "\<forall>j < length (sub_sets ?r). distinct (sub_sets ?r ! j)"
    using inv by (simp_all add: echo_inv_def)
  have "is_supervisor l \<longrightarrow> attached_unsub t = Some (j, l)"
    if "j < length (sub_sets (registry t))" "l \<in> set (sub_sets (registry t) ! j)" for j l
    using on_output_sets(1) [OF ok(1), of i ?fn, rule_format, of j l] that echo_inv_detach(2) [OF assms, of j l]
    unfolding t(3,4) by fastforce
  moreover have "is_attached t" using t(2) \<open>i \<noteq> []\<close> by (simp add: is_attached_def)
  ultimately show ?thesis
    using t inv registry_ok_subscribe [OF ok(1)] on_output_sets(2) [OF ok]
    by (simp add: echo_inv_def)
qed

lemma echo_inv_registry:
  assumes "echo_inv s" "registry_ok r" "sub_sets r = sub_sets (registry s)" "fst ` set (items r) \<subseteq> fst ` set (items (registry s))"
  shows "echo_inv (s\<lparr>registry := r\<rparr>)"
  using assms by (auto simp: echo_inv_def)

interpretation echo: sup_invariant echo_inv
proof
  fix s i d assume inv: "echo_inv s"
  show "echo_inv (s\<lparr>registry := fst (send_sandbox i d (registry s))\<rparr>)"
    using inv by (intro echo_inv_registry)
      (simp_all add: echo_inv_def registry_ok_send, simp add: send_sandbox_def split: option.split)
next
  fix s e chunk assume inv: "echo_inv s" and e: "e < length (entries (registry s))"
  show "echo_inv (s\<lparr>registry := fst (record_output e chunk (registry s))\<rparr>)"
    using inv e by (intro echo_inv_registry)
      (simp_all add: echo_inv_def registry_ok_record, simp add: record_output_def Let_def)
next
  fix s i assume inv: "echo_inv s"
  show "echo_inv (s\<lparr>registry := remove_sandbox i (registry s)\<rparr>)"
  proof (rule echo_inv_registry [OF inv])
    show "registry_ok (remove_sandbox i (registry s))"
      using inv by (intro registry_ok_remove) (simp add: echo_inv_def)
  qed (simp_all add: remove_sandbox_def fst_delete)
next
  fix s i v now r e
  assume inv: "echo_inv s" and i: "i \<noteq> []" and r: "add_sandbox i v now (registry s) = Inr (r, e)"
  have "registry_ok r" using inv registry_ok_add [OF _ r] by (simp add: echo_inv_def)
  moreover have "sub_sets r = sub_sets (registry s)"
    using r by (auto simp: add_sandbox_def Let_def split: if_splits)
  ultimately show "echo_inv (s\<lparr>registry := r\<rparr>)" using inv i by (simp add: echo_inv_def items_added [OF r])
qed (simp_all only: echo_inv_detach echo_inv_attach, simp_all add: echo_inv_def)

lemma at_most_one_supervisor:
  "distinct ls \<Longrightarrow> \<forall>l \<in> set ls. is_supervisor l \<longrightarrow> l = x \<Longrightarrow> length (supervisor_writes ls c) \<le> 1"
proof (induction ls)
  case (Cons l ls)
  show ?case
  proof (cases l)
    case (Supervisor_listener n)
    then have "\<forall>y \<in> set ls. \<not> is_supervisor y" using Cons.prems by auto
    then have "supervisor_writes ls c = []"
      by (auto simp: supervisor_writes_def filter_empty_conv split: listener.split)
    then show ?thesis using Supervisor_listener by (simp add: supervisor_writes_def)
  next
    case (Other_listener n)
    then show ?thesis using Cons by (simp add: supervisor_writes_def)
  qed
qed (simp add: supervisor_writes_def)

lemma output_once:
  assumes "echo_inv s" "e < length (entries (registry s))"
  shows "out (fst (sup_step s (Vm_output e c src))) \<in> {out s, out s @ [c]}"
proof -
  obtain sb ls where rec: "record_output e c (registry s) = (sb, ls)" by (cases "record_output e c (registry s)")
  have "length (supervisor_writes ls c) \<le> 1"
  proof (cases "map_of (subs (registry s)) (entry_id (entries (registry s) ! e))")
    case None
    then show ?thesis using rec by (auto simp: record_output_def Let_def supervisor_writes_def)
  next
    case (Some k)
    then have k: "k < length (sub_sets (registry s))" and ls: "ls = sub_sets (registry s) ! k"
      using assms(1) rec by (auto simp: echo_inv_def registry_ok_def record_output_def Let_def dest!: map_of_SomeD)
    show ?thesis
    proof (cases "attached_unsub s")
      case None
      then have "\<forall>l \<in> set ls. \<not> is_supervisor l" using assms(1) k ls by (auto simp: echo_inv_def)
      then show ?thesis using assms(1) k ls by (intro at_most_one_supervisor) (auto simp: echo_inv_def)
    next
      case (Some p)
      then have "\<forall>l \<in> set ls. is_supervisor l \<longrightarrow> l = snd p" using assms(1) k ls by (auto simp: echo_inv_def)
      then show ?thesis using assms(1) k ls by (intro at_most_one_supervisor) (auto simp: echo_inv_def)
    qed
  qed
  then have "supervisor_writes ls c = [] \<or> supervisor_writes ls c = [c]"
    by (cases "supervisor_writes ls c"; cases "filter (case_listener (\<lambda>_. True) (\<lambda>_. False)) ls") (auto simp: supervisor_writes_def)
  then show ?thesis by (auto simp: rec)
qed

text \<open>After an attach the sandbox's output is echoed.\<close>

lemma supervisor_called: "Supervisor_listener n \<in> set ls \<Longrightarrow> supervisor_writes ls c \<noteq> []"
  by (induction ls) (auto simp: supervisor_writes_def)

lemma attach_echoes:
  assumes "echo_inv s" "map_of (items (registry s)) i = Some e"
  shows "out (fst (sup_step (fst (attach i s)) (Vm_output e c src))) = out (fst (attach i s)) @ [c]"
proof -
  let ?r = "registry (detach s)" and ?fn = "Supervisor_listener (next_listener (detach s))"
  have inv: "echo_inv (detach s)" using assms(1) by (rule echo_inv_detach)
  have items: "map_of (items ?r) i = Some e"
    using assms(2) by (simp add: detach_registry split: option.split)
  then have e: "e < length (entries ?r)" "entry_id (entries ?r ! e) = i"
    using inv by (auto simp: echo_inv_def registry_ok_def dest: map_of_SomeD)
  obtain t m where t: "attach i s = (print m (hand_over_terminal (entries ?r ! e) t), None)"
      "registry t = fst (on_output i ?fn ?r)"
    using attach_found [of i s "entries ?r ! e"] items by (auto simp: get_sandbox_def)
  have k: "k < length (sub_sets ?r)" if "map_of (subs ?r) i = Some k" for k
    using inv that by (auto simp: echo_inv_def registry_ok_def dest!: map_of_SomeD)
  have same: "entries (registry t) = entries ?r" by (simp add: t(2) on_output_def split: option.split)
  have "\<exists>k. map_of (subs (registry t)) i = Some k \<and> ?fn \<in> set (sub_sets (registry t) ! k)"
    by (auto simp: t(2) on_output_def map_add_def dest: k split: option.split)
  then have "supervisor_writes (snd (record_output e c (registry t))) c \<noteq> []"
    using e(2) same by (auto simp: record_output_def Let_def dest: supervisor_called [where c = c])
  moreover have "out (fst (sup_step (fst (attach i s)) (Vm_output e c src))) \<in>
      {out (fst (attach i s)), out (fst (attach i s)) @ [c]}"
    using echo_inv_attach [OF assms(1), of i] e(1) same t by (intro output_once) simp_all
  ultimately show ?thesis using t by (auto split: prod.splits)
qed

end
