(* ===== verification/Cli_Flags.thy ===== *)
theory Cli_Flags
  imports Js_Text "HOL-Library.AList"
begin

text \<open>
  The parts of \<^verbatim>\<open>packages/cli/src/parse-run-args.ts\<close> that the parsers of \<open>boot\<close>, \<open>fork\<close> and
  \<open>restore\<close> share: taking the value of a flag in both spellings and the \<open>consume*\<close> helpers, and
  the contract of a parser loop. A \<open>ParseError\<close> keeps its code and the token its message quotes;
  the prose of the message is not modelled. An index is the position in the argument vector; a
  helper returns the index of the last argument it used.
\<close>

datatype parse_error =
    Flag_unknown string
  | Flag_malformed string
  | Flag_missing_value string
  | Flag_duplicate string
  | Port_invalid string
  | Port_duplicate nat
  | Guest_duplicate string

type_synonym 'a parsed = "parse_error + 'a"

text \<open>Whether an optional field has been set (\<open>!== undefined\<close>), and \<open>?? default\<close>.\<close>

definition is_set :: "'a option \<Rightarrow> bool" where "is_set x \<longleftrightarrow> x \<noteq> None"

definition or_else :: "'a option \<Rightarrow> 'a \<Rightarrow> 'a" where
  "or_else x d = (case x of None \<Rightarrow> d | Some y \<Rightarrow> y)"

definition non_empty :: "'a list \<Rightarrow> 'a list option" where
  "non_empty xs = (if 0 < length xs then Some xs else None)"

lemma or_else_non_empty [simp]: "or_else (non_empty xs) [] = xs"
  by (simp add: or_else_def non_empty_def)

definition true_or_undefined :: "bool \<Rightarrow> bool option" where
  "true_or_undefined b = (if b then Some True else None)"

section \<open>Values\<close>

definition take_value :: "string \<Rightarrow> string list \<Rightarrow> nat \<Rightarrow> (string \<times> nat) parsed" where
  "take_value flag args i =
     (case index_of (CHR ''='') flag of
        Some eq \<Rightarrow> Inr (drop (Suc eq) flag, i)
      | None \<Rightarrow> if Suc i < length args then Inr (args ! Suc i, Suc i) else Inl (Flag_missing_value flag))"

lemma take_value_index: "take_value flag args i = Inr (v, n) \<Longrightarrow> i < length args \<Longrightarrow> i \<le> n \<and> n < length args"
  by (auto simp: take_value_def split: option.splits if_splits)

record port_forward =
  host_port :: nat
  guest_port :: nat

record mount_arg =
  mount_host :: string
  mount_guest :: string

datatype mount_mode = RO | RW

record live_mount =
  live_host :: string
  live_guest :: string
  live_mode :: mount_mode

text \<open>A decimal literal as written, \<open>digits / 10 ^ scale\<close>; \<open>Number\<close> rounds it to a double.\<close>

datatype decimal = Decimal (digits: nat) (scale: nat)

record cpu_args =
  max_vcpus :: "nat option"
  quota_cpus :: "decimal option"
  weight :: "nat option"

definition no_cpu_args :: cpu_args where "no_cpu_args = \<lparr>max_vcpus = None, quota_cpus = None, weight = None\<rparr>"

definition parse_port :: "string \<Rightarrow> nat parsed" where
  "parse_port raw =
     (if \<not> all_digits raw then Inl (Port_invalid raw)
      else if dec_value raw < 1 \<or> 65535 < dec_value raw then Inl (Port_invalid raw)
      else Inr (dec_value raw))"

text \<open>The position of the colon, unless it is missing, first or last.\<close>

definition inner_colon :: "string \<Rightarrow> nat parsed" where
  "inner_colon spec =
     (case index_of (CHR '':'') spec of
        None \<Rightarrow> Inl (Flag_malformed spec)
      | Some c \<Rightarrow> if c = 0 \<or> c = length spec - 1 then Inl (Flag_malformed spec) else Inr c)"

text \<open>\<open>seen\<close> and \<open>forwards\<close> are the caller's set and array, returned updated.\<close>

definition consume_port_forward ::
  "string \<Rightarrow> string list \<Rightarrow> nat \<Rightarrow> nat list \<Rightarrow> port_forward list \<Rightarrow> (nat list \<times> port_forward list \<times> nat) parsed"
where
  "consume_port_forward flag args i seen forwards =
     bind_res (take_value flag args i) (\<lambda>(spec, nxt).
     bind_res (inner_colon spec) (\<lambda>c.
     bind_res (parse_port (take c spec)) (\<lambda>host.
     bind_res (parse_port (drop (Suc c) spec)) (\<lambda>guest.
       if host \<in> set seen then Inl (Port_duplicate host)
       else Inr (seen @ [host], forwards @ [\<lparr>host_port = host, guest_port = guest\<rparr>], nxt)))))"

definition consume_mount :: "string \<Rightarrow> string list \<Rightarrow> nat \<Rightarrow> (mount_arg \<times> nat) parsed" where
  "consume_mount flag args i =
     bind_res (take_value flag args i) (\<lambda>(spec, nxt).
     bind_res (inner_colon spec) (\<lambda>c.
       Inr (\<lparr>mount_host = take c spec, mount_guest = drop (Suc c) spec\<rparr>, nxt)))"

fun parse_live_mount_mode :: "string option \<Rightarrow> mount_mode parsed" where
  "parse_live_mount_mode None = Inr RW"
| "parse_live_mount_mode (Some token) =
     (if token = ''ro'' then Inr RO else if token = ''rw'' then Inr RW else Inl (Flag_malformed token))"

definition live_mount_of :: "string \<Rightarrow> live_mount parsed" where
  "live_mount_of spec =
     (let parts = split_on (CHR '':'') spec
      in if length parts < 2 \<or> 3 < length parts \<or> parts ! 0 = [] \<or> parts ! 1 = [] then Inl (Flag_malformed spec)
         else bind_res (parse_live_mount_mode (if length parts < 3 then None else Some (parts ! 2))) (\<lambda>mode.
                Inr \<lparr>live_host = parts ! 0, live_guest = parts ! 1, live_mode = mode\<rparr>))"

definition consume_live_mount :: "string \<Rightarrow> string list \<Rightarrow> nat \<Rightarrow> (live_mount \<times> nat) parsed" where
  "consume_live_mount flag args i =
     bind_res (take_value flag args i) (\<lambda>(spec, nxt).
     bind_res (live_mount_of spec) (\<lambda>m. Inr (m, nxt)))"

definition consume_env :: "string \<Rightarrow> string list \<Rightarrow> nat \<Rightarrow> ((string \<times> string) \<times> nat) parsed" where
  "consume_env flag args i =
     bind_res (take_value flag args i) (\<lambda>(spec, nxt).
       case index_of (CHR ''='') spec of
         None \<Rightarrow> Inl (Flag_malformed spec)
       | Some eq \<Rightarrow> if eq = 0 then Inl (Flag_malformed spec) else Inr ((take eq spec, drop (Suc eq) spec), nxt))"

text \<open>\<open>state.env[key] = value\<close> on an object literal: a later entry wins, and assigning a string to
  \<open>__proto__\<close> does nothing. The order of the keys is not observed.\<close>

definition set_env :: "string \<Rightarrow> string \<Rightarrow> (string \<times> string) list \<Rightarrow> (string \<times> string) list" where
  "set_env k v env = (if k = ''__proto__'' then env else AList.update k v env)"

text \<open>\<open>/^[0-9]+$/\<close>, then \<open>Number\<close>, which must be finite and positive.\<close>

definition positive_integer :: "string \<Rightarrow> nat parsed" where
  "positive_integer spec =
     (if \<not> all_digits spec then Inl (Flag_malformed spec)
      else case number_of_digits spec of
             Fin n \<Rightarrow> if n \<le> 0 then Inl (Flag_malformed spec) else Inr (nat n)
           | _ \<Rightarrow> Inl (Flag_malformed spec))"

definition consume_positive_integer :: "string \<Rightarrow> string list \<Rightarrow> nat \<Rightarrow> (nat \<times> nat) parsed" where
  "consume_positive_integer flag args i =
     bind_res (take_value flag args i) (\<lambda>(spec, nxt). bind_res (positive_integer spec) (\<lambda>n. Inr (n, nxt)))"

definition consume_memory :: "string \<Rightarrow> string list \<Rightarrow> nat \<Rightarrow> (nat \<times> nat) parsed" where
  "consume_memory flag args i =
     bind_res (take_value flag args i) (\<lambda>(spec, nxt). bind_res (positive_integer spec) (\<lambda>n. Inr (n, nxt)))"

definition consume_cpu_weight :: "string \<Rightarrow> string list \<Rightarrow> nat \<Rightarrow> (nat \<times> nat) parsed" where
  "consume_cpu_weight flag args i = consume_positive_integer flag args i"

definition consume_vcpus :: "string \<Rightarrow> string list \<Rightarrow> nat \<Rightarrow> (nat \<times> nat) parsed" where
  "consume_vcpus flag args i = consume_positive_integer flag args i"

text \<open>\<open>/^(?:[0-9]+|[0-9]*\.[0-9]+)$/\<close>\<close>

definition decimal_of :: "string \<Rightarrow> decimal option" where
  "decimal_of spec =
     (if all_digits spec then Some (Decimal (dec_value spec) 0)
      else case index_of (CHR ''.'') spec of
             None \<Rightarrow> None
           | Some d \<Rightarrow>
               let whole = take d spec; frac = drop (Suc d) spec
               in if list_all is_digit whole \<and> all_digits frac
                  then Some (Decimal (dec_value (whole @ frac)) (length frac)) else None)"

text \<open>The double nearest to the literal is 0 up to half the least subnormal, infinite from
  \<open>double_overflow\<close> on.\<close>

definition rounds_to_zero :: "decimal \<Rightarrow> bool" where
  "rounds_to_zero d \<longleftrightarrow> digits d * 2 ^ 1075 \<le> 10 ^ scale d"

definition rounds_to_infinity :: "decimal \<Rightarrow> bool" where
  "rounds_to_infinity d \<longleftrightarrow> double_overflow * 10 ^ scale d \<le> digits d"

definition cpu_quota_of :: "string \<Rightarrow> decimal parsed" where
  "cpu_quota_of spec =
     (case decimal_of spec of
        None \<Rightarrow> Inl (Flag_malformed spec)
      | Some d \<Rightarrow> if rounds_to_infinity d \<or> rounds_to_zero d then Inl (Flag_malformed spec) else Inr d)"

definition consume_cpu_quota :: "string \<Rightarrow> string list \<Rightarrow> nat \<Rightarrow> (decimal \<times> nat) parsed" where
  "consume_cpu_quota flag args i =
     bind_res (take_value flag args i) (\<lambda>(spec, nxt). bind_res (cpu_quota_of spec) (\<lambda>d. Inr (d, nxt)))"

definition consume_guest_cwd :: "string \<Rightarrow> string list \<Rightarrow> nat \<Rightarrow> (string \<times> nat) parsed" where
  "consume_guest_cwd flag args i = take_value flag args i"

definition cpu_args_or_undefined :: "cpu_args \<Rightarrow> cpu_args option" where
  "cpu_args_or_undefined cpu =
     (if max_vcpus cpu = None \<and> quota_cpus cpu = None \<and> weight cpu = None then None else Some cpu)"

definition assert_flag_unused :: "bool \<Rightarrow> string \<Rightarrow> unit parsed" where
  "assert_flag_unused used flag = (if used then Inl (Flag_duplicate flag) else Inr ())"

section \<open>The parser loop\<close>

lemma take_value_joined: "CHR ''='' \<notin> set flag \<Longrightarrow> take_value (flag @ CHR ''='' # v) args i = Inr (v, i)"
  by (simp add: take_value_def)

lemma take_value_spaced:
  "CHR ''='' \<notin> set flag \<Longrightarrow> Suc i < length args \<Longrightarrow> take_value flag args i = Inr (args ! Suc i, Suc i)"
  by (simp add: take_value_def index_of_None_iff [symmetric])

text \<open>
  The contract of the three parsers. \<open>flag_for\<close> looks an argument up in the flag tables,
  \<open>handler\<close> is the table of handlers, \<open>other\<close> what is done with an argument that is no flag.
  A handler either takes a value (after its guard) or none, and neither looks at its position.
\<close>

locale flag_parser =
  fixes parse_from :: "'s \<Rightarrow> string list \<Rightarrow> nat \<Rightarrow> 's parsed"
    and flag_for :: "string \<Rightarrow> 'f option"
    and handler :: "'f \<Rightarrow> 's \<Rightarrow> string \<Rightarrow> string list \<Rightarrow> nat \<Rightarrow> ('s \<times> nat) parsed"
    and other :: "'s \<Rightarrow> string \<Rightarrow> 's parsed"
    and takes_value :: "'f \<Rightarrow> bool"
    and guard :: "'f \<Rightarrow> 's \<Rightarrow> unit parsed"
    and act :: "'f \<Rightarrow> 's \<Rightarrow> string \<Rightarrow> 's parsed"
    and bare :: "'f \<Rightarrow> 's \<Rightarrow> string \<Rightarrow> 's parsed"
  assumes parse_unfold: "parse_from s args i =
      (if i < length args then
         (case flag_for (args ! i) of
            Some f \<Rightarrow> bind_res (handler f s (args ! i) args i) (\<lambda>(s', n). parse_from s' args (Suc n))
          | None \<Rightarrow> bind_res (other s (args ! i)) (\<lambda>s'. parse_from s' args (Suc i)))
       else Inr s)"
    and handler_value: "takes_value f \<Longrightarrow> handler f s flag args i =
      bind_res (guard f s) (\<lambda>_. bind_res (take_value flag args i) (\<lambda>(v, n).
        bind_res (act f s v) (\<lambda>s'. Inr (s', n))))"
    and handler_bare: "\<not> takes_value f \<Longrightarrow> handler f s flag args i = bind_res (bare f s flag) (\<lambda>s'. Inr (s', i))"
begin

lemma handler_index:
  "handler f s flag args i = Inr (s', n) \<Longrightarrow> i < length args \<Longrightarrow> i \<le> n \<and> n < length args"
  by (cases "takes_value f") (auto simp: handler_value handler_bare result_simps dest: take_value_index)

lemma parse_end: "length args \<le> i \<Longrightarrow> parse_from s args i = Inr s"
  by (subst parse_unfold) simp

text \<open>One rule for the invariants of the parsers.\<close>

lemma parse_invariant:
  assumes "parse_from s args i = Inr t" "I s"
    and "\<And>f u v w. takes_value f \<Longrightarrow> I u \<Longrightarrow> guard f u = Inr () \<Longrightarrow> act f u v = Inr w \<Longrightarrow> I w"
    and "\<And>f u a w. \<not> takes_value f \<Longrightarrow> I u \<Longrightarrow> bare f u a = Inr w \<Longrightarrow> I w"
    and "\<And>u a w. I u \<Longrightarrow> flag_for a = None \<Longrightarrow> other u a = Inr w \<Longrightarrow> I w"
  shows "I t"
  using assms(1,2)
proof (induction "length args - i" arbitrary: s i rule: less_induct)
  case less
  show ?case
  proof (cases "i < length args")
    case False
    then show ?thesis using less.prems by (simp add: parse_end)
  next
    case True
    show ?thesis
    proof (cases "flag_for (args ! i)")
      case None
      then obtain u where u: "other s (args ! i) = Inr u" "parse_from u args (Suc i) = Inr t"
        using less.prems(1) True by (subst (asm) parse_unfold) (auto simp: result_simps)
      show ?thesis
        using True by (intro less.hyps [OF _ u(2)] assms(5) [OF less.prems(2) None u(1)]) simp
    next
      case (Some f)
      then obtain u n where u: "handler f s (args ! i) args i = Inr (u, n)" "parse_from u args (Suc n) = Inr t"
        using less.prems(1) True by (subst (asm) parse_unfold) (auto simp: result_simps)
      have n: "i \<le> n" using handler_index [OF u(1) True] by simp
      have "I u"
        using u(1) less.prems(2) assms(3,4)
        by (cases "takes_value f") (auto simp: handler_value handler_bare result_simps)
      then show ?thesis using True n by (intro less.hyps [OF _ u(2)]) simp
    qed
  qed
qed

lemma handler_append:
  "handler f s flag xs i = Inr (s', n) \<Longrightarrow> i < length xs \<Longrightarrow> handler f s flag (xs @ ys) i = Inr (s', n)"
  by (cases "takes_value f")
     (auto simp: handler_value handler_bare result_simps take_value_def nth_append split: option.splits if_splits)

lemma handler_cons:
  "handler f s flag (x # xs) (Suc i) = bind_res (handler f s flag xs i) (\<lambda>(s', n). Inr (s', Suc n))"
proof (cases "takes_value f")
  case True
  have "take_value flag (x # xs) (Suc i) = bind_res (take_value flag xs i) (\<lambda>(v, n). Inr (v, Suc n))"
    by (simp add: take_value_def split: option.split)
  then show ?thesis
    using True by (cases "guard f s"; cases "take_value flag xs i")
      (auto simp: handler_value bind_res_def split: sum.split)
next
  case False
  then show ?thesis by (cases "bare f s flag") (simp_all add: handler_bare)
qed

lemma parse_cons: "parse_from s (x # xs) (Suc i) = parse_from s xs i"
proof (induction "length xs - i" arbitrary: s i rule: less_induct)
  case less
  show ?case
  proof (cases "i < length xs")
    case False
    then show ?thesis by (simp add: parse_end)
  next
    case True
    have other: "parse_from u (x # xs) (Suc (Suc i)) = parse_from u xs (Suc i)" for u
      using True by (intro less.hyps) simp
    have next_arg: "parse_from u (x # xs) (Suc (Suc n)) = parse_from u xs (Suc n)" if "i \<le> n" for u n
      using True that by (intro less.hyps) simp
    show ?thesis
    proof (cases "flag_for (xs ! i)")
      case None
      then show ?thesis
        using True other by (subst parse_unfold, subst (2) parse_unfold) simp
    next
      case (Some f)
      show ?thesis
      proof (cases "handler f s (xs ! i) xs i")
        case (Inl e)
        then show ?thesis
          using True Some by (subst parse_unfold, subst (2) parse_unfold) (simp add: handler_cons)
      next
        case (Inr p)
        obtain u n where p: "p = (u, n)" by (cases p)
        have "i \<le> n" using handler_index [of f s "xs ! i" xs i u n] Inr p True by simp
        then show ?thesis
          using True Some Inr p next_arg
          by (subst parse_unfold, subst (2) parse_unfold) (simp add: handler_cons)
      qed
    qed
  qed
qed

lemma parse_drop: "parse_from s (xs @ ys) (length xs) = parse_from s ys 0"
  by (induction xs) (simp_all add: parse_cons)

text \<open>Parsing is compositional: a prefix that parses leaves the state the rest starts from.\<close>

theorem parse_append:
  assumes "parse_from s xs i = Inr t" "i \<le> length xs"
  shows "parse_from s (xs @ ys) i = parse_from t ys 0"
  using assms
proof (induction "length xs - i" arbitrary: s i rule: less_induct)
  case less
  show ?case
  proof (cases "i < length xs")
    case False
    then have "i = length xs" using less.prems(2) by simp
    then show ?thesis using less.prems(1) by (simp add: parse_end parse_drop)
  next
    case True
    show ?thesis
    proof (cases "flag_for (xs ! i)")
      case None
      then obtain u where u: "other s (xs ! i) = Inr u" "parse_from u xs (Suc i) = Inr t"
        using less.prems(1) True by (subst (asm) parse_unfold) (auto simp: result_simps)
      have "parse_from u (xs @ ys) (Suc i) = parse_from t ys 0"
        using True by (intro less.hyps [OF _ u(2)]) simp_all
      then show ?thesis using True None u(1) by (subst parse_unfold) (simp add: nth_append)
    next
      case (Some f)
      then obtain u n where u: "handler f s (xs ! i) xs i = Inr (u, n)" "parse_from u xs (Suc n) = Inr t"
        using less.prems(1) True by (subst (asm) parse_unfold) (auto simp: result_simps)
      have n: "i \<le> n" "n < length xs" using handler_index [OF u(1) True] by simp_all
      have "parse_from u (xs @ ys) (Suc n) = parse_from t ys 0"
        using n True by (intro less.hyps [OF _ u(2)]) simp_all
      then show ?thesis
        using True Some handler_append [OF u(1) True] by (subst parse_unfold) (simp add: nth_append)
    qed
  qed
qed

text \<open>\<open>--flag value\<close> and \<open>--flag=value\<close> are the same.\<close>

theorem joined_value:
  assumes "flag_for flag = Some f" "flag_for (flag @ CHR ''='' # v) = Some f" "takes_value f"
    and "CHR ''='' \<notin> set flag"
  shows "parse_from s ((flag @ CHR ''='' # v) # rest) 0 = parse_from s (flag # v # rest) 0"
proof -
  have spaced: "take_value flag (flag # v # rest) 0 = Inr (v, 1)"
    using take_value_spaced [OF assms(4), of 0 "flag # v # rest"] by simp
  have skip: "parse_from u (flag # v # rest) 2 = parse_from u ((flag @ CHR ''='' # v) # rest) 1" for u
    using parse_cons [of u flag "v # rest" 1] parse_cons [of u v rest 0]
      parse_cons [of u "flag @ CHR ''='' # v" rest 0] by (simp add: numeral_2_eq_2)
  show ?thesis
  proof (cases "bind_res (guard f s) (\<lambda>_. act f s v)")
    case (Inl e)
    then show ?thesis
      using assms(1-3) take_value_joined [OF assms(4)] spaced
      by (subst parse_unfold, subst (2) parse_unfold)
         (auto simp: handler_value result_simps)
  next
    case (Inr u)
    then show ?thesis
      using assms(1-3) take_value_joined [OF assms(4)] spaced skip
      by (subst parse_unfold, subst (2) parse_unfold)
         (auto simp: handler_value result_simps numeral_2_eq_2)
  qed
qed

end

end
