(* ===== verification/Run_Args.thy ===== *)
theory Run_Args
  imports Cli_Flags
begin

text \<open>
  \<^verbatim>\<open>packages/cli/src/parse-run-args.ts\<close>: the arguments of \<open>machinen boot\<close>. One constructor of
  \<open>run_flag\<close> and one handler per flag of the tables. \<open>quiet\<close> tells whether one of the two
  environment variables that silence the deprecation note is set; the note is collected in
  \<open>warnings\<close> (it is printed at once, also when a later argument is refused).
\<close>

datatype run_flag =
    Run_mount | Run_live_mount | Run_env | Run_port_forward | Run_snapshot | Run_nested | Run_nested_value
  | Run_guest_cwd | Run_name | Run_detach | Run_json | Run_memory | Run_cpu_quota | Run_cpu_weight | Run_vcpus

record run_state =
  rs_positional :: "string list"
  rs_mount :: "mount_arg option"
  rs_live_mounts :: "live_mount list"
  rs_env :: "(string \<times> string) list"
  rs_port_forward :: "port_forward list"
  rs_seen_host_ports :: "nat list"
  rs_snapshot :: "string option"
  rs_nested :: bool
  rs_name :: "string option"
  rs_guest_cwd :: "string option"
  rs_detached :: bool
  rs_memory :: "nat option"
  rs_cpu :: cpu_args
  rs_json :: bool
  rs_quiet :: bool
  rs_warnings :: "string list"

record run_args =
  run_positional :: "string list"
  run_double_dash_args :: "string list"
  run_mount :: "mount_arg option"
  run_live_mounts :: "live_mount list option"
  run_env :: "(string \<times> string) list option"
  run_port_forward :: "port_forward list option"
  run_snapshot :: "string option"
  run_nested :: "bool option"
  run_name :: string
  run_guest_cwd :: "string option"
  run_detached :: "bool option"
  run_memory :: "nat option"
  run_cpu :: "cpu_args option"
  run_json :: "bool option"

definition DEFAULT_VM_NAME :: string where "DEFAULT_VM_NAME = ''default''"

definition RUN_VALUE_FLAGS :: "(string \<times> run_flag) list" where
  "RUN_VALUE_FLAGS =
     [(''--mount'', Run_mount), (''--mount-live'', Run_live_mount), (''--env'', Run_env), (''-p'', Run_port_forward),
      (''--publish'', Run_port_forward), (''--snapshot'', Run_snapshot), (''--cwd'', Run_guest_cwd),
      (''--name'', Run_name), (''--memory'', Run_memory), (''--cpu-quota'', Run_cpu_quota),
      (''--cpu-weight'', Run_cpu_weight), (''--vcpus'', Run_vcpus)]"

definition RUN_BARE_FLAGS :: "(string \<times> run_flag) list" where
  "RUN_BARE_FLAGS =
     [(''--nested'', Run_nested), (''--detached'', Run_detach), (''--detach'', Run_detach), (''--json'', Run_json)]"

definition new_run_parse_state :: "bool \<Rightarrow> run_state" where
  "new_run_parse_state quiet =
     \<lparr>rs_positional = [], rs_mount = None, rs_live_mounts = [], rs_env = [], rs_port_forward = [],
      rs_seen_host_ports = [], rs_snapshot = None, rs_nested = False, rs_name = None, rs_guest_cwd = None,
      rs_detached = False, rs_memory = None, rs_cpu = no_cpu_args, rs_json = False, rs_quiet = quiet,
      rs_warnings = []\<rparr>"

definition split_command_args :: "string list \<Rightarrow> string list \<times> string list" where
  "split_command_args argv =
     (case index_of ''--'' argv of
        None \<Rightarrow> (argv, [])
      | Some i \<Rightarrow> (take i argv, drop (Suc i) argv))"

definition run_flag_for :: "string \<Rightarrow> run_flag option" where
  "run_flag_for arg =
     (case index_of (CHR ''='') arg of
        Some eq \<Rightarrow>
          let head = take eq arg
          in if head = ''--nested'' then Some Run_nested_value else map_of RUN_VALUE_FLAGS head
      | None \<Rightarrow> (case map_of RUN_BARE_FLAGS arg of Some f \<Rightarrow> Some f | None \<Rightarrow> map_of RUN_VALUE_FLAGS arg))"

section \<open>Handlers\<close>

type_synonym run_handler = "run_state \<Rightarrow> string \<Rightarrow> string list \<Rightarrow> nat \<Rightarrow> (run_state \<times> nat) parsed"

definition handle_run_mount :: run_handler where
  "handle_run_mount s flag args i =
     bind_res (assert_flag_unused (is_set (rs_mount s)) ''--mount'') (\<lambda>_.
     bind_res (consume_mount flag args i) (\<lambda>(v, n). Inr (s\<lparr>rs_mount := Some v\<rparr>, n)))"

definition handle_run_live_mount :: run_handler where
  "handle_run_live_mount s flag args i =
     bind_res (consume_live_mount flag args i) (\<lambda>(v, n). Inr (s\<lparr>rs_live_mounts := rs_live_mounts s @ [v]\<rparr>, n))"

definition handle_run_env :: run_handler where
  "handle_run_env s flag args i =
     bind_res (consume_env flag args i) (\<lambda>((k, v), n). Inr (s\<lparr>rs_env := set_env k v (rs_env s)\<rparr>, n))"

definition handle_run_port_forward :: run_handler where
  "handle_run_port_forward s flag args i =
     bind_res (consume_port_forward flag args i (rs_seen_host_ports s) (rs_port_forward s)) (\<lambda>(seen, fw, n).
       Inr (s\<lparr>rs_seen_host_ports := seen, rs_port_forward := fw\<rparr>, n))"

definition handle_run_snapshot :: run_handler where
  "handle_run_snapshot s flag args i =
     bind_res (assert_flag_unused (is_set (rs_snapshot s)) ''--snapshot'') (\<lambda>_.
     bind_res (take_value flag args i) (\<lambda>(v, n). Inr (s\<lparr>rs_snapshot := Some v\<rparr>, n)))"

definition handle_run_nested :: run_handler where
  "handle_run_nested s flag args i =
     bind_res (assert_flag_unused (rs_nested s) ''--nested'') (\<lambda>_. Inr (s\<lparr>rs_nested := True\<rparr>, i))"

definition handle_run_nested_value :: run_handler where
  "handle_run_nested_value s flag args i = Inl (Flag_malformed ''--nested'')"

definition handle_run_guest_cwd :: run_handler where
  "handle_run_guest_cwd s flag args i =
     bind_res (assert_flag_unused (is_set (rs_guest_cwd s)) ''--cwd'') (\<lambda>_.
     bind_res (consume_guest_cwd flag args i) (\<lambda>(v, n). Inr (s\<lparr>rs_guest_cwd := Some v\<rparr>, n)))"

definition handle_run_name :: run_handler where
  "handle_run_name s flag args i =
     bind_res (assert_flag_unused (is_set (rs_name s)) ''--name'') (\<lambda>_.
     bind_res (take_value flag args i) (\<lambda>(v, n). Inr (s\<lparr>rs_name := Some v\<rparr>, n)))"

definition warn_deprecated_detached :: "string \<Rightarrow> run_state \<Rightarrow> run_state" where
  "warn_deprecated_detached flag s =
     (if flag = ''--detached'' \<and> \<not> rs_quiet s
      then s\<lparr>rs_warnings := rs_warnings s @
        [''machinen: --detached is deprecated; use --detach (same behaviour).'' @ [nl_char]]\<rparr>
      else s)"

definition handle_run_detach :: run_handler where
  "handle_run_detach s flag args i =
     bind_res (assert_flag_unused (rs_detached s) ''--detached'') (\<lambda>_.
       Inr (warn_deprecated_detached flag (s\<lparr>rs_detached := True\<rparr>), i))"

definition handle_run_json :: run_handler where
  "handle_run_json s flag args i = Inr (s\<lparr>rs_json := True\<rparr>, i)"

definition handle_run_memory :: run_handler where
  "handle_run_memory s flag args i =
     bind_res (assert_flag_unused (is_set (rs_memory s)) ''--memory'') (\<lambda>_.
     bind_res (consume_memory flag args i) (\<lambda>(v, n). Inr (s\<lparr>rs_memory := Some v\<rparr>, n)))"

definition handle_run_cpu_quota :: run_handler where
  "handle_run_cpu_quota s flag args i =
     bind_res (assert_flag_unused (is_set (quota_cpus (rs_cpu s))) ''--cpu-quota'') (\<lambda>_.
     bind_res (consume_cpu_quota flag args i) (\<lambda>(v, n). Inr (s\<lparr>rs_cpu := (rs_cpu s)\<lparr>quota_cpus := Some v\<rparr>\<rparr>, n)))"

definition handle_run_cpu_weight :: run_handler where
  "handle_run_cpu_weight s flag args i =
     bind_res (assert_flag_unused (is_set (weight (rs_cpu s))) ''--cpu-weight'') (\<lambda>_.
     bind_res (consume_cpu_weight flag args i) (\<lambda>(v, n). Inr (s\<lparr>rs_cpu := (rs_cpu s)\<lparr>weight := Some v\<rparr>\<rparr>, n)))"

definition handle_run_vcpus :: run_handler where
  "handle_run_vcpus s flag args i =
     bind_res (assert_flag_unused (is_set (max_vcpus (rs_cpu s))) ''--vcpus'') (\<lambda>_.
     bind_res (consume_vcpus flag args i) (\<lambda>(v, n). Inr (s\<lparr>rs_cpu := (rs_cpu s)\<lparr>max_vcpus := Some v\<rparr>\<rparr>, n)))"

fun RUN_FLAG_HANDLERS :: "run_flag \<Rightarrow> run_handler" where
  "RUN_FLAG_HANDLERS Run_mount = handle_run_mount"
| "RUN_FLAG_HANDLERS Run_live_mount = handle_run_live_mount"
| "RUN_FLAG_HANDLERS Run_env = handle_run_env"
| "RUN_FLAG_HANDLERS Run_port_forward = handle_run_port_forward"
| "RUN_FLAG_HANDLERS Run_snapshot = handle_run_snapshot"
| "RUN_FLAG_HANDLERS Run_nested = handle_run_nested"
| "RUN_FLAG_HANDLERS Run_nested_value = handle_run_nested_value"
| "RUN_FLAG_HANDLERS Run_guest_cwd = handle_run_guest_cwd"
| "RUN_FLAG_HANDLERS Run_name = handle_run_name"
| "RUN_FLAG_HANDLERS Run_detach = handle_run_detach"
| "RUN_FLAG_HANDLERS Run_json = handle_run_json"
| "RUN_FLAG_HANDLERS Run_memory = handle_run_memory"
| "RUN_FLAG_HANDLERS Run_cpu_quota = handle_run_cpu_quota"
| "RUN_FLAG_HANDLERS Run_cpu_weight = handle_run_cpu_weight"
| "RUN_FLAG_HANDLERS Run_vcpus = handle_run_vcpus"

lemmas consume_defs = consume_mount_def consume_live_mount_def consume_env_def consume_port_forward_def
  consume_memory_def consume_cpu_quota_def consume_cpu_weight_def consume_vcpus_def
  consume_positive_integer_def consume_guest_cwd_def

lemmas run_handler_defs = handle_run_mount_def handle_run_live_mount_def handle_run_env_def
  handle_run_port_forward_def handle_run_snapshot_def handle_run_nested_def handle_run_nested_value_def
  handle_run_guest_cwd_def handle_run_name_def handle_run_detach_def handle_run_json_def handle_run_memory_def
  handle_run_cpu_quota_def handle_run_cpu_weight_def handle_run_vcpus_def

lemma run_handler_index:
  "RUN_FLAG_HANDLERS f s flag args i = Inr (s', n) \<Longrightarrow> i < length args \<Longrightarrow> i \<le> n \<and> n < length args"
  by (cases f) (auto simp: run_handler_defs consume_defs result_simps split: option.splits if_splits dest: take_value_index)

text \<open>An argument that is no flag is positional, unless it starts with a dash.\<close>

definition run_positional_arg :: "run_state \<Rightarrow> string \<Rightarrow> run_state parsed" where
  "run_positional_arg s arg =
     (if starts_with arg ''-'' then Inl (Flag_unknown arg) else Inr (s\<lparr>rs_positional := rs_positional s @ [arg]\<rparr>))"

function parse_run_from :: "run_state \<Rightarrow> string list \<Rightarrow> nat \<Rightarrow> run_state parsed" where
  "parse_run_from s args i =
     (if i < length args then
        (case run_flag_for (args ! i) of
           Some f \<Rightarrow> bind_res (RUN_FLAG_HANDLERS f s (args ! i) args i) (\<lambda>(s', n). parse_run_from s' args (Suc n))
         | None \<Rightarrow> bind_res (run_positional_arg s (args ! i)) (\<lambda>s'. parse_run_from s' args (Suc i)))
      else Inr s)"
  by pat_completeness auto
termination
  by (relation "measure (\<lambda>(s, args, i). length args - i)") (auto dest!: run_handler_index)

declare parse_run_from.simps [simp del]

definition finish_run_args :: "run_state \<Rightarrow> string list \<Rightarrow> run_args" where
  "finish_run_args s dd =
     \<lparr>run_positional = rs_positional s, run_double_dash_args = dd, run_mount = rs_mount s,
      run_live_mounts = non_empty (rs_live_mounts s), run_env = non_empty (rs_env s),
      run_port_forward = non_empty (rs_port_forward s), run_snapshot = rs_snapshot s,
      run_nested = true_or_undefined (rs_nested s), run_name = or_else (rs_name s) DEFAULT_VM_NAME,
      run_guest_cwd = rs_guest_cwd s, run_detached = true_or_undefined (rs_detached s), run_memory = rs_memory s,
      run_cpu = cpu_args_or_undefined (rs_cpu s), run_json = true_or_undefined (rs_json s)\<rparr>"

definition parse_run_args :: "bool \<Rightarrow> string list \<Rightarrow> run_args parsed" where
  "parse_run_args quiet argv =
     (let (pre, dd) = split_command_args argv
      in bind_res (parse_run_from (new_run_parse_state quiet) pre 0) (\<lambda>s. Inr (finish_run_args s dd)))"

section \<open>The loop's contract\<close>

fun run_takes_value :: "run_flag \<Rightarrow> bool" where
  "run_takes_value Run_nested = False"
| "run_takes_value Run_nested_value = False"
| "run_takes_value Run_detach = False"
| "run_takes_value Run_json = False"
| "run_takes_value _ = True"

fun run_guard :: "run_flag \<Rightarrow> run_state \<Rightarrow> unit parsed" where
  "run_guard Run_mount s = assert_flag_unused (is_set (rs_mount s)) ''--mount''"
| "run_guard Run_snapshot s = assert_flag_unused (is_set (rs_snapshot s)) ''--snapshot''"
| "run_guard Run_guest_cwd s = assert_flag_unused (is_set (rs_guest_cwd s)) ''--cwd''"
| "run_guard Run_name s = assert_flag_unused (is_set (rs_name s)) ''--name''"
| "run_guard Run_memory s = assert_flag_unused (is_set (rs_memory s)) ''--memory''"
| "run_guard Run_cpu_quota s = assert_flag_unused (is_set (quota_cpus (rs_cpu s))) ''--cpu-quota''"
| "run_guard Run_cpu_weight s = assert_flag_unused (is_set (weight (rs_cpu s))) ''--cpu-weight''"
| "run_guard Run_vcpus s = assert_flag_unused (is_set (max_vcpus (rs_cpu s))) ''--vcpus''"
| "run_guard _ s = Inr ()"

text \<open>What a handler makes of the value alone: the handler on a joined argument.\<close>

definition run_act :: "run_flag \<Rightarrow> run_state \<Rightarrow> string \<Rightarrow> run_state parsed" where
  "run_act f s v = bind_res (RUN_FLAG_HANDLERS f s (CHR ''='' # v) [] 0) (\<lambda>(s', n). Inr s')"

definition run_bare :: "run_flag \<Rightarrow> run_state \<Rightarrow> string \<Rightarrow> run_state parsed" where
  "run_bare f s flag = bind_res (RUN_FLAG_HANDLERS f s flag [] 0) (\<lambda>(s', n). Inr s')"

lemma take_value_eq: "take_value (CHR ''='' # v) [] 0 = Inr (v, 0)"
  by (simp add: take_value_def)

lemma assert_flag_unused_cases: "assert_flag_unused b f = (if b then Inl (Flag_duplicate f) else Inr ())"
  by (rule assert_flag_unused_def)

lemma run_handler_value:
  "run_takes_value f \<Longrightarrow> RUN_FLAG_HANDLERS f s flag args i =
    bind_res (run_guard f s) (\<lambda>_. bind_res (take_value flag args i) (\<lambda>(v, n).
      bind_res (run_act f s v) (\<lambda>s'. Inr (s', n))))"
  by (cases f; cases "take_value flag args i")
     (auto simp: run_act_def run_handler_defs consume_defs take_value_eq assert_flag_unused_def bind_res_def
      split: sum.splits option.splits if_splits)

lemma run_handler_bare:
  "\<not> run_takes_value f \<Longrightarrow> RUN_FLAG_HANDLERS f s flag args i =
    bind_res (run_bare f s flag) (\<lambda>s'. Inr (s', i))"
  by (cases f) (simp_all add: run_bare_def run_handler_defs assert_flag_unused_def)

interpretation run: flag_parser parse_run_from run_flag_for RUN_FLAG_HANDLERS run_positional_arg
  run_takes_value run_guard run_act run_bare
  by standard (simp add: parse_run_from.simps, (rule run_handler_value run_handler_bare, assumption)+)

section \<open>Invariants of the parsed arguments\<close>

definition valid_forwards :: "nat list \<Rightarrow> port_forward list \<Rightarrow> bool" where
  "valid_forwards seen fws \<longleftrightarrow> seen = map host_port fws \<and> distinct seen \<and>
     (\<forall>p \<in> set fws. 1 \<le> host_port p \<and> host_port p \<le> 65535 \<and> 1 \<le> guest_port p \<and> guest_port p \<le> 65535)"

lemma valid_forwards_empty [simp]: "valid_forwards [] []" by (simp add: valid_forwards_def)

lemma parse_port_range: "parse_port raw = Inr n \<Longrightarrow> 1 \<le> n \<and> n \<le> 65535"
  by (auto simp: parse_port_def split: if_splits)

lemma consume_port_forward_valid:
  "consume_port_forward flag args i seen fws = Inr (seen', fws', n) \<Longrightarrow> valid_forwards seen fws \<Longrightarrow>
   valid_forwards seen' fws'"
  by (auto simp: consume_port_forward_def result_simps valid_forwards_def dest!: parse_port_range split: if_splits)

text \<open>The keys of an environment: distinct, not empty, without an equals sign.\<close>

definition env_key :: "string \<Rightarrow> bool" where
  "env_key k \<longleftrightarrow> k \<noteq> [] \<and> CHR ''='' \<notin> set k \<and> k \<noteq> ''__proto__''"

definition env_ok :: "(string \<times> string) list \<Rightarrow> bool" where
  "env_ok env \<longleftrightarrow> distinct (map fst env) \<and> (\<forall>k \<in> fst ` set env. env_key k)"

definition run_state_ok :: "run_state \<Rightarrow> bool" where
  "run_state_ok s \<longleftrightarrow> valid_forwards (rs_seen_host_ports s) (rs_port_forward s) \<and>
     env_ok (rs_env s) \<and>
     (\<forall>m \<in> set (rs_live_mounts s). live_host m \<noteq> [] \<and> live_guest m \<noteq> [] \<and> CHR '':'' \<notin> set (live_guest m)) \<and>
     (\<forall>n. rs_memory s = Some n \<longrightarrow> 0 < n)"

lemma live_mount_of_ok:
  "live_mount_of spec = Inr m \<Longrightarrow> live_host m \<noteq> [] \<and> live_guest m \<noteq> [] \<and> CHR '':'' \<notin> set (live_guest m)"
proof -
  assume m: "live_mount_of spec = Inr m"
  let ?parts = "split_on (CHR '':'') spec"
  have parts: "2 \<le> length ?parts" "live_host m = ?parts ! 0" "live_guest m = ?parts ! 1"
    "?parts ! 0 \<noteq> []" "?parts ! 1 \<noteq> []"
    using m by (auto simp: live_mount_of_def Let_def result_simps split: if_splits)
  then have "live_guest m \<in> set ?parts" by simp
  then show ?thesis using parts split_on_parts by metis
qed

lemma consume_env_ok:
  assumes "consume_env flag args i = Inr ((k, v), n)"
  shows "k \<noteq> []" "CHR ''='' \<notin> set k"
proof -
  obtain spec eq where "index_of (CHR ''='') spec = Some eq" "eq \<noteq> 0" "k = take eq spec"
    using assms unfolding consume_env_def bind_res_eq_Inr
    by (elim exE conjE, simp split: prod.splits option.splits if_split_asm)
  then show "k \<noteq> []" "CHR ''='' \<notin> set k" by (auto dest: index_of_SomeD)
qed

lemma set_env_ok: "env_ok env \<Longrightarrow> k \<noteq> [] \<Longrightarrow> CHR ''='' \<notin> set k \<Longrightarrow> env_ok (set_env k v env)"
proof (cases "k = ''__proto__''")
  case False
  assume "env_ok env" "k \<noteq> []" "CHR ''='' \<notin> set k"
  then have "distinct (map fst (AList.update k v env))" "\<forall>j \<in> insert k (fst ` set env). env_key j"
    using False by (simp_all add: env_ok_def env_key_def distinct_update)
  then show ?thesis using False by (simp add: env_ok_def set_env_def dom_update)
qed (simp add: set_env_def)

lemma run_state_ok_new: "run_state_ok (new_run_parse_state quiet)"
  by (simp add: run_state_ok_def new_run_parse_state_def env_ok_def)

lemma positive_integer_pos: "positive_integer spec = Inr n \<Longrightarrow> 0 < n"
  by (auto simp: positive_integer_def split: if_splits jsnum.splits)

lemma run_act_ok:
  assumes "run_act f s v = Inr t" "run_takes_value f" "run_state_ok s"
  shows "run_state_ok t"
proof -
  obtain n where h: "RUN_FLAG_HANDLERS f s (CHR ''='' # v) [] 0 = Inr (t, n)"
    using assms(1) by (auto simp: run_act_def result_simps)
  show ?thesis
  proof (cases f)
    case Run_env
    then show ?thesis
      using h assms(3) by (auto simp: handle_run_env_def result_simps run_state_ok_def dest: consume_env_ok intro!: set_env_ok)
  next
    case Run_port_forward
    then show ?thesis
      using h assms(3) by (auto simp: handle_run_port_forward_def result_simps run_state_ok_def dest: consume_port_forward_valid)
  next
    case Run_live_mount
    then show ?thesis
      using h assms(3)
      by (auto simp: handle_run_live_mount_def consume_live_mount_def result_simps run_state_ok_def dest!: live_mount_of_ok)
  next
    case Run_memory
    then show ?thesis
      using h assms(3)
      by (auto simp: handle_run_memory_def consume_memory_def result_simps run_state_ok_def dest!: positive_integer_pos)
  qed (use h assms(2,3) in \<open>auto simp: run_handler_defs result_simps run_state_ok_def\<close>)
qed

lemma run_bare_ok: "run_bare f s a = Inr t \<Longrightarrow> \<not> run_takes_value f \<Longrightarrow> run_state_ok s \<Longrightarrow> run_state_ok t"
  by (cases f) (auto simp: run_bare_def run_handler_defs result_simps run_state_ok_def warn_deprecated_detached_def
    split: if_splits)

lemma run_positional_ok: "run_positional_arg s a = Inr t \<Longrightarrow> run_state_ok s \<Longrightarrow> run_state_ok t"
  by (auto simp: run_positional_arg_def run_state_ok_def split: if_splits)

lemma parse_run_state_ok: "parse_run_from s args i = Inr t \<Longrightarrow> run_state_ok s \<Longrightarrow> run_state_ok t"
  by (rule run.parse_invariant [where I = run_state_ok])
     (auto intro: run_act_ok run_bare_ok run_positional_ok)

lemma parse_run_args_ok:
  assumes "parse_run_args quiet argv = Inr a"
  shows "\<exists>s. run_state_ok s \<and> a = finish_run_args s (snd (split_command_args argv))"
  using assms by (auto simp: parse_run_args_def result_simps split: prod.splits
    dest: parse_run_state_ok [OF _ run_state_ok_new])

end
