(* ===== verification/Fork_Args.thy ===== *)
theory Fork_Args
  imports Run_Args
begin

text \<open>
  \<^verbatim>\<open>packages/cli/src/parse-fork-args.ts\<close>: the arguments of \<open>machinen fork\<close>. An argument that is no
  flag is kept for the target parser. \<open>--detach\<close> forces an eager restore.
\<close>

datatype fork_flag =
    Fork_new_name | Fork_out_dir | Fork_tcp_keep | Fork_detach | Fork_lazy | Fork_port_forward | Fork_mount
  | Fork_live_mount | Fork_env | Fork_guest_cwd | Fork_memory | Fork_cpu_quota | Fork_cpu_weight | Fork_vcpus

record fork_state =
  fs_new_name :: "string option"
  fs_out_dir :: "string option"
  fs_tcp_keep :: bool
  fs_detach :: bool
  fs_lazy :: bool
  fs_port_forward :: "port_forward list"
  fs_seen_host_ports :: "nat list"
  fs_mount :: "mount_arg option"
  fs_live_mounts :: "live_mount list"
  fs_env :: "(string \<times> string) list"
  fs_guest_cwd :: "string option"
  fs_memory :: "nat option"
  fs_cpu :: cpu_args
  fs_rest :: "string list"

record fork_args =
  fork_new_name :: "string option"
  fork_out_dir :: "string option"
  fork_tcp_keep :: bool
  fork_detach :: bool
  fork_lazy :: bool
  fork_port_forward :: "port_forward list"
  fork_mount :: "mount_arg option"
  fork_live_mounts :: "live_mount list option"
  fork_env :: "(string \<times> string) list option"
  fork_guest_cwd :: "string option"
  fork_memory :: "nat option"
  fork_cpu :: "cpu_args option"
  fork_rest :: "string list"

definition FORK_VALUE_FLAGS :: "(string \<times> fork_flag) list" where
  "FORK_VALUE_FLAGS =
     [(''--new-name'', Fork_new_name), (''--out-dir'', Fork_out_dir), (''-p'', Fork_port_forward),
      (''--publish'', Fork_port_forward), (''--mount'', Fork_mount), (''--mount-live'', Fork_live_mount),
      (''--env'', Fork_env), (''--cwd'', Fork_guest_cwd), (''--memory'', Fork_memory),
      (''--cpu-quota'', Fork_cpu_quota), (''--cpu-weight'', Fork_cpu_weight), (''--vcpus'', Fork_vcpus)]"

definition FORK_BARE_FLAGS :: "(string \<times> fork_flag) list" where
  "FORK_BARE_FLAGS = [(''--tcp-keep'', Fork_tcp_keep), (''--detach'', Fork_detach), (''--lazy'', Fork_lazy)]"

definition new_fork_parse_state :: fork_state where
  "new_fork_parse_state =
     \<lparr>fs_new_name = None, fs_out_dir = None, fs_tcp_keep = False, fs_detach = False, fs_lazy = False,
      fs_port_forward = [], fs_seen_host_ports = [], fs_mount = None, fs_live_mounts = [], fs_env = [],
      fs_guest_cwd = None, fs_memory = None, fs_cpu = no_cpu_args, fs_rest = []\<rparr>"

definition fork_flag_for :: "string \<Rightarrow> fork_flag option" where
  "fork_flag_for arg =
     (case index_of (CHR ''='') arg of
        Some eq \<Rightarrow> map_of FORK_VALUE_FLAGS (take eq arg)
      | None \<Rightarrow> (case map_of FORK_BARE_FLAGS arg of Some f \<Rightarrow> Some f | None \<Rightarrow> map_of FORK_VALUE_FLAGS arg))"

section \<open>Handlers\<close>

type_synonym fork_handler = "fork_state \<Rightarrow> string \<Rightarrow> string list \<Rightarrow> nat \<Rightarrow> (fork_state \<times> nat) parsed"

definition handle_fork_new_name :: fork_handler where
  "handle_fork_new_name s flag args i =
     bind_res (assert_flag_unused (is_set (fs_new_name s)) ''--new-name'') (\<lambda>_.
     bind_res (take_value flag args i) (\<lambda>(v, n). Inr (s\<lparr>fs_new_name := Some v\<rparr>, n)))"

definition handle_fork_out_dir :: fork_handler where
  "handle_fork_out_dir s flag args i =
     bind_res (assert_flag_unused (is_set (fs_out_dir s)) ''--out-dir'') (\<lambda>_.
     bind_res (take_value flag args i) (\<lambda>(v, n). Inr (s\<lparr>fs_out_dir := Some v\<rparr>, n)))"

definition handle_fork_tcp_keep :: fork_handler where
  "handle_fork_tcp_keep s flag args i = Inr (s\<lparr>fs_tcp_keep := True\<rparr>, i)"

definition handle_fork_detach :: fork_handler where
  "handle_fork_detach s flag args i = Inr (s\<lparr>fs_detach := True\<rparr>, i)"

definition handle_fork_lazy :: fork_handler where
  "handle_fork_lazy s flag args i = Inr (s\<lparr>fs_lazy := True\<rparr>, i)"

definition handle_fork_port_forward :: fork_handler where
  "handle_fork_port_forward s flag args i =
     bind_res (consume_port_forward flag args i (fs_seen_host_ports s) (fs_port_forward s)) (\<lambda>(seen, fw, n).
       Inr (s\<lparr>fs_seen_host_ports := seen, fs_port_forward := fw\<rparr>, n))"

definition handle_fork_mount :: fork_handler where
  "handle_fork_mount s flag args i =
     bind_res (assert_flag_unused (is_set (fs_mount s)) ''--mount'') (\<lambda>_.
     bind_res (consume_mount flag args i) (\<lambda>(v, n). Inr (s\<lparr>fs_mount := Some v\<rparr>, n)))"

definition handle_fork_live_mount :: fork_handler where
  "handle_fork_live_mount s flag args i =
     bind_res (consume_live_mount flag args i) (\<lambda>(v, n). Inr (s\<lparr>fs_live_mounts := fs_live_mounts s @ [v]\<rparr>, n))"

definition handle_fork_env :: fork_handler where
  "handle_fork_env s flag args i =
     bind_res (consume_env flag args i) (\<lambda>((k, v), n). Inr (s\<lparr>fs_env := set_env k v (fs_env s)\<rparr>, n))"

definition handle_fork_guest_cwd :: fork_handler where
  "handle_fork_guest_cwd s flag args i =
     bind_res (assert_flag_unused (is_set (fs_guest_cwd s)) ''--cwd'') (\<lambda>_.
     bind_res (consume_guest_cwd flag args i) (\<lambda>(v, n). Inr (s\<lparr>fs_guest_cwd := Some v\<rparr>, n)))"

definition handle_fork_memory :: fork_handler where
  "handle_fork_memory s flag args i =
     bind_res (assert_flag_unused (is_set (fs_memory s)) ''--memory'') (\<lambda>_.
     bind_res (consume_memory flag args i) (\<lambda>(v, n). Inr (s\<lparr>fs_memory := Some v\<rparr>, n)))"

definition handle_fork_cpu_quota :: fork_handler where
  "handle_fork_cpu_quota s flag args i =
     bind_res (assert_flag_unused (is_set (quota_cpus (fs_cpu s))) ''--cpu-quota'') (\<lambda>_.
     bind_res (consume_cpu_quota flag args i) (\<lambda>(v, n). Inr (s\<lparr>fs_cpu := (fs_cpu s)\<lparr>quota_cpus := Some v\<rparr>\<rparr>, n)))"

definition handle_fork_cpu_weight :: fork_handler where
  "handle_fork_cpu_weight s flag args i =
     bind_res (assert_flag_unused (is_set (weight (fs_cpu s))) ''--cpu-weight'') (\<lambda>_.
     bind_res (consume_cpu_weight flag args i) (\<lambda>(v, n). Inr (s\<lparr>fs_cpu := (fs_cpu s)\<lparr>weight := Some v\<rparr>\<rparr>, n)))"

definition handle_fork_vcpus :: fork_handler where
  "handle_fork_vcpus s flag args i =
     bind_res (assert_flag_unused (is_set (max_vcpus (fs_cpu s))) ''--vcpus'') (\<lambda>_.
     bind_res (consume_vcpus flag args i) (\<lambda>(v, n). Inr (s\<lparr>fs_cpu := (fs_cpu s)\<lparr>max_vcpus := Some v\<rparr>\<rparr>, n)))"

fun FORK_FLAG_HANDLERS :: "fork_flag \<Rightarrow> fork_handler" where
  "FORK_FLAG_HANDLERS Fork_new_name = handle_fork_new_name"
| "FORK_FLAG_HANDLERS Fork_out_dir = handle_fork_out_dir"
| "FORK_FLAG_HANDLERS Fork_tcp_keep = handle_fork_tcp_keep"
| "FORK_FLAG_HANDLERS Fork_detach = handle_fork_detach"
| "FORK_FLAG_HANDLERS Fork_lazy = handle_fork_lazy"
| "FORK_FLAG_HANDLERS Fork_port_forward = handle_fork_port_forward"
| "FORK_FLAG_HANDLERS Fork_mount = handle_fork_mount"
| "FORK_FLAG_HANDLERS Fork_live_mount = handle_fork_live_mount"
| "FORK_FLAG_HANDLERS Fork_env = handle_fork_env"
| "FORK_FLAG_HANDLERS Fork_guest_cwd = handle_fork_guest_cwd"
| "FORK_FLAG_HANDLERS Fork_memory = handle_fork_memory"
| "FORK_FLAG_HANDLERS Fork_cpu_quota = handle_fork_cpu_quota"
| "FORK_FLAG_HANDLERS Fork_cpu_weight = handle_fork_cpu_weight"
| "FORK_FLAG_HANDLERS Fork_vcpus = handle_fork_vcpus"

lemmas fork_handler_defs = handle_fork_new_name_def
  handle_fork_out_dir_def
  handle_fork_tcp_keep_def
  handle_fork_detach_def
  handle_fork_lazy_def
  handle_fork_port_forward_def
  handle_fork_mount_def
  handle_fork_live_mount_def
  handle_fork_env_def
  handle_fork_guest_cwd_def
  handle_fork_memory_def
  handle_fork_cpu_quota_def
  handle_fork_cpu_weight_def
  handle_fork_vcpus_def

lemma fork_handler_index:
  "FORK_FLAG_HANDLERS f s flag args i = Inr (s', n) \<Longrightarrow> i < length args \<Longrightarrow> i \<le> n \<and> n < length args"
  by (cases f) (auto simp: fork_handler_defs consume_defs result_simps split: option.splits if_splits dest: take_value_index)

definition fork_rest_arg :: "fork_state \<Rightarrow> string \<Rightarrow> fork_state parsed" where
  "fork_rest_arg s arg = Inr (s\<lparr>fs_rest := fs_rest s @ [arg]\<rparr>)"

function parse_fork_from :: "fork_state \<Rightarrow> string list \<Rightarrow> nat \<Rightarrow> fork_state parsed" where
  "parse_fork_from s args i =
     (if i < length args then
        (case fork_flag_for (args ! i) of
           Some f \<Rightarrow> bind_res (FORK_FLAG_HANDLERS f s (args ! i) args i) (\<lambda>(s', n). parse_fork_from s' args (Suc n))
         | None \<Rightarrow> bind_res (fork_rest_arg s (args ! i)) (\<lambda>s'. parse_fork_from s' args (Suc i)))
      else Inr s)"
  by pat_completeness auto
termination
  by (relation "measure (\<lambda>(s, args, i). length args - i)") (auto dest!: fork_handler_index)

declare parse_fork_from.simps [simp del]

definition finish_fork_args :: "fork_state \<Rightarrow> fork_args" where
  "finish_fork_args s =
     \<lparr>fork_new_name = fs_new_name s, fork_out_dir = fs_out_dir s, fork_tcp_keep = fs_tcp_keep s,
      fork_detach = fs_detach s, fork_lazy = (fs_lazy s \<and> \<not> fs_detach s), fork_port_forward = fs_port_forward s,
      fork_mount = fs_mount s, fork_live_mounts = non_empty (fs_live_mounts s), fork_env = non_empty (fs_env s),
      fork_guest_cwd = fs_guest_cwd s, fork_memory = fs_memory s, fork_cpu = cpu_args_or_undefined (fs_cpu s),
      fork_rest = fs_rest s\<rparr>"

definition parse_fork_args :: "string list \<Rightarrow> fork_args parsed" where
  "parse_fork_args argv =
     bind_res (parse_fork_from new_fork_parse_state argv 0) (\<lambda>s. Inr (finish_fork_args s))"

section \<open>The loop's contract\<close>

fun fork_takes_value :: "fork_flag \<Rightarrow> bool" where
  "fork_takes_value Fork_tcp_keep = False"
| "fork_takes_value Fork_detach = False"
| "fork_takes_value Fork_lazy = False"
| "fork_takes_value _ = True"

fun fork_guard :: "fork_flag \<Rightarrow> fork_state \<Rightarrow> unit parsed" where
  "fork_guard Fork_new_name s = assert_flag_unused (is_set (fs_new_name s)) ''--new-name''"
| "fork_guard Fork_out_dir s = assert_flag_unused (is_set (fs_out_dir s)) ''--out-dir''"
| "fork_guard Fork_mount s = assert_flag_unused (is_set (fs_mount s)) ''--mount''"
| "fork_guard Fork_guest_cwd s = assert_flag_unused (is_set (fs_guest_cwd s)) ''--cwd''"
| "fork_guard Fork_memory s = assert_flag_unused (is_set (fs_memory s)) ''--memory''"
| "fork_guard Fork_cpu_quota s = assert_flag_unused (is_set (quota_cpus (fs_cpu s))) ''--cpu-quota''"
| "fork_guard Fork_cpu_weight s = assert_flag_unused (is_set (weight (fs_cpu s))) ''--cpu-weight''"
| "fork_guard Fork_vcpus s = assert_flag_unused (is_set (max_vcpus (fs_cpu s))) ''--vcpus''"
| "fork_guard _ s = Inr ()"

definition fork_act :: "fork_flag \<Rightarrow> fork_state \<Rightarrow> string \<Rightarrow> fork_state parsed" where
  "fork_act f s v = bind_res (FORK_FLAG_HANDLERS f s (CHR ''='' # v) [] 0) (\<lambda>(s', n). Inr s')"

definition fork_bare :: "fork_flag \<Rightarrow> fork_state \<Rightarrow> string \<Rightarrow> fork_state parsed" where
  "fork_bare f s flag = bind_res (FORK_FLAG_HANDLERS f s flag [] 0) (\<lambda>(s', n). Inr s')"

lemma fork_handler_value:
  "fork_takes_value f \<Longrightarrow> FORK_FLAG_HANDLERS f s flag args i =
    bind_res (fork_guard f s) (\<lambda>_. bind_res (take_value flag args i) (\<lambda>(v, n).
      bind_res (fork_act f s v) (\<lambda>s'. Inr (s', n))))"
  by (cases f; cases "take_value flag args i")
     (auto simp: fork_act_def fork_handler_defs consume_defs take_value_eq assert_flag_unused_def bind_res_def
      split: sum.splits option.splits if_splits)

lemma fork_handler_bare:
  "\<not> fork_takes_value f \<Longrightarrow> FORK_FLAG_HANDLERS f s flag args i =
    bind_res (fork_bare f s flag) (\<lambda>s'. Inr (s', i))"
  by (cases f) (simp_all add: fork_bare_def fork_handler_defs)

interpretation fork: flag_parser parse_fork_from fork_flag_for FORK_FLAG_HANDLERS fork_rest_arg
  fork_takes_value fork_guard fork_act fork_bare
  by standard (simp add: parse_fork_from.simps, (rule fork_handler_value fork_handler_bare, assumption)+)

section \<open>Invariants of the parsed arguments\<close>

definition fork_state_ok :: "fork_state \<Rightarrow> bool" where
  "fork_state_ok s \<longleftrightarrow> valid_forwards (fs_seen_host_ports s) (fs_port_forward s) \<and> env_ok (fs_env s) \<and>
     (\<forall>n. fs_memory s = Some n \<longrightarrow> 0 < n)"

lemma fork_state_ok_new: "fork_state_ok new_fork_parse_state"
  by (simp add: fork_state_ok_def new_fork_parse_state_def env_ok_def)

lemma fork_act_ok:
  assumes "fork_act f s v = Inr t" "fork_takes_value f" "fork_state_ok s"
  shows "fork_state_ok t"
proof -
  obtain n where h: "FORK_FLAG_HANDLERS f s (CHR ''='' # v) [] 0 = Inr (t, n)"
    using assms(1) by (auto simp: fork_act_def result_simps)
  show ?thesis
  proof (cases f)
    case Fork_env
    then show ?thesis
      using h assms(3) by (auto simp: handle_fork_env_def result_simps fork_state_ok_def dest: consume_env_ok intro!: set_env_ok)
  next
    case Fork_port_forward
    then show ?thesis
      using h assms(3) by (auto simp: handle_fork_port_forward_def result_simps fork_state_ok_def dest: consume_port_forward_valid)
  next
    case Fork_memory
    then show ?thesis
      using h assms(3)
      by (auto simp: handle_fork_memory_def consume_memory_def result_simps fork_state_ok_def dest!: positive_integer_pos)
  qed (use h assms(2,3) in \<open>auto simp: fork_handler_defs result_simps fork_state_ok_def\<close>)
qed

lemma fork_bare_ok: "fork_bare f s a = Inr t \<Longrightarrow> \<not> fork_takes_value f \<Longrightarrow> fork_state_ok s \<Longrightarrow> fork_state_ok t"
  by (cases f) (auto simp: fork_bare_def fork_handler_defs fork_state_ok_def)

lemma fork_other_ok: "fork_rest_arg s a = Inr t \<Longrightarrow> fork_state_ok s \<Longrightarrow> fork_state_ok t"
  by (auto simp: fork_rest_arg_def fork_state_ok_def split: if_splits)

lemma parse_fork_state_ok: "parse_fork_from s args i = Inr t \<Longrightarrow> fork_state_ok s \<Longrightarrow> fork_state_ok t"
  by (rule fork.parse_invariant [where I = fork_state_ok])
     (auto intro: fork_act_ok fork_bare_ok fork_other_ok)

lemma parse_fork_args_ok:
  "parse_fork_args argv = Inr a \<Longrightarrow> \<exists>s. fork_state_ok s \<and> a = finish_fork_args s"
  by (auto simp: parse_fork_args_def result_simps dest: parse_fork_state_ok [OF _ fork_state_ok_new])

end
