(* ===== verification/Restore_Args.thy ===== *)
theory Restore_Args
  imports Run_Args
begin

text \<open>
  \<^verbatim>\<open>packages/cli/src/parse-restore-args.ts\<close>: the arguments of \<open>machinen restore\<close>. A live mount
  overrides one recorded in the bundle, at most once per guest path.
\<close>

datatype restore_flag = Restore_lazy | Restore_name | Restore_image | Restore_live_mount | Restore_port_forward

record restore_state =
  st_positional :: "string list"
  st_name :: "string option"
  st_image :: "string option"
  st_port_forward :: "port_forward list"
  st_lazy :: bool
  st_live_mounts :: "live_mount list"
  st_seen_live_guests :: "string list"
  st_seen_host_ports :: "nat list"

record restore_args =
  restore_positional :: "string list"
  restore_name :: "string option"
  restore_image :: "string option"
  restore_port_forward :: "port_forward list"
  restore_lazy :: bool
  restore_live_mounts :: "live_mount list"

definition RESTORE_VALUE_FLAGS :: "(string \<times> restore_flag) list" where
  "RESTORE_VALUE_FLAGS =
     [(''--name'', Restore_name), (''--image'', Restore_image), (''--mount-live'', Restore_live_mount),
      (''-p'', Restore_port_forward), (''--publish'', Restore_port_forward)]"

definition RESTORE_BARE_FLAGS :: "(string \<times> restore_flag) list" where
  "RESTORE_BARE_FLAGS = [(''--lazy'', Restore_lazy)]"

definition new_restore_parse_state :: restore_state where
  "new_restore_parse_state =
     \<lparr>st_positional = [], st_name = None, st_image = None, st_port_forward = [], st_lazy = False,
      st_live_mounts = [], st_seen_live_guests = [], st_seen_host_ports = []\<rparr>"

definition restore_flag_for :: "string \<Rightarrow> restore_flag option" where
  "restore_flag_for arg =
     (case index_of (CHR ''='') arg of
        Some eq \<Rightarrow> map_of RESTORE_VALUE_FLAGS (take eq arg)
      | None \<Rightarrow> (case map_of RESTORE_BARE_FLAGS arg of Some f \<Rightarrow> Some f | None \<Rightarrow> map_of RESTORE_VALUE_FLAGS arg))"

section \<open>Handlers\<close>

type_synonym restore_handler = "restore_state \<Rightarrow> string \<Rightarrow> string list \<Rightarrow> nat \<Rightarrow> (restore_state \<times> nat) parsed"

definition handle_restore_lazy :: restore_handler where
  "handle_restore_lazy s flag args i = Inr (s\<lparr>st_lazy := True\<rparr>, i)"

definition take_restore_value :: "string \<Rightarrow> string list \<Rightarrow> nat \<Rightarrow> string \<Rightarrow> (string \<times> nat) parsed" where
  "take_restore_value flag args i display_flag =
     bind_res (take_value flag args i) (\<lambda>(spec, n).
       if spec = [] then Inl (Flag_missing_value display_flag) else Inr (spec, n))"

definition handle_restore_name :: restore_handler where
  "handle_restore_name s flag args i =
     bind_res (take_restore_value flag args i ''--name'') (\<lambda>(spec, n).
     bind_res (assert_flag_unused (is_set (st_name s)) ''--name'') (\<lambda>_. Inr (s\<lparr>st_name := Some spec\<rparr>, n)))"

definition handle_restore_image :: restore_handler where
  "handle_restore_image s flag args i =
     bind_res (take_restore_value flag args i ''--image'') (\<lambda>(spec, n).
     bind_res (assert_flag_unused (is_set (st_image s)) ''--image'') (\<lambda>_. Inr (s\<lparr>st_image := Some spec\<rparr>, n)))"

definition assert_restore_live_guest_unused :: "restore_state \<Rightarrow> string \<Rightarrow> unit parsed" where
  "assert_restore_live_guest_unused s guest =
     (if guest \<in> set (st_seen_live_guests s) then Inl (Guest_duplicate guest) else Inr ())"

definition handle_restore_live_mount :: restore_handler where
  "handle_restore_live_mount s flag args i =
     bind_res (consume_live_mount flag args i) (\<lambda>(v, n).
     bind_res (assert_restore_live_guest_unused s (live_guest v)) (\<lambda>_.
       Inr (s\<lparr>st_seen_live_guests := st_seen_live_guests s @ [live_guest v],
              st_live_mounts := st_live_mounts s @ [v]\<rparr>, n)))"

definition handle_restore_port_forward :: restore_handler where
  "handle_restore_port_forward s flag args i =
     bind_res (consume_port_forward flag args i (st_seen_host_ports s) (st_port_forward s)) (\<lambda>(seen, fw, n).
       Inr (s\<lparr>st_seen_host_ports := seen, st_port_forward := fw\<rparr>, n))"

fun RESTORE_FLAG_HANDLERS :: "restore_flag \<Rightarrow> restore_handler" where
  "RESTORE_FLAG_HANDLERS Restore_lazy = handle_restore_lazy"
| "RESTORE_FLAG_HANDLERS Restore_name = handle_restore_name"
| "RESTORE_FLAG_HANDLERS Restore_image = handle_restore_image"
| "RESTORE_FLAG_HANDLERS Restore_live_mount = handle_restore_live_mount"
| "RESTORE_FLAG_HANDLERS Restore_port_forward = handle_restore_port_forward"

lemmas restore_handler_defs = handle_restore_lazy_def handle_restore_name_def handle_restore_image_def
  handle_restore_live_mount_def handle_restore_port_forward_def take_restore_value_def
  assert_restore_live_guest_unused_def

lemma restore_handler_index:
  "RESTORE_FLAG_HANDLERS f s flag args i = Inr (s', n) \<Longrightarrow> i < length args \<Longrightarrow> i \<le> n \<and> n < length args"
  by (cases f) (auto simp: restore_handler_defs consume_defs result_simps split: option.splits if_splits dest: take_value_index)

definition restore_positional_arg :: "restore_state \<Rightarrow> string \<Rightarrow> restore_state parsed" where
  "restore_positional_arg s arg =
     (if starts_with arg ''-'' then Inl (Flag_unknown arg) else Inr (s\<lparr>st_positional := st_positional s @ [arg]\<rparr>))"

function parse_restore_from :: "restore_state \<Rightarrow> string list \<Rightarrow> nat \<Rightarrow> restore_state parsed" where
  "parse_restore_from s args i =
     (if i < length args then
        (case restore_flag_for (args ! i) of
           Some f \<Rightarrow> bind_res (RESTORE_FLAG_HANDLERS f s (args ! i) args i) (\<lambda>(s', n). parse_restore_from s' args (Suc n))
         | None \<Rightarrow> bind_res (restore_positional_arg s (args ! i)) (\<lambda>s'. parse_restore_from s' args (Suc i)))
      else Inr s)"
  by pat_completeness auto
termination
  by (relation "measure (\<lambda>(s, args, i). length args - i)") (auto dest!: restore_handler_index)

declare parse_restore_from.simps [simp del]

definition finish_restore_args :: "restore_state \<Rightarrow> restore_args" where
  "finish_restore_args s =
     \<lparr>restore_positional = st_positional s, restore_name = st_name s, restore_image = st_image s,
      restore_port_forward = st_port_forward s, restore_lazy = st_lazy s, restore_live_mounts = st_live_mounts s\<rparr>"

definition parse_restore_args :: "string list \<Rightarrow> restore_args parsed" where
  "parse_restore_args argv =
     bind_res (parse_restore_from new_restore_parse_state argv 0) (\<lambda>s. Inr (finish_restore_args s))"

section \<open>The loop's contract\<close>

definition restore_takes_value :: "restore_flag \<Rightarrow> bool" where
  "restore_takes_value f \<longleftrightarrow> f \<noteq> Restore_lazy"

definition restore_act :: "restore_flag \<Rightarrow> restore_state \<Rightarrow> string \<Rightarrow> restore_state parsed" where
  "restore_act f s v = bind_res (RESTORE_FLAG_HANDLERS f s (CHR ''='' # v) [] 0) (\<lambda>(s', n). Inr s')"

definition restore_bare :: "restore_flag \<Rightarrow> restore_state \<Rightarrow> string \<Rightarrow> restore_state parsed" where
  "restore_bare f s flag = bind_res (RESTORE_FLAG_HANDLERS f s flag [] 0) (\<lambda>(s', n). Inr s')"

lemma restore_handler_value:
  "restore_takes_value f \<Longrightarrow> RESTORE_FLAG_HANDLERS f s flag args i =
    bind_res (Inr ()) (\<lambda>_. bind_res (take_value flag args i) (\<lambda>(v, n).
      bind_res (restore_act f s v) (\<lambda>s'. Inr (s', n))))"
  by (cases f; cases "take_value flag args i")
     (auto simp: restore_takes_value_def restore_act_def restore_handler_defs consume_defs take_value_eq
      assert_flag_unused_def bind_res_def split: sum.splits option.splits if_splits)

lemma restore_handler_bare:
  "\<not> restore_takes_value f \<Longrightarrow> RESTORE_FLAG_HANDLERS f s flag args i =
    bind_res (restore_bare f s flag) (\<lambda>s'. Inr (s', i))"
  by (cases f) (simp_all add: restore_takes_value_def restore_bare_def restore_handler_defs)

interpretation restore: flag_parser parse_restore_from restore_flag_for RESTORE_FLAG_HANDLERS
  restore_positional_arg restore_takes_value "\<lambda>_ _. Inr ()" restore_act restore_bare
  by standard (simp add: parse_restore_from.simps, (rule restore_handler_value restore_handler_bare, assumption)+)

section \<open>Invariants of the parsed arguments\<close>

definition restore_state_ok :: "restore_state \<Rightarrow> bool" where
  "restore_state_ok s \<longleftrightarrow> valid_forwards (st_seen_host_ports s) (st_port_forward s) \<and>
     st_seen_live_guests s = map live_guest (st_live_mounts s) \<and> distinct (st_seen_live_guests s) \<and>
     st_name s \<noteq> Some [] \<and> st_image s \<noteq> Some []"

lemma restore_state_ok_new: "restore_state_ok new_restore_parse_state"
  by (simp add: restore_state_ok_def new_restore_parse_state_def)

lemma restore_act_ok: "restore_act f s v = Inr t \<Longrightarrow> restore_takes_value f \<Longrightarrow> restore_state_ok s \<Longrightarrow> restore_state_ok t"
  by (cases f)
     (auto simp: restore_act_def restore_handler_defs restore_takes_value_def take_value_eq result_simps restore_state_ok_def
      dest: consume_port_forward_valid split: if_splits)

lemma restore_bare_ok: "restore_bare f s a = Inr t \<Longrightarrow> \<not> restore_takes_value f \<Longrightarrow> restore_state_ok s \<Longrightarrow> restore_state_ok t"
  by (cases f) (auto simp: restore_bare_def restore_handler_defs restore_takes_value_def restore_state_ok_def)

lemma restore_other_ok: "restore_positional_arg s a = Inr t \<Longrightarrow> restore_state_ok s \<Longrightarrow> restore_state_ok t"
  by (auto simp: restore_positional_arg_def restore_state_ok_def split: if_splits)

lemma parse_restore_state_ok: "parse_restore_from s args i = Inr t \<Longrightarrow> restore_state_ok s \<Longrightarrow> restore_state_ok t"
  by (rule restore.parse_invariant [where I = restore_state_ok])
     (auto intro: restore_act_ok restore_bare_ok restore_other_ok)

lemma parse_restore_args_ok:
  "parse_restore_args argv = Inr a \<Longrightarrow> \<exists>s. restore_state_ok s \<and> a = finish_restore_args s"
  by (auto simp: parse_restore_args_def result_simps dest: parse_restore_state_ok [OF _ restore_state_ok_new])

end
