(* ===== verification/Cli_Target.thy ===== *)
theory Cli_Target
  imports Run_Args
begin

text \<open>
  The small parsers of the command line: \<^verbatim>\<open>packages/cli/src/parse-target.ts\<close>, the VM that a
  command is about, and the filters of \<^verbatim>\<open>packages/cli/src/args.ts\<close>.
\<close>

section \<open>The target\<close>

datatype target = By_name string | By_pid jsnum

record extracted_target =
  ext_target :: target
  ext_rest :: "string list"

fun scan_target :: "string option \<Rightarrow> string list \<Rightarrow> string list \<Rightarrow> (string option \<times> string list) parsed" where
  "scan_target positional rest [] = Inr (positional, rest)"
| "scan_target positional rest (a # args) =
     (if \<not> starts_with a ''-'' then
        (case positional of
           None \<Rightarrow> scan_target (Some a) rest args
         | Some _ \<Rightarrow> scan_target positional (rest @ [a]) args)
      else Inl (Flag_unknown a))"

definition target_of :: "string option \<Rightarrow> target" where
  "target_of positional =
     (case positional of
        None \<Rightarrow> By_name DEFAULT_VM_NAME
      | Some p \<Rightarrow> if all_digits p then By_pid (number_of_digits p) else By_name p)"

definition extract_target :: "string list \<Rightarrow> extracted_target parsed" where
  "extract_target args =
     bind_res (scan_target None [] args) (\<lambda>(p, rest). Inr \<lparr>ext_target = target_of p, ext_rest = rest\<rparr>)"

lemma scan_target_words:
  "scan_target p rest args = Inr (q, r) \<Longrightarrow> list_all (\<lambda>a. \<not> starts_with a ''-'') args"
  by (induction p rest args rule: scan_target.induct) (auto split: if_splits option.splits)

lemma scan_target_some:
  "list_all (\<lambda>a. \<not> starts_with a ''-'') args \<Longrightarrow> scan_target (Some p) rest args = Inr (Some p, rest @ args)"
  by (induction args arbitrary: rest) simp_all

lemma extract_target_words:
  "extract_target args =
     (case filter (\<lambda>a. starts_with a ''-'') args of
        a # _ \<Rightarrow> Inl (Flag_unknown a)
      | [] \<Rightarrow> Inr (case args of
                [] \<Rightarrow> \<lparr>ext_target = By_name DEFAULT_VM_NAME, ext_rest = []\<rparr>
              | p # rest \<Rightarrow> \<lparr>ext_target = target_of (Some p), ext_rest = rest\<rparr>))"
proof -
  have bad: "scan_target (Some p) rest args = Inl (Flag_unknown a)"
    if "filter (\<lambda>a. starts_with a ''-'') args = a # as" for p rest args a as
    using that by (induction args arbitrary: rest) (auto split: if_splits)
  show ?thesis
  proof (cases args)
    case Nil
    then show ?thesis by (simp add: extract_target_def target_of_def)
  next
    case (Cons p rest)
    show ?thesis
    proof (cases "filter (\<lambda>a. starts_with a ''-'') rest")
      case Nil
      then have "list_all (\<lambda>a. \<not> starts_with a ''-'') rest" by (simp add: filter_empty_conv list_all_iff)
      then show ?thesis using Cons Nil by (simp add: extract_target_def scan_target_some)
    next
      case (Cons a as)
      then show ?thesis using \<open>args = p # rest\<close> bad [OF Cons] by (simp add: extract_target_def)
    qed
  qed
qed

section \<open>Stripping flags\<close>

definition consume_json_flag :: "string list \<Rightarrow> bool \<times> string list" where
  "consume_json_flag args =
     foldl (\<lambda>(json, rest) a. if a = ''--json'' then (True, rest) else (json, rest @ [a])) (False, []) args"

definition consume_dry_run_flag :: "string list \<Rightarrow> bool \<times> string list" where
  "consume_dry_run_flag args =
     foldl (\<lambda>(dry, rest) a. if a = ''--dry-run'' \<or> a = ''-n'' then (True, rest) else (dry, rest @ [a])) (False, []) args"

definition arg_value :: "string list \<Rightarrow> string \<Rightarrow> string option" where
  "arg_value argv name =
     (case index_of name argv of
        None \<Rightarrow> None
      | Some i \<Rightarrow> if Suc i < length argv then Some (argv ! Suc i) else None)"

text \<open>\<open>die\<close> ends the process: \<open>None\<close>.\<close>

definition take_flag_value :: "string list \<Rightarrow> nat \<Rightarrow> string \<Rightarrow> string option" where
  "take_flag_value args i flag =
     (if length args \<le> i then None
      else if args ! i = [] \<or> starts_with (args ! i) ''-'' then None else Some (args ! i))"

lemma strip_fold:
  "foldl (\<lambda>(found, rest) a. if P a then (True, rest) else (found, rest @ [a])) (b, ys) xs =
   (b \<or> (\<exists>a \<in> set xs. P a), ys @ filter (\<lambda>a. \<not> P a) xs)"
  by (induction xs arbitrary: b ys) auto

lemma consume_json_flag_eq:
  "consume_json_flag args = (''--json'' \<in> set args, filter (\<lambda>a. a \<noteq> ''--json'') args)"
  by (simp add: consume_json_flag_def strip_fold)

lemma consume_dry_run_flag_eq:
  "consume_dry_run_flag args =
     (''--dry-run'' \<in> set args \<or> ''-n'' \<in> set args, filter (\<lambda>a. a \<noteq> ''--dry-run'' \<and> a \<noteq> ''-n'') args)"
  by (auto simp: consume_dry_run_flag_def strip_fold)

end
