(* ===== verification/Pin_Tree.thy ===== *)
theory Pin_Tree
  imports Posix_Path "HOL-Library.AList"
begin

text \<open>
  The directory \<^verbatim>\<open>names/\<close> of the VM registry and the system calls that
  \<^verbatim>\<open>packages/runtime/src/registry.ts\<close> makes on it. A pin is a plain file whose text is the
  pid of the VM that holds the name; a name with slashes has its pin below directories. A
  directory lists its entries in the order \<open>readdir\<close> returns them.

  The calls return the error code of the file system as a value. \<open>pin_at\<close> abstracts the tree
  to a map from names to pin texts; every call has one lemma that says what it does to the map.
\<close>

datatype pin_node = Pin string | Pin_dir "(string \<times> pin_node) list"

type_synonym pin_dir = "(string \<times> pin_node) list"

datatype fs_code = EEXIST | ENOENT | ENOTDIR | EISDIR | ENOTEMPTY

section \<open>Lookup\<close>

fun node_at :: "pin_dir \<Rightarrow> path \<Rightarrow> pin_node option" where
  "node_at es [] = Some (Pin_dir es)"
| "node_at es (p # ps) =
     (case map_of es p of
        None \<Rightarrow> None
      | Some (Pin t) \<Rightarrow> if ps = [] then Some (Pin t) else None
      | Some (Pin_dir es') \<Rightarrow> node_at es' ps)"

text \<open>\<open>readFileSync(pin, "utf8")\<close>\<close>

definition pin_at :: "pin_dir \<Rightarrow> path \<Rightarrow> string option" where
  "pin_at es ps = (case node_at es ps of Some (Pin t) \<Rightarrow> Some t | _ \<Rightarrow> None)"

section \<open>System calls\<close>

text \<open>\<open>mkdirSync(dir, { recursive: true })\<close>: a plain file at the end of the path is
  \<open>EEXIST\<close>, one on the way \<open>ENOTDIR\<close>.\<close>

fun mkdir_p :: "path \<Rightarrow> pin_dir \<Rightarrow> fs_code + pin_dir" where
  "mkdir_p [] es = Inr es"
| "mkdir_p (p # ps) es =
     (case map_of es p of
        None \<Rightarrow> bind_res (mkdir_p ps []) (\<lambda>es'. Inr (AList.update p (Pin_dir es') es))
      | Some (Pin t) \<Rightarrow> Inl (if ps = [] then EEXIST else ENOTDIR)
      | Some (Pin_dir es') \<Rightarrow> bind_res (mkdir_p ps es') (\<lambda>es''. Inr (AList.update p (Pin_dir es'') es)))"

text \<open>
  The other calls change one entry of the directory the path leads to. The path of \<^verbatim>\<open>names/\<close>
  itself (\<open>[]\<close>) is left alone: no name denotes it.
\<close>

fun in_parent :: "(string \<Rightarrow> pin_dir \<Rightarrow> fs_code + pin_dir) \<Rightarrow> path \<Rightarrow> pin_dir \<Rightarrow> fs_code + pin_dir" where
  "in_parent f [] es = Inl EISDIR"
| "in_parent f [p] es = f p es"
| "in_parent f (p # q # ps) es =
     (case map_of es p of
        None \<Rightarrow> Inl ENOENT
      | Some (Pin t) \<Rightarrow> Inl ENOTDIR
      | Some (Pin_dir es') \<Rightarrow>
          bind_res (in_parent f (q # ps) es') (\<lambda>es''. Inr (AList.update p (Pin_dir es'') es)))"

text \<open>\<open>writeFileSync(pin, text, { flag: "wx" })\<close>\<close>

definition create_entry :: "string \<Rightarrow> string \<Rightarrow> pin_dir \<Rightarrow> fs_code + pin_dir" where
  "create_entry t p es = (case map_of es p of None \<Rightarrow> Inr (AList.update p (Pin t) es) | Some _ \<Rightarrow> Inl EEXIST)"

definition create_pin :: "path \<Rightarrow> string \<Rightarrow> pin_dir \<Rightarrow> fs_code + pin_dir" where
  "create_pin ps t es = in_parent (create_entry t) ps es"

text \<open>\<open>writeFileSync(pin, text)\<close>\<close>

definition write_file_entry :: "string \<Rightarrow> string \<Rightarrow> pin_dir \<Rightarrow> fs_code + pin_dir" where
  "write_file_entry t p es =
     (case map_of es p of Some (Pin_dir _) \<Rightarrow> Inl EISDIR | _ \<Rightarrow> Inr (AList.update p (Pin t) es))"

definition write_pin :: "path \<Rightarrow> string \<Rightarrow> pin_dir \<Rightarrow> fs_code + pin_dir" where
  "write_pin ps t es = in_parent (write_file_entry t) ps es"

text \<open>\<open>unlinkSync(pin)\<close>\<close>

definition unlink_entry :: "string \<Rightarrow> pin_dir \<Rightarrow> fs_code + pin_dir" where
  "unlink_entry p es =
     (case map_of es p of
        None \<Rightarrow> Inl ENOENT
      | Some (Pin_dir _) \<Rightarrow> Inl EISDIR
      | Some (Pin _) \<Rightarrow> Inr (AList.delete p es))"

definition unlink_pin :: "path \<Rightarrow> pin_dir \<Rightarrow> fs_code + pin_dir" where
  "unlink_pin ps es = in_parent unlink_entry ps es"

text \<open>\<open>rmdirSync(dir)\<close>\<close>

definition rmdir_entry :: "string \<Rightarrow> pin_dir \<Rightarrow> fs_code + pin_dir" where
  "rmdir_entry p es =
     (case map_of es p of
        None \<Rightarrow> Inl ENOENT
      | Some (Pin _) \<Rightarrow> Inl ENOTDIR
      | Some (Pin_dir es') \<Rightarrow> if es' = [] then Inr (AList.delete p es) else Inl ENOTEMPTY)"

definition rmdir_pin :: "path \<Rightarrow> pin_dir \<Rightarrow> fs_code + pin_dir" where
  "rmdir_pin ps es = in_parent rmdir_entry ps es"

text \<open>\<open>try { call } catch {}\<close>\<close>

definition quietly :: "('s \<Rightarrow> 'e + 's) \<Rightarrow> 's \<Rightarrow> 's" where
  "quietly f s = (case f s of Inl _ \<Rightarrow> s | Inr s' \<Rightarrow> s')"

section \<open>Walks\<close>

text \<open>\<open>walkPins\<close>: the paths of the plain files, in the order the walk meets them.\<close>

fun walk_pins :: "pin_dir \<Rightarrow> path list" where
  "walk_pins [] = []"
| "walk_pins ((p, Pin t) # es) = [p] # walk_pins es"
| "walk_pins ((p, Pin_dir ds) # es) = map (Cons p) (walk_pins ds) @ walk_pins es"

text \<open>\<open>sweepEmptyPinDirs\<close>: every subdirectory is swept, then removed if it is empty.\<close>

fun sweep_empty_pin_dirs :: "pin_dir \<Rightarrow> pin_dir" where
  "sweep_empty_pin_dirs [] = []"
| "sweep_empty_pin_dirs ((p, Pin t) # es) = (p, Pin t) # sweep_empty_pin_dirs es"
| "sweep_empty_pin_dirs ((p, Pin_dir ds) # es) =
     (if sweep_empty_pin_dirs ds = [] then [] else [(p, Pin_dir (sweep_empty_pin_dirs ds))]) @
     sweep_empty_pin_dirs es"

text \<open>\<open>pruneEmptyParents\<close>: up from \<open>dir\<close> while the directories are empty, stopping at \<^verbatim>\<open>names/\<close>.\<close>

function prune_empty_parents :: "path \<Rightarrow> pin_dir \<Rightarrow> pin_dir" where
  "prune_empty_parents dir es =
     (if dir = [] then es
      else case rmdir_pin dir es of
             Inl _ \<Rightarrow> es
           | Inr es' \<Rightarrow> prune_empty_parents (butlast dir) es')"
  by pat_completeness auto

termination by (relation "measure (\<lambda>(dir, es). length dir)") auto

declare prune_empty_parents.simps [simp del]

section \<open>Well-formed directories\<close>

text \<open>The names of a directory are distinct, at every level.\<close>

fun wf_dir :: "pin_dir \<Rightarrow> bool" and wf_node :: "pin_node \<Rightarrow> bool" where
  "wf_dir [] \<longleftrightarrow> True"
| "wf_dir ((p, n) # es) \<longleftrightarrow> p \<notin> fst ` set es \<and> wf_node n \<and> wf_dir es"
| "wf_node (Pin t) \<longleftrightarrow> True"
| "wf_node (Pin_dir es) \<longleftrightarrow> wf_dir es"

section \<open>What the calls do to the pins\<close>

named_theorems pin_simps "the effect of the calls of the names directory on its pins"

lemma pin_at_Nil [simp]: "pin_at es [] = None"
  by (simp add: pin_at_def)

lemma pin_at_Cons:
  "pin_at es (p # ps) =
     (case map_of es p of
        None \<Rightarrow> None
      | Some (Pin t) \<Rightarrow> if ps = [] then Some t else None
      | Some (Pin_dir ds) \<Rightarrow> pin_at ds ps)"
  by (simp add: pin_at_def split: option.split pin_node.split)

lemma pin_at_empty [simp]: "pin_at [] ps = None"
  by (cases ps) (simp_all add: pin_at_Cons)

lemma pin_at_eqI: "(\<And>p ps. pin_at es (p # ps) = pin_at es' (p # ps)) \<Longrightarrow> pin_at es = pin_at es'"
  by (rule ext) (metis neq_Nil_conv pin_at_Nil)

lemmas pin_lookup = pin_at_Cons AList.update_conv' AList.delete_conv'

lemma pin_at_replace_dir:
  assumes "map_of es p = None \<and> pin_at ds = pin_at [] \<or> map_of es p = Some (Pin_dir ds0) \<and> pin_at ds = pin_at ds0"
  shows "pin_at (AList.update p (Pin_dir ds) es) = pin_at es"
  using assms by (intro pin_at_eqI) (auto simp: pin_lookup)

lemma mkdir_p_pin_at: "mkdir_p ps es = Inr es' \<Longrightarrow> pin_at es' = pin_at es"
proof (induction ps es arbitrary: es' rule: mkdir_p.induct)
  case (2 p ps es)
  show ?case
  proof (cases "map_of es p")
    case None
    with "2.prems" obtain ds where "mkdir_p ps [] = Inr ds" "es' = AList.update p (Pin_dir ds) es"
      by (auto simp: result_simps)
    with None "2.IH"(1) show ?thesis by (metis pin_at_replace_dir)
  next
    case (Some n)
    with "2.prems" obtain ds ds' where "n = Pin_dir ds" "mkdir_p ps ds = Inr ds'"
      "es' = AList.update p (Pin_dir ds') es"
      by (auto simp: result_simps split: pin_node.splits)
    with Some "2.IH"(2) show ?thesis by (metis pin_at_replace_dir)
  qed
qed simp

text \<open>A call on one entry changes at most the pin it is called for.\<close>

lemma in_parent_pin_at:
  assumes "in_parent f ps es = Inr es'"
    and "\<And>p ds ds'. f p ds = Inr ds' \<Longrightarrow> pin_at ds' = (pin_at ds)([p] := v)"
  shows "pin_at es' = (pin_at es)(ps := v)"
  using assms
proof (induction f ps es arbitrary: es' rule: in_parent.induct)
  case (3 f p q ps es)
  then obtain ds ds' where ds: "map_of es p = Some (Pin_dir ds)" "in_parent f (q # ps) ds = Inr ds'"
    "es' = AList.update p (Pin_dir ds') es"
    by (auto simp: result_simps split: option.splits pin_node.splits)
  then have "pin_at ds' = (pin_at ds)(q # ps := v)" using "3.IH" "3.prems"(2) by metis
  with ds(1) show ?case
    unfolding ds(3) by (intro ext) (case_tac x, auto simp: pin_lookup)
qed auto

lemma create_entry_at: "create_entry t p ds = Inr ds' \<Longrightarrow> pin_at ds' = (pin_at ds)([p] \<mapsto> t)"
  by (rule ext, case_tac x)
     (auto simp: create_entry_def pin_lookup split: option.splits if_splits)

lemma write_file_entry_at: "write_file_entry t p ds = Inr ds' \<Longrightarrow> pin_at ds' = (pin_at ds)([p] \<mapsto> t)"
  by (rule ext, case_tac x)
     (auto simp: write_file_entry_def pin_lookup split: option.splits pin_node.splits if_splits)

lemma unlink_entry_at: "unlink_entry p ds = Inr ds' \<Longrightarrow> pin_at ds' = (pin_at ds)([p] := None)"
  by (rule ext, case_tac x)
     (auto simp: unlink_entry_def pin_lookup split: option.splits pin_node.splits if_splits)

lemma rmdir_entry_at: "rmdir_entry p ds = Inr ds' \<Longrightarrow> pin_at ds' = (pin_at ds)([p] := None)"
  by (rule ext, case_tac x)
     (auto simp: rmdir_entry_def pin_lookup split: option.splits pin_node.splits if_splits)

lemma create_pin_at: "create_pin ps t es = Inr es' \<Longrightarrow> pin_at es' = (pin_at es)(ps \<mapsto> t)"
  unfolding create_pin_def by (erule in_parent_pin_at) (rule create_entry_at)

lemma write_pin_at: "write_pin ps t es = Inr es' \<Longrightarrow> pin_at es' = (pin_at es)(ps \<mapsto> t)"
  unfolding write_pin_def by (erule in_parent_pin_at) (rule write_file_entry_at)

lemma unlink_pin_at: "unlink_pin ps es = Inr es' \<Longrightarrow> pin_at es' = (pin_at es)(ps := None)"
  unfolding unlink_pin_def by (erule in_parent_pin_at) (rule unlink_entry_at)

lemma rmdir_not_pinned: "rmdir_pin ps es = Inr es' \<Longrightarrow> pin_at es ps = None"
  unfolding rmdir_pin_def
proof (induction "rmdir_entry" ps es arbitrary: es' rule: in_parent.induct)
  case (3 p q ps es)
  then show ?case by (auto simp: pin_at_Cons [of es] result_simps split: option.splits pin_node.splits)
qed (auto simp: rmdir_entry_def pin_lookup split: option.splits pin_node.splits if_splits)

lemma rmdir_pin_at: "rmdir_pin ps es = Inr es' \<Longrightarrow> pin_at es' = pin_at es"
  using in_parent_pin_at [OF _ rmdir_entry_at, of _ ps es es'] rmdir_not_pinned [of ps es es']
  by (simp add: rmdir_pin_def fun_upd_idem)

text \<open>Unlinking fails exactly where there is no pin.\<close>

lemma unlink_fails_iff: "(\<exists>e. unlink_pin ps es = Inl e) \<longleftrightarrow> pin_at es ps = None"
  unfolding unlink_pin_def
proof (induction "unlink_entry" ps es rule: in_parent.induct)
  case (3 p q ps es)
  then show ?case by (auto simp: pin_at_Cons [of es] result_simps split: option.splits pin_node.splits)
qed (auto simp: unlink_entry_def pin_lookup split: option.splits pin_node.splits)

lemma quiet_unlink_at [pin_simps]: "pin_at (quietly (unlink_pin ps) es) = (pin_at es)(ps := None)"
  using unlink_fails_iff [of ps es]
  by (cases "unlink_pin ps es") (auto simp: quietly_def unlink_pin_at fun_upd_idem)

lemma prune_empty_parents_at [pin_simps]: "pin_at (prune_empty_parents dir es) = pin_at es"
  by (induction dir es rule: prune_empty_parents.induct)
     (subst prune_empty_parents.simps, auto split: sum.split dest: rmdir_pin_at)

section \<open>Where the calls succeed\<close>

text \<open>A plain file above the path stands in the way of every call on it.\<close>

definition pin_above :: "pin_dir \<Rightarrow> path \<Rightarrow> bool" where
  "pin_above es ps \<longleftrightarrow> (\<exists>k < length ps. pin_at es (take k ps) \<noteq> None)"

lemma pin_above_Nil [simp]: "\<not> pin_above es []"
  by (simp add: pin_above_def)

lemma pin_above_Cons:
  "pin_above es (p # ps) \<longleftrightarrow>
     (case map_of es p of
        None \<Rightarrow> False
      | Some (Pin t) \<Rightarrow> ps \<noteq> []
      | Some (Pin_dir ds) \<Rightarrow> pin_above ds ps)" (is "?l \<longleftrightarrow> ?r")
proof -
  have "?l \<longleftrightarrow> (\<exists>k < length ps. pin_at es (p # take k ps) \<noteq> None)"
    by (auto simp: pin_above_def less_Suc_eq_0_disj)
  also have "\<dots> \<longleftrightarrow> ?r"
    by (auto simp: pin_at_Cons pin_above_def split: option.split pin_node.split)
  finally show ?thesis .
qed

lemma pin_above_empty [simp]: "\<not> pin_above [] ps"
  by (simp add: pin_above_def)

lemma mkdir_p_outcome:
  "mkdir_p ps es = Inl EEXIST \<longleftrightarrow> pin_at es ps \<noteq> None"
  "mkdir_p ps es = Inl ENOTDIR \<longleftrightarrow> pin_above es ps"
  "mkdir_p ps es = Inl e \<Longrightarrow> e = EEXIST \<or> e = ENOTDIR"
proof (induction ps es rule: mkdir_p.induct)
  case (2 p ps es)
  {
    case 1
    from "2.IH" show ?case
      by (auto simp: pin_at_Cons result_simps split: option.split pin_node.split)
  next
    case 2
    from "2.IH" show ?case
      by (auto simp: pin_above_Cons result_simps split: option.split pin_node.split)
  next
    case 3
    with "2.IH" show ?case
      by (auto simp: result_simps split: option.splits pin_node.splits if_splits)
  }
qed simp_all

lemma mkdir_p_dir: "mkdir_p ps es = Inr es' \<Longrightarrow> \<exists>ds. node_at es' ps = Some (Pin_dir ds)"
  by (induction ps es arbitrary: es' rule: mkdir_p.induct)
     (auto simp: result_simps AList.update_conv' split: option.splits pin_node.splits)

lemma mkdir_p_node:
  "mkdir_p ps es = Inr es' \<Longrightarrow> node_at es' (ps @ [p]) = node_at es (ps @ [p])"
proof (induction ps es arbitrary: es' rule: mkdir_p.induct)
  case (2 q ps es)
  have "node_at [] (ps @ [p]) = None" by (cases ps) simp_all
  with 2 show ?case
    by (auto simp: result_simps AList.update_conv' split: option.splits pin_node.splits)
qed simp

text \<open>Making a directory that is there changes nothing.\<close>

lemma mkdir_p_there: "node_at es ps = Some (Pin_dir ds) \<Longrightarrow> mkdir_p ps es = Inr es"
  by (induction ps es rule: mkdir_p.induct)
     (auto simp: AList.update_triv split: option.splits pin_node.splits if_splits)

lemma node_at_snoc:
  "node_at es qs = Some (Pin_dir ds) \<Longrightarrow> node_at es (qs @ [p]) = map_of ds p"
  by (induction es qs rule: node_at.induct) (auto split: option.splits pin_node.splits if_splits)

lemma node_at_parent:
  "node_at es (qs @ [p]) \<noteq> None \<Longrightarrow> \<exists>ds. node_at es qs = Some (Pin_dir ds)"
  by (induction es qs rule: node_at.induct) (auto split: option.splits pin_node.splits if_splits)

lemma in_parent_there:
  "node_at es qs = Some (Pin_dir ds) \<Longrightarrow>
   (case f p ds of
      Inl e \<Rightarrow> in_parent f (qs @ [p]) es = Inl e
    | Inr ds' \<Rightarrow> \<exists>es'. in_parent f (qs @ [p]) es = Inr es' \<and> node_at es' qs = Some (Pin_dir ds'))"
proof (induction es qs rule: node_at.induct)
  case (2 es q qs)
  then obtain ds0 where d: "map_of es q = Some (Pin_dir ds0)" "node_at ds0 qs = Some (Pin_dir ds)"
    by (auto split: option.splits pin_node.splits if_splits)
  have step: "in_parent f ((q # qs) @ [p]) es =
      bind_res (in_parent f (qs @ [p]) ds0) (\<lambda>ds'. Inr (AList.update q (Pin_dir ds') es))"
    using d(1) by (cases qs) simp_all
  from "2.IH" [OF d(1) refl d(2)] show ?case
    unfolding step by (auto simp: AList.update_conv' split: sum.splits)
qed (auto split: sum.split)

lemma create_pin_there:
  assumes "node_at es qs = Some (Pin_dir ds)"
  shows "map_of ds p = None \<Longrightarrow> \<exists>es'. create_pin (qs @ [p]) t es = Inr es'"
    and "map_of ds p \<noteq> None \<Longrightarrow> create_pin (qs @ [p]) t es = Inl EEXIST"
  using in_parent_there [OF assms, of "create_entry t" p]
  by (auto simp: create_pin_def create_entry_def)

text \<open>Removing the last entry of a path leaves its directory, without that entry.\<close>

lemma removed_there:
  assumes "node_at es qs = Some (Pin_dir ds)"
  shows "map_of ds p = Some (Pin t) \<Longrightarrow>
      \<exists>es'. unlink_pin (qs @ [p]) es = Inr es' \<and> node_at es' qs = Some (Pin_dir (AList.delete p ds))"
    and "map_of ds p = Some (Pin_dir []) \<Longrightarrow>
      \<exists>es'. rmdir_pin (qs @ [p]) es = Inr es' \<and> node_at es' qs = Some (Pin_dir (AList.delete p ds))"
    and "map_of ds p = Some (Pin_dir (x # xs)) \<Longrightarrow> rmdir_pin (qs @ [p]) es = Inl ENOTEMPTY"
  using in_parent_there [OF assms, of unlink_entry p] in_parent_there [OF assms, of rmdir_entry p]
  by (auto simp: unlink_pin_def unlink_entry_def rmdir_pin_def rmdir_entry_def)

section \<open>Well-formedness and the walks\<close>

lemma wf_dir_update: "wf_dir es \<Longrightarrow> wf_node n \<Longrightarrow> wf_dir (AList.update p n es)"
  by (induction es) (force simp: AList.dom_update)+

lemma wf_dir_delete: "wf_dir es \<Longrightarrow> wf_dir (AList.delete p es)"
proof (induction es)
  case (Cons e es)
  have "fst ` set (AList.delete p es) \<subseteq> fst ` set es" by (rule AList.dom_delete_subset)
  with Cons show ?case by (cases e) auto
qed simp

lemma wf_dir_map_of: "wf_dir es \<Longrightarrow> map_of es p = Some (Pin_dir ds) \<Longrightarrow> wf_dir ds"
  by (induction es) (auto split: if_splits)

lemma mkdir_p_wf: "mkdir_p ps es = Inr es' \<Longrightarrow> wf_dir es \<Longrightarrow> wf_dir es'"
proof (induction ps es arbitrary: es' rule: mkdir_p.induct)
  case (2 p ps es)
  show ?case
  proof (cases "map_of es p")
    case None
    with 2 show ?thesis by (auto simp: result_simps intro: wf_dir_update)
  next
    case (Some n)
    with "2.prems" obtain ds ds' where "n = Pin_dir ds" "mkdir_p ps ds = Inr ds'"
      "es' = AList.update p (Pin_dir ds') es"
      by (auto simp: result_simps split: pin_node.splits)
    with Some "2.IH"(2) "2.prems"(2) show ?thesis by (metis wf_dir_map_of wf_dir_update wf_node.simps(2))
  qed
qed simp

lemma in_parent_wf:
  assumes "in_parent f ps es = Inr es'" "wf_dir es"
    and "\<And>p ds ds'. f p ds = Inr ds' \<Longrightarrow> wf_dir ds \<Longrightarrow> wf_dir ds'"
  shows "wf_dir es'"
  using assms
proof (induction f ps es arbitrary: es' rule: in_parent.induct)
  case (3 f p q ps es)
  then obtain ds ds' where "map_of es p = Some (Pin_dir ds)" "in_parent f (q # ps) ds = Inr ds'"
    "es' = AList.update p (Pin_dir ds') es"
    by (auto simp: result_simps split: option.splits pin_node.splits)
  with 3 show ?case by (metis wf_dir_map_of wf_dir_update wf_node.simps(2))
qed auto

lemma calls_wf:
  "create_pin ps t es = Inr es' \<Longrightarrow> wf_dir es \<Longrightarrow> wf_dir es'"
  "write_pin ps t es = Inr es' \<Longrightarrow> wf_dir es \<Longrightarrow> wf_dir es'"
  "unlink_pin ps es = Inr es' \<Longrightarrow> wf_dir es \<Longrightarrow> wf_dir es'"
  "rmdir_pin ps es = Inr es' \<Longrightarrow> wf_dir es \<Longrightarrow> wf_dir es'"
  unfolding create_pin_def write_pin_def unlink_pin_def rmdir_pin_def
  by (erule in_parent_wf, assumption,
      auto simp: create_entry_def write_file_entry_def unlink_entry_def rmdir_entry_def
        intro: wf_dir_update wf_dir_delete split: option.splits pin_node.splits if_splits)+

lemma quiet_unlink_wf: "wf_dir es \<Longrightarrow> wf_dir (quietly (unlink_pin ps) es)"
  by (auto simp: quietly_def dest: calls_wf split: sum.split)

lemma prune_empty_parents_wf: "wf_dir es \<Longrightarrow> wf_dir (prune_empty_parents dir es)"
  by (induction dir es rule: prune_empty_parents.induct)
     (subst prune_empty_parents.simps, auto split: sum.split dest: calls_wf)

lemma pin_at_entry:
  "pin_at ((q, n) # es) (p # ps) =
     (if p = q then (case n of Pin t \<Rightarrow> if ps = [] then Some t else None | Pin_dir ds \<Rightarrow> pin_at ds ps)
      else pin_at es (p # ps))"
  by (simp add: pin_at_Cons split: pin_node.split)

lemma pin_at_outside: "p \<notin> fst ` set es \<Longrightarrow> pin_at es (p # ps) = None"
  by (simp add: pin_at_Cons map_of_eq_None_iff [THEN iffD2])

text \<open>The walk meets every pin.\<close>

lemma walk_pins_complete: "pin_at es ps = Some t \<Longrightarrow> ps \<in> set (walk_pins es)"
proof (induction es arbitrary: ps rule: walk_pins.induct)
  case (2 p t' es)
  obtain q qs where "ps = q # qs" using "2.prems" by (cases ps) auto
  with 2 show ?case by (auto simp: pin_at_entry split: if_splits)
next
  case (3 p ds es)
  obtain q qs where "ps = q # qs" using "3.prems" by (cases ps) auto
  with 3 show ?case by (auto simp: pin_at_entry split: if_splits)
qed simp

lemma sweep_names: "fst ` set (sweep_empty_pin_dirs es) \<subseteq> fst ` set es"
  by (induction es rule: sweep_empty_pin_dirs.induct) auto

text \<open>Sweeping keeps every pin.\<close>

lemma sweep_at [pin_simps]: "wf_dir es \<Longrightarrow> pin_at (sweep_empty_pin_dirs es) = pin_at es"
proof (induction es rule: sweep_empty_pin_dirs.induct)
  case (2 p t es)
  then have "pin_at (sweep_empty_pin_dirs es) = pin_at es" by simp
  then show ?case by (intro pin_at_eqI) (simp add: pin_at_entry)
next
  case (3 p ds es)
  then have es: "pin_at (sweep_empty_pin_dirs es) = pin_at es"
    and ds: "pin_at (sweep_empty_pin_dirs ds) = pin_at ds"
    and p: "p \<notin> fst ` set es"
    by simp_all
  have "pin_at ds qs = None" if "sweep_empty_pin_dirs ds = []" for qs
    using ds that by (metis pin_at_empty)
  with es ds p show ?case
    by (intro pin_at_eqI) (auto simp: pin_at_entry pin_at_outside)
qed simp

lemma sweep_wf: "wf_dir es \<Longrightarrow> wf_dir (sweep_empty_pin_dirs es)"
proof (induction es rule: sweep_empty_pin_dirs.induct)
  case (2 p t es)
  then show ?case using sweep_names [of es] by auto
next
  case (3 p ds es)
  then show ?case using sweep_names [of es] by auto
qed simp

end
