(* ===== verification/Registry.thy ===== *)
theory Registry
  imports Pin_Tree
begin

text \<open>
  The on-disk registry of running VMs, \<^verbatim>\<open>packages/runtime/src/registry.ts\<close>, with the pid
  validation of \<^verbatim>\<open>pid-validate.ts\<close>, the garbage collector of \<^verbatim>\<open>gc.ts\<close> and the callers
  that reserve names, \<open>claimNameOrThrow\<close> of \<^verbatim>\<open>vm/boot.ts\<close> and \<open>autoNameRestoredFork\<close> of
  \<^verbatim>\<open>vm/restore.ts\<close>.

  The state is the content of the registry directory: the VM directories in the order
  \<open>readdir\<close> returns them, each with its \<^verbatim>\<open>meta.json\<close>, and the tree of name pins. A missing
  directory is an empty one. Operations return what they return or throw, and the new state.

  The processes of the host are a parameter: \<open>native pid exe start\<close> is the answer of the
  native helper behind \<open>validatePidNative\<close>; it is fixed during one operation and free to
  change between operations. Names are below \<^verbatim>\<open>names/\<close>: a name that climbs out with \<^verbatim>\<open>..\<close> or
  denotes \<^verbatim>\<open>names/\<close> itself is outside of the model, and numbers in pin files and directory
  names are decimal integers.
\<close>

section \<open>Entries\<close>

record reg_entry =
  entry_pid :: int
  entry_name :: "string option"
  socket_path :: string
  vmm_exe :: "string option"
  started_at :: nat
  cleanup_paths :: "string list option"
  boot_log_path :: "string option"
  entry_details :: "(string \<times> string) list" \<comment> \<open>the remaining fields, as JSON texts\<close>

text \<open>What \<open>existsSync\<close> and \<open>JSON.parse\<close> find in a VM directory.\<close>

datatype meta_file = Missing | Malformed | Meta reg_entry

record registry =
  vm_dirs :: "(string \<times> meta_file) list"
  name_pins :: pin_dir

datatype pid_status = Alive | Dead | Recycled

type_synonym processes = "int \<Rightarrow> string option \<Rightarrow> nat \<Rightarrow> pid_status"

definition validate_pid :: "processes \<Rightarrow> int \<Rightarrow> string option \<Rightarrow> nat \<Rightarrow> pid_status" where
  "validate_pid native pid exe start = (if pid \<le> 0 then Dead else native pid exe start)"

definition entry_status :: "processes \<Rightarrow> reg_entry \<Rightarrow> pid_status" where
  "entry_status native e = validate_pid native (entry_pid e) (vmm_exe e) (started_at e)"

text \<open>\<open>String(pid)\<close>, and \<open>Number(text)\<close> where it is an integer.\<close>

definition pid_text :: "int \<Rightarrow> string" where
  "pid_text p = (if p < 0 then CHR ''-'' # dec_string (nat (- p)) else dec_string (nat p))"

definition pid_number :: "string \<Rightarrow> int option" where
  "pid_number s =
     (let t = trim s in
      if t = [] then Some 0
      else if all_digits t then Some (int (dec_value t))
      else if hd t = CHR ''-'' \<and> all_digits (tl t) then Some (- int (dec_value (tl t)))
      else None)"

definition pin_path :: "string \<Rightarrow> path" where
  "pin_path name = resolve [] name"

section \<open>Writing and removing entries\<close>

definition read_entry :: "registry \<Rightarrow> int \<Rightarrow> reg_entry option" where
  "read_entry r pid = (case map_of (vm_dirs r) (pid_text pid) of Some (Meta e) \<Rightarrow> Some e | _ \<Rightarrow> None)"

definition write_entry :: "reg_entry \<Rightarrow> registry \<Rightarrow> (fs_code + unit) \<times> registry" where
  "write_entry e r =
     (let r1 = r\<lparr>vm_dirs := AList.update (pid_text (entry_pid e)) (Meta e) (vm_dirs r)\<rparr> in
      case entry_name e of
        None \<Rightarrow> (Inr (), r1)
      | Some name \<Rightarrow>
          if name = [] then (Inr (), r1)
          else
            let pin = pin_path name in
            case mkdir_p (butlast pin) (name_pins r1) of
              Inl c \<Rightarrow> (Inl c, r1)
            | Inr es \<Rightarrow>
                (case write_pin pin (pid_text (entry_pid e)) es of
                   Inl c \<Rightarrow> (Inl c, r1\<lparr>name_pins := es\<rparr>)
                 | Inr es' \<Rightarrow> (Inr (), r1\<lparr>name_pins := es'\<rparr>)))"

text \<open>A patch is the list of the fields it sets.\<close>

datatype entry_field =
    Set_name "string option"
  | Set_socket string
  | Set_exe "string option"
  | Set_started nat
  | Set_cleanup "string list option"
  | Set_boot_log "string option"
  | Set_pid int
  | Set_detail string string

fun set_field :: "entry_field \<Rightarrow> reg_entry \<Rightarrow> reg_entry" where
  "set_field (Set_name x) e = e\<lparr>entry_name := x\<rparr>"
| "set_field (Set_socket x) e = e\<lparr>socket_path := x\<rparr>"
| "set_field (Set_exe x) e = e\<lparr>vmm_exe := x\<rparr>"
| "set_field (Set_started x) e = e\<lparr>started_at := x\<rparr>"
| "set_field (Set_cleanup x) e = e\<lparr>cleanup_paths := x\<rparr>"
| "set_field (Set_boot_log x) e = e\<lparr>boot_log_path := x\<rparr>"
| "set_field (Set_pid x) e = e\<lparr>entry_pid := x\<rparr>"
| "set_field (Set_detail k x) e = e\<lparr>entry_details := AList.update k x (entry_details e)\<rparr>"

definition patch_entry :: "int \<Rightarrow> entry_field list \<Rightarrow> registry \<Rightarrow> (fs_code + unit) \<times> registry" where
  "patch_entry pid patch r =
     (case read_entry r pid of
        None \<Rightarrow> (Inr (), r)
      | Some e \<Rightarrow> write_entry ((fold set_field patch e)\<lparr>entry_pid := entry_pid e\<rparr>) r)"

definition remove_pin :: "string \<Rightarrow> pin_dir \<Rightarrow> pin_dir" where
  "remove_pin name es =
     (let pin = pin_path name in prune_empty_parents (butlast pin) (quietly (unlink_pin pin) es))"

definition remove_entry :: "int \<Rightarrow> registry \<Rightarrow> registry" where
  "remove_entry pid r =
     (let es = (case read_entry r pid of
                  None \<Rightarrow> name_pins r
                | Some e \<Rightarrow>
                    (case entry_name e of
                       None \<Rightarrow> name_pins r
                     | Some name \<Rightarrow> if name = [] then name_pins r else remove_pin name (name_pins r)))
      in r\<lparr>vm_dirs := AList.delete (pid_text pid) (vm_dirs r), name_pins := es\<rparr>)"

section \<open>Listing\<close>

text \<open>\<open>None\<close> is a text that is not an integer.\<close>

definition pin_is_stale :: "processes \<Rightarrow> registry \<Rightarrow> int option \<Rightarrow> bool" where
  "pin_is_stale native r held =
     (case held of
        None \<Rightarrow> True
      | Some pid \<Rightarrow>
          if pid \<le> 0 then True
          else (case read_entry r pid of
                  None \<Rightarrow> True
                | Some e \<Rightarrow> validate_pid native pid (vmm_exe e) (started_at e) \<noteq> Alive))"

definition dir_pid :: "string \<Rightarrow> int option" where
  "dir_pid d = (case pid_number d of Some p \<Rightarrow> if p \<le> 0 then None else Some p | None \<Rightarrow> None)"

definition dir_entry :: "registry \<Rightarrow> string \<Rightarrow> reg_entry option" where
  "dir_entry r d = (case dir_pid d of None \<Rightarrow> None | Some p \<Rightarrow> read_entry r p)"

definition list_all_entries :: "registry \<Rightarrow> reg_entry list" where
  "list_all_entries r = List.map_filter (dir_entry r) (map fst (vm_dirs r))"

fun list_dirs :: "processes \<Rightarrow> string list \<Rightarrow> registry \<Rightarrow> reg_entry list \<times> registry" where
  "list_dirs native [] r = ([], r)"
| "list_dirs native (d # ds) r =
     (case dir_pid d of
        None \<Rightarrow> list_dirs native ds r
      | Some p \<Rightarrow>
          (case read_entry r p of
             None \<Rightarrow> list_dirs native ds (remove_entry p r)
           | Some e \<Rightarrow>
               if entry_status native e \<noteq> Alive then list_dirs native ds (remove_entry (entry_pid e) r)
               else (case list_dirs native ds r of (out, r') \<Rightarrow> (e # out, r'))))"

definition drop_stale_pin :: "processes \<Rightarrow> registry \<Rightarrow> path \<Rightarrow> pin_dir \<Rightarrow> pin_dir" where
  "drop_stale_pin native r pin es =
     (case pin_at es pin of
        None \<Rightarrow> quietly (unlink_pin pin) es
      | Some t \<Rightarrow> if pin_is_stale native r (pid_number t) then quietly (unlink_pin pin) es else es)"

definition prune_stale_name_pins :: "processes \<Rightarrow> registry \<Rightarrow> registry" where
  "prune_stale_name_pins native r =
     r\<lparr>name_pins := sweep_empty_pin_dirs
          (fold (drop_stale_pin native r) (walk_pins (name_pins r)) (name_pins r))\<rparr>"

definition list_vms :: "processes \<Rightarrow> registry \<Rightarrow> reg_entry list \<times> registry" where
  "list_vms native r =
     (case list_dirs native (map fst (vm_dirs r)) r of
        (out, r') \<Rightarrow> (out, prune_stale_name_pins native r'))"

section \<open>Reserving names\<close>

datatype claim_attempt = Claimed | Retry | Refuse

definition ensure_pin_parent :: "path \<Rightarrow> registry \<Rightarrow> (fs_code + bool) \<times> registry" where
  "ensure_pin_parent pin r =
     (case mkdir_p (butlast pin) (name_pins r) of
        Inr es \<Rightarrow> (Inr True, r\<lparr>name_pins := es\<rparr>)
      | Inl c \<Rightarrow> (if c = EEXIST then Inr False else Inl c, r))"

definition pin_path_is_directory :: "path \<Rightarrow> registry \<Rightarrow> bool" where
  "pin_path_is_directory pin r = (case node_at (name_pins r) pin of Some (Pin_dir _) \<Rightarrow> True | _ \<Rightarrow> False)"

definition handle_directory_pin :: "path \<Rightarrow> registry \<Rightarrow> claim_attempt \<times> registry" where
  "handle_directory_pin pin r =
     (case rmdir_pin pin (name_pins r) of
        Inr es \<Rightarrow> (Retry, r\<lparr>name_pins := es\<rparr>)
      | Inl _ \<Rightarrow> (Refuse, r))"

definition read_pin_pid :: "path \<Rightarrow> registry \<Rightarrow> int option" where
  "read_pin_pid pin r = (case pin_at (name_pins r) pin of Some t \<Rightarrow> pid_number t | None \<Rightarrow> Some (- 1))"

definition is_positive :: "int option \<Rightarrow> bool" where
  "is_positive n = (case n of Some p \<Rightarrow> 0 < p | None \<Rightarrow> False)"

definition reap_stale_pin :: "path \<Rightarrow> int option \<Rightarrow> registry \<Rightarrow> registry" where
  "reap_stale_pin pin held r =
     (let r1 = r\<lparr>name_pins := quietly (unlink_pin pin) (name_pins r)\<rparr> in
      if is_positive held then r1\<lparr>vm_dirs := AList.delete (pid_text (the held)) (vm_dirs r1)\<rparr> else r1)"

definition handle_file_pin :: "processes \<Rightarrow> path \<Rightarrow> registry \<Rightarrow> claim_attempt \<times> registry" where
  "handle_file_pin native pin r =
     (let held = read_pin_pid pin r in
      if is_positive held \<and> \<not> pin_is_stale native r held then (Refuse, r)
      else (Retry, reap_stale_pin pin held r))"

definition handle_existing_pin :: "processes \<Rightarrow> path \<Rightarrow> registry \<Rightarrow> claim_attempt \<times> registry" where
  "handle_existing_pin native pin r =
     (if pin_path_is_directory pin r then handle_directory_pin pin r else handle_file_pin native pin r)"

definition claim_pin_once :: "processes \<Rightarrow> int \<Rightarrow> path \<Rightarrow> registry \<Rightarrow> (fs_code + claim_attempt) \<times> registry" where
  "claim_pin_once native pid pin r =
     (case create_pin pin (pid_text pid) (name_pins r) of
        Inr es \<Rightarrow> (Inr Claimed, r\<lparr>name_pins := es\<rparr>)
      | Inl c \<Rightarrow>
          if c \<noteq> EEXIST then (Inl c, r)
          else (case handle_existing_pin native pin r of (a, r') \<Rightarrow> (Inr a, r')))"

fun claim_attempts :: "processes \<Rightarrow> int \<Rightarrow> path \<Rightarrow> nat \<Rightarrow> registry \<Rightarrow> (fs_code + bool) \<times> registry" where
  "claim_attempts native pid pin 0 r = (Inr False, r)"
| "claim_attempts native pid pin (Suc n) r =
     (case claim_pin_once native pid pin r of
        (Inl c, r') \<Rightarrow> (Inl c, r')
      | (Inr Claimed, r') \<Rightarrow> (Inr True, r')
      | (Inr Refuse, r') \<Rightarrow> (Inr False, r')
      | (Inr Retry, r') \<Rightarrow> claim_attempts native pid pin n r')"

definition claim_name :: "processes \<Rightarrow> string \<Rightarrow> int \<Rightarrow> registry \<Rightarrow> (fs_code + bool) \<times> registry" where
  "claim_name native name pid r =
     (let pin = pin_path name in
      case ensure_pin_parent pin r of
        (Inl c, r') \<Rightarrow> (Inl c, r')
      | (Inr False, r') \<Rightarrow> (Inr False, r')
      | (Inr True, r') \<Rightarrow> claim_attempts native pid pin 2 r')"

section \<open>Looking up\<close>

definition find_by_pid :: "processes \<Rightarrow> int \<Rightarrow> registry \<Rightarrow> reg_entry option \<times> registry" where
  "find_by_pid native pid r =
     (case read_entry r pid of
        None \<Rightarrow> (None, r)
      | Some e \<Rightarrow>
          if entry_status native e \<noteq> Alive then (None, remove_entry (entry_pid e) r) else (Some e, r))"

text \<open>A directory at the path exists but cannot be read.\<close>

definition find_by_name :: "processes \<Rightarrow> string \<Rightarrow> registry \<Rightarrow> reg_entry option \<times> registry" where
  "find_by_name native name r =
     (let pin = pin_path name in
      case node_at (name_pins r) pin of
        Some (Pin t) \<Rightarrow>
          if pin_is_stale native r (pid_number t)
          then (None, r\<lparr>name_pins := quietly (unlink_pin pin) (name_pins r)\<rparr>)
          else (read_entry r (the (pid_number t)), r)
      | _ \<Rightarrow> (None, r))"

definition find_entry :: "processes \<Rightarrow> int option \<Rightarrow> string option \<Rightarrow> registry \<Rightarrow> reg_entry option \<times> registry" where
  "find_entry native pid name r =
     (case pid of
        Some p \<Rightarrow> find_by_pid native p r
      | None \<Rightarrow> (case name of Some n \<Rightarrow> find_by_name native n r | None \<Rightarrow> (None, r)))"

section \<open>Garbage collection\<close>

record gc_result =
  gc_pid :: int
  gc_name :: "string option"
  gc_status :: pid_status
  removed_paths :: "string list"
  failed_paths :: "string list"

definition cleanup_candidates :: "reg_entry \<Rightarrow> string list" where
  "cleanup_candidates e =
     (case cleanup_paths e of Some ps \<Rightarrow> ps | None \<Rightarrow> []) @
     (case boot_log_path e of Some p \<Rightarrow> if p = [] then [] else [p] | None \<Rightarrow> [])"

text \<open>\<open>cleanup path dry\<close> is the answer of \<open>cleanupPathNative\<close>: whether the path was removed,
  and whether that failed.\<close>

definition reap_entry ::
    "(string \<Rightarrow> bool \<Rightarrow> bool \<times> bool) \<Rightarrow> reg_entry \<Rightarrow> pid_status \<Rightarrow> bool \<Rightarrow> registry \<Rightarrow> gc_result \<times> registry" where
  "reap_entry cleanup e status dry r =
     (\<lparr>gc_pid = entry_pid e, gc_name = entry_name e, gc_status = status,
       removed_paths = filter (\<lambda>p. fst (cleanup p dry)) (cleanup_candidates e),
       failed_paths = filter (\<lambda>p. snd (cleanup p dry)) (cleanup_candidates e)\<rparr>,
      if dry then r else remove_entry (entry_pid e) r)"

fun gc_entries ::
    "(string \<Rightarrow> bool \<Rightarrow> bool \<times> bool) \<Rightarrow> processes \<Rightarrow> bool \<Rightarrow> reg_entry list \<Rightarrow> registry \<Rightarrow> gc_result list \<times> registry" where
  "gc_entries cleanup native dry [] r = ([], r)"
| "gc_entries cleanup native dry (e # es) r =
     (if entry_status native e = Alive then gc_entries cleanup native dry es r
      else
        (case reap_entry cleanup e (entry_status native e) dry r of
           (g, r') \<Rightarrow> (case gc_entries cleanup native dry es r' of (gs, r'') \<Rightarrow> (g # gs, r''))))"

definition run_gc ::
    "(string \<Rightarrow> bool \<Rightarrow> bool \<times> bool) \<Rightarrow> processes \<Rightarrow> bool \<Rightarrow> int option \<Rightarrow> registry \<Rightarrow> gc_result list \<times> registry" where
  "run_gc cleanup native dry only r =
     gc_entries cleanup native dry
       (filter (\<lambda>e. only = None \<or> Some (entry_pid e) = only) (list_all_entries r)) r"

section \<open>The callers\<close>

datatype claim_error = Claim_fs fs_code | REGISTRY_NAME_IN_USE

text \<open>\<open>claimNameOrThrow\<close> of \<^verbatim>\<open>vm/boot.ts\<close>; the throw also kills the child.\<close>

definition claim_name_or_throw ::
    "(string \<Rightarrow> bool \<Rightarrow> bool \<times> bool) \<Rightarrow> processes \<Rightarrow> string \<Rightarrow> int \<Rightarrow> registry \<Rightarrow> (claim_error + unit) \<times> registry" where
  "claim_name_or_throw cleanup native name pid r =
     (case claim_name native name pid r of
        (Inl c, r1) \<Rightarrow> (Inl (Claim_fs c), r1)
      | (Inr True, r1) \<Rightarrow> (Inr (), r1)
      | (Inr False, r1) \<Rightarrow>
          (case claim_name native name pid (snd (run_gc cleanup native False None r1)) of
             (Inl c, r2) \<Rightarrow> (Inl (Claim_fs c), r2)
           | (Inr True, r2) \<Rightarrow> (Inr (), r2)
           | (Inr False, r2) \<Rightarrow> (Inl REGISTRY_NAME_IN_USE, r2)))"

text \<open>\<open>autoNameRestoredFork\<close> of \<^verbatim>\<open>vm/restore.ts\<close>; the result is the name of the handle.\<close>

fun auto_name_from :: "processes \<Rightarrow> int \<Rightarrow> string list \<Rightarrow> string option \<Rightarrow> registry \<Rightarrow> (fs_code + string option) \<times> registry" where
  "auto_name_from native pid [] current r = (Inr current, r)"
| "auto_name_from native pid (c # cs) current r =
     (case claim_name native c pid r of
        (Inl e, r1) \<Rightarrow> (Inl e, r1)
      | (Inr False, r1) \<Rightarrow> auto_name_from native pid cs current r1
      | (Inr True, r1) \<Rightarrow>
          (case find_entry native (Some pid) None r1 of
             (None, r2) \<Rightarrow> (Inr (Some c), r2)
           | (Some cur, r2) \<Rightarrow>
               (case write_entry (cur\<lparr>entry_name := Some c\<rparr>) r2 of
                  (Inl e, r3) \<Rightarrow> (Inl e, r3)
                | (Inr _, r3) \<Rightarrow> (Inr (Some c), r3))))"

definition auto_name_restored_fork ::
    "processes \<Rightarrow> string option \<Rightarrow> string option \<Rightarrow> int \<Rightarrow> registry \<Rightarrow> (fs_code + string option) \<times> registry" where
  "auto_name_restored_fork native opts_name source_name pid r =
     (if (case opts_name of Some n \<Rightarrow> n \<noteq> [] | None \<Rightarrow> False) then (Inr opts_name, r)
      else
        (case source_name of
           None \<Rightarrow> (Inr opts_name, r)
         | Some s \<Rightarrow>
             if s = [] then (Inr opts_name, r)
             else auto_name_from native pid [s @ ''/'' @ pid_text pid, s @ ''~'' @ pid_text pid] opts_name r))"

section \<open>Pids as texts\<close>

lemma digits_not_space: "all_digits s \<Longrightarrow> trim s = s"
proof -
  have *: "dropWhile is_space s = s" if "list_all is_digit s" for s
    using that by (cases s) (auto simp: is_digit_def is_space_def)
  assume "all_digits s"
  then have "list_all is_digit s" "list_all is_digit (rev s)" by (simp_all add: all_digits_def list_all_rev)
  then show "trim s = s" by (simp add: trim_def *)
qed

lemma pid_number_text [simp]: "pid_number (pid_text p) = Some p"
proof (cases "p < 0")
  case True
  let ?ds = "dec_string (nat (- p))"
  have "rev ?ds \<noteq> []" "list_all is_digit (rev ?ds)"
    using all_digits_dec_string [of "nat (- p)"] by (simp_all add: all_digits_def)
  then have "trim (CHR ''-'' # ?ds) = CHR ''-'' # ?ds"
    by (cases "rev ?ds") (auto simp: trim_def is_digit_def is_space_def rev_swap)
  moreover have "\<not> all_digits (CHR ''-'' # ?ds)"
    by (simp add: all_digits_def is_digit_def)
  ultimately show ?thesis using True by (simp add: pid_text_def pid_number_def)
next
  case False
  then show ?thesis by (simp add: pid_text_def pid_number_def digits_not_space)
qed

lemma pid_text_eq_iff [simp]: "pid_text p = pid_text q \<longleftrightarrow> p = q"
  by (metis option.inject pid_number_text)

lemma dir_pid_text [simp]: "dir_pid (pid_text p) = (if p \<le> 0 then None else Some p)"
  by (simp add: dir_pid_def)

section \<open>A well-formed registry\<close>

text \<open>Every VM directory is named by a pid, and its entry carries that pid.\<close>

definition dir_ok :: "string \<times> meta_file \<Rightarrow> bool" where
  "dir_ok dm \<longleftrightarrow> (\<exists>p > 0. fst dm = pid_text p \<and> (\<forall>e. snd dm = Meta e \<longrightarrow> entry_pid e = p))"

definition registry_wf :: "registry \<Rightarrow> bool" where
  "registry_wf r \<longleftrightarrow>
     wf_dir (name_pins r) \<and> distinct (map fst (vm_dirs r)) \<and> (\<forall>dm \<in> set (vm_dirs r). dir_ok dm)"

lemma registry_wfD:
  assumes "registry_wf r"
  shows "wf_dir (name_pins r)" "distinct (map fst (vm_dirs r))"
  using assms by (simp_all add: registry_wf_def)

lemma registry_wf_dir:
  assumes "registry_wf r" "d \<in> set (map fst (vm_dirs r))"
  obtains p where "0 < p" "d = pid_text p"
  using assms by (auto simp: registry_wf_def dir_ok_def dest!: bspec)

lemma registry_wf_entry:
  assumes "registry_wf r" "read_entry r p = Some e"
  shows "entry_pid e = p" and "0 < p"
proof -
  from assms(2) have "(pid_text p, Meta e) \<in> set (vm_dirs r)"
    by (auto simp: read_entry_def dest: map_of_SomeD split: option.splits meta_file.splits)
  with assms(1) have "dir_ok (pid_text p, Meta e)" by (simp add: registry_wf_def)
  then show "entry_pid e = p" "0 < p" by (auto simp: dir_ok_def)
qed

lemma set_update_subset: "set (AList.update k v xs) \<subseteq> insert (k, v) (set xs)"
  by (induction xs) auto

lemma ok_update_dir:
  assumes "registry_wf r" "0 < p" "\<And>e. m = Meta e \<Longrightarrow> entry_pid e = p"
  shows "registry_wf (r\<lparr>vm_dirs := AList.update (pid_text p) m (vm_dirs r)\<rparr>)"
proof -
  have "dir_ok (pid_text p, m)" using assms(2,3) by (auto simp: dir_ok_def)
  with assms(1) show ?thesis
    using set_update_subset [of "pid_text p" m "vm_dirs r"]
    by (auto simp: registry_wf_def AList.distinct_update)
qed

lemma ok_delete_dir:
  assumes "registry_wf r"
  shows "registry_wf (r\<lparr>vm_dirs := AList.delete d (vm_dirs r)\<rparr>)"
proof -
  have "set (AList.delete d (vm_dirs r)) \<subseteq> set (vm_dirs r)" by (auto simp: AList.delete_eq)
  with assms show ?thesis
    unfolding registry_wf_def by (auto simp: AList.distinct_delete)
qed

lemma ok_pins: "registry_wf r \<Longrightarrow> wf_dir es \<Longrightarrow> registry_wf (r\<lparr>name_pins := es\<rparr>)"
  by (simp add: registry_wf_def)

lemma read_entry_simps [simp]:
  "read_entry (r\<lparr>name_pins := es\<rparr>) p = read_entry r p"
  "read_entry (r\<lparr>vm_dirs := AList.update (pid_text q) (Meta e) (vm_dirs r)\<rparr>) p =
     (if p = q then Some e else read_entry r p)"
  "read_entry (r\<lparr>vm_dirs := AList.delete (pid_text q) (vm_dirs r)\<rparr>) p =
     (if p = q then None else read_entry r p)"
  by (simp_all add: read_entry_def AList.update_conv' AList.delete_conv')

section \<open>What removing does\<close>

text \<open>The pin of an entry.\<close>

definition entry_pin :: "reg_entry \<Rightarrow> path option" where
  "entry_pin e = (case entry_name e of None \<Rightarrow> None | Some n \<Rightarrow> if n = [] then None else Some (pin_path n))"

lemma remove_entry_dirs: "vm_dirs (remove_entry p r) = AList.delete (pid_text p) (vm_dirs r)"
  by (simp add: remove_entry_def Let_def)

lemma read_remove_entry [simp]:
  "read_entry (remove_entry p r) q = (if q = p then None else read_entry r q)"
  by (simp add: read_entry_def remove_entry_dirs AList.delete_conv')

lemma remove_pin_at: "pin_at (remove_pin n es) = (pin_at es)(pin_path n := None)"
  by (simp add: remove_pin_def Let_def pin_simps)

lemma remove_pin_wf: "wf_dir es \<Longrightarrow> wf_dir (remove_pin n es)"
  by (simp add: remove_pin_def Let_def prune_empty_parents_wf quiet_unlink_wf)

lemma remove_entry_at:
  "pin_at (name_pins (remove_entry p r)) q =
     (if \<exists>e. read_entry r p = Some e \<and> entry_pin e = Some q then None else pin_at (name_pins r) q)"
  by (auto simp: remove_entry_def entry_pin_def remove_pin_at Let_def split: option.splits if_splits)

lemma remove_entry_ok: "registry_wf r \<Longrightarrow> registry_wf (remove_entry p r)"
proof -
  assume ok: "registry_wf r"
  have "wf_dir (name_pins (remove_entry p r))"
    using registry_wfD(1) [OF ok]
    by (auto simp: remove_entry_def Let_def remove_pin_wf split: option.split)
  then have "registry_wf ((r\<lparr>vm_dirs := AList.delete (pid_text p) (vm_dirs r)\<rparr>)\<lparr>name_pins := name_pins (remove_entry p r)\<rparr>)"
    by (intro ok_pins ok_delete_dir ok)
  then show ?thesis by (simp add: remove_entry_def Let_def)
qed

section \<open>What listing does\<close>

text \<open>A VM directory that \<open>list\<close> removes: no readable entry, or a process that is not alive.\<close>

definition dir_dead :: "processes \<Rightarrow> registry \<Rightarrow> string \<Rightarrow> bool" where
  "dir_dead native r d =
     (case dir_pid d of
        None \<Rightarrow> False
      | Some p \<Rightarrow> (case read_entry r p of None \<Rightarrow> True | Some e \<Rightarrow> entry_status native e \<noteq> Alive))"

lemma dir_entry_text [simp]: "0 < p \<Longrightarrow> dir_entry r (pid_text p) = read_entry r p"
  by (simp add: dir_entry_def)

lemma set_list_all_entries:
  assumes "registry_wf r"
  shows "e \<in> set (list_all_entries r) \<longleftrightarrow> (\<exists>p. read_entry r p = Some e)"
proof
  assume "e \<in> set (list_all_entries r)"
  then show "\<exists>p. read_entry r p = Some e"
    by (auto simp: list_all_entries_def List.map_filter_def dir_entry_def split: option.splits)
next
  assume "\<exists>p. read_entry r p = Some e"
  then obtain p where p: "read_entry r p = Some e" ..
  then have "pid_text p \<in> set (map fst (vm_dirs r))"
    by (auto simp: read_entry_def dest!: map_of_SomeD split: option.splits meta_file.splits) force
  moreover have "dir_entry r (pid_text p) = Some e" using p registry_wf_entry(2) [OF assms p] by simp
  ultimately show "e \<in> set (list_all_entries r)"
    by (force simp: list_all_entries_def List.map_filter_def)
qed

lemma list_dirs_ok: "registry_wf r \<Longrightarrow> list_dirs native ds r = (out, r') \<Longrightarrow> registry_wf r'"
  by (induction native ds r arbitrary: out r' rule: list_dirs.induct)
     (auto simp: remove_entry_ok split: option.splits if_splits prod.splits)

text \<open>One step of the loop, over a directory named by a pid.\<close>

lemma list_dirs_step:
  assumes "registry_wf r" "0 < p"
  shows "list_dirs native (pid_text p # ds) r =
     (if dir_dead native r (pid_text p) then list_dirs native ds (remove_entry p r)
      else apfst (Cons (the (read_entry r p))) (list_dirs native ds r))"
proof (cases "read_entry r p")
  case (Some e)
  with registry_wf_entry(1) [OF assms(1) Some] assms(2) show ?thesis
    by (simp add: dir_dead_def apfst_def map_prod_def)
qed (use assms(2) in \<open>simp add: dir_dead_def\<close>)

lemma dead_elsewhere:
  "0 < p \<Longrightarrow> 0 < q \<Longrightarrow> p \<noteq> q \<Longrightarrow> dir_dead native (remove_entry p r) (pid_text q) = dir_dead native r (pid_text q)"
  by (simp add: dir_dead_def)

text \<open>The loop returns the live entries and removes the other directories with their pins.\<close>

lemma list_dirs_result:
  assumes "registry_wf r" "distinct ps" "\<forall>p \<in> set ps. 0 < p"
    and "list_dirs native (map pid_text ps) r = (out, r')"
  shows "out = map (\<lambda>p. the (read_entry r p)) (filter (\<lambda>p. \<not> dir_dead native r (pid_text p)) ps) \<and>
    vm_dirs r' = filter (\<lambda>(d, _). \<not> (d \<in> pid_text ` set ps \<and> dir_dead native r d)) (vm_dirs r) \<and>
    (\<forall>q. pin_at (name_pins r') q =
       (if \<exists>p \<in> set ps. dir_dead native r (pid_text p) \<and> (\<exists>e. read_entry r p = Some e \<and> entry_pin e = Some q)
        then None else pin_at (name_pins r) q))"
  using assms
proof (induction ps arbitrary: r out r')
  case Nil
  then show ?case by (simp add: case_prod_unfold)
next
  case (Cons p ps)
  have pos: "0 < p" "\<forall>q \<in> set ps. 0 < q" and new: "p \<notin> set ps" using Cons.prems by simp_all
  show ?case
  proof (cases "dir_dead native r (pid_text p)")
    case True
    let ?r1 = "remove_entry p r"
    have step: "list_dirs native (map pid_text ps) ?r1 = (out, r')"
      using Cons.prems(4) True list_dirs_step [OF Cons.prems(1) pos(1)] by simp
    have dead: "dir_dead native ?r1 (pid_text q) = dir_dead native r (pid_text q)"
      and read: "read_entry ?r1 q = read_entry r q" if "q \<in> set ps" for q
      using that pos new dead_elsewhere [of p q] by auto
    from Cons.IH [OF remove_entry_ok [OF Cons.prems(1)] _ pos(2) step] Cons.prems(2)
    have IH: "out = map (\<lambda>p. the (read_entry ?r1 p)) (filter (\<lambda>p. \<not> dir_dead native ?r1 (pid_text p)) ps)"
      "vm_dirs r' = filter (\<lambda>(d, _). \<not> (d \<in> pid_text ` set ps \<and> dir_dead native ?r1 d)) (vm_dirs ?r1)"
      "\<And>q. pin_at (name_pins r') q =
         (if \<exists>p \<in> set ps. dir_dead native ?r1 (pid_text p) \<and> (\<exists>e. read_entry ?r1 p = Some e \<and> entry_pin e = Some q)
          then None else pin_at (name_pins ?r1) q)"
      by simp_all
    have "out = map (\<lambda>p. the (read_entry r p)) (filter (\<lambda>p. \<not> dir_dead native r (pid_text p)) ps)"
      using new unfolding IH(1) by (auto simp: dead read cong: filter_cong)
    moreover have "vm_dirs r' =
        filter (\<lambda>(d, _). \<not> (d \<in> pid_text ` set (p # ps) \<and> dir_dead native r d)) (vm_dirs r)"
      unfolding IH(2) remove_entry_dirs AList.delete_eq filter_filter
      using True by (intro filter_cong) (auto simp: dead)
    moreover have "pin_at (name_pins r') q =
       (if \<exists>p \<in> set (p # ps). dir_dead native r (pid_text p) \<and> (\<exists>e. read_entry r p = Some e \<and> entry_pin e = Some q)
        then None else pin_at (name_pins r) q)" for q
      unfolding IH(3) remove_entry_at using True by (auto simp: dead read)
    ultimately show ?thesis using True by simp
  next
    case False
    then obtain out' where step: "list_dirs native (map pid_text ps) r = (out', r')"
      and out: "out = the (read_entry r p) # out'"
      using Cons.prems(4) list_dirs_step [OF Cons.prems(1) pos(1)]
      by (cases "list_dirs native (map pid_text ps) r") auto
    from Cons.IH [OF Cons.prems(1) _ pos(2) step] Cons.prems(2) False out show ?thesis
      by (auto simp: case_prod_unfold intro!: filter_cong)
  qed
qed

lemma registry_wf_pids:
  assumes "registry_wf r"
  obtains ps where "map fst (vm_dirs r) = map pid_text ps" "distinct ps" "\<forall>p \<in> set ps. 0 < p"
proof -
  have "\<forall>d \<in> set (map fst (vm_dirs r)). \<exists>p. d = pid_text p \<and> 0 < p"
    using registry_wf_dir [OF assms] by metis
  then obtain f where f: "\<And>d. d \<in> set (map fst (vm_dirs r)) \<Longrightarrow> d = pid_text (f d) \<and> 0 < f d" by metis
  let ?ps = "map f (map fst (vm_dirs r))"
  have "map fst (vm_dirs r) = map pid_text ?ps"
    using f by (simp add: map_idI)
  moreover from this have "distinct ?ps"
    using registry_wfD(2) [OF assms] by (metis distinct_map)
  ultimately show ?thesis using that [of ?ps] f by auto
qed

lemma map_filter_agree: "(\<And>x. x \<in> set xs \<Longrightarrow> f x = g x) \<Longrightarrow> List.map_filter f xs = List.map_filter g xs"
  by (induction xs) (auto simp: List.map_filter_simps split: option.split)

lemma map_filter_of_map: "List.map_filter f (map g xs) = List.map_filter (\<lambda>x. f (g x)) xs"
  by (simp add: List.map_filter_def filter_map comp_def)

text \<open>\<open>list\<close> keeps the live entries, the directories they are in, and the pins that are held
  by one of them unless a dead entry has the same name.\<close>

lemma list_dirs_whole:
  assumes "registry_wf r" "list_dirs native (map fst (vm_dirs r)) r = (out, r')"
  shows "out = filter (\<lambda>e. entry_status native e = Alive) (list_all_entries r)"
    and "\<And>p. read_entry r' p = (case read_entry r p of
           Some e \<Rightarrow> if entry_status native e = Alive then Some e else None | None \<Rightarrow> None)"
    and "vm_dirs r' = filter (\<lambda>(d, _). \<not> dir_dead native r d) (vm_dirs r)"
    and "\<And>q. pin_at (name_pins r') q =
       (if \<exists>e \<in> set (list_all_entries r). entry_status native e \<noteq> Alive \<and> entry_pin e = Some q
        then None else pin_at (name_pins r) q)"
proof -
  obtain ps where ps: "map fst (vm_dirs r) = map pid_text ps" "distinct ps" "\<forall>p \<in> set ps. 0 < p"
    by (rule registry_wf_pids [OF assms(1)])
  note res = list_dirs_result [OF assms(1) ps(2,3) assms(2) [unfolded ps(1)]]
  have all: "list_all_entries r = List.map_filter (read_entry r) ps"
    using ps(3) unfolding list_all_entries_def ps(1) map_filter_of_map
    by (intro map_filter_agree) simp
  have dead: "dir_dead native r (pid_text p) \<longleftrightarrow>
      (case read_entry r p of None \<Rightarrow> True | Some e \<Rightarrow> entry_status native e \<noteq> Alive)" if "0 < p" for p
    using that by (simp add: dir_dead_def)
  have "map (\<lambda>p. the (read_entry r p)) (filter (\<lambda>p. \<not> dir_dead native r (pid_text p)) qs) =
      filter (\<lambda>e. entry_status native e = Alive) (List.map_filter (read_entry r) qs)"
    if "\<forall>p \<in> set qs. 0 < p" for qs
    using that by (induction qs) (auto simp: dead List.map_filter_simps split: option.split)
  with res ps(3) all show "out = filter (\<lambda>e. entry_status native e = Alive) (list_all_entries r)" by simp
  have in_ps: "p \<in> set ps" if "read_entry r p = Some e" for p e
    using that ps(1) by (auto simp: read_entry_def dest!: map_of_SomeD split: option.splits meta_file.splits)
      (metis (no_types, lifting) fst_conv imageE image_eqI list.set_map pid_text_eq_iff)
  show dirs: "vm_dirs r' = filter (\<lambda>(d, _). \<not> dir_dead native r d) (vm_dirs r)"
  proof -
    have "fst dm \<in> pid_text ` set ps" if "dm \<in> set (vm_dirs r)" for dm
      using that ps(1) by (metis image_eqI list.set_map)
    with res show ?thesis by (auto intro!: filter_cong simp: case_prod_unfold)
  qed
  show "read_entry r' p = (case read_entry r p of
      Some e \<Rightarrow> if entry_status native e = Alive then Some e else None | None \<Rightarrow> None)" for p
  proof (cases "read_entry r p")
    case None
    then show ?thesis
      by (simp add: read_entry_def [of r'] dirs map_of_filter_key)
         (simp add: read_entry_def split: option.splits meta_file.splits)
  next
    case (Some e)
    with registry_wf_entry(2) [OF assms(1) Some] show ?thesis
      by (simp add: read_entry_def [of r'] dirs map_of_filter_key dead)
         (simp add: read_entry_def split: option.splits meta_file.splits)
  qed
  have "p \<in> set ps \<and> dir_dead native r (pid_text p) \<and> read_entry r p = Some e \<longleftrightarrow>
      read_entry r p = Some e \<and> entry_status native e \<noteq> Alive" for p e
    using in_ps [of p e] ps(3) dead [of p] by auto
  then have "(\<exists>p \<in> set ps. dir_dead native r (pid_text p) \<and> (\<exists>e. read_entry r p = Some e \<and> entry_pin e = Some q)) \<longleftrightarrow>
      (\<exists>e. (\<exists>p. read_entry r p = Some e) \<and> entry_status native e \<noteq> Alive \<and> entry_pin e = Some q)" for q
    by blast
  then have "(\<exists>p \<in> set ps. dir_dead native r (pid_text p) \<and> (\<exists>e. read_entry r p = Some e \<and> entry_pin e = Some q)) \<longleftrightarrow>
      (\<exists>e \<in> set (list_all_entries r). entry_status native e \<noteq> Alive \<and> entry_pin e = Some q)" for q
    by (simp add: Bex_def set_list_all_entries [OF assms(1)])
  with res show "pin_at (name_pins r') q =
       (if \<exists>e \<in> set (list_all_entries r). entry_status native e \<noteq> Alive \<and> entry_pin e = Some q
        then None else pin_at (name_pins r) q)" for q by simp
qed

lemma drop_stale_fold:
  "pin_at (fold (drop_stale_pin native r) pins es) q =
     (case pin_at es q of
        None \<Rightarrow> None
      | Some t \<Rightarrow> if q \<in> set pins \<and> pin_is_stale native r (pid_number t) then None else Some t)"
proof (induction pins arbitrary: es)
  case (Cons p pins)
  have "pin_at (drop_stale_pin native r p es) q =
     (case pin_at es q of
        None \<Rightarrow> None
      | Some t \<Rightarrow> if q = p \<and> pin_is_stale native r (pid_number t) then None else Some t)"
    by (auto simp: drop_stale_pin_def pin_simps split: option.split)
  then show ?case using Cons.IH by (auto split: option.split)
qed (simp split: option.split)

lemma drop_stale_fold_wf: "wf_dir es \<Longrightarrow> wf_dir (fold (drop_stale_pin native r) pins es)"
  by (induction pins arbitrary: es) (simp_all add: drop_stale_pin_def quiet_unlink_wf split: option.split)

lemma prune_stale_at:
  assumes "wf_dir (name_pins r)"
  shows "pin_at (name_pins (prune_stale_name_pins native r)) q = Some t \<longleftrightarrow>
    pin_at (name_pins r) q = Some t \<and> \<not> pin_is_stale native r (pid_number t)"
  using walk_pins_complete [of "name_pins r" q]
  by (auto simp: prune_stale_name_pins_def sweep_at drop_stale_fold_wf assms drop_stale_fold split: option.split)

lemma prune_stale_ok: "registry_wf r \<Longrightarrow> registry_wf (prune_stale_name_pins native r)"
  by (auto simp: prune_stale_name_pins_def intro!: ok_pins sweep_wf drop_stale_fold_wf dest: registry_wfD)

lemma list_vms_ok: "registry_wf r \<Longrightarrow> registry_wf (snd (list_vms native r))"
  by (auto simp: list_vms_def prune_stale_ok dest: list_dirs_ok split: prod.split)

text \<open>Staleness only looks at live entries.\<close>

lemma stale_cong:
  assumes "registry_wf r"
    and "\<And>p. read_entry r' p = (case read_entry r p of
           Some e \<Rightarrow> if entry_status native e = Alive then Some e else None | None \<Rightarrow> None)"
  shows "pin_is_stale native r' held = pin_is_stale native r held"
proof (cases held)
  case (Some p)
  then show ?thesis
    using assms(2) [of p] registry_wf_entry(1) [OF assms(1), of p]
    by (cases "read_entry r p") (auto simp: pin_is_stale_def entry_status_def)
qed (simp add: pin_is_stale_def)

lemma list_vms_whole:
  assumes "registry_wf r" "list_vms native r = (out, r')"
  shows "out = filter (\<lambda>e. entry_status native e = Alive) (list_all_entries r)"
    and "list_all_entries r' = out"
    and "pin_at (name_pins r') q = Some t \<longleftrightarrow>
      pin_at (name_pins r) q = Some t \<and> \<not> pin_is_stale native r (pid_number t) \<and>
      (\<forall>e \<in> set (list_all_entries r). entry_status native e \<noteq> Alive \<longrightarrow> entry_pin e \<noteq> Some q)"
proof -
  obtain r1 where r1: "list_dirs native (map fst (vm_dirs r)) r = (out, r1)"
    and r': "r' = prune_stale_name_pins native r1"
    using assms(2) by (auto simp: list_vms_def split: prod.splits)
  note whole = list_dirs_whole [OF assms(1) r1]
  show out: "out = filter (\<lambda>e. entry_status native e = Alive) (list_all_entries r)" by (rule whole(1))
  have same: "vm_dirs r' = vm_dirs r1" "read_entry r' = read_entry r1"
    by (auto simp: r' prune_stale_name_pins_def)
  have "dir_entry r1 d = dir_entry r d" if "\<not> dir_dead native r d" for d
    using that whole(2) by (auto simp: dir_entry_def dir_dead_def split: option.splits if_splits)
  moreover have "filter (\<lambda>e. entry_status native e = Alive) (List.map_filter (dir_entry r) ds) =
      List.map_filter (dir_entry r) (filter (\<lambda>d. \<not> dir_dead native r d) ds)" for ds
    by (induction ds)
       (auto simp: List.map_filter_simps dir_dead_def dir_entry_def split: option.splits if_splits)
  moreover have "map fst (vm_dirs r1) = filter (\<lambda>d. \<not> dir_dead native r d) (map fst (vm_dirs r))"
    by (simp add: whole(3) filter_map comp_def case_prod_unfold)
  ultimately have "List.map_filter (dir_entry r1) (map fst (vm_dirs r1)) = out"
    unfolding out list_all_entries_def by (auto intro!: map_filter_agree)
  moreover have "dir_entry r' = dir_entry r1" unfolding dir_entry_def same(2) ..
  ultimately show "list_all_entries r' = out" by (simp add: list_all_entries_def same(1))
  have wf: "wf_dir (name_pins r1)" by (rule registry_wfD(1) [OF list_dirs_ok [OF assms(1) r1]])
  show "pin_at (name_pins r') q = Some t \<longleftrightarrow>
      pin_at (name_pins r) q = Some t \<and> \<not> pin_is_stale native r (pid_number t) \<and>
      (\<forall>e \<in> set (list_all_entries r). entry_status native e \<noteq> Alive \<longrightarrow> entry_pin e \<noteq> Some q)"
    unfolding r' prune_stale_at [OF wf] stale_cong [OF assms(1) whole(2)] whole(4) by auto
qed

section \<open>What claiming does\<close>

text \<open>The path is free: nothing is there, or a stale pin, or an empty directory.\<close>

definition pin_free :: "processes \<Rightarrow> registry \<Rightarrow> path \<Rightarrow> bool" where
  "pin_free native r pin =
     (case node_at (name_pins r) pin of
        None \<Rightarrow> True
      | Some (Pin t) \<Rightarrow> pin_is_stale native r (pid_number t)
      | Some (Pin_dir ds) \<Rightarrow> ds = [])"

text \<open>Reaping a stale pin also removes the directory of the pid it names.\<close>

definition reaped :: "registry \<Rightarrow> path \<Rightarrow> int \<Rightarrow> bool" where
  "reaped r pin q = (case pin_at (name_pins r) pin of None \<Rightarrow> False | Some t \<Rightarrow> pid_number t = Some q \<and> 0 < q)"

lemma stale_pins_irrelevant [simp]: "pin_is_stale native (r\<lparr>name_pins := es\<rparr>) held = pin_is_stale native r held"
  by (simp add: pin_is_stale_def split: option.split)

lemma stale_not_positive: "\<not> is_positive held \<Longrightarrow> pin_is_stale native r held"
  by (auto simp: is_positive_def pin_is_stale_def split: option.split)

text \<open>Both attempts of the loop, where the directory of the pin is there.\<close>

lemma claim_attempts_there:
  assumes up: "node_at (name_pins r) qs = Some (Pin_dir ds)"
    and claim: "claim_attempts native pid (qs @ [p]) 2 r = (res, r')"
  shows "res = Inr (pin_free native r (qs @ [p]))"
    and "\<not> pin_free native r (qs @ [p]) \<Longrightarrow> r' = r"
    and "pin_free native r (qs @ [p]) \<Longrightarrow>
      pin_at (name_pins r') = (pin_at (name_pins r))(qs @ [p] \<mapsto> pid_text pid) \<and>
      (\<forall>q. read_entry r' q = (if reaped r (qs @ [p]) q then None else read_entry r q))"
proof -
  let ?pin = "qs @ [p]"
  have node: "node_at (name_pins r) ?pin = map_of ds p" by (rule node_at_snoc [OF up])
  have two: "2 = Suc (Suc 0)" by simp
  note once = claim_pin_once_def handle_existing_pin_def pin_path_is_directory_def
  have retried: "\<exists>es'. create_pin ?pin (pid_text pid) es = Inr es' \<and>
      pin_at es' = (pin_at (name_pins r))(?pin \<mapsto> pid_text pid)"
    if "node_at es qs = Some (Pin_dir (AList.delete p ds))"
      "pin_at es = (pin_at (name_pins r))(?pin := None)" for es
  proof -
    have "map_of (AList.delete p ds) p = None" by (simp add: AList.delete_conv')
    with that(1) have "\<exists>es'. create_pin ?pin (pid_text pid) es = Inr es'" by (rule create_pin_there(1))
    then show ?thesis using that(2) by (metis create_pin_at fun_upd_upd)
  qed
  have "res = Inr (pin_free native r ?pin) \<and> (\<not> pin_free native r ?pin \<longrightarrow> r' = r) \<and>
    (pin_free native r ?pin \<longrightarrow>
      pin_at (name_pins r') = (pin_at (name_pins r))(?pin \<mapsto> pid_text pid) \<and>
      (\<forall>q. read_entry r' q = (if reaped r ?pin q then None else read_entry r q)))"
  proof (cases "map_of ds p")
    case None
    obtain es' where es': "create_pin ?pin (pid_text pid) (name_pins r) = Inr es'"
      using create_pin_there(1) [OF up None] by blast
    have "pin_at es' = (pin_at (name_pins r))(?pin \<mapsto> pid_text pid)" by (rule create_pin_at [OF es'])
    moreover have "\<not> reaped r ?pin q" for q using None node by (simp add: reaped_def pin_at_def)
    moreover have "res = Inr True" "r' = r\<lparr>name_pins := es'\<rparr>"
      using claim es' by (simp_all add: two once)
    ultimately show ?thesis using node None by (simp add: pin_free_def)
  next
    case (Some n)
    have exists: "create_pin ?pin (pid_text pid) (name_pins r) = Inl EEXIST"
      using create_pin_there(2) [OF up] Some by simp
    show ?thesis
    proof (cases n)
      case (Pin t)
      with Some node have t: "pin_at (name_pins r) ?pin = Some t" "node_at (name_pins r) ?pin = Some (Pin t)"
        by (simp_all add: pin_at_def)
      show ?thesis
      proof (cases "pin_is_stale native r (pid_number t)")
        case True
        from removed_there(1) [OF up, of p t] Some Pin obtain es where
          es: "unlink_pin ?pin (name_pins r) = Inr es" "node_at es qs = Some (Pin_dir (AList.delete p ds))"
          by auto
        obtain es' where es': "create_pin ?pin (pid_text pid) es = Inr es'"
          "pin_at es' = (pin_at (name_pins r))(?pin \<mapsto> pid_text pid)"
          using retried [OF es(2) unlink_pin_at [OF es(1)]] by blast
        have "is_positive (pid_number t) \<Longrightarrow> pin_is_stale native r (pid_number t)" by (rule True)
        with True t es es' exists claim show ?thesis
          by (auto simp: two once handle_file_pin_def read_pin_pid_def reap_stale_pin_def quietly_def Let_def
              pin_free_def reaped_def is_positive_def read_entry_def AList.delete_conv' split: option.splits if_splits)
      next
        case False
        then have "is_positive (pid_number t)" using stale_not_positive by blast
        with False t exists claim show ?thesis
          by (auto simp: two once handle_file_pin_def read_pin_pid_def pin_free_def)
      qed
    next
      case (Pin_dir es0)
      with Some node have d: "node_at (name_pins r) ?pin = Some (Pin_dir es0)" by simp
      show ?thesis
      proof (cases es0)
        case Nil
        from removed_there(2) [OF up, of p] Some Pin_dir Nil obtain es where
          es: "rmdir_pin ?pin (name_pins r) = Inr es" "node_at es qs = Some (Pin_dir (AList.delete p ds))"
          by auto
        have "pin_at es = (pin_at (name_pins r))(?pin := None)"
          using rmdir_pin_at [OF es(1)] rmdir_not_pinned [OF es(1)] by (simp add: fun_upd_idem)
        from retried [OF es(2) this] obtain es' where es': "create_pin ?pin (pid_text pid) es = Inr es'"
          "pin_at es' = (pin_at (name_pins r))(?pin \<mapsto> pid_text pid)" by blast
        with d Nil es exists claim show ?thesis
          by (auto simp: two once handle_directory_pin_def pin_free_def reaped_def pin_at_def)
      next
        case (Cons x xs)
        with removed_there(3) [OF up] Some Pin_dir d exists claim show ?thesis
          by (auto simp: two once handle_directory_pin_def pin_free_def)
      qed
    qed
  qed
  then show "res = Inr (pin_free native r ?pin)"
    and "\<not> pin_free native r ?pin \<Longrightarrow> r' = r"
    and "pin_free native r ?pin \<Longrightarrow>
      pin_at (name_pins r') = (pin_at (name_pins r))(?pin \<mapsto> pid_text pid) \<and>
      (\<forall>q. read_entry r' q = (if reaped r ?pin q then None else read_entry r q))"
    by blast+
qed

text \<open>
  All outcomes of \<open>claimName\<close>. A pin on the way to the directory of the pin is a throw
  (\<open>ENOTDIR\<close>), one in place of it a refusal; otherwise the name is taken exactly when its path
  is free.
\<close>

lemma claim_name_outcome:
  assumes "pin_path name \<noteq> []" "claim_name native name pid r = (res, r')"
  shows "res =
      (if pin_above (name_pins r) (butlast (pin_path name)) then Inl ENOTDIR
       else if pin_at (name_pins r) (butlast (pin_path name)) \<noteq> None then Inr False
       else Inr (pin_free native r (pin_path name)))"
    and "res \<noteq> Inr True \<Longrightarrow> r' = r"
    and "res = Inr True \<Longrightarrow>
      pin_at (name_pins r') = (pin_at (name_pins r))(pin_path name \<mapsto> pid_text pid)"
    and "res = Inr True \<Longrightarrow>
      read_entry r' q = (if reaped r (pin_path name) q then None else read_entry r q)"
proof -
  obtain qs p where pin: "pin_path name = qs @ [p]" using assms(1) by (metis append_butlast_last_id)
  have "res =
      (if pin_above (name_pins r) qs then Inl ENOTDIR
       else if pin_at (name_pins r) qs \<noteq> None then Inr False
       else Inr (pin_free native r (qs @ [p]))) \<and>
    (res \<noteq> Inr True \<longrightarrow> r' = r) \<and>
    (res = Inr True \<longrightarrow>
      pin_at (name_pins r') = (pin_at (name_pins r))(qs @ [p] \<mapsto> pid_text pid) \<and>
      (\<forall>q. read_entry r' q = (if reaped r (qs @ [p]) q then None else read_entry r q)))"
  proof (cases "mkdir_p qs (name_pins r)")
    case (Inl c)
    with mkdir_p_outcome [of qs "name_pins r"] assms(2) show ?thesis
      by (auto simp: claim_name_def pin ensure_pin_parent_def)
  next
    case (Inr es)
    let ?r1 = "r\<lparr>name_pins := es\<rparr>"
    from Inr have no: "\<not> pin_above (name_pins r) qs" "pin_at (name_pins r) qs = None"
      using mkdir_p_outcome(1,2) [of qs "name_pins r"] by auto
    obtain ds where up: "node_at es qs = Some (Pin_dir ds)" using mkdir_p_dir [OF Inr] by blast
    have claim: "claim_attempts native pid (qs @ [p]) 2 ?r1 = (res, r')"
      using assms(2) Inr by (simp add: claim_name_def pin ensure_pin_parent_def)
    have node: "node_at es (qs @ [p]) = node_at (name_pins r) (qs @ [p])"
      by (rule mkdir_p_node [OF Inr])
    have pins: "pin_at es = pin_at (name_pins r)" by (rule mkdir_p_pin_at [OF Inr])
    have free: "pin_free native ?r1 (qs @ [p]) = pin_free native r (qs @ [p])"
      and reap: "reaped ?r1 (qs @ [p]) = reaped r (qs @ [p])"
      by (simp_all add: pin_free_def reaped_def node pins fun_eq_iff split: option.split pin_node.split)
    have "?r1 = r" if "\<not> pin_free native r (qs @ [p])"
    proof -
      from that have "node_at (name_pins r) (qs @ [p]) \<noteq> None"
        by (cases "node_at (name_pins r) (qs @ [p])") (simp_all add: pin_free_def)
      then have "mkdir_p qs (name_pins r) = Inr (name_pins r)"
        by (meson mkdir_p_there node_at_parent)
      with Inr show ?thesis by simp
    qed
    with claim_attempts_there [of ?r1 qs ds native pid p res r'] up claim no free reap pins
    show ?thesis by auto
  qed
  then show "res =
      (if pin_above (name_pins r) (butlast (pin_path name)) then Inl ENOTDIR
       else if pin_at (name_pins r) (butlast (pin_path name)) \<noteq> None then Inr False
       else Inr (pin_free native r (pin_path name)))"
    and "res \<noteq> Inr True \<Longrightarrow> r' = r"
    and "res = Inr True \<Longrightarrow>
      pin_at (name_pins r') = (pin_at (name_pins r))(pin_path name \<mapsto> pid_text pid)"
    and "res = Inr True \<Longrightarrow>
      read_entry r' q = (if reaped r (pin_path name) q then None else read_entry r q)"
    unfolding pin by simp_all
qed

text \<open>The pin of a live VM is not free.\<close>

lemma live_pin_not_free:
  assumes "registry_wf r" "pin_at (name_pins r) (pin_path name) = Some (pid_text p)"
    and "read_entry r p = Some e" "entry_status native e = Alive"
  shows "\<not> pin_free native r (pin_path name)"
proof -
  have "node_at (name_pins r) (pin_path name) = Some (Pin (pid_text p))"
    using assms(2) by (auto simp: pin_at_def split: option.splits pin_node.splits)
  with assms(3,4) registry_wf_entry [OF assms(1,3)] show ?thesis
    by (simp add: pin_free_def pin_is_stale_def entry_status_def)
qed

text \<open>A pin whose VM has no entry yet counts as orphaned.\<close>

lemma pin_free_without_entry:
  assumes "pin_at (name_pins r) pin = Some (pid_text p)" "read_entry r p = None"
  shows "pin_free native r pin"
proof -
  have "node_at (name_pins r) pin = Some (Pin (pid_text p))"
    using assms(1) by (auto simp: pin_at_def split: option.splits pin_node.splits)
  with assms(2) show ?thesis by (simp add: pin_free_def pin_is_stale_def)
qed

lemma pin_not_above:
  assumes "node_at es ps = Some n"
  shows "\<not> pin_above es ps"
  using assms
proof (induction es ps rule: node_at.induct)
  case (2 es p ps)
  then show ?case by (auto simp: pin_above_Cons split: option.splits pin_node.splits if_splits)
qed simp

lemma pinned_parent_free:
  assumes "pin_at es ps = Some t" "ps \<noteq> []"
  shows "\<not> pin_above es (butlast ps)" "pin_at es (butlast ps) = None"
proof -
  have n: "node_at es ps = Some (Pin t)"
    using assms(1) by (auto simp: pin_at_def split: option.splits pin_node.splits)
  then obtain ds where "node_at es (butlast ps) = Some (Pin_dir ds)"
    using node_at_parent [of es "butlast ps" "last ps"] assms(2) by auto
  then show "\<not> pin_above es (butlast ps)" "pin_at es (butlast ps) = None"
    using pin_not_above by (auto simp: pin_at_def)
qed

section \<open>What writing does\<close>

lemma write_entry_read [simp]:
  "read_entry (snd (write_entry e r)) q = (if q = entry_pid e then Some e else read_entry r q)"
  by (simp add: write_entry_def Let_def split: option.split sum.split)

lemma write_entry_ok: "registry_wf r \<Longrightarrow> 0 < entry_pid e \<Longrightarrow> registry_wf (snd (write_entry e r))"
  by (auto simp: write_entry_def Let_def split: option.split sum.split
      intro!: ok_pins ok_update_dir dest: mkdir_p_wf calls_wf registry_wfD)

lemma node_of_pin: "pin_at es ps = Some t \<Longrightarrow> node_at es ps = Some (Pin t)"
  by (auto simp: pin_at_def split: option.splits pin_node.splits)

lemma write_pin_there:
  assumes "pin_at es (qs @ [p]) = Some t"
  shows "\<exists>es'. write_pin (qs @ [p]) u es = Inr es'"
proof -
  have n: "node_at es (qs @ [p]) = Some (Pin t)" by (rule node_of_pin [OF assms])
  then obtain ds where ds: "node_at es qs = Some (Pin_dir ds)" using node_at_parent by fastforce
  with n have "map_of ds p = Some (Pin t)" by (simp add: node_at_snoc)
  with in_parent_there [OF ds, of "write_file_entry u" p] show ?thesis
    by (auto simp: write_pin_def write_file_entry_def)
qed

text \<open>Writing an entry whose name is pinned succeeds, and the pin then names its pid.\<close>

lemma write_entry_pinned:
  assumes "entry_name e = Some n" "n \<noteq> []" "pin_at (name_pins r) (pin_path n) = Some t"
  shows "fst (write_entry e r) = Inr ()"
    and "pin_at (name_pins (snd (write_entry e r))) =
      (pin_at (name_pins r))(pin_path n \<mapsto> pid_text (entry_pid e))"
proof -
  have "pin_path n \<noteq> []" using assms(3) by auto
  then obtain qs p where pin: "pin_path n = qs @ [p]" by (metis append_butlast_last_id)
  have "node_at (name_pins r) (qs @ [p]) \<noteq> None" using node_of_pin assms(3) pin by simp
  then have mk: "mkdir_p qs (name_pins r) = Inr (name_pins r)" by (meson mkdir_p_there node_at_parent)
  obtain es where es: "write_pin (qs @ [p]) (pid_text (entry_pid e)) (name_pins r) = Inr es"
    using write_pin_there assms(3) pin by metis
  show "fst (write_entry e r) = Inr ()"
    using assms(1,2) mk es pin by (simp add: write_entry_def Let_def)
  show "pin_at (name_pins (snd (write_entry e r))) =
      (pin_at (name_pins r))(pin_path n \<mapsto> pid_text (entry_pid e))"
    using assms(1,2) mk es pin write_pin_at [OF es] by (simp add: write_entry_def Let_def)
qed

text \<open>A live VM is found under a name that is pinned to it.\<close>

lemma find_pinned:
  assumes "registry_wf r" "pin_at (name_pins r) (pin_path n) = Some (pid_text p)"
    and "read_entry r p = Some e" "entry_status native e = Alive"
  shows "find_entry native None (Some n) r = (Some e, r)"
  using assms(3,4) node_of_pin [OF assms(2)] registry_wf_entry [OF assms(1,3)]
  by (simp add: find_entry_def find_by_name_def Let_def pin_is_stale_def entry_status_def)

lemma find_entry_ok: "registry_wf r \<Longrightarrow> registry_wf (snd (find_entry native pid name r))"
  by (auto simp: find_entry_def find_by_pid_def find_by_name_def Let_def remove_entry_ok
      intro!: ok_pins quiet_unlink_wf dest: registry_wfD split: option.split pin_node.split)

section \<open>Claiming keeps the registry well-formed\<close>

lemma reap_stale_pin_ok: "registry_wf r \<Longrightarrow> registry_wf (reap_stale_pin pin held r)"
proof -
  assume ok: "registry_wf r"
  let ?r1 = "r\<lparr>name_pins := quietly (unlink_pin pin) (name_pins r)\<rparr>"
  have "registry_wf ?r1" by (intro ok_pins ok quiet_unlink_wf registry_wfD)
  then show ?thesis
    using ok_delete_dir [of ?r1 "pid_text (the held)"] by (simp add: reap_stale_pin_def Let_def)
qed

lemma claim_once_ok: "registry_wf r \<Longrightarrow> registry_wf (snd (claim_pin_once native pid pin r))"
proof -
  assume ok: "registry_wf r"
  have f: "registry_wf (snd (handle_file_pin native pin r))"
    using ok by (simp add: handle_file_pin_def reap_stale_pin_ok Let_def)
  have d: "registry_wf (snd (handle_directory_pin pin r))"
    using ok by (auto simp: handle_directory_pin_def split: sum.split
        intro!: ok_pins dest: calls_wf registry_wfD)
  show ?thesis
    using ok f d
    by (auto simp: claim_pin_once_def handle_existing_pin_def case_prod_unfold split: sum.split
        intro!: ok_pins dest: calls_wf registry_wfD)
qed

lemma claim_attempts_ok: "registry_wf r \<Longrightarrow> registry_wf (snd (claim_attempts native pid pin n r))"
proof (induction n arbitrary: r)
  case (Suc n)
  have "registry_wf (snd (claim_pin_once native pid pin r))" by (rule claim_once_ok [OF Suc.prems])
  with Suc.IH show ?case
    by (cases "claim_pin_once native pid pin r") (auto split: sum.split claim_attempt.split)
qed simp

lemma claim_name_ok: "registry_wf r \<Longrightarrow> registry_wf (snd (claim_name native name pid r))"
proof -
  assume ok: "registry_wf r"
  have *: "registry_wf (snd (ensure_pin_parent (pin_path name) r))"
    using ok by (auto simp: ensure_pin_parent_def split: sum.split intro!: ok_pins dest: mkdir_p_wf registry_wfD)
  obtain res r1 where e: "ensure_pin_parent (pin_path name) r = (res, r1)" by fastforce
  with * have "registry_wf r1" by simp
  then have "registry_wf (snd (claim_attempts native pid (pin_path name) 2 r1))" by (rule claim_attempts_ok)
  with e \<open>registry_wf r1\<close> show ?thesis
    by (simp add: claim_name_def Let_def del: claim_attempts.simps split: sum.split bool.split)
qed

section \<open>What garbage collection does\<close>

lemma gc_entries_ok: "registry_wf r \<Longrightarrow> registry_wf (snd (gc_entries cleanup native dry es r))"
  by (induction cleanup native dry es r rule: gc_entries.induct)
     (auto simp: reap_entry_def remove_entry_ok case_prod_unfold)

lemma gc_entries_results:
  "map gc_pid (fst (gc_entries cleanup native dry es r)) =
     map entry_pid (filter (\<lambda>e. entry_status native e \<noteq> Alive) es)"
  by (induction cleanup native dry es r rule: gc_entries.induct)
     (auto simp: reap_entry_def case_prod_unfold)

lemma gc_entries_dry: "snd (gc_entries cleanup native True es r) = r"
  by (induction es arbitrary: r) (auto simp: reap_entry_def case_prod_unfold)

lemma gc_entries_read:
  "read_entry (snd (gc_entries cleanup native False es r)) p =
     (if \<exists>e \<in> set es. entry_status native e \<noteq> Alive \<and> entry_pid e = p then None else read_entry r p)"
  by (induction es arbitrary: r) (auto simp: reap_entry_def case_prod_unfold)

section \<open>Sessions\<close>

text \<open>The calls that processes make on the registry, one after the other.\<close>

datatype reg_call =
    Call_write reg_entry
  | Call_patch int "entry_field list"
  | Call_remove int
  | Call_list processes
  | Call_claim processes string int
  | Call_find processes "int option" "string option"
  | Call_gc "string \<Rightarrow> bool \<Rightarrow> bool \<times> bool" processes bool "int option"
  | Call_boot_claim "string \<Rightarrow> bool \<Rightarrow> bool \<times> bool" processes string int
  | Call_auto_name processes "string option" "string option" int

text \<open>Processes have positive pids.\<close>

fun call_possible :: "reg_call \<Rightarrow> bool" where
  "call_possible (Call_write e) \<longleftrightarrow> 0 < entry_pid e"
| "call_possible (Call_claim native name pid) \<longleftrightarrow> 0 < pid"
| "call_possible (Call_boot_claim cleanup native name pid) \<longleftrightarrow> 0 < pid"
| "call_possible (Call_auto_name native opts_name source pid) \<longleftrightarrow> 0 < pid"
| "call_possible _ \<longleftrightarrow> True"

fun reg_step :: "reg_call \<Rightarrow> registry \<Rightarrow> registry" where
  "reg_step (Call_write e) r = snd (write_entry e r)"
| "reg_step (Call_patch pid patch) r = snd (patch_entry pid patch r)"
| "reg_step (Call_remove pid) r = remove_entry pid r"
| "reg_step (Call_list native) r = snd (list_vms native r)"
| "reg_step (Call_claim native name pid) r = snd (claim_name native name pid r)"
| "reg_step (Call_find native pid name) r = snd (find_entry native pid name r)"
| "reg_step (Call_gc cleanup native dry only) r = snd (run_gc cleanup native dry only r)"
| "reg_step (Call_boot_claim cleanup native name pid) r = snd (claim_name_or_throw cleanup native name pid r)"
| "reg_step (Call_auto_name native opts_name source pid) r =
     snd (auto_name_restored_fork native opts_name source pid r)"

inductive reg_session :: "registry \<Rightarrow> bool" where
  reg_start: "reg_session \<lparr>vm_dirs = [], name_pins = []\<rparr>"
| reg_call: "reg_session r \<Longrightarrow> call_possible c \<Longrightarrow> reg_session (reg_step c r)"

locale registry_invariant =
  fixes I :: "registry \<Rightarrow> bool"
  assumes I_empty: "I \<lparr>vm_dirs = [], name_pins = []\<rparr>"
    and I_write: "I r \<Longrightarrow> 0 < entry_pid e \<Longrightarrow> I (snd (write_entry e r))"
    and I_patch: "I r \<Longrightarrow> I (snd (patch_entry pid patch r))"
    and I_remove: "I r \<Longrightarrow> I (remove_entry pid r)"
    and I_list: "I r \<Longrightarrow> I (snd (list_vms native r))"
    and I_claim: "I r \<Longrightarrow> 0 < pid \<Longrightarrow> I (snd (claim_name native name pid r))"
    and I_find: "I r \<Longrightarrow> I (snd (find_entry native q n r))"
    and I_found: "I r \<Longrightarrow> find_entry native (Some pid) None r = (Some e, r') \<Longrightarrow> 0 < pid \<Longrightarrow> 0 < entry_pid e"
begin

lemma I_gc_entries: "I r \<Longrightarrow> I (snd (gc_entries cleanup native dry es r))"
  by (induction cleanup native dry es r rule: gc_entries.induct)
     (auto simp: reap_entry_def I_remove case_prod_unfold)

lemma I_gc: "I r \<Longrightarrow> I (snd (run_gc cleanup native dry only r))"
  by (simp add: run_gc_def I_gc_entries)

lemma I_boot_claim:
  assumes "I r" "0 < pid"
  shows "I (snd (claim_name_or_throw cleanup native name pid r))"
proof -
  have 1: "I (snd (claim_name native name pid r))" by (rule I_claim [OF assms])
  have 2: "I (snd (claim_name native name pid (snd (run_gc cleanup native False None r1))))" if "I r1" for r1
    by (intro I_claim I_gc that assms(2))
  show ?thesis
    using 1 2 [of "snd (claim_name native name pid r)"]
    by (auto simp: claim_name_or_throw_def split: prod.split sum.split bool.split)
qed

lemma I_auto_name_from: "I r \<Longrightarrow> 0 < pid \<Longrightarrow> I (snd (auto_name_from native pid cs current r))"
proof (induction cs arbitrary: r)
  case (Cons c cs)
  obtain res r1 where c: "claim_name native c pid r = (res, r1)" by fastforce
  then have 1: "I r1" using I_claim [OF Cons.prems] by (metis snd_conv)
  obtain found r2 where f: "find_entry native (Some pid) None r1 = (found, r2)" by fastforce
  then have 2: "I r2" using I_find [OF 1] by (metis snd_conv)
  have "I (snd (write_entry (cur\<lparr>entry_name := Some c\<rparr>) r2))" if "found = Some cur" for cur
    using I_found [OF 1 f [unfolded that] Cons.prems(2)] by (intro I_write 2) simp
  with 1 2 c f Cons show ?case
    by (auto split: sum.split bool.split option.split prod.split)
qed simp

lemma I_auto_name: "I r \<Longrightarrow> 0 < pid \<Longrightarrow> I (snd (auto_name_restored_fork native opts_name source pid r))"
  by (auto simp: auto_name_restored_fork_def I_auto_name_from simp del: auto_name_from.simps split: option.split)

lemma I_step: "I r \<Longrightarrow> call_possible c \<Longrightarrow> I (reg_step c r)"
  by (cases c) (simp_all add: I_write I_patch I_remove I_list I_claim I_find I_gc I_boot_claim I_auto_name)

lemma I_reached: "reg_session r \<Longrightarrow> I r"
  by (induction rule: reg_session.induct) (auto intro: I_empty I_step)

end

lemma patch_entry_ok: "registry_wf r \<Longrightarrow> registry_wf (snd (patch_entry pid patch r))"
  using registry_wf_entry [of r pid]
  by (auto simp: patch_entry_def split: option.split intro!: write_entry_ok)

lemma found_pid:
  assumes "registry_wf r" "find_entry native (Some pid) None r = (Some e, r')"
  shows "entry_pid e = pid" "0 < entry_pid e"
  using assms(2) registry_wf_entry [OF assms(1)]
  by (auto simp: find_entry_def find_by_pid_def split: option.splits if_splits)

interpretation ok: registry_invariant registry_wf
proof unfold_locales
  show "registry_wf \<lparr>vm_dirs = [], name_pins = []\<rparr>" by (simp add: registry_wf_def)
qed (auto intro: write_entry_ok patch_entry_ok remove_entry_ok list_vms_ok claim_name_ok find_entry_ok
    dest: found_pid)

section \<open>Every pin is a pid\<close>

definition pins_numbered :: "registry \<Rightarrow> bool" where
  "pins_numbered r \<longleftrightarrow> (\<forall>q t. pin_at (name_pins r) q = Some t \<longrightarrow> (\<exists>p > 0. t = pid_text p))"

lemma numbered_fewer:
  "pins_numbered r \<Longrightarrow> (\<And>q t. pin_at (name_pins r') q = Some t \<Longrightarrow> pin_at (name_pins r) q = Some t) \<Longrightarrow>
   pins_numbered r'"
  unfolding pins_numbered_def by blast

lemma numbered_one_more:
  "pins_numbered r \<Longrightarrow> 0 < p \<Longrightarrow>
   (\<And>q t. pin_at (name_pins r') q = Some t \<Longrightarrow> pin_at (name_pins r) q = Some t \<or> t = pid_text p) \<Longrightarrow>
   pins_numbered r'"
  unfolding pins_numbered_def by blast

lemma write_entry_pins:
  "pin_at (name_pins (snd (write_entry e r))) q = Some t \<Longrightarrow>
   pin_at (name_pins r) q = Some t \<or> t = pid_text (entry_pid e)"
  by (auto simp: write_entry_def Let_def dest!: mkdir_p_pin_at write_pin_at split: option.splits sum.splits if_splits)

lemma claim_name_pins:
  assumes "pin_at (name_pins (snd (claim_name native name pid r))) q = Some t"
  shows "pin_at (name_pins r) q = Some t \<or> t = pid_text pid"
proof (cases "pin_path name = []")
  case True
  have "snd (claim_name native name pid r) = r"
    by (simp add: claim_name_def True ensure_pin_parent_def claim_pin_once_def create_pin_def numeral_2_eq_2)
  with assms show ?thesis by simp
next
  case False
  obtain res r' where c: "claim_name native name pid r = (res, r')" by fastforce
  with claim_name_outcome(2,3) [OF False c] assms show ?thesis
    by (cases "res = Inr True") (auto split: if_splits)
qed

lemma remove_entry_pins: "pin_at (name_pins (remove_entry p r)) q = Some t \<Longrightarrow> pin_at (name_pins r) q = Some t"
  by (auto simp: remove_entry_at split: if_splits)

lemma find_entry_pins:
  "pin_at (name_pins (snd (find_entry native pid name r))) q = Some t \<Longrightarrow> pin_at (name_pins r) q = Some t"
  by (auto simp: find_entry_def find_by_pid_def find_by_name_def Let_def quiet_unlink_at
      dest: remove_entry_pins split: option.splits pin_node.splits if_splits)

lemma list_vms_pins:
  assumes "registry_wf r" "pin_at (name_pins (snd (list_vms native r))) q = Some t"
  shows "pin_at (name_pins r) q = Some t"
  using assms list_vms_whole(3) [OF assms(1)] by (cases "list_vms native r") fastforce

interpretation numbered: registry_invariant "\<lambda>r. registry_wf r \<and> pins_numbered r"
proof unfold_locales
  show "registry_wf \<lparr>vm_dirs = [], name_pins = []\<rparr> \<and> pins_numbered \<lparr>vm_dirs = [], name_pins = []\<rparr>"
    by (simp add: ok.I_empty pins_numbered_def)
next
  fix r :: registry and pid patch
  assume r: "registry_wf r \<and> pins_numbered r"
  have "pins_numbered (snd (patch_entry pid patch r))"
  proof (cases "read_entry r pid")
    case (Some e)
    let ?e = "(fold set_field patch e)\<lparr>entry_pid := entry_pid e\<rparr>"
    have "0 < entry_pid ?e" using registry_wf_entry [of r pid e] r Some by simp
    with r have "pins_numbered (snd (write_entry ?e r))"
      using write_entry_pins by (blast intro: numbered_one_more)
    with Some show ?thesis by (simp add: patch_entry_def)
  qed (use r in \<open>simp add: patch_entry_def\<close>)
  with r show "registry_wf (snd (patch_entry pid patch r)) \<and> pins_numbered (snd (patch_entry pid patch r))"
    by (simp add: patch_entry_ok)
next
  fix native :: processes and r :: registry
  assume "registry_wf r \<and> pins_numbered r"
  then show "registry_wf (snd (list_vms native r)) \<and> pins_numbered (snd (list_vms native r))"
    using list_vms_pins list_vms_ok by (blast intro: numbered_fewer)
next
  fix r :: registry and native :: processes and q n
  assume "registry_wf r \<and> pins_numbered r"
  then show "registry_wf (snd (find_entry native q n r)) \<and> pins_numbered (snd (find_entry native q n r))"
    using find_entry_pins find_entry_ok by (blast intro: numbered_fewer)
next
  fix r :: registry and e :: reg_entry assume "registry_wf r \<and> pins_numbered r" "0 < entry_pid e"
  then show "registry_wf (snd (write_entry e r)) \<and> pins_numbered (snd (write_entry e r))"
    using write_entry_pins write_entry_ok by (blast intro: numbered_one_more)
next
  fix r :: registry and pid assume "registry_wf r \<and> pins_numbered r"
  then show "registry_wf (remove_entry pid r) \<and> pins_numbered (remove_entry pid r)"
    using remove_entry_pins remove_entry_ok by (blast intro: numbered_fewer)
next
  fix r :: registry and pid :: int and native :: processes and name
  assume "registry_wf r \<and> pins_numbered r" "0 < pid"
  then show "registry_wf (snd (claim_name native name pid r)) \<and> pins_numbered (snd (claim_name native name pid r))"
    using claim_name_pins claim_name_ok by (blast intro: numbered_one_more)
next
  fix r :: registry and native :: processes and pid e r'
  assume "registry_wf r \<and> pins_numbered r" "find_entry native (Some pid) None r = (Some e, r')" "0 < pid"
  then show "0 < entry_pid e" using found_pid by blast
qed

end
