(* ===== verification/Registry_Laws.thy ===== *)
theory Registry_Laws
  imports Registry
begin

text \<open>
  What the VM registry promises its callers: the outcomes of reserving a name, that a name held
  by a live VM cannot be taken and a reserved name is found, what listing and garbage
  collection leave behind, and what holds after every session. Two theorems show where the
  promise breaks: a reservation whose entry is not written yet is lost to the next claim, and
  the entry of a dead VM takes the pin of the live VM that has its name.
\<close>

text \<open>
  C22: reserving a name has exactly the following outcomes. A plain file further up the path
  makes \<open>claimName\<close> throw \<open>ENOTDIR\<close>, a plain file in place of the parent directory makes it
  refuse; otherwise it succeeds exactly when nothing, a stale pin or an empty directory is at
  the path. Success sets this pin and no other and removes at most the entry of the reaped
  holder; without success the registry is unchanged.
\<close>

theorem claim_outcomes:
  assumes "pin_path name \<noteq> []" "claim_name native name pid r = (res, r')"
  shows "res =
      (if pin_above (name_pins r) (butlast (pin_path name)) then Inl ENOTDIR
       else if pin_at (name_pins r) (butlast (pin_path name)) \<noteq> None then Inr False
       else Inr (pin_free native r (pin_path name))) \<and>
    (if res = Inr True
     then pin_at (name_pins r') = (pin_at (name_pins r))(pin_path name \<mapsto> pid_text pid) \<and>
       (\<forall>q. read_entry r' q = (if reaped r (pin_path name) q then None else read_entry r q))
     else r' = r)"
  using claim_name_outcome [OF assms] by simp

definition always :: "pid_status \<Rightarrow> processes" where
  "always s = (\<lambda>pid exe start. s)"

definition bare_entry :: "int \<Rightarrow> string \<Rightarrow> reg_entry" where
  "bare_entry pid name = \<lparr>entry_pid = pid, entry_name = Some name, socket_path = ''s'', vmm_exe = None,
     started_at = 0, cleanup_paths = None, boot_log_path = None, entry_details = []\<rparr>"

lemmas registry_eval = always_def bare_entry_def pin_path_def resolve_def is_absolute_def starts_with_def
  segments_def pid_text_def write_entry_def write_pin_def write_file_entry_def create_pin_def create_entry_def
  read_entry_def claim_name_def ensure_pin_parent_def claim_pin_once_def handle_existing_pin_def
  pin_path_is_directory_def handle_file_pin_def handle_directory_pin_def reap_stale_pin_def read_pin_pid_def
  is_positive_def pin_is_stale_def validate_pid_def entry_status_def find_entry_def find_by_name_def find_by_pid_def
  unlink_pin_def unlink_entry_def quietly_def pin_at_def pid_number_def trim_def is_space_def all_digits_def
  is_digit_def dec_value_def digit_val_def numeral_2_eq_2

lemma small_texts: "dec_string 5 = ''5''" "dec_string 7 = ''7''"
  by (simp_all add: dec_string.simps char_of_def bit_Suc_0_iff)

lemma sample_claim:
  "claim_name (always Dead) ''web'' 7 \<lparr>vm_dirs = [], name_pins = [(''web'', Pin ''5'')]\<rparr> =
     (Inr True, \<lparr>vm_dirs = [], name_pins = [(''web'', Pin ''7'')]\<rparr>)"
  by (simp add: registry_eval small_texts)

theorem claim_outcomes_witness:
  "pin_at (name_pins (snd (claim_name (always Dead) ''web'' 7 \<lparr>vm_dirs = [], name_pins = [(''web'', Pin ''5'')]\<rparr>))) [''web''] =
     Some ''7''"
proof -
  have p: "pin_path ''web'' = [''web'']" by (simp add: registry_eval)
  have t: "pid_text 7 = ''7''" by (simp add: pid_text_def small_texts)
  show ?thesis
    using claim_outcomes [OF _ sample_claim] by (simp add: sample_claim p t)
qed

text \<open>
  C21: in every state the registry can reach, a name that is pinned to a live VM cannot be
  reserved by anybody, and trying changes nothing.
\<close>

theorem live_name_is_refused:
  assumes "reg_session r"
    and "pin_at (name_pins r) (pin_path name) = Some (pid_text p)"
    and "read_entry r p = Some e" "entry_status native e = Alive"
  shows "claim_name native name pid r = (Inr False, r)"
proof -
  have ok: "registry_wf r" by (rule ok.I_reached [OF assms(1)])
  have ne: "pin_path name \<noteq> []" using assms(2) by auto
  obtain res r' where c: "claim_name native name pid r = (res, r')" by fastforce
  have "res = Inr False"
    using claim_name_outcome(1) [OF ne c] pinned_parent_free [OF assms(2) ne] live_pin_not_free [OF ok assms(2-4)]
    by simp
  with c claim_name_outcome(2) [OF ne c] show ?thesis by simp
qed

text \<open>A VM that reserved its name and wrote its entry.\<close>

abbreviation web_call :: reg_call where "web_call \<equiv> Call_write (bare_entry 5 ''web'')"

definition web_registry :: registry where
  "web_registry = \<lparr>vm_dirs = [(''5'', Meta (bare_entry 5 ''web''))], name_pins = [(''web'', Pin ''5'')]\<rparr>"

lemma write_web: "write_entry (bare_entry 5 ''web'') \<lparr>vm_dirs = [], name_pins = ps\<rparr> =
    (Inr (), web_registry)" if "ps = [] \<or> ps = [(''web'', Pin ''5'')]"
  using that by (auto simp: registry_eval small_texts web_registry_def)

lemma web_reached: "reg_session web_registry"
  using reg_call [OF reg_start, of web_call] by (simp add: write_web) (simp add: bare_entry_def)

lemma web_path: "pin_path ''web'' = [''web'']"
  by (simp add: registry_eval)

lemma web_facts:
  "pin_at (name_pins web_registry) [''web''] = Some (pid_text 5)"
  "read_entry web_registry 5 = Some (bare_entry 5 ''web'')"
  "entry_status (always s) (bare_entry p n) = (if p \<le> 0 then Dead else s)"
  by (simp_all add: web_registry_def registry_eval small_texts)

theorem live_name_is_refused_witness:
  "claim_name (always Alive) ''web'' 7 web_registry = (Inr False, web_registry)"
  by (rule live_name_is_refused [OF web_reached, of _ 5 "bare_entry 5 ''web''"])
     (simp_all add: web_path web_facts)

text \<open>
  A name that was reserved and then written is found. After \<open>claimName\<close> succeeded and
  \<open>writeEntry\<close> stored an entry of that pid and name, writing succeeded and, as long as the VM
  is alive, both lookups return that entry and change nothing.
\<close>

theorem claimed_name_is_found:
  assumes "reg_session r" "claim_name native name (entry_pid e) r = (Inr True, r1)"
    and "pin_path name \<noteq> []" "name \<noteq> []" "entry_name e = Some name" "0 < entry_pid e"
    and "write_entry e r1 = (res, r2)" "entry_status native' e = Alive"
  shows "res = Inr () \<and> find_entry native' None (Some name) r2 = (Some e, r2) \<and>
    find_entry native' (Some (entry_pid e)) None r2 = (Some e, r2)"
proof -
  have "registry_wf r1" using claim_name_ok [OF ok.I_reached [OF assms(1)]] assms(2) by (metis snd_conv)
  then have ok: "registry_wf r2" using write_entry_ok [OF _ assms(6)] assms(7) by (metis snd_conv)
  have pin: "pin_at (name_pins r1) (pin_path name) = Some (pid_text (entry_pid e))"
    using claim_name_outcome(3) [OF assms(3,2)] by simp
  note written = write_entry_pinned [OF assms(5,4) pin]
  have read: "read_entry r2 (entry_pid e) = Some e" using write_entry_read [of e r1] assms(7) by simp
  have "find_entry native' None (Some name) r2 = (Some e, r2)"
    using written(2) assms(7) by (intro find_pinned [OF ok _ read assms(8)]) simp
  moreover have "find_entry native' (Some (entry_pid e)) None r2 = (Some e, r2)"
    using read assms(8) by (simp add: find_entry_def find_by_pid_def)
  ultimately show ?thesis using written(1) assms(7) by simp
qed

lemma claim_web:
  "claim_name (always Dead) ''web'' 5 \<lparr>vm_dirs = [], name_pins = []\<rparr> =
     (Inr True, \<lparr>vm_dirs = [], name_pins = [(''web'', Pin ''5'')]\<rparr>)"
  by (simp add: registry_eval small_texts)

theorem claimed_name_is_found_witness:
  "find_entry (always Alive) None (Some ''web'') web_registry = (Some (bare_entry 5 ''web''), web_registry)"
proof -
  let ?r1 = "\<lparr>vm_dirs = [], name_pins = [(''web'', Pin ''5'')]\<rparr>"
  have "write_entry (bare_entry 5 ''web'') ?r1 = (Inr (), web_registry)" by (simp add: write_web)
  from claimed_name_is_found [OF reg_start _ _ _ _ _ this, of "always Dead" "''web''" "always Alive"]
  show ?thesis by (simp add: claim_web web_path web_facts) (simp add: bare_entry_def claim_web)
qed

text \<open>
  \<open>list()\<close> returns exactly the entries whose process is alive, in order; afterwards the
  registry holds exactly those entries. A name pin survives exactly when it is not stale and no
  removed entry has its name.
\<close>

theorem list_keeps_the_living:
  assumes "reg_session r" "list_vms native r = (out, r')"
  shows "out = filter (\<lambda>e. entry_status native e = Alive) (list_all_entries r) \<and>
    list_all_entries r' = out \<and>
    (\<forall>q t. pin_at (name_pins r') q = Some t \<longleftrightarrow>
      pin_at (name_pins r) q = Some t \<and> \<not> pin_is_stale native r (pid_number t) \<and>
      (\<forall>e \<in> set (list_all_entries r). entry_status native e \<noteq> Alive \<longrightarrow> entry_pin e \<noteq> Some q))"
  using list_vms_whole [OF ok.I_reached [OF assms(1)] assms(2)] by blast

lemma list_all_web: "list_all_entries web_registry = [bare_entry 5 ''web'']"
proof -
  have "dir_entry web_registry ''5'' = Some (bare_entry 5 ''web'')"
    using dir_entry_text [of 5 web_registry] by (simp add: web_facts pid_text_def small_texts)
  then show ?thesis
    by (simp add: list_all_entries_def web_registry_def List.map_filter_simps)
qed

theorem list_keeps_the_living_witness:
  "list_all_entries (snd (list_vms (always Recycled) web_registry)) = []"
proof -
  obtain out r' where l: "list_vms (always Recycled) web_registry = (out, r')" by fastforce
  from list_keeps_the_living [OF web_reached l] l show ?thesis
    by (simp add: list_all_web web_facts)
qed

text \<open>
  C20: after every session of calls the registry is well-formed: directory names are distinct
  at every level, every VM directory is named by the positive pid its entry carries, and every
  name pin holds the decimal text of a positive pid.
\<close>

theorem registry_well_formed:
  assumes "reg_session r"
  shows "registry_wf r \<and> pins_numbered r"
  by (rule numbered.I_reached [OF assms])

theorem registry_well_formed_witness: "registry_wf web_registry \<and> pins_numbered web_registry"
  by (rule registry_well_formed [OF web_reached])

text \<open>
  \<open>runGc\<close> reports exactly the selected entries whose process is dead or recycled, in
  order, and removes exactly their entries; a dry run reports the same and changes nothing.
\<close>

theorem gc_reaps_the_dead:
  assumes "reg_session r" "run_gc cleanup native dry only r = (gs, r')"
  shows "map gc_pid gs = map entry_pid (filter (\<lambda>e. entry_status native e \<noteq> Alive)
      (filter (\<lambda>e. only = None \<or> Some (entry_pid e) = only) (list_all_entries r))) \<and>
    (if dry then r' = r
     else \<forall>p. read_entry r' p = (case read_entry r p of
        Some e \<Rightarrow> if entry_status native e \<noteq> Alive \<and> (only = None \<or> Some p = only) then None else Some e
      | None \<Rightarrow> None))"
proof -
  have ok: "registry_wf r" by (rule ok.I_reached [OF assms(1)])
  let ?es = "filter (\<lambda>e. only = None \<or> Some (entry_pid e) = only) (list_all_entries r)"
  have gc: "gc_entries cleanup native dry ?es r = (gs, r')" using assms(2) by (simp add: run_gc_def)
  have "map gc_pid gs = map entry_pid (filter (\<lambda>e. entry_status native e \<noteq> Alive) ?es)"
    using gc_entries_results [of cleanup native dry ?es r] gc by simp
  moreover have "r' = r" if dry using gc_entries_dry [of cleanup native ?es r] gc that by simp
  moreover have "read_entry r' p = (case read_entry r p of
        Some e \<Rightarrow> if entry_status native e \<noteq> Alive \<and> (only = None \<or> Some p = only) then None else Some e
      | None \<Rightarrow> None)" if "\<not> dry" for p
    using gc_entries_read [of cleanup native ?es r p] gc that registry_wf_entry(1) [OF ok]
    by (cases "read_entry r p") (auto simp: set_list_all_entries [OF ok])
  ultimately show ?thesis by simp
qed

theorem gc_reaps_the_dead_witness:
  "map gc_pid (fst (run_gc (\<lambda>p d. (True, False)) (always Dead) False None web_registry)) = [5]"
proof -
  obtain gs r' where g: "run_gc (\<lambda>p d. (True, False)) (always Dead) False None web_registry = (gs, r')" by fastforce
  from gc_reaps_the_dead [OF web_reached g] g show ?thesis
    by (simp add: list_all_web web_facts) (simp add: bare_entry_def)
qed

text \<open>
  A reservation is lost until its entry is written. When \<open>claimName\<close> has reserved a name
  for a pid that has no entry yet, a second \<open>claimName\<close> takes the pin for orphaned and
  reserves the name again, whatever processes are alive.
\<close>

theorem unwritten_claim_is_lost:
  assumes "claim_name native name p r = (Inr True, r1)" "pin_path name \<noteq> []" "read_entry r p = None"
    and "claim_name native' name q r1 = (res, r2)"
  shows "res = Inr True \<and> pin_at (name_pins r2) (pin_path name) = Some (pid_text q)"
proof -
  have pin: "pin_at (name_pins r1) (pin_path name) = Some (pid_text p)"
    using claim_name_outcome(3) [OF assms(2,1)] by simp
  have "read_entry r1 p = None" using claim_name_outcome(4) [OF assms(2,1), of p] assms(3) by simp
  then have "res = Inr True"
    using claim_name_outcome(1) [OF assms(2,4)] pinned_parent_free [OF pin assms(2)] pin_free_without_entry [OF pin]
    by simp
  then show ?thesis using claim_name_outcome(3) [OF assms(2,4)] by simp
qed

theorem unwritten_claim_is_lost_witness:
  "fst (claim_name (always Alive) ''web'' 7 (snd (claim_name (always Alive) ''web'' 5 \<lparr>vm_dirs = [], name_pins = []\<rparr>))) =
     Inr True"
proof -
  have c: "claim_name (always Alive) ''web'' 5 \<lparr>vm_dirs = [], name_pins = []\<rparr> =
      (Inr True, \<lparr>vm_dirs = [], name_pins = [(''web'', Pin ''5'')]\<rparr>)"
    by (simp add: registry_eval small_texts)
  obtain res r2 where d: "claim_name (always Alive) ''web'' 7 \<lparr>vm_dirs = [], name_pins = [(''web'', Pin ''5'')]\<rparr> = (res, r2)"
    by fastforce
  from unwritten_claim_is_lost [OF c _ _ d] show ?thesis
    by (simp add: c d web_path read_entry_def)
qed

text \<open>
  The entry of a dead VM takes the pin of the live VM that has its name. When the entry of
  a dead VM still carries a name that is pinned to a live one, \<open>list()\<close> returns the live VM but
  removes its pin, and the name is not found afterwards.
\<close>

theorem dead_entry_takes_the_pin:
  assumes "reg_session r" "read_entry r p = Some e" "entry_status native e \<noteq> Alive"
    and "entry_name e = Some name" "name \<noteq> []"
    and "pin_at (name_pins r) (pin_path name) = Some (pid_text q)"
    and "read_entry r q = Some e'" "entry_status native e' = Alive"
    and "list_vms native r = (out, r')"
  shows "e' \<in> set out \<and> fst (find_entry native None (Some name) r') = None"
proof -
  have ok: "registry_wf r" by (rule ok.I_reached [OF assms(1)])
  note whole = list_vms_whole [OF ok assms(9)]
  have "e' \<in> set out" using whole(1) assms(7,8) set_list_all_entries [OF ok] by auto
  moreover have "pin_at (name_pins r') (pin_path name) = None"
  proof (rule ccontr)
    assume "pin_at (name_pins r') (pin_path name) \<noteq> None"
    then have "entry_pin e \<noteq> Some (pin_path name)"
      using whole(3) assms(2,3) set_list_all_entries [OF ok] by blast
    with assms(4,5) show False by (simp add: entry_pin_def)
  qed
  then have "fst (find_entry native None (Some name) r') = None"
    by (auto simp: find_entry_def find_by_name_def Let_def pin_at_def split: option.splits pin_node.splits)
  ultimately show ?thesis ..
qed

text \<open>
  How a session gets there: VM 5 dies, a lookup of its name drops the pin but not the entry,
  and VM 7 is booted under the same name.
\<close>

definition only_seven :: processes where
  "only_seven = (\<lambda>pid exe start. if pid = 7 then Alive else Dead)"

definition renamed_registry :: registry where
  "renamed_registry = \<lparr>vm_dirs = [(''5'', Meta (bare_entry 5 ''web'')), (''7'', Meta (bare_entry 7 ''web''))],
     name_pins = [(''web'', Pin ''7'')]\<rparr>"

lemma renamed_reached: "reg_session renamed_registry"
proof -
  let ?r1 = "\<lparr>vm_dirs = [(''5'', Meta (bare_entry 5 ''web''))], name_pins = []\<rparr>"
  let ?r2 = "\<lparr>vm_dirs = [(''5'', Meta (bare_entry 5 ''web''))], name_pins = [(''web'', Pin ''7'')]\<rparr>"
  have "reg_step (Call_find only_seven None (Some ''web'')) web_registry = ?r1"
    by (simp add: registry_eval small_texts only_seven_def web_registry_def)
  then have "reg_session ?r1" using reg_call [OF web_reached] by (metis call_possible.simps(8))
  moreover have "reg_step (Call_claim only_seven ''web'' 7) ?r1 = ?r2"
    by (simp add: registry_eval small_texts)
  moreover have "reg_step (Call_write (bare_entry 7 ''web'')) ?r2 = renamed_registry"
    by (simp add: registry_eval small_texts renamed_registry_def)
  moreover have "call_possible (Call_claim only_seven ''web'' 7)" "call_possible (Call_write (bare_entry 7 ''web''))"
    by (simp_all add: bare_entry_def)
  ultimately show ?thesis by (metis reg_call)
qed

theorem dead_entry_takes_the_pin_witness:
  "fst (find_entry only_seven None (Some ''web'') (snd (list_vms only_seven renamed_registry))) = None"
proof -
  obtain out r' where l: "list_vms only_seven renamed_registry = (out, r')" by fastforce
  have five: "read_entry renamed_registry 5 = Some (bare_entry 5 ''web'')"
    and seven: "read_entry renamed_registry 7 = Some (bare_entry 7 ''web'')"
    by (simp_all add: renamed_registry_def read_entry_def pid_text_def small_texts)
  have "pin_at (name_pins renamed_registry) (pin_path ''web'') = Some (pid_text 7)"
    by (simp add: renamed_registry_def pin_at_def web_path pid_text_def small_texts)
  from dead_entry_takes_the_pin [OF renamed_reached five _ _ _ this seven _ l] l show ?thesis
    by (simp add: bare_entry_def entry_status_def validate_pid_def only_seven_def)
qed

end
