(* ===== verification/Json.thy ===== *)
theory Json
  imports Js_Text "HOL-Library.AList"
begin

text \<open>
  JSON documents as \<open>JSON.parse\<close> returns them, and the string predicates the validators of
  documents use. The keys of an object are those of the parsed value, each once.
  \<open>Undefined\<close> is what reading a missing property gives; it does not occur inside documents.
\<close>

datatype json =
    Undefined
  | Null
  | Bool bool
  | Num int
  | Fraction string \<comment> \<open>a number that is not an integer, as its text\<close>
  | Str string
  | Arr "json list"
  | Obj "(string \<times> json) list"

text \<open>\<open>object.key\<close>\<close>

definition field :: "(string \<times> json) list \<Rightarrow> string \<Rightarrow> json" where
  "field fs k = (case map_of fs k of Some v \<Rightarrow> v | None \<Rightarrow> Undefined)"

text \<open>\<open>s.length\<close>: the UTF-16 units of a string that is given by its UTF-8 bytes. A continuation
  byte adds none, the first byte of a four-byte sequence two.\<close>

definition utf16_units :: "char \<Rightarrow> nat" where
  "utf16_units c =
     (let n = of_char c :: nat in if 128 \<le> n \<and> n < 192 then 0 else if 240 \<le> n then 2 else 1)"

definition utf16_length :: "string \<Rightarrow> nat" where
  "utf16_length s = sum_list (map utf16_units s)"

text \<open>\<open>s.str_includes(t)\<close> and \<open>s.endsWith(t)\<close>\<close>

fun str_includes :: "string \<Rightarrow> string \<Rightarrow> bool" where
  "str_includes [] t \<longleftrightarrow> t = []"
| "str_includes (x # xs) t \<longleftrightarrow> starts_with (x # xs) t \<or> str_includes xs t"

definition ends_with :: "string \<Rightarrow> string \<Rightarrow> bool" where
  "ends_with s t \<longleftrightarrow> starts_with (rev s) (rev t)"

lemma starts_with_includes: "starts_with s t \<Longrightarrow> str_includes s t"
  by (cases s) (auto simp: starts_with_def)

lemma includes_iff: "str_includes s t \<longleftrightarrow> (\<exists>a b. s = a @ t @ b)"
proof (induction s)
  case (Cons x xs)
  show ?case
  proof
    assume "str_includes (x # xs) t"
    then show "\<exists>a b. x # xs = a @ t @ b"
      using Cons.IH by (auto simp: starts_with_iff intro: exI [of _ "[]"]) (metis append_Cons)
  next
    assume "\<exists>a b. x # xs = a @ t @ b"
    then obtain a b where ab: "x # xs = a @ t @ b" by blast
    show "str_includes (x # xs) t"
    proof (cases a)
      case Nil
      with ab have "starts_with (x # xs) t" by (auto simp: starts_with_iff)
      then show ?thesis by simp
    next
      case (Cons y ys)
      with ab Cons.IH show ?thesis by auto
    qed
  qed
qed simp

lemma ends_with_iff: "ends_with s t \<longleftrightarrow> (\<exists>a. s = a @ t)"
proof
  assume "ends_with s t"
  then obtain r where "rev s = rev t @ r" by (auto simp: ends_with_def starts_with_iff)
  then have "s = rev r @ t" by (metis rev_append rev_rev_ident)
  then show "\<exists>a. s = a @ t" by blast
qed (auto simp: ends_with_def)

lemma includes_single: "str_includes s [c] \<longleftrightarrow> c \<in> set s"
  by (auto simp: includes_iff in_set_conv_decomp)

lemma utf16_length_ascii: "is_ascii s \<Longrightarrow> utf16_length s = length s"
  by (induction s) (auto simp: utf16_length_def utf16_units_def is_ascii_def)

section \<open>Texts of documents\<close>

text \<open>\<open>JSON.stringify\<close> of a string\<close>

definition hex_digit :: "nat \<Rightarrow> char" where
  "hex_digit n = char_of (if n < 10 then 48 + n else 87 + n)"

definition json_char :: "char \<Rightarrow> string" where
  "json_char c =
     (let n = of_char c :: nat in
      if n = 34 \<or> n = 92 then [CHR 0x5C, c]
      else if n = 8 then [CHR 0x5C, CHR ''b'']
      else if n = 9 then [CHR 0x5C, CHR ''t'']
      else if n = 10 then [CHR 0x5C, CHR ''n'']
      else if n = 12 then [CHR 0x5C, CHR ''f'']
      else if n = 13 then [CHR 0x5C, CHR ''r'']
      else if n < 32 then [CHR 0x5C, CHR ''u'', CHR ''0'', CHR ''0'', hex_digit (n div 16), hex_digit (n mod 16)]
      else [c])"

definition json_string :: "string \<Rightarrow> string" where
  "json_string s = [CHR 0x22] @ concat (map json_char s) @ [CHR 0x22]"

end
