(* ===== verification/Run_Recipe.thy ===== *)
theory Run_Recipe
  imports Json Cli_Flags
begin

text \<open>
  Signed run recipes, \<^verbatim>\<open>packages/cli/src/run-registry.ts\<close>: fetching a document from the
  official origin, verifying its envelope, the offline cache, and the validators of the recipe
  and of the registry index.

  Parameters, in the record \<open>platform\<close>: \<open>JSON.parse\<close>, Ed25519 verification, SHA-256, the fatal
  UTF-8 decoder and the URL parser. A URL is given by its components and its text. Messages of
  errors are cut to their fixed part; \<open>Unavailable\<close> is \<open>RegistryUnavailableError\<close>.
\<close>

section \<open>Documents\<close>

datatype recipe_error = Rejected string | Unavailable string

datatype access_mode = Read_only | Read_write

datatype workspace_permission = No_workspace | Workspace access_mode

record state_permission =
  sp_name :: string
  sp_guest :: string
  sp_mode :: access_mode

record run_recipe =
  rc_name :: string
  rc_aliases :: "string list option"
  rc_summary :: string
  rc_install :: "string list"
  rc_command :: "string list"
  rc_env :: "(string \<times> string) list option"
  rc_workspace :: workspace_permission
  rc_state :: "state_permission list"

record registry_recipe =
  rr_name :: string
  rr_aliases :: "string list option"
  rr_summary :: string
  rr_source :: string
  rr_sha256 :: string

record url =
  url_href :: string
  url_origin :: string
  url_username :: string
  url_password :: string
  url_search :: string
  url_hash :: string
  url_pathname :: string

record platform =
  json_parse :: "string \<Rightarrow> json option"
  verify_sig :: "string \<Rightarrow> bytes \<Rightarrow> bytes \<Rightarrow> bool" \<comment> \<open>key, payload, signature\<close>
  sha256_hex :: "bytes \<Rightarrow> string"
  decode_utf8 :: "bytes \<Rightarrow> string option"
  parse_url :: "string \<Rightarrow> url option"
  join_url :: "string \<Rightarrow> url \<Rightarrow> url option" \<comment> \<open>a location relative to a URL\<close>

definition MAX_DOCUMENT_BYTES :: nat where "MAX_DOCUMENT_BYTES = 128 * 1024"
definition REGISTRY_ORIGIN :: string where "REGISTRY_ORIGIN = ''https://machinen.dev''"

section \<open>Expectations\<close>

definition expect_object :: "json \<Rightarrow> recipe_error + (string \<times> json) list" where
  "expect_object v = (case v of Obj fs \<Rightarrow> Inr fs | _ \<Rightarrow> Inl (Rejected ''must be an object''))"

definition expect_string :: "nat \<Rightarrow> json \<Rightarrow> recipe_error + string" where
  "expect_string max_length v =
     (case v of
        Str s \<Rightarrow> if s = [] \<or> max_length < utf16_length s then Inl (Rejected ''must be a non-empty string'') else Inr s
      | _ \<Rightarrow> Inl (Rejected ''must be a non-empty string''))"

text \<open>\<open>/^[a-z0-9][a-z0-9-]{0,63}$/\<close>\<close>

definition is_lower :: "char \<Rightarrow> bool" where
  "is_lower c \<longleftrightarrow> (of_char c :: nat) \<in> {97..122}"

definition is_upper :: "char \<Rightarrow> bool" where
  "is_upper c \<longleftrightarrow> (of_char c :: nat) \<in> {65..90}"

definition slug_ok :: "string \<Rightarrow> bool" where
  "slug_ok s \<longleftrightarrow> s \<noteq> [] \<and> length s \<le> 64 \<and> (is_lower (hd s) \<or> is_digit (hd s)) \<and>
     list_all (\<lambda>c. is_lower c \<or> is_digit c \<or> c = CHR ''-'') (tl s)"

definition expect_slug :: "json \<Rightarrow> recipe_error + string" where
  "expect_slug v = bind_res (expect_string 64 v) (\<lambda>s.
     if slug_ok s then Inr s else Inl (Rejected ''must use lowercase letters, digits, and dashes''))"

definition expect_slug_array :: "json \<Rightarrow> recipe_error + string list" where
  "expect_slug_array v =
     (case v of
        Arr vs \<Rightarrow> if 16 < length vs then Inl (Rejected ''must be an array with at most 16 entries'')
                  else map_res expect_slug vs
      | _ \<Rightarrow> Inl (Rejected ''must be an array with at most 16 entries''))"

definition expect_exact_keys :: "(string \<times> json) list \<Rightarrow> string list \<Rightarrow> recipe_error + unit" where
  "expect_exact_keys fs keys =
     (if length fs \<noteq> length (remdups keys) \<or> list_ex (\<lambda>k. k \<notin> set keys) (map fst fs)
      then Inl (Rejected ''unexpected fields: expected'') else Inr ())"

definition expect_allowed_keys :: "(string \<times> json) list \<Rightarrow> string list \<Rightarrow> recipe_error + unit" where
  "expect_allowed_keys fs keys =
     (if filter (\<lambda>k. k \<notin> set keys) (map fst fs) \<noteq> [] then Inl (Rejected ''unexpected fields'') else Inr ())"

section \<open>Envelopes\<close>

record signed_envelope =
  env_key_id :: string
  env_payload :: string
  env_signature :: string

definition parse_envelope :: "platform \<Rightarrow> string \<Rightarrow> recipe_error + signed_envelope" where
  "parse_envelope pf raw =
     (case json_parse pf raw of
        None \<Rightarrow> Inl (Rejected ''run registry response is not valid JSON'')
      | Some v \<Rightarrow>
          bind_res (expect_object v) (\<lambda>fs.
          bind_res (expect_exact_keys fs [''algorithm'', ''envelopeVersion'', ''keyId'', ''payload'', ''signature'']) (\<lambda>_.
          if field fs ''envelopeVersion'' \<noteq> Num 1 \<or> field fs ''algorithm'' \<noteq> Str ''Ed25519''
          then Inl (Rejected ''unsupported run recipe envelope version or algorithm'')
          else
            bind_res (expect_string 64 (field fs ''keyId'')) (\<lambda>k.
            bind_res (expect_string MAX_DOCUMENT_BYTES (field fs ''payload'')) (\<lambda>p.
            bind_res (expect_string 256 (field fs ''signature'')) (\<lambda>s.
            Inr \<lparr>env_key_id = k, env_payload = p, env_signature = s\<rparr>))))))"

text \<open>\<open>/^(?:[A-Za-z0-9+/]{4})*(?:[A-Za-z0-9+/]{2}==|[A-Za-z0-9+/]{3}=)?$/\<close>, then
  \<open>Buffer.from(value, "base64")\<close>.\<close>

definition b64_digit :: "char \<Rightarrow> nat option" where
  "b64_digit c =
     (let n = of_char c :: nat in
      if is_upper c then Some (n - 65)
      else if is_lower c then Some (n - 71)
      else if is_digit c then Some (n + 4)
      else if c = CHR ''+'' then Some 62
      else if c = CHR ''/'' then Some 63
      else None)"

definition is_b64 :: "char \<Rightarrow> bool" where "is_b64 c \<longleftrightarrow> b64_digit c \<noteq> None"

fun b64_canonical :: "string \<Rightarrow> bool" where
  "b64_canonical [] \<longleftrightarrow> True"
| "b64_canonical (a # b # c # d # rest) \<longleftrightarrow>
     is_b64 a \<and> is_b64 b \<and>
     (is_b64 c \<and> is_b64 d \<and> b64_canonical rest \<or>
      rest = [] \<and> d = CHR ''='' \<and> (c = CHR ''='' \<or> is_b64 c))"
| "b64_canonical _ \<longleftrightarrow> False"

definition b64_value :: "char \<Rightarrow> nat" where
  "b64_value c = (case b64_digit c of Some n \<Rightarrow> n | None \<Rightarrow> 0)"

fun b64_bytes :: "string \<Rightarrow> bytes" where
  "b64_bytes (a # b # c # d # rest) =
     (let n = ((b64_value a * 64 + b64_value b) * 64 + b64_value c) * 64 + b64_value d in
      if c = CHR ''='' then [of_nat (n div 65536)]
      else if d = CHR ''='' then [of_nat (n div 65536), of_nat (n div 256)]
      else of_nat (n div 65536) # of_nat (n div 256) # of_nat n # b64_bytes rest)"
| "b64_bytes _ = []"

definition decode_base64 :: "string \<Rightarrow> recipe_error + bytes" where
  "decode_base64 v = (if b64_canonical v then Inr (b64_bytes v) else Inl (Rejected ''is not canonical base64''))"

record verified_payload =
  vp_payload :: json
  vp_digest :: string
  vp_key_id :: string

type_synonym trusted_keys = "(string \<times> string) list"

definition verify_envelope :: "platform \<Rightarrow> trusted_keys \<Rightarrow> string \<Rightarrow> recipe_error + verified_payload" where
  "verify_envelope pf trusted raw =
     bind_res (parse_envelope pf raw) (\<lambda>env.
     case map_of trusted (env_key_id env) of
       None \<Rightarrow> Inl (Rejected ''run recipe was signed by unknown key'')
     | Some pem \<Rightarrow>
         if pem = [] then Inl (Rejected ''run recipe was signed by unknown key'')
         else
           bind_res (decode_base64 (env_payload env)) (\<lambda>payload_bytes.
           bind_res (decode_base64 (env_signature env)) (\<lambda>signature_bytes.
           if length signature_bytes \<noteq> 64 then Inl (Rejected ''run recipe signature has an invalid length'')
           else if \<not> verify_sig pf pem payload_bytes signature_bytes
           then Inl (Rejected ''run recipe signature verification failed'')
           else
             (case json_parse pf (text_of payload_bytes) of
                None \<Rightarrow> Inl (Rejected ''signed run recipe payload is not valid JSON'')
              | Some v \<Rightarrow> Inr \<lparr>vp_payload = v, vp_digest = sha256_hex pf payload_bytes, vp_key_id = env_key_id env\<rparr>))))"

section \<open>The recipe\<close>

abbreviation nul_char :: char where "nul_char \<equiv> CHR 0x00"

definition parse_install_line :: "json \<Rightarrow> recipe_error + string" where
  "parse_install_line v = bind_res (expect_string 8192 v) (\<lambda>line.
     if nul_char \<in> set line \<or> nl_char \<in> set line \<or> cr_char \<in> set line
     then Inl (Rejected ''must be exactly one shell line'') else Inr line)"

definition parse_install :: "json \<Rightarrow> recipe_error + string list" where
  "parse_install v =
     (case v of
        Arr vs \<Rightarrow>
          if vs = [] \<or> 256 < length vs then Inl (Rejected ''recipe.install must contain 1-256 shell lines'')
          else bind_res (map_res parse_install_line vs) (\<lambda>lines.
            if 32 * 1024 < utf16_length (join_on nl_char lines)
            then Inl (Rejected ''recipe.install cannot exceed 32768 characters'') else Inr lines)
      | _ \<Rightarrow> Inl (Rejected ''recipe.install must contain 1-256 shell lines''))"

definition parse_command_arg :: "json \<Rightarrow> recipe_error + string" where
  "parse_command_arg v = bind_res (expect_string 4096 v) (\<lambda>arg.
     if nul_char \<in> set arg then Inl (Rejected ''cannot contain NUL'') else Inr arg)"

definition parse_command :: "json \<Rightarrow> recipe_error + string list" where
  "parse_command v =
     (case v of
        Arr vs \<Rightarrow>
          if vs = [] \<or> 32 < length vs then Inl (Rejected ''recipe.command must contain 1-32 argv strings'')
          else map_res parse_command_arg vs
      | _ \<Rightarrow> Inl (Rejected ''recipe.command must contain 1-32 argv strings''))"

text \<open>\<open>/^[A-Za-z_][A-Za-z0-9_]*$/\<close>\<close>

definition env_key_ok :: "string \<Rightarrow> bool" where
  "env_key_ok k \<longleftrightarrow> k \<noteq> [] \<and> (is_upper (hd k) \<or> is_lower (hd k) \<or> hd k = CHR ''_'') \<and>
     list_all (\<lambda>c. is_upper c \<or> is_lower c \<or> is_digit c \<or> c = CHR ''_'') (tl k)"

definition parse_env_entry :: "(string \<times> string) list \<Rightarrow> string \<times> json \<Rightarrow> recipe_error + (string \<times> string) list" where
  "parse_env_entry env kv =
     (if \<not> env_key_ok (fst kv) then Inl (Rejected ''invalid recipe environment key'')
      else bind_res (expect_string 8192 (snd kv)) (\<lambda>parsed.
        if nul_char \<in> set parsed then Inl (Rejected ''cannot contain NUL'')
        else Inr (set_env (fst kv) parsed env)))"

definition parse_env :: "json \<Rightarrow> recipe_error + (string \<times> string) list" where
  "parse_env v = bind_res (expect_object v) (\<lambda>fs.
     if 64 < length fs then Inl (Rejected ''recipe.env cannot contain more than 64 entries'')
     else fold_res parse_env_entry [] fs)"

definition reserved_paths :: "string list" where
  "reserved_paths = [''/dev'', ''/proc'', ''/sys'', ''/run'', ''/mnt/workspace'']"

definition expect_guest_path :: "json \<Rightarrow> recipe_error + string" where
  "expect_guest_path v = bind_res (expect_string 4096 v) (\<lambda>p.
     if \<not> starts_with p ''/'' \<or> nul_char \<in> set p \<or> str_includes p ''/../'' \<or> ends_with p ''/..''
     then Inl (Rejected ''must be a safe absolute path'')
     else if list_ex (\<lambda>prefix. p = prefix \<or> starts_with p (prefix @ ''/'')) reserved_paths
     then Inl (Rejected ''cannot overlap reserved path'')
     else Inr p)"

definition access_mode_of :: "json \<Rightarrow> access_mode option" where
  "access_mode_of v = (if v = Str ''ro'' then Some Read_only else if v = Str ''rw'' then Some Read_write else None)"

text \<open>\<open>acc\<close> holds the permissions parsed so far; their names and guest paths are the two sets.\<close>

definition parse_state_permission :: "state_permission list \<Rightarrow> json \<Rightarrow> recipe_error + state_permission list" where
  "parse_state_permission acc v =
     bind_res (expect_object v) (\<lambda>fs.
     bind_res (expect_exact_keys fs [''guest'', ''mode'', ''name'']) (\<lambda>_.
     bind_res (expect_slug (field fs ''name'')) (\<lambda>name.
     bind_res (expect_guest_path (field fs ''guest'')) (\<lambda>guest.
     case access_mode_of (field fs ''mode'') of
       None \<Rightarrow> Inl (Rejected ''mode must be ro or rw'')
     | Some mode \<Rightarrow>
         if name \<in> sp_name ` set acc \<or> guest \<in> sp_guest ` set acc
         then Inl (Rejected ''recipe state names and guest paths must be unique'')
         else Inr (acc @ [\<lparr>sp_name = name, sp_guest = guest, sp_mode = mode\<rparr>])))))"

definition parse_state_permissions :: "json \<Rightarrow> recipe_error + state_permission list" where
  "parse_state_permissions v =
     (case v of
        Arr vs \<Rightarrow>
          if 16 < length vs then Inl (Rejected ''recipe.permissions.state must be an array with at most 16 entries'')
          else fold_res parse_state_permission [] vs
      | _ \<Rightarrow> Inl (Rejected ''recipe.permissions.state must be an array with at most 16 entries''))"

definition workspace_permission_of :: "json \<Rightarrow> workspace_permission option" where
  "workspace_permission_of v =
     (if v = Str ''none'' then Some No_workspace else map_option Workspace (access_mode_of v))"

definition parse_permissions :: "json \<Rightarrow> recipe_error + workspace_permission \<times> state_permission list" where
  "parse_permissions v =
     bind_res (expect_object v) (\<lambda>fs.
     bind_res (expect_exact_keys fs [''network'', ''state'', ''workspace'']) (\<lambda>_.
     if field fs ''network'' \<noteq> Bool True
     then Inl (Rejected ''v1 run recipes must declare outbound network access'')
     else
       (case workspace_permission_of (field fs ''workspace'') of
          None \<Rightarrow> Inl (Rejected ''recipe.permissions.workspace must be none, ro, or rw'')
        | Some w \<Rightarrow> bind_res (parse_state_permissions (field fs ''state'')) (\<lambda>st. Inr (w, st)))))"

text \<open>\<open>value === undefined ? undefined : parse(value)\<close>\<close>

definition optional :: "(json \<Rightarrow> recipe_error + 'a) \<Rightarrow> json \<Rightarrow> recipe_error + 'a option" where
  "optional parse v = (if v = Undefined then Inr None else bind_res (parse v) (\<lambda>x. Inr (Some x)))"

definition parse_run_recipe :: "json \<Rightarrow> recipe_error + run_recipe" where
  "parse_run_recipe v =
     bind_res (expect_object v) (\<lambda>fs.
     bind_res (expect_allowed_keys fs [''aliases'', ''command'', ''env'', ''install'', ''name'',
       ''permissions'', ''publisher'', ''schemaVersion'', ''summary'']) (\<lambda>_.
     if field fs ''schemaVersion'' \<noteq> Num 1 \<or> field fs ''publisher'' \<noteq> Str ''machinen.dev''
     then Inl (Rejected ''unsupported run recipe schema or publisher'')
     else
       bind_res (expect_slug (field fs ''name'')) (\<lambda>name.
       bind_res (optional expect_slug_array (field fs ''aliases'')) (\<lambda>aliases.
       bind_res (expect_string 240 (field fs ''summary'')) (\<lambda>summary.
       bind_res (parse_install (field fs ''install'')) (\<lambda>install.
       bind_res (parse_command (field fs ''command'')) (\<lambda>command.
       bind_res (optional parse_env (field fs ''env'')) (\<lambda>env.
       bind_res (parse_permissions (field fs ''permissions'')) (\<lambda>(w, st).
       Inr \<lparr>rc_name = name, rc_aliases = aliases, rc_summary = summary, rc_install = install,
         rc_command = command, rc_env = env, rc_workspace = w, rc_state = st\<rparr>)))))))))"

section \<open>URLs and the registry index\<close>

text \<open>\<open>/^\/run\/[a-z0-9][a-z0-9-]{0,63}$/\<close>\<close>

definition validate_official_url :: "url \<Rightarrow> recipe_error + unit" where
  "validate_official_url u =
     (if url_origin u \<noteq> REGISTRY_ORIGIN then Inl (Rejected ''untrusted run recipe origin'')
      else if url_username u \<noteq> [] \<or> url_password u \<noteq> [] \<or> url_search u \<noteq> [] \<or> url_hash u \<noteq> []
      then Inl (Rejected ''run recipe URLs cannot contain credentials, query parameters, or fragments'')
      else if \<not> (starts_with (url_pathname u) ''/run/'' \<and> slug_ok (drop 5 (url_pathname u)))
      then Inl (Rejected ''invalid run recipe URL path'')
      else Inr ())"

definition normalize_reference :: "platform \<Rightarrow> string \<Rightarrow> recipe_error + string" where
  "normalize_reference pf reference =
     (let trimmed = trim reference in
      if trimmed = [] then Inl (Rejected ''run recipe reference cannot be empty'')
      else
        (case parse_url pf (if starts_with trimmed ''machinen.dev/'' then ''https://'' @ trimmed else trimmed) of
           None \<Rightarrow> Inl (Rejected ''invalid run recipe URL'')
         | Some u \<Rightarrow> bind_res (validate_official_url u) (\<lambda>_. Inr (url_href u))))"

definition is_hex64 :: "string \<Rightarrow> bool" where
  "is_hex64 s \<longleftrightarrow> length s = 64 \<and> list_all (\<lambda>c. is_digit c \<or> (of_char c :: nat) \<in> {97..102}) s"

definition parse_registry_entry :: "platform \<Rightarrow> json \<Rightarrow> recipe_error + registry_recipe" where
  "parse_registry_entry pf v =
     bind_res (expect_object v) (\<lambda>fs.
     bind_res (expect_allowed_keys fs [''aliases'', ''name'', ''sha256'', ''source'', ''summary'']) (\<lambda>_.
     bind_res (bind_res (expect_string 512 (field fs ''source'')) (normalize_reference pf)) (\<lambda>source.
     bind_res (expect_string 64 (field fs ''sha256'')) (\<lambda>sha256.
     if \<not> is_hex64 sha256
     then Inl (Rejected ''registry recipe sha256 must be 64 lowercase hexadecimal characters'')
     else
       bind_res (expect_slug (field fs ''name'')) (\<lambda>name.
       bind_res (optional expect_slug_array (field fs ''aliases'')) (\<lambda>aliases.
       bind_res (expect_string 240 (field fs ''summary'')) (\<lambda>summary.
       Inr \<lparr>rr_name = name, rr_aliases = aliases, rr_summary = summary, rr_source = source, rr_sha256 = sha256\<rparr>)))))))"

definition parse_registry_payload :: "platform \<Rightarrow> json \<Rightarrow> recipe_error + registry_recipe list" where
  "parse_registry_payload pf v =
     bind_res (expect_object v) (\<lambda>fs.
     bind_res (expect_exact_keys fs [''publisher'', ''recipes'', ''schemaVersion'']) (\<lambda>_.
     if field fs ''schemaVersion'' \<noteq> Num 1 \<or> field fs ''publisher'' \<noteq> Str ''machinen.dev''
     then Inl (Rejected ''unsupported run registry index schema or publisher'')
     else
       (case field fs ''recipes'' of
          Arr vs \<Rightarrow>
            if 256 < length vs
            then Inl (Rejected ''run registry index recipes must be an array with at most 256 entries'')
            else map_res (parse_registry_entry pf) vs
        | _ \<Rightarrow> Inl (Rejected ''run registry index recipes must be an array with at most 256 entries''))))"

section \<open>Fetching\<close>

record http_response =
  http_status :: nat
  http_location :: "string option"
  content_length :: "string option"
  http_body :: bytes

text \<open>\<open>fetch n u\<close> is the answer to the request for \<open>u\<close> with \<open>n\<close> further redirects allowed;
  \<open>None\<close> is a request that failed.\<close>

type_synonym network = "nat \<Rightarrow> url \<Rightarrow> http_response option"

definition is_redirect :: "nat \<Rightarrow> bool" where
  "is_redirect code \<longleftrightarrow> code = 301 \<or> code = 302 \<or> code = 303 \<or> code = 307 \<or> code = 308"

definition redirect_target :: "platform \<Rightarrow> http_response \<Rightarrow> url \<Rightarrow> recipe_error + url option" where
  "redirect_target pf resp current =
     (if \<not> is_redirect (http_status resp) then Inr None
      else
        (case http_location resp of
           None \<Rightarrow> Inl (Rejected ''run registry returned redirect without Location'')
         | Some loc \<Rightarrow>
             if loc = [] then Inl (Rejected ''run registry returned redirect without Location'')
             else
               (case join_url pf loc current of
                  None \<Rightarrow> Inl (Rejected ''Invalid URL'')
                | Some target \<Rightarrow> bind_res (validate_official_url target) (\<lambda>_. Inr (Some target)))))"

definition require_successful :: "http_response \<Rightarrow> recipe_error + unit" where
  "require_successful resp =
     (if 200 \<le> http_status resp \<and> http_status resp < 300 then Inr ()
      else if 500 \<le> http_status resp then Inl (Unavailable ''run registry returned HTTP'')
      else Inl (Rejected ''run registry returned HTTP''))"

text \<open>A header that is not a decimal number is \<open>NaN\<close> and passes.\<close>

definition declared_length :: "http_response \<Rightarrow> nat option" where
  "declared_length resp =
     (case content_length resp of
        None \<Rightarrow> Some 0
      | Some h \<Rightarrow> if all_digits (trim h) then Some (dec_value (trim h)) else None)"

definition read_bounded :: "platform \<Rightarrow> http_response \<Rightarrow> recipe_error + string" where
  "read_bounded pf resp =
     (if (case declared_length resp of None \<Rightarrow> False | Some n \<Rightarrow> MAX_DOCUMENT_BYTES < n) \<or>
         MAX_DOCUMENT_BYTES < length (http_body resp)
      then Inl (Rejected ''run registry document exceeds 131072 bytes'')
      else
        (case decode_utf8 pf (http_body resp) of
           None \<Rightarrow> Inl (Rejected ''The encoded data was not valid'')
         | Some s \<Rightarrow> Inr s))"

fun fetch_from :: "platform \<Rightarrow> network \<Rightarrow> nat \<Rightarrow> url \<Rightarrow> recipe_error + string" where
  "fetch_from pf fetch 0 current = Inl (Rejected ''run registry redirected more than 3 times'')"
| "fetch_from pf fetch (Suc n) current =
     (case fetch n current of
        None \<Rightarrow> Inl (Unavailable ''could not fetch run recipe'')
      | Some resp \<Rightarrow>
          bind_res (redirect_target pf resp current) (\<lambda>redirect.
          case redirect of
            Some target \<Rightarrow> fetch_from pf fetch n target
          | None \<Rightarrow> bind_res (require_successful resp) (\<lambda>_. read_bounded pf resp)))"

definition MAX_REDIRECTS :: nat where "MAX_REDIRECTS = 3"

definition fetch_signed_document :: "platform \<Rightarrow> network \<Rightarrow> string \<Rightarrow> recipe_error + string" where
  "fetch_signed_document pf fetch source =
     (case parse_url pf source of
        None \<Rightarrow> Inl (Rejected ''Invalid URL'')
      | Some u \<Rightarrow> fetch_from pf fetch (MAX_REDIRECTS + 1) u)"

section \<open>Cache and loading\<close>

text \<open>The cache is a file per source, named by the hash of the source.\<close>

type_synonym recipe_cache = "(string \<times> string) list"

definition cache_key :: "platform \<Rightarrow> string \<Rightarrow> string" where
  "cache_key pf source = sha256_hex pf (bytes_of source)"

definition write_registry_cache :: "platform \<Rightarrow> string \<Rightarrow> string \<Rightarrow> recipe_cache \<Rightarrow> recipe_cache" where
  "write_registry_cache pf source raw cache = AList.update (cache_key pf source) raw cache"

definition read_registry_cache :: "platform \<Rightarrow> string \<Rightarrow> recipe_cache \<Rightarrow> string option" where
  "read_registry_cache pf source cache = map_of cache (cache_key pf source)"

definition load_signed_document ::
    "platform \<Rightarrow> network \<Rightarrow> trusted_keys \<Rightarrow> string \<Rightarrow> recipe_cache \<Rightarrow> (recipe_error + string) \<times> recipe_cache" where
  "load_signed_document pf fetch trusted source cache =
     (case fetch_signed_document pf fetch source of
        Inr raw \<Rightarrow>
          (case verify_envelope pf trusted raw of
             Inl e \<Rightarrow> (Inl e, cache)
           | Inr _ \<Rightarrow> (Inr raw, write_registry_cache pf source raw cache))
      | Inl (Rejected m) \<Rightarrow> (Inl (Rejected m), cache)
      | Inl (Unavailable m) \<Rightarrow>
          (case read_registry_cache pf source cache of
             None \<Rightarrow> (Inl (Unavailable m), cache)
           | Some cached \<Rightarrow>
               (case verify_envelope pf trusted cached of
                  Inl e \<Rightarrow> (Inl e, cache)
                | Inr _ \<Rightarrow> (Inr cached, cache))))"

record verified_recipe =
  vr_source :: string
  vr_digest :: string
  vr_key_id :: string
  vr_recipe :: run_recipe

definition verify_recipe_document :: "platform \<Rightarrow> trusted_keys \<Rightarrow> string \<Rightarrow> string \<Rightarrow> recipe_error + verified_recipe" where
  "verify_recipe_document pf trusted source raw =
     bind_res (verify_envelope pf trusted raw) (\<lambda>verified.
     bind_res (parse_run_recipe (vp_payload verified)) (\<lambda>recipe.
     Inr \<lparr>vr_source = source, vr_digest = vp_digest verified, vr_key_id = vp_key_id verified, vr_recipe = recipe\<rparr>))"

definition load_run_recipe ::
    "platform \<Rightarrow> network \<Rightarrow> trusted_keys \<Rightarrow> string \<Rightarrow> recipe_cache \<Rightarrow> (recipe_error + verified_recipe) \<times> recipe_cache" where
  "load_run_recipe pf fetch trusted reference cache =
     (case normalize_reference pf reference of
        Inl e \<Rightarrow> (Inl e, cache)
      | Inr source \<Rightarrow>
          (case load_signed_document pf fetch trusted source cache of
             (Inl e, cache') \<Rightarrow> (Inl e, cache')
           | (Inr raw, cache') \<Rightarrow> (verify_recipe_document pf trusted source raw, cache')))"

definition REGISTRY_INDEX_URL :: string where "REGISTRY_INDEX_URL = REGISTRY_ORIGIN @ ''/run/index''"

record verified_registry =
  vg_digest :: string
  vg_key_id :: string
  vg_recipes :: "registry_recipe list"

definition load_run_registry ::
    "platform \<Rightarrow> network \<Rightarrow> trusted_keys \<Rightarrow> recipe_cache \<Rightarrow> (recipe_error + verified_registry) \<times> recipe_cache" where
  "load_run_registry pf fetch trusted cache =
     (case load_signed_document pf fetch trusted REGISTRY_INDEX_URL cache of
        (Inl e, cache') \<Rightarrow> (Inl e, cache')
      | (Inr raw, cache') \<Rightarrow>
          (bind_res (verify_envelope pf trusted raw) (\<lambda>verified.
           bind_res (parse_registry_payload pf (vp_payload verified)) (\<lambda>recipes.
           Inr \<lparr>vg_digest = vp_digest verified, vg_key_id = vp_key_id verified, vg_recipes = recipes\<rparr>)), cache'))"

text \<open>\<open>verifyRunRecipeEnvelope\<close>\<close>

definition verify_run_recipe_envelope ::
    "platform \<Rightarrow> trusted_keys \<Rightarrow> string \<Rightarrow> string \<Rightarrow> recipe_error + verified_recipe" where
  "verify_run_recipe_envelope pf trusted raw source =
     (case parse_url pf source of
        None \<Rightarrow> Inl (Rejected ''Invalid URL'')
      | Some u \<Rightarrow> bind_res (validate_official_url u) (\<lambda>_. verify_recipe_document pf trusted source raw))"

end
