(* ===== verification/Run_Approval.thy ===== *)
theory Run_Approval
  imports Run_Recipe
begin

text \<open>
  The store of approvals, \<^verbatim>\<open>packages/cli/src/run-approval.ts\<close>: which recipe bytes the user
  approved for which access. The file is \<open>None\<close> when it does not exist, else the parsed
  document (\<open>Some None\<close> where \<open>JSON.parse\<close> rejects the text). Writing goes through a temporary
  file and a rename, so a reader sees the old document or the new one.
\<close>

type_synonym approval_file = "json option option"

datatype approval_error = Unreadable_approvals | Invalid_approvals

definition approval_id :: "platform \<Rightarrow> string \<Rightarrow> string \<Rightarrow> string" where
  "approval_id pf digest fingerprint = sha256_hex pf (bytes_of (digest @ CHR 0x00 # fingerprint))"

definition is_text :: "json \<Rightarrow> bool" where
  "is_text v = (case v of Str _ \<Rightarrow> True | _ \<Rightarrow> False)"

definition is_digest :: "json \<Rightarrow> bool" where
  "is_digest v = (case v of Str s \<Rightarrow> is_hex64 s | _ \<Rightarrow> False)"

definition is_approval :: "json \<Rightarrow> bool" where
  "is_approval v =
     (case v of
        Obj fs \<Rightarrow> is_text (field fs ''source'') \<and> is_text (field fs ''name'') \<and> is_text (field fs ''keyId'') \<and>
          is_digest (field fs ''recipeDigest'') \<and> is_digest (field fs ''accessFingerprint'') \<and>
          is_text (field fs ''approvedAt'')
      | _ \<Rightarrow> False)"

text \<open>The approvals of a document that is a store; \<open>None\<close> for any other document.\<close>

definition approvals_of :: "json \<Rightarrow> (string \<times> json) list option" where
  "approvals_of v =
     (case v of
        Obj fs \<Rightarrow>
          if field fs ''schemaVersion'' \<noteq> Num 2 then None
          else (case field fs ''approvals'' of
                  Obj as \<Rightarrow> if list_all (\<lambda>(digest, a). is_hex64 digest \<and> is_approval a) as then Some as else None
                | _ \<Rightarrow> None)
      | _ \<Rightarrow> None)"

definition is_legacy_store :: "json \<Rightarrow> bool" where
  "is_legacy_store v =
     (case v of
        Obj fs \<Rightarrow> field fs ''schemaVersion'' = Num 1 \<and> (case field fs ''approvals'' of Obj _ \<Rightarrow> True | _ \<Rightarrow> False)
      | _ \<Rightarrow> False)"

definition read_approval_store :: "approval_file \<Rightarrow> approval_error + (string \<times> json) list" where
  "read_approval_store f =
     (case f of
        None \<Rightarrow> Inr []
      | Some None \<Rightarrow> Inl Unreadable_approvals
      | Some (Some v) \<Rightarrow>
          if is_legacy_store v then Inr []
          else (case approvals_of v of None \<Rightarrow> Inl Invalid_approvals | Some as \<Rightarrow> Inr as))"

definition store_document :: "(string \<times> json) list \<Rightarrow> json" where
  "store_document as = Obj [(''schemaVersion'', Num 2), (''approvals'', Obj as)]"

definition has_approval :: "platform \<Rightarrow> string \<Rightarrow> string \<Rightarrow> approval_file \<Rightarrow> approval_error + bool" where
  "has_approval pf digest fingerprint f =
     bind_res (read_approval_store f) (\<lambda>as. Inr (map_of as (approval_id pf digest fingerprint) \<noteq> None))"

definition approval_of :: "verified_recipe \<Rightarrow> string \<Rightarrow> string \<Rightarrow> json" where
  "approval_of r fingerprint now =
     Obj [(''source'', Str (vr_source r)), (''name'', Str (rc_name (vr_recipe r))), (''keyId'', Str (vr_key_id r)),
       (''recipeDigest'', Str (vr_digest r)), (''accessFingerprint'', Str fingerprint), (''approvedAt'', Str now)]"

definition approve_recipe ::
    "platform \<Rightarrow> verified_recipe \<Rightarrow> string \<Rightarrow> string \<Rightarrow> approval_file \<Rightarrow> approval_error + approval_file" where
  "approve_recipe pf r fingerprint now f =
     bind_res (read_approval_store f) (\<lambda>as.
     Inr (Some (Some (store_document
       (AList.update (approval_id pf (vr_digest r) fingerprint) (approval_of r fingerprint now) as)))))"

section \<open>Reading back\<close>

lemma approval_of_ok: "is_hex64 (vr_digest r) \<Longrightarrow> is_hex64 fingerprint \<Longrightarrow> is_approval (approval_of r fingerprint now)"
  by (simp add: is_approval_def approval_of_def field_def is_text_def is_digest_def)

definition approvals_ok :: "(string \<times> json) list \<Rightarrow> bool" where
  "approvals_ok as \<longleftrightarrow> (\<forall>(digest, a) \<in> set as. is_hex64 digest \<and> is_approval a)"

lemma read_store_document: "approvals_ok as \<Longrightarrow> read_approval_store (Some (Some (store_document as))) = Inr as"
  by (simp add: read_approval_store_def store_document_def is_legacy_store_def approvals_of_def field_def
      approvals_ok_def list_all_iff)

lemma read_approvals_ok: "read_approval_store f = Inr as \<Longrightarrow> approvals_ok as"
  by (auto simp: read_approval_store_def approvals_of_def approvals_ok_def list_all_iff
      split: option.splits json.splits if_splits)

lemma approvals_ok_update:
  "approvals_ok as \<Longrightarrow> is_hex64 k \<Longrightarrow> is_approval a \<Longrightarrow> approvals_ok (AList.update k a as)"
  by (induction as) (auto simp: approvals_ok_def)

text \<open>A digest has no NUL, so digest and fingerprint can be read off the text that is hashed.\<close>

lemma hex_no_nul: "is_hex64 s \<Longrightarrow> CHR 0x00 \<notin> set s"
  by (auto simp: is_hex64_def list_all_iff is_digit_def dest!: bspec)

lemma id_text_inj:
  assumes "is_hex64 d" "is_hex64 d'" "bytes_of (d @ CHR 0x00 # f) = bytes_of (d' @ CHR 0x00 # f')"
  shows "d = d' \<and> f = f'"
proof -
  have "d @ CHR 0x00 # f = d' @ CHR 0x00 # f'" using assms(3) by (metis text_of_bytes_of)
  moreover have "length d = length d'" using assms(1,2) by (simp add: is_hex64_def)
  ultimately show ?thesis by simp
qed

end
