(* ===== verification/Recipe_Laws.thy ===== *)
theory Recipe_Laws
  imports Run_Approval Posix_Path
begin

text \<open>
  What the loader of run recipes promises: a recipe is only returned when its payload carries a
  valid signature of a trusted key, it then satisfies the limits of its schema, only the
  official origin is contacted, and what was loaded once loads again without a network.
\<close>

section \<open>Accepted documents\<close>

lemma expect_object_eq [result_simps]: "expect_object v = Inr fs \<longleftrightarrow> v = Obj fs"
  by (auto simp: expect_object_def split: json.splits)

lemma expect_string_eq [result_simps]:
  "expect_string n v = Inr s \<longleftrightarrow> v = Str s \<and> s \<noteq> [] \<and> utf16_length s \<le> n"
  by (auto simp: expect_string_def split: json.splits)

lemma expect_slug_eq [result_simps]:
  "expect_slug v = Inr s \<longleftrightarrow> v = Str s \<and> utf16_length s \<le> 64 \<and> slug_ok s"
  by (auto simp: expect_slug_def slug_ok_def result_simps split: if_splits)

text \<open>A loop that checks every element keeps what it checked.\<close>

lemma map_res_all:
  "map_res f xs = Inr ys \<Longrightarrow> (\<And>x y. f x = Inr y \<Longrightarrow> P y) \<Longrightarrow> list_all P ys \<and> length ys = length xs"
  by (induction xs arbitrary: ys) (auto simp: result_simps)

definition guest_path_ok :: "string \<Rightarrow> bool" where
  "guest_path_ok p \<longleftrightarrow> utf16_length p \<le> 4096 \<and> is_absolute p \<and> nul_char \<notin> set p \<and>
     \<not> str_includes p ''/../'' \<and> \<not> ends_with p ''/..'' \<and>
     list_all (\<lambda>prefix. p \<noteq> prefix \<and> \<not> starts_with p (prefix @ ''/'')) reserved_paths"

definition states_ok :: "state_permission list \<Rightarrow> bool" where
  "states_ok sts \<longleftrightarrow> distinct (map sp_name sts) \<and> distinct (map sp_guest sts) \<and>
     list_all (\<lambda>s. slug_ok (sp_name s) \<and> guest_path_ok (sp_guest s)) sts"

definition recipe_ok :: "run_recipe \<Rightarrow> bool" where
  "recipe_ok r \<longleftrightarrow>
     slug_ok (rc_name r) \<and>
     (\<forall>as. rc_aliases r = Some as \<longrightarrow> length as \<le> 16 \<and> list_all slug_ok as) \<and>
     rc_summary r \<noteq> [] \<and> utf16_length (rc_summary r) \<le> 240 \<and>
     length (rc_install r) \<in> {1..256} \<and> utf16_length (join_on nl_char (rc_install r)) \<le> 32768 \<and>
     list_all (\<lambda>l. l \<noteq> [] \<and> utf16_length l \<le> 8192 \<and> nul_char \<notin> set l \<and> nl_char \<notin> set l \<and> cr_char \<notin> set l)
       (rc_install r) \<and>
     length (rc_command r) \<in> {1..32} \<and>
     list_all (\<lambda>a. a \<noteq> [] \<and> utf16_length a \<le> 4096 \<and> nul_char \<notin> set a) (rc_command r) \<and>
     (\<forall>env. rc_env r = Some env \<longrightarrow> length env \<le> 64 \<and> distinct (map fst env) \<and>
       list_all (\<lambda>(k, v). env_key_ok k \<and> v \<noteq> [] \<and> utf16_length v \<le> 8192 \<and> nul_char \<notin> set v) env) \<and>
     length (rc_state r) \<le> 16 \<and> states_ok (rc_state r)"

lemma expect_guest_path_eq [result_simps]:
  "expect_guest_path v = Inr p \<longleftrightarrow> v = Str p \<and> guest_path_ok p"
proof -
  have "p \<noteq> []" if "starts_with p ''/''" using that by (auto simp: starts_with_def)
  then show ?thesis
    by (auto simp: expect_guest_path_def guest_path_ok_def is_absolute_def list_ex_iff list_all_iff
        result_simps simp del: str_includes.simps split: if_splits)
qed

lemma parse_state_permission_ok:
  "parse_state_permission acc v = Inr acc' \<Longrightarrow> states_ok acc \<Longrightarrow> states_ok acc'"
  by (auto simp: parse_state_permission_def states_ok_def result_simps split: option.splits if_splits)

lemma parse_state_permission_length:
  "parse_state_permission acc v = Inr acc' \<Longrightarrow> length acc' = Suc (length acc)"
  by (auto simp: parse_state_permission_def result_simps split: option.splits if_splits)

lemma fold_states_length:
  "fold_res parse_state_permission acc vs = Inr sts \<Longrightarrow> length sts = length acc + length vs"
  by (induction vs arbitrary: acc) (auto simp: result_simps dest: parse_state_permission_length)

lemma parse_state_permissions_ok:
  assumes "parse_state_permissions v = Inr sts"
  shows "states_ok sts" "length sts \<le> 16"
proof -
  obtain vs where vs: "v = Arr vs" "length vs \<le> 16" "fold_res parse_state_permission [] vs = Inr sts"
    using assms by (auto simp: parse_state_permissions_def split: json.splits if_splits)
  show "states_ok sts"
    by (rule fold_res_invariant [OF vs(3)]) (auto simp: states_ok_def [of "[]"] intro: parse_state_permission_ok)
  show "length sts \<le> 16" using fold_states_length [OF vs(3)] vs(2) by simp
qed

definition recipe_env_ok :: "(string \<times> string) list \<Rightarrow> bool" where
  "recipe_env_ok env \<longleftrightarrow> distinct (map fst env) \<and>
     (\<forall>(k, v) \<in> set env. env_key_ok k \<and> v \<noteq> [] \<and> utf16_length v \<le> 8192 \<and> nul_char \<notin> set v)"

lemma set_update_member: "kv \<in> set (AList.update k v xs) \<Longrightarrow> kv = (k, v) \<or> kv \<in> set xs"
  by (induction xs) (auto split: if_splits)

lemma length_update: "length (AList.update k v xs) \<le> Suc (length xs)"
  by (induction xs) auto

lemma parse_env_entry_ok:
  assumes "parse_env_entry env kv = Inr env'"
  shows "recipe_env_ok env \<Longrightarrow> recipe_env_ok env'" "length env' \<le> Suc (length env)"
proof -
  from assms obtain v where v: "env_key_ok (fst kv)" "v \<noteq> []" "utf16_length v \<le> 8192" "nul_char \<notin> set v"
    "env' = set_env (fst kv) v env"
    by (auto simp: parse_env_entry_def result_simps split: if_splits)
  show "length env' \<le> Suc (length env)" by (simp add: v(5) set_env_def length_update)
  show "recipe_env_ok env'" if "recipe_env_ok env"
    using that v(1-4) unfolding v(5) recipe_env_ok_def set_env_def
    by (auto simp: AList.distinct_update dest!: set_update_member)
qed

lemma fold_env_length:
  "fold_res parse_env_entry acc fs = Inr env \<Longrightarrow> length env \<le> length acc + length fs"
  by (induction fs arbitrary: acc) (fastforce simp: result_simps dest: parse_env_entry_ok(2))+

lemma parse_env_ok:
  assumes "parse_env v = Inr env"
  shows "recipe_env_ok env" "length env \<le> 64"
proof -
  obtain fs where fs: "length fs \<le> 64" "fold_res parse_env_entry [] fs = Inr env"
    using assms by (auto simp: parse_env_def result_simps not_less split: if_splits)
  show "recipe_env_ok env"
    by (rule fold_res_invariant [OF fs(2)]) (auto simp: recipe_env_ok_def [of "[]"] intro: parse_env_entry_ok)
  show "length env \<le> 64" using fold_env_length [OF fs(2)] fs(1) by simp
qed

lemma parse_install_ok:
  assumes "parse_install v = Inr ls"
  shows "length ls \<in> {1..256}" "utf16_length (join_on nl_char ls) \<le> 32768"
    "list_all (\<lambda>l. l \<noteq> [] \<and> utf16_length l \<le> 8192 \<and> nul_char \<notin> set l \<and> nl_char \<notin> set l \<and> cr_char \<notin> set l) ls"
proof -
  obtain vs where vs: "vs \<noteq> []" "length vs \<le> 256" "map_res parse_install_line vs = Inr ls"
    and j: "utf16_length (join_on nl_char ls) \<le> 32768"
    using assms by (auto simp: parse_install_def result_simps split: json.splits if_splits)
  have "list_all (\<lambda>l. l \<noteq> [] \<and> utf16_length l \<le> 8192 \<and> nul_char \<notin> set l \<and> nl_char \<notin> set l \<and> cr_char \<notin> set l) ls \<and>
      length ls = length vs"
    by (rule map_res_all [OF vs(3)]) (auto simp: parse_install_line_def result_simps split: if_splits)
  with vs j show "length ls \<in> {1..256}" "utf16_length (join_on nl_char ls) \<le> 32768"
    "list_all (\<lambda>l. l \<noteq> [] \<and> utf16_length l \<le> 8192 \<and> nul_char \<notin> set l \<and> nl_char \<notin> set l \<and> cr_char \<notin> set l) ls"
    by (auto simp: Suc_le_eq)
qed

lemma parse_command_ok:
  assumes "parse_command v = Inr as"
  shows "length as \<in> {1..32}" "list_all (\<lambda>a. a \<noteq> [] \<and> utf16_length a \<le> 4096 \<and> nul_char \<notin> set a) as"
proof -
  obtain vs where vs: "vs \<noteq> []" "length vs \<le> 32" "map_res parse_command_arg vs = Inr as"
    using assms by (auto simp: parse_command_def split: json.splits if_splits)
  have "list_all (\<lambda>a. a \<noteq> [] \<and> utf16_length a \<le> 4096 \<and> nul_char \<notin> set a) as \<and> length as = length vs"
    by (rule map_res_all [OF vs(3)]) (auto simp: parse_command_arg_def result_simps split: if_splits)
  with vs show "length as \<in> {1..32}" "list_all (\<lambda>a. a \<noteq> [] \<and> utf16_length a \<le> 4096 \<and> nul_char \<notin> set a) as"
    by (auto simp: Suc_le_eq)
qed

lemma expect_slug_array_ok:
  assumes "expect_slug_array v = Inr as"
  shows "length as \<le> 16 \<and> list_all slug_ok as"
proof -
  obtain vs where vs: "length vs \<le> 16" "map_res expect_slug vs = Inr as"
    using assms by (auto simp: expect_slug_array_def not_less split: json.splits if_splits)
  have "list_all slug_ok as \<and> length as = length vs"
    by (rule map_res_all [OF vs(2)]) (simp add: result_simps)
  with vs(1) show ?thesis by simp
qed

lemma optional_eq [result_simps]:
  "optional parse v = Inr x \<longleftrightarrow> (if v = Undefined then x = None else \<exists>y. parse v = Inr y \<and> x = Some y)"
  by (auto simp: optional_def result_simps)

lemma parse_permissions_ok:
  "parse_permissions v = Inr (w, sts) \<Longrightarrow> states_ok sts \<and> length sts \<le> 16"
  by (auto simp: parse_permissions_def result_simps parse_state_permissions_ok split: if_splits option.splits)

lemma parse_run_recipe_ok:
  assumes "parse_run_recipe v = Inr r"
  shows "recipe_ok r"
proof -
  obtain fs name aliases summary install command env w sts where p:
    "expect_slug (field fs ''name'') = Inr name"
    "optional expect_slug_array (field fs ''aliases'') = Inr aliases"
    "expect_string 240 (field fs ''summary'') = Inr summary"
    "parse_install (field fs ''install'') = Inr install"
    "parse_command (field fs ''command'') = Inr command"
    "optional parse_env (field fs ''env'') = Inr env"
    "parse_permissions (field fs ''permissions'') = Inr (w, sts)"
    and r: "r = \<lparr>rc_name = name, rc_aliases = aliases, rc_summary = summary, rc_install = install,
         rc_command = command, rc_env = env, rc_workspace = w, rc_state = sts\<rparr>"
    using assms unfolding parse_run_recipe_def bind_res_eq_Inr
    by (auto split: if_splits prod.splits simp: bind_res_eq_Inr)
  have "slug_ok name" using p(1) by (simp add: result_simps)
  moreover have "\<forall>as. aliases = Some as \<longrightarrow> length as \<le> 16 \<and> list_all slug_ok as"
    using p(2) by (auto simp: optional_eq dest!: expect_slug_array_ok split: if_splits)
  moreover have "summary \<noteq> []" "utf16_length summary \<le> 240" using p(3) by (simp_all add: result_simps)
  moreover note parse_install_ok [OF p(4)] parse_command_ok [OF p(5)] parse_permissions_ok [OF p(7)]
  moreover have "\<forall>e. env = Some e \<longrightarrow> length e \<le> 64 \<and> recipe_env_ok e"
    using p(6) parse_env_ok by (auto simp: optional_eq split: if_splits)
  ultimately show ?thesis
    unfolding recipe_ok_def r by (simp add: recipe_env_ok_def list_all_iff)
qed

section \<open>Guest paths\<close>

lemma split_on_surrounded:
  assumes "x \<in> set (split_on c s)"
  shows "\<exists>a b. s = a @ x @ b \<and> (a = [] \<or> last a = c) \<and> (b = [] \<or> hd b = c)"
proof -
  obtain xs ys where ps: "split_on c s = xs @ [x] @ ys" using assms by (metis append_Cons append_Nil in_set_conv_decomp)
  let ?a = "if xs = [] then [] else join_on c xs @ [c]" and ?b = "if ys = [] then [] else c # join_on c ys"
  have "s = join_on c (xs @ [x] @ ys)" using join_split_on [of c s] ps by simp
  also have "\<dots> = ?a @ x @ ?b"
    using join_on_append [of xs "[x] @ ys" c] join_on_append [of "[x]" ys c] by auto
  finally show ?thesis by (intro exI [of _ ?a] exI [of _ ?b]) simp
qed

text \<open>An accepted guest path never goes up.\<close>

lemma guest_path_no_up:
  assumes "guest_path_ok p"
  shows "''..'' \<notin> set (split_on slash p)"
proof
  assume "''..'' \<in> set (split_on slash p)"
  then obtain a b where ab: "p = a @ ''..'' @ b" "a = [] \<or> last a = slash" "b = [] \<or> hd b = slash"
    using split_on_surrounded by metis
  have "hd p = slash" using assms by (auto simp: guest_path_ok_def is_absolute_def starts_with_iff)
  with ab(1) have "a \<noteq> []" by auto
  with ab(2) obtain a' where a: "a = a' @ ''/''" by (metis append_butlast_last_id)
  show False
  proof (cases b)
    case Nil
    with ab(1) a have "p = a' @ ''/..''" by simp
    then have "ends_with p ''/..''" unfolding ends_with_iff by blast
    with assms show False by (simp add: guest_path_ok_def)
  next
    case (Cons x b')
    with ab a have "p = a' @ ''/../'' @ b'" by simp
    then have "str_includes p ''/../''" unfolding includes_iff by blast
    with assms show False by (simp add: guest_path_ok_def)
  qed
qed

text \<open>In normal form it is outside of the reserved directories.\<close>

lemma reserved_normal: "q \<in> set reserved_paths \<Longrightarrow> q = slash # join_on slash (segments q) \<and> segments q \<noteq> []"
  by (auto simp: reserved_paths_def segments_def)

lemma guest_path_not_reserved:
  assumes "guest_path_ok p" "p = slash # join_on slash (segments p)" "q \<in> set reserved_paths"
  shows "take (length (segments q)) (segments p) \<noteq> segments q"
proof
  assume "take (length (segments q)) (segments p) = segments q"
  then obtain rest where rest: "segments p = segments q @ rest" by (metis append_take_drop_id)
  note q = reserved_normal [OF assms(3)]
  have "p = q \<or> starts_with p (q @ ''/'')"
  proof (cases "rest = []")
    case True
    then show ?thesis using rest q assms(2) by (metis append_Nil2)
  next
    case False
    then have "join_on slash (segments p) = join_on slash (segments q) @ slash # join_on slash rest"
      using rest q join_on_append by simp
    then have "p = (q @ ''/'') @ join_on slash rest" using q assms(2) by (metis append.assoc append_Cons append_Nil)
    then show ?thesis by (metis starts_with_append)
  qed
  with assms(1,3) show False by (auto simp: guest_path_ok_def list_all_iff)
qed

section \<open>Base64\<close>

text \<open>The encoding of RFC 4648, as the signer of a document writes it.\<close>

definition b64_char :: "nat \<Rightarrow> char" where
  "b64_char n =
     (if n < 26 then char_of (n + 65) else if n < 52 then char_of (n + 71)
      else if n < 62 then char_of (n - 4) else if n = 62 then CHR ''+'' else CHR ''/'')"

fun b64_encode :: "bytes \<Rightarrow> string" where
  "b64_encode [] = []"
| "b64_encode [a] =
     (let n = unat a * 65536 in [b64_char (n div 262144), b64_char (n div 4096 mod 64), CHR ''='', CHR ''=''])"
| "b64_encode [a, b] =
     (let n = unat a * 65536 + unat b * 256 in
      [b64_char (n div 262144), b64_char (n div 4096 mod 64), b64_char (n div 64 mod 64), CHR ''=''])"
| "b64_encode (a # b # c # rest) =
     (let n = unat a * 65536 + unat b * 256 + unat c in
      b64_char (n div 262144) # b64_char (n div 4096 mod 64) # b64_char (n div 64 mod 64) # b64_char (n mod 64) #
      b64_encode rest)"

lemma b64_digit_char [simp]: "n < 64 \<Longrightarrow> b64_digit (b64_char n) = Some n"
  by (auto simp: b64_digit_def b64_char_def is_upper_def is_lower_def is_digit_def Let_def)

lemma b64_char_facts [simp]: "n < 64 \<Longrightarrow> is_b64 (b64_char n)" "n < 64 \<Longrightarrow> b64_value (b64_char n) = n"
  by (simp_all add: is_b64_def b64_value_def)

lemma b64_char_not_pad [simp]: "n < 64 \<Longrightarrow> b64_char n \<noteq> CHR ''=''"
proof
  assume "n < 64" "b64_char n = CHR ''=''"
  then have "b64_digit CHR ''='' = Some n" using b64_digit_char by metis
  then show False by (simp add: b64_digit_def is_upper_def is_lower_def is_digit_def)
qed

text \<open>Four digits of six bits are three bytes.\<close>

lemma sextets:
  fixes n :: nat
  shows "((n div 262144 * 64 + n div 4096 mod 64) * 64 + n div 64 mod 64) * 64 + n mod 64 = n"
proof -
  have "n div 4096 = n div 64 div 64" "n div 262144 = n div 64 div 64 div 64"
    by (simp_all add: div_mult2_eq [symmetric])
  then show ?thesis by simp
qed

lemma first_sextet: "(n::nat) < 16777216 \<Longrightarrow> n div 262144 < 64"
  by (simp add: div_less_iff_less_mult)

lemma byte_of_unat: "n mod 256 = unat a \<Longrightarrow> (of_nat n :: byte) = a"
  by (simp add: word_unat_eq_iff)

lemma low_byte: "(c::nat) < 256 \<Longrightarrow> (256 * m + c) div 256 = m \<and> (256 * m + c) mod 256 = c"
  by simp

lemma three_bytes:
  fixes a b c :: byte
  defines "n \<equiv> unat a * 65536 + unat b * 256 + unat c"
  shows "(of_nat (n div 65536) :: byte) = a" "(of_nat (n div 256) :: byte) = b" "(of_nat n :: byte) = c"
    and "n < 16777216"
proof -
  have less: "unat a < 256" "unat b < 256" "unat c < 256" by simp_all
  let ?m = "256 * unat a + unat b"
  have n: "n = 256 * ?m + unat c" by (simp add: n_def)
  have "n div 65536 = n div 256 div 256" by (simp add: div_mult2_eq [symmetric])
  moreover have "n div 256 = ?m" "n mod 256 = unat c"
    unfolding n using low_byte [OF less(3)] by blast+
  moreover have "?m div 256 = unat a" "?m mod 256 = unat b" using low_byte [OF less(2)] by blast+
  ultimately have "n div 65536 mod 256 = unat a" "n div 256 mod 256 = unat b" "n mod 256 = unat c"
    using less by simp_all
  then show "(of_nat (n div 65536) :: byte) = a" "(of_nat (n div 256) :: byte) = b" "(of_nat n :: byte) = c"
    by - (rule byte_of_unat, assumption)+
  show "n < 16777216" using less unfolding n_def by linarith
qed

lemma pad_value: "b64_value CHR ''='' = 0"
  by (simp add: b64_value_def b64_digit_def is_upper_def is_lower_def is_digit_def)

lemma decode_encode_base64: "decode_base64 (b64_encode bs) = Inr bs"
proof -
  have "b64_canonical (b64_encode bs) \<and> b64_bytes (b64_encode bs) = bs"
  proof (induction bs rule: b64_encode.induct)
    case (2 a)
    let ?n = "unat a * 65536"
    note t = three_bytes [of a 0 0, simplified]
    have "?n div 64 mod 64 = 0" "?n mod 64 = 0" by simp_all
    with sextets [of ?n] have "((?n div 262144 * 64 + ?n div 4096 mod 64) * 64 + 0) * 64 + 0 = ?n" by simp
    with first_sextet [of ?n] t(1) show ?case by (simp add: Let_def pad_value)
  next
    case (3 a b)
    let ?n = "unat a * 65536 + unat b * 256"
    note t = three_bytes [of a b 0, simplified]
    have "?n = 64 * (unat a * 1024 + unat b * 4)" by simp
    then have "?n mod 64 = 0" by (metis mod_mult_self1_is_0)
    with sextets [of ?n] have "((?n div 262144 * 64 + ?n div 4096 mod 64) * 64 + ?n div 64 mod 64) * 64 + 0 = ?n"
      by simp
    with first_sextet [OF t(4)] t(1,2) show ?case by (simp add: Let_def pad_value)
  next
    case (4 a b c rest)
    let ?n = "unat a * 65536 + unat b * 256 + unat c"
    note t = three_bytes [of a b c]
    show ?case using 4 sextets [of ?n] first_sextet [OF t(4)] t(1-3) by (simp add: Let_def)
  qed simp
  then show ?thesis by (simp add: decode_base64_def)
qed

section \<open>Signatures\<close>

text \<open>The bytes carry a valid signature of a trusted key.\<close>

definition authentic :: "platform \<Rightarrow> trusted_keys \<Rightarrow> string \<Rightarrow> bytes \<Rightarrow> bool" where
  "authentic pf trusted key bs \<longleftrightarrow>
     (\<exists>pem sig. map_of trusted key = Some pem \<and> length sig = 64 \<and> verify_sig pf pem bs sig)"

lemma verify_envelope_authentic:
  assumes "verify_envelope pf trusted raw = Inr vp"
  shows "\<exists>bs. authentic pf trusted (vp_key_id vp) bs \<and> vp_digest vp = sha256_hex pf bs \<and>
    json_parse pf (text_of bs) = Some (vp_payload vp)"
proof -
  obtain env where env: "parse_envelope pf raw = Inr env"
    using assms by (auto simp: verify_envelope_def result_simps)
  show ?thesis
  proof (cases "map_of trusted (env_key_id env)")
    case None
    with assms env show ?thesis by (simp add: verify_envelope_def)
  next
    case (Some pem)
    with assms env obtain bs sig doc where "pem \<noteq> []" "length sig = 64" "verify_sig pf pem bs sig"
      "json_parse pf (text_of bs) = Some doc" "vp = \<lparr>vp_payload = doc, vp_digest = sha256_hex pf bs, vp_key_id = env_key_id env\<rparr>"
      by (auto simp: verify_envelope_def result_simps split: if_splits option.splits)
    with Some show ?thesis unfolding authentic_def by auto
  qed
qed

lemma verify_recipe_document_authentic:
  assumes "verify_recipe_document pf trusted source raw = Inr v"
  shows "vr_source v = source \<and> recipe_ok (vr_recipe v) \<and>
    (\<exists>bs doc. authentic pf trusted (vr_key_id v) bs \<and> vr_digest v = sha256_hex pf bs \<and>
       json_parse pf (text_of bs) = Some doc \<and> parse_run_recipe doc = Inr (vr_recipe v))"
  using assms
  by (auto simp: verify_recipe_document_def result_simps dest: parse_run_recipe_ok
      dest!: verify_envelope_authentic)

lemma load_run_recipe_cases:
  assumes "load_run_recipe pf fetch trusted reference cache = (Inr v, cache')"
  obtains source raw where "normalize_reference pf reference = Inr source"
    "load_signed_document pf fetch trusted source cache = (Inr raw, cache')"
    "verify_recipe_document pf trusted source raw = Inr v"
  using assms by (auto simp: load_run_recipe_def split: sum.splits prod.splits)

lemma normalize_reference_official:
  "normalize_reference pf reference = Inr source \<Longrightarrow> \<exists>u. source = url_href u \<and> validate_official_url u = Inr ()"
  by (auto simp: normalize_reference_def Let_def result_simps split: if_splits option.splits)

text \<open>
  C12: whatever the network answers and the cache holds, a recipe that is returned was signed:
  its payload has a valid signature of the trusted key that is reported, its digest is the
  hash of exactly those bytes, the recipe is what the validator reads from them, it satisfies
  every limit of its schema, and its source is a URL of the official origin.
\<close>

theorem loaded_recipe_is_signed:
  assumes "load_run_recipe pf fetch trusted reference cache = (Inr v, cache')"
  shows "(\<exists>bs doc. authentic pf trusted (vr_key_id v) bs \<and> vr_digest v = sha256_hex pf bs \<and>
      json_parse pf (text_of bs) = Some doc \<and> parse_run_recipe doc = Inr (vr_recipe v)) \<and>
    recipe_ok (vr_recipe v) \<and> (\<exists>u. vr_source v = url_href u \<and> validate_official_url u = Inr ())"
proof -
  obtain source raw where n: "normalize_reference pf reference = Inr source"
    and d: "verify_recipe_document pf trusted source raw = Inr v"
    using assms by (rule load_run_recipe_cases)
  from verify_recipe_document_authentic [OF d] normalize_reference_official [OF n] show ?thesis by blast
qed

text \<open>A platform with one signed document, for the samples.\<close>

definition demo_url :: url where
  "demo_url = \<lparr>url_href = ''https://machinen.dev/run/demo'', url_origin = ''https://machinen.dev'',
     url_username = [], url_password = [], url_search = [], url_hash = [], url_pathname = ''/run/demo''\<rparr>"

definition demo_document :: json where
  "demo_document = Obj [(''schemaVersion'', Num 1), (''publisher'', Str ''machinen.dev''), (''name'', Str ''demo''),
     (''summary'', Str ''a demo''), (''install'', Arr [Str ''true'']), (''command'', Arr [Str ''demo'']),
     (''permissions'', Obj [(''network'', Bool True), (''workspace'', Str ''none''), (''state'', Arr [])])]"

definition demo_signature :: string where "demo_signature = b64_encode (replicate 64 0)"

definition demo_envelope :: json where
  "demo_envelope = Obj [(''envelopeVersion'', Num 1), (''algorithm'', Str ''Ed25519''), (''keyId'', Str ''k''),
     (''payload'', Str (b64_encode (bytes_of ''demo''))), (''signature'', Str demo_signature)]"

definition demo_platform :: platform where
  "demo_platform = \<lparr>json_parse = (\<lambda>s. if s = ''demo'' then Some demo_document
       else if s = ''signed demo'' then Some demo_envelope else None),
     verify_sig = (\<lambda>pem bs sig. pem = ''pem'' \<and> bs = bytes_of ''demo''),
     sha256_hex = text_of, decode_utf8 = (\<lambda>bs. Some (text_of bs)),
     parse_url = (\<lambda>s. if s = url_href demo_url then Some demo_url else None), join_url = (\<lambda>s u. None)\<rparr>"

definition demo_network :: network where
  "demo_network = (\<lambda>n u. if u = demo_url
     then Some \<lparr>http_status = 200, http_location = None, content_length = None, http_body = bytes_of ''signed demo''\<rparr> else None)"

definition demo_recipe :: run_recipe where
  "demo_recipe = \<lparr>rc_name = ''demo'', rc_aliases = None, rc_summary = ''a demo'', rc_install = [''true''],
     rc_command = [''demo''], rc_env = None, rc_workspace = No_workspace, rc_state = []\<rparr>"

definition demo_verified :: verified_recipe where
  "demo_verified = \<lparr>vr_source = url_href demo_url, vr_digest = ''demo'', vr_key_id = ''k'', vr_recipe = demo_recipe\<rparr>"

lemma demo_parses: "parse_run_recipe demo_document = Inr demo_recipe"
  by (simp add: demo_document_def demo_recipe_def parse_run_recipe_def expect_object_def expect_allowed_keys_def
      expect_slug_def expect_string_def optional_def parse_install_def parse_install_line_def parse_command_def
      parse_command_arg_def parse_permissions_def expect_exact_keys_def workspace_permission_of_def
      parse_state_permissions_def field_def utf16_length_def utf16_units_def slug_ok_def is_lower_def is_digit_def)

lemma b64_units: "utf16_length (b64_encode bs) \<le> 4 * length bs"
proof -
  have "utf16_units (b64_char n) = 1" for n
    by (auto simp: utf16_units_def b64_char_def Let_def)
  then show ?thesis
    by (induction bs rule: b64_encode.induct) (simp_all add: utf16_length_def utf16_units_def Let_def)
qed

lemma demo_signature_ok:
  "decode_base64 demo_signature = Inr (replicate 64 0)" "demo_signature \<noteq> []" "utf16_length demo_signature \<le> 256"
proof -
  show "decode_base64 demo_signature = Inr (replicate 64 0)"
    unfolding demo_signature_def by (rule decode_encode_base64)
  show "utf16_length demo_signature \<le> 256"
    using b64_units [of "replicate 64 0"] by (simp add: demo_signature_def)
  show "demo_signature \<noteq> []"
    using decode_encode_base64 [of "replicate 64 0"] by (auto simp: demo_signature_def decode_base64_def)
qed

lemma demo_payload_ok: "b64_encode (bytes_of ''demo'') \<noteq> []" "utf16_length (b64_encode (bytes_of ''demo'')) \<le> 131072"
  by (simp_all add: bytes_of_def b64_char_def utf16_length_def utf16_units_def)

lemma demo_verifies:
  "verify_envelope demo_platform [(''k'', ''pem'')] ''signed demo'' =
     Inr \<lparr>vp_payload = demo_document, vp_digest = ''demo'', vp_key_id = ''k''\<rparr>"
  using demo_signature_ok demo_payload_ok
  by (simp add: verify_envelope_def parse_envelope_def demo_platform_def demo_envelope_def expect_object_def
      expect_exact_keys_def field_def expect_string_def MAX_DOCUMENT_BYTES_def utf16_length_def [of "''k''"]
      utf16_units_def decode_encode_base64)

lemma demo_loads:
  "load_run_recipe demo_platform demo_network [(''k'', ''pem'')] ''machinen.dev/run/demo'' [] =
     (Inr demo_verified, [(url_href demo_url, ''signed demo'')])"
proof -
  have n: "normalize_reference demo_platform ''machinen.dev/run/demo'' = Inr (url_href demo_url)"
    by (simp add: normalize_reference_def demo_platform_def demo_url_def trim_def is_space_def starts_with_def
        validate_official_url_def REGISTRY_ORIGIN_def slug_ok_def is_lower_def is_digit_def)
  have attempts: "MAX_REDIRECTS + 1 = Suc MAX_REDIRECTS" by simp
  have f: "fetch_signed_document demo_platform demo_network (url_href demo_url) = Inr ''signed demo''"
    unfolding fetch_signed_document_def attempts
    by (simp add: demo_platform_def demo_network_def
        redirect_target_def is_redirect_def require_successful_def read_bounded_def declared_length_def
        MAX_DOCUMENT_BYTES_def)
  have k: "cache_key demo_platform (url_href demo_url) = url_href demo_url"
    by (simp add: cache_key_def demo_platform_def)
  show ?thesis
    by (simp add: load_run_recipe_def n load_signed_document_def f demo_verifies write_registry_cache_def k
        verify_recipe_document_def demo_parses demo_verified_def)
qed

theorem loaded_recipe_is_signed_witness: "recipe_ok demo_recipe"
  using loaded_recipe_is_signed [OF demo_loads] by (simp add: demo_verified_def)

text \<open>
  C13: only the official origin is contacted. Two networks that answer alike for the official
  recipe URLs give the same result, whatever they answer elsewhere: a redirect to another place
  is refused before a request is made. (The text of a parsed URL parses to that URL.)
\<close>

theorem only_official_urls_are_fetched:
  assumes url_text: "\<And>s u. parse_url pf s = Some u \<Longrightarrow> parse_url pf (url_href u) = Some u"
    and same: "\<And>n u. validate_official_url u = Inr () \<Longrightarrow> fetch n u = fetch' n u"
  shows "load_run_recipe pf fetch trusted reference cache = load_run_recipe pf fetch' trusted reference cache"
proof -
  have from_official: "fetch_from pf fetch n u = fetch_from pf fetch' n u" if "validate_official_url u = Inr ()" for n u
    using that
  proof (induction n arbitrary: u)
    case (Suc n)
    have "redirect_target pf resp u = Inr (Some t) \<Longrightarrow> validate_official_url t = Inr ()" for resp t
      by (auto simp: redirect_target_def result_simps split: option.splits if_splits)
    with Suc show ?case
      by (auto simp: same split: option.split intro!: bind_res_cong)
  qed simp
  have "fetch_signed_document pf fetch source = fetch_signed_document pf fetch' source"
    if "normalize_reference pf reference = Inr source" for source
  proof -
    from that obtain s u where u: "parse_url pf s = Some u" "validate_official_url u = Inr ()" "source = url_href u"
      by (auto simp: normalize_reference_def Let_def result_simps split: if_splits option.splits)
    then show ?thesis
      using url_text [OF u(1)] from_official [OF u(2)] by (simp add: fetch_signed_document_def del: fetch_from.simps)
  qed
  then show ?thesis by (auto simp: load_run_recipe_def load_signed_document_def split: sum.split)
qed

theorem only_official_urls_are_fetched_witness:
  "load_run_recipe demo_platform (\<lambda>n u. if url_origin u = ''https://machinen.dev'' then demo_network n u
       else Some \<lparr>http_status = 500, http_location = None, content_length = None, http_body = []\<rparr>) [(''k'', ''pem'')]
     ''machinen.dev/run/demo'' [] = (Inr demo_verified, [(url_href demo_url, ''signed demo'')])"
proof -
  let ?evil = "\<lambda>n u. if url_origin u = ''https://machinen.dev'' then demo_network n u
     else Some \<lparr>http_status = 500, http_location = None, content_length = None, http_body = []\<rparr>"
  have "load_run_recipe demo_platform ?evil [(''k'', ''pem'')] ''machinen.dev/run/demo'' [] =
      load_run_recipe demo_platform demo_network [(''k'', ''pem'')] ''machinen.dev/run/demo'' []"
    by (rule only_official_urls_are_fetched)
       (auto simp: demo_platform_def validate_official_url_def REGISTRY_ORIGIN_def split: if_splits)
  then show ?thesis by (simp add: demo_loads)
qed

text \<open>
  What was loaded once loads again offline: with the cache it left behind and a network
  that answers nothing, the same recipe is returned and the cache stays.
\<close>

theorem loaded_recipe_is_cached:
  assumes "load_run_recipe pf fetch trusted reference cache = (Inr v, cache')"
  shows "load_run_recipe pf (\<lambda>n u. None) trusted reference cache' = (Inr v, cache')"
proof -
  obtain source raw where n: "normalize_reference pf reference = Inr source"
    and l: "load_signed_document pf fetch trusted source cache = (Inr raw, cache')"
    and d: "verify_recipe_document pf trusted source raw = Inr v"
    using assms by (rule load_run_recipe_cases)
  have "parse_url pf source \<noteq> None"
  proof
    assume "parse_url pf source = None"
    with l show False by (simp add: load_signed_document_def fetch_signed_document_def)
  qed
  then obtain u where u: "parse_url pf source = Some u" by blast
  have off: "fetch_signed_document pf (\<lambda>n u. None) source = Inl (Unavailable ''could not fetch run recipe'')"
    by (simp add: fetch_signed_document_def u)
  have "read_registry_cache pf source cache' = Some raw"
    using l by (auto simp: load_signed_document_def read_registry_cache_def write_registry_cache_def
        AList.update_conv' split: sum.splits recipe_error.splits option.splits)
  moreover obtain vp where "verify_envelope pf trusted raw = Inr vp"
    using d by (auto simp: verify_recipe_document_def result_simps)
  ultimately have "load_signed_document pf (\<lambda>n u. None) trusted source cache' = (Inr raw, cache')"
    by (simp add: load_signed_document_def off)
  then show ?thesis using n d by (simp add: load_run_recipe_def)
qed

theorem loaded_recipe_is_cached_witness:
  "load_run_recipe demo_platform (\<lambda>n u. None) [(''k'', ''pem'')] ''machinen.dev/run/demo''
     [(url_href demo_url, ''signed demo'')] = (Inr demo_verified, [(url_href demo_url, ''signed demo'')])"
  by (rule loaded_recipe_is_cached [OF demo_loads])

text \<open>
  An accepted guest path never goes up, and one in normal form is outside of every
  reserved directory.
\<close>

theorem guest_path_is_safe:
  assumes "expect_guest_path v = Inr p"
  shows "''..'' \<notin> set (split_on slash p) \<and>
    (p = slash # join_on slash (segments p) \<longrightarrow>
      (\<forall>q \<in> set reserved_paths. take (length (segments q)) (segments p) \<noteq> segments q))"
  using assms guest_path_no_up guest_path_not_reserved by (auto simp: result_simps)

theorem guest_path_is_safe_witness:
  "take 1 (segments ''/data/dev'') \<noteq> segments ''/dev''"
proof -
  have "expect_guest_path (Str ''/data/dev'') = Inr ''/data/dev''"
    by (simp add: expect_guest_path_def expect_string_def utf16_length_def utf16_units_def reserved_paths_def
        starts_with_def ends_with_def)
  from guest_path_is_safe [OF this] show ?thesis by (simp add: segments_def reserved_paths_def)
qed

text \<open>
  The check of reserved directories compares texts, so a path that is not in normal form
  slips through: every reserved directory with its slash doubled is accepted, and denotes the
  directory.
\<close>

theorem reserved_path_slips_through:
  "\<forall>q \<in> set reserved_paths. expect_guest_path (Str (slash # q)) = Inr (slash # q) \<and>
     resolve [] (slash # q) = resolve [] q"
  by (simp add: reserved_paths_def expect_guest_path_def expect_string_def utf16_length_def utf16_units_def
      starts_with_def ends_with_def resolve_def segments_def is_absolute_def)

section \<open>Approvals\<close>

text \<open>
  C28: approving a recipe approves exactly its bytes for exactly this access. After
  \<open>approveRunRecipe\<close> the store reads back, and a digest and fingerprint are approved if they
  were before or are the two just approved (given that SHA-256 gives hexadecimal digests and
  does not collide on the two texts that are hashed: digest, NUL, fingerprint).
\<close>

theorem approval_is_exact:
  assumes digests: "\<And>bs. is_hex64 (sha256_hex pf bs)"
    and no_collision: "sha256_hex pf (bytes_of (d' @ CHR 0x00 # f')) = sha256_hex pf (bytes_of (vr_digest r @ CHR 0x00 # f)) \<Longrightarrow>
      bytes_of (d' @ CHR 0x00 # f') = bytes_of (vr_digest r @ CHR 0x00 # f)"
    and "is_hex64 (vr_digest r)" "is_hex64 f" "is_hex64 d'"
    and approved: "approve_recipe pf r f now before = Inr after"
  shows "has_approval pf d' f' after =
    bind_res (has_approval pf d' f' before) (\<lambda>old. Inr (old \<or> d' = vr_digest r \<and> f' = f))"
proof -
  let ?id = "approval_id pf (vr_digest r) f"
  obtain as where as: "read_approval_store before = Inr as"
    and after: "after = Some (Some (store_document (AList.update ?id (approval_of r f now) as)))"
    using approved by (auto simp: approve_recipe_def result_simps)
  have "approvals_ok (AList.update ?id (approval_of r f now) as)"
    using read_approvals_ok [OF as] digests approval_of_ok [OF assms(3,4)]
    by (intro approvals_ok_update) (simp_all add: approval_id_def)
  then have read: "read_approval_store after = Inr (AList.update ?id (approval_of r f now) as)"
    unfolding after by (rule read_store_document)
  have "approval_id pf d' f' = ?id \<longleftrightarrow> d' = vr_digest r \<and> f' = f"
    using id_text_inj [OF assms(5,3)] no_collision by (auto simp: approval_id_def)
  then show ?thesis by (auto simp: has_approval_def as read AList.update_conv')
qed

definition flat_hash :: "bytes \<Rightarrow> string" where
  "flat_hash bs = replicate 64 (if last bs = 49 then CHR ''1'' else CHR ''0'')"

definition zeros :: string where "zeros = replicate 64 CHR ''0''"
definition ones :: string where "ones = replicate 64 CHR ''1''"

lemma hex_samples: "is_hex64 zeros" "is_hex64 ones" "is_hex64 (flat_hash bs)"
  by (simp_all add: is_hex64_def zeros_def ones_def flat_hash_def is_digit_def list_all_iff)

lemma last_bytes: "last (bytes_of (zeros @ CHR 0x00 # ones)) = 49" "last (bytes_of (zeros @ CHR 0x00 # zeros)) = 48"
  by (simp_all add: bytes_of_def zeros_def ones_def last_map)

definition approval_platform :: platform where
  "approval_platform = demo_platform\<lparr>sha256_hex := flat_hash\<rparr>"

theorem approval_is_exact_witness:
  "\<exists>after. approve_recipe approval_platform (demo_verified\<lparr>vr_digest := zeros\<rparr>) zeros ''now'' None = Inr after \<and>
     has_approval approval_platform zeros zeros after = Inr True \<and>
     has_approval approval_platform zeros ones after = Inr False"
proof -
  let ?r = "demo_verified\<lparr>vr_digest := zeros\<rparr>"
  obtain after where after: "approve_recipe approval_platform ?r zeros ''now'' None = Inr after"
    by (simp add: approve_recipe_def read_approval_store_def)
  have ids: "flat_hash (bytes_of (zeros @ CHR 0x00 # ones)) \<noteq> flat_hash (bytes_of (zeros @ CHR 0x00 # zeros))"
    by (simp add: flat_hash_def last_bytes del: bytes_of_append)
  have different: "ones \<noteq> zeros" by (simp add: ones_def zeros_def)
  have "has_approval approval_platform zeros zeros after = Inr True"
    using approval_is_exact [of approval_platform zeros zeros ?r zeros "''now''" None after] after
    by (simp add: hex_samples approval_platform_def has_approval_def read_approval_store_def)
  moreover have "has_approval approval_platform zeros ones after = Inr False"
    using approval_is_exact [of approval_platform zeros ones ?r zeros "''now''" None after] after ids
    by (simp add: hex_samples different approval_platform_def has_approval_def read_approval_store_def)
  ultimately show ?thesis using after by blast
qed

end
