(* ===== verification/Mount_Resolver.thy ===== *)
theory Mount_Resolver
  imports Posix_Path
begin

text \<open>
  Containment of guest paths below a mount root, \<^verbatim>\<open>packages/runtime/src/mount-resolver.ts\<close>.
  The parameter \<open>realpath\<close> is the host's \<open>realpath\<close>: it follows every symbolic link of the path
  it is given and returns a path without any, or fails.
\<close>

datatype errno = Enoent | Other_errno string

datatype mount_error = MOUNT_PATH_INVALID | MOUNT_PATH_ESCAPE | Os_error errno

type_synonym realpath = "string \<Rightarrow> errno + path"

definition real :: "realpath \<Rightarrow> string \<Rightarrow> mount_error + path" where
  "real realpath s = (case realpath s of Inl e \<Rightarrow> Inl (Os_error e) | Inr p \<Rightarrow> Inr p)"

definition assert_contained :: "path \<Rightarrow> path \<Rightarrow> mount_error + unit" where
  "assert_contained target root =
     (if path_text target = path_text root then Inr ()
      else if starts_with (path_text target) (path_text root @ ''/'') then Inr ()
      else Inl MOUNT_PATH_ESCAPE)"

text \<open>\<open>resolve(rootReal, guestRelative.replace(/^\/+/, ""))\<close>\<close>

definition joined_path :: "path \<Rightarrow> string \<Rightarrow> path" where
  "joined_path root guest = resolve root (dropWhile (\<lambda>c. c = slash) guest)"

definition resolve_under_root :: "realpath \<Rightarrow> string \<Rightarrow> string \<Rightarrow> bool \<Rightarrow> mount_error + path" where
  "resolve_under_root realpath root_abs guest must_exist =
     (if \<not> is_absolute root_abs then Inl MOUNT_PATH_INVALID
      else if CHR 0x00 \<in> set guest then Inl MOUNT_PATH_INVALID
      else
        bind_res (real realpath root_abs) (\<lambda>root.
        let joined = joined_path root guest in
        case bind_res (real realpath (path_text joined)) (\<lambda>t. bind_res (assert_contained t root) (\<lambda>_. Inr t)) of
          Inr t \<Rightarrow> Inr t
        | Inl e \<Rightarrow>
            if e \<noteq> Os_error Enoent \<or> must_exist then Inl e
            else
              bind_res (real realpath (path_text (butlast joined))) (\<lambda>parent.
              bind_res (assert_contained parent root) (\<lambda>_.
              Inr (if joined = [] then parent else parent @ [last joined])))))"

section \<open>Containment of texts is containment of paths\<close>

lemma text_prefix:
  assumes "canonical a" "canonical b"
  shows "starts_with (path_text b) (path_text a @ ''/'') \<longleftrightarrow> a \<noteq> [] \<and> (\<exists>c. c \<noteq> [] \<and> b = a @ c)"
proof
  assume "starts_with (path_text b) (path_text a @ ''/'')"
  then obtain r where r: "path_text b = path_text a @ slash # r" by (auto simp: starts_with_iff)
  then have "b = a @ segments r"
    using segments_concat [of "path_text a" r] segments_path_text assms by metis
  moreover have "a \<noteq> []"
  proof
    assume "a = []"
    with r have b: "join_on slash b = slash # r" by (simp add: path_text_def)
    show False
    proof (cases b)
      case (Cons p ps)
      with assms(2) have "p \<noteq> []" "slash \<notin> set p" by (simp_all add: canonical_def segment_ok_def)
      with b Cons show False by (cases ps; cases p) auto
    qed (use b in simp)
  qed
  moreover have "segments r \<noteq> []"
  proof
    assume "segments r = []"
    with \<open>b = a @ segments r\<close> r show False by simp
  qed
  ultimately show "a \<noteq> [] \<and> (\<exists>c. c \<noteq> [] \<and> b = a @ c)" by blast
next
  assume "a \<noteq> [] \<and> (\<exists>c. c \<noteq> [] \<and> b = a @ c)"
  then obtain c where "a \<noteq> []" "c \<noteq> []" "b = a @ c" by blast
  then have "path_text b = (path_text a @ ''/'') @ join_on slash c" by (simp add: path_text_def join_on_append)
  then show "starts_with (path_text b) (path_text a @ ''/'')" by (metis starts_with_append)
qed

text \<open>The check passes below a root other than the root of the host, and at the root itself.\<close>

lemma assert_contained_eq:
  assumes "canonical target" "canonical root"
  shows "assert_contained target root = Inr () \<longleftrightarrow>
    target = root \<or> root \<noteq> [] \<and> take (length root) target = root"
proof -
  have "(\<exists>c. c \<noteq> [] \<and> target = root @ c) \<or> target = root \<longleftrightarrow> take (length root) target = root"
    by (metis append_Nil2 append_eq_conv_conj append_take_drop_id)
  then show ?thesis
    using text_prefix [OF assms(2,1)] path_text_inj [OF assms] by (auto simp: assert_contained_def)
qed

lemma assert_contained_cases: "assert_contained t r = Inr () \<or> assert_contained t r = Inl MOUNT_PATH_ESCAPE"
  by (simp add: assert_contained_def)

lemma joined_canonical: "canonical root \<Longrightarrow> canonical (joined_path root guest)"
  by (simp add: joined_path_def resolve_canonical)

section \<open>What is promised\<close>

text \<open>
  C14: a path that is returned lies below the resolved mount root (or is the root), every
  symbolic link on the way followed, whatever the guest asked for; it is normalised, so its
  last component is a proper name also when it does not exist yet.
\<close>

theorem resolved_path_is_contained:
  assumes canonical: "\<And>s p. realpath s = Inr p \<Longrightarrow> canonical p"
    and "resolve_under_root realpath root_abs guest must_exist = Inr p"
  shows "\<exists>root. realpath root_abs = Inr root \<and> take (length root) p = root \<and> canonical p"
proof -
  obtain root where root: "realpath root_abs = Inr root"
    using assms(2) by (auto simp: resolve_under_root_def real_def result_simps split: if_splits sum.splits)
  have c: "canonical root" by (rule canonical [OF root])
  let ?joined = "joined_path root guest"
  consider (found) "realpath (path_text ?joined) = Inr p" "assert_contained p root = Inr ()"
    | (parent) parent where "realpath (path_text (butlast ?joined)) = Inr parent"
        "assert_contained parent root = Inr ()" "p = (if ?joined = [] then parent else parent @ [last ?joined])"
    using assms(2) root
    by (auto simp: resolve_under_root_def real_def Let_def result_simps split: if_splits sum.splits)
  then show ?thesis
  proof cases
    case found
    with canonical [OF found(1)] c root show ?thesis by (auto simp: assert_contained_eq)
  next
    case parent
    have "segment_ok (last ?joined)" if "?joined \<noteq> []"
      using joined_canonical [OF c, of guest] last_in_set [OF that] by (simp add: canonical_def list_all_iff)
    then have "canonical p" using canonical [OF parent(1)] parent(3) by (auto simp: canonical_def)
    moreover have "take (length root) parent = root"
      using parent(2) canonical [OF parent(1)] c by (auto simp: assert_contained_eq)
    then have "take (length root) p = root"
      using parent(3) by (auto dest: arg_cong [of _ _ length])
    ultimately show ?thesis using root by blast
  qed
qed

text \<open>A host with a share that holds a link to another directory.\<close>

definition demo_host :: realpath where
  "demo_host s =
     (if s = ''/share'' then Inr [''share'']
      else if s = ''/share/docs'' then Inr [''share'', ''docs'']
      else if s = ''/share/out'' then Inr [''etc'']
      else if s = ''/'' then Inr []
      else Inl Enoent)"

lemma demo_host_canonical: "demo_host s = Inr p \<Longrightarrow> canonical p"
  by (auto simp: demo_host_def canonical_def segment_ok_def split: if_splits)

lemmas resolve_eval = resolve_under_root_def real_def demo_host_def is_absolute_def starts_with_def
  joined_path_def resolve_def segments_def path_text_def assert_contained_def

lemma demo_new_file: "resolve_under_root demo_host ''/share'' ''/docs/new'' False = Inr [''share'', ''docs'', ''new'']"
  by (simp add: resolve_eval)

theorem resolved_path_is_contained_witness: "take 1 [''share'', ''docs'', ''new''] = [''share'']"
  using resolved_path_is_contained [OF demo_host_canonical demo_new_file] by (auto simp: demo_host_def)

text \<open>
  Below a mount root other than the root of the host, resolving an existing path gives its
  real path when that lies below the root, and \<open>MOUNT_PATH_ESCAPE\<close> when a link leads out.
\<close>

theorem existing_path_is_resolved:
  assumes canonical: "\<And>s p. realpath s = Inr p \<Longrightarrow> canonical p"
    and "is_absolute root_abs" "CHR 0x00 \<notin> set guest"
    and "realpath root_abs = Inr root" "root \<noteq> []"
    and "realpath (path_text (joined_path root guest)) = Inr target"
  shows "resolve_under_root realpath root_abs guest must_exist =
    (if take (length root) target = root then Inr target else Inl MOUNT_PATH_ESCAPE)"
proof -
  have "assert_contained target root = (if take (length root) target = root then Inr () else Inl MOUNT_PATH_ESCAPE)"
    using assert_contained_eq [OF canonical [OF assms(6)] canonical [OF assms(4)]] assms(5)
      assert_contained_cases [of target root] by auto
  then show ?thesis using assms by (simp add: resolve_under_root_def real_def Let_def)
qed

theorem existing_path_is_resolved_witness:
  "resolve_under_root demo_host ''/share'' ''docs'' True = Inr [''share'', ''docs''] \<and>
   resolve_under_root demo_host ''/share'' ''out'' True = Inl MOUNT_PATH_ESCAPE"
proof
  have j: "path_text (joined_path [''share''] ''docs'') = ''/share/docs''"
    "path_text (joined_path [''share''] ''out'') = ''/share/out''"
    by (simp_all add: joined_path_def resolve_def is_absolute_def starts_with_def segments_def path_text_def)
  note ok = existing_path_is_resolved [where realpath = demo_host and root_abs = "''/share''" and root = "[''share'']",
    OF demo_host_canonical]
  show "resolve_under_root demo_host ''/share'' ''docs'' True = Inr [''share'', ''docs'']"
    using ok [where guest = "''docs''" and target = "[''share'', ''docs'']" and must_exist = True] j
    by (simp add: is_absolute_def starts_with_def demo_host_def)
  show "resolve_under_root demo_host ''/share'' ''out'' True = Inl MOUNT_PATH_ESCAPE"
    using ok [where guest = "''out''" and target = "[''etc'']" and must_exist = True] j
    by (simp add: is_absolute_def starts_with_def demo_host_def)
qed

text \<open>
  A mount of the host's root directory is unusable: the check asks for the prefix \<^verbatim>\<open>//\<close>, so
  every existing path other than the root itself is refused as an escape.
\<close>

theorem root_mount_refuses_everything:
  assumes canonical: "\<And>s p. realpath s = Inr p \<Longrightarrow> canonical p"
    and "is_absolute root_abs" "CHR 0x00 \<notin> set guest" "realpath root_abs = Inr []"
    and "realpath (path_text (joined_path [] guest)) = Inr target" "target \<noteq> []"
  shows "resolve_under_root realpath root_abs guest must_exist = Inl MOUNT_PATH_ESCAPE"
proof -
  have "canonical []" by (simp add: canonical_def)
  then have "assert_contained target [] = Inl MOUNT_PATH_ESCAPE"
    using assert_contained_eq [OF canonical [OF assms(5)]] assms(6) assert_contained_cases [of target "[]"] by auto
  then show ?thesis using assms by (simp add: resolve_under_root_def real_def Let_def)
qed

theorem root_mount_refuses_everything_witness:
  "resolve_under_root demo_host ''/'' ''/share/docs'' True = Inl MOUNT_PATH_ESCAPE"
proof -
  have "path_text (joined_path [] ''/share/docs'') = ''/share/docs''"
    by (simp add: joined_path_def resolve_def is_absolute_def starts_with_def segments_def path_text_def)
  then show ?thesis
    by (intro root_mount_refuses_everything [where realpath = demo_host and target = "[''share'', ''docs'']",
        OF demo_host_canonical])
       (simp_all add: is_absolute_def starts_with_def demo_host_def)
qed

end
