(* ===== verification/Quiet.thy ===== *)
theory Quiet
  imports Json "HOL-Library.Sublist"
begin

text \<open>
  The quiet mode of the CLI, \<^verbatim>\<open>packages/cli/src/quiet.ts\<close>: when it is on, the ring buffer of
  recent output, the filter that hides the boot noise of the guest console until the workload
  speaks, and the diagnostics printed after a failure. \<open>formatElapsed\<close> is not modelled (it
  rounds a double). Texts are what \<open>chunk.toString("utf8")\<close> returned; patterns are matched on
  their bytes.
\<close>

section \<open>The mode\<close>

text \<open>\<open>s.split(/[\s,]+/)\<close>\<close>

definition is_separator :: "char \<Rightarrow> bool" where
  "is_separator c \<longleftrightarrow> is_space c \<or> c = CHR '',''"

fun split_runs :: "bool \<Rightarrow> string \<Rightarrow> string list" where
  "split_runs in_run [] = [[]]"
| "split_runs in_run (x # xs) =
     (if is_separator x then (if in_run then split_runs True xs else [] # split_runs True xs)
      else cons_head x (split_runs False xs))"

text \<open>Whether an entry of \<^verbatim>\<open>DEBUG\<close> turns a machinen namespace on.\<close>

definition opts_in :: "string \<Rightarrow> bool" where
  "opts_in raw =
     (let entry = trim raw in
      entry \<noteq> [] \<and> \<not> starts_with entry ''-'' \<and>
      (entry = ''*'' \<or> entry = ''machinen'' \<or> starts_with entry ''machinen:''))"

definition is_quiet :: "string option \<Rightarrow> bool" where
  "is_quiet debug =
     (case debug of
        None \<Rightarrow> True
      | Some env \<Rightarrow> env = [] \<or> \<not> list_ex opts_in (split_runs False env))"

section \<open>The ring buffer\<close>

record ring =
  ring_chunks :: "string list"
  ring_size :: nat
  ring_cap :: nat

definition BUFFER_BYTES :: nat where "BUFFER_BYTES = 64 * 1024"

definition new_ring :: "nat \<Rightarrow> ring" where
  "new_ring cap = \<lparr>ring_chunks = [], ring_size = 0, ring_cap = cap\<rparr>"

text \<open>\<open>while (this.size > this.cap && this.chunks.length > 1)\<close>\<close>

fun shrink :: "nat \<Rightarrow> nat \<Rightarrow> string list \<Rightarrow> nat \<times> string list" where
  "shrink cap sz (c # d # cs) =
     (if cap < sz then shrink cap (sz - length c) (d # cs) else (sz, c # d # cs))"
| "shrink cap sz cs = (sz, cs)"

definition ring_push :: "string \<Rightarrow> ring \<Rightarrow> ring" where
  "ring_push chunk r =
     (if chunk = [] then r
      else (case shrink (ring_cap r) (ring_size r + length chunk) (ring_chunks r @ [chunk]) of
              (sz, cs) \<Rightarrow> r\<lparr>ring_chunks := cs, ring_size := sz\<rparr>))"

definition ring_is_empty :: "ring \<Rightarrow> bool" where "ring_is_empty r \<longleftrightarrow> ring_size r = 0"

text \<open>\<open>Buffer.concat(this.chunks, this.size)\<close> cuts or pads to the size it is given.\<close>

definition ring_text :: "ring \<Rightarrow> string" where
  "ring_text r =
     (let all = concat (ring_chunks r) in take (ring_size r) all @ replicate (ring_size r - length all) CHR 0x00)"

section \<open>Classification of lines\<close>

abbreviation esc_char :: char where "esc_char \<equiv> CHR 0x1B"

definition in_codes :: "nat \<Rightarrow> nat \<Rightarrow> char \<Rightarrow> bool" where
  "in_codes a b c \<longleftrightarrow> a \<le> (of_char c :: nat) \<and> (of_char c :: nat) \<le> b"

text \<open>The length of a match of \<open>/\x1b\[[0-?]*[ -\/]*[@-~]/\<close> at the start. The three classes are
  disjoint, so the greedy match is the only one.\<close>

definition csi_match :: "string \<Rightarrow> nat option" where
  "csi_match s =
     (if take 2 s = [esc_char, CHR ''['']
      then let p = takeWhile (in_codes 48 63) (drop 2 s);
               i = takeWhile (in_codes 32 47) (drop (2 + length p) s);
               n = 2 + length p + length i
           in (case drop n s of f # _ \<Rightarrow> if in_codes 64 126 f then Some (Suc n) else None | [] \<Rightarrow> None)
      else None)"

lemma csi_match_pos: "csi_match s = Some n \<Longrightarrow> 0 < n"
  by (auto simp: csi_match_def Let_def split: if_splits list.splits)

function strip_csi :: "string \<Rightarrow> string" where
  "strip_csi s =
     (case s of
        [] \<Rightarrow> []
      | x # xs \<Rightarrow> (case csi_match s of Some n \<Rightarrow> strip_csi (drop n s) | None \<Rightarrow> x # strip_csi xs))"
  by pat_completeness auto

termination by (relation "measure length") (auto dest: csi_match_pos)

declare strip_csi.simps [simp del]

definition strip_ansi_control :: "string \<Rightarrow> string" where
  "strip_ansi_control s = filter (\<lambda>c. c \<noteq> cr_char) (strip_csi s)"

text \<open>\<open>/^\[\s*\d+\.\d+\]/\<close>\<close>

definition is_printk :: "string \<Rightarrow> bool" where
  "is_printk s =
     (case s of
        [] \<Rightarrow> False
      | c # s1 \<Rightarrow>
          c = CHR ''['' \<and>
          (let s2 = dropWhile is_space s1; s3 = dropWhile is_digit s2 in
           s3 \<noteq> s2 \<and> take 1 s3 = ''.'' \<and>
           (let s4 = drop 1 s3; s5 = dropWhile is_digit s4 in s5 \<noteq> s4 \<and> take 1 s5 = '']'')))"

text \<open>\<open>/^(?:hvf|kvm)(?: [^:]+)?:/\<close>\<close>

definition is_hypervisor_line :: "string \<Rightarrow> bool" where
  "is_hypervisor_line s \<longleftrightarrow>
     (take 3 s = ''hvf'' \<or> take 3 s = ''kvm'') \<and>
     (let t = drop 3 s in
      take 1 t = '':'' \<or>
      take 1 t = '' '' \<and> takeWhile (\<lambda>c. c \<noteq> CHR '':'') (drop 1 t) \<noteq> [] \<and> CHR '':'' \<in> set (drop 1 t))"

definition noise_prefixes :: "string list" where
  "noise_prefixes =
     [''=== machinen /init:'', ''init:'', ''checkpoint:'', ''mountdisk:'', ''machinen-restore:'',
      ''machinen-supervisor:'', ''supervisor:'', ''machinen-dump:'', ''machinen-netup:'', ''topology:'', ''vsock:'']"

definition is_boot_noise_line :: "string \<Rightarrow> bool" where
  "is_boot_noise_line line =
     (let visible = trim_start (strip_ansi_control line) in
      \<not> str_includes visible ''reboot: Power down'' \<and>
      (is_printk visible \<or> list_ex (starts_with visible) noise_prefixes \<or> is_hypervisor_line visible))"

text \<open>\<open>/^[^\s@]+@[^\s:]+:[^\n\r]*[#$] ?$/\<close> on the visible text\<close>

definition prompt_end :: "string \<Rightarrow> bool" where
  "prompt_end s \<longleftrightarrow> nl_char \<notin> set s \<and> cr_char \<notin> set s \<and>
     (ends_with s ''#'' \<or> ends_with s ''$'' \<or> ends_with s ''# '' \<or> ends_with s ''$ '')"

definition is_likely_interactive_prompt :: "string \<Rightarrow> bool" where
  "is_likely_interactive_prompt text =
     (let s = strip_ansi_control text;
          user = takeWhile (\<lambda>c. \<not> is_space c \<and> c \<noteq> CHR ''@'') s;
          s1 = drop (length user) s;
          host = takeWhile (\<lambda>c. \<not> is_space c \<and> c \<noteq> CHR '':'') (drop 1 s1);
          s2 = drop (length host) (drop 1 s1)
      in user \<noteq> [] \<and> take 1 s1 = ''@'' \<and> host \<noteq> [] \<and> take 1 s2 = '':'' \<and> prompt_end (drop 1 s2))"

section \<open>The noise filter\<close>

text \<open>\<open>nf_out\<close> holds the writes to the output stream, \<open>ready_calls\<close> counts the calls of
  \<open>onReady\<close> (what it throws is caught).\<close>

record noise_filter =
  residual :: string
  ready_fired :: bool
  nf_buffer :: ring
  nf_out :: "string list"
  ready_calls :: nat

definition new_filter :: "ring \<Rightarrow> noise_filter" where
  "new_filter r = \<lparr>residual = [], ready_fired = False, nf_buffer = r, nf_out = [], ready_calls = 0\<rparr>"

definition buffer_push :: "string \<Rightarrow> noise_filter \<Rightarrow> noise_filter" where
  "buffer_push text f = f\<lparr>nf_buffer := ring_push text (nf_buffer f)\<rparr>"

definition pass_through :: "string \<Rightarrow> noise_filter \<Rightarrow> noise_filter" where
  "pass_through text f = buffer_push text (f\<lparr>nf_out := nf_out f @ [text]\<rparr>)"

text \<open>What stays hidden before the filter is ready: noise, and lines that show nothing.\<close>

definition is_hidden :: "string \<Rightarrow> bool" where
  "is_hidden line \<longleftrightarrow> is_boot_noise_line line \<or> trim (strip_ansi_control line) = []"

definition route_line :: "string \<Rightarrow> string \<Rightarrow> noise_filter \<Rightarrow> noise_filter" where
  "route_line line terminator f =
     (if line = [] \<and> terminator = [] then f
      else if \<not> ready_fired f \<and> is_boot_noise_line line then buffer_push (line @ terminator) f
      else if \<not> ready_fired f \<and> trim (strip_ansi_control line) = [] then buffer_push (line @ terminator) f
      else pass_through (line @ terminator)
        (if ready_fired f then f else f\<lparr>ready_fired := True, ready_calls := ready_calls f + 1\<rparr>))"

definition split_lines :: "string \<Rightarrow> string list" where
  "split_lines text =
     (let parts = split_on nl_char text in if last parts = [] then butlast parts else parts)"

text \<open>The complete lines of a text and the rest behind its last line feed.\<close>

definition after_last_newline :: "string \<Rightarrow> string" where
  "after_last_newline s = rev (takeWhile (\<lambda>c. c \<noteq> nl_char) (rev s))"

definition up_to_last_newline :: "string \<Rightarrow> string" where
  "up_to_last_newline s = rev (dropWhile (\<lambda>c. c \<noteq> nl_char) (rev s))"

definition filter_push :: "string \<Rightarrow> noise_filter \<Rightarrow> noise_filter" where
  "filter_push text f =
     (if ready_fired f then pass_through text f
      else
        let combined = residual f @ text in
        if nl_char \<notin> set combined then
          if is_likely_interactive_prompt combined then route_line combined [] (f\<lparr>residual := []\<rparr>)
          else f\<lparr>residual := combined\<rparr>
        else
          let f1 = fold (\<lambda>line. route_line line [nl_char]) (split_lines (up_to_last_newline combined))
                (f\<lparr>residual := after_last_newline combined\<rparr>) in
          if ready_fired f1 \<and> residual f1 \<noteq> [] then pass_through (residual f1) (f1\<lparr>residual := []\<rparr>)
          else f1)"

definition filter_flush :: "noise_filter \<Rightarrow> noise_filter" where
  "filter_flush f = (if residual f = [] then f else route_line (residual f) [] (f\<lparr>residual := []\<rparr>))"

section \<open>Diagnostics\<close>

definition has_content :: "string \<Rightarrow> bool" where "has_content s \<longleftrightarrow> trim s \<noteq> []"

definition trailing_newline :: "string \<Rightarrow> string" where
  "trailing_newline s = (if ends_with s [nl_char] then [] else [nl_char])"

definition diagnostics_tail :: "bool \<Rightarrow> string \<times> string \<Rightarrow> string" where
  "diagnostics_tail after_buffer lc =
     (case lc of (label, content) \<Rightarrow>
        if \<not> has_content content then []
        else (if after_buffer then [nl_char] else []) @ ''['' @ label @ '']'' @ [nl_char] @ content @ trailing_newline content)"

definition diagnostics_envelope :: "string \<Rightarrow> (string \<times> string) list \<Rightarrow> string" where
  "diagnostics_envelope buffer tails =
     (if \<not> has_content buffer \<and> \<not> list_ex (\<lambda>t. has_content (snd t)) tails then []
      else [nl_char] @ ''--- diagnostics ---'' @ [nl_char] @
        (if has_content buffer then buffer @ trailing_newline buffer else []) @
        concat (map (diagnostics_tail (has_content buffer)) tails) @
        ''--------------------'' @ [nl_char, nl_char])"

definition ESCAPE_HINT :: string where
  "ESCAPE_HINT = ''run with DEBUG=machinen:* for live output'' @ [nl_char]"

text \<open>What \<open>printDiagnostics\<close> writes to standard error.\<close>

definition print_diagnostics :: "string option \<Rightarrow> string \<Rightarrow> string \<Rightarrow> (string \<times> string) list \<Rightarrow> string option \<Rightarrow> string" where
  "print_diagnostics debug summary buffer tails hint =
     summary @ [nl_char] @
     (if \<not> is_quiet debug then []
      else diagnostics_envelope buffer tails @ (case hint of None \<Rightarrow> ESCAPE_HINT | Some h \<Rightarrow> h))"

definition print_headline :: "string option \<Rightarrow> string \<Rightarrow> string" where
  "print_headline debug line = (if is_quiet debug then line @ [nl_char] else [])"

section \<open>A log that keeps a tail\<close>

text \<open>What the filter relies on: a log that forgets from the front only.\<close>

locale tail_log =
  fixes log_push :: "'c list \<Rightarrow> 'r \<Rightarrow> 'r"
    and log_text :: "'r \<Rightarrow> 'c list"
    and log_inv :: "'r \<Rightarrow> bool"
  assumes inv_push: "log_inv r \<Longrightarrow> log_inv (log_push s r)"
    and push_suffix: "log_inv r \<Longrightarrow> suffix (log_text (log_push s r)) (log_text r @ s)"
begin

lemma inv_fold: "log_inv r \<Longrightarrow> log_inv (fold log_push ss r)"
  by (induction ss arbitrary: r) (simp_all add: inv_push)

lemma suffix_append_right: "suffix xs ys \<Longrightarrow> suffix (xs @ zs) (ys @ zs)"
  by (auto simp: suffix_def)

lemma fold_suffix: "log_inv r \<Longrightarrow> suffix (log_text (fold log_push ss r)) (log_text r @ concat ss)"
proof (induction ss arbitrary: r)
  case (Cons s ss)
  have "suffix (log_text (fold log_push ss (log_push s r))) (log_text (log_push s r) @ concat ss)"
    by (rule Cons.IH [OF inv_push [OF Cons.prems]])
  also have "suffix (log_text (log_push s r) @ concat ss) ((log_text r @ s) @ concat ss)"
    by (rule suffix_append_right [OF push_suffix [OF Cons.prems]])
  finally show ?case by simp
qed simp

end

section \<open>The ring keeps the tail\<close>

definition total_length :: "string list \<Rightarrow> nat" where
  "total_length cs = sum_list (map length cs)"

lemma total_length_simps [simp]: "total_length [] = 0" "total_length (c # cs) = length c + total_length cs" "total_length (cs @ ds) = total_length cs + total_length ds"
  by (simp_all add: total_length_def)

lemma length_concat_total: "length (concat cs) = total_length cs"
  by (induction cs) simp_all

lemma total_drop: "total_length (drop j cs) \<le> total_length cs"
  by (metis append_take_drop_id le_add2 total_length_simps(3))

lemma shrink_result:
  "shrink cap (total_length cs) cs = (sz', cs') \<Longrightarrow>
   \<exists>k. cs' = drop k cs \<and> sz' = total_length cs' \<and> (sz' \<le> cap \<or> length cs' \<le> 1) \<and> (cs \<noteq> [] \<longrightarrow> cs' \<noteq> []) \<and>
     (\<forall>j < k. cap < total_length (drop j cs))"
proof (induction cap "total_length cs" cs arbitrary: sz' cs' rule: shrink.induct)
  case (1 cap c d cs)
  show ?case
  proof (cases "cap < total_length (c # d # cs)")
    case True
    have "shrink cap (total_length (d # cs)) (d # cs) = (sz', cs')" using 1(2) True by simp
    with 1(1) [of sz' cs'] True obtain k where k: "cs' = drop k (d # cs)" "sz' = total_length cs'" "sz' \<le> cap \<or> length cs' \<le> 1"
      "cs' \<noteq> []" "\<forall>j < k. cap < total_length (drop j (d # cs))" by auto
    moreover have "\<forall>j < Suc k. cap < total_length (drop j (c # d # cs))"
      using k(5) True by (auto simp: less_Suc_eq_0_disj)
    ultimately show ?thesis by (intro exI [of _ "Suc k"]) auto
  next
    case False
    with 1(2) show ?thesis by (intro exI [of _ 0]) auto
  qed
qed (auto intro!: exI [of _ 0])

definition ring_inv :: "ring \<Rightarrow> bool" where
  "ring_inv r \<longleftrightarrow> ring_size r = total_length (ring_chunks r)"

text \<open>The state of a ring of this capacity after these pieces.\<close>

definition ring_after :: "string list \<Rightarrow> ring \<Rightarrow> bool" where
  "ring_after ps r \<longleftrightarrow>
     ring_inv r \<and> (ring_size r \<le> ring_cap r \<or> length (ring_chunks r) = 1) \<and>
     (\<exists>k \<le> length ps. ring_chunks r = drop k ps \<and> (\<forall>j < k. ring_cap r < total_length (drop j ps)))"

lemma ring_after_new: "ring_after [] (new_ring cap)"
  by (simp add: ring_after_def ring_inv_def new_ring_def)

lemma ring_push_cap [simp]: "ring_cap (ring_push c r) = ring_cap r"
  by (simp add: ring_push_def split: prod.split)

lemma ring_after_push:
  assumes "ring_after ps r" "c \<noteq> []"
  shows "ring_after (ps @ [c]) (ring_push c r)"
proof -
  from assms(1) obtain k where k: "k \<le> length ps" "ring_chunks r = drop k ps" "\<forall>j < k. ring_cap r < total_length (drop j ps)"
    and inv: "ring_size r = total_length (ring_chunks r)" by (auto simp: ring_after_def ring_inv_def)
  obtain sz' cs' where sh: "shrink (ring_cap r) (total_length (ring_chunks r @ [c])) (ring_chunks r @ [c]) = (sz', cs')" by fastforce
  have snoc_not_Nil: "ring_chunks r @ [c] \<noteq> []" by simp
  from shrink_result [OF sh] obtain k' where k': "cs' = drop k' (ring_chunks r @ [c])" "sz' = total_length cs'"
    "sz' \<le> ring_cap r \<or> length cs' \<le> 1" "cs' \<noteq> []" "\<forall>j < k'. ring_cap r < total_length (drop j (ring_chunks r @ [c]))"
    using snoc_not_Nil by blast
  have push: "ring_push c r = r\<lparr>ring_chunks := cs', ring_size := sz'\<rparr>"
    using sh assms(2) inv by (simp add: ring_push_def)
  have whole: "ring_chunks r @ [c] = drop k (ps @ [c])" using k(1,2) by simp
  have "cs' = drop (k + k') (ps @ [c])" using k'(1) whole by (simp add: add.commute del: drop_append)
  moreover have "k + k' \<le> length (ps @ [c])"
    using k'(4) calculation by (metis drop_all nat_le_linear)
  moreover have "ring_cap r < total_length (drop j (ps @ [c]))" if "j < k + k'" for j
  proof (cases "j < k")
    case True
    with k(1,3) show ?thesis by (auto intro: trans_less_add1)
  next
    case False
    with that k'(5) [rule_format, of "j - k"] whole show ?thesis by (simp add: add.commute del: drop_append)
  qed
  moreover have "length cs' = 1" if "\<not> sz' \<le> ring_cap r"
    using that k'(3,4) by (cases cs') auto
  ultimately show ?thesis using k'(2) push by (auto simp: ring_after_def ring_inv_def)
qed

lemma ring_after_fold:
  "ring_after ps r \<Longrightarrow> ring_after (ps @ filter (\<lambda>c. c \<noteq> []) cs) (fold ring_push cs r)"
proof (induction cs arbitrary: ps r)
  case (Cons c cs)
  show ?case
  proof (cases "c = []")
    case True
    then have "ring_push c r = r" by (simp add: ring_push_def)
    with True Cons show ?thesis by simp
  next
    case False
    from Cons.IH [OF ring_after_push [OF Cons.prems False]] False show ?thesis by simp
  qed
qed simp

lemma ring_text_inv: "ring_inv r \<Longrightarrow> ring_text r = concat (ring_chunks r)"
  by (simp add: ring_text_def ring_inv_def length_concat_total)

interpretation ring: tail_log ring_push ring_text ring_inv
proof
  fix r :: ring and s :: string
  assume inv: "ring_inv r"
  show "ring_inv (ring_push s r)" and "suffix (ring_text (ring_push s r)) (ring_text r @ s)"
  proof -
    obtain sz' cs' where sh: "shrink (ring_cap r) (total_length (ring_chunks r @ [s])) (ring_chunks r @ [s]) = (sz', cs')" by fastforce
    from shrink_result [OF this] obtain k where k: "cs' = drop k (ring_chunks r @ [s])" "sz' = total_length cs'" by blast
    have push: "ring_push s r = (if s = [] then r else r\<lparr>ring_chunks := cs', ring_size := sz'\<rparr>)"
      using sh inv by (simp add: ring_push_def ring_inv_def)
    then show new: "ring_inv (ring_push s r)" using inv k(2) by (simp add: ring_inv_def)
    have "concat (ring_chunks r @ [s]) = concat (take k (ring_chunks r @ [s])) @ concat cs'"
      using k(1) by (metis append_take_drop_id concat_append)
    then have "suffix (concat cs') (concat (ring_chunks r) @ s)" by (auto simp: suffix_def)
    then show "suffix (ring_text (ring_push s r)) (ring_text r @ s)"
      using push inv ring_text_inv [OF inv] ring_text_inv [OF new] by simp
  qed
qed

section \<open>The filter loses nothing\<close>

text \<open>A piece of the stream that is hidden: such a line, with or without its line feed.\<close>

definition hidden_piece :: "string \<Rightarrow> bool" where
  "hidden_piece p \<longleftrightarrow> (\<exists>l. is_hidden l \<and> (p = l \<or> p = l @ [nl_char]))"

text \<open>A piece that starts the output: a line that is not hidden.\<close>

definition shown_piece :: "string \<Rightarrow> bool" where
  "shown_piece p \<longleftrightarrow> (\<exists>l. \<not> is_hidden l \<and> (p = l \<or> p = l @ [nl_char]))"

text \<open>The state after this input, for a filter that started with the ring \<open>r0\<close>: the input is the
  hidden pieces, then what was written, then the residual.\<close>

definition filter_after :: "ring \<Rightarrow> string \<Rightarrow> noise_filter \<Rightarrow> bool" where
  "filter_after r0 input f \<longleftrightarrow>
     (\<exists>hs. list_all hidden_piece hs \<and> input = concat hs @ concat (nf_out f) @ residual f \<and>
        nf_buffer f = fold ring_push (hs @ nf_out f) r0) \<and>
     (\<not> ready_fired f \<longrightarrow> nf_out f = [] \<and> ready_calls f = 0) \<and>
     (ready_fired f \<longrightarrow> ready_calls f = 1 \<and> nf_out f \<noteq> [] \<and> shown_piece (hd (nf_out f)))"

lemma filter_after_new: "filter_after r [] (new_filter r)"
  unfolding filter_after_def new_filter_def by (intro conjI exI [of _ "[]"]) simp_all

lemma pass_through_after:
  assumes "filter_after r0 input f" "ready_fired f" "residual f = []"
  shows "filter_after r0 (input @ text) (pass_through text f)" "ready_fired (pass_through text f)"
    "residual (pass_through text f) = []"
proof -
  from assms obtain hs where "list_all hidden_piece hs" "input = concat hs @ concat (nf_out f)"
    "nf_buffer f = fold ring_push (hs @ nf_out f) r0"
    by (auto simp: filter_after_def)
  with assms show "filter_after r0 (input @ text) (pass_through text f)"
    unfolding filter_after_def by (intro conjI exI [of _ hs]) (auto simp: pass_through_def buffer_push_def filter_after_def)
  show "ready_fired (pass_through text f)" "residual (pass_through text f) = []"
    using assms by (simp_all add: pass_through_def buffer_push_def)
qed

text \<open>Routing one line, the residual set aside.\<close>

lemma route_line_after:
  assumes after: "filter_after r0 input (f\<lparr>residual := []\<rparr>)"
    and terminator: "terminator = [] \<or> terminator = [nl_char]"
  shows "filter_after r0 (input @ line @ terminator) ((route_line line terminator f)\<lparr>residual := []\<rparr>)"
proof -
  from after obtain hs where hs: "list_all hidden_piece hs" "input = concat hs @ concat (nf_out f)"
    "nf_buffer f = fold ring_push (hs @ nf_out f) r0"
    and nr: "\<not> ready_fired f \<longrightarrow> nf_out f = [] \<and> ready_calls f = 0" "ready_fired f \<longrightarrow> ready_calls f = 1 \<and> nf_out f \<noteq> [] \<and> shown_piece (hd (nf_out f))"
    by (auto simp: filter_after_def)
  consider (empty) "line = []" "terminator = []"
    | (hide) "\<not> ready_fired f" "is_hidden line" "route_line line terminator f = buffer_push (line @ terminator) f"
    | (pass) "route_line line terminator f = pass_through (line @ terminator)
        (if ready_fired f then f else f\<lparr>ready_fired := True, ready_calls := ready_calls f + 1\<rparr>)"
      "ready_fired f \<or> \<not> is_hidden line"
  proof (cases "line = [] \<and> terminator = []")
    case False
    then show ?thesis using hide pass
      by (cases "\<not> ready_fired f \<and> is_hidden line") (auto simp: route_line_def is_hidden_def)
  qed (use empty in simp)
  then show ?thesis
  proof cases
    case empty
    with after show ?thesis by (simp add: route_line_def)
  next
    case hide
    have "hidden_piece (line @ terminator)" using hide(2) terminator by (auto simp: hidden_piece_def)
    then show ?thesis using hs nr hide
      unfolding filter_after_def by (intro conjI exI [of _ "hs @ [line @ terminator]"]) (auto simp: buffer_push_def)
  next
    case pass
    have "shown_piece (line @ terminator)" if "\<not> ready_fired f"
      using pass(2) that terminator by (auto simp: shown_piece_def)
    then show ?thesis using hs nr pass(1)
      unfolding filter_after_def by (intro conjI exI [of _ hs]) (auto simp: pass_through_def buffer_push_def)
  qed
qed

lemma route_line_residual [simp]: "residual (route_line line t f) = residual f"
  by (simp add: route_line_def buffer_push_def pass_through_def)

lemma route_lines_after:
  assumes "filter_after r0 input (f\<lparr>residual := []\<rparr>)"
  shows "filter_after r0 (input @ concat (map (\<lambda>l. l @ [nl_char]) ls))
    ((fold (\<lambda>line. route_line line [nl_char]) ls f)\<lparr>residual := []\<rparr>)"
  using assms
proof (induction ls arbitrary: input f)
  case (Cons l ls)
  from Cons.IH [OF route_line_after [OF Cons.prems, of "[nl_char]" l]] show ?case by simp
qed simp

lemma route_lines_residual [simp]: "residual (fold (\<lambda>line. route_line line t) ls f) = residual f"
  by (induction ls arbitrary: f) simp_all

lemma newline_parts: "up_to_last_newline s @ after_last_newline s = s"
  unfolding up_to_last_newline_def after_last_newline_def
  by (metis rev_append rev_rev_ident takeWhile_dropWhile_id)

lemma last_split: "last (split_on c (s @ [c])) = []"
  by (simp add: split_on_concat)

lemma lines_join:
  "ps \<noteq> [] \<Longrightarrow> concat (map (\<lambda>l. l @ [nl_char]) ps) = join_on nl_char ps @ [nl_char]"
  by (induction nl_char ps rule: join_on.induct) simp_all

lemma split_lines_concat:
  assumes "nl_char \<in> set s"
  shows "concat (map (\<lambda>l. l @ [nl_char]) (split_lines (up_to_last_newline s))) = up_to_last_newline s"
proof -
  have ne: "dropWhile (\<lambda>c. c \<noteq> nl_char) (rev s) \<noteq> []" using assms by (auto simp: dropWhile_eq_Nil_conv)
  obtain t where "dropWhile (\<lambda>c. c \<noteq> nl_char) (rev s) = nl_char # t"
    using hd_dropWhile [OF ne] ne by (cases "dropWhile (\<lambda>c. c \<noteq> nl_char) (rev s)") auto
  then have u: "up_to_last_newline s = rev t @ [nl_char]" by (simp add: up_to_last_newline_def)
  have "split_lines (up_to_last_newline s) = split_on nl_char (rev t)"
    unfolding u split_lines_def by (simp add: split_on_concat)
  then show ?thesis using lines_join [of "split_on nl_char (rev t)"] u by (simp add: join_split_on)
qed

lemma filter_after_residual:
  "filter_after r0 input f \<Longrightarrow> \<exists>base. input = base @ residual f \<and> filter_after r0 base (f\<lparr>residual := []\<rparr>)"
  by (auto simp: filter_after_def)

lemma with_residual: "filter_after r0 base (f\<lparr>residual := []\<rparr>) \<Longrightarrow> filter_after r0 (base @ residual f) f"
  by (auto simp: filter_after_def)

text \<open>A ready filter holds nothing back.\<close>

definition settled :: "noise_filter \<Rightarrow> bool" where
  "settled f \<longleftrightarrow> (ready_fired f \<longrightarrow> residual f = [])"

lemma filter_push_after:
  assumes "filter_after r0 input f" "settled f"
  shows "filter_after r0 (input @ text) (filter_push text f) \<and> settled (filter_push text f)"
proof (cases "ready_fired f")
  case True
  with assms pass_through_after [OF assms(1) True, of "text"] show ?thesis
    by (simp add: filter_push_def settled_def)
next
  case False
  let ?all = "residual f @ text"
  obtain base where base: "input = base @ residual f" "filter_after r0 base (f\<lparr>residual := []\<rparr>)"
    using filter_after_residual [OF assms(1)] by blast
  show ?thesis
  proof (cases "nl_char \<in> set ?all")
    case no_nl: False
    show ?thesis
    proof (cases "is_likely_interactive_prompt ?all")
      case True
      have "filter_after r0 (base @ ?all @ []) ((route_line ?all [] (f\<lparr>residual := []\<rparr>))\<lparr>residual := []\<rparr>)"
        using base(2) by (intro route_line_after) simp_all
      moreover have "(route_line ?all [] (f\<lparr>residual := []\<rparr>))\<lparr>residual := []\<rparr> = route_line ?all [] (f\<lparr>residual := []\<rparr>)"
        by (cases "route_line ?all [] (f\<lparr>residual := []\<rparr>)") (use route_line_residual [of ?all "[]" "f\<lparr>residual := []\<rparr>"] in simp)
      ultimately show ?thesis using False no_nl True base(1) by (simp add: filter_push_def settled_def)
    next
      case no_prompt: False
      have "filter_after r0 (base @ ?all) (f\<lparr>residual := ?all\<rparr>)"
        using with_residual [of r0 base "f\<lparr>residual := ?all\<rparr>"] base(2) by simp
      then show ?thesis using False no_nl no_prompt base(1) by (simp add: filter_push_def settled_def)
    qed
  next
    case nl: True
    let ?f0 = "f\<lparr>residual := after_last_newline ?all\<rparr>"
    let ?f1 = "fold (\<lambda>line. route_line line [nl_char]) (split_lines (up_to_last_newline ?all)) ?f0"
    have "filter_after r0 base (?f0\<lparr>residual := []\<rparr>)" using base(2) by simp
    from route_lines_after [OF this, of "split_lines (up_to_last_newline ?all)"]
    have f1: "filter_after r0 (base @ up_to_last_newline ?all) (?f1\<lparr>residual := []\<rparr>)"
      by (simp only: split_lines_concat [OF nl])
    have res: "residual ?f1 = after_last_newline ?all" by simp
    have whole: "input @ text = (base @ up_to_last_newline ?all) @ after_last_newline ?all"
      using base(1) newline_parts [of ?all] by simp
    have push: "filter_push text f = (if ready_fired ?f1 \<and> residual ?f1 \<noteq> []
        then pass_through (residual ?f1) (?f1\<lparr>residual := []\<rparr>) else ?f1)"
      using False nl by (simp add: filter_push_def Let_def)
    show ?thesis
    proof (cases "ready_fired ?f1 \<and> residual ?f1 \<noteq> []")
      case True
      with pass_through_after [OF f1, of "residual ?f1"] show ?thesis
        unfolding push whole res by (simp add: settled_def)
    next
      case rest: False
      have "filter_after r0 ((base @ up_to_last_newline ?all) @ residual ?f1) ?f1" by (rule with_residual [OF f1])
      with rest show ?thesis unfolding push whole res by (auto simp: settled_def)
    qed
  qed
qed

lemma filter_run_after:
  "filter_after r0 input f \<Longrightarrow> settled f \<Longrightarrow>
   filter_after r0 (input @ concat texts) (fold filter_push texts f) \<and> settled (fold filter_push texts f)"
proof (induction texts arbitrary: input f)
  case (Cons t ts)
  from filter_push_after [OF Cons.prems, of t] Cons.IH [of "input @ t"] show ?case by simp
qed simp

lemma filter_flush_after:
  assumes "filter_after r0 input f"
  shows "filter_after r0 input (filter_flush f)" "residual (filter_flush f) = []"
proof -
  obtain base where base: "input = base @ residual f" "filter_after r0 base (f\<lparr>residual := []\<rparr>)"
    using filter_after_residual [OF assms] by blast
  let ?g = "route_line (residual f) [] (f\<lparr>residual := []\<rparr>)"
  have "filter_after r0 (base @ residual f @ []) (?g\<lparr>residual := []\<rparr>)"
    using base(2) by (intro route_line_after) simp_all
  moreover have "?g\<lparr>residual := []\<rparr> = ?g"
    by (cases ?g) (use route_line_residual [of "residual f" "[]" "f\<lparr>residual := []\<rparr>"] in simp)
  ultimately show "filter_after r0 input (filter_flush f)" using assms base(1) by (cases "residual f = []") (simp_all add: filter_flush_def)
  show "residual (filter_flush f) = []" by (simp add: filter_flush_def)
qed

section \<open>Properties\<close>

text \<open>The ring buffer keeps the end of the output: whatever was pushed, it holds whole
  pieces from some piece on, its text is the end of everything pushed, at most \<open>cap\<close> bytes or a
  single piece, and it dropped a piece only while what it held from there on was too much.\<close>

theorem ring_keeps_the_tail:
  "let r = fold ring_push ps (new_ring cap) in
    ring_text r = concat (ring_chunks r) \<and> suffix (ring_text r) (concat ps) \<and>
    (length (ring_text r) \<le> cap \<or> length (ring_chunks r) = 1) \<and>
    (\<exists>k. ring_chunks r = drop k (filter (\<lambda>p. p \<noteq> []) ps) \<and>
      (\<forall>j < k. cap < total_length (drop j (filter (\<lambda>p. p \<noteq> []) ps))))"
proof -
  define r where "r = fold ring_push ps (new_ring cap)"
  from ring_after_fold [OF ring_after_new, of ps cap]
  have after: "ring_after (filter (\<lambda>p. p \<noteq> []) ps) r" by (simp add: r_def)
  then have inv: "ring_inv r" and "ring_size r \<le> ring_cap r \<or> length (ring_chunks r) = 1"
    and k: "\<exists>k. ring_chunks r = drop k (filter (\<lambda>p. p \<noteq> []) ps) \<and>
      (\<forall>j < k. ring_cap r < total_length (drop j (filter (\<lambda>p. p \<noteq> []) ps)))"
    by (auto simp: ring_after_def)
  moreover have "ring_cap r = cap"
    unfolding r_def by (rule fold_invariant [where Q = "\<lambda>_. True"]) (simp_all add: new_ring_def)
  moreover have "suffix (ring_text r) (ring_text (new_ring cap) @ concat ps)"
    unfolding r_def by (rule ring.fold_suffix) (simp add: ring_inv_def new_ring_def)
  moreover have empty: "ring_text (new_ring cap) = []" by (simp add: ring_text_def new_ring_def)
  ultimately show ?thesis
    using inv unfolding Let_def r_def [symmetric]
    by (auto simp: ring_text_inv [OF inv] length_concat_total ring_inv_def)
qed

theorem ring_keeps_the_tail_witness:
  "ring_chunks (fold ring_push [''abc'', '''', ''de'', ''f''] (new_ring 3)) = [''de'', ''f''] \<and>
   suffix (ring_text (fold ring_push [''abc'', '''', ''de'', ''f''] (new_ring 3))) ''abcdef''"
  using ring_keeps_the_tail [of "[''abc'', '''', ''de'', ''f'']" 3]
  by (simp add: ring_push_def new_ring_def Let_def ring_text_def)

text \<open>The noise filter loses nothing: however the guest's output is cut into chunks, it is
  the hidden pieces, then what was written to the output stream, then what waits for its line
  feed. After the flush nothing waits; \<open>onReady\<close> was called once when anything was written and
  never otherwise, the first piece written is a line that is not noise, and the text of the
  buffer is the end of the output of the guest.\<close>

theorem noise_filter_loses_nothing:
  "let f = fold filter_push texts (new_filter (new_ring cap)); g = filter_flush f in
    (\<exists>hs. list_all hidden_piece hs \<and> concat texts = concat hs @ concat (nf_out f) @ residual f) \<and>
    (\<exists>hs. list_all hidden_piece hs \<and> concat texts = concat hs @ concat (nf_out g)) \<and>
    (if nf_out g = [] then ready_calls g = 0 else ready_calls g = 1 \<and> shown_piece (hd (nf_out g))) \<and>
    suffix (ring_text (nf_buffer g)) (concat texts)"
proof -
  let ?r0 = "new_ring cap"
  define f where "f = fold filter_push texts (new_filter (new_ring cap))"
  define g where "g = filter_flush f"
  have f: "filter_after ?r0 (concat texts) f"
    unfolding f_def using filter_run_after [OF filter_after_new, of ?r0 texts]
    by (simp add: settled_def new_filter_def)
  note g = filter_flush_after [OF f, folded g_def]
  from g obtain hs where hs: "list_all hidden_piece hs" "concat texts = concat hs @ concat (nf_out g)"
    "nf_buffer g = fold ring_push (hs @ nf_out g) ?r0" by (auto simp: filter_after_def)
  have "suffix (ring_text (nf_buffer g)) (ring_text ?r0 @ concat (hs @ nf_out g))"
    unfolding hs(3) by (rule ring.fold_suffix) (simp add: ring_inv_def new_ring_def)
  then have "suffix (ring_text (nf_buffer g)) (concat texts)"
    unfolding hs(2) by (simp add: ring_text_def new_ring_def)
  moreover have "if nf_out g = [] then ready_calls g = 0 else ready_calls g = 1 \<and> shown_piece (hd (nf_out g))"
    using g(1) by (cases "ready_fired g") (auto simp: filter_after_def)
  moreover have "\<exists>hs. list_all hidden_piece hs \<and> concat texts = concat hs @ concat (nf_out f) @ residual f"
    using f by (auto simp: filter_after_def)
  ultimately show ?thesis
    unfolding Let_def f_def [symmetric] g_def [symmetric] using hs(1,2) by auto
qed

end
