(* ===== verification/Json_Schema.thy ===== *)
theory Json_Schema
  imports Json
begin

text \<open>
  JSON schemas with the keywords that the schemas of the repository use, and what they mean
  (draft 2020-12): a keyword says nothing about values of another type than its own. Patterns
  are regular expressions; the subset in use (literals, classes, counts, anchors) is read from
  its text and matched here.
\<close>

section \<open>Patterns\<close>

type_synonym char_ranges = "(char \<times> char) list"

definition in_ranges :: "char_ranges \<Rightarrow> char \<Rightarrow> bool" where
  "in_ranges rs c \<longleftrightarrow> list_ex (\<lambda>(a, b). (of_char a :: nat) \<le> of_char c \<and> (of_char c :: nat) \<le> of_char b) rs"

text \<open>An atom: its characters, and how often at least and at most.\<close>

type_synonym atom = "char_ranges \<times> nat \<times> nat option"

fun match_atoms :: "atom list \<Rightarrow> bool \<Rightarrow> string \<Rightarrow> bool" where
  "match_atoms [] at_end s \<longleftrightarrow> at_end \<longrightarrow> s = []"
| "match_atoms ((rs, least, most) # as) at_end s \<longleftrightarrow>
     list_ex (\<lambda>n. (case most of None \<Rightarrow> True | Some m \<Rightarrow> n \<le> m) \<and> match_atoms as at_end (drop n s))
       [least..<Suc (length (takeWhile (in_ranges rs) s))]"

fun read_class :: "string \<Rightarrow> char_ranges \<times> string" where
  "read_class [] = ([], [])"
| "read_class (c # cs) =
     (if c = CHR '']'' then ([], cs)
      else
        (case cs of
           d # e # rest \<Rightarrow>
             if d = CHR ''-'' \<and> e \<noteq> CHR '']''
             then (case read_class rest of (rs, r) \<Rightarrow> ((c, e) # rs, r))
             else (case read_class cs of (rs, r) \<Rightarrow> ((c, c) # rs, r))
         | _ \<Rightarrow> (case read_class cs of (rs, r) \<Rightarrow> ((c, c) # rs, r))))"

definition read_count :: "string \<Rightarrow> nat \<times> nat option \<times> string" where
  "read_count s =
     (if take 1 s = ''+'' then (1, None, drop 1 s)
      else if take 1 s = ''*'' then (0, None, drop 1 s)
      else if take 1 s = ''{''
      then let lo = takeWhile is_digit (drop 1 s); rest = drop (2 + length lo) s; hi = takeWhile is_digit rest
           in (dec_value lo, Some (dec_value hi), drop (Suc (length hi)) rest)
      else (1, Some 1, s))"

text \<open>The first argument bounds the number of atoms.\<close>

fun read_atoms :: "nat \<Rightarrow> string \<Rightarrow> atom list \<times> bool" where
  "read_atoms 0 s = ([], s = ''$'')"
| "read_atoms (Suc n) s =
     (case s of
        [] \<Rightarrow> ([], False)
      | c # cs \<Rightarrow>
          if s = ''$'' then ([], True)
          else
            (case (if c = CHR ''['' then read_class cs else ([(c, c)], cs)) of
               (rs, rest) \<Rightarrow>
                 (case read_count rest of
                    (lo, hi, rest') \<Rightarrow> (case read_atoms n rest' of (as, e) \<Rightarrow> ((rs, lo, hi) # as, e)))))"

text \<open>\<open>new RegExp(pattern).test(s)\<close> for a pattern that starts with \<open>^\<close>\<close>

definition regex_test :: "string \<Rightarrow> string \<Rightarrow> bool" where
  "regex_test pattern s =
     (case read_atoms (length pattern) (drop 1 pattern) of (as, at_end) \<Rightarrow> match_atoms as at_end s)"

section \<open>Schemas\<close>

datatype json_type = Object_type | Array_type | String_type | Integer_type

text \<open>\<open>properties\<close> stands with \<open>additionalProperties\<close>: \<open>None\<close> is \<open>false\<close>.\<close>

datatype keyword =
    Type json_type
  | Const json
  | Enum "string list"
  | Required "string list"
  | Properties "(string \<times> keyword list) list" "keyword list option"
  | Items "keyword list"
  | Min_items nat
  | Unique_items
  | Min_length_1
  | Minimum int
  | Pattern string
  | Any_of "keyword list list"

type_synonym schema = "keyword list"

definition has_type :: "json_type \<Rightarrow> json \<Rightarrow> bool" where
  "has_type t v =
     (case v of
        Obj _ \<Rightarrow> t = Object_type
      | Arr _ \<Rightarrow> t = Array_type
      | Str _ \<Rightarrow> t = String_type
      | Num _ \<Rightarrow> t = Integer_type
      | _ \<Rightarrow> False)"

definition members :: "json \<Rightarrow> (string \<times> json) list" where
  "members v = (case v of Obj fs \<Rightarrow> fs | _ \<Rightarrow> [])"

definition elements :: "json \<Rightarrow> json list" where
  "elements v = (case v of Arr vs \<Rightarrow> vs | _ \<Rightarrow> [])"

definition is_object :: "json \<Rightarrow> bool" where
  "is_object v = (case v of Obj _ \<Rightarrow> True | _ \<Rightarrow> False)"

text \<open>Whether a value satisfies a keyword. A lenient check lets every object have additional
  properties.\<close>

fun holds :: "bool \<Rightarrow> keyword \<Rightarrow> json \<Rightarrow> bool" where
  "holds strict (Type t) v = has_type t v"
| "holds strict (Const c) v = (v = c)"
| "holds strict (Enum ss) v = (case v of Str s \<Rightarrow> s \<in> set ss | _ \<Rightarrow> False)"
| "holds strict (Required ks) v = (is_object v \<longrightarrow> list_all (\<lambda>k. field (members v) k \<noteq> Undefined) ks)"
| "holds strict (Properties ps extra) v =
     (list_all (\<lambda>p. field (members v) (fst p) = Undefined \<or>
        list_all (\<lambda>k. holds strict k (field (members v) (fst p))) (snd p)) ps \<and>
      (case extra of
         None \<Rightarrow> strict \<longrightarrow> list_all (\<lambda>m. snd m = Undefined \<or> fst m \<in> set (map fst ps)) (members v)
       | Some sch \<Rightarrow> list_all (\<lambda>m. snd m = Undefined \<or> fst m \<in> set (map fst ps) \<or>
                       list_all (\<lambda>k. holds strict k (snd m)) sch) (members v)))"
| "holds strict (Items sch) v = list_all (\<lambda>x. list_all (\<lambda>k. holds strict k x) sch) (elements v)"
| "holds strict (Min_items n) v = (case v of Arr vs \<Rightarrow> n \<le> length vs | _ \<Rightarrow> True)"
| "holds strict Unique_items v = distinct (elements v)"
| "holds strict Min_length_1 v = (v \<noteq> Str [])"
| "holds strict (Minimum n) v = (case v of Num i \<Rightarrow> n \<le> i | _ \<Rightarrow> True)"
| "holds strict (Pattern p) v = (case v of Str s \<Rightarrow> regex_test p s | _ \<Rightarrow> True)"
| "holds strict (Any_of schs) v = list_ex (list_all (\<lambda>k. holds strict k v)) schs"

definition conforms :: "bool \<Rightarrow> schema \<Rightarrow> json \<Rightarrow> bool" where
  "conforms strict sch v = list_all (\<lambda>k. holds strict k v) sch"

lemma holds_lenient: "holds strict k v \<Longrightarrow> holds False k v"
proof (induction strict k v rule: holds.induct)
  case (5 strict ps extra v)
  then show ?case by (cases extra) (fastforce simp: list_all_iff)+
next
  case (12 strict schs v)
  then show ?case by (fastforce simp: list_all_iff list_ex_iff)
qed (auto simp: list_all_iff)

lemma conforms_lenient: "conforms strict sch v \<Longrightarrow> conforms False sch v"
  by (auto simp: conforms_def list_all_iff intro: holds_lenient)

text \<open>The readings of a schema that the validators are compared with: the keywords one by one,
  and the properties of an object.\<close>

lemma conforms_simps [simp]:
  "conforms strict [] v"
  "conforms strict (k # ks) v \<longleftrightarrow> holds strict k v \<and> conforms strict ks v"
  by (simp_all add: conforms_def)

definition property_ok :: "bool \<Rightarrow> schema \<Rightarrow> json \<Rightarrow> bool" where
  "property_ok strict sch x \<longleftrightarrow> x = Undefined \<or> conforms strict sch x"

lemma holds_properties [simp]:
  "holds False (Properties ps None) v \<longleftrightarrow> (\<forall>p \<in> set ps. property_ok False (snd p) (field (members v) (fst p)))"
  by (auto simp: list_all_iff property_ok_def conforms_def)

lemma holds_items [simp]: "holds strict (Items sch) v \<longleftrightarrow> (\<forall>x \<in> set (elements v). conforms strict sch x)"
  by (auto simp: list_all_iff conforms_def)

declare holds.simps(5,6) [simp del]

end
