(* ===== verification/Portable_Snapshot.thy ===== *)
theory Portable_Snapshot
  imports Json_Schema
begin

text \<open>
  \<^verbatim>\<open>packages/runtime/src/vm/portable-snapshot.ts\<close>: the documents of a portable snapshot bundle, the
  JSON schemas the module publishes for them, and the validators that check a bundle before it is
  restored. A validator returns the errors it pushes, in order; \<open>path\<close> names the place of the
  value in the document.
\<close>

section \<open>Vocabulary\<close>

definition PORTABLE_GUEST_ARCHES :: "string list" where
  "PORTABLE_GUEST_ARCHES = [''arm64'', ''amd64'']"

definition PORTABLE_REFUSAL_CODES :: "string list" where
  "PORTABLE_REFUSAL_CODES =
     [''checkpoint-refused'', ''checkpoint-invalid-abi'', ''checkpoint-invalid-roots'',
      ''checkpoint-inside-signal-handler'', ''checkpoint-inside-syscall'', ''checkpoint-unsupported-root'',
      ''checkpoint-unknown-root'', ''continuation-live-value-missing'', ''pointer-outside-known-object'',
      ''thread-count-unsupported'', ''thread-not-at-barrier'', ''thread-inside-syscall'',
      ''signal-handler-active'', ''mapping-executable-anonymous'', ''fd-kind-unsupported'',
      ''target-build-mismatch'', ''architecture-pair-unsupported'', ''architecture-unsupported'',
      ''build-id-mismatch'', ''entrypoint-missing'', ''feature-unsupported'', ''memory-layout-unsupported'',
      ''object-unsupported'', ''relocation-unsupported'', ''resource-unsupported'',
      ''runtime-adapter-missing'', ''runtime-heap-unsupported'', ''syscall-unsupported'']"

definition OBJECT_KINDS :: "string list" where
  "OBJECT_KINDS = [''global'', ''heap'', ''stack'', ''thread'', ''tls'', ''opaque'']"

definition RESOURCE_KINDS :: "string list" where
  "RESOURCE_KINDS = [''argv'', ''fd'', ''file'', ''socket'', ''timer'', ''signal'', ''cwd'', ''env'', ''unknown'']"

definition ADDRESS_RE :: string where "ADDRESS_RE = ''^0x[0-9A-Fa-f]+$''"
definition BUILD_ID_RE :: string where "BUILD_ID_RE = ''^[0-9A-Fa-f]{8,128}$''"
definition SYMBOL_RE :: string where "SYMBOL_RE = ''^[A-Za-z_][A-Za-z0-9_.$@-]*$''"
definition FEATURE_RE :: string where "FEATURE_RE = ''^[a-z0-9][a-z0-9._-]*$''"

section \<open>The published schemas\<close>

abbreviation object_schema :: "string list \<Rightarrow> (string \<times> schema) list \<Rightarrow> schema" where
  "object_schema required properties \<equiv> [Type Object_type, Properties properties None, Required required]"

definition REFUSAL_SCHEMA :: schema where
  "REFUSAL_SCHEMA =
     object_schema [''code'', ''message'']
       [(''code'', [Enum PORTABLE_REFUSAL_CODES]),
        (''message'', [Type String_type, Min_length_1]),
        (''detail'', [Type Object_type])]"

definition UNSUPPORTED_SCHEMA :: schema where
  "UNSUPPORTED_SCHEMA =
     object_schema [''vocabularyVersion'', ''refusals'']
       [(''vocabularyVersion'', [Const (Num 1)]),
        (''refusals'', [Type Array_type, Items REFUSAL_SCHEMA])]"

definition SYMBOL_SCHEMA :: schema where
  "SYMBOL_SCHEMA = object_schema [''name''] [(''name'', [Type String_type, Pattern ''^[A-Za-z_][A-Za-z0-9_.$@-]*$''])]"

definition BUILD_ID_SCHEMA :: schema where
  "BUILD_ID_SCHEMA = [Type String_type, Pattern ''^[0-9A-Fa-f]{8,128}$'']"

definition program_schema :: schema where
  "program_schema =
     object_schema [''name'', ''executable'']
       [(''name'', [Type String_type, Min_length_1]),
        (''executable'', [Type String_type, Min_length_1]),
        (''identity'', [Type String_type, Min_length_1])]"

definition source_build_schema :: schema where
  "source_build_schema =
     object_schema [''buildId''] [(''buildId'', BUILD_ID_SCHEMA), (''version'', [Type String_type, Min_length_1])]"

definition target_build_schema :: schema where
  "target_build_schema =
     [Type Object_type,
      Properties [(''buildId'', BUILD_ID_SCHEMA), (''version'', [Type String_type, Min_length_1])] None,
      Any_of [[Required [''buildId'']], [Required [''version'']]]]"

definition safe_point_schema :: schema where
  "safe_point_schema =
     object_schema [''outsideSignalHandlers'', ''outsideSyscalls'']
       [(''outsideSignalHandlers'', [Const (Bool True)]), (''outsideSyscalls'', [Const (Bool True)])]"

definition checkpoint_abi_schema :: schema where
  "checkpoint_abi_schema =
     object_schema [''version'', ''checkpointFunction'', ''rootsType'', ''restoreBundleType'', ''safePoint'']
       [(''version'', [Const (Num 1)]),
        (''checkpointFunction'', SYMBOL_SCHEMA),
        (''rootsType'', [Const (Str ''machinen_checkpoint_roots'')]),
        (''restoreBundleType'', [Const (Str ''machinen_restore_bundle'')]),
        (''safePoint'', safe_point_schema)]"

definition process_schema :: schema where
  "process_schema =
     object_schema [''argv'', ''env'', ''cwd'']
       [(''argv'', [Type Array_type, Items [Type String_type], Min_items 1]),
        (''env'', [Type Object_type, Properties [] (Some [Type String_type])]),
        (''cwd'', [Type String_type, Pattern ''^/''])]"

definition manifest_schema :: schema where
  "manifest_schema =
     object_schema
       [''formatVersion'', ''sourceGuestArch'', ''allowedTargetGuestArchs'', ''program'', ''sourceBuild'',
        ''targetBuild'', ''checkpointAbi'', ''checkpointContinuation'', ''restoreEntrypoint'', ''process'',
        ''features'', ''unsupported'']
       [(''formatVersion'', [Const (Num 1)]),
        (''sourceGuestArch'', [Enum PORTABLE_GUEST_ARCHES]),
        (''allowedTargetGuestArchs'',
          [Type Array_type, Min_items 1, Unique_items, Items [Enum PORTABLE_GUEST_ARCHES]]),
        (''program'', program_schema),
        (''sourceBuild'', source_build_schema),
        (''targetBuild'', target_build_schema),
        (''checkpointAbi'', checkpoint_abi_schema),
        (''checkpointContinuation'', SYMBOL_SCHEMA),
        (''restoreEntrypoint'', SYMBOL_SCHEMA),
        (''process'', process_schema),
        (''features'', [Type Array_type, Unique_items, Items [Type String_type, Pattern ''^[a-z0-9][a-z0-9._-]*$'']]),
        (''unsupported'', UNSUPPORTED_SCHEMA)]"

definition memory_schema :: schema where
  "memory_schema =
     object_schema [''offset'', ''sizeBytes'']
       [(''offset'', [Type Integer_type, Minimum 0]), (''sizeBytes'', [Type Integer_type, Minimum 0])]"

definition allocation_schema :: schema where
  "allocation_schema =
     object_schema [''id'', ''sourceAddress'']
       [(''id'', [Type Integer_type, Minimum 1]), (''sourceAddress'', [Type String_type, Pattern ''^0x[0-9A-Fa-f]+$''])]"

definition object_entry_schema :: schema where
  "object_entry_schema =
     object_schema [''id'', ''kind'']
       [(''id'', [Type String_type, Min_length_1]),
        (''kind'', [Enum [''global'', ''heap'', ''stack'', ''thread'', ''tls'', ''opaque'']]),
        (''type'', [Type String_type, Min_length_1]),
        (''sizeBytes'', [Type Integer_type, Minimum 0]),
        (''sourceAddress'', [Type String_type, Pattern ''^0x[0-9A-Fa-f]+$'']),
        (''allocation'', allocation_schema),
        (''memory'', memory_schema),
        (''unsupported'', UNSUPPORTED_SCHEMA)]"

definition objects_schema :: schema where
  "objects_schema =
     object_schema [''formatVersion'', ''objects'', ''unsupported'']
       [(''formatVersion'', [Const (Num 1)]),
        (''objects'', [Type Array_type, Items object_entry_schema]),
        (''unsupported'', UNSUPPORTED_SCHEMA)]"

definition relocation_schema :: schema where
  "relocation_schema =
     object_schema [''fromObject'', ''fromOffset'', ''toObject'']
       [(''fromObject'', [Type String_type, Min_length_1]),
        (''fromOffset'', [Type Integer_type, Minimum 0]),
        (''toObject'', [Type String_type, Min_length_1]),
        (''addend'', [Type Integer_type]),
        (''kind'', [Enum [''pointer'', ''relative'', ''symbol'']]),
        (''sourcePointer'', [Type String_type, Pattern ''^0x[0-9A-Fa-f]+$''])]"

definition relocations_schema :: schema where
  "relocations_schema =
     object_schema [''formatVersion'', ''relocations'', ''unsupported'']
       [(''formatVersion'', [Const (Num 1)]),
        (''relocations'', [Type Array_type, Items relocation_schema]),
        (''unsupported'', UNSUPPORTED_SCHEMA)]"

text \<open>The schema of a flag is a parameter: the published one asks for a non-empty string.\<close>

definition resource_schema_for :: "schema \<Rightarrow> schema" where
  "resource_schema_for flag =
     object_schema [''id'', ''kind'', ''state'']
       [(''id'', [Type String_type, Min_length_1]),
        (''kind'', [Enum [''argv'', ''fd'', ''file'', ''socket'', ''timer'', ''signal'', ''cwd'', ''env'', ''unknown'']]),
        (''state'', [Enum [''captured'', ''refused'', ''unsupported'']]),
        (''path'', [Type String_type]),
        (''fd'', [Type Integer_type, Minimum 0]),
        (''flags'', [Type Array_type, Items flag, Unique_items]),
        (''offset'', [Type Integer_type, Minimum 0]),
        (''argv'', [Type Array_type, Items [Type String_type]]),
        (''env'', [Type Object_type, Properties [] (Some [Type String_type])]),
        (''refusal'', REFUSAL_SCHEMA)]"

definition resources_schema_for :: "schema \<Rightarrow> schema" where
  "resources_schema_for flag =
     object_schema [''formatVersion'', ''resources'', ''unsupported'']
       [(''formatVersion'', [Const (Num 1)]),
        (''resources'', [Type Array_type, Items (resource_schema_for flag)]),
        (''unsupported'', UNSUPPORTED_SCHEMA)]"

definition resources_schema :: schema where
  "resources_schema = resources_schema_for [Type String_type, Min_length_1]"

section \<open>Checks of single values\<close>

definition err :: "string \<Rightarrow> string \<Rightarrow> string list" where
  "err path msg = [path @ '' '' @ msg]"

definition at_index :: "string \<Rightarrow> nat \<Rightarrow> string" where
  "at_index path i = path @ ''['' @ dec_string i @ '']''"

text \<open>\<open>expectRecord\<close> and \<open>expectArray\<close> with the code that runs when they return a value\<close>

definition expect_record :: "string \<Rightarrow> json \<Rightarrow> ((string \<times> json) list \<Rightarrow> string list) \<Rightarrow> string list" where
  "expect_record path v rest = (case v of Obj fs \<Rightarrow> rest fs | _ \<Rightarrow> err path ''must be an object'')"

definition expect_array :: "string \<Rightarrow> json \<Rightarrow> (json list \<Rightarrow> string list) \<Rightarrow> string list" where
  "expect_array path v rest = (case v of Arr vs \<Rightarrow> rest vs | _ \<Rightarrow> err path ''must be an array'')"

text \<open>\<open>for (let i = 0; i < values.length; i++)\<close> with a body that sees the index\<close>

definition for_each :: "string \<Rightarrow> (string \<Rightarrow> json \<Rightarrow> string list) \<Rightarrow> json list \<Rightarrow> string list" where
  "for_each path f vs = concat (map (\<lambda>(i, v). f (at_index path i) v) (enumerate 0 vs))"

text \<open>\<open>if (value !== undefined) ...\<close>\<close>

definition if_present :: "json \<Rightarrow> (json \<Rightarrow> string list) \<Rightarrow> string list" where
  "if_present v check = (if v = Undefined then [] else check v)"

fun join_text :: "string \<Rightarrow> string list \<Rightarrow> string" where
  "join_text sep [] = []"
| "join_text sep [x] = x"
| "join_text sep (x # y # ys) = x @ sep @ join_text sep (y # ys)"

definition validate_format_version :: "string \<Rightarrow> json \<Rightarrow> string list" where
  "validate_format_version path v = (if v \<noteq> Num 1 then err path ''must be 1'' else [])"

definition validate_enum :: "string \<Rightarrow> json \<Rightarrow> string list \<Rightarrow> string list" where
  "validate_enum path v allowed =
     (if (case v of Str s \<Rightarrow> s \<in> set allowed | _ \<Rightarrow> False) then []
      else err path (''must be one of: '' @ join_text '', '' allowed))"

definition validate_string :: "string \<Rightarrow> json \<Rightarrow> string list" where
  "validate_string path v = (case v of Str _ \<Rightarrow> [] | _ \<Rightarrow> err path ''must be a string'')"

definition validate_non_empty_string :: "string \<Rightarrow> json \<Rightarrow> string list" where
  "validate_non_empty_string path v =
     (if (case v of Str s \<Rightarrow> s \<noteq> [] | _ \<Rightarrow> False) then [] else err path ''must be a non-empty string'')"

definition validate_integer :: "string \<Rightarrow> json \<Rightarrow> string list" where
  "validate_integer path v = (case v of Num _ \<Rightarrow> [] | _ \<Rightarrow> err path ''must be an integer'')"

definition validate_positive_integer :: "string \<Rightarrow> json \<Rightarrow> string list" where
  "validate_positive_integer path v =
     (if (case v of Num n \<Rightarrow> 1 \<le> n | _ \<Rightarrow> False) then [] else err path ''must be a positive integer'')"

definition validate_non_negative_integer :: "string \<Rightarrow> json \<Rightarrow> string list" where
  "validate_non_negative_integer path v =
     (if (case v of Num n \<Rightarrow> 0 \<le> n | _ \<Rightarrow> False) then [] else err path ''must be a non-negative integer'')"

definition matches_re :: "string \<Rightarrow> json \<Rightarrow> bool" where
  "matches_re re v = (case v of Str s \<Rightarrow> regex_test re s | _ \<Rightarrow> False)"

definition validate_hex_address :: "string \<Rightarrow> json \<Rightarrow> string list" where
  "validate_hex_address path v = (if matches_re ADDRESS_RE v then [] else err path ''must be a hex address'')"

definition validate_build_id :: "string \<Rightarrow> json \<Rightarrow> string list" where
  "validate_build_id path v = (if matches_re BUILD_ID_RE v then [] else err path ''must be 8-128 hex characters'')"

definition validate_symbol_name :: "string \<Rightarrow> json \<Rightarrow> string list" where
  "validate_symbol_name path v = (if matches_re SYMBOL_RE v then [] else err path ''must be a valid symbol name'')"

definition validate_symbol_object :: "string \<Rightarrow> json \<Rightarrow> string list" where
  "validate_symbol_object path v =
     expect_record path v (\<lambda>symbol. validate_symbol_name (path @ ''.name'') (field symbol ''name''))"

definition validate_absolute_path :: "string \<Rightarrow> json \<Rightarrow> string list" where
  "validate_absolute_path path v =
     (if (case v of Str s \<Rightarrow> starts_with s ''/'' | _ \<Rightarrow> False) then [] else err path ''must be an absolute path'')"

definition validate_string_record :: "string \<Rightarrow> json \<Rightarrow> string list" where
  "validate_string_record path v =
     expect_record path v (\<lambda>record_fields. concat (map (\<lambda>(key, x).
       (case x of Undefined \<Rightarrow> [] | Str _ \<Rightarrow> [] | _ \<Rightarrow> err (path @ ''.'' @ key) ''must be a string'')) record_fields))"

definition validate_memory_range :: "string \<Rightarrow> json \<Rightarrow> string list" where
  "validate_memory_range path v =
     expect_record path v (\<lambda>memory.
       validate_non_negative_integer (path @ ''.offset'') (field memory ''offset'') @
       validate_non_negative_integer (path @ ''.sizeBytes'') (field memory ''sizeBytes''))"

section \<open>Arrays of strings\<close>

text \<open>The last argument and the second result are the set of the strings seen so far.\<close>

definition validate_string_array_unique :: "string \<Rightarrow> string \<Rightarrow> bool \<Rightarrow> string list \<Rightarrow> string list \<times> string list" where
  "validate_string_array_unique path s unique seen =
     (if \<not> unique then ([], seen)
      else ((if s \<in> set seen then err path (''duplicates '' @ json_string s) else []), s # seen))"

definition validate_string_array_pattern :: "string \<Rightarrow> string \<Rightarrow> string option \<Rightarrow> string list" where
  "validate_string_array_pattern path s pattern =
     (case pattern of None \<Rightarrow> [] | Some re \<Rightarrow> if regex_test re s then [] else err path ''has invalid shape'')"

definition validate_string_array_item ::
    "string \<Rightarrow> nat \<Rightarrow> json \<Rightarrow> bool \<Rightarrow> string option \<Rightarrow> string list \<Rightarrow> string list \<times> string list" where
  "validate_string_array_item path i v unique pattern seen =
     (case v of
        Str s \<Rightarrow>
          (case validate_string_array_unique path s unique seen of
             (es, seen') \<Rightarrow> (validate_string_array_pattern (at_index path i) s pattern @ es, seen'))
      | _ \<Rightarrow> (err (at_index path i) ''must be a string'', seen))"

fun validate_string_array_items ::
    "string \<Rightarrow> nat \<Rightarrow> json list \<Rightarrow> bool \<Rightarrow> string option \<Rightarrow> string list \<Rightarrow> string list" where
  "validate_string_array_items path i [] unique pattern seen = []"
| "validate_string_array_items path i (v # vs) unique pattern seen =
     (case validate_string_array_item path i v unique pattern seen of
        (es, seen') \<Rightarrow> es @ validate_string_array_items path (Suc i) vs unique pattern seen')"

definition validate_array_min_items :: "string \<Rightarrow> json list \<Rightarrow> nat option \<Rightarrow> string list" where
  "validate_array_min_items path vs min_items =
     (case min_items of
        None \<Rightarrow> []
      | Some n \<Rightarrow> if length vs < n then err path (''must contain at least '' @ dec_string n @ '' item(s)'') else [])"

definition validate_string_array ::
    "string \<Rightarrow> json \<Rightarrow> nat option \<Rightarrow> bool \<Rightarrow> string option \<Rightarrow> string list" where
  "validate_string_array path v min_items unique pattern =
     expect_array path v (\<lambda>vs.
       validate_array_min_items path vs min_items @ validate_string_array_items path 0 vs unique pattern [])"

text \<open>What \<open>validateStringArray\<close> returns: the strings of the array.\<close>

definition strings_of :: "json \<Rightarrow> string list option" where
  "strings_of v =
     (case v of Arr vs \<Rightarrow> Some (List.map_filter (\<lambda>x. case x of Str s \<Rightarrow> Some s | _ \<Rightarrow> None) vs) | _ \<Rightarrow> None)"

section \<open>Refusals\<close>

definition validate_refusal :: "string \<Rightarrow> json \<Rightarrow> string list" where
  "validate_refusal path v =
     expect_record path v (\<lambda>refusal.
       validate_enum (path @ ''.code'') (field refusal ''code'') PORTABLE_REFUSAL_CODES @
       validate_non_empty_string (path @ ''.message'') (field refusal ''message'') @
       (if field refusal ''detail'' \<noteq> Undefined \<and> \<not> is_object (field refusal ''detail'')
        then err (path @ ''.detail'') ''must be an object'' else []))"

definition validate_unsupported :: "string \<Rightarrow> json \<Rightarrow> string list" where
  "validate_unsupported path v =
     expect_record path v (\<lambda>unsupported.
       (if field unsupported ''vocabularyVersion'' \<noteq> Num 1
        then err (path @ ''.vocabularyVersion'') ''must be 1'' else []) @
       expect_array (path @ ''.refusals'') (field unsupported ''refusals'')
         (for_each (path @ ''.refusals'') validate_refusal))"

section \<open>The manifest\<close>

text \<open>The second argument of the loop is the set of the architectures seen so far.\<close>

fun validate_target_archs :: "nat \<Rightarrow> string list \<Rightarrow> json list \<Rightarrow> string list" where
  "validate_target_archs i seen [] = []"
| "validate_target_archs i seen (v # vs) =
     validate_enum (at_index ''manifest.allowedTargetGuestArchs'' i) v PORTABLE_GUEST_ARCHES @
     (case v of
        Str s \<Rightarrow>
          (if s \<in> set seen then err ''manifest.allowedTargetGuestArchs'' (''duplicates '' @ json_string s) else []) @
          validate_target_archs (Suc i) (s # seen) vs
      | _ \<Rightarrow> validate_target_archs (Suc i) seen vs)"

definition validate_allowed_target_archs :: "json \<Rightarrow> string list" where
  "validate_allowed_target_archs v =
     expect_array ''manifest.allowedTargetGuestArchs'' v (\<lambda>arches.
       (if arches = [] then err ''manifest.allowedTargetGuestArchs'' ''must contain at least one architecture'' else []) @
       validate_target_archs 0 [] arches)"

definition validate_program :: "json \<Rightarrow> string list" where
  "validate_program v =
     expect_record ''manifest.program'' v (\<lambda>program.
       validate_non_empty_string ''manifest.program.name'' (field program ''name'') @
       validate_non_empty_string ''manifest.program.executable'' (field program ''executable'') @
       if_present (field program ''identity'') (validate_non_empty_string ''manifest.program.identity''))"

definition validate_source_build :: "json \<Rightarrow> string list" where
  "validate_source_build v =
     expect_record ''manifest.sourceBuild'' v (\<lambda>build.
       validate_build_id ''manifest.sourceBuild.buildId'' (field build ''buildId'') @
       if_present (field build ''version'') (validate_non_empty_string ''manifest.sourceBuild.version''))"

definition validate_target_build :: "json \<Rightarrow> string list" where
  "validate_target_build v =
     expect_record ''manifest.targetBuild'' v (\<lambda>build.
       (if field build ''buildId'' = Undefined \<and> field build ''version'' = Undefined
        then err ''manifest.targetBuild'' ''must include buildId or version'' else []) @
       if_present (field build ''buildId'') (validate_build_id ''manifest.targetBuild.buildId'') @
       if_present (field build ''version'') (validate_non_empty_string ''manifest.targetBuild.version''))"

definition validate_checkpoint_safe_point :: "json \<Rightarrow> string list" where
  "validate_checkpoint_safe_point v =
     expect_record ''manifest.checkpointAbi.safePoint'' v (\<lambda>safe_point.
       (if field safe_point ''outsideSignalHandlers'' \<noteq> Bool True
        then err ''manifest.checkpointAbi.safePoint.outsideSignalHandlers'' ''must be true'' else []) @
       (if field safe_point ''outsideSyscalls'' \<noteq> Bool True
        then err ''manifest.checkpointAbi.safePoint.outsideSyscalls'' ''must be true'' else []))"

definition validate_checkpoint_abi :: "json \<Rightarrow> string list" where
  "validate_checkpoint_abi v =
     expect_record ''manifest.checkpointAbi'' v (\<lambda>abi.
       (if field abi ''version'' \<noteq> Num 1 then err ''manifest.checkpointAbi.version'' ''must be 1'' else []) @
       validate_symbol_object ''manifest.checkpointAbi.checkpointFunction'' (field abi ''checkpointFunction'') @
       (if field (members (field abi ''checkpointFunction'')) ''name'' \<noteq> Str ''machinen_checkpoint''
        then err ''manifest.checkpointAbi.checkpointFunction.name'' ''must be machinen_checkpoint'' else []) @
       (if field abi ''rootsType'' \<noteq> Str ''machinen_checkpoint_roots''
        then err ''manifest.checkpointAbi.rootsType'' ''must be machinen_checkpoint_roots'' else []) @
       (if field abi ''restoreBundleType'' \<noteq> Str ''machinen_restore_bundle''
        then err ''manifest.checkpointAbi.restoreBundleType'' ''must be machinen_restore_bundle'' else []) @
       validate_checkpoint_safe_point (field abi ''safePoint''))"

definition validate_process :: "json \<Rightarrow> string list" where
  "validate_process v =
     expect_record ''manifest.process'' v (\<lambda>process.
       validate_string_array ''manifest.process.argv'' (field process ''argv'') (Some 1) False None @
       (if strings_of (field process ''argv'') = Some []
        then err ''manifest.process.argv'' ''must contain argv[0]'' else []) @
       validate_string_record ''manifest.process.env'' (field process ''env'') @
       validate_absolute_path ''manifest.process.cwd'' (field process ''cwd''))"

definition validate_manifest :: "json \<Rightarrow> string list" where
  "validate_manifest manifest =
     expect_record ''manifest'' manifest (\<lambda>m.
       validate_format_version ''manifest.formatVersion'' (field m ''formatVersion'') @
       validate_enum ''manifest.sourceGuestArch'' (field m ''sourceGuestArch'') PORTABLE_GUEST_ARCHES @
       validate_allowed_target_archs (field m ''allowedTargetGuestArchs'') @
       validate_program (field m ''program'') @
       validate_source_build (field m ''sourceBuild'') @
       validate_target_build (field m ''targetBuild'') @
       validate_checkpoint_abi (field m ''checkpointAbi'') @
       validate_symbol_object ''manifest.checkpointContinuation'' (field m ''checkpointContinuation'') @
       validate_symbol_object ''manifest.restoreEntrypoint'' (field m ''restoreEntrypoint'') @
       validate_process (field m ''process'') @
       validate_string_array ''manifest.features'' (field m ''features'') None True (Some FEATURE_RE) @
       validate_unsupported ''manifest.unsupported'' (field m ''unsupported''))"

section \<open>Objects\<close>

text \<open>\<open>ids\<close> is the set of the ids seen so far, returned with the one of this entry.\<close>

definition validate_object_id :: "string \<Rightarrow> json \<Rightarrow> string list \<Rightarrow> string list \<times> string list" where
  "validate_object_id path v ids =
     (case v of
        Str s \<Rightarrow>
          (validate_non_empty_string (path @ ''.id'') v @
           (if s \<in> set ids then err (path @ ''.id'') (''duplicates object id '' @ json_string s) else []), s # ids)
      | _ \<Rightarrow> (validate_non_empty_string (path @ ''.id'') v, ids))"

definition validate_object_allocation :: "string \<Rightarrow> json \<Rightarrow> string list" where
  "validate_object_allocation path v =
     expect_record (path @ ''.allocation'') v (\<lambda>allocation.
       validate_positive_integer (path @ ''.allocation.id'') (field allocation ''id'') @
       validate_hex_address (path @ ''.allocation.sourceAddress'') (field allocation ''sourceAddress''))"

definition validate_object_entry :: "string \<Rightarrow> json \<Rightarrow> string list \<Rightarrow> string list \<times> string list" where
  "validate_object_entry path v ids =
     (case v of
        Obj obj \<Rightarrow>
          (case validate_object_id path (field obj ''id'') ids of
             (es, ids') \<Rightarrow>
               (es @
                validate_enum (path @ ''.kind'') (field obj ''kind'') OBJECT_KINDS @
                if_present (field obj ''type'') (validate_non_empty_string (path @ ''.type'')) @
                if_present (field obj ''sizeBytes'') (validate_non_negative_integer (path @ ''.sizeBytes'')) @
                if_present (field obj ''sourceAddress'') (validate_hex_address (path @ ''.sourceAddress'')) @
                if_present (field obj ''allocation'') (validate_object_allocation path) @
                if_present (field obj ''memory'') (validate_memory_range (path @ ''.memory'')) @
                if_present (field obj ''unsupported'') (validate_unsupported (path @ ''.unsupported'')), ids'))
      | _ \<Rightarrow> (err path ''must be an object'', ids))"

fun validate_object_entries :: "nat \<Rightarrow> json list \<Rightarrow> string list \<Rightarrow> string list" where
  "validate_object_entries i [] ids = []"
| "validate_object_entries i (v # vs) ids =
     (case validate_object_entry (at_index ''objects.objects'' i) v ids of
        (es, ids') \<Rightarrow> es @ validate_object_entries (Suc i) vs ids')"

definition validate_objects :: "json \<Rightarrow> string list" where
  "validate_objects objects_doc =
     expect_record ''objects'' objects_doc (\<lambda>doc.
       validate_format_version ''objects.formatVersion'' (field doc ''formatVersion'') @
       expect_array ''objects.objects'' (field doc ''objects'') (\<lambda>vs. validate_object_entries 0 vs []) @
       validate_unsupported ''objects.unsupported'' (field doc ''unsupported''))"

section \<open>Relocations\<close>

definition object_id :: "json \<Rightarrow> string option" where
  "object_id v = (case v of Obj fs \<Rightarrow> (case field fs ''id'' of Str s \<Rightarrow> Some s | _ \<Rightarrow> None) | _ \<Rightarrow> None)"

definition collect_object_ids :: "json \<Rightarrow> string list" where
  "collect_object_ids objects_doc = List.map_filter object_id (elements (field (members objects_doc) ''objects''))"

definition validate_object_ref :: "string \<Rightarrow> json \<Rightarrow> string list \<Rightarrow> string list" where
  "validate_object_ref path v object_ids =
     validate_non_empty_string path v @
     (case v of
        Str s \<Rightarrow> if s \<in> set object_ids then [] else err path (''references unknown object '' @ json_string s)
      | _ \<Rightarrow> [])"

definition validate_relocation_entry :: "string list \<Rightarrow> string \<Rightarrow> json \<Rightarrow> string list" where
  "validate_relocation_entry object_ids path v =
     expect_record path v (\<lambda>rel.
       validate_object_ref (path @ ''.fromObject'') (field rel ''fromObject'') object_ids @
       validate_non_negative_integer (path @ ''.fromOffset'') (field rel ''fromOffset'') @
       validate_object_ref (path @ ''.toObject'') (field rel ''toObject'') object_ids @
       if_present (field rel ''addend'') (validate_integer (path @ ''.addend'')) @
       if_present (field rel ''kind'') (\<lambda>k. validate_enum (path @ ''.kind'') k [''pointer'', ''relative'', ''symbol'']) @
       if_present (field rel ''sourcePointer'') (validate_hex_address (path @ ''.sourcePointer'')))"

definition validate_relocations :: "json \<Rightarrow> json \<Rightarrow> string list" where
  "validate_relocations relocations_doc objects_doc =
     expect_record ''relocations'' relocations_doc (\<lambda>doc.
       validate_format_version ''relocations.formatVersion'' (field doc ''formatVersion'') @
       expect_array ''relocations.relocations'' (field doc ''relocations'')
         (for_each ''relocations.relocations'' (validate_relocation_entry (collect_object_ids objects_doc))) @
       validate_unsupported ''relocations.unsupported'' (field doc ''unsupported''))"

section \<open>Resources\<close>

definition validate_resource :: "string \<Rightarrow> json \<Rightarrow> string list" where
  "validate_resource path v =
     expect_record path v (\<lambda>resource.
       validate_non_empty_string (path @ ''.id'') (field resource ''id'') @
       validate_enum (path @ ''.kind'') (field resource ''kind'') RESOURCE_KINDS @
       validate_enum (path @ ''.state'') (field resource ''state'') [''captured'', ''refused'', ''unsupported''] @
       if_present (field resource ''path'') (validate_string (path @ ''.path'')) @
       if_present (field resource ''fd'') (validate_non_negative_integer (path @ ''.fd'')) @
       if_present (field resource ''flags'') (\<lambda>x. validate_string_array (path @ ''.flags'') x None True None) @
       if_present (field resource ''offset'') (validate_non_negative_integer (path @ ''.offset'')) @
       if_present (field resource ''argv'') (\<lambda>x. validate_string_array (path @ ''.argv'') x None False None) @
       if_present (field resource ''env'') (validate_string_record (path @ ''.env'')) @
       if_present (field resource ''refusal'') (validate_refusal (path @ ''.refusal'')))"

definition validate_resources :: "json \<Rightarrow> string list" where
  "validate_resources resources_doc =
     expect_record ''resources'' resources_doc (\<lambda>doc.
       validate_format_version ''resources.formatVersion'' (field doc ''formatVersion'') @
       expect_array ''resources.resources'' (field doc ''resources'') (for_each ''resources.resources'' validate_resource) @
       validate_unsupported ''resources.unsupported'' (field doc ''unsupported''))"

section \<open>Bundles\<close>

text \<open>What stands at a name in the directory of the bundle.\<close>

datatype bundle_item = Plain_file string | Folder | Special

type_synonym bundle_dir = "string \<Rightarrow> bundle_item option"

record portable_documents =
  manifest_doc :: json
  objects_doc :: json
  relocations_doc :: json
  resources_doc :: json

definition validate_existing_path :: "bundle_dir \<Rightarrow> string \<Rightarrow> string \<Rightarrow> string \<Rightarrow> (bundle_item \<Rightarrow> bool) \<Rightarrow> string list" where
  "validate_existing_path dir name label kind matches_kind =
     (case dir name of
        None \<Rightarrow> err label ''is missing''
      | Some item \<Rightarrow> if matches_kind item then [] else err label (''must be a '' @ kind))"

definition validate_portable_bundle_files :: "bundle_dir option \<Rightarrow> string list" where
  "validate_portable_bundle_files root =
     (case root of
        None \<Rightarrow> []
      | Some dir \<Rightarrow>
          validate_existing_path dir ''memory.bin'' ''memory.bin'' ''file''
            (\<lambda>item. case item of Plain_file _ \<Rightarrow> True | _ \<Rightarrow> False) @
          validate_existing_path dir ''logs'' ''logs/'' ''directory'' (\<lambda>item. item = Folder))"

definition validate_portable_snapshot_documents :: "portable_documents \<Rightarrow> bundle_dir option \<Rightarrow> string list" where
  "validate_portable_snapshot_documents docs root =
     validate_manifest (manifest_doc docs) @
     validate_objects (objects_doc docs) @
     validate_relocations (relocations_doc docs) (objects_doc docs) @
     validate_resources (resources_doc docs) @
     validate_portable_bundle_files root"

text \<open>\<open>parse\<close> is \<open>JSON.parse\<close>, its left results the messages it throws with. Reading something
  that is not a file throws, which the handler reports in the same way.\<close>

definition read_portable_json :: "(string \<Rightarrow> string + json) \<Rightarrow> bundle_dir \<Rightarrow> string \<Rightarrow> string list + json" where
  "read_portable_json parse dir name =
     (case dir name of
        None \<Rightarrow> Inl (err name ''is missing'')
      | Some (Plain_file text) \<Rightarrow>
          (case parse text of
             Inl m \<Rightarrow> Inl (err name (''is not valid JSON: '' @ m))
           | Inr v \<Rightarrow> Inr v)
      | Some _ \<Rightarrow> Inl (err name ''is not valid JSON: EISDIR: illegal operation on a directory, read''))"

definition validate_portable_snapshot_bundle ::
    "(string \<Rightarrow> string + json) \<Rightarrow> bundle_dir \<Rightarrow> string list + portable_documents" where
  "validate_portable_snapshot_bundle parse dir =
     bind_res (read_portable_json parse dir ''manifest.json'') (\<lambda>manifest.
     bind_res (read_portable_json parse dir ''objects.json'') (\<lambda>objects.
     bind_res (read_portable_json parse dir ''relocations.json'') (\<lambda>relocations.
     bind_res (read_portable_json parse dir ''resources.json'') (\<lambda>resources.
     let docs = \<lparr>manifest_doc = manifest, objects_doc = objects,
                 relocations_doc = relocations, resources_doc = resources\<rparr>;
         errors = validate_portable_snapshot_documents docs (Some dir)
     in if errors \<noteq> [] then Inl errors else Inr docs))))"

definition is_portable_snapshot_bundle :: "bundle_dir \<Rightarrow> bool" where
  "is_portable_snapshot_bundle dir \<longleftrightarrow> dir ''manifest.json'' \<noteq> None"

end
