(* ===== verification/Portable_Laws.thy ===== *)
theory Portable_Laws
  imports Portable_Snapshot
begin

text \<open>
  The validators of portable snapshots are more lenient than the published schemas: additional
  properties are ignored and an empty resource flag passes. With the schemas read that way they
  accept exactly the documents that conform, name the checkpoint function of the runtime and agree
  with each other: object ids are distinct and every relocation refers to one of them.
\<close>

named_theorems accepts "when a validator reports no error"

section \<open>Validity of a value that is present\<close>

definition valid :: "schema \<Rightarrow> json \<Rightarrow> bool" where
  "valid sch v \<longleftrightarrow> v \<noteq> Undefined \<and> conforms False sch v"

definition optional_valid :: "schema \<Rightarrow> json \<Rightarrow> bool" where
  "optional_valid sch v \<longleftrightarrow> v = Undefined \<or> valid sch v"

lemma valid_object:
  assumes "set req \<subseteq> fst ` set props"
  shows "valid (object_schema req props) v \<longleftrightarrow> is_object v \<and>
    (\<forall>p \<in> set props. if fst p \<in> set req then valid (snd p) (field (members v) (fst p))
       else optional_valid (snd p) (field (members v) (fst p)))"
proof (cases v)
  case (Obj fs)
  have "(\<forall>p \<in> set props. property_ok False (snd p) (field fs (fst p))) \<and> list_all (\<lambda>k. field fs k \<noteq> Undefined) req \<longleftrightarrow>
    (\<forall>p \<in> set props. if fst p \<in> set req then valid (snd p) (field fs (fst p))
       else optional_valid (snd p) (field fs (fst p)))" (is "?l = ?r")
  proof
    assume ?l then show ?r by (auto simp: property_ok_def valid_def optional_valid_def list_all_iff)
  next
    assume r: ?r
    have "field fs k \<noteq> Undefined" if "k \<in> set req" for k
    proof -
      have "k \<in> fst ` set props" using assms that by blast
      then obtain p where "p \<in> set props" "fst p = k" by blast
      with r that show ?thesis by (auto simp: valid_def)
    qed
    moreover have "property_ok False (snd p) (field fs (fst p))" if "p \<in> set props" for p
      using r that by (auto simp: property_ok_def valid_def optional_valid_def split: if_splits)
    ultimately show ?l by (simp add: list_all_iff)
  qed
  then show ?thesis using Obj by (simp add: valid_def has_type_def members_def is_object_def)
qed (simp_all add: valid_def has_type_def is_object_def)

lemma valid_array:
  assumes "\<not> conforms False sch Undefined"
  shows "valid (Type Array_type # Items sch # rest) v \<longleftrightarrow>
    has_type Array_type v \<and> (\<forall>x \<in> set (elements v). valid sch x) \<and> conforms False rest v"
  using assms by (auto simp: valid_def has_type_def split: json.splits)

section \<open>Single values\<close>

lemma err_not_Nil [simp]: "err path msg \<noteq> []"
  by (simp add: err_def)

lemma expect_record_accepts [accepts]: "expect_record path v f = [] \<longleftrightarrow> is_object v \<and> f (members v) = []"
  by (simp add: expect_record_def is_object_def members_def split: json.split)

lemma expect_array_accepts [accepts]: "expect_array path v f = [] \<longleftrightarrow> has_type Array_type v \<and> f (elements v) = []"
  by (simp add: expect_array_def has_type_def elements_def split: json.split)

lemma for_each_accepts:
  assumes "\<And>p x. f p x = [] \<longleftrightarrow> P x"
  shows "for_each path f vs = [] \<longleftrightarrow> (\<forall>x \<in> set vs. P x)"
proof -
  have "for_each path f vs = [] \<longleftrightarrow> (\<forall>x \<in> snd ` set (enumerate 0 vs). P x)"
    by (auto simp: for_each_def assms)
  also have "snd ` set (enumerate 0 vs) = set vs" by (metis list.set_map map_snd_enumerate)
  finally show ?thesis .
qed

lemma if_present_accepts [accepts]:
  "(f v = [] \<longleftrightarrow> valid sch v) \<Longrightarrow> if_present v f = [] \<longleftrightarrow> optional_valid sch v"
  by (simp add: if_present_def optional_valid_def)

lemma format_version_accepts [accepts]: "validate_format_version path v = [] \<longleftrightarrow> valid [Const (Num 1)] v"
  by (auto simp: validate_format_version_def valid_def)

lemma enum_accepts [accepts]: "validate_enum path v allowed = [] \<longleftrightarrow> valid [Enum allowed] v"
  by (cases v) (simp_all add: validate_enum_def valid_def)

lemma string_accepts [accepts]: "validate_string path v = [] \<longleftrightarrow> valid [Type String_type] v"
  by (cases v) (simp_all add: validate_string_def valid_def has_type_def)

lemma non_empty_string_accepts [accepts]:
  "validate_non_empty_string path v = [] \<longleftrightarrow> valid [Type String_type, Min_length_1] v"
  by (cases v) (simp_all add: validate_non_empty_string_def valid_def has_type_def)

lemma integer_accepts [accepts]: "validate_integer path v = [] \<longleftrightarrow> valid [Type Integer_type] v"
  by (cases v) (simp_all add: validate_integer_def valid_def has_type_def)

lemma positive_integer_accepts [accepts]:
  "validate_positive_integer path v = [] \<longleftrightarrow> valid [Type Integer_type, Minimum 1] v"
  by (cases v) (simp_all add: validate_positive_integer_def valid_def has_type_def)

lemma non_negative_integer_accepts [accepts]:
  "validate_non_negative_integer path v = [] \<longleftrightarrow> valid [Type Integer_type, Minimum 0] v"
  by (cases v) (simp_all add: validate_non_negative_integer_def valid_def has_type_def)

lemma matches_re_valid: "matches_re re v \<longleftrightarrow> valid [Type String_type, Pattern re] v"
  by (cases v) (simp_all add: matches_re_def valid_def has_type_def)

lemma hex_address_accepts [accepts]:
  "validate_hex_address path v = [] \<longleftrightarrow> valid [Type String_type, Pattern ''^0x[0-9A-Fa-f]+$''] v"
  by (simp add: validate_hex_address_def ADDRESS_RE_def matches_re_valid)

lemma build_id_accepts [accepts]: "validate_build_id path v = [] \<longleftrightarrow> valid BUILD_ID_SCHEMA v"
  by (simp add: validate_build_id_def BUILD_ID_RE_def BUILD_ID_SCHEMA_def matches_re_valid)

lemma symbol_object_accepts [accepts]: "validate_symbol_object path v = [] \<longleftrightarrow> valid SYMBOL_SCHEMA v"
  by (simp add: validate_symbol_object_def SYMBOL_SCHEMA_def valid_object accepts validate_symbol_name_def
      SYMBOL_RE_def matches_re_valid)

lemma in_ranges_single: "in_ranges [(d, d)] c \<longleftrightarrow> c = d"
  using of_char_eq_iff [where 'a = nat, of c d] by (auto simp: in_ranges_def)

lemma starts_with_pattern: "regex_test ''^/'' s \<longleftrightarrow> starts_with s ''/''"
proof -
  have "read_atoms (length ''^/'') (drop 1 ''^/'') = ([([(CHR ''/'', CHR ''/'')], 1, Some 1)], False)"
    by code_simp
  then have "regex_test ''^/'' s \<longleftrightarrow> match_atoms [([(CHR ''/'', CHR ''/'')], 1, Some 1)] False s"
    by (simp only: regex_test_def prod.case)
  also have "\<dots> \<longleftrightarrow> takeWhile (in_ranges [(CHR ''/'', CHR ''/'')]) s \<noteq> []"
    by (auto simp: list_ex_iff Suc_le_eq simp del: upt_Suc)
  also have "\<dots> \<longleftrightarrow> starts_with s ''/''"
    by (cases s) (auto simp: starts_with_def in_ranges_single)
  finally show ?thesis .
qed

lemma absolute_path_accepts [accepts]:
  "validate_absolute_path path v = [] \<longleftrightarrow> valid [Type String_type, Pattern ''^/''] v"
  by (cases v) (simp_all add: validate_absolute_path_def valid_def has_type_def starts_with_pattern)

lemma string_record_accepts [accepts]:
  "validate_string_record path v = [] \<longleftrightarrow> valid [Type Object_type, Properties [] (Some [Type String_type])] v"
proof (cases v)
  case (Obj fs)
  have "(case x of Undefined \<Rightarrow> [] | Str _ \<Rightarrow> [] | _ \<Rightarrow> err p m) = [] \<longleftrightarrow> x = Undefined \<or> has_type String_type x" for x p m
    by (simp add: has_type_def split: json.split)
  with Obj show ?thesis
    by (auto simp: validate_string_record_def expect_record_def valid_def has_type_def [of Object_type] members_def
        holds.simps(5) list_all_iff)
qed (simp_all add: validate_string_record_def expect_record_def valid_def has_type_def)

lemma memory_range_accepts [accepts]: "validate_memory_range path v = [] \<longleftrightarrow> valid memory_schema v"
  by (simp add: validate_memory_range_def memory_schema_def valid_object accepts)

section \<open>Arrays of strings\<close>

lemma string_array_items_accept:
  "validate_string_array_items path i vs unique pattern seen = [] \<longleftrightarrow>
   (\<forall>v \<in> set vs. valid (Type String_type # (case pattern of None \<Rightarrow> [] | Some re \<Rightarrow> [Pattern re])) v) \<and>
   (unique \<longrightarrow> distinct vs \<and> (\<forall>s \<in> set seen. Str s \<notin> set vs))"
proof (induction path i vs unique pattern seen rule: validate_string_array_items.induct)
  case (2 path i v vs unique pattern seen)
  show ?case
  proof (cases v)
    case (Str s)
    obtain es seen' where item: "validate_string_array_unique path s unique seen = (es, seen')" by fastforce
    then have es: "es = [] \<longleftrightarrow> \<not> (unique \<and> s \<in> set seen)" and seen': "unique \<Longrightarrow> seen' = s # seen"
      by (auto simp: validate_string_array_unique_def split: if_splits)
    have pat: "validate_string_array_pattern q s pattern = [] \<longleftrightarrow>
      valid (Type String_type # (case pattern of None \<Rightarrow> [] | Some re \<Rightarrow> [Pattern re])) v" for q
      by (simp add: validate_string_array_pattern_def valid_def has_type_def Str split: option.split)
    have full: "validate_string_array_item path i v unique pattern seen =
        (validate_string_array_pattern (at_index path i) s pattern @ es, seen')"
      by (simp add: validate_string_array_item_def Str item)
    show ?thesis
      using 2 [OF full [symmetric]] seen' unfolding validate_string_array_items.simps full
      by (auto simp: es pat Str)
  qed (simp_all add: validate_string_array_item_def valid_def has_type_def)
qed simp

lemma min_items_accept:
  "validate_array_min_items path vs m = [] \<longleftrightarrow> (case m of None \<Rightarrow> True | Some n \<Rightarrow> n \<le> length vs)"
  by (simp add: validate_array_min_items_def not_less split: option.split)

lemma string_array_accepts:
  "validate_string_array path v m unique pattern = [] \<longleftrightarrow>
   valid ([Type Array_type, Items (Type String_type # (case pattern of None \<Rightarrow> [] | Some re \<Rightarrow> [Pattern re]))] @
     (case m of None \<Rightarrow> [] | Some n \<Rightarrow> [Min_items n]) @ (if unique then [Unique_items] else [])) v"
  by (cases v) (auto simp: validate_string_array_def accepts valid_array has_type_def elements_def min_items_accept
      string_array_items_accept split: option.split)

lemma plain_array_accepts [accepts]:
  "validate_string_array path v None False None = [] \<longleftrightarrow> valid [Type Array_type, Items [Type String_type]] v"
  by (simp add: string_array_accepts)

lemma unique_array_accepts [accepts]:
  "validate_string_array path v None True None = [] \<longleftrightarrow>
   valid [Type Array_type, Items [Type String_type], Unique_items] v"
  by (simp add: string_array_accepts)

section \<open>Refusals and the manifest\<close>

lemma refusal_accepts [accepts]: "validate_refusal path v = [] \<longleftrightarrow> valid REFUSAL_SCHEMA v"
proof -
  have "(x = Undefined \<or> is_object x) \<longleftrightarrow> optional_valid [Type Object_type] x" for x
    by (cases x) (simp_all add: optional_valid_def valid_def has_type_def is_object_def)
  then show ?thesis
    by (auto simp: validate_refusal_def REFUSAL_SCHEMA_def valid_object accepts)
qed

lemma unsupported_accepts [accepts]: "validate_unsupported path v = [] \<longleftrightarrow> valid UNSUPPORTED_SCHEMA v"
proof -
  have refusals: "for_each p validate_refusal vs = [] \<longleftrightarrow> (\<forall>x \<in> set vs. valid REFUSAL_SCHEMA x)" for p vs
    by (rule for_each_accepts) (rule refusal_accepts)
  have "\<not> conforms False REFUSAL_SCHEMA Undefined" by (simp add: REFUSAL_SCHEMA_def has_type_def)
  then show ?thesis
    by (simp add: validate_unsupported_def UNSUPPORTED_SCHEMA_def valid_object valid_array accepts refusals)
      (auto simp: valid_def)
qed

lemma target_archs_accept:
  "validate_target_archs i seen vs = [] \<longleftrightarrow>
   (\<forall>v \<in> set vs. valid [Enum PORTABLE_GUEST_ARCHES] v) \<and> distinct vs \<and> (\<forall>s \<in> set seen. Str s \<notin> set vs)"
proof (induction i seen vs rule: validate_target_archs.induct)
  case (2 i seen v vs)
  show ?case
  proof (cases v)
    case (Str s)
    with 2 show ?thesis by (auto simp: accepts)
  qed (use 2 in \<open>simp_all add: accepts valid_def\<close>)
qed simp

lemma allowed_target_archs_accepts [accepts]:
  "validate_allowed_target_archs v = [] \<longleftrightarrow>
   valid [Type Array_type, Min_items 1, Unique_items, Items [Enum PORTABLE_GUEST_ARCHES]] v"
proof (cases v)
  case (Arr vs)
  have enum: "valid [Enum PORTABLE_GUEST_ARCHES] x \<longleftrightarrow> conforms False [Enum PORTABLE_GUEST_ARCHES] x" for x
    by (auto simp: valid_def)
  have "validate_allowed_target_archs v = [] \<longleftrightarrow>
      vs \<noteq> [] \<and> (\<forall>x \<in> set vs. conforms False [Enum PORTABLE_GUEST_ARCHES] x) \<and> distinct vs"
    by (simp add: validate_allowed_target_archs_def expect_array_def Arr target_archs_accept enum)
  moreover have "valid [Type Array_type, Min_items 1, Unique_items, Items [Enum PORTABLE_GUEST_ARCHES]] v \<longleftrightarrow>
      vs \<noteq> [] \<and> distinct vs \<and> (\<forall>x \<in> set vs. conforms False [Enum PORTABLE_GUEST_ARCHES] x)"
    by (simp add: valid_def has_type_def elements_def Arr Suc_le_eq)
  ultimately show ?thesis by blast
qed (simp_all add: validate_allowed_target_archs_def accepts valid_def has_type_def)

lemma program_accepts [accepts]: "validate_program v = [] \<longleftrightarrow> valid program_schema v"
  by (simp add: validate_program_def program_schema_def valid_object accepts)

lemma source_build_accepts [accepts]: "validate_source_build v = [] \<longleftrightarrow> valid source_build_schema v"
  by (simp add: validate_source_build_def source_build_schema_def valid_object accepts)

lemma target_build_accepts [accepts]: "validate_target_build v = [] \<longleftrightarrow> valid target_build_schema v"
proof (cases v)
  case (Obj fs)
  then show ?thesis
    by (auto simp: validate_target_build_def target_build_schema_def accepts valid_def [of "Type Object_type # _"]
        has_type_def is_object_def members_def property_ok_def optional_valid_def [unfolded valid_def])
qed (simp_all add: validate_target_build_def target_build_schema_def accepts valid_def has_type_def is_object_def)

lemma safe_point_accepts [accepts]: "validate_checkpoint_safe_point v = [] \<longleftrightarrow> valid safe_point_schema v"
  by (auto simp: validate_checkpoint_safe_point_def safe_point_schema_def valid_object accepts valid_def [of "[Const _]"])

text \<open>The name of the checkpoint function, which the schema leaves open.\<close>

definition checkpoint_function_name :: "json \<Rightarrow> json" where
  "checkpoint_function_name manifest =
     field (members (field (members (field (members manifest) ''checkpointAbi'')) ''checkpointFunction'')) ''name''"

lemma checkpoint_abi_accepts:
  "validate_checkpoint_abi v = [] \<longleftrightarrow> valid checkpoint_abi_schema v \<and>
     field (members (field (members v) ''checkpointFunction'')) ''name'' = Str ''machinen_checkpoint''"
  by (auto simp: validate_checkpoint_abi_def checkpoint_abi_schema_def valid_object accepts valid_def [of "[Const _]"])

lemma process_accepts [accepts]: "validate_process v = [] \<longleftrightarrow> valid process_schema v"
proof -
  let ?argv = "[Type Array_type, Items [Type String_type], Min_items 1]"
  have "validate_string_array p x (Some 1) False None = [] \<and> strings_of x \<noteq> Some [] \<longleftrightarrow> valid ?argv x" for p x
  proof (cases x)
    case (Arr vs)
    then show ?thesis
      by (cases vs) (auto simp: string_array_accepts valid_array has_type_def elements_def strings_of_def
          List.map_filter_simps valid_def split: json.splits)
  qed (simp_all add: string_array_accepts valid_def has_type_def)
  then show ?thesis
    by (auto simp: validate_process_def process_schema_def valid_object accepts)
qed

lemma manifest_accepts:
  "validate_manifest m = [] \<longleftrightarrow> conforms False manifest_schema m \<and> checkpoint_function_name m = Str ''machinen_checkpoint''"
proof -
  have features: "validate_string_array p x None True (Some FEATURE_RE) = [] \<longleftrightarrow>
      valid [Type Array_type, Unique_items, Items [Type String_type, Pattern ''^[a-z0-9][a-z0-9._-]*$'']] x" for p x
    by (auto simp: string_array_accepts FEATURE_RE_def valid_def)
  have "validate_manifest m = [] \<longleftrightarrow> valid manifest_schema m \<and> checkpoint_function_name m = Str ''machinen_checkpoint''"
    by (simp add: validate_manifest_def manifest_schema_def valid_object accepts checkpoint_abi_accepts features
        checkpoint_function_name_def) blast
  moreover have "conforms False manifest_schema m \<longleftrightarrow> valid manifest_schema m"
    by (auto simp: valid_def manifest_schema_def has_type_def)
  ultimately show ?thesis by blast
qed

section \<open>Objects\<close>

lemma object_allocation_accepts [accepts]: "validate_object_allocation path v = [] \<longleftrightarrow> valid allocation_schema v"
  by (simp add: validate_object_allocation_def allocation_schema_def valid_object accepts)

lemma object_entry_accepts:
  assumes "validate_object_entry path v ids = (es, ids')"
  shows "es = [] \<longleftrightarrow> valid object_entry_schema v \<and> (\<forall>s. object_id v = Some s \<longrightarrow> s \<notin> set ids)"
    "ids' = (case object_id v of None \<Rightarrow> ids | Some s \<Rightarrow> s # ids)"
proof -
  have ids: "ids' = (case object_id v of None \<Rightarrow> ids | Some s \<Rightarrow> s # ids)" and
    es: "es = [] \<longleftrightarrow> valid object_entry_schema v \<and> (\<forall>s. object_id v = Some s \<longrightarrow> s \<notin> set ids)"
  proof (atomize (full), cases v)
    case (Obj fs)
    obtain es1 ids1 where one: "validate_object_id path (field fs ''id'') ids = (es1, ids1)" by fastforce
    have "es1 = [] \<longleftrightarrow> valid [Type String_type, Min_length_1] (field fs ''id'') \<and> (\<forall>s. object_id v = Some s \<longrightarrow> s \<notin> set ids)"
      "ids1 = (case object_id v of None \<Rightarrow> ids | Some s \<Rightarrow> s # ids)"
      using one by (auto simp: validate_object_id_def object_id_def Obj accepts valid_def has_type_def split: json.splits if_splits)
    then show "ids' = (case object_id v of None \<Rightarrow> ids | Some s \<Rightarrow> s # ids) \<and>
        (es = [] \<longleftrightarrow> valid object_entry_schema v \<and> (\<forall>s. object_id v = Some s \<longrightarrow> s \<notin> set ids))"
      using assms by (auto simp: validate_object_entry_def Obj one object_entry_schema_def valid_object accepts
          is_object_def members_def OBJECT_KINDS_def)
  qed (use assms in \<open>auto simp: validate_object_entry_def object_entry_schema_def valid_def has_type_def object_id_def\<close>)
  then show "es = [] \<longleftrightarrow> valid object_entry_schema v \<and> (\<forall>s. object_id v = Some s \<longrightarrow> s \<notin> set ids)"
    "ids' = (case object_id v of None \<Rightarrow> ids | Some s \<Rightarrow> s # ids)" by blast+
qed

lemma object_entries_accept:
  "validate_object_entries i vs ids = [] \<longleftrightarrow>
   (\<forall>v \<in> set vs. valid object_entry_schema v) \<and> distinct (List.map_filter object_id vs) \<and>
   set (List.map_filter object_id vs) \<inter> set ids = {}"
proof (induction i vs ids rule: validate_object_entries.induct)
  case (2 i v vs ids)
  obtain es ids' where entry: "validate_object_entry (at_index ''objects.objects'' i) v ids = (es, ids')" by fastforce
  show ?case
    using 2 [OF entry [symmetric]] object_entry_accepts [OF entry]
    by (auto simp: entry List.map_filter_simps split: option.splits)
qed (simp add: List.map_filter_simps)

lemma objects_accept:
  "validate_objects d = [] \<longleftrightarrow> conforms False objects_schema d \<and> distinct (collect_object_ids d)"
proof -
  have "\<not> conforms False object_entry_schema Undefined" by (simp add: object_entry_schema_def has_type_def)
  then have "validate_objects d = [] \<longleftrightarrow> valid objects_schema d \<and> distinct (collect_object_ids d)"
    by (auto simp: validate_objects_def objects_schema_def valid_object valid_array accepts object_entries_accept
        collect_object_ids_def)
  moreover have "conforms False objects_schema d \<longleftrightarrow> valid objects_schema d"
    by (auto simp: valid_def objects_schema_def has_type_def)
  ultimately show ?thesis by blast
qed

section \<open>Relocations and resources\<close>

text \<open>What the relocations of a document refer to.\<close>

definition relocation_ends :: "json \<Rightarrow> json list" where
  "relocation_ends d =
     concat (map (\<lambda>r. [field (members r) ''fromObject'', field (members r) ''toObject''])
       (elements (field (members d) ''relocations'')))"

lemma object_ref_accepts:
  "validate_object_ref path v ids = [] \<longleftrightarrow> valid [Type String_type, Min_length_1] v \<and> v \<in> Str ` set ids"
  by (cases v) (auto simp: validate_object_ref_def accepts valid_def has_type_def)

lemma relocation_entry_accepts:
  "validate_relocation_entry ids path v = [] \<longleftrightarrow> valid relocation_schema v \<and>
     field (members v) ''fromObject'' \<in> Str ` set ids \<and> field (members v) ''toObject'' \<in> Str ` set ids"
  by (auto simp: validate_relocation_entry_def relocation_schema_def valid_object accepts object_ref_accepts)

lemma relocations_accept:
  "validate_relocations d objs = [] \<longleftrightarrow> conforms False relocations_schema d \<and>
     set (relocation_ends d) \<subseteq> Str ` set (collect_object_ids objs)"
proof -
  have each: "for_each p (validate_relocation_entry ids) vs = [] \<longleftrightarrow>
      (\<forall>v \<in> set vs. valid relocation_schema v \<and> field (members v) ''fromObject'' \<in> Str ` set ids \<and>
         field (members v) ''toObject'' \<in> Str ` set ids)" for p ids vs
    by (rule for_each_accepts) (rule relocation_entry_accepts)
  have "\<not> conforms False relocation_schema Undefined" by (simp add: relocation_schema_def has_type_def)
  then have "validate_relocations d objs = [] \<longleftrightarrow> valid relocations_schema d \<and>
      set (relocation_ends d) \<subseteq> Str ` set (collect_object_ids objs)"
    by (auto simp: validate_relocations_def relocations_schema_def valid_object valid_array accepts each relocation_ends_def)
  moreover have "conforms False relocations_schema d \<longleftrightarrow> valid relocations_schema d"
    by (auto simp: valid_def relocations_schema_def has_type_def)
  ultimately show ?thesis by blast
qed

lemma resource_accepts: "validate_resource path v = [] \<longleftrightarrow> valid (resource_schema_for [Type String_type]) v"
  by (simp add: validate_resource_def resource_schema_for_def valid_object accepts RESOURCE_KINDS_def)

lemma resources_accept: "validate_resources d = [] \<longleftrightarrow> conforms False (resources_schema_for [Type String_type]) d"
proof -
  have each: "for_each p validate_resource vs = [] \<longleftrightarrow> (\<forall>v \<in> set vs. valid (resource_schema_for [Type String_type]) v)" for p vs
    by (rule for_each_accepts) (rule resource_accepts)
  have "\<not> conforms False (resource_schema_for [Type String_type]) Undefined"
    by (simp add: resource_schema_for_def has_type_def)
  then have "validate_resources d = [] \<longleftrightarrow> valid (resources_schema_for [Type String_type]) d"
    by (auto simp: validate_resources_def resources_schema_for_def valid_object valid_array accepts each)
  then show ?thesis by (auto simp: valid_def resources_schema_for_def has_type_def)
qed

section \<open>Bundles\<close>

text \<open>
  The documents of a bundle and how they fit together: each conforms to its schema, the checkpoint
  function is the one of the ABI, object ids are distinct and relocations refer to objects.
\<close>

definition documents_fit :: "portable_documents \<Rightarrow> bool" where
  "documents_fit docs \<longleftrightarrow>
     conforms False manifest_schema (manifest_doc docs) \<and>
     checkpoint_function_name (manifest_doc docs) = Str ''machinen_checkpoint'' \<and>
     conforms False objects_schema (objects_doc docs) \<and> distinct (collect_object_ids (objects_doc docs)) \<and>
     conforms False relocations_schema (relocations_doc docs) \<and>
     set (relocation_ends (relocations_doc docs)) \<subseteq> Str ` set (collect_object_ids (objects_doc docs)) \<and>
     conforms False (resources_schema_for [Type String_type]) (resources_doc docs)"

lemma documents_accept: "validate_portable_snapshot_documents docs None = [] \<longleftrightarrow> documents_fit docs"
  by (simp add: validate_portable_snapshot_documents_def documents_fit_def manifest_accepts objects_accept
      relocations_accept resources_accept validate_portable_bundle_files_def)

lemma bundle_files_accept:
  "validate_portable_bundle_files (Some dir) = [] \<longleftrightarrow>
   (\<exists>t. dir ''memory.bin'' = Some (Plain_file t)) \<and> dir ''logs'' = Some Folder"
  by (auto simp: validate_portable_bundle_files_def validate_existing_path_def split: option.splits bundle_item.splits)

text \<open>
  C16: a bundle is accepted exactly when its four documents can be read, fit, and stand beside a
  memory image and a log directory. Documents fit (\<open>documents_fit\<close>) if each conforms to a lenient
  reading of its published schema - additional properties, which the schemas forbid, are ignored, and
  the flags of a resource, which the schema wants non-empty, may be empty - and if moreover the
  checkpoint function has its name, the object ids are distinct and both ends of every relocation are
  among them. So acceptance is not conformance to the published schemas: \<open>lax_resources_pass\<close> shows a
  document that is accepted and does not conform.
\<close>

theorem portable_bundle_accepted:
  "validate_portable_snapshot_bundle parse dir = Inr docs \<longleftrightarrow>
     read_portable_json parse dir ''manifest.json'' = Inr (manifest_doc docs) \<and>
     read_portable_json parse dir ''objects.json'' = Inr (objects_doc docs) \<and>
     read_portable_json parse dir ''relocations.json'' = Inr (relocations_doc docs) \<and>
     read_portable_json parse dir ''resources.json'' = Inr (resources_doc docs) \<and>
     documents_fit docs \<and> (\<exists>t. dir ''memory.bin'' = Some (Plain_file t)) \<and> dir ''logs'' = Some Folder"
proof -
  have all: "validate_portable_snapshot_documents d (Some dir) = [] \<longleftrightarrow>
      documents_fit d \<and> (\<exists>t. dir ''memory.bin'' = Some (Plain_file t)) \<and> dir ''logs'' = Some Folder" for d
    using documents_accept [of d] bundle_files_accept [of dir]
    by (simp add: validate_portable_snapshot_documents_def validate_portable_bundle_files_def [of None]) blast
  show ?thesis
    unfolding validate_portable_snapshot_bundle_def Let_def
    by (cases docs) (auto simp: bind_res_def all split: sum.splits)
qed

text \<open>A bundle of a program with two objects, one of which points to the other.\<close>

definition no_refusals :: json where
  "no_refusals = Obj [(''vocabularyVersion'', Num 1), (''refusals'', Arr [])]"

definition sample_manifest :: json where
  "sample_manifest =
     Obj [(''formatVersion'', Num 1), (''sourceGuestArch'', Str ''arm64''),
          (''allowedTargetGuestArchs'', Arr [Str ''amd64'']),
          (''program'', Obj [(''name'', Str ''p''), (''executable'', Str ''/p'')]),
          (''sourceBuild'', Obj [(''buildId'', Str ''00ffAA11'')]),
          (''targetBuild'', Obj [(''version'', Str ''1'')]),
          (''checkpointAbi'', Obj
            [(''version'', Num 1), (''checkpointFunction'', Obj [(''name'', Str ''machinen_checkpoint'')]),
             (''rootsType'', Str ''machinen_checkpoint_roots''), (''restoreBundleType'', Str ''machinen_restore_bundle''),
             (''safePoint'', Obj [(''outsideSignalHandlers'', Bool True), (''outsideSyscalls'', Bool True)])]),
          (''checkpointContinuation'', Obj [(''name'', Str ''cont'')]),
          (''restoreEntrypoint'', Obj [(''name'', Str ''_start'')]),
          (''process'', Obj [(''argv'', Arr [Str ''p'']), (''env'', Obj []), (''cwd'', Str ''/'')]),
          (''features'', Arr [Str ''a.b'']), (''unsupported'', no_refusals)]"

definition sample_documents :: portable_documents where
  "sample_documents =
     \<lparr>manifest_doc = sample_manifest,
      objects_doc = Obj [(''formatVersion'', Num 1),
        (''objects'', Arr [Obj [(''id'', Str ''a''), (''kind'', Str ''heap'')], Obj [(''id'', Str ''b''), (''kind'', Str ''stack'')]]),
        (''unsupported'', no_refusals)],
      relocations_doc = Obj [(''formatVersion'', Num 1),
        (''relocations'', Arr [Obj [(''fromObject'', Str ''b''), (''fromOffset'', Num 8), (''toObject'', Str ''a'')]]),
        (''unsupported'', no_refusals)],
      resources_doc = Obj [(''formatVersion'', Num 1), (''resources'', Arr []), (''unsupported'', no_refusals)]\<rparr>"

lemma sample_manifest_passes: "validate_manifest sample_manifest = []"
proof -
  let ?f = "field (members sample_manifest)"
  have "validate_format_version ''manifest.formatVersion'' (?f ''formatVersion'') = []"
    "validate_enum ''manifest.sourceGuestArch'' (?f ''sourceGuestArch'') PORTABLE_GUEST_ARCHES = []"
    "validate_allowed_target_archs (?f ''allowedTargetGuestArchs'') = []"
    "validate_program (?f ''program'') = []" "validate_target_build (?f ''targetBuild'') = []"
    "validate_unsupported ''manifest.unsupported'' (?f ''unsupported'') = []"
    by code_simp+
  moreover have "validate_source_build (?f ''sourceBuild'') = []" by code_simp
  moreover have "validate_checkpoint_abi (?f ''checkpointAbi'') = []" by code_simp
  moreover have "validate_symbol_object ''manifest.checkpointContinuation'' (?f ''checkpointContinuation'') = []"
    "validate_symbol_object ''manifest.restoreEntrypoint'' (?f ''restoreEntrypoint'') = []"
    by code_simp+
  moreover have "validate_process (?f ''process'') = []" by code_simp
  moreover have "validate_string_array ''manifest.features'' (?f ''features'') None True (Some FEATURE_RE) = []"
    by code_simp
  ultimately have "validate_manifest (Obj (members sample_manifest)) = []"
    unfolding validate_manifest_def expect_record_def by simp
  moreover have "Obj (members sample_manifest) = sample_manifest" by (simp add: sample_manifest_def members_def)
  ultimately show ?thesis by simp
qed

lemma sample_documents_fit: "documents_fit sample_documents"
proof -
  have "validate_objects (objects_doc sample_documents) = []" "validate_resources (resources_doc sample_documents) = []"
    "validate_relocations (relocations_doc sample_documents) (objects_doc sample_documents) = []"
    by code_simp+
  moreover have "manifest_doc sample_documents = sample_manifest" by (simp add: sample_documents_def)
  ultimately show ?thesis
    unfolding documents_accept [symmetric]
    by (simp add: validate_portable_snapshot_documents_def sample_manifest_passes validate_portable_bundle_files_def)
qed

theorem portable_bundle_accepted_witness:
  "validate_portable_snapshot_bundle
     (\<lambda>t. if t = ''m'' then Inr sample_manifest else if t = ''o'' then Inr (objects_doc sample_documents)
       else if t = ''l'' then Inr (relocations_doc sample_documents) else Inr (resources_doc sample_documents))
     (map_of [(''manifest.json'', Plain_file ''m''), (''objects.json'', Plain_file ''o''),
       (''relocations.json'', Plain_file ''l''), (''resources.json'', Plain_file ''r''),
       (''memory.bin'', Plain_file ''''), (''logs'', Folder)]) = Inr sample_documents"
  unfolding portable_bundle_accepted
  by (simp add: sample_documents_fit read_portable_json_def) (simp add: sample_documents_def)

text \<open>Documents that conform to the published schemas are accepted if they fit together.\<close>

lemma flags_lenient:
  "conforms False resources_schema d \<Longrightarrow> conforms False (resources_schema_for [Type String_type]) d"
proof -
  let ?strict = "resource_schema_for [Type String_type, Min_length_1]" and ?lax = "resource_schema_for [Type String_type]"
  have flags: "optional_valid [Type Array_type, Items [Type String_type, Min_length_1], Unique_items] x \<Longrightarrow>
      optional_valid [Type Array_type, Items [Type String_type], Unique_items] x" for x
    by (auto simp: optional_valid_def valid_def)
  have undefined: "\<not> conforms False ?strict Undefined" "\<not> conforms False ?lax Undefined"
    by (simp_all add: resource_schema_for_def has_type_def)
  have entry: "valid ?strict x \<Longrightarrow> valid ?lax x" for x
    by (simp add: resource_schema_for_def valid_object flags)
  assume "conforms False resources_schema d"
  then have "valid (resources_schema_for [Type String_type, Min_length_1]) d"
    by (auto simp: valid_def resources_schema_def resources_schema_for_def has_type_def)
  then have "valid (resources_schema_for [Type String_type]) d"
    by (simp add: resources_schema_for_def valid_object valid_array undefined entry)
  then show ?thesis by (simp add: valid_def)
qed

theorem published_schemas_suffice:
  assumes "conforms True manifest_schema (manifest_doc docs)" "conforms True objects_schema (objects_doc docs)"
    and "conforms True relocations_schema (relocations_doc docs)" "conforms True resources_schema (resources_doc docs)"
    and "checkpoint_function_name (manifest_doc docs) = Str ''machinen_checkpoint''"
    and "distinct (collect_object_ids (objects_doc docs))"
    and "set (relocation_ends (relocations_doc docs)) \<subseteq> Str ` set (collect_object_ids (objects_doc docs))"
  shows "validate_portable_snapshot_documents docs None = []"
  using assms conforms_lenient flags_lenient unfolding documents_accept documents_fit_def by blast

text \<open>The converse fails: an empty flag and an additional property pass the validator only.\<close>

definition lax_resources :: json where
  "lax_resources =
     Obj [(''formatVersion'', Num 1),
          (''resources'', Arr [Obj [(''id'', Str ''r''), (''kind'', Str ''fd''), (''state'', Str ''captured''), (''flags'', Arr [Str ''''])]]),
          (''unsupported'', Obj [(''vocabularyVersion'', Num 1), (''refusals'', Arr [])])]"

lemma lax_resources_pass: "validate_resources lax_resources = []" "\<not> conforms False resources_schema lax_resources"
  by code_simp+

end
