(* ===== verification/Json_Text.thy ===== *)
theory Json_Text
  imports Json
begin

text \<open>
  The text of a document, \<open>JSON.stringify\<close> without indentation, and that it determines the
  document: the texts of strings are a prefix code, and those of documents are one in front of a
  delimiter.
\<close>

definition int_text :: "int \<Rightarrow> string" where
  "int_text n = (if n < 0 then CHR ''-'' # dec_string (nat (- n)) else dec_string (nat n))"

text \<open>Members that are undefined are left out, undefined elements become \<open>null\<close>.\<close>

fun json_text :: "json \<Rightarrow> string" where
  "json_text Undefined = ''null''"
| "json_text Null = ''null''"
| "json_text (Bool b) = (if b then ''true'' else ''false'')"
| "json_text (Num n) = int_text n"
| "json_text (Fraction s) = s"
| "json_text (Str s) = json_string s"
| "json_text (Arr vs) = CHR ''['' # join_on CHR '','' (map json_text vs) @ '']''"
| "json_text (Obj fs) =
     CHR ''{'' # join_on CHR '',''
       (map (\<lambda>m. json_string (fst m) @ CHR '':'' # json_text (snd m)) (filter (\<lambda>m. snd m \<noteq> Undefined) fs)) @ ''}''"

section \<open>Strings\<close>

definition hex_value :: "char \<Rightarrow> nat" where
  "hex_value c = (if is_digit c then of_char c - 48 else of_char c - 87)"

lemma hex_value_digit: "n < 16 \<Longrightarrow> hex_value (hex_digit n) = n"
  by (simp add: hex_value_def hex_digit_def is_digit_def)

text \<open>Reading one character of a string back.\<close>

definition read_json_char :: "string \<Rightarrow> char \<times> string" where
  "read_json_char s =
     (if hd s \<noteq> CHR 0x5C then (hd s, tl s)
      else
        let d = s ! 1 in
        if d = CHR ''b'' then (CHR 0x08, drop 2 s)
        else if d = CHR ''t'' then (CHR 0x09, drop 2 s)
        else if d = CHR ''n'' then (CHR 0x0A, drop 2 s)
        else if d = CHR ''f'' then (CHR 0x0C, drop 2 s)
        else if d = CHR ''r'' then (CHR 0x0D, drop 2 s)
        else if d = CHR ''u'' then (char_of (16 * hex_value (s ! 4) + hex_value (s ! 5)), drop 6 s)
        else (d, drop 2 s))"

lemma read_json_char: "read_json_char (json_char c @ s) = (c, s)"
proof -
  let ?n = "of_char c :: nat"
  have code: "?n = of_char d \<longleftrightarrow> c = d" for d by simp
  consider "c = CHR 0x22" | "c = CHR 0x5C" | "c = CHR 0x08" | "c = CHR 0x09" | "c = CHR 0x0A" | "c = CHR 0x0C"
    | "c = CHR 0x0D" | (low) "?n < 32" "?n \<notin> {8, 9, 10, 12, 13}" | (plain) "32 \<le> ?n" "?n \<noteq> 34" "?n \<noteq> 92"
    using code [of "CHR 0x22"] code [of "CHR 0x5C"] code [of "CHR 0x08"] code [of "CHR 0x09"] code [of "CHR 0x0A"]
      code [of "CHR 0x0C"] code [of "CHR 0x0D"] by (simp del: of_char_eq_iff) (metis not_le)
  then show ?thesis
  proof cases
    case low
    have "16 * (?n div 16) + ?n mod 16 = ?n" by simp
    moreover have "?n div 16 < 16" using low by simp
    ultimately show ?thesis
      using low by (simp add: json_char_def read_json_char_def hex_value_digit Let_def)
  next
    case plain
    then have "json_char c = [c]" by (simp add: json_char_def Let_def)
    moreover have "c \<noteq> CHR 0x5C" using plain by auto
    ultimately show ?thesis by (simp add: read_json_char_def)
  qed (simp_all add: json_char_def read_json_char_def Let_def)
qed

lemma json_char_prefix: "json_char c @ s = json_char d @ t \<Longrightarrow> c = d \<and> s = t"
  by (metis prod.inject read_json_char)

lemma json_char_start: "\<exists>x xs. json_char c = x # xs \<and> x \<noteq> CHR 0x22"
  by (auto simp: json_char_def Let_def)

lemma json_chars_prefix:
  "concat (map json_char a) @ CHR 0x22 # s = concat (map json_char b) @ CHR 0x22 # t \<Longrightarrow> a = b \<and> s = t"
proof (induction a arbitrary: b)
  case Nil
  then show ?case using json_char_start [of "hd b"] by (cases b) auto
next
  case (Cons c a)
  show ?case
  proof (cases b)
    case Nil
    then show ?thesis using Cons.prems json_char_start [of c] by auto
  next
    case (Cons d b')
    with Cons.prems have "json_char c @ concat (map json_char a) @ CHR 0x22 # s =
        json_char d @ concat (map json_char b') @ CHR 0x22 # t" by simp
    from json_char_prefix [OF this] show ?thesis using Cons.IH [of b'] Cons by blast
  qed
qed

lemma json_string_prefix: "json_string a @ s = json_string b @ t \<Longrightarrow> a = b \<and> s = t"
  using json_chars_prefix [of a s b t] by (simp add: json_string_def)

section \<open>Numbers\<close>

definition delimited :: "string \<Rightarrow> bool" where
  "delimited s \<longleftrightarrow> s = [] \<or> hd s \<in> {CHR '','', CHR '']'', CHR ''}''}"

lemma delimited_simps [simp]: "delimited []" "delimited (CHR '','' # s)" "delimited (CHR '']'' # s)" "delimited (CHR ''}'' # s)"
  by (simp_all add: delimited_def)

lemma takeWhile_number: "delimited s \<Longrightarrow> takeWhile is_digit (dec_string n @ s) = dec_string n"
proof -
  assume "delimited s"
  then have "takeWhile is_digit s = []"
    by (cases s) (auto simp: delimited_def is_digit_def)
  moreover have "\<forall>c \<in> set (dec_string n). is_digit c" using dec_string_digit by blast
  ultimately show ?thesis by (simp add: takeWhile_append)
qed

lemma dec_string_prefix:
  assumes "dec_string m @ s = dec_string n @ t" "delimited s" "delimited t"
  shows "m = n \<and> s = t"
proof -
  have "dec_string m = dec_string n" using assms takeWhile_number by metis
  then show ?thesis using assms(1) by (metis append_same_eq dec_value_dec_string same_append_eq)
qed

lemma dec_string_start: "\<exists>c cs. dec_string n = c # cs \<and> is_digit c"
  using dec_string_not_Nil [of n] dec_string_digit [of "hd (dec_string n)" n] by (cases "dec_string n") auto

lemma int_text_prefix:
  assumes "int_text m @ s = int_text n @ t" "delimited s" "delimited t"
  shows "m = n \<and> s = t"
proof -
  have sign: "m < 0 \<longleftrightarrow> n < 0"
    using assms(1) dec_string_start [of "nat m"] dec_string_start [of "nat n"]
    by (auto simp: int_text_def is_digit_def split: if_splits)
  then have "dec_string (nat (if m < 0 then - m else m)) @ s = dec_string (nat (if m < 0 then - n else n)) @ t"
    using assms(1) by (simp add: int_text_def split: if_splits)
  from dec_string_prefix [OF this assms(2,3)] sign show ?thesis by (auto split: if_splits)
qed

section \<open>Documents\<close>

text \<open>Documents whose text is their own: without undefined members and fractions.\<close>

fun plain_json :: "json \<Rightarrow> bool" where
  "plain_json Undefined = False"
| "plain_json (Fraction s) = False"
| "plain_json (Arr vs) = list_all plain_json vs"
| "plain_json (Obj fs) = list_all (\<lambda>m. plain_json (snd m)) fs"
| "plain_json _ = True"

lemma json_text_start: "plain_json v \<Longrightarrow> \<exists>c cs. json_text v = c # cs \<and> c \<notin> {CHR '']'', CHR ''}''}"
  using dec_string_start [of "nat (abs (case v of Num n \<Rightarrow> n | _ \<Rightarrow> 0))"]
  by (cases v) (auto simp: json_string_def int_text_def is_digit_def)

lemma join_prefix:
  assumes elem: "\<And>x y s t. x \<in> set xs \<Longrightarrow> y \<in> set ys \<Longrightarrow> f x @ s = f y @ t \<Longrightarrow> delimited s \<Longrightarrow> delimited t \<Longrightarrow> x = y \<and> s = t"
    and start: "\<And>x. x \<in> set xs \<union> set ys \<Longrightarrow> \<exists>c cs. f x = c # cs \<and> c \<noteq> close"
    and close: "close \<in> {CHR '']'', CHR ''}''}"
    and eq: "join_on CHR '','' (map f xs) @ close # s = join_on CHR '','' (map f ys) @ close # t"
  shows "xs = ys \<and> s = t"
  using elem start eq
proof (induction xs arbitrary: ys)
  case Nil
  show ?case
  proof (cases ys)
    case (Cons y ys')
    with Nil(2) [of y] obtain c cs where "f y = c # cs" "c \<noteq> close" by auto
    with Nil(3) Cons show ?thesis by (cases ys') auto
  qed (use Nil in simp)
next
  case (Cons x xs)
  from Cons.prems(2) [of x] obtain c cs where c: "f x = c # cs" "c \<noteq> close" by auto
  show ?case
  proof (cases ys)
    case Nil
    with Cons.prems(3) c show ?thesis by (cases xs) auto
  next
    case ys: (Cons y ys')
    let ?rest = "\<lambda>zs u. if zs = [] then close # u else CHR '','' # join_on CHR '','' (map f zs) @ close # u"
    have split: "join_on CHR '','' (map f (z # zs)) @ close # u = f z @ ?rest zs u" for z zs u
      by (cases zs) simp_all
    have heads: "f x @ ?rest xs s = f y @ ?rest ys' t"
      using Cons.prems(3) unfolding ys split .
    have delim: "delimited (?rest zs u)" for zs u using close by (cases zs) auto
    have "x = y \<and> ?rest xs s = ?rest ys' t"
      by (rule Cons.prems(1) [OF _ _ heads delim delim]) (simp_all add: ys)
    then have xy: "x = y" and rest: "?rest xs s = ?rest ys' t" by blast+
    have "xs = ys' \<and> s = t"
    proof (cases "xs = [] \<or> ys' = []")
      case True
      with rest close show ?thesis by (auto split: if_splits)
    next
      case False
      with rest have eq: "join_on CHR '','' (map f xs) @ close # s = join_on CHR '','' (map f ys') @ close # t" by simp
      have elem: "x' = y' \<and> s' = t'" if "x' \<in> set xs" "y' \<in> set ys'" "f x' @ s' = f y' @ t'" "delimited s'" "delimited t'"
        for x' y' s' t' by (rule Cons.prems(1) [OF _ _ that(3-5)]) (use that ys in simp_all)
      have start: "\<exists>c cs. f z = c # cs \<and> c \<noteq> close" if "z \<in> set xs \<union> set ys'" for z
        by (rule Cons.prems(2)) (use that ys in auto)
      show ?thesis by (rule Cons.IH [OF elem start eq])
    qed
    with xy ys show ?thesis by simp
  qed
qed

text \<open>The first character of a text tells what kind of value it is.\<close>

definition json_kind :: "char \<Rightarrow> nat" where
  "json_kind c =
     (if c = CHR ''n'' then 0 else if c = CHR ''t'' \<or> c = CHR ''f'' then 1 else if c = CHR 0x22 then 3
      else if c = CHR ''['' then 4 else if c = CHR ''{'' then 5 else 2)"

definition json_tag :: "json \<Rightarrow> nat" where
  "json_tag v = (case v of Bool _ \<Rightarrow> 1 | Num _ \<Rightarrow> 2 | Str _ \<Rightarrow> 3 | Arr _ \<Rightarrow> 4 | Obj _ \<Rightarrow> 5 | _ \<Rightarrow> 0)"

lemma json_text_kind:
  assumes "plain_json v"
  shows "\<exists>c cs. json_text v = c # cs \<and> json_kind c = json_tag v"
proof (cases v)
  case (Num n)
  have digit: "json_kind c = 2" if "is_digit c" for c using that by (auto simp: json_kind_def is_digit_def)
  obtain c cs where c: "dec_string (nat n) = c # cs" "is_digit c" using dec_string_start by blast
  show ?thesis
  proof (cases "n < 0")
    case False
    then show ?thesis using Num c digit by (simp add: int_text_def json_tag_def)
  qed (simp add: Num int_text_def json_kind_def json_tag_def)
qed (use assms in \<open>simp_all add: json_string_def json_kind_def json_tag_def\<close>)

lemma json_text_inj_kind:
  assumes "json_text v @ s = json_text w @ t" "plain_json v" "plain_json w"
  shows "json_tag v = json_tag w"
  using json_text_kind [OF assms(2)] json_text_kind [OF assms(3)] assms(1) by fastforce

theorem json_text_prefix:
  "json_text v @ s = json_text w @ t \<Longrightarrow> plain_json v \<Longrightarrow> plain_json w \<Longrightarrow> delimited s \<Longrightarrow> delimited t \<Longrightarrow> v = w \<and> s = t"
proof (induction v arbitrary: w s t)
  case (Arr vs)
  note kind = json_text_inj_kind [OF Arr.prems(1-3)]
  then obtain ws where w: "w = Arr ws" by (cases w) (auto simp: json_tag_def)
  have "vs = ws \<and> s = t"
  proof (rule join_prefix [where f = json_text and close = "CHR '']''"])
    show "\<exists>c cs. json_text x = c # cs \<and> c \<noteq> CHR '']''" if "x \<in> set vs \<union> set ws" for x
      using that Arr.prems(2,3) json_text_start [of x] by (auto simp: w list_all_iff)
    show "x = y \<and> s' = t'" if "x \<in> set vs" "y \<in> set ws" "json_text x @ s' = json_text y @ t'"
      "delimited s'" "delimited t'" for x y s' t'
      using that Arr.prems(2,3) by (intro Arr.IH) (simp_all add: w list_all_iff)
  qed (use Arr.prems(1) in \<open>simp_all add: w\<close>)
  with w show ?case by simp
next
  case (Obj fs)
  note kind = json_text_inj_kind [OF Obj.prems(1-3)]
  then obtain gs where w: "w = Obj gs" by (cases w) (auto simp: json_tag_def)
  let ?f = "\<lambda>m. json_string (fst m) @ CHR '':'' # json_text (snd m)"
  have keep: "filter (\<lambda>m. snd m \<noteq> Undefined) ms = ms" if "list_all (\<lambda>m. plain_json (snd m)) ms" for ms
    using that by (induction ms) auto
  have "fs = gs \<and> s = t"
  proof (rule join_prefix [where f = ?f and close = "CHR ''}''"])
    show "\<exists>c cs. ?f m = c # cs \<and> c \<noteq> CHR ''}''" for m by (simp add: json_string_def)
    show "x = y \<and> s' = t'" if "x \<in> set fs" "y \<in> set gs" "?f x @ s' = ?f y @ t'" "delimited s'" "delimited t'" for x y s' t'
    proof -
      have "json_string (fst x) @ CHR '':'' # json_text (snd x) @ s' = json_string (fst y) @ CHR '':'' # json_text (snd y) @ t'"
        using that(3) by simp
      from json_string_prefix [OF this] have key: "fst x = fst y" and "json_text (snd x) @ s' = json_text (snd y) @ t'"
        by simp_all
      moreover have "snd x \<in> Basic_BNFs.snds x" by (cases x) simp
      ultimately have "snd x = snd y \<and> s' = t'"
        using that Obj.prems(2,3) by (intro Obj.IH) (auto simp: w list_all_iff)
      with key show ?thesis by (simp add: prod_eq_iff)
    qed
    show "join_on CHR '','' (map ?f fs) @ CHR ''}'' # s = join_on CHR '','' (map ?f gs) @ CHR ''}'' # t"
      using Obj.prems(1-3) by (simp add: w keep)
  qed simp
  with w show ?case by simp
next
  case (Str a)
  note kind = json_text_inj_kind [OF Str.prems(1-3)]
  then obtain b where w: "w = Str b" by (cases w) (auto simp: json_tag_def)
  with Str.prems(1) have "json_string a @ s = json_string b @ t" by simp
  from json_string_prefix [OF this] w show ?case by simp
next
  case (Num m)
  note kind = json_text_inj_kind [OF Num.prems(1-3)]
  then obtain n where w: "w = Num n" by (cases w) (auto simp: json_tag_def)
  with Num.prems(1) have "int_text m @ s = int_text n @ t" by simp
  from int_text_prefix [OF this Num.prems(4,5)] w show ?case by simp
next
  case (Bool b)
  note kind = json_text_inj_kind [OF Bool.prems(1-3)]
  then obtain c where "w = Bool c" by (cases w) (auto simp: json_tag_def)
  with Bool.prems show ?case by (cases b; cases c) auto
next
  case Null
  note kind = json_text_inj_kind [OF Null.prems(1-3)]
  with Null.prems show ?case by (cases w) (auto simp: json_tag_def)
qed simp_all

corollary json_text_inj: "json_text v = json_text w \<Longrightarrow> plain_json v \<Longrightarrow> plain_json w \<Longrightarrow> v = w"
  using json_text_prefix [of v "[]" w "[]"] by simp

end
