(* ===== verification/Run_Access.thy ===== *)
theory Run_Access
  imports Run_Recipe Json_Text Posix_Path
begin

text \<open>
  The host access of a run recipe, \<^verbatim>\<open>packages/cli/src/run-access.ts\<close>: the workspace, the state
  directories, the directories that symbolic links below the host home lead to, and the
  fingerprint of all this, which is what the user approves.

  The host's file system is a parameter and stands still while a plan is made. Host paths are
  resolved paths; guest paths are kept as the texts the mounts carry.
\<close>

section \<open>The host\<close>

datatype entry_kind = Link_entry | Dir_entry | Other_entry

text \<open>What the calls of \<open>node:fs\<close> answer; \<open>None\<close> is a throw. Directory entries are given with the
  kind of their \<open>Dirent\<close>, and \<open>text_order\<close> is the order of \<open>localeCompare\<close>.\<close>

record host_fs =
  fs_exists :: "path \<Rightarrow> bool"
  fs_is_directory :: "path \<Rightarrow> bool option"
  fs_realpath :: "path \<Rightarrow> path option"
  fs_entries :: "path \<Rightarrow> (string \<times> entry_kind) list option"
  fs_readlink :: "path \<Rightarrow> string option"
  locale_le :: "string \<Rightarrow> string \<Rightarrow> bool"

definition MAX_LIVE_MOUNTS :: nat where "MAX_LIVE_MOUNTS = 5"
definition MAX_SCANNED_ENTRIES :: nat where "MAX_SCANNED_ENTRIES = 250000"

datatype access_error = Scan_exceeded | Too_many_mounts nat

record access_mount =
  am_host :: path
  am_guest :: string
  am_mode :: access_mode

record internal_mount = access_mount +
  canonical_host :: path

record grant_mount = access_mount +
  resolved_host :: "path option"

datatype state_source = Home_state | Isolated_state

record planned_state = grant_mount +
  ps_name :: string
  ps_source :: state_source
  ps_linked :: "grant_mount list"
  ps_unresolved :: "string list"

record access_plan =
  pl_workspace :: "access_mount option"
  pl_states :: "planned_state list"
  pl_live_mounts :: "access_mount list"
  pl_fingerprint :: string

section \<open>Paths\<close>

text \<open>\<open>posix.normalize\<close> of an absolute path keeps a slash at the end; \<open>posix.dirname\<close> drops it.\<close>

definition normalize_absolute :: "string \<Rightarrow> string" where
  "normalize_absolute s =
     (let p = resolve [] s in path_text p @ (if p \<noteq> [] \<and> ends_with s ''/'' then ''/'' else []))"

definition guest_dirname :: "string \<Rightarrow> string" where
  "guest_dirname s = path_text (butlast (segments s))"

definition escapes_root :: "string \<Rightarrow> bool" where
  "escapes_root s \<longleftrightarrow> s = ''..'' \<or> starts_with s ''../'' \<or> is_absolute s"

text \<open>Climb to the nearest ancestor that exists and follow its links.\<close>

fun canonical_from :: "host_fs \<Rightarrow> path \<Rightarrow> string list \<Rightarrow> string list \<Rightarrow> path" where
  "canonical_from fs p rev_existing missing =
     (if fs_exists fs (rev rev_existing)
      then (case fs_realpath fs (rev rev_existing) of Some r \<Rightarrow> r @ missing | None \<Rightarrow> p)
      else (case rev_existing of [] \<Rightarrow> p | x # xs \<Rightarrow> canonical_from fs p xs (x # missing)))"

declare canonical_from.simps [simp del]

definition canonical_path :: "host_fs \<Rightarrow> path \<Rightarrow> path" where
  "canonical_path fs p = canonical_from fs p (rev p) []"

section \<open>Coverage\<close>

definition mapping_relative :: "internal_mount \<Rightarrow> path \<Rightarrow> string \<Rightarrow> string option" where
  "mapping_relative m host_target guest_target =
     (let host_relative = relative (canonical_host m) host_target;
          guest_relative = relative (resolve [] (am_guest m)) (resolve [] guest_target) in
      if escapes_root host_relative \<or> escapes_root guest_relative then None
      else if host_relative = guest_relative then Some guest_relative else None)"

definition covers :: "internal_mount \<Rightarrow> path \<Rightarrow> string \<Rightarrow> bool" where
  "covers m host_target guest_target \<longleftrightarrow> mapping_relative m host_target guest_target \<noteq> None"

definition mount_covers_mount :: "internal_mount \<Rightarrow> internal_mount \<Rightarrow> bool" where
  "mount_covers_mount parent child \<longleftrightarrow> covers parent (canonical_host child) (am_guest child)"

record resolved_target =
  rt_host :: path
  rt_canonical :: path
  rt_guest :: string
  rt_directory :: bool

definition mount_covers_target :: "internal_mount \<Rightarrow> resolved_target \<Rightarrow> bool" where
  "mount_covers_target m t \<longleftrightarrow> covers m (rt_canonical t) (rt_guest t)"

section \<open>Scanning a mount\<close>

text \<open>A link: where it is on the host and in the guest, and its text.\<close>

type_synonym link = "path \<times> path \<times> string"

definition dir_entries :: "host_fs \<Rightarrow> path \<Rightarrow> path \<Rightarrow> (path \<times> path \<times> entry_kind) list" where
  "dir_entries fs host guest =
     (case fs_entries fs host of
        None \<Rightarrow> []
      | Some es \<Rightarrow> map (\<lambda>(name, kind). (host @ [name], guest @ [name], kind)) es)"

text \<open>The pending entries are those of the open calls of \<open>scanDirectory\<close>, the innermost first.
  \<open>left\<close> is what is left of the budget; \<open>None\<close> is the throw when it is exceeded.\<close>

fun scan_entries :: "host_fs \<Rightarrow> nat \<Rightarrow> (path \<times> path \<times> entry_kind) list \<Rightarrow> (nat \<times> link list) option" where
  "scan_entries fs left [] = Some (left, [])"
| "scan_entries fs 0 (e # es) = None"
| "scan_entries fs (Suc left) ((host, guest, kind) # es) =
     (case kind of
        Link_entry \<Rightarrow>
          (case scan_entries fs left es of
             None \<Rightarrow> None
           | Some (l, links) \<Rightarrow>
               Some (l, case fs_readlink fs host of None \<Rightarrow> links | Some target \<Rightarrow> (host, guest, target) # links))
      | Dir_entry \<Rightarrow> scan_entries fs left (dir_entries fs host guest @ es)
      | Other_entry \<Rightarrow> scan_entries fs left es)"

definition scan_mount :: "host_fs \<Rightarrow> nat \<Rightarrow> internal_mount \<Rightarrow> (nat \<times> link list) option" where
  "scan_mount fs left m = scan_entries fs left (dir_entries fs (am_host m) (resolve [] (am_guest m)))"

section \<open>Following links\<close>

definition resolve_link_target :: "host_fs \<Rightarrow> link \<Rightarrow> resolved_target option" where
  "resolve_link_target fs l =
     (case l of
        (host_link, guest_link, target) \<Rightarrow>
          let host = (if is_absolute target then resolve [] target else resolve (butlast host_link) target);
              guest = (if is_absolute target then normalize_absolute target
                       else path_text (resolve (butlast guest_link) target))
          in (case fs_is_directory fs host of
                None \<Rightarrow> None
              | Some dir \<Rightarrow>
                  (case fs_realpath fs host of
                     None \<Rightarrow> None
                   | Some real_host \<Rightarrow>
                       Some \<lparr>rt_host = host, rt_canonical = real_host, rt_guest = guest, rt_directory = dir\<rparr>)))"

definition linked_mount_for_target :: "host_fs \<Rightarrow> resolved_target \<Rightarrow> access_mode \<Rightarrow> internal_mount" where
  "linked_mount_for_target fs t mode =
     (let host = (if rt_directory t then rt_host t else butlast (rt_host t));
          guest = (if rt_directory t then rt_guest t else guest_dirname (rt_guest t))
      in \<lparr>am_host = host, am_guest = guest, am_mode = mode, canonical_host = canonical_path fs host\<rparr>)"

record link_walk =
  lw_mounts :: "internal_mount list"
  lw_queue :: "internal_mount list"
  lw_unresolved :: "string list"

definition add_linked_mount :: "internal_mount \<Rightarrow> internal_mount \<Rightarrow> link_walk \<Rightarrow> link_walk" where
  "add_linked_mount root candidate w =
     (if list_ex (\<lambda>m. mount_covers_mount m candidate) (root # lw_mounts w) then w
      else w\<lparr>lw_mounts := filter (\<lambda>m. \<not> mount_covers_mount candidate m) (lw_mounts w) @ [candidate],
             lw_queue := lw_queue w @ [candidate]\<rparr>)"

definition unresolved_text :: "link \<Rightarrow> string" where
  "unresolved_text l = (case l of (host_link, guest_link, target) \<Rightarrow> path_text guest_link @ '' -> '' @ target)"

definition handle_link :: "host_fs \<Rightarrow> internal_mount \<Rightarrow> link \<Rightarrow> link_walk \<Rightarrow> link_walk" where
  "handle_link fs root l w =
     (case resolve_link_target fs l of
        None \<Rightarrow> w\<lparr>lw_unresolved := lw_unresolved w @ [unresolved_text l]\<rparr>
      | Some t \<Rightarrow>
          if list_ex (\<lambda>m. mount_covers_target m t) (root # lw_mounts w) then w
          else add_linked_mount root (linked_mount_for_target fs t (am_mode root)) w)"

definition scan_key :: "internal_mount \<Rightarrow> path \<times> string" where
  "scan_key m = (canonical_host m, am_guest m)"

text \<open>A link that is handled adds at most one mount to the queue and was paid for from the budget,
  so the loop ends.\<close>

lemma scan_entries_budget: "scan_entries fs left es = Some (l, links) \<Longrightarrow> l + length links \<le> left"
  by (induction fs left es arbitrary: l links rule: scan_entries.induct)
    (fastforce split: entry_kind.splits option.splits)+

lemma handle_link_queue: "length (lw_queue (handle_link fs root l w)) \<le> Suc (length (lw_queue w))"
  by (simp add: handle_link_def add_linked_mount_def split: option.split)

lemma handle_links_queue: "length (lw_queue (fold (handle_link fs root) ls w)) \<le> length ls + length (lw_queue w)"
proof (induction ls arbitrary: w)
  case (Cons l ls)
  from Cons [of "handle_link fs root l w"] handle_link_queue [of fs root l w] show ?case by simp
qed simp

function discover ::
    "host_fs \<Rightarrow> internal_mount \<Rightarrow> nat \<Rightarrow> (path \<times> string) list \<Rightarrow> link_walk \<Rightarrow> link_walk option" where
  "discover fs root left scanned w =
     (case lw_queue w of
        [] \<Rightarrow> Some w
      | current # rest \<Rightarrow>
          if scan_key current \<in> set scanned then discover fs root left scanned (w\<lparr>lw_queue := rest\<rparr>)
          else
            (case scan_mount fs left current of
               None \<Rightarrow> None
             | Some (left', links) \<Rightarrow>
                 discover fs root left' (scan_key current # scanned)
                   (fold (handle_link fs root) links (w\<lparr>lw_queue := rest\<rparr>))))"
  by pat_completeness auto

termination
proof (relation "measure (\<lambda>(fs, root, left, scanned, w). left + length (lw_queue w))", goal_cases)
  case (3 fs root left scanned w current rest r left' links)
  then have "left' + length links \<le> left"
    by (auto simp: scan_mount_def dest: scan_entries_budget)
  moreover have "length (lw_queue (fold (handle_link fs root) links (w\<lparr>lw_queue := rest\<rparr>))) \<le> length links + length rest"
    using handle_links_queue [of fs root links "w\<lparr>lw_queue := rest\<rparr>"] by simp
  ultimately show ?case using 3 by simp
qed auto

declare discover.simps [simp del]

text \<open>\<open>sort\<close> keeps the order of equal elements. Without a comparison it orders by UTF-16 units,
  which for UTF-8 texts is the order of their bytes with the first bytes \<open>0xEE\<close> and \<open>0xEF\<close> behind
  those of the pairs of surrogates.\<close>

fun insert_by :: "('a \<Rightarrow> 'a \<Rightarrow> bool) \<Rightarrow> 'a \<Rightarrow> 'a list \<Rightarrow> 'a list" where
  "insert_by le x [] = [x]"
| "insert_by le x (y # ys) = (if le x y then x # y # ys else y # insert_by le x ys)"

definition sort_by :: "('a \<Rightarrow> 'a \<Rightarrow> bool) \<Rightarrow> 'a list \<Rightarrow> 'a list" where
  "sort_by le xs = foldr (insert_by le) xs []"

definition unit_rank :: "char \<Rightarrow> nat" where
  "unit_rank c = (let n = of_char c in if n = 238 \<or> n = 239 then n + 16 else n)"

fun text_le :: "string \<Rightarrow> string \<Rightarrow> bool" where
  "text_le [] t = True"
| "text_le (x # s) [] = False"
| "text_le (x # s) (y # t) = (unit_rank x < unit_rank y \<or> x = y \<and> text_le s t)"

definition discover_linked_mounts :: "host_fs \<Rightarrow> internal_mount \<Rightarrow> access_error + internal_mount list \<times> string list" where
  "discover_linked_mounts fs root =
     (if \<not> fs_exists fs (am_host root) then Inr ([], [])
      else
        (case discover fs root MAX_SCANNED_ENTRIES [] \<lparr>lw_mounts = [], lw_queue = [root], lw_unresolved = []\<rparr> of
           None \<Rightarrow> Inl Scan_exceeded
         | Some w \<Rightarrow>
             Inr (sort_by (\<lambda>a b. locale_le fs (am_guest a) (am_guest b)) (lw_mounts w),
                  sort_by text_le (lw_unresolved w))))"

section \<open>Plans\<close>

definition resolved_host_field :: "path \<Rightarrow> path \<Rightarrow> path option" where
  "resolved_host_field host real_host = (if real_host = host then None else Some real_host)"

definition grant_of :: "internal_mount \<Rightarrow> grant_mount" where
  "grant_of m =
     \<lparr>am_host = am_host m, am_guest = am_guest m, am_mode = am_mode m,
      resolved_host = resolved_host_field (am_host m) (canonical_host m)\<rparr>"

definition host_home_path :: "string \<Rightarrow> path \<Rightarrow> path option" where
  "host_home_path guest home =
     (if guest \<noteq> ''/root'' \<and> \<not> starts_with guest ''/root/'' then None
      else
        let relative_guest = relative [''root''] (resolve [] (normalize_absolute guest)) in
        if escapes_root relative_guest then None else Some (resolve home relative_guest))"

definition recipe_state_path :: "run_recipe \<Rightarrow> string \<Rightarrow> path \<Rightarrow> path" where
  "recipe_state_path recipe name home =
     resolve home (join_on slash [''.machinen'', ''run'', ''state'', ''machinen.dev'', rc_name recipe, name])"

definition plan_state :: "host_fs \<Rightarrow> run_recipe \<Rightarrow> path \<Rightarrow> state_permission \<Rightarrow> access_error + planned_state" where
  "plan_state fs recipe home state =
     (let home_path = host_home_path (sp_guest state) home;
          host = (case home_path of Some p \<Rightarrow> p | None \<Rightarrow> recipe_state_path recipe (sp_name state) home);
          root = \<lparr>am_host = host, am_guest = sp_guest state, am_mode = sp_mode state,
                  canonical_host = canonical_path fs host\<rparr>
      in bind_res (if home_path \<noteq> None then discover_linked_mounts fs root else Inr ([], [])) (\<lambda>linked.
         Inr \<lparr>am_host = host, am_guest = sp_guest state, am_mode = sp_mode state,
              resolved_host = resolved_host_field host (canonical_host root),
              ps_name = sp_name state, ps_source = (if home_path = None then Isolated_state else Home_state),
              ps_linked = map grant_of (fst linked), ps_unresolved = snd linked\<rparr>))"

definition plan_workspace :: "run_recipe \<Rightarrow> path \<Rightarrow> access_mount option" where
  "plan_workspace recipe cwd =
     (case rc_workspace recipe of
        No_workspace \<Rightarrow> None
      | Workspace mode \<Rightarrow> Some \<lparr>am_host = cwd, am_guest = ''/mnt/workspace'', am_mode = mode\<rparr>)"

text \<open>\<open>{ host, guest, mode }\<close> of a mount\<close>

definition plain_mount :: "('a) access_mount_scheme \<Rightarrow> access_mount" where
  "plain_mount m = \<lparr>am_host = am_host m, am_guest = am_guest m, am_mode = am_mode m\<rparr>"

definition mode_text :: "access_mode \<Rightarrow> string" where
  "mode_text mode = (case mode of Read_only \<Rightarrow> ''ro'' | Read_write \<Rightarrow> ''rw'')"

definition workspace_text :: "workspace_permission \<Rightarrow> string" where
  "workspace_text w = (case w of No_workspace \<Rightarrow> ''none'' | Workspace mode \<Rightarrow> mode_text mode)"

definition mount_json :: "host_fs \<Rightarrow> grant_mount \<Rightarrow> json" where
  "mount_json fs m =
     Obj [(''host'', Str (path_text (canonical_path fs (am_host m)))), (''guest'', Str (am_guest m)),
          (''mode'', Str (mode_text (am_mode m)))]"

definition state_json :: "host_fs \<Rightarrow> planned_state \<Rightarrow> json" where
  "state_json fs s =
     Obj [(''name'', Str (ps_name s)),
          (''source'', Str (case ps_source s of Home_state \<Rightarrow> ''home'' | Isolated_state \<Rightarrow> ''isolated'')),
          (''host'', Str (path_text (canonical_path fs (am_host s)))), (''guest'', Str (am_guest s)),
          (''mode'', Str (mode_text (am_mode s))),
          (''linked'', Arr (map (mount_json fs) (ps_linked s))),
          (''unresolvedLinks'', Arr (map Str (ps_unresolved s)))]"

definition capabilities_json :: "host_fs \<Rightarrow> run_recipe \<Rightarrow> planned_state list \<Rightarrow> json" where
  "capabilities_json fs recipe states =
     Obj [(''version'', Num 1), (''workspace'', Str (workspace_text (rc_workspace recipe))),
          (''states'', Arr (map (state_json fs) states))]"

definition access_fingerprint :: "platform \<Rightarrow> host_fs \<Rightarrow> run_recipe \<Rightarrow> planned_state list \<Rightarrow> string" where
  "access_fingerprint pf fs recipe states =
     sha256_hex pf (bytes_of (json_text (capabilities_json fs recipe states)))"

definition plan_run_access ::
    "platform \<Rightarrow> host_fs \<Rightarrow> path \<Rightarrow> path \<Rightarrow> run_recipe \<Rightarrow> access_error + access_plan" where
  "plan_run_access pf fs home cwd recipe =
     bind_res (map_res (plan_state fs recipe home) (rc_state recipe)) (\<lambda>states.
     let workspace = plan_workspace recipe cwd;
         live = (case workspace of None \<Rightarrow> [] | Some m \<Rightarrow> [m]) @
           concat (map (\<lambda>s. plain_mount s # map plain_mount (ps_linked s)) states)
     in if MAX_LIVE_MOUNTS < length live then Inl (Too_many_mounts (length live))
        else Inr \<lparr>pl_workspace = workspace, pl_states = states, pl_live_mounts = live,
                  pl_fingerprint = access_fingerprint pf fs recipe states\<rparr>)"

end
