(* ===== verification/Access_Laws.thy ===== *)
theory Access_Laws
  imports Run_Access Run_Approval
begin

text \<open>
  What a plan of host access promises: every link that is found below a granted directory leads
  to a granted directory or is reported, nothing else is granted, and the fingerprint that is
  approved fixes the access.
\<close>

section \<open>Coverage is extension of both paths\<close>

lemma segments_join_canonical: "canonical ps \<Longrightarrow> segments (join_on slash ps) = ps"
  by (intro segments_join) (auto simp: canonical_def list_all_iff segment_ok_def)

lemma canonical_join_up:
  assumes "canonical ps"
  shows "join_on slash ps \<noteq> ''..''" "\<not> starts_with (join_on slash ps) ''../''"
proof -
  have dots: "segments ''..'' = [''..'']" by (simp add: segments_def)
  have no_dots: "''..'' \<notin> set ps" using assms by (auto simp: canonical_def list_all_iff segment_ok_def)
  show "join_on slash ps \<noteq> ''..''"
    using segments_join_canonical [OF assms] no_dots dots by (metis list.set_intros(1))
  show "\<not> starts_with (join_on slash ps) ''../''"
  proof
    assume "starts_with (join_on slash ps) ''../''"
    then obtain r where "join_on slash ps = ''..'' @ slash # r" by (auto simp: starts_with_iff)
    then have "ps = [''..''] @ segments r" using segments_join_canonical [OF assms] segments_concat dots by metis
    with no_dots show False by simp
  qed
qed

lemma escapes_relative:
  assumes "canonical a" "canonical b"
  shows "escapes_root (relative a b) \<longleftrightarrow> (\<nexists>r. b = a @ r)"
proof -
  obtain up down where strip: "strip_common a b = (up, down)" by fastforce
  then obtain zs where zs: "a = zs @ up" "b = zs @ down" using strip_common_split by blast
  have down: "list_all segment_ok down" using assms(2) by (simp add: zs canonical_def)
  have head: "up = [] \<or> down = [] \<or> hd up \<noteq> hd down"
    using strip by (induction a b rule: strip_common.induct) (auto split: if_splits)
  have rel: "relative a b = join_on slash (replicate (length up) ''..'' @ down)" by (simp add: relative_def strip)
  show ?thesis
  proof (cases "up = []")
    case True
    have "\<not> is_absolute (join_on slash down)"
      using down by (intro not_absolute_join) (auto simp: list_all_iff segment_ok_def)
    moreover have "join_on slash down \<noteq> ''..''" "\<not> starts_with (join_on slash down) ''../''"
      using canonical_join_up down by (simp_all add: canonical_def)
    ultimately have "\<not> escapes_root (relative a b)" unfolding rel escapes_root_def using True by simp
    then show ?thesis using True zs by auto
  next
    case False
    then obtain u us where up: "up = u # us" by (cases up) auto
    have "escapes_root (relative a b)"
    proof (cases "us = [] \<and> down = []")
      case True
      then show ?thesis by (simp add: rel up escapes_root_def)
    next
      case False
      have step: "join_on slash (''..'' # qs) = ''../'' @ join_on slash qs" if "qs \<noteq> []" for qs
        using that by (cases qs) simp_all
      have "relative a b = join_on slash (''..'' # (replicate (length us) ''..'' @ down))" by (simp add: rel up)
      also have "\<dots> = ''../'' @ join_on slash (replicate (length us) ''..'' @ down)"
        using False by (intro step) simp
      finally have "starts_with (relative a b) ''../''" by (simp add: starts_with_def)
      then show ?thesis by (simp add: escapes_root_def)
    qed
    moreover have "\<nexists>r. b = a @ r" using head up zs by (auto simp: append_eq_append_conv2)
    ultimately show ?thesis by blast
  qed
qed

lemma relative_extension: "relative a (a @ r) = join_on slash r"
proof -
  have "strip_common a (a @ r) = ([], r)" by (induction a) (cases r; simp)+
  then show ?thesis by (simp add: relative_def)
qed

lemma covers_iff:
  assumes "canonical (canonical_host m)" "canonical h"
  shows "covers m h g \<longleftrightarrow> (\<exists>r. h = canonical_host m @ r \<and> resolve [] g = resolve [] (am_guest m) @ r)"
proof -
  let ?g = "resolve [] g" and ?m = "resolve [] (am_guest m)"
  have cg: "canonical ?g" "canonical ?m" by (rule resolve_canonical, simp add: canonical_def)+
  have same: "join_on slash r = join_on slash r' \<longleftrightarrow> r = r'" if "canonical r" "canonical r'" for r r'
    using that segments_join_canonical by metis
  have parts: "canonical r" if "canonical (p @ r)" for p r using that by (simp add: canonical_def)
  have "covers m h g \<longleftrightarrow> (\<exists>r. h = canonical_host m @ r) \<and> (\<exists>r. ?g = ?m @ r) \<and>
      relative (canonical_host m) h = relative ?m ?g"
    unfolding covers_def mapping_relative_def Let_def
    using escapes_relative [OF assms] escapes_relative [OF cg(2,1)] by auto
  also have "\<dots> \<longleftrightarrow> (\<exists>r. h = canonical_host m @ r \<and> ?g = ?m @ r)"
    using assms(2) cg(1) parts same by (auto simp: relative_extension)
  finally show ?thesis .
qed

section \<open>Hosts\<close>

text \<open>What the code relies on: real paths and entries have proper names, and what has a kind
  exists.\<close>

definition fs_ok :: "host_fs \<Rightarrow> bool" where
  "fs_ok fs \<longleftrightarrow>
     (\<forall>p q. fs_realpath fs p = Some q \<longrightarrow> canonical q) \<and>
     (\<forall>p es. fs_entries fs p = Some es \<longrightarrow> (\<forall>e \<in> set es. segment_ok (fst e))) \<and>
     (\<forall>p. fs_is_directory fs p \<noteq> None \<longrightarrow> fs_exists fs p)"

lemma canonical_from_canonical:
  assumes "fs_ok fs" "canonical p"
  shows "canonical (rev e) \<Longrightarrow> canonical m \<Longrightarrow> canonical (canonical_from fs p e m)"
proof (induction e arbitrary: m)
  case Nil
  then show ?case
    using assms by (subst canonical_from.simps) (auto simp: fs_ok_def canonical_def split: option.split)
next
  case (Cons x xs)
  have "canonical (canonical_from fs p xs (x # m))"
    using Cons by (intro Cons.IH) (simp_all add: canonical_def)
  then show ?case
    using assms Cons.prems(2) by (subst canonical_from.simps) (auto simp: fs_ok_def canonical_def split: option.split)
qed

lemma canonical_path_canonical: "fs_ok fs \<Longrightarrow> canonical p \<Longrightarrow> canonical (canonical_path fs p)"
  unfolding canonical_path_def by (rule canonical_from_canonical) (simp_all add: canonical_def)

lemma canonical_path_real: "fs_exists fs p \<Longrightarrow> fs_realpath fs p = Some r \<Longrightarrow> canonical_path fs p = r"
  by (simp add: canonical_path_def canonical_from.simps [of fs p "rev p"])

section \<open>Coverage is a preorder\<close>

definition mount_ok :: "internal_mount \<Rightarrow> bool" where
  "mount_ok m \<longleftrightarrow> canonical (am_host m) \<and> canonical (canonical_host m)"

lemma mount_okD [dest]: "mount_ok m \<Longrightarrow> canonical (canonical_host m)"
  by (simp add: mount_ok_def)

lemma covers_refl: "mount_ok m \<Longrightarrow> mount_covers_mount m m"
  by (auto simp: mount_covers_mount_def covers_iff)

lemma covers_trans:
  assumes "mount_ok a" "mount_ok b" "canonical h" "mount_covers_mount a b" "covers b h g"
  shows "covers a h g"
proof -
  obtain r where "canonical_host b = canonical_host a @ r" "resolve [] (am_guest b) = resolve [] (am_guest a) @ r"
    using assms(1,2,4) covers_iff mount_okD unfolding mount_covers_mount_def by metis
  moreover obtain r' where "h = canonical_host b @ r'" "resolve [] g = resolve [] (am_guest b) @ r'"
    using assms(2,3,5) covers_iff by blast
  ultimately show ?thesis using assms(1,3) by (auto simp: covers_iff)
qed

lemma covers_mount_trans:
  "mount_ok a \<Longrightarrow> mount_ok b \<Longrightarrow> mount_ok c \<Longrightarrow> mount_covers_mount a b \<Longrightarrow> mount_covers_mount b c \<Longrightarrow>
   mount_covers_mount a c"
  using covers_trans unfolding mount_covers_mount_def by blast

lemma covers_target_trans:
  "mount_ok a \<Longrightarrow> mount_ok b \<Longrightarrow> canonical (rt_canonical t) \<Longrightarrow> mount_covers_mount a b \<Longrightarrow>
   mount_covers_target b t \<Longrightarrow> mount_covers_target a t"
  using covers_trans unfolding mount_covers_target_def by blast

text \<open>Coverage sees the key of a mount only.\<close>

lemma covers_key: "scan_key m = scan_key n \<Longrightarrow> mount_covers_mount a m = mount_covers_mount a n"
  by (simp add: mount_covers_mount_def scan_key_def)

section \<open>Scanning\<close>

lemma scan_entries_unique:
  "scan_entries fs left es = Some (l, ls) \<Longrightarrow> scan_entries fs left2 es = Some (l2, ls2) \<Longrightarrow> ls = ls2"
proof (induction fs left es arbitrary: l ls left2 l2 ls2 rule: scan_entries.induct)
  case (3 fs left host guest kind es)
  then show ?case
    by (cases left2) (fastforce split: entry_kind.splits option.splits)+
qed auto

lemma fs_okD:
  assumes "fs_ok fs"
  shows "fs_realpath fs p = Some q \<Longrightarrow> canonical q"
    and "fs_entries fs p = Some es \<Longrightarrow> e \<in> set es \<Longrightarrow> segment_ok (fst e)"
    and "fs_is_directory fs p = Some d \<Longrightarrow> fs_exists fs p"
  using assms unfolding fs_ok_def by blast+

lemma dir_entries_canonical:
  assumes "fs_ok fs" "canonical host" "e \<in> set (dir_entries fs host guest)"
  shows "canonical (fst e)"
proof -
  from assms(3) obtain es n where "fs_entries fs host = Some es" "n \<in> set es" "fst e = host @ [fst n]"
    by (force simp: dir_entries_def split: option.splits)
  moreover from this have "segment_ok (fst n)" using fs_okD(2) [OF assms(1)] by blast
  ultimately show ?thesis using assms(2) by (simp add: canonical_def)
qed

lemma scan_entries_canonical:
  "fs_ok fs \<Longrightarrow> scan_entries fs left es = Some (l, ls) \<Longrightarrow> \<forall>e \<in> set es. canonical (fst e) \<Longrightarrow>
    k \<in> set ls \<Longrightarrow> canonical (fst k)"
proof (induction fs left es arbitrary: l ls rule: scan_entries.induct [case_names Done Empty Step])
  case (Step fs left host guest kind es)
  show ?case
  proof (cases kind)
    case Link_entry
    then show ?thesis using Step.prems Step.IH(1) [OF Link_entry Step.prems(1)] by (auto split: option.splits)
  next
    case Dir_entry
    show ?thesis
    proof (rule Step.IH(2) [OF Dir_entry Step.prems(1)])
      show "\<forall>e \<in> set (dir_entries fs host guest @ es). canonical (fst e)" 
        using Step.prems dir_entries_canonical by fastforce
    qed (use Step.prems Dir_entry in simp_all)
  next
    case Other_entry
    then show ?thesis using Step.prems Step.IH(3) [OF Other_entry Step.prems(1)] by simp
  qed
qed simp_all

section \<open>Discovery\<close>

text \<open>The links below a mount, whatever budget the scan was given.\<close>

definition links_of :: "host_fs \<Rightarrow> internal_mount \<Rightarrow> link set" where
  "links_of fs m = {l. \<exists>left left' ls. scan_mount fs left m = Some (left', ls) \<and> l \<in> set ls}"

lemma links_of_scan: "scan_mount fs left m = Some (left', ls) \<Longrightarrow> links_of fs m = set ls"
  unfolding links_of_def scan_mount_def using scan_entries_unique by blast

lemma links_of_canonical: "fs_ok fs \<Longrightarrow> mount_ok m \<Longrightarrow> l \<in> links_of fs m \<Longrightarrow> canonical (fst l)"
  unfolding links_of_def scan_mount_def mount_ok_def
  using scan_entries_canonical dir_entries_canonical by blast

text \<open>A link leads to a granted directory, or to a file whose directory is granted, or is reported.\<close>

definition link_settled :: "host_fs \<Rightarrow> internal_mount \<Rightarrow> internal_mount list \<Rightarrow> string list \<Rightarrow> link \<Rightarrow> bool" where
  "link_settled fs root mounts unresolved l =
     (case resolve_link_target fs l of
        None \<Rightarrow> unresolved_text l \<in> set unresolved
      | Some t \<Rightarrow>
          list_ex (\<lambda>m. mount_covers_target m t) (root # mounts) \<or>
          list_ex (\<lambda>m. mount_covers_mount m (linked_mount_for_target fs t (am_mode root))) (root # mounts))"

text \<open>What was granted stays granted, by the same mount or a larger one.\<close>

definition grants_more :: "internal_mount list \<Rightarrow> internal_mount list \<Rightarrow> bool" where
  "grants_more ms ms' \<longleftrightarrow> (\<forall>m \<in> set ms. list_ex (\<lambda>a. mount_covers_mount a m) ms')"

lemma grants_more_trans:
  assumes "grants_more as bs" "grants_more bs cs" "list_all mount_ok as" "list_all mount_ok bs" "list_all mount_ok cs"
  shows "grants_more as cs"
  using assms covers_mount_trans unfolding grants_more_def list_ex_iff list_all_iff by meson

lemma grants_moreI:
  "list_all mount_ok ms \<Longrightarrow> \<forall>m \<in> set ms. m \<in> set ms' \<or> (\<exists>a \<in> set ms'. mount_covers_mount a m) \<Longrightarrow> grants_more ms ms'"
  using covers_refl unfolding grants_more_def list_ex_iff list_all_iff by blast

lemma grants_more_refl: "list_all mount_ok ms \<Longrightarrow> grants_more ms ms"
  using covers_refl by (auto simp: grants_more_def list_ex_iff list_all_iff)

lemma canonical_butlast: "canonical p \<Longrightarrow> canonical (butlast p)"
  by (auto simp: canonical_def list_all_iff dest: in_set_butlastD)

lemma resolve_link_target_SomeD:
  assumes "resolve_link_target fs (h, g, target) = Some t"
  shows "rt_host t = resolve (if is_absolute target then [] else butlast h) target"
    and "fs_realpath fs (rt_host t) = Some (rt_canonical t)" "fs_is_directory fs (rt_host t) = Some (rt_directory t)"
  using assms by (auto simp: resolve_link_target_def Let_def split: option.splits if_splits)

lemma resolve_link_target_ok:
  assumes "fs_ok fs" "canonical (fst l)" "resolve_link_target fs l = Some t"
  shows "canonical (rt_host t)" "canonical (rt_canonical t)"
proof -
  obtain h g target where l: "l = (h, g, target)" by (cases l) auto
  note found = resolve_link_target_SomeD [OF assms(3) [unfolded l]]
  have "canonical (if is_absolute target then [] else butlast h)"
    using assms(2) canonical_butlast by (simp add: l) (simp add: canonical_def)
  then show "canonical (rt_host t)" unfolding found(1) by (rule resolve_canonical)
  show "canonical (rt_canonical t)" using fs_okD(1) [OF assms(1) found(2)] .
qed

lemma linked_mount_ok:
  assumes "fs_ok fs" "canonical (fst l)" "resolve_link_target fs l = Some t"
  shows "mount_ok (linked_mount_for_target fs t mode)"
  using resolve_link_target_ok(1) [OF assms] canonical_butlast canonical_path_canonical [OF assms(1)]
  by (simp add: mount_ok_def linked_mount_for_target_def Let_def)

definition walk_ok :: "internal_mount \<Rightarrow> link_walk \<Rightarrow> bool" where
  "walk_ok root w \<longleftrightarrow> list_all mount_ok (root # lw_mounts w) \<and> list_all mount_ok (lw_queue w)"

lemma handle_link_ok:
  assumes "fs_ok fs" "canonical (fst l)" "walk_ok root w"
  shows "walk_ok root (handle_link fs root l w)"
  using assms linked_mount_ok [OF assms(1,2)]
  by (auto simp: handle_link_def add_linked_mount_def walk_ok_def list_all_iff split: option.split)

lemma handle_link_more:
  assumes "fs_ok fs" "canonical (fst l)" "walk_ok root w"
  shows "grants_more (root # lw_mounts w) (root # lw_mounts (handle_link fs root l w))"
proof (rule grants_moreI)
  show "list_all mount_ok (root # lw_mounts w)" using assms(3) by (simp add: walk_ok_def)
  show "\<forall>m \<in> set (root # lw_mounts w). m \<in> set (root # lw_mounts (handle_link fs root l w)) \<or>
      (\<exists>a \<in> set (root # lw_mounts (handle_link fs root l w)). mount_covers_mount a m)"
    by (auto simp: handle_link_def add_linked_mount_def split: option.split)
qed

lemma settled_more:
  assumes "fs_ok fs" "canonical (fst l)" "grants_more (root # ms) (root # ms')" "list_all mount_ok (root # ms)"
    "list_all mount_ok (root # ms')" "set us \<subseteq> set us'" "link_settled fs root ms us l"
  shows "link_settled fs root ms' us' l"
proof (cases "resolve_link_target fs l")
  case (Some t)
  note target = resolve_link_target_ok(2) [OF assms(1,2) Some] linked_mount_ok [OF assms(1,2) Some]
  from assms(7) Some consider
      m where "m \<in> set (root # ms)" "mount_covers_target m t"
    | m where "m \<in> set (root # ms)" "mount_covers_mount m (linked_mount_for_target fs t (am_mode root))"
    by (auto simp: link_settled_def list_ex_iff)
  then show ?thesis
  proof cases
    case 1
    then obtain a where "a \<in> set (root # ms')" "mount_covers_mount a m"
      using assms(3) by (auto simp: grants_more_def list_ex_iff)
    then have "mount_covers_target a t"
      using covers_target_trans 1 assms(4,5) target(1) unfolding list_all_iff by blast
    with \<open>a \<in> _\<close> Some show ?thesis by (auto simp: link_settled_def list_ex_iff)
  next
    case 2
    then obtain a where "a \<in> set (root # ms')" "mount_covers_mount a m"
      using assms(3) by (auto simp: grants_more_def list_ex_iff)
    then have "mount_covers_mount a (linked_mount_for_target fs t (am_mode root))"
      using covers_mount_trans 2 assms(4,5) target(2) unfolding list_all_iff by blast
    with \<open>a \<in> _\<close> Some show ?thesis by (auto simp: link_settled_def list_ex_iff)
  qed
qed (use assms(6,7) in \<open>auto simp: link_settled_def\<close>)

lemma handle_link_settles:
  assumes "fs_ok fs" "canonical (fst l)"
  shows "link_settled fs root (lw_mounts (handle_link fs root l w)) (lw_unresolved (handle_link fs root l w)) l"
  using covers_refl [OF linked_mount_ok [OF assms]]
  by (auto simp: link_settled_def handle_link_def add_linked_mount_def list_ex_iff split: option.split)

lemma handle_link_unresolved: "set (lw_unresolved w) \<subseteq> set (lw_unresolved (handle_link fs root l w))"
  by (auto simp: handle_link_def add_linked_mount_def split: option.split)

lemma handle_links_ok:
  assumes "fs_ok fs"
  shows "\<forall>l \<in> set ls. canonical (fst l) \<Longrightarrow> walk_ok root w \<Longrightarrow> walk_ok root (fold (handle_link fs root) ls w)"
  by (induction ls arbitrary: w) (simp_all add: handle_link_ok [OF assms])

lemma handle_links_more:
  assumes "fs_ok fs"
  shows "\<forall>l \<in> set ls. canonical (fst l) \<Longrightarrow> walk_ok root w \<Longrightarrow>
    grants_more (root # lw_mounts w) (root # lw_mounts (fold (handle_link fs root) ls w)) \<and>
    set (lw_unresolved w) \<subseteq> set (lw_unresolved (fold (handle_link fs root) ls w))"
proof (induction ls arbitrary: w)
  case Nil
  then show ?case by (simp add: grants_more_refl walk_ok_def)
next
  case (Cons l ls)
  let ?w = "handle_link fs root l w"
  have ok: "walk_ok root ?w" using handle_link_ok [OF assms] Cons.prems by simp
  note rest = Cons.IH [OF _ ok]
  have "walk_ok root (fold (handle_link fs root) ls ?w)" using handle_links_ok [OF assms] Cons.prems ok by simp
  then show ?case
    using rest Cons.prems handle_link_more [OF assms, of l root w] handle_link_unresolved [of w fs root l] ok
    by (auto simp: walk_ok_def intro: grants_more_trans)
qed

lemma handle_links_settle:
  assumes "fs_ok fs"
  shows "\<forall>l \<in> set ls. canonical (fst l) \<Longrightarrow> walk_ok root w \<Longrightarrow> l \<in> set ls \<Longrightarrow>
    link_settled fs root (lw_mounts (fold (handle_link fs root) ls w)) (lw_unresolved (fold (handle_link fs root) ls w)) l"
proof (induction ls arbitrary: w)
  case (Cons k ls)
  let ?w = "handle_link fs root k w" and ?w' = "fold (handle_link fs root) ls (handle_link fs root k w)"
  have ok: "walk_ok root ?w" using handle_link_ok [OF assms] Cons.prems by simp
  show ?case
  proof (cases "l \<in> set ls")
    case True
    then show ?thesis using Cons.IH [OF _ ok] Cons.prems by simp
  next
    case False
    with Cons.prems have l: "l = k" "canonical (fst l)" by auto
    have "link_settled fs root (lw_mounts ?w') (lw_unresolved ?w') l"
    proof (rule settled_more [OF assms l(2)])
      show "link_settled fs root (lw_mounts ?w) (lw_unresolved ?w) l" using handle_link_settles [OF assms l(2)] l(1) by simp
    qed (use handle_links_more [OF assms _ ok] handle_links_ok [OF assms _ ok] Cons.prems ok in \<open>auto simp: walk_ok_def\<close>)
    then show ?thesis by simp
  qed
qed simp

text \<open>A mount that was scanned or waits to be scanned stays covered, so its key does not return.\<close>

definition keys_inv :: "internal_mount \<Rightarrow> (path \<times> string) set \<Rightarrow> link_walk \<Rightarrow> bool" where
  "keys_inv root scanned w \<longleftrightarrow>
     distinct (map scan_key (lw_queue w)) \<and> scanned \<inter> set (map scan_key (lw_queue w)) = {} \<and>
     (\<forall>m. mount_ok m \<longrightarrow> scan_key m \<in> scanned \<union> set (map scan_key (lw_queue w)) \<longrightarrow>
       list_ex (\<lambda>a. mount_covers_mount a m) (root # lw_mounts w))"

lemma covered_more:
  assumes "grants_more ms ms'" "list_all mount_ok ms" "list_all mount_ok ms'" "mount_ok m"
    "list_ex (\<lambda>a. mount_covers_mount a m) ms"
  shows "list_ex (\<lambda>a. mount_covers_mount a m) ms'"
  using assms covers_mount_trans unfolding grants_more_def list_ex_iff list_all_iff by meson

lemma handle_link_keys:
  assumes "fs_ok fs" "canonical (fst l)" "walk_ok root w" "keys_inv root scanned w"
  shows "keys_inv root scanned (handle_link fs root l w)"
proof -
  let ?w = "handle_link fs root l w"
  have covered: "list_ex (\<lambda>a. mount_covers_mount a m) (root # lw_mounts ?w)"
    if "mount_ok m" "list_ex (\<lambda>a. mount_covers_mount a m) (root # lw_mounts w)" for m
    using covered_more [OF handle_link_more [OF assms(1-3)]] handle_link_ok [OF assms(1-3)] assms(3) that
    by (simp add: walk_ok_def)
  show ?thesis
  proof (cases "lw_queue ?w = lw_queue w")
    case True
    then show ?thesis using assms(4) covered by (simp add: keys_inv_def)
  next
    case False
    then obtain t where t: "resolve_link_target fs l = Some t"
      by (auto simp: handle_link_def split: option.splits)
    let ?c = "linked_mount_for_target fs t (am_mode root)"
    have c: "mount_ok ?c" by (rule linked_mount_ok [OF assms(1,2) t])
    from False t have new: "lw_queue ?w = lw_queue w @ [?c]" "?c \<in> set (lw_mounts ?w)"
        "\<not> list_ex (\<lambda>a. mount_covers_mount a ?c) (root # lw_mounts w)"
      by (auto simp: handle_link_def add_linked_mount_def list_ex_iff split: if_splits)
    have fresh: "scan_key ?c \<notin> scanned \<union> set (map scan_key (lw_queue w))"
      using new(3) assms(4) c unfolding keys_inv_def by blast
    have "list_ex (\<lambda>a. mount_covers_mount a m) (root # lw_mounts ?w)" if "mount_ok m" "scan_key m = scan_key ?c" for m
      using covers_refl [OF c] covers_key [OF that(2)] new(2) by (auto simp: list_ex_iff)
    then show ?thesis using assms(4) covered fresh by (auto simp: keys_inv_def new(1))
  qed
qed

lemma handle_links_keys:
  assumes "fs_ok fs"
  shows "\<forall>l \<in> set ls. canonical (fst l) \<Longrightarrow> walk_ok root w \<Longrightarrow> keys_inv root scanned w \<Longrightarrow>
    keys_inv root scanned (fold (handle_link fs root) ls w)"
  by (induction ls arbitrary: w) (simp_all add: handle_link_keys [OF assms] handle_link_ok [OF assms])

lemma handle_link_mounts:
  "set (lw_mounts (handle_link fs root l w)) \<subseteq> set (lw_mounts w) \<union> set (lw_queue (handle_link fs root l w))"
  "set (lw_queue w) \<subseteq> set (lw_queue (handle_link fs root l w))"
  by (auto simp: handle_link_def add_linked_mount_def split: option.splits)

lemma handle_links_mounts:
  "set (lw_mounts (fold (handle_link fs root) ls w)) \<subseteq> set (lw_mounts w) \<union> set (lw_queue (fold (handle_link fs root) ls w)) \<and>
   set (lw_queue w) \<subseteq> set (lw_queue (fold (handle_link fs root) ls w))"
proof (induction ls arbitrary: w)
  case (Cons l ls)
  then show ?case using handle_link_mounts [where fs = fs and root = root and l = l and w = w] by fastforce
qed simp

definition walk_inv :: "host_fs \<Rightarrow> internal_mount \<Rightarrow> (path \<times> string) list \<Rightarrow> link_walk \<Rightarrow> bool" where
  "walk_inv fs root scanned w \<longleftrightarrow> walk_ok root w \<and> keys_inv root (set scanned) w \<and>
     (\<forall>m \<in> set (root # lw_mounts w). m \<in> set (lw_queue w) \<or>
       (\<forall>l \<in> links_of fs m. link_settled fs root (lw_mounts w) (lw_unresolved w) l))"

lemma walk_inv_step:
  assumes fs: "fs_ok fs" and inv: "walk_inv fs root scanned w" and queue: "lw_queue w = current # rest"
    and scan: "scan_mount fs left current = Some (left', links)"
  shows "walk_inv fs root (scan_key current # scanned) (fold (handle_link fs root) links (w\<lparr>lw_queue := rest\<rparr>))"
proof -
  let ?v = "w\<lparr>lw_queue := rest\<rparr>" and ?w = "fold (handle_link fs root) links (w\<lparr>lw_queue := rest\<rparr>)"
  have links: "links_of fs current = set links" by (rule links_of_scan [OF scan])
  have current: "mount_ok current" and v: "walk_ok root ?v" "keys_inv root (set (scan_key current # scanned)) ?v"
    using inv queue by (auto simp: walk_inv_def walk_ok_def keys_inv_def)
  have ok: "\<forall>l \<in> set links. canonical (fst l)" using links_of_canonical [OF fs current] links by simp
  note after = handle_links_ok [OF fs ok v(1)] handle_links_more [OF fs ok v(1)] handle_links_mounts [of fs root links ?v]
  have "m \<in> set (lw_queue ?w) \<or> (\<forall>l \<in> links_of fs m. link_settled fs root (lw_mounts ?w) (lw_unresolved ?w) l)"
    if m: "m \<in> set (root # lw_mounts ?w)" for m
  proof (cases "m \<in> set (lw_queue ?w) \<or> m = current")
    case True
    then show ?thesis using handle_links_settle [OF fs ok v(1)] links by auto
  next
    case False
    with m after(3) have "m \<in> set (root # lw_mounts w)" by auto
    moreover have "m \<notin> set (lw_queue w)" using False after(3) queue by auto
    ultimately have old: "mount_ok m" "\<forall>l \<in> links_of fs m. link_settled fs root (lw_mounts w) (lw_unresolved w) l"
      using inv by (auto simp: walk_inv_def walk_ok_def list_all_iff)
    have "link_settled fs root (lw_mounts ?w) (lw_unresolved ?w) l" if "l \<in> links_of fs m" for l
      by (rule settled_more [OF fs links_of_canonical [OF fs old(1) that], of root "lw_mounts w" _ "lw_unresolved w"])
        (use after v(1) old(2) that in \<open>auto simp: walk_ok_def\<close>)
    then show ?thesis by blast
  qed
  then show ?thesis using after(1) handle_links_keys [OF fs ok v] by (simp add: walk_inv_def)
qed

lemma discover_inv:
  assumes "fs_ok fs"
  shows "walk_inv fs root scanned w \<Longrightarrow> discover fs root left scanned w = Some w' \<Longrightarrow>
    lw_queue w' = [] \<and> (\<exists>scanned'. walk_inv fs root scanned' w')"
proof (induction fs\<equiv>fs root left scanned w rule: discover.induct)
  case (1 root left scanned w)
  show ?case
  proof (cases "lw_queue w")
    case Nil
    then show ?thesis using 1 by (auto simp: discover.simps)
  next
    case (Cons current rest)
    then have "scan_key current \<notin> set scanned" using 1 by (auto simp: walk_inv_def keys_inv_def)
    with 1 Cons walk_inv_step [OF assms 1(3) Cons] show ?thesis
      by (simp add: discover.simps [of fs root left scanned w] split: option.splits prod.splits)
  qed
qed

lemma set_insert_by [simp]: "set (insert_by le x ys) = insert x (set ys)"
  by (induction ys) auto

lemma set_sort_by [simp]: "set (sort_by le xs) = set xs"
  by (induction xs) (simp_all add: sort_by_def)

lemma walk_inv_start:
  assumes "mount_ok root"
  shows "walk_inv fs root [] \<lparr>lw_mounts = [], lw_queue = [root], lw_unresolved = []\<rparr>"
proof -
  have "mount_covers_mount root m" if "scan_key m = scan_key root" for m
    using covers_refl [OF assms] covers_key [OF that] by simp
  then show ?thesis using assms by (simp add: walk_inv_def walk_ok_def keys_inv_def)
qed

lemma discover_linked_mounts_cases:
  assumes "discover_linked_mounts fs root = Inr (mounts, unresolved)"
  obtains "\<not> fs_exists fs (am_host root)" "mounts = []" "unresolved = []"
  | w where "fs_exists fs (am_host root)"
      "discover fs root MAX_SCANNED_ENTRIES [] \<lparr>lw_mounts = [], lw_queue = [root], lw_unresolved = []\<rparr> = Some w"
      "set mounts = set (lw_mounts w)" "set unresolved = set (lw_unresolved w)" 
      "mounts = sort_by (\<lambda>a b. locale_le fs (am_guest a) (am_guest b)) (lw_mounts w)"
  using assms by (auto simp: discover_linked_mounts_def split: if_splits option.splits)

lemma settled_cong:
  "set ms = set ms' \<Longrightarrow> set us = set us' \<Longrightarrow> link_settled fs root ms us l = link_settled fs root ms' us' l"
  by (simp add: link_settled_def list_ex_iff split: option.split)

text \<open>C30: When the mounts of a state are planned, every symbolic link below the state directory and
  below every linked directory that is granted with it is settled: it leads to a place inside of a
  granted directory, or to a file whose directory is inside of one, or it cannot be resolved and
  is reported to the user.\<close>

theorem links_are_granted:
  assumes "fs_ok fs" "mount_ok root" "fs_exists fs (am_host root)"
    and "discover_linked_mounts fs root = Inr (mounts, unresolved)"
    and "m \<in> set (root # mounts)" "scan_mount fs left m = Some (left', links)" "l \<in> set links"
  shows "case resolve_link_target fs l of
      None \<Rightarrow> unresolved_text l \<in> set unresolved
    | Some t \<Rightarrow>
        (\<exists>a \<in> set (root # mounts). mount_covers_target a t) \<or>
        (\<exists>a \<in> set (root # mounts). mount_covers_mount a (linked_mount_for_target fs t (am_mode root)))"
proof -
  from assms(4) show ?thesis
  proof (cases rule: discover_linked_mounts_cases)
    case (2 w)
    from discover_inv [OF assms(1) walk_inv_start [OF assms(2)] 2(2)] obtain scanned
      where "lw_queue w = []" "walk_inv fs root scanned w" by blast
    moreover have "m \<in> set (root # lw_mounts w)" "l \<in> links_of fs m"
      using 2(3) assms(5-7) links_of_scan by auto
    ultimately have "link_settled fs root mounts unresolved l"
      using settled_cong [OF 2(3,4)] by (auto simp: walk_inv_def)
    then show ?thesis by (simp add: link_settled_def list_ex_iff split: option.splits)
  qed (use assms(3) in simp)
qed

text \<open>A configuration directory with a link to a data directory and a broken link\<close>

definition sample_fs :: host_fs where
  "sample_fs =
     \<lparr>fs_exists = (\<lambda>p. p \<in> set [[''u'', ''.config''], [''u'', ''.data'']]),
      fs_is_directory = (\<lambda>p. if p \<in> set [[''u'', ''.config''], [''u'', ''.data'']] then Some True else None),
      fs_realpath = (\<lambda>p. if p \<in> set [[''u'', ''.config''], [''u'', ''.data'']] then Some p else None),
      fs_entries = (\<lambda>p. if p = [''u'', ''.config'']
        then Some [(''data'', Link_entry), (''gone'', Link_entry), (''rc'', Other_entry)] else Some []),
      fs_readlink = (\<lambda>p. if p = [''u'', ''.config'', ''data''] then Some ''../.data''
        else if p = [''u'', ''.config'', ''gone''] then Some ''/gone'' else None),
      locale_le = text_le\<rparr>"

definition sample_root :: internal_mount where
  "sample_root = \<lparr>am_host = [''u'', ''.config''], am_guest = ''/root/.config'', am_mode = Read_write,
     canonical_host = [''u'', ''.config'']\<rparr>"

definition sample_linked :: internal_mount where
  "sample_linked = \<lparr>am_host = [''u'', ''.data''], am_guest = ''/root/.data'', am_mode = Read_write,
     canonical_host = [''u'', ''.data'']\<rparr>"

lemma scan_entries_numeral [simp]:
  "scan_entries fs (numeral n) ((host, guest, kind) # es) =
     (case kind of
        Link_entry \<Rightarrow>
          (case scan_entries fs (pred_numeral n) es of
             None \<Rightarrow> None
           | Some (l, links) \<Rightarrow>
               Some (l, case fs_readlink fs host of None \<Rightarrow> links | Some target \<Rightarrow> (host, guest, target) # links))
      | Dir_entry \<Rightarrow> scan_entries fs (pred_numeral n) (dir_entries fs host guest @ es)
      | Other_entry \<Rightarrow> scan_entries fs (pred_numeral n) es)"
  by (simp add: numeral_eq_Suc)

lemma sample_fs_ok: "fs_ok sample_fs" "mount_ok sample_root" "fs_exists sample_fs (am_host sample_root)"
  by (auto simp: fs_ok_def mount_ok_def sample_fs_def sample_root_def canonical_def segment_ok_def split: if_splits)

lemma sample_guest: "resolve [] ''/root/.config'' = [''root'', ''.config'']" "resolve [] ''/root/.data'' = [''root'', ''.data'']"
  by code_simp+

lemma sample_links:
  "scan_mount sample_fs 9 sample_root =
     Some (6, [([''u'', ''.config'', ''data''], [''root'', ''.config'', ''data''], ''../.data''),
       ([''u'', ''.config'', ''gone''], [''root'', ''.config'', ''gone''], ''/gone'')])"
  by (simp add: scan_mount_def dir_entries_def sample_fs_def sample_root_def sample_guest)

lemma sample_discovered:
  "discover_linked_mounts sample_fs sample_root = Inr ([sample_linked], [''/root/.config/gone -> /gone''])"
proof -
  have first: "scan_mount sample_fs 250000 sample_root =
     Some (249997, [([''u'', ''.config'', ''data''], [''root'', ''.config'', ''data''], ''../.data''),
       ([''u'', ''.config'', ''gone''], [''root'', ''.config'', ''gone''], ''/gone'')])"
    by (simp add: scan_mount_def dir_entries_def sample_fs_def sample_root_def sample_guest)
  have second: "scan_mount sample_fs 249997 sample_linked = Some (249997, [])"
    by (simp add: scan_mount_def dir_entries_def sample_fs_def sample_linked_def)
  have handled: "fold (handle_link sample_fs sample_root)
     [([''u'', ''.config'', ''data''], [''root'', ''.config'', ''data''], ''../.data''),
       ([''u'', ''.config'', ''gone''], [''root'', ''.config'', ''gone''], ''/gone'')]
     \<lparr>lw_mounts = [], lw_queue = [], lw_unresolved = []\<rparr> =
     \<lparr>lw_mounts = [sample_linked], lw_queue = [sample_linked], lw_unresolved = [''/root/.config/gone -> /gone'']\<rparr>"
    by code_simp
  have keys: "scan_key sample_linked \<noteq> scan_key sample_root" by (simp add: scan_key_def sample_linked_def sample_root_def)
  show ?thesis
    using sample_fs_ok(3)
    by (simp add: discover_linked_mounts_def MAX_SCANNED_ENTRIES_def discover.simps first second handled [simplified] keys
        sort_by_def)
qed

theorem links_are_granted_witness:
  "case resolve_link_target sample_fs ([''u'', ''.config'', ''data''], [''root'', ''.config'', ''data''], ''../.data'') of
      None \<Rightarrow> False
    | Some t \<Rightarrow>
        (\<exists>a \<in> set [sample_root, sample_linked]. mount_covers_target a t) \<or>
        (\<exists>a \<in> set [sample_root, sample_linked]. mount_covers_mount a (linked_mount_for_target sample_fs t Read_write))"
proof -
  have "resolve_link_target sample_fs ([''u'', ''.config'', ''data''], [''root'', ''.config'', ''data''], ''../.data'') \<noteq> None"
    by code_simp
  moreover have "am_mode sample_root = Read_write" by (simp add: sample_root_def)
  ultimately show ?thesis
    using links_are_granted [OF sample_fs_ok sample_discovered, of sample_root 9, OF _ sample_links,
        of "([''u'', ''.config'', ''data''], [''root'', ''.config'', ''data''], ''../.data'')"]
    by (simp split: option.splits)
qed

section \<open>Nothing else is granted\<close>

text \<open>A mount is linked to a root if a chain of links leads from below the root to it.\<close>

inductive linked_to :: "host_fs \<Rightarrow> internal_mount \<Rightarrow> internal_mount \<Rightarrow> bool" for fs root where
  root: "linked_to fs root root"
| link: "linked_to fs root m \<Longrightarrow> l \<in> links_of fs m \<Longrightarrow> resolve_link_target fs l = Some t \<Longrightarrow>
    linked_to fs root (linked_mount_for_target fs t (am_mode root))"

text \<open>No mount of a list is covered by the root or by another one.\<close>

definition unrelated :: "internal_mount \<Rightarrow> internal_mount list \<Rightarrow> bool" where
  "unrelated root ms \<longleftrightarrow> distinct ms \<and>
     (\<forall>m \<in> set ms. \<not> mount_covers_mount root m \<and> (\<forall>a \<in> set ms. mount_covers_mount a m \<longrightarrow> a = m))"

definition minimal_inv :: "host_fs \<Rightarrow> internal_mount \<Rightarrow> link_walk \<Rightarrow> bool" where
  "minimal_inv fs root w \<longleftrightarrow> walk_ok root w \<and> unrelated root (lw_mounts w) \<and>
     (\<forall>m \<in> set (lw_mounts w). am_mode m = am_mode root) \<and>
     (\<forall>m \<in> set (lw_mounts w) \<union> set (lw_queue w). linked_to fs root m) \<and>
     (\<forall>u \<in> set (lw_unresolved w). \<exists>m l. linked_to fs root m \<and> l \<in> links_of fs m \<and>
       resolve_link_target fs l = None \<and> u = unresolved_text l)"

lemma unrelated_add:
  assumes "unrelated root ms" "\<not> list_ex (\<lambda>a. mount_covers_mount a m) (root # ms)" "mount_ok m"
  shows "unrelated root (filter (\<lambda>a. \<not> mount_covers_mount m a) ms @ [m])"
  using assms covers_refl [OF assms(3)] by (auto simp: unrelated_def list_ex_iff)

lemma linked_to_ok: "linked_to fs root m \<Longrightarrow> fs_ok fs \<Longrightarrow> mount_ok root \<Longrightarrow> mount_ok m"
  by (induction rule: linked_to.induct) (auto intro: linked_mount_ok links_of_canonical)

lemma handle_link_minimal:
  assumes "fs_ok fs" "minimal_inv fs root w" "linked_to fs root m" "l \<in> links_of fs m"
  shows "minimal_inv fs root (handle_link fs root l w)"
proof -
  have "mount_ok m" using linked_to_ok [OF assms(3,1)] assms(2) by (simp add: minimal_inv_def walk_ok_def)
  then have link: "canonical (fst l)" using links_of_canonical assms(1,4) by blast
  then have ok: "walk_ok root (handle_link fs root l w)"
    using handle_link_ok assms(1,2) by (simp add: minimal_inv_def)
  show ?thesis
  proof (cases "resolve_link_target fs l")
    case None
    then show ?thesis using assms(2) ok assms(3,4) by (auto simp: handle_link_def minimal_inv_def simp del: split_paired_Ex)
  next
    case (Some t)
    let ?c = "linked_mount_for_target fs t (am_mode root)"
    have "linked_to fs root ?c" by (rule linked_to.link [OF assms(3,4) Some])
    moreover have "am_mode ?c = am_mode root" by (simp add: linked_mount_for_target_def Let_def)
    ultimately show ?thesis
      using ok assms(2) unrelated_add [of root "lw_mounts w" ?c, OF _ _ linked_mount_ok [OF assms(1) link Some]] Some
      by (auto simp: handle_link_def add_linked_mount_def minimal_inv_def simp del: split_paired_Ex)
  qed
qed

lemma handle_links_minimal:
  "fs_ok fs \<Longrightarrow> linked_to fs root m \<Longrightarrow> set ls \<subseteq> links_of fs m \<Longrightarrow> minimal_inv fs root w \<Longrightarrow>
   minimal_inv fs root (fold (handle_link fs root) ls w)"
  by (induction ls arbitrary: w) (auto intro: handle_link_minimal)

lemma discover_minimal:
  "fs_ok fs \<Longrightarrow> minimal_inv fs root w \<Longrightarrow> discover fs root left scanned w = Some w' \<Longrightarrow> minimal_inv fs root w'"
proof (induction fs root left scanned w rule: discover.induct)
  case (1 fs root left scanned w)
  show ?case
  proof (cases "lw_queue w")
    case Nil
    then show ?thesis using 1 by (simp add: discover.simps)
  next
    case (Cons current rest)
    have rest: "minimal_inv fs root (w\<lparr>lw_queue := rest\<rparr>)" "linked_to fs root current"
      using 1(4) Cons by (auto simp: minimal_inv_def walk_ok_def)
    show ?thesis
    proof (cases "scan_key current \<in> set scanned")
      case True
      then show ?thesis using 1 Cons rest by (simp add: discover.simps [of fs root left scanned w])
    next
      case False
      then obtain left' ls where scan: "scan_mount fs left current = Some (left', ls)"
        using 1(5) Cons by (auto simp: discover.simps [of fs root left scanned w] split: option.splits)
      show ?thesis
        using 1(2) [OF Cons False scan _ 1(3)] 1(5) Cons False scan
          handle_links_minimal [OF 1(3) rest(2) _ rest(1), of ls] links_of_scan [OF scan]
        by (simp add: discover.simps [of fs root left scanned w])
    qed
  qed
qed

lemma distinct_insert_by: "distinct ys \<Longrightarrow> x \<notin> set ys \<Longrightarrow> distinct (insert_by le x ys)"
  by (induction ys) auto

lemma distinct_sort_by: "distinct xs \<Longrightarrow> distinct (sort_by le xs)"
  using set_sort_by [of le] by (induction xs) (simp_all add: sort_by_def distinct_insert_by)

text \<open>Every linked directory that is granted is reached from the state directory by symbolic
  links, has the mode of the state, and is inside neither the state directory nor another granted
  directory, so nothing is mounted twice; every reported link hangs below a directory that was
  reached and cannot be resolved.\<close>

theorem grants_are_minimal:
  assumes "fs_ok fs" "mount_ok root"
    and "discover_linked_mounts fs root = Inr (mounts, unresolved)"
  shows "distinct mounts \<and>
    (\<forall>m \<in> set mounts. linked_to fs root m \<and> am_mode m = am_mode root \<and> \<not> mount_covers_mount root m \<and>
      (\<forall>a \<in> set mounts. mount_covers_mount a m \<longrightarrow> a = m)) \<and>
    (\<forall>u \<in> set unresolved. \<exists>m l. linked_to fs root m \<and> l \<in> links_of fs m \<and>
      resolve_link_target fs l = None \<and> u = unresolved_text l)"
  using assms(3)
proof (cases rule: discover_linked_mounts_cases)
  case (2 w)
  have "minimal_inv fs root \<lparr>lw_mounts = [], lw_queue = [root], lw_unresolved = []\<rparr>"
    using assms(2) by (simp add: minimal_inv_def walk_ok_def unrelated_def linked_to.root)
  from discover_minimal [OF assms(1) this 2(2)] show ?thesis
    using 2(3-5) by (simp add: minimal_inv_def unrelated_def distinct_sort_by)
qed simp

theorem grants_are_minimal_witness:
  "linked_to sample_fs sample_root sample_linked \<and> \<not> mount_covers_mount sample_root sample_linked"
  using grants_are_minimal [OF sample_fs_ok(1,2) sample_discovered] by simp

section \<open>The fingerprint\<close>

text \<open>What a user approves of a state: its name and origin, and the directories behind it with
  their symbolic links followed.\<close>

definition access_view :: "host_fs \<Rightarrow> planned_state \<Rightarrow>
    (string \<times> state_source) \<times> (string \<times> string \<times> access_mode) list \<times> string list" where
  "access_view fs s =
     ((ps_name s, ps_source s),
      (path_text (canonical_path fs (am_host s)), am_guest s, am_mode s) #
        map (\<lambda>m. (path_text (canonical_path fs (am_host m)), am_guest m, am_mode m)) (ps_linked s),
      ps_unresolved s)"

lemma mode_text_inj: "mode_text a = mode_text b \<longleftrightarrow> a = b"
  by (simp add: mode_text_def split: access_mode.splits)

lemma workspace_text_inj: "workspace_text a = workspace_text b \<longleftrightarrow> a = b"
  by (auto simp: workspace_text_def mode_text_def split: workspace_permission.splits access_mode.splits)

lemma map_inj_transfer:
  assumes "\<And>x y. f x = f' y \<longleftrightarrow> g x = g' y"
  shows "map f xs = map f' ys \<longleftrightarrow> map g xs = map g' ys"
proof (induction xs arbitrary: ys)
  case (Cons x xs)
  then show ?case using assms by (cases ys) simp_all
qed auto

lemma mounts_json_inj:
  "map (mount_json fs) ms = map (mount_json fs') ms' \<longleftrightarrow>
   map (\<lambda>m. (path_text (canonical_path fs (am_host m)), am_guest m, am_mode m)) ms =
   map (\<lambda>m. (path_text (canonical_path fs' (am_host m)), am_guest m, am_mode m)) ms'"
  by (rule map_inj_transfer) (auto simp: mount_json_def mode_text_inj)

lemma state_json_inj: "state_json fs s = state_json fs' s' \<longleftrightarrow> access_view fs s = access_view fs' s'"
proof -
  have strs: "map Str us = map Str us' \<longleftrightarrow> us = us'" for us us' by (simp add: inj_map_eq_map inj_on_def)
  show ?thesis
    by (auto simp: state_json_def access_view_def mounts_json_inj mode_text_inj strs split: state_source.splits)
qed

lemma states_json_inj:
  "map (state_json fs) ss = map (state_json fs') ss' \<longleftrightarrow> map (access_view fs) ss = map (access_view fs') ss'"
  by (rule map_inj_transfer) (rule state_json_inj)

lemma capabilities_plain: "plain_json (capabilities_json fs r ss)"
  by (simp add: capabilities_json_def state_json_def mount_json_def list_all_iff)

lemma plan_states:
  "plan_run_access pf fs home cwd r = Inr p \<Longrightarrow> pl_fingerprint p = access_fingerprint pf fs r (pl_states p)"
  by (auto simp: plan_run_access_def Let_def bind_res_def split: sum.splits if_splits)

text \<open>C31: Two plans with the same fingerprint give the same access: the same workspace permission,
  and for each state the same name and origin and the same real directories at the same guest paths
  with the same modes, whoever's recipe, home and host they were made for. So an approval, which
  stores the fingerprint, cannot be reused after a link moved to another directory. The digest is
  assumed not to collide on the two texts.\<close>

theorem fingerprint_fixes_access:
  assumes no_collision: "\<And>a b. sha256_hex pf (bytes_of a) = sha256_hex pf (bytes_of b) \<Longrightarrow>
      a \<in> {json_text (capabilities_json fs r (pl_states p)), json_text (capabilities_json fs' r' (pl_states p'))} \<Longrightarrow>
      b \<in> {json_text (capabilities_json fs r (pl_states p)), json_text (capabilities_json fs' r' (pl_states p'))} \<Longrightarrow> a = b"
    and "plan_run_access pf fs home cwd r = Inr p" "plan_run_access pf fs' home' cwd' r' = Inr p'"
    and "pl_fingerprint p = pl_fingerprint p'"
  shows "rc_workspace r = rc_workspace r' \<and>
    map (access_view fs) (pl_states p) = map (access_view fs') (pl_states p')"
proof -
  have "json_text (capabilities_json fs r (pl_states p)) = json_text (capabilities_json fs' r' (pl_states p'))"
  proof (rule no_collision)
    show "sha256_hex pf (bytes_of (json_text (capabilities_json fs r (pl_states p)))) =
        sha256_hex pf (bytes_of (json_text (capabilities_json fs' r' (pl_states p'))))"
      using assms(4) unfolding plan_states [OF assms(2)] plan_states [OF assms(3)] access_fingerprint_def .
  qed blast+
  then have "capabilities_json fs r (pl_states p) = capabilities_json fs' r' (pl_states p')"
    by (rule json_text_inj [OF _ capabilities_plain capabilities_plain])
  then show ?thesis by (simp add: capabilities_json_def workspace_text_inj states_json_inj)
qed

definition sample_platform :: platform where
  "sample_platform = \<lparr>json_parse = (\<lambda>_. None), verify_sig = (\<lambda>_ _ _. False), sha256_hex = text_of,
     decode_utf8 = (\<lambda>_. None), parse_url = (\<lambda>_. None), join_url = (\<lambda>_ _. None)\<rparr>"

definition sample_recipe :: "workspace_permission \<Rightarrow> run_recipe" where
  "sample_recipe w = \<lparr>rc_name = ''demo'', rc_aliases = None, rc_summary = ''a demo'', rc_install = [''true''],
     rc_command = [''true''], rc_env = None, rc_workspace = w,
     rc_state = [\<lparr>sp_name = ''config'', sp_guest = ''/root/.config'', sp_mode = Read_write\<rparr>]\<rparr>"

definition sample_state :: planned_state where
  "sample_state = \<lparr>am_host = [''u'', ''.config''], am_guest = ''/root/.config'', am_mode = Read_write,
     resolved_host = None, ps_name = ''config'', ps_source = Home_state, ps_linked = [grant_of sample_linked],
     ps_unresolved = [''/root/.config/gone -> /gone'']\<rparr>"

lemma sample_workspace: "rc_workspace (sample_recipe w) = w"
  by (simp add: sample_recipe_def)

lemma sample_planned: "map_res (plan_state sample_fs (sample_recipe w) [''u'']) (rc_state (sample_recipe w)) = Inr [sample_state]"
proof -
  have home: "host_home_path ''/root/.config'' [''u''] = Some [''u'', ''.config'']" by code_simp
  have canonical: "canonical_path sample_fs [''u'', ''.config''] = [''u'', ''.config'']" by code_simp
  have "\<lparr>am_host = [''u'', ''.config''], am_guest = ''/root/.config'', am_mode = Read_write,
      canonical_host = [''u'', ''.config'']\<rparr> = sample_root" by (simp add: sample_root_def)
  then show ?thesis
    using sample_discovered
    by (simp add: sample_recipe_def plan_state_def home canonical sample_state_def resolved_host_field_def
        sample_root_def)
qed

theorem fingerprint_fixes_access_witness:
  "\<exists>p p'. plan_run_access sample_platform sample_fs [''u''] [''w''] (sample_recipe No_workspace) = Inr p \<and>
     plan_run_access sample_platform sample_fs [''u''] [''w''] (sample_recipe (Workspace Read_only)) = Inr p' \<and>
     pl_fingerprint p \<noteq> pl_fingerprint p'"
proof -
  obtain p where p: "plan_run_access sample_platform sample_fs [''u''] [''w''] (sample_recipe No_workspace) = Inr p"
    by (simp add: plan_run_access_def sample_planned MAX_LIVE_MOUNTS_def plan_workspace_def sample_workspace
        sample_state_def)
  obtain p' where p': "plan_run_access sample_platform sample_fs [''u''] [''w''] (sample_recipe (Workspace Read_only)) = Inr p'"
    by (simp add: plan_run_access_def sample_planned MAX_LIVE_MOUNTS_def plan_workspace_def sample_workspace
        sample_state_def)
  have "a = b" if "sha256_hex sample_platform (bytes_of a) = sha256_hex sample_platform (bytes_of b)" for a b
    using that by (simp add: sample_platform_def)
  then have "pl_fingerprint p \<noteq> pl_fingerprint p'"
    using fingerprint_fixes_access [OF _ p p'] by (auto simp: sample_workspace)
  with p p' show ?thesis by blast
qed

section \<open>Reserved directories\<close>

text \<open>A link to a device file is a common way to discard what a program writes.\<close>

definition device_fs :: host_fs where
  "device_fs = sample_fs\<lparr>fs_exists := (\<lambda>p. True), fs_realpath := Some,
     fs_is_directory := (\<lambda>p. Some (p \<noteq> [''dev'', ''null'']))\<rparr>"

text \<open>Such a link mounts the directory of the devices over that of the guest: what a link leads to
  is not checked against the reserved guest paths that the state itself has to avoid.\<close>

theorem linked_mount_covers_devices:
  "lw_mounts (handle_link device_fs sample_root ([''u'', ''.config'', ''log''], [''root'', ''.config'', ''log''], ''/dev/null'')
     \<lparr>lw_mounts = [], lw_queue = [], lw_unresolved = []\<rparr>) =
   [\<lparr>am_host = [''dev''], am_guest = ''/dev'', am_mode = Read_write, canonical_host = [''dev'']\<rparr>]"
  by code_simp

end
