(* ===== verification/Initramfs.thy ===== *)
theory Initramfs
  imports Json_Text
begin

text \<open>
  The initramfs of a boot, \<^verbatim>\<open>packages/runtime/src/mkinitramfs.ts\<close>: the encoder of newc archive
  entries, the entries of the tiny bundle, the environment that is merged into the guest's
  configuration, and the temporary copy of the configuration. The host's files are an explicit
  store; texts are given by their UTF-8 bytes.
\<close>

section \<open>Archive entries\<close>

text \<open>\<open>value.toString(16)\<close> and \<open>padStart\<close>\<close>

fun hex_string :: "nat \<Rightarrow> string" where
  "hex_string n = (if n < 16 then [hex_digit n] else hex_string (n div 16) @ [hex_digit (n mod 16)])"

declare hex_string.simps [simp del]

definition pad_start :: "nat \<Rightarrow> char \<Rightarrow> string \<Rightarrow> string" where
  "pad_start n c s = replicate (n - length s) c @ s"

record newc_options =
  no_uid :: "nat option"
  no_gid :: "nat option"
  no_nlink :: "nat option"
  no_mtime :: "nat option"
  no_rmajor :: "nat option"
  no_rminor :: "nat option"
  no_data :: "bytes option"

record normalized_options =
  n_uid :: nat
  n_gid :: nat
  n_nlink :: nat
  n_mtime :: nat
  n_rmajor :: nat
  n_rminor :: nat
  n_data :: bytes

definition no_options :: newc_options where
  "no_options = \<lparr>no_uid = None, no_gid = None, no_nlink = None, no_mtime = None, no_rmajor = None,
     no_rminor = None, no_data = None\<rparr>"

definition or_default :: "'a option \<Rightarrow> 'a \<Rightarrow> 'a" where
  "or_default v d = (case v of Some x \<Rightarrow> x | None \<Rightarrow> d)"

definition normalize_newc_options :: "newc_options \<Rightarrow> normalized_options" where
  "normalize_newc_options o' =
     \<lparr>n_uid = or_default (no_uid o') 0, n_gid = or_default (no_gid o') 0, n_nlink = or_default (no_nlink o') 1,
      n_mtime = or_default (no_mtime o') 0, n_rmajor = or_default (no_rmajor o') 0,
      n_rminor = or_default (no_rminor o') 0, n_data = or_default (no_data o') []\<rparr>"

definition newc_fields :: "nat \<Rightarrow> normalized_options \<Rightarrow> nat \<Rightarrow> nat list" where
  "newc_fields mode opts name_size =
     [0, mode, n_uid opts, n_gid opts, n_nlink opts, n_mtime opts, length (n_data opts), 0, 0,
      n_rmajor opts, n_rminor opts, name_size, 0]"

definition newc_hex_field :: "nat \<Rightarrow> string" where
  "newc_hex_field value = pad_start 8 CHR ''0'' (hex_string value)"

definition newc_header :: "nat \<Rightarrow> normalized_options \<Rightarrow> nat \<Rightarrow> string" where
  "newc_header mode opts name_size =
     ''070701'' @ concat (map newc_hex_field (newc_fields mode opts name_size))"

definition newc_padding :: "nat \<Rightarrow> bytes" where
  "newc_padding len = replicate ((4 - len mod 4) mod 4) 0"

definition pad_newc_part :: "bytes \<Rightarrow> bytes" where
  "pad_newc_part buf = buf @ newc_padding (length buf)"

definition newc :: "string \<Rightarrow> nat \<Rightarrow> newc_options \<Rightarrow> bytes" where
  "newc name mode opts =
     (let normalized = normalize_newc_options opts;
          name_bytes = bytes_of name @ [0];
          header = bytes_of (newc_header mode normalized (length name_bytes))
      in pad_newc_part (header @ name_bytes) @ n_data normalized @ newc_padding (length (n_data normalized)))"

section \<open>Host files\<close>

datatype store_item = Regular bytes | Directory

type_synonym file_store = "string \<Rightarrow> store_item option"

datatype initramfs_error =
    Bundle_invalid string
  | Init_missing string
  | Unreadable string
  | Unwritable string
  | Config_rejected

text \<open>\<open>readFileSync\<close>, and \<open>statSync(p).isFile()\<close>, which throws for a missing path\<close>

definition read_file :: "file_store \<Rightarrow> string \<Rightarrow> initramfs_error + bytes" where
  "read_file st p = (case st p of Some (Regular bs) \<Rightarrow> Inr bs | _ \<Rightarrow> Inl (Unreadable p))"

definition check_file :: "file_store \<Rightarrow> string \<Rightarrow> initramfs_error + unit" where
  "check_file st p =
     (case st p of
        None \<Rightarrow> Inl (Unreadable p)
      | Some (Regular _) \<Rightarrow> Inr ()
      | Some Directory \<Rightarrow> Inl (Bundle_invalid p))"

text \<open>\<open>rmSync(p, { recursive: true, force: true })\<close>\<close>

definition remove_recursively :: "string \<Rightarrow> file_store \<Rightarrow> file_store" where
  "remove_recursively p st = (\<lambda>q. if q = p \<or> starts_with q (p @ ''/'') then None else st q)"

section \<open>The configuration\<close>

text \<open>\<open>{ ...env, ...existing }\<close>: the keys of \<open>existing\<close> win.\<close>

definition spread_over :: "(string \<times> json) list \<Rightarrow> (string \<times> json) list \<Rightarrow> (string \<times> json) list" where
  "spread_over existing env = fold (\<lambda>(k, v). AList.update k v) existing env"

text \<open>The members that \<open>...value\<close> copies; the configuration's \<open>env\<close> is an object, other
  values that are not arrays or strings have no members.\<close>

definition env_members :: "json \<Rightarrow> (string \<times> json) list" where
  "env_members v =
     (case v of
        Obj fs \<Rightarrow> fs
      | Arr vs \<Rightarrow> map (\<lambda>(i, x). (dec_string i, x)) (enumerate 0 vs)
      | Str s \<Rightarrow> map (\<lambda>(i, c). (dec_string i, Str [c])) (enumerate 0 s)
      | _ \<Rightarrow> [])"

text \<open>\<open>patchConfigEnv\<close>; \<open>parse\<close> is \<open>JSON.parse\<close> after UTF-8 decoding. Assigning a member of a
  number or a string throws, and an array does not print its members.\<close>

definition patch_config_env ::
    "(bytes \<Rightarrow> json option) \<Rightarrow> bytes \<Rightarrow> (string \<times> string) list \<Rightarrow> initramfs_error + bytes" where
  "patch_config_env parse config env =
     (if env = [] then Inr config
      else
        (case parse config of
           Some (Obj fs) \<Rightarrow>
             Inr (bytes_of (json_text (Obj (AList.update ''env''
               (Obj (spread_over (env_members (field fs ''env'')) (map (\<lambda>(k, v). (k, Str v)) env))) fs))))
         | Some (Arr vs) \<Rightarrow> Inr (bytes_of (json_text (Arr vs)))
         | _ \<Rightarrow> Inl Config_rejected))"

text \<open>What the rest of the host answers: whether a write to a path succeeds, and the path that
  \<open>mkdtempSync\<close> creates.\<close>

record pack_host =
  can_write :: "string \<Rightarrow> bool"
  config_tmp :: string
  parse_config :: "bytes \<Rightarrow> json option"
  allow_missing_init :: bool
  epoch_seconds :: nat

definition write_file :: "pack_host \<Rightarrow> string \<Rightarrow> bytes \<Rightarrow> file_store \<Rightarrow> (initramfs_error + unit) \<times> file_store" where
  "write_file h p bs st =
     (if can_write h p then (Inr (), st(p := Some (Regular bs))) else (Inl (Unwritable p), st))"

record config_source =
  cs_path :: string
  cs_tmp :: "string option"

definition prepare_config_path ::
    "pack_host \<Rightarrow> string \<Rightarrow> (string \<times> string) list \<Rightarrow> file_store \<Rightarrow> (initramfs_error + config_source) \<times> file_store" where
  "prepare_config_path h config_path env st =
     (if env = [] then (Inr \<lparr>cs_path = config_path, cs_tmp = None\<rparr>, st)
      else
        (case bind_res (read_file st config_path) (\<lambda>config. patch_config_env (parse_config h) config env) of
           Inl e \<Rightarrow> (Inl e, st)
         | Inr patched \<Rightarrow>
             let tmp = config_tmp h; path = tmp @ ''/machinen-config.json'' in
             (case write_file h path patched (st(tmp := Some Directory)) of
                (Inr _, st') \<Rightarrow> (Inr \<lparr>cs_path = path, cs_tmp = Some tmp\<rparr>, st')
              | (Inl e, st') \<Rightarrow> (Inl e, remove_recursively tmp st'))))"

definition cleanup_config_path :: "config_source \<Rightarrow> file_store \<Rightarrow> file_store" where
  "cleanup_config_path c st = (case cs_tmp c of None \<Rightarrow> st | Some tmp \<Rightarrow> remove_recursively tmp st)"

section \<open>The tiny bundle\<close>

type_synonym init_cache = "(string \<times> bytes option) list"

definition read_init_bytes ::
    "pack_host \<Rightarrow> file_store \<Rightarrow> string \<Rightarrow> init_cache \<Rightarrow> (initramfs_error + bytes option) \<times> init_cache" where
  "read_init_bytes h st init_path cache =
     (case map_of cache init_path of
        Some bytes \<Rightarrow> (Inr bytes, cache)
      | None \<Rightarrow>
          (case read_file st init_path of
             Inr bytes \<Rightarrow> (Inr (Some bytes), (init_path, Some bytes) # cache)
           | Inl _ \<Rightarrow> if allow_missing_init h then (Inr None, cache) else (Inl (Init_missing init_path), cache)))"

record guest_lifecycle_paths =
  supervisor_path :: string
  restore_path :: string

definition guest_lifecycle_entries :: "guest_lifecycle_paths \<Rightarrow> (string \<times> string) list" where
  "guest_lifecycle_entries paths =
     [(''machinen-supervisor'', supervisor_path paths), (''machinen-restore'', restore_path paths)]"

text \<open>\<open>Buffer.from(s, "ascii")\<close> keeps the low byte of every UTF-16 unit.\<close>

definition low6 :: "char \<Rightarrow> nat" where
  "low6 c = of_char c - 128"

definition surrogates :: "nat \<Rightarrow> nat list" where
  "surrogates point = [55296 + (point - 65536) div 1024, 56320 + (point - 65536) mod 1024]"

fun utf16_of :: "string \<Rightarrow> nat list" where
  "utf16_of (a # s) =
     (let n = of_char a in
      if n < 128 then n # utf16_of s
      else if n < 224 then
        (case s of b # t \<Rightarrow> ((n - 192) * 64 + low6 b) # utf16_of t | _ \<Rightarrow> [])
      else if n < 240 then
        (case s of b # c # t \<Rightarrow> ((n - 224) * 4096 + low6 b * 64 + low6 c) # utf16_of t | _ \<Rightarrow> [])
      else
        (case s of
           b # c # d # t \<Rightarrow>
             surrogates ((n - 240) * 262144 + low6 b * 4096 + low6 c * 64 + low6 d) @ utf16_of t
         | _ \<Rightarrow> []))"
| "utf16_of [] = []"

definition ascii_bytes :: "string \<Rightarrow> bytes" where
  "ascii_bytes s = map (\<lambda>u. of_nat (u mod 256)) (utf16_of s)"

record tiny_options =
  to_init_path :: string
  to_config :: bytes
  to_mount_guest :: "string option"
  to_lifecycle :: guest_lifecycle_paths

definition DIR_MODE :: nat where "DIR_MODE = 16877" \<comment> \<open>0o40755\<close>
definition FILE_MODE :: nat where "FILE_MODE = 33188" \<comment> \<open>0o100644\<close>
definition EXEC_MODE :: nat where "EXEC_MODE = 33261" \<comment> \<open>0o100755\<close>
definition CONSOLE_MODE :: nat where "CONSOLE_MODE = 8576" \<comment> \<open>0o20600\<close>
definition STICKY_MODE :: nat where "STICKY_MODE = 17407" \<comment> \<open>0o41777\<close>

text \<open>An entry before it is encoded. An empty \<open>mountGuest\<close> is falsy.\<close>

type_synonym tiny_entry = "string \<times> nat \<times> newc_options"

definition with_data :: "bytes \<Rightarrow> newc_options" where
  "with_data bs = no_options\<lparr>no_data := Some bs\<rparr>"

definition lifecycle_entry :: "file_store \<Rightarrow> string \<times> string \<Rightarrow> initramfs_error + tiny_entry" where
  "lifecycle_entry st e =
     bind_res (read_file st (snd e)) (\<lambda>bs. Inr (''sbin/'' @ fst e, EXEC_MODE, with_data bs))"

definition tiny_entries ::
    "pack_host \<Rightarrow> file_store \<Rightarrow> tiny_options \<Rightarrow> init_cache \<Rightarrow> (initramfs_error + tiny_entry list) \<times> init_cache" where
  "tiny_entries h st opts cache =
     (case read_init_bytes h st (to_init_path opts) cache of
        (Inl e, cache') \<Rightarrow> (Inl e, cache')
      | (Inr init_bytes, cache') \<Rightarrow>
          (bind_res (map_res (lifecycle_entry st) (guest_lifecycle_entries (to_lifecycle opts))) (\<lambda>lifecycle.
             Inr ([(''.'', DIR_MODE, no_options)] @
               (case init_bytes of None \<Rightarrow> [] | Some bs \<Rightarrow> [(''init'', EXEC_MODE, with_data bs)]) @
               [(''machinen-config.json'', FILE_MODE, with_data (to_config opts)),
                (''etc'', DIR_MODE, no_options),
                (''etc/machinen-boot-epoch'', FILE_MODE, with_data (ascii_bytes (dec_string (epoch_seconds h))))] @
               (case to_mount_guest opts of
                  None \<Rightarrow> []
                | Some guest \<Rightarrow>
                    if guest = [] then []
                    else [(''etc/machinen-mountdisk-guest'', FILE_MODE, with_data (ascii_bytes (guest @ [nl_char])))]) @
               [(''sbin'', DIR_MODE, no_options)] @ lifecycle @
               [(''dev'', DIR_MODE, no_options),
                (''dev/console'', CONSOLE_MODE, no_options\<lparr>no_rmajor := Some 5, no_rminor := Some 1\<rparr>),
                (''tmp'', STICKY_MODE, no_options),
                (''TRAILER!!!'', 0, no_options)])), cache'))"

definition tiny_bundle_entries ::
    "pack_host \<Rightarrow> file_store \<Rightarrow> tiny_options \<Rightarrow> init_cache \<Rightarrow> (initramfs_error + bytes list) \<times> init_cache" where
  "tiny_bundle_entries h st opts cache =
     (case tiny_entries h st opts cache of
        (r, cache') \<Rightarrow> (bind_res r (\<lambda>es. Inr (map (\<lambda>(name, mode, o'). newc name mode o') es)), cache'))"

record tiny_bundle =
  tb_bundle :: string
  tb_out :: string
  tb_env :: "(string \<times> string) list"
  tb_mount_guest :: "string option"
  tb_init_path :: string
  tb_lifecycle :: guest_lifecycle_paths

definition pack_tiny_bundle ::
    "pack_host \<Rightarrow> tiny_bundle \<Rightarrow> init_cache \<times> file_store \<Rightarrow> (initramfs_error + unit) \<times> init_cache \<times> file_store" where
  "pack_tiny_bundle h b s =
     (case s of (cache, st) \<Rightarrow>
      let cfg_path = tb_bundle b @ ''/machinen-config.json'' in
      (case check_file st cfg_path of
         Inl e \<Rightarrow> (Inl e, cache, st)
       | Inr _ \<Rightarrow>
           (case prepare_config_path h cfg_path (tb_env b) st of
              (Inl e, st') \<Rightarrow> (Inl e, cache, st')
            | (Inr config, st') \<Rightarrow>
                (case read_file st' (cs_path config) of
                   Inl e \<Rightarrow> (Inl e, cache, cleanup_config_path config st')
                 | Inr config_bytes \<Rightarrow>
                     (case tiny_bundle_entries h st'
                          \<lparr>to_init_path = tb_init_path b, to_config = config_bytes, to_mount_guest = tb_mount_guest b,
                           to_lifecycle = tb_lifecycle b\<rparr> cache of
                        (Inl e, cache') \<Rightarrow> (Inl e, cache', cleanup_config_path config st')
                      | (Inr parts, cache') \<Rightarrow>
                          (case write_file h (tb_out b) (concat parts) st' of
                             (r, st'') \<Rightarrow> (r, cache', cleanup_config_path config st'')))))))"

end
