(* ===== verification/Initramfs_Laws.thy ===== *)
theory Initramfs_Laws
  imports Initramfs
begin

text \<open>
  The initramfs read back: a reader of newc archives after the documented format, what it finds
  in the tiny bundle, and that packing leaves nothing but the archive behind.
\<close>

section \<open>Hexadecimal fields\<close>

definition hex_read :: "string \<Rightarrow> nat" where
  "hex_read s = foldl (\<lambda>n c. 16 * n + hex_value c) 0 s"

lemma hex_read_snoc [simp]: "hex_read (s @ [c]) = 16 * hex_read s + hex_value c"
  by (simp add: hex_read_def)

lemma hex_read_hex_string: "hex_read (hex_string n) = n"
proof (induction n rule: hex_string.induct)
  case (1 n)
  then show ?case
    by (subst hex_string.simps) (simp add: hex_value_digit hex_read_def [of "[_]"])
qed

lemma length_hex_string: "n < 16 ^ Suc k \<Longrightarrow> length (hex_string n) \<le> Suc k"
proof (induction k arbitrary: n)
  case (Suc k)
  show ?case
  proof (cases "n < 16")
    case False
    then have "length (hex_string (n div 16)) \<le> Suc k" using Suc by (intro Suc.IH) simp
    then show ?thesis using False by (subst hex_string.simps) simp
  qed (subst hex_string.simps, simp)
qed (subst hex_string.simps, simp)

lemma hex_read_zeros: "hex_read (replicate k CHR ''0'' @ s) = hex_read s"
proof (induction s rule: rev_induct)
  case Nil
  then show ?case by (induction k rule: nat_induct) (simp_all add: hex_read_def hex_value_def is_digit_def)
next
  case (snoc c s)
  then show ?case using hex_read_snoc [of "replicate k CHR ''0'' @ s"] by simp
qed

lemma newc_hex_field:
  assumes "n < 2 ^ 32"
  shows "length (newc_hex_field n) = 8" "hex_read (newc_hex_field n) = n"
  using length_hex_string [of n 7] assms
  by (simp_all add: newc_hex_field_def pad_start_def hex_read_zeros hex_read_hex_string)

section \<open>Reading an archive\<close>

fun read_fields :: "nat \<Rightarrow> bytes \<Rightarrow> nat list" where
  "read_fields 0 bs = []"
| "read_fields (Suc k) bs = hex_read (text_of (take 8 bs)) # read_fields k (drop 8 bs)"

definition align4 :: "nat \<Rightarrow> nat" where
  "align4 n = (n + 3) div 4 * 4"

record member =
  m_name :: string
  m_mode :: nat
  m_uid :: nat
  m_gid :: nat
  m_nlink :: nat
  m_mtime :: nat
  m_rmajor :: nat
  m_rminor :: nat
  m_data :: bytes

text \<open>A member is a header of 110 bytes, the name with a NUL and the contents, each part filled up
  to a multiple of four.\<close>

definition read_member :: "bytes \<Rightarrow> (member \<times> bytes) option" where
  "read_member bs =
     (let fields = read_fields 13 (drop 6 bs); size = fields ! 6; name_size = fields ! 11;
          data_at = align4 (110 + name_size) in
      if take 6 bs \<noteq> bytes_of ''070701'' \<or> length bs < data_at + align4 size \<or> name_size = 0 \<or>
        bs ! (109 + name_size) \<noteq> 0 then None
      else Some
        (\<lparr>m_name = text_of (subarray bs 110 (109 + name_size)), m_mode = fields ! 1, m_uid = fields ! 2,
          m_gid = fields ! 3, m_nlink = fields ! 4, m_mtime = fields ! 5, m_rmajor = fields ! 9,
          m_rminor = fields ! 10, m_data = subarray bs data_at (data_at + size)\<rparr>,
         drop (data_at + align4 size) bs))"

text \<open>Members up to the trailer; \<open>fuel\<close> bounds their number.\<close>

fun read_archive :: "nat \<Rightarrow> bytes \<Rightarrow> member list option" where
  "read_archive 0 bs = None"
| "read_archive (Suc fuel) bs =
     (case read_member bs of
        None \<Rightarrow> None
      | Some (m, rest) \<Rightarrow>
          if m_name m = ''TRAILER!!!'' then Some [] else map_option ((#) m) (read_archive fuel rest))"

definition newc_fits :: "tiny_entry \<Rightarrow> bool" where
  "newc_fits e =
     (case e of (name, mode, o') \<Rightarrow>
        let n = normalize_newc_options o' in
        list_all (\<lambda>v. v < 2 ^ 32) (newc_fields mode n (Suc (length name))))"

definition member_of :: "tiny_entry \<Rightarrow> member" where
  "member_of e =
     (case e of (name, mode, o') \<Rightarrow>
        let n = normalize_newc_options o' in
        \<lparr>m_name = name, m_mode = mode, m_uid = n_uid n, m_gid = n_gid n, m_nlink = n_nlink n, m_mtime = n_mtime n,
         m_rmajor = n_rmajor n, m_rminor = n_rminor n, m_data = n_data n\<rparr>)"

lemma read_fields_header:
  "list_all (\<lambda>v. v < 2 ^ 32) vs \<Longrightarrow> read_fields (length vs) (bytes_of (concat (map newc_hex_field vs)) @ rest) = vs"
  by (induction vs) (simp_all add: newc_hex_field)

lemma length_header: "list_all (\<lambda>v. v < 2 ^ 32) vs \<Longrightarrow> length (concat (map newc_hex_field vs)) = 8 * length vs"
  by (induction vs) (simp_all add: newc_hex_field)

lemma padding_aligns: "n + length (newc_padding n) = align4 n"
proof -
  have "n mod 4 < 4" by simp
  then consider "n mod 4 = 0" | "n mod 4 = 1" | "n mod 4 = 2" | "n mod 4 = 3" by linarith
  moreover have "align4 n = 4 * (n div 4) + (n mod 4 + 3) div 4 * 4"
    unfolding align4_def by presburger
  moreover have "n = 4 * (n div 4) + n mod 4" by simp
  ultimately show ?thesis by cases (simp_all add: newc_padding_def)
qed

lemma header_parts:
  "take 6 (bytes_of (newc_header mode n k) @ rest) = bytes_of ''070701''"
  "drop 6 (bytes_of (newc_header mode n k) @ rest) = bytes_of (concat (map newc_hex_field (newc_fields mode n k))) @ rest"
  by (simp_all add: newc_header_def bytes_of_def)

lemma read_newc:
  assumes "newc_fits (name, mode, o')"
  shows "read_member (newc name mode o' @ rest) = Some (member_of (name, mode, o'), rest)"
proof -
  let ?n = "normalize_newc_options o'" and ?k = "Suc (length name)"
  let ?vs = "newc_fields mode ?n ?k"
  let ?head = "bytes_of (newc_header mode ?n ?k)"
  let ?pad = "newc_padding (110 + ?k)" and ?data = "n_data ?n"
  let ?tail = "newc_padding (length ?data)"
  let ?bs = "newc name mode o' @ rest" and ?at = "align4 (110 + ?k)"
  have fits: "list_all (\<lambda>v. v < 2 ^ 32) ?vs" using assms by (simp add: newc_fits_def)
  have head: "length ?head = 110" using length_header [OF fits] by (simp add: newc_header_def newc_fields_def)
  have bs: "?bs = ?head @ bytes_of name @ [0] @ ?pad @ ?data @ ?tail @ rest"
    using head by (simp add: newc_def Let_def pad_newc_part_def)
  have count: "length ?vs = 13" by (simp add: newc_fields_def)
  have fields: "read_fields 13 (drop 6 ?bs) = ?vs"
    using read_fields_header [OF fits, of "bytes_of name @ [0] @ ?pad @ ?data @ ?tail @ rest", unfolded count]
    unfolding bs header_parts .
  have size: "?vs ! 6 = length ?data" "?vs ! 11 = ?k" by (simp_all add: newc_fields_def)
  define front where "front = ?head @ bytes_of name @ [0] @ ?pad"
  have front: "length front = ?at" using head padding_aligns [of "110 + ?k"] by (simp add: front_def)
  have filled: "length ?data + length ?tail = align4 (length ?data)" by (rule padding_aligns)
  have whole: "?bs = front @ ?data @ ?tail @ rest" by (simp add: bs front_def)
  have magic: "take 6 ?bs = bytes_of ''070701''" unfolding bs header_parts ..
  have zero: "?bs ! (109 + ?k) = 0" using head by (simp add: bs nth_append)
  have name: "subarray ?bs 110 (109 + ?k) = bytes_of name" using head by (simp add: bs subarray_def)
  have data: "subarray ?bs ?at (?at + length ?data) = ?data" using front by (simp add: whole subarray_def)
  have beyond: "drop (?at + align4 (length ?data)) ?bs = rest" using front filled by (simp add: whole)
  have long: "\<not> length ?bs < ?at + align4 (length ?data)" using front filled by (simp add: whole)
  show ?thesis
    using magic zero name data beyond long
    unfolding read_member_def Let_def fields size by (simp add: member_of_def newc_fields_def Let_def)
qed

theorem read_archive_newc:
  "list_all newc_fits es \<Longrightarrow> list_all (\<lambda>e. fst e \<noteq> ''TRAILER!!!'') es \<Longrightarrow> newc_fits (''TRAILER!!!'', mode, o') \<Longrightarrow>
   length es < fuel \<Longrightarrow>
   read_archive fuel (concat (map (\<lambda>(name, mode, o'). newc name mode o') es) @ newc ''TRAILER!!!'' mode o') =
     Some (map member_of es)"
proof (induction es arbitrary: fuel)
  case Nil
  then obtain f where "fuel = Suc f" by (cases fuel) auto
  with Nil read_newc [of "''TRAILER!!!''" mode o' "[]"] show ?case by (simp add: member_of_def Let_def)
next
  case (Cons e es)
  obtain f where f: "fuel = Suc f" using Cons.prems(4) by (cases fuel) auto
  obtain name m o1 where e: "e = (name, m, o1)" by (cases e) auto
  have "m_name (member_of e) = name" by (simp add: e member_of_def Let_def)
  with Cons read_newc [of name m o1] show ?case by (simp add: e f)
qed

section \<open>The temporary configuration\<close>

definition below :: "string \<Rightarrow> string \<Rightarrow> bool" where
  "below tmp p \<longleftrightarrow> p = tmp \<or> starts_with p (tmp @ ''/'')"

definition fresh_below :: "string \<Rightarrow> file_store \<Rightarrow> bool" where
  "fresh_below tmp st \<longleftrightarrow> (\<forall>p. below tmp p \<longrightarrow> st p = None)"

definition same_apart :: "string \<Rightarrow> file_store \<Rightarrow> file_store \<Rightarrow> bool" where
  "same_apart tmp st st' \<longleftrightarrow> (\<forall>p. \<not> below tmp p \<longrightarrow> st' p = st p)"

lemma remove_same_apart: "fresh_below tmp st \<Longrightarrow> same_apart tmp st st' \<Longrightarrow> remove_recursively tmp st' = st"
  by (rule ext) (auto simp: remove_recursively_def fresh_below_def same_apart_def below_def)

lemma remove_same_apart_update:
  "fresh_below tmp st \<Longrightarrow> same_apart tmp st st' \<Longrightarrow> \<not> below tmp p \<Longrightarrow>
   remove_recursively tmp (st'(p := v)) = st(p := v)"
  by (rule ext) (auto simp: remove_recursively_def fresh_below_def same_apart_def below_def)

lemma same_apart_read: "same_apart tmp st st' \<Longrightarrow> \<not> below tmp p \<Longrightarrow> read_file st' p = read_file st p"
  by (simp add: same_apart_def read_file_def)

lemma below_self [simp]: "below tmp tmp" and below_child: "below tmp (tmp @ ''/'' @ p)"
  using starts_with_append [of "tmp @ ''/''" p] by (simp_all add: below_def)

definition merged_config :: "pack_host \<Rightarrow> file_store \<Rightarrow> string \<Rightarrow> (string \<times> string) list \<Rightarrow> initramfs_error + bytes" where
  "merged_config h st path env =
     bind_res (read_file st path) (\<lambda>config. patch_config_env (parse_config h) config env)"

lemma prepare_ok:
  assumes "prepare_config_path h path env st = (Inr c, st')" "fresh_below (config_tmp h) st"
  shows "same_apart (config_tmp h) st st'" "cleanup_config_path c st' = st"
    "\<not> below (config_tmp h) p \<Longrightarrow> cleanup_config_path c (st'(p := v)) = st(p := v)"
    "read_file st' (cs_path c) = merged_config h st path env"
proof -
  let ?tmp = "config_tmp h"
  consider "env = []" "c = \<lparr>cs_path = path, cs_tmp = None\<rparr>" "st' = st"
    | patched where "env \<noteq> []" "c = \<lparr>cs_path = ?tmp @ ''/machinen-config.json'', cs_tmp = Some ?tmp\<rparr>"
        "st' = st(?tmp := Some Directory, ?tmp @ ''/machinen-config.json'' := Some (Regular patched))"
        "merged_config h st path env = Inr patched"
    using assms(1)
    by (auto simp: prepare_config_path_def merged_config_def Let_def write_file_def split: if_splits sum.splits prod.splits)
  note cases = this
  show apart: "same_apart ?tmp st st'"
    using cases below_child [of ?tmp "''machinen-config.json''"] by cases (auto simp: same_apart_def)
  show "cleanup_config_path c st' = st"
    using cases remove_same_apart [OF assms(2) apart] by cases (auto simp: cleanup_config_path_def)
  show "\<not> below ?tmp p \<Longrightarrow> cleanup_config_path c (st'(p := v)) = st(p := v)"
    using cases remove_same_apart_update [OF assms(2) apart] by cases (auto simp: cleanup_config_path_def)
  show "read_file st' (cs_path c) = merged_config h st path env"
    using cases by cases (auto simp: read_file_def merged_config_def patch_config_env_def split: sum.splits option.splits store_item.splits)
qed

lemma prepare_failed:
  assumes "prepare_config_path h path env st = (Inl e, st')" "fresh_below (config_tmp h) st"
  shows "st' = st"
proof -
  let ?tmp = "config_tmp h"
  have "same_apart ?tmp st (st(?tmp := Some Directory))" by (auto simp: same_apart_def)
  then show ?thesis
    using assms remove_same_apart
    by (auto simp: prepare_config_path_def Let_def write_file_def split: if_splits sum.splits)
qed

text \<open>However packing a tiny bundle fails - the configuration is missing or cannot be parsed, a
  binary of the guest is missing, a write fails - the files of the host are afterwards as they were;
  the temporary copy of the configuration is gone.\<close>

theorem failed_packing_leaves_nothing:
  assumes "fresh_below (config_tmp h) st" "pack_tiny_bundle h b (cache, st) = (Inl e, cache', st')"
  shows "st' = st"
  using assms(2) prepare_failed [OF _ assms(1)] prepare_ok(2) [OF _ assms(1)]
  by (auto simp: pack_tiny_bundle_def Let_def write_file_def split: sum.splits prod.splits if_splits)

section \<open>What the guest unpacks\<close>

definition plain_member :: "string \<Rightarrow> nat \<Rightarrow> bytes \<Rightarrow> member" where
  "plain_member name mode contents =
     \<lparr>m_name = name, m_mode = mode, m_uid = 0, m_gid = 0, m_nlink = 1, m_mtime = 0, m_rmajor = 0, m_rminor = 0,
      m_data = contents\<rparr>"

text \<open>The files of the archive as the comment of the code lists them.\<close>

definition tiny_members ::
    "bytes option \<Rightarrow> bytes \<Rightarrow> nat \<Rightarrow> string option \<Rightarrow> bytes \<Rightarrow> bytes \<Rightarrow> member list" where
  "tiny_members init config epoch mount_guest supervisor restore =
     [plain_member ''.'' DIR_MODE []] @
     (case init of None \<Rightarrow> [] | Some bs \<Rightarrow> [plain_member ''init'' EXEC_MODE bs]) @
     [plain_member ''machinen-config.json'' FILE_MODE config,
      plain_member ''etc'' DIR_MODE [],
      plain_member ''etc/machinen-boot-epoch'' FILE_MODE (bytes_of (dec_string epoch))] @
     (case mount_guest of
        None \<Rightarrow> []
      | Some guest \<Rightarrow>
          if guest = [] then [] else [plain_member ''etc/machinen-mountdisk-guest'' FILE_MODE (ascii_bytes (guest @ [nl_char]))]) @
     [plain_member ''sbin'' DIR_MODE [],
      plain_member ''sbin/machinen-supervisor'' EXEC_MODE supervisor,
      plain_member ''sbin/machinen-restore'' EXEC_MODE restore,
      plain_member ''dev'' DIR_MODE [],
      (plain_member ''dev/console'' CONSOLE_MODE [])\<lparr>m_rmajor := 5, m_rminor := 1\<rparr>,
      plain_member ''tmp'' STICKY_MODE []]"

lemma utf16_of_ascii: "is_ascii s \<Longrightarrow> utf16_of s = map of_char s"
  by (induction s) (simp_all add: is_ascii_def Let_def)

lemma ascii_bytes_of: "is_ascii s \<Longrightarrow> ascii_bytes s = bytes_of s"
  by (auto simp: ascii_bytes_def utf16_of_ascii is_ascii_def list_all_iff bytes_of_def)

lemma length_utf16_of: "length (utf16_of s) \<le> length s"
proof (induction s rule: length_induct)
  case (1 s)
  show ?case
  proof (cases s)
    case (Cons a r)
    have IH: "length t \<le> length r \<Longrightarrow> length (utf16_of t) \<le> length t" for t using 1 Cons by simp
    let ?n = "of_char a :: nat"
    consider "?n < 128" | "128 \<le> ?n" "?n < 224" | "224 \<le> ?n" "?n < 240" | "240 \<le> ?n" by linarith
    then show ?thesis
      using Cons by cases (auto simp: surrogates_def Let_def split: list.split intro!: le_SucI IH)
  qed simp
qed

lemma length_ascii_bytes: "length (ascii_bytes s) \<le> length s"
  using length_utf16_of by (simp add: ascii_bytes_def)

definition member_fits :: "member \<Rightarrow> bool" where
  "member_fits m \<longleftrightarrow> length (m_data m) < 2 ^ 32"

lemma member_of_plain [simp]:
  "member_of (name, mode, no_options) = plain_member name mode []"
  "member_of (name, mode, with_data bs) = plain_member name mode bs"
  "member_of (name, mode, no_options\<lparr>no_rmajor := Some a, no_rminor := Some b\<rparr>) =
     (plain_member name mode [])\<lparr>m_rmajor := a, m_rminor := b\<rparr>"
  by (simp_all add: member_of_def plain_member_def normalize_newc_options_def no_options_def with_data_def or_default_def)

lemma newc_fits_plain [simp]:
  "newc_fits (name, mode, no_options) \<longleftrightarrow> mode < 2 ^ 32 \<and> Suc (length name) < 2 ^ 32"
  "newc_fits (name, mode, with_data bs) \<longleftrightarrow> mode < 2 ^ 32 \<and> Suc (length name) < 2 ^ 32 \<and> length bs < 2 ^ 32"
  "newc_fits (name, mode, no_options\<lparr>no_rmajor := Some a, no_rminor := Some b\<rparr>) \<longleftrightarrow>
     mode < 2 ^ 32 \<and> Suc (length name) < 2 ^ 32 \<and> a < 2 ^ 32 \<and> b < 2 ^ 32"
  by (auto simp: newc_fits_def newc_fields_def normalize_newc_options_def no_options_def with_data_def or_default_def)

lemmas mode_defs = DIR_MODE_def FILE_MODE_def EXEC_MODE_def CONSOLE_MODE_def STICKY_MODE_def

lemma tiny_entries_members:
  assumes "tiny_entries h st opts cache = (Inr es, cache')"
  shows "\<exists>init supervisor restore. fst (read_init_bytes h st (to_init_path opts) cache) = Inr init \<and>
    read_file st (supervisor_path (to_lifecycle opts)) = Inr supervisor \<and>
    read_file st (restore_path (to_lifecycle opts)) = Inr restore \<and>
    (let ms = tiny_members init (to_config opts) (epoch_seconds h) (to_mount_guest opts) supervisor restore in
     list_all member_fits ms \<longrightarrow>
     read_archive 20 (concat (map (\<lambda>(name, mode, o'). newc name mode o') es)) = Some ms)"
proof -
  obtain init cache1 where init: "read_init_bytes h st (to_init_path opts) cache = (Inr init, cache1)"
    using assms by (auto simp: tiny_entries_def split: prod.splits sum.splits)
  obtain supervisor restore where files: "read_file st (supervisor_path (to_lifecycle opts)) = Inr supervisor"
      "read_file st (restore_path (to_lifecycle opts)) = Inr restore"
    using assms init by (auto simp: tiny_entries_def guest_lifecycle_entries_def lifecycle_entry_def result_simps)
  let ?ms = "tiny_members init (to_config opts) (epoch_seconds h) (to_mount_guest opts) supervisor restore"
  obtain front where es: "es = front @ [(''TRAILER!!!'', 0, no_options)]" and members: "map member_of front = ?ms"
    and fits: "list_all member_fits ?ms \<longrightarrow> list_all newc_fits front" and short: "length front < 20"
  proof
    show "es = butlast es @ [(''TRAILER!!!'', 0, no_options)]"
      using assms init files
      by (auto simp: tiny_entries_def guest_lifecycle_entries_def lifecycle_entry_def butlast_append)
    show "map member_of (butlast es) = ?ms" 
      using assms init files
      by (auto simp: tiny_entries_def guest_lifecycle_entries_def lifecycle_entry_def butlast_append tiny_members_def
          ascii_bytes_of split: option.split)
    show "list_all member_fits ?ms \<longrightarrow> list_all newc_fits (butlast es)"
      using assms init files
      by (auto simp: tiny_entries_def guest_lifecycle_entries_def lifecycle_entry_def butlast_append tiny_members_def
          member_fits_def plain_member_def mode_defs ascii_bytes_of split: option.split)
    show "length (butlast es) < 20"
      using assms init files
      by (auto simp: tiny_entries_def guest_lifecycle_entries_def lifecycle_entry_def split: option.split)
  qed
  have "list_all (\<lambda>m. m_name m \<noteq> ''TRAILER!!!'') ?ms"
    by (auto simp: tiny_members_def plain_member_def split: option.split)
  then have names: "list_all (\<lambda>e. fst e \<noteq> ''TRAILER!!!'') front"
    unfolding members [symmetric] by (auto simp: list_all_iff member_of_def Let_def)
  have "read_archive 20 (concat (map (\<lambda>(name, mode, o'). newc name mode o') es)) = Some ?ms"
    if "list_all member_fits ?ms"
    using read_archive_newc [OF _ names _ short, of 0 no_options] fits that members by (simp add: es)
  then show ?thesis using init files by (auto simp: Let_def)
qed

text \<open>C23: When a tiny bundle is packed, the only file that is written is the archive, and the guest
  unpacks from it exactly the documented files: init as it was cached or read, the configuration
  with the merged environment, the boot time, the overlay's directory if there is one, the supervisor
  and the restore worker as executables, the console device and a sticky \<open>tmp\<close>. Files of 4 GiB and more do
  not fit the format. The temporary directory is new, so neither the archive nor the binaries are
  in it.\<close>

theorem tiny_bundle_unpacks:
  assumes "pack_tiny_bundle h b (cache, st) = (Inr (), cache', st')"
    and "fresh_below (config_tmp h) st"
    and "\<not> below (config_tmp h) (tb_out b)" "\<not> below (config_tmp h) (tb_init_path b)"
    and "\<not> below (config_tmp h) (supervisor_path (tb_lifecycle b))" "\<not> below (config_tmp h) (restore_path (tb_lifecycle b))"
  shows "\<exists>archive config init supervisor restore.
    st' = st(tb_out b := Some (Regular archive)) \<and>
    merged_config h st (tb_bundle b @ ''/machinen-config.json'') (tb_env b) = Inr config \<and>
    fst (read_init_bytes h st (tb_init_path b) cache) = Inr init \<and>
    read_file st (supervisor_path (tb_lifecycle b)) = Inr supervisor \<and>
    read_file st (restore_path (tb_lifecycle b)) = Inr restore \<and>
    (let ms = tiny_members init config (epoch_seconds h) (tb_mount_guest b) supervisor restore in
     list_all member_fits ms \<longrightarrow> read_archive 20 archive = Some ms)"
proof -
  let ?cfg = "tb_bundle b @ ''/machinen-config.json''"
  obtain c st1 where prepared: "prepare_config_path h ?cfg (tb_env b) st = (Inr c, st1)"
    using assms(1) by (auto simp: pack_tiny_bundle_def Let_def split: sum.splits prod.splits)
  note prepared_ok = prepare_ok [OF prepared assms(2)]
  obtain config where config: "merged_config h st ?cfg (tb_env b) = Inr config"
    using assms(1) prepared prepared_ok(4)
    by (auto simp: pack_tiny_bundle_def Let_def split: sum.splits prod.splits)
  let ?opts = "\<lparr>to_init_path = tb_init_path b, to_config = config, to_mount_guest = tb_mount_guest b,
    to_lifecycle = tb_lifecycle b\<rparr>"
  obtain es where entries: "tiny_entries h st1 ?opts cache = (Inr es, cache')"
    and out: "st' = cleanup_config_path c (st1(tb_out b :=
      Some (Regular (concat (map (\<lambda>(name, mode, o'). newc name mode o') es)))))"
    using assms(1) prepared prepared_ok(4) config
    by (auto simp: pack_tiny_bundle_def tiny_bundle_entries_def Let_def write_file_def bind_res_def
        split: sum.splits prod.splits if_splits)
  have "st' = st(tb_out b := Some (Regular (concat (map (\<lambda>(name, mode, o'). newc name mode o') es))))"
    unfolding out by (rule prepared_ok(3) [OF assms(3)])
  moreover have "read_init_bytes h st1 (tb_init_path b) cache = read_init_bytes h st (tb_init_path b) cache"
    by (simp only: read_init_bytes_def same_apart_read [OF prepared_ok(1) assms(4)])
  ultimately show ?thesis
    using tiny_entries_members [OF entries] config same_apart_read [OF prepared_ok(1)] assms(5,6) by auto
qed

section \<open>The merged environment\<close>

lemma map_of_spread: "map_of (spread_over existing env) k = (case map_of (rev existing) k of Some v \<Rightarrow> Some v | None \<Rightarrow> map_of env k)"
proof (induction existing arbitrary: env)
  case (Cons e existing)
  then show ?case
    by (cases e) (auto simp: spread_over_def AList.update_conv' map_add_def split: option.splits)
qed (simp add: spread_over_def)

text \<open>The environment that the host injects reaches the configuration of the guest, and a
  variable that the bundle sets itself keeps the bundle's value; nothing else of the configuration
  changes.\<close>

theorem bundle_environment_wins:
  assumes "parse config = Some (Obj fs)" "env \<noteq> []" "distinct (map fst fs)"
    and "field fs ''env'' = Obj own \<or> field fs ''env'' = Undefined \<and> own = []" "distinct (map fst own)"
  shows "\<exists>fs' env'. patch_config_env parse config env = Inr (bytes_of (json_text (Obj fs'))) \<and>
    field fs' ''env'' = Obj env' \<and> (\<forall>k. k \<noteq> ''env'' \<longrightarrow> field fs' k = field fs k) \<and>
    (\<forall>k. map_of env' k = (case map_of own k of Some v \<Rightarrow> Some v | None \<Rightarrow> map_option Str (map_of env k)))"
proof -
  let ?env = "spread_over (env_members (field fs ''env'')) (map (\<lambda>(k, v). (k, Str v)) env)"
  have own: "env_members (field fs ''env'') = own" using assms(4) by (auto simp: env_members_def)
  have "map_of ?env k = (case map_of own k of Some v \<Rightarrow> Some v | None \<Rightarrow> map_option Str (map_of env k))" for k
    using map_of_inject_set [of "rev own" own] assms(5)
    by (simp add: map_of_spread own map_of_map distinct_rev rev_map [symmetric] split: option.split)
  moreover have "patch_config_env parse config env =
      Inr (bytes_of (json_text (Obj (AList.update ''env'' (Obj ?env) fs))))"
    using assms(1,2) by (simp add: patch_config_env_def)
  ultimately show ?thesis
    by (intro exI [of _ "AList.update ''env'' (Obj ?env) fs"] exI [of _ ?env])
      (auto simp: field_def AList.update_conv')
qed

section \<open>Instances\<close>

definition sample_lifecycle :: guest_lifecycle_paths where
  "sample_lifecycle = \<lparr>supervisor_path = ''/a/sup'', restore_path = ''/a/res''\<rparr>"

definition sample_bundle :: tiny_bundle where
  "sample_bundle = \<lparr>tb_bundle = ''/b'', tb_out = ''/o'', tb_env = [(''A'', ''1'')], tb_mount_guest = Some ''/mnt'',
     tb_init_path = ''/a/init'', tb_lifecycle = sample_lifecycle\<rparr>"

definition sample_files :: file_store where
  "sample_files = [''/b/machinen-config.json'' \<mapsto> Regular [123, 125], ''/a/init'' \<mapsto> Regular [1],
     ''/a/sup'' \<mapsto> Regular [2, 2], ''/a/res'' \<mapsto> Regular [3, 3, 3]]"

definition sample_pack_host :: pack_host where
  "sample_pack_host = \<lparr>can_write = (\<lambda>_. True), config_tmp = ''/t'', parse_config = (\<lambda>_. Some (Obj [])),
     allow_missing_init = False, epoch_seconds = 17\<rparr>"

lemma sample_fresh: "fresh_below (config_tmp sample_pack_host) sample_files"
  by (auto simp: fresh_below_def below_def sample_files_def sample_pack_host_def starts_with_def)

lemma sample_packed: "\<exists>cache st. pack_tiny_bundle sample_pack_host sample_bundle ([], sample_files) = (Inr (), cache, st)"
  by (simp add: pack_tiny_bundle_def sample_bundle_def sample_lifecycle_def sample_files_def sample_pack_host_def
      check_file_def prepare_config_path_def read_file_def patch_config_env_def write_file_def Let_def
      tiny_bundle_entries_def tiny_entries_def read_init_bytes_def guest_lifecycle_entries_def lifecycle_entry_def)

theorem tiny_bundle_unpacks_witness:
  "\<exists>archive config. snd (snd (pack_tiny_bundle sample_pack_host sample_bundle ([], sample_files))) =
      sample_files(''/o'' := Some (Regular archive)) \<and>
     merged_config sample_pack_host sample_files ''/b/machinen-config.json'' [(''A'', ''1'')] = Inr config"
proof -
  obtain cache st where packed: "pack_tiny_bundle sample_pack_host sample_bundle ([], sample_files) = (Inr (), cache, st)"
    using sample_packed by blast
  have "\<not> below (config_tmp sample_pack_host) p" if "p \<in> {''/o'', ''/a/init'', ''/a/sup'', ''/a/res''}" for p
    using that by (auto simp: below_def sample_pack_host_def starts_with_def)
  then show ?thesis
    using tiny_bundle_unpacks [OF packed sample_fresh] packed by (auto simp: sample_bundle_def sample_lifecycle_def)
qed

theorem failed_packing_leaves_nothing_witness:
  "snd (snd (pack_tiny_bundle (sample_pack_host\<lparr>can_write := (\<lambda>p. p = ''/o'')\<rparr>) sample_bundle ([], sample_files))) = sample_files"
proof -
  have "pack_tiny_bundle (sample_pack_host\<lparr>can_write := (\<lambda>p. p = ''/o'')\<rparr>) sample_bundle ([], sample_files) =
      (Inl (Unwritable ''/t/machinen-config.json''), [], remove_recursively ''/t'' (sample_files(''/t'' := Some Directory)))"
    by (simp add: pack_tiny_bundle_def sample_bundle_def sample_files_def sample_pack_host_def
        check_file_def prepare_config_path_def read_file_def patch_config_env_def write_file_def Let_def)
  then show ?thesis
    using failed_packing_leaves_nothing [of "sample_pack_host\<lparr>can_write := (\<lambda>p. p = ''/o'')\<rparr>" sample_files] sample_fresh
    by (simp add: sample_pack_host_def)
qed

theorem bundle_environment_wins_witness:
  "\<exists>fs' env'. patch_config_env (\<lambda>_. Some (Obj [(''env'', Obj [(''A'', Str ''own'')])])) [] [(''A'', ''host''), (''B'', ''host'')] =
     Inr (bytes_of (json_text (Obj fs'))) \<and> field fs' ''env'' = Obj env' \<and>
     map_of env' ''A'' = Some (Str ''own'') \<and> map_of env' ''B'' = Some (Str ''host'')"
  using bundle_environment_wins [of "\<lambda>_. Some (Obj [(''env'', Obj [(''A'', Str ''own'')])])" "[]"
      "[(''env'', Obj [(''A'', Str ''own'')])]" "[(''A'', ''host''), (''B'', ''host'')]" "[(''A'', Str ''own'')]"]
  by (auto simp: field_def)

text \<open>A directory with a letter outside of Latin-1 is written with other bytes than its own.\<close>

theorem mount_guest_is_mangled:
  "ascii_bytes [CHR ''/'', CHR 0xC4, CHR 0x80] = [47, 0] \<and> bytes_of [CHR ''/'', CHR 0xC4, CHR 0x80] = [47, 196, 128]"
  by code_simp

end
