(* ===== verification/Rootfs_Cache.thy ===== *)
theory Rootfs_Cache
  imports Json
begin

text \<open>
  The cache of root file system images, \<^verbatim>\<open>packages/runtime/src/rootfs-img.ts\<close> and
  \<^verbatim>\<open>rootfs-template-metadata.ts\<close>, and its use by \<^verbatim>\<open>vm/boot-rootdisk.ts\<close>. A tarball has one
  image, a marker that it was released cleanly and a file of metadata; an operation returns its
  result and the list of its writes, so that a crash is a prefix of this list.
\<close>

section \<open>The cached files of a tarball\<close>

text \<open>\<open>c_meta\<close> is \<open>None\<close> without a file and \<open>Some None\<close> when \<open>JSON.parse\<close> rejects its text.\<close>

record image_cache =
  c_image :: "bytes option"
  c_marker :: bool
  c_meta :: "json option option"

datatype cache_write =
    Put_image bytes
  | Put_marker
  | Drop_marker
  | Put_meta "json option"

fun apply_write :: "cache_write \<Rightarrow> image_cache \<Rightarrow> image_cache" where
  "apply_write (Put_image img) c = c\<lparr>c_image := Some img\<rparr>"
| "apply_write Put_marker c = c\<lparr>c_marker := True\<rparr>"
| "apply_write Drop_marker c = c\<lparr>c_marker := False\<rparr>"
| "apply_write (Put_meta m) c = c\<lparr>c_meta := Some m\<rparr>"

definition apply_writes_to :: "cache_write list \<Rightarrow> image_cache \<Rightarrow> image_cache" where
  "apply_writes_to ws c = fold apply_write ws c"

type_synonym 'a cache_op = "image_cache \<Rightarrow> 'a \<times> cache_write list"

definition bind_op :: "'a cache_op \<Rightarrow> ('a \<Rightarrow> 'b cache_op) \<Rightarrow> 'b cache_op" where
  "bind_op m f = (\<lambda>c. case m c of (x, ws) \<Rightarrow> (case f x (apply_writes_to ws c) of (y, vs) \<Rightarrow> (y, ws @ vs)))"

definition return_op :: "'a \<Rightarrow> 'a cache_op" where
  "return_op x = (\<lambda>c. (x, []))"

definition after_op :: "'a cache_op \<Rightarrow> image_cache \<Rightarrow> image_cache" where
  "after_op m c = apply_writes_to (snd (m c)) c"

section \<open>The host\<close>

datatype prebake_format = Zst | Gz

record prebake_sibling =
  pb_path :: string
  pb_format :: prebake_format

datatype provision_error =
    Base_not_found
  | Tool_missing
  | Native_failed
  | Staging_failed
  | Clone_failed

record materialize_request =
  mr_tar :: string
  mr_sha :: string
  mr_mke2fs :: string
  mr_size_bytes :: "nat option"

text \<open>What the host and the native helper answer: the helper builds an image from a tarball or
  unpacks a prebaked one together with the digest of what it unpacked; \<open>e2fsck\<close> writes to the image
  in place and exits with a status, or none when it was killed.\<close>

record rootfs_host =
  rh_exists :: "string \<Rightarrow> bool"
  rh_which :: "string \<Rightarrow> string option"
  rh_darwin :: bool
  rh_prefer_prebake :: bool
  rh_mke2fs_env :: "string option"
  rh_bundled_mke2fs :: "string option"
  rh_cache_key :: "string \<Rightarrow> provision_error + string"
  rh_materialize :: "materialize_request \<Rightarrow> provision_error + bytes"
  rh_decompress :: "prebake_sibling \<Rightarrow> (bytes \<times> string option) option option"
  rh_fsck :: "bytes \<Rightarrow> int option \<times> bytes list"
  rh_staging :: bool
  rh_marker_writable :: bool
  rh_marker_removable :: bool
  rh_meta_writable :: bool
  rh_truncatable :: bool
  rh_now :: string

record rootfs_options =
  ro_force :: bool
  ro_size_bytes :: "nat option"

section \<open>Metadata\<close>

definition valid_image_sha256 :: "json \<Rightarrow> bool" where
  "valid_image_sha256 v =
     (case v of
        Str s \<Rightarrow> length s = 64 \<and> list_all (\<lambda>c. is_digit c \<or> c \<in> set ''abcdef'') s
      | _ \<Rightarrow> False)"

definition template_metadata :: "string \<Rightarrow> nat \<Rightarrow> string \<Rightarrow> string \<Rightarrow> string option \<Rightarrow> json" where
  "template_metadata sha sz source now image_sha =
     Obj ([(''version'', Num 1), (''sha256'', Str sha), (''sizeBytes'', Num (int sz)), (''source'', Str source),
       (''createdAt'', Str now)] @
       (case image_sha of
          None \<Rightarrow> []
        | Some s \<Rightarrow> if valid_image_sha256 (Str s) then [(''imageSha256'', Str s)] else []))"

text \<open>Writing a file truncates it first.\<close>

definition write_template_metadata :: "rootfs_host \<Rightarrow> string \<Rightarrow> string \<Rightarrow> string option \<Rightarrow> unit cache_op" where
  "write_template_metadata h sha source image_sha = (\<lambda>c.
     case c_image c of
       None \<Rightarrow> ((), [])
     | Some img \<Rightarrow>
         if rh_meta_writable h
         then ((), [Put_meta None, Put_meta (Some (template_metadata sha (length img) source (rh_now h) image_sha))])
         else ((), []))"

text \<open>The sizes of the metadata are integers, as the cache writes them.\<close>

definition verified_metadata :: "string \<Rightarrow> image_cache \<Rightarrow> bool" where
  "verified_metadata sha c =
     (case (c_meta c, c_image c) of
        (Some (Some (Obj fs)), Some img) \<Rightarrow>
          field fs ''version'' = Num 1 \<and> field fs ''sha256'' = Str sha \<and>
          (case field fs ''sizeBytes'' of Num n \<Rightarrow> n \<le> int (length img) | _ \<Rightarrow> False)
      | _ \<Rightarrow> False)"

text \<open>What \<open>trustedRootfsTemplateIdentity\<close> reports: the size and the digest of the image.\<close>

definition trusted_template_identity :: "image_cache \<Rightarrow> (nat \<times> string) option" where
  "trusted_template_identity c =
     (case (c_meta c, c_image c) of
        (Some (Some (Obj fs)), Some img) \<Rightarrow>
          (case field fs ''imageSha256'' of
             Str s \<Rightarrow>
               if valid_image_sha256 (Str s) \<and> field fs ''sizeBytes'' = Num (int (length img))
               then Some (length img, s) else None
           | _ \<Rightarrow> None)
      | _ \<Rightarrow> None)"

section \<open>Markers, growth and checks\<close>

definition mark_rootfs_image_clean :: "rootfs_host \<Rightarrow> unit cache_op" where
  "mark_rootfs_image_clean h = (\<lambda>c.
     if c_image c = None then ((), []) else if rh_marker_writable h then ((), [Put_marker]) else ((), []))"

text \<open>A marker that cannot be removed is left where it is, and the caller does not learn of it.\<close>

definition mark_cached_image_in_use :: "rootfs_host \<Rightarrow> unit cache_op" where
  "mark_cached_image_in_use h = (\<lambda>c. if rh_marker_removable h then ((), [Drop_marker]) else ((), []))"

text \<open>\<open>truncate\<close> to a larger size appends zeros.\<close>

definition grown_to :: "nat option \<Rightarrow> bytes \<Rightarrow> bytes" where
  "grown_to sz img =
     (case sz of None \<Rightarrow> img | Some n \<Rightarrow> if length img < n then img @ replicate (n - length img) 0 else img)"

definition grow_cached_rootfs :: "rootfs_host \<Rightarrow> rootfs_options \<Rightarrow> unit cache_op" where
  "grow_cached_rootfs h opts = (\<lambda>c.
     case (ro_size_bytes opts, c_image c) of
       (Some n, Some img) \<Rightarrow>
         if length img < n \<and> rh_truncatable h then ((), [Put_image (grown_to (Some n) img)]) else ((), [])
     | _ \<Rightarrow> ((), []))"

definition looks_like_ext4 :: "bytes \<Rightarrow> bool" where
  "looks_like_ext4 img \<longleftrightarrow> 1082 \<le> length img \<and> img ! 1080 = 0x53 \<and> img ! 1081 = 0xEF"

fun which_first :: "rootfs_host \<Rightarrow> string list \<Rightarrow> string option" where
  "which_first h [] = None"
| "which_first h (name # names) = (case rh_which h name of Some p \<Rightarrow> Some p | None \<Rightarrow> which_first h names)"

definition fsck_cached_rootfs :: "rootfs_host \<Rightarrow> bool cache_op" where
  "fsck_cached_rootfs h = (\<lambda>c.
     case c_image c of
       None \<Rightarrow> (True, [])
     | Some img \<Rightarrow>
         if \<not> looks_like_ext4 img then (True, [])
         else if which_first h [''e2fsck''] = None then (True, [])
         else (case rh_fsck h img of (status, imgs) \<Rightarrow> (status \<in> {Some 0, Some 1, Some 2}, map Put_image imgs)))"

section \<open>Reusing the cached image\<close>

definition try_reusable_cached_rootfs :: "rootfs_host \<Rightarrow> string \<Rightarrow> rootfs_options \<Rightarrow> bool cache_op" where
  "try_reusable_cached_rootfs h sha opts = (\<lambda>c.
     if ro_force opts \<or> c_image c = None then (False, [])
     else if \<not> c_marker c then (False, [])
     else if verified_metadata sha c then bind_op (grow_cached_rootfs h opts) (\<lambda>_. return_op True) c
     else
       bind_op (mark_cached_image_in_use h) (\<lambda>_.
       bind_op (fsck_cached_rootfs h) (\<lambda>usable.
         if \<not> usable then return_op False
         else
           bind_op (grow_cached_rootfs h opts) (\<lambda>_.
           bind_op (write_template_metadata h sha ''legacy-fsck'' None) (\<lambda>_.
           return_op True)))) c)"

section \<open>Tools\<close>

definition keg_only_dirs :: "string list" where
  "keg_only_dirs = [''/opt/homebrew/opt/e2fsprogs/sbin'', ''/usr/local/opt/e2fsprogs/sbin'']"

definition find_keg_only_e2fs :: "rootfs_host \<Rightarrow> string list \<Rightarrow> string list \<Rightarrow> string option" where
  "find_keg_only_e2fs h names dirs =
     List.find (rh_exists h) (concat (map (\<lambda>dir. map (\<lambda>name. dir @ ''/'' @ name) names) dirs))"

definition resolve_mke2fs_env_override :: "rootfs_host \<Rightarrow> provision_error + string option" where
  "resolve_mke2fs_env_override h =
     (case rh_mke2fs_env h of
        None \<Rightarrow> Inr None
      | Some p \<Rightarrow> if p = [] then Inr None else if rh_exists h p then Inr (Some p) else Inl Tool_missing)"

definition find_bundled_mke2fs :: "rootfs_host \<Rightarrow> string option" where
  "find_bundled_mke2fs h =
     (case rh_bundled_mke2fs h of
        None \<Rightarrow> None
      | Some p \<Rightarrow> if p \<noteq> [] \<and> rh_exists h p then Some p else None)"

definition else_try :: "'a option \<Rightarrow> 'a option \<Rightarrow> 'a option" where
  "else_try a b = (case a of Some x \<Rightarrow> Some x | None \<Rightarrow> b)"

definition resolve_mke2fs :: "rootfs_host \<Rightarrow> provision_error + string option" where
  "resolve_mke2fs h =
     bind_res (resolve_mke2fs_env_override h) (\<lambda>override.
       Inr (else_try override (else_try (find_bundled_mke2fs h)
         (else_try (which_first h [''mke2fs'', ''mkfs.ext4''])
           (find_keg_only_e2fs h [''mke2fs'', ''mkfs.ext4''] keg_only_dirs)))))"

definition resolve_mke2fs_or_throw :: "rootfs_host \<Rightarrow> provision_error + string" where
  "resolve_mke2fs_or_throw h =
     bind_res (resolve_mke2fs h) (\<lambda>found. case found of Some p \<Rightarrow> Inr p | None \<Rightarrow> Inl Tool_missing)"

definition prefer_materialize_over_prebake :: "rootfs_host \<Rightarrow> rootfs_options \<Rightarrow> bool" where
  "prefer_materialize_over_prebake h opts \<longleftrightarrow>
     ro_force opts \<or>
     rh_darwin h \<and> \<not> rh_prefer_prebake h \<and>
       (case rh_mke2fs_env h of None \<Rightarrow> True | Some p \<Rightarrow> p = [] \<or> rh_exists h p)"

section \<open>Building the image\<close>

definition materialize_rootfs_from_tar ::
    "rootfs_host \<Rightarrow> string \<Rightarrow> string \<Rightarrow> rootfs_options \<Rightarrow> string \<Rightarrow> (provision_error + unit) cache_op" where
  "materialize_rootfs_from_tar h tar sha opts mke2fs = (\<lambda>c.
     case rh_materialize h \<lparr>mr_tar = tar, mr_sha = sha, mr_mke2fs = mke2fs, mr_size_bytes = ro_size_bytes opts\<rparr> of
       Inl e \<Rightarrow> (Inl e, [])
     | Inr img \<Rightarrow>
         bind_op (\<lambda>_. ((), [Put_image img])) (\<lambda>_.
         bind_op (mark_rootfs_image_clean h) (\<lambda>_.
         bind_op (write_template_metadata h sha ''materialize'' None) (\<lambda>_.
         return_op (Inr ())))) c)"

definition lower_char :: "char \<Rightarrow> char" where
  "lower_char c = (let n = of_char c :: nat in if 65 \<le> n \<and> n \<le> 90 then char_of (n + 32) else c)"

definition strip_suffix :: "string \<Rightarrow> string \<Rightarrow> string option" where
  "strip_suffix suffix s =
     (if ends_with (map lower_char s) suffix then Some (take (length s - length suffix) s) else None)"

text \<open>\<open>/^(.*)(\.tar\.gz|\.tgz|\.tar)$/i\<close>; the dot does not match a line feed.\<close>

definition sibling_prebake_base :: "string \<Rightarrow> string option" where
  "sibling_prebake_base tar =
     (case else_try (strip_suffix ''.tar.gz'' tar) (else_try (strip_suffix ''.tgz'' tar) (strip_suffix ''.tar'' tar)) of
        None \<Rightarrow> None
      | Some base \<Rightarrow> if nl_char \<in> set base then None else Some base)"

definition sibling_prebake_candidates :: "string \<Rightarrow> prebake_sibling list" where
  "sibling_prebake_candidates tar =
     (case sibling_prebake_base tar of
        None \<Rightarrow> []
      | Some base \<Rightarrow>
          if base = [] then [] else
          [\<lparr>pb_path = base @ ''.img.zst'', pb_format = Zst\<rparr>, \<lparr>pb_path = base @ ''.img.gz'', pb_format = Gz\<rparr>])"

text \<open>The helper throws (\<open>None\<close>), fails (\<open>Some None\<close>) or unpacks to the staging file; the digest is
  that of what it unpacked.\<close>

definition try_prebake_from_sibling ::
    "rootfs_host \<Rightarrow> string \<Rightarrow> rootfs_options \<Rightarrow> prebake_sibling \<Rightarrow> (provision_error + bool) cache_op" where
  "try_prebake_from_sibling h sha opts sibling = (\<lambda>c.
     if \<not> rh_staging h then (Inl Staging_failed, [])
     else
       (case rh_decompress h sibling of
          Some (Some (img, digest)) \<Rightarrow>
            if \<not> looks_like_ext4 img then (Inr False, [])
            else if grown_to (ro_size_bytes opts) img \<noteq> img \<and> \<not> rh_truncatable h then (Inr False, [])
            else
              bind_op (\<lambda>_. ((), [Put_image (grown_to (ro_size_bytes opts) img)])) (\<lambda>_.
              bind_op (mark_rootfs_image_clean h) (\<lambda>_.
              bind_op (write_template_metadata h sha ''prebake'' digest) (\<lambda>_.
              return_op (Inr True)))) c
        | _ \<Rightarrow> (Inr False, [])))"

fun try_siblings ::
    "rootfs_host \<Rightarrow> string \<Rightarrow> rootfs_options \<Rightarrow> prebake_sibling list \<Rightarrow> (provision_error + bool) cache_op" where
  "try_siblings h sha opts [] = return_op (Inr False)"
| "try_siblings h sha opts (s # ss) =
     bind_op (try_prebake_from_sibling h sha opts s) (\<lambda>r.
       case r of Inr False \<Rightarrow> try_siblings h sha opts ss | _ \<Rightarrow> return_op r)"

definition try_prebaked_rootfs ::
    "rootfs_host \<Rightarrow> string \<Rightarrow> string \<Rightarrow> rootfs_options \<Rightarrow> (provision_error + bool) cache_op" where
  "try_prebaked_rootfs h tar sha opts =
     (if ro_force opts then return_op (Inr False)
      else try_siblings h sha opts (filter (\<lambda>s. rh_exists h (pb_path s)) (sibling_prebake_candidates tar)))"

text \<open>\<open>ensureRootfsImage\<close> for the cache key \<open>sha\<close>; \<open>caches\<close> holds the cached files of every key.\<close>

definition ensure_keyed :: "rootfs_host \<Rightarrow> string \<Rightarrow> string \<Rightarrow> rootfs_options \<Rightarrow> (provision_error + unit) cache_op" where
  "ensure_keyed h tar sha opts =
     bind_op (try_reusable_cached_rootfs h sha opts) (\<lambda>cached.
       if cached then return_op (Inr ())
       else
         (case (if prefer_materialize_over_prebake h opts then resolve_mke2fs h else Inr None) of
            Inl e \<Rightarrow> return_op (Inl e)
          | Inr (Some mke2fs) \<Rightarrow> materialize_rootfs_from_tar h tar sha opts mke2fs
          | Inr None \<Rightarrow>
              bind_op (try_prebaked_rootfs h tar sha opts) (\<lambda>r.
                case r of
                  Inl e \<Rightarrow> return_op (Inl e)
                | Inr True \<Rightarrow> return_op (Inr ())
                | Inr False \<Rightarrow>
                    (case resolve_mke2fs_or_throw h of
                       Inl e \<Rightarrow> return_op (Inl e)
                     | Inr mke2fs \<Rightarrow> materialize_rootfs_from_tar h tar sha opts mke2fs))))"

definition ensure_rootfs_image ::
    "rootfs_host \<Rightarrow> string \<Rightarrow> rootfs_options \<Rightarrow> (string \<Rightarrow> image_cache) \<Rightarrow> (provision_error + string) \<times> (string \<Rightarrow> image_cache)" where
  "ensure_rootfs_image h tar opts caches =
     (if \<not> rh_exists h tar then (Inl Base_not_found, caches)
      else
        (case rh_cache_key h tar of
           Inl e \<Rightarrow> (Inl e, caches)
         | Inr sha \<Rightarrow>
             (bind_res (fst (ensure_keyed h tar sha opts (caches sha))) (\<lambda>_. Inr sha),
              caches(sha := after_op (ensure_keyed h tar sha opts) (caches sha)))))"

section \<open>Booting from the cached image\<close>

text \<open>The clone that the machine gets, and the identity that is remembered for it\<close>

record boot_disk =
  bd_image :: bytes
  bd_identity :: "(nat \<times> string) option"

definition materialize_cached_rootdisk ::
    "rootfs_host \<Rightarrow> (bytes \<Rightarrow> bytes option) \<Rightarrow> string \<Rightarrow> string \<Rightarrow> rootfs_options \<Rightarrow> (provision_error + boot_disk) cache_op" where
  "materialize_cached_rootdisk h clone tar sha opts =
     bind_op (ensure_keyed h tar sha opts) (\<lambda>r.
       case r of
         Inl e \<Rightarrow> return_op (Inl e)
       | Inr _ \<Rightarrow> (\<lambda>c.
           (case Option.bind (c_image c) clone of
              None \<Rightarrow> (Inl Clone_failed, [])
            | Some img \<Rightarrow>
                bind_op (mark_rootfs_image_clean h) (\<lambda>_.
                  return_op (Inr \<lparr>bd_image = img, bd_identity = trusted_template_identity c\<rparr>)) c)))"

text \<open>After provisioning, the image is built from the tree that is at hand; \<open>built\<close> is what the helper
  emits, \<open>None\<close> when it fails, skips or throws.\<close>

definition prebake_rootfs_image_from_tree :: "rootfs_host \<Rightarrow> string \<Rightarrow> (string \<Rightarrow> bytes option) \<Rightarrow> unit cache_op" where
  "prebake_rootfs_image_from_tree h sha built = (\<lambda>c.
     case resolve_mke2fs h of
       Inr (Some mke2fs) \<Rightarrow>
         (case built mke2fs of
            None \<Rightarrow> ((), [])
          | Some img \<Rightarrow>
              bind_op (\<lambda>_. ((), [Put_image img])) (\<lambda>_.
              bind_op (mark_rootfs_image_clean h) (\<lambda>_.
              write_template_metadata h sha ''prebake-tree'' None)) c)
     | _ \<Rightarrow> ((), []))"

end
