(* ===== verification/Rootfs_Laws.thy ===== *)
theory Rootfs_Laws
  imports Rootfs_Cache
begin

text \<open>
  What the cache of images promises: a marker stands for an intact image at every moment, also
  after a crash between two writes, an image that is handed out is intact, and the identity that is
  remembered for a boot disk is the digest of the disk, unless a prebaked image was grown.
\<close>

section \<open>Operations and crashes\<close>

lemma apply_writes_append [simp]: "apply_writes_to (us @ vs) c = apply_writes_to vs (apply_writes_to us c)"
  by (simp add: apply_writes_to_def)

lemma apply_writes_simps [simp]:
  "apply_writes_to [] c = c" "apply_writes_to (w # ws) c = apply_writes_to ws (apply_write w c)"
  by (simp_all add: apply_writes_to_def)

lemma fst_bind_op [simp]: "fst (bind_op m f c) = fst (f (fst (m c)) (after_op m c))"
  by (simp add: bind_op_def after_op_def split: prod.split)

lemma after_bind_op [simp]: "after_op (bind_op m f) c = after_op (f (fst (m c))) (after_op m c)"
  by (simp add: bind_op_def after_op_def split: prod.split)

lemma snd_bind_op: "snd (bind_op m f c) = snd (m c) @ snd (f (fst (m c)) (after_op m c))"
  by (simp add: bind_op_def after_op_def split: prod.split)

lemma return_op_simps [simp]: "fst (return_op x c) = x" "after_op (return_op x) c = c" "snd (return_op x c) = []"
  by (simp_all add: return_op_def after_op_def)

definition safe_at :: "(bytes \<Rightarrow> bool) \<Rightarrow> image_cache \<Rightarrow> bool" where
  "safe_at intact c \<longleftrightarrow> (c_marker c \<longrightarrow> (\<exists>img. c_image c = Some img \<and> intact img))"

text \<open>A crash cuts the list of writes.\<close>

definition crash_safe :: "(bytes \<Rightarrow> bool) \<Rightarrow> 'a cache_op \<Rightarrow> image_cache \<Rightarrow> bool" where
  "crash_safe intact m c \<longleftrightarrow> (\<forall>k. safe_at intact (apply_writes_to (take k (snd (m c))) c))"

lemma crash_safe_start: "crash_safe intact m c \<Longrightarrow> safe_at intact c"
  unfolding crash_safe_def by (metis take0 apply_writes_simps(1))

lemma crash_safe_end: "crash_safe intact m c \<Longrightarrow> safe_at intact (after_op m c)"
  unfolding crash_safe_def after_op_def by (metis order_refl take_all)

lemma crash_safe_bind:
  assumes "crash_safe intact m c" "crash_safe intact (f (fst (m c))) (after_op m c)"
  shows "crash_safe intact (bind_op m f) c"
proof -
  note writes = snd_bind_op [of m f c]
  show ?thesis
    unfolding crash_safe_def
  proof
    fix k
    show "safe_at intact (apply_writes_to (take k (snd (bind_op m f c))) c)"
    proof (cases "k \<le> length (snd (m c))")
      case True
      then show ?thesis using assms(1) by (simp add: writes crash_safe_def)
    next
      case False
      then show ?thesis using assms(2) by (simp add: writes crash_safe_def after_op_def)
    qed
  qed
qed

lemma crash_safe_return [simp]: "crash_safe intact (return_op x) c \<longleftrightarrow> safe_at intact c"
  by (simp add: crash_safe_def return_op_def)

lemma crash_safe_no_write: "safe_at intact c \<Longrightarrow> snd (m c) = [] \<Longrightarrow> crash_safe intact m c"
  by (simp add: crash_safe_def)

lemma crash_safe_one_write:
  "safe_at intact c \<Longrightarrow> snd (m c) = [w] \<Longrightarrow> safe_at intact (apply_write w c) \<Longrightarrow> crash_safe intact m c"
  by (auto simp: crash_safe_def take_Cons split: nat.split)

section \<open>What the helpers promise\<close>

text \<open>Built and prebaked images are intact, growing an image by zeros keeps it intact, and so does a
  check that does not reject it.\<close>

definition host_ok :: "(bytes \<Rightarrow> bool) \<Rightarrow> rootfs_host \<Rightarrow> bool" where
  "host_ok intact h \<longleftrightarrow>
     (\<forall>r img. rh_materialize h r = Inr img \<longrightarrow> intact img) \<and>
     (\<forall>s img d. rh_decompress h s = Some (Some (img, d)) \<longrightarrow> looks_like_ext4 img \<longrightarrow> intact img) \<and>
     (\<forall>img n. intact img \<longrightarrow> intact (img @ replicate n 0)) \<and>
     (\<forall>img st imgs. intact img \<longrightarrow> rh_fsck h img = (st, imgs) \<longrightarrow> st \<in> {Some 0, Some 1, Some 2} \<longrightarrow>
       intact (last (img # imgs)))"

lemma host_okD:
  assumes "host_ok intact h"
  shows "rh_materialize h r = Inr img \<Longrightarrow> intact img"
    and "rh_decompress h s = Some (Some (img, d)) \<Longrightarrow> looks_like_ext4 img \<Longrightarrow> intact img"
    and "intact img \<Longrightarrow> intact (grown_to sz img)"
    and "intact img \<Longrightarrow> rh_fsck h img = (st, imgs) \<Longrightarrow> st \<in> {Some 0, Some 1, Some 2} \<Longrightarrow> intact (last (img # imgs))"
proof -
  note laws = assms [unfolded host_ok_def]
  show "rh_materialize h r = Inr img \<Longrightarrow> intact img" using laws by blast
  show "rh_decompress h s = Some (Some (img, d)) \<Longrightarrow> looks_like_ext4 img \<Longrightarrow> intact img" using laws by blast
  have "intact img \<Longrightarrow> intact (img @ replicate n 0)" for n using laws by blast
  then show "intact img \<Longrightarrow> intact (grown_to sz img)" by (cases sz) (simp_all add: grown_to_def)
  show "intact img \<Longrightarrow> rh_fsck h img = (st, imgs) \<Longrightarrow> st \<in> {Some 0, Some 1, Some 2} \<Longrightarrow> intact (last (img # imgs))"
    using laws by blast
qed

definition holds_intact :: "(bytes \<Rightarrow> bool) \<Rightarrow> image_cache \<Rightarrow> bool" where
  "holds_intact intact c \<longleftrightarrow> (\<exists>img. c_image c = Some img \<and> intact img)"

lemma holds_safe: "holds_intact intact c \<Longrightarrow> safe_at intact c"
  by (simp add: holds_intact_def safe_at_def)

section \<open>The single operations\<close>

lemma grow_ok:
  assumes "host_ok intact h" "holds_intact intact c"
  shows "crash_safe intact (grow_cached_rootfs h opts) c" "holds_intact intact (after_op (grow_cached_rootfs h opts) c)"
proof -
  obtain img where img: "c_image c = Some img" "intact img" using assms(2) by (auto simp: holds_intact_def)
  have "grow_cached_rootfs h opts c = ((), []) \<or>
      (\<exists>n. grow_cached_rootfs h opts c = ((), [Put_image (grown_to (Some n) img)]))"
    by (auto simp: grow_cached_rootfs_def img(1) split: option.split)
  moreover have "holds_intact intact (c\<lparr>c_image := Some (grown_to (Some n) img)\<rparr>)" for n
    using host_okD(3) [OF assms(1) img(2)] by (simp add: holds_intact_def)
  ultimately show "crash_safe intact (grow_cached_rootfs h opts) c"
      "holds_intact intact (after_op (grow_cached_rootfs h opts) c)"
    using assms(2) holds_safe
    by (auto simp: after_op_def intro: crash_safe_no_write crash_safe_one_write)
qed

lemma marking_ok:
  assumes "holds_intact intact c"
  shows "crash_safe intact (mark_rootfs_image_clean h) c" "holds_intact intact (after_op (mark_rootfs_image_clean h) c)"
  using assms holds_safe [OF assms]
  by (auto simp: mark_rootfs_image_clean_def after_op_def holds_intact_def safe_at_def crash_safe_def take_Cons
      split: nat.split)

lemma metadata_ok:
  assumes "safe_at intact c"
  shows "crash_safe intact (write_template_metadata h sha source d) c"
  using assms
  by (auto simp: write_template_metadata_def after_op_def safe_at_def crash_safe_def take_Cons
      split: nat.split option.split)

lemma metadata_image [simp]: "c_image (after_op (write_template_metadata h sha source d) c) = c_image c"
  by (simp add: write_template_metadata_def after_op_def split: option.split)

lemma metadata_holds: "holds_intact intact c \<Longrightarrow> holds_intact intact (after_op (write_template_metadata h sha source d) c)"
  by (simp add: holds_intact_def)

lemma apply_images: "apply_writes_to (map Put_image imgs) c = (if imgs = [] then c else c\<lparr>c_image := Some (last imgs)\<rparr>)"
  by (induction imgs arbitrary: c) auto

text \<open>The check works on the image while the marker is away.\<close>

lemma fsck_ok:
  assumes "host_ok intact h" "holds_intact intact c" "\<not> c_marker c"
  shows "crash_safe intact (fsck_cached_rootfs h) c"
    "fst (fsck_cached_rootfs h c) \<Longrightarrow> holds_intact intact (after_op (fsck_cached_rootfs h) c)"
    "\<not> c_marker (after_op (fsck_cached_rootfs h) c)"
proof -
  obtain img where img: "c_image c = Some img" "intact img" using assms(2) by (auto simp: holds_intact_def)
  obtain st imgs where fsck: "rh_fsck h img = (st, imgs)" by (cases "rh_fsck h img")
  have "fsck_cached_rootfs h c = (True, []) \<or>
      fsck_cached_rootfs h c = (st \<in> {Some 0, Some 1, Some 2}, map Put_image imgs)"
    by (simp add: fsck_cached_rootfs_def img(1) fsck)
  then consider "fsck_cached_rootfs h c = (True, [])"
    | "fsck_cached_rootfs h c = (st \<in> {Some 0, Some 1, Some 2}, map Put_image imgs)" by blast
  note cases = this
  have marker: "\<not> c_marker (apply_writes_to (map Put_image is) c)" for "is" using assms(3) by (simp add: apply_images)
  show "crash_safe intact (fsck_cached_rootfs h) c"
    using cases marker assms(3) by cases (auto simp: crash_safe_def safe_at_def take_map)
  show "\<not> c_marker (after_op (fsck_cached_rootfs h) c)"
    using cases marker assms(3) by cases (auto simp: after_op_def)
  show "holds_intact intact (after_op (fsck_cached_rootfs h) c)" if "fst (fsck_cached_rootfs h c)"
    using cases
  proof cases
    case 2
    then have "intact (last (img # imgs))" using host_okD(4) [OF assms(1) img(2) fsck] that by simp
    then show ?thesis using 2 img by (auto simp: after_op_def holds_intact_def apply_images)
  qed (use assms(2) in \<open>simp add: after_op_def\<close>)
qed

section \<open>Crash safety\<close>

definition good_op :: "(bytes \<Rightarrow> bool) \<Rightarrow> ('a \<Rightarrow> bool) \<Rightarrow> 'a cache_op \<Rightarrow> image_cache \<Rightarrow> bool" where
  "good_op intact returned m c \<longleftrightarrow>
     crash_safe intact m c \<and> (returned (fst (m c)) \<longrightarrow> holds_intact intact (after_op m c))"

lemma good_op_bind:
  "crash_safe intact m c \<Longrightarrow> good_op intact returned (f (fst (m c))) (after_op m c) \<Longrightarrow>
   good_op intact returned (bind_op m f) c"
  unfolding good_op_def by (simp add: crash_safe_bind)

lemma good_op_return_iff [simp]:
  "good_op intact returned (return_op x) c \<longleftrightarrow> safe_at intact c \<and> (returned x \<longrightarrow> holds_intact intact c)"
  by (simp add: good_op_def)

lemma good_op_return: "safe_at intact c \<Longrightarrow> (returned x \<Longrightarrow> holds_intact intact c) \<Longrightarrow> good_op intact returned (return_op x) c"
  by simp

lemma good_op_eq: "m c = m' c \<Longrightarrow> good_op intact returned m' c \<Longrightarrow> good_op intact returned m c"
  by (simp add: good_op_def crash_safe_def after_op_def)

lemma finish_ok:
  assumes "host_ok intact h" "holds_intact intact c"
  shows "good_op intact returned (bind_op (grow_cached_rootfs h opts) (\<lambda>_. return_op x)) c"
    "good_op intact returned (bind_op (grow_cached_rootfs h opts) (\<lambda>_.
       bind_op (write_template_metadata h sha source d) (\<lambda>_. return_op x))) c"
proof -
  note grown = grow_ok [OF assms, of opts]
  show "good_op intact returned (bind_op (grow_cached_rootfs h opts) (\<lambda>_. return_op x)) c"
    using grown holds_safe by (intro good_op_bind good_op_return)
  show "good_op intact returned (bind_op (grow_cached_rootfs h opts) (\<lambda>_.
      bind_op (write_template_metadata h sha source d) (\<lambda>_. return_op x))) c"
    using grown holds_safe [OF grown(2)] metadata_ok metadata_holds [OF grown(2)] holds_safe
    by (intro good_op_bind good_op_return) auto
qed

lemma reuse_ok:
  assumes "host_ok intact h" "safe_at intact c" "rh_marker_removable h \<or> verified_metadata sha c"
  shows "good_op intact id (try_reusable_cached_rootfs h sha opts) c"
proof -
  let ?light = "bind_op (grow_cached_rootfs h opts) (\<lambda>_. return_op True)"
  let ?finish = "bind_op (grow_cached_rootfs h opts) (\<lambda>_.
    bind_op (write_template_metadata h sha ''legacy-fsck'' None) (\<lambda>_. return_op True))"
  let ?checked = "bind_op (mark_cached_image_in_use h) (\<lambda>_. bind_op (fsck_cached_rootfs h) (\<lambda>usable.
    if \<not> usable then return_op False else ?finish))"
  have cases: "try_reusable_cached_rootfs h sha opts c =
      (if (ro_force opts \<or> c_image c = None) \<or> \<not> c_marker c then return_op False c
       else if verified_metadata sha c then ?light c else ?checked c)"
    by (simp add: try_reusable_cached_rootfs_def return_op_def)
  show ?thesis
  proof (cases "(ro_force opts \<or> c_image c = None) \<or> \<not> c_marker c")
    case True
    with cases have "try_reusable_cached_rootfs h sha opts c = return_op False c" by simp
    then show ?thesis by (rule good_op_eq) (use assms(2) in \<open>auto intro: good_op_return\<close>)
  next
    case False
    then have held0: "holds_intact intact c" using assms(2) by (simp add: safe_at_def holds_intact_def)
    show ?thesis
    proof (cases "verified_metadata sha c")
      case True
      with cases False have "try_reusable_cached_rootfs h sha opts c = ?light c" by auto
      then show ?thesis by (rule good_op_eq) (rule finish_ok(1) [OF assms(1) held0])
    next
      case unverified: False
      with cases False have "try_reusable_cached_rootfs h sha opts c = ?checked c" by auto
      then show ?thesis
      proof (rule good_op_eq)
        let ?c = "after_op (mark_cached_image_in_use h) c"
        have held: "holds_intact intact ?c" "\<not> c_marker ?c" "crash_safe intact (mark_cached_image_in_use h) c"
          using assms(2,3) held0 unverified
          by (auto simp: safe_at_def holds_intact_def after_op_def mark_cached_image_in_use_def
              intro!: crash_safe_one_write)
        note checked = fsck_ok [OF assms(1) held(1,2)]
        show "good_op intact id ?checked c"
          using held checked crash_safe_end [OF checked(1)]
          by (intro good_op_bind) (auto intro: finish_ok(2) [OF assms(1)])
      qed
    qed
  qed
qed

lemma put_image_ok:
  assumes "safe_at intact c" "intact img"
  shows "crash_safe intact (\<lambda>_. ((), [Put_image img])) c" "holds_intact intact (after_op (\<lambda>_. ((), [Put_image img])) c)"
  using assms by (auto simp: holds_intact_def after_op_def safe_at_def intro!: crash_safe_one_write)

lemma publish_ok:
  assumes "safe_at intact c" "intact img"
  shows "good_op intact returned (bind_op (\<lambda>_. ((), [Put_image img])) (\<lambda>_.
    bind_op (mark_rootfs_image_clean h) (\<lambda>_.
    bind_op (write_template_metadata h sha source d) (\<lambda>_. return_op x)))) c"
proof -
  note put = put_image_ok [OF assms]
  note marked = marking_ok [OF put(2), of h]
  show ?thesis
    using put marked metadata_ok metadata_holds [OF marked(2)] holds_safe [OF marked(2)] holds_safe
    by (intro good_op_bind good_op_return) auto
qed

definition succeeded :: "'e + 'a \<Rightarrow> bool" where
  "succeeded r \<longleftrightarrow> (\<exists>x. r = Inr x)"

lemma succeeded_simps [simp]: "succeeded (Inr x)" "\<not> succeeded (Inl e)"
  by (simp_all add: succeeded_def)

lemma materialize_ok:
  assumes "host_ok intact h" "safe_at intact c"
  shows "good_op intact succeeded (materialize_rootfs_from_tar h tar sha opts mke2fs) c"
proof (cases "rh_materialize h \<lparr>mr_tar = tar, mr_sha = sha, mr_mke2fs = mke2fs, mr_size_bytes = ro_size_bytes opts\<rparr>")
  case (Inl e)
  then have "materialize_rootfs_from_tar h tar sha opts mke2fs c = return_op (Inl e) c"
    by (simp add: materialize_rootfs_from_tar_def return_op_def)
  then show ?thesis by (rule good_op_eq) (use assms(2) in \<open>simp add: good_op_return\<close>)
next
  case (Inr img)
  let ?publish = "bind_op (\<lambda>_. ((), [Put_image img])) (\<lambda>_. bind_op (mark_rootfs_image_clean h) (\<lambda>_.
    bind_op (write_template_metadata h sha ''materialize'' None) (\<lambda>_. return_op (Inr ()))))"
  have "materialize_rootfs_from_tar h tar sha opts mke2fs c = ?publish c"
    using Inr by (simp add: materialize_rootfs_from_tar_def)
  then show ?thesis by (rule good_op_eq) (rule publish_ok [OF assms(2) host_okD(1) [OF assms(1) Inr]])
qed

definition found_image :: "provision_error + bool \<Rightarrow> bool" where
  "found_image r \<longleftrightarrow> r = Inr True"

lemma prebake_ok:
  assumes "host_ok intact h" "safe_at intact c"
  shows "good_op intact found_image (try_prebake_from_sibling h sha opts s) c"
proof -
  consider r where "try_prebake_from_sibling h sha opts s c = return_op r c" "r \<noteq> Inr True"
    | img d where "intact (grown_to (ro_size_bytes opts) img)"
      "try_prebake_from_sibling h sha opts s c =
        bind_op (\<lambda>_. ((), [Put_image (grown_to (ro_size_bytes opts) img)])) (\<lambda>_. bind_op (mark_rootfs_image_clean h) (\<lambda>_.
          bind_op (write_template_metadata h sha ''prebake'' d) (\<lambda>_. return_op (Inr True)))) c"
  proof (cases "rh_staging h")
    case True
    show thesis
    proof (cases "\<exists>img d. rh_decompress h s = Some (Some (img, d)) \<and> looks_like_ext4 img \<and>
        (grown_to (ro_size_bytes opts) img = img \<or> rh_truncatable h)")
      case unpacked: True
      then obtain img d where img: "rh_decompress h s = Some (Some (img, d))" "looks_like_ext4 img"
        and grows: "grown_to (ro_size_bytes opts) img = img \<or> rh_truncatable h" by blast
      show thesis
        using that(2) [of img d] host_okD(2) [OF assms(1) img] host_okD(3) [OF assms(1)] img grows True
        by (auto simp: try_prebake_from_sibling_def)
    next
      case False
      then have "try_prebake_from_sibling h sha opts s c = return_op (Inr False) c"
        using True by (auto simp: try_prebake_from_sibling_def return_op_def split: option.split)
      then show thesis using that(1) by blast
    qed
  next
    case False
    then show thesis using that(1) [of "Inl Staging_failed"] by (simp add: try_prebake_from_sibling_def return_op_def)
  qed
  then show ?thesis
  proof cases
    case 1
    from 1(1) show ?thesis by (rule good_op_eq) (use assms(2) 1(2) in \<open>auto simp: found_image_def intro: good_op_return\<close>)
  next
    case 2
    from 2(2) show ?thesis by (rule good_op_eq) (rule publish_ok [OF assms(2) 2(1)])
  qed
qed

lemma good_op_crash_safe: "good_op intact returned m c \<Longrightarrow> crash_safe intact m c"
  by (simp add: good_op_def)

lemma siblings_ok:
  assumes "host_ok intact h"
  shows "safe_at intact c \<Longrightarrow> good_op intact found_image (try_siblings h sha opts ss) c"
proof (induction ss arbitrary: c)
  case Nil
  then show ?case by (auto simp: found_image_def intro: good_op_return)
next
  case (Cons s ss)
  let ?r = "fst (try_prebake_from_sibling h sha opts s c)" and ?c = "after_op (try_prebake_from_sibling h sha opts s) c"
  have first: "good_op intact found_image (try_prebake_from_sibling h sha opts s) c" by (rule prebake_ok [OF assms Cons.prems])
  have safe: "safe_at intact ?c" by (rule crash_safe_end [OF good_op_crash_safe [OF first]])
  have "good_op intact found_image (case ?r of Inr False \<Rightarrow> try_siblings h sha opts ss | _ \<Rightarrow> return_op ?r) ?c"
    using Cons.IH [OF safe] first safe
    by (auto simp: good_op_def found_image_def split: sum.split bool.split)
  then show ?case using good_op_crash_safe [OF first] by (auto intro: good_op_bind)
qed

lemma prebaked_ok:
  "host_ok intact h \<Longrightarrow> safe_at intact c \<Longrightarrow> good_op intact found_image (try_prebaked_rootfs h tar sha opts) c"
  by (auto simp: try_prebaked_rootfs_def found_image_def intro: siblings_ok good_op_return)

lemma ensure_ok:
  assumes "host_ok intact h" "safe_at intact c" "rh_marker_removable h \<or> verified_metadata sha c"
  shows "good_op intact succeeded (ensure_keyed h tar sha opts) c"
  unfolding ensure_keyed_def
proof (rule good_op_bind)
  have reuse: "good_op intact id (try_reusable_cached_rootfs h sha opts) c" by (rule reuse_ok [OF assms])
  then show "crash_safe intact (try_reusable_cached_rootfs h sha opts) c" by (rule good_op_crash_safe)
  let ?c = "after_op (try_reusable_cached_rootfs h sha opts) c"
  have safe: "safe_at intact ?c" by (rule crash_safe_end [OF good_op_crash_safe [OF reuse]])
  have held: "fst (try_reusable_cached_rootfs h sha opts c) \<Longrightarrow> holds_intact intact ?c"
    using reuse by (simp add: good_op_def)
  note built = materialize_ok [OF assms(1)]
  have prebaked: "good_op intact succeeded (bind_op (try_prebaked_rootfs h tar sha opts) (\<lambda>r.
      case r of
        Inl e \<Rightarrow> return_op (Inl e)
      | Inr True \<Rightarrow> return_op (Inr ())
      | Inr False \<Rightarrow>
          (case resolve_mke2fs_or_throw h of
             Inl e \<Rightarrow> return_op (Inl e)
           | Inr mke2fs \<Rightarrow> materialize_rootfs_from_tar h tar sha opts mke2fs))) ?c"
  proof -
    note first = prebaked_ok [OF assms(1) safe, of tar sha opts]
    have safe': "safe_at intact (after_op (try_prebaked_rootfs h tar sha opts) ?c)"
      by (rule crash_safe_end [OF good_op_crash_safe [OF first]])
    show ?thesis
      using first safe' built [OF safe']
      by (intro good_op_bind good_op_crash_safe [OF first])
        (auto simp: good_op_def found_image_def split: sum.split bool.split)
  qed
  have pick: "good_op intact succeeded
      (case (if b then r else Inr None) of
         Inl e \<Rightarrow> return_op (Inl e)
       | Inr (Some mke2fs) \<Rightarrow> materialize_rootfs_from_tar h tar sha opts mke2fs
       | Inr None \<Rightarrow> P) ?c" if "good_op intact succeeded P ?c" for P b r
    using that built [OF safe] safe by (auto split: sum.split option.split)
  show "good_op intact succeeded (if fst (try_reusable_cached_rootfs h sha opts c) then return_op (Inr ())
      else
        (case (if prefer_materialize_over_prebake h opts then resolve_mke2fs h else Inr None) of
           Inl e \<Rightarrow> return_op (Inl e)
         | Inr (Some mke2fs) \<Rightarrow> materialize_rootfs_from_tar h tar sha opts mke2fs
         | Inr None \<Rightarrow>
             bind_op (try_prebaked_rootfs h tar sha opts) (\<lambda>r.
               case r of
                 Inl e \<Rightarrow> return_op (Inl e)
               | Inr True \<Rightarrow> return_op (Inr ())
               | Inr False \<Rightarrow>
                   (case resolve_mke2fs_or_throw h of
                      Inl e \<Rightarrow> return_op (Inl e)
                    | Inr mke2fs \<Rightarrow> materialize_rootfs_from_tar h tar sha opts mke2fs)))) ?c"
    using pick [OF prebaked, where b = "prefer_materialize_over_prebake h opts" and r = "resolve_mke2fs h"] held safe
    by simp
qed

section \<open>A sample host\<close>

text \<open>A host with one prebaked image: 1,080 zeros and the magic number of ext4.\<close>

definition sample_image :: bytes where
  "sample_image = replicate 1080 0 @ [0x53, 0xEF]"

definition sample_digest :: string where
  "sample_digest = replicate 64 (CHR ''a'')"

definition sample_rootfs_host :: rootfs_host where
  "sample_rootfs_host =
     \<lparr>rh_exists = (\<lambda>p. p \<in> {''base.tar'', ''base.img.zst''}), rh_which = (\<lambda>_. None), rh_darwin = False,
      rh_prefer_prebake = False, rh_mke2fs_env = None, rh_bundled_mke2fs = None, rh_cache_key = (\<lambda>_. Inr ''k''),
      rh_materialize = (\<lambda>_. Inl Tool_missing),
      rh_decompress = (\<lambda>_. Some (Some (sample_image, Some sample_digest))),
      rh_fsck = (\<lambda>_. (Some 0, [])), rh_staging = True, rh_marker_writable = True,
      rh_marker_removable = True, rh_meta_writable = True,
      rh_truncatable = True, rh_now = ''t''\<rparr>"

definition empty_cache :: image_cache where
  "empty_cache = \<lparr>c_image = None, c_marker = False, c_meta = None\<rparr>"

lemma sample_image_facts [simp]: "length sample_image = 1082" "looks_like_ext4 sample_image"
  by (simp_all add: sample_image_def looks_like_ext4_def nth_append)

lemma sample_digest_valid [simp]: "valid_image_sha256 (Str sample_digest)"
  by (simp add: valid_image_sha256_def sample_digest_def list_all_iff)

lemma sample_ensure:
  "ensure_keyed sample_rootfs_host ''base.tar'' ''k'' \<lparr>ro_force = False, ro_size_bytes = None\<rparr> empty_cache =
    (Inr (), [Put_image sample_image, Put_marker, Put_meta None,
      Put_meta (Some (template_metadata ''k'' 1082 ''prebake'' ''t'' (Some sample_digest)))])"
proof -
  have sibs: "filter (\<lambda>s. rh_exists sample_rootfs_host (pb_path s)) (sibling_prebake_candidates ''base.tar'') =
      [\<lparr>pb_path = ''base.img.zst'', pb_format = Zst\<rparr>]"
    by code_simp
  have prebaked: "try_prebaked_rootfs sample_rootfs_host ''base.tar'' ''k'' \<lparr>ro_force = False, ro_size_bytes = None\<rparr> empty_cache =
      (Inr True, [Put_image sample_image, Put_marker, Put_meta None,
        Put_meta (Some (template_metadata ''k'' 1082 ''prebake'' ''t'' (Some sample_digest)))])"
    by (simp add: try_prebaked_rootfs_def sibs)
      (simp add: bind_op_def return_op_def try_prebake_from_sibling_def sample_rootfs_host_def grown_to_def
        mark_rootfs_image_clean_def write_template_metadata_def)
  have "\<not> prefer_materialize_over_prebake sample_rootfs_host \<lparr>ro_force = False, ro_size_bytes = None\<rparr>"
    by (simp add: prefer_materialize_over_prebake_def sample_rootfs_host_def)
  moreover have "try_reusable_cached_rootfs sample_rootfs_host ''k'' \<lparr>ro_force = False, ro_size_bytes = None\<rparr> empty_cache =
      (False, [])"
    by (simp add: try_reusable_cached_rootfs_def empty_cache_def)
  ultimately show ?thesis
    by (simp add: ensure_keyed_def bind_op_def prebaked) (simp add: return_op_def)
qed

text \<open>C15: Whenever the machine crashes while an image is looked up or built - between any two writes,
  in the middle of the check, before the metadata is complete - a clean marker on disk stands for
  an intact image, and when the lookup succeeds the image it hands out is intact. An image
  without its marker is never handed out, it is built again. (Intact means what the builders
  guarantee; growing by zeros and an accepted check have to preserve it.) The marker has to be
  removable when a cached image without verified metadata is checked in place: the code goes on
  with the check when the removal fails (see \<open>kept_marker_lies\<close>).\<close>

theorem marker_means_intact:
  assumes "host_ok intact h" "safe_at intact c" "rh_marker_removable h \<or> verified_metadata sha c"
  shows "safe_at intact (apply_writes_to (take k (snd (ensure_keyed h tar sha opts c))) c) \<and>
    (fst (ensure_keyed h tar sha opts c) = Inr () \<longrightarrow>
      (\<exists>img. c_image (after_op (ensure_keyed h tar sha opts) c) = Some img \<and> intact img))"
  using ensure_ok [OF assms, of tar opts] by (simp add: good_op_def crash_safe_def holds_intact_def)

theorem marker_means_intact_witness:
  "\<exists>img. c_image (after_op (ensure_keyed sample_rootfs_host ''base.tar'' ''k'' \<lparr>ro_force = False, ro_size_bytes = None\<rparr>)
      empty_cache) = Some img \<and> looks_like_ext4 img"
proof -
  have host: "host_ok looks_like_ext4 sample_rootfs_host"
    by (auto simp: host_ok_def sample_rootfs_host_def looks_like_ext4_def nth_append)
  have start: "safe_at looks_like_ext4 empty_cache" by (simp add: safe_at_def empty_cache_def)
  have removable: "rh_marker_removable sample_rootfs_host \<or> verified_metadata ''k'' empty_cache"
    by (simp add: sample_rootfs_host_def)
  show ?thesis
    using marker_means_intact [OF host start removable, where k = 0 and tar = "''base.tar''" and
        opts = "\<lparr>ro_force = False, ro_size_bytes = None\<rparr>"]
    by (simp add: sample_ensure)
qed

text \<open>
  A marker that cannot be removed lies. Where the cached image has no verified metadata and
  \<open>unlinkSync\<close> of the marker fails, \<open>e2fsck\<close> still repairs the image in place: after every one of its
  writes, also those that leave the image damaged until the repair is complete, the clean marker is on
  disk, and after a crash there the next lookup would go by it.
\<close>

theorem kept_marker_lies:
  assumes "\<not> rh_marker_removable h" "\<not> verified_metadata sha c" "c_marker c" "c_image c = Some img" "looks_like_ext4 img"
    and "\<not> ro_force opts" "which_first h [''e2fsck''] = Some e2fsck" "rh_fsck h img = (status, states)" "k < length states"
  shows "c_marker (apply_writes_to (take (Suc k) (snd (ensure_keyed h tar sha opts c))) c) \<and>
    c_image (apply_writes_to (take (Suc k) (snd (ensure_keyed h tar sha opts c))) c) = Some (states ! k)"
proof -
  have check: "snd (fsck_cached_rootfs h c) = map Put_image states"
    using assms(4,5,7,8) by (simp add: fsck_cached_rootfs_def del: which_first.simps)
  have kept: "snd (mark_cached_image_in_use h c) = []" "after_op (mark_cached_image_in_use h) c = c"
    using assms(1) by (simp_all add: mark_cached_image_in_use_def after_op_def)
  have "\<exists>ws. snd (try_reusable_cached_rootfs h sha opts c) = map Put_image states @ ws"
    using assms(2-4,6) by (simp add: try_reusable_cached_rootfs_def snd_bind_op kept check)
  then obtain ws where ws: "snd (ensure_keyed h tar sha opts c) = map Put_image states @ ws"
    by (auto simp: ensure_keyed_def snd_bind_op)
  have "take (Suc k) (snd (ensure_keyed h tar sha opts c)) = map Put_image (take (Suc k) states)"
    using assms(9) by (simp add: ws take_map)
  moreover have "take (Suc k) states \<noteq> []" "last (take (Suc k) states) = states ! k"
    using assms(9) by (auto simp: take_Suc_conv_app_nth)
  ultimately show ?thesis using assms(3) by (simp add: apply_images)
qed

definition stubborn_host :: rootfs_host where
  "stubborn_host = sample_rootfs_host\<lparr>rh_marker_removable := False, rh_which := Some,
     rh_fsck := (\<lambda>img. (Some 1, [[], img]))\<rparr>"

definition legacy_cache :: image_cache where
  "legacy_cache = \<lparr>c_image = Some sample_image, c_marker = True, c_meta = None\<rparr>"

theorem kept_marker_lies_witness:
  "let crashed = apply_writes_to (take 1 (snd (ensure_keyed stubborn_host ''base.tar'' ''k''
      \<lparr>ro_force = False, ro_size_bytes = None\<rparr> legacy_cache))) legacy_cache
   in safe_at looks_like_ext4 legacy_cache \<and> host_ok looks_like_ext4 stubborn_host \<and> \<not> safe_at looks_like_ext4 crashed"
proof -
  have "host_ok looks_like_ext4 stubborn_host"
    by (auto simp: host_ok_def stubborn_host_def sample_rootfs_host_def looks_like_ext4_def nth_append)
  moreover have "safe_at looks_like_ext4 legacy_cache" by (simp add: safe_at_def legacy_cache_def)
  ultimately show ?thesis
    using kept_marker_lies [where h = stubborn_host and sha = "''k''" and c = legacy_cache and img = sample_image and
        opts = "\<lparr>ro_force = False, ro_size_bytes = None\<rparr>" and e2fsck = "''e2fsck''" and status = "Some 1" and
        states = "[[], sample_image]" and k = 0 and tar = "''base.tar''"]
    by (simp add: Let_def safe_at_def stubborn_host_def legacy_cache_def verified_metadata_def sample_rootfs_host_def)
      (simp add: looks_like_ext4_def)
qed

section \<open>The identity of a boot disk\<close>

definition identity_ok :: "(bytes \<Rightarrow> string) \<Rightarrow> image_cache \<Rightarrow> bool" where
  "identity_ok digest c \<longleftrightarrow>
     (\<forall>n d. trusted_template_identity c = Some (n, d) \<longrightarrow>
       (\<exists>img. c_image c = Some img \<and> n = length img \<and> d = digest img))"

definition digests_ok :: "(bytes \<Rightarrow> string) \<Rightarrow> rootfs_host \<Rightarrow> bool" where
  "digests_ok digest h \<longleftrightarrow> (\<forall>s img d. rh_decompress h s = Some (Some (img, Some d)) \<longrightarrow> d = digest img)"

lemma written_identity:
  assumes "rh_meta_writable h" "c_image c = Some img"
  shows "trusted_template_identity (after_op (write_template_metadata h sha source d) c) =
    (case d of None \<Rightarrow> None | Some s \<Rightarrow> if valid_image_sha256 (Str s) then Some (length img, s) else None)"
  using assms
  by (auto simp: write_template_metadata_def after_op_def trusted_template_identity_def template_metadata_def
      field_def split: option.split)

lemma published:
  assumes "rh_meta_writable h" "m = bind_op (\<lambda>_. ((), [Put_image img])) (\<lambda>_. bind_op (mark_rootfs_image_clean h) (\<lambda>_.
    bind_op (write_template_metadata h sha source d) (\<lambda>_. return_op x)))"
  shows "c_image (after_op m c) = Some img" "fst (m c) = x"
    "trusted_template_identity (after_op m c) =
      (case d of None \<Rightarrow> None | Some s \<Rightarrow> if valid_image_sha256 (Str s) then Some (length img, s) else None)"
proof -
  let ?c = "after_op (mark_rootfs_image_clean h) (after_op (\<lambda>_. ((), [Put_image img])) c)"
  have img: "c_image ?c = Some img" by (simp add: after_op_def mark_rootfs_image_clean_def)
  then show "c_image (after_op m c) = Some img" "fst (m c) = x" by (simp_all add: assms(2))
  show "trusted_template_identity (after_op m c) =
      (case d of None \<Rightarrow> None | Some s \<Rightarrow> if valid_image_sha256 (Str s) then Some (length img, s) else None)"
    using written_identity [OF assms(1) img] by (simp add: assms(2))
qed

lemma published_identity_ok:
  assumes "rh_meta_writable h" "m = bind_op (\<lambda>_. ((), [Put_image img])) (\<lambda>_. bind_op (mark_rootfs_image_clean h) (\<lambda>_.
    bind_op (write_template_metadata h sha source d) (\<lambda>_. return_op x)))" "\<And>s. d = Some s \<Longrightarrow> s = digest img"
  shows "identity_ok digest (after_op m c)"
  using published(1,3) [OF assms(1,2)] assms(3) by (auto simp: identity_ok_def split: option.splits if_splits)

lemma materialize_identity:
  assumes "rh_meta_writable h" "fst (materialize_rootfs_from_tar h tar sha opts mke2fs c) = Inr ()"
  shows "identity_ok digest (after_op (materialize_rootfs_from_tar h tar sha opts mke2fs) c)"
proof -
  let ?r = "\<lparr>mr_tar = tar, mr_sha = sha, mr_mke2fs = mke2fs, mr_size_bytes = ro_size_bytes opts\<rparr>"
  obtain img where "rh_materialize h ?r = Inr img"
    using assms(2) by (auto simp: materialize_rootfs_from_tar_def split: sum.splits)
  then have after: "after_op (materialize_rootfs_from_tar h tar sha opts mke2fs) c =
      after_op (bind_op (\<lambda>_. ((), [Put_image img])) (\<lambda>_. bind_op (mark_rootfs_image_clean h) (\<lambda>_.
        bind_op (write_template_metadata h sha ''materialize'' None) (\<lambda>_. return_op (Inr () :: provision_error + unit))))) c"
    by (simp add: materialize_rootfs_from_tar_def after_op_def)
  show ?thesis unfolding after by (rule published_identity_ok [OF assms(1) refl]) simp
qed

lemma prebake_cases:
  assumes "fst (try_prebake_from_sibling h sha opts s c) = Inr True"
  obtains img d where "rh_decompress h s = Some (Some (img, d))"
    "after_op (try_prebake_from_sibling h sha opts s) c =
      after_op (bind_op (\<lambda>_. ((), [Put_image (grown_to (ro_size_bytes opts) img)])) (\<lambda>_. bind_op (mark_rootfs_image_clean h) (\<lambda>_.
        bind_op (write_template_metadata h sha ''prebake'' d) (\<lambda>_. return_op (Inr True :: provision_error + bool))))) c"
proof -
  obtain img d where img: "rh_decompress h s = Some (Some (img, d))" "looks_like_ext4 img" "rh_staging h"
      "grown_to (ro_size_bytes opts) img = img \<or> rh_truncatable h"
    using assms by (auto simp: try_prebake_from_sibling_def split: if_splits option.splits)
  then show thesis by (intro that [of img d]) (auto simp: try_prebake_from_sibling_def after_op_def)
qed

lemma siblings_identity:
  assumes "rh_meta_writable h" "digests_ok digest h" "ro_size_bytes opts = None"
  shows "fst (try_siblings h sha opts ss c) = Inr True \<Longrightarrow> identity_ok digest (after_op (try_siblings h sha opts ss) c)"
proof (induction ss arbitrary: c)
  case (Cons s ss)
  let ?r = "fst (try_prebake_from_sibling h sha opts s c)"
  show ?case
  proof (cases "?r = Inr True")
    case True
    then obtain img d where img: "rh_decompress h s = Some (Some (img, d))"
      and after: "after_op (try_prebake_from_sibling h sha opts s) c =
        after_op (bind_op (\<lambda>_. ((), [Put_image (grown_to (ro_size_bytes opts) img)])) (\<lambda>_. bind_op (mark_rootfs_image_clean h) (\<lambda>_.
          bind_op (write_template_metadata h sha ''prebake'' d) (\<lambda>_. return_op (Inr True :: provision_error + bool))))) c"
      by (rule prebake_cases)
    have "identity_ok digest (after_op (try_prebake_from_sibling h sha opts s) c)"
      unfolding after
      by (rule published_identity_ok [OF assms(1) refl]) (use assms(2,3) img in \<open>auto simp: digests_ok_def grown_to_def\<close>)
    then show ?thesis using True by simp
  next
    case False
    then show ?thesis using Cons by (auto split: sum.splits bool.splits)
  qed
qed simp

lemma reuse_identity:
  assumes "rh_meta_writable h" "ro_size_bytes opts = None" "identity_ok digest c"
    "fst (try_reusable_cached_rootfs h sha opts c)"
  shows "identity_ok digest (after_op (try_reusable_cached_rootfs h sha opts) c)"
proof -
  have grow: "after_op (grow_cached_rootfs h opts) c' = c'" for c'
    using assms(2) by (simp add: grow_cached_rootfs_def after_op_def)
  show ?thesis
  proof (cases "verified_metadata sha c")
    case True
    then have "after_op (try_reusable_cached_rootfs h sha opts) c = after_op (grow_cached_rootfs h opts) c"
      using assms(4) by (simp add: try_reusable_cached_rootfs_def after_op_def bind_op_def return_op_def split: if_splits prod.split)
    then show ?thesis using assms(3) by (simp add: grow)
  next
    case False
    let ?c = "after_op (fsck_cached_rootfs h) (after_op (mark_cached_image_in_use h) c)"
    have present: "\<exists>img. c_image ?c = Some img" if "c_image c = Some img" for img
      using that by (auto simp: fsck_cached_rootfs_def mark_cached_image_in_use_def after_op_def apply_images split: prod.split)
    have steps: "(ro_force opts \<or> c_image c = None) = False" "c_marker c"
      using assms(4) by (auto simp: try_reusable_cached_rootfs_def split: if_splits)
    have "try_reusable_cached_rootfs h sha opts c =
        bind_op (mark_cached_image_in_use h) (\<lambda>_. bind_op (fsck_cached_rootfs h) (\<lambda>usable.
          if \<not> usable then return_op False
          else bind_op (grow_cached_rootfs h opts) (\<lambda>_.
            bind_op (write_template_metadata h sha ''legacy-fsck'' None) (\<lambda>_. return_op True)))) c"
      using steps False by (auto simp: try_reusable_cached_rootfs_def)
    then have after: "after_op (try_reusable_cached_rootfs h sha opts) c =
        after_op (write_template_metadata h sha ''legacy-fsck'' None) ?c"
      using assms(4) unfolding after_op_def [of "try_reusable_cached_rootfs h sha opts"]
      by (simp flip: after_op_def add: grow split: if_splits)
    obtain img where "c_image ?c = Some img" using steps(1) present by blast
    then show ?thesis
      unfolding after using written_identity [OF assms(1), of ?c img sha "''legacy-fsck''" None]
      by (simp add: identity_ok_def)
  qed
qed

lemma ensure_identity:
  assumes "rh_meta_writable h" "digests_ok digest h" "ro_size_bytes opts = None" "identity_ok digest c"
    "fst (ensure_keyed h tar sha opts c) = Inr ()"
  shows "identity_ok digest (after_op (ensure_keyed h tar sha opts) c)"
proof -
  let ?reuse = "try_reusable_cached_rootfs h sha opts" and ?c = "after_op (try_reusable_cached_rootfs h sha opts) c"
  let ?pre = "try_prebaked_rootfs h tar sha opts"
  show ?thesis
  proof (cases "fst (?reuse c)")
    case True
    then show ?thesis using reuse_identity [OF assms(1,3,4)] by (simp add: ensure_keyed_def)
  next
    case False
    have pre: "identity_ok digest (after_op ?pre c')" if "fst (?pre c') = Inr True" for c'
      using that siblings_identity [OF assms(1-3)] by (auto simp: try_prebaked_rootfs_def split: if_splits)
    show ?thesis
      using assms(5) False materialize_identity [OF assms(1)] pre
      by (auto simp: ensure_keyed_def split: sum.splits option.splits bool.splits if_splits)
  qed
qed

text \<open>The identity that is remembered for the disk of a boot - and that a later snapshot takes
  for the digest of the disk instead of reading it - is the size and the digest of the clone that the
  machine gets, if no larger disk is asked for.\<close>

theorem boot_disk_identity_is_true:
  assumes "rh_meta_writable h" "digests_ok digest h" "ro_size_bytes opts = None" "identity_ok digest c"
    and "\<And>img img'. clone img = Some img' \<Longrightarrow> img' = img"
    and "fst (materialize_cached_rootdisk h clone tar sha opts c) = Inr disk" "bd_identity disk = Some (n, d)"
  shows "n = length (bd_image disk) \<and> d = digest (bd_image disk)"
proof -
  let ?c = "after_op (ensure_keyed h tar sha opts) c"
  obtain img img' where done': "fst (ensure_keyed h tar sha opts c) = Inr ()" "c_image ?c = Some img" "clone img = Some img'"
      "disk = \<lparr>bd_image = img', bd_identity = trusted_template_identity ?c\<rparr>"
    using assms(6) by (auto simp: materialize_cached_rootdisk_def bind_eq_Some_conv split: sum.splits option.splits)
  then show ?thesis
    using ensure_identity [OF assms(1-4) done'(1)] assms(5) [OF done'(3)] assms(7) by (auto simp: identity_ok_def)
qed

theorem boot_disk_identity_is_true_witness:
  "\<exists>disk. fst (materialize_cached_rootdisk sample_rootfs_host Some ''base.tar'' ''k''
      \<lparr>ro_force = False, ro_size_bytes = None\<rparr> empty_cache) = Inr disk \<and>
    bd_identity disk = Some (1082, sample_digest) \<and> bd_image disk = sample_image"
proof -
  let ?disk = "\<lparr>bd_image = sample_image, bd_identity = Some (1082, sample_digest)\<rparr>"
  have digests: "digests_ok (\<lambda>_. sample_digest) sample_rootfs_host"
    by (simp add: digests_ok_def sample_rootfs_host_def)
  have start: "identity_ok (\<lambda>_. sample_digest) empty_cache"
    by (simp add: identity_ok_def trusted_template_identity_def empty_cache_def)
  have after: "after_op (ensure_keyed sample_rootfs_host ''base.tar'' ''k'' \<lparr>ro_force = False, ro_size_bytes = None\<rparr>) empty_cache =
      \<lparr>c_image = Some sample_image, c_marker = True,
       c_meta = Some (Some (template_metadata ''k'' 1082 ''prebake'' ''t'' (Some sample_digest)))\<rparr>"
    unfolding after_op_def sample_ensure by (simp add: empty_cache_def)
  have disk: "fst (materialize_cached_rootdisk sample_rootfs_host Some ''base.tar'' ''k''
      \<lparr>ro_force = False, ro_size_bytes = None\<rparr> empty_cache) = Inr ?disk"
    by (simp add: materialize_cached_rootdisk_def after)
      (simp add: sample_ensure after trusted_template_identity_def template_metadata_def field_def)
  have "1082 = length sample_image \<and> sample_digest = sample_digest"
    using boot_disk_identity_is_true [OF _ digests _ start _ disk, of 1082 sample_digest]
    by (simp add: sample_rootfs_host_def)
  then show ?thesis using disk by simp
qed

text \<open>C32: A prebaked image that is grown to the requested size is recorded with the digest of what was
  unpacked before it grew, so the identity that is trusted for the disk names the digest of a
  shorter file.\<close>

theorem grown_prebake_keeps_old_digest:
  assumes "rh_staging h" "rh_truncatable h" "rh_meta_writable h" "rh_decompress h s = Some (Some (img, Some d))"
    and "looks_like_ext4 img" "valid_image_sha256 (Str d)" "ro_size_bytes opts = Some n" "length img < n"
  shows "c_image (after_op (try_prebake_from_sibling h sha opts s) c) = Some (img @ replicate (n - length img) 0) \<and>
    trusted_template_identity (after_op (try_prebake_from_sibling h sha opts s) c) = Some (n, d)"
proof -
  have "after_op (try_prebake_from_sibling h sha opts s) c =
      after_op (bind_op (\<lambda>_. ((), [Put_image (grown_to (ro_size_bytes opts) img)])) (\<lambda>_. bind_op (mark_rootfs_image_clean h) (\<lambda>_.
        bind_op (write_template_metadata h sha ''prebake'' (Some d)) (\<lambda>_. return_op (Inr True :: provision_error + bool))))) c"
    using assms(1,2,4,5) by (simp add: try_prebake_from_sibling_def after_op_def)
  then show ?thesis
    using published(1,3) [OF assms(3) refl, of "grown_to (ro_size_bytes opts) img" sha "''prebake''" "Some d" "Inr True :: provision_error + bool" c]
      assms(6-8) by (simp add: grown_to_def)
qed

theorem grown_prebake_keeps_old_digest_witness:
  "trusted_template_identity (after_op (try_prebake_from_sibling sample_rootfs_host ''k''
      \<lparr>ro_force = False, ro_size_bytes = Some 2000\<rparr> \<lparr>pb_path = ''base.img.zst'', pb_format = Zst\<rparr>) empty_cache) =
    Some (2000, sample_digest)"
  using grown_prebake_keeps_old_digest [of sample_rootfs_host "\<lparr>pb_path = ''base.img.zst'', pb_format = Zst\<rparr>" sample_image
      sample_digest "\<lparr>ro_force = False, ro_size_bytes = Some 2000\<rparr>" 2000 "''k''" empty_cache]
  by (simp add: sample_rootfs_host_def)

end
