(* ===== verification/Base_Assets.thy ===== *)
theory Base_Assets
  imports Posix_Path
begin

text \<open>
  Where the base image, the kernel and the device tree of a guest come from:
  \<^verbatim>\<open>packages/runtime/src/base-assets.ts\<close> with the native plans of \<^verbatim>\<open>native/src/boot_plan.zig\<close> that it
  asks. \<open>existing\<close> is \<open>existsSync\<close>. The release name is short enough for the buffer of the planner.
\<close>

section \<open>Names of the assets\<close>

datatype guest_cpu = Cpu_arm64 | Cpu_amd64

record asset_names =
  an_cpu :: string
  an_kernel :: string
  an_dtb :: "string option"
  an_rootfs :: string

text \<open>The host: \<open>MACHINEN_GUEST_ARCH\<close>, \<open>os.arch()\<close>, \<open>MACHINEN_ASSETS_DIR\<close>, the home and the working
  directory, and the version of the package.\<close>

record asset_host =
  ah_arch_override :: "string option"
  ah_os_arch :: string
  ah_assets_dir :: "string option"
  ah_home :: string
  ah_cwd :: path
  ah_version :: string

definition provision_guest_cpu :: "string option \<Rightarrow> string \<Rightarrow> guest_cpu" where
  "provision_guest_cpu arch_override os_arch =
     (if arch_override = Some ''arm64'' then Cpu_arm64
      else if arch_override = Some ''amd64'' then Cpu_amd64
      else if os_arch = ''x64'' then Cpu_amd64
      else Cpu_arm64)"

definition base_asset_spec :: "asset_host \<Rightarrow> asset_names" where
  "base_asset_spec ah =
     (case provision_guest_cpu (ah_arch_override ah) (ah_os_arch ah) of
        Cpu_amd64 \<Rightarrow> \<lparr>an_cpu = ''amd64'', an_kernel = ''bzImage-x86_64'', an_dtb = None,
                       an_rootfs = ''rootfs-debian-amd64.tar.gz''\<rparr>
      | Cpu_arm64 \<Rightarrow> \<lparr>an_cpu = ''arm64'', an_kernel = ''Image-arm64'', an_dtb = Some ''virt-arm64.dtb'',
                       an_rootfs = ''rootfs-debian-arm64.tar.gz''\<rparr>)"

section \<open>The lookup\<close>

datatype provision_code =
    PROVISION_BASE_NOT_FOUND | PROVISION_KERNEL_NOT_FOUND | PROVISION_DTB_NOT_FOUND | PROVISION_ASSETS_DIR_INVALID

record wanted_asset =
  wa_dir_name :: string \<comment> \<open>its name in the assets directory\<close>
  wa_cache_name :: string \<comment> \<open>its name in the cache of the command line tool\<close>
  wa_missing :: provision_code

record asset_lookup =
  al_explicit :: "path option"
  al_explicit_exists :: "bool option"
  al_assets_dir :: "path option"
  al_assets_dir_exists :: "bool option"
  al_cache :: "path option"
  al_cache_exists :: "bool option"

text \<open>An empty string is falsy.\<close>

definition nonempty :: "string option \<Rightarrow> string option" where
  "nonempty v = (if v = Some '''' then None else v)"

definition cli_cached_base_dir :: "asset_host \<Rightarrow> path" where
  "cli_cached_base_dir ah =
     resolve (ah_cwd ah) (ah_home ah) @ [''.machinen'', ''runtime-v'' @ ah_version ah, ''bases'', ''debian-'' @ an_cpu (base_asset_spec ah)]"

definition asset_lookup_request ::
    "(path \<Rightarrow> bool) \<Rightarrow> asset_host \<Rightarrow> wanted_asset \<Rightarrow> string option \<Rightarrow> path \<Rightarrow> asset_lookup" where
  "asset_lookup_request existing ah wanted explicit cwd =
     (let explicit_path = map_option (resolve cwd) (nonempty explicit);
          dir_path =
            (if explicit_path = None
             then map_option (\<lambda>d. resolve (resolve (ah_cwd ah) d) (wa_dir_name wanted)) (nonempty (ah_assets_dir ah))
             else None);
          cache_path =
            (if explicit_path = None \<and> dir_path = None then Some (cli_cached_base_dir ah @ [wa_cache_name wanted]) else None)
      in \<lparr>al_explicit = explicit_path, al_explicit_exists = map_option existing explicit_path,
          al_assets_dir = dir_path, al_assets_dir_exists = map_option existing dir_path,
          al_cache = cache_path, al_cache_exists = map_option existing cache_path\<rparr>)"

datatype lookup_error = Lookup_missing | Assets_dir_invalid

text \<open>\<open>planProvisionAssetLookup\<close>\<close>

definition plan_asset_lookup :: "asset_lookup \<Rightarrow> lookup_error + path" where
  "plan_asset_lookup l =
     (case al_explicit l of
        Some p \<Rightarrow> if al_explicit_exists l = Some True then Inr p else Inl Lookup_missing
      | None \<Rightarrow>
          (case al_assets_dir l of
             Some p \<Rightarrow> if al_assets_dir_exists l = Some True then Inr p else Inl Assets_dir_invalid
           | None \<Rightarrow>
               (case al_cache l of
                  Some p \<Rightarrow> if al_cache_exists l = Some True then Inr p else Inl Lookup_missing
                | None \<Rightarrow> Inl Lookup_missing)))"

definition resolved_asset_path :: "wanted_asset \<Rightarrow> lookup_error + path \<Rightarrow> provision_code + path" where
  "resolved_asset_path wanted plan =
     (case plan of
        Inr p \<Rightarrow> Inr p
      | Inl Assets_dir_invalid \<Rightarrow> Inl PROVISION_ASSETS_DIR_INVALID
      | Inl Lookup_missing \<Rightarrow> Inl (wa_missing wanted))"

definition resolve_base_asset ::
    "(path \<Rightarrow> bool) \<Rightarrow> asset_host \<Rightarrow> wanted_asset \<Rightarrow> string option \<Rightarrow> path \<Rightarrow> provision_code + path" where
  "resolve_base_asset existing ah wanted explicit cwd =
     resolved_asset_path wanted (plan_asset_lookup (asset_lookup_request existing ah wanted explicit cwd))"

definition resolve_base_rootfs :: "(path \<Rightarrow> bool) \<Rightarrow> asset_host \<Rightarrow> string option \<Rightarrow> path \<Rightarrow> provision_code + path" where
  "resolve_base_rootfs existing ah explicit cwd =
     resolve_base_asset existing ah
       \<lparr>wa_dir_name = an_rootfs (base_asset_spec ah), wa_cache_name = ''rootfs.tar.gz'', wa_missing = PROVISION_BASE_NOT_FOUND\<rparr>
       explicit cwd"

definition resolve_base_kernel :: "(path \<Rightarrow> bool) \<Rightarrow> asset_host \<Rightarrow> string option \<Rightarrow> path \<Rightarrow> provision_code + path" where
  "resolve_base_kernel existing ah explicit cwd =
     resolve_base_asset existing ah
       \<lparr>wa_dir_name = an_kernel (base_asset_spec ah), wa_cache_name = ''Image'', wa_missing = PROVISION_KERNEL_NOT_FOUND\<rparr>
       explicit cwd"

text \<open>\<open>planProvisionDtb\<close> decides whether a device tree is needed when none is given.\<close>

definition resolve_base_dtb :: "(path \<Rightarrow> bool) \<Rightarrow> asset_host \<Rightarrow> string option \<Rightarrow> path \<Rightarrow> provision_code + path option" where
  "resolve_base_dtb existing ah explicit cwd =
     (let wanted = (\<lambda>name. \<lparr>wa_dir_name = name, wa_cache_name = ''virt.dtb'', wa_missing = PROVISION_DTB_NOT_FOUND\<rparr>) in
      if nonempty explicit \<noteq> None
      then bind_res (resolve_base_asset existing ah (wanted ''virt-arm64.dtb'') explicit cwd) (\<lambda>p. Inr (Some p))
      else
        (case an_dtb (base_asset_spec ah) of
           None \<Rightarrow> Inr None
         | Some name \<Rightarrow> bind_res (resolve_base_asset existing ah (wanted name) None cwd) (\<lambda>p. Inr (Some p))))"

section \<open>What a lookup finds\<close>

lemma nonempty_simps [simp]:
  "nonempty None = None" "nonempty (Some s) = None \<longleftrightarrow> s = ''''" "s \<noteq> '''' \<Longrightarrow> nonempty (Some s) = Some s"
  by (simp_all add: nonempty_def)

lemma resolve_base_asset_explicit:
  "s \<noteq> '''' \<Longrightarrow> resolve_base_asset existing ah wanted (Some s) cwd =
     (if existing (resolve cwd s) then Inr (resolve cwd s) else Inl (wa_missing wanted))"
  by (simp add: resolve_base_asset_def resolved_asset_path_def plan_asset_lookup_def asset_lookup_request_def Let_def)

lemma resolve_base_asset_default:
  "nonempty explicit = None \<Longrightarrow> resolve_base_asset existing ah wanted explicit cwd =
     (case nonempty (ah_assets_dir ah) of
        Some d \<Rightarrow>
          let p = resolve (resolve (ah_cwd ah) d) (wa_dir_name wanted) in
          if existing p then Inr p else Inl PROVISION_ASSETS_DIR_INVALID
      | None \<Rightarrow>
          let p = cli_cached_base_dir ah @ [wa_cache_name wanted] in
          if existing p then Inr p else Inl (wa_missing wanted))"
  by (auto simp: resolve_base_asset_def resolved_asset_path_def plan_asset_lookup_def asset_lookup_request_def Let_def
      split: option.split)

lemma resolve_base_asset_exists:
  "resolve_base_asset existing ah wanted explicit cwd = Inr p \<Longrightarrow> existing p"
  by (cases "nonempty explicit")
    (auto simp: resolve_base_asset_default Let_def resolve_base_asset_def resolved_asset_path_def plan_asset_lookup_def
      asset_lookup_request_def split: if_splits option.splits sum.splits lookup_error.splits)

end
