(* ===== verification/Effects.thy ===== *)
theory Effects
  imports Prelude
begin

text \<open>
  Programs that read and write a state and may throw: what \<^verbatim>\<open>async\<close> functions and functions over
  the file system do. A throw keeps the state reached so far.
\<close>

section \<open>Effects\<close>

type_synonym ('s, 'e, 'a) effect = "'s \<Rightarrow> ('e + 'a) \<times> 's"

definition return_eff :: "'a \<Rightarrow> ('s, 'e, 'a) effect" where
  "return_eff x = (\<lambda>s. (Inr x, s))"

definition throw_eff :: "'e \<Rightarrow> ('s, 'e, 'a) effect" where
  "throw_eff e = (\<lambda>s. (Inl e, s))"

definition bind_eff :: "('s, 'e, 'a) effect \<Rightarrow> ('a \<Rightarrow> ('s, 'e, 'b) effect) \<Rightarrow> ('s, 'e, 'b) effect" where
  "bind_eff m f = (\<lambda>s. case m s of (Inl e, s') \<Rightarrow> (Inl e, s') | (Inr x, s') \<Rightarrow> f x s')"

definition lift_eff :: "'e + 'a \<Rightarrow> ('s, 'e, 'a) effect" where
  "lift_eff r = (\<lambda>s. (r, s))"

definition gets_eff :: "('s \<Rightarrow> 'a) \<Rightarrow> ('s, 'e, 'a) effect" where
  "gets_eff f = (\<lambda>s. (Inr (f s), s))"

definition modify_eff :: "('s \<Rightarrow> 's) \<Rightarrow> ('s, 'e, unit) effect" where
  "modify_eff f = (\<lambda>s. (Inr (), f s))"

definition when_eff :: "bool \<Rightarrow> ('s, 'e, unit) effect \<Rightarrow> ('s, 'e, unit) effect" where
  "when_eff b m = (if b then m else return_eff ())"

text \<open>\<open>try { m } catch { h }\<close> and \<open>try { m } finally { c }\<close> for a cleanup that does not throw\<close>

definition catch_eff :: "('s, 'e, 'a) effect \<Rightarrow> ('e \<Rightarrow> ('s, 'e, 'a) effect) \<Rightarrow> ('s, 'e, 'a) effect" where
  "catch_eff m h = (\<lambda>s. case m s of (Inl e, s') \<Rightarrow> h e s' | (Inr x, s') \<Rightarrow> (Inr x, s'))"

definition finally_eff :: "('s, 'e, 'a) effect \<Rightarrow> ('s \<Rightarrow> 's) \<Rightarrow> ('s, 'e, 'a) effect" where
  "finally_eff m c = (\<lambda>s. case m s of (r, s') \<Rightarrow> (r, c s'))"

lemmas effect_defs = return_eff_def throw_eff_def bind_eff_def lift_eff_def gets_eff_def modify_eff_def
  when_eff_def catch_eff_def finally_eff_def

section \<open>Evaluation\<close>

named_theorems effect_simps "rules that run the single effects"

lemma run_effects [effect_simps]:
  "return_eff x s = (Inr x, s)"
  "throw_eff e s = (Inl e, s)"
  "lift_eff r s = (r, s)"
  "gets_eff f s = (Inr (f s), s)"
  "modify_eff g s = (Inr (), g s)"
  "when_eff True m = m"
  "when_eff False m s = (Inr (), s)"
  by (simp_all add: effect_defs)

lemma bind_eff_Inr: "m s = (Inr x, s') \<Longrightarrow> bind_eff m f s = f x s'"
  by (simp add: bind_eff_def)

lemma bind_eff_Inl: "m s = (Inl e, s') \<Longrightarrow> bind_eff m f s = (Inl e, s')"
  by (simp add: bind_eff_def)

lemma bind_run_effects [effect_simps]:
  "bind_eff (return_eff x) f s = f x s"
  "bind_eff (throw_eff e) f s = (Inl e, s)"
  "bind_eff (lift_eff (Inr x)) f s = f x s"
  "bind_eff (lift_eff (Inl e)) f s = (Inl e, s)"
  "bind_eff (gets_eff g) f s = f (g s) s"
  "bind_eff (modify_eff h) k s = k () (h s)"
  by (simp_all add: effect_defs)

lemma bind_eff_cases:
  obtains (throws) e s' where "m s = (Inl e, s')" "bind_eff m f s = (Inl e, s')"
    | (goes_on) x s' where "m s = (Inr x, s')" "bind_eff m f s = f x s'"
  by (cases "m s"; cases "fst (m s)") (auto simp: bind_eff_def)

lemma bind_eff_SomeD:
  assumes "bind_eff m f s = (Inr y, t)"
  obtains x s' where "m s = (Inr x, s')" "f x s' = (Inr y, t)"
  using assms by (cases rule: bind_eff_cases [of m s f]) auto

lemma fst_bind_eff_Inr:
  "fst (bind_eff m f s) = Inr y \<longleftrightarrow> (\<exists>x. fst (m s) = Inr x \<and> fst (f x (snd (m s))) = Inr y)"
  by (cases rule: bind_eff_cases [of m s f]) auto

section \<open>What every run of an effect obeys\<close>

text \<open>The state after a run, also after a throw, stands in a relation to the state before. If the
  relation is reflexive and transitive, it is enough to look at the single effects.\<close>

definition obeys :: "('s \<Rightarrow> 's \<Rightarrow> bool) \<Rightarrow> ('s, 'e, 'a) effect \<Rightarrow> bool" where
  "obeys R m \<longleftrightarrow> (\<forall>s. R s (snd (m s)))"

lemma obeysI: "(\<And>s. R s (snd (m s))) \<Longrightarrow> obeys R m"
  by (simp add: obeys_def)

lemma obeys_run: "obeys R m \<Longrightarrow> m s = (r, s') \<Longrightarrow> R s s'"
  by (metis obeys_def snd_conv)

locale step_relation =
  fixes R :: "'s \<Rightarrow> 's \<Rightarrow> bool"
  assumes refl: "R s s" and trans: "R s t \<Longrightarrow> R t u \<Longrightarrow> R s u"
begin

lemma basic_rule:
  "obeys R (return_eff x)" "obeys R (throw_eff e)" "obeys R (lift_eff r)" "obeys R (gets_eff f)"
  by (simp_all add: obeys_def effect_defs refl)

lemma bind_rule:
  assumes "obeys R m" "\<And>x. obeys R (f x)"
  shows "obeys R (bind_eff m f)"
proof (rule obeysI)
  fix s
  show "R s (snd (bind_eff m f s))"
  proof (cases rule: bind_eff_cases [of m s f])
    case (throws e s')
    then show ?thesis using obeys_run [OF assms(1)] by simp
  next
    case (goes_on x s')
    then show ?thesis using trans [OF obeys_run [OF assms(1)]] assms(2) [of x] by (simp add: obeys_def)
  qed
qed

lemma modify_rule: "(\<And>s. R s (f s)) \<Longrightarrow> obeys R (modify_eff f)"
  by (simp add: obeys_def modify_eff_def)

lemma when_rule: "obeys R m \<Longrightarrow> obeys R (when_eff b m)"
  by (simp add: when_eff_def basic_rule)

lemma catch_rule:
  assumes "obeys R m" "\<And>e. obeys R (h e)"
  shows "obeys R (catch_eff m h)"
proof (rule obeysI)
  fix s
  show "R s (snd (catch_eff m h s))"
    using trans [OF obeys_run [OF assms(1), of s]] obeys_run [OF assms(1), of s] assms(2)
    by (auto simp: catch_eff_def obeys_def split: prod.split sum.split)
qed

lemma finally_rule:
  assumes "obeys R m" "\<And>s. R s (c s)"
  shows "obeys R (finally_eff m c)"
proof (rule obeysI)
  fix s
  show "R s (snd (finally_eff m c s))"
    using trans [OF obeys_run [OF assms(1), of s]] assms(2)
    by (auto simp: finally_eff_def split: prod.split)
qed

lemma conditional_rule: "obeys R m \<Longrightarrow> obeys R n \<Longrightarrow> obeys R (if b then m else n)"
  by simp

lemma option_rule: "obeys R m \<Longrightarrow> (\<And>x. obeys R (f x)) \<Longrightarrow> obeys R (case v of None \<Rightarrow> m | Some x \<Rightarrow> f x)"
  by (simp split: option.split)

lemma split_pair: "(\<And>x y. obeys R (f x y)) \<Longrightarrow> obeys R (case p of (x, y) \<Rightarrow> f x y)"
  by (simp split: prod.split)

lemmas rules = basic_rule bind_rule modify_rule when_rule catch_rule finally_rule conditional_rule option_rule split_pair

end

section \<open>Effects that deliver a result\<close>

text \<open>Total correctness: from a state with \<open>P\<close> the effect does not throw, and its result and the state
  after it have \<open>Q\<close>.\<close>

definition delivers :: "('s \<Rightarrow> bool) \<Rightarrow> ('s, 'e, 'a) effect \<Rightarrow> ('a \<Rightarrow> 's \<Rightarrow> bool) \<Rightarrow> bool" where
  "delivers P m Q \<longleftrightarrow> (\<forall>s. P s \<longrightarrow> (\<exists>x s'. m s = (Inr x, s') \<and> Q x s'))"

lemma deliversI: "(\<And>s. P s \<Longrightarrow> \<exists>x s'. m s = (Inr x, s') \<and> Q x s') \<Longrightarrow> delivers P m Q"
  by (simp add: delivers_def)

lemma delivers_run:
  assumes "delivers P m Q" "P s"
  obtains x s' where "m s = (Inr x, s')" "Q x s'"
  using assms by (auto simp: delivers_def)

lemma delivers_bind: "delivers P m Q \<Longrightarrow> (\<And>x. delivers (Q x) (f x) R) \<Longrightarrow> delivers P (bind_eff m f) R"
  unfolding delivers_def by (metis bind_eff_Inr)

lemma delivers_return: "(\<And>s. P s \<Longrightarrow> Q x s) \<Longrightarrow> delivers P (return_eff x) Q"
  by (simp add: delivers_def return_eff_def)

lemma delivers_gets: "(\<And>s. P s \<Longrightarrow> Q (f s) s) \<Longrightarrow> delivers P (gets_eff f) Q"
  by (simp add: delivers_def gets_eff_def)

lemma delivers_modify: "(\<And>s. P s \<Longrightarrow> Q () (f s)) \<Longrightarrow> delivers P (modify_eff f) Q"
  by (simp add: delivers_def modify_eff_def)

lemma delivers_catch: "delivers P m Q \<Longrightarrow> delivers P (catch_eff m h) Q"
  by (force simp: delivers_def catch_eff_def)

lemma delivers_finally: "delivers P m Q \<Longrightarrow> (\<And>x s. Q x s \<Longrightarrow> R x (c s)) \<Longrightarrow> delivers P (finally_eff m c) R"
  by (force simp: delivers_def finally_eff_def)

lemma delivers_pre: "delivers P m Q \<Longrightarrow> (\<And>s. P' s \<Longrightarrow> P s) \<Longrightarrow> delivers P' m Q"
  by (simp add: delivers_def)

lemma delivers_post: "delivers P m Q \<Longrightarrow> (\<And>x s. Q x s \<Longrightarrow> Q' x s) \<Longrightarrow> delivers P m Q'"
  unfolding delivers_def by blast

lemma delivers_false: "(\<And>s. \<not> P s) \<Longrightarrow> delivers P m Q"
  by (simp add: delivers_def)

section \<open>Parts that are left alone\<close>

text \<open>The relation of the effects that leave a part of the state alone\<close>

definition same :: "('s \<Rightarrow> 'p) \<Rightarrow> 's \<Rightarrow> 's \<Rightarrow> bool" where
  "same part s t \<longleftrightarrow> part t = part s"

interpretation kept: step_relation "same part" for part :: "'s \<Rightarrow> 'p"
  by unfold_locales (simp_all add: same_def)

end
