(* ===== verification/Snapshot_World.thy ===== *)
theory Snapshot_World
  imports Effects Vmstate_Chain Vmstate_Facts
begin

text \<open>
  The data of snapshots (\<^verbatim>\<open>packages/runtime/src/vm-handle.ts\<close>, \<^verbatim>\<open>vm/snapshot-engine.ts\<close>), the host
  that \<^verbatim>\<open>vm/snapshot.ts\<close> works on, and the artifacts that a bundle identifies
  (\<^verbatim>\<open>vm/snapshot-rootdisk.ts\<close>, \<^verbatim>\<open>vm/vmstate-boot-assets.ts\<close>, \<^verbatim>\<open>vm/vmstate-wait.ts\<close>). Files, documents
  and the virtual machine are one state; whether a system call succeeds is a parameter.
\<close>

section \<open>Engines\<close>

datatype snapshot_engine = Vmstate_engine | Criu_engine | Portable_engine

definition lower_case :: "string \<Rightarrow> string" where
  "lower_case s = map (\<lambda>c. let n = of_char c :: nat in if 65 \<le> n \<and> n \<le> 90 then char_of (n + 32) else c) s"

text \<open>The value of \<^verbatim>\<open>MACHINEN_SNAPSHOT_ENGINE\<close>; \<open>None\<close> as a result is the thrown error.\<close>

definition resolve_snapshot_engine :: "string option \<Rightarrow> snapshot_engine option" where
  "resolve_snapshot_engine raw =
     (case raw of
        None \<Rightarrow> Some Vmstate_engine
      | Some s \<Rightarrow>
          if s = '''' then Some Vmstate_engine
          else
            let v = lower_case (trim s) in
            if v = ''criu'' then Some Criu_engine
            else if v = ''vmstate'' then Some Vmstate_engine
            else if v = ''portable'' then Some Portable_engine
            else None)"

section \<open>Documents\<close>

datatype recorded_disk =
    Disk_block (bd_file: string) (bd_identity: identity)
  | Disk_delta
  | Disk_none

record boot_assets =
  ba_id :: bytes
  ba_rootfs :: identity
  ba_kernel :: identity
  ba_dtb :: "identity option"

datatype section_shape = Full_section | Delta_section | No_section

record checkpoint_doc =
  cd_chain_id :: string
  cd_sequence :: nat
  cd_parent :: "string option"
  cd_ram :: section_shape
  cd_root_disk :: section_shape

record vmstate_doc =
  vd_backend :: "vmstate_backend option"
  vd_arch :: "guest_arch option"
  vd_topology :: "bytes option"
  vd_memory :: "nat option"
  vd_pauth :: "(bool option \<times> 64 word option) option"
  vd_root_disk :: "recorded_disk option"
  vd_boot_assets :: "boot_assets option"
  vd_kernel :: "identity option"
  vd_dtb :: "identity option"
  vd_checkpoint :: "checkpoint_doc option"

datatype share_mode = Share_ro | Share_rw

record live_share =
  ls_host :: string
  ls_guest :: string
  ls_mode :: share_mode

record overlay_files =
  ov_guest :: string
  ov_lower :: string
  ov_upper :: string

record snapshot_document =
  sd_engine :: "snapshot_engine option"
  sd_source_name :: "string option"
  sd_source_image :: "string option"
  sd_snapped_at :: nat
  sd_vmstate :: "vmstate_doc option"
  sd_mount_disk :: "overlay_files option"
  sd_live_mounts :: "live_share list option"

text \<open>What the walk over a checkpoint chain reads of a document\<close>

fun chain_disk_of :: "recorded_disk \<Rightarrow> root_disk" where
  "chain_disk_of (Disk_block f ident) =
     Block f (map_option (resolve []) (id_path ident)) (id_size ident) (id_sha256 ident)"
| "chain_disk_of Disk_delta = Delta"
| "chain_disk_of Disk_none = No_disk"

definition chain_meta_of :: "snapshot_document \<Rightarrow> snapshot_meta" where
  "chain_meta_of d =
     \<lparr>root_disk = Option.bind (sd_vmstate d) (\<lambda>v. map_option chain_disk_of (vd_root_disk v)),
      checkpoint_parent = Option.bind (sd_vmstate d) (\<lambda>v. Option.bind (vd_checkpoint v) cd_parent),
      other_fields = ''''\<rparr>"

section \<open>The machine that is snapshotted\<close>

datatype disk_mode = Block_mode | None_mode

record snapshot_context =
  sc_pid :: nat
  sc_source_name :: "string option"
  sc_source_image :: "string option"
  sc_root_disk_path :: "string option"
  sc_root_disk_mode :: "disk_mode option"
  sc_memory :: "nat option"
  sc_kernel :: "string option"
  sc_dtb :: "string option"
  sc_mount_disk :: "overlay_files option"
  sc_live_mounts :: "live_share list"
  sc_vmstate_path :: "string option"
  sc_nested :: bool
  sc_direct_sync :: bool

record vmstate_chain =
  vc_chain_id :: string
  vc_parent_dir :: "string option"
  vc_sequence :: nat

section \<open>The host\<close>

datatype snapshot_event =
    Signalled nat string
  | Sync_request
  | Guest_command string
  | Copied path path
  | Poweroff_awaited

datatype snapshot_code = Dump_failed | Snapshot_timeout | No_state_path | Nested_refused | Portable_refused

datatype snapshot_error =
    Snapshot_error snapshot_code
  | Unknown_engine
  | Memory_pressure
  | Io_error
  | Bad_vmstate vm_error

text \<open>\<open>sw_blobs\<close> are the binary files, \<open>sw_docs\<close> the \<^verbatim>\<open>meta.json\<close> files (\<open>None\<close> when \<open>JSON.parse\<close>
  rejects the text), \<open>sw_vmm\<close> the virtual machine, \<open>sw_pending\<close> what it is about to write to its
  state file.\<close>

record 'v snap_world =
  sw_blobs :: "(path \<times> bytes) list"
  sw_docs :: "(path \<times> snapshot_document option) list"
  sw_dirs :: "path list"
  sw_stamps :: "path \<Rightarrow> nat \<times> nat \<times> nat \<times> nat"
  sw_caches :: identity_caches
  sw_vmm :: 'v
  sw_pending :: "bytes option"
  sw_chain :: "vmstate_chain option"
  sw_log :: "snapshot_event list"

record dump_result =
  dr_exit :: "int option" \<comment> \<open>\<open>None\<close>: the dispatch was rejected\<close>
  dr_present :: bool
  dr_tar_spawned :: bool
  dr_tar_code :: "int option"
  dr_timed_out :: bool

text \<open>The answers of the host and the guest. \<open>se_dump\<close> is what the machine captures on SIGUSR1,
  and \<open>se_dump_after\<close> the time it takes until the file is in place.\<close>

record 'v snap_env =
  se_engine :: "string option"
  se_cwd :: path
  se_backend :: vmstate_backend
  se_arch :: guest_arch
  se_sha256 :: "bytes \<Rightarrow> bytes"
  se_gunzip :: "bytes \<Rightarrow> bytes option"
  se_now :: nat
  se_can_write :: "path \<Rightarrow> bool"
  se_stamp :: "nat \<Rightarrow> path \<Rightarrow> nat \<times> nat \<times> nat \<times> nat"
  se_can_signal :: bool
  se_dump :: "'v \<Rightarrow> bytes \<times> 'v"
  se_dump_after :: "nat option"
  se_direct_sync :: "int option" \<comment> \<open>the exit code, \<open>None\<close> when the request is rejected\<close>
  se_shell_sync :: bool
  se_can_update :: bool
  se_criu :: dump_result
  se_images :: "(string \<times> bytes) list"

type_synonym ('v, 'a) snap = "('v snap_world, snapshot_error, 'a) effect"

definition host_of :: "'v snap_world \<Rightarrow> host" where
  "host_of w = (\<lambda>p.
     let q = resolve [] p in
     (case map_of (sw_blobs w) q of
        None \<Rightarrow> None
      | Some bs \<Rightarrow>
          (case sw_stamps w q of
             (d, i, m, c) \<Rightarrow> Some \<lparr>st_dev = d, st_ino = i, st_mtime = m, st_ctime = c, content = bs\<rparr>)))"

definition store_of :: "'v snap_world \<Rightarrow> store" where
  "store_of w = \<lparr>blobs = sw_blobs w, metas = map (\<lambda>(p, d). (p, map_option chain_meta_of d)) (sw_docs w)\<rparr>"

definition known_paths :: "'v snap_world \<Rightarrow> path list" where
  "known_paths w = map fst (sw_blobs w) @ map fst (sw_docs w) @ sw_dirs w"

definition path_exists :: "'v snap_world \<Rightarrow> path \<Rightarrow> bool" where
  "path_exists w p \<longleftrightarrow> list_ex (under p) (known_paths w)"

definition path_is_dir :: "'v snap_world \<Rightarrow> path \<Rightarrow> bool" where
  "path_is_dir w p \<longleftrightarrow>
     map_of (sw_blobs w) p = None \<and> map_of (sw_docs w) p = None \<and>
     (p \<in> set (sw_dirs w) \<or> list_ex (\<lambda>q. under p q \<and> q \<noteq> p) (known_paths w))"

definition dir_is_empty :: "'v snap_world \<Rightarrow> path \<Rightarrow> bool" where
  "dir_is_empty w p \<longleftrightarrow> \<not> list_ex (\<lambda>q. under p q \<and> q \<noteq> p) (known_paths w)"

definition truthy :: "string option \<Rightarrow> string option" where
  "truthy v = (if v = Some '''' then None else v)"

section \<open>System calls\<close>

definition note_event :: "snapshot_event \<Rightarrow> ('v, unit) snap" where
  "note_event e = modify_eff (\<lambda>w. w\<lparr>sw_log := sw_log w @ [e]\<rparr>)"

definition put_blob :: "'v snap_env \<Rightarrow> path \<Rightarrow> bytes \<Rightarrow> 'v snap_world \<Rightarrow> 'v snap_world" where
  "put_blob env p bs w =
     w\<lparr>sw_blobs := (p, bs) # filter (\<lambda>(q, _). q \<noteq> p) (sw_blobs w),
       sw_stamps := (sw_stamps w)(p := se_stamp env (length (sw_log w)) p)\<rparr>"

definition copy_file :: "'v snap_env \<Rightarrow> path \<Rightarrow> path \<Rightarrow> ('v, unit) snap" where
  "copy_file env src dst = (\<lambda>w.
     case map_of (sw_blobs w) src of
       None \<Rightarrow> (Inl Io_error, w)
     | Some bs \<Rightarrow>
         if se_can_write env dst
         then (Inr (), (put_blob env dst bs w)\<lparr>sw_log := sw_log w @ [Copied src dst]\<rparr>)
         else (Inl Io_error, w))"

definition make_dir :: "'v snap_env \<Rightarrow> path \<Rightarrow> ('v, unit) snap" where
  "make_dir env p = (\<lambda>w. if se_can_write env p then (Inr (), w\<lparr>sw_dirs := p # sw_dirs w\<rparr>) else (Inl Io_error, w))"

text \<open>A failing system call of an identity, and a throw of the vmstate reader\<close>

definition io_result :: "fs_error + 'a \<Rightarrow> snapshot_error + 'a" where
  "io_result r = (case r of Inl _ \<Rightarrow> Inl Io_error | Inr x \<Rightarrow> Inr x)"

definition vmstate_result :: "vm_error + 'a \<Rightarrow> snapshot_error + 'a" where
  "vmstate_result r = (case r of Inl e \<Rightarrow> Inl (Bad_vmstate e) | Inr x \<Rightarrow> Inr x)"

definition identity_of :: "'v snap_env \<Rightarrow> string \<Rightarrow> ('v, identity) snap" where
  "identity_of env p = (\<lambda>w. (io_result (file_identity (se_sha256 env) (host_of w) p), w))"

section \<open>Waiting for the state file\<close>

text \<open>The poll of \<open>waitForVmstateFile\<close>, in milliseconds from its start; the result is the time it slept.\<close>

function wait_for_vmstate_file :: "(nat \<Rightarrow> nat option) \<Rightarrow> nat \<Rightarrow> nat \<Rightarrow> snapshot_error + nat" where
  "wait_for_vmstate_file size_at now deadline =
     (if now < deadline then
        (case size_at now of
           Some (Suc _) \<Rightarrow> Inr now
         | _ \<Rightarrow> wait_for_vmstate_file size_at (now + min 10 (deadline - now)) deadline)
      else Inl (Snapshot_error Snapshot_timeout))"
  by pat_completeness auto

termination
  by (relation "measure (\<lambda>(size_at, now, deadline). deadline - now)") auto

declare wait_for_vmstate_file.simps [simp del]

section \<open>The root disk of a bundle\<close>

datatype pending_disk =
    Pending_block (pd_file: string) (pd_path: string) (pd_bundle: path)
  | Pending_delta
  | Pending_none

definition copy_vmstate_root_disk :: "'v snap_env \<Rightarrow> snapshot_context \<Rightarrow> path \<Rightarrow> bool \<Rightarrow> ('v, pending_disk) snap" where
  "copy_vmstate_root_disk env ctx snap_dir delta_only =
     (if sc_root_disk_mode ctx = Some None_mode then return_eff Pending_none
      else
        (case truthy (sc_root_disk_path ctx) of
           None \<Rightarrow> throw_eff (Snapshot_error Dump_failed)
         | Some disk \<Rightarrow>
             if delta_only then return_eff Pending_delta
             else
               let dest = snap_dir @ [VMSTATE_ROOTDISK_FILE] in
               bind_eff (catch_eff (copy_file env (resolve [] disk) dest) (\<lambda>_. throw_eff (Snapshot_error Dump_failed)))
                 (\<lambda>_. return_eff (Pending_block VMSTATE_ROOTDISK_FILE disk dest))))"

text \<open>\<open>managedRootDiskSyntheticSha256\<close>: a digest over the size and the sample.\<close>

definition managed_synthetic_sha256 :: "(bytes \<Rightarrow> bytes) \<Rightarrow> nat \<Rightarrow> bytes \<Rightarrow> bytes" where
  "managed_synthetic_sha256 sha256 sz sample =
     sha256 (bytes_of ''machinen-managed-rootdisk-v1'' @ [0] @ bytes_of (dec_string sz) @ [0] @ sample)"

text \<open>\<open>managedSnapshotRootDiskIdentity\<close>\<close>

definition managed_disk_identity ::
    "'v snap_env \<Rightarrow> string \<Rightarrow> path \<Rightarrow> ('v, identity option) snap" where
  "managed_disk_identity env disk bundle = (\<lambda>w.
     case trusted_managed (host_of w) disk (sw_caches w) of
       Inl _ \<Rightarrow> (Inl Io_error, w)
     | Inr (None, caches) \<Rightarrow> (Inr None, w\<lparr>sw_caches := caches\<rparr>)
     | Inr (Some sz, caches) \<Rightarrow>
         (case host_of w (path_text bundle) of
            None \<Rightarrow> (Inl Io_error, w)
          | Some f \<Rightarrow>
              if length (content f) \<noteq> sz then (Inr None, w\<lparr>sw_caches := caches\<rparr>)
              else
                let sample = sample_sha256 (se_sha256 env) (content f) in
                (Inr (Some \<lparr>id_path = Some (path_text bundle), id_size = sz,
                   id_sha256 = managed_synthetic_sha256 (se_sha256 env) sz sample, id_sample = Some sample\<rparr>),
                 w\<lparr>sw_caches := caches\<rparr>)))"

definition trusted_disk_identity ::
    "'v snap_env \<Rightarrow> string \<Rightarrow> path \<Rightarrow> ('v, identity option) snap" where
  "trusted_disk_identity env disk bundle = (\<lambda>w.
     case trusted_identity (se_sha256 env) (host_of w) disk (sw_caches w) of
       Inl _ \<Rightarrow> (Inl Io_error, w)
     | Inr (None, caches) \<Rightarrow> (Inr None, w\<lparr>sw_caches := caches\<rparr>)
     | Inr (Some ident, caches) \<Rightarrow>
         (case host_of w (path_text bundle) of
            None \<Rightarrow> (Inl Io_error, w)
          | Some f \<Rightarrow>
              if length (content f) \<noteq> id_size ident then (Inr None, w\<lparr>sw_caches := caches\<rparr>)
              else (Inr (Some (ident\<lparr>id_path := Some (path_text bundle)\<rparr>)), w\<lparr>sw_caches := caches\<rparr>)))"

definition remember_identity :: "'v snap_env \<Rightarrow> identity \<Rightarrow> ('v, unit) snap" where
  "remember_identity env ident = (\<lambda>w.
     case remember_trusted (se_sha256 env) (host_of w) ident (sw_caches w) of
       Inl _ \<Rightarrow> (Inl Io_error, w)
     | Inr caches \<Rightarrow> (Inr (), w\<lparr>sw_caches := caches\<rparr>))"

definition or_else_eff :: "('v, 'a option) snap \<Rightarrow> ('v, 'a) snap \<Rightarrow> ('v, 'a) snap" where
  "or_else_eff m n = bind_eff m (\<lambda>v. case v of Some x \<Rightarrow> return_eff x | None \<Rightarrow> n)"

text \<open>The recorded identity keeps the path of the disk of the machine.\<close>

definition finalize_vmstate_root_disk :: "'v snap_env \<Rightarrow> pending_disk \<Rightarrow> ('v, recorded_disk) snap" where
  "finalize_vmstate_root_disk env pd =
     (case pd of
        Pending_delta \<Rightarrow> return_eff Disk_delta
      | Pending_none \<Rightarrow> return_eff Disk_none
      | Pending_block f disk bundle \<Rightarrow>
          bind_eff
            (or_else_eff (managed_disk_identity env disk bundle)
              (or_else_eff (trusted_disk_identity env disk bundle)
                (identity_of env (path_text bundle))))
            (\<lambda>ident.
               bind_eff (remember_identity env ident) (\<lambda>_.
                 return_eff (Disk_block f (ident\<lparr>id_path := Some disk\<rparr>)))))"

section \<open>Boot assets\<close>

definition identity_part :: "string \<Rightarrow> identity \<Rightarrow> bytes" where
  "identity_part label ident =
     bytes_of label @ [0] @ bytes_of (dec_string (id_size ident)) @ [0] @ id_sha256 ident @ [0]"

definition vmstate_boot_assets_id :: "(bytes \<Rightarrow> bytes) \<Rightarrow> identity \<Rightarrow> identity \<Rightarrow> identity option \<Rightarrow> bytes" where
  "vmstate_boot_assets_id sha256 rootfs kern dtb =
     sha256 (bytes_of ''machinen-vmstate-boot-assets-v1'' @ [0] @
       identity_part ''rootfs'' rootfs @ identity_part ''kernel'' kern @
       (case dtb of
          Some ident \<Rightarrow> identity_part ''dtb'' ident
        | None \<Rightarrow> bytes_of ''dtb'' @ [0] @ bytes_of ''absent'' @ [0]))"

definition optional_file_identity :: "'v snap_env \<Rightarrow> string option \<Rightarrow> ('v, identity option) snap" where
  "optional_file_identity env p =
     (case truthy p of
        None \<Rightarrow> return_eff None
      | Some q \<Rightarrow> bind_eff (identity_of env q) (\<lambda>ident. return_eff (Some ident)))"

definition build_boot_assets_identity ::
    "'v snap_env \<Rightarrow> string \<Rightarrow> string \<Rightarrow> string option \<Rightarrow> ('v, boot_assets) snap" where
  "build_boot_assets_identity env rootfs kern dtb =
     bind_eff (identity_of env rootfs) (\<lambda>r.
     bind_eff (identity_of env kern) (\<lambda>k.
     bind_eff (optional_file_identity env dtb) (\<lambda>d.
       return_eff \<lparr>ba_id = vmstate_boot_assets_id (se_sha256 env) r k d, ba_rootfs = r, ba_kernel = k, ba_dtb = d\<rparr>)))"

definition snapshot_boot_assets_identity :: "'v snap_env \<Rightarrow> snapshot_context \<Rightarrow> guest_arch \<Rightarrow> ('v, boot_assets) snap" where
  "snapshot_boot_assets_identity env ctx guest =
     (case (truthy (sc_source_image ctx), truthy (sc_kernel ctx)) of
        (Some rootfs, Some kern) \<Rightarrow>
          if guest = Arm64 \<and> truthy (sc_dtb ctx) = None then throw_eff (Snapshot_error Dump_failed)
          else build_boot_assets_identity env rootfs kern (truthy (sc_dtb ctx))
      | _ \<Rightarrow> throw_eff (Snapshot_error Dump_failed))"

end
