(* ===== verification/Snapshot_Flow.thy ===== *)
theory Snapshot_Flow
  imports Snapshot_World
begin

text \<open>
  Taking a snapshot, \<^verbatim>\<open>packages/runtime/src/vm/snapshot.ts\<close>, and the snapshot half of a fork,
  \<^verbatim>\<open>vm/fork-core.ts\<close>. The machine is paused between the two signals; the log keeps the order of
  signals, guest commands and copies. Timing marks and debug output are left out.
\<close>

section \<open>The bundle directory\<close>

definition prepare_bundle_root_dir :: "'v snap_env \<Rightarrow> string \<Rightarrow> ('v, path) snap" where
  "prepare_bundle_root_dir env out_dir =
     (let snap_dir = resolve (se_cwd env) out_dir in
      (\<lambda>w.
         if path_exists w snap_dir then
           if \<not> path_is_dir w snap_dir then (Inl (Snapshot_error Dump_failed), w)
           else if \<not> dir_is_empty w snap_dir then (Inl (Snapshot_error Dump_failed), w)
           else (Inr snap_dir, w)
         else bind_eff (make_dir env snap_dir) (\<lambda>_. return_eff snap_dir) w))"

definition prepare_bundle_dir :: "'v snap_env \<Rightarrow> string \<Rightarrow> ('v, path \<times> path) snap" where
  "prepare_bundle_dir env out_dir =
     bind_eff (prepare_bundle_root_dir env out_dir) (\<lambda>snap_dir.
     bind_eff (make_dir env (snap_dir @ [''img''])) (\<lambda>_.
       return_eff (snap_dir, snap_dir @ [''img''])))"

section \<open>The mount overlay\<close>

definition OVERLAY_SYNC :: string where
  "OVERLAY_SYNC = ''sync && sync /mnt 2>/dev/null; true''"

text \<open>The guest is asked to sync; a failure of this request is only logged.\<close>

definition reflink_mount_overlay :: "'v snap_env \<Rightarrow> snapshot_context \<Rightarrow> path \<Rightarrow> ('v, overlay_files option) snap" where
  "reflink_mount_overlay env ctx snap_dir =
     (case sc_mount_disk ctx of
        None \<Rightarrow> return_eff None
      | Some ov \<Rightarrow>
          bind_eff (note_event (Guest_command OVERLAY_SYNC)) (\<lambda>_.
          bind_eff
            (catch_eff
              (bind_eff (copy_file env (resolve [] (ov_lower ov)) (snap_dir @ [''mount-lower.sqfs''])) (\<lambda>_.
                 copy_file env (resolve [] (ov_upper ov)) (snap_dir @ [''mount-upper.img''])))
              (\<lambda>_. throw_eff (Snapshot_error Dump_failed)))
            (\<lambda>_. return_eff (Some \<lparr>ov_guest = ov_guest ov, ov_lower = ''mount-lower.sqfs'', ov_upper = ''mount-upper.img''\<rparr>))))"

section \<open>The document of a bundle\<close>

definition snapshot_document_of ::
    "'v snap_env \<Rightarrow> snapshot_context \<Rightarrow> overlay_files option \<Rightarrow> snapshot_engine \<Rightarrow> vmstate_doc option \<Rightarrow> snapshot_document" where
  "snapshot_document_of env ctx overlay engine vmstate =
     \<lparr>sd_engine = Some engine, sd_source_name = sc_source_name ctx, sd_source_image = sc_source_image ctx,
      sd_snapped_at = se_now env, sd_vmstate = vmstate, sd_mount_disk = overlay,
      sd_live_mounts = (if sc_live_mounts ctx = [] then None else Some (sc_live_mounts ctx))\<rparr>"

definition write_snapshot_meta ::
    "'v snap_env \<Rightarrow> snapshot_context \<Rightarrow> path \<Rightarrow> overlay_files option \<Rightarrow> snapshot_engine \<Rightarrow> vmstate_doc option \<Rightarrow> ('v, unit) snap" where
  "write_snapshot_meta env ctx snap_dir overlay engine vmstate = (\<lambda>w.
     let path = snap_dir @ [''meta.json''] in
     if se_can_write env path
     then (Inr (), w\<lparr>sw_docs := (path, Some (snapshot_document_of env ctx overlay engine vmstate)) #
       filter (\<lambda>(q, _). q \<noteq> path) (sw_docs w)\<rparr>)
     else (Inl Io_error, w))"

section \<open>Pausing the machine\<close>

text \<open>On SIGUSR1 the machine captures its state, writes it out and waits for SIGUSR2.\<close>

definition signal_vmstate_snapshot :: "'v snap_env \<Rightarrow> snapshot_context \<Rightarrow> ('v, unit) snap" where
  "signal_vmstate_snapshot env ctx = (\<lambda>w.
     if se_can_signal env then
       (case se_dump env (sw_vmm w) of
          (state, vmm) \<Rightarrow>
            (Inr (), w\<lparr>sw_vmm := vmm, sw_pending := Some state, sw_log := sw_log w @ [Signalled (sc_pid ctx) ''SIGUSR1'']\<rparr>))
     else (Inl (Snapshot_error Dump_failed), w))"

definition resume_vmstate_source :: "snapshot_context \<Rightarrow> 'v snap_world \<Rightarrow> 'v snap_world" where
  "resume_vmstate_source ctx w = w\<lparr>sw_log := sw_log w @ [Signalled (sc_pid ctx) ''SIGUSR2'']\<rparr>"

definition with_paused_vmstate_source :: "'v snap_env \<Rightarrow> snapshot_context \<Rightarrow> ('v, 'a) snap \<Rightarrow> ('v, 'a) snap" where
  "with_paused_vmstate_source env ctx inner =
     bind_eff (signal_vmstate_snapshot env ctx) (\<lambda>_. finally_eff inner (resume_vmstate_source ctx))"

text \<open>What the state file holds at a time after the signal\<close>

definition state_file_at :: "'v snap_env \<Rightarrow> path \<Rightarrow> 'v snap_world \<Rightarrow> nat \<Rightarrow> bytes option" where
  "state_file_at env p w t =
     (case (sw_pending w, se_dump_after env) of
        (Some state, Some after) \<Rightarrow> if after \<le> t then Some state else map_of (sw_blobs w) p
      | _ \<Rightarrow> map_of (sw_blobs w) p)"

definition await_state_file :: "'v snap_env \<Rightarrow> path \<Rightarrow> nat \<Rightarrow> ('v, unit) snap" where
  "await_state_file env p deadline_ms = (\<lambda>w.
     case wait_for_vmstate_file (\<lambda>t. map_option length (state_file_at env p w t)) 0 deadline_ms of
       Inl e \<Rightarrow> (Inl e, w)
     | Inr t \<Rightarrow>
         (case state_file_at env p w t of
            None \<Rightarrow> (Inr (), w)
          | Some state \<Rightarrow> (Inr (), (put_blob env p state w)\<lparr>sw_pending := None\<rparr>)))"

definition copy_vmstate_state_into_bundle :: "'v snap_env \<Rightarrow> path \<Rightarrow> path \<Rightarrow> ('v, path) snap" where
  "copy_vmstate_state_into_bundle env p snap_dir =
     bind_eff (catch_eff (copy_file env p (snap_dir @ [VMSTATE_FILE])) (\<lambda>_. throw_eff (Snapshot_error Dump_failed)))
       (\<lambda>_. return_eff (snap_dir @ [VMSTATE_FILE]))"

section \<open>The record of a checkpoint\<close>

record section_flags =
  has_ram_delta :: bool
  has_rootdisk_delta :: bool

definition read_vmstate_section_flags :: "'v snap_env \<Rightarrow> path \<Rightarrow> ('v, section_flags) snap" where
  "read_vmstate_section_flags env state_file = (\<lambda>w.
     case map_of (sw_blobs w) state_file of
       None \<Rightarrow> (Inl Io_error, w)
     | Some raw \<Rightarrow>
         (bind_res (vmstate_result (vmstate_section_tags (se_gunzip env) raw)) (\<lambda>tags.
            Inr \<lparr>has_ram_delta = TAG_RAM_DELTA \<in> set tags, has_rootdisk_delta = TAG_ROOTDISK_DELTA \<in> set tags\<rparr>), w))"

definition should_copy_rootdisk_delta_only :: "string option \<Rightarrow> section_flags \<Rightarrow> bool" where
  "should_copy_rootdisk_delta_only parent_dir flags \<longleftrightarrow> parent_dir \<noteq> None \<and> has_rootdisk_delta flags"

definition checkpoint_root_disk_mode :: "snapshot_context \<Rightarrow> section_flags \<Rightarrow> section_shape" where
  "checkpoint_root_disk_mode ctx flags =
     (if sc_root_disk_mode ctx = Some None_mode then No_section
      else if has_rootdisk_delta flags then Delta_section else Full_section)"

definition parent_dir_of :: "'v snap_world \<Rightarrow> string option" where
  "parent_dir_of w = Option.bind (sw_chain w) vc_parent_dir"

definition next_sequence_of :: "'v snap_world \<Rightarrow> nat" where
  "next_sequence_of w = (case sw_chain w of None \<Rightarrow> 0 | Some c \<Rightarrow> vc_sequence c) + 1"

definition vmstate_chain_id :: "snapshot_context \<Rightarrow> 'v snap_world \<Rightarrow> string" where
  "vmstate_chain_id ctx w =
     (case sw_chain w of None \<Rightarrow> ''pid-'' @ dec_string (sc_pid ctx) | Some c \<Rightarrow> vc_chain_id c)"

definition build_vmstate_checkpoint ::
    "'v snap_env \<Rightarrow> snapshot_context \<Rightarrow> path \<Rightarrow> string option \<Rightarrow> nat \<Rightarrow> section_flags \<Rightarrow> 'v snap_world \<Rightarrow> checkpoint_doc" where
  "build_vmstate_checkpoint env ctx snap_dir parent_dir sequence flags w =
     \<lparr>cd_chain_id = vmstate_chain_id ctx w, cd_sequence = sequence,
      cd_parent = relative_checkpoint_parent (se_cwd env) (path_text snap_dir) parent_dir,
      cd_ram = (if has_ram_delta flags then Delta_section else Full_section),
      cd_root_disk = checkpoint_root_disk_mode ctx flags\<rparr>"

definition read_facts :: "'v snap_env \<Rightarrow> path \<Rightarrow> ('v, vmstate_facts) snap" where
  "read_facts env state_file = (\<lambda>w.
     (case map_of (sw_blobs w) state_file of
        None \<Rightarrow> Inl Io_error
      | Some raw \<Rightarrow> vmstate_result (read_vmstate_facts (se_gunzip env) raw), w))"

definition build_vmstate_meta ::
    "'v snap_env \<Rightarrow> snapshot_context \<Rightarrow> path \<Rightarrow> path \<Rightarrow> string option \<Rightarrow> nat \<Rightarrow> section_flags \<Rightarrow> recorded_disk \<Rightarrow> ('v, vmstate_doc) snap" where
  "build_vmstate_meta env ctx state_file snap_dir parent_dir sequence flags disk =
     bind_eff (read_facts env state_file) (\<lambda>facts.
     bind_eff (snapshot_boot_assets_identity env ctx (h_arch (f_header facts))) (\<lambda>assets.
     bind_eff (optional_file_identity env (sc_kernel ctx)) (\<lambda>kern.
     bind_eff (optional_file_identity env (sc_dtb ctx)) (\<lambda>dtb.
     bind_eff (gets_eff (build_vmstate_checkpoint env ctx snap_dir parent_dir sequence flags)) (\<lambda>checkpoint.
       return_eff
         \<lparr>vd_backend = Some (se_backend env), vd_arch = Some (h_arch (f_header facts)),
          vd_topology = Some (h_topology_hash (f_header facts)), vd_memory = sc_memory ctx,
          vd_pauth = Some (f_pauth_active facts, f_sctlr facts), vd_root_disk = Some disk,
          vd_boot_assets = Some assets, vd_kernel = kern, vd_dtb = dtb, vd_checkpoint = Some checkpoint\<rparr>)))))"

text \<open>\<open>ctx.updateVmstateChain?.\<close>: a context without a chain has no updater. The updater
  (\<open>updateVmstateChainState\<close> of \<^verbatim>\<open>vm/boot.ts\<close>) sets the chain before it writes the registry, which
  may throw.\<close>

definition update_vmstate_chain :: "'v snap_env \<Rightarrow> path \<Rightarrow> nat \<Rightarrow> ('v, unit) snap" where
  "update_vmstate_chain env snap_dir sequence = (\<lambda>w.
     case sw_chain w of
       None \<Rightarrow> (Inr (), w)
     | Some c \<Rightarrow>
         (if se_can_update env then Inr () else Inl Io_error,
          w\<lparr>sw_chain := Some (c\<lparr>vc_parent_dir := Some (path_text snap_dir), vc_sequence := sequence\<rparr>)\<rparr>))"

section \<open>The vmstate engine\<close>

record captured_bundle =
  cb_state :: path
  cb_flags :: section_flags
  cb_overlay :: "overlay_files option"
  cb_sequence :: nat
  cb_disk :: pending_disk

text \<open>What happens while the machine is paused\<close>

definition capture_sidecars :: "'v snap_env \<Rightarrow> snapshot_context \<Rightarrow> path \<Rightarrow> path \<Rightarrow> nat \<Rightarrow> ('v, captured_bundle) snap" where
  "capture_sidecars env ctx state_file snap_dir deadline_ms =
     bind_eff (await_state_file env state_file deadline_ms) (\<lambda>_.
     bind_eff (copy_vmstate_state_into_bundle env state_file snap_dir) (\<lambda>bundle_state.
     bind_eff (gets_eff next_sequence_of) (\<lambda>sequence.
     bind_eff (read_vmstate_section_flags env bundle_state) (\<lambda>flags.
     bind_eff (gets_eff parent_dir_of) (\<lambda>parent_dir.
     bind_eff (copy_vmstate_root_disk env ctx snap_dir (should_copy_rootdisk_delta_only parent_dir flags)) (\<lambda>disk.
     bind_eff (reflink_mount_overlay env ctx snap_dir) (\<lambda>overlay.
       return_eff \<lparr>cb_state = bundle_state, cb_flags = flags, cb_overlay = overlay, cb_sequence = sequence,
         cb_disk = disk\<rparr>)))))))"

definition finish_bundle :: "'v snap_env \<Rightarrow> snapshot_context \<Rightarrow> path \<Rightarrow> captured_bundle \<Rightarrow> ('v, unit) snap" where
  "finish_bundle env ctx snap_dir bundle =
     bind_eff (finalize_vmstate_root_disk env (cb_disk bundle)) (\<lambda>disk.
     bind_eff (gets_eff parent_dir_of) (\<lambda>parent_dir.
     bind_eff (build_vmstate_meta env ctx (cb_state bundle) snap_dir parent_dir (cb_sequence bundle) (cb_flags bundle) disk) (\<lambda>meta.
     bind_eff (write_snapshot_meta env ctx snap_dir (cb_overlay bundle) Vmstate_engine (Some meta)) (\<lambda>_.
       update_vmstate_chain env snap_dir (cb_sequence bundle)))))"

definition capture_vmstate_snapshot_bundle :: "'v snap_env \<Rightarrow> snapshot_context \<Rightarrow> path \<Rightarrow> path \<Rightarrow> nat \<Rightarrow> ('v, path) snap" where
  "capture_vmstate_snapshot_bundle env ctx state_file snap_dir deadline_ms =
     bind_eff (with_paused_vmstate_source env ctx (capture_sidecars env ctx state_file snap_dir deadline_ms)) (\<lambda>bundle.
     bind_eff (finish_bundle env ctx snap_dir bundle) (\<lambda>_.
       return_eff snap_dir))"

definition clear_vmstate_state_file :: "'v snap_env \<Rightarrow> path \<Rightarrow> ('v, unit) snap" where
  "clear_vmstate_state_file env p =
     modify_eff (\<lambda>w. if se_can_write env p then w\<lparr>sw_blobs := filter (\<lambda>(q, _). q \<noteq> p) (sw_blobs w)\<rparr> else w)"

definition VMSTATE_PRE_SNAPSHOT_SYNC :: string where
  "VMSTATE_PRE_SNAPSHOT_SYNC =
     ''sync; sync /mnt 2>/dev/null; '' @
     ''if [ -w /proc/sys/vm/drop_caches ]; then echo 3 > /proc/sys/vm/drop_caches; fi; true''"

datatype sync_mode = Sync_direct | Sync_shell | Sync_failed

definition try_direct_vmstate_sync :: "'v snap_env \<Rightarrow> snapshot_context \<Rightarrow> ('v, bool) snap" where
  "try_direct_vmstate_sync env ctx =
     (if \<not> sc_direct_sync ctx then return_eff False
      else bind_eff (note_event Sync_request) (\<lambda>_. return_eff (se_direct_sync env = Some 0)))"

definition sync_guest_for_vmstate_snapshot :: "'v snap_env \<Rightarrow> snapshot_context \<Rightarrow> ('v, sync_mode) snap" where
  "sync_guest_for_vmstate_snapshot env ctx =
     bind_eff (try_direct_vmstate_sync env ctx) (\<lambda>direct.
       if direct then return_eff Sync_direct
       else
         bind_eff (note_event (Guest_command VMSTATE_PRE_SNAPSHOT_SYNC)) (\<lambda>_.
           return_eff (if se_shell_sync env then Sync_shell else Sync_failed)))"

record snapshot_options =
  so_out_dir :: string
  so_timeout_ms :: "nat option"
  so_dump_cmd :: "string option"
  so_leave_running :: bool
  so_tcp_close :: bool

definition deadline_of :: "snapshot_options \<Rightarrow> nat" where
  "deadline_of opts = (case so_timeout_ms opts of None \<Rightarrow> 90000 | Some ms \<Rightarrow> ms)"

definition perform_snapshot_vmstate :: "'v snap_env \<Rightarrow> snapshot_context \<Rightarrow> snapshot_options \<Rightarrow> ('v, path) snap" where
  "perform_snapshot_vmstate env ctx opts =
     (case truthy (sc_vmstate_path ctx) of
        None \<Rightarrow> throw_eff (Snapshot_error No_state_path)
      | Some state_file \<Rightarrow>
          bind_eff (prepare_bundle_root_dir env (so_out_dir opts)) (\<lambda>snap_dir.
          bind_eff (clear_vmstate_state_file env (resolve [] state_file)) (\<lambda>_.
          bind_eff (sync_guest_for_vmstate_snapshot env ctx) (\<lambda>_.
            capture_vmstate_snapshot_bundle env ctx (resolve [] state_file) snap_dir (deadline_of opts)))))"

section \<open>The CRIU engine\<close>

definition is_core_image :: "string \<Rightarrow> bool" where
  "is_core_image name \<longleftrightarrow>
     starts_with name ''core-'' \<and> drop (length name - 4) name = ''.img'' \<and>
     (let digits = drop 5 (take (length name - 4) name) in digits \<noteq> '''' \<and> all_digits digits)"

definition validate_dump_result :: "dump_result \<Rightarrow> string list \<Rightarrow> snapshot_error + unit" where
  "validate_dump_result res entries =
     (if dr_timed_out res then Inl (Snapshot_error Snapshot_timeout)
      else if \<not> dr_present res then Inl (Snapshot_error Dump_failed)
      else if dr_exit res \<noteq> Some 0 then Inl (Snapshot_error Dump_failed)
      else if \<not> (dr_tar_spawned res \<and> dr_tar_code res = Some 0) then Inl (Snapshot_error Dump_failed)
      else if \<not> list_ex is_core_image entries then Inl (Snapshot_error Dump_failed)
      else Inr ())"

definition dump_command :: "snapshot_options \<Rightarrow> string" where
  "dump_command opts =
     (let base = (case so_dump_cmd opts of None \<Rightarrow> ''/sbin/machinen-dump'' | Some cmd \<Rightarrow> cmd) in
      if so_tcp_close opts then ''MACHINEN_DUMP_TCP_CLOSE=1 '' @ base else base)"

text \<open>The dump streams a tar archive that is unpacked on the host; \<open>se_images\<close> are the files that arrive.\<close>

definition run_dump_and_extract_tar :: "'v snap_env \<Rightarrow> string \<Rightarrow> path \<Rightarrow> ('v, dump_result \<times> string list) snap" where
  "run_dump_and_extract_tar env cmd img_dir =
     bind_eff (note_event (Guest_command cmd)) (\<lambda>_.
     bind_eff (modify_eff (\<lambda>w. fold (\<lambda>(name, bs). put_blob env (img_dir @ [name]) bs) (se_images env) w)) (\<lambda>_.
       return_eff (se_criu env, map fst (se_images env))))"

definition power_off_source_vm :: "('v, unit) snap" where
  "power_off_source_vm =
     bind_eff (note_event (Guest_command ''/sbin/machinen-poweroff'')) (\<lambda>_. note_event Poweroff_awaited)"

definition perform_snapshot_criu :: "'v snap_env \<Rightarrow> snapshot_context \<Rightarrow> snapshot_options \<Rightarrow> ('v, path) snap" where
  "perform_snapshot_criu env ctx opts =
     bind_eff (prepare_bundle_dir env (so_out_dir opts)) (\<lambda>(snap_dir, img_dir).
     bind_eff (run_dump_and_extract_tar env (dump_command opts) img_dir) (\<lambda>(res, entries).
     bind_eff (lift_eff (validate_dump_result res entries)) (\<lambda>_.
     bind_eff (reflink_mount_overlay env ctx snap_dir) (\<lambda>overlay.
     bind_eff (when_eff (\<not> so_leave_running opts) power_off_source_vm) (\<lambda>_.
     bind_eff (write_snapshot_meta env ctx snap_dir overlay Criu_engine None) (\<lambda>_.
       return_eff snap_dir))))))"

section \<open>The dispatcher\<close>

definition perform_snapshot :: "'v snap_env \<Rightarrow> snapshot_context \<Rightarrow> snapshot_options \<Rightarrow> ('v, path) snap" where
  "perform_snapshot env ctx opts =
     (case resolve_snapshot_engine (se_engine env) of
        None \<Rightarrow> throw_eff Unknown_engine
      | Some Portable_engine \<Rightarrow> throw_eff (Snapshot_error Portable_refused)
      | Some engine \<Rightarrow>
          if sc_nested ctx then throw_eff (Snapshot_error Nested_refused)
          else if engine = Vmstate_engine then perform_snapshot_vmstate env ctx opts
          else perform_snapshot_criu env ctx opts)"

section \<open>The snapshot half of a fork\<close>

definition remove_dir :: "path \<Rightarrow> 'v snap_world \<Rightarrow> 'v snap_world" where
  "remove_dir dir w =
     w\<lparr>sw_blobs := filter (\<lambda>(q, _). \<not> under dir q) (sw_blobs w),
       sw_docs := filter (\<lambda>(q, _). \<not> under dir q) (sw_docs w),
       sw_dirs := filter (\<lambda>q. \<not> under dir q) (sw_dirs w)\<rparr>"

text \<open>A fork without an output directory writes its bundle to \<open>temp\<close> and removes it when the
  restore throws, or later when the fork exits; \<open>pressed\<close> is the answer of the memory check and
  \<open>restored\<close> that of the restore.\<close>

definition perform_fork ::
    "'v snap_env \<Rightarrow> snapshot_context \<Rightarrow> bool \<Rightarrow> string option \<Rightarrow> path \<Rightarrow> bool \<Rightarrow> bool \<Rightarrow> ('v, path \<times> bool) snap" where
  "perform_fork env ctx pressed out_dir temp tcp_keep restored =
     (let ephemeral = truthy out_dir = None;
          snap_dir = (case truthy out_dir of None \<Rightarrow> temp | Some d \<Rightarrow> resolve (se_cwd env) d);
          cleanup = (\<lambda>w. if ephemeral then remove_dir snap_dir w else w);
          opts = \<lparr>so_out_dir = path_text snap_dir, so_timeout_ms = None, so_dump_cmd = None, so_leave_running = True,
                  so_tcp_close = \<not> tcp_keep\<rparr>
      in if pressed then throw_eff Memory_pressure
         else
           bind_eff (when_eff ephemeral (modify_eff (\<lambda>w. w\<lparr>sw_dirs := temp # sw_dirs w\<rparr>))) (\<lambda>_.
           bind_eff (catch_eff (perform_snapshot env ctx opts) (\<lambda>e. bind_eff (modify_eff cleanup) (\<lambda>_. throw_eff e))) (\<lambda>_.
             if restored then return_eff (snap_dir, ephemeral)
             else bind_eff (modify_eff cleanup) (\<lambda>_. throw_eff Io_error))))"

definition fork_exits :: "path \<times> bool \<Rightarrow> 'v snap_world \<Rightarrow> 'v snap_world" where
  "fork_exits fork w = (case fork of (dir, ephemeral) \<Rightarrow> if ephemeral then remove_dir dir w else w)"

end
