(* ===== verification/Restore_Check.thy ===== *)
theory Restore_Check
  imports Base_Assets Snapshot_Flow Registry Portable_Snapshot Lazy_Pagemap
begin

text \<open>
  What a restore checks before it boots: the identities of the artifacts
  (\<^verbatim>\<open>packages/runtime/src/vm/restore-identity.ts\<close>), the boot assets (\<^verbatim>\<open>vm/vmstate-boot-assets.ts\<close>) and
  the plan of a vmstate restore (\<open>planVmstateRestore\<close> of \<^verbatim>\<open>vm/restore.ts\<close>). Texts of errors and timing
  marks are left out. Paths recorded in documents are absolute, and the number in \<open>MACHINEN_MEMORY\<close> is a
  decimal integer.
\<close>

section \<open>Requests\<close>

datatype disk_option = Disk_flag bool | Disk_at string

record live_override =
  lo_host :: string
  lo_guest :: string
  lo_mode :: "share_mode option"
  lo_cache :: bool \<comment> \<open>the removed options \<open>cache\<close> and \<open>sync\<close> are present\<close>
  lo_sync :: bool

record restore_options =
  ro_snap_dir :: string
  ro_image :: "string option"
  ro_name :: "string option"
  ro_lazy :: bool
  ro_cwd :: "string option"
  ro_kernel :: "string option"
  ro_dtb :: "string option"
  ro_memory :: "int option"
  ro_vmm_memory :: "string option"
  ro_root_disk :: "disk_option option"
  ro_live_mounts :: "live_override list"
  ro_env :: "(string \<times> string) list"

text \<open>What \<open>boot\<close> is asked for\<close>

record boot_request =
  br_image :: string
  br_forked_from :: path
  br_name :: "string option"
  br_live_mounts :: "(string \<times> string \<times> share_mode option) list option"
  br_memory :: "int option"
  br_root_disk :: "disk_option option"
  br_mount_disk :: "(string \<times> path \<times> path) option"
  br_state :: "path option"
  br_disk_restore :: "path option"
  br_scratch :: "path option"
  br_env :: "(string \<times> string) list"

datatype restore_code =
    Image_not_found | Bundle_not_found | Vmstate_unsupported | Cross_isa_unsupported | Portable_unsupported
  | Override_unknown | Live_mount_invalid | Reseed_failed

datatype restore_error =
    Restore_refused restore_code
  | Asset_error provision_code
  | Chain_error vm_error
  | Pagemap_error pm_error
  | Name_error fs_code
  | Boot_throws
  | Host_error
  | Engine_unknown

section \<open>The host of a restore\<close>

text \<open>\<open>Boot_asked\<close> keeps what the virtual machine monitor reads when it starts: the state file, the disk
  image it copies and the scratch device.\<close>

datatype restore_event =
    Boot_asked boot_request "bytes option" "bytes option" "bytes option"
  | Started int
  | Reseed_request bytes
  | Shell_command string

record 'v restore_world =
  rw_host :: "'v snap_world"
  rw_registry :: registry
  rw_log :: "restore_event list"

record vm_handle =
  vh_pid :: int
  vh_name :: "string option"

text \<open>The answers of the host. \<open>re_boot\<close> is the whole of \<open>boot()\<close>, which may change files and registry
  in any way; \<open>re_direct\<close> and \<open>re_shell\<close> are the exit codes of the two ways to reseed the guest
  (\<open>None\<close>: the request is rejected), and \<open>re_has_direct\<close> whether the handle offers the first.\<close>

record 'v restore_env =
  re_snap :: "'v snap_env"
  re_assets :: asset_host
  re_memory :: "string option"
  re_accept :: "nat \<Rightarrow> nat"
  re_temp :: path
  re_scratch :: path
  re_tar :: "(path \<times> bytes) list \<Rightarrow> bytes option"
  re_boot :: "boot_request \<Rightarrow> 'v snap_world \<Rightarrow> registry \<Rightarrow> int option \<times> 'v snap_world \<times> registry"
  re_has_direct :: bool
  re_direct :: "int option"
  re_shell :: "int option"
  re_seed :: bytes
  re_time_text :: string
  re_processes :: processes
  re_portable :: bundle_dir

type_synonym ('v, 'a) restoring = "('v restore_world, restore_error, 'a) effect"

abbreviation refuse :: "restore_code \<Rightarrow> ('v, 'a) restoring" where
  "refuse c \<equiv> throw_eff (Restore_refused c)"

definition demand :: "bool \<Rightarrow> restore_code \<Rightarrow> ('v, unit) restoring" where
  "demand b c = (if b then return_eff () else refuse c)"

definition file_there :: "path \<Rightarrow> 'v restore_world \<Rightarrow> bool" where
  "file_there p w \<longleftrightarrow> path_exists (rw_host w) p"

definition host_result :: "fs_error + 'a \<Rightarrow> restore_error + 'a" where
  "host_result r = (case r of Inl _ \<Rightarrow> Inl Host_error | Inr x \<Rightarrow> Inr x)"

definition process_cwd :: "'v restore_env \<Rightarrow> path" where
  "process_cwd env = se_cwd (re_snap env)"

text \<open>\<open>opts.cwd ?? process.cwd()\<close>, resolved\<close>

definition base_cwd :: "'v restore_env \<Rightarrow> restore_options \<Rightarrow> path" where
  "base_cwd env opts = (case ro_cwd opts of None \<Rightarrow> process_cwd env | Some d \<Rightarrow> resolve (process_cwd env) d)"

section \<open>Identities\<close>

definition identity_agrees :: "identity \<Rightarrow> identity \<Rightarrow> bool" where
  "identity_agrees actual expected \<longleftrightarrow> id_size actual = id_size expected \<and> id_sha256 actual = id_sha256 expected"

definition validate_content_sample :: "'v restore_env \<Rightarrow> string \<Rightarrow> identity \<Rightarrow> ('v, bool) restoring" where
  "validate_content_sample env p expected =
     (case id_sample expected of
        None \<Rightarrow> return_eff False
      | Some sample \<Rightarrow>
          bind_eff (gets_eff (\<lambda>w. host_of (rw_host w) p)) (\<lambda>f.
            case f of
              None \<Rightarrow> throw_eff Host_error
            | Some h \<Rightarrow>
                bind_eff
                  (demand (length (content h) = id_size expected \<and> sample_sha256 (se_sha256 (re_snap env)) (content h) = sample)
                    Vmstate_unsupported)
                  (\<lambda>_. return_eff True)))"

definition cached_identity :: "'v restore_env \<Rightarrow> string \<Rightarrow> ('v, identity option) restoring" where
  "cached_identity env p = (\<lambda>w.
     case trusted_identity (se_sha256 (re_snap env)) (host_of (rw_host w)) p (sw_caches (rw_host w)) of
       Inl _ \<Rightarrow> (Inl Host_error, w)
     | Inr (ident, caches) \<Rightarrow> (Inr ident, w\<lparr>rw_host := (rw_host w)\<lparr>sw_caches := caches\<rparr>\<rparr>))"

definition computed_identity :: "'v restore_env \<Rightarrow> string \<Rightarrow> ('v, identity) restoring" where
  "computed_identity env p = (\<lambda>w. (host_result (file_identity (se_sha256 (re_snap env)) (host_of (rw_host w)) p), w))"

datatype artifact_source = Bundled | External

definition validate_identity :: "'v restore_env \<Rightarrow> string \<Rightarrow> identity \<Rightarrow> artifact_source \<Rightarrow> ('v, unit) restoring" where
  "validate_identity env p expected source =
     bind_eff (gets_eff (file_there (resolve [] p))) (\<lambda>there.
     bind_eff (demand there Bundle_not_found) (\<lambda>_.
     bind_eff (if source = Bundled then validate_content_sample env p expected else return_eff False) (\<lambda>sampled.
       if sampled then return_eff ()
       else
         bind_eff (if source = Bundled then cached_identity env p else return_eff None) (\<lambda>cached.
         bind_eff (case cached of Some ident \<Rightarrow> return_eff ident | None \<Rightarrow> computed_identity env p) (\<lambda>actual.
           demand (identity_agrees actual expected) Vmstate_unsupported)))))"

section \<open>Boot assets\<close>

definition validate_boot_assets_id :: "'v restore_env \<Rightarrow> boot_assets \<Rightarrow> ('v, unit) restoring" where
  "validate_boot_assets_id env expected =
     demand (ba_id expected =
         vmstate_boot_assets_id (se_sha256 (re_snap env)) (ba_rootfs expected) (ba_kernel expected) (ba_dtb expected))
       Vmstate_unsupported"

definition validate_boot_assets_dtb :: "'v restore_env \<Rightarrow> identity option \<Rightarrow> path option \<Rightarrow> ('v, unit) restoring" where
  "validate_boot_assets_dtb env expected actual =
     (case (expected, actual) of
        (None, None) \<Rightarrow> return_eff ()
      | (Some ident, Some p) \<Rightarrow> validate_identity env (path_text p) ident External
      | _ \<Rightarrow> refuse Vmstate_unsupported)"

definition asset_result :: "provision_code + 'a \<Rightarrow> restore_error + 'a" where
  "asset_result r = (case r of Inl c \<Rightarrow> Inl (Asset_error c) | Inr x \<Rightarrow> Inr x)"

definition base_kernel_of :: "'v restore_env \<Rightarrow> restore_options \<Rightarrow> ('v, path) restoring" where
  "base_kernel_of env opts = (\<lambda>w.
     (asset_result (resolve_base_kernel (path_exists (rw_host w)) (re_assets env) (ro_kernel opts) (base_cwd env opts)), w))"

definition base_dtb_of :: "'v restore_env \<Rightarrow> restore_options \<Rightarrow> ('v, path option) restoring" where
  "base_dtb_of env opts = (\<lambda>w.
     (asset_result (resolve_base_dtb (path_exists (rw_host w)) (re_assets env) (ro_dtb opts) (base_cwd env opts)), w))"

definition validate_vmstate_boot_assets ::
    "'v restore_env \<Rightarrow> restore_options \<Rightarrow> vmstate_doc \<Rightarrow> string \<Rightarrow> ('v, unit) restoring" where
  "validate_vmstate_boot_assets env opts vmstate rootfs =
     (case vd_boot_assets vmstate of
        None \<Rightarrow> refuse Vmstate_unsupported
      | Some expected \<Rightarrow>
          bind_eff (base_kernel_of env opts) (\<lambda>kern.
          bind_eff (base_dtb_of env opts) (\<lambda>dtb.
          bind_eff (validate_boot_assets_id env expected) (\<lambda>_.
          bind_eff (validate_identity env rootfs (ba_rootfs expected) External) (\<lambda>_.
          bind_eff (validate_identity env (path_text kern) (ba_kernel expected) External) (\<lambda>_.
            validate_boot_assets_dtb env (ba_dtb expected) dtb))))))"

section \<open>Invariants of the machine\<close>

definition validate_vmstate_topology :: "vmstate_doc \<Rightarrow> vmstate_facts \<Rightarrow> ('v, unit) restoring" where
  "validate_vmstate_topology vmstate facts =
     (case vd_topology vmstate of
        None \<Rightarrow> return_eff ()
      | Some h \<Rightarrow> demand (h = [] \<or> h = h_topology_hash (f_header facts)) Vmstate_unsupported)"

definition validate_vmstate_guest_arch :: "'v restore_env \<Rightarrow> vmstate_doc \<Rightarrow> vmstate_facts \<Rightarrow> ('v, unit) restoring" where
  "validate_vmstate_guest_arch env vmstate facts =
     (let fact = h_arch (f_header facts);
          source = (case vd_arch vmstate of Some a \<Rightarrow> a | None \<Rightarrow> fact);
          target = se_arch (re_snap env)
      in bind_eff
           (demand (\<not> (vd_arch vmstate \<noteq> None \<and> fact \<noteq> Unknown_arch \<and> vd_arch vmstate \<noteq> Some fact)) Vmstate_unsupported)
           (\<lambda>_. demand (source = Unknown_arch \<or> target = Unknown_arch \<or> source = target) Cross_isa_unsupported))"

definition is_cross_vmm_restore :: "vmstate_backend \<Rightarrow> vmstate_backend \<Rightarrow> bool" where
  "is_cross_vmm_restore source target \<longleftrightarrow> source \<noteq> Unknown_backend \<and> target \<noteq> Unknown_backend \<and> source \<noteq> target"

definition vmstate_pauth_active :: "vmstate_doc \<Rightarrow> vmstate_facts \<Rightarrow> bool option" where
  "vmstate_pauth_active vmstate facts =
     (case f_pauth_active facts of
        Some b \<Rightarrow> Some b
      | None \<Rightarrow> Option.bind (vd_pauth vmstate) fst)"

definition validate_vmstate_backend_and_pauth :: "'v restore_env \<Rightarrow> vmstate_doc \<Rightarrow> vmstate_facts \<Rightarrow> ('v, unit) restoring" where
  "validate_vmstate_backend_and_pauth env vmstate facts =
     (let source = (case vd_backend vmstate of Some b \<Rightarrow> b | None \<Rightarrow> Unknown_backend)
      in demand (\<not> is_cross_vmm_restore source (se_backend (re_snap env)) \<or>
           vmstate_pauth_active vmstate facts = Some False) Vmstate_unsupported)"

section \<open>The memory ceiling\<close>

text \<open>A request is a number in MiB; \<open>None\<close> inside is \<open>NaN\<close>.\<close>

definition restore_env_memory :: "'v restore_env \<Rightarrow> restore_options \<Rightarrow> string option" where
  "restore_env_memory env opts = (case ro_vmm_memory opts of Some s \<Rightarrow> Some s | None \<Rightarrow> re_memory env)"

definition restore_env_memory_mib :: "'v restore_env \<Rightarrow> restore_options \<Rightarrow> int option option" where
  "restore_env_memory_mib env opts = map_option pid_number (restore_env_memory env opts)"

definition requested_restore_memory :: "restore_options \<Rightarrow> int option option \<Rightarrow> int option option" where
  "requested_restore_memory opts env_mib = (case ro_memory opts of Some m \<Rightarrow> Some (Some m) | None \<Rightarrow> env_mib)"

definition validate_vmstate_memory_ceiling :: "nat \<Rightarrow> int option option \<Rightarrow> ('v, unit) restoring" where
  "validate_vmstate_memory_ceiling expected requested =
     demand (requested = None \<or> requested = Some (Some (int expected))) Vmstate_unsupported"

definition should_apply_snapshot_memory_ceiling :: "restore_options \<Rightarrow> int option option \<Rightarrow> bool" where
  "should_apply_snapshot_memory_ceiling opts env_mib \<longleftrightarrow> ro_memory opts = None \<and> env_mib = None"

definition resolve_vmstate_memory_ceiling :: "'v restore_env \<Rightarrow> restore_options \<Rightarrow> vmstate_doc \<Rightarrow> ('v, nat option) restoring" where
  "resolve_vmstate_memory_ceiling env opts vmstate =
     (case vd_memory vmstate of
        None \<Rightarrow> return_eff None
      | Some expected \<Rightarrow>
          let env_mib = restore_env_memory_mib env opts in
          bind_eff (validate_vmstate_memory_ceiling expected (requested_restore_memory opts env_mib)) (\<lambda>_.
            return_eff (if should_apply_snapshot_memory_ceiling opts env_mib then Some expected else None)))"

section \<open>The root disk\<close>

record disk_plan =
  dp_root_disk :: "disk_option option"
  dp_restore_path :: "path option"

definition resolve_missing_root_disk :: "restore_options \<Rightarrow> ('v, disk_plan) restoring" where
  "resolve_missing_root_disk opts =
     (if ro_root_disk opts \<noteq> None then return_eff \<lparr>dp_root_disk = ro_root_disk opts, dp_restore_path = None\<rparr>
      else refuse Vmstate_unsupported)"

definition resolve_none_root_disk :: "restore_options \<Rightarrow> ('v, disk_plan) restoring" where
  "resolve_none_root_disk opts =
     (case ro_root_disk opts of
        Some (Disk_at _) \<Rightarrow> refuse Vmstate_unsupported
      | _ \<Rightarrow> return_eff \<lparr>dp_root_disk = Some (Disk_flag False), dp_restore_path = None\<rparr>)"

definition resolve_file_root_disk ::
    "'v restore_env \<Rightarrow> restore_options \<Rightarrow> path \<Rightarrow> string \<Rightarrow> identity \<Rightarrow> ('v, disk_plan) restoring" where
  "resolve_file_root_disk env opts snap_dir recorded_file recorded =
     (case ro_root_disk opts of
        Some (Disk_flag False) \<Rightarrow> refuse Vmstate_unsupported
      | Some (Disk_at s) \<Rightarrow>
          let explicit = path_text (resolve (base_cwd env opts) s) in
          bind_eff (validate_identity env explicit recorded External) (\<lambda>_.
            return_eff \<lparr>dp_root_disk = Some (Disk_at explicit), dp_restore_path = None\<rparr>)
      | _ \<Rightarrow>
          let bundled = walk (rev snap_dir) (segments recorded_file) in
          bind_eff (gets_eff (file_there bundled)) (\<lambda>there.
          bind_eff (demand there Bundle_not_found) (\<lambda>_.
          bind_eff (validate_identity env (path_text bundled) recorded Bundled) (\<lambda>_.
            return_eff \<lparr>dp_root_disk = None, dp_restore_path = Some bundled\<rparr>))))"

definition resolve_vmstate_root_disk ::
    "'v restore_env \<Rightarrow> restore_options \<Rightarrow> vmstate_doc \<Rightarrow> path \<Rightarrow> ('v, disk_plan) restoring" where
  "resolve_vmstate_root_disk env opts vmstate snap_dir =
     (case vd_root_disk vmstate of
        None \<Rightarrow> resolve_missing_root_disk opts
      | Some Disk_delta \<Rightarrow> refuse Vmstate_unsupported
      | Some Disk_none \<Rightarrow> resolve_none_root_disk opts
      | Some (Disk_block f ident) \<Rightarrow> resolve_file_root_disk env opts snap_dir f ident)"

section \<open>The plan\<close>

record restore_plan =
  rp_memory :: "nat option"
  rp_disk :: disk_plan

definition read_facts_or_boot_error :: "'v restore_env \<Rightarrow> path \<Rightarrow> ('v, vmstate_facts) restoring" where
  "read_facts_or_boot_error env state_file = (\<lambda>w.
     (case map_of (sw_blobs (rw_host w)) state_file of
        None \<Rightarrow> Inl (Restore_refused Bundle_not_found)
      | Some raw \<Rightarrow>
          (case read_vmstate_facts (se_gunzip (re_snap env)) raw of
             Inl _ \<Rightarrow> Inl (Restore_refused Bundle_not_found)
           | Inr facts \<Rightarrow> Inr facts), w))"

definition plan_vmstate_restore ::
    "'v restore_env \<Rightarrow> restore_options \<Rightarrow> snapshot_document \<Rightarrow> path \<Rightarrow> path \<Rightarrow> string \<Rightarrow> ('v, restore_plan) restoring" where
  "plan_vmstate_restore env opts meta snap_dir state_file rootfs =
     bind_eff (read_facts_or_boot_error env state_file) (\<lambda>facts.
     case sd_vmstate meta of
       None \<Rightarrow> refuse Vmstate_unsupported
     | Some vmstate \<Rightarrow>
         bind_eff (validate_vmstate_topology vmstate facts) (\<lambda>_.
         bind_eff (validate_vmstate_guest_arch env vmstate facts) (\<lambda>_.
         bind_eff (validate_vmstate_backend_and_pauth env vmstate facts) (\<lambda>_.
         bind_eff (validate_vmstate_boot_assets env opts vmstate rootfs) (\<lambda>_.
         bind_eff (resolve_vmstate_memory_ceiling env opts vmstate) (\<lambda>memory.
         bind_eff (resolve_vmstate_root_disk env opts vmstate snap_dir) (\<lambda>disk.
           return_eff \<lparr>rp_memory = memory, rp_disk = disk\<rparr>)))))))"

end
