(* ===== verification/Restore_Flow.thy ===== *)
theory Restore_Flow
  imports Restore_Check
begin

text \<open>
  Restoring a machine: \<open>restore\<close> of \<^verbatim>\<open>packages/runtime/src/vm/restore.ts\<close> with its two engines, the live
  mounts it asks for (\<^verbatim>\<open>vm/bundle.ts\<close>, \<^verbatim>\<open>native/src/boot_plan.zig\<close>), the entropy it gives to the guest
  (\<^verbatim>\<open>vm/restore-reseed.ts\<close>) and the name it stamps (\<^verbatim>\<open>vm/helpers.ts\<close>).
\<close>

section \<open>Live mounts\<close>

type_synonym mount_request = "string \<times> string \<times> share_mode option" \<comment> \<open>host, guest, mode\<close>

definition find_restore_override :: "live_override list \<Rightarrow> string \<Rightarrow> live_override option" where
  "find_restore_override overrides guest =
     fold (\<lambda>m found. if lo_guest m = guest then Some m else found) overrides None"

definition plan_restore_live_mounts :: "live_share list \<Rightarrow> live_override list \<Rightarrow> restore_code + mount_request list" where
  "plan_restore_live_mounts recorded overrides =
     (if recorded = [] then Inr (map (\<lambda>m. (lo_host m, lo_guest m, lo_mode m)) overrides)
      else if list_ex (\<lambda>m. \<not> list_ex (\<lambda>r. ls_guest r = lo_guest m) recorded) overrides then Inl Override_unknown
      else
        Inr (map (\<lambda>r.
          case find_restore_override overrides (ls_guest r) of
            Some m \<Rightarrow> (lo_host m, ls_guest r, Some (case lo_mode m of Some x \<Rightarrow> x | None \<Rightarrow> ls_mode r))
          | None \<Rightarrow> (ls_host r, ls_guest r, Some (ls_mode r))) recorded))"

definition resolve_restore_live_mounts ::
    "live_share list option \<Rightarrow> live_override list \<Rightarrow> restore_code + mount_request list option" where
  "resolve_restore_live_mounts recorded overrides =
     (if list_ex (\<lambda>m. lo_cache m \<or> lo_sync m) overrides then Inl Live_mount_invalid
      else
        bind_res (plan_restore_live_mounts (case recorded of None \<Rightarrow> [] | Some rs \<Rightarrow> rs) overrides)
          (\<lambda>planned. Inr (if planned = [] then None else Some planned)))"

definition refusing :: "restore_code + 'a \<Rightarrow> ('v, 'a) restoring" where
  "refusing r = lift_eff (case r of Inl c \<Rightarrow> Inl (Restore_refused c) | Inr x \<Rightarrow> Inr x)"

section \<open>The document, the image and the overlay of a bundle\<close>

definition anonymous_document :: snapshot_document where
  "anonymous_document =
     \<lparr>sd_engine = None, sd_source_name = None, sd_source_image = None, sd_snapped_at = 0, sd_vmstate = None,
      sd_mount_disk = None, sd_live_mounts = None\<rparr>"

definition read_snapshot_meta :: "path \<Rightarrow> 'v restore_world \<Rightarrow> snapshot_document" where
  "read_snapshot_meta snap_dir w =
     (case map_of (sw_docs (rw_host w)) (snap_dir @ [''meta.json'']) of
        Some (Some doc) \<Rightarrow> doc
      | _ \<Rightarrow> anonymous_document)"

text \<open>\<open>planRestoreImage\<close> is asked with what exists; a recorded empty path does not.\<close>

definition resolve_restore_image :: "'v restore_env \<Rightarrow> restore_options \<Rightarrow> snapshot_document \<Rightarrow> ('v, string) restoring" where
  "resolve_restore_image env opts meta =
     (case truthy (ro_image opts) of
        Some img \<Rightarrow>
          let explicit = resolve (base_cwd env opts) img in
          bind_eff (gets_eff (file_there explicit)) (\<lambda>there.
          bind_eff (demand there Image_not_found) (\<lambda>_.
            return_eff (path_text explicit)))
      | None \<Rightarrow>
          (case sd_source_image meta of
             None \<Rightarrow> refuse Image_not_found
           | Some img \<Rightarrow>
               bind_eff (gets_eff (\<lambda>w. img \<noteq> '''' \<and> file_there (resolve [] img) w)) (\<lambda>there.
               bind_eff (demand there Image_not_found) (\<lambda>_.
                 return_eff img))))"

definition resolve_restore_mount_disk ::
    "path \<Rightarrow> snapshot_document \<Rightarrow> ('v, (string \<times> path \<times> path) option) restoring" where
  "resolve_restore_mount_disk snap_dir meta =
     (case sd_mount_disk meta of
        None \<Rightarrow> return_eff None
      | Some ov \<Rightarrow>
          let lower = walk (rev snap_dir) (segments (ov_lower ov)); upper = walk (rev snap_dir) (segments (ov_upper ov)) in
          bind_eff (gets_eff (\<lambda>w. file_there lower w \<and> file_there upper w)) (\<lambda>there.
          bind_eff (demand there Bundle_not_found) (\<lambda>_.
            return_eff (Some (ov_guest ov, lower, upper)))))"

section \<open>Booting\<close>

definition log_restore :: "restore_event \<Rightarrow> ('v, unit) restoring" where
  "log_restore e = modify_eff (\<lambda>w. w\<lparr>rw_log := rw_log w @ [e]\<rparr>)"

definition read_blob :: "path option \<Rightarrow> 'v restore_world \<Rightarrow> bytes option" where
  "read_blob p w = Option.bind p (map_of (sw_blobs (rw_host w)))"

definition boot_machine :: "'v restore_env \<Rightarrow> boot_request \<Rightarrow> ('v, vm_handle) restoring" where
  "boot_machine env req =
     bind_eff (gets_eff (\<lambda>w. Boot_asked req (read_blob (br_state req) w) (read_blob (br_disk_restore req) w)
       (read_blob (br_scratch req) w))) (\<lambda>asked.
     bind_eff (log_restore asked) (\<lambda>_. \<lambda>w.
       case re_boot env req (rw_host w) (rw_registry w) of
         (None, host, reg) \<Rightarrow> (Inl Boot_throws, w\<lparr>rw_host := host, rw_registry := reg\<rparr>)
       | (Some pid, host, reg) \<Rightarrow>
           (Inr \<lparr>vh_pid = pid, vh_name = br_name req\<rparr>,
            w\<lparr>rw_host := host, rw_registry := reg, rw_log := rw_log w @ [Started pid]\<rparr>)))"

section \<open>Entropy\<close>

definition shell_quote :: "string \<Rightarrow> string" where
  "shell_quote s =
     CHR 0x27 # concat (map (\<lambda>c. if c = CHR 0x27 then [CHR 0x27, CHR 0x5C, CHR 0x27, CHR 0x27] else [c]) s) @ [CHR 0x27]"

definition hex_char :: "nat \<Rightarrow> char" where
  "hex_char n = (if n < 10 then char_of (48 + n) else char_of (87 + n))"

definition hex_text :: "bytes \<Rightarrow> string" where
  "hex_text bs = concat (map (\<lambda>b. [hex_char (unat b div 16), hex_char (unat b mod 16)]) bs)"

definition VMSTATE_RESEED_MARKER :: string where
  "VMSTATE_RESEED_MARKER = ''/run/machinen-vmstate-reseed''"

fun join_commands :: "string list \<Rightarrow> string" where
  "join_commands [] = ''''"
| "join_commands [c] = c"
| "join_commands (c # cs) = c @ '' && '' @ join_commands cs"

definition reseed_shell_command :: "string \<Rightarrow> string \<Rightarrow> string" where
  "reseed_shell_command seed_hex time =
     join_commands
       [''mkdir -p /run'',
        ''test -x /sbin/machinen-vmstate-reseed'',
        ''/sbin/machinen-vmstate-reseed '' @ shell_quote seed_hex,
        ''printf %s '' @ shell_quote (''vmstate reseeded '' @ time @ [nl_char]) @ '' > '' @ shell_quote VMSTATE_RESEED_MARKER,
        ''chmod 0600 '' @ shell_quote VMSTATE_RESEED_MARKER]"

datatype reseed_mode = Reseed_direct | Reseed_shell

definition reseed_shell :: "'v restore_env \<Rightarrow> ('v, int) restoring" where
  "reseed_shell env =
     bind_eff (log_restore (Shell_command (reseed_shell_command (hex_text (re_seed env)) (re_time_text env)))) (\<lambda>_.
       case re_shell env of
         None \<Rightarrow> refuse Reseed_failed
       | Some code \<Rightarrow> return_eff code)"

text \<open>Only a rejected request falls back to the shell, an exit code does not.\<close>

definition reseed_guest_entropy :: "'v restore_env \<Rightarrow> ('v, reseed_mode) restoring" where
  "reseed_guest_entropy env =
     bind_eff (if re_has_direct env
         then bind_eff (log_restore (Reseed_request (re_seed env))) (\<lambda>_. return_eff (re_direct env))
         else return_eff None) (\<lambda>direct.
     bind_eff (case direct of
           Some code \<Rightarrow> return_eff (Reseed_direct, code)
         | None \<Rightarrow> bind_eff (reseed_shell env) (\<lambda>code. return_eff (Reseed_shell, code))) (\<lambda>(mode, code).
     bind_eff (demand (code = 0) Reseed_failed) (\<lambda>_.
       return_eff mode)))"

section \<open>Names\<close>

definition is_hostname_alnum :: "char \<Rightarrow> bool" where
  "is_hostname_alnum c \<longleftrightarrow>
     (let n = of_char c :: nat in (97 \<le> n \<and> n \<le> 122) \<or> (65 \<le> n \<and> n \<le> 90) \<or> (48 \<le> n \<and> n \<le> 57))"

text \<open>\<open>acc\<close> is the text written so far, reversed.\<close>

fun sanitize_hostname :: "string \<Rightarrow> string \<Rightarrow> string" where
  "sanitize_hostname acc [] = rev (dropWhile (\<lambda>c. c = CHR ''-'') acc)"
| "sanitize_hostname acc (c # cs) =
     (if is_hostname_alnum c then sanitize_hostname (c # acc) cs
      else if acc \<noteq> [] \<and> hd acc \<noteq> CHR ''-'' then sanitize_hostname (CHR ''-'' # acc) cs
      else sanitize_hostname acc cs)"

text \<open>\<open>None\<close>: the text does not fit into the buffer of the planner.\<close>

definition build_guest_hostname :: "int \<Rightarrow> string option \<Rightarrow> string option" where
  "build_guest_hostname pid name =
     (let base = sanitize_hostname [] (case name of None \<Rightarrow> '''' | Some n \<Rightarrow> n);
          full = (if base = '''' then ''vm'' else base) @ ''-pid-'' @ pid_text pid
      in if 256 < length full then None else Some full)"

definition hostname_command :: "string \<Rightarrow> string" where
  "hostname_command hostname = ''hostname '' @ [CHR 0x27] @ hostname @ [CHR 0x27] @ '' 2>/dev/null || true''"

text \<open>\<open>setGuestHostname\<close>; nobody waits for it, and its failures are swallowed.\<close>

definition set_guest_hostname :: "string \<Rightarrow> ('v, unit) restoring" where
  "set_guest_hostname hostname =
     when_eff (\<not> (hostname = '''' \<or> CHR 0x27 \<in> set hostname \<or> nl_char \<in> set hostname \<or> CHR 0x00 \<in> set hostname))
       (log_restore (Shell_command (hostname_command hostname)))"

definition restamp_restored_hostname :: "vm_handle \<Rightarrow> ('v, unit) restoring" where
  "restamp_restored_hostname vm =
     (case build_guest_hostname (vh_pid vm) (vh_name vm) of
        None \<Rightarrow> return_eff ()
      | Some hostname \<Rightarrow> set_guest_hostname hostname)"

definition auto_name :: "'v restore_env \<Rightarrow> restore_options \<Rightarrow> snapshot_document \<Rightarrow> vm_handle \<Rightarrow> ('v, vm_handle) restoring" where
  "auto_name env opts meta vm = (\<lambda>w.
     case auto_name_restored_fork (re_processes env) (ro_name opts) (sd_source_name meta) (vh_pid vm) (rw_registry w) of
       (Inl c, reg) \<Rightarrow> (Inl (Name_error c), w\<lparr>rw_registry := reg\<rparr>)
     | (Inr name, reg) \<Rightarrow> (Inr (vm\<lparr>vh_name := name\<rparr>), w\<lparr>rw_registry := reg\<rparr>))"

section \<open>Whole-machine bundles\<close>

record prepared_bundle =
  pb_state :: path
  pb_dir :: path
  pb_temp :: "path option"
  pb_meta :: snapshot_document

definition initial_restore_bundle :: "path \<Rightarrow> 'v restore_world \<Rightarrow> prepared_bundle" where
  "initial_restore_bundle snap_dir w =
     \<lparr>pb_state = snap_dir @ [VMSTATE_FILE], pb_dir = snap_dir, pb_temp = None, pb_meta = read_snapshot_meta snap_dir w\<rparr>"

text \<open>The disk that \<open>materialize_vmstate_chain\<close> records, as a field of the document\<close>

fun disk_of_chain :: "root_disk \<Rightarrow> recorded_disk" where
  "disk_of_chain (Block f p sz sha) =
     Disk_block f \<lparr>id_path = map_option path_text p, id_size = sz, id_sha256 = sha, id_sample = None\<rparr>"
| "disk_of_chain Delta = Disk_delta"
| "disk_of_chain No_disk = Disk_none"

definition materialized_document :: "snapshot_document \<Rightarrow> materialized \<Rightarrow> snapshot_document" where
  "materialized_document meta m =
     meta\<lparr>sd_vmstate := map_option
       (\<lambda>v. v\<lparr>vd_root_disk := map_option disk_of_chain (root_disk (meta_of m))\<rparr>) (sd_vmstate meta)\<rparr>"

text \<open>The files of the world after the calls of \<open>materialize_vmstate_chain\<close>: what it writes is below the
  fresh directory, and it removes that directory when it throws.\<close>

definition after_materialize :: "'v restore_env \<Rightarrow> bool \<Rightarrow> store \<Rightarrow> 'v restore_world \<Rightarrow> 'v restore_world" where
  "after_materialize env made st w =
     (let host = rw_host w; temp = re_temp env;
          host' = host\<lparr>sw_blobs := blobs st,
            sw_stamps := (\<lambda>p. if under temp p then se_stamp (re_snap env) (length (sw_log host)) p else sw_stamps host p)\<rparr>
      in w\<lparr>rw_host := if made then host'\<lparr>sw_dirs := temp # sw_dirs host\<rparr> else remove_dir temp host'\<rparr>)"

definition checkpoint_parent_of :: "snapshot_document \<Rightarrow> string option" where
  "checkpoint_parent_of meta =
     truthy (Option.bind (sd_vmstate meta) (\<lambda>v. Option.bind (vd_checkpoint v) cd_parent))"

definition materialize_chain_if_needed :: "'v restore_env \<Rightarrow> prepared_bundle \<Rightarrow> ('v, prepared_bundle) restoring" where
  "materialize_chain_if_needed env prepared =
     (if checkpoint_parent_of (pb_meta prepared) = None then return_eff prepared
      else (\<lambda>w.
        case materialize_vmstate_chain (se_gunzip (re_snap env)) (se_sha256 (re_snap env)) (re_accept env) (process_cwd env)
            (re_temp env) (path_text (pb_dir prepared)) (chain_meta_of (pb_meta prepared)) (store_of (rw_host w)) of
          (Inl e, st) \<Rightarrow> (Inl (Chain_error e), after_materialize env False st w)
        | (Inr m, st) \<Rightarrow>
            (Inr \<lparr>pb_state = state_path m, pb_dir = temp_dir_of m, pb_temp = Some (temp_dir_of m),
               pb_meta = materialized_document (pb_meta prepared) m\<rparr>,
             after_materialize env True st w)))"

definition cleanup_materialized :: "path option \<Rightarrow> 'v restore_world \<Rightarrow> 'v restore_world" where
  "cleanup_materialized temp w =
     (case temp of None \<Rightarrow> w | Some d \<Rightarrow> w\<lparr>rw_host := remove_dir d (rw_host w)\<rparr>)"

definition vmstate_boot_request ::
    "restore_options \<Rightarrow> path \<Rightarrow> prepared_bundle \<Rightarrow> string \<Rightarrow> restore_plan \<Rightarrow> mount_request list option \<Rightarrow>
     (string \<times> path \<times> path) option \<Rightarrow> boot_request" where
  "vmstate_boot_request opts snap_dir prepared rootfs plan mounts overlay =
     \<lparr>br_image = rootfs, br_forked_from = snap_dir, br_name = ro_name opts, br_live_mounts = mounts,
      br_memory = (case rp_memory plan of Some m \<Rightarrow> Some (int m) | None \<Rightarrow> ro_memory opts),
      br_root_disk = (case dp_root_disk (rp_disk plan) of Some d \<Rightarrow> Some d | None \<Rightarrow> ro_root_disk opts),
      br_mount_disk = overlay, br_state = Some (pb_state prepared),
      br_disk_restore = dp_restore_path (rp_disk plan), br_scratch = None, br_env = ro_env opts\<rparr>"

definition boot_vmstate_restore ::
    "'v restore_env \<Rightarrow> restore_options \<Rightarrow> path \<Rightarrow> prepared_bundle \<Rightarrow> string \<Rightarrow> restore_plan \<Rightarrow> ('v, vm_handle) restoring" where
  "boot_vmstate_restore env opts snap_dir prepared rootfs plan =
     bind_eff (refusing (resolve_restore_live_mounts (sd_live_mounts (pb_meta prepared)) (ro_live_mounts opts))) (\<lambda>mounts.
     bind_eff (resolve_restore_mount_disk snap_dir (pb_meta prepared)) (\<lambda>overlay.
       boot_machine env (vmstate_boot_request opts snap_dir prepared rootfs plan mounts overlay)))"

text \<open>The body of the \<open>try\<close> block, once the bundle is prepared\<close>

definition start_prepared :: "'v restore_env \<Rightarrow> restore_options \<Rightarrow> path \<Rightarrow> prepared_bundle \<Rightarrow> ('v, vm_handle) restoring" where
  "start_prepared env opts snap_dir prepared =
     bind_eff (resolve_restore_image env opts (pb_meta prepared)) (\<lambda>rootfs.
     bind_eff (plan_vmstate_restore env opts (pb_meta prepared) (pb_dir prepared) (pb_state prepared) rootfs) (\<lambda>plan.
     bind_eff (boot_vmstate_restore env opts snap_dir prepared rootfs plan) (\<lambda>vm.
     bind_eff (reseed_guest_entropy env) (\<lambda>_.
       return_eff vm))))"

text \<open>The \<open>finally\<close> block has nothing to remove before the chain is materialised.\<close>

definition restore_vmstate :: "'v restore_env \<Rightarrow> restore_options \<Rightarrow> path \<Rightarrow> ('v, vm_handle) restoring" where
  "restore_vmstate env opts snap_dir =
     bind_eff (gets_eff (initial_restore_bundle snap_dir)) (\<lambda>initial.
     bind_eff (materialize_chain_if_needed env initial) (\<lambda>prepared.
     bind_eff (finally_eff (start_prepared env opts snap_dir prepared) (cleanup_materialized (pb_temp prepared))) (\<lambda>vm.
     bind_eff (auto_name env opts (pb_meta prepared) vm) (\<lambda>named.
     bind_eff (restamp_restored_hostname named) (\<lambda>_.
       return_eff named)))))"

end
