(* ===== verification/Restore_Criu.thy ===== *)
theory Restore_Criu
  imports Restore_Flow
begin

text \<open>
  Restoring the process images of a CRIU bundle, the refusals of the portable engine, and the choice of
  the engine: the other half of \<^verbatim>\<open>packages/runtime/src/vm/restore.ts\<close>. \<open>re_scratch\<close> is the file with a
  random name in the temporary directory, \<open>re_tar\<close> the archive that \<^verbatim>\<open>tar\<close> writes of a directory
  (\<open>None\<close>: it fails).
\<close>

section \<open>The bundle\<close>

definition entry_names :: "path \<Rightarrow> 'v snap_world \<Rightarrow> string list" where
  "entry_names dir w = [q ! length dir. q \<leftarrow> known_paths w, under dir q \<and> length dir < length q]"

definition validate_criu_bundle :: "path \<Rightarrow> ('v, path) restoring" where
  "validate_criu_bundle snap_dir =
     (let img_dir = snap_dir @ [''img''] in
      bind_eff (gets_eff (\<lambda>w. path_exists (rw_host w) img_dir \<and> path_is_dir (rw_host w) img_dir)) (\<lambda>is_there.
      bind_eff (demand is_there Bundle_not_found) (\<lambda>_.
      bind_eff (gets_eff (\<lambda>w. list_ex is_core_image (entry_names img_dir (rw_host w)))) (\<lambda>has_core.
      bind_eff (demand has_core Bundle_not_found) (\<lambda>_.
        return_eff img_dir)))))"

section \<open>Lazy pages\<close>

definition images_in :: "path \<Rightarrow> 'v snap_world \<Rightarrow> image_dir" where
  "images_in dir w = [(last p, bs). (p, bs) \<leftarrow> sw_blobs w, p \<noteq> [] \<and> butlast p = dir]"

definition put_images :: "path \<Rightarrow> image_dir \<Rightarrow> 'v snap_world \<Rightarrow> 'v snap_world" where
  "put_images dir images w =
     w\<lparr>sw_blobs := map (\<lambda>(p, bs).
         if p \<noteq> [] \<and> butlast p = dir
         then (p, case map_of images (last p) of Some bs' \<Rightarrow> bs' | None \<Rightarrow> bs)
         else (p, bs)) (sw_blobs w)\<rparr>"

text \<open>The result is the number of lazy pages entries, when the option is set.\<close>

definition prepare_lazy_pages :: "restore_options \<Rightarrow> path \<Rightarrow> ('v, nat option) restoring" where
  "prepare_lazy_pages opts img_dir =
     (if \<not> ro_lazy opts then return_eff None
      else (\<lambda>w.
        case mark_pagemaps_lazy (images_in img_dir (rw_host w)) of
          (Inl e, images) \<Rightarrow> (Inl (Pagemap_error e), w\<lparr>rw_host := put_images img_dir images (rw_host w)\<rparr>)
        | (Inr counts, images) \<Rightarrow>
            (Inr (Some (entries_flagged counts + entries_already_lazy counts)),
             w\<lparr>rw_host := put_images img_dir images (rw_host w)\<rparr>)))"

section \<open>The scratch device\<close>

definition SNAP_SCRATCH_BYTES :: nat where "SNAP_SCRATCH_BYTES = 8 * 1024 * 1024 * 1024"

definition save_file :: "'v restore_env \<Rightarrow> path \<Rightarrow> bytes \<Rightarrow> ('v, unit) restoring" where
  "save_file env p bs = (\<lambda>w.
     if se_can_write (re_snap env) p
     then (Inr (), w\<lparr>rw_host := put_blob (re_snap env) p bs (rw_host w)\<rparr>)
     else (Inl Host_error, w))"

definition unlink_file :: "path \<Rightarrow> 'v restore_world \<Rightarrow> 'v restore_world" where
  "unlink_file p w = w\<lparr>rw_host := (rw_host w)\<lparr>sw_blobs := filter (\<lambda>(q, _). q \<noteq> p) (sw_blobs (rw_host w))\<rparr>\<rparr>"

text \<open>The file is opened for writing, which empties it, and gets one byte at its end.\<close>

definition allocate_sparse_file :: "'v restore_env \<Rightarrow> path \<Rightarrow> nat \<Rightarrow> ('v, unit) restoring" where
  "allocate_sparse_file env p size_bytes = save_file env p (pwrite [] [0] (size_bytes - 1))"

text \<open>\<open>extendRestoreBundleTar\<close> writes the same byte into the archive.\<close>

definition extend_restore_bundle_tar :: "bytes \<Rightarrow> bytes" where
  "extend_restore_bundle_tar archive = pwrite archive [0] (SNAP_SCRATCH_BYTES - 1)"

definition pack_eager_restore_bundle :: "'v restore_env \<Rightarrow> path \<Rightarrow> ('v, path) restoring" where
  "pack_eager_restore_bundle env img_dir =
     catch_eff
       (bind_eff (gets_eff (\<lambda>w. re_tar env [(drop (length img_dir) p, bs). (p, bs) \<leftarrow> sw_blobs (rw_host w), under img_dir p])) (\<lambda>archive.
          case archive of
            None \<Rightarrow> throw_eff Host_error
          | Some bs \<Rightarrow>
              bind_eff (save_file env (re_scratch env) bs) (\<lambda>_.
              bind_eff (save_file env (re_scratch env) (extend_restore_bundle_tar bs)) (\<lambda>_.
                return_eff (re_scratch env)))))
       (\<lambda>_. bind_eff (modify_eff (unlink_file (re_scratch env))) (\<lambda>_. refuse Bundle_not_found))"

record criu_delivery =
  cr_scratch :: path
  cr_env :: "(string \<times> string) list"
  cr_mounts :: "mount_request list option"

definition prepare_lazy_delivery :: "'v restore_env \<Rightarrow> path \<Rightarrow> mount_request list option \<Rightarrow> ('v, criu_delivery) restoring" where
  "prepare_lazy_delivery env img_dir mounts =
     bind_eff (allocate_sparse_file env (re_scratch env) SNAP_SCRATCH_BYTES) (\<lambda>_.
       return_eff
         \<lparr>cr_scratch = re_scratch env,
          cr_env = [(''MACHINEN_RESTORE_BUNDLE_LIVE'', ''1''), (''MACHINEN_RESTORE_LAZY_PAGES'', ''1'')],
          cr_mounts = Some ((case mounts of None \<Rightarrow> [] | Some ms \<Rightarrow> ms) @
            [(path_text img_dir, ''/mnt/snap-src/img'', Some Share_ro)])\<rparr>)"

definition prepare_eager_delivery :: "'v restore_env \<Rightarrow> path \<Rightarrow> mount_request list option \<Rightarrow> ('v, criu_delivery) restoring" where
  "prepare_eager_delivery env img_dir mounts =
     bind_eff (pack_eager_restore_bundle env img_dir) (\<lambda>scratch.
       return_eff \<lparr>cr_scratch = scratch, cr_env = [], cr_mounts = mounts\<rparr>)"

section \<open>Booting and naming\<close>

text \<open>\<open>{ ...a, ...b }\<close> for two environments\<close>

definition spread :: "(string \<times> string) list \<Rightarrow> (string \<times> string) list \<Rightarrow> (string \<times> string) list" where
  "spread a b = fold (\<lambda>(k, v). AList.update k v) b a"

definition criu_boot_request ::
    "restore_options \<Rightarrow> path \<Rightarrow> string \<Rightarrow> criu_delivery \<Rightarrow> (string \<times> path \<times> path) option \<Rightarrow> boot_request" where
  "criu_boot_request opts snap_dir rootfs delivery overlay =
     \<lparr>br_image = rootfs, br_forked_from = snap_dir, br_name = ro_name opts, br_live_mounts = cr_mounts delivery,
      br_memory = ro_memory opts, br_root_disk = ro_root_disk opts, br_mount_disk = overlay, br_state = None,
      br_disk_restore = None, br_scratch = Some (cr_scratch delivery), br_env = spread (ro_env opts) (cr_env delivery)\<rparr>"

definition boot_criu_restore ::
    "'v restore_env \<Rightarrow> restore_options \<Rightarrow> path \<Rightarrow> string \<Rightarrow> criu_delivery \<Rightarrow> (string \<times> path \<times> path) option \<Rightarrow> ('v, vm_handle) restoring" where
  "boot_criu_restore env opts snap_dir rootfs delivery overlay =
     finally_eff (boot_machine env (criu_boot_request opts snap_dir rootfs delivery overlay)) (unlink_file (cr_scratch delivery))"

definition persist_lazy_pages_total :: "'v restore_env \<Rightarrow> vm_handle \<Rightarrow> nat option \<Rightarrow> ('v, unit) restoring" where
  "persist_lazy_pages_total env vm pages =
     (case pages of
        None \<Rightarrow> return_eff ()
      | Some n \<Rightarrow> (\<lambda>w.
          case find_entry (re_processes env) (Some (vh_pid vm)) None (rw_registry w) of
            (None, reg) \<Rightarrow> (Inr (), w\<lparr>rw_registry := reg\<rparr>)
          | (Some cur, reg) \<Rightarrow>
              (case write_entry (set_field (Set_detail ''lazyPagesTotal'' (dec_string n)) cur) reg of
                 (Inl c, reg') \<Rightarrow> (Inl (Name_error c), w\<lparr>rw_registry := reg'\<rparr>)
               | (Inr _, reg') \<Rightarrow> (Inr (), w\<lparr>rw_registry := reg'\<rparr>))))"

definition finalize_criu_restore ::
    "'v restore_env \<Rightarrow> restore_options \<Rightarrow> snapshot_document \<Rightarrow> nat option \<Rightarrow> vm_handle \<Rightarrow> ('v, vm_handle) restoring" where
  "finalize_criu_restore env opts meta pages vm =
     bind_eff (auto_name env opts meta vm) (\<lambda>named.
     bind_eff (persist_lazy_pages_total env named pages) (\<lambda>_.
     bind_eff (restamp_restored_hostname named) (\<lambda>_.
       return_eff named)))"

text \<open>The overlay is resolved after the scratch file is written and before the \<open>try\<close> block that removes it.\<close>

definition restore_criu :: "'v restore_env \<Rightarrow> restore_options \<Rightarrow> path \<Rightarrow> ('v, vm_handle) restoring" where
  "restore_criu env opts snap_dir =
     bind_eff (validate_criu_bundle snap_dir) (\<lambda>img_dir.
     bind_eff (gets_eff (read_snapshot_meta snap_dir)) (\<lambda>meta.
     bind_eff (resolve_restore_image env opts meta) (\<lambda>rootfs.
     bind_eff (prepare_lazy_pages opts img_dir) (\<lambda>pages.
     bind_eff (refusing (resolve_restore_live_mounts (sd_live_mounts meta) (ro_live_mounts opts))) (\<lambda>mounts.
     bind_eff (if ro_lazy opts then prepare_lazy_delivery env img_dir mounts else prepare_eager_delivery env img_dir mounts) (\<lambda>delivery.
     bind_eff (resolve_restore_mount_disk snap_dir meta) (\<lambda>overlay.
     bind_eff (boot_criu_restore env opts snap_dir rootfs delivery overlay) (\<lambda>vm.
       finalize_criu_restore env opts meta pages vm))))))))"

section \<open>The engine\<close>

text \<open>The portable engine restores nothing yet: all its branches throw the same code, and only the
  message tells them apart.\<close>

definition restore_portable :: "('v, vm_handle) restoring" where
  "restore_portable = refuse Portable_unsupported"

definition restore :: "'v restore_env \<Rightarrow> restore_options \<Rightarrow> ('v, vm_handle) restoring" where
  "restore env opts =
     (let snap_dir = resolve (process_cwd env) (ro_snap_dir opts) in
      case resolve_snapshot_engine (se_engine (re_snap env)) of
        None \<Rightarrow> throw_eff Engine_unknown
      | Some engine \<Rightarrow>
          if engine = Portable_engine then restore_portable
          else if is_portable_snapshot_bundle (re_portable env) then refuse Portable_unsupported
          else
            bind_eff (gets_eff (file_there (snap_dir @ [VMSTATE_FILE]))) (\<lambda>whole.
              if whole then restore_vmstate env opts snap_dir else restore_criu env opts snap_dir))"

end
