(* ===== verification/Snapshot_Laws.thy ===== *)
theory Snapshot_Laws
  imports Snapshot_Flow
begin

text \<open>
  What a snapshot promises: the machine is resumed whatever fails, everything that belongs to the
  paused state is copied while it is paused, a failed snapshot leaves the chain of checkpoints as it
  was, and a successful one records exactly what was captured, on top of the previous checkpoint.
\<close>

section \<open>Signals\<close>

fun is_signal :: "snapshot_event \<Rightarrow> bool" where
  "is_signal (Signalled pid name) = True"
| "is_signal _ = False"

definition no_signals :: "snapshot_event list \<Rightarrow> bool" where
  "no_signals es \<longleftrightarrow> \<not> list_ex is_signal es"

lemma no_signals_simps [simp]:
  "no_signals []" "no_signals (e # es) \<longleftrightarrow> \<not> is_signal e \<and> no_signals es" "no_signals (es @ fs) \<longleftrightarrow> no_signals es \<and> no_signals fs"
  by (simp_all add: no_signals_def)

text \<open>Steps that log no signals and leave the chain of checkpoints alone\<close>

definition logs_more :: "'v snap_world \<Rightarrow> 'v snap_world \<Rightarrow> bool" where
  "logs_more w w' \<longleftrightarrow> sw_chain w' = sw_chain w \<and> (\<exists>es. sw_log w' = sw_log w @ es \<and> no_signals es)"

lemma logs_moreI: "sw_log w' = sw_log w @ es \<Longrightarrow> no_signals es \<Longrightarrow> sw_chain w' = sw_chain w \<Longrightarrow> logs_more w w'"
  by (auto simp: logs_more_def)

lemma logs_more_same: "sw_log w' = sw_log w \<Longrightarrow> sw_chain w' = sw_chain w \<Longrightarrow> logs_more w w'"
  by (rule logs_moreI [of _ _ "[]"]) simp_all

interpretation logged: step_relation "logs_more :: 'v snap_world \<Rightarrow> 'v snap_world \<Rightarrow> bool"
proof
  show "logs_more w w" for w :: "'v snap_world" by (rule logs_more_same) simp_all
  show "logs_more u w" if "logs_more u v" "logs_more v w" for u v w :: "'v snap_world"
    using that by (auto simp: logs_more_def)
qed

lemma put_blob_fields [simp]:
  "sw_log (put_blob env p bs w) = sw_log w" "sw_docs (put_blob env p bs w) = sw_docs w"
  "sw_dirs (put_blob env p bs w) = sw_dirs w" "sw_chain (put_blob env p bs w) = sw_chain w"
  "sw_vmm (put_blob env p bs w) = sw_vmm w" "sw_pending (put_blob env p bs w) = sw_pending w"
  "sw_caches (put_blob env p bs w) = sw_caches w"
  by (simp_all add: put_blob_def)

lemma logs_copy: "obeys logs_more (copy_file env src dst)"
  by (rule obeysI)
    (auto simp: copy_file_def logs_more_def split: option.split)

lemma logs_make_dir: "obeys logs_more (make_dir env p)"
  by (rule obeysI) (simp add: make_dir_def logs_more_same)

lemma logs_note: "\<not> is_signal e \<Longrightarrow> obeys logs_more (note_event e)"
  unfolding note_event_def by (rule logged.modify_rule) (simp add: logs_more_def)

lemma logs_prepare: "obeys logs_more (prepare_bundle_root_dir env out)"
proof (rule obeysI)
  fix w
  have "obeys logs_more (bind_eff (make_dir env (resolve (se_cwd env) out)) (\<lambda>_. return_eff (resolve (se_cwd env) out)))"
    by (intro logged.rules logs_make_dir)
  then show "logs_more w (snd (prepare_bundle_root_dir env out w))"
    by (simp add: prepare_bundle_root_dir_def Let_def logs_more_same obeys_def)
qed

lemma logs_clear: "obeys logs_more (clear_vmstate_state_file env p)"
  unfolding clear_vmstate_state_file_def by (rule logged.modify_rule) (simp add: logs_more_same)

lemma logs_sync: "obeys logs_more (sync_guest_for_vmstate_snapshot env ctx)"
  unfolding sync_guest_for_vmstate_snapshot_def try_direct_vmstate_sync_def
  by (intro logged.rules logs_note) simp_all

lemma logs_await: "obeys logs_more (await_state_file env p deadline_ms)"
  by (rule obeysI) (auto simp: await_state_file_def intro: logs_more_same split: sum.split option.split)

lemma logs_copy_state: "obeys logs_more (copy_vmstate_state_into_bundle env p d)"
  unfolding copy_vmstate_state_into_bundle_def by (intro logged.rules logs_copy)

lemma logs_flags: "obeys logs_more (read_vmstate_section_flags env p)"
  by (rule obeysI) (simp add: read_vmstate_section_flags_def logs_more_same split: option.split)

lemma logs_disk: "obeys logs_more (copy_vmstate_root_disk env ctx d b)"
  unfolding copy_vmstate_root_disk_def Let_def by (intro logged.rules logs_copy)

lemma logs_overlay: "obeys logs_more (reflink_mount_overlay env ctx d)"
  unfolding reflink_mount_overlay_def by (intro logged.rules logs_copy logs_note) simp

lemma logs_sidecars: "obeys logs_more (capture_sidecars env ctx p d t)"
  unfolding capture_sidecars_def
  by (intro logged.rules logs_await logs_copy_state logs_flags logs_disk logs_overlay)

section \<open>Finishing a bundle\<close>

text \<open>After the machine runs again only the caches and the document are written.\<close>

definition outside :: "'v snap_world \<Rightarrow> (path \<times> bytes) list \<times> path list \<times> 'v \<times> snapshot_event list" where
  "outside w = (sw_blobs w, sw_dirs w, sw_vmm w, sw_log w)"

definition outside_docs ::
    "'v snap_world \<Rightarrow> ((path \<times> bytes) list \<times> path list \<times> 'v \<times> snapshot_event list) \<times>
      (path \<times> snapshot_document option) list \<times> vmstate_chain option" where
  "outside_docs w = (outside w, sw_docs w, sw_chain w)"

lemma same_outside_docsI [intro]:
  "sw_blobs w' = sw_blobs w \<Longrightarrow> sw_dirs w' = sw_dirs w \<Longrightarrow> sw_vmm w' = sw_vmm w \<Longrightarrow> sw_log w' = sw_log w \<Longrightarrow>
   sw_docs w' = sw_docs w \<Longrightarrow> sw_chain w' = sw_chain w \<Longrightarrow> same outside_docs w w'"
  by (simp add: same_def outside_docs_def outside_def)

lemma kept_identity: "obeys (same outside_docs) (identity_of env p)"
  by (rule obeysI) (auto simp: identity_of_def)

lemma kept_managed: "obeys (same outside_docs) (managed_disk_identity env disk b)"
  by (rule obeysI) (auto simp: managed_disk_identity_def Let_def split: sum.split option.split)

lemma kept_trusted: "obeys (same outside_docs) (trusted_disk_identity env disk b)"
  by (rule obeysI) (auto simp: trusted_disk_identity_def split: sum.split option.split)

lemma kept_remember: "obeys (same outside_docs) (remember_identity env ident)"
  by (rule obeysI) (auto simp: remember_identity_def split: sum.split)

lemma kept_or_else:
  "obeys (same outside_docs) m \<Longrightarrow> obeys (same outside_docs) n \<Longrightarrow> obeys (same outside_docs) (or_else_eff m n)"
  unfolding or_else_eff_def by (intro kept.rules)

lemma kept_finalize: "obeys (same outside_docs) (finalize_vmstate_root_disk env pd)"
proof (cases pd)
  case (Pending_block f disk b)
  then show ?thesis
    unfolding finalize_vmstate_root_disk_def
    by (simp add: kept.rules kept_managed kept_trusted kept_identity kept_remember kept_or_else)
qed (simp_all add: finalize_vmstate_root_disk_def kept.rules)

lemma kept_facts: "obeys (same outside_docs) (read_facts env p)"
  by (rule obeysI) (auto simp: read_facts_def)

lemma kept_optional: "obeys (same outside_docs) (optional_file_identity env p)"
  unfolding optional_file_identity_def by (intro kept.rules kept_identity)

lemma kept_assets: "obeys (same outside_docs) (snapshot_boot_assets_identity env ctx guest)"
  unfolding snapshot_boot_assets_identity_def build_boot_assets_identity_def
  by (simp add: kept.rules kept_identity kept_optional split: option.split)

lemma kept_meta: "obeys (same outside_docs) (build_vmstate_meta env ctx p d parent n flags disk)"
  unfolding build_vmstate_meta_def by (intro kept.rules kept_facts kept_assets kept_optional)


section \<open>The order of signals\<close>

definition usr1 :: "snapshot_context \<Rightarrow> snapshot_event" where
  "usr1 ctx = Signalled (sc_pid ctx) ''SIGUSR1''"

definition usr2 :: "snapshot_context \<Rightarrow> snapshot_event" where
  "usr2 ctx = Signalled (sc_pid ctx) ''SIGUSR2''"

text \<open>A run that signals is a stretch without signals, then a pause that holds \<open>mid\<close>.\<close>

definition paused_once :: "snapshot_context \<Rightarrow> snapshot_event list \<Rightarrow> snapshot_event list \<Rightarrow> 'v snap_world \<Rightarrow> 'v snap_world \<Rightarrow> bool" where
  "paused_once ctx pre mid w w' \<longleftrightarrow>
     no_signals pre \<and> no_signals mid \<and> sw_log w' = sw_log w @ pre @ usr1 ctx # mid @ [usr2 ctx]"

lemma pause_cases:
  assumes "obeys logs_more m"
  obtains (unsignalled) e where "with_paused_vmstate_source env ctx m w = (Inl e, w)"
    | (signalled) r v mid w' where
      "with_paused_vmstate_source env ctx m w = (r, resume_vmstate_source ctx w')"
      "m v = (r, w')" "sw_log v = sw_log w @ [usr1 ctx]" "sw_blobs v = sw_blobs w" "sw_docs v = sw_docs w"
      "sw_dirs v = sw_dirs w" "sw_chain v = sw_chain w" "sw_vmm v = snd (se_dump env (sw_vmm w))"
      "sw_pending v = Some (fst (se_dump env (sw_vmm w)))"
      "sw_log w' = sw_log v @ mid" "no_signals mid" "sw_chain w' = sw_chain v"
proof (cases "se_can_signal env")
  case False
  then show thesis
    by (intro unsignalled [of "Snapshot_error Dump_failed"])
      (simp add: with_paused_vmstate_source_def signal_vmstate_snapshot_def bind_eff_def)
next
  case True
  define v where "v = w\<lparr>sw_vmm := snd (se_dump env (sw_vmm w)), sw_pending := Some (fst (se_dump env (sw_vmm w))),
    sw_log := sw_log w @ [usr1 ctx]\<rparr>"
  have signal: "signal_vmstate_snapshot env ctx w = (Inr (), v)"
    using True by (simp add: signal_vmstate_snapshot_def v_def usr1_def split: prod.split)
  obtain r w' where run: "m v = (r, w')" by (cases "m v")
  from obeys_run [OF assms run] obtain mid where mid: "sw_log w' = sw_log v @ mid" "no_signals mid" "sw_chain w' = sw_chain v"
    by (auto simp: logs_more_def)
  show thesis
    by (rule signalled [of r w' v mid])
      (simp_all add: with_paused_vmstate_source_def bind_eff_def signal finally_eff_def run mid, simp_all add: v_def)
qed

lemma finish_logs: "finish_bundle env ctx d b w = (r, w') \<Longrightarrow> sw_log w' = sw_log w"
proof -
  have writes: "obeys (same sw_log) (write_snapshot_meta env ctx d ov engine vmstate)" for ov engine vmstate
    by (rule obeysI) (simp add: write_snapshot_meta_def Let_def same_def)
  have update: "obeys (same sw_log) (update_vmstate_chain env d n)" for n
    by (rule obeysI) (auto simp: update_vmstate_chain_def same_def split: option.split)
  have weaken: "obeys (same outside_docs) m \<Longrightarrow> obeys (same sw_log) m" for m :: "('v, 'b) snap"
    by (auto simp: obeys_def same_def outside_docs_def outside_def)
  have "obeys (same sw_log) (finish_bundle env ctx d b)"
    unfolding finish_bundle_def
    by (intro kept.rules writes update weaken [OF kept_finalize] weaken [OF kept_meta])
  then show "finish_bundle env ctx d b w = (r, w') \<Longrightarrow> sw_log w' = sw_log w"
    using obeys_run by (fastforce simp: same_def)
qed

lemma resume_log [simp]: "sw_log (resume_vmstate_source ctx w) = sw_log w @ [usr2 ctx]"
  by (simp add: resume_vmstate_source_def usr2_def)

lemma capture_pauses:
  assumes "capture_vmstate_snapshot_bundle env ctx p d t w = (r, w')"
  shows "(\<exists>e. r = Inl e \<and> w' = w) \<or> (\<exists>mid. paused_once ctx [] mid w w')"
  using logs_sidecars [of env ctx p d t]
proof (cases rule: pause_cases [where env = env and ctx = ctx and w = w])
  case (unsignalled e)
  then show ?thesis using assms by (auto simp: capture_vmstate_snapshot_bundle_def bind_eff_def)
next
  case (signalled q v mid u)
  have "sw_log w' = sw_log (resume_vmstate_source ctx u)"
    using assms signalled(1)
    by (auto simp: capture_vmstate_snapshot_bundle_def bind_eff_def return_eff_def dest!: finish_logs split: sum.splits prod.splits)
  then show ?thesis using signalled(3,10,11) by (auto simp: paused_once_def)
qed


lemma snapshot_vmstate_pauses:
  assumes "perform_snapshot_vmstate env ctx opts w = (r, w')"
  shows "logs_more w w' \<or> (\<exists>pre mid. paused_once ctx pre mid w w')"
proof (cases "truthy (sc_vmstate_path ctx)")
  case None
  then show ?thesis using assms by (simp add: perform_snapshot_vmstate_def throw_eff_def logs_more_same)
next
  case (Some p)
  let ?p = "resolve [] p"
  let ?before = "bind_eff (prepare_bundle_root_dir env (so_out_dir opts)) (\<lambda>d.
    bind_eff (clear_vmstate_state_file env ?p) (\<lambda>_. bind_eff (sync_guest_for_vmstate_snapshot env ctx) (\<lambda>_. return_eff d)))"
  have logs: "obeys logs_more ?before" by (intro logged.rules logs_prepare logs_clear logs_sync)
  have split: "perform_snapshot_vmstate env ctx opts w =
      bind_eff ?before (\<lambda>d. capture_vmstate_snapshot_bundle env ctx ?p d (deadline_of opts)) w"
    using Some by (simp add: perform_snapshot_vmstate_def bind_eff_def return_eff_def split: prod.split sum.split)
  show ?thesis
  proof (cases rule: bind_eff_cases [of ?before w "\<lambda>d. capture_vmstate_snapshot_bundle env ctx ?p d (deadline_of opts)"])
    case (throws e s')
    then show ?thesis using obeys_run [OF logs throws(1)] assms split by simp
  next
    case (goes_on d v)
    obtain pre where pre: "sw_log v = sw_log w @ pre" "no_signals pre" "sw_chain v = sw_chain w"
      using obeys_run [OF logs goes_on(1)] by (auto simp: logs_more_def)
    have "capture_vmstate_snapshot_bundle env ctx ?p d (deadline_of opts) v = (r, w')" using goes_on(2) split assms by simp
    from capture_pauses [OF this] show ?thesis
      using pre by (auto simp: paused_once_def logs_more_def)
  qed
qed

lemma logs_criu: "obeys logs_more (perform_snapshot_criu env ctx opts)"
proof -
  have dir: "obeys logs_more (prepare_bundle_dir env out)" for out
    unfolding prepare_bundle_dir_def by (intro logged.rules logs_prepare logs_make_dir)
  have images: "sw_log (fold (\<lambda>(name, bs). put_blob env (d @ [name]) bs) ims u) = sw_log u"
      "sw_chain (fold (\<lambda>(name, bs). put_blob env (d @ [name]) bs) ims u) = sw_chain u" for d ims u
    by (induction ims arbitrary: u) auto
  have dump: "obeys logs_more (run_dump_and_extract_tar env cmd d)" for cmd d
    unfolding run_dump_and_extract_tar_def by (intro logged.rules logs_note logs_more_same images) simp
  have off: "obeys logs_more power_off_source_vm"
    unfolding power_off_source_vm_def by (intro logged.rules logs_note) simp_all
  have writes: "obeys logs_more (write_snapshot_meta env ctx d ov engine vmstate)" for d ov engine vmstate
    by (rule obeysI) (simp add: write_snapshot_meta_def Let_def logs_more_same)
  show ?thesis
    unfolding perform_snapshot_criu_def by (intro logged.rules dir dump off writes logs_overlay)
qed

text \<open>C5: Whatever fails, a snapshot sends at most one SIGUSR1, follows it by exactly one SIGUSR2,
  and nothing of the snapshot is done after it that would touch the guest: the source is paused
  once and is running again when the call returns or throws. (The resuming signal is taken to be
  sent; the code ignores a failure of it.)\<close>

theorem snapshot_ends_its_pause:
  "\<exists>pre mid. no_signals pre \<and> no_signals mid \<and>
     (sw_log (snd (perform_snapshot env ctx opts w)) = sw_log w @ pre \<or>
      sw_log (snd (perform_snapshot env ctx opts w)) =
        sw_log w @ pre @ Signalled (sc_pid ctx) ''SIGUSR1'' # mid @ [Signalled (sc_pid ctx) ''SIGUSR2''])"
proof -
  have "logs_more w (snd (perform_snapshot env ctx opts w)) \<or>
      (\<exists>pre mid. paused_once ctx pre mid w (snd (perform_snapshot env ctx opts w)))"
    using snapshot_vmstate_pauses [OF prod.collapse [symmetric], where env = env and ctx = ctx and opts = opts and w = w] logs_criu [of env ctx opts]
    by (auto simp: perform_snapshot_def throw_eff_def obeys_def intro: logs_more_same
        split: option.split snapshot_engine.split)
  then show ?thesis by (auto simp: logs_more_def paused_once_def usr1_def usr2_def)
qed


section \<open>Failures\<close>

lemma prepared_dir: "prepare_bundle_root_dir env out w = (Inr d, w') \<Longrightarrow> d = resolve (se_cwd env) out"
  by (auto simp: prepare_bundle_root_dir_def Let_def bind_eff_def return_eff_def split: if_splits prod.splits sum.splits)

lemma update_failed:
  "update_vmstate_chain env d n w = (Inl e, w') \<Longrightarrow> \<not> se_can_update env \<and>
     w' = w\<lparr>sw_chain := map_option (\<lambda>c. c\<lparr>vc_parent_dir := Some (path_text d), vc_sequence := n\<rparr>) (sw_chain w)\<rparr>"
  by (auto simp: update_vmstate_chain_def split: option.splits if_splits)

text \<open>Only the updater itself can throw with a changed chain; then the bundle is complete.\<close>

definition chain_after_failure :: "'v snap_env \<Rightarrow> path \<Rightarrow> 'v snap_world \<Rightarrow> 'v snap_world \<Rightarrow> bool" where
  "chain_after_failure env d w w' \<longleftrightarrow>
     sw_chain w' = sw_chain w \<or>
     \<not> se_can_update env \<and> (\<exists>doc. map_of (sw_docs w') (d @ [''meta.json'']) = Some (Some doc)) \<and>
     sw_chain w' = map_option (\<lambda>c. c\<lparr>vc_parent_dir := Some (path_text d), vc_sequence := next_sequence_of w\<rparr>) (sw_chain w)"

lemma chain_after_failure_same: "sw_chain u = sw_chain w \<Longrightarrow> chain_after_failure env d u w' \<Longrightarrow> chain_after_failure env d w w'"
  by (simp add: chain_after_failure_def next_sequence_of_def)

lemma finish_failed:
  assumes "finish_bundle env ctx d b w = (Inl e, w')" "cb_sequence b = next_sequence_of w"
  shows "chain_after_failure env d w w'"
proof -
  let ?store = "\<lambda>meta. write_snapshot_meta env ctx d (cb_overlay b) Vmstate_engine (Some meta)"
  let ?before = "bind_eff (finalize_vmstate_root_disk env (cb_disk b)) (\<lambda>disk.
     bind_eff (gets_eff parent_dir_of) (\<lambda>parent_dir.
       build_vmstate_meta env ctx (cb_state b) d parent_dir (cb_sequence b) (cb_flags b) disk))"
  let ?rest = "\<lambda>meta. bind_eff (?store meta) (\<lambda>_. update_vmstate_chain env d (cb_sequence b))"
  have kept: "obeys (same outside_docs) ?before" by (intro kept.rules kept_finalize kept_meta)
  have "finish_bundle env ctx d b w = bind_eff ?before ?rest w"
    by (simp add: finish_bundle_def bind_eff_def split: prod.split sum.split)
  with assms have run: "bind_eff ?before ?rest w = (Inl e, w')" by simp
  show ?thesis
  proof (cases rule: bind_eff_cases [of ?before w ?rest])
    case (throws e' s')
    then show ?thesis using run obeys_run [OF kept throws(1)] by (simp add: same_def outside_docs_def chain_after_failure_def)
  next
    case (goes_on meta s)
    have chain: "sw_chain s = sw_chain w" using obeys_run [OF kept goes_on(1)] by (simp add: same_def outside_docs_def)
    from goes_on(2) run have "?rest meta s = (Inl e, w')" by simp
    then show ?thesis
      using chain assms(2)
      by (auto simp: bind_eff_def write_snapshot_meta_def Let_def chain_after_failure_def dest!: update_failed split: if_splits)
  qed
qed

lemma sidecars_sequence:
  assumes "capture_sidecars env ctx p d t w = (Inr b, w')"
  shows "cb_sequence b = next_sequence_of w"
proof -
  from assms obtain w1 w2 q where "await_state_file env p t w = (Inr (), w1)"
    "copy_vmstate_state_into_bundle env p d w1 = (Inr q, w2)" and n: "cb_sequence b = next_sequence_of w2"
    unfolding capture_sidecars_def
    by (auto elim!: bind_eff_SomeD simp: gets_eff_def return_eff_def read_vmstate_section_flags_def)
  then have "sw_chain w2 = sw_chain w"
    using obeys_run [OF logs_await] obeys_run [OF logs_copy_state] by (fastforce simp: logs_more_def)
  then show ?thesis using n by (simp add: next_sequence_of_def)
qed

lemma capture_failed:
  assumes "capture_vmstate_snapshot_bundle env ctx p d t w = (Inl e, w')"
  shows "chain_after_failure env d w w'"
  using logs_sidecars [of env ctx p d t]
proof (cases rule: pause_cases [where env = env and ctx = ctx and w = w])
  case (unsignalled e)
  then show ?thesis using assms by (auto simp: capture_vmstate_snapshot_bundle_def bind_eff_def chain_after_failure_def)
next
  case (signalled q v mid u)
  have chain: "sw_chain (resume_vmstate_source ctx u) = sw_chain w"
    using signalled(7,12) by (simp add: resume_vmstate_source_def)
  show ?thesis
  proof (cases q)
    case (Inl e')
    then show ?thesis
      using assms signalled(1) chain by (simp add: capture_vmstate_snapshot_bundle_def bind_eff_def chain_after_failure_def)
  next
    case (Inr b)
    then have "cb_sequence b = next_sequence_of (resume_vmstate_source ctx u)"
      using sidecars_sequence [of env ctx p d t v b u] signalled(2,7) chain by (simp add: next_sequence_of_def)
    moreover have "finish_bundle env ctx d b (resume_vmstate_source ctx u) = (Inl e, w')"
      using assms signalled(1) Inr
      by (auto simp: capture_vmstate_snapshot_bundle_def bind_eff_def return_eff_def split: prod.splits sum.splits)
    ultimately show ?thesis using finish_failed chain_after_failure_same [OF chain] by blast
  qed
qed

lemma vmstate_chain_after_failure:
  assumes "perform_snapshot_vmstate env ctx opts w = (Inl e, w')"
  shows "chain_after_failure env (resolve (se_cwd env) (so_out_dir opts)) w w'"
proof (cases "truthy (sc_vmstate_path ctx)")
  case None
  then show ?thesis using assms by (simp add: perform_snapshot_vmstate_def throw_eff_def chain_after_failure_def)
next
  case (Some p)
  let ?p = "resolve [] p" and ?d = "resolve (se_cwd env) (so_out_dir opts)"
  let ?before = "bind_eff (prepare_bundle_root_dir env (so_out_dir opts)) (\<lambda>d.
    bind_eff (clear_vmstate_state_file env ?p) (\<lambda>_. bind_eff (sync_guest_for_vmstate_snapshot env ctx) (\<lambda>_. return_eff d)))"
  let ?capture = "\<lambda>d. capture_vmstate_snapshot_bundle env ctx ?p d (deadline_of opts)"
  have logs: "obeys logs_more ?before" by (intro logged.rules logs_prepare logs_clear logs_sync)
  have "perform_snapshot_vmstate env ctx opts w = bind_eff ?before ?capture w"
    using Some by (simp add: perform_snapshot_vmstate_def bind_eff_def return_eff_def split: prod.split sum.split)
  then have run: "bind_eff ?before ?capture w = (Inl e, w')" using assms by simp
  show ?thesis
  proof (cases rule: bind_eff_cases [of ?before w ?capture])
    case (throws e' s')
    then show ?thesis using run obeys_run [OF logs throws(1)] by (simp add: logs_more_def chain_after_failure_def)
  next
    case (goes_on d s')
    have "d = ?d" using goes_on(1) by (auto elim!: bind_eff_SomeD simp: return_eff_def prepared_dir)
    moreover from goes_on have "?capture d s' = (Inl e, w')" using run by simp
    moreover have "sw_chain s' = sw_chain w" using obeys_run [OF logs goes_on(1)] by (simp add: logs_more_def)
    ultimately show ?thesis using capture_failed chain_after_failure_same by blast
  qed
qed

lemma vmstate_failed:
  "perform_snapshot_vmstate env ctx opts w = (Inl e, w') \<Longrightarrow> se_can_update env \<Longrightarrow> sw_chain w' = sw_chain w"
  using vmstate_chain_after_failure by (fastforce simp: chain_after_failure_def)

text \<open>C33: A snapshot that throws leaves the chain of checkpoints of the machine as it was, so the next one is
  recorded on top of the last that succeeded; the only exception is a throw of the last step, which
  stores the new chain: then the bundle is complete and the chain names it.\<close>

theorem failed_snapshot_keeps_the_chain:
  assumes "perform_snapshot env ctx opts w = (Inl e, w')"
  shows "sw_chain w' = sw_chain w \<or>
    \<not> se_can_update env \<and>
    (\<exists>doc. map_of (sw_docs w') (resolve (se_cwd env) (so_out_dir opts) @ [''meta.json'']) = Some (Some doc)) \<and>
    sw_chain w' = map_option (\<lambda>c. c\<lparr>vc_parent_dir := Some (path_text (resolve (se_cwd env) (so_out_dir opts))),
      vc_sequence := vc_sequence c + 1\<rparr>) (sw_chain w)"
proof -
  have "sw_chain w' = sw_chain w" if "perform_snapshot_criu env ctx opts w = (Inl e, w')"
    using obeys_run [OF logs_criu that] by (simp add: logs_more_def)
  moreover have "chain_after_failure env (resolve (se_cwd env) (so_out_dir opts)) w w'"
    if "perform_snapshot_vmstate env ctx opts w = (Inl e, w')"
    using that by (rule vmstate_chain_after_failure)
  ultimately have "chain_after_failure env (resolve (se_cwd env) (so_out_dir opts)) w w'"
    using assms
    by (auto simp: perform_snapshot_def throw_eff_def chain_after_failure_def
        split: option.splits snapshot_engine.splits if_splits)
  then show ?thesis by (cases "sw_chain w") (auto simp: chain_after_failure_def next_sequence_of_def)
qed

section \<open>Writes stay in the bundle\<close>

lemma map_of_put_blob [simp]:
  "map_of (sw_blobs (put_blob env p bs w)) q = (if q = p then Some bs else map_of (sw_blobs w) q)"
  by (simp add: put_blob_def map_of_filter_key)

definition confined :: "path \<Rightarrow> path \<Rightarrow> 'v snap_world \<Rightarrow> 'v snap_world \<Rightarrow> bool" where
  "confined d p w w' \<longleftrightarrow>
     (\<forall>q. \<not> under d q \<longrightarrow> q \<noteq> p \<longrightarrow>
       map_of (sw_blobs w') q = map_of (sw_blobs w) q \<and> map_of (sw_docs w') q = map_of (sw_docs w) q)"

interpretation confine: step_relation "confined d p :: 'v snap_world \<Rightarrow> 'v snap_world \<Rightarrow> bool" for d p
  by unfold_locales (auto simp: confined_def)

lemma confined_same: "sw_blobs w' = sw_blobs w \<Longrightarrow> sw_docs w' = sw_docs w \<Longrightarrow> confined d p w w'"
  by (simp add: confined_def)

lemma under_self [simp]: "under d (d @ x)"
  by (simp add: under_def)

lemma confined_put: "q = p \<or> under d q \<Longrightarrow> confined d p w (put_blob env q bs w)"
  by (auto simp: confined_def)

lemma confined_copy: "under d q \<Longrightarrow> obeys (confined d p) (copy_file env src q)"
  by (rule obeysI) (auto simp: copy_file_def confined_def split: option.split)

lemma confined_note: "obeys (confined d p) (note_event e)"
  unfolding note_event_def by (rule confine.modify_rule) (simp add: confined_same)

lemma confined_prepare: "obeys (confined d p) (prepare_bundle_root_dir env out)"
  by (rule obeysI) (simp add: prepare_bundle_root_dir_def Let_def bind_eff_def return_eff_def make_dir_def confined_same)

lemma confined_clear: "obeys (confined d p) (clear_vmstate_state_file env p)"
  unfolding clear_vmstate_state_file_def
  by (rule confine.modify_rule) (auto simp: confined_def map_of_filter_key)

lemma confined_await: "obeys (confined d p) (await_state_file env p t)"
  by (rule obeysI) (auto simp: await_state_file_def confined_def split: sum.split option.split)

lemma confined_docs: "same outside_docs w w' \<Longrightarrow> confined d p w w'"
  by (rule confined_same) (simp_all add: same_def outside_docs_def outside_def)

lemma confined_outside: "obeys (same outside_docs) m \<Longrightarrow> obeys (confined d p) m"
  by (simp add: obeys_def confined_docs)

lemma confined_sync: "obeys (confined d p) (sync_guest_for_vmstate_snapshot env ctx)"
  unfolding sync_guest_for_vmstate_snapshot_def try_direct_vmstate_sync_def
  by (intro confine.rules confined_note)

lemma confined_overlay: "obeys (confined d p) (reflink_mount_overlay env ctx d)"
  unfolding reflink_mount_overlay_def by (intro confine.rules confined_copy confined_note under_self)

lemma confined_disk: "obeys (confined d p) (copy_vmstate_root_disk env ctx d b)"
  unfolding copy_vmstate_root_disk_def Let_def by (intro confine.rules confined_copy under_self)

lemma confined_flags: "obeys (confined d p) (read_vmstate_section_flags env q)"
  by (rule obeysI) (simp add: read_vmstate_section_flags_def confined_same split: option.split)

lemma confined_sidecars: "obeys (confined d p) (capture_sidecars env ctx p d t)"
  unfolding capture_sidecars_def copy_vmstate_state_into_bundle_def
  by (intro confine.rules confined_await confined_copy confined_flags confined_disk confined_overlay under_self)

lemma confined_pause:
  assumes "obeys (confined d p) m"
  shows "obeys (confined d p) (with_paused_vmstate_source env ctx m)"
  unfolding with_paused_vmstate_source_def
proof (intro confine.bind_rule confine.finally_rule assms)
  show "obeys (confined d p) (signal_vmstate_snapshot env ctx)"
    by (rule obeysI) (simp add: signal_vmstate_snapshot_def confined_same split: prod.split)
  show "confined d p s (resume_vmstate_source ctx s)" for s
    by (simp add: resume_vmstate_source_def confined_same)
qed

lemma confined_write_meta: "obeys (confined d p) (write_snapshot_meta env ctx d ov engine vmstate)"
  by (rule obeysI) (auto simp: write_snapshot_meta_def Let_def confined_def map_of_filter_key)

lemma confined_update: "obeys (confined d p) (update_vmstate_chain env d' n)"
  by (rule obeysI) (simp add: update_vmstate_chain_def confined_same split: option.split)

lemma confined_finish: "obeys (confined d p) (finish_bundle env ctx d b)"
  unfolding finish_bundle_def
  by (intro confine.rules confined_outside [OF kept_finalize] confined_outside [OF kept_meta] confined_write_meta
      confined_update)

lemma confined_snapshot:
  assumes "truthy (sc_vmstate_path ctx) = Some p"
  shows "confined (resolve (se_cwd env) (so_out_dir opts)) (resolve [] p) w (snd (perform_snapshot_vmstate env ctx opts w))"
proof -
  let ?d = "resolve (se_cwd env) (so_out_dir opts)" and ?p = "resolve [] p"
  let ?rest = "\<lambda>d. bind_eff (clear_vmstate_state_file env ?p) (\<lambda>_. bind_eff (sync_guest_for_vmstate_snapshot env ctx) (\<lambda>_.
    capture_vmstate_snapshot_bundle env ctx ?p d (deadline_of opts)))"
  have rest: "obeys (confined ?d ?p) (?rest ?d)"
    unfolding capture_vmstate_snapshot_bundle_def
    by (intro confine.rules confined_clear confined_sync confined_pause confined_sidecars confined_finish)
  show ?thesis
  proof (cases rule: bind_eff_cases [of "prepare_bundle_root_dir env (so_out_dir opts)" w ?rest])
    case (throws e s')
    then show ?thesis
      using assms obeys_run [OF confined_prepare throws(1)] by (simp add: perform_snapshot_vmstate_def)
  next
    case (goes_on d v)
    have "confined ?d ?p w v" by (rule obeys_run [OF confined_prepare goes_on(1)])
    moreover have "confined ?d ?p v (snd (?rest ?d v))" using rest by (simp add: obeys_def)
    ultimately show ?thesis
      using assms goes_on(2) prepared_dir [OF goes_on(1)]
      by (auto simp: perform_snapshot_vmstate_def intro: confine.trans)
  qed
qed


section \<open>What a successful snapshot records\<close>

lemma prepare_success:
  assumes "prepare_bundle_root_dir env out w = (Inr d, w')"
  shows "d = resolve (se_cwd env) out" "\<exists>ds. w' = w\<lparr>sw_dirs := ds\<rparr>"
    "under d q \<Longrightarrow> map_of (sw_blobs w) q = None \<and> map_of (sw_docs w) q = None"
proof -
  have cases: "d = resolve (se_cwd env) out \<and> (\<exists>ds. w' = w\<lparr>sw_dirs := ds\<rparr>) \<and>
      (\<not> path_exists w d \<or> path_is_dir w d \<and> dir_is_empty w d)"
    using assms
    by (auto simp: prepare_bundle_root_dir_def Let_def bind_eff_def return_eff_def make_dir_def
        split: if_splits intro: exI [of _ "sw_dirs w"])
  then show "d = resolve (se_cwd env) out" "\<exists>ds. w' = w\<lparr>sw_dirs := ds\<rparr>" by blast+
  have known: "q \<in> set (known_paths w)" if "map_of (sw_blobs w) q \<noteq> None \<or> map_of (sw_docs w) q \<noteq> None"
    using that by (force simp: known_paths_def dest: map_of_SomeD)
  show "map_of (sw_blobs w) q = None \<and> map_of (sw_docs w) q = None" if "under d q"
  proof (rule ccontr)
    assume there: "\<not> ?thesis"
    then have "q \<in> set (known_paths w)" using known by blast
    then have "path_exists w d" using that by (auto simp: path_exists_def list_ex_iff)
    then have dir: "path_is_dir w d" "dir_is_empty w d" using cases by blast+
    then have "q = d" using that \<open>q \<in> set (known_paths w)\<close> by (auto simp: dir_is_empty_def list_ex_iff)
    then show False using dir(1) there by (simp add: path_is_dir_def)
  qed
qed

lemma copy_success:
  assumes "copy_file env src dst w = (Inr x, w')"
  obtains bs where "map_of (sw_blobs w) src = Some bs"
    "w' = (put_blob env dst bs w)\<lparr>sw_log := sw_log w @ [Copied src dst]\<rparr>"
  using assms by (auto simp: copy_file_def split: option.splits if_splits)

text \<open>The part of the state that the copies beside the state file leave alone\<close>

definition captured_part :: "path \<Rightarrow> 'v snap_world \<Rightarrow> bytes option \<times> (path \<times> snapshot_document option) list \<times>
    vmstate_chain option \<times> 'v" where
  "captured_part d w = (map_of (sw_blobs w) (d @ [VMSTATE_FILE]), sw_docs w, sw_chain w, sw_vmm w)"

lemma captured_copy: "x \<noteq> VMSTATE_FILE \<Longrightarrow> obeys (same (captured_part d)) (copy_file env src (d @ [x]))"
  by (rule obeysI) (auto simp: copy_file_def same_def captured_part_def split: option.split)

lemma captured_disk: "obeys (same (captured_part d)) (copy_vmstate_root_disk env ctx d b)"
  unfolding copy_vmstate_root_disk_def Let_def
  by (intro kept.rules captured_copy) (simp add: VMSTATE_FILE_def VMSTATE_ROOTDISK_FILE_def)

lemma captured_overlay: "obeys (same (captured_part d)) (reflink_mount_overlay env ctx d)"
  unfolding reflink_mount_overlay_def note_event_def
  by (intro kept.rules captured_copy) (simp_all add: VMSTATE_FILE_def same_def captured_part_def)

lemma captured_docs: "same outside_docs w w' \<Longrightarrow> same (captured_part d) w w'"
  by (simp add: same_def outside_docs_def outside_def captured_part_def)

text \<open>The state file is the capture of this run, since the old one was removed.\<close>

lemma wait_result:
  "wait_for_vmstate_file f now deadline = Inr t \<Longrightarrow> \<exists>n. f t = Some (Suc n)"
proof (induction f now deadline rule: wait_for_vmstate_file.induct)
  case (1 f now deadline)
  show ?case
    using 1 by (subst (asm) (3) wait_for_vmstate_file.simps) (auto split: if_splits option.splits nat.splits)
qed

lemma await_success:
  assumes "await_state_file env p t w = (Inr x, w')" "map_of (sw_blobs w) p = None" "sw_pending w = Some state"
  shows "w' = (put_blob env p state w)\<lparr>sw_pending := None\<rparr>" "state \<noteq> []"
proof -
  obtain u where u: "wait_for_vmstate_file (\<lambda>t. map_option length (state_file_at env p w t)) 0 t = Inr u"
    using assms(1) by (auto simp: await_state_file_def split: sum.splits)
  obtain n where "map_option length (state_file_at env p w u) = Some (Suc n)" using wait_result [OF u] by blast
  then obtain s where s: "state_file_at env p w u = Some s" "length s = Suc n" by auto
  then have "s = state" using assms(2,3) by (auto simp: state_file_at_def split: option.splits if_splits)
  then show "w' = (put_blob env p state w)\<lparr>sw_pending := None\<rparr>" "state \<noteq> []"
    using assms(1) u s by (auto simp: await_state_file_def)
qed

lemma sidecars_success:
  assumes "capture_sidecars env ctx p d t w = (Inr b, w')"
    and "map_of (sw_blobs w) p = None" "sw_pending w = Some state"
  obtains tags where "captured_part d w' = (Some state, sw_docs w, sw_chain w, sw_vmm w)"
    "vmstate_section_tags (se_gunzip env) state = Inr tags" "state \<noteq> []"
    "cb_state b = d @ [VMSTATE_FILE]" "cb_sequence b = next_sequence_of w"
    "has_ram_delta (cb_flags b) \<longleftrightarrow> TAG_RAM_DELTA \<in> set tags"
    "has_rootdisk_delta (cb_flags b) \<longleftrightarrow> TAG_ROOTDISK_DELTA \<in> set tags"
proof -
  from assms(1) obtain w1 w2 w3 q flags disk overlay where
    await: "await_state_file env p t w = (Inr (), w1)"
    and copied: "copy_vmstate_state_into_bundle env p d w1 = (Inr q, w2)"
    and read: "read_vmstate_section_flags env q w2 = (Inr flags, w2)"
    and steps: "copy_vmstate_root_disk env ctx d (should_copy_rootdisk_delta_only (parent_dir_of w2) flags) w2 = (Inr disk, w3)"
      "reflink_mount_overlay env ctx d w3 = (Inr overlay, w')"
    and b: "b = \<lparr>cb_state = q, cb_flags = flags, cb_overlay = overlay, cb_sequence = next_sequence_of w2, cb_disk = disk\<rparr>"
    unfolding capture_sidecars_def
    by (auto elim!: bind_eff_SomeD simp: gets_eff_def return_eff_def read_vmstate_section_flags_def split: option.splits)
  note w1 = await_success [OF await assms(2,3)]
  have q: "q = d @ [VMSTATE_FILE]" and w2: "captured_part d w2 = (Some state, sw_docs w, sw_chain w, sw_vmm w)"
    using copied unfolding copy_vmstate_state_into_bundle_def
    by (auto elim!: bind_eff_SomeD copy_success simp: catch_eff_def return_eff_def throw_eff_def w1 captured_part_def
        split: prod.splits sum.splits)
  then have at: "map_of (sw_blobs w2) (d @ [VMSTATE_FILE]) = Some state" and chain: "sw_chain w2 = sw_chain w"
    by (simp_all add: captured_part_def)
  obtain tags where tags: "vmstate_section_tags (se_gunzip env) state = Inr tags"
    "flags = \<lparr>has_ram_delta = TAG_RAM_DELTA \<in> set tags, has_rootdisk_delta = TAG_ROOTDISK_DELTA \<in> set tags\<rparr>"
    using read by (auto simp: read_vmstate_section_flags_def q at vmstate_result_def split: sum.splits)
  have "captured_part d w' = captured_part d w2"
    using obeys_run [OF captured_disk steps(1)] obeys_run [OF captured_overlay steps(2)] by (simp add: same_def)
  then show thesis
    using w2 tags w1(2) q chain by (intro that [of tags]) (simp_all add: b next_sequence_of_def)
qed

lemma meta_checkpoint:
  assumes "build_vmstate_meta env ctx p d parent n flags disk w = (Inr v, w')"
  shows "vd_checkpoint v = Some (build_vmstate_checkpoint env ctx d parent n flags w)" "same outside_docs w w'"
proof -
  have chain: "build_vmstate_checkpoint env ctx d parent n flags u = build_vmstate_checkpoint env ctx d parent n flags w"
    if "same outside_docs w u" for u
    using that by (simp add: build_vmstate_checkpoint_def vmstate_chain_id_def same_def outside_docs_def)
  from assms obtain u1 u2 u3 u4 facts assets kern dtb where
    steps: "read_facts env p w = (Inr facts, u1)"
      "snapshot_boot_assets_identity env ctx (h_arch (f_header facts)) u1 = (Inr assets, u2)"
      "optional_file_identity env (sc_kernel ctx) u2 = (Inr kern, u3)"
      "optional_file_identity env (sc_dtb ctx) u3 = (Inr dtb, u4)"
    and v: "vd_checkpoint v = Some (build_vmstate_checkpoint env ctx d parent n flags u4)"
    unfolding build_vmstate_meta_def by (auto elim!: bind_eff_SomeD simp: gets_eff_def return_eff_def)
  have "same outside_docs w u4"
    using obeys_run [OF kept_facts steps(1)] obeys_run [OF kept_assets steps(2)]
      obeys_run [OF kept_optional steps(3)] obeys_run [OF kept_optional steps(4)]
    by (blast intro: kept.trans)
  then show "vd_checkpoint v = Some (build_vmstate_checkpoint env ctx d parent n flags w)" using v chain by simp
  show "same outside_docs w w'" by (rule obeys_run [OF kept_meta assms])
qed

lemma finish_success:
  assumes "finish_bundle env ctx d b w = (Inr (), w')"
  obtains doc v where "sw_blobs w' = sw_blobs w" "sw_vmm w' = sw_vmm w"
    "map_of (sw_docs w') (d @ [''meta.json'']) = Some (Some doc)" "sd_vmstate doc = Some v"
    "vd_checkpoint v = Some (build_vmstate_checkpoint env ctx d (parent_dir_of w) (cb_sequence b) (cb_flags b) w)"
    "sw_chain w' = map_option (\<lambda>c. c\<lparr>vc_parent_dir := Some (path_text d), vc_sequence := cb_sequence b\<rparr>) (sw_chain w)"
proof -
  from assms obtain u1 u2 u3 disk meta where
    disk: "finalize_vmstate_root_disk env (cb_disk b) w = (Inr disk, u1)"
    and meta: "build_vmstate_meta env ctx (cb_state b) d (parent_dir_of u1) (cb_sequence b) (cb_flags b) disk u1 = (Inr meta, u2)"
    and doc: "write_snapshot_meta env ctx d (cb_overlay b) Vmstate_engine (Some meta) u2 = (Inr (), u3)"
    and chain: "update_vmstate_chain env d (cb_sequence b) u3 = (Inr (), w')"
    unfolding finish_bundle_def by (auto elim!: bind_eff_SomeD simp: gets_eff_def)
  have w1: "same outside_docs w u1" by (rule obeys_run [OF kept_finalize disk])
  note m = meta_checkpoint [OF meta]
  have same2: "same outside_docs w u2" using w1 m(2) by (rule kept.trans)
  have "build_vmstate_checkpoint env ctx d (parent_dir_of u1) n flags u1 =
      build_vmstate_checkpoint env ctx d (parent_dir_of w) n flags w" for n flags
    using w1 by (simp add: build_vmstate_checkpoint_def vmstate_chain_id_def parent_dir_of_def same_def outside_docs_def)
  then show thesis
    using same2 m(1) doc chain
    by (intro that [of "snapshot_document_of env ctx (cb_overlay b) Vmstate_engine (Some meta)" meta])
      (auto simp: write_snapshot_meta_def Let_def update_vmstate_chain_def same_def outside_docs_def outside_def
        snapshot_document_of_def split: if_splits option.splits)
qed

lemma snapshot_success:
  assumes "perform_snapshot_vmstate env ctx opts w = (Inr d, w')" "truthy (sc_vmstate_path ctx) = Some p"
    and "se_can_write env (resolve [] p)"
  obtains doc v tags flags where "d = resolve (se_cwd env) (so_out_dir opts)"
    "\<And>q. under d q \<Longrightarrow> map_of (sw_blobs w) q = None \<and> map_of (sw_docs w) q = None"
    "map_of (sw_blobs w') (d @ [VMSTATE_FILE]) = Some (fst (se_dump env (sw_vmm w)))"
    "vmstate_section_tags (se_gunzip env) (fst (se_dump env (sw_vmm w))) = Inr tags"
    "map_of (sw_docs w') (d @ [''meta.json'']) = Some (Some doc)" "sd_vmstate doc = Some v"
    "vd_checkpoint v = Some (build_vmstate_checkpoint env ctx d (parent_dir_of w) (next_sequence_of w) flags w)"
    "has_ram_delta flags \<longleftrightarrow> TAG_RAM_DELTA \<in> set tags"
    "has_rootdisk_delta flags \<longleftrightarrow> TAG_ROOTDISK_DELTA \<in> set tags"
    "sw_chain w' = map_option (\<lambda>c. c\<lparr>vc_parent_dir := Some (path_text d), vc_sequence := next_sequence_of w\<rparr>) (sw_chain w)"
    "sw_vmm w' = snd (se_dump env (sw_vmm w))"
proof -
  let ?p = "resolve [] p" and ?state = "fst (se_dump env (sw_vmm w))"
  from assms(1,2) obtain v1 v2 v3 mode b v5 where
    prepared: "prepare_bundle_root_dir env (so_out_dir opts) w = (Inr d, v1)"
    and cleared: "clear_vmstate_state_file env ?p v1 = (Inr (), v2)"
    and synced: "sync_guest_for_vmstate_snapshot env ctx v2 = (Inr mode, v3)"
    and pause: "with_paused_vmstate_source env ctx (capture_sidecars env ctx ?p d (deadline_of opts)) v3 = (Inr b, v5)"
    and finish: "finish_bundle env ctx d b v5 = (Inr (), w')"
    unfolding perform_snapshot_vmstate_def capture_vmstate_snapshot_bundle_def
    by (auto elim!: bind_eff_SomeD simp: return_eff_def)
  obtain ds where v1: "v1 = w\<lparr>sw_dirs := ds\<rparr>" using prepare_success(2) [OF prepared] by blast
  have v2: "map_of (sw_blobs v2) ?p = None" "sw_docs v2 = sw_docs w" "sw_chain v2 = sw_chain w" "sw_vmm v2 = sw_vmm w"
    using cleared assms(3) by (auto simp: clear_vmstate_state_file_def modify_eff_def v1 map_of_filter_key)
  have "same (\<lambda>w. (sw_blobs w, sw_docs w, sw_chain w, sw_vmm w)) v2 v3"
    using synced unfolding sync_guest_for_vmstate_snapshot_def try_direct_vmstate_sync_def note_event_def
    by (auto simp: same_def effect_defs split: if_splits)
  then have v3: "map_of (sw_blobs v3) ?p = None" "sw_docs v3 = sw_docs w" "sw_chain v3 = sw_chain w" "sw_vmm v3 = sw_vmm w"
    using v2 by (simp_all add: same_def)
  show thesis
    using logs_sidecars [of env ctx ?p d "deadline_of opts"]
  proof (cases rule: pause_cases [where env = env and ctx = ctx and w = v3])
    case (unsignalled e)
    then show thesis using pause by simp
  next
    case (signalled r v mid u)
    then have run: "capture_sidecars env ctx ?p d (deadline_of opts) v = (Inr b, u)" and v5: "v5 = resume_vmstate_source ctx u"
      using pause by simp_all
    have pending: "sw_pending v = Some ?state" using signalled(9) v3 by simp
    have cleared': "map_of (sw_blobs v) ?p = None" using signalled(4) v3 by simp
    obtain tags where part: "captured_part d u = (Some ?state, sw_docs v, sw_chain v, sw_vmm v)"
      and tags: "vmstate_section_tags (se_gunzip env) ?state = Inr tags"
      and "?state \<noteq> []" "cb_state b = d @ [VMSTATE_FILE]"
      and b: "cb_sequence b = next_sequence_of v"
      and flags: "has_ram_delta (cb_flags b) \<longleftrightarrow> TAG_RAM_DELTA \<in> set tags"
        "has_rootdisk_delta (cb_flags b) \<longleftrightarrow> TAG_ROOTDISK_DELTA \<in> set tags"
      by (rule sidecars_success [OF run cleared' pending])
    have u: "map_of (sw_blobs v5) (d @ [VMSTATE_FILE]) = Some ?state" "sw_chain v5 = sw_chain w"
        "sw_vmm v5 = snd (se_dump env (sw_vmm w))"
      using part v3 signalled(5-8) by (auto simp: captured_part_def v5 resume_vmstate_source_def)
    have chain: "build_vmstate_checkpoint env ctx d parent n flags v5 = build_vmstate_checkpoint env ctx d parent n flags w"
        "parent_dir_of v5 = parent_dir_of w" "next_sequence_of v = next_sequence_of w" for parent n flags
      using u(2) v3(3) signalled(7)
      by (simp_all add: build_vmstate_checkpoint_def vmstate_chain_id_def parent_dir_of_def next_sequence_of_def)
    from finish show thesis
    proof (rule finish_success)
      fix doc x
      assume done_: "sw_blobs w' = sw_blobs v5" "sw_vmm w' = sw_vmm v5"
        "map_of (sw_docs w') (d @ [''meta.json'']) = Some (Some doc)" "sd_vmstate doc = Some x"
        "vd_checkpoint x = Some (build_vmstate_checkpoint env ctx d (parent_dir_of v5) (cb_sequence b) (cb_flags b) v5)"
        "sw_chain w' = map_option (\<lambda>c. c\<lparr>vc_parent_dir := Some (path_text d), vc_sequence := cb_sequence b\<rparr>) (sw_chain v5)"
      show thesis
        by (rule that [of tags doc x "cb_flags b"])
          (use done_ u tags b flags chain prepare_success(1,3) [OF prepared] in simp_all)
    qed
  qed
qed

text \<open>C6: A snapshot that succeeds leaves in its new directory exactly the state that the machine captured,
  and a document that puts it on top of the previous checkpoint: next number, parent relative to
  the directory, the shapes of its sections. The next checkpoint will be put on top of this one.\<close>

theorem snapshot_records_the_capture:
  assumes "perform_snapshot_vmstate env ctx opts w = (Inr d, w')" "truthy (sc_vmstate_path ctx) = Some p"
    and "se_can_write env (resolve [] p)" "sw_chain w = Some c"
  shows "\<exists>tags doc v.
    d = resolve (se_cwd env) (so_out_dir opts) \<and> (\<forall>q. under d q \<longrightarrow> map_of (sw_blobs w) q = None \<and> map_of (sw_docs w) q = None) \<and>
    vmstate_section_tags (se_gunzip env) (fst (se_dump env (sw_vmm w))) = Inr tags \<and>
    map_of (sw_blobs w') (d @ [VMSTATE_FILE]) = Some (fst (se_dump env (sw_vmm w))) \<and>
    map_of (sw_docs w') (d @ [''meta.json'']) = Some (Some doc) \<and> sd_vmstate doc = Some v \<and>
    vd_checkpoint v = Some
      \<lparr>cd_chain_id = vc_chain_id c, cd_sequence = vc_sequence c + 1,
       cd_parent = relative_checkpoint_parent (se_cwd env) (path_text d) (vc_parent_dir c),
       cd_ram = (if TAG_RAM_DELTA \<in> set tags then Delta_section else Full_section),
       cd_root_disk = (if sc_root_disk_mode ctx = Some None_mode then No_section
         else if TAG_ROOTDISK_DELTA \<in> set tags then Delta_section else Full_section)\<rparr> \<and>
    sw_chain w' = Some (c\<lparr>vc_parent_dir := Some (path_text d), vc_sequence := vc_sequence c + 1\<rparr>)"
  using snapshot_success [OF assms(1-3)]
proof cases
  case (1 doc v tags flags)
  show ?thesis
    by (rule exI [of _ tags], rule exI [of _ doc], rule exI [of _ v])
      (use 1 assms(4) in \<open>simp add: build_vmstate_checkpoint_def vmstate_chain_id_def parent_dir_of_def next_sequence_of_def
        checkpoint_root_disk_mode_def\<close>)
qed

section \<open>The overlay\<close>

lemma overlay_log:
  assumes "reflink_mount_overlay env ctx d w = (Inr ov', w')" "sc_mount_disk ctx = Some ov"
  shows "sw_log w' = sw_log w @ [Guest_command OVERLAY_SYNC,
    Copied (resolve [] (ov_lower ov)) (d @ [''mount-lower.sqfs'']),
    Copied (resolve [] (ov_upper ov)) (d @ [''mount-upper.img''])]"
  using assms
  by (auto simp: reflink_mount_overlay_def note_event_def catch_eff_def return_eff_def throw_eff_def modify_eff_def
      elim!: bind_eff_SomeD copy_success split: prod.splits sum.splits)

text \<open>When the machine has a mount overlay, its files are copied while it is paused - and between
  the two signals the guest is also sent a command, which it can only answer after the second.\<close>

theorem overlay_sync_meets_a_paused_guest:
  assumes "perform_snapshot_vmstate env ctx opts w = (Inr d, w')" "sc_mount_disk ctx = Some ov"
  shows "\<exists>before mid.
    sw_log w' = sw_log w @ before @ Signalled (sc_pid ctx) ''SIGUSR1'' # mid @ [Guest_command OVERLAY_SYNC,
      Copied (resolve [] (ov_lower ov)) (d @ [''mount-lower.sqfs'']),
      Copied (resolve [] (ov_upper ov)) (d @ [''mount-upper.img'']), Signalled (sc_pid ctx) ''SIGUSR2'']"
proof -
  obtain p where p: "truthy (sc_vmstate_path ctx) = Some p"
    using assms(1) by (cases "truthy (sc_vmstate_path ctx)") (auto simp: perform_snapshot_vmstate_def throw_eff_def)
  let ?p = "resolve [] p"
  from assms(1) p obtain v1 v2 v3 mode b v5 where
    prepared: "prepare_bundle_root_dir env (so_out_dir opts) w = (Inr d, v1)"
    and cleared: "clear_vmstate_state_file env ?p v1 = (Inr (), v2)"
    and synced: "sync_guest_for_vmstate_snapshot env ctx v2 = (Inr mode, v3)"
    and pause: "with_paused_vmstate_source env ctx (capture_sidecars env ctx ?p d (deadline_of opts)) v3 = (Inr b, v5)"
    and finish: "finish_bundle env ctx d b v5 = (Inr (), w')"
    unfolding perform_snapshot_vmstate_def capture_vmstate_snapshot_bundle_def
    by (auto elim!: bind_eff_SomeD simp: return_eff_def)
  have "logs_more w v3"
    using obeys_run [OF logs_prepare prepared] obeys_run [OF logs_clear cleared] obeys_run [OF logs_sync synced]
    by (blast intro: logged.trans)
  then obtain before where before: "sw_log v3 = sw_log w @ before" by (auto simp: logs_more_def)
  show ?thesis
    using logs_sidecars [of env ctx ?p d "deadline_of opts"]
  proof (cases rule: pause_cases [where env = env and ctx = ctx and w = v3])
    case (unsignalled e)
    then show ?thesis using pause by simp
  next
    case (signalled r v mid u)
    let ?first = "bind_eff (await_state_file env ?p (deadline_of opts)) (\<lambda>_.
      bind_eff (copy_vmstate_state_into_bundle env ?p d) (\<lambda>q.
      bind_eff (gets_eff next_sequence_of) (\<lambda>n.
      bind_eff (read_vmstate_section_flags env q) (\<lambda>flags.
      bind_eff (gets_eff parent_dir_of) (\<lambda>parent_dir.
      bind_eff (copy_vmstate_root_disk env ctx d (should_copy_rootdisk_delta_only parent_dir flags)) (\<lambda>disk.
        return_eff (q, flags, n, disk)))))))"
    have logs: "obeys logs_more ?first"
      by (intro logged.rules logs_await logs_copy_state logs_flags logs_disk)
    have "capture_sidecars env ctx ?p d (deadline_of opts) v = (Inr b, u)" using signalled(1,2) pause by simp
    moreover have "capture_sidecars env ctx ?p d (deadline_of opts) v =
        bind_eff ?first (\<lambda>(q, flags, n, disk). bind_eff (reflink_mount_overlay env ctx d) (\<lambda>overlay.
          return_eff \<lparr>cb_state = q, cb_flags = flags, cb_overlay = overlay, cb_sequence = n, cb_disk = disk\<rparr>)) v"
      by (simp add: capture_sidecars_def bind_eff_def return_eff_def split: prod.split sum.split)
    ultimately obtain x s where first: "?first v = (Inr x, s)"
      and last: "bind_eff (reflink_mount_overlay env ctx d) (\<lambda>overlay. return_eff
        \<lparr>cb_state = fst x, cb_flags = fst (snd x), cb_overlay = overlay, cb_sequence = fst (snd (snd x)),
         cb_disk = snd (snd (snd x))\<rparr>) s = (Inr b, u)"
      by (auto elim!: bind_eff_SomeD [of ?first] simp: case_prod_beta)
    obtain inner where inner: "sw_log s = sw_log v @ inner"
      using obeys_run [OF logs first] by (auto simp: logs_more_def)
    obtain ov' where "reflink_mount_overlay env ctx d s = (Inr ov', u)"
      using last by (auto elim!: bind_eff_SomeD simp: return_eff_def)
    note log = overlay_log [OF this assms(2)]
    have "sw_log w' = sw_log (resume_vmstate_source ctx u)"
      using finish_logs [OF finish] signalled(1) pause by simp
    then show ?thesis
      using log inner before signalled(3)
      by (intro exI [of _ before] exI [of _ inner]) (simp add: usr1_def usr2_def)
  qed
qed

section \<open>The CRIU engine\<close>

definition stays_up :: "'v snap_world \<Rightarrow> 'v snap_world \<Rightarrow> bool" where
  "stays_up w w' \<longleftrightarrow> (\<exists>es. sw_log w' = sw_log w @ es \<and> Poweroff_awaited \<notin> set es)"

interpretation up: step_relation "stays_up :: 'v snap_world \<Rightarrow> 'v snap_world \<Rightarrow> bool"
  by unfold_locales (auto simp: stays_up_def)

lemma up_same: "sw_log w' = sw_log w \<Longrightarrow> stays_up w w'"
  by (simp add: stays_up_def)

lemma up_copy: "obeys stays_up (copy_file env src dst)"
  by (rule obeysI) (auto simp: copy_file_def stays_up_def split: option.split)

lemma up_note: "e \<noteq> Poweroff_awaited \<Longrightarrow> obeys stays_up (note_event e)"
  unfolding note_event_def by (rule up.modify_rule) (simp add: stays_up_def)

lemma up_make_dir: "obeys stays_up (make_dir env p)"
  by (rule obeysI) (simp add: make_dir_def up_same)

lemma up_prepare: "obeys stays_up (prepare_bundle_dir env out)"
  unfolding prepare_bundle_dir_def
proof (intro up.rules up_make_dir)
  show "obeys stays_up (prepare_bundle_root_dir env out)"
    by (rule obeysI)
      (simp add: prepare_bundle_root_dir_def Let_def up_same bind_eff_def return_eff_def make_dir_def)
qed

lemma up_overlay: "obeys stays_up (reflink_mount_overlay env ctx d)"
  unfolding reflink_mount_overlay_def by (intro up.rules up_copy up_note) simp

lemma up_write: "obeys stays_up (write_snapshot_meta env ctx d ov engine vmstate)"
  by (rule obeysI) (simp add: write_snapshot_meta_def Let_def up_same)

text \<open>The CRIU engine takes the source down only after a dump that was complete: it ended in time with
  status 0, and its archive was unpacked and holds the image of a task.\<close>

theorem criu_spares_the_source:
  assumes "Poweroff_awaited \<in> set (drop (length (sw_log w)) (sw_log (snd (perform_snapshot_criu env ctx opts w))))"
  shows "\<not> so_leave_running opts \<and> \<not> dr_timed_out (se_criu env) \<and> dr_exit (se_criu env) = Some 0 \<and>
    dr_tar_code (se_criu env) = Some 0 \<and> list_ex is_core_image (map fst (se_images env))"
proof (rule ccontr)
  assume incomplete: "\<not> ?thesis"
  let ?valid = "validate_dump_result (se_criu env) (map fst (se_images env))"
  have off: "?valid = Inr x \<Longrightarrow> so_leave_running opts" for x
    using incomplete by (auto simp: validate_dump_result_def split: if_splits)
  have tail: "obeys stays_up (bind_eff (lift_eff ?valid) (\<lambda>_. bind_eff (reflink_mount_overlay env ctx d) (\<lambda>overlay.
      bind_eff (when_eff (\<not> so_leave_running opts) power_off_source_vm) (\<lambda>_.
      bind_eff (write_snapshot_meta env ctx d overlay Criu_engine None) (\<lambda>_. return_eff d)))))" for d
  proof (cases ?valid)
    case (Inl e)
    then show ?thesis by (simp add: obeys_def bind_run_effects up_same)
  next
    case (Inr x)
    then have "when_eff (\<not> so_leave_running opts) power_off_source_vm = (return_eff () :: ('a, unit) snap)"
      using off by (simp add: when_eff_def)
    then show ?thesis by (simp only:) (intro up.rules up_overlay up_write)
  qed
  have images: "sw_log (fold (\<lambda>(name, bs). put_blob env (d @ [name]) bs) ims u) = sw_log u" for d ims u
    by (induction ims arbitrary: u) auto
  have dump: "bind_eff (run_dump_and_extract_tar env (dump_command opts) i) f =
      bind_eff (note_event (Guest_command (dump_command opts))) (\<lambda>_.
      bind_eff (modify_eff (\<lambda>w. fold (\<lambda>(name, bs). put_blob env (i @ [name]) bs) (se_images env) w)) (\<lambda>_.
        f (se_criu env, map fst (se_images env))))" for i and f :: "dump_result \<times> string list \<Rightarrow> ('a, path) snap"
    by (rule ext) (simp add: run_dump_and_extract_tar_def note_event_def effect_defs)
  have "obeys stays_up (perform_snapshot_criu env ctx opts)"
    unfolding perform_snapshot_criu_def dump prod.case
    by (intro up.split_pair up.bind_rule up.modify_rule up_prepare up_note up_same images tail)
      (auto intro!: up.bind_rule up.modify_rule up_prepare up_note up_same images tail)
  then have "stays_up w (snd (perform_snapshot_criu env ctx opts w))" by (simp add: obeys_def)
  then show False using assms by (auto simp: stays_up_def)
qed

end
