(* ===== verification/Snapshot_Total.thy ===== *)
theory Snapshot_Total
  imports Snapshot_Laws
begin

text \<open>
  When a snapshot succeeds: the files that it records are there, the host answers, and the state of the
  machine arrives before the deadline. Every step delivers, by the rules for total correctness of
  \<^verbatim>\<open>Effects\<close>.
\<close>

section \<open>Files\<close>

lemma path_text_nonempty: "path_text d = [] \<Longrightarrow> P"
  by (simp add: path_text_def)

lemma resolve_path_text: "canonical d \<Longrightarrow> resolve cwd (path_text d) = d"
  using segments_path_text [of d]
  by (simp add: resolve_def path_text_def is_absolute_def starts_with_def walk_ok canonical_def)

definition has_files :: "path set \<Rightarrow> 'v snap_world \<Rightarrow> bool" where
  "has_files F w \<longleftrightarrow> (\<forall>q \<in> F. map_of (sw_blobs w) q \<noteq> None)"

lemma has_files_put [simp]: "has_files F w \<Longrightarrow> has_files F (put_blob env p bs w)"
  by (auto simp: has_files_def)

lemma has_files_blobs: "sw_blobs w' = sw_blobs w \<Longrightarrow> has_files F w' \<longleftrightarrow> has_files F w"
  by (simp add: has_files_def)

lemma host_has: "has_files F w \<Longrightarrow> resolve [] s \<in> F \<Longrightarrow> \<exists>f. host_of w s = Some f"
  by (auto simp: has_files_def host_of_def Let_def split: prod.split)

text \<open>The state file is in the bundle.\<close>

definition bundled :: "path set \<Rightarrow> path \<Rightarrow> bytes \<Rightarrow> 'v snap_world \<Rightarrow> bool" where
  "bundled F d state w \<longleftrightarrow> has_files F w \<and> map_of (sw_blobs w) (d @ [VMSTATE_FILE]) = Some state"

lemma bundled_outside: "same outside_docs w w' \<Longrightarrow> bundled F d state w' \<longleftrightarrow> bundled F d state w"
  by (simp add: same_def outside_docs_def outside_def bundled_def has_files_def)

lemma copy_delivers:
  assumes "\<And>q. se_can_write env q" "src \<in> F" "x \<noteq> VMSTATE_FILE"
  shows "delivers (bundled F d state) (copy_file env src (d @ [x])) (\<lambda>_. bundled (insert (d @ [x]) F) d state)"
  using assms by (intro deliversI) (auto simp: bundled_def has_files_def copy_file_def split: option.split)

section \<open>While the machine is paused\<close>

lemma wait_finds:
  assumes arrives: "\<And>t. a \<le> t \<Longrightarrow> \<exists>n. f t = Some (Suc n)" and "a + 10 \<le> deadline"
  shows "now < a + 10 \<Longrightarrow> \<exists>t. wait_for_vmstate_file f now deadline = Inr t"
proof (induction "deadline - now" arbitrary: now rule: less_induct)
  case less
  show ?case
  proof (cases "\<exists>n. f now = Some (Suc n)")
    case True
    then show ?thesis using less.prems assms(2) by (subst wait_for_vmstate_file.simps) auto
  next
    case False
    then have "now < a" using arrives not_le by blast
    then have "\<exists>t. wait_for_vmstate_file f (now + 10) deadline = Inr t"
      using assms(2) by (intro less.hyps) auto
    moreover have "wait_for_vmstate_file f now deadline = wait_for_vmstate_file f (now + 10) deadline"
      using False \<open>now < a\<close> assms(2)
      by (subst wait_for_vmstate_file.simps) (auto split: option.split nat.split)
    ultimately show ?thesis by simp
  qed
qed

definition signalled :: "path set \<Rightarrow> path \<Rightarrow> bytes \<Rightarrow> 'v snap_world \<Rightarrow> bool" where
  "signalled F p state w \<longleftrightarrow> has_files (F - {p}) w \<and> map_of (sw_blobs w) p = None \<and> sw_pending w = Some state"

lemma await_delivers:
  fixes env :: "'v snap_env"
  assumes "se_dump_after env = Some a" "a + 10 \<le> deadline_ms" "state \<noteq> []"
  shows "delivers (signalled F p state) (await_state_file env p deadline_ms)
    (\<lambda>_ w. has_files F w \<and> map_of (sw_blobs w) p = Some state)"
proof (rule deliversI)
  fix w :: "'v snap_world" assume w: "signalled F p state w"
  let ?at = "\<lambda>t. map_option length (state_file_at env p w t)"
  have at: "state_file_at env p w t = (if a \<le> t then Some state else None)" for t
    using w assms(1) by (simp add: signalled_def state_file_at_def)
  then have arrives: "\<exists>n. ?at t = Some (Suc n)" if "a \<le> t" for t
    using that assms(3) by (cases state) simp_all
  have "\<exists>t. wait_for_vmstate_file ?at 0 deadline_ms = Inr t"
    by (rule wait_finds [of a]) (use arrives assms(2) in simp_all)
  then obtain t where t: "wait_for_vmstate_file ?at 0 deadline_ms = Inr t" ..
  have "a \<le> t" using wait_result [OF t] at by (auto split: if_splits)
  then show "\<exists>x w'. await_state_file env p deadline_ms w = (Inr x, w') \<and> has_files F w' \<and> map_of (sw_blobs w') p = Some state"
    using t w at by (auto simp: await_state_file_def signalled_def has_files_def)
qed

lemma copy_state_delivers:
  assumes "\<And>q. se_can_write env q"
  shows "delivers (\<lambda>w. has_files F w \<and> map_of (sw_blobs w) p = Some state) (copy_vmstate_state_into_bundle env p d)
    (\<lambda>q w. q = d @ [VMSTATE_FILE] \<and> bundled F d state w)"
  unfolding copy_vmstate_state_into_bundle_def
  by (rule delivers_bind [OF delivers_catch [of _ _ "\<lambda>_. bundled F d state"] delivers_return])
    (use assms in \<open>auto intro!: deliversI simp: copy_file_def bundled_def has_files_def\<close>)

text \<open>The files that a root disk needs, before and after it is copied\<close>

definition disk_files :: "snapshot_context \<Rightarrow> path set" where
  "disk_files ctx =
     (if sc_root_disk_mode ctx = Some None_mode then {}
      else case truthy (sc_root_disk_path ctx) of None \<Rightarrow> {} | Some disk \<Rightarrow> {resolve [] disk})"

fun pending_files :: "pending_disk \<Rightarrow> path set" where
  "pending_files (Pending_block f disk bundle) = {resolve [] disk, bundle}"
| "pending_files Pending_delta = {}"
| "pending_files Pending_none = {}"

definition pending_ok :: "path \<Rightarrow> pending_disk \<Rightarrow> bool" where
  "pending_ok d pd \<longleftrightarrow> (case pd of Pending_block f disk bundle \<Rightarrow> bundle = d @ [VMSTATE_ROOTDISK_FILE] | _ \<Rightarrow> True)"

lemma disk_delivers:
  assumes "\<And>q. se_can_write env q" "disk_files ctx \<subseteq> F"
    and "sc_root_disk_mode ctx = Some None_mode \<or> truthy (sc_root_disk_path ctx) \<noteq> None"
  shows "delivers (bundled F d state) (copy_vmstate_root_disk env ctx d delta_only)
    (\<lambda>pd w. pending_ok d pd \<and> bundled (F \<union> pending_files pd) d state w)"
proof (cases "sc_root_disk_mode ctx = Some None_mode \<or> delta_only")
  case True
  then show ?thesis
    using assms(3) by (auto simp: copy_vmstate_root_disk_def pending_ok_def intro!: delivers_return split: option.split)
next
  case False
  then obtain disk where disk: "truthy (sc_root_disk_path ctx) = Some disk" "resolve [] disk \<in> F"
    using assms(2,3) by (auto simp: disk_files_def split: option.splits)
  let ?dest = "d @ [VMSTATE_ROOTDISK_FILE]"
  have "delivers (bundled F d state) (copy_file env (resolve [] disk) ?dest) (\<lambda>_. bundled (insert ?dest F) d state)"
    using assms(1) disk(2) by (rule copy_delivers) (simp add: VMSTATE_ROOTDISK_FILE_def VMSTATE_FILE_def)
  then have "delivers (bundled F d state)
      (bind_eff (catch_eff (copy_file env (resolve [] disk) ?dest) (\<lambda>_. throw_eff (Snapshot_error Dump_failed)))
        (\<lambda>_. return_eff (Pending_block VMSTATE_ROOTDISK_FILE disk ?dest)))
      (\<lambda>pd w. pending_ok d pd \<and> bundled (F \<union> pending_files pd) d state w)"
    by (rule delivers_bind [OF delivers_catch delivers_return])
      (use disk(2) in \<open>simp add: pending_ok_def bundled_def has_files_def\<close>)
  then show ?thesis using False disk(1) by (simp add: copy_vmstate_root_disk_def Let_def)
qed

definition overlay_paths :: "snapshot_context \<Rightarrow> path set" where
  "overlay_paths ctx =
     (case sc_mount_disk ctx of None \<Rightarrow> {} | Some ov \<Rightarrow> {resolve [] (ov_lower ov), resolve [] (ov_upper ov)})"

lemma note_delivers: "delivers (bundled F d state) (note_event e) (\<lambda>_. bundled F d state)"
  unfolding note_event_def by (rule delivers_modify) (simp add: bundled_def has_files_def)

lemma overlay_delivers:
  assumes "\<And>q. se_can_write env q" "overlay_paths ctx \<subseteq> F"
  shows "delivers (bundled F d state) (reflink_mount_overlay env ctx d) (\<lambda>_. bundled F d state)"
proof (cases "sc_mount_disk ctx")
  case None
  then show ?thesis by (simp add: reflink_mount_overlay_def delivers_return)
next
  case (Some ov)
  have copy: "delivers (bundled F d state) (copy_file env src (d @ [x])) (\<lambda>_. bundled F d state)"
    if "src \<in> F" "x \<noteq> VMSTATE_FILE" for src x
    using assms(1) that by (auto intro!: deliversI simp: bundled_def has_files_def copy_file_def split: option.split)
  have "delivers (bundled F d state)
      (bind_eff (copy_file env (resolve [] (ov_lower ov)) (d @ [''mount-lower.sqfs''])) (\<lambda>_.
        copy_file env (resolve [] (ov_upper ov)) (d @ [''mount-upper.img'']))) (\<lambda>_. bundled F d state)"
    by (rule delivers_bind [OF copy copy]) (use assms(2) Some in \<open>simp_all add: overlay_paths_def VMSTATE_FILE_def\<close>)
  then show ?thesis
    unfolding reflink_mount_overlay_def Some option.case
    by (intro delivers_bind [OF note_delivers] delivers_bind [OF delivers_catch delivers_return]) simp_all
qed

section \<open>While the bundle is finished\<close>

lemma kept_delivers:
  fixes m :: "('v snap_world, 'e, 'a) effect"
  assumes "obeys (same outside_docs) m" "\<And>w. bundled F d state w \<Longrightarrow> \<exists>x w'. m w = (Inr x, w') \<and> Q x"
  shows "delivers (bundled F d state) m (\<lambda>x w. Q x \<and> bundled F d state w)"
proof (rule deliversI)
  fix w :: "'v snap_world" assume w: "bundled F d state w"
  with assms(2) obtain x w' where m: "m w = (Inr x, w')" "Q x" by blast
  then show "\<exists>x w'. m w = (Inr x, w') \<and> Q x \<and> bundled F d state w'"
    using w bundled_outside [OF obeys_run [OF assms(1) m(1)]] by blast
qed

lemma bundled_host: "bundled F d state w \<Longrightarrow> resolve [] s \<in> F \<Longrightarrow> \<exists>f. host_of w s = Some f"
  unfolding bundled_def by (blast intro: host_has)

lemma identity_delivers:
  assumes "resolve [] s \<in> F"
  shows "delivers (bundled F d state) (identity_of env s) (\<lambda>ident w. id_path ident = Some s \<and> bundled F d state w)"
  by (rule kept_delivers [OF kept_identity])
    (use bundled_host [OF _ assms] in \<open>force simp: identity_of_def file_identity_def stat_file_def io_result_def\<close>)

lemma identity_done: "resolve [] s \<in> F \<Longrightarrow> delivers (bundled F d state) (identity_of env s) (\<lambda>_. bundled F d state)"
  by (rule delivers_post [OF identity_delivers]) simp_all

lemma managed_delivers:
  assumes "resolve [] disk \<in> F" "resolve [] (path_text b) \<in> F"
  shows "delivers (bundled F d state) (managed_disk_identity env disk b)
    (\<lambda>v w. (\<forall>r. v = Some r \<longrightarrow> id_path r = Some (path_text b)) \<and> bundled F d state w)"
  by (rule kept_delivers [OF kept_managed])
    (use bundled_host [OF _ assms(1)] bundled_host [OF _ assms(2)] in
      \<open>force simp: managed_disk_identity_def trusted_managed_def stat_file_def Let_def split: option.split\<close>)

lemma trusted_delivers:
  assumes "resolve [] disk \<in> F" "resolve [] (path_text b) \<in> F"
  shows "delivers (bundled F d state) (trusted_disk_identity env disk b)
    (\<lambda>v w. (\<forall>r. v = Some r \<longrightarrow> id_path r = Some (path_text b)) \<and> bundled F d state w)"
  by (rule kept_delivers [OF kept_trusted])
    (use bundled_host [OF _ assms(1)] bundled_host [OF _ assms(2)] in
      \<open>force simp: trusted_disk_identity_def trusted_identity_def identity_stamp_of_def stat_file_def split: option.split\<close>)

lemma remember_delivers:
  assumes "resolve [] s \<in> F" "id_path ident = Some s"
  shows "delivers (bundled F d state) (remember_identity env ident) (\<lambda>_ w. True \<and> bundled F d state w)"
  by (rule kept_delivers [OF kept_remember])
    (use bundled_host [OF _ assms(1)] assms(2) in
      \<open>force simp: remember_identity_def remember_trusted_def identity_stamp_of_def stat_file_def\<close>)

lemma or_else_delivers:
  assumes "delivers P m (\<lambda>v w. (\<forall>r. v = Some r \<longrightarrow> Q r) \<and> P w)" "delivers P n (\<lambda>r w. Q r \<and> P w)"
  shows "delivers P (or_else_eff m n) (\<lambda>r w. Q r \<and> P w)"
  unfolding or_else_eff_def
proof (rule delivers_bind [OF assms(1)])
  show "delivers (\<lambda>w. (\<forall>r. x = Some r \<longrightarrow> Q r) \<and> P w) (case x of None \<Rightarrow> n | Some r \<Rightarrow> return_eff r) (\<lambda>r w. Q r \<and> P w)" for x
    by (cases x) (auto intro: delivers_return delivers_pre [OF assms(2)])
qed

lemma finalize_delivers:
  assumes "pending_ok d pd" "canonical d" "pending_files pd \<subseteq> F"
  shows "delivers (bundled F d state) (finalize_vmstate_root_disk env pd) (\<lambda>_. bundled F d state)"
proof (cases pd)
  case (Pending_block f disk b)
  let ?P = "bundled F d state" and ?Q = "\<lambda>ident. id_path ident = Some (path_text b)"
  have b: "canonical b" using assms(1,2) by (simp add: Pending_block pending_ok_def canonical_def segment_ok_def
    VMSTATE_ROOTDISK_FILE_def)
  then have files: "resolve [] disk \<in> F" "resolve [] (path_text b) \<in> F"
    using assms(3) by (simp_all add: Pending_block resolve_path_text)
  have rest: "delivers (\<lambda>w. ?Q ident \<and> ?P w) (bind_eff (remember_identity env ident) (\<lambda>_.
      return_eff (Disk_block f (ident\<lparr>id_path := Some disk\<rparr>)))) (\<lambda>_. ?P)" for ident
  proof (cases "?Q ident")
    case True
    then show ?thesis
      by (auto intro!: delivers_bind [OF delivers_pre [OF remember_delivers [OF files(2)]] delivers_return])
  qed (simp add: delivers_false)
  show ?thesis
    unfolding finalize_vmstate_root_disk_def Pending_block pending_disk.case
    by (rule delivers_bind [OF or_else_delivers [OF managed_delivers [OF files]
      or_else_delivers [OF trusted_delivers [OF files] identity_delivers [OF files(2)]]] rest])
qed (simp_all add: finalize_vmstate_root_disk_def delivers_return)

definition named_files :: "snapshot_context \<Rightarrow> path set" where
  "named_files ctx =
     {resolve [] s | s. truthy (sc_source_image ctx) = Some s \<or> truthy (sc_kernel ctx) = Some s \<or> truthy (sc_dtb ctx) = Some s}"

lemma truthy_truthy [simp]: "truthy (truthy v) = truthy v"
  by (simp add: truthy_def)

lemma optional_delivers:
  assumes "\<And>s. truthy v = Some s \<Longrightarrow> resolve [] s \<in> F"
  shows "delivers (bundled F d state) (optional_file_identity env v) (\<lambda>_. bundled F d state)"
proof (cases "truthy v")
  case None
  then show ?thesis by (simp add: optional_file_identity_def delivers_return)
next
  case (Some s)
  then have "resolve [] s \<in> F" by (rule assms)
  then have "delivers (bundled F d state) (bind_eff (identity_of env s) (\<lambda>ident. return_eff (Some ident))) (\<lambda>_. bundled F d state)"
    by (rule delivers_bind [OF identity_done delivers_return])
  then show ?thesis using Some by (simp add: optional_file_identity_def)
qed

lemma assets_delivers:
  assumes "named_files ctx \<subseteq> F" "truthy (sc_source_image ctx) \<noteq> None" "truthy (sc_kernel ctx) \<noteq> None"
    and "truthy (sc_dtb ctx) \<noteq> None"
  shows "delivers (bundled F d state) (snapshot_boot_assets_identity env ctx guest) (\<lambda>_. bundled F d state)"
proof -
  obtain image kern dtb where paths: "truthy (sc_source_image ctx) = Some image" "truthy (sc_kernel ctx) = Some kern"
      "truthy (sc_dtb ctx) = Some dtb"
    using assms(2-4) by auto
  then have files: "resolve [] image \<in> F" "resolve [] kern \<in> F" "resolve [] dtb \<in> F"
    using assms(1) by (auto simp: named_files_def)
  have "truthy (Some dtb) = Some dtb" using paths(3) truthy_truthy [of "sc_dtb ctx"] by simp
  then have "delivers (bundled F d state) (optional_file_identity env (Some dtb)) (\<lambda>_. bundled F d state)"
    using files(3) by (intro optional_delivers) simp
  then have last: "delivers (bundled F d state) (bind_eff (optional_file_identity env (Some dtb)) (\<lambda>x. return_eff (f x)))
      (\<lambda>_. bundled F d state)" for f :: "identity option \<Rightarrow> boot_assets"
    by (rule delivers_bind [OF _ delivers_return])
  have "delivers (bundled F d state) (build_boot_assets_identity env image kern (Some dtb)) (\<lambda>_. bundled F d state)"
    unfolding build_boot_assets_identity_def
    by (rule delivers_bind [OF identity_done [OF files(1)]], rule delivers_bind [OF identity_done [OF files(2)]], rule last)
  then show ?thesis by (simp add: snapshot_boot_assets_identity_def paths)
qed

lemma facts_delivers:
  assumes "read_vmstate (se_gunzip env) state = Inr v" "sctlr_as_read state (sections v) = Inr r"
  shows "delivers (bundled F d state) (read_facts env (d @ [VMSTATE_FILE])) (\<lambda>_. bundled F d state)"
  using read_facts_decoded [OF assms]
  by (intro deliversI) (auto simp: read_facts_def bundled_def vmstate_result_def)

lemma flags_delivers:
  assumes "read_vmstate (se_gunzip env) state = Inr v"
  shows "delivers (bundled F d state) (read_vmstate_section_flags env (d @ [VMSTATE_FILE])) (\<lambda>_. bundled F d state)"
  using assms
  by (intro deliversI) (simp add: read_vmstate_section_flags_def bundled_def vmstate_result_def vmstate_section_tags_def)

text \<open>A directory that is new or empty\<close>

definition dir_free :: "'v snap_world \<Rightarrow> path \<Rightarrow> bool" where
  "dir_free w d \<longleftrightarrow> \<not> path_exists w d \<or> path_is_dir w d \<and> dir_is_empty w d"

lemma dir_freeI: "\<not> path_exists w d \<Longrightarrow> dir_free w d"
  by (simp add: dir_free_def)

text \<open>Everything that a snapshot needs\<close>

definition snapshot_ready :: "'v snap_env \<Rightarrow> snapshot_context \<Rightarrow> snapshot_options \<Rightarrow> 'v snap_world \<Rightarrow> bool" where
  "snapshot_ready env ctx opts w \<longleftrightarrow>
     (\<forall>q. se_can_write env q) \<and> se_can_signal env \<and> se_can_update env \<and> canonical (se_cwd env) \<and>
     truthy (sc_vmstate_path ctx) \<noteq> None \<and> truthy (sc_source_image ctx) \<noteq> None \<and>
     truthy (sc_kernel ctx) \<noteq> None \<and> truthy (sc_dtb ctx) \<noteq> None \<and>
     (sc_root_disk_mode ctx = Some None_mode \<or> truthy (sc_root_disk_path ctx) \<noteq> None) \<and>
     has_files (disk_files ctx \<union> overlay_paths ctx \<union> named_files ctx) w \<and>
     dir_free w (resolve (se_cwd env) (so_out_dir opts)) \<and>
     (\<exists>a. se_dump_after env = Some a \<and> a + 10 \<le> deadline_of opts) \<and>
     (case se_dump env (sw_vmm w) of
        (state, _) \<Rightarrow> state \<noteq> [] \<and>
          (\<exists>v r. read_vmstate (se_gunzip env) state = Inr v \<and> sctlr_as_read state (sections v) = Inr r))"

lemma sidecars_delivers:
  fixes env :: "'v snap_env"
  assumes "\<And>q. se_can_write env q" "disk_files ctx \<union> overlay_paths ctx \<subseteq> F"
    and "sc_root_disk_mode ctx = Some None_mode \<or> truthy (sc_root_disk_path ctx) \<noteq> None"
    and "se_dump_after env = Some a" "a + 10 \<le> deadline_ms" "state \<noteq> []" "read_vmstate (se_gunzip env) state = Inr v"
  shows "delivers (signalled F p state) (capture_sidecars env ctx p d deadline_ms)
    (\<lambda>b w. cb_state b = d @ [VMSTATE_FILE] \<and> pending_ok d (cb_disk b) \<and> bundled (F \<union> pending_files (cb_disk b)) d state w)"
proof -
  have overlay: "delivers (\<lambda>w. pending_ok d pd \<and> bundled (F \<union> pending_files pd) d state w) (reflink_mount_overlay env ctx d)
      (\<lambda>_ w. pending_ok d pd \<and> bundled (F \<union> pending_files pd) d state w)" for pd
  proof (cases "pending_ok d pd")
    case True
    then show ?thesis
      using overlay_delivers [OF assms(1), of ctx "F \<union> pending_files pd" d state] assms(2) by (auto simp: delivers_def)
  qed (simp add: delivers_false)
  have rest: "delivers (bundled F d state)
     (bind_eff (gets_eff next_sequence_of) (\<lambda>sequence.
     bind_eff (read_vmstate_section_flags env (d @ [VMSTATE_FILE])) (\<lambda>flags.
     bind_eff (gets_eff parent_dir_of) (\<lambda>parent_dir.
     bind_eff (copy_vmstate_root_disk env ctx d (should_copy_rootdisk_delta_only parent_dir flags)) (\<lambda>disk.
     bind_eff (reflink_mount_overlay env ctx d) (\<lambda>overlay.
       return_eff \<lparr>cb_state = d @ [VMSTATE_FILE], cb_flags = flags, cb_overlay = overlay, cb_sequence = sequence,
         cb_disk = disk\<rparr>))))))
    (\<lambda>b w. cb_state b = d @ [VMSTATE_FILE] \<and> pending_ok d (cb_disk b) \<and> bundled (F \<union> pending_files (cb_disk b)) d state w)"
    using assms(2,3)
    by (intro delivers_bind [OF delivers_gets [of _ "\<lambda>_. bundled F d state"]] delivers_bind [OF flags_delivers [OF assms(7)]]
        delivers_bind [OF disk_delivers [OF assms(1)]] delivers_bind [OF overlay] delivers_return) auto
  show ?thesis
    unfolding capture_sidecars_def
  proof (intro delivers_bind [OF await_delivers [OF assms(4-6)]] delivers_bind [OF copy_state_delivers [OF assms(1)]])
    fix q
    show "delivers (\<lambda>w. q = d @ [VMSTATE_FILE] \<and> bundled F d state w)
     (bind_eff (gets_eff next_sequence_of) (\<lambda>sequence.
     bind_eff (read_vmstate_section_flags env q) (\<lambda>flags.
     bind_eff (gets_eff parent_dir_of) (\<lambda>parent_dir.
     bind_eff (copy_vmstate_root_disk env ctx d (should_copy_rootdisk_delta_only parent_dir flags)) (\<lambda>disk.
     bind_eff (reflink_mount_overlay env ctx d) (\<lambda>overlay.
       return_eff \<lparr>cb_state = q, cb_flags = flags, cb_overlay = overlay, cb_sequence = sequence,
         cb_disk = disk\<rparr>))))))
    (\<lambda>b w. cb_state b = d @ [VMSTATE_FILE] \<and> pending_ok d (cb_disk b) \<and> bundled (F \<union> pending_files (cb_disk b)) d state w)"
      by (cases "q = d @ [VMSTATE_FILE]") (simp_all add: rest delivers_false)
  qed
qed

lemma finish_delivers:
  assumes ready: "snapshot_ready env ctx opts w0" and files: "named_files ctx \<subseteq> F" "pending_files (cb_disk b) \<subseteq> F"
    and "cb_state b = d @ [VMSTATE_FILE]" "pending_ok d (cb_disk b)" "canonical d"
    and state: "read_vmstate (se_gunzip env) state = Inr v" "sctlr_as_read state (sections v) = Inr r"
  shows "delivers (bundled F d state) (finish_bundle env ctx d b) (\<lambda>_ _. True)"
proof -
  have named: "truthy (sc_source_image ctx) \<noteq> None" "truthy (sc_kernel ctx) \<noteq> None" "truthy (sc_dtb ctx) \<noteq> None"
    and host: "\<And>q. se_can_write env q" "se_can_update env"
    using ready by (simp_all add: snapshot_ready_def)
  have optional: "delivers (bundled F d state) (optional_file_identity env (sc_kernel ctx)) (\<lambda>_. bundled F d state)"
      "delivers (bundled F d state) (optional_file_identity env (sc_dtb ctx)) (\<lambda>_. bundled F d state)"
    using files(1) by (auto intro!: optional_delivers simp: named_files_def)
  have checkpoint: "delivers (bundled F d state) (bind_eff (gets_eff g) (\<lambda>checkpoint. return_eff (f checkpoint))) (\<lambda>_. bundled F d state)"
    for g and f :: "checkpoint_doc \<Rightarrow> vmstate_doc"
    by (rule delivers_bind [OF delivers_gets delivers_return])
  have meta: "delivers (bundled F d state) (build_vmstate_meta env ctx (d @ [VMSTATE_FILE]) d parent n flags disk)
      (\<lambda>_. bundled F d state)" for parent n flags disk
    unfolding build_vmstate_meta_def
    by (rule delivers_bind [OF facts_delivers [OF state]], rule delivers_bind [OF assets_delivers [OF files(1) named]],
        rule delivers_bind [OF optional(1)], rule delivers_bind [OF optional(2)], rule checkpoint)
  have writes: "delivers P (write_snapshot_meta env ctx d ov engine m) (\<lambda>_ _. True)" for P ov engine m
    using host(1) by (intro deliversI) (simp add: write_snapshot_meta_def Let_def)
  have updates: "delivers P (update_vmstate_chain env d n) (\<lambda>_ _. True)" for P n
    using host(2) by (intro deliversI) (simp add: update_vmstate_chain_def split: option.split)
  have parent: "delivers (bundled F d state) (gets_eff parent_dir_of) (\<lambda>_. bundled F d state)"
    by (rule delivers_gets)
  show ?thesis
    unfolding finish_bundle_def assms(4)
    by (rule delivers_bind [OF finalize_delivers [OF assms(5,6) files(2)]], rule delivers_bind [OF parent],
        rule delivers_bind [OF meta], rule delivers_bind [OF writes], rule updates)
qed

lemma pause_delivers:
  assumes "se_can_signal env" "delivers (signalled F p state) m Q" "\<And>x w. Q x w \<Longrightarrow> Q x (resume_vmstate_source ctx w)"
  shows "delivers (\<lambda>w. has_files (F - {p}) w \<and> map_of (sw_blobs w) p = None \<and> fst (se_dump env (sw_vmm w)) = state)
    (with_paused_vmstate_source env ctx m) Q"
  unfolding with_paused_vmstate_source_def
proof (rule delivers_bind)
  show "delivers (\<lambda>w. has_files (F - {p}) w \<and> map_of (sw_blobs w) p = None \<and> fst (se_dump env (sw_vmm w)) = state)
      (signal_vmstate_snapshot env ctx) (\<lambda>_. signalled F p state)"
    using assms(1)
    by (intro deliversI) (auto simp: signal_vmstate_snapshot_def signalled_def has_files_def split: prod.split)
  show "delivers (signalled F p state) (finally_eff m (resume_vmstate_source ctx)) Q"
    using assms(2,3) by (rule delivers_finally)
qed

lemma ready_vmstate:
  assumes "snapshot_ready env ctx opts w"
  shows "fst (perform_snapshot_vmstate env ctx opts w) = Inr (resolve (se_cwd env) (so_out_dir opts))"
proof -
  let ?d = "resolve (se_cwd env) (so_out_dir opts)"
  let ?F = "disk_files ctx \<union> overlay_paths ctx \<union> named_files ctx"
  obtain p where p: "truthy (sc_vmstate_path ctx) = Some p" using assms by (auto simp: snapshot_ready_def)
  let ?p = "resolve [] p" and ?state = "fst (se_dump env (sw_vmm w))"
  obtain a v r where a: "se_dump_after env = Some a" "a + 10 \<le> deadline_of opts" and state: "?state \<noteq> []"
      "read_vmstate (se_gunzip env) ?state = Inr v" "sctlr_as_read ?state (sections v) = Inr r"
    using assms by (auto simp: snapshot_ready_def split: prod.splits)
  have host: "\<And>q. se_can_write env q" "se_can_signal env" "canonical (se_cwd env)"
    and disk: "sc_root_disk_mode ctx = Some None_mode \<or> truthy (sc_root_disk_path ctx) \<noteq> None"
    using assms by (simp_all add: snapshot_ready_def)
  let ?Q = "\<lambda>b w. cb_state b = ?d @ [VMSTATE_FILE] \<and> pending_ok ?d (cb_disk b) \<and>
    bundled (?F \<union> pending_files (cb_disk b)) ?d ?state w"
  have sidecars: "delivers (signalled ?F ?p ?state) (capture_sidecars env ctx ?p ?d (deadline_of opts)) ?Q"
    by (rule sidecars_delivers [OF host(1) _ disk a state(1,2)]) blast
  have finish: "delivers (?Q b) (finish_bundle env ctx ?d b) (\<lambda>_ _. True)" for b
  proof (cases "cb_state b = ?d @ [VMSTATE_FILE] \<and> pending_ok ?d (cb_disk b)")
    case True
    then show ?thesis
      using finish_delivers [OF assms, of "?F \<union> pending_files (cb_disk b)" b ?d ?state v r] resolve_canonical [OF host(3)] state(2,3)
      by (auto simp: delivers_def)
  qed (auto intro: delivers_false)
  have capture: "delivers (\<lambda>w. has_files (?F - {?p}) w \<and> map_of (sw_blobs w) ?p = None \<and> fst (se_dump env (sw_vmm w)) = ?state)
      (capture_vmstate_snapshot_bundle env ctx ?p ?d (deadline_of opts)) (\<lambda>x _. x = ?d)"
    unfolding capture_vmstate_snapshot_bundle_def
    by (rule delivers_bind [OF pause_delivers [OF host(2) sidecars] delivers_bind [OF finish delivers_return]])
      (auto simp: bundled_def resume_vmstate_source_def has_files_def)
  have prepare: "delivers (\<lambda>u. u = w) (prepare_bundle_root_dir env (so_out_dir opts))
      (\<lambda>x u. x = ?d \<and> has_files ?F u \<and> sw_vmm u = sw_vmm w)"
    using assms by (intro deliversI)
      (auto simp: snapshot_ready_def dir_free_def prepare_bundle_root_dir_def Let_def make_dir_def bind_eff_def return_eff_def has_files_def)
  let ?cleared = "\<lambda>u. has_files (?F - {?p}) u \<and> map_of (sw_blobs u) ?p = None \<and> sw_vmm u = sw_vmm w"
  have clear: "delivers (\<lambda>u. has_files ?F u \<and> sw_vmm u = sw_vmm w) (clear_vmstate_state_file env ?p) (\<lambda>_. ?cleared)"
    unfolding clear_vmstate_state_file_def
    by (rule delivers_modify) (auto simp: host(1) has_files_def map_of_filter_key)
  have sync: "delivers ?cleared (sync_guest_for_vmstate_snapshot env ctx) (\<lambda>_. ?cleared)"
    unfolding sync_guest_for_vmstate_snapshot_def try_direct_vmstate_sync_def note_event_def
    by (intro deliversI) (auto simp: effect_defs has_files_def)
  let ?rest = "\<lambda>x. bind_eff (clear_vmstate_state_file env ?p) (\<lambda>_. bind_eff (sync_guest_for_vmstate_snapshot env ctx) (\<lambda>_.
    capture_vmstate_snapshot_bundle env ctx ?p x (deadline_of opts)))"
  have "delivers (\<lambda>u. has_files ?F u \<and> sw_vmm u = sw_vmm w) (?rest ?d) (\<lambda>x _. x = ?d)"
    by (rule delivers_bind [OF clear], rule delivers_bind [OF sync], rule delivers_pre [OF capture]) simp
  then have "delivers (\<lambda>u. x = ?d \<and> has_files ?F u \<and> sw_vmm u = sw_vmm w) (?rest x) (\<lambda>x _. x = ?d)" for x
    by (cases "x = ?d") (simp_all add: delivers_false)
  then have "delivers (\<lambda>u. u = w) (perform_snapshot_vmstate env ctx opts) (\<lambda>x _. x = ?d)"
    unfolding perform_snapshot_vmstate_def p option.case by (rule delivers_bind [OF prepare])
  then show ?thesis by (rule delivers_run [of _ _ _ w]) auto
qed

text \<open>C24: A snapshot with the default engine succeeds when it has what it needs: a new or empty directory on a host
  that allows the writes and signals, the named files, and a state that decodes, whose vcpu sections the reader of
  facts accepts, and that arrives ten milliseconds before the deadline at the latest.\<close>

theorem ready_snapshot_completes:
  assumes "resolve_snapshot_engine (se_engine env) = Some Vmstate_engine" "\<not> sc_nested ctx" "snapshot_ready env ctx opts w"
  shows "fst (perform_snapshot env ctx opts w) = Inr (resolve (se_cwd env) (so_out_dir opts))"
  using assms ready_vmstate by (simp add: perform_snapshot_def)

section \<open>When the state does not arrive\<close>

lemma wait_times_out:
  "(\<And>t. t < deadline \<Longrightarrow> f t = None) \<Longrightarrow> wait_for_vmstate_file f now deadline = Inl (Snapshot_error Snapshot_timeout)"
proof (induction "deadline - now" arbitrary: now rule: less_induct)
  case less
  show ?case
  proof (cases "now < deadline")
    case True
    then have "wait_for_vmstate_file f (now + min 10 (deadline - now)) deadline = Inl (Snapshot_error Snapshot_timeout)"
      by (intro less.hyps less.prems) simp_all
    then show ?thesis using True less.prems [OF True] by (subst wait_for_vmstate_file.simps) simp
  qed (subst wait_for_vmstate_file.simps, simp)
qed

text \<open>The machine has captured, the call throws, and only the new directory is left behind.\<close>

lemma late_state_times_out:
  assumes "truthy (sc_vmstate_path ctx) = Some p" "\<And>q. se_can_write env q" "se_can_signal env"
    and "se_dump_after env = None" "\<not> path_exists w (resolve (se_cwd env) (so_out_dir opts))"
  shows "\<exists>w'. perform_snapshot_vmstate env ctx opts w = (Inl (Snapshot_error Snapshot_timeout), w') \<and>
    sw_vmm w' = snd (se_dump env (sw_vmm w)) \<and> sw_chain w' = sw_chain w \<and> sw_docs w' = sw_docs w \<and>
    sw_blobs w' = filter (\<lambda>(q, _). q \<noteq> resolve [] p) (sw_blobs w) \<and>
    sw_dirs w' = resolve (se_cwd env) (so_out_dir opts) # sw_dirs w"
proof -
  let ?d = "resolve (se_cwd env) (so_out_dir opts)" and ?p = "resolve [] p"
  let ?kept = "\<lambda>u. sw_vmm u = sw_vmm w \<and> sw_chain u = sw_chain w \<and> sw_docs u = sw_docs w \<and>
    sw_blobs u = filter (\<lambda>(q, _). q \<noteq> ?p) (sw_blobs w) \<and> sw_dirs u = ?d # sw_dirs w"
  have prepared: "prepare_bundle_root_dir env (so_out_dir opts) w = (Inr ?d, w\<lparr>sw_dirs := ?d # sw_dirs w\<rparr>)"
    using assms(2,5) by (simp add: prepare_bundle_root_dir_def Let_def make_dir_def bind_eff_def return_eff_def)
  have cleared: "clear_vmstate_state_file env ?p (w\<lparr>sw_dirs := ?d # sw_dirs w\<rparr>) =
      (Inr (), w\<lparr>sw_dirs := ?d # sw_dirs w, sw_blobs := filter (\<lambda>(q, _). q \<noteq> ?p) (sw_blobs w)\<rparr>)"
    using assms(2) by (simp add: clear_vmstate_state_file_def modify_eff_def)
  have sync: "delivers ?kept (sync_guest_for_vmstate_snapshot env ctx) (\<lambda>_. ?kept)"
    unfolding sync_guest_for_vmstate_snapshot_def try_direct_vmstate_sync_def note_event_def
    by (intro deliversI) (auto simp: effect_defs)
  obtain mode u where u: "sync_guest_for_vmstate_snapshot env ctx
      (w\<lparr>sw_dirs := ?d # sw_dirs w, sw_blobs := filter (\<lambda>(q, _). q \<noteq> ?p) (sw_blobs w)\<rparr>) = (Inr mode, u)" "?kept u"
    by (rule delivers_run [OF sync, of "w\<lparr>sw_dirs := ?d # sw_dirs w, sw_blobs := filter (\<lambda>(q, _). q \<noteq> ?p) (sw_blobs w)\<rparr>"])
      (simp, blast)
  have "state_file_at env ?p s t = None" if "sw_blobs s = sw_blobs u" for s :: "'a snap_world" and t
    using that u(2) assms(4) by (simp add: state_file_at_def map_of_filter_key split: option.split)
  then have await: "await_state_file env ?p t s = (Inl (Snapshot_error Snapshot_timeout), s)"
    if "sw_blobs s = sw_blobs u" for s :: "'a snap_world" and t
    using that by (simp add: await_state_file_def wait_times_out)
  obtain state v where dump: "se_dump env (sw_vmm w) = (state, v)" by fastforce
  show ?thesis
    using u prepared cleared assms(1,3) dump
    by (simp add: perform_snapshot_vmstate_def capture_vmstate_snapshot_bundle_def with_paused_vmstate_source_def
        signal_vmstate_snapshot_def finally_eff_def capture_sidecars_def resume_vmstate_source_def bind_eff_def await)
qed

section \<open>Forks\<close>

lemma remove_dir_gone:
  "under d q \<Longrightarrow> map_of (sw_blobs (remove_dir d w)) q = None \<and> map_of (sw_docs (remove_dir d w)) q = None"
  by (force simp: remove_dir_def map_of_eq_None_iff)

text \<open>A fork without an output directory that fails - in the memory check, the snapshot or the restore -
  leaves no file in its temporary directory.\<close>

theorem failed_fork_leaves_no_bundle:
  assumes "perform_fork env ctx pressed out_dir temp tcp_keep restored w = (Inl e, w')" "truthy out_dir = None"
    and "\<not> pressed" "under temp q"
  shows "map_of (sw_blobs w') q = None \<and> map_of (sw_docs w') q = None"
  using assms remove_dir_gone [OF assms(4)]
  by (auto simp: perform_fork_def effect_defs split: prod.splits sum.splits if_splits)

text \<open>C35: A fork without an output directory orphans the checkpoints of its source: the chain of the source
  then names the temporary bundle as the parent of the next checkpoint, and the bundle is removed
  when the fork exits.\<close>

theorem fork_orphans_the_chain:
  assumes "perform_fork env ctx pressed out_dir temp tcp_keep restored w = (Inr fork, w')" "truthy out_dir = None"
    and "resolve_snapshot_engine (se_engine env) = Some Vmstate_engine" "canonical temp" "sw_chain w = Some c"
    and "truthy (sc_vmstate_path ctx) = Some p" "se_can_write env (resolve [] p)"
  shows "sw_chain (fork_exits fork w') = Some (c\<lparr>vc_parent_dir := Some (path_text temp), vc_sequence := vc_sequence c + 1\<rparr>) \<and>
    read_meta (store_of (fork_exits fork w')) temp = Inl (Boot_error BOOT_SNAPSHOT_NOT_FOUND ''checkpoint parent meta missing'')"
proof -
  obtain opts d u where taken: "perform_snapshot_vmstate env ctx opts (w\<lparr>sw_dirs := temp # sw_dirs w\<rparr>) = (Inr d, w')"
    and opts: "so_out_dir opts = path_text temp" and fork: "fork = (temp, True)"
    using assms(1-3)
    by (auto simp: perform_fork_def perform_snapshot_def effect_defs Let_def split: prod.splits sum.splits if_splits)
  from taken assms(6,7) have "sw_chain w' = map_option (\<lambda>c. c\<lparr>vc_parent_dir := Some (path_text d),
      vc_sequence := next_sequence_of (w\<lparr>sw_dirs := temp # sw_dirs w\<rparr>)\<rparr>) (sw_chain w)" "d = resolve (se_cwd env) (path_text temp)"
    by (auto elim: snapshot_success simp: opts)
  then have "sw_chain (fork_exits fork w') = Some (c\<lparr>vc_parent_dir := Some (path_text temp), vc_sequence := vc_sequence c + 1\<rparr>)"
    using assms(4,5) by (simp add: fork fork_exits_def remove_dir_def next_sequence_of_def resolve_path_text)
  moreover have "read_meta (store_of (fork_exits fork w')) temp = Inl (Boot_error BOOT_SNAPSHOT_NOT_FOUND ''checkpoint parent meta missing'')"
    using remove_dir_gone [of temp "temp @ [''meta.json'']" w']
    by (simp add: fork fork_exits_def read_meta_def store_of_def map_of_map)
  ultimately show ?thesis ..
qed

end
