(* ===== verification/Checkpoint_Ram.thy ===== *)
theory Checkpoint_Ram
  imports Snapshot_Total
begin

text \<open>
  The checkpoints of a running machine, from the guest's writes to the memory that a restore loads:
  the machine keeps track of the pages that were written since its last capture, and
  \<^verbatim>\<open>vm/snapshot.ts\<close> keeps track of the bundle that the next capture is a delta on. If no snapshot
  fails in between, following the recorded parents gives back the memory of every checkpoint; after a
  failed snapshot the two disagree. The machine itself is written in Zig
  (\<^verbatim>\<open>packages/microvm/src\<close>); what is stated of it here is its documented behaviour.
\<close>

section \<open>The machine\<close>

record ram_format =
  full_payload :: "bytes list \<Rightarrow> bytes"
  delta_payload :: "(nat \<times> bytes) list \<Rightarrow> bytes"
  read_full :: "bytes \<Rightarrow> bytes list"
  read_delta :: "bytes \<Rightarrow> (nat \<times> bytes) list"

definition format_ok :: "ram_format \<Rightarrow> bool" where
  "format_ok fmt \<longleftrightarrow>
     (\<forall>ram. read_full fmt (full_payload fmt ram) = ram) \<and> (\<forall>ps. read_delta fmt (delta_payload fmt ps) = ps)"

record ram_vmm =
  vm_ram :: "bytes list"
  vm_dirty :: "nat list"
  vm_delta_mode :: bool
  vm_devices :: "vmstate_section list"

definition guest_writes :: "nat \<Rightarrow> bytes \<Rightarrow> ram_vmm \<Rightarrow> ram_vmm" where
  "guest_writes i page v = v\<lparr>vm_ram := (vm_ram v)[i := page], vm_dirty := i # vm_dirty v\<rparr>"

definition dirty_pages :: "ram_vmm \<Rightarrow> (nat \<times> bytes) list" where
  "dirty_pages v = map (\<lambda>i. (i, vm_ram v ! i)) (filter (\<lambda>i. i \<in> set (vm_dirty v)) [0..<length (vm_ram v)])"

definition captured_sections :: "ram_format \<Rightarrow> ram_vmm \<Rightarrow> vmstate_section list" where
  "captured_sections fmt v =
     (if vm_delta_mode v then \<lparr>sec_tag = TAG_RAM_DELTA, sec_id = 0, payload = delta_payload fmt (dirty_pages v)\<rparr>
      else \<lparr>sec_tag = TAG_RAM, sec_id = 0, payload = full_payload fmt (vm_ram v)\<rparr>) # vm_devices v"

text \<open>A capture writes the pages out and starts to track afresh.\<close>

definition vmm_dump :: "ram_format \<Rightarrow> ram_vmm \<Rightarrow> bytes \<times> ram_vmm" where
  "vmm_dump fmt v =
     (encode_vmstate ARCH_AARCH64 (replicate 32 0) (captured_sections fmt v), v\<lparr>vm_dirty := [], vm_delta_mode := True\<rparr>)"

text \<open>On a restore the sections are loaded in their order.\<close>

definition patch :: "bytes list \<Rightarrow> (nat \<times> bytes) list \<Rightarrow> bytes list" where
  "patch ram ps = fold (\<lambda>(i, page) r. r[i := page]) ps ram"

definition load_section :: "ram_format \<Rightarrow> vmstate_section \<Rightarrow> bytes list \<Rightarrow> bytes list" where
  "load_section fmt s ram =
     (if sec_tag s = TAG_RAM then read_full fmt (payload s)
      else if sec_tag s = TAG_RAM_DELTA then patch ram (read_delta fmt (payload s)) else ram)"

definition load_ram :: "ram_format \<Rightarrow> vmstate_section list \<Rightarrow> bytes list" where
  "load_ram fmt ss = fold (load_section fmt) ss []"

definition devices_ok :: "vmstate_section list \<Rightarrow> bool" where
  "devices_ok ss \<longleftrightarrow> list_all (\<lambda>s. sec_tag s \<noteq> TAG_RAM \<and> sec_tag s \<noteq> TAG_RAM_DELTA) ss"

definition dump_fits :: "ram_format \<Rightarrow> ram_vmm \<Rightarrow> bool" where
  "dump_fits fmt v \<longleftrightarrow>
     devices_ok (vm_devices v) \<and> list_all wf_section (captured_sections fmt v) \<and> length (captured_sections fmt v) < 2 ^ 32"

lemma read_dump:
  assumes "dump_fits fmt v"
  shows "read_vmstate gunzip (fst (vmm_dump fmt v)) =
    Inr \<lparr>arch = Some ARCH_AARCH64, topology_hash = replicate 32 0, sections = captured_sections fmt v\<rparr>"
  using assms parse_encode_vmstate [of ARCH_AARCH64 "replicate 32 0" "captured_sections fmt v" "[]"]
  by (simp add: read_vmstate_def vmm_dump_def encode_vmstate_not_gzip dump_fits_def)

lemma patch_length [simp]: "length (patch ram ps) = length ram"
  by (induction ps arbitrary: ram) (auto simp: patch_def)

lemma patch_nth:
  "i < length ram \<Longrightarrow> patch ram (map (\<lambda>i. (i, f i)) is) ! i = (if i \<in> set is then f i else ram ! i)"
proof (induction "is" arbitrary: ram)
  case (Cons j js)
  have "patch ram (map (\<lambda>i. (i, f i)) (j # js)) = patch (ram[j := f j]) (map (\<lambda>i. (i, f i)) js)" by (simp add: patch_def)
  then show ?case using Cons by (cases "i = j") simp_all
qed (simp add: patch_def)

text \<open>A delta on memory that differs in written pages only\<close>

lemma patch_dirty:
  assumes "length old = length (vm_ram v)" "\<And>i. i < length (vm_ram v) \<Longrightarrow> i \<notin> set (vm_dirty v) \<Longrightarrow> vm_ram v ! i = old ! i"
  shows "patch old (dirty_pages v) = vm_ram v"
  by (rule nth_equalityI) (use assms in \<open>auto simp: dirty_pages_def patch_nth\<close>)

section \<open>Chains on disk\<close>

definition ram_sections :: "decoded_vmstate \<Rightarrow> vmstate_section list" where
  "ram_sections s = filter (\<lambda>s. sec_tag s = TAG_RAM \<or> sec_tag s = TAG_RAM_DELTA) (sections s)"

text \<open>The bundles of a list, newest first, are on disk and lead from each to the one before; the
  second component is the memory that the chain up to the bundle stands for.\<close>

definition on_disk :: "(bytes \<Rightarrow> bytes option) \<Rightarrow> 'v snap_world \<Rightarrow> path \<Rightarrow> snapshot_meta \<Rightarrow> decoded_vmstate \<Rightarrow> bool" where
  "on_disk gunzip w d meta s \<longleftrightarrow>
     (\<exists>doc raw. map_of (sw_docs w) (d @ [''meta.json'']) = Some (Some doc) \<and> meta = chain_meta_of doc \<and>
       map_of (sw_blobs w) (d @ [VMSTATE_FILE]) = Some raw \<and> read_vmstate gunzip raw = Inr s)"

definition holds_full :: "(bytes \<Rightarrow> bytes option) \<Rightarrow> ram_format \<Rightarrow> 'v snap_world \<Rightarrow> path \<Rightarrow> bytes list \<Rightarrow> bool" where
  "holds_full gunzip fmt w d ram \<longleftrightarrow>
     (\<exists>meta s x. on_disk gunzip w d meta s \<and> checkpoint_parent meta = None \<and> ram_sections s = [x] \<and>
       sec_tag x = TAG_RAM \<and> read_full fmt (payload x) = ram)"

definition holds_delta ::
    "(bytes \<Rightarrow> bytes option) \<Rightarrow> ram_format \<Rightarrow> 'v snap_world \<Rightarrow> path \<Rightarrow> bytes list \<Rightarrow> path \<times> bytes list \<Rightarrow> bool" where
  "holds_delta gunzip fmt w d ram below \<longleftrightarrow>
     (\<exists>meta s x rel. on_disk gunzip w d meta s \<and> checkpoint_parent meta = Some rel \<and> rel \<noteq> '''' \<and>
       resolve_checkpoint_parent d rel = fst below \<and> ram_sections s = [x] \<and> sec_tag x = TAG_RAM_DELTA \<and>
       patch (snd below) (read_delta fmt (payload x)) = ram)"

fun recorded :: "(bytes \<Rightarrow> bytes option) \<Rightarrow> ram_format \<Rightarrow> 'v snap_world \<Rightarrow> (path \<times> bytes list) list \<Rightarrow> bool" where
  "recorded gunzip fmt w [] = True"
| "recorded gunzip fmt w [e] = holds_full gunzip fmt w (fst e) (snd e)"
| "recorded gunzip fmt w (e # below # h) =
     (holds_delta gunzip fmt w (fst e) (snd e) below \<and> recorded gunzip fmt w (below # h))"

lemma holds_meta:
  "holds_full gunzip fmt w d ram \<Longrightarrow> \<exists>meta s. on_disk gunzip w d meta s"
  "holds_delta gunzip fmt w d ram below \<Longrightarrow> \<exists>meta s. on_disk gunzip w d meta s"
  by (auto simp: holds_full_def holds_delta_def)

lemma recorded_suffix: "recorded gunzip fmt w (xs @ h) \<Longrightarrow> recorded gunzip fmt w h"
proof (induction xs)
  case (Cons x xs)
  then show ?case by (cases "xs @ h") auto
qed simp

lemma read_meta_store:
  "on_disk gunzip w d meta s \<Longrightarrow> read_meta (store_of w) d = Inr meta"
  by (auto simp: on_disk_def read_meta_def store_of_def map_of_map)

text \<open>What the items of the chain that is read hold, oldest first\<close>

definition chain_loads :: "ram_format \<Rightarrow> chain_item list \<Rightarrow> bytes list \<Rightarrow> bool" where
  "chain_loads fmt items ram \<longleftrightarrow>
     (\<exists>c cs x. items = c # cs \<and> ram_sections (ck_state c) = [x] \<and> sec_tag x = TAG_RAM \<and>
       (\<forall>e \<in> set cs. \<exists>y. ram_sections (ck_state e) = [y] \<and> sec_tag y = TAG_RAM_DELTA) \<and>
       fold (load_section fmt) (concat (map (\<lambda>e. ram_sections (ck_state e)) items)) [] = ram)"

lemma chain_loads_snoc:
  assumes "chain_loads fmt items ram'" "ram_sections (ck_state e) = [y]" "sec_tag y = TAG_RAM_DELTA"
    "patch ram' (read_delta fmt (payload y)) = ram"
  shows "chain_loads fmt (items @ [e]) ram"
  using assms by (auto simp: chain_loads_def load_section_def TAG_RAM_def TAG_RAM_DELTA_def)

lemma read_recorded:
  "recorded gunzip fmt w ((d, ram) # h) \<Longrightarrow> distinct (map fst ((d, ram) # h)) \<Longrightarrow>
   set seen \<inter> set (map fst ((d, ram) # h)) = {} \<Longrightarrow>
   \<exists>meta s items. on_disk gunzip w d meta s \<and> read_chain gunzip (store_of w) seen out d meta = Inr (items @ out) \<and>
     chain_loads fmt items ram"
proof (induction h arbitrary: d ram seen out)
  case Nil
  then obtain meta s x where disk: "on_disk gunzip w d meta s" "checkpoint_parent meta = None"
    and x: "ram_sections s = [x]" "sec_tag x = TAG_RAM" "read_full fmt (payload x) = ram"
    by (auto simp: holds_full_def)
  have "read_chain gunzip (store_of w) seen out d meta = Inr (\<lparr>ck_dir = d, ck_meta = meta, ck_state = s\<rparr> # out)"
    using Nil(3) disk by (subst read_chain.simps) (auto simp: on_disk_def store_of_def Let_def)
  moreover have "chain_loads fmt [\<lparr>ck_dir = d, ck_meta = meta, ck_state = s\<rparr>] ram"
    using x by (simp add: chain_loads_def load_section_def)
  ultimately show ?case
    using disk(1) by (intro exI [of _ meta] exI [of _ s] exI [of _ "[\<lparr>ck_dir = d, ck_meta = meta, ck_state = s\<rparr>]"]) simp
next
  case (Cons e h)
  obtain d' ram' where e: "e = (d', ram')" by fastforce
  from Cons.prems(1) obtain meta s x rel where disk: "on_disk gunzip w d meta s" "checkpoint_parent meta = Some rel"
    "rel \<noteq> ''''" "resolve_checkpoint_parent d rel = d'"
    and x: "ram_sections s = [x]" "sec_tag x = TAG_RAM_DELTA" "patch ram' (read_delta fmt (payload x)) = ram"
    and rest: "recorded gunzip fmt w ((d', ram') # h)"
    by (auto simp: e holds_delta_def)
  let ?item = "\<lparr>ck_dir = d, ck_meta = meta, ck_state = s\<rparr>"
  have "distinct (map fst ((d', ram') # h))" "set (d # seen) \<inter> set (map fst ((d', ram') # h)) = {}"
    using Cons.prems(2,3) by (auto simp: e)
  from Cons.IH [OF rest this, of "?item # out"] obtain meta' s' items where
    IH: "on_disk gunzip w d' meta' s'" "read_chain gunzip (store_of w) (d # seen) (?item # out) d' meta' = Inr (items @ ?item # out)"
      "chain_loads fmt items ram'" by blast
  have "read_chain gunzip (store_of w) seen out d meta = read_chain gunzip (store_of w) (d # seen) (?item # out) d' meta'"
    using Cons.prems(3) disk read_meta_store [OF IH(1)]
    by (subst read_chain.simps) (auto simp: on_disk_def store_of_def Let_def e)
  then have "read_chain gunzip (store_of w) seen out d meta = Inr ((items @ [?item]) @ out)" using IH(2) by simp
  moreover have "chain_loads fmt (items @ [?item]) ram" using chain_loads_snoc [OF IH(3), of ?item x] x by simp
  ultimately show ?case using disk(1) by blast
qed

section \<open>Restoring\<close>

lemma ram_sections_filtered: "sections_with_tag t c = filter (\<lambda>s. sec_tag s = t) (ram_sections (ck_state c))"
  if "t = TAG_RAM \<or> t = TAG_RAM_DELTA"
  using that by (auto simp: sections_with_tag_def ram_sections_def intro!: filter_cong)

lemma sections_of_delta:
  assumes "ram_sections (ck_state c) = [x]" "sec_tag x = TAG_RAM_DELTA"
  shows "sections_with_tag TAG_RAM_DELTA c = [x]" "\<not> has_ram c"
proof -
  show "sections_with_tag TAG_RAM_DELTA c = [x]" using assms by (simp add: ram_sections_filtered)
  have "sections_with_tag TAG_RAM c = []"
    using assms by (simp add: ram_sections_filtered TAG_RAM_def TAG_RAM_DELTA_def)
  then show "\<not> has_ram c" by (auto simp: has_ram_def sections_with_tag_def filter_empty_conv)
qed

lemma devices_load_nothing: "fold (load_section fmt) (device_sections c) ram = ram"
proof -
  have "fold (load_section fmt) ss ram = ram"
    if "\<forall>s \<in> set ss. sec_tag s \<noteq> TAG_RAM \<and> sec_tag s \<noteq> TAG_RAM_DELTA" for ss
    using that by (induction ss) (simp_all add: load_section_def)
  then show ?thesis by (simp add: device_sections_def)
qed

lemma combined_loads:
  assumes "chain_loads fmt items ram"
  shows "\<exists>v. combine_vmstate_ram items = Inr v \<and> load_ram fmt (sections v) = ram"
proof -
  from assms obtain c cs x where items: "items = c # cs" and x: "ram_sections (ck_state c) = [x]" "sec_tag x = TAG_RAM"
    and cs: "\<And>e. e \<in> set cs \<Longrightarrow> \<exists>y. ram_sections (ck_state e) = [y] \<and> sec_tag y = TAG_RAM_DELTA"
    and ram: "fold (load_section fmt) (concat (map (\<lambda>e. ram_sections (ck_state e)) items)) [] = ram"
    by (auto simp: chain_loads_def)
  have only: "sections_with_tag TAG_RAM c = [x]" using x by (simp add: ram_sections_filtered)
  then have "x \<in> set (sections_with_tag TAG_RAM c)" by simp
  then have base: "has_ram c" by (auto simp: has_ram_def sections_with_tag_def)
  obtain s where s: "find (\<lambda>s. sec_tag s = TAG_RAM) (sections (ck_state c)) = Some s" "sec_tag s = TAG_RAM"
      "s \<in> set (sections (ck_state c))"
    using base by (rule has_ram_find)
  then have "s \<in> set (sections_with_tag TAG_RAM c)" by (simp add: sections_with_tag_def)
  then have "find (\<lambda>s. sec_tag s = TAG_RAM) (sections (ck_state c)) = Some x" using s(1) only by simp
  moreover have "\<forall>e \<in> set cs. \<not> has_ram e" using cs sections_of_delta(2) by blast
  moreover have deltas: "map (sections_with_tag TAG_RAM_DELTA) cs = map (\<lambda>e. ram_sections (ck_state e)) cs"
    using cs sections_of_delta(1) by fastforce
  ultimately show ?thesis
    using combine_split [of c cs x "[]"] base items ram x
    by (simp add: load_ram_def devices_load_nothing del: map_eq_conv)
qed

section \<open>One snapshot\<close>

text \<open>A machine with the behaviour above, and a state file that is not in a bundle\<close>

definition session_env :: "ram_format \<Rightarrow> (bytes \<Rightarrow> bytes option) \<Rightarrow> ram_vmm snap_env \<Rightarrow> bool" where
  "session_env fmt gunzip env \<longleftrightarrow>
     format_ok fmt \<and> canonical (se_cwd env) \<and> se_gunzip env = gunzip \<and> se_dump env = vmm_dump fmt"

definition state_file_apart :: "ram_vmm snap_env \<Rightarrow> snapshot_context \<Rightarrow> path list \<Rightarrow> bool" where
  "state_file_apart env ctx dirs \<longleftrightarrow>
     (case truthy (sc_vmstate_path ctx) of
        None \<Rightarrow> False
      | Some p \<Rightarrow> se_can_write env (resolve [] p) \<and> butlast (resolve [] p) \<notin> set dirs)"

definition tracked :: "ram_format \<Rightarrow> (bytes \<Rightarrow> bytes option) \<Rightarrow> ram_vmm snap_world \<Rightarrow> (path \<times> bytes list) list \<Rightarrow> bool" where
  "tracked fmt gunzip w h \<longleftrightarrow>
     recorded gunzip fmt w h \<and> distinct (map fst h) \<and> list_all canonical (map fst h) \<and>
     map_option vc_parent_dir (sw_chain w) = Some (case h of [] \<Rightarrow> None | (d, _) # _ \<Rightarrow> Some (path_text d)) \<and>
     (vm_delta_mode (sw_vmm w) \<longleftrightarrow> h \<noteq> [])"

lemma on_disk_confined:
  assumes "on_disk gunzip w e meta s" "confined d p w w'" "butlast p \<noteq> e"
    and fresh: "\<And>q. under d q \<Longrightarrow> map_of (sw_blobs w) q = None \<and> map_of (sw_docs w) q = None"
  shows "on_disk gunzip w' e meta s"
proof -
  have "e @ [x] \<noteq> p" for x using assms(3) by auto
  moreover have "\<not> under d (e @ [''meta.json''])" "\<not> under d (e @ [VMSTATE_FILE])"
    using assms(1) fresh by (auto simp: on_disk_def)
  ultimately show ?thesis using assms(1,2) by (auto simp: on_disk_def confined_def)
qed

lemma recorded_confined:
  assumes "confined d p w w'"
    and "\<And>q. under d q \<Longrightarrow> map_of (sw_blobs w) q = None \<and> map_of (sw_docs w) q = None"
    and "recorded gunzip fmt w h" "butlast p \<notin> set (map fst h)"
  shows "recorded gunzip fmt w' h"
proof -
  have disk: "on_disk gunzip w' e meta s" if "on_disk gunzip w e meta s" "butlast p \<noteq> e" for e meta s
    using that(1) assms(1) that(2) assms(2) by (rule on_disk_confined)
  have "holds_full gunzip fmt w' e ram" if "holds_full gunzip fmt w e ram" "butlast p \<noteq> e" for e ram
    using that disk unfolding holds_full_def by blast
  moreover have "holds_delta gunzip fmt w' e ram below" if "holds_delta gunzip fmt w e ram below" "butlast p \<noteq> e" for e ram below
    using that disk unfolding holds_delta_def by blast
  ultimately show ?thesis using assms(3,4) by (induction h rule: induct_list012) auto
qed

lemma recorded_fresh:
  assumes "recorded gunzip fmt w h" "\<And>q. under d q \<Longrightarrow> map_of (sw_blobs w) q = None \<and> map_of (sw_docs w) q = None"
  shows "d \<notin> set (map fst h)"
proof
  assume "d \<in> set (map fst h)"
  then obtain xs ram ys where "h = xs @ (d, ram) # ys" by (auto simp: in_set_conv_decomp)
  then have "recorded gunzip fmt w ((d, ram) # ys)" using recorded_suffix assms(1) by blast
  then have "\<exists>meta s. on_disk gunzip w d meta s" by (cases ys) (auto dest: holds_meta)
  then show False using assms(2) [OF under_self] by (auto simp: on_disk_def)
qed

lemma captured_ram:
  "devices_ok (vm_devices v) \<Longrightarrow>
   ram_sections \<lparr>arch = a, topology_hash = t, sections = captured_sections fmt v\<rparr> = [hd (captured_sections fmt v)]"
  by (auto simp: ram_sections_def captured_sections_def devices_ok_def list_all_iff filter_empty_conv)

lemma snapshot_extends:
  assumes env: "session_env fmt gunzip env" and taken: "perform_snapshot_vmstate env ctx opts w = (Inr d, w')"
    and apart: "state_file_apart env ctx (d # map fst h)" and "tracked fmt gunzip w h" "dump_fits fmt (sw_vmm w)"
  shows "tracked fmt gunzip w' ((d, if h = [] then vm_ram (sw_vmm w) else patch (snd (hd h)) (dirty_pages (sw_vmm w))) # h)"
    and "sw_vmm w' = (sw_vmm w)\<lparr>vm_dirty := [], vm_delta_mode := True\<rparr>"
proof -
  let ?v = "sw_vmm w" 
  obtain p where p: "truthy (sc_vmstate_path ctx) = Some p" "se_can_write env (resolve [] p)"
      "butlast (resolve [] p) \<notin> set (map fst h)" "butlast (resolve [] p) \<noteq> d"
    using apart by (auto simp: state_file_apart_def split: option.splits)
  from taken p(1,2) obtain doc x tags flags where d: "d = resolve (se_cwd env) (so_out_dir opts)"
    and fresh: "\<And>q. under d q \<Longrightarrow> map_of (sw_blobs w) q = None \<and> map_of (sw_docs w) q = None"
    and state: "map_of (sw_blobs w') (d @ [VMSTATE_FILE]) = Some (fst (vmm_dump fmt ?v))"
    and doc: "map_of (sw_docs w') (d @ [''meta.json'']) = Some (Some doc)" "sd_vmstate doc = Some x"
      "vd_checkpoint x = Some (build_vmstate_checkpoint env ctx d (parent_dir_of w) (next_sequence_of w) flags w)"
    and chain: "sw_chain w' = map_option (\<lambda>c. c\<lparr>vc_parent_dir := Some (path_text d), vc_sequence := next_sequence_of w\<rparr>) (sw_chain w)"
    and vmm: "sw_vmm w' = snd (vmm_dump fmt ?v)"
    by (rule snapshot_success) (use env in \<open>simp add: session_env_def\<close>)
  show vmm': "sw_vmm w' = ?v\<lparr>vm_dirty := [], vm_delta_mode := True\<rparr>" using vmm by (simp add: vmm_dump_def)
  have conf: "confined d (resolve [] p) w w'" using confined_snapshot [OF p(1), of env opts w] taken d by simp
  have tr: "recorded gunzip fmt w h" "distinct (map fst h)" "list_all canonical (map fst h)"
      "vm_delta_mode ?v \<longleftrightarrow> h \<noteq> []"
      "map_option vc_parent_dir (sw_chain w) = Some (case h of [] \<Rightarrow> None | (d, _) # _ \<Rightarrow> Some (path_text d))"
    using assms(4) by (simp_all add: tracked_def)
  have kept: "recorded gunzip fmt w' h" using conf fresh tr(1) p(3) by (rule recorded_confined)
  have canonical: "canonical d" using env d by (simp add: resolve_canonical session_env_def)
  let ?s = "\<lparr>arch = Some ARCH_AARCH64, topology_hash = replicate 32 0, sections = captured_sections fmt ?v\<rparr>"
  have disk: "on_disk gunzip w' d (chain_meta_of doc) ?s"
    using doc(1) state read_dump [OF assms(5), of gunzip] by (auto simp: on_disk_def)
  have ram: "ram_sections ?s = [hd (captured_sections fmt ?v)]"
    using assms(5) by (simp add: captured_ram dump_fits_def)
  have parent: "checkpoint_parent (chain_meta_of doc) =
      relative_checkpoint_parent (se_cwd env) (path_text d) (parent_dir_of w)"
    using doc(2,3) by (simp add: chain_meta_of_def build_vmstate_checkpoint_def)
  have fmt: "read_full fmt (full_payload fmt r) = r" "read_delta fmt (delta_payload fmt ps) = ps" for r ps
    using env by (simp_all add: session_env_def format_ok_def)
  show "tracked fmt gunzip w' ((d, if h = [] then vm_ram ?v else patch (snd (hd h)) (dirty_pages ?v)) # h)"
  proof (cases h)
    case Nil
    then have "parent_dir_of w = None" using tr(5) by (auto simp: parent_dir_of_def)
    then have "holds_full gunzip fmt w' d (vm_ram ?v)"
      unfolding holds_full_def using disk ram parent fmt tr(4) Nil
      by (intro exI [of _ "chain_meta_of doc"] exI [of _ ?s] exI [of _ "hd (captured_sections fmt ?v)"])
        (simp add: captured_sections_def relative_checkpoint_parent_def)
    then show ?thesis using Nil tr canonical chain vmm' by (auto simp: tracked_def)
  next
    case (Cons e h')
    obtain d' ram' where e: "e = (d', ram')" by fastforce
    have d': "parent_dir_of w = Some (path_text d')" "canonical d'"
      using tr(3,5) Cons e by (auto simp: parent_dir_of_def)
    obtain rel where rel: "relative_checkpoint_parent (se_cwd env) (path_text d) (Some (path_text d')) = Some rel"
        "rel \<noteq> ''''" "resolve_checkpoint_parent d rel = d'"
      using relative_parent_resolves [of "se_cwd env" "path_text d'" "path_text d"] env canonical d'(2)
      by (auto simp: session_env_def resolve_path_text dest: path_text_nonempty)
    have "holds_delta gunzip fmt w' d (patch ram' (dirty_pages ?v)) (d', ram')"
      unfolding holds_delta_def using disk ram parent fmt rel d'(1) tr(4) Cons
      by (intro exI [of _ "chain_meta_of doc"] exI [of _ ?s] exI [of _ "hd (captured_sections fmt ?v)"] exI [of _ rel])
        (simp add: captured_sections_def)
    then have "recorded gunzip fmt w' ((d, patch ram' (dirty_pages ?v)) # (d', ram') # h')"
      using kept Cons e by simp
    then show ?thesis
      using tr canonical chain vmm' recorded_fresh [OF tr(1) fresh] Cons e
      by (auto simp: tracked_def)
  qed
qed

section \<open>A failed snapshot\<close>

lemma failed_touches_nothing_known:
  assumes "perform_snapshot_vmstate env ctx opts w = (Inl e, w')" "truthy (sc_vmstate_path ctx) = Some p"
    and "butlast (resolve [] p) \<notin> set (map fst h)" "recorded gunzip fmt w h"
  shows "recorded gunzip fmt w' h"
proof (cases "fst (prepare_bundle_root_dir env (so_out_dir opts) w)")
  case (Inl e')
  have "sw_blobs w' = sw_blobs w \<and> sw_docs w' = sw_docs w"
    using assms(1,2) Inl
    by (auto simp: perform_snapshot_vmstate_def bind_eff_def prepare_bundle_root_dir_def Let_def make_dir_def return_eff_def
        split: if_splits)
  then have "recorded gunzip fmt w' h = recorded gunzip fmt w h"
    by (induction h rule: induct_list012) (simp_all add: holds_full_def holds_delta_def on_disk_def)
  then show ?thesis using assms(4) by simp
next
  case (Inr d)
  then have prepared: "prepare_bundle_root_dir env (so_out_dir opts) w = (Inr d, snd (prepare_bundle_root_dir env (so_out_dir opts) w))"
    by (simp add: prod_eq_iff)
  have "confined d (resolve [] p) w w'"
    using confined_snapshot [OF assms(2), of env opts w] assms(1) prepared_dir [OF prepared] by simp
  then show ?thesis using prepare_success(3) [OF prepared] assms(4,3) by (rule recorded_confined)
qed

lemma tracked_failed:
  assumes "perform_snapshot_vmstate env ctx opts w = (Inl e, w')" "tracked fmt gunzip w h"
    and "state_file_apart env ctx (map fst h)" "vm_delta_mode (sw_vmm w') \<longleftrightarrow> h \<noteq> []" "se_can_update env"
  shows "tracked fmt gunzip w' h"
  using assms vmstate_failed [OF assms(1,5)] failed_touches_nothing_known [OF assms(1)]
  by (auto simp: tracked_def state_file_apart_def split: option.splits)

section \<open>Sessions\<close>

text \<open>A machine boots, its guest writes, other programs work on files outside of the bundles, and
  snapshots are taken. \<open>h\<close> is the history: the bundles, newest first, with the memory of the machine
  when each was taken. A snapshot may fail as long as the machine has not captured for it.\<close>

inductive vm_session :: "ram_format \<Rightarrow> (bytes \<Rightarrow> bytes option) \<Rightarrow> snapshot_context \<Rightarrow> ram_vmm snap_world \<Rightarrow>
    (path \<times> bytes list) list \<Rightarrow> bool"
  for fmt gunzip ctx where
  boots: "\<not> vm_delta_mode (sw_vmm w) \<Longrightarrow> map_option vc_parent_dir (sw_chain w) = Some None \<Longrightarrow>
    vm_session fmt gunzip ctx w []"
| writes: "vm_session fmt gunzip ctx w h \<Longrightarrow> vm_session fmt gunzip ctx (w\<lparr>sw_vmm := guest_writes i page (sw_vmm w)\<rparr>) h"
| others: "vm_session fmt gunzip ctx w h \<Longrightarrow> sw_vmm w' = sw_vmm w \<Longrightarrow> sw_chain w' = sw_chain w \<Longrightarrow>
    \<forall>d \<in> set (map fst h). \<forall>x. map_of (sw_blobs w') (d @ [x]) = map_of (sw_blobs w) (d @ [x]) \<and>
      map_of (sw_docs w') (d @ [x]) = map_of (sw_docs w) (d @ [x]) \<Longrightarrow>
    vm_session fmt gunzip ctx w' h"
| refused: "vm_session fmt gunzip ctx w h \<Longrightarrow> perform_snapshot_vmstate env ctx opts w = (Inl e, w') \<Longrightarrow>
    sw_vmm w' = sw_vmm w \<Longrightarrow> state_file_apart env ctx (map fst h) \<Longrightarrow> se_can_update env \<Longrightarrow> vm_session fmt gunzip ctx w' h"
| snapshots: "vm_session fmt gunzip ctx w h \<Longrightarrow> session_env fmt gunzip env \<Longrightarrow> dump_fits fmt (sw_vmm w) \<Longrightarrow>
    perform_snapshot_vmstate env ctx opts w = (Inr d, w') \<Longrightarrow> state_file_apart env ctx (d # map fst h) \<Longrightarrow>
    vm_session fmt gunzip ctx w' ((d, vm_ram (sw_vmm w)) # h)"

text \<open>Memory differs from the newest checkpoint in the written pages only.\<close>

definition in_step :: "ram_vmm \<Rightarrow> (path \<times> bytes list) list \<Rightarrow> bool" where
  "in_step v h \<longleftrightarrow>
     (h \<noteq> [] \<longrightarrow> length (snd (hd h)) = length (vm_ram v) \<and>
       (\<forall>i < length (vm_ram v). i \<notin> set (vm_dirty v) \<longrightarrow> vm_ram v ! i = snd (hd h) ! i))"

lemma in_step_writes: "in_step v h \<Longrightarrow> in_step (guest_writes i page v) h"
  by (auto simp: in_step_def guest_writes_def nth_list_update)

lemma recorded_other_vmm [simp]: "recorded gunzip fmt (w\<lparr>sw_vmm := v\<rparr>) h \<longleftrightarrow> recorded gunzip fmt w h"
  by (induction h rule: induct_list012) (auto simp: holds_full_def holds_delta_def on_disk_def)

lemma tracked_elsewhere:
  assumes "tracked fmt gunzip w h" "sw_vmm w' = sw_vmm w" "sw_chain w' = sw_chain w"
    and "\<forall>d \<in> set (map fst h). \<forall>x. map_of (sw_blobs w') (d @ [x]) = map_of (sw_blobs w) (d @ [x]) \<and>
      map_of (sw_docs w') (d @ [x]) = map_of (sw_docs w) (d @ [x])"
  shows "tracked fmt gunzip w' h"
proof -
  have "recorded gunzip fmt w h \<Longrightarrow> recorded gunzip fmt w' h"
    using assms(4) by (induction h rule: induct_list012) (auto simp: holds_full_def holds_delta_def on_disk_def)
  then show ?thesis using assms(1-3) by (simp add: tracked_def)
qed

lemma session_invariant: "vm_session fmt gunzip ctx w h \<Longrightarrow> tracked fmt gunzip w h \<and> in_step (sw_vmm w) h"
proof (induction rule: vm_session.induct)
  case (boots w)
  then show ?case by (simp add: tracked_def in_step_def)
next
  case (writes w h i page)
  then have "tracked fmt gunzip (w\<lparr>sw_vmm := guest_writes i page (sw_vmm w)\<rparr>) h"
    by (simp add: tracked_def guest_writes_def)
  then show ?case using writes by (simp add: in_step_writes)
next
  case (others w h w')
  then show ?case using tracked_elsewhere by auto
next
  case (refused w h env opts e w')
  then have inv: "tracked fmt gunzip w h" "in_step (sw_vmm w) h" by simp_all
  then have "vm_delta_mode (sw_vmm w') \<longleftrightarrow> h \<noteq> []" using refused.hyps(3) by (simp add: tracked_def)
  from tracked_failed [OF refused.hyps(2) inv(1) refused.hyps(4) this refused.hyps(5)] inv(2) refused.hyps(3)
  show ?case by simp
next
  case (snapshots w h env opts d w')
  then have inv: "tracked fmt gunzip w h" "in_step (sw_vmm w) h" by simp_all
  have "(if h = [] then vm_ram (sw_vmm w) else patch (snd (hd h)) (dirty_pages (sw_vmm w))) = vm_ram (sw_vmm w)"
    using inv(2) by (simp add: in_step_def patch_dirty)
  with snapshot_extends [OF snapshots.hyps(2,4,5) inv(1) snapshots.hyps(3)]
  show ?case by (simp add: in_step_def)
qed

section \<open>Restoring a checkpoint\<close>

definition restored_ram :: "ram_format \<Rightarrow> (bytes \<Rightarrow> bytes option) \<Rightarrow> path \<Rightarrow> 'v snap_world \<Rightarrow> path \<Rightarrow> bytes list option" where
  "restored_ram fmt gunzip cwd w d =
     (case map_of (sw_docs w) (d @ [''meta.json'']) of
        Some (Some doc) \<Rightarrow>
          (case bind_res (read_checkpoint_chain gunzip cwd (store_of w) (path_text d) (chain_meta_of doc)) combine_vmstate_ram of
             Inl _ \<Rightarrow> None
           | Inr v \<Rightarrow> Some (load_ram fmt (sections v)))
      | _ \<Rightarrow> None)"

lemma tracked_restores:
  assumes "tracked fmt gunzip w h" "(d, ram) \<in> set h"
  shows "restored_ram fmt gunzip cwd w d = Some ram"
proof -
  obtain xs ys where h: "h = xs @ (d, ram) # ys" using assms(2) by (auto simp: in_set_conv_decomp)
  have rec: "recorded gunzip fmt w ((d, ram) # ys)" and "distinct (map fst ((d, ram) # ys))"
    and canonical: "canonical d"
    using assms(1) recorded_suffix by (auto simp: tracked_def h)
  from read_recorded [OF rec this(2), of "[]" "[]"] obtain meta s items where
    chain: "on_disk gunzip w d meta s" "read_chain gunzip (store_of w) [] [] d meta = Inr items" "chain_loads fmt items ram"
    by auto
  obtain v where "combine_vmstate_ram items = Inr v" "load_ram fmt (sections v) = ram"
    using combined_loads [OF chain(3)] by blast
  then show ?thesis
    using chain(1,2) canonical
    by (auto simp: restored_ram_def on_disk_def read_checkpoint_chain_def resolve_path_text)
qed


section \<open>A snapshot that fails after the capture\<close>

definition run_writes :: "(nat \<times> bytes) list \<Rightarrow> ram_vmm \<Rightarrow> ram_vmm" where
  "run_writes ws v = fold (\<lambda>(i, page). guest_writes i page) ws v"

lemma run_writes_simps [simp]:
  "run_writes [] v = v" "run_writes ((i, page) # ws) v = run_writes ws (guest_writes i page v)"
  by (simp_all add: run_writes_def)

lemma run_writes_fields:
  "vm_delta_mode (run_writes ws v) = vm_delta_mode v" "set (vm_dirty (run_writes ws v)) = set (map fst ws) \<union> set (vm_dirty v)"
  "length (vm_ram (run_writes ws v)) = length (vm_ram v)"
  "i \<notin> set (map fst ws) \<Longrightarrow> vm_ram (run_writes ws v) ! i = vm_ram v ! i"
  by (induction ws arbitrary: v) (auto simp: guest_writes_def simp del: set_map simp flip: set_map)

text \<open>C34: A snapshot that fails after the machine has captured costs memory: the machine takes the capture
  for its new base, while the next checkpoint is recorded as a delta on the last that succeeded. What
  the guest wrote before the failed snapshot, and not again after it, is missing in the next checkpoint:
  there it has the pages of the previous one.\<close>

theorem failed_snapshot_loses_pages:
  assumes "vm_session fmt gunzip ctx w ((d0, ram0) # h)"
    and "perform_snapshot_vmstate env1 ctx opts1 w = (Inl e, w1)" "sw_vmm w1 = snd (vmm_dump fmt (sw_vmm w))"
    and "se_can_update env1" "w2 = w1\<lparr>sw_vmm := run_writes ws (sw_vmm w1)\<rparr>"
    and "session_env fmt gunzip env2" "dump_fits fmt (sw_vmm w2)" "perform_snapshot_vmstate env2 ctx opts2 w2 = (Inr d, w3)"
    and "state_file_apart env1 ctx (d0 # map fst h)" "state_file_apart env2 ctx (d # d0 # map fst h)"
  shows "\<exists>ram. restored_ram fmt gunzip cwd w3 d = Some ram \<and> length ram = length ram0 \<and>
    (\<forall>i < length ram0. i \<notin> set (map fst ws) \<longrightarrow> ram ! i = ram0 ! i \<and> vm_ram (sw_vmm w2) ! i = vm_ram (sw_vmm w) ! i)"
proof -
  let ?h = "(d0, ram0) # h" and ?v = "sw_vmm w2"
  have inv: "tracked fmt gunzip w ?h" "in_step (sw_vmm w) ?h" using session_invariant [OF assms(1)] by simp_all
  have "vm_delta_mode (sw_vmm w1)" using assms(3) by (simp add: vmm_dump_def)
  then have "tracked fmt gunzip w1 ?h" using tracked_failed [OF assms(2) inv(1)] assms(9,4) by simp
  then have "tracked fmt gunzip w2 ?h"
    by (simp add: tracked_def assms(5) run_writes_fields)
  from snapshot_extends(1) [OF assms(6,8) _ this assms(7)] assms(10)
  have "tracked fmt gunzip w3 ((d, patch ram0 (dirty_pages ?v)) # ?h)" by simp
  then have restored: "restored_ram fmt gunzip cwd w3 d = Some (patch ram0 (dirty_pages ?v))"
    by (rule tracked_restores) simp
  have dirty: "set (vm_dirty ?v) = set (map fst ws)" and ram: "length (vm_ram ?v) = length ram0"
    and kept: "\<And>i. i \<notin> set (map fst ws) \<Longrightarrow> vm_ram ?v ! i = vm_ram (sw_vmm w) ! i"
    using assms(3) inv(2) by (simp_all add: assms(5) run_writes_fields vmm_dump_def in_step_def)
  show ?thesis
    using restored dirty ram kept by (auto simp: dirty_pages_def patch_nth)
qed

end
