(* ===== verification/Restore_Laws.thy ===== *)
theory Restore_Laws
  imports Restore_Criu Checkpoint_Ram
begin

text \<open>
  What the checks of a restore accept, what is booted after them, and what is left when it fails; and the
  memory that a machine restored from a checkpoint starts with.
\<close>

section \<open>Running the checks\<close>

named_theorems check_runs "rules that run the checks of a restore"

lemma demand_run [check_runs]:
  "demand b c w = (if b then Inr () else Inl (Restore_refused c), w)"
  "bind_eff (demand b c) f w = (if b then f () w else (Inl (Restore_refused c), w))"
  by (simp_all add: demand_def effect_simps)

lemma bind_if_run [check_runs]:
  "bind_eff (if b then m else n) f w = (if b then bind_eff m f w else bind_eff n f w)"
  by simp

lemma conditional_run [check_runs]: "(if b then m else n) w = (if b then m w else n w)"
  by simp

definition artifact_ok :: "(bytes \<Rightarrow> bytes) \<Rightarrow> host \<Rightarrow> string \<Rightarrow> identity \<Rightarrow> bool" where
  "artifact_ok sha256 host p expected \<longleftrightarrow>
     (\<exists>f. host p = Some f \<and> length (content f) = id_size expected \<and> sha256 (content f) = id_sha256 expected)"

lemma host_file_there: "host_of w p = Some f \<Longrightarrow> path_exists w (resolve [] p)"
  by (auto simp: host_of_def path_exists_def known_paths_def list_ex_iff Let_def under_def
      dest!: map_of_SomeD split: option.splits intro!: bexI)

text \<open>\<open>External\<close> artifacts are hashed; nothing is remembered.\<close>

lemma validate_external:
  "snd (validate_identity env p expected External w) = w"
  "fst (validate_identity env p expected External w) = Inr () \<longleftrightarrow>
     artifact_ok (se_sha256 (re_snap env)) (host_of (rw_host w)) p expected"
  by (auto simp: validate_identity_def check_runs effect_simps file_there_def computed_identity_def bind_eff_def
      host_result_def file_identity_def stat_file_def read_chunks_all identity_agrees_def artifact_ok_def
      split: option.splits sum.splits dest: host_file_there)

definition known_identity :: "(bytes \<Rightarrow> bytes) \<Rightarrow> host \<Rightarrow> identity_caches \<Rightarrow> string \<Rightarrow> host_file \<Rightarrow> identity" where
  "known_identity sha256 host caches p f =
     (case trusted_identity sha256 host p caches of
        Inr (Some ident, _) \<Rightarrow> ident
      | _ \<Rightarrow> \<lparr>id_path = Some p, id_size = length (content f), id_sha256 = sha256 (content f), id_sample = None\<rparr>)"

definition bundled_ok :: "(bytes \<Rightarrow> bytes) \<Rightarrow> host \<Rightarrow> identity_caches \<Rightarrow> string \<Rightarrow> identity \<Rightarrow> bool" where
  "bundled_ok sha256 host caches p expected \<longleftrightarrow>
     (\<exists>f. host p = Some f \<and>
        (case id_sample expected of
           Some sample \<Rightarrow> length (content f) = id_size expected \<and> sample_sha256 sha256 (content f) = sample
         | None \<Rightarrow> identity_agrees (known_identity sha256 host caches p f) expected))"

lemma trusted_identity_cases:
  assumes "host p = Some f"
  shows "\<exists>r. trusted_identity sha256 host p c = Inr r"
proof (cases "trusted c p")
  case (Some entry)
  then show ?thesis
    using assms by (cases entry) (auto simp: trusted_identity_def identity_stamp_of_def stat_file_def Let_def)
qed (simp add: trusted_identity_def)

definition untouched :: "'v restore_world \<Rightarrow> restore_event list \<times> registry \<times> 'v snap_world" where
  "untouched w = (rw_log w, rw_registry w, (rw_host w)\<lparr>sw_caches := \<lparr>trusted = Map.empty, managed = Map.empty\<rparr>\<rparr>)"

lemma same_host [simp]: "host_of (w\<lparr>sw_caches := c\<rparr>) = host_of w"
  by (simp add: host_of_def cong: option.case_cong)

lemma validate_sample_run:
  "validate_content_sample env p expected w =
     (case id_sample expected of
        None \<Rightarrow> Inr False
      | Some sample \<Rightarrow>
          (case host_of (rw_host w) p of
             None \<Rightarrow> Inl Host_error
           | Some f \<Rightarrow>
               if length (content f) = id_size expected \<and> sample_sha256 (se_sha256 (re_snap env)) (content f) = sample
               then Inr True else Inl (Restore_refused Vmstate_unsupported)), w)"
  by (simp add: validate_content_sample_def check_runs effect_simps split: option.split)

lemma cached_run:
  assumes "host_of (rw_host w) p = Some f"
  obtains c where "cached_identity env p w = (Inr (case trusted_identity (se_sha256 (re_snap env)) (host_of (rw_host w)) p (sw_caches (rw_host w)) of
      Inr (Some ident, _) \<Rightarrow> Some ident | _ \<Rightarrow> None), w\<lparr>rw_host := (rw_host w)\<lparr>sw_caches := c\<rparr>\<rparr>)"
proof -
  obtain ident c where "trusted_identity (se_sha256 (re_snap env)) (host_of (rw_host w)) p (sw_caches (rw_host w)) = Inr (ident, c)"
    using trusted_identity_cases [where host = "host_of (rw_host w)", OF assms] by (metis surj_pair)
  then show ?thesis by (intro that [of c]) (simp add: cached_identity_def split: option.split)
qed

lemma trusted_needs_file: "host p = None \<Longrightarrow> trusted_identity sha256 host p c \<noteq> Inr (Some ident, c')"
  by (auto simp: trusted_identity_def identity_stamp_of_def stat_file_def split: option.splits)

lemma validate_bundled:
  "fst (validate_identity env p expected Bundled w) = Inr () \<longleftrightarrow>
     bundled_ok (se_sha256 (re_snap env)) (host_of (rw_host w)) (sw_caches (rw_host w)) p expected"
proof (cases "host_of (rw_host w) p")
  case None
  then show ?thesis
    by (auto simp: validate_identity_def check_runs effect_simps bundled_ok_def bind_eff_def validate_sample_run
        cached_identity_def computed_identity_def host_result_def file_identity_def stat_file_def
        trusted_needs_file split: option.splits sum.splits prod.splits)
next
  case (Some f)
  let ?sha = "se_sha256 (re_snap env)" and ?host = "host_of (rw_host w)"
  obtain c where c: "cached_identity env p w = (Inr (case trusted_identity ?sha ?host p (sw_caches (rw_host w)) of
      Inr (Some ident, _) \<Rightarrow> Some ident | _ \<Rightarrow> None), w\<lparr>rw_host := (rw_host w)\<lparr>sw_caches := c\<rparr>\<rparr>)"
    using cached_run [OF Some] .
  let ?w = "w\<lparr>rw_host := (rw_host w)\<lparr>sw_caches := c\<rparr>\<rparr>"
  have hashed: "computed_identity env p ?w =
      (Inr \<lparr>id_path = Some p, id_size = length (content f), id_sha256 = ?sha (content f), id_sample = None\<rparr>, ?w)"
    using Some by (simp add: computed_identity_def file_identity_whole host_result_def)
  have there: "file_there (resolve [] p) w" using host_file_there [OF Some] by (simp add: file_there_def)
  show ?thesis
  proof (cases "id_sample expected")
    case None
    have "fst (validate_identity env p expected Bundled w) =
        (if identity_agrees (known_identity ?sha ?host (sw_caches (rw_host w)) p f) expected then Inr () else Inl (Restore_refused Vmstate_unsupported))"
      using there None hashed
      by (simp add: validate_identity_def check_runs effect_simps bind_eff_def [of "validate_content_sample env p expected"] validate_sample_run bind_eff_Inr [where m = "cached_identity env p" and s = w, OF c] bind_eff_Inr [where m = "computed_identity env p", OF hashed] known_identity_def
          split: option.split sum.split)
    then show ?thesis using Some None by (simp add: bundled_ok_def)
  next
    case (Some sample)
    then show ?thesis
      using there \<open>?host p = Some f\<close>
      by (simp add: validate_identity_def check_runs effect_simps bind_eff_def [of "validate_content_sample env p expected"]
          validate_sample_run bundled_ok_def)
  qed
qed

text \<open>Apart from the cache of identities, a check leaves the host, the registry and the log alone.\<close>

lemma kept_demand: "obeys (same part) (demand b c)"
  by (simp add: demand_def kept.basic_rule)

lemma cached_untouched: "obeys (same untouched) (cached_identity env p)"
  by (rule obeysI) (simp add: same_def cached_identity_def untouched_def split: sum.split prod.split)

lemma computed_untouched: "obeys (same untouched) (computed_identity env p)"
  by (rule obeysI) (simp add: same_def computed_identity_def)

lemma validate_untouched: "obeys (same untouched) (validate_identity env p expected source)"
  unfolding validate_identity_def validate_content_sample_def
  by (intro kept.rules kept_demand cached_untouched computed_untouched)

section \<open>What a plan accepts\<close>

definition assets_fit :: "'v restore_env \<Rightarrow> restore_options \<Rightarrow> vmstate_doc \<Rightarrow> string \<Rightarrow> 'v restore_world \<Rightarrow> bool" where
  "assets_fit env opts v rootfs w \<longleftrightarrow>
     (\<exists>ba kern dtb.
        let sha = se_sha256 (re_snap env); host = host_of (rw_host w); there = path_exists (rw_host w) in
        vd_boot_assets v = Some ba \<and>
        ba_id ba = vmstate_boot_assets_id sha (ba_rootfs ba) (ba_kernel ba) (ba_dtb ba) \<and>
        resolve_base_kernel there (re_assets env) (ro_kernel opts) (base_cwd env opts) = Inr kern \<and>
        resolve_base_dtb there (re_assets env) (ro_dtb opts) (base_cwd env opts) = Inr dtb \<and>
        artifact_ok sha host rootfs (ba_rootfs ba) \<and>
        artifact_ok sha host (path_text kern) (ba_kernel ba) \<and>
        rel_option (\<lambda>p. artifact_ok sha host (path_text p)) dtb (ba_dtb ba))"

definition machine_fits :: "'v restore_env \<Rightarrow> vmstate_doc \<Rightarrow> vmstate_facts \<Rightarrow> bool" where
  "machine_fits env v facts \<longleftrightarrow>
     (\<forall>h. vd_topology v = Some h \<and> h \<noteq> [] \<longrightarrow> h_topology_hash (f_header facts) = h) \<and>
     (\<forall>a. vd_arch v = Some a \<longrightarrow> h_arch (f_header facts) \<in> {a, Unknown_arch}) \<and>
     (case vd_arch v of Some a \<Rightarrow> a | None \<Rightarrow> h_arch (f_header facts)) \<in> {se_arch (re_snap env), Unknown_arch}
       \<union> (if se_arch (re_snap env) = Unknown_arch then UNIV else {}) \<and>
     (\<forall>b. vd_backend v = Some b \<and> b \<noteq> Unknown_backend \<and> se_backend (re_snap env) \<noteq> Unknown_backend \<and>
        b \<noteq> se_backend (re_snap env) \<longrightarrow> vmstate_pauth_active v facts = Some False)"

definition memory_fits :: "'v restore_env \<Rightarrow> restore_options \<Rightarrow> vmstate_doc \<Rightarrow> bool" where
  "memory_fits env opts v \<longleftrightarrow>
     (\<forall>m. vd_memory v = Some m \<longrightarrow>
        requested_restore_memory opts (restore_env_memory_mib env opts) \<in> {None, Some (Some (int m))})"

definition disk_fits :: "'v restore_env \<Rightarrow> restore_options \<Rightarrow> vmstate_doc \<Rightarrow> path \<Rightarrow> 'v restore_world \<Rightarrow> bool" where
  "disk_fits env opts v snap_dir w \<longleftrightarrow>
     (let sha = se_sha256 (re_snap env); host = host_of (rw_host w) in
      case vd_root_disk v of
        None \<Rightarrow> ro_root_disk opts \<noteq> None
      | Some Disk_delta \<Rightarrow> False
      | Some Disk_none \<Rightarrow> (\<forall>s. ro_root_disk opts \<noteq> Some (Disk_at s))
      | Some (Disk_block f ident) \<Rightarrow>
          (case ro_root_disk opts of
             Some (Disk_flag False) \<Rightarrow> False
           | Some (Disk_at s) \<Rightarrow> artifact_ok sha host (path_text (resolve (base_cwd env opts) s)) ident
           | _ \<Rightarrow>
               file_there (walk (rev snap_dir) (segments f)) w \<and>
               bundled_ok sha host (sw_caches (rw_host w)) (path_text (walk (rev snap_dir) (segments f))) ident))"

definition bundle_fits ::
    "'v restore_env \<Rightarrow> restore_options \<Rightarrow> snapshot_document \<Rightarrow> path \<Rightarrow> path \<Rightarrow> string \<Rightarrow> 'v restore_world \<Rightarrow> bool" where
  "bundle_fits env opts meta snap_dir state_file rootfs w \<longleftrightarrow>
     (\<exists>raw facts v.
        map_of (sw_blobs (rw_host w)) state_file = Some raw \<and>
        read_vmstate_facts (se_gunzip (re_snap env)) raw = Inr facts \<and>
        sd_vmstate meta = Some v \<and>
        machine_fits env v facts \<and> assets_fit env opts v rootfs w \<and> memory_fits env opts v \<and>
        disk_fits env opts v snap_dir w)"

definition passes :: "('s, 'e, 'a) effect \<Rightarrow> 's \<Rightarrow> bool" where
  "passes m w \<longleftrightarrow> (\<exists>x. fst (m w) = Inr x)"

lemma passes_bind: "snd (m w) = w \<Longrightarrow> passes (bind_eff m f) w \<longleftrightarrow> (\<exists>x. fst (m w) = Inr x \<and> passes (f x) w)"
  by (cases rule: bind_eff_cases [of m w f]) (auto simp: passes_def)

lemma passes_basic [simp]:
  "passes (return_eff x) w" "\<not> passes (throw_eff e) w" "passes (demand b c) w \<longleftrightarrow> b"
  "snd (demand b c w) = w" "snd (return_eff x w) = w" "snd (throw_eff e w) = w" "snd (gets_eff g w) = w"
  "fst (gets_eff g w) = Inr (g w)" "fst (demand b c w) = Inr u \<longleftrightarrow> b"
  by (simp_all add: passes_def demand_def effect_defs)

lemma passes_unit: "passes m w \<longleftrightarrow> fst (m w) = Inr ()" for m :: "('s, 'e, unit) effect"
  by (simp add: passes_def)

lemma passes_bind_unit:
  "snd (m w) = w \<Longrightarrow> passes (bind_eff m f) w \<longleftrightarrow> passes m w \<and> passes (f ()) w" for m :: "('s, 'e, unit) effect"
  by (simp add: passes_bind passes_unit [of m])

lemma facts_run:
  "snd (read_facts_or_boot_error env p w) = w"
  "fst (read_facts_or_boot_error env p w) = Inr facts \<longleftrightarrow>
     (\<exists>raw. map_of (sw_blobs (rw_host w)) p = Some raw \<and> read_vmstate_facts (se_gunzip (re_snap env)) raw = Inr facts)"
  by (auto simp: read_facts_or_boot_error_def split: option.split sum.split)

lemma topology_run:
  "snd (validate_vmstate_topology v facts w) = w"
  "passes (validate_vmstate_topology v facts) w \<longleftrightarrow>
     (\<forall>h. vd_topology v = Some h \<and> h \<noteq> [] \<longrightarrow> h_topology_hash (f_header facts) = h)"
  by (auto simp: validate_vmstate_topology_def split: option.split)

lemma bind_demand_snd: "snd (bind_eff (demand b c) (\<lambda>_. demand b' c') w) = w"
  by (simp add: check_runs)

lemma arch_run:
  "snd (validate_vmstate_guest_arch env v facts w) = w"
  "passes (validate_vmstate_guest_arch env v facts) w \<longleftrightarrow>
     (\<forall>a. vd_arch v = Some a \<longrightarrow> h_arch (f_header facts) \<in> {a, Unknown_arch}) \<and>
     (case vd_arch v of Some a \<Rightarrow> a | None \<Rightarrow> h_arch (f_header facts)) \<in> {se_arch (re_snap env), Unknown_arch}
       \<union> (if se_arch (re_snap env) = Unknown_arch then UNIV else {})"
  by (auto simp: validate_vmstate_guest_arch_def Let_def bind_demand_snd passes_bind split: option.splits)

lemma backend_run:
  "snd (validate_vmstate_backend_and_pauth env v facts w) = w"
  "passes (validate_vmstate_backend_and_pauth env v facts) w \<longleftrightarrow>
     (\<forall>b. vd_backend v = Some b \<and> b \<noteq> Unknown_backend \<and> se_backend (re_snap env) \<noteq> Unknown_backend \<and>
        b \<noteq> se_backend (re_snap env) \<longrightarrow> vmstate_pauth_active v facts = Some False)"
  by (auto simp: validate_vmstate_backend_and_pauth_def is_cross_vmm_restore_def Let_def split: option.splits)

lemma base_runs:
  "snd (base_kernel_of env opts w) = w" "snd (base_dtb_of env opts w) = w"
  "fst (base_kernel_of env opts w) = Inr k \<longleftrightarrow>
     resolve_base_kernel (path_exists (rw_host w)) (re_assets env) (ro_kernel opts) (base_cwd env opts) = Inr k"
  "fst (base_dtb_of env opts w) = Inr d \<longleftrightarrow>
     resolve_base_dtb (path_exists (rw_host w)) (re_assets env) (ro_dtb opts) (base_cwd env opts) = Inr d"
  by (auto simp: base_kernel_of_def base_dtb_of_def asset_result_def split: sum.split)

lemma dtb_run:
  "snd (validate_boot_assets_dtb env expected actual w) = w"
  "passes (validate_boot_assets_dtb env expected actual) w \<longleftrightarrow>
     rel_option (\<lambda>p. artifact_ok (se_sha256 (re_snap env)) (host_of (rw_host w)) (path_text p)) actual expected"
  by (auto simp: validate_boot_assets_dtb_def validate_external passes_unit [of "validate_identity env p i External" for p i]
      split: option.split)

lemma snd_bind: "snd (m w) = w \<Longrightarrow> (\<And>x. snd (f x w) = w) \<Longrightarrow> snd (bind_eff m f w) = w"
  by (cases "m w"; cases "fst (m w)") (auto simp: bind_eff_def)

lemma assets_run:
  "snd (validate_vmstate_boot_assets env opts v rootfs w) = w"
  "passes (validate_vmstate_boot_assets env opts v rootfs) w \<longleftrightarrow> assets_fit env opts v rootfs w"
proof -
  show "snd (validate_vmstate_boot_assets env opts v rootfs w) = w"
    unfolding validate_vmstate_boot_assets_def validate_boot_assets_id_def
    by (auto intro!: snd_bind simp: base_runs validate_external dtb_run split: option.split)
  show "passes (validate_vmstate_boot_assets env opts v rootfs) w \<longleftrightarrow> assets_fit env opts v rootfs w"
    by (auto simp: validate_vmstate_boot_assets_def validate_boot_assets_id_def passes_bind base_runs validate_external
        dtb_run assets_fit_def Let_def split: option.split)
qed

lemma memory_run:
  "snd (resolve_vmstate_memory_ceiling env opts v w) = w"
  "passes (resolve_vmstate_memory_ceiling env opts v) w \<longleftrightarrow> memory_fits env opts v"
  by (auto simp: resolve_vmstate_memory_ceiling_def validate_vmstate_memory_ceiling_def memory_fits_def Let_def passes_bind
      check_runs effect_simps split: option.split)

lemma bundled_disk_passes:
  "passes (bind_eff (validate_identity env p ident source) (\<lambda>_. return_eff x)) w \<longleftrightarrow>
     fst (validate_identity env p ident source w) = Inr ()"
  by (cases rule: bind_eff_cases [of "validate_identity env p ident source" w "\<lambda>_. return_eff x"])
    (auto simp: passes_def return_eff_def)

lemma disk_run: "passes (resolve_vmstate_root_disk env opts v snap_dir) w \<longleftrightarrow> disk_fits env opts v snap_dir w"
  by (auto simp: resolve_vmstate_root_disk_def resolve_missing_root_disk_def resolve_none_root_disk_def
      resolve_file_root_disk_def disk_fits_def Let_def passes_bind bundled_disk_passes validate_external validate_bundled
      split: option.split recorded_disk.split disk_option.split bool.split)

lemma plan_run: "passes (plan_vmstate_restore env opts meta snap_dir state_file rootfs) w \<longleftrightarrow>
    bundle_fits env opts meta snap_dir state_file rootfs w"
proof -
  have last: "passes (bind_eff m (\<lambda>x. return_eff (f x))) w \<longleftrightarrow> passes m w" for m :: "('a restore_world, restore_error, 'b) effect" and f w
    by (cases rule: bind_eff_cases [of m w "\<lambda>x. return_eff (f x)"]) (auto simp: passes_def return_eff_def)
  have "passes (plan_vmstate_restore env opts meta snap_dir state_file rootfs) w \<longleftrightarrow>
      (\<exists>facts v. fst (read_facts_or_boot_error env state_file w) = Inr facts \<and> sd_vmstate meta = Some v \<and>
        machine_fits env v facts \<and> assets_fit env opts v rootfs w \<and> memory_fits env opts v \<and> disk_fits env opts v snap_dir w)"
  proof (cases "sd_vmstate meta")
    case None
    then show ?thesis by (simp add: plan_vmstate_restore_def passes_bind facts_run(1))
  next
    case (Some v)
    have memory: "(\<exists>x. fst (resolve_vmstate_memory_ceiling env opts v w) = Inr x) \<longleftrightarrow> memory_fits env opts v"
      using memory_run(2) by (simp add: passes_def)
    have machine: "machine_fits env v facts \<longleftrightarrow> passes (validate_vmstate_topology v facts) w \<and>
        passes (validate_vmstate_guest_arch env v facts) w \<and> passes (validate_vmstate_backend_and_pauth env v facts) w" for facts
      by (simp only: machine_fits_def topology_run arch_run backend_run conj_assoc)
    show ?thesis
      by (simp add: plan_vmstate_restore_def Some passes_bind [OF facts_run(1)] passes_bind [OF memory_run(1)]
          passes_bind_unit topology_run(1) arch_run(1) backend_run(1) assets_run last disk_run memory machine conj_assoc)
  qed
  then show ?thesis by (auto simp: bundle_fits_def facts_run(2))
qed

lemma kept_host_lift: "(\<And>w. snd (m w) = w) \<Longrightarrow> obeys (same part) m"
  by (rule obeysI) (simp add: same_def)

lemmas checks_lifted = kept_host_lift [OF facts_run(1)] kept_host_lift [OF topology_run(1)] kept_host_lift [OF arch_run(1)]
  kept_host_lift [OF backend_run(1)] kept_host_lift [OF assets_run(1)] kept_host_lift [OF memory_run(1)]

lemma disk_untouched: "obeys (same untouched) (resolve_vmstate_root_disk env opts v snap_dir)"
proof -
  have "obeys (same untouched) (resolve_file_root_disk env opts snap_dir f ident)" for f ident
    unfolding resolve_file_root_disk_def Let_def
    by (auto intro!: kept.rules kept_demand validate_untouched split: option.split disk_option.split bool.split)
  moreover have "obeys (same untouched) (resolve_missing_root_disk opts)" "obeys (same untouched) (resolve_none_root_disk opts)"
    by (auto simp: resolve_missing_root_disk_def resolve_none_root_disk_def intro!: kept.basic_rule
        split: option.split disk_option.split)
  ultimately show ?thesis
    by (auto simp: resolve_vmstate_root_disk_def intro!: kept.basic_rule split: option.split recorded_disk.split)
qed

lemma plan_untouched: "obeys (same untouched) (plan_vmstate_restore env opts meta snap_dir state_file rootfs)"
  unfolding plan_vmstate_restore_def
  by (intro kept.bind_rule kept.option_rule kept.basic_rule disk_untouched checks_lifted)

text \<open>The values of the plan\<close>

definition planned_disk :: "'v restore_env \<Rightarrow> restore_options \<Rightarrow> vmstate_doc \<Rightarrow> path \<Rightarrow> disk_plan" where
  "planned_disk env opts v snap_dir =
     (case vd_root_disk v of
        Some Disk_none \<Rightarrow> \<lparr>dp_root_disk = Some (Disk_flag False), dp_restore_path = None\<rparr>
      | Some (Disk_block f ident) \<Rightarrow>
          (case ro_root_disk opts of
             Some (Disk_at s) \<Rightarrow> \<lparr>dp_root_disk = Some (Disk_at (path_text (resolve (base_cwd env opts) s))), dp_restore_path = None\<rparr>
           | _ \<Rightarrow> \<lparr>dp_root_disk = None, dp_restore_path = Some (walk (rev snap_dir) (segments f))\<rparr>)
      | _ \<Rightarrow> \<lparr>dp_root_disk = ro_root_disk opts, dp_restore_path = None\<rparr>)"

definition planned_memory :: "'v restore_env \<Rightarrow> restore_options \<Rightarrow> vmstate_doc \<Rightarrow> nat option" where
  "planned_memory env opts v =
     (if should_apply_snapshot_memory_ceiling opts (restore_env_memory_mib env opts) then vd_memory v else None)"

lemma validated_returns:
  "fst (bind_eff (validate_identity env p ident source) (\<lambda>_. return_eff x) w) = Inr y \<Longrightarrow> y = x"
  by (auto simp: fst_bind_eff_Inr return_eff_def)

lemma disk_value:
  "fst (resolve_vmstate_root_disk env opts v snap_dir w) = Inr plan \<Longrightarrow> plan = planned_disk env opts v snap_dir"
  by (auto simp: resolve_vmstate_root_disk_def resolve_missing_root_disk_def resolve_none_root_disk_def
      resolve_file_root_disk_def planned_disk_def Let_def throw_eff_def return_eff_def demand_def fst_bind_eff_Inr
      split: option.splits recorded_disk.splits disk_option.splits bool.splits if_splits)

lemma memory_value:
  "fst (resolve_vmstate_memory_ceiling env opts v w) = Inr m \<Longrightarrow> m = planned_memory env opts v"
  by (auto simp: resolve_vmstate_memory_ceiling_def planned_memory_def Let_def fst_bind_eff_Inr return_eff_def
      split: option.splits if_splits)

lemma plan_value:
  assumes "fst (plan_vmstate_restore env opts meta snap_dir state_file rootfs w) = Inr plan" "sd_vmstate meta = Some v"
  shows "plan = \<lparr>rp_memory = planned_memory env opts v, rp_disk = planned_disk env opts v snap_dir\<rparr>"
  using assms
  by (auto simp: plan_vmstate_restore_def fst_bind_eff_Inr return_eff_def dest!: disk_value memory_value)

section \<open>Booting and reseeding\<close>

lemma boot_machine_run:
  "boot_machine env req w =
     (case re_boot env req (rw_host w) (rw_registry w) of
        (started, host, reg) \<Rightarrow>
          (case started of None \<Rightarrow> Inl Boot_throws | Some pid \<Rightarrow> Inr \<lparr>vh_pid = pid, vh_name = br_name req\<rparr>,
           w\<lparr>rw_host := host, rw_registry := reg,
             rw_log := rw_log w @ Boot_asked req (read_blob (br_state req) w) (read_blob (br_disk_restore req) w) (read_blob (br_scratch req) w)
               # (case started of None \<Rightarrow> [] | Some pid \<Rightarrow> [Started pid])\<rparr>))"
  by (simp add: boot_machine_def log_restore_def effect_simps split: prod.split option.split)

definition reseed_code :: "'v restore_env \<Rightarrow> int option" where
  "reseed_code env = (if re_has_direct env \<and> re_direct env \<noteq> None then re_direct env else re_shell env)"

definition reseed_log :: "'v restore_env \<Rightarrow> restore_event list" where
  "reseed_log env =
     (if re_has_direct env then [Reseed_request (re_seed env)] else []) @
     (if re_has_direct env \<and> re_direct env \<noteq> None then []
      else [Shell_command (reseed_shell_command (hex_text (re_seed env)) (re_time_text env))])"

lemma reseed_run:
  "\<exists>mode. reseed_guest_entropy env w =
     (if reseed_code env = Some 0 then Inr mode else Inl (Restore_refused Reseed_failed), w\<lparr>rw_log := rw_log w @ reseed_log env\<rparr>)"
  by (cases "re_direct env"; cases "re_shell env"; cases "re_has_direct env")
    (auto simp: reseed_guest_entropy_def reseed_shell_def log_restore_def effect_defs demand_def reseed_code_def reseed_log_def)

section \<open>What is booted\<close>

definition image_fits :: "'v restore_env \<Rightarrow> restore_options \<Rightarrow> snapshot_document \<Rightarrow> 'v restore_world \<Rightarrow> string \<Rightarrow> bool" where
  "image_fits env opts meta w rootfs \<longleftrightarrow>
     (case truthy (ro_image opts) of
        Some img \<Rightarrow> rootfs = path_text (resolve (base_cwd env opts) img) \<and> file_there (resolve (base_cwd env opts) img) w
      | None \<Rightarrow> sd_source_image meta = Some rootfs \<and> rootfs \<noteq> '''' \<and> file_there (resolve [] rootfs) w)"

definition overlay_of :: "path \<Rightarrow> snapshot_document \<Rightarrow> (string \<times> path \<times> path) option" where
  "overlay_of snap_dir meta =
     map_option (\<lambda>ov. (ov_guest ov, walk (rev snap_dir) (segments (ov_lower ov)), walk (rev snap_dir) (segments (ov_upper ov))))
       (sd_mount_disk meta)"

definition overlay_fits :: "path \<Rightarrow> snapshot_document \<Rightarrow> 'v restore_world \<Rightarrow> bool" where
  "overlay_fits snap_dir meta w \<longleftrightarrow>
     (\<forall>guest lower upper. overlay_of snap_dir meta = Some (guest, lower, upper) \<longrightarrow> file_there lower w \<and> file_there upper w)"

lemma image_run:
  "snd (resolve_restore_image env opts meta w) = w"
  "fst (resolve_restore_image env opts meta w) = Inr rootfs \<longleftrightarrow> image_fits env opts meta w rootfs"
  by (auto simp: resolve_restore_image_def image_fits_def Let_def check_runs effect_simps split: option.split)

lemma overlay_run:
  "resolve_restore_mount_disk snap_dir meta w =
     (if overlay_fits snap_dir meta w then Inr (overlay_of snap_dir meta) else Inl (Restore_refused Bundle_not_found), w)"
  by (auto simp: resolve_restore_mount_disk_def overlay_fits_def overlay_of_def Let_def check_runs effect_simps split: option.split)

lemma refusing_run [check_runs]:
  "refusing (Inr x) = return_eff x" "refusing (Inl c) = throw_eff (Restore_refused c)"
  by (simp_all add: refusing_def effect_defs)

lemma untouched_eq:
  assumes "untouched w' = untouched w"
  shows "rw_log w' = rw_log w" "rw_registry w' = rw_registry w" "sw_blobs (rw_host w') = sw_blobs (rw_host w)"
    "sw_docs (rw_host w') = sw_docs (rw_host w)" "sw_dirs (rw_host w') = sw_dirs (rw_host w)"
    "file_there p w' = file_there p w" "read_blob q w' = read_blob q w"
proof -
  have host: "(rw_host w')\<lparr>sw_caches := c\<rparr> = (rw_host w)\<lparr>sw_caches := c\<rparr>" for c
    using arg_cong [OF assms, of "\<lambda>x. (snd (snd x))\<lparr>sw_caches := c\<rparr>"] by (simp add: untouched_def)
  show parts: "sw_blobs (rw_host w') = sw_blobs (rw_host w)" "sw_docs (rw_host w') = sw_docs (rw_host w)"
    "sw_dirs (rw_host w') = sw_dirs (rw_host w)"
    using arg_cong [OF host, of sw_blobs] arg_cong [OF host, of sw_docs] arg_cong [OF host, of sw_dirs] by simp_all
  show "rw_log w' = rw_log w" "rw_registry w' = rw_registry w" using assms by (simp_all add: untouched_def)
  show "file_there p w' = file_there p w" "read_blob q w' = read_blob q w"
    using parts by (simp_all add: file_there_def path_exists_def known_paths_def read_blob_def)
qed

definition restore_fits ::
    "'v restore_env \<Rightarrow> restore_options \<Rightarrow> path \<Rightarrow> prepared_bundle \<Rightarrow> string \<Rightarrow> mount_request list option \<Rightarrow> 'v restore_world \<Rightarrow> bool" where
  "restore_fits env opts snap_dir pb rootfs mounts w \<longleftrightarrow>
     image_fits env opts (pb_meta pb) w rootfs \<and>
     bundle_fits env opts (pb_meta pb) (pb_dir pb) (pb_state pb) rootfs w \<and>
     resolve_restore_live_mounts (sd_live_mounts (pb_meta pb)) (ro_live_mounts opts) = Inr mounts \<and>
     overlay_fits snap_dir (pb_meta pb) w"

text \<open>The request after these checks\<close>

definition checked_request ::
    "'v restore_env \<Rightarrow> restore_options \<Rightarrow> path \<Rightarrow> prepared_bundle \<Rightarrow> string \<Rightarrow> mount_request list option \<Rightarrow> boot_request" where
  "checked_request env opts snap_dir pb rootfs mounts =
     (let v = the (sd_vmstate (pb_meta pb)) in
      vmstate_boot_request opts snap_dir pb rootfs
        \<lparr>rp_memory = planned_memory env opts v, rp_disk = planned_disk env opts v (pb_dir pb)\<rparr> mounts
        (overlay_of snap_dir (pb_meta pb)))"

lemma image_unique: "image_fits env opts meta w r \<Longrightarrow> image_fits env opts meta w r' \<Longrightarrow> r' = r"
  by (auto simp: image_fits_def split: option.splits)

lemma run_cases:
  obtains (throws) e s' where "m s = (Inl e, s')" | (goes_on) x s' where "m s = (Inr x, s')"
  by (cases "m s"; cases "fst (m s)") auto

lemma start_run:
  obtains (refused) e w' where "start_prepared env opts snap_dir pb w = (Inl e, w')" "untouched w' = untouched w"
      "\<not> (\<exists>rootfs mounts. restore_fits env opts snap_dir pb rootfs mounts w)"
    | (asked) rootfs mounts w' where "restore_fits env opts snap_dir pb rootfs mounts w" "untouched w' = untouched w"
      "start_prepared env opts snap_dir pb w =
         bind_eff (boot_machine env (checked_request env opts snap_dir pb rootfs mounts))
           (\<lambda>vm. bind_eff (reseed_guest_entropy env) (\<lambda>_. return_eff vm)) w'"
proof (cases rule: run_cases [of "resolve_restore_image env opts (pb_meta pb)" w])
  case (throws e s')
  then have "s' = w" "\<not> image_fits env opts (pb_meta pb) w r" for r
    using image_run [of env opts "pb_meta pb" w] by auto
  then show ?thesis using throws refused [of e w] by (auto simp: start_prepared_def restore_fits_def bind_eff_Inl)
next
  case (goes_on rootfs s')
  then have image: "s' = w" "image_fits env opts (pb_meta pb) w rootfs"
    using image_run [of env opts "pb_meta pb" w] by auto
  let ?plan = "plan_vmstate_restore env opts (pb_meta pb) (pb_dir pb) (pb_state pb) rootfs"
  show ?thesis
  proof (cases rule: run_cases [of ?plan w])
    case (throws e w1)
    then have w1: "untouched w1 = untouched w" "\<not> passes ?plan w"
      using obeys_run [OF plan_untouched throws] by (simp_all add: same_def passes_def)
    have "\<not> restore_fits env opts snap_dir pb r mounts w" for r mounts
      using w1(2) image_unique [OF image(2), of r] by (auto simp: restore_fits_def plan_run)
    moreover have "start_prepared env opts snap_dir pb w = (Inl e, w1)"
      using goes_on throws image(1) by (simp add: start_prepared_def bind_eff_Inl bind_eff_Inr)
    ultimately show ?thesis using refused w1(1) by blast
  next
    case (goes_on plan w1)
    have plan: "untouched w1 = untouched w" "bundle_fits env opts (pb_meta pb) (pb_dir pb) (pb_state pb) rootfs w"
      using obeys_run [OF plan_untouched goes_on(1)] goes_on(1)
      by (simp_all add: same_def passes_def flip: plan_run)
    then obtain v where v: "sd_vmstate (pb_meta pb) = Some v" by (auto simp: bundle_fits_def)
    have chosen: "plan = \<lparr>rp_memory = planned_memory env opts v, rp_disk = planned_disk env opts v (pb_dir pb)\<rparr>"
      using plan_value [OF _ v, of env opts "pb_dir pb" "pb_state pb" rootfs w plan] goes_on(1) by simp
    have overlay: "overlay_fits snap_dir (pb_meta pb) w1 = overlay_fits snap_dir (pb_meta pb) w"
      using untouched_eq [OF plan(1)] by (simp add: overlay_fits_def)
    have start: "start_prepared env opts snap_dir pb w =
        bind_eff (boot_vmstate_restore env opts snap_dir pb rootfs plan) (\<lambda>vm. bind_eff (reseed_guest_entropy env) (\<lambda>_. return_eff vm)) w1"
      using \<open>resolve_restore_image env opts (pb_meta pb) w = (Inr rootfs, s')\<close> image(1) goes_on(1)
      by (simp add: start_prepared_def bind_eff_Inr)
    show ?thesis
    proof (cases "resolve_restore_live_mounts (sd_live_mounts (pb_meta pb)) (ro_live_mounts opts)")
      case (Inl c)
      then show ?thesis using refused [of "Restore_refused c" w1] plan(1) start
        by (simp add: boot_vmstate_restore_def check_runs effect_simps restore_fits_def bind_eff_Inl)
    next
      case (Inr mounts)
      have boot: "boot_vmstate_restore env opts snap_dir pb rootfs plan w1 =
          (if overlay_fits snap_dir (pb_meta pb) w then boot_machine env (checked_request env opts snap_dir pb rootfs mounts) w1
           else (Inl (Restore_refused Bundle_not_found), w1))"
        by (simp add: boot_vmstate_restore_def Inr check_runs effect_simps bind_eff_def [of "resolve_restore_mount_disk snap_dir (pb_meta pb)"]
            overlay_run overlay checked_request_def v chosen)
      show ?thesis
      proof (cases "overlay_fits snap_dir (pb_meta pb) w")
        case True
        then show ?thesis using asked [of rootfs mounts w1] plan image Inr start boot
          by (simp add: restore_fits_def bind_eff_def)
      next
        case False
        then show ?thesis using refused [of "Restore_refused Bundle_not_found" w1] plan(1) start boot
          by (simp add: restore_fits_def bind_eff_def)
      qed
    qed
  qed
qed

end
