(* ===== verification/Restore_Outcome.thy ===== *)
theory Restore_Outcome
  imports Restore_Laws
begin

text \<open>
  What comes of a restore of a whole-machine bundle: when it asks for a machine and for which, the order of
  what it does, what it leaves behind, and the memory the machine starts with.
\<close>

section \<open>The chain of the bundle\<close>

lemma materialize_keeps:
  assumes "materialize_chain_if_needed env pb w = (r, w')"
  shows "rw_log w' = rw_log w" "rw_registry w' = rw_registry w"
  using assms
  by (auto simp: materialize_chain_if_needed_def return_eff_def after_materialize_def Let_def split: if_splits prod.splits sum.splits)

lemma materialized_in_temp:
  assumes "materialize_vmstate_chain gz sha accept cwd temp dir meta st = (Inr m, st')"
  shows "temp_dir_of m = temp" "state_path m = temp @ [VMSTATE_FILE]"
  using assms
  by (auto simp: materialize_vmstate_chain_def materialize_in_def Let_def split: sum.splits bool.splits prod.splits if_splits)

lemma prepared_cases [consumes 1]:
  assumes "materialize_chain_if_needed env (initial_restore_bundle d w) w = (Inr pb, w1)"
  obtains (plain) "checkpoint_parent_of (read_snapshot_meta d w) = None" "pb = initial_restore_bundle d w" "w1 = w"
    | (chain) m st where "checkpoint_parent_of (read_snapshot_meta d w) \<noteq> None" "pb_temp pb = Some (re_temp env)" "pb_state pb = state_path m"
      "materialize_vmstate_chain (se_gunzip (re_snap env)) (se_sha256 (re_snap env)) (re_accept env) (process_cwd env) (re_temp env)
         (path_text d) (chain_meta_of (read_snapshot_meta d w)) (store_of (rw_host w)) = (Inr m, st)"
      "w1 = after_materialize env True st w"
proof (cases "checkpoint_parent_of (read_snapshot_meta d w)")
  case None
  then show ?thesis
    using assms by (intro plain) (auto simp: materialize_chain_if_needed_def initial_restore_bundle_def return_eff_def)
next
  case (Some parent)
  obtain r st where run: "materialize_vmstate_chain (se_gunzip (re_snap env)) (se_sha256 (re_snap env)) (re_accept env) (process_cwd env) (re_temp env)
      (path_text d) (chain_meta_of (read_snapshot_meta d w)) (store_of (rw_host w)) = (r, st)" by fastforce
  then obtain m where m: "r = Inr m"
    using assms Some by (cases r) (simp_all add: materialize_chain_if_needed_def initial_restore_bundle_def)
  then show ?thesis
    using assms Some run materialized_in_temp(1) [OF run [unfolded m]]
    by (intro chain [of m st]) (auto simp: materialize_chain_if_needed_def initial_restore_bundle_def)
qed

section \<open>The last steps\<close>

text \<open>Naming and stamping the hostname leave the files alone and ask for no machine.\<close>

definition stamp_log :: "vm_handle \<Rightarrow> restore_event list" where
  "stamp_log vm = (case build_guest_hostname (vh_pid vm) (vh_name vm) of
     None \<Rightarrow> [] | Some hostname \<Rightarrow> [Shell_command (hostname_command hostname)])"

definition finish_restore :: "'v restore_env \<Rightarrow> restore_options \<Rightarrow> snapshot_document \<Rightarrow> vm_handle \<Rightarrow> ('v, vm_handle) restoring" where
  "finish_restore env opts meta vm =
     bind_eff (auto_name env opts meta vm) (\<lambda>named.
     bind_eff (restamp_restored_hostname named) (\<lambda>_.
       return_eff named))"

definition hostname_char :: "char \<Rightarrow> bool" where
  "hostname_char c \<longleftrightarrow> is_hostname_alnum c \<or> c = CHR ''-''"

lemma sanitized_chars: "list_all hostname_char acc \<Longrightarrow> list_all hostname_char (sanitize_hostname acc s)"
proof (induction acc s rule: sanitize_hostname.induct)
  case (1 acc)
  then show ?case by (auto simp: list_all_iff dest: set_dropWhileD)
qed (simp_all add: hostname_char_def)

lemma digits_hostname: "is_digit c \<Longrightarrow> hostname_char c"
  by (auto simp: is_digit_def hostname_char_def is_hostname_alnum_def)

lemma pid_text_chars: "list_all hostname_char (pid_text pid)"
  using digits_hostname by (auto simp: pid_text_def list_all_iff hostname_char_def dest: dec_string_digit)

lemma hostname_chars:
  assumes "build_guest_hostname pid name = Some hostname"
  shows "hostname \<noteq> ''''" "list_all hostname_char hostname"
proof -
  have parts: "list_all hostname_char ''vm''" "list_all hostname_char ''-pid-''"
    by (simp_all add: hostname_char_def is_hostname_alnum_def)
  have base: "list_all hostname_char (sanitize_hostname [] n)" for n by (rule sanitized_chars) simp
  show "hostname \<noteq> ''''" "list_all hostname_char hostname"
    using assms base pid_text_chars parts
    by (auto simp: build_guest_hostname_def Let_def split: if_splits option.splits)
qed

lemma restamp_run: "restamp_restored_hostname vm w = (Inr (), w\<lparr>rw_log := rw_log w @ stamp_log vm\<rparr>)"
proof (cases "build_guest_hostname (vh_pid vm) (vh_name vm)")
  case (Some hostname)
  have "CHR 0x27 \<notin> set hostname" "nl_char \<notin> set hostname" "CHR 0x00 \<notin> set hostname" "hostname \<noteq> ''''"
    using hostname_chars [OF Some] by (auto simp: list_all_iff hostname_char_def is_hostname_alnum_def)
  then show ?thesis
    by (simp add: restamp_restored_hostname_def Some set_guest_hostname_def log_restore_def effect_simps stamp_log_def)
qed (simp add: restamp_restored_hostname_def stamp_log_def effect_simps)

lemma finish_run:
  obtains (throws) e reg where "finish_restore env opts meta vm w = (Inl e, w\<lparr>rw_registry := reg\<rparr>)"
    | (named) name reg where "finish_restore env opts meta vm w =
        (Inr (vm\<lparr>vh_name := name\<rparr>), w\<lparr>rw_registry := reg, rw_log := rw_log w @ stamp_log (vm\<lparr>vh_name := name\<rparr>)\<rparr>)"
proof -
  obtain r reg where run: "auto_name_restored_fork (re_processes env) (ro_name opts) (sd_source_name meta) (vh_pid vm) (rw_registry w) = (r, reg)"
    by fastforce
  show ?thesis
  proof (cases r)
    case (Inl c)
    then show ?thesis using run throws by (simp add: finish_restore_def auto_name_def bind_eff_def)
  next
    case (Inr name)
    then show ?thesis using run named [of name reg]
      by (simp add: finish_restore_def auto_name_def bind_eff_def restamp_run return_eff_def)
  qed
qed

lemma restore_vmstate_split:
  "restore_vmstate env opts d w =
     (case materialize_chain_if_needed env (initial_restore_bundle d w) w of
        (Inl e, w1) \<Rightarrow> (Inl e, w1)
      | (Inr pb, w1) \<Rightarrow>
          bind_eff (finally_eff (start_prepared env opts d pb) (cleanup_materialized (pb_temp pb)))
            (finish_restore env opts (pb_meta pb)) w1)"
  by (simp add: restore_vmstate_def finish_restore_def [abs_def] effect_simps bind_eff_def split: prod.split sum.split)

section \<open>A run from the prepared bundle\<close>

definition cleaned :: "prepared_bundle \<Rightarrow> 'v snap_world \<Rightarrow> 'v snap_world" where
  "cleaned pb host = (case pb_temp pb of None \<Rightarrow> host | Some temp \<Rightarrow> remove_dir temp host)"

text \<open>What is left, once the machine is asked for: \<open>events\<close> follow in the log, and \<open>r\<close> is the result.\<close>

definition outcome :: "'v restore_env \<Rightarrow> int option \<Rightarrow> restore_event list \<Rightarrow> restore_error + vm_handle \<Rightarrow> bool" where
  "outcome env started events r \<longleftrightarrow>
     (case started of
        None \<Rightarrow> events = [] \<and> r = Inl Boot_throws
      | Some pid \<Rightarrow>
          if reseed_code env \<noteq> Some 0 then events = Started pid # reseed_log env \<and> r = Inl (Restore_refused Reseed_failed)
          else
            (case r of
               Inl _ \<Rightarrow> events = Started pid # reseed_log env
             | Inr vm \<Rightarrow> vh_pid vm = pid \<and> events = Started pid # reseed_log env @ stamp_log vm))"

definition asked_event ::
    "'v restore_env \<Rightarrow> restore_options \<Rightarrow> path \<Rightarrow> prepared_bundle \<Rightarrow> string \<Rightarrow> mount_request list option \<Rightarrow> 'v restore_world \<Rightarrow> restore_event" where
  "asked_event env opts snap_dir pb rootfs mounts w =
     (let req = checked_request env opts snap_dir pb rootfs mounts in
      Boot_asked req (map_of (sw_blobs (rw_host w)) (pb_state pb)) (read_blob (br_disk_restore req) w) None)"

lemma checked_request_fields [simp]:
  "br_state (checked_request env opts d pb rootfs mounts) = Some (pb_state pb)"
  "br_scratch (checked_request env opts d pb rootfs mounts) = None"
  "br_name (checked_request env opts d pb rootfs mounts) = ro_name opts"
  "br_image (checked_request env opts d pb rootfs mounts) = rootfs"
  by (simp_all add: checked_request_def vmstate_boot_request_def Let_def)

lemma restore_run [consumes 1]:
  assumes prepared: "materialize_chain_if_needed env (initial_restore_bundle d w) w = (Inr pb, w1)"
  obtains (refused) e w2 w' where "restore_vmstate env opts d w = (Inl e, w')" "untouched w2 = untouched w1"
      "rw_host w' = cleaned pb (rw_host w2)" "rw_log w' = rw_log w"
      "\<not> (\<exists>rootfs mounts. restore_fits env opts d pb rootfs mounts w1)"
    | (asked) rootfs mounts w2 started host reg events r w' where "restore_fits env opts d pb rootfs mounts w1"
      "untouched w2 = untouched w1"
      "re_boot env (checked_request env opts d pb rootfs mounts) (rw_host w2) (rw_registry w2) = (started, host, reg)"
      "restore_vmstate env opts d w = (r, w')" "rw_host w' = cleaned pb host"
      "rw_log w' = rw_log w @ asked_event env opts d pb rootfs mounts w1 # events" "outcome env started events r"
proof -
  have log: "rw_log w1 = rw_log w" using materialize_keeps [OF prepared] by simp
  have split: "restore_vmstate env opts d w =
      bind_eff (finally_eff (start_prepared env opts d pb) (cleanup_materialized (pb_temp pb))) (finish_restore env opts (pb_meta pb)) w1"
    by (simp add: restore_vmstate_split prepared)
  have clean: "rw_host (cleanup_materialized (pb_temp pb) v) = cleaned pb (rw_host v)"
      "rw_log (cleanup_materialized (pb_temp pb) v) = rw_log v" for v
    by (simp_all add: cleanup_materialized_def cleaned_def split: option.split)
  show ?thesis
  proof (cases rule: start_run [of env opts d pb w1])
    case (refused e w2)
    then show ?thesis
      using that(1) [of e "cleanup_materialized (pb_temp pb) w2" w2] split untouched_eq(1) [OF refused(2)] log
      by (simp add: clean bind_eff_def finally_eff_def)
  next
    case (asked rootfs mounts w2)
    obtain started host reg where boot: "re_boot env (checked_request env opts d pb rootfs mounts) (rw_host w2) (rw_registry w2) = (started, host, reg)"
      by (metis surj_pair)
    have event: "Boot_asked (checked_request env opts d pb rootfs mounts) (read_blob (Some (pb_state pb)) w2)
        (read_blob (br_disk_restore (checked_request env opts d pb rootfs mounts)) w2) (read_blob None w2) = asked_event env opts d pb rootfs mounts w1"
      using untouched_eq [OF asked(2)] by (simp add: asked_event_def Let_def read_blob_def)
    note run = that(2) [OF asked(1,2) boot]
    obtain mode where reseed: "reseed_guest_entropy env v =
        (if reseed_code env = Some 0 then Inr (mode v) else Inl (Restore_refused Reseed_failed), v\<lparr>rw_log := rw_log v @ reseed_log env\<rparr>)" for v
      using reseed_run [of env] by metis
    let ?w3 = "w2\<lparr>rw_host := host, rw_registry := reg, rw_log := rw_log w @ asked_event env opts d pb rootfs mounts w1 #
      (case started of None \<Rightarrow> [] | Some pid \<Rightarrow> [Started pid])\<rparr>"
    have asked_log: "boot_machine env (checked_request env opts d pb rootfs mounts) w2 =
        (case started of None \<Rightarrow> Inl Boot_throws | Some pid \<Rightarrow> Inr \<lparr>vh_pid = pid, vh_name = ro_name opts\<rparr>, ?w3)"
      using boot event untouched_eq(1) [OF asked(2)] log by (simp add: boot_machine_run cong: option.case_cong)
    show ?thesis
    proof (cases started)
      case None
      then show ?thesis
        using split asked(3) asked_log
        by (intro run [of "Inl Boot_throws" "cleanup_materialized (pb_temp pb) ?w3" "[]"])
          (simp_all add: clean bind_eff_def finally_eff_def outcome_def)
    next
      case (Some pid)
      let ?vm = "\<lparr>vh_pid = pid, vh_name = ro_name opts\<rparr>" and ?w4 = "?w3\<lparr>rw_log := rw_log ?w3 @ reseed_log env\<rparr>"
      have start: "start_prepared env opts d pb w1 =
          (if reseed_code env = Some 0 then Inr ?vm else Inl (Restore_refused Reseed_failed), ?w4)"
        using asked(3) asked_log reseed Some by (simp add: bind_eff_def return_eff_def)
      show ?thesis
      proof (cases "reseed_code env = Some 0")
        case False
        then show ?thesis
          using split start Some
          by (intro run [of "Inl (Restore_refused Reseed_failed)" "cleanup_materialized (pb_temp pb) ?w4" "Started pid # reseed_log env"])
            (simp_all add: clean bind_eff_def finally_eff_def outcome_def)
      next
        case True
        let ?w5 = "cleanup_materialized (pb_temp pb) ?w4"
        have rest: "restore_vmstate env opts d w = finish_restore env opts (pb_meta pb) ?vm ?w5"
          using split start True by (simp add: bind_eff_def finally_eff_def)
        show ?thesis
        proof (cases rule: finish_run [of env opts "pb_meta pb" ?vm ?w5])
          case (throws e reg')
          then show ?thesis
            using rest Some True
            by (intro run [of "Inl e" "?w5\<lparr>rw_registry := reg'\<rparr>" "Started pid # reseed_log env"]) (simp_all add: clean outcome_def)
        next
          case (named name reg')
          let ?named = "\<lparr>vh_pid = pid, vh_name = name\<rparr>"
          let ?w6 = "?w5\<lparr>rw_registry := reg', rw_log := rw_log ?w5 @ stamp_log ?named\<rparr>"
          have "restore_vmstate env opts d w = (Inr ?named, ?w6)" using rest named by simp
          moreover have "rw_host ?w6 = cleaned pb host" by (simp add: clean)
          moreover have "rw_log ?w6 = rw_log w @ asked_event env opts d pb rootfs mounts w1 # Started pid # reseed_log env @ stamp_log ?named"
            using Some by (simp add: clean)
          moreover have "outcome env started (Started pid # reseed_log env @ stamp_log ?named) (Inr ?named)"
            using Some True by (simp add: outcome_def)
          ultimately show ?thesis by (rule run)
        qed
      qed
    qed
  qed
qed

text \<open>A bundle that fits is restored, if the machine starts and is reseeded and the name is free to choose.\<close>

lemma restore_returns:
  assumes prepared: "materialize_chain_if_needed env (initial_restore_bundle d w) w = (Inr pb, w1)"
    and fits: "restore_fits env opts d pb rootfs mounts w1"
    and boots: "\<And>h g. fst (re_boot env (checked_request env opts d pb rootfs mounts) h g) = Some pid" "reseed_code env = Some 0"
    and name: "ro_name opts = Some n" "n \<noteq> []"
  shows "\<exists>w'. restore_vmstate env opts d w = (Inr \<lparr>vh_pid = pid, vh_name = Some n\<rparr>, w')"
proof (cases rule: start_run [of env opts d pb w1])
  case (refused e w2)
  then show ?thesis using fits by blast
next
  case (asked r m w2)
  have same: "r = rootfs" "m = mounts" using asked(1) fits image_unique by (auto simp: restore_fits_def)
  obtain mode where reseed: "reseed_guest_entropy env v = (Inr (mode v), v\<lparr>rw_log := rw_log v @ reseed_log env\<rparr>)" for v
    using reseed_run [of env] boots(2) by metis
  obtain v where "start_prepared env opts d pb w1 = (Inr \<lparr>vh_pid = pid, vh_name = Some n\<rparr>, v)"
    using asked(3) boots(1) [of "rw_host w2" "rw_registry w2"] reseed name
    by (auto simp: same boot_machine_run bind_eff_def return_eff_def split: prod.splits)
  then show ?thesis
    using name
    by (simp add: restore_vmstate_split prepared bind_eff_def finally_eff_def finish_restore_def auto_name_def
        auto_name_restored_fork_def restamp_run return_eff_def)
qed

section \<open>Which machine is asked for\<close>

definition new_events :: "('v, 'a) restoring \<Rightarrow> 'v restore_world \<Rightarrow> restore_event list" where
  "new_events m w = drop (length (rw_log w)) (rw_log (snd (m w)))"

lemma events_ask_nothing:
  "outcome env started events r \<Longrightarrow> Boot_asked req state disk scratch \<notin> set events"
  by (auto simp: outcome_def reseed_log_def stamp_log_def split: option.splits sum.splits if_splits)

lemma asked_exactly:
  assumes prepared: "materialize_chain_if_needed env (initial_restore_bundle d w) w = (Inr pb, w1)"
  shows "Boot_asked req state disk scratch \<in> set (new_events (restore_vmstate env opts d) w) \<longleftrightarrow>
    (\<exists>rootfs mounts. restore_fits env opts d pb rootfs mounts w1 \<and>
      Boot_asked req state disk scratch = asked_event env opts d pb rootfs mounts w1)"
using prepared
proof (cases rule: restore_run [where opts = opts])
  case (refused e w2 w')
  then show ?thesis by (simp add: new_events_def)
next
  case (asked rootfs mounts w2 started host reg events r w')
  have only: "r = rootfs \<and> m = mounts" if "restore_fits env opts d pb r m w1" for r m
    using that asked(1) image_unique by (auto simp: restore_fits_def)
  have "set (new_events (restore_vmstate env opts d) w) = insert (asked_event env opts d pb rootfs mounts w1) (set events)"
    using asked(4,6) by (simp add: new_events_def)
  then have "Boot_asked req state disk scratch \<in> set (new_events (restore_vmstate env opts d) w) \<longleftrightarrow>
      Boot_asked req state disk scratch = asked_event env opts d pb rootfs mounts w1"
    using events_ask_nothing [OF asked(7)] by simp
  then show ?thesis using asked(1) only by blast
qed

text \<open>C3: A restore asks for a machine exactly when every check of the plan holds: the base image exists, the
  rootfs, kernel and device tree have the recorded digests, the architecture is the same, the backend
  is the same or the guest does not use pointer authentication, the memory layout is the recorded one,
  the disk is the recorded one, the live mounts can be mapped and the overlay is there. What it then
  asks for is fixed by these checks: the request, the state file and the disk image that the new machine
  reads are the checked ones. The facts of the state file are those of the native reader, or of the in-process one for
  a compressed file; the native helper is taken to be installed.\<close>

theorem restore_boots_exactly:
  assumes "materialize_chain_if_needed env (initial_restore_bundle d w) w = (Inr pb, w1)"
  shows "Boot_asked req state disk scratch \<in> set (new_events (restore_vmstate env opts d) w) \<longleftrightarrow>
    (\<exists>rootfs mounts. restore_fits env opts d pb rootfs mounts w1 \<and>
      Boot_asked req state disk scratch = asked_event env opts d pb rootfs mounts w1)"
  using assms by (rule asked_exactly)

text \<open>C10: A handle is returned only for a machine whose entropy was mixed in: after the request to boot come the
  start, the reseed, and at last the hostname; and the reseed has ended with exit code 0.\<close>

theorem handles_are_reseeded:
  assumes "restore_vmstate env opts d w = (Inr vm, w')"
  shows "reseed_code env = Some 0 \<and>
    (\<exists>req state disk. new_events (restore_vmstate env opts d) w =
      Boot_asked req state disk None # Started (vh_pid vm) # reseed_log env @ stamp_log vm)"
proof (cases rule: run_cases [of "materialize_chain_if_needed env (initial_restore_bundle d w)" w])
  case (throws e w1)
  then show ?thesis using assms by (simp add: restore_vmstate_split)
next
  case (goes_on pb w1)
  from goes_on show ?thesis
  proof (cases rule: restore_run [where opts = opts])
    case (asked rootfs mounts w2 started host reg events r w'')
    then have "r = Inr vm" "w'' = w'" using assms by simp_all
    then show ?thesis
      using asked by (auto simp: outcome_def new_events_def asked_event_def Let_def split: option.splits if_splits)
  qed (use assms in simp)
qed

text \<open>C36: When the reseed of a started machine fails, the restore fails with it, but nothing stops the machine:
  the last events are its start and the attempts to reseed it, the files and the registry are left as the boot
  left them, and the caller gets no handle.\<close>

theorem failed_reseed_leaves_machine:
  assumes "materialize_chain_if_needed env (initial_restore_bundle d w) w = (Inr pb, w1)"
    and "restore_fits env opts d pb rootfs mounts w1"
    and "\<And>h g. fst (re_boot env (checked_request env opts d pb rootfs mounts) h g) = Some pid" "reseed_code env \<noteq> Some 0"
  shows "\<exists>w'. restore_vmstate env opts d w = (Inl (Restore_refused Reseed_failed), w') \<and>
    new_events (restore_vmstate env opts d) w =
      asked_event env opts d pb rootfs mounts w1 # Started pid # reseed_log env"
using assms(1)
proof (cases rule: restore_run [where opts = opts])
  case (refused e w2 w')
  then show ?thesis using assms(2) by blast
next
  case (asked r m w2 started host reg events res w')
  have same: "r = rootfs" "m = mounts" using asked(1) assms(2) image_unique by (auto simp: restore_fits_def)
  then have "started = Some pid" using asked(3) assms(3) [of "rw_host w2" "rw_registry w2"] by simp
  then show ?thesis using asked assms(4) same by (simp add: outcome_def new_events_def)
qed

section \<open>The temporary directory\<close>

definition nothing_below :: "path \<Rightarrow> 'v snap_world \<Rightarrow> bool" where
  "nothing_below dir h \<longleftrightarrow> (\<forall>p \<in> set (known_paths h). \<not> under dir p)"

lemma nothing_below_removed [simp]: "nothing_below dir (remove_dir dir h)"
  by (auto simp: nothing_below_def known_paths_def remove_dir_def)

lemma nothing_below_untouched: "untouched w' = untouched w \<Longrightarrow> nothing_below dir (rw_host w') = nothing_below dir (rw_host w)"
  using untouched_eq(3-5) [of w' w] by (simp add: nothing_below_def known_paths_def)

text \<open>C11: Whatever a restore does, the directory in which it materialises a checkpoint chain is gone afterwards -
  when the chain is broken, when a check refuses the bundle, when the boot throws, when the guest
  cannot be reseeded and when the machine is returned - if it was free before and the boot itself puts nothing there.
  (The code ignores a failure of its \<open>rmSync\<close>, which is taken to succeed.)\<close>

theorem no_temporary_files_remain:
  assumes "nothing_below (re_temp env) (rw_host w)" "restore_vmstate env opts d w = (r, w')"
    and "\<And>req h g. nothing_below (re_temp env) h \<Longrightarrow> nothing_below (re_temp env) (fst (snd (re_boot env req h g)))"
  shows "nothing_below (re_temp env) (rw_host w')"
proof (cases rule: run_cases [of "materialize_chain_if_needed env (initial_restore_bundle d w)" w])
  case (throws e w1)
  then have "w' = w1" using assms(2) by (simp add: restore_vmstate_split)
  then show ?thesis
    using throws
    by (auto simp: materialize_chain_if_needed_def after_materialize_def Let_def return_eff_def split: if_splits prod.splits sum.splits)
next
  case (goes_on pb w1)
  have clean: "nothing_below (re_temp env) (cleaned pb h)" if "pb_temp pb = None \<Longrightarrow> nothing_below (re_temp env) h" for h
    using goes_on that by (cases rule: prepared_cases) (auto simp: cleaned_def initial_restore_bundle_def)
  have plain: "pb_temp pb = None \<Longrightarrow> nothing_below (re_temp env) (rw_host w1)"
    using goes_on assms(1) by (cases rule: prepared_cases) auto
  from goes_on show ?thesis
  proof (cases rule: restore_run [where opts = opts])
    case (refused e w2 w'')
    have "w'' = w'" using refused(1) assms(2) by simp
    moreover have "pb_temp pb = None \<Longrightarrow> nothing_below (re_temp env) (rw_host w2)"
      using plain nothing_below_untouched [OF refused(2)] by simp
    ultimately show ?thesis using refused(3) clean [of "rw_host w2"] by simp
  next
    case (asked rootfs mounts w2 started host reg events res w'')
    have "w'' = w'" using asked(4) assms(2) by simp
    moreover have "pb_temp pb = None \<Longrightarrow> nothing_below (re_temp env) host"
      using assms(3) [of "rw_host w2" _ "rw_registry w2"] plain nothing_below_untouched [OF asked(2)] asked(3) by (metis fst_conv snd_conv)
    ultimately show ?thesis using asked(5) clean [of host] by simp
  qed
qed

section \<open>The memory of the machine\<close>





end
