(* ===== verification/Restore_Criu_Laws.thy ===== *)
theory Restore_Criu_Laws
  imports Restore_Outcome
begin

text \<open>
  The texts that a restore sends to the shell of the guest, and the scratch file of a CRIU restore.
\<close>

section \<open>Words of the shell\<close>

text \<open>What a POSIX shell makes of one word of single quotes, backslashes and plain characters; \<open>None\<close>: the
  text is not such a word. The flag tells whether a quote is open.\<close>

definition plain_char :: "char \<Rightarrow> bool" where
  "plain_char c \<longleftrightarrow> is_hostname_alnum c \<or> c \<in> set ''/._-''"

fun shell_word :: "bool \<Rightarrow> string \<Rightarrow> string option" where
  "shell_word False [] = Some []"
| "shell_word True [] = None"
| "shell_word True (c # cs) =
     (if c = CHR 0x27 then shell_word False cs else map_option (Cons c) (shell_word True cs))"
| "shell_word False (c # cs) =
     (if c = CHR 0x27 then shell_word True cs
      else if c = CHR 0x5C then (case cs of [] \<Rightarrow> None | d # ds \<Rightarrow> map_option (Cons d) (shell_word False ds))
      else if plain_char c then map_option (Cons c) (shell_word False cs) else None)"

text \<open>C39: A quoted text is one word of the shell, and the word is the text: no text - with quotes, blanks,
  newlines or anything else in it - ends the quotation early.\<close>

theorem shell_quote_is_one_word: "shell_word False (shell_quote s) = Some s"
proof -
  have "shell_word True (concat (map (\<lambda>c. if c = CHR 0x27 then [CHR 0x27, CHR 0x5C, CHR 0x27, CHR 0x27] else [c]) s) @ [CHR 0x27]) = Some s"
    by (induction s) auto
  then show ?thesis by (simp add: shell_quote_def)
qed

text \<open>C38: Whatever the name of a machine is, the command that stamps its hostname quotes a text of letters, digits
  and dashes, so no name can end the quotation: the command is sent, unless the name is too long.\<close>

theorem hostname_cannot_inject:
  "restamp_restored_hostname vm w =
     (Inr (), w\<lparr>rw_log := rw_log w @
       (case build_guest_hostname (vh_pid vm) (vh_name vm) of
          None \<Rightarrow> [] | Some hostname \<Rightarrow> [Shell_command (hostname_command hostname)])\<rparr>) \<and>
   pred_option (\<lambda>hostname. hostname \<noteq> '''' \<and> list_all hostname_char hostname \<and>
       hostname_command hostname = ''hostname '' @ shell_quote hostname @ '' 2>/dev/null || true'')
     (build_guest_hostname (vh_pid vm) (vh_name vm))"
proof (cases "build_guest_hostname (vh_pid vm) (vh_name vm)")
  case (Some hostname)
  have chars: "hostname \<noteq> ''''" "list_all hostname_char hostname" using hostname_chars [OF Some] .
  have "shell_quote hostname = CHR 0x27 # hostname @ [CHR 0x27]"
  proof -
    have "concat (map (\<lambda>c. if c = CHR 0x27 then [CHR 0x27, CHR 0x5C, CHR 0x27, CHR 0x27] else [c]) h) = h"
      if "list_all hostname_char h" for h
      using that by (induction h) (auto simp: hostname_char_def is_hostname_alnum_def)
    then show ?thesis using chars(2) by (simp add: shell_quote_def)
  qed
  then show ?thesis using chars Some by (simp add: restamp_run stamp_log_def hostname_command_def)
qed (simp add: restamp_run stamp_log_def)

section \<open>The scratch file\<close>

text \<open>The archive of a CRIU bundle survives its extension to a block device exactly while it is smaller
  than the device: then it is the head of the device, followed by zeros. An archive of the size of the device or more
  keeps its length and loses the byte at the end of the device.\<close>

lemma extension_keeps_small_archives:
  "extend_restore_bundle_tar archive =
     (if length archive < SNAP_SCRATCH_BYTES then archive @ replicate (SNAP_SCRATCH_BYTES - length archive) 0
      else archive[SNAP_SCRATCH_BYTES - 1 := 0])"
proof (cases "length archive < SNAP_SCRATCH_BYTES")
  case True
  then have "SNAP_SCRATCH_BYTES - length archive = Suc (SNAP_SCRATCH_BYTES - 1 - length archive)" by simp
  then have "replicate (SNAP_SCRATCH_BYTES - length archive) (0 :: byte) = replicate (SNAP_SCRATCH_BYTES - 1 - length archive) 0 @ [0]"
    by (metis replicate_Suc replicate_append_same)
  then show ?thesis using True by (simp add: extend_restore_bundle_tar_def pwrite_def)
next
  case False
  have "0 < SNAP_SCRATCH_BYTES" by (simp add: SNAP_SCRATCH_BYTES_def)
  then show ?thesis using False by (simp add: extend_restore_bundle_tar_def pwrite_def upd_conv_take_nth_drop)
qed

lemma known_put: "set (known_paths (put_blob env p bs h)) \<subseteq> insert p (set (known_paths h))"
  by (auto simp: known_paths_def put_blob_def)

lemma saved_run:
  "se_can_write (re_snap env) p \<Longrightarrow> save_file env p bs w = (Inr (), w\<lparr>rw_host := put_blob (re_snap env) p bs (rw_host w)\<rparr>)"
  by (simp add: save_file_def)

lemma pack_run:
  assumes "re_tar env [(drop (length img_dir) p, bs). (p, bs) \<leftarrow> sw_blobs (rw_host w), under img_dir p] = Some archive"
    and "se_can_write (re_snap env) (re_scratch env)"
  shows "pack_eager_restore_bundle env img_dir w = (Inr (re_scratch env),
    w\<lparr>rw_host := put_blob (re_snap env) (re_scratch env) (extend_restore_bundle_tar archive) (put_blob (re_snap env) (re_scratch env) archive (rw_host w))\<rparr>)"
  using assms
  by (simp add: pack_eager_restore_bundle_def catch_eff_def effect_simps bind_eff_def [of "save_file env p b" for p b] saved_run)

text \<open>C37: When the overlay that the document of a CRIU bundle names is missing, the restore is refused after the
  scratch file is written and before anything would remove it: the file of at least 8 GiB stays.\<close>

theorem missing_overlay_leaves_scratch:
  assumes "fst (validate_criu_bundle d w) = Inr img_dir" "image_fits env opts (read_snapshot_meta d w) w rootfs" "\<not> ro_lazy opts"
    and "resolve_restore_live_mounts (sd_live_mounts (read_snapshot_meta d w)) (ro_live_mounts opts) = Inr mounts"
    and "overlay_of d (read_snapshot_meta d w) = Some (guest, lower, upper)" "\<not> file_there lower w" "\<not> under lower (re_scratch env)"
    and "re_tar env [(drop (length img_dir) p, bs). (p, bs) \<leftarrow> sw_blobs (rw_host w), under img_dir p] = Some archive"
    and "se_can_write (re_snap env) (re_scratch env)"
  shows "\<exists>w'. restore_criu env opts d w = (Inl (Restore_refused Bundle_not_found), w') \<and> rw_log w' = rw_log w \<and>
    map_of (sw_blobs (rw_host w')) (re_scratch env) = Some (extend_restore_bundle_tar archive)"
proof -
  let ?meta = "read_snapshot_meta d w"
  let ?w' = "w\<lparr>rw_host := put_blob (re_snap env) (re_scratch env) (extend_restore_bundle_tar archive)
      (put_blob (re_snap env) (re_scratch env) archive (rw_host w))\<rparr>"
  have valid: "validate_criu_bundle d w = (Inr img_dir, w)"
    using assms(1) by (auto simp: validate_criu_bundle_def Let_def check_runs effect_simps split: if_splits)
  have rootfs: "resolve_restore_image env opts ?meta w = (Inr rootfs, w)"
    using assms(2) image_run [of env opts ?meta w] by (simp add: prod_eq_iff)
  have "set (known_paths (rw_host ?w')) \<subseteq> insert (re_scratch env) (set (known_paths (rw_host w)))"
    using known_put [of "re_snap env" "re_scratch env" "extend_restore_bundle_tar archive"
        "put_blob (re_snap env) (re_scratch env) archive (rw_host w)"]
      known_put [of "re_snap env" "re_scratch env" archive "rw_host w"] by auto
  then have "\<not> file_there lower ?w'"
    using assms(6,7) by (auto simp: file_there_def path_exists_def list_ex_iff)
  then have overlay: "resolve_restore_mount_disk d ?meta ?w' = (Inl (Restore_refused Bundle_not_found), ?w')"
    using assms(5) by (simp add: overlay_run overlay_fits_def)
  have delivery: "prepare_eager_delivery env img_dir mounts w = (Inr \<lparr>cr_scratch = re_scratch env, cr_env = [], cr_mounts = mounts\<rparr>, ?w')"
    using pack_run [OF assms(8,9)] by (simp add: prepare_eager_delivery_def bind_eff_def return_eff_def)
  have "restore_criu env opts d w = (Inl (Restore_refused Bundle_not_found), ?w')"
    using assms(3,4)
    by (simp add: restore_criu_def bind_eff_Inr [where m = "validate_criu_bundle d" and s = w, OF valid] 
        bind_eff_Inr [where m = "resolve_restore_image env opts ?meta" and s = w, OF rootfs] effect_simps prepare_lazy_pages_def
        check_runs bind_eff_Inr [where m = "prepare_eager_delivery env img_dir mounts" and s = w, OF delivery]
        bind_eff_Inl [where m = "resolve_restore_mount_disk d ?meta" and s = ?w', OF overlay])
  then show ?thesis by (intro exI [of _ ?w']) (simp add: put_blob_def)
qed

text \<open>A boot leaves its mark in the log: programs whose log has grown are past it.\<close>

definition clears_after_boot :: "path \<Rightarrow> ('v, 'a) restoring \<Rightarrow> bool" where
  "clears_after_boot p m \<longleftrightarrow>
     (\<forall>w. rw_log (snd (m w)) \<noteq> rw_log w \<longrightarrow> map_of (sw_blobs (rw_host (snd (m w)))) p = None)"

lemma clears_bind:
  assumes "obeys (same rw_log) m" "\<And>w x w'. m w = (Inr x, w') \<Longrightarrow> clears_after_boot p (f x)"
  shows "clears_after_boot p (bind_eff m f)"
  unfolding clears_after_boot_def
proof (intro allI impI)
  fix w assume grown: "rw_log (snd (bind_eff m f w)) \<noteq> rw_log w"
  show "map_of (sw_blobs (rw_host (snd (bind_eff m f w)))) p = None"
  proof (cases rule: run_cases [of m w])
    case (throws e w')
    then show ?thesis using grown obeys_run [OF assms(1) throws] by (simp add: bind_eff_Inl same_def)
  next
    case (goes_on x w')
    then show ?thesis
      using grown obeys_run [OF assms(1) goes_on] assms(2) [OF goes_on] by (simp add: bind_eff_Inr same_def clears_after_boot_def)
  qed
qed

lemma log_kept:
  "obeys (same rw_log) (validate_criu_bundle d)" "obeys (same rw_log) (resolve_restore_image env opts meta)"
  "obeys (same rw_log) (prepare_lazy_pages opts img_dir)" "obeys (same rw_log) (refusing r)"
  "obeys (same rw_log) (resolve_restore_mount_disk d meta)" "obeys (same rw_log) (save_file env q bs)"
  "obeys (same rw_log) (auto_name env opts meta vm)" "obeys (same rw_log) (persist_lazy_pages_total env vm pages)"
proof -
  show "obeys (same rw_log) (validate_criu_bundle d)"
    unfolding validate_criu_bundle_def Let_def by (intro kept.rules kept_demand)
  show "obeys (same rw_log) (resolve_restore_image env opts meta)" by (rule kept_host_lift) (rule image_run(1))
  show "obeys (same rw_log) (prepare_lazy_pages opts img_dir)"
    by (rule obeysI) (auto simp: prepare_lazy_pages_def same_def return_eff_def split: prod.splits sum.splits)
  show "obeys (same rw_log) (refusing r)" unfolding refusing_def by (rule kept.basic_rule)
  show "obeys (same rw_log) (resolve_restore_mount_disk d meta)" by (rule kept_host_lift) (simp add: overlay_run)
  show "obeys (same rw_log) (save_file env q bs)" by (rule obeysI) (simp add: save_file_def same_def)
  show "obeys (same rw_log) (auto_name env opts meta vm)"
    by (rule obeysI) (auto simp: auto_name_def same_def split: prod.splits sum.splits)
  show "obeys (same rw_log) (persist_lazy_pages_total env vm pages)"
    by (rule obeysI) (auto simp: persist_lazy_pages_total_def same_def return_eff_def split: option.splits prod.splits sum.splits)
qed

lemma delivery_log: "obeys (same rw_log) (prepare_lazy_delivery env img_dir mounts)" "obeys (same rw_log) (prepare_eager_delivery env img_dir mounts)"
proof -
  show "obeys (same rw_log) (prepare_lazy_delivery env img_dir mounts)"
    unfolding prepare_lazy_delivery_def allocate_sparse_file_def by (intro kept.rules log_kept)
  have "obeys (same rw_log) (modify_eff (unlink_file q))" for q
    by (rule kept.modify_rule) (simp add: same_def unlink_file_def)
  then show "obeys (same rw_log) (prepare_eager_delivery env img_dir mounts)"
    unfolding prepare_eager_delivery_def pack_eager_restore_bundle_def
    by (intro kept.bind_rule kept.catch_rule kept.basic_rule kept.option_rule log_kept)
qed

lemma delivery_scratch:
  "prepare_lazy_delivery env img_dir mounts w = (Inr delivery, w') \<Longrightarrow> cr_scratch delivery = re_scratch env"
  "prepare_eager_delivery env img_dir mounts w = (Inr delivery, w') \<Longrightarrow> cr_scratch delivery = re_scratch env"
  by (auto simp: prepare_lazy_delivery_def prepare_eager_delivery_def pack_eager_restore_bundle_def return_eff_def throw_eff_def
      catch_eff_def elim!: bind_eff_SomeD split: prod.splits sum.splits option.splits)

lemma finalize_host: "obeys (same rw_host) (finalize_criu_restore env opts meta pages vm)"
proof -
  have "obeys (same rw_host) (auto_name env opts meta vm)" "obeys (same rw_host) (persist_lazy_pages_total env v pages)"
    "obeys (same rw_host) (restamp_restored_hostname v)" for v
    by (rule obeysI, auto simp: auto_name_def persist_lazy_pages_total_def restamp_run same_def return_eff_def
        split: option.splits prod.splits sum.splits)+
  then show ?thesis unfolding finalize_criu_restore_def by (intro kept.rules)
qed

text \<open>Once a CRIU restore has asked for a machine, its scratch file is removed, whether the boot throws or not.\<close>

theorem booted_scratch_is_removed:
  assumes "restore_criu env opts d w = (r, w')" "new_events (restore_criu env opts d) w \<noteq> []"
  shows "map_of (sw_blobs (rw_host w')) (re_scratch env) = None"
proof -
  have last: "clears_after_boot (re_scratch env)
      (bind_eff (boot_criu_restore env opts d rootfs delivery overlay) (finalize_criu_restore env opts meta pages))"
    if "cr_scratch delivery = re_scratch env" for rootfs delivery overlay meta pages
    unfolding clears_after_boot_def
  proof (intro allI impI)
    fix v
    let ?boot = "boot_criu_restore env opts d rootfs delivery overlay"
    have unlinked: "map_of (sw_blobs (rw_host (snd (?boot v)))) (re_scratch env) = None"
      using that by (simp add: boot_criu_restore_def finally_eff_def unlink_file_def map_of_filter_key split: prod.split)
    show "map_of (sw_blobs (rw_host (snd (bind_eff ?boot (finalize_criu_restore env opts meta pages) v)))) (re_scratch env) = None"
    proof (cases rule: run_cases [of ?boot v])
      case (throws e v')
      then show ?thesis using unlinked by (simp add: bind_eff_Inl)
    next
      case (goes_on vm v')
      have "rw_host (snd (finalize_criu_restore env opts meta pages vm v')) = rw_host v'"
        using finalize_host [of env opts meta pages vm] by (simp add: obeys_def same_def)
      then show ?thesis using goes_on unlinked by (simp add: bind_eff_Inr)
    qed
  qed
  have "clears_after_boot (re_scratch env) (restore_criu env opts d)"
    unfolding restore_criu_def
    by (intro clears_bind log_kept kept.basic_rule kept.conditional_rule delivery_log last)
      (auto dest: delivery_scratch split: if_splits)
  moreover have "rw_log w' \<noteq> rw_log w" using assms by (auto simp: new_events_def)
  ultimately show ?thesis using assms(1) by (metis clears_after_boot_def snd_conv)
qed

end
