(* ===== verification/Restore_Taken.thy ===== *)
theory Restore_Taken
  imports Restore_Outcome
begin

text \<open>
  Snapshot and restore together: a bundle that was just taken passes all checks of a restore on its host.
\<close>

section \<open>Artifacts\<close>

lemma host_of_content:
  "map_option content (host_of w p) = map_of (sw_blobs w) (resolve [] p)"
  by (simp add: host_of_def Let_def split: option.split prod.split)

lemma artifact_ok_blobs:
  "artifact_ok sha (host_of w) p i \<longleftrightarrow>
     (\<exists>bs. map_of (sw_blobs w) (resolve [] p) = Some bs \<and> length bs = id_size i \<and> sha bs = id_sha256 i)"
  unfolding artifact_ok_def host_of_content [symmetric] by auto

lemma identity_artifact:
  "identity_of env p w = (Inr i, w') \<Longrightarrow> w' = w \<and> artifact_ok (se_sha256 env) (host_of w) p i"
  by (auto simp: identity_of_def io_result_def file_identity_def stat_file_def read_chunks_all artifact_ok_def split: sum.splits option.splits)

lemma optional_artifact:
  "optional_file_identity env p w = (Inr i, w') \<Longrightarrow>
     w' = w \<and> rel_option (artifact_ok (se_sha256 env) (host_of w)) (truthy p) i"
  by (auto simp: optional_file_identity_def return_eff_def elim!: bind_eff_SomeD dest: identity_artifact split: option.splits)

lemma assets_artifacts:
  assumes "snapshot_boot_assets_identity env ctx guest w = (Inr ba, w')"
  shows "w' = w" "ba_id ba = vmstate_boot_assets_id (se_sha256 env) (ba_rootfs ba) (ba_kernel ba) (ba_dtb ba)"
    "\<exists>rootfs kern. truthy (sc_source_image ctx) = Some rootfs \<and> truthy (sc_kernel ctx) = Some kern \<and>
      artifact_ok (se_sha256 env) (host_of w) rootfs (ba_rootfs ba) \<and> artifact_ok (se_sha256 env) (host_of w) kern (ba_kernel ba)"
    "rel_option (artifact_ok (se_sha256 env) (host_of w)) (truthy (sc_dtb ctx)) (ba_dtb ba)"
proof -
  obtain rootfs kern where src: "truthy (sc_source_image ctx) = Some rootfs" "truthy (sc_kernel ctx) = Some kern"
    and run: "build_boot_assets_identity env rootfs kern (truthy (sc_dtb ctx)) w = (Inr ba, w')"
    using assms by (auto simp: snapshot_boot_assets_identity_def throw_eff_def split: option.splits if_splits)
  from run obtain r k dtb u1 u2 where
    r: "identity_of env rootfs w = (Inr r, u1)" and k: "identity_of env kern u1 = (Inr k, u2)"
    and dtb: "optional_file_identity env (truthy (sc_dtb ctx)) u2 = (Inr dtb, w')"
    and ba: "ba = \<lparr>ba_id = vmstate_boot_assets_id (se_sha256 env) r k dtb, ba_rootfs = r, ba_kernel = k, ba_dtb = dtb\<rparr>"
    unfolding build_boot_assets_identity_def by (auto elim!: bind_eff_SomeD simp: return_eff_def)
  note i = identity_artifact [OF r] identity_artifact [OF k] optional_artifact [OF dtb]
  show "w' = w" "ba_id ba = vmstate_boot_assets_id (se_sha256 env) (ba_rootfs ba) (ba_kernel ba) (ba_dtb ba)"
    "\<exists>rootfs kern. truthy (sc_source_image ctx) = Some rootfs \<and> truthy (sc_kernel ctx) = Some kern \<and>
      artifact_ok (se_sha256 env) (host_of w) rootfs (ba_rootfs ba) \<and> artifact_ok (se_sha256 env) (host_of w) kern (ba_kernel ba)"
    "rel_option (artifact_ok (se_sha256 env) (host_of w)) (truthy (sc_dtb ctx)) (ba_dtb ba)"
    using i src ba by simp_all
qed

section \<open>The root disk\<close>

lemma remembered:
  assumes "remember_identity env i w = (Inr (), w')" "id_path i = Some p" "p \<noteq> ''''" "host_of w p = Some f"
    "length (content f) = id_size i"
  shows "\<exists>c. w' = w\<lparr>sw_caches := c\<rparr> \<and> known_identity (se_sha256 env) (host_of w) c p f = i"
  using assms
  by (auto simp: remember_identity_def remember_trusted_def identity_stamp_of_def stat_file_def known_identity_def
      trusted_identity_def)

text \<open>The three ways to identify a disk image give the size of the image and, if they sample it, the sample.\<close>

definition identifies :: "'v snap_env \<Rightarrow> path \<Rightarrow> 'v snap_world \<Rightarrow> identity \<Rightarrow> bool" where
  "identifies env bundle w ident \<longleftrightarrow>
     (\<exists>h. host_of w (path_text bundle) = Some h \<and> id_path ident = Some (path_text bundle) \<and> length (content h) = id_size ident \<and>
       (\<forall>s. id_sample ident = Some s \<longrightarrow> sample_sha256 (se_sha256 env) (content h) = s))"

lemma or_else_cases:
  assumes "or_else_eff m n w = (Inr x, u)"
  obtains (first) "m w = (Inr (Some x), u)" | (second) u' where "m w = (Inr None, u')" "n u' = (Inr x, u)"
  using assms by (auto simp: or_else_eff_def return_eff_def elim!: bind_eff_SomeD split: option.splits)

lemma managed_run:
  assumes "managed_disk_identity env disk bundle w = (Inr r, u)"
  shows "\<exists>c. u = w\<lparr>sw_caches := c\<rparr> \<and> trusted c = trusted (sw_caches w) \<and> pred_option (identifies env bundle w) r"
proof -
  obtain v c where t: "trusted_managed (host_of w) disk (sw_caches w) = Inr (v, c)"
    using assms by (auto simp: managed_disk_identity_def split: sum.splits)
  then have "trusted c = trusted (sw_caches w)"
    by (auto simp: trusted_managed_def stat_file_def split: option.splits if_splits)
  then show ?thesis
    using assms t by (auto simp: managed_disk_identity_def identifies_def Let_def split: option.splits if_splits)
qed

lemma trusted_run:
  assumes "trusted_disk_identity env disk bundle w = (Inr r, u)"
    and "\<forall>i stamp. trusted (sw_caches w) disk = Some (i, stamp) \<longrightarrow> id_sample i = None"
  shows "\<exists>c. u = w\<lparr>sw_caches := c\<rparr> \<and> pred_option (identifies env bundle w) r"
proof -
  obtain v c where t: "trusted_identity (se_sha256 env) (host_of w) disk (sw_caches w) = Inr (v, c)"
    using assms by (auto simp: trusted_disk_identity_def split: sum.splits)
  then have "pred_option (\<lambda>i. id_sample i = None) v"
    using assms(2) by (auto simp: trusted_identity_def identity_stamp_of_def stat_file_def split: option.splits if_splits)
  then show ?thesis
    using assms(1) t by (auto simp: trusted_disk_identity_def identifies_def split: option.splits if_splits)
qed

lemma hashed_run: "identity_of env (path_text bundle) w = (Inr i, u) \<Longrightarrow> u = w \<and> identifies env bundle w i"
  by (auto simp: identity_of_def io_result_def file_identity_def stat_file_def identifies_def split: sum.splits option.splits)

lemma identifies_caches [simp]: "identifies env bundle (w\<lparr>sw_caches := c\<rparr>) = identifies env bundle w"
  by (simp add: identifies_def fun_eq_iff)

lemma finalized_fits:
  assumes "finalize_vmstate_root_disk env (Pending_block f disk bundle) w = (Inr rd, w')"
    and "\<forall>i stamp. trusted (sw_caches w) disk = Some (i, stamp) \<longrightarrow> id_sample i = None"
  shows "\<exists>i c. rd = Disk_block f i \<and> w' = w\<lparr>sw_caches := c\<rparr> \<and> bundled_ok (se_sha256 env) (host_of w) c (path_text bundle) i"
proof -
  from assms(1) obtain ident u1 where
    found: "or_else_eff (managed_disk_identity env disk bundle) (or_else_eff (trusted_disk_identity env disk bundle)
        (identity_of env (path_text bundle))) w = (Inr ident, u1)"
    and rem: "remember_identity env ident u1 = (Inr (), w')"
    and rd: "rd = Disk_block f (ident\<lparr>id_path := Some disk\<rparr>)"
    unfolding finalize_vmstate_root_disk_def by (auto elim!: bind_eff_SomeD simp: return_eff_def)
  from found have "\<exists>c. u1 = w\<lparr>sw_caches := c\<rparr> \<and> identifies env bundle w ident"
  proof (cases rule: or_else_cases)
    case first
    then show ?thesis using managed_run by fastforce
  next
    case (second u2)
    then obtain c where u2: "u2 = w\<lparr>sw_caches := c\<rparr>" "trusted c = trusted (sw_caches w)" using managed_run by blast
    from second(2) show ?thesis
    proof (cases rule: or_else_cases)
      case first
      then show ?thesis using trusted_run [OF first] u2 assms(2) by auto
    next
      case (second u3)
      then show ?thesis using trusted_run [OF second(1)] hashed_run [OF second(2)] u2 assms(2) by auto
    qed
  qed
  then obtain c h where h: "u1 = w\<lparr>sw_caches := c\<rparr>" "host_of w (path_text bundle) = Some h" "id_path ident = Some (path_text bundle)"
      "length (content h) = id_size ident" "\<And>s. id_sample ident = Some s \<Longrightarrow> sample_sha256 (se_sha256 env) (content h) = s"
    by (auto simp: identifies_def)
  have "\<exists>c'. w' = u1\<lparr>sw_caches := c'\<rparr> \<and> known_identity (se_sha256 env) (host_of u1) c' (path_text bundle) h = ident"
    by (rule remembered [OF rem h(3)]) (use h in \<open>auto dest: path_text_nonempty\<close>)
  then obtain c' where c': "w' = w\<lparr>sw_caches := c'\<rparr>" "known_identity (se_sha256 env) (host_of w) c' (path_text bundle) h = ident"
    using h(1) by auto
  then have "bundled_ok (se_sha256 env) (host_of w) c' (path_text bundle) (ident\<lparr>id_path := Some disk\<rparr>)"
    using h(2,4,5) by (simp add: bundled_ok_def identity_agrees_def split: option.split)
  then show ?thesis using rd c'(1) by blast
qed

section \<open>The stages of a snapshot\<close>

lemma caches_copy: "obeys (same sw_caches) (copy_file env src dst)"
  by (rule obeysI) (simp add: copy_file_def same_def put_blob_def split: option.split)

lemma caches_capture:
  "obeys (same sw_caches) (await_state_file env p t)" "obeys (same sw_caches) (copy_vmstate_state_into_bundle env p d)"
  "obeys (same sw_caches) (read_vmstate_section_flags env q)" "obeys (same sw_caches) (copy_vmstate_root_disk env ctx d b)"
  "obeys (same sw_caches) (reflink_mount_overlay env ctx d)"
proof -
  show "obeys (same sw_caches) (await_state_file env p t)"
    by (rule obeysI) (simp add: await_state_file_def same_def put_blob_def split: sum.split option.split)
  show "obeys (same sw_caches) (copy_vmstate_state_into_bundle env p d)"
    unfolding copy_vmstate_state_into_bundle_def by (intro kept.rules caches_copy)
  show "obeys (same sw_caches) (read_vmstate_section_flags env q)"
    by (rule obeysI) (auto simp: read_vmstate_section_flags_def same_def split: option.split)
  show "obeys (same sw_caches) (copy_vmstate_root_disk env ctx d b)"
    unfolding copy_vmstate_root_disk_def Let_def by (intro kept.rules caches_copy)
  show "obeys (same sw_caches) (reflink_mount_overlay env ctx d)"
    unfolding reflink_mount_overlay_def note_event_def by (intro kept.rules caches_copy) (simp add: same_def)
qed

lemma caches_sidecars: "obeys (same sw_caches) (capture_sidecars env ctx p d t)"
  unfolding capture_sidecars_def by (intro kept.rules caches_capture)

definition overlay_in :: "snapshot_context \<Rightarrow> overlay_files option" where
  "overlay_in ctx = map_option
     (\<lambda>ov. \<lparr>ov_guest = ov_guest ov, ov_lower = ''mount-lower.sqfs'', ov_upper = ''mount-upper.img''\<rparr>) (sc_mount_disk ctx)"

definition full_disk :: "snapshot_context \<Rightarrow> path \<Rightarrow> pending_disk" where
  "full_disk ctx d =
     (if sc_root_disk_mode ctx = Some None_mode then Pending_none
      else Pending_block VMSTATE_ROOTDISK_FILE (the (truthy (sc_root_disk_path ctx))) (d @ [VMSTATE_ROOTDISK_FILE]))"

lemma overlay_copied:
  assumes "reflink_mount_overlay env ctx d w = (Inr overlay, w')"
  shows "overlay = overlay_in ctx"
    "overlay \<noteq> None \<Longrightarrow> map_of (sw_blobs w') (d @ [''mount-lower.sqfs'']) \<noteq> None \<and> map_of (sw_blobs w') (d @ [''mount-upper.img'']) \<noteq> None"
proof -
  have "overlay = overlay_in ctx \<and> (overlay \<noteq> None \<longrightarrow>
      map_of (sw_blobs w') (d @ [''mount-lower.sqfs'']) \<noteq> None \<and> map_of (sw_blobs w') (d @ [''mount-upper.img'']) \<noteq> None)"
  proof (cases "sc_mount_disk ctx")
    case None
    then show ?thesis using assms by (simp add: reflink_mount_overlay_def return_eff_def overlay_in_def)
  next
    case (Some ov)
    let ?both = "bind_eff (copy_file env (resolve [] (ov_lower ov)) (d @ [''mount-lower.sqfs''])) (\<lambda>_.
        copy_file env (resolve [] (ov_upper ov)) (d @ [''mount-upper.img'']))"
    from assms obtain w1 where "catch_eff ?both (\<lambda>_. throw_eff (Snapshot_error Dump_failed)) w1 = (Inr (), w')" "overlay = overlay_in ctx"
      by (auto simp: reflink_mount_overlay_def Some overlay_in_def return_eff_def elim!: bind_eff_SomeD)
    moreover from this(1) have "?both w1 = (Inr (), w')" by (auto simp: catch_eff_def throw_eff_def split: prod.splits sum.splits)
    ultimately show ?thesis by (auto elim!: bind_eff_SomeD copy_success simp: put_blob_def map_of_filter_key)
  qed
  then show "overlay = overlay_in ctx"
    "overlay \<noteq> None \<Longrightarrow> map_of (sw_blobs w') (d @ [''mount-lower.sqfs'']) \<noteq> None \<and> map_of (sw_blobs w') (d @ [''mount-upper.img'']) \<noteq> None"
    by simp_all
qed

lemma disk_copied:
  assumes "copy_vmstate_root_disk env ctx d False w = (Inr pd, w')"
  shows "pd = full_disk ctx d"
  using assms
  by (auto simp: copy_vmstate_root_disk_def full_disk_def Let_def return_eff_def throw_eff_def elim!: bind_eff_SomeD
      split: if_splits option.splits)

lemma sidecars_stage:
  assumes "capture_sidecars env ctx p d t w = (Inr b, w')" "parent_dir_of w = None"
  shows "cb_disk b = full_disk ctx d" "cb_overlay b = overlay_in ctx"
    "cb_overlay b \<noteq> None \<Longrightarrow> map_of (sw_blobs w') (d @ [''mount-lower.sqfs'']) \<noteq> None \<and> map_of (sw_blobs w') (d @ [''mount-upper.img'']) \<noteq> None"
proof -
  from assms(1) obtain w1 w2 w3 q flags disk overlay where
    await: "await_state_file env p t w = (Inr (), w1)"
    and copied: "copy_vmstate_state_into_bundle env p d w1 = (Inr q, w2)"
    and read: "read_vmstate_section_flags env q w2 = (Inr flags, w2)"
    and disk: "copy_vmstate_root_disk env ctx d (should_copy_rootdisk_delta_only (parent_dir_of w2) flags) w2 = (Inr disk, w3)"
    and overlay: "reflink_mount_overlay env ctx d w3 = (Inr overlay, w')"
    and b: "cb_disk b = disk" "cb_overlay b = overlay"
    unfolding capture_sidecars_def
    by (auto elim!: bind_eff_SomeD simp: gets_eff_def return_eff_def read_vmstate_section_flags_def split: option.splits)
  have k: "obeys (same sw_chain) (await_state_file env p t)" "obeys (same sw_chain) (copy_file env src dst)" for src dst
    by (rule obeysI, simp add: await_state_file_def copy_file_def same_def put_blob_def split: sum.split option.split)+
  have into: "obeys (same sw_chain) (copy_vmstate_state_into_bundle env p d)"
    unfolding copy_vmstate_state_into_bundle_def by (intro kept.rules k)
  have "sw_chain w2 = sw_chain w"
    using obeys_run [OF k(1) await] obeys_run [OF into copied] by (simp add: same_def)
  then have "should_copy_rootdisk_delta_only (parent_dir_of w2) flags = False"
    using assms(2) by (simp add: should_copy_rootdisk_delta_only_def parent_dir_of_def)
  then show "cb_disk b = full_disk ctx d" "cb_overlay b = overlay_in ctx"
    "cb_overlay b \<noteq> None \<Longrightarrow> map_of (sw_blobs w') (d @ [''mount-lower.sqfs'']) \<noteq> None \<and> map_of (sw_blobs w') (d @ [''mount-upper.img'']) \<noteq> None"
    using disk_copied disk overlay_copied [OF overlay] b by simp_all
qed

lemma snapshot_stages:
  assumes "perform_snapshot_vmstate env ctx opts w = (Inr d, w')" "truthy (sc_vmstate_path ctx) = Some p"
    and "se_can_write env (resolve [] p)" "parent_dir_of w = None"
  obtains b u where "d = resolve (se_cwd env) (so_out_dir opts)" "finish_bundle env ctx d b u = (Inr (), w')"
    "cb_state b = d @ [VMSTATE_FILE]" "map_of (sw_blobs u) (d @ [VMSTATE_FILE]) = Some (fst (se_dump env (sw_vmm w)))"
    "sw_caches u = sw_caches w" "parent_dir_of u = None" "cb_disk b = full_disk ctx d" "cb_overlay b = overlay_in ctx"
    "cb_overlay b \<noteq> None \<Longrightarrow> map_of (sw_blobs u) (d @ [''mount-lower.sqfs'']) \<noteq> None \<and> map_of (sw_blobs u) (d @ [''mount-upper.img'']) \<noteq> None"
proof -
  let ?p = "resolve [] p"
  from assms(1,2) obtain v1 v2 v3 mode b u where
    prepared: "prepare_bundle_root_dir env (so_out_dir opts) w = (Inr d, v1)"
    and cleared: "clear_vmstate_state_file env ?p v1 = (Inr (), v2)"
    and synced: "sync_guest_for_vmstate_snapshot env ctx v2 = (Inr mode, v3)"
    and pause: "with_paused_vmstate_source env ctx (capture_sidecars env ctx ?p d (deadline_of opts)) v3 = (Inr b, u)"
    and finish: "finish_bundle env ctx d b u = (Inr (), w')"
    unfolding perform_snapshot_vmstate_def capture_vmstate_snapshot_bundle_def
    by (auto elim!: bind_eff_SomeD simp: return_eff_def)
  obtain ds where v1: "v1 = w\<lparr>sw_dirs := ds\<rparr>" using prepare_success(2) [OF prepared] by blast
  have v2: "map_of (sw_blobs v2) ?p = None" "sw_chain v2 = sw_chain w" "sw_vmm v2 = sw_vmm w" "sw_caches v2 = sw_caches w"
    using cleared assms(3) by (auto simp: clear_vmstate_state_file_def modify_eff_def v1 map_of_filter_key)
  have "same (\<lambda>w. (sw_blobs w, sw_chain w, sw_vmm w, sw_caches w)) v2 v3"
    using synced unfolding sync_guest_for_vmstate_snapshot_def try_direct_vmstate_sync_def note_event_def
    by (auto simp: same_def effect_defs split: if_splits)
  then have v3: "map_of (sw_blobs v3) ?p = None" "sw_chain v3 = sw_chain w" "sw_vmm v3 = sw_vmm w" "sw_caches v3 = sw_caches w"
    using v2 by (simp_all add: same_def)
  have "obeys (same sw_caches) (with_paused_vmstate_source env ctx (capture_sidecars env ctx ?p d (deadline_of opts)))"
    unfolding with_paused_vmstate_source_def
    by (intro kept.rules caches_sidecars obeysI)
      (auto simp: signal_vmstate_snapshot_def resume_vmstate_source_def same_def split: prod.split)
  from obeys_run [OF this pause] have caches: "sw_caches u = sw_caches w" by (simp add: same_def v3)
  show thesis
    using logs_sidecars [of env ctx ?p d "deadline_of opts"]
  proof (cases rule: pause_cases [where env = env and ctx = ctx and w = v3])
    case (unsignalled e)
    then show thesis using pause by simp
  next
    case (signalled r v mid u')
    then have run: "capture_sidecars env ctx ?p d (deadline_of opts) v = (Inr b, u')" and u: "u = resume_vmstate_source ctx u'"
      using pause by simp_all
    have start: "map_of (sw_blobs v) ?p = None" "sw_pending v = Some (fst (se_dump env (sw_vmm w)))" "parent_dir_of v = None"
      using signalled(4,7,9) v3 assms(4) by (simp_all add: parent_dir_of_def)
    note stage = sidecars_stage [OF run start(3)]
    have "cb_state b = d @ [VMSTATE_FILE] \<and> map_of (sw_blobs u') (d @ [VMSTATE_FILE]) = Some (fst (se_dump env (sw_vmm w)))"
      by (rule sidecars_success [OF run start(1,2)]) (simp add: captured_part_def)
    moreover have "parent_dir_of u = None"
      using signalled(7,12) v3(2) assms(4) by (simp add: parent_dir_of_def u resume_vmstate_source_def)
    ultimately show thesis
      using stage finish caches prepare_success(1) [OF prepared] by (intro that [of b u]) (simp_all add: u resume_vmstate_source_def)
  qed
qed

lemma meta_details:
  assumes "build_vmstate_meta env ctx state_file d parent n fl disk w = (Inr v, w')"
  obtains raw facts ba where "w' = w" "map_of (sw_blobs w) state_file = Some raw" "read_vmstate_facts (se_gunzip env) raw = Inr facts"
    "vd_backend v = Some (se_backend env)" "vd_arch v = Some (h_arch (f_header facts))"
    "vd_topology v = Some (h_topology_hash (f_header facts))" "vd_memory v = sc_memory ctx" "vd_root_disk v = Some disk"
    "vd_boot_assets v = Some ba" "snapshot_boot_assets_identity env ctx (h_arch (f_header facts)) w = (Inr ba, w)"
    "map_option cd_parent (vd_checkpoint v) = Some (relative_checkpoint_parent (se_cwd env) (path_text d) parent)"
proof -
  from assms obtain u1 u2 u3 u4 facts assets kern dtb where
    steps: "read_facts env state_file w = (Inr facts, u1)"
      "snapshot_boot_assets_identity env ctx (h_arch (f_header facts)) u1 = (Inr assets, u2)"
      "optional_file_identity env (sc_kernel ctx) u2 = (Inr kern, u3)"
      "optional_file_identity env (sc_dtb ctx) u3 = (Inr dtb, u4)"
    and v: "vd_backend v = Some (se_backend env)" "vd_arch v = Some (h_arch (f_header facts))"
      "vd_topology v = Some (h_topology_hash (f_header facts))" "vd_memory v = sc_memory ctx" "vd_root_disk v = Some disk"
      "vd_boot_assets v = Some assets" "vd_checkpoint v = Some (build_vmstate_checkpoint env ctx d parent n fl u4)" "w' = u4"
    unfolding build_vmstate_meta_def by (auto elim!: bind_eff_SomeD simp: gets_eff_def return_eff_def)
  have facts: "u1 = w" "\<exists>raw. map_of (sw_blobs w) state_file = Some raw \<and> read_vmstate_facts (se_gunzip env) raw = Inr facts"
    using steps(1) by (auto simp: read_facts_def vmstate_result_def split: option.splits sum.splits)
  then show thesis
    using steps v assets_artifacts(1) [OF steps(2)] optional_artifact [OF steps(3)] optional_artifact [OF steps(4)]
    by (auto intro: that simp: build_vmstate_checkpoint_def)
qed

lemma finish_details:
  assumes "finish_bundle env ctx d b w = (Inr (), w')"
  obtains disk u v where "finalize_vmstate_root_disk env (cb_disk b) w = (Inr disk, u)"
    "build_vmstate_meta env ctx (cb_state b) d (parent_dir_of u) (cb_sequence b) (cb_flags b) disk u = (Inr v, u)"
    "map_of (sw_docs w') (d @ [''meta.json'']) = Some (Some (snapshot_document_of env ctx (cb_overlay b) Vmstate_engine (Some v)))"
    "host_of w' = host_of u" "sw_blobs w' = sw_blobs u" "sw_caches w' = sw_caches u"
proof -
  from assms obtain u1 u2 u3 disk meta where
    disk: "finalize_vmstate_root_disk env (cb_disk b) w = (Inr disk, u1)"
    and meta: "build_vmstate_meta env ctx (cb_state b) d (parent_dir_of u1) (cb_sequence b) (cb_flags b) disk u1 = (Inr meta, u2)"
    and doc: "write_snapshot_meta env ctx d (cb_overlay b) Vmstate_engine (Some meta) u2 = (Inr (), u3)"
    and chain: "update_vmstate_chain env d (cb_sequence b) u3 = (Inr (), w')"
    unfolding finish_bundle_def by (auto elim!: bind_eff_SomeD simp: gets_eff_def)
  have u2: "u2 = u1" using meta by (rule meta_details) simp
  have u3: "u3 = u1\<lparr>sw_docs := (d @ [''meta.json''], Some (snapshot_document_of env ctx (cb_overlay b) Vmstate_engine (Some meta))) #
      filter (\<lambda>(q, _). q \<noteq> d @ [''meta.json'']) (sw_docs u1)\<rparr>"
    using doc by (simp add: write_snapshot_meta_def Let_def u2 split: if_splits)
  have "w' = u3 \<or> (\<exists>c. w' = u3\<lparr>sw_chain := c\<rparr>)"
    using chain by (auto simp: update_vmstate_chain_def split: option.splits if_splits)
  then show thesis
    using disk meta u2 u3 by (intro that [of disk u1 meta]) (auto simp: host_of_def cong: option.case_cong)
qed


section \<open>A bundle on its own host\<close>

text \<open>The options ask for nothing that the bundle records, and the base assets are those of the source.\<close>

definition restores_alike ::
    "'v restore_env \<Rightarrow> restore_options \<Rightarrow> 'v snap_env \<Rightarrow> snapshot_context \<Rightarrow> 'v snap_world \<Rightarrow> bool" where
  "restores_alike renv opts env ctx w \<longleftrightarrow>
     se_sha256 (re_snap renv) = se_sha256 env \<and> se_gunzip (re_snap renv) = se_gunzip env \<and>
     se_backend (re_snap renv) = se_backend env \<and> canonical (se_cwd env) \<and>
     truthy (ro_image opts) = None \<and> ro_root_disk opts = None \<and> ro_memory opts = None \<and> restore_env_memory renv opts = None \<and>
     ro_live_mounts opts = [] \<and>
     resolve_base_kernel (path_exists w) (re_assets renv) (ro_kernel opts) (base_cwd renv opts) =
       Inr (resolve [] (the (truthy (sc_kernel ctx)))) \<and>
     resolve_base_dtb (path_exists w) (re_assets renv) (ro_dtb opts) (base_cwd renv opts) =
       Inr (map_option (resolve []) (truthy (sc_dtb ctx)))"

lemma artifact_resolved: "artifact_ok sha (host_of w) (path_text (resolve [] p)) = artifact_ok sha (host_of w) p"
  using resolve_canonical [of "[]" p] by (simp add: fun_eq_iff artifact_ok_blobs resolve_path_text canonical_def)

lemma assets_here:
  assumes "restores_alike renv opts env ctx w" "snapshot_boot_assets_identity env ctx guest u = (Inr ba, u)" "host_of w = host_of u"
    and "vd_boot_assets v = Some ba" "rw_host wr = w"
  shows "\<exists>rootfs. truthy (sc_source_image ctx) = Some rootfs \<and> assets_fit renv opts v rootfs wr \<and> file_there (resolve [] rootfs) wr"
proof -
  note ba = assets_artifacts(2-4) [OF assms(2)]
  then obtain rootfs kern where src: "truthy (sc_source_image ctx) = Some rootfs" "truthy (sc_kernel ctx) = Some kern"
      "artifact_ok (se_sha256 env) (host_of u) rootfs (ba_rootfs ba)" "artifact_ok (se_sha256 env) (host_of u) kern (ba_kernel ba)"
    by blast
  have "assets_fit renv opts v rootfs wr"
    using assms(1,3-5) ba(1,3) src
    by (simp add: assets_fit_def restores_alike_def artifact_resolved option.rel_map Let_def flip: assms(3))
  moreover have "file_there (resolve [] rootfs) wr"
    using src(3) host_file_there [of w rootfs] by (auto simp: artifact_ok_def file_there_def assms(3,5))
  ultimately show ?thesis using src(1) by blast
qed

lemma machine_here:
  assumes "restores_alike renv opts env ctx w" "vd_backend v = Some (se_backend env)" "vd_arch v = Some (h_arch (f_header facts))"
    and "vd_topology v = Some (h_topology_hash (f_header facts))" "h_arch (f_header facts) = se_arch (re_snap renv)"
  shows "machine_fits renv v facts" "memory_fits renv opts v"
  using assms
  by (auto simp: machine_fits_def memory_fits_def restores_alike_def requested_restore_memory_def restore_env_memory_mib_def)

lemma disk_segments: "segments VMSTATE_ROOTDISK_FILE = [VMSTATE_ROOTDISK_FILE]"
    "segments ''mount-lower.sqfs'' = [''mount-lower.sqfs'']" "segments ''mount-upper.img'' = [''mount-upper.img'']"
  by code_simp+

lemma walk_name: "segments f = [f] \<Longrightarrow> walk (rev d) (segments f) = d @ [f]" if "f \<noteq> ''.''" "f \<noteq> ''..''" "f \<noteq> ''''"
  using that by simp

lemma walk_parts:
  "walk (rev d) (segments VMSTATE_ROOTDISK_FILE) = d @ [VMSTATE_ROOTDISK_FILE]"
  "walk (rev d) (segments ''mount-lower.sqfs'') = d @ [''mount-lower.sqfs'']"
  "walk (rev d) (segments ''mount-upper.img'') = d @ [''mount-upper.img'']"
  using walk_name [OF _ _ _ disk_segments(1)] walk_name [OF _ _ _ disk_segments(2)] walk_name [OF _ _ _ disk_segments(3)]
  by (simp_all add: VMSTATE_ROOTDISK_FILE_def)


lemma disk_here:
  assumes "finalize_vmstate_root_disk env (full_disk ctx d) u = (Inr rd, u')" "canonical d" "vd_root_disk v = Some rd"
    and "\<forall>i stamp. trusted (sw_caches u) (the (truthy (sc_root_disk_path ctx))) = Some (i, stamp) \<longrightarrow> id_sample i = None"
    and "se_sha256 (re_snap renv) = se_sha256 env" "ro_root_disk opts = None"
    and "rw_host wr = w" "host_of w = host_of u'" "sw_caches w = sw_caches u'"
  shows "disk_fits renv opts v d wr" "\<exists>c. u' = u\<lparr>sw_caches := c\<rparr>"
proof -
  have "disk_fits renv opts v d wr \<and> (\<exists>c. u' = u\<lparr>sw_caches := c\<rparr>)"
  proof (cases "sc_root_disk_mode ctx = Some None_mode")
    case True
    then have "rd = Disk_none" "u' = u" using assms(1) by (simp_all add: full_disk_def finalize_vmstate_root_disk_def return_eff_def)
    then show ?thesis using assms(3,6) by (auto simp: disk_fits_def Let_def intro!: exI [of _ "sw_caches u"])
  next
    case False
    let ?q = "d @ [VMSTATE_ROOTDISK_FILE]"
    have "canonical ?q" using assms(2) by (simp add: canonical_def VMSTATE_ROOTDISK_FILE_def segment_ok_def)
    then have q: "resolve [] (path_text ?q) = ?q" by (rule resolve_path_text)
    obtain i c where i: "rd = Disk_block VMSTATE_ROOTDISK_FILE i" "u' = u\<lparr>sw_caches := c\<rparr>"
        "bundled_ok (se_sha256 env) (host_of u) c (path_text ?q) i"
      using finalized_fits [of env VMSTATE_ROOTDISK_FILE "the (truthy (sc_root_disk_path ctx))" ?q u rd u'] assms(1,4) False
      by (auto simp: full_disk_def)
    have there: "path_exists w ?q"
      using i(2,3) assms(8) host_file_there [of w "path_text ?q"] by (auto simp: bundled_ok_def q)
    show ?thesis
      using i there assms(3,5-9) by (auto simp: disk_fits_def Let_def walk_parts file_there_def)
  qed
  then show "disk_fits renv opts v d wr" "\<exists>c. u' = u\<lparr>sw_caches := c\<rparr>" by simp_all
qed

lemma overlay_here:
  assumes "overlay_in ctx \<noteq> None \<Longrightarrow>
      map_of (sw_blobs (rw_host wr)) (d @ [''mount-lower.sqfs'']) \<noteq> None \<and> map_of (sw_blobs (rw_host wr)) (d @ [''mount-upper.img'']) \<noteq> None"
    and "sd_mount_disk meta = overlay_in ctx"
  shows "overlay_fits d meta wr"
proof -
  have "file_there p wr" if "map_of (sw_blobs (rw_host wr)) p \<noteq> None" for p
    using that by (force simp: file_there_def path_exists_def known_paths_def list_ex_iff under_def dest: map_of_SomeD)
  then show ?thesis
    using assms by (auto simp: overlay_fits_def overlay_of_def overlay_in_def walk_parts split: option.splits)
qed

lemma mounts_here: "\<exists>mounts. resolve_restore_live_mounts ms [] = Inr mounts"
  by (simp add: resolve_restore_live_mounts_def plan_restore_live_mounts_def split: option.split)

text \<open>The steps above, for a snapshot without a parent\<close>

lemma taken_fits:
  assumes "perform_snapshot_vmstate env ctx sopts w = (Inr d, w')" "truthy (sc_vmstate_path ctx) = Some p"
    and "se_can_write env (resolve [] p)" "parent_dir_of w = None"
    and "\<forall>i stamp. trusted (sw_caches w) (the (truthy (sc_root_disk_path ctx))) = Some (i, stamp) \<longrightarrow> id_sample i = None"
    and alike: "restores_alike renv opts env ctx w'"
    and "\<forall>facts. read_vmstate_facts (se_gunzip env) (fst (se_dump env (sw_vmm w))) = Inr facts \<longrightarrow>
      h_arch (f_header facts) = se_arch (re_snap renv)"
    and "rw_host wr = w'"
  shows "checkpoint_parent_of (read_snapshot_meta d wr) = None"
    "map_of (sw_blobs w') (d @ [VMSTATE_FILE]) = Some (fst (se_dump env (sw_vmm w)))"
    "\<exists>rootfs mounts. restore_fits renv opts d (initial_restore_bundle d wr) rootfs mounts wr"
proof -
  let ?raw = "fst (se_dump env (sw_vmm w))"
  obtain b u where d: "d = resolve (se_cwd env) (so_out_dir sopts)" and finish: "finish_bundle env ctx d b u = (Inr (), w')"
    and b: "cb_state b = d @ [VMSTATE_FILE]" "map_of (sw_blobs u) (d @ [VMSTATE_FILE]) = Some ?raw" "sw_caches u = sw_caches w"
      "parent_dir_of u = None" "cb_disk b = full_disk ctx d" "cb_overlay b = overlay_in ctx"
      "cb_overlay b \<noteq> None \<Longrightarrow> map_of (sw_blobs u) (d @ [''mount-lower.sqfs'']) \<noteq> None \<and> map_of (sw_blobs u) (d @ [''mount-upper.img'']) \<noteq> None"
    using snapshot_stages [OF assms(1-4)] by blast
  obtain disk u' v where final: "finalize_vmstate_root_disk env (cb_disk b) u = (Inr disk, u')"
    and meta: "build_vmstate_meta env ctx (cb_state b) d (parent_dir_of u') (cb_sequence b) (cb_flags b) disk u' = (Inr v, u')"
    and doc: "map_of (sw_docs w') (d @ [''meta.json'']) = Some (Some (snapshot_document_of env ctx (cb_overlay b) Vmstate_engine (Some v)))"
    and left: "host_of w' = host_of u'" "sw_blobs w' = sw_blobs u'" "sw_caches w' = sw_caches u'"
    using finish_details [OF finish] by blast
  have canon: "canonical d" using alike resolve_canonical by (simp add: d restores_alike_def)
  obtain raw facts ba where facts: "map_of (sw_blobs u') (cb_state b) = Some raw" "read_vmstate_facts (se_gunzip env) raw = Inr facts"
    and v: "vd_backend v = Some (se_backend env)" "vd_arch v = Some (h_arch (f_header facts))"
      "vd_topology v = Some (h_topology_hash (f_header facts))" "vd_root_disk v = Some disk" "vd_boot_assets v = Some ba"
      "map_option cd_parent (vd_checkpoint v) = Some (relative_checkpoint_parent (se_cwd env) (path_text d) (parent_dir_of u'))"
    and ba: "snapshot_boot_assets_identity env ctx (h_arch (f_header facts)) u' = (Inr ba, u')"
    using meta_details [OF meta] by metis
  have "\<forall>i stamp. trusted (sw_caches u) (the (truthy (sc_root_disk_path ctx))) = Some (i, stamp) \<longrightarrow> id_sample i = None"
      "se_sha256 (re_snap renv) = se_sha256 env" "ro_root_disk opts = None"
    using assms(5) b(3) alike by (simp_all add: restores_alike_def)
  note disk = disk_here [OF final [unfolded b(5)] canon v(4) this assms(8) left(1,3)]
  have blobs: "sw_blobs w' = sw_blobs u" "parent_dir_of u' = None" using disk(2) left(2) b(4) by (auto simp: parent_dir_of_def)
  show raw: "map_of (sw_blobs w') (d @ [VMSTATE_FILE]) = Some ?raw" using blobs b(2) by simp
  have read: "read_snapshot_meta d wr = snapshot_document_of env ctx (cb_overlay b) Vmstate_engine (Some v)"
    using doc assms(8) by (simp add: read_snapshot_meta_def)
  show "checkpoint_parent_of (read_snapshot_meta d wr) = None"
    using v(6) blobs(2) by (cases "vd_checkpoint v")
      (simp_all add: read checkpoint_parent_of_def snapshot_document_of_def relative_checkpoint_parent_def truthy_def)
  obtain rootfs where assets: "truthy (sc_source_image ctx) = Some rootfs" "assets_fit renv opts v rootfs wr" "file_there (resolve [] rootfs) wr"
    using assets_here [OF alike ba left(1) v(5) assms(8)] by blast
  have same: "raw = ?raw" using facts(1) raw b(1) left(2) by simp
  have machine: "machine_fits renv v facts" "memory_fits renv opts v"
    using machine_here [OF alike v(1-3)] assms(7) facts(2) same by simp_all
  have overlay: "overlay_fits d (read_snapshot_meta d wr) wr"
    by (rule overlay_here [where ctx = ctx]) (use b(6,7) blobs(1) assms(8) in \<open>simp_all add: read snapshot_document_of_def\<close>)
  obtain mounts where "resolve_restore_live_mounts (sd_live_mounts (read_snapshot_meta d wr)) (ro_live_mounts opts) = Inr mounts"
    using mounts_here alike by (auto simp: restores_alike_def)
  moreover have "image_fits renv opts (read_snapshot_meta d wr) wr rootfs"
    using assets(1,3) alike by (auto simp: image_fits_def restores_alike_def read snapshot_document_of_def truthy_def split: option.splits if_splits)
  moreover have "bundle_fits renv opts (read_snapshot_meta d wr) d (d @ [VMSTATE_FILE]) rootfs wr"
    using raw facts(2) same assms(8) machine assets(2) disk(1) alike
    by (auto simp: bundle_fits_def read snapshot_document_of_def restores_alike_def)
  ultimately show "\<exists>rootfs mounts. restore_fits renv opts d (initial_restore_bundle d wr) rootfs mounts wr"
    using overlay by (auto simp: restore_fits_def initial_restore_bundle_def)
qed

lemma taken_boots:
  assumes "checkpoint_parent_of (read_snapshot_meta d wr) = None"
    and "map_of (sw_blobs (rw_host wr)) (d @ [VMSTATE_FILE]) = Some raw"
    and "\<exists>rootfs mounts. restore_fits renv opts d (initial_restore_bundle d wr) rootfs mounts wr"
  shows "\<exists>req disk. Boot_asked req (Some raw) disk None \<in> set (new_events (restore_vmstate renv opts d) wr)"
proof -
  obtain rootfs mounts where fits: "restore_fits renv opts d (initial_restore_bundle d wr) rootfs mounts wr" using assms(3) by blast
  have "materialize_chain_if_needed renv (initial_restore_bundle d wr) wr = (Inr (initial_restore_bundle d wr), wr)"
    using assms(1) by (simp add: materialize_chain_if_needed_def initial_restore_bundle_def return_eff_def)
  from asked_exactly [OF this] fits show ?thesis
    using assms(2) by (auto simp: asked_event_def Let_def initial_restore_bundle_def)
qed

lemma sources_remain:
  assumes "perform_snapshot_vmstate env ctx sopts w = (Inr d, w')" "truthy (sc_vmstate_path ctx) = Some p"
    and "se_can_write env (resolve [] p)" "parent_dir_of w = None"
  shows "\<And>q. truthy (sc_kernel ctx) = Some q \<Longrightarrow> path_exists w' (resolve [] q)"
    "\<And>q. truthy (sc_dtb ctx) = Some q \<Longrightarrow> path_exists w' (resolve [] q)"
proof -
  obtain b u where finish: "finish_bundle env ctx d b u = (Inr (), w')" using snapshot_stages [OF assms] by blast
  obtain disk u' v where meta: "build_vmstate_meta env ctx (cb_state b) d (parent_dir_of u') (cb_sequence b) (cb_flags b) disk u' = (Inr v, u')"
      "host_of w' = host_of u'"
    using finish_details [OF finish] by blast
  obtain guest ba where "snapshot_boot_assets_identity env ctx guest u' = (Inr ba, u')"
    using meta(1) by (rule meta_details)
  note found = assets_artifacts(3,4) [OF this]
  show "path_exists w' (resolve [] q)" if "truthy (sc_kernel ctx) = Some q" for q
    using found(1) that meta(2) host_file_there [of w' q] by (auto simp: artifact_ok_def)
  show "path_exists w' (resolve [] q)" if "truthy (sc_dtb ctx) = Some q" for q
    using found(2) that meta(2) host_file_there [of w' q] by (auto simp: artifact_ok_def option_rel_Some1)
qed

text \<open>C4: A bundle that a snapshot without a parent has just written is accepted by a restore on the same host:
  no check refuses it, and a machine is asked for that reads the very bytes that the virtual machine
  monitor dumped when the source was paused. This holds with and without a disk and an overlay; the disk
  must not be remembered from a sample alone.\<close>

theorem taken_bundle_is_accepted:
  assumes "perform_snapshot_vmstate env ctx sopts w = (Inr d, w')" "truthy (sc_vmstate_path ctx) = Some p"
    and "se_can_write env (resolve [] p)" "parent_dir_of w = None"
    and "\<forall>i stamp. trusted (sw_caches w) (the (truthy (sc_root_disk_path ctx))) = Some (i, stamp) \<longrightarrow> id_sample i = None"
    and "restores_alike renv opts env ctx w'"
    and "\<forall>facts. read_vmstate_facts (se_gunzip env) (fst (se_dump env (sw_vmm w))) = Inr facts \<longrightarrow>
      h_arch (f_header facts) = se_arch (re_snap renv)"
    and "rw_host wr = w'"
  shows "\<exists>req disk. Boot_asked req (Some (fst (se_dump env (sw_vmm w)))) disk None
    \<in> set (new_events (restore_vmstate renv opts d) wr)"
  by (rule taken_boots [OF taken_fits(1) [OF assms] _ taken_fits(3) [OF assms]]) (simp add: taken_fits(2) [OF assms] assms(8))

end
