(* ===== verification/Snapshot_Samples.thy ===== *)
theory Snapshot_Samples
  imports Checkpoint_Ram
begin

text \<open>
  A small machine and host on which the theorems about snapshots are applied: a kernel, a device tree and
  an image file, a machine of two pages without a root disk, and a state file that appears after 5 ms.
\<close>

section \<open>A format of pages\<close>

text \<open>A page is its bytes, each behind a 1, and a 0; its number is as many 1s and a 0.\<close>

definition put_marked :: "bytes \<Rightarrow> bytes" where
  "put_marked bs = concat (map (\<lambda>b. [1, b]) bs) @ [0]"

fun get_marked :: "bytes \<Rightarrow> bytes \<times> bytes" where
  "get_marked (m # b # r) = (if m = 0 then ([], b # r) else apfst (Cons b) (get_marked r))"
| "get_marked r = ([], [])"

definition put_page :: "nat \<times> bytes \<Rightarrow> bytes" where
  "put_page p = put_marked (replicate (fst p) 0) @ put_marked (snd p)"

fun get_pages :: "nat \<Rightarrow> bytes \<Rightarrow> (nat \<times> bytes) list" where
  "get_pages 0 bs = []"
| "get_pages (Suc n) bs =
     (if bs = [] then []
      else case get_marked bs of (num, r) \<Rightarrow> (case get_marked r of (page, r') \<Rightarrow> (length num, page) # get_pages n r'))"

definition marked_format :: ram_format where
  "marked_format =
     \<lparr>full_payload = (\<lambda>ram. concat (map put_page (map (Pair 0) ram))), delta_payload = (\<lambda>ps. concat (map put_page ps)),
      read_full = (\<lambda>bs. map snd (get_pages (length bs) bs)), read_delta = (\<lambda>bs. get_pages (length bs) bs)\<rparr>"

lemma get_put_marked: "get_marked (put_marked bs @ r) = (bs, r)"
proof (induction bs)
  case Nil
  then show ?case by (cases r) (simp_all add: put_marked_def)
qed (simp add: put_marked_def)

lemma put_page_length: "0 < length (put_page p)"
  by (simp add: put_page_def put_marked_def)

lemma get_put_pages: "length (concat (map put_page ps)) \<le> n \<Longrightarrow> get_pages n (concat (map put_page ps)) = ps"
proof (induction ps arbitrary: n)
  case Nil
  then show ?case by (cases n) simp_all
next
  case (Cons p ps)
  then obtain m where n: "n = Suc m" using put_page_length [of p] by (cases n) simp_all
  have rest: "length (concat (map put_page ps)) \<le> m"
    using Cons.prems put_page_length [of p] by (simp add: n del: length_greater_0_conv)
  have "get_pages (Suc m) (put_page p @ r) = p # get_pages m r" for r
    using put_page_length [of p] by (auto simp: put_page_def get_put_marked)
  then show ?case using Cons.IH [OF rest] by (simp add: n del: get_pages.simps)
qed

lemma marked_format_ok: "format_ok marked_format"
proof -
  have "map snd (map (Pair (0 :: nat)) ram) = ram" for ram :: "bytes list" by (simp add: comp_def)
  then show ?thesis using get_put_pages [OF order_refl] by (simp add: format_ok_def marked_format_def del: map_map)
qed

section \<open>A host\<close>

definition sample_ctx :: "overlay_files option \<Rightarrow> snapshot_context" where
  "sample_ctx ov =
     \<lparr>sc_pid = 7, sc_source_name = None, sc_source_image = Some ''/img'', sc_root_disk_path = None,
      sc_root_disk_mode = Some None_mode, sc_memory = Some 512, sc_kernel = Some ''/kernel'', sc_dtb = Some ''/dtb'',
      sc_mount_disk = ov, sc_live_mounts = [], sc_vmstate_path = Some ''/run/state'', sc_nested = False,
      sc_direct_sync = True\<rparr>"

definition sample_env :: "nat option \<Rightarrow> ram_vmm snap_env" where
  "sample_env after =
     \<lparr>se_engine = None, se_cwd = [''home''], se_backend = Kvm, se_arch = Arm64, se_sha256 = (\<lambda>bs. [of_nat (length bs)]),
      se_gunzip = (\<lambda>_. None), se_now = 0, se_can_write = (\<lambda>_. True), se_stamp = (\<lambda>_ _. (0, 0, 0, 0)),
      se_can_signal = True, se_dump = vmm_dump marked_format, se_dump_after = after, se_direct_sync = Some 0,
      se_shell_sync = True, se_can_update = True,
      se_criu = \<lparr>dr_exit = Some 0, dr_present = True, dr_tar_spawned = True, dr_tar_code = Some 0, dr_timed_out = False\<rparr>,
      se_images = [(''core-1.img'', [1])]\<rparr>"

definition sample_blobs :: "(path \<times> bytes) list" where
  "sample_blobs = [([''img''], [1]), ([''kernel''], [2]), ([''dtb''], [3]), ([''low''], [4]), ([''up''], [5])]"

definition sample_vmm :: ram_vmm where
  "sample_vmm = \<lparr>vm_ram = [[1], [2]], vm_dirty = [], vm_delta_mode = False, vm_devices = []\<rparr>"

definition sample_world :: "ram_vmm snap_world" where
  "sample_world =
     \<lparr>sw_blobs = sample_blobs, sw_docs = [], sw_dirs = [], sw_stamps = (\<lambda>_. (0, 0, 0, 0)),
      sw_caches = \<lparr>trusted = Map.empty, managed = Map.empty\<rparr>, sw_vmm = sample_vmm, sw_pending = None,
      sw_chain = Some \<lparr>vc_chain_id = ''c'', vc_parent_dir = None, vc_sequence = 0\<rparr>, sw_log = []\<rparr>"

definition sample_options :: "string \<Rightarrow> snapshot_options" where
  "sample_options out =
     \<lparr>so_out_dir = out, so_timeout_ms = None, so_dump_cmd = None, so_leave_running = False, so_tcp_close = False\<rparr>"

lemmas sample_defs = sample_ctx_def sample_env_def sample_options_def

lemma sample_resolved [simp]:
  "resolve [''home''] ''one'' = [''home'', ''one'']" "resolve [''home''] ''two'' = [''home'', ''two'']"
  "resolve [''home''] ''bad'' = [''home'', ''bad'']" "resolve [''home''] ''/img'' = [''img'']"
  "resolve [] ''/run/state'' = [''run'', ''state'']" "resolve [] ''/img'' = [''img'']" "resolve [] ''/kernel'' = [''kernel'']"
  "resolve [] ''/dtb'' = [''dtb'']" "resolve [] ''/low'' = [''low'']" "resolve [] ''/up'' = [''up'']"
  by code_simp+

text \<open>A snapshot is ready in every world with the files and without the directory.\<close>

definition sample_ov :: overlay_files where
  "sample_ov = \<lparr>ov_guest = ''/mnt'', ov_lower = ''/low'', ov_upper = ''/up''\<rparr>"

lemma sample_ready:
  assumes "\<And>q. map_of sample_blobs q \<noteq> None \<Longrightarrow> map_of (sw_blobs w) q \<noteq> None" "dir_free w (resolve [''home''] out)"
    and "dump_fits marked_format (sw_vmm w)" "vm_devices (sw_vmm w) = []" "ov = None \<or> ov = Some sample_ov"
  shows "snapshot_ready (sample_env (Some 5)) (sample_ctx ov) (sample_options out) w"
proof -
  have files: "map_of (sw_blobs w) [''img''] \<noteq> None" "map_of (sw_blobs w) [''kernel''] \<noteq> None" "map_of (sw_blobs w) [''dtb''] \<noteq> None"
      "map_of (sw_blobs w) [''low''] \<noteq> None" "map_of (sw_blobs w) [''up''] \<noteq> None"
    using assms(1) by (simp_all add: sample_blobs_def)
  have "canonical [''home'']" by (simp add: canonical_def segment_ok_def)
  moreover have "fst (vmm_dump marked_format (sw_vmm w)) \<noteq> []"
    by (simp add: vmm_dump_def encode_vmstate_def encode_header_def MAGIC_def bytes_of_def)
  moreover have "sctlr_as_read (fst (vmm_dump marked_format (sw_vmm w))) (captured_sections marked_format (sw_vmm w)) = Inr None"
    using assms(4) by (simp add: sctlr_as_read_def captured_sections_def TAG_RAM_def TAG_RAM_DELTA_def TAG_VCPU_def)
  ultimately show ?thesis
    using assms(2,5) files read_dump [OF assms(3)]
    by (auto simp: snapshot_ready_def sample_defs sample_ov_def truthy_def deadline_of_def has_files_def disk_files_def
        overlay_paths_def named_files_def split: prod.splits)
qed


section \<open>One snapshot\<close>

lemma sample_fits: "dump_fits marked_format sample_vmm"
  by (simp add: dump_fits_def devices_ok_def captured_sections_def sample_vmm_def marked_format_def put_page_def
      put_marked_def wf_section_def)

lemma sample_world_ready: "ov = None \<or> ov = Some sample_ov \<Longrightarrow> snapshot_ready (sample_env (Some 5)) (sample_ctx ov) (sample_options ''one'') sample_world"
  by (rule sample_ready)
    (simp_all add: sample_world_def dir_free_def path_exists_def known_paths_def sample_blobs_def under_def sample_fits, simp add: sample_vmm_def)

lemma sample_runs:
  assumes "ov = None \<or> ov = Some sample_ov"
  shows "\<exists>w. perform_snapshot_vmstate (sample_env (Some 5)) (sample_ctx ov) (sample_options ''one'') sample_world =
    (Inr [''home'', ''one''], w)"
  using ready_vmstate [OF sample_world_ready [OF assms]] by (simp add: prod_eq_iff sample_defs)

section \<open>Two checkpoints\<close>

definition tidy :: "path \<Rightarrow> ram_vmm snap_world \<Rightarrow> ram_vmm snap_world" where
  "tidy d w =
     w\<lparr>sw_blobs := filter (\<lambda>(q, _). under d q) (sw_blobs w) @ sample_blobs,
       sw_docs := filter (\<lambda>(q, _). under d q) (sw_docs w), sw_dirs := []\<rparr>"

abbreviation dir_one :: path where "dir_one \<equiv> [''home'', ''one'']"

abbreviation dir_two :: path where "dir_two \<equiv> [''home'', ''two'']"

abbreviation no_zip :: "bytes \<Rightarrow> bytes option" where "no_zip \<equiv> (\<lambda>_. None)"

lemma map_of_filter_keys: "map_of (filter (\<lambda>(q, _). P q) xs) k = (if P k then map_of xs k else None)"
  by (induction xs) auto

definition known_only :: "path list \<Rightarrow> ram_vmm snap_world \<Rightarrow> bool" where
  "known_only ds w \<longleftrightarrow> (\<forall>q \<in> set (known_paths w). under dir_one q \<or> length q = 1 \<or> q \<in> set ds)"

lemma sample_session:
  "\<exists>w. vm_session marked_format no_zip (sample_ctx None) w [(dir_one, [[1], [2]])] \<and>
     (\<forall>q. map_of sample_blobs q \<noteq> None \<longrightarrow> map_of (sw_blobs w) q \<noteq> None) \<and>
     known_only [] w \<and>
     sw_vmm w = sample_vmm\<lparr>vm_delta_mode := True\<rparr>"
proof -
  obtain w where w: "perform_snapshot_vmstate (sample_env (Some 5)) (sample_ctx None) (sample_options ''one'') sample_world =
      (Inr dir_one, w)" using sample_runs by blast
  have env: "session_env marked_format no_zip (sample_env (Some 5))"
    by (simp add: session_env_def marked_format_ok sample_defs canonical_def segment_ok_def)
  have apart: "state_file_apart (sample_env (Some 5)) (sample_ctx None) (dir_one # map fst [])"
    by (simp add: state_file_apart_def sample_defs truthy_def)
  have boots: "vm_session marked_format no_zip (sample_ctx None) sample_world []"
    by (rule vm_session.boots) (simp_all add: sample_world_def sample_vmm_def)
  have fits: "dump_fits marked_format (sw_vmm sample_world)" by (simp add: sample_world_def sample_fits)
  from vm_session.snapshots [OF boots env fits w apart]
  have "vm_session marked_format no_zip (sample_ctx None) w [(dir_one, [[1], [2]])]"
    by (simp add: sample_world_def sample_vmm_def)
  then have "vm_session marked_format no_zip (sample_ctx None) (tidy dir_one w) [(dir_one, [[1], [2]])]"
  proof (rule vm_session.others)
    show "\<forall>d \<in> set (map fst [(dir_one, [[1], [2]])]). \<forall>x.
        map_of (sw_blobs (tidy dir_one w)) (d @ [x]) = map_of (sw_blobs w) (d @ [x]) \<and>
        map_of (sw_docs (tidy dir_one w)) (d @ [x]) = map_of (sw_docs w) (d @ [x])"
      using under_self [of dir_one]
      by (auto simp: tidy_def map_of_filter_keys sample_blobs_def map_add_def split: option.split)
  qed (simp_all add: tidy_def)
  moreover have "sw_vmm w = sample_vmm\<lparr>vm_delta_mode := True\<rparr>"
    using snapshot_extends(2) [OF env w apart _ fits] boots session_invariant
    by (fastforce simp: sample_world_def sample_vmm_def)
  ultimately show ?thesis
    by (intro exI [of _ "tidy dir_one w"])
      (auto simp: tidy_def known_only_def known_paths_def sample_blobs_def map_of_filter_keys map_add_def split: option.split if_splits)
qed

text \<open>Page 1 is written after the first checkpoint.\<close>

definition sample_written :: ram_vmm where
  "sample_written = \<lparr>vm_ram = [[1], [9]], vm_dirty = [1], vm_delta_mode = True, vm_devices = []\<rparr>"

lemma written_session:
  "\<exists>w. vm_session marked_format no_zip (sample_ctx None) w [(dir_one, [[1], [2]])] \<and>
     (\<forall>q. map_of sample_blobs q \<noteq> None \<longrightarrow> map_of (sw_blobs w) q \<noteq> None) \<and>
     known_only [] w \<and> sw_vmm w = sample_written"
proof -
  obtain w where w: "vm_session marked_format no_zip (sample_ctx None) w [(dir_one, [[1], [2]])]"
    "\<forall>q. map_of sample_blobs q \<noteq> None \<longrightarrow> map_of (sw_blobs w) q \<noteq> None"
    "known_only [] w" "sw_vmm w = sample_vmm\<lparr>vm_delta_mode := True\<rparr>"
    using sample_session by blast
  show ?thesis
    using vm_session.writes [OF w(1), of 1 "[9]"] w(2-4)
    by (intro exI [of _ "w\<lparr>sw_vmm := guest_writes 1 [9] (sw_vmm w)\<rparr>"])
      (auto simp: known_only_def known_paths_def guest_writes_def sample_vmm_def sample_written_def)
qed

lemma not_there:
  "known_only [] w \<Longrightarrow> \<not> path_exists w [''home'', ''bad'']" "known_only [[''home'', ''bad'']] w \<Longrightarrow> \<not> path_exists w dir_two"
  by (force simp: path_exists_def list_ex_iff under_def known_only_def)+


lemma delta_fits:
  assumes "v = sample_written \<or> v = \<lparr>vm_ram = [[7], [9]], vm_dirty = [0], vm_delta_mode = True, vm_devices = []\<rparr>"
  shows "dump_fits marked_format v"
proof -
  have "[0..<2] = [0, 1 :: nat]" by (simp add: numeral_2_eq_2)
  then have "length (concat (map put_page (dirty_pages v))) < 100" "vm_delta_mode v" "vm_devices v = []"
    using assms by (auto simp: dirty_pages_def sample_written_def put_page_def put_marked_def numeral_2_eq_2)
  then show ?thesis
    by (simp add: dump_fits_def devices_ok_def captured_sections_def marked_format_def wf_section_def)
qed


text \<open>Page 1 is lost: the failed snapshot has captured it, and page 0 is written after it.\<close>

theorem failed_snapshot_loses_pages_witness:
  "\<exists>w2 w3 ram. restored_ram marked_format no_zip [] w3 dir_two = Some ram \<and> ram ! 1 = [2] \<and> vm_ram (sw_vmm w2) ! 1 = [9] \<and>
     perform_snapshot_vmstate (sample_env (Some 5)) (sample_ctx None) (sample_options ''two'') w2 = (Inr dir_two, w3)"
proof -
  obtain w where w: "vm_session marked_format no_zip (sample_ctx None) w [(dir_one, [[1], [2]])]"
    "\<forall>q. map_of sample_blobs q \<noteq> None \<longrightarrow> map_of (sw_blobs w) q \<noteq> None"
    "known_only [] w" "sw_vmm w = sample_written"
    using written_session by blast
  let ?late = "sample_env None"
  have "\<exists>w1. perform_snapshot_vmstate ?late (sample_ctx None) (sample_options ''bad'') w = (Inl (Snapshot_error Snapshot_timeout), w1) \<and>
    sw_vmm w1 = snd (se_dump ?late (sw_vmm w)) \<and> sw_chain w1 = sw_chain w \<and> sw_docs w1 = sw_docs w \<and>
    sw_blobs w1 = filter (\<lambda>(q, _). q \<noteq> resolve [] ''/run/state'') (sw_blobs w) \<and>
    sw_dirs w1 = resolve (se_cwd ?late) (so_out_dir (sample_options ''bad'')) # sw_dirs w"
    by (rule late_state_times_out) (use not_there(1) [OF w(3)] in \<open>simp_all add: sample_defs truthy_def\<close>)
  then obtain w1 where failed: "perform_snapshot_vmstate ?late (sample_ctx None) (sample_options ''bad'') w =
      (Inl (Snapshot_error Snapshot_timeout), w1)"
    and vmm: "sw_vmm w1 = snd (vmm_dump marked_format (sw_vmm w))" and left: "sw_docs w1 = sw_docs w"
      "sw_blobs w1 = filter (\<lambda>(q, _). q \<noteq> [''run'', ''state'']) (sw_blobs w)" "sw_dirs w1 = [''home'', ''bad''] # sw_dirs w"
    by (auto simp: sample_defs)
  let ?w2 = "w1\<lparr>sw_vmm := run_writes [(0, [7])] (sw_vmm w1)\<rparr>"
  have "known_only [[''home'', ''bad'']] ?w2" using w(3) left by (auto simp: known_only_def known_paths_def)
  then have two: "\<not> path_exists ?w2 dir_two" by (rule not_there(2))
  have files: "map_of (sw_blobs ?w2) q \<noteq> None" if "map_of sample_blobs q \<noteq> None" for q
    using that w(2) left(2) by (auto simp: map_of_filter_keys sample_blobs_def split: if_splits)
  have ram: "sw_vmm ?w2 = \<lparr>vm_ram = [[7], [9]], vm_dirty = [0], vm_delta_mode = True, vm_devices = []\<rparr>"
    by (simp add: vmm vmm_dump_def w(4) sample_written_def guest_writes_def)
  have fits: "dump_fits marked_format (sw_vmm ?w2)" using delta_fits ram by simp
  have "snapshot_ready (sample_env (Some 5)) (sample_ctx None) (sample_options ''two'') ?w2"
    by (rule sample_ready) (use files dir_freeI [OF two] fits ram in simp_all)
  from ready_vmstate [OF this] obtain w3 where w3: "perform_snapshot_vmstate (sample_env (Some 5)) (sample_ctx None)
      (sample_options ''two'') ?w2 = (Inr dir_two, w3)" by (auto simp: prod_eq_iff sample_defs)
  have "\<exists>ram. restored_ram marked_format no_zip [] w3 dir_two = Some ram \<and> length ram = length [[1 :: 8 word], [2]] \<and>
    (\<forall>i < length [[1 :: 8 word], [2]]. i \<notin> set (map fst [(0 :: nat, [7 :: 8 word])]) \<longrightarrow>
      ram ! i = [[1], [2]] ! i \<and> vm_ram (sw_vmm ?w2) ! i = vm_ram (sw_vmm w) ! i)"
    by (rule failed_snapshot_loses_pages [OF w(1) failed vmm _ refl _ fits w3])
      (simp_all add: session_env_def marked_format_ok sample_defs canonical_def segment_ok_def state_file_apart_def truthy_def)
  then obtain ram where "restored_ram marked_format no_zip [] w3 dir_two = Some ram" "ram ! 1 = [2]"
    by auto
  then show ?thesis using w3 ram by (intro exI [of _ ?w2] exI [of _ w3] exI [of _ ram]) simp
qed

section \<open>The other theorems\<close>

theorem ready_snapshot_completes_witness:
  "fst (perform_snapshot (sample_env (Some 5)) (sample_ctx None) (sample_options ''one'') sample_world) = Inr dir_one"
proof -
  have "resolve_snapshot_engine (se_engine (sample_env (Some 5))) = Some Vmstate_engine" "\<not> sc_nested (sample_ctx None)"
    by (simp_all add: sample_defs resolve_snapshot_engine_def)
  from ready_snapshot_completes [OF this sample_world_ready] show ?thesis by (simp add: sample_defs)
qed

theorem snapshot_records_the_capture_witness:
  "\<exists>(w :: ram_vmm snap_world) doc v. map_of (sw_docs w) [''home'', ''one'', ''meta.json''] = Some (Some doc) \<and> sd_vmstate doc = Some v \<and>
     map_option cd_parent (vd_checkpoint v) = Some None \<and>
     map_of (sw_blobs w) [''home'', ''one'', VMSTATE_FILE] = Some (fst (vmm_dump marked_format sample_vmm))"
proof -
  obtain w where w: "perform_snapshot_vmstate (sample_env (Some 5)) (sample_ctx None) (sample_options ''one'') sample_world =
      (Inr dir_one, w)" using sample_runs by blast
  have host: "truthy (sc_vmstate_path (sample_ctx None)) = Some ''/run/state''"
      "se_can_write (sample_env (Some 5)) (resolve [] ''/run/state'')"
      "sw_chain sample_world = Some \<lparr>vc_chain_id = ''c'', vc_parent_dir = None, vc_sequence = 0\<rparr>"
    by (simp_all add: sample_defs truthy_def sample_world_def)
  from snapshot_records_the_capture [OF w host] obtain doc v where
    "map_of (sw_docs w) (dir_one @ [''meta.json'']) = Some (Some doc)" "sd_vmstate doc = Some v"
    "map_option cd_parent (vd_checkpoint v) = Some (relative_checkpoint_parent [''home''] (path_text dir_one) None)"
    "map_of (sw_blobs w) (dir_one @ [VMSTATE_FILE]) = Some (fst (vmm_dump marked_format sample_vmm))"
    by (auto simp: sample_env_def [of "Some 5"] sample_world_def)
  then show ?thesis
    by (intro exI [of _ w] exI [of _ doc] exI [of _ v]) (simp add: relative_checkpoint_parent_def)
qed

theorem overlay_sync_meets_a_paused_guest_witness:
  "\<exists>w :: ram_vmm snap_world. [Guest_command OVERLAY_SYNC, Copied [''low''] [''home'', ''one'', ''mount-lower.sqfs''],
     Copied [''up''] [''home'', ''one'', ''mount-upper.img''], Signalled 7 ''SIGUSR2''] =
       drop (length (sw_log w) - 4) (sw_log w)"
proof -
  obtain w where w: "perform_snapshot_vmstate (sample_env (Some 5)) (sample_ctx (Some sample_ov)) (sample_options ''one'') sample_world =
      (Inr dir_one, w)" using sample_runs by blast
  have "sc_mount_disk (sample_ctx (Some sample_ov)) = Some sample_ov" by (simp add: sample_defs)
  from overlay_sync_meets_a_paused_guest [OF w this] obtain es where "sw_log w = es @
      [Guest_command OVERLAY_SYNC, Copied [''low''] [''home'', ''one'', ''mount-lower.sqfs''],
       Copied [''up''] [''home'', ''one'', ''mount-upper.img''], Signalled 7 ''SIGUSR2'']"
    by (force simp: sample_ov_def sample_ctx_def)
  then show ?thesis by (intro exI [of _ w]) simp
qed

text \<open>The file \<open>/img\<close> is not a directory.\<close>

theorem failed_snapshot_keeps_the_chain_witness:
  "sw_chain (snd (perform_snapshot (sample_env (Some 5)) (sample_ctx None) (sample_options ''/img'') sample_world)) =
     Some \<lparr>vc_chain_id = ''c'', vc_parent_dir = None, vc_sequence = 0\<rparr>"
proof -
  have "perform_snapshot (sample_env (Some 5)) (sample_ctx None) (sample_options ''/img'') sample_world =
      (Inl (Snapshot_error Dump_failed), sample_world)"
    by (simp add: perform_snapshot_def perform_snapshot_vmstate_def sample_defs resolve_snapshot_engine_def truthy_def
        bind_eff_def prepare_bundle_root_dir_def Let_def path_exists_def path_is_dir_def known_paths_def sample_world_def
        sample_blobs_def under_def)
  from failed_snapshot_keeps_the_chain [OF this] show ?thesis
    using \<open>perform_snapshot _ _ _ _ = _\<close> by (simp add: sample_env_def sample_world_def)
qed

theorem criu_spares_the_source_witness:
  "dr_exit (se_criu (sample_env (Some 5))) = Some 0 \<and>
   Poweroff_awaited \<in> set (sw_log (snd (perform_snapshot_criu (sample_env (Some 5)) (sample_ctx None) (sample_options ''one'') sample_world)))"
proof -
  have core: "is_core_image ''core-1.img''" by code_simp
  have "Poweroff_awaited \<in> set (sw_log (snd (perform_snapshot_criu (sample_env (Some 5)) (sample_ctx None) (sample_options ''one'') sample_world)))"
    by (simp add: perform_snapshot_criu_def prepare_bundle_dir_def prepare_bundle_root_dir_def Let_def sample_defs effect_defs
        path_exists_def known_paths_def sample_world_def sample_blobs_def under_def make_dir_def run_dump_and_extract_tar_def
        note_event_def validate_dump_result_def core reflink_mount_overlay_def power_off_source_vm_def write_snapshot_meta_def
        put_blob_def)
  then show ?thesis
    using criu_spares_the_source [where env = "sample_env (Some 5)" and ctx = "sample_ctx None"
        and opts = "sample_options ''one''" and w = sample_world]
    by (simp add: sample_world_def)
qed

text \<open>A fork into a temporary directory\<close>

lemma sample_engine: "se_engine (sample_env a) = None" "sc_nested (sample_ctx ov) = False" "sw_dirs sample_world = []"
  by (simp_all add: sample_defs sample_world_def)

lemma sample_fork:
  "\<exists>w. perform_fork (sample_env (Some 5)) (sample_ctx None) False None [''tmp'', ''f''] False True sample_world =
    (Inr ([''tmp'', ''f''], True), w)"
proof -
  let ?opts = "\<lparr>so_out_dir = path_text [''tmp'', ''f''], so_timeout_ms = None, so_dump_cmd = None, so_leave_running = True,
    so_tcp_close = True\<rparr>"
  let ?w = "sample_world\<lparr>sw_dirs := [[''tmp'', ''f'']]\<rparr>"
  have "resolve [''home''] (path_text [''tmp'', ''f'']) = [''tmp'', ''f'']" by code_simp
  moreover have "snapshot_ready (sample_env (Some 5)) (sample_ctx None) (sample_options (path_text [''tmp'', ''f''])) ?w"
    by (rule sample_ready)
      (simp_all add: calculation sample_world_def dir_free_def path_is_dir_def dir_is_empty_def known_paths_def sample_blobs_def
        under_def sample_fits, simp add: sample_vmm_def)
  then have "snapshot_ready (sample_env (Some 5)) (sample_ctx None) ?opts ?w"
    by (simp add: snapshot_ready_def sample_options_def deadline_of_def)
  from ready_vmstate [OF this] calculation obtain w where
    "perform_snapshot_vmstate (sample_env (Some 5)) (sample_ctx None) ?opts ?w = (Inr [''tmp'', ''f''], w)"
    by (auto simp: prod_eq_iff sample_env_def [of "Some 5"])
  then show ?thesis
    by (simp add: perform_fork_def Let_def effect_defs truthy_def perform_snapshot_def sample_engine
        resolve_snapshot_engine_def)
qed

lemma tmp_canonical: "canonical [''tmp'', ''f'']"
  by (simp add: canonical_def segment_ok_def)

theorem fork_orphans_the_chain_witness:
  "\<exists>w. perform_fork (sample_env (Some 5)) (sample_ctx None) False None [''tmp'', ''f''] False True sample_world =
      (Inr ([''tmp'', ''f''], True), w) \<and>
     map_option vc_parent_dir (sw_chain (fork_exits ([''tmp'', ''f''], True) w)) = Some (Some ''/tmp/f'') \<and>
     read_meta (store_of (fork_exits ([''tmp'', ''f''], True) w)) [''tmp'', ''f''] =
       Inl (Boot_error BOOT_SNAPSHOT_NOT_FOUND ''checkpoint parent meta missing'')"
proof -
  obtain w where w: "perform_fork (sample_env (Some 5)) (sample_ctx None) False None [''tmp'', ''f''] False True sample_world =
      (Inr ([''tmp'', ''f''], True), w)" using sample_fork by blast
  have host: "resolve_snapshot_engine (se_engine (sample_env (Some 5))) = Some Vmstate_engine"
      "sw_chain sample_world = Some \<lparr>vc_chain_id = ''c'', vc_parent_dir = None, vc_sequence = 0\<rparr>"
      "truthy (sc_vmstate_path (sample_ctx None)) = Some ''/run/state''"
      "se_can_write (sample_env (Some 5)) (resolve [] ''/run/state'')" "truthy None = None"
    by (simp_all add: sample_defs truthy_def sample_world_def resolve_snapshot_engine_def)
  show ?thesis
    using w fork_orphans_the_chain [OF w host(5,1) tmp_canonical host(2-4)]
    by (intro exI [of _ w]) (simp add: path_text_def)
qed

theorem failed_fork_leaves_no_bundle_witness:
  "\<exists>e w. perform_fork (sample_env (Some 5)) (sample_ctx None) False None [''tmp'', ''f''] False False sample_world = (Inl e, w) \<and>
     map_of (sw_docs w) [''tmp'', ''f'', ''meta.json''] = None"
proof -
  obtain e w where "perform_fork (sample_env (Some 5)) (sample_ctx None) False None [''tmp'', ''f''] False False sample_world =
      (Inl e, w)"
    using sample_fork by (auto simp: perform_fork_def Let_def effect_defs truthy_def split: prod.splits sum.splits)
  moreover from failed_fork_leaves_no_bundle [OF this, of "[''tmp'', ''f'', ''meta.json'']"]
  have "map_of (sw_docs w) [''tmp'', ''f'', ''meta.json''] = None" by (simp add: truthy_def under_def)
  ultimately show ?thesis by blast
qed

end
