(* ===== verification/Restore_Samples.thy ===== *)
theory Restore_Samples
  imports Restore_Criu_Laws Restore_Taken Snapshot_Samples
begin

text \<open>Hosts on which the theorems about restores are applied: that of the sample snapshot, which restores the
  bundle it has just taken, and one with a bundle of process images.\<close>

section \<open>A whole machine\<close>

definition sample_restore_env :: "int option \<Rightarrow> ram_vmm restore_env" where
  "sample_restore_env code =
     \<lparr>re_snap = sample_env (Some 5),
      re_assets = \<lparr>ah_arch_override = None, ah_os_arch = ''arm64'', ah_assets_dir = None, ah_home = ''/home'',
        ah_cwd = [''home''], ah_version = ''1''\<rparr>,
      re_memory = None, re_accept = id, re_temp = [''tmp'', ''chain''], re_scratch = [''tmp'', ''scratch''],
      re_tar = (\<lambda>files. Some (concat (map snd files))), re_boot = (\<lambda>req h g. (Some 9, h, g)), re_has_direct = True,
      re_direct = code, re_shell = None, re_seed = [1, 2], re_time_text = ''now'', re_processes = (\<lambda>_ _ _. Alive),
      re_portable = (\<lambda>_. None)\<rparr>"

definition sample_restore_options :: restore_options where
  "sample_restore_options =
     \<lparr>ro_snap_dir = ''one'', ro_image = None, ro_name = Some ''copy'', ro_lazy = False, ro_cwd = None, ro_kernel = Some ''/kernel'',
      ro_dtb = Some ''/dtb'', ro_memory = None, ro_vmm_memory = None, ro_root_disk = None, ro_live_mounts = [], ro_env = []\<rparr>"

definition host_world :: "ram_vmm snap_world \<Rightarrow> ram_vmm restore_world" where
  "host_world h = \<lparr>rw_host = h, rw_registry = \<lparr>vm_dirs = [], name_pins = []\<rparr>, rw_log = []\<rparr>"

definition taken_on :: "ram_vmm snap_world \<Rightarrow> bool" where
  "taken_on h \<longleftrightarrow> perform_snapshot_vmstate (sample_env (Some 5)) (sample_ctx None) (sample_options ''one'') sample_world = (Inr dir_one, h)"

lemma taken_exists: "\<exists>h. taken_on h"
  using sample_runs [of None] by (simp add: taken_on_def)

lemma sample_source:
  "truthy (sc_vmstate_path (sample_ctx None)) = Some ''/run/state''" "se_can_write (sample_env (Some 5)) q"
  "parent_dir_of sample_world = None" "sw_caches sample_world = \<lparr>trusted = Map.empty, managed = Map.empty\<rparr>"
  "truthy (sc_kernel (sample_ctx None)) = Some ''/kernel''" "truthy (sc_dtb (sample_ctx None)) = Some ''/dtb''"
  "se_dump (sample_env (Some 5)) = vmm_dump marked_format" "sw_vmm sample_world = sample_vmm"
  "se_gunzip (sample_env (Some 5)) = no_zip"
  by (simp_all add: sample_defs truthy_def parent_dir_of_def sample_world_def)

lemma sample_arch:
  "read_vmstate_facts gunzip (fst (vmm_dump marked_format sample_vmm)) = Inr facts \<Longrightarrow> h_arch (f_header facts) = Arm64"
proof -
  have v: "read_vmstate gunzip (fst (vmm_dump marked_format sample_vmm)) =
      Inr \<lparr>arch = Some ARCH_AARCH64, topology_hash = replicate 32 0, sections = captured_sections marked_format sample_vmm\<rparr>"
    by (rule read_dump) (rule sample_fits)
  have "sctlr_as_read raw (captured_sections marked_format sample_vmm) = Inr None" for raw
    by (simp add: sctlr_as_read_def captured_sections_def sample_vmm_def TAG_RAM_def TAG_RAM_DELTA_def TAG_VCPU_def)
  then show "read_vmstate_facts gunzip (fst (vmm_dump marked_format sample_vmm)) = Inr facts \<Longrightarrow> h_arch (f_header facts) = Arm64"
    using read_facts_decoded [OF v] by (auto simp: vmstate_arch_name_def)
qed

lemma sample_alike:
  assumes "taken_on h"
  shows "restores_alike (sample_restore_env code) sample_restore_options (sample_env (Some 5)) (sample_ctx None) h"
proof -
  have there: "path_exists h [''kernel'']" "path_exists h [''dtb'']"
    using sources_remain [OF assms [unfolded taken_on_def] sample_source(1-3)] by (simp_all add: sample_source)
  have "base_cwd (sample_restore_env code) sample_restore_options = [''home'']"
    by (simp add: base_cwd_def process_cwd_def sample_restore_env_def sample_restore_options_def sample_defs)
  moreover have "resolve [''home''] ''/kernel'' = [''kernel'']" "resolve [''home''] ''/dtb'' = [''dtb'']" by code_simp+
  ultimately show ?thesis
    using there
    by (simp add: restores_alike_def sample_source)
      (simp add: sample_restore_env_def sample_restore_options_def sample_defs truthy_def restore_env_memory_def canonical_def segment_ok_def
        resolve_base_kernel_def resolve_base_dtb_def resolve_base_asset_explicit nonempty_def)
qed

lemma sample_accepted:
  assumes "taken_on h"
  shows "checkpoint_parent_of (read_snapshot_meta dir_one (host_world h)) = None"
    "map_of (sw_blobs h) (dir_one @ [VMSTATE_FILE]) = Some (fst (vmm_dump marked_format sample_vmm))"
    "\<exists>rootfs mounts. restore_fits (sample_restore_env code) sample_restore_options dir_one (initial_restore_bundle dir_one (host_world h)) rootfs mounts (host_world h)"
proof -
  have env: "re_snap (sample_restore_env code) = sample_env (Some 5)" "se_arch (sample_env (Some 5)) = Arm64" "rw_host (host_world h) = h"
    by (simp_all add: sample_restore_env_def sample_defs host_world_def)
  have arch: "\<forall>facts. read_vmstate_facts (se_gunzip (sample_env (Some 5))) (fst (se_dump (sample_env (Some 5)) (sw_vmm sample_world))) = Inr facts \<longrightarrow>
      h_arch (f_header facts) = se_arch (re_snap (sample_restore_env code))"
    using sample_arch by (auto simp: env sample_source)
  have known: "\<forall>i stamp. trusted (sw_caches sample_world) q = Some (i, stamp) \<longrightarrow> id_sample i = None" for q
    by (simp add: sample_source)
  note fits = taken_fits [OF assms [unfolded taken_on_def] sample_source(1-3) known sample_alike [OF assms] arch env(3)]
  show "checkpoint_parent_of (read_snapshot_meta dir_one (host_world h)) = None"
    "map_of (sw_blobs h) (dir_one @ [VMSTATE_FILE]) = Some (fst (vmm_dump marked_format sample_vmm))"
    "\<exists>rootfs mounts. restore_fits (sample_restore_env code) sample_restore_options dir_one (initial_restore_bundle dir_one (host_world h)) rootfs mounts (host_world h)"
    using fits by (simp_all add: sample_source)
qed

lemma sample_prepared:
  assumes "taken_on h"
  shows "materialize_chain_if_needed (sample_restore_env code) (initial_restore_bundle dir_one (host_world h)) (host_world h) =
    (Inr (initial_restore_bundle dir_one (host_world h)), host_world h)"
  using sample_accepted(1) [OF assms] by (simp add: materialize_chain_if_needed_def initial_restore_bundle_def return_eff_def)


lemma sample_code: "reseed_code (sample_restore_env (Some c)) = Some c"
  by (simp add: reseed_code_def sample_restore_env_def)

lemma sample_boot: "re_boot (sample_restore_env code) req g r = (Some 9, g, r)"
  by (simp add: sample_restore_env_def)

theorem restore_boots_exactly_witness:
  "\<exists>(h :: ram_vmm snap_world) req disk. Boot_asked req (Some (fst (vmm_dump marked_format sample_vmm))) disk None \<in>
     set (new_events (restore_vmstate (sample_restore_env (Some 0)) sample_restore_options dir_one) (host_world h))"
proof -
  obtain h where h: "taken_on h" using taken_exists by blast
  obtain rootfs mounts where "restore_fits (sample_restore_env (Some 0)) sample_restore_options dir_one
      (initial_restore_bundle dir_one (host_world h)) rootfs mounts (host_world h)"
    using sample_accepted(3) [OF h] by blast
  then show ?thesis
    using restore_boots_exactly [OF sample_prepared [OF h]] sample_accepted(2) [OF h]
    by (intro exI [of _ h]) (auto simp: asked_event_def Let_def initial_restore_bundle_def host_world_def)
qed

theorem taken_bundle_is_accepted_witness:
  "\<exists>(h :: ram_vmm snap_world) req disk. Boot_asked req (Some (fst (vmm_dump marked_format sample_vmm))) disk None \<in>
     set (new_events (restore_vmstate (sample_restore_env None) sample_restore_options dir_one) (host_world h))"
proof -
  obtain h where h: "taken_on h" using taken_exists by blast
  have env: "re_snap (sample_restore_env None) = sample_env (Some 5)" "se_arch (sample_env (Some 5)) = Arm64" "rw_host (host_world h) = h"
    by (simp_all add: sample_restore_env_def sample_defs host_world_def)
  have "\<exists>req disk. Boot_asked req (Some (fst (se_dump (sample_env (Some 5)) (sw_vmm sample_world)))) disk None \<in>
     set (new_events (restore_vmstate (sample_restore_env None) sample_restore_options dir_one) (host_world h))"
    by (rule taken_bundle_is_accepted [OF h [unfolded taken_on_def] sample_source(1-3) _ sample_alike [OF h] _ env(3)])
      (use sample_arch in \<open>auto simp: env sample_source\<close>)
  then show ?thesis by (auto simp: sample_source)
qed


lemma sample_name: "ro_name sample_restore_options = Some ''copy''"
  by (simp add: sample_restore_options_def)

theorem handles_are_reseeded_witness:
  "\<exists>(h :: ram_vmm snap_world) req state disk. new_events (restore_vmstate (sample_restore_env (Some 0)) sample_restore_options dir_one) (host_world h) =
     Boot_asked req state disk None # Started 9 # Reseed_request [1, 2] # stamp_log \<lparr>vh_pid = 9, vh_name = Some ''copy''\<rparr>"
proof -
  obtain h where h: "taken_on h" using taken_exists by blast
  obtain rootfs mounts where fits: "restore_fits (sample_restore_env (Some 0)) sample_restore_options dir_one
      (initial_restore_bundle dir_one (host_world h)) rootfs mounts (host_world h)"
    using sample_accepted(3) [OF h] by blast
  have "\<exists>w. restore_vmstate (sample_restore_env (Some 0)) sample_restore_options dir_one (host_world h) =
      (Inr \<lparr>vh_pid = 9, vh_name = Some ''copy''\<rparr>, w)"
    by (rule restore_returns [OF sample_prepared [OF h] fits _ sample_code sample_name]) (simp_all add: sample_boot)
  then obtain w where w: "restore_vmstate (sample_restore_env (Some 0)) sample_restore_options dir_one (host_world h) =
      (Inr \<lparr>vh_pid = 9, vh_name = Some ''copy''\<rparr>, w)" ..
  have "reseed_log (sample_restore_env (Some 0)) = [Reseed_request [1, 2]]"
    by (simp add: reseed_log_def sample_restore_env_def)
  then show ?thesis using handles_are_reseeded [OF w] by auto
qed

theorem failed_reseed_leaves_machine_witness:
  "\<exists>(h :: ram_vmm snap_world) w' req state disk. restore_vmstate (sample_restore_env (Some 1)) sample_restore_options dir_one (host_world h) =
      (Inl (Restore_refused Reseed_failed), w') \<and>
     new_events (restore_vmstate (sample_restore_env (Some 1)) sample_restore_options dir_one) (host_world h) =
       [Boot_asked req state disk None, Started 9, Reseed_request [1, 2]]"
proof -
  obtain h where h: "taken_on h" using taken_exists by blast
  obtain rootfs mounts where fits: "restore_fits (sample_restore_env (Some 1)) sample_restore_options dir_one
      (initial_restore_bundle dir_one (host_world h)) rootfs mounts (host_world h)"
    using sample_accepted(3) [OF h] by blast
  have "reseed_log (sample_restore_env (Some 1)) = [Reseed_request [1, 2]]" "reseed_code (sample_restore_env (Some 1)) \<noteq> Some 0"
    by (simp add: reseed_log_def sample_restore_env_def) (simp add: sample_code)
  then show ?thesis
    using failed_reseed_leaves_machine [OF sample_prepared [OF h] fits, of 9]
    by (intro exI [of _ h]) (auto simp: sample_boot asked_event_def Let_def)
qed

text \<open>A restore of a directory without a document\<close>

theorem no_temporary_files_remain_witness:
  "nothing_below [''tmp'', ''chain''] (rw_host (snd (restore_vmstate (sample_restore_env (Some 0)) sample_restore_options dir_one
     (host_world sample_world))))"
proof -
  have "nothing_below (re_temp (sample_restore_env (Some 0))) (rw_host (host_world sample_world))"
    by (simp add: nothing_below_def sample_restore_env_def host_world_def sample_world_def known_paths_def sample_blobs_def under_def)
  from no_temporary_files_remain [OF this prod.collapse [symmetric], of sample_restore_options dir_one] show ?thesis
    by (simp add: sample_boot) (simp add: sample_restore_env_def)
qed

section \<open>Process images\<close>

text \<open>The document names an overlay that is not there.\<close>

definition criu_world :: "ram_vmm restore_world" where
  "criu_world = host_world (sample_world\<lparr>
     sw_blobs := [([''img''], [1]), ([''snap'', ''img'', ''core-1.img''], [1])],
     sw_docs := [([''snap'', ''meta.json''],
       Some (anonymous_document\<lparr>sd_source_image := Some ''/img'',
         sd_mount_disk := Some \<lparr>ov_guest = ''/mnt'', ov_lower = ''low'', ov_upper = ''up''\<rparr>\<rparr>))],
     sw_dirs := [[''snap'', ''img'']]\<rparr>)"

lemma criu_valid: "validate_criu_bundle [''snap''] criu_world = (Inr [''snap'', ''img''], criu_world)"
proof -
  have core: "is_core_image ''core-1.img''" by code_simp
  have paths: "known_paths (rw_host criu_world) =
      [[''img''], [''snap'', ''img'', ''core-1.img''], [''snap'', ''meta.json''], [''snap'', ''img'']]"
    by (simp add: criu_world_def host_world_def known_paths_def)
  have "path_exists (rw_host criu_world) [''snap'', ''img'']" "path_is_dir (rw_host criu_world) [''snap'', ''img'']"
      "list_ex is_core_image (entry_names [''snap'', ''img''] (rw_host criu_world))"
    by (simp_all add: path_exists_def path_is_dir_def entry_names_def paths under_def core)
      (simp add: criu_world_def host_world_def)
  then show ?thesis
    by (simp add: validate_criu_bundle_def Let_def check_runs effect_simps)
qed

lemma criu_document:
  "read_snapshot_meta [''snap''] criu_world = anonymous_document\<lparr>sd_source_image := Some ''/img'',
     sd_mount_disk := Some \<lparr>ov_guest = ''/mnt'', ov_lower = ''low'', ov_upper = ''up''\<rparr>\<rparr>"
  by (simp add: read_snapshot_meta_def criu_world_def host_world_def)

theorem missing_overlay_leaves_scratch_witness:
  "\<exists>w. restore_criu (sample_restore_env None) sample_restore_options [''snap''] criu_world = (Inl (Restore_refused Bundle_not_found), w) \<and>
     map_of (sw_blobs (rw_host w)) [''tmp'', ''scratch''] = Some (extend_restore_bundle_tar [1])"
proof -
  have parts: "segments ''low'' = [''low'']" "segments ''up'' = [''up'']" by code_simp+
  have walked: "overlay_of [''snap''] (read_snapshot_meta [''snap''] criu_world) = Some (''/mnt'', [''snap'', ''low''], [''snap'', ''up''])"
    by (simp add: criu_document overlay_of_def anonymous_document_def parts)
  have img: "file_there [''img''] criu_world"
    by (simp add: file_there_def path_exists_def known_paths_def criu_world_def host_world_def under_def)
  have image: "image_fits (sample_restore_env None) sample_restore_options (read_snapshot_meta [''snap''] criu_world) criu_world ''/img''"
    by (simp add: criu_document image_fits_def sample_restore_options_def truthy_def img)
  have mounts: "resolve_restore_live_mounts (sd_live_mounts (read_snapshot_meta [''snap''] criu_world)) (ro_live_mounts sample_restore_options) = Inr None"
    by (simp add: criu_document anonymous_document_def sample_restore_options_def resolve_restore_live_mounts_def plan_restore_live_mounts_def)
  have tar: "re_tar (sample_restore_env None) [(drop (length [''snap'', ''img'']) p, bs). (p, bs) \<leftarrow> sw_blobs (rw_host criu_world), under [''snap'', ''img''] p] = Some [1]"
    by (simp add: sample_restore_env_def criu_world_def host_world_def under_def)
  have there: "\<not> file_there [''snap'', ''low''] criu_world" "\<not> under [''snap'', ''low''] (re_scratch (sample_restore_env None))"
    by (simp_all add: file_there_def path_exists_def known_paths_def criu_world_def host_world_def sample_world_def under_def sample_restore_env_def)
  have "fst (validate_criu_bundle [''snap''] criu_world) = Inr [''snap'', ''img'']" "\<not> ro_lazy sample_restore_options"
      "se_can_write (re_snap (sample_restore_env None)) (re_scratch (sample_restore_env None))"
    by (simp_all add: criu_valid sample_restore_options_def sample_restore_env_def sample_defs)
  from missing_overlay_leaves_scratch [OF this(1) image this(2) mounts walked there tar this(3)]
  show ?thesis by (auto simp: sample_restore_env_def)
qed


text \<open>Without the overlay, the machine boots from the archive.\<close>

definition booting_world :: "ram_vmm restore_world" where
  "booting_world = criu_world\<lparr>rw_host := (rw_host criu_world)\<lparr>
     sw_docs := [([''snap'', ''meta.json''], Some (anonymous_document\<lparr>sd_source_image := Some ''/img''\<rparr>))]\<rparr>\<rparr>"

lemma booting_valid: "validate_criu_bundle [''snap''] booting_world = (Inr [''snap'', ''img''], booting_world)"
proof -
  have paths: "known_paths (rw_host booting_world) = known_paths (rw_host criu_world)"
    by (simp add: booting_world_def criu_world_def host_world_def known_paths_def)
  have "path_exists (rw_host booting_world) p = path_exists (rw_host criu_world) p"
      "path_is_dir (rw_host booting_world) p = path_is_dir (rw_host criu_world) p"
      "entry_names p (rw_host booting_world) = entry_names p (rw_host criu_world)" for p
    by (simp_all add: path_exists_def path_is_dir_def entry_names_def paths) (simp add: booting_world_def criu_world_def host_world_def)
  then show ?thesis
    using criu_valid by (auto simp: validate_criu_bundle_def Let_def check_runs effect_simps split: if_splits)
qed

theorem booted_scratch_is_removed_witness:
  "map_of (sw_blobs (rw_host (snd (restore_criu (sample_restore_env None) sample_restore_options [''snap''] booting_world)))) [''tmp'', ''scratch''] = None"
proof -
  let ?env = "sample_restore_env None" and ?meta = "anonymous_document\<lparr>sd_source_image := Some ''/img''\<rparr>"
  have meta: "read_snapshot_meta [''snap''] booting_world = ?meta"
    by (simp add: read_snapshot_meta_def booting_world_def)
  have img: "file_there [''img''] booting_world"
    by (simp add: file_there_def path_exists_def known_paths_def booting_world_def criu_world_def host_world_def under_def)
  have rootfs: "resolve_restore_image ?env sample_restore_options ?meta booting_world = (Inr ''/img'', booting_world)"
    by (simp add: resolve_restore_image_def sample_restore_options_def truthy_def effect_simps check_runs img)
  have mounts: "resolve_restore_live_mounts (sd_live_mounts ?meta) (ro_live_mounts sample_restore_options) = Inr None"
    by (simp add: anonymous_document_def sample_restore_options_def resolve_restore_live_mounts_def plan_restore_live_mounts_def)
  have tar: "re_tar ?env [(drop (length [''snap'', ''img'']) p, bs). (p, bs) \<leftarrow> sw_blobs (rw_host booting_world), under [''snap'', ''img''] p] = Some [1]"
    by (simp add: sample_restore_env_def booting_world_def criu_world_def host_world_def under_def)
  have writable: "se_can_write (re_snap ?env) (re_scratch ?env)" by (simp add: sample_restore_env_def sample_defs)
  obtain v where delivery: "prepare_eager_delivery ?env [''snap'', ''img''] None booting_world =
      (Inr \<lparr>cr_scratch = re_scratch ?env, cr_env = [], cr_mounts = None\<rparr>, v)" "rw_log v = []"
    using pack_run [OF tar writable]
    by (simp add: prepare_eager_delivery_def bind_eff_def return_eff_def booting_world_def criu_world_def host_world_def)
  have eager: "\<not> ro_lazy sample_restore_options" by (simp add: sample_restore_options_def)
  have no_overlay: "resolve_restore_mount_disk [''snap''] ?meta = return_eff None"
    by (simp add: resolve_restore_mount_disk_def anonymous_document_def)
  let ?delivery = "\<lparr>cr_scratch = re_scratch ?env, cr_env = [], cr_mounts = None\<rparr>"
  have "restore_criu ?env sample_restore_options [''snap''] booting_world =
      bind_eff (boot_criu_restore ?env sample_restore_options [''snap''] ''/img'' ?delivery None)
        (finalize_criu_restore ?env sample_restore_options ?meta None) v"
    using mounts
    by (simp add: restore_criu_def bind_eff_Inr [where m = "validate_criu_bundle [''snap'']" and s = booting_world, OF booting_valid] meta effect_simps bind_eff_Inr [where m = "resolve_restore_image ?env sample_restore_options ?meta" and s = booting_world, OF rootfs] prepare_lazy_pages_def
        check_runs bind_eff_Inr [where m = "prepare_eager_delivery ?env [''snap'', ''img''] None" and s = booting_world, OF delivery(1)]
        eager no_overlay)
  moreover have "\<exists>e es. rw_log (snd (bind_eff (boot_criu_restore ?env sample_restore_options [''snap''] ''/img'' ?delivery None)
        (finalize_criu_restore ?env sample_restore_options ?meta None) v)) = e # es"
    by (simp add: boot_criu_restore_def finally_eff_def boot_machine_run sample_boot bind_eff_def finalize_criu_restore_def auto_name_def
        auto_name_restored_fork_def sample_name criu_boot_request_def persist_lazy_pages_total_def return_eff_def restamp_run unlink_file_def
        delivery(2))
  ultimately have "new_events (restore_criu ?env sample_restore_options [''snap'']) booting_world \<noteq> []"
    by (simp add: new_events_def) (auto simp: booting_world_def criu_world_def host_world_def)
  from booted_scratch_is_removed [OF prod.collapse [symmetric] this] show ?thesis
    by (simp add: sample_restore_env_def)
qed

end
