(* ===== verification/Gvproxy.thy ===== *)
theory Gvproxy
  imports Registry Effects Json Snapshot_World
begin

text \<open>
  \<^verbatim>\<open>packages/runtime/src/gvproxy.ts\<close>: where the network helper is found, how it is started and stopped,
  how ports are forwarded, and whom a port in use is blamed on. Paths are resolved against the working
  directory; the installation is in \<^theory_text>\<open>Gvproxy_Install\<close>.
\<close>

section \<open>Finding the helper\<close>

datatype gvproxy_code =
    GVPROXY_NOT_FOUND
  | GVPROXY_INSTALL_FAILED
  | GVPROXY_SPAWN_FAILED
  | GVPROXY_PORT_IN_USE
  | GVPROXY_EXPOSE_FAILED

text \<open>\<open>gh_override\<close> is \<^verbatim>\<open>MACHINEN_GVPROXY\<close>, \<open>gh_path\<close> is \<^verbatim>\<open>PATH\<close>.\<close>

record gvproxy_host =
  gh_override :: "string option"
  gh_path :: "string option"
  gh_cwd :: path
  gh_home :: path
  gh_platform :: string
  gh_arch :: string

definition GVPROXY_VERSION :: string where "GVPROXY_VERSION = ''v0.8.6''"

definition is_gvproxy_disabled_sentinel :: "string \<Rightarrow> bool" where
  "is_gvproxy_disabled_sentinel s \<longleftrightarrow> trim (lower_case s) \<in> {''disabled'', ''off'', ''false'', ''0'', ''none''}"

text \<open>\<open>None\<close> is \<open>undefined\<close>, \<open>Some None\<close> is \<open>null\<close>.\<close>

definition resolve_env_override :: "(path \<Rightarrow> bool) \<Rightarrow> gvproxy_host \<Rightarrow> gvproxy_code + path option option" where
  "resolve_env_override existing gh =
     (case gh_override gh of
        None \<Rightarrow> Inr None
      | Some s \<Rightarrow>
          if s = '''' then Inr None
          else if is_gvproxy_disabled_sentinel s then Inr (Some None)
          else if existing (resolve (gh_cwd gh) s) then Inr (Some (Some (resolve (gh_cwd gh) s)))
          else Inl GVPROXY_NOT_FOUND)"

definition resolve_gvproxy_sibling :: "(path \<Rightarrow> bool) \<Rightarrow> path \<Rightarrow> path option" where
  "resolve_gvproxy_sibling existing vmm =
     (let p = butlast vmm @ [''gvproxy''] in if existing p then Some p else None)"

definition gvproxy_cache_path :: "gvproxy_host \<Rightarrow> path" where
  "gvproxy_cache_path gh = gh_home gh @ [''.machinen'', ''gvproxy'', GVPROXY_VERSION, ''gvproxy'']"

definition resolve_cached_gvproxy :: "(path \<Rightarrow> bool) \<Rightarrow> gvproxy_host \<Rightarrow> path option" where
  "resolve_cached_gvproxy existing gh =
     (if existing (gvproxy_cache_path gh) then Some (gvproxy_cache_path gh) else None)"

definition path_dirs :: "gvproxy_host \<Rightarrow> string list" where
  "path_dirs gh = filter (\<lambda>d. d \<noteq> '''') (split_on CHR '':'' (case gh_path gh of None \<Rightarrow> '''' | Some s \<Rightarrow> s))"

definition resolve_gvproxy_from_path :: "(path \<Rightarrow> bool) \<Rightarrow> gvproxy_host \<Rightarrow> path option" where
  "resolve_gvproxy_from_path existing gh =
     List.find existing (map (\<lambda>d. resolve (gh_cwd gh) d @ [''gvproxy'']) (path_dirs gh))"

definition resolve_gvproxy_from_disk :: "(path \<Rightarrow> bool) \<Rightarrow> gvproxy_host \<Rightarrow> path \<Rightarrow> path option" where
  "resolve_gvproxy_from_disk existing gh vmm =
     (case resolve_gvproxy_sibling existing vmm of
        Some p \<Rightarrow> Some p
      | None \<Rightarrow>
          (case resolve_cached_gvproxy existing gh of
             Some p \<Rightarrow> Some p
           | None \<Rightarrow> resolve_gvproxy_from_path existing gh))"

definition resolve_gvproxy_binary :: "(path \<Rightarrow> bool) \<Rightarrow> gvproxy_host \<Rightarrow> path \<Rightarrow> gvproxy_code + path option" where
  "resolve_gvproxy_binary existing gh vmm =
     bind_res (resolve_env_override existing gh) (\<lambda>found.
       Inr (case found of Some p \<Rightarrow> p | None \<Rightarrow> resolve_gvproxy_from_disk existing gh vmm))"

definition gvproxy_asset_name :: "gvproxy_host \<Rightarrow> gvproxy_code + string" where
  "gvproxy_asset_name gh =
     (if gh_platform gh = ''darwin'' then Inr ''gvproxy-darwin''
      else if gh_platform gh = ''linux''
      then Inr (''gvproxy-linux-'' @ (if gh_arch gh = ''x64'' then ''amd64'' else gh_arch gh))
      else Inl GVPROXY_INSTALL_FAILED)"

section \<open>Starting it\<close>

text \<open>What \<open>spawn\<close> answers at an attempt; Linux answers \<open>ETXTBSY\<close> while another process writes to the file.\<close>

datatype spawn_answer = Spawned int | Etxtbsy | Spawn_refused

datatype spawn_error = Text_busy | Refused_spawn | No_attempts

text \<open>\<open>attempts\<close> is what is left of them; the answers are those of the attempts to come.\<close>

fun spawn_with_etxtbsy_retry :: "spawn_error \<Rightarrow> nat \<Rightarrow> (nat \<Rightarrow> spawn_answer) \<Rightarrow> nat \<Rightarrow> (spawn_error + int) \<times> nat" where
  "spawn_with_etxtbsy_retry last_err 0 answers i = (Inl last_err, i)"
| "spawn_with_etxtbsy_retry last_err (Suc n) answers i =
     (case answers i of
        Spawned pid \<Rightarrow> (Inr pid, Suc i)
      | Spawn_refused \<Rightarrow> (Inl Refused_spawn, Suc i)
      | Etxtbsy \<Rightarrow> spawn_with_etxtbsy_retry Text_busy n answers (Suc i))"

definition SPAWN_ATTEMPTS :: nat where "SPAWN_ATTEMPTS = 20"

text \<open>The directories and processes that a start has made, and whether \<open>stop\<close> has run.\<close>

record gvproxy_world =
  gw_dirs :: "path list"
  gw_alive :: "int list"
  gw_signals :: "(int \<times> string) list"

record gvproxy_handle =
  gv_socket_path :: path
  gv_control_path :: path
  gv_child :: int
  gv_socket_dir :: path
  gv_stopped :: bool

text \<open>Which of the three ends the race for the socket\<close>

datatype startup = Socket_ready | Exited_early | Socket_timeout

record gvproxy_answers =
  ga_dir :: path \<comment> \<open>the fresh temporary directory\<close>
  ga_port :: "nat option" \<comment> \<open>the ephemeral port; \<open>None\<close> if none could be bound\<close>
  ga_pdeathsig :: "string option" \<comment> \<open>what \<open>ensurePdeathsig\<close> gives\<close>
  ga_spawn :: "string \<times> string list \<Rightarrow> nat \<Rightarrow> spawn_answer"
  ga_startup :: startup

datatype start_error = No_port | Spawn_failed spawn_error | Early_exit | Socket_missing

definition wrap_with_pdeathsig :: "string option \<Rightarrow> string \<Rightarrow> string list \<Rightarrow> string \<times> string list" where
  "wrap_with_pdeathsig bin command args = (case bin of None \<Rightarrow> (command, args) | Some b \<Rightarrow> (b, command # args))"

definition gvproxy_args :: "path \<Rightarrow> nat \<Rightarrow> string list" where
  "gvproxy_args dir port =
     [''-listen-qemu'', ''unix://'' @ path_text (dir @ [''qemu.sock'']), ''-listen'',
      ''unix://'' @ path_text (dir @ [''net.sock'']), ''-ssh-port'', dec_string port]"

text \<open>\<open>stop\<close>: a child that has exited is not signalled.\<close>

definition stop_gvproxy :: "gvproxy_handle \<Rightarrow> gvproxy_world \<Rightarrow> gvproxy_handle \<times> gvproxy_world" where
  "stop_gvproxy h w =
     (if gv_stopped h then (h, w)
      else
        (h\<lparr>gv_stopped := True\<rparr>,
         w\<lparr>gw_signals := gw_signals w @ (if gv_child h \<in> set (gw_alive w) then [(gv_child h, ''SIGTERM'')] else []),
           gw_dirs := filter (\<lambda>d. d \<noteq> gv_socket_dir h) (gw_dirs w)\<rparr>))"

text \<open>The command of the helper: a detached one outlives its parent and runs without the wrapper.\<close>

definition gvproxy_command :: "gvproxy_answers \<Rightarrow> string \<Rightarrow> bool \<Rightarrow> nat \<Rightarrow> string \<times> string list" where
  "gvproxy_command ans binary detached port =
     wrap_with_pdeathsig (if detached then None else ga_pdeathsig ans) binary (gvproxy_args (ga_dir ans) port)"

definition spawn_gvproxy :: "gvproxy_answers \<Rightarrow> string \<Rightarrow> bool \<Rightarrow> (gvproxy_world, start_error, gvproxy_handle) effect" where
  "spawn_gvproxy ans binary detached =
     bind_eff (modify_eff (\<lambda>w. w\<lparr>gw_dirs := ga_dir ans # gw_dirs w\<rparr>)) (\<lambda>_.
     bind_eff (case ga_port ans of None \<Rightarrow> throw_eff No_port | Some port \<Rightarrow> return_eff port) (\<lambda>port.
     bind_eff (case fst (spawn_with_etxtbsy_retry No_attempts SPAWN_ATTEMPTS (ga_spawn ans (gvproxy_command ans binary detached port)) 0) of
           Inl e \<Rightarrow> throw_eff (Spawn_failed e)
         | Inr pid \<Rightarrow> bind_eff (modify_eff (\<lambda>w. w\<lparr>gw_alive := pid # gw_alive w\<rparr>)) (\<lambda>_. return_eff pid)) (\<lambda>pid.
       let handle = \<lparr>gv_socket_path = ga_dir ans @ [''qemu.sock''], gv_control_path = ga_dir ans @ [''net.sock''],
             gv_child = pid, gv_socket_dir = ga_dir ans, gv_stopped = False\<rparr>
       in (case ga_startup ans of
             Socket_ready \<Rightarrow> return_eff handle
           | Exited_early \<Rightarrow>
               bind_eff (modify_eff (\<lambda>w. snd (stop_gvproxy handle (w\<lparr>gw_alive := remove1 pid (gw_alive w)\<rparr>)))) (\<lambda>_.
                 throw_eff Early_exit)
           | Socket_timeout \<Rightarrow>
               bind_eff (modify_eff (\<lambda>w. snd (stop_gvproxy handle w))) (\<lambda>_. throw_eff Socket_missing)))))"

section \<open>Forwarding ports\<close>

definition expose_request :: "nat \<Rightarrow> nat \<Rightarrow> string option \<Rightarrow> string option \<Rightarrow> string \<times> string" where
  "expose_request host_port guest_port host_addr guest_addr =
     ((case host_addr of None \<Rightarrow> ''127.0.0.1'' | Some a \<Rightarrow> a) @ '':'' @ dec_string host_port,
      (case guest_addr of None \<Rightarrow> ''192.168.127.2'' | Some a \<Rightarrow> a) @ '':'' @ dec_string guest_port)"

text \<open>The answer of the helper: a status and the text of its body; \<open>None\<close> is an error of the connection.\<close>

definition expose_result :: "(nat \<times> string) option \<Rightarrow> gvproxy_code option + unit" where
  "expose_result answer =
     (case answer of
        None \<Rightarrow> Inl None
      | Some (status, answer_text) \<Rightarrow>
          if 200 \<le> status \<and> status < 300 then Inr ()
          else if str_includes (lower_case (trim answer_text)) ''address already in use'' then Inl (Some GVPROXY_PORT_IN_USE)
          else Inl (Some GVPROXY_EXPOSE_FAILED))"

section \<open>Who holds a port\<close>

datatype port_holder =
    Held_by string string \<comment> \<open>\<open>held by <cmd> (pid <pid>)\<close>\<close>
  | Held_by_vm "string option" int string \<comment> \<open>\<open>held by VM ... (gvproxy pid <pid>): pick a different host port\<close>\<close>
  | Orphaned string string \<comment> \<open>\<open>held by machinen-owned <cmd>: likely orphaned, try `kill <pid>`\<close>\<close>

text \<open>The first line of the output of \<^verbatim>\<open>lsof\<close> that is not its header, as command and pid\<close>

definition first_listener :: "string \<Rightarrow> (string \<times> string) option" where
  "first_listener out =
     (case List.find (\<lambda>l. l \<noteq> '''' \<and> \<not> starts_with l ''COMMAND'') (map trim (split_on nl_char out)) of
        None \<Rightarrow> None
      | Some line \<Rightarrow>
          (case split_spaces line of
             cmd # pid # _ \<Rightarrow> if cmd \<noteq> '''' \<and> all_digits pid then Some (cmd, pid) else None
           | _ \<Rightarrow> None))"

definition gvproxy_pid_of :: "reg_entry \<Rightarrow> int option" where
  "gvproxy_pid_of e = Option.bind (map_of (entry_details e) ''gvproxyPid'') pid_number"

text \<open>\<open>lsof\<close> and \<open>full\<close> are the outputs of the two programs, \<open>entries\<close> what \<open>listAll\<close> returns; \<open>None\<close>
  where a call throws. The text of \<^verbatim>\<open>ps\<close> is empty when it fails.\<close>

definition describe_port_holder :: "path \<Rightarrow> string option \<Rightarrow> (string \<Rightarrow> string) \<Rightarrow> reg_entry list option \<Rightarrow> port_holder option" where
  "describe_port_holder home lsof full entries =
     (case Option.bind lsof first_listener of
        None \<Rightarrow> None
      | Some (cmd, pid) \<Rightarrow>
          let full_cmd = trim (full pid);
              looks_machinen =
                (full_cmd \<noteq> '''' \<and> str_includes full_cmd (path_text (home @ [''.machinen'']))) \<or> cmd = ''gvproxy'' \<or> cmd = ''microvm''
          in if \<not> looks_machinen then Some (Held_by cmd pid)
             else
               (case List.find (\<lambda>e. gvproxy_pid_of e = pid_number pid) (case entries of None \<Rightarrow> [] | Some es \<Rightarrow> es) of
                  Some e \<Rightarrow> Some (Held_by_vm (entry_name e) (entry_pid e) pid)
                | None \<Rightarrow> Some (Orphaned cmd pid)))"


section \<open>Lemmas\<close>

lemma spawn_retry_result:
  "fst (spawn_with_etxtbsy_retry e n answers i) =
     (case List.find (\<lambda>k. answers k \<noteq> Etxtbsy) [i..<i + n] of
        None \<Rightarrow> Inl (if n = 0 then e else Text_busy)
      | Some k \<Rightarrow> (case answers k of Spawned pid \<Rightarrow> Inr pid | _ \<Rightarrow> Inl Refused_spawn))"
proof (induction n arbitrary: e i)
  case (Suc n)
  have range: "[i..<i + Suc n] = i # [Suc i..<Suc i + n]" by (simp add: upt_conv_Cons)
  show ?case
    unfolding range spawn_with_etxtbsy_retry.simps by (cases "answers i") (simp_all add: Suc.IH del: upt_Suc split: option.split)
qed simp

text \<open>A start of the helper leaves nothing behind when the helper exits or never opens its socket: a child
  that is still there is told to stop and the directory is removed. But the directory stays when no
  port could be bound or the helper could not be executed, since these calls stand before the block
  that cleans up.\<close>

theorem failed_start_cleans_up:
  assumes "spawn_gvproxy ans binary detached w = (Inl e, w')" "ga_dir ans \<notin> set (gw_dirs w)"
  shows "gw_dirs w' = (if e \<in> {Early_exit, Socket_missing} then gw_dirs w else ga_dir ans # gw_dirs w) \<and>
    (e = Socket_missing \<longrightarrow> (\<exists>port pid. ga_port ans = Some port \<and>
       fst (spawn_with_etxtbsy_retry No_attempts SPAWN_ATTEMPTS (ga_spawn ans (gvproxy_command ans binary detached port)) 0) = Inr pid \<and>
       gw_signals w' = gw_signals w @ [(pid, ''SIGTERM'')]))"
proof -
  have keep: "filter (\<lambda>d. d \<noteq> ga_dir ans) (gw_dirs w) = gw_dirs w" using assms(2) by (auto simp: filter_id_conv)
  show ?thesis
    using assms(1)
    by (auto simp: spawn_gvproxy_def Let_def effect_defs stop_gvproxy_def keep split: option.splits sum.splits startup.splits)
qed

definition slow_helper :: gvproxy_answers where
  "slow_helper = \<lparr>ga_dir = [''tmp'', ''mgv-1''], ga_port = Some 7, ga_pdeathsig = Some ''/opt/pdeathsig'',
     ga_spawn = (\<lambda>command i. if i < 2 then Etxtbsy else Spawned 42), ga_startup = Socket_timeout\<rparr>"

theorem failed_start_cleans_up_witness:
  "snd (spawn_gvproxy slow_helper ''/opt/gvproxy'' False \<lparr>gw_dirs = [], gw_alive = [], gw_signals = []\<rparr>) =
     \<lparr>gw_dirs = [], gw_alive = [42], gw_signals = [(42, ''SIGTERM'')]\<rparr>"
proof -
  have run: "spawn_gvproxy slow_helper ''/opt/gvproxy'' False \<lparr>gw_dirs = [], gw_alive = [], gw_signals = []\<rparr> =
      (Inl Socket_missing, \<lparr>gw_dirs = [], gw_alive = [42], gw_signals = [(42, ''SIGTERM'')]\<rparr>)" by code_simp
  from failed_start_cleans_up [OF this] show ?thesis by (simp add: run)
qed

text \<open>Stopping a helper twice is stopping it once: the second call sends no signal and removes nothing.\<close>

lemma stop_is_idempotent:
  "stop_gvproxy (fst (stop_gvproxy h w)) w'' = (fst (stop_gvproxy h w), w'')"
  by (simp add: stop_gvproxy_def)

text \<open>A user whose port is in use is never told to kill the helper of a VM that the registry lists: the hint
  to kill a process is given only for a pid that no entry records.\<close>

lemma listed_helpers_are_spared:
  assumes "describe_port_holder home lsof full (Some entries) = Some (Orphaned cmd pid)" "e \<in> set entries"
  shows "gvproxy_pid_of e \<noteq> pid_number pid"
  using assms by (auto simp: describe_port_holder_def Let_def find_None_iff split: option.splits if_splits prod.splits)

end
