(* ===== verification/Gvproxy_Install.thy ===== *)
theory Gvproxy_Install
  imports Gvproxy
begin

text \<open>
  Installing the network helper: \<open>downloadGvproxy\<close> and \<open>waitForCachedGvproxy\<close> of
  \<^verbatim>\<open>packages/runtime/src/gvproxy.ts\<close> as a protocol of processes that share a lock file, the cached binary
  and the clock, and \<open>ensureGvproxy\<close>, which starts at most one installation in a process. A step is one
  system call, so the calls of the processes interleave in every order; a process may die at every point.
\<close>

section \<open>Processes and files\<close>

text \<open>Where a process is: before \<open>open(lock, "wx")\<close>, in the two checks of the loop that waits, after the
  lock is taken, with the answer of the server, with the temporary file written, and before the lock is
  removed with the result it then has.\<close>

datatype install_pc =
    Not_begun
  | Locking
  | Lock_refused
  | Wait_binary nat
  | Wait_lock nat
  | Locked
  | Fetching
  | Fetched bytes
  | Written
  | Releasing "gvproxy_code option"
  | Installed
  | Install_failed gvproxy_code
  | Crashed

record install_state =
  is_pc :: "nat \<Rightarrow> install_pc"
  is_lock :: "nat option" \<comment> \<open>who has made the lock file\<close>
  is_binary :: "bytes option" \<comment> \<open>the file at the cache path\<close>
  is_partial :: "nat \<Rightarrow> bytes option" \<comment> \<open>the temporary file of a process\<close>
  is_clock :: nat

definition WAIT_MS :: nat where "WAIT_MS = 60000"

definition move :: "nat \<Rightarrow> install_pc \<Rightarrow> install_state \<Rightarrow> install_state" where
  "move p pc s = s\<lparr>is_pc := (is_pc s)(p := pc)\<rparr>"

lemma move_fields [simp]:
  "is_pc (move p pc s) q = (if q = p then pc else is_pc s q)" "is_lock (move p pc s) = is_lock s"
  "is_binary (move p pc s) = is_binary s" "is_partial (move p pc s) = is_partial s" "is_clock (move p pc s) = is_clock s"
  by (simp_all add: move_def)

text \<open>\<open>writable\<close>: files can be created in the directory. \<open>served\<close>: the bodies that the server may answer with.\<close>

inductive install_step :: "bool \<Rightarrow> (bytes \<Rightarrow> bool) \<Rightarrow> install_state \<Rightarrow> install_state \<Rightarrow> bool"
  for writable :: bool and served :: "bytes \<Rightarrow> bool" where
  tick: "is_clock s \<le> t \<Longrightarrow> install_step writable served s (s\<lparr>is_clock := t\<rparr>)"
| start: "is_pc s p = Not_begun \<Longrightarrow> install_step writable served s (move p Locking s)"
| no_directory: "is_pc s p = Not_begun \<Longrightarrow>
    install_step writable served s (move p (Install_failed GVPROXY_INSTALL_FAILED) s)"
| lock_taken: "is_pc s p = Locking \<Longrightarrow> writable \<Longrightarrow> is_lock s = None \<Longrightarrow>
    install_step writable served s (move p Locked (s\<lparr>is_lock := Some p\<rparr>))"
| lock_refused: "is_pc s p = Locking \<Longrightarrow> \<not> writable \<or> is_lock s \<noteq> None \<Longrightarrow>
    install_step writable served s (move p Lock_refused s)"
| refused_found: "is_pc s p = Lock_refused \<Longrightarrow> is_binary s \<noteq> None \<Longrightarrow> install_step writable served s (move p Installed s)"
| refused_waits: "is_pc s p = Lock_refused \<Longrightarrow> is_binary s = None \<Longrightarrow>
    install_step writable served s (move p (Wait_binary (is_clock s + WAIT_MS)) s)"
| wait_timeout: "is_pc s p = Wait_binary d \<Longrightarrow> d \<le> is_clock s \<Longrightarrow>
    install_step writable served s (move p (Install_failed GVPROXY_INSTALL_FAILED) s)"
| wait_found: "is_pc s p = Wait_binary d \<Longrightarrow> is_clock s < d \<Longrightarrow> is_binary s \<noteq> None \<Longrightarrow>
    install_step writable served s (move p Installed s)"
| wait_no_binary: "is_pc s p = Wait_binary d \<Longrightarrow> is_clock s < d \<Longrightarrow> is_binary s = None \<Longrightarrow>
    install_step writable served s (move p (Wait_lock d) s)"
| wait_retry: "is_pc s p = Wait_lock d \<Longrightarrow> is_lock s = None \<Longrightarrow> install_step writable served s (move p Locking s)"
| wait_again: "is_pc s p = Wait_lock d \<Longrightarrow> is_lock s \<noteq> None \<Longrightarrow> install_step writable served s (move p (Wait_binary d) s)"
| locked_found: "is_pc s p = Locked \<Longrightarrow> is_binary s \<noteq> None \<Longrightarrow> install_step writable served s (move p (Releasing None) s)"
| locked_fetches: "is_pc s p = Locked \<Longrightarrow> is_binary s = None \<Longrightarrow> install_step writable served s (move p Fetching s)"
| fetched: "is_pc s p = Fetching \<Longrightarrow> served b \<Longrightarrow> install_step writable served s (move p (Fetched b) s)"
| fetch_fails: "is_pc s p = Fetching \<Longrightarrow>
    install_step writable served s (move p (Releasing (Some GVPROXY_INSTALL_FAILED)) s)"
| wrote: "is_pc s p = Fetched b \<Longrightarrow>
    install_step writable served s (move p Written (s\<lparr>is_partial := (is_partial s)(p := Some b)\<rparr>))"
| write_fails: "is_pc s p = Fetched b \<Longrightarrow>
    install_step writable served s
      (move p (Releasing (Some GVPROXY_INSTALL_FAILED)) (s\<lparr>is_partial := (is_partial s)(p := Some (take n b))\<rparr>))"
| rename_fails: "is_pc s p = Written \<Longrightarrow>
    install_step writable served s (move p (Releasing (Some GVPROXY_INSTALL_FAILED)) s)"
| renamed: "is_pc s p = Written \<Longrightarrow>
    install_step writable served s
      (move p (Releasing None) (s\<lparr>is_binary := is_partial s p, is_partial := (is_partial s)(p := None)\<rparr>))"
| released: "is_pc s p = Releasing r \<Longrightarrow>
    install_step writable served s
      (move p (case r of None \<Rightarrow> Installed | Some c \<Rightarrow> Install_failed c) (s\<lparr>is_lock := None\<rparr>))"
| release_fails: "is_pc s p = Releasing r \<Longrightarrow>
    install_step writable served s (move p (case r of None \<Rightarrow> Installed | Some c \<Rightarrow> Install_failed c) s)"
| dies: "is_pc s p \<noteq> Crashed \<Longrightarrow> install_step writable served s (move p Crashed s)"

definition install_start :: "bytes option \<Rightarrow> install_state \<Rightarrow> bool" where
  "install_start binary s \<longleftrightarrow>
     is_lock s = None \<and> is_binary s = binary \<and> (\<forall>p. is_pc s p = Not_begun \<and> is_partial s p = None)"

inductive installing :: "bool \<Rightarrow> (bytes \<Rightarrow> bool) \<Rightarrow> bytes option \<Rightarrow> install_state \<Rightarrow> bool"
  for writable :: bool and served :: "bytes \<Rightarrow> bool" and binary :: "bytes option" where
  init: "install_start binary s \<Longrightarrow> installing writable served binary s"
| step: "installing writable served binary s \<Longrightarrow> install_step writable served s s' \<Longrightarrow> installing writable served binary s'"

text \<open>The lock file is held from \<open>Locked\<close> to \<open>Releasing\<close>.\<close>

fun holds_lock :: "install_pc \<Rightarrow> bool" where
  "holds_lock Locked = True"
| "holds_lock Fetching = True"
| "holds_lock (Fetched b) = True"
| "holds_lock Written = True"
| "holds_lock (Releasing r) = True"
| "holds_lock _ = False"

section \<open>One installation in a process\<close>

text \<open>\<open>None\<close>: no installation was started; else its result, which all later calls share.\<close>

type_synonym install_memo = "path option option"

definition ensure_gvproxy ::
    "(path \<Rightarrow> bool) \<Rightarrow> gvproxy_host \<Rightarrow> path \<Rightarrow> gvproxy_code + path \<Rightarrow> install_memo \<Rightarrow> (gvproxy_code + path option) \<times> install_memo" where
  "ensure_gvproxy existing gh vmm download memo =
     (if (case gh_override gh of None \<Rightarrow> False | Some s \<Rightarrow> s \<noteq> '''' \<and> is_gvproxy_disabled_sentinel s) then (Inr None, memo)
      else
        (case resolve_gvproxy_binary existing gh vmm of
           Inl e \<Rightarrow> (Inl e, memo)
         | Inr (Some p) \<Rightarrow> (Inr (Some p), memo)
         | Inr None \<Rightarrow>
             (let memo' = (case memo of
                    Some r \<Rightarrow> Some r
                  | None \<Rightarrow> Some (case download of Inl _ \<Rightarrow> None | Inr p \<Rightarrow> Some p))
              in (Inr (the memo'), memo'))))"


section \<open>Samples\<close>

definition fresh_install :: install_state where
  "fresh_install = \<lparr>is_pc = (\<lambda>_. Not_begun), is_lock = None, is_binary = None, is_partial = (\<lambda>_. None), is_clock = 0\<rparr>"

definition first_locked :: install_state where
  "first_locked = move 0 Locked ((move 0 Locking fresh_install)\<lparr>is_lock := Some 0\<rparr>)"

definition second_arrives :: install_state where
  "second_arrives = move 1 Locking first_locked"

definition first_dies :: install_state where
  "first_dies = move 0 Crashed second_arrives"

lemmas install_samples = fresh_install_def first_locked_def second_arrives_def first_dies_def

lemma first_locked_reached: "installing True served None first_locked"
proof -
  have start: "installing True served None fresh_install" by (rule installing.init) (simp add: install_start_def fresh_install_def)
  have "install_step True served fresh_install (move 0 Locking fresh_install)"
    by (rule install_step.start) (simp add: fresh_install_def)
  with start have "installing True served None (move 0 Locking fresh_install)" by (rule installing.step)
  moreover have "install_step True served (move 0 Locking fresh_install) first_locked"
    unfolding first_locked_def by (rule install_step.lock_taken) (simp_all add: fresh_install_def)
  ultimately show ?thesis by (rule installing.step)
qed

lemma second_arrives_reached: "installing True served None second_arrives"
  by (rule installing.step [OF first_locked_reached], unfold second_arrives_def, rule install_step.start)
    (simp add: first_locked_def fresh_install_def)

lemma first_dies_reached: "installing True served None first_dies"
  by (rule installing.step [OF second_arrives_reached], unfold first_dies_def, rule install_step.dies)
    (simp add: second_arrives_def first_locked_def)

section \<open>The lock\<close>

definition install_ok :: "(bytes \<Rightarrow> bool) \<Rightarrow> bytes option \<Rightarrow> install_state \<Rightarrow> bool" where
  "install_ok served binary s \<longleftrightarrow>
     (\<forall>p. holds_lock (is_pc s p) \<longrightarrow> is_lock s = Some p) \<and>
     (\<forall>p. is_pc s p = Fetching \<or> is_pc s p = Written \<or> (\<exists>b. is_pc s p = Fetched b) \<longrightarrow> is_binary s = None) \<and>
     (\<forall>p b. is_pc s p = Fetched b \<longrightarrow> served b) \<and>
     (\<forall>p. is_pc s p = Written \<longrightarrow> (\<exists>b. is_partial s p = Some b \<and> served b)) \<and>
     (\<forall>p. is_pc s p = Installed \<or> is_pc s p = Releasing None \<longrightarrow> is_binary s \<noteq> None) \<and>
     (\<forall>b. is_binary s = Some b \<longrightarrow> binary = Some b \<or> served b)"

lemma only_holder:
  assumes "install_ok served binary s" "holds_lock (is_pc s p)" "q \<noteq> p"
  shows "\<not> holds_lock (is_pc s q)"
  using assms unfolding install_ok_def by (metis option.inject)

lemma install_ok_step:
  assumes "install_step writable served s s'" "install_ok served binary s"
  shows "install_ok served binary s'"
  using assms
proof (induction rule: install_step.induct)
  case (lock_taken s p)
  then show ?case by (auto simp: install_ok_def)
next
  case (renamed s p)
  then have alone: "\<And>q. q \<noteq> p \<Longrightarrow> \<not> holds_lock (is_pc s q)" by (intro only_holder) simp_all
  then have "\<And>q. q \<noteq> p \<Longrightarrow> is_pc s q \<noteq> Fetching \<and> is_pc s q \<noteq> Written \<and> (\<forall>b. is_pc s q \<noteq> Fetched b)" by force
  with alone renamed show ?case by (auto simp: install_ok_def)
next
  case (released s p r)
  then have "\<And>q. q \<noteq> p \<Longrightarrow> \<not> holds_lock (is_pc s q)" by (intro only_holder) simp_all
  then show ?case using released by (auto simp: install_ok_def split: option.splits)
next
  case (release_fails s p r)
  then show ?case by (auto simp: install_ok_def split: option.splits)
qed (fastforce simp: install_ok_def)+

lemma installing_ok: "installing writable served binary s \<Longrightarrow> install_ok served binary s"
proof (induction rule: installing.induct)
  case (init s)
  then show ?case by (simp add: install_start_def install_ok_def)
qed (rule install_ok_step)


text \<open>C40: However the processes that install the helper interleave, die and fail, at most one of them works on it at a
  time, and the file at the cache path is never partial: it is the one that was there before or a whole body that
  the server answered with. A process that reports success leaves a file there, and once the file is there no
  process replaces it - a helper that is running is not written to.\<close>

theorem one_process_installs:
  assumes "installing writable served binary s"
  shows "(\<forall>p q. holds_lock (is_pc s p) \<and> holds_lock (is_pc s q) \<longrightarrow> p = q) \<and>
    (\<forall>b. is_binary s = Some b \<longrightarrow> binary = Some b \<or> served b) \<and>
    (\<forall>p. is_pc s p = Installed \<longrightarrow> is_binary s \<noteq> None) \<and>
    (\<forall>b s'. is_binary s = Some b \<and> install_step writable served s s' \<longrightarrow> is_binary s' = Some b)"
proof -
  have ok: "install_ok served binary s" using assms by (rule installing_ok)
  have "is_binary s' = Some b" if "is_binary s = Some b" "install_step writable served s s'" for b s'
    using that(2)
  proof (cases rule: install_step.cases)
    case (renamed p)
    then have "is_binary s = None" using ok by (simp add: install_ok_def)
    with that(1) show ?thesis by simp
  qed (use that(1) in simp_all)
  moreover have "p = q" if "holds_lock (is_pc s p)" "holds_lock (is_pc s q)" for p q
    using only_holder [OF ok that(1), of q] that(2) by (cases "q = p") simp_all
  moreover have "binary = Some b \<or> served b" if "is_binary s = Some b" for b
    using ok that by (simp add: install_ok_def)
  moreover have "is_binary s \<noteq> None" if "is_pc s p = Installed" for p
    using ok that unfolding install_ok_def by blast
  ultimately show ?thesis by blast
qed

theorem one_process_installs_witness:
  "\<not> holds_lock (is_pc second_arrives 1) \<and> is_pc second_arrives 0 = Locked"
proof -
  have first: "is_pc second_arrives 0 = Locked" by (simp add: install_samples)
  then have "holds_lock (is_pc second_arrives 1) \<longrightarrow> (0::nat) = 1"
    using one_process_installs [OF second_arrives_reached [of "\<lambda>b. b = [1]"]] by (metis holds_lock.simps(1))
  with first show ?thesis by simp
qed

section \<open>A lock file that nobody removes\<close>

definition stale_lock :: "nat \<Rightarrow> install_state \<Rightarrow> bool" where
  "stale_lock q s \<longleftrightarrow> is_lock s = Some q \<and> is_pc s q = Crashed \<and> is_binary s = None \<and>
     (\<forall>p. \<not> holds_lock (is_pc s p)) \<and> (\<forall>p. is_pc s p \<noteq> Installed)"

lemma stale_pcs:
  assumes "stale_lock q s"
  shows "is_pc s p \<noteq> Locked" "is_pc s p \<noteq> Fetching" "is_pc s p \<noteq> Fetched b" "is_pc s p \<noteq> Written"
    "is_pc s p \<noteq> Releasing r"
  using assms unfolding stale_lock_def by (metis holds_lock.simps(1-5))+

lemma stale_step:
  assumes "install_step writable served s s'" "stale_lock q s"
  shows "stale_lock q s'"
  using assms by (induction rule: install_step.induct) (simp_all add: stale_pcs, auto simp: stale_lock_def)

text \<open>When a process dies between making the lock file and renaming the binary, nobody ever removes the lock: in
  everything that follows, no process gets a helper, whatever the network does. Each one waits out its
  minute and fails.\<close>

theorem stale_lock_blocks_for_ever:
  assumes "installing writable served binary s" "is_lock s = Some q" "is_pc s q = Crashed" "is_binary s = None"
    and "(install_step writable served)\<^sup>*\<^sup>* s s'"
  shows "is_binary s' = None \<and> is_lock s' = Some q \<and> (\<forall>p. is_pc s' p \<noteq> Installed)"
proof -
  have "install_ok served binary s" using assms(1) by (rule installing_ok)
  then have "stale_lock q s" using assms(2-4) by (auto simp: stale_lock_def install_ok_def)
  with assms(5) have "stale_lock q s'" by (induction rule: rtranclp_induct) (auto intro: stale_step)
  then show ?thesis by (simp add: stale_lock_def)
qed

theorem stale_lock_blocks_for_ever_witness:
  "is_lock (move 1 Lock_refused first_dies) = Some 0"
proof -
  have "install_step True (\<lambda>b. b = [1]) first_dies (move 1 Lock_refused first_dies)"
    by (rule install_step.lock_refused) (simp_all add: install_samples)
  then have run: "(install_step True (\<lambda>b. b = [1]))\<^sup>*\<^sup>* first_dies (move 1 Lock_refused first_dies)" by blast
  show ?thesis
    using stale_lock_blocks_for_ever [OF first_dies_reached _ _ _ run, of 0] by (simp add: install_samples)
qed

text \<open>In a directory where the lock cannot be made although nobody holds it, an installation that finds no
  binary runs in circles: four steps, none of which waits, lead it back to the state it was in.\<close>

theorem unwritable_directory_loops:
  assumes "is_pc s p = Locking" "is_lock s = None" "is_binary s = None"
  shows "(install_step False served)\<^sup>+\<^sup>+ s s"
proof -
  let ?d = "is_clock s + WAIT_MS"
  have circle: "move p Locking (move p (Wait_lock ?d) (move p (Wait_binary ?d) (move p Lock_refused s))) = s"
    using assms(1) by (simp add: move_def fun_upd_idem)
  have "install_step False served s (move p Lock_refused s)"
    using assms by (intro install_step.lock_refused) simp_all
  moreover have "install_step False served (move p Lock_refused s) (move p (Wait_binary ?d) (move p Lock_refused s))"
    using install_step.refused_waits [of "move p Lock_refused s" p False served] assms by simp
  moreover have "install_step False served (move p (Wait_binary ?d) (move p Lock_refused s))
      (move p (Wait_lock ?d) (move p (Wait_binary ?d) (move p Lock_refused s)))"
    using assms by (intro install_step.wait_no_binary) (simp_all add: WAIT_MS_def)
  moreover have "install_step False served (move p (Wait_lock ?d) (move p (Wait_binary ?d) (move p Lock_refused s))) s"
    using install_step.wait_retry [of "move p (Wait_lock ?d) (move p (Wait_binary ?d) (move p Lock_refused s))" p ?d False served]
      assms circle by simp
  ultimately show ?thesis by (meson tranclp.r_into_trancl tranclp.trancl_into_trancl)
qed

theorem unwritable_directory_loops_witness:
  "(install_step False (\<lambda>b. b = [1]))\<^sup>+\<^sup>+ (move 0 Locking fresh_install) (move 0 Locking fresh_install)"
  by (rule unwritable_directory_loops [of _ 0]) (simp_all add: fresh_install_def)

section \<open>Progress\<close>

definition own_steps :: "(bytes \<Rightarrow> bool) \<Rightarrow> install_state \<Rightarrow> install_state \<Rightarrow> bool" where
  "own_steps served = (install_step True served)\<^sup>*\<^sup>*"

lemma own_step: "install_step True served s s' \<Longrightarrow> own_steps served s' t \<Longrightarrow> own_steps served s t"
  unfolding own_steps_def by (rule converse_rtranclp_into_rtranclp)

lemma own_trans: "own_steps served s s' \<Longrightarrow> own_steps served s' t \<Longrightarrow> own_steps served s t"
  unfolding own_steps_def by (rule rtranclp_trans)

lemma own_refl [simp]: "own_steps served s s"
  by (simp add: own_steps_def)

text \<open>The holder of the lock gets to the end of its work.\<close>

lemma holder_releases:
  assumes "holds_lock (is_pc s q)" "served b" "install_ok served binary s"
  shows "\<exists>t. own_steps served s t \<and> is_lock t = None \<and> (\<forall>p. p \<noteq> q \<longrightarrow> is_pc t p = is_pc s p) \<and>
    (is_pc t q = Installed \<or> (\<exists>c. is_pc s q = Releasing (Some c)))"
proof -
  have release: "\<exists>t. own_steps served u t \<and> is_lock t = None \<and> is_pc t q = (case r of None \<Rightarrow> Installed | Some c \<Rightarrow> Install_failed c) \<and>
      (\<forall>p. p \<noteq> q \<longrightarrow> is_pc t p = is_pc u p) \<and> is_binary t = is_binary u" if "is_pc u q = Releasing r" for u r
    using own_step [OF install_step.released [of u q r, OF that] own_refl] by (intro exI) auto
  have written: "\<exists>t. own_steps served u t \<and> is_lock t = None \<and> is_pc t q = Installed \<and>
      (\<forall>p. p \<noteq> q \<longrightarrow> is_pc t p = is_pc u p) \<and> is_binary t = is_partial u q" if "is_pc u q = Written" for u
  proof -
    let ?v = "move q (Releasing None) (u\<lparr>is_binary := is_partial u q, is_partial := (is_partial u)(q := None)\<rparr>)"
    have next_step: "install_step True served u ?v" using that by (rule install_step.renamed)
    obtain t where "own_steps served ?v t" "is_lock t = None" "is_pc t q = Installed" "\<forall>p. p \<noteq> q \<longrightarrow> is_pc t p = is_pc ?v p"
        "is_binary t = is_binary ?v"
      using release [of ?v None] by auto
    then show ?thesis using own_step [OF next_step] by (intro exI [of _ t]) simp
  qed
  have fetched: "\<exists>t. own_steps served u t \<and> is_lock t = None \<and> is_pc t q = Installed \<and>
      (\<forall>p. p \<noteq> q \<longrightarrow> is_pc t p = is_pc u p) \<and> is_binary t = Some c" if "is_pc u q = Fetched c" for u c
  proof -
    let ?v = "move q Written (u\<lparr>is_partial := (is_partial u)(q := Some c)\<rparr>)"
    have next_step: "install_step True served u ?v" using that by (rule install_step.wrote)
    obtain t where "own_steps served ?v t" "is_lock t = None" "is_pc t q = Installed" "\<forall>p. p \<noteq> q \<longrightarrow> is_pc t p = is_pc ?v p"
        "is_binary t = is_partial ?v q"
      using written [of ?v] by auto
    then show ?thesis using own_step [OF next_step] by (intro exI [of _ t]) simp
  qed
  have fetching: "\<exists>t. own_steps served u t \<and> is_lock t = None \<and> is_pc t q = Installed \<and>
      (\<forall>p. p \<noteq> q \<longrightarrow> is_pc t p = is_pc u p) \<and> is_binary t = Some b" if "is_pc u q = Fetching" for u
  proof -
    have next_step: "install_step True served u (move q (Fetched b) u)" using that assms(2) by (rule install_step.fetched)
    obtain t where "own_steps served (move q (Fetched b) u) t" "is_lock t = None" "is_pc t q = Installed"
        "\<forall>p. p \<noteq> q \<longrightarrow> is_pc t p = is_pc (move q (Fetched b) u) p" "is_binary t = Some b"
      using fetched [of "move q (Fetched b) u" b] by auto
    then show ?thesis using own_step [OF next_step] by (intro exI [of _ t]) simp
  qed
  show ?thesis
  proof (cases "is_pc s q")
    case Locked
    show ?thesis
    proof (cases "is_binary s")
      case None
      have next_step: "install_step True served s (move q Fetching s)" using Locked None by (rule install_step.locked_fetches)
      obtain t where "own_steps served (move q Fetching s) t" "is_lock t = None" "is_pc t q = Installed"
          "\<forall>p. p \<noteq> q \<longrightarrow> is_pc t p = is_pc (move q Fetching s) p"
        using fetching [of "move q Fetching s"] by auto
      then show ?thesis using own_step [OF next_step] by (intro exI [of _ t]) simp
    next
      case (Some c)
      have next_step: "install_step True served s (move q (Releasing None) s)" by (rule install_step.locked_found) (simp_all add: Locked Some)
      obtain t where "own_steps served (move q (Releasing None) s) t" "is_lock t = None" "is_pc t q = Installed"
          "\<forall>p. p \<noteq> q \<longrightarrow> is_pc t p = is_pc (move q (Releasing None) s) p"
        using release [of "move q (Releasing None) s" None] by auto
      then show ?thesis using own_step [OF next_step] by (intro exI [of _ t]) simp
    qed
  next
    case Fetching
    then show ?thesis using fetching by blast
  next
    case (Fetched c)
    then show ?thesis using fetched by blast
  next
    case Written
    then show ?thesis using written by blast
  next
    case (Releasing r)
    then show ?thesis using release [OF Releasing] by (cases r) auto
  qed (use assms(1) in simp_all)
qed

text \<open>Nothing in the protocol itself keeps a process from its helper: from every state in which no process has
  died with the lock or left it behind, a process that waits for it can still get it, if the directory is writable and the
  server answers.\<close>

theorem installation_stays_possible:
  assumes "installing True served binary s" "served b" "is_pc s p = Locking"
    and "\<And>q. is_lock s = Some q \<Longrightarrow> holds_lock (is_pc s q)"
  shows "\<exists>t. (install_step True served)\<^sup>*\<^sup>* s t \<and> is_pc t p = Installed"
proof -
  have ok: "install_ok served binary s" using assms(1) by (rule installing_ok)
  obtain u where u: "own_steps served s u" "is_lock u = None" "is_pc u p = Locking"
  proof (cases "is_lock s")
    case None
    then show ?thesis using that [of s] assms(3) by simp
  next
    case (Some q)
    then have "p \<noteq> q" using assms(3,4) by auto
    then show ?thesis using holder_releases [OF assms(4) [OF Some] assms(2) ok] that assms(3) by auto
  qed
  have reached: "install_ok served binary v" if "own_steps served s v" for v
    using that unfolding own_steps_def by (induction rule: rtranclp_induct) (auto intro: install_ok_step ok)
  let ?v = "move p Locked (u\<lparr>is_lock := Some p\<rparr>)"
  have v: "own_steps served s ?v"
    using own_trans [OF u(1) own_step [OF install_step.lock_taken [OF u(3) TrueI u(2)] own_refl]] .
  obtain t where "own_steps served ?v t" "is_pc t p = Installed"
    using holder_releases [of ?v p served b binary] assms(2) reached [OF v] by auto
  then show ?thesis using own_trans [OF v] by (auto simp: own_steps_def)
qed

theorem installation_stays_possible_witness:
  "\<exists>t :: install_state. (install_step True (\<lambda>b. b = [1]))\<^sup>*\<^sup>* second_arrives t \<and> is_pc t 1 = Installed"
  by (rule installation_stays_possible [OF second_arrives_reached, of _ "[1]"]) (simp_all add: install_samples)

section \<open>One attempt in a process\<close>

text \<open>A process that has failed once to install the helper never tries again: as long as none appears where it
  looks, every later call answers that there is none, whatever a new download would give.\<close>

lemma failed_install_is_remembered:
  assumes "ensure_gvproxy existing gh vmm (Inl e) None = (Inr None, memo)" "memo \<noteq> None"
    and "resolve_gvproxy_binary existing' gh vmm' = Inr None"
  shows "ensure_gvproxy existing' gh vmm' (Inr p) memo = (Inr None, memo)"
  using assms by (auto simp: ensure_gvproxy_def Let_def split: sum.splits option.splits if_splits)

end
