(* ===== verification/Native_Helper.thy ===== *)
theory Native_Helper
  imports Json_Text
begin

text \<open>
  Calls of the native helper: \<^verbatim>\<open>packages/runtime/src/native-helper.ts\<close>, \<^verbatim>\<open>native/runtime-command.ts\<close> and the
  errors of \<^verbatim>\<open>errors.ts\<close>. The runtime starts the helper with the name of a command, writes a request to it
  and takes the data out of its answer. The helper itself is native code: what a start of it gives is a
  parameter.
\<close>

section \<open>Errors\<close>

definition ERROR_CODES :: "string list" where
  "ERROR_CODES =
    [''BOOT_VMM_MISSING'', ''BOOT_VMM_PACKAGE_BROKEN'', ''BOOT_IMAGE_NOT_FOUND'', ''BOOT_SNAPSHOT_NOT_FOUND'',
     ''BOOT_KERNEL_NOT_FOUND'', ''BOOT_DTB_NOT_FOUND'', ''BOOT_CMD_WITHOUT_IMAGE'', ''BOOT_CMD_MISSING'',
     ''BOOT_CWD_INVALID'', ''BOOT_MOUNT_INVALID'', ''BOOT_MOUNT_HOST_NOT_FOUND'',
     ''BOOT_LIVE_MOUNT_OVERRIDE_UNKNOWN'', ''BOOT_PORT_FORWARD_INVALID'', ''BOOT_PORT_FORWARD_CONFLICT'',
     ''BOOT_PORT_FORWARD_NO_GVPROXY'', ''BOOT_PORT_FORWARD_IN_USE'', ''BOOT_PACK_FAILED'', ''BOOT_TIMEOUT'',
     ''BOOT_STDIO_INVALID'', ''BOOT_STDIO_DETACHED'', ''BOOT_DETACHED_READINESS_FAILED'',
     ''BOOT_MEMORY_INVALID'', ''BOOT_CPU_INVALID'', ''BOOT_CPU_UNSUPPORTED'', ''BOOT_NESTED_VIRT_UNSUPPORTED'',
     ''BOOT_VMSTATE_UNSUPPORTED'', ''BOOT_VMSTATE_CROSS_ISA_UNSUPPORTED'', ''BOOT_VMSTATE_RESEED_FAILED'',
     ''BOOT_PORTABLE_UNSUPPORTED'', ''FORK_MEMORY_BACKPRESSURE'', ''BOOT_MOUNTDISK_TOOL_MISSING'',
     ''EXEC_VSOCK_UNAVAILABLE'', ''EXEC_AGENT_UNAVAILABLE'', ''EXEC_AGENT_TIMEOUT'', ''EXEC_NONZERO_EXIT'',
     ''EXEC_PROTOCOL'', ''SNAPSHOT_NO_DISK'', ''SNAPSHOT_DUMP_FAILED'', ''SNAPSHOT_TIMEOUT'',
     ''SNAPSHOT_PORTABLE_UNSUPPORTED'', ''SNAPSHOT_PORTABLE_REFUSED'', ''PROVISION_BASE_NOT_FOUND'',
     ''PROVISION_KERNEL_NOT_FOUND'', ''PROVISION_DTB_NOT_FOUND'', ''PROVISION_ASSETS_DIR_INVALID'',
     ''PROVISION_INSTALL_HOOK_FAILED'', ''PROVISION_DISK_TOO_SMALL'', ''ROOTFS_IMG_TOOL_MISSING'',
     ''REGISTRY_VM_NOT_FOUND'', ''REGISTRY_NAME_IN_USE'', ''FILES_HOST_DIR_NOT_FOUND'',
     ''FILES_AGENT_UNAVAILABLE'', ''MOUNT_PATH_INVALID'', ''MOUNT_PATH_ESCAPE'', ''SECRETS_VALUE_INVALID'',
     ''SECRETS_AGENT_UNAVAILABLE'', ''WINSIZE_AGENT_UNAVAILABLE'', ''SANDBOX_ID_DUPLICATE'',
     ''SANDBOX_ID_UNKNOWN'', ''CACHE_BIND_FAILED'', ''GVPROXY_NOT_FOUND'', ''GVPROXY_EXPOSE_FAILED'',
     ''GVPROXY_PORT_IN_USE'', ''GVPROXY_INSTALL_FAILED'', ''GVPROXY_SPAWN_FAILED'',
     ''MKINITRAMFS_BUNDLE_INVALID'', ''MKINITRAMFS_WORKSPACE_INVALID'', ''MKINITRAMFS_WORKSPACE_TOO_LARGE'',
     ''MKINITRAMFS_BASE_EXTRACT_FAILED'', ''MKINITRAMFS_INIT_MISSING'', ''MKINITRAMFS_INPUT_NOT_FOUND'',
     ''MKINITRAMFS_INPUT_INVALID'', ''MKINITRAMFS_FAILED'', ''PARSE_FLAG_UNKNOWN'',
     ''PARSE_FLAG_MISSING_VALUE'', ''PARSE_FLAG_DUPLICATE'', ''PARSE_FLAG_MALFORMED'', ''PARSE_PORT_INVALID'']"

datatype error_class =
    Boot_class
  | Exec_class
  | Snapshot_class
  | Provision_class
  | Registry_class
  | Files_class
  | Mount_class
  | Secrets_class
  | Winsize_class
  | Sandbox_class
  | Cache_class
  | Gvproxy_class
  | Mkinitramfs_class
  | Parse_class

text \<open>What is thrown: an \<open>Error\<close> with its message and its cause - with the class and code of a
  \<open>MachinenError\<close> - or another value, as \<open>String\<close> shows it. No cause is \<open>undefined\<close> or \<open>null\<close>.\<close>

datatype thrown =
    Error_value "(error_class \<times> string) option" string "thrown option"
  | Other_value string

definition is_machinen_error :: "thrown \<Rightarrow> string option \<Rightarrow> bool" where
  "is_machinen_error e code =
     (case e of
        Error_value (Some (cls, c)) _ _ \<Rightarrow> code = None \<or> code = Some c
      | _ \<Rightarrow> False)"

text \<open>The loop over the causes, and the lines that \<open>formatMachinenError\<close> joins\<close>

fun cause_lines :: "thrown \<Rightarrow> string list" where
  "cause_lines (Other_value s) = [''  caused by: '' @ s]"
| "cause_lines (Error_value _ msg None) = [''  caused by: '' @ msg]"
| "cause_lines (Error_value _ msg (Some c)) = (''  caused by: '' @ msg) # cause_lines c"

definition format_machinen_error :: "string \<Rightarrow> string \<Rightarrow> thrown option \<Rightarrow> string list" where
  "format_machinen_error code msg cause =
     (''('' @ code @ ''): '' @ msg) # (case cause of None \<Rightarrow> [] | Some c \<Rightarrow> cause_lines c)"

section \<open>Values of JavaScript\<close>

text \<open>\<open>value && typeof value === "object"\<close>: an array is an object. No array has a property with one of the
  names that are asked for here.\<close>

definition object_like :: "json \<Rightarrow> bool" where
  "object_like v = (case v of Obj _ \<Rightarrow> True | Arr _ \<Rightarrow> True | _ \<Rightarrow> False)"

definition get_prop :: "json \<Rightarrow> string \<Rightarrow> json" where
  "get_prop v k = (case v of Obj fs \<Rightarrow> field fs k | _ \<Rightarrow> Undefined)"

definition is_str :: "json \<Rightarrow> bool" where
  "is_str v = (case v of Str _ \<Rightarrow> True | _ \<Rightarrow> False)"

definition is_bool :: "json \<Rightarrow> bool" where
  "is_bool v = (case v of Bool _ \<Rightarrow> True | _ \<Rightarrow> False)"

definition str_of :: "json \<Rightarrow> string" where
  "str_of v = (case v of Str s \<Rightarrow> s | _ \<Rightarrow> '''')"

text \<open>\<open>a ?? b\<close>\<close>

definition coalesce :: "json \<Rightarrow> json \<Rightarrow> json" where
  "coalesce a b = (case a of Undefined \<Rightarrow> b | Null \<Rightarrow> b | _ \<Rightarrow> a)"

section \<open>The helper\<close>

definition PROTOCOL_VERSION :: int where "PROTOCOL_VERSION = 1"

text \<open>The package of the platform: \<open>None\<close> is not installed, \<open>Some None\<close> has no helper.\<close>

record helper_host =
  hh_override :: "string option"
  hh_existing :: "string \<Rightarrow> bool"
  hh_package :: "string option option"

text \<open>Why there is no data, in place of the message\<close>

datatype helper_problem =
    Override_missing
  | Helper_missing
  | Helper_not_started
  | Invalid_json
  | Invalid_shape
  | Invalid_data
  | Answered_failure string string \<comment> \<open>the code and the message of the answer\<close>
  | Mapped_failure string \<comment> \<open>the message that \<open>mapFailure\<close> gives\<close>
  | Exit_status "int option"
  | Incomplete_plan \<comment> \<open>a caller misses a value in the data\<close>

record helper_error =
  he_class :: error_class
  he_code :: string
  he_problem :: helper_problem

text \<open>What a call throws: one of the errors of the program, or the \<open>TypeError\<close> of a check that fails itself\<close>

datatype call_failure = Reported helper_error | Type_error

definition resolve_runtime_helper_env_override :: "helper_host \<Rightarrow> string \<Rightarrow> call_failure + string option" where
  "resolve_runtime_helper_env_override hh code =
     (case hh_override hh of
        None \<Rightarrow> Inr None
      | Some p \<Rightarrow>
          if p = '''' then Inr None
          else if hh_existing hh p then Inr (Some p)
          else Inl (Reported \<lparr>he_class = Boot_class, he_code = code, he_problem = Override_missing\<rparr>))"

definition find_bundled_runtime_helper :: "helper_host \<Rightarrow> string option" where
  "find_bundled_runtime_helper hh =
     (case hh_package hh of
        Some (Some p) \<Rightarrow> if p \<noteq> '''' \<and> hh_existing hh p then Some p else None
      | _ \<Rightarrow> None)"

definition resolve_runtime_helper :: "helper_host \<Rightarrow> string \<Rightarrow> call_failure + string" where
  "resolve_runtime_helper hh code =
     bind_res (resolve_runtime_helper_env_override hh code) (\<lambda>found.
       (case found of
          Some p \<Rightarrow> Inr p
        | None \<Rightarrow>
            (case find_bundled_runtime_helper hh of
               Some p \<Rightarrow> Inr p
             | None \<Rightarrow> Inl (Reported \<lparr>he_class = Boot_class, he_code = code, he_problem = Helper_missing\<rparr>))))"

text \<open>\<open>spawnSync\<close>: whether it failed to run the helper (or the answer exceeds a mebibyte), what
  \<open>JSON.parse\<close> makes of its output (\<open>None\<close>: it throws), and the exit status (\<open>None\<close>: a signal).\<close>

record spawn_result =
  sp_failed :: bool
  sp_stdout :: "json option"
  sp_status :: "int option"

type_synonym helper_spawn = "string \<Rightarrow> string \<Rightarrow> string \<Rightarrow> spawn_result"

text \<open>\<open>rc_make_error\<close> is the class that \<open>makeError\<close> gives an error of a code; a check that throws
  gives \<open>None\<close>.\<close>

record runtime_command =
  rc_helper_command :: string
  rc_error_code :: string
  rc_make_error :: "string \<Rightarrow> error_class"
  rc_map_failure :: "string \<Rightarrow> string \<Rightarrow> (string option \<times> string option) option"
  rc_is_data :: "json \<Rightarrow> bool option"

definition helper_request :: "json \<Rightarrow> string" where
  "helper_request data = json_text (Obj [(''protocolVersion'', Num PROTOCOL_VERSION), (''data'', data)]) @ [nl_char]"

definition is_success_envelope :: "string \<Rightarrow> json \<Rightarrow> bool" where
  "is_success_envelope command v \<longleftrightarrow>
     object_like v \<and> get_prop v ''ok'' = Bool True \<and> get_prop v ''protocolVersion'' = Num PROTOCOL_VERSION \<and>
     get_prop v ''command'' = Str command"

definition is_failure_envelope :: "json \<Rightarrow> bool" where
  "is_failure_envelope v \<longleftrightarrow>
     object_like v \<and> get_prop v ''ok'' = Bool False \<and> get_prop v ''protocolVersion'' = Num PROTOCOL_VERSION \<and>
     is_str (get_prop (get_prop v ''error'') ''code'') \<and> is_str (get_prop (get_prop v ''error'') ''message'')"

definition make_helper_error :: "runtime_command \<Rightarrow> string \<Rightarrow> helper_problem \<Rightarrow> helper_error" where
  "make_helper_error rc code problem = \<lparr>he_class = rc_make_error rc code, he_code = code, he_problem = problem\<rparr>"

text \<open>The response: code and message of a failure, or the data of a success\<close>

definition parse_runtime_helper_response :: "runtime_command \<Rightarrow> json option \<Rightarrow> call_failure + ((string \<times> string) + json)" where
  "parse_runtime_helper_response rc stdout =
     (let refuse = (\<lambda>problem. Inl (Reported (make_helper_error rc (rc_error_code rc) problem))) in
      case stdout of
        None \<Rightarrow> refuse Invalid_json
      | Some v \<Rightarrow>
          if is_failure_envelope v
          then Inr (Inl (str_of (get_prop (get_prop v ''error'') ''code''), str_of (get_prop (get_prop v ''error'') ''message'')))
          else if \<not> is_success_envelope (rc_helper_command rc) v then refuse Invalid_shape
          else
            (case rc_is_data rc (get_prop v ''data'') of
               None \<Rightarrow> Inl Type_error
             | Some False \<Rightarrow> refuse Invalid_data
             | Some True \<Rightarrow> Inr (Inr (get_prop v ''data''))))"

definition response_error_code :: "string \<Rightarrow> string \<Rightarrow> string" where
  "response_error_code code fallback = (if code \<in> set ERROR_CODES then code else fallback)"

definition helper_failure :: "runtime_command \<Rightarrow> string \<Rightarrow> string \<Rightarrow> helper_error" where
  "helper_failure rc code msg =
     (let mapped = rc_map_failure rc code msg;
          code' = (case Option.bind mapped fst of Some c \<Rightarrow> c | None \<Rightarrow> response_error_code code (rc_error_code rc))
      in make_helper_error rc code'
           (case Option.bind mapped snd of Some m \<Rightarrow> Mapped_failure m | None \<Rightarrow> Answered_failure code msg))"

definition call_runtime_helper :: "helper_host \<Rightarrow> helper_spawn \<Rightarrow> runtime_command \<Rightarrow> json \<Rightarrow> call_failure + json" where
  "call_runtime_helper hh spawn rc data =
     bind_res (resolve_runtime_helper hh (rc_error_code rc)) (\<lambda>helper.
       let result = spawn helper (rc_helper_command rc) (helper_request data) in
       if sp_failed result then Inl (Reported \<lparr>he_class = Boot_class, he_code = rc_error_code rc, he_problem = Helper_not_started\<rparr>)
       else
         bind_res (parse_runtime_helper_response rc (sp_stdout result)) (\<lambda>response.
           (case response of
              Inl (code, msg) \<Rightarrow> Inl (Reported (helper_failure rc code msg))
            | Inr d \<Rightarrow>
                if sp_status result \<noteq> Some 0
                then Inl (Reported (make_helper_error rc (rc_error_code rc) (Exit_status (sp_status result))))
                else Inr d)))"

text \<open>\<open>defineRuntimeCommand\<close>: the request of an input, and what is taken from the data\<close>

definition define_runtime_command ::
    "runtime_command \<Rightarrow> ('i \<Rightarrow> json) \<Rightarrow> (json \<Rightarrow> call_failure + 'o) \<Rightarrow> helper_host \<Rightarrow> helper_spawn \<Rightarrow> 'i \<Rightarrow> call_failure + 'o" where
  "define_runtime_command rc data output hh spawn input =
     bind_res (call_runtime_helper hh spawn rc (data input)) output"

section \<open>Lemmas\<close>

named_theorems js_simps "how properties and tags of values are read"

lemma js_values [js_simps]:
  "object_like (Obj fs)" "object_like (Arr vs)" "get_prop (Obj fs) k = field fs k"
  "is_str (Str s)" "is_bool (Bool b)" "str_of (Str s) = s"
  by (simp_all add: object_like_def get_prop_def is_str_def is_bool_def str_of_def)

lemma is_str_iff: "is_str v \<longleftrightarrow> (\<exists>s. v = Str s)"
  by (cases v) (simp_all add: is_str_def)

lemma is_bool_iff: "is_bool v \<longleftrightarrow> (\<exists>b. v = Bool b)"
  by (cases v) (simp_all add: is_bool_def)

lemma parse_response_data:
  "parse_runtime_helper_response rc out = Inr (Inr d) \<longleftrightarrow>
     (\<exists>v. out = Some v \<and> is_success_envelope (rc_helper_command rc) v \<and> d = get_prop v ''data'' \<and> rc_is_data rc d = Some True)"
  by (auto simp: parse_runtime_helper_response_def is_failure_envelope_def is_success_envelope_def Let_def split: option.splits bool.splits)

text \<open>Data is returned exactly when a helper was found, ran to exit status 0 and answered with a success of the
  same protocol version for the same command, whose data pass the check of the command - and what is
  returned is that data.\<close>

theorem helper_answer_is_checked:
  "call_runtime_helper hh spawn rc data = Inr d \<longleftrightarrow>
     (\<exists>helper v. resolve_runtime_helper hh (rc_error_code rc) = Inr helper \<and>
        spawn helper (rc_helper_command rc) (helper_request data) = \<lparr>sp_failed = False, sp_stdout = Some v, sp_status = Some 0\<rparr> \<and>
        is_success_envelope (rc_helper_command rc) v \<and> d = get_prop v ''data'' \<and> rc_is_data rc d = Some True)"
proof (cases "resolve_runtime_helper hh (rc_error_code rc)")
  case (Inr helper)
  let ?r = "spawn helper (rc_helper_command rc) (helper_request data)"
  let ?p = "parse_runtime_helper_response rc (sp_stdout ?r)"
  have ran: "?r = \<lparr>sp_failed = False, sp_stdout = Some v, sp_status = Some 0\<rparr> \<longleftrightarrow>
      \<not> sp_failed ?r \<and> sp_stdout ?r = Some v \<and> sp_status ?r = Some 0" for v
    by (cases ?r) auto
  have "call_runtime_helper hh spawn rc data = Inr d \<longleftrightarrow> \<not> sp_failed ?r \<and> ?p = Inr (Inr d) \<and> sp_status ?r = Some 0"
    by (auto simp: call_runtime_helper_def Inr bind_res_def Let_def split: sum.split)
  then show ?thesis unfolding parse_response_data by (auto simp: Inr ran)
qed (simp add: call_runtime_helper_def bind_res_def)

text \<open>Every error of a call has one of the published codes, and the class that its command asks for - except
  that a helper that is missing or does not start is always reported as an error of a boot, also where the
  code belongs to the registry or to a provisioning.\<close>

theorem helper_errors_are_classified:
  assumes "call_runtime_helper hh spawn rc data = Inl (Reported e)"
    and "rc_error_code rc \<in> set ERROR_CODES"
    and "\<And>code msg m c. rc_map_failure rc code msg = Some (Some c, m) \<Longrightarrow> c \<in> set ERROR_CODES"
  shows "he_code e \<in> set ERROR_CODES \<and>
    he_class e = (if he_problem e \<in> {Override_missing, Helper_missing, Helper_not_started} then Boot_class else rc_make_error rc (he_code e))"
proof -
  have code: "response_error_code c (rc_error_code rc) \<in> set ERROR_CODES" for c
    using assms(2) by (simp add: response_error_code_def)
  have mapped: "c \<in> set ERROR_CODES" if "Option.bind (rc_map_failure rc code msg) fst = Some c" for code msg c
    using that assms(3) by (cases "rc_map_failure rc code msg") auto
  have failure: "he_code (helper_failure rc c m) \<in> set ERROR_CODES \<and>
      he_class (helper_failure rc c m) = rc_make_error rc (he_code (helper_failure rc c m)) \<and>
      he_problem (helper_failure rc c m) \<notin> {Override_missing, Helper_missing, Helper_not_started}" for c m
    using code mapped [of c m] by (auto simp: helper_failure_def make_helper_error_def Let_def split: option.split)
  show ?thesis
  proof (cases "resolve_runtime_helper hh (rc_error_code rc)")
    case (Inl a)
    then show ?thesis
      using assms(1,2)
      by (auto simp: call_runtime_helper_def resolve_runtime_helper_def resolve_runtime_helper_env_override_def bind_res_def
          split: option.splits if_splits sum.splits)
  next
    case (Inr helper)
    have parse: "e = make_helper_error rc (rc_error_code rc) Invalid_json \<or> e = make_helper_error rc (rc_error_code rc) Invalid_shape \<or>
        e = make_helper_error rc (rc_error_code rc) Invalid_data"
      if "parse_runtime_helper_response rc out = Inl (Reported e)" for out
      using that by (auto simp: parse_runtime_helper_response_def Let_def split: option.splits if_splits bool.splits)
    show ?thesis
      using assms(1,2) Inr failure
      by (auto simp: call_runtime_helper_def Let_def bind_res_def make_helper_error_def dest!: parse split: sum.splits if_splits)
  qed
qed

end
