(* ===== verification/Boot_Plan_Schema.thy ===== *)
theory Boot_Plan_Schema
  imports Native_Helper
begin

text \<open>
  \<^verbatim>\<open>packages/runtime/src/native/boot-plan-schema.ts\<close>: the types of the plans that the native planner
  returns, and the type guards that check its answer. The compiler takes the word of a guard that a value has
  a type; here the declared types have a meaning and the guards are compared with it.
\<close>

section \<open>Types of TypeScript\<close>

text \<open>The members of an object type are marked when they are optional_member.\<close>

datatype ts_type =
    T_null
  | T_string
  | T_number
  | T_boolean
  | T_unknown
  | T_literal "string list"
  | T_array ts_type
  | T_record ts_type
  | T_object "(string \<times> bool \<times> ts_type) list"
  | T_union "ts_type list"
  | T_intersection "ts_type list"

abbreviation nullable :: "ts_type \<Rightarrow> ts_type" where "nullable t \<equiv> T_union [t, T_null]"

abbreviation required :: "string \<Rightarrow> ts_type \<Rightarrow> string \<times> bool \<times> ts_type" where
  "required k t \<equiv> (k, False, t)"

abbreviation optional_member :: "string \<Rightarrow> ts_type \<Rightarrow> string \<times> bool \<times> ts_type" where
  "optional_member k t \<equiv> (k, True, t)"

text \<open>The text of a number that \<open>JSON.parse\<close> reads beyond the range of doubles\<close>

definition is_finite_text :: "string \<Rightarrow> bool" where
  "is_finite_text s \<longleftrightarrow> s \<notin> {''Infinity'', ''-Infinity''}"

definition is_number :: "json \<Rightarrow> bool" where
  "is_number v = (case v of Num _ \<Rightarrow> True | Fraction _ \<Rightarrow> True | _ \<Rightarrow> False)"

definition is_array_of :: "(json \<Rightarrow> bool) \<Rightarrow> json \<Rightarrow> bool" where
  "is_array_of check v = (case v of Arr vs \<Rightarrow> list_all check vs | _ \<Rightarrow> False)"

section \<open>The declared types\<close>

definition ScratchDiskAction :: ts_type where
  "ScratchDiskAction =
     T_literal [''none'', ''existing'', ''clone'', ''allocate'']"

definition RootDiskRuntimeAction :: ts_type where
  "RootDiskRuntimeAction =
     T_literal [''none'', ''existing'', ''clone-restore'', ''clone-cached'']"

definition MountDiskRuntimeAction :: ts_type where
  "MountDiskRuntimeAction =
     T_literal [''none'', ''restore'', ''fresh'']"

definition GvproxyAction :: ts_type where
  "GvproxyAction =
     T_literal [''skip-existing'', ''spawn'', ''missing-ok'']"

definition SnapshotContextPlan :: ts_type where
  "SnapshotContextPlan =
     T_object
       [required ''mountDisk'' (nullable (T_object
          [required ''guest'' T_string, required ''lowerPath'' T_string, required ''upperPath'' T_string])),
        required ''liveMounts'' (T_array (T_object
          [required ''host'' T_string, required ''guest'' T_string,
           required ''mode'' (T_literal [''ro'', ''rw''])])),
        required ''vmstateChain'' (nullable (T_object
          [required ''chainId'' T_string, required ''parentDir'' (nullable T_string),
           required ''sequence'' T_number]))]"

definition ProvisionGuestCpu :: ts_type where
  "ProvisionGuestCpu =
     T_literal [''arm64'', ''amd64'']"

definition RestoreLiveMount :: ts_type where
  "RestoreLiveMount =
     T_object
       [required ''host'' T_string, required ''guest'' T_string, optional_member ''mode'' (T_literal [''ro'', ''rw''])]"

definition GvproxyPlan :: ts_type where
  "GvproxyPlan =
     T_object
       [required ''action'' GvproxyAction, required ''gvproxyPath'' (nullable T_string)]"

definition VsockModePlan :: ts_type where
  "VsockModePlan =
     T_object
       [required ''action'' (T_literal [''existing'', ''allocate'']),
        required ''existingSpec'' (nullable T_string)]"

definition VmstateTempModePlan :: ts_type where
  "VmstateTempModePlan =
     T_object
       [required ''action'' (T_literal [''skip'', ''reuse'', ''allocate'']),
        required ''tempDir'' (nullable T_string)]"

definition StatsFileModePlan :: ts_type where
  "StatsFileModePlan =
     T_object
       [required ''action'' (T_literal [''existing'', ''allocate'']),
        required ''existingPath'' (nullable T_string)]"

definition BootRootDiskMode :: ts_type where
  "BootRootDiskMode =
     T_literal [''unset'', ''false'', ''path'', ''true'']"

definition BootScratchMode :: ts_type where
  "BootScratchMode =
     T_literal [''unset'', ''false'', ''path'', ''auto'']"

definition RegistryProcessPlan :: ts_type where
  "RegistryProcessPlan =
     T_object
       [required ''vmmExe'' (nullable T_string), required ''gvproxyExe'' (nullable T_string)]"

definition RegistryLifecyclePlan :: ts_type where
  "RegistryLifecyclePlan =
     T_object
       [required ''claimName'' (nullable T_string), required ''shouldWrite'' T_boolean]"

definition CpuPolicyPlan :: ts_type where
  "CpuPolicyPlan =
     T_object
       [required ''maxVcpus'' T_number, optional_member ''quotaCpus'' T_number, required ''weight'' T_number]"

definition RegistryCpuPlan :: ts_type where
  "RegistryCpuPlan =
     T_object
       [required ''maxVcpus'' T_number, optional_member ''quotaCpus'' T_number, required ''weight'' T_number,
        required ''enforcement'' (T_object
          [required ''status'' (T_literal [''none'', ''linux-cgroup-v2'', ''unsupported'']),
           optional_member ''reason'' T_string])]"

definition RegistryVmstatePlan :: ts_type where
  "RegistryVmstatePlan =
     T_object
       [required ''statePath'' (nullable T_string), required ''chainId'' (nullable T_string),
        required ''checkpointParent'' (nullable T_string), required ''checkpointSequence'' (nullable T_number)]"

definition PlannedPortForward :: ts_type where
  "PlannedPortForward =
     T_object
       [required ''hostPort'' T_number, required ''guestPort'' T_number, optional_member ''hostAddr'' T_string]"

definition PortForwardProbePlan :: ts_type where
  "PortForwardProbePlan =
     T_object
       [required ''hostPort'' T_number, required ''probeHost'' T_string]"

definition BundleWorkspacePlan :: ts_type where
  "BundleWorkspacePlan =
     T_object
       [required ''cpioPath'' (nullable T_string), required ''synthBundleDir'' (nullable T_string)]"

definition BundleConfigPathsPlan :: ts_type where
  "BundleConfigPathsPlan =
     T_object
       [required ''rootfsDir'' (nullable T_string), required ''configPath'' (nullable T_string)]"

definition BundlePackPlan :: ts_type where
  "BundlePackPlan =
     T_object
       [required ''kind'' (T_literal [''fat'', ''tiny'']), required ''tinyMountGuest'' (nullable T_string)]"

definition RegistryPortForwardPlan :: ts_type where
  "RegistryPortForwardPlan =
     PlannedPortForward"

definition BootVmstateRuntimePlan :: ts_type where
  "BootVmstateRuntimePlan =
     T_object
       [required ''statePath'' (nullable T_string), required ''chainId'' (nullable T_string),
        required ''checkpointParent'' (nullable T_string), required ''checkpointSequence'' (nullable T_number)]"

definition PlannedLiveMount :: ts_type where
  "PlannedLiveMount =
     T_object
       [required ''host'' T_string, required ''guest'' T_string, required ''mode'' (T_literal [''ro'', ''rw'']),
        required ''tag'' T_string]"

definition RegistryMountDiskPlan :: ts_type where
  "RegistryMountDiskPlan =
     T_object
       [required ''guest'' T_string, required ''lowerPath'' T_string, required ''upperPath'' T_string]"

definition RegistryLiveMountPlan :: ts_type where
  "RegistryLiveMountPlan =
     T_object
       [required ''guest'' T_string, required ''host'' T_string, required ''mode'' (T_literal [''ro'', ''rw''])]"

definition ProvisionAssetsPlan :: ts_type where
  "ProvisionAssetsPlan =
     T_object
       [required ''cpu'' ProvisionGuestCpu, required ''kernelAsset'' T_string,
        required ''dtbAsset'' (nullable T_string), required ''rootfsAsset'' T_string]"

definition ProvisionDtbPlan :: ts_type where
  "ProvisionDtbPlan =
     T_object
       [required ''required'' T_boolean, required ''asset'' (nullable T_string),
        required ''cliCacheName'' (nullable T_string)]"

definition ProvisionCliCachePlan :: ts_type where
  "ProvisionCliCachePlan =
     T_object
       [required ''baseDir'' (nullable T_string)]"

definition ProvisionAssetLookupPlan :: ts_type where
  "ProvisionAssetLookupPlan =
     T_object
       [required ''path'' (nullable T_string),
        required ''error'' (nullable (T_literal [''missing'', ''assets-dir-invalid'']))]"

definition ProvisionBootPlan :: ts_type where
  "ProvisionBootPlan =
     T_object
       [required ''imagePath'' (nullable T_string), required ''kernelPath'' (nullable T_string),
        required ''dtbPath'' (nullable T_string), required ''vmmVsock'' (nullable T_string),
        required ''timeoutMs'' (nullable T_number), required ''vmmEnv'' (T_record T_string),
        required ''cmd'' (T_array T_string), required ''env'' (T_record T_string),
        required ''snapshotPath'' (nullable T_string), required ''rootDiskPath'' (nullable T_string)]"

definition ProvisionWorkloadPlan :: ts_type where
  "ProvisionWorkloadPlan =
     T_object
       [required ''tarToDiskCommand'' T_string, required ''poweroffCommand'' T_string]"

definition ProvisionRepackPlan :: ts_type where
  "ProvisionRepackPlan =
     T_object
       [required ''extractArgs'' (T_array T_string), required ''targzArgs'' (T_array T_string),
        required ''imageConfigPath'' (nullable T_string)]"

definition ProvisionImageConfigPlan :: ts_type where
  "ProvisionImageConfigPlan =
     nullable (T_object
       [optional_member ''cmd'' (T_array T_string), optional_member ''env'' (T_record T_string)])"

definition ProvisionRuntimePlan :: ts_type where
  "ProvisionRuntimePlan =
     T_object
       [required ''scratchSizeBytes'' T_number, required ''deadlineMs'' T_number,
        required ''diskPath'' (nullable T_string), required ''rootDiskPath'' (nullable T_string),
        required ''udsPath'' (nullable T_string)]"

definition RegistryShapePlan :: ts_type where
  "RegistryShapePlan =
     T_object
       [required ''sourceImagePath'' (nullable T_string), required ''diskPath'' (nullable T_string),
        required ''forkedFrom'' (nullable T_string), required ''memoryCeilingMib'' (nullable T_number),
        required ''statsPath'' (nullable T_string), required ''rootDiskPath'' (nullable T_string),
        required ''bootLogPath'' (nullable T_string),
        required ''rootDiskMode'' (T_literal [''block'', ''none'']),
        required ''cleanupPaths'' (T_array T_string), required ''mountDisk'' (nullable RegistryMountDiskPlan),
        required ''liveMounts'' (T_array RegistryLiveMountPlan),
        required ''portForward'' (nullable (T_array RegistryPortForwardPlan)),
        required ''cpu'' (nullable RegistryCpuPlan), required ''vmstate'' RegistryVmstatePlan,
        required ''nested'' T_boolean]"

definition ScratchDiskPlan :: ts_type where
  "ScratchDiskPlan =
     T_object
       [required ''action'' ScratchDiskAction, required ''diskPath'' (nullable T_string),
        required ''perBootSnapDisk'' (nullable T_string), required ''vmmDisk'' (nullable T_string)]"

definition RootDiskRuntimePlan :: ts_type where
  "RootDiskRuntimePlan =
     T_object
       [required ''action'' RootDiskRuntimeAction, required ''sourcePath'' (nullable T_string),
        required ''targetPath'' (nullable T_string), required ''perBootRootDisk'' (nullable T_string),
        required ''vmmRootDisk'' (nullable T_string)]"

definition MountDiskRuntimePlan :: ts_type where
  "MountDiskRuntimePlan =
     T_object
       [required ''action'' MountDiskRuntimeAction, required ''lowerPath'' (nullable T_string),
        required ''upperPath'' (nullable T_string), required ''sourceUpperPath'' (nullable T_string),
        required ''guest'' (nullable T_string), required ''upperSizeBytes'' (nullable T_number)]"

definition MachinenConfigPlan :: ts_type where
  "MachinenConfigPlan =
     T_intersection [T_record T_unknown,
       T_object
         [required ''cmd'' (T_array T_string), required ''env'' (T_record T_string), optional_member ''cwd'' T_string,
          optional_member ''liveMounts'' (T_array (T_object
            [required ''guest'' T_string, required ''tag'' T_string,
             required ''mode'' (T_literal [''ro'', ''rw''])]))]]"

definition NativeBootPlanResult :: ts_type where
  "NativeBootPlanResult =
     T_object
       [required ''memoryCeilingMib'' (nullable T_number), required ''vmmMemory'' (nullable T_string),
        required ''cpuPolicy'' (nullable CpuPolicyPlan), required ''wantsRootDisk'' T_boolean,
        required ''rootDiskMode'' BootRootDiskMode, required ''needsInitramfs'' T_boolean,
        required ''timeoutMs'' (nullable T_number), required ''detachedReadinessTimeoutMs'' T_number,
        required ''normalizedMountGuest'' (nullable T_string), required ''guestHostname'' (nullable T_string),
        required ''guestHostnameSet'' (nullable T_string), required ''mergedGuestEnv'' (T_record T_string),
        required ''vmmEnv'' (T_record T_string), required ''vsockMode'' VsockModePlan,
        required ''vsockUdsPath'' (nullable T_string), required ''vmmVsock'' (nullable T_string),
        required ''gvproxyPlan'' GvproxyPlan, required ''vmmCommand'' (nullable T_string),
        required ''vmmArgs'' (T_array T_string), required ''usePdeathsig'' T_boolean,
        required ''vmmKernel'' (nullable T_string), required ''vmmDtb'' (nullable T_string),
        required ''vmmInitrd'' (nullable T_string), required ''vmmSnapshotPath'' (nullable T_string),
        required ''vmmRestorePath'' (nullable T_string), required ''vmmVmstateTiming'' (nullable T_string),
        required ''vmstateTempMode'' VmstateTempModePlan, required ''vmmNested'' (nullable T_string),
        required ''virtiofsEnv'' (T_record T_string), required ''batchLiveMountSyncRequired'' T_boolean,
        required ''restoreLiveMounts'' (T_array RestoreLiveMount),
        required ''plannedLiveMounts'' (T_array PlannedLiveMount), required ''statsFileMode'' StatsFileModePlan,
        required ''statsFilePath'' (nullable T_string), required ''vmmStatsFile'' (nullable T_string),
        required ''vmstateRuntime'' BootVmstateRuntimePlan,
        required ''plannedPortForward'' (T_array PlannedPortForward),
        required ''portForwardProbe'' (T_array PortForwardProbePlan),
        required ''machinenConfig'' MachinenConfigPlan, required ''bundleCommand'' (T_array T_string),
        required ''bundleEnv'' (T_record T_string), required ''bundleWorkspace'' BundleWorkspacePlan,
        required ''bundleConfigPaths'' BundleConfigPathsPlan, required ''bundlePack'' BundlePackPlan,
        required ''provisionAssets'' ProvisionAssetsPlan, required ''provisionDtb'' ProvisionDtbPlan,
        required ''provisionCliCache'' ProvisionCliCachePlan,
        required ''provisionAssetLookup'' ProvisionAssetLookupPlan,
        required ''provisionBoot'' ProvisionBootPlan, required ''provisionWorkload'' ProvisionWorkloadPlan,
        required ''provisionRepack'' ProvisionRepackPlan,
        required ''provisionImageConfig'' ProvisionImageConfigPlan,
        required ''provisionRuntime'' ProvisionRuntimePlan, required ''plannedScratchMode'' BootScratchMode,
        required ''scratchDisk'' ScratchDiskPlan, required ''rootDiskRuntime'' RootDiskRuntimePlan,
        required ''mountDiskRuntime'' MountDiskRuntimePlan, required ''mountDiskFdEnv'' (T_record T_string),
        required ''snapshotContext'' SnapshotContextPlan, required ''registryShape'' RegistryShapePlan,
        required ''registryLifecycle'' RegistryLifecyclePlan, required ''registryProcess'' RegistryProcessPlan]"

section \<open>The guards\<close>

text \<open>An array of results \<open>[...].every(Boolean)\<close> and a chain of \<open>&&\<close> are conjunctions.\<close>

definition is_provision_workload_plan :: "json \<Rightarrow> bool" where
  "is_provision_workload_plan v \<longleftrightarrow>
     object_like v \<and>
     is_str (get_prop v ''tarToDiskCommand'') \<and>
     is_str (get_prop v ''poweroffCommand'')"

definition is_registry_mount_disk :: "json \<Rightarrow> bool" where
  "is_registry_mount_disk v \<longleftrightarrow>
     object_like v \<and>
     is_str (get_prop v ''guest'') \<and>
     is_str (get_prop v ''lowerPath'') \<and>
     is_str (get_prop v ''upperPath'')"

definition nullable_registry_mount_disk :: "json \<Rightarrow> bool" where
  "nullable_registry_mount_disk v \<longleftrightarrow>
     v = Null \<or> is_registry_mount_disk v"

definition is_snapshot_mount_disk :: "json \<Rightarrow> bool" where
  "is_snapshot_mount_disk v \<longleftrightarrow>
     object_like v \<and>
     is_str (get_prop v ''guest'') \<and>
     is_str (get_prop v ''lowerPath'') \<and>
     is_str (get_prop v ''upperPath'')"

definition is_string_array :: "json \<Rightarrow> bool" where
  "is_string_array v \<longleftrightarrow>
     is_array_of is_str v"

definition is_one_of :: "json \<Rightarrow> string list \<Rightarrow> bool" where
  "is_one_of v allowed = (case v of Str s \<Rightarrow> s \<in> set allowed | _ \<Rightarrow> False)"

definition is_registry_cpu_enforcement :: "json \<Rightarrow> bool" where
  "is_registry_cpu_enforcement v \<longleftrightarrow>
     object_like v \<and>
     is_one_of (get_prop v ''status'') [''none'', ''linux-cgroup-v2'', ''unsupported''] \<and>
     (get_prop v ''reason'' = Undefined \<or> is_str (get_prop v ''reason''))"

definition is_registry_live_mount :: "json \<Rightarrow> bool" where
  "is_registry_live_mount v \<longleftrightarrow>
     object_like v \<and>
     is_str (get_prop v ''guest'') \<and>
     is_str (get_prop v ''host'') \<and>
     is_one_of (get_prop v ''mode'') [''ro'', ''rw'']"

definition is_snapshot_live_mount :: "json \<Rightarrow> bool" where
  "is_snapshot_live_mount v \<longleftrightarrow>
     object_like v \<and>
     is_str (get_prop v ''host'') \<and>
     is_str (get_prop v ''guest'') \<and>
     is_one_of (get_prop v ''mode'') [''ro'', ''rw'']"

definition is_restore_live_mount :: "json \<Rightarrow> bool" where
  "is_restore_live_mount v \<longleftrightarrow>
     object_like v \<and>
     is_str (get_prop v ''host'') \<and>
     is_str (get_prop v ''guest'') \<and>
     (get_prop v ''mode'' = Undefined \<or> is_one_of (get_prop v ''mode'') [''ro'', ''rw''])"

definition is_planned_live_mount :: "json \<Rightarrow> bool" where
  "is_planned_live_mount v \<longleftrightarrow>
     object_like v \<and>
     is_str (get_prop v ''host'') \<and>
     is_str (get_prop v ''guest'') \<and>
     is_one_of (get_prop v ''mode'') [''ro'', ''rw''] \<and>
     is_str (get_prop v ''tag'')"

definition nullable_string :: "json \<Rightarrow> bool" where
  "nullable_string v \<longleftrightarrow>
     v = Null \<or> is_str v"

definition is_bundle_workspace_plan :: "json \<Rightarrow> bool" where
  "is_bundle_workspace_plan v \<longleftrightarrow>
     object_like v \<and>
     nullable_string (get_prop v ''cpioPath'') \<and>
     nullable_string (get_prop v ''synthBundleDir'')"

definition is_bundle_config_paths_plan :: "json \<Rightarrow> bool" where
  "is_bundle_config_paths_plan v \<longleftrightarrow>
     object_like v \<and>
     nullable_string (get_prop v ''rootfsDir'') \<and>
     nullable_string (get_prop v ''configPath'')"

definition is_bundle_pack_plan :: "json \<Rightarrow> bool" where
  "is_bundle_pack_plan v \<longleftrightarrow>
     object_like v \<and>
     is_one_of (get_prop v ''kind'') [''fat'', ''tiny''] \<and>
     nullable_string (get_prop v ''tinyMountGuest'')"

definition is_provision_assets_plan :: "json \<Rightarrow> bool" where
  "is_provision_assets_plan v \<longleftrightarrow>
     object_like v \<and>
     is_one_of (get_prop v ''cpu'') [''arm64'', ''amd64''] \<and>
     is_str (get_prop v ''kernelAsset'') \<and>
     nullable_string (get_prop v ''dtbAsset'') \<and>
     is_str (get_prop v ''rootfsAsset'')"

definition is_provision_dtb_plan :: "json \<Rightarrow> bool" where
  "is_provision_dtb_plan v \<longleftrightarrow>
     object_like v \<and>
     is_bool (get_prop v ''required'') \<and>
     nullable_string (get_prop v ''asset'') \<and>
     nullable_string (get_prop v ''cliCacheName'')"

definition is_provision_cli_cache_plan :: "json \<Rightarrow> bool" where
  "is_provision_cli_cache_plan v \<longleftrightarrow>
     object_like v \<and>
     nullable_string (get_prop v ''baseDir'')"

definition is_provision_asset_lookup_plan :: "json \<Rightarrow> bool" where
  "is_provision_asset_lookup_plan v \<longleftrightarrow>
     object_like v \<and>
     nullable_string (get_prop v ''path'') \<and>
     (get_prop v ''error'' = Null \<or> get_prop v ''error'' = Str ''missing'' \<or> get_prop v ''error'' = Str ''assets-dir-invalid'')"

definition is_provision_repack_plan :: "json \<Rightarrow> bool" where
  "is_provision_repack_plan v \<longleftrightarrow>
     object_like v \<and>
     is_string_array (get_prop v ''extractArgs'') \<and>
     is_string_array (get_prop v ''targzArgs'') \<and>
     nullable_string (get_prop v ''imageConfigPath'')"

definition is_scratch_disk_plan :: "json \<Rightarrow> bool" where
  "is_scratch_disk_plan v \<longleftrightarrow>
     object_like v \<and>
     is_one_of (get_prop v ''action'') [''none'', ''existing'', ''clone'', ''allocate''] \<and>
     nullable_string (get_prop v ''diskPath'') \<and>
     nullable_string (get_prop v ''perBootSnapDisk'') \<and>
     nullable_string (get_prop v ''vmmDisk'')"

definition is_root_disk_runtime_plan :: "json \<Rightarrow> bool" where
  "is_root_disk_runtime_plan v \<longleftrightarrow>
     object_like v \<and>
     is_one_of (get_prop v ''action'') [''none'', ''existing'', ''clone-restore'', ''clone-cached''] \<and>
     nullable_string (get_prop v ''sourcePath'') \<and>
     nullable_string (get_prop v ''targetPath'') \<and>
     nullable_string (get_prop v ''perBootRootDisk'') \<and>
     nullable_string (get_prop v ''vmmRootDisk'')"

definition is_registry_lifecycle_plan :: "json \<Rightarrow> bool" where
  "is_registry_lifecycle_plan v \<longleftrightarrow>
     object_like v \<and>
     nullable_string (get_prop v ''claimName'') \<and>
     is_bool (get_prop v ''shouldWrite'')"

definition is_registry_process_plan :: "json \<Rightarrow> bool" where
  "is_registry_process_plan v \<longleftrightarrow>
     object_like v \<and>
     nullable_string (get_prop v ''vmmExe'') \<and>
     nullable_string (get_prop v ''gvproxyExe'')"

definition is_gvproxy_plan :: "json \<Rightarrow> bool" where
  "is_gvproxy_plan v \<longleftrightarrow>
     object_like v \<and>
     is_one_of (get_prop v ''action'') [''skip-existing'', ''spawn'', ''missing-ok''] \<and>
     nullable_string (get_prop v ''gvproxyPath'')"

definition is_vsock_mode_plan :: "json \<Rightarrow> bool" where
  "is_vsock_mode_plan v \<longleftrightarrow>
     object_like v \<and>
     (get_prop v ''action'' = Str ''existing'' \<or> get_prop v ''action'' = Str ''allocate'') \<and>
     nullable_string (get_prop v ''existingSpec'')"

definition is_vmstate_temp_mode_plan :: "json \<Rightarrow> bool" where
  "is_vmstate_temp_mode_plan v \<longleftrightarrow>
     object_like v \<and>
     (get_prop v ''action'' = Str ''skip'' \<or> get_prop v ''action'' = Str ''reuse'' \<or> get_prop v ''action'' = Str ''allocate'') \<and>
     nullable_string (get_prop v ''tempDir'')"

definition is_stats_file_mode_plan :: "json \<Rightarrow> bool" where
  "is_stats_file_mode_plan v \<longleftrightarrow>
     object_like v \<and>
     (get_prop v ''action'' = Str ''existing'' \<or> get_prop v ''action'' = Str ''allocate'') \<and>
     nullable_string (get_prop v ''existingPath'')"

definition optional_string :: "json \<Rightarrow> bool" where
  "optional_string v \<longleftrightarrow>
     v = Undefined \<or> is_str v"

definition nullable_object :: "json \<Rightarrow> (json \<Rightarrow> bool) \<Rightarrow> bool" where
  "nullable_object v check \<longleftrightarrow> v = Null \<or> check v"

definition is_string_record :: "json \<Rightarrow> bool" where
  "is_string_record v \<longleftrightarrow>
     (case v of Obj fs \<Rightarrow> list_all (\<lambda>m. is_str (snd m)) fs | _ \<Rightarrow> False)"

definition is_provision_image_config_plan :: "json \<Rightarrow> bool" where
  "is_provision_image_config_plan v \<longleftrightarrow>
     v = Null \<or>
     object_like v \<and>
     (get_prop v ''cmd'' = Undefined \<or> is_string_array (get_prop v ''cmd'')) \<and>
     (get_prop v ''env'' = Undefined \<or> is_string_record (get_prop v ''env'')) \<and>
     (get_prop v ''cmd'' \<noteq> Undefined \<or> get_prop v ''env'' \<noteq> Undefined)"

definition is_config_live_mount :: "json \<Rightarrow> bool" where
  "is_config_live_mount v \<longleftrightarrow>
     object_like v \<and>
     is_str (get_prop v ''guest'') \<and>
     is_str (get_prop v ''tag'') \<and>
     (get_prop v ''mode'' = Str ''ro'' \<or> get_prop v ''mode'' = Str ''rw'')"

definition is_machinen_config_plan :: "json \<Rightarrow> bool" where
  "is_machinen_config_plan v \<longleftrightarrow>
     object_like v \<and>
     is_string_array (get_prop v ''cmd'') \<and>
     is_string_record (get_prop v ''env'') \<and>
     (get_prop v ''cwd'' = Undefined \<or> is_str (get_prop v ''cwd'')) \<and>
     (get_prop v ''liveMounts'' = Undefined \<or> is_array_of is_config_live_mount (get_prop v ''liveMounts''))"

definition non_negative_number :: "json \<Rightarrow> bool" where
  "non_negative_number v \<longleftrightarrow>
     (case v of
        Num n \<Rightarrow> 0 \<le> n
      | Fraction s \<Rightarrow> is_finite_text s \<and> \<not> starts_with s ''-''
      | _ \<Rightarrow> False)"

definition is_cpu_policy_plan :: "json \<Rightarrow> bool" where
  "is_cpu_policy_plan v \<longleftrightarrow>
     object_like v \<and>
     non_negative_number (get_prop v ''maxVcpus'') \<and>
     (get_prop v ''quotaCpus'' = Undefined \<or> non_negative_number (get_prop v ''quotaCpus'')) \<and>
     non_negative_number (get_prop v ''weight'')"

definition nullable_cpu_policy :: "json \<Rightarrow> bool" where
  "nullable_cpu_policy v \<longleftrightarrow>
     v = Null \<or> is_cpu_policy_plan v"

definition is_provision_runtime_plan :: "json \<Rightarrow> bool" where
  "is_provision_runtime_plan v \<longleftrightarrow>
     object_like v \<and>
     non_negative_number (get_prop v ''scratchSizeBytes'') \<and>
     non_negative_number (get_prop v ''deadlineMs'') \<and>
     nullable_string (get_prop v ''diskPath'') \<and>
     nullable_string (get_prop v ''rootDiskPath'') \<and>
     nullable_string (get_prop v ''udsPath'')"

definition is_port_forward_probe_plan :: "json \<Rightarrow> bool" where
  "is_port_forward_probe_plan v \<longleftrightarrow>
     object_like v \<and>
     non_negative_number (get_prop v ''hostPort'') \<and>
     is_str (get_prop v ''probeHost'')"

definition is_planned_port_forward :: "json \<Rightarrow> bool" where
  "is_planned_port_forward v \<longleftrightarrow>
     object_like v \<and>
     non_negative_number (get_prop v ''hostPort'') \<and>
     non_negative_number (get_prop v ''guestPort'') \<and>
     optional_string (get_prop v ''hostAddr'')"

definition is_registry_port_forward_array :: "json \<Rightarrow> bool" where
  "is_registry_port_forward_array v \<longleftrightarrow>
     is_array_of is_planned_port_forward v"

definition is_registry_cpu_plan :: "json \<Rightarrow> bool" where
  "is_registry_cpu_plan v \<longleftrightarrow>
     object_like v \<and>
     non_negative_number (get_prop v ''maxVcpus'') \<and>
     (get_prop v ''quotaCpus'' = Undefined \<or> non_negative_number (get_prop v ''quotaCpus'')) \<and>
     non_negative_number (get_prop v ''weight'') \<and>
     is_registry_cpu_enforcement (get_prop v ''enforcement'')"

definition nullable_registry_cpu :: "json \<Rightarrow> bool" where
  "nullable_registry_cpu v \<longleftrightarrow>
     v = Null \<or> is_registry_cpu_plan v"

definition is_snapshot_vmstate_chain :: "json \<Rightarrow> bool" where
  "is_snapshot_vmstate_chain v \<longleftrightarrow>
     object_like v \<and>
     is_str (get_prop v ''chainId'') \<and>
     nullable_string (get_prop v ''parentDir'') \<and>
     non_negative_number (get_prop v ''sequence'')"

definition is_snapshot_context_plan :: "json \<Rightarrow> bool" where
  "is_snapshot_context_plan v \<longleftrightarrow>
     object_like v \<and>
     (get_prop v ''mountDisk'' = Null \<or> is_snapshot_mount_disk (get_prop v ''mountDisk'')) \<and>
     is_array_of is_snapshot_live_mount (get_prop v ''liveMounts'') \<and>
     (get_prop v ''vmstateChain'' = Null \<or> is_snapshot_vmstate_chain (get_prop v ''vmstateChain''))"

definition nullable_non_negative_number :: "json \<Rightarrow> bool" where
  "nullable_non_negative_number v \<longleftrightarrow>
     v = Null \<or> non_negative_number v"

definition is_provision_boot_plan :: "json \<Rightarrow> bool" where
  "is_provision_boot_plan v \<longleftrightarrow>
     object_like v \<and>
     nullable_string (get_prop v ''imagePath'') \<and>
     nullable_string (get_prop v ''kernelPath'') \<and>
     nullable_string (get_prop v ''dtbPath'') \<and>
     nullable_string (get_prop v ''vmmVsock'') \<and>
     nullable_non_negative_number (get_prop v ''timeoutMs'') \<and>
     is_string_record (get_prop v ''vmmEnv'') \<and>
     is_string_array (get_prop v ''cmd'') \<and>
     is_string_record (get_prop v ''env'') \<and>
     nullable_string (get_prop v ''snapshotPath'') \<and>
     nullable_string (get_prop v ''rootDiskPath'')"

definition is_mount_disk_runtime_plan :: "json \<Rightarrow> bool" where
  "is_mount_disk_runtime_plan v \<longleftrightarrow>
     object_like v \<and>
     is_one_of (get_prop v ''action'') [''none'', ''restore'', ''fresh''] \<and>
     nullable_string (get_prop v ''lowerPath'') \<and>
     nullable_string (get_prop v ''upperPath'') \<and>
     nullable_string (get_prop v ''sourceUpperPath'') \<and>
     nullable_string (get_prop v ''guest'') \<and>
     nullable_non_negative_number (get_prop v ''upperSizeBytes'')"

definition is_vmstate_plan_shape :: "json \<Rightarrow> bool" where
  "is_vmstate_plan_shape v \<longleftrightarrow>
     nullable_string (get_prop v ''statePath'') \<and>
     nullable_string (get_prop v ''chainId'') \<and>
     nullable_string (get_prop v ''checkpointParent'') \<and>
     nullable_non_negative_number (get_prop v ''checkpointSequence'')"

definition is_boot_vmstate_runtime_plan :: "json \<Rightarrow> bool" where
  "is_boot_vmstate_runtime_plan v \<longleftrightarrow>
     object_like v \<and> is_vmstate_plan_shape v"

definition is_registry_vmstate_plan :: "json \<Rightarrow> bool" where
  "is_registry_vmstate_plan v \<longleftrightarrow>
     object_like v \<and> is_vmstate_plan_shape v"

text \<open>The elements of the array are all evaluated, so \<open>every\<close> is called on a value that is no array, unless it is
  \<open>undefined\<close> or \<open>null\<close>: \<open>None\<close> is the \<open>TypeError\<close> of this call.\<close>

definition every_live_mount :: "json \<Rightarrow> bool option" where
  "every_live_mount v =
     (case v of
        Undefined \<Rightarrow> Some False
      | Null \<Rightarrow> Some False
      | Arr vs \<Rightarrow> Some (list_all is_registry_live_mount vs)
      | _ \<Rightarrow> None)"

definition is_registry_shape_plan :: "json \<Rightarrow> bool option" where
  "is_registry_shape_plan v =
     (if \<not> object_like v then Some False
      else
        map_option (\<lambda>mounts_ok.
          nullable_string (get_prop v ''sourceImagePath'') \<and>
          nullable_string (get_prop v ''diskPath'') \<and>
          nullable_string (get_prop v ''forkedFrom'') \<and>
          nullable_non_negative_number (get_prop v ''memoryCeilingMib'') \<and>
          nullable_string (get_prop v ''statsPath'') \<and>
          nullable_string (get_prop v ''rootDiskPath'') \<and>
          nullable_string (get_prop v ''bootLogPath'') \<and>
          is_one_of (get_prop v ''rootDiskMode'') [''block'', ''none''] \<and>
          is_string_array (get_prop v ''cleanupPaths'') \<and>
          nullable_registry_mount_disk (get_prop v ''mountDisk'') \<and>
          mounts_ok \<and>
          nullable_object (get_prop v ''portForward'') is_registry_port_forward_array \<and>
          nullable_registry_cpu (get_prop v ''cpu'') \<and>
          is_registry_vmstate_plan (get_prop v ''vmstate'') \<and>
          is_bool (get_prop v ''nested''))
        (every_live_mount (get_prop v ''liveMounts'')))"

definition is_native_boot_plan_result :: "json \<Rightarrow> bool option" where
  "is_native_boot_plan_result v =
     (if \<not> object_like v then Some False
      else
        map_option (\<lambda>shape_ok.
          nullable_non_negative_number (get_prop v ''memoryCeilingMib'') \<and>
          nullable_string (get_prop v ''vmmMemory'') \<and>
          nullable_cpu_policy (get_prop v ''cpuPolicy'') \<and>
          is_bool (get_prop v ''wantsRootDisk'') \<and>
          is_one_of (get_prop v ''rootDiskMode'') [''unset'', ''false'', ''path'', ''true''] \<and>
          is_bool (get_prop v ''needsInitramfs'') \<and>
          nullable_non_negative_number (get_prop v ''timeoutMs'') \<and>
          non_negative_number (get_prop v ''detachedReadinessTimeoutMs'') \<and>
          nullable_string (get_prop v ''normalizedMountGuest'') \<and>
          nullable_string (get_prop v ''guestHostname'') \<and>
          nullable_string (get_prop v ''guestHostnameSet'') \<and>
          is_string_record (get_prop v ''mergedGuestEnv'') \<and>
          is_string_record (get_prop v ''vmmEnv'') \<and>
          is_vsock_mode_plan (get_prop v ''vsockMode'') \<and>
          nullable_string (get_prop v ''vsockUdsPath'') \<and>
          nullable_string (get_prop v ''vmmVsock'') \<and>
          is_gvproxy_plan (get_prop v ''gvproxyPlan'') \<and>
          nullable_string (get_prop v ''vmmCommand'') \<and>
          is_string_array (get_prop v ''vmmArgs'') \<and>
          is_bool (get_prop v ''usePdeathsig'') \<and>
          nullable_string (get_prop v ''vmmKernel'') \<and>
          nullable_string (get_prop v ''vmmDtb'') \<and>
          nullable_string (get_prop v ''vmmInitrd'') \<and>
          nullable_string (get_prop v ''vmmSnapshotPath'') \<and>
          nullable_string (get_prop v ''vmmRestorePath'') \<and>
          nullable_string (get_prop v ''vmmVmstateTiming'') \<and>
          is_vmstate_temp_mode_plan (get_prop v ''vmstateTempMode'') \<and>
          nullable_string (get_prop v ''vmmNested'') \<and>
          is_string_record (get_prop v ''virtiofsEnv'') \<and>
          is_bool (get_prop v ''batchLiveMountSyncRequired'') \<and>
          is_array_of is_restore_live_mount (get_prop v ''restoreLiveMounts'') \<and>
          is_array_of is_planned_live_mount (get_prop v ''plannedLiveMounts'') \<and>
          is_stats_file_mode_plan (get_prop v ''statsFileMode'') \<and>
          nullable_string (get_prop v ''statsFilePath'') \<and>
          nullable_string (get_prop v ''vmmStatsFile'') \<and>
          is_boot_vmstate_runtime_plan (get_prop v ''vmstateRuntime'') \<and>
          is_array_of is_planned_port_forward (get_prop v ''plannedPortForward'') \<and>
          is_array_of is_port_forward_probe_plan (get_prop v ''portForwardProbe'') \<and>
          is_machinen_config_plan (get_prop v ''machinenConfig'') \<and>
          is_string_array (get_prop v ''bundleCommand'') \<and>
          is_string_record (get_prop v ''bundleEnv'') \<and>
          is_bundle_workspace_plan (get_prop v ''bundleWorkspace'') \<and>
          is_bundle_config_paths_plan (get_prop v ''bundleConfigPaths'') \<and>
          is_bundle_pack_plan (get_prop v ''bundlePack'') \<and>
          is_provision_assets_plan (get_prop v ''provisionAssets'') \<and>
          is_provision_dtb_plan (get_prop v ''provisionDtb'') \<and>
          is_provision_cli_cache_plan (get_prop v ''provisionCliCache'') \<and>
          is_provision_asset_lookup_plan (get_prop v ''provisionAssetLookup'') \<and>
          is_provision_boot_plan (get_prop v ''provisionBoot'') \<and>
          is_provision_workload_plan (get_prop v ''provisionWorkload'') \<and>
          is_provision_repack_plan (get_prop v ''provisionRepack'') \<and>
          is_provision_image_config_plan (get_prop v ''provisionImageConfig'') \<and>
          is_provision_runtime_plan (get_prop v ''provisionRuntime'') \<and>
          is_one_of (get_prop v ''plannedScratchMode'') [''unset'', ''false'', ''path'', ''auto''] \<and>
          is_scratch_disk_plan (get_prop v ''scratchDisk'') \<and>
          is_root_disk_runtime_plan (get_prop v ''rootDiskRuntime'') \<and>
          is_mount_disk_runtime_plan (get_prop v ''mountDiskRuntime'') \<and>
          is_string_record (get_prop v ''mountDiskFdEnv'') \<and>
          is_snapshot_context_plan (get_prop v ''snapshotContext'') \<and>
          shape_ok \<and>
          is_registry_lifecycle_plan (get_prop v ''registryLifecycle'') \<and>
          is_registry_process_plan (get_prop v ''registryProcess''))
        (is_registry_shape_plan (get_prop v ''registryShape'')))"

section \<open>The meaning of the types\<close>

text \<open>A strict reading has only numbers that are finite and not negative.\<close>

fun inhabits :: "bool \<Rightarrow> ts_type \<Rightarrow> json \<Rightarrow> bool" where
  "inhabits strict T_null v \<longleftrightarrow> v = Null"
| "inhabits strict T_string v \<longleftrightarrow> is_str v"
| "inhabits strict T_number v \<longleftrightarrow> (if strict then non_negative_number v else is_number v)"
| "inhabits strict T_boolean v \<longleftrightarrow> is_bool v"
| "inhabits strict T_unknown v \<longleftrightarrow> True"
| "inhabits strict (T_literal ls) v \<longleftrightarrow> (\<exists>l \<in> set ls. v = Str l)"
| "inhabits strict (T_array t) v \<longleftrightarrow> (case v of Arr vs \<Rightarrow> list_all (inhabits strict t) vs | _ \<Rightarrow> False)"
| "inhabits strict (T_record t) v \<longleftrightarrow> (case v of Obj fs \<Rightarrow> list_all (\<lambda>m. inhabits strict t (snd m)) fs | _ \<Rightarrow> False)"
| "inhabits strict (T_object ms) v \<longleftrightarrow>
     object_like v \<and>
     list_all (\<lambda>m. fst (snd m) \<and> get_prop v (fst m) = Undefined \<or> inhabits strict (snd (snd m)) (get_prop v (fst m))) ms"
| "inhabits strict (T_union ts) v \<longleftrightarrow> list_ex (\<lambda>t. inhabits strict t v) ts"
| "inhabits strict (T_intersection ts) v \<longleftrightarrow> list_all (\<lambda>t. inhabits strict t v) ts"

end
