(* ===== verification/Boot_Plan_Types.thy ===== *)
theory Boot_Plan_Types
  imports Boot_Plan_Schema
begin

text \<open>
  The type guards of the plans accept exactly the values of the declared types whose numbers are finite and
  not negative - with the one exception of the image configuration, which must have a member.
\<close>

named_theorems guard_types "the type that a guard checks"

section \<open>Readings of a type\<close>

lemma is_number_of_guard: "non_negative_number v \<Longrightarrow> is_number v"
  by (cases v) (simp_all add: non_negative_number_def is_number_def)

lemma strict_inhabits: "inhabits strict t v \<Longrightarrow> inhabits False t v"
proof (induction strict t v rule: inhabits.induct)
  case (3 strict v)
  then show ?case by (cases strict) (simp_all add: is_number_of_guard)
next
  case (7 strict t v)
  then show ?case by (cases v) (auto simp: list_all_iff)
next
  case (8 strict t v)
  then show ?case by (cases v) (auto simp: list_all_iff)
next
  case (9 strict ms v)
  then show ?case by (fastforce simp: list_all_iff)
qed (auto simp: list_all_iff list_ex_iff)

section \<open>Guards of single values\<close>

lemma basic_guards [guard_types]:
  "nullable_string v \<longleftrightarrow> v = Null \<or> is_str v"
  "optional_string v \<longleftrightarrow> v = Undefined \<or> is_str v"
  "nullable_non_negative_number v \<longleftrightarrow> v = Null \<or> non_negative_number v"
  "is_string_array v \<longleftrightarrow> is_array_of is_str v"
  "is_one_of v ls \<longleftrightarrow> (\<exists>l \<in> set ls. v = Str l)"
  by (cases v; auto simp: nullable_string_def optional_string_def nullable_non_negative_number_def is_string_array_def is_one_of_def)+

lemma array_type [guard_types]:
  "(case v of Arr vs \<Rightarrow> list_all (inhabits strict t) vs | _ \<Rightarrow> False) \<longleftrightarrow> is_array_of (inhabits strict t) v"
  by (simp add: is_array_of_def)

lemma str_array_type [guard_types]: "is_array_of (inhabits strict T_string) v \<longleftrightarrow> is_array_of is_str v"
  by (simp add: is_array_of_def list_all_iff split: json.split)

lemma record_type [guard_types]:
  "(case v of Obj fs \<Rightarrow> list_all (\<lambda>m. inhabits strict T_string (snd m)) fs | _ \<Rightarrow> False) \<longleftrightarrow> is_string_record v"
  by (simp add: is_string_record_def list_all_iff split: json.split)

lemma array_guard: "(\<And>x. check x \<longleftrightarrow> inhabits strict t x) \<Longrightarrow> is_array_of check v \<longleftrightarrow> is_array_of (inhabits strict t) v"
  by (simp add: is_array_of_def list_all_iff split: json.split)

lemmas literal_types [guard_types] = ScratchDiskAction_def RootDiskRuntimeAction_def MountDiskRuntimeAction_def
  GvproxyAction_def ProvisionGuestCpu_def BootRootDiskMode_def BootScratchMode_def RegistryPortForwardPlan_def

lemmas shape_guards [guard_types] = is_vmstate_plan_shape_def nullable_cpu_policy_def nullable_registry_cpu_def
  nullable_registry_mount_disk_def nullable_object_def is_registry_cpu_enforcement_def is_snapshot_mount_disk_def
  is_snapshot_live_mount_def is_snapshot_vmstate_chain_def is_registry_port_forward_array_def

lemma disj_null: "P \<or> v = Null \<longleftrightarrow> v = Null \<or> P"
  by blast

declare disj_null [guard_types]

section \<open>Guards of plans\<close>

lemma snapshot_mounts_type [guard_types]:
  "is_array_of is_snapshot_live_mount v \<longleftrightarrow>
     is_array_of (inhabits True (T_object
       [required ''host'' T_string, required ''guest'' T_string, required ''mode'' (T_literal [''ro'', ''rw''])])) v"
  by (rule array_guard) (simp add: guard_types)

lemma is_bundle_workspace_plan_type [guard_types]: "is_bundle_workspace_plan v \<longleftrightarrow> inhabits True BundleWorkspacePlan v"
  by (simp add: is_bundle_workspace_plan_def BundleWorkspacePlan_def guard_types)

lemma is_bundle_config_paths_plan_type [guard_types]: "is_bundle_config_paths_plan v \<longleftrightarrow> inhabits True BundleConfigPathsPlan v"
  by (simp add: is_bundle_config_paths_plan_def BundleConfigPathsPlan_def guard_types)

lemma is_cpu_policy_plan_type [guard_types]: "is_cpu_policy_plan v \<longleftrightarrow> inhabits True CpuPolicyPlan v"
  by (simp add: is_cpu_policy_plan_def CpuPolicyPlan_def guard_types)

lemma is_bundle_pack_plan_type [guard_types]: "is_bundle_pack_plan v \<longleftrightarrow> inhabits True BundlePackPlan v"
  by (simp add: is_bundle_pack_plan_def BundlePackPlan_def guard_types)

lemma is_provision_assets_plan_type [guard_types]: "is_provision_assets_plan v \<longleftrightarrow> inhabits True ProvisionAssetsPlan v"
  by (simp add: is_provision_assets_plan_def ProvisionAssetsPlan_def guard_types)

lemma is_provision_dtb_plan_type [guard_types]: "is_provision_dtb_plan v \<longleftrightarrow> inhabits True ProvisionDtbPlan v"
  by (simp add: is_provision_dtb_plan_def ProvisionDtbPlan_def guard_types)

lemma is_provision_cli_cache_plan_type [guard_types]: "is_provision_cli_cache_plan v \<longleftrightarrow> inhabits True ProvisionCliCachePlan v"
  by (simp add: is_provision_cli_cache_plan_def ProvisionCliCachePlan_def guard_types)

lemma is_provision_asset_lookup_plan_type [guard_types]: "is_provision_asset_lookup_plan v \<longleftrightarrow> inhabits True ProvisionAssetLookupPlan v"
  by (simp add: is_provision_asset_lookup_plan_def ProvisionAssetLookupPlan_def guard_types)

lemma is_provision_boot_plan_type [guard_types]: "is_provision_boot_plan v \<longleftrightarrow> inhabits True ProvisionBootPlan v"
  by (simp add: is_provision_boot_plan_def ProvisionBootPlan_def guard_types)

lemma is_provision_workload_plan_type [guard_types]: "is_provision_workload_plan v \<longleftrightarrow> inhabits True ProvisionWorkloadPlan v"
  by (simp add: is_provision_workload_plan_def ProvisionWorkloadPlan_def guard_types)

lemma is_provision_repack_plan_type [guard_types]: "is_provision_repack_plan v \<longleftrightarrow> inhabits True ProvisionRepackPlan v"
  by (simp add: is_provision_repack_plan_def ProvisionRepackPlan_def guard_types)

lemma is_provision_runtime_plan_type [guard_types]: "is_provision_runtime_plan v \<longleftrightarrow> inhabits True ProvisionRuntimePlan v"
  by (simp add: is_provision_runtime_plan_def ProvisionRuntimePlan_def guard_types)

lemma is_scratch_disk_plan_type [guard_types]: "is_scratch_disk_plan v \<longleftrightarrow> inhabits True ScratchDiskPlan v"
  by (simp add: is_scratch_disk_plan_def ScratchDiskPlan_def guard_types)

lemma is_root_disk_runtime_plan_type [guard_types]: "is_root_disk_runtime_plan v \<longleftrightarrow> inhabits True RootDiskRuntimePlan v"
  by (simp add: is_root_disk_runtime_plan_def RootDiskRuntimePlan_def guard_types)

lemma is_mount_disk_runtime_plan_type [guard_types]: "is_mount_disk_runtime_plan v \<longleftrightarrow> inhabits True MountDiskRuntimePlan v"
  by (simp add: is_mount_disk_runtime_plan_def MountDiskRuntimePlan_def guard_types)

lemma is_registry_lifecycle_plan_type [guard_types]: "is_registry_lifecycle_plan v \<longleftrightarrow> inhabits True RegistryLifecyclePlan v"
  by (simp add: is_registry_lifecycle_plan_def RegistryLifecyclePlan_def guard_types)

lemma is_registry_process_plan_type [guard_types]: "is_registry_process_plan v \<longleftrightarrow> inhabits True RegistryProcessPlan v"
  by (simp add: is_registry_process_plan_def RegistryProcessPlan_def guard_types)

lemma is_boot_vmstate_runtime_plan_type [guard_types]: "is_boot_vmstate_runtime_plan v \<longleftrightarrow> inhabits True BootVmstateRuntimePlan v"
  by (simp add: is_boot_vmstate_runtime_plan_def BootVmstateRuntimePlan_def guard_types)

lemma is_port_forward_probe_plan_type [guard_types]: "is_port_forward_probe_plan v \<longleftrightarrow> inhabits True PortForwardProbePlan v"
  by (simp add: is_port_forward_probe_plan_def PortForwardProbePlan_def guard_types)

lemma is_planned_port_forward_type [guard_types]: "is_planned_port_forward v \<longleftrightarrow> inhabits True PlannedPortForward v"
  by (simp add: is_planned_port_forward_def PlannedPortForward_def guard_types)

lemma is_registry_vmstate_plan_type [guard_types]: "is_registry_vmstate_plan v \<longleftrightarrow> inhabits True RegistryVmstatePlan v"
  by (simp add: is_registry_vmstate_plan_def RegistryVmstatePlan_def guard_types)

lemma is_registry_cpu_plan_type [guard_types]: "is_registry_cpu_plan v \<longleftrightarrow> inhabits True RegistryCpuPlan v"
  by (simp add: is_registry_cpu_plan_def RegistryCpuPlan_def guard_types)

lemma is_registry_mount_disk_type [guard_types]: "is_registry_mount_disk v \<longleftrightarrow> inhabits True RegistryMountDiskPlan v"
  by (simp add: is_registry_mount_disk_def RegistryMountDiskPlan_def guard_types)

lemma is_registry_live_mount_type [guard_types]: "is_registry_live_mount v \<longleftrightarrow> inhabits True RegistryLiveMountPlan v"
  by (simp add: is_registry_live_mount_def RegistryLiveMountPlan_def guard_types)

lemma is_snapshot_context_plan_type [guard_types]: "is_snapshot_context_plan v \<longleftrightarrow> inhabits True SnapshotContextPlan v"
  by (simp add: is_snapshot_context_plan_def SnapshotContextPlan_def guard_types)

lemma is_gvproxy_plan_type [guard_types]: "is_gvproxy_plan v \<longleftrightarrow> inhabits True GvproxyPlan v"
  by (simp add: is_gvproxy_plan_def GvproxyPlan_def guard_types)

lemma is_restore_live_mount_type [guard_types]: "is_restore_live_mount v \<longleftrightarrow> inhabits True RestoreLiveMount v"
  by (simp add: is_restore_live_mount_def RestoreLiveMount_def guard_types)

lemma is_planned_live_mount_type [guard_types]: "is_planned_live_mount v \<longleftrightarrow> inhabits True PlannedLiveMount v"
  by (simp add: is_planned_live_mount_def PlannedLiveMount_def guard_types)

lemma is_vsock_mode_plan_type [guard_types]: "is_vsock_mode_plan v \<longleftrightarrow> inhabits True VsockModePlan v"
  by (simp add: is_vsock_mode_plan_def VsockModePlan_def guard_types)

lemma is_vmstate_temp_mode_plan_type [guard_types]: "is_vmstate_temp_mode_plan v \<longleftrightarrow> inhabits True VmstateTempModePlan v"
  by (simp add: is_vmstate_temp_mode_plan_def VmstateTempModePlan_def guard_types)

lemma is_stats_file_mode_plan_type [guard_types]: "is_stats_file_mode_plan v \<longleftrightarrow> inhabits True StatsFileModePlan v"
  by (simp add: is_stats_file_mode_plan_def StatsFileModePlan_def guard_types)


text \<open>The guard of an image configuration asks for one of the two members that the type has.\<close>

definition image_config_filled :: "json \<Rightarrow> bool" where
  "image_config_filled v \<longleftrightarrow> v = Null \<or> get_prop v ''cmd'' \<noteq> Undefined \<or> get_prop v ''env'' \<noteq> Undefined"

lemma is_provision_image_config_plan_type [guard_types]:
  "is_provision_image_config_plan v \<longleftrightarrow> inhabits True ProvisionImageConfigPlan v \<and> image_config_filled v"
  by (auto simp: is_provision_image_config_plan_def ProvisionImageConfigPlan_def image_config_filled_def guard_types)

lemma config_mounts_type [guard_types]:
  "is_array_of is_config_live_mount v \<longleftrightarrow>
     is_array_of (inhabits True (T_object
       [required ''guest'' T_string, required ''tag'' T_string, required ''mode'' (T_literal [''ro'', ''rw''])])) v"
  by (rule array_guard) (simp add: is_config_live_mount_def guard_types)

lemma is_machinen_config_plan_type [guard_types]: "is_machinen_config_plan v \<longleftrightarrow> inhabits True MachinenConfigPlan v"
proof -
  have "inhabits True (T_record T_unknown) v" if "object_like v" "is_array_of is_str (get_prop v ''cmd'')"
    using that by (cases v) (auto simp: get_prop_def is_array_of_def list_all_iff)
  moreover have "inhabits True (T_record T_string) u \<longleftrightarrow> is_string_record u" for u
    by (simp add: guard_types)
  ultimately show ?thesis
    by (auto simp: is_machinen_config_plan_def MachinenConfigPlan_def guard_types simp del: inhabits.simps(8))
qed

lemma array_of_guards [guard_types]:
  "is_array_of is_planned_port_forward v \<longleftrightarrow> is_array_of (inhabits True PlannedPortForward) v"
  "is_array_of is_port_forward_probe_plan v \<longleftrightarrow> is_array_of (inhabits True PortForwardProbePlan) v"
  "is_array_of is_restore_live_mount v \<longleftrightarrow> is_array_of (inhabits True RestoreLiveMount) v"
  "is_array_of is_planned_live_mount v \<longleftrightarrow> is_array_of (inhabits True PlannedLiveMount) v"
  by (rule array_guard; simp add: guard_types)+

lemma every_live_mount_type:
  "every_live_mount v = Some True \<longleftrightarrow> is_array_of (inhabits True RegistryLiveMountPlan) v"
  by (simp add: every_live_mount_def is_array_of_def list_all_iff is_registry_live_mount_type split: json.split)

lemma map_option_True:
  "map_option f x = Some True \<longleftrightarrow> x = Some True \<and> f True \<or> x = Some False \<and> f False"
  by (cases x; cases "the x") auto

lemma is_registry_shape_plan_type:
  "is_registry_shape_plan v = Some True \<longleftrightarrow> inhabits True RegistryShapePlan v"
  by (cases "object_like v")
    (simp_all add: is_registry_shape_plan_def map_option_True every_live_mount_type RegistryShapePlan_def guard_types conj_ac del: map_option_eq_Some)

text \<open>The type guard for the answer of the native planner accepts exactly the values of the declared type
  \<open>NativeBootPlanResult\<close> whose numbers are finite and not negative, further members allowed, except that an
  image configuration must not be empty. In particular the type assertion it makes is never wrong.\<close>

theorem boot_plan_guard_exact:
  "is_native_boot_plan_result v = Some True \<longleftrightarrow>
     inhabits True NativeBootPlanResult v \<and> image_config_filled (get_prop v ''provisionImageConfig'')"
  by (cases "object_like v")
    (simp_all add: is_native_boot_plan_result_def map_option_True is_registry_shape_plan_type NativeBootPlanResult_def guard_types conj_ac del: map_option_eq_Some)

lemma boot_plan_guard_sound: "is_native_boot_plan_result v = Some True \<Longrightarrow> inhabits False NativeBootPlanResult v"
  using boot_plan_guard_exact [of v] strict_inhabits by blast
end
