(* ===== verification/Boot_Plan.thy ===== *)
theory Boot_Plan
  imports Boot_Plan_Types
begin

text \<open>
  \<^verbatim>\<open>packages/runtime/src/native/boot-plan.ts\<close>: the request that the runtime sends to the native planner, and the
  functions that take their part out of the plan. An input is an object of JavaScript; a member that was not
  given is \<open>Undefined\<close>. The members of a request are those that \<^verbatim>\<open>native/src/commands/boot_plan.zig\<close> knows.
\<close>

type_synonym js_object = "(string \<times> json) list"

section \<open>The request\<close>

definition null_default :: "json \<Rightarrow> json" where
  "null_default v = (if v = Undefined then Null else v)"

text \<open>\<open>String\<close> of a number is its text in JSON.\<close>

definition number_text :: "json \<Rightarrow> json" where
  "number_text v = (if v = Undefined then Null else Str (json_text v))"

definition number_text_required :: "json \<Rightarrow> string" where
  "number_text_required v = json_text v"

definition resources_memory_data :: "json \<Rightarrow> json" where
  "resources_memory_data v =
     (if \<not> object_like v then Null
      else Obj [(''maxMib'', Str (number_text_required (get_prop v ''maxMib''))), (''reclaim'', null_default (get_prop v ''reclaim''))])"

definition resources_cpu_data :: "json \<Rightarrow> json" where
  "resources_cpu_data v =
     (if \<not> object_like v then Null
      else Obj [(''maxVcpus'', number_text (get_prop v ''maxVcpus'')), (''quotaCpus'', number_text (get_prop v ''quotaCpus'')),
                (''weight'', number_text (get_prop v ''weight''))])"

definition live_mounts_data :: "json \<Rightarrow> json" where
  "live_mounts_data v =
     Arr (map (\<lambda>mount. Obj [(''host'', get_prop mount ''host''), (''guest'', get_prop mount ''guest''),
          (''mode'', coalesce (get_prop mount ''mode'') Null),
          (''unsafeGuestPath'', Bool (get_prop mount ''unsafeGuestPath'' = Bool True))])
        (case v of Arr vs \<Rightarrow> vs | _ \<Rightarrow> []))"

definition boot_timeout_data :: "js_object \<Rightarrow> js_object" where
  "boot_timeout_data input =
     [(''bootTimeoutMs'', if field input ''bootTimeoutMs'' = Null then Null else number_text (field input ''bootTimeoutMs'')),
      (''bootTimeoutForever'', Bool (field input ''bootTimeoutMs'' = Null))]"

definition bundle_command_data :: "js_object \<Rightarrow> js_object" where
  "bundle_command_data input =
     [(''bundleExplicitCmd'', coalesce (field input ''bundleExplicitCmd'') Null),
      (''bundleImageCmd'', coalesce (field input ''bundleImageCmd'') Null),
      (''bundleSnapshotRestore'', Bool (field input ''bundleSnapshotRestore'' = Bool True)),
      (''bundleVmstateRestore'', Bool (field input ''bundleVmstateRestore'' = Bool True)),
      (''bundleLiveMounts'', coalesce (field input ''bundleLiveMounts'') (Arr [])),
      (''bundleCommandRequired'', Bool (field input ''bundleCommandRequired'' = Bool True)),
      (''bundleImageEnv'', coalesce (field input ''bundleImageEnv'') (Obj [])),
      (''bundleGuestEnv'', coalesce (field input ''bundleGuestEnv'') (Obj [])),
      (''bundleWorkspaceTempDir'', null_default (field input ''bundleWorkspaceTempDir'')),
      (''bundleConfigSynthDir'', null_default (field input ''bundleConfigSynthDir''))]"

definition provision_data :: "js_object \<Rightarrow> js_object" where
  "provision_data input =
     [(''provisionGuestCpu'', coalesce (field input ''provisionGuestCpu'') Null),
      (''provisionGuestArchOverride'', null_default (field input ''provisionGuestArchOverride'')),
      (''provisionHostArch'', null_default (field input ''provisionHostArch'')),
      (''provisionBasePath'', null_default (field input ''provisionBasePath'')),
      (''provisionKernelPath'', null_default (field input ''provisionKernelPath'')),
      (''provisionDtbPath'', null_default (field input ''provisionDtbPath'')),
      (''provisionUdsPath'', null_default (field input ''provisionUdsPath'')),
      (''provisionScratchDiskPath'', null_default (field input ''provisionScratchDiskPath'')),
      (''provisionRootDiskPath'', null_default (field input ''provisionRootDiskPath'')),
      (''provisionRepackDiskPath'', null_default (field input ''provisionRepackDiskPath'')),
      (''provisionRepackOutPath'', null_default (field input ''provisionRepackOutPath'')),
      (''provisionRepackExtractDir'', null_default (field input ''provisionRepackExtractDir'')),
      (''provisionImageConfigHasCmd'', Bool (field input ''provisionImageConfigCmd'' \<noteq> Undefined)),
      (''provisionImageConfigCmd'', coalesce (field input ''provisionImageConfigCmd'') (Arr [])),
      (''provisionImageConfigHasEnv'', Bool (field input ''provisionImageConfigEnv'' \<noteq> Undefined)),
      (''provisionImageConfigEnv'', coalesce (field input ''provisionImageConfigEnv'') (Obj [])),
      (''provisionWorkDir'', null_default (field input ''provisionWorkDir'')),
      (''provisionScratchSizeBytes'', number_text (field input ''provisionScratchSizeBytes'')),
      (''provisionTimeoutMs'', number_text (field input ''provisionTimeoutMs''))]"

definition scratch_disk_data :: "js_object \<Rightarrow> js_object" where
  "scratch_disk_data input =
     [(''scratchMode'', coalesce (field input ''scratchMode'') Null),
      (''scratchSnapshotPath'', null_default (field input ''scratchSnapshotPath'')),
      (''scratchRestoreClonePath'', null_default (field input ''scratchRestoreClonePath'')),
      (''scratchAutoPath'', null_default (field input ''scratchAutoPath''))]"

definition root_disk_runtime_data :: "js_object \<Rightarrow> js_object" where
  "root_disk_runtime_data input =
     [(''rootDiskRuntimeMode'', coalesce (field input ''rootDiskRuntimeMode'') Null),
      (''rootDiskSourcePath'', null_default (field input ''rootDiskSourcePath'')),
      (''rootDiskClonePath'', null_default (field input ''rootDiskClonePath''))]"

definition mount_disk_runtime_data :: "js_object \<Rightarrow> js_object" where
  "mount_disk_runtime_data input =
     [(''mountDiskRuntimeMode'', coalesce (field input ''mountDiskRuntimeMode'') Null),
      (''mountDiskLowerPath'', null_default (field input ''mountDiskLowerPath'')),
      (''mountDiskUpperPath'', null_default (field input ''mountDiskUpperPath'')),
      (''mountDiskSourceUpperPath'', null_default (field input ''mountDiskSourceUpperPath'')),
      (''mountDiskGuest'', null_default (field input ''mountDiskGuest'')),
      (''mountDiskUpperSize'', number_text (field input ''mountDiskUpperSize'')),
      (''mountDiskLowerFd'', number_text (field input ''mountDiskLowerFd'')),
      (''mountDiskUpperFd'', number_text (field input ''mountDiskUpperFd''))]"

definition registry_shape_data :: "js_object \<Rightarrow> js_object" where
  "registry_shape_data input =
     [(''registrySourceImagePath'', null_default (field input ''registrySourceImagePath'')),
      (''registryDiskPath'', null_default (field input ''registryDiskPath'')),
      (''registryForkedFrom'', null_default (field input ''registryForkedFrom'')),
      (''registryMemoryCeilingMib'', number_text (field input ''registryMemoryCeilingMib'')),
      (''registryStatsPath'', null_default (field input ''registryStatsPath'')),
      (''registryPerBootRootDisk'', null_default (field input ''registryPerBootRootDisk'')),
      (''registryCallerRootDiskPath'', null_default (field input ''registryCallerRootDiskPath'')),
      (''registryBootLogRoot'', null_default (field input ''registryBootLogRoot'')),
      (''registryChildPid'', number_text (field input ''registryChildPid'')),
      (''registryDetached'', Bool (field input ''registryDetached'' = Bool True)),
      (''registryPerBootSnapDisk'', null_default (field input ''registryPerBootSnapDisk'')),
      (''registryPerBootMountUpper'', null_default (field input ''registryPerBootMountUpper'')),
      (''registryBundleTempDir'', null_default (field input ''registryBundleTempDir'')),
      (''registryVsockTempDir'', null_default (field input ''registryVsockTempDir'')),
      (''registryStatsTempDir'', null_default (field input ''registryStatsTempDir'')),
      (''registryGvSocketDir'', null_default (field input ''registryGvSocketDir'')),
      (''registryCpuCgroupPath'', null_default (field input ''registryCpuCgroupPath'')),
      (''registryCpuPolicyMaxVcpus'', number_text (get_prop (field input ''registryCpuPolicy'') ''maxVcpus'')),
      (''registryCpuPolicyQuotaCpus'', number_text (get_prop (field input ''registryCpuPolicy'') ''quotaCpus'')),
      (''registryCpuPolicyWeight'', number_text (get_prop (field input ''registryCpuPolicy'') ''weight'')),
      (''registryCpuControlStatus'', null_default (field input ''registryCpuControlStatus'')),
      (''registryCpuControlReason'', null_default (field input ''registryCpuControlReason'')),
      (''registryVmstatePath'', null_default (field input ''registryVmstatePath'')),
      (''registryVmstateChainId'', null_default (field input ''registryVmstateChainId'')),
      (''registryVmstateCheckpointParent'', null_default (field input ''registryVmstateCheckpointParent'')),
      (''registryVmstateCheckpointSequence'', number_text (field input ''registryVmstateCheckpointSequence'')),
      (''registryNested'', Bool (field input ''registryNested'' = Bool True)),
      (''registryMountGuest'', null_default (field input ''registryMountGuest'')),
      (''registryMountLowerPath'', null_default (field input ''registryMountLowerPath'')),
      (''registryMountUpperPath'', null_default (field input ''registryMountUpperPath''))]"

definition start_data :: "js_object \<Rightarrow> js_object" where
  "start_data input =
     [(''memoryMib'', number_text (field input ''memoryMib'')),
      (''resourcesMemory'', resources_memory_data (field input ''resourcesMemory'')),
      (''resourcesCpu'', resources_cpu_data (field input ''resourcesCpu'')),
      (''autoMemoryMib'', number_text (field input ''autoMemoryMib'')),
      (''hostTotalBytes'', number_text (field input ''hostTotalBytes'')),
      (''vmmMemoryPreset'', field input ''vmmMemoryPreset''),
      (''hasImage'', field input ''hasImage''),
      (''hasCmd'', field input ''hasCmd''),
      (''hasSnapshot'', Bool (field input ''hasSnapshot'' = Bool True)),
      (''rootDisk'', field input ''rootDisk''),
      (''guestCwd'', null_default (field input ''guestCwd'')),
      (''mountGuest'', null_default (field input ''mountGuest'')),
      (''mountUnsafeGuestPath'', Bool (field input ''mountUnsafeGuestPath'' = Bool True)),
      (''guestEnv'', coalesce (field input ''guestEnv'') (Obj [])),
      (''name'', null_default (field input ''name'')),
      (''vsockUdsPath'', null_default (field input ''vsockUdsPath'')),
      (''guestHostnamePid'', number_text (field input ''guestHostnamePid'')),
      (''guestHostnameName'', null_default (field input ''guestHostnameName'')),
      (''existingVsockSpec'', null_default (field input ''existingVsockSpec'')),
      (''autoVsockUdsPath'', null_default (field input ''autoVsockUdsPath'')),
      (''autoVsockTempDir'', null_default (field input ''autoVsockTempDir'')),
      (''portForward'', coalesce (field input ''portForward'') (Arr [])),
      (''vmmBinary'', null_default (field input ''vmmBinary'')),
      (''vmmArgs'', coalesce (field input ''vmmArgs'') (Arr [])),
      (''pdeathsigPath'', null_default (field input ''pdeathsigPath'')),
      (''pdeathsig'', coalesce (field input ''pdeathsig'') Null),
      (''detached'', Bool (field input ''detached'' = Bool True))]"

definition device_data :: "js_object \<Rightarrow> js_object" where
  "device_data input =
     [(''kernelPath'', null_default (field input ''kernelPath'')),
      (''dtbPath'', null_default (field input ''dtbPath'')),
      (''initrdPath'', null_default (field input ''initrdPath'')),
      (''vmstatePath'', null_default (field input ''vmstatePath'')),
      (''restorePath'', null_default (field input ''restorePath'')),
      (''enableVmstateTiming'', Bool (field input ''enableVmstateTiming'' = Bool True)),
      (''existingVmstateTiming'', null_default (field input ''existingVmstateTiming'')),
      (''bootVmstateStatePath'', null_default (field input ''bootVmstateStatePath'')),
      (''bootVmstateTempDir'', null_default (field input ''bootVmstateTempDir'')),
      (''bootVmstateChainId'', null_default (field input ''bootVmstateChainId'')),
      (''bootVmstateRestorePath'', null_default (field input ''bootVmstateRestorePath'')),
      (''bootVmstateForkedFrom'', null_default (field input ''bootVmstateForkedFrom'')),
      (''nested'', Bool (field input ''nested'' = Bool True)),
      (''liveMounts'', live_mounts_data (field input ''liveMounts'')),
      (''liveMountsResolved'', coalesce (field input ''liveMountsResolved'') (Arr [])),
      (''batchLiveMountValidationRequired'', Bool (field input ''batchLiveMountValidationRequired'' = Bool True)),
      (''existingStatsFile'', null_default (field input ''existingStatsFile'')),
      (''statsFilePath'', null_default (field input ''statsFilePath'')),
      (''statsFileTempDir'', null_default (field input ''statsFileTempDir'')),
      (''configCmd'', coalesce (field input ''configCmd'') (Arr [])),
      (''configEnv'', coalesce (field input ''configEnv'') (Obj [])),
      (''configGuestCwd'', null_default (field input ''configGuestCwd'')),
      (''configImageCwd'', null_default (field input ''configImageCwd'')),
      (''configLiveMounts'', coalesce (field input ''configLiveMounts'') (Arr []))]"

definition build_boot_plan_request_data :: "js_object \<Rightarrow> js_object" where
  "build_boot_plan_request_data input =
     start_data input @
     boot_timeout_data input @
     device_data input @
     bundle_command_data input @
     provision_data input @
     scratch_disk_data input @
     root_disk_runtime_data input @
     mount_disk_runtime_data input @
     registry_shape_data input"

text \<open>The members of a request that the helper knows; it rejects a request with any other.\<close>

definition start_fields :: "string list" where
  "start_fields =
    [''memoryMib'', ''resourcesMemory'', ''resourcesCpu'', ''autoMemoryMib'', ''hostTotalBytes'',
     ''vmmMemoryPreset'', ''hasImage'', ''hasCmd'', ''hasSnapshot'', ''rootDisk'', ''rootDiskOptionFalse'',
     ''rootDiskOptionTrue'', ''rootDiskOptionPath'', ''rootDiskRestorePath'', ''guestCwd'', ''mountGuest'',
     ''mountUnsafeGuestPath'', ''guestEnv'', ''vmmEnvBase'', ''vmmEnvOverrides'', ''name'', ''vsockUdsPath'',
     ''existingVsockSpec'', ''autoVsockUdsPath'', ''autoVsockTempDir'', ''portForward'',
     ''portForwardNetSocket'', ''gvproxyPlanningRequired'', ''gvproxyNetSocket'', ''gvproxyPath'',
     ''vmmBinary'', ''vmmArgs'', ''guestHostnamePid'', ''guestHostnameName'', ''guestHostnameSetPid'',
     ''guestHostnameSetName'', ''guestHostnameSetVsockUdsPath'', ''guestHostnameSetSkip'', ''pdeathsigPath'',
     ''pdeathsig'', ''detached'', ''bootTimeoutMs'', ''bootTimeoutForever'']"

definition device_fields :: "string list" where
  "device_fields =
    [''kernelPath'', ''dtbPath'', ''initrdPath'', ''vmstatePath'', ''restorePath'', ''enableVmstateTiming'',
     ''existingVmstateTiming'', ''bootVmstateEngine'', ''bootVmstateSnapshotDisabled'',
     ''bootVmstateExistingTempDir'', ''bootVmstateStatePath'', ''bootVmstateTempDir'', ''bootVmstateChainId'',
     ''bootVmstateRestorePath'', ''bootVmstateForkedFrom'', ''nested'', ''liveMounts'',
     ''liveMountRemovedOptionIndex'', ''liveMountRemovedOptionHasCache'', ''liveMountRemovedOptionHasSync'',
     ''liveMountsResolved'', ''batchLiveMountValidationRequired'', ''restoreLiveMountsRecorded'',
     ''restoreLiveMountsOverrides'', ''restoreImageExplicitPath'', ''restoreImageExplicitExists'',
     ''restoreImageMetaSourcePath'', ''restoreImageMetaSourceExists'', ''existingStatsFile'',
     ''statsFilePath'', ''statsFileTempDir'', ''statsFileVsockTempDir'', ''configCmd'', ''configEnv'',
     ''configGuestCwd'', ''configImageCwd'', ''configLiveMounts'']"

definition bundle_fields :: "string list" where
  "bundle_fields =
    [''bundleExplicitCmd'', ''bundleImageCmd'', ''bundleSnapshotRestore'', ''bundleVmstateRestore'',
     ''bundleLiveMounts'', ''bundleCommandRequired'', ''bundleImageEnv'', ''bundleGuestEnv'',
     ''bundleWorkspaceTempDir'', ''bundleConfigSynthDir'', ''bundlePackUseTiny'', ''bundlePackMountGuest'',
     ''bundlePackRestoreMountGuest'']"

definition provision_fields :: "string list" where
  "provision_fields =
    [''provisionGuestCpu'', ''provisionGuestArchOverride'', ''provisionHostArch'', ''provisionDtbExplicit'',
     ''provisionCliCacheHome'', ''provisionCliCacheVersion'', ''provisionAssetExplicitPath'',
     ''provisionAssetExplicitExists'', ''provisionAssetAssetsDirPath'', ''provisionAssetAssetsDirExists'',
     ''provisionAssetCachePath'', ''provisionAssetCacheExists'', ''provisionBasePath'',
     ''provisionKernelPath'', ''provisionDtbPath'', ''provisionUdsPath'', ''provisionScratchDiskPath'',
     ''provisionRootDiskPath'', ''provisionBootVmmEnv'', ''provisionRepackDiskPath'',
     ''provisionRepackOutPath'', ''provisionRepackExtractDir'', ''provisionImageConfigHasCmd'',
     ''provisionImageConfigCmd'', ''provisionImageConfigHasEnv'', ''provisionImageConfigEnv'',
     ''provisionWorkDir'', ''provisionScratchSizeBytes'', ''provisionTimeoutMs'', ''provisionResultImagePath'',
     ''provisionResultSizeBytes'', ''provisionResultElapsedMs'', ''scratchOptionFalse'', ''scratchOptionPath'',
     ''scratchTempKind'', ''scratchTempDir'', ''scratchTempPid'', ''scratchTempNonce'']"

definition disk_fields :: "string list" where
  "disk_fields =
    [''scratchMode'', ''scratchSnapshotPath'', ''scratchRestoreClonePath'', ''scratchAutoPath'',
     ''rootDiskRuntimeMode'', ''rootDiskSourcePath'', ''rootDiskClonePath'', ''rootDiskTempKind'',
     ''rootDiskTempDir'', ''rootDiskTempPid'', ''rootDiskTempNonce'', ''rootDiskMaterializeRestorePath'',
     ''rootDiskMaterializeCallerPath'', ''mountDiskUpperSizeOption'', ''mountDiskTempKind'',
     ''mountDiskTempDir'', ''mountDiskTempPid'', ''mountDiskTempNonce'', ''mountDiskRuntimeMode'',
     ''mountDiskLowerPath'', ''mountDiskUpperPath'', ''mountDiskSourceUpperPath'', ''mountDiskGuest'',
     ''mountDiskUpperSize'', ''mountDiskLowerFd'', ''mountDiskUpperFd'', ''snapshotMountGuest'',
     ''snapshotMountLowerPath'', ''snapshotMountUpperPath'', ''snapshotLiveMounts'', ''snapshotVmstatePath'',
     ''snapshotVmstateChainId'', ''snapshotVmstateCheckpointParent'', ''snapshotVmstateCheckpointSequence'',
     ''snapshotBackingEngine'', ''snapshotBackingAction'', ''snapshotBackingDiskPath'',
     ''snapshotBackingVmstatePath'']"

definition registry_fields :: "string list" where
  "registry_fields =
    [''registrySourceImagePath'', ''registryPerBootRootDisk'', ''registryCallerRootDiskPath'',
     ''registryDiskPath'', ''registryForkedFrom'', ''registryMemoryCeilingMib'', ''registryStatsPath'',
     ''registryBootLogRoot'', ''registryChildPid'', ''registryDetached'', ''registryLifecycleName'',
     ''registryLifecycleVsockUdsPath'', ''registryPerBootSnapDisk'', ''registryPerBootMountUpper'',
     ''registryBundleTempDir'', ''registryVsockTempDir'', ''registryStatsTempDir'', ''registryGvSocketDir'',
     ''registryCpuCgroupPath'', ''registryCpuPolicyMaxVcpus'', ''registryCpuPolicyQuotaCpus'',
     ''registryCpuPolicyWeight'', ''registryCpuControlStatus'', ''registryCpuControlReason'',
     ''registryVmstatePath'', ''registryVmstateChainId'', ''registryVmstateCheckpointParent'',
     ''registryVmstateCheckpointSequence'', ''registryNested'', ''registryHostPlatform'',
     ''registryVmmBinary'', ''registryVmmPdeathsig'', ''registryVmmObservedExeBase'', ''registryGvPid'',
     ''registryGvExe'', ''registryGvObservedExeBase'', ''registryMountGuest'', ''registryMountLowerPath'',
     ''registryMountUpperPath'']"

definition BOOT_PLAN_FIELDS :: "string list" where
  "BOOT_PLAN_FIELDS =
     start_fields @ device_fields @ bundle_fields @ provision_fields @ disk_fields @ registry_fields"

section \<open>The planner\<close>

definition boot_plan_command :: runtime_command where
  "boot_plan_command =
     \<lparr>rc_helper_command = ''boot-plan'', rc_error_code = ''BOOT_MEMORY_INVALID'', rc_make_error = (\<lambda>_. Boot_class),
      rc_map_failure = (\<lambda>_ _. None), rc_is_data = is_native_boot_plan_result\<rparr>"

definition plan_boot_core_native :: "helper_host \<Rightarrow> helper_spawn \<Rightarrow> js_object \<Rightarrow> call_failure + json" where
  "plan_boot_core_native hh spawn input =
     call_runtime_helper hh spawn boot_plan_command (Obj (build_boot_plan_request_data input))"

text \<open>The functions below have the planner as their first argument. \<open>idle\<close> are the members that
  each of them sets.\<close>

type_synonym planner = "js_object \<Rightarrow> call_failure + json"

definition idle :: js_object where
  "idle = [(''vmmMemoryPreset'', Bool True), (''hasImage'', Bool False), (''hasCmd'', Bool False), (''rootDisk'', Str ''false'')]"

definition take_from :: "planner \<Rightarrow> js_object \<Rightarrow> (json \<Rightarrow> json) \<Rightarrow> call_failure + json" where
  "take_from core input f = bind_res (core input) (\<lambda>plan. Inr (f plan))"

text \<open>\<open>v ?? undefined\<close>\<close>

abbreviation given :: "json \<Rightarrow> json" where "given v \<equiv> coalesce v Undefined"

definition incomplete :: "string \<Rightarrow> call_failure" where
  "incomplete code = Reported \<lparr>he_class = Boot_class, he_code = code, he_problem = Incomplete_plan\<rparr>"

definition plan_boot_cpu_resources_native :: "planner \<Rightarrow> json \<Rightarrow> call_failure + json" where
  "plan_boot_cpu_resources_native core cpu =
     take_from core ((''resourcesCpu'', cpu) # idle) (\<lambda>plan. given (get_prop plan ''cpuPolicy''))"

definition plan_boot_guest_hostname_native :: "planner \<Rightarrow> json \<Rightarrow> json \<Rightarrow> call_failure + json" where
  "plan_boot_guest_hostname_native core pid name =
     bind_res (core ([(''guestHostnamePid'', pid), (''guestHostnameName'', name)] @ idle)) (\<lambda>plan.
       if get_prop plan ''guestHostname'' = Null then Inl (incomplete ''BOOT_VMM_MISSING'')
       else Inr (get_prop plan ''guestHostname''))"

definition plan_provision_workload_native :: "planner \<Rightarrow> call_failure + json" where
  "plan_provision_workload_native core = take_from core idle (\<lambda>plan. get_prop plan ''provisionWorkload'')"

definition plan_provision_repack_native :: "planner \<Rightarrow> js_object \<Rightarrow> call_failure + json" where
  "plan_provision_repack_native core input =
     take_from core
       ([(''provisionRepackDiskPath'', field input ''diskPath''), (''provisionRepackOutPath'', field input ''outPath''),
         (''provisionRepackExtractDir'', field input ''extractDir'')] @ idle)
       (\<lambda>plan. get_prop plan ''provisionRepack'')"

definition plan_provision_runtime_native :: "planner \<Rightarrow> js_object \<Rightarrow> call_failure + json" where
  "plan_provision_runtime_native core input =
     take_from core
       ([(''provisionWorkDir'', field input ''workDir''),
         (''provisionScratchSizeBytes'', field input ''scratchDiskSizeBytes''),
         (''provisionTimeoutMs'', field input ''timeoutMs'')] @ idle)
       (\<lambda>plan. get_prop plan ''provisionRuntime'')"

definition plan_provision_image_config_native :: "planner \<Rightarrow> js_object \<Rightarrow> call_failure + json" where
  "plan_provision_image_config_native core input =
     take_from core
       ([(''provisionImageConfigCmd'', field input ''cmd''), (''provisionImageConfigEnv'', field input ''env'')] @ idle)
       (\<lambda>plan. get_prop plan ''provisionImageConfig'')"

definition plan_provision_assets_for_host_native :: "planner \<Rightarrow> js_object \<Rightarrow> call_failure + json" where
  "plan_provision_assets_for_host_native core input =
     take_from core
       ([(''provisionGuestArchOverride'', field input ''guestArchOverride''),
         (''provisionHostArch'', field input ''hostArch'')] @ idle)
       (\<lambda>plan. get_prop plan ''provisionAssets'')"

definition plan_boot_mount_disk_runtime_native :: "planner \<Rightarrow> js_object \<Rightarrow> call_failure + json" where
  "plan_boot_mount_disk_runtime_native core input =
     take_from core
       ([(''mountDiskRuntimeMode'', field input ''mode''), (''mountDiskLowerPath'', field input ''lowerPath''),
         (''mountDiskUpperPath'', field input ''upperPath''), (''mountDiskSourceUpperPath'', field input ''sourceUpperPath''),
         (''mountDiskGuest'', field input ''guest''), (''mountDiskUpperSize'', field input ''upperSizeBytes'')] @ idle)
       (\<lambda>plan. get_prop plan ''mountDiskRuntime'')"

definition plan_boot_mount_disk_fd_env_native :: "planner \<Rightarrow> js_object \<Rightarrow> call_failure + json" where
  "plan_boot_mount_disk_fd_env_native core input =
     take_from core
       ([(''mountDiskLowerFd'', field input ''lowerFd''), (''mountDiskUpperFd'', field input ''upperFd'')] @ idle)
       (\<lambda>plan. get_prop plan ''mountDiskFdEnv'')"

text \<open>\<open>input.group?.member\<close> of the optional parts of an entry of the registry\<close>

abbreviation part :: "js_object \<Rightarrow> string \<Rightarrow> string \<Rightarrow> json" where
  "part input k m \<equiv> get_prop (field input k) m"

definition registry_root_disk_data :: "js_object \<Rightarrow> js_object" where
  "registry_root_disk_data input =
     [(''registryPerBootRootDisk'', coalesce (part input ''rootDisk'' ''perBootRootDisk'') (part input ''cleanup'' ''perBootRootDisk'')),
      (''registryCallerRootDiskPath'', part input ''rootDisk'' ''callerRootDiskPath'')]"

definition registry_boot_log_data :: "js_object \<Rightarrow> js_object" where
  "registry_boot_log_data input =
     [(''registryBootLogRoot'', part input ''bootLog'' ''root''), (''registryChildPid'', part input ''bootLog'' ''childPid''),
      (''registryDetached'', part input ''bootLog'' ''detached'')]"

definition registry_cleanup_data :: "js_object \<Rightarrow> js_object" where
  "registry_cleanup_data input =
     [(''registryPerBootSnapDisk'', part input ''cleanup'' ''perBootSnapDisk''),
      (''registryPerBootMountUpper'', part input ''cleanup'' ''perBootMountUpper''),
      (''registryBundleTempDir'', part input ''cleanup'' ''bundleTempDir''),
      (''registryVsockTempDir'', part input ''cleanup'' ''vsockTempDir''),
      (''registryStatsTempDir'', part input ''cleanup'' ''statsTempDir''),
      (''registryGvSocketDir'', part input ''cleanup'' ''gvSocketDir''),
      (''registryCpuCgroupPath'', part input ''cleanup'' ''cpuCgroupPath'')]"

definition registry_cpu_data :: "js_object \<Rightarrow> js_object" where
  "registry_cpu_data input =
     [(''registryCpuPolicy'', part input ''cpu'' ''policy''),
      (''registryCpuControlStatus'', get_prop (part input ''cpu'' ''control'') ''status''),
      (''registryCpuControlReason'', get_prop (part input ''cpu'' ''control'') ''reason'')]"

definition registry_vmstate_data :: "js_object \<Rightarrow> js_object" where
  "registry_vmstate_data input =
     [(''registryVmstatePath'', part input ''vmstate'' ''statePath''), (''registryVmstateChainId'', part input ''vmstate'' ''chainId''),
      (''registryVmstateCheckpointParent'', part input ''vmstate'' ''checkpointParent''),
      (''registryVmstateCheckpointSequence'', part input ''vmstate'' ''checkpointSequence'')]"

definition registry_mount_disk_data :: "js_object \<Rightarrow> js_object" where
  "registry_mount_disk_data input =
     [(''registryMountGuest'', part input ''mountDisk'' ''guest''), (''registryMountLowerPath'', part input ''mountDisk'' ''lowerPath''),
      (''registryMountUpperPath'', part input ''mountDisk'' ''upperPath'')]"

definition registry_shape_request :: "js_object \<Rightarrow> js_object" where
  "registry_shape_request input =
     [(''registrySourceImagePath'', field input ''sourceImagePath''), (''registryDiskPath'', field input ''diskPath''),
      (''registryForkedFrom'', field input ''forkedFrom''), (''registryMemoryCeilingMib'', field input ''memoryCeilingMib''),
      (''registryStatsPath'', field input ''statsPath'')] @
     registry_root_disk_data input @ registry_boot_log_data input @ registry_cleanup_data input @
     registry_cpu_data input @ registry_vmstate_data input @
     [(''registryNested'', field input ''nested'')] @ registry_mount_disk_data input @
     [(''liveMountsResolved'', field input ''liveMounts''), (''portForward'', field input ''portForward'')] @ idle"

definition plan_boot_registry_shape_native :: "planner \<Rightarrow> js_object \<Rightarrow> call_failure + json" where
  "plan_boot_registry_shape_native core input =
     take_from core (registry_shape_request input) (\<lambda>plan. get_prop plan ''registryShape'')"

text \<open>The \<open>f\<close> of a shape, in a result\<close>

definition shape_part :: "planner \<Rightarrow> js_object \<Rightarrow> (json \<Rightarrow> json) \<Rightarrow> call_failure + json" where
  "shape_part core input f = bind_res (plan_boot_registry_shape_native core input) (\<lambda>shape. Inr (f shape))"

definition plan_boot_registry_cpu_native :: "planner \<Rightarrow> js_object \<Rightarrow> call_failure + json" where
  "plan_boot_registry_cpu_native core input =
     shape_part core [(''cpu'', Obj input)] (\<lambda>shape. given (get_prop shape ''cpu''))"

definition plan_boot_registry_vmstate_native :: "planner \<Rightarrow> js_object \<Rightarrow> call_failure + json" where
  "plan_boot_registry_vmstate_native core input =
     shape_part core [(''vmstate'', Obj input)] (\<lambda>shape. get_prop shape ''vmstate'')"

text \<open>\<open>nested || undefined\<close>\<close>

definition plan_boot_registry_nested_native :: "planner \<Rightarrow> json \<Rightarrow> call_failure + json" where
  "plan_boot_registry_nested_native core nested =
     shape_part core [(''nested'', nested)]
       (\<lambda>shape. if get_prop shape ''nested'' = Bool True then Bool True else Undefined)"

definition plan_boot_registry_port_forward_native :: "planner \<Rightarrow> json \<Rightarrow> call_failure + json" where
  "plan_boot_registry_port_forward_native core forwards =
     shape_part core [(''portForward'', forwards)] (\<lambda>shape. given (get_prop shape ''portForward''))"

definition plan_boot_registry_scalars_native :: "planner \<Rightarrow> js_object \<Rightarrow> call_failure + json" where
  "plan_boot_registry_scalars_native core input =
     shape_part core input (\<lambda>shape.
       Obj (map (\<lambda>k. (k, get_prop shape k)) [''diskPath'', ''forkedFrom'', ''memoryCeilingMib'', ''statsPath'']))"

definition plan_boot_port_forward_native :: "planner \<Rightarrow> json \<Rightarrow> call_failure + json" where
  "plan_boot_port_forward_native core forwards =
     take_from core ((''portForward'', forwards) # idle) (\<lambda>plan. get_prop plan ''plannedPortForward'')"

definition plan_boot_bundle_workspace_native :: "planner \<Rightarrow> json \<Rightarrow> call_failure + json" where
  "plan_boot_bundle_workspace_native core temp_dir =
     bind_res (core ((''bundleWorkspaceTempDir'', temp_dir) # idle)) (\<lambda>plan.
       let work = get_prop plan ''bundleWorkspace'' in
       if get_prop work ''cpioPath'' = Null \<or> get_prop work ''synthBundleDir'' = Null
       then Inl (incomplete ''BOOT_PACK_FAILED'')
       else Inr (Obj [(''cpioPath'', get_prop work ''cpioPath''), (''synthBundleDir'', get_prop work ''synthBundleDir'')]))"

definition plan_boot_bundle_config_paths_native :: "planner \<Rightarrow> json \<Rightarrow> call_failure + json" where
  "plan_boot_bundle_config_paths_native core synth_dir =
     bind_res (core ((''bundleConfigSynthDir'', synth_dir) # idle)) (\<lambda>plan.
       let paths = get_prop plan ''bundleConfigPaths'' in
       if get_prop paths ''rootfsDir'' = Null \<or> get_prop paths ''configPath'' = Null
       then Inl (incomplete ''BOOT_PACK_FAILED'')
       else Inr (Obj [(''rootfsDir'', get_prop paths ''rootfsDir''), (''configPath'', get_prop paths ''configPath'')]))"

definition plan_boot_bundle_env_native :: "planner \<Rightarrow> js_object \<Rightarrow> call_failure + json" where
  "plan_boot_bundle_env_native core input =
     take_from core
       ([(''bundleImageEnv'', field input ''imageEnv''), (''bundleGuestEnv'', field input ''guestEnv'')] @ idle)
       (\<lambda>plan. get_prop plan ''bundleEnv'')"

definition plan_boot_root_disk_runtime_native :: "planner \<Rightarrow> js_object \<Rightarrow> call_failure + json" where
  "plan_boot_root_disk_runtime_native core input =
     take_from core
       ([(''rootDiskRuntimeMode'', field input ''mode''), (''rootDiskSourcePath'', field input ''sourcePath''),
         (''rootDiskClonePath'', field input ''clonePath'')] @ idle)
       (\<lambda>plan. get_prop plan ''rootDiskRuntime'')"

definition plan_boot_scratch_disk_native :: "planner \<Rightarrow> js_object \<Rightarrow> call_failure + json" where
  "plan_boot_scratch_disk_native core input =
     take_from core
       [(''scratchMode'', field input ''mode''), (''scratchSnapshotPath'', field input ''snapshotPath''),
        (''scratchRestoreClonePath'', field input ''restoreClonePath''), (''scratchAutoPath'', field input ''autoPath''),
        (''vmmMemoryPreset'', Bool True), (''hasImage'', field input ''hasImage''), (''hasCmd'', field input ''hasCmd''),
        (''rootDisk'', Str ''false'')]
       (\<lambda>plan. get_prop plan ''scratchDisk'')"

definition plan_boot_bundle_command_native :: "planner \<Rightarrow> js_object \<Rightarrow> call_failure + json" where
  "plan_boot_bundle_command_native core input =
     take_from core
       ([(''bundleExplicitCmd'', field input ''explicitCmd''), (''bundleImageCmd'', field input ''imageCmd''),
         (''bundleSnapshotRestore'', field input ''snapshotRestore''), (''bundleVmstateRestore'', field input ''vmstateRestore''),
         (''bundleLiveMounts'', field input ''liveMounts''), (''bundleCommandRequired'', Bool True)] @ idle)
       (\<lambda>plan. get_prop plan ''bundleCommand'')"

definition plan_boot_machinen_config_native :: "planner \<Rightarrow> js_object \<Rightarrow> call_failure + json" where
  "plan_boot_machinen_config_native core input =
     take_from core
       ([(''configCmd'', field input ''cmd''), (''configEnv'', field input ''env''), (''configGuestCwd'', field input ''guestCwd''),
         (''configImageCwd'', field input ''imageCwd''), (''configLiveMounts'', field input ''liveMounts'')] @ idle)
       (\<lambda>plan. get_prop plan ''machinenConfig'')"

definition plan_boot_stats_file_native :: "planner \<Rightarrow> js_object \<Rightarrow> call_failure + json" where
  "plan_boot_stats_file_native core input =
     take_from core
       ([(''existingStatsFile'', field input ''existingPath''), (''statsFilePath'', field input ''plannedPath''),
         (''statsFileTempDir'', field input ''tempDir'')] @ idle)
       (\<lambda>plan. Obj [(''statsFilePath'', given (get_prop plan ''statsFilePath'')), (''vmmStatsFile'', given (get_prop plan ''vmmStatsFile''))])"

definition plan_boot_live_mounts_native :: "planner \<Rightarrow> json \<Rightarrow> call_failure + json" where
  "plan_boot_live_mounts_native core mounts =
     take_from core ((''liveMounts'', mounts) # idle) (\<lambda>plan. get_prop plan ''plannedLiveMounts'')"

definition plan_boot_virtiofs_env_native :: "planner \<Rightarrow> json \<Rightarrow> call_failure + json" where
  "plan_boot_virtiofs_env_native core mounts =
     take_from core ((''liveMountsResolved'', mounts) # idle) (\<lambda>plan. get_prop plan ''virtiofsEnv'')"

definition plan_boot_nested_env_native :: "planner \<Rightarrow> json \<Rightarrow> call_failure + json" where
  "plan_boot_nested_env_native core nested =
     take_from core ((''nested'', nested) # idle) (\<lambda>plan. given (get_prop plan ''vmmNested''))"

definition plan_boot_vmstate_env_native :: "planner \<Rightarrow> js_object \<Rightarrow> call_failure + json" where
  "plan_boot_vmstate_env_native core input =
     take_from core
       ([(''vmstatePath'', field input ''vmstatePath''), (''restorePath'', field input ''restorePath''),
         (''enableVmstateTiming'', field input ''enableTiming''), (''existingVmstateTiming'', field input ''existingTiming'')] @ idle)
       (\<lambda>plan. Obj [(''snapshotPath'', given (get_prop plan ''vmmSnapshotPath'')),
          (''restorePath'', given (get_prop plan ''vmmRestorePath'')), (''vmstateTiming'', given (get_prop plan ''vmmVmstateTiming''))])"

definition plan_boot_vmstate_runtime_native :: "planner \<Rightarrow> js_object \<Rightarrow> call_failure + json" where
  "plan_boot_vmstate_runtime_native core input =
     take_from core
       ([(''bootVmstateStatePath'', field input ''statePath''), (''bootVmstateTempDir'', field input ''stateTempDir''),
         (''bootVmstateChainId'', field input ''chainId''), (''bootVmstateRestorePath'', field input ''restorePath''),
         (''bootVmstateForkedFrom'', field input ''forkedFrom'')] @ idle)
       (\<lambda>plan. get_prop plan ''vmstateRuntime'')"

definition plan_boot_kernel_dtb_native :: "planner \<Rightarrow> js_object \<Rightarrow> call_failure + json" where
  "plan_boot_kernel_dtb_native core input =
     take_from core ([(''kernelPath'', field input ''kernelPath''), (''dtbPath'', field input ''dtbPath'')] @ idle)
       (\<lambda>plan. Obj [(''kernelPath'', given (get_prop plan ''vmmKernel'')), (''dtbPath'', given (get_prop plan ''vmmDtb''))])"

definition plan_boot_initrd_env_native :: "planner \<Rightarrow> json \<Rightarrow> call_failure + json" where
  "plan_boot_initrd_env_native core initrd =
     bind_res (core ((''initrdPath'', initrd) # idle)) (\<lambda>plan.
       if get_prop plan ''vmmInitrd'' = Null then Inl (incomplete ''BOOT_PACK_FAILED'') else Inr (get_prop plan ''vmmInitrd''))"

definition plan_boot_vmm_argv_native :: "planner \<Rightarrow> js_object \<Rightarrow> call_failure + json" where
  "plan_boot_vmm_argv_native core input =
     bind_res (core ([(''vmmBinary'', field input ''binary''), (''vmmArgs'', field input ''args''),
         (''pdeathsigPath'', given (field input ''pdeathsigPath''))] @ idle)) (\<lambda>plan.
       if get_prop plan ''vmmCommand'' = Null then Inl (incomplete ''BOOT_VMM_MISSING'')
       else Inr (Obj [(''command'', get_prop plan ''vmmCommand''), (''args'', get_prop plan ''vmmArgs'')]))"

text \<open>\<^verbatim>\<open>native/live-mount-batch.ts\<close>\<close>

definition validate_batch_live_mounts_native :: "planner \<Rightarrow> json list \<Rightarrow> json \<Rightarrow> call_failure + json" where
  "validate_batch_live_mounts_native core mounts uds_path =
     take_from core
       ([(''liveMountsResolved'', Arr mounts), (''vsockUdsPath'', uds_path),
         (''batchLiveMountValidationRequired'', Bool True)] @ idle)
       (\<lambda>plan. get_prop plan ''batchLiveMountSyncRequired'')"

section \<open>How a member of the input is written\<close>

text \<open>As the text of a number; as it is, with a default for \<open>undefined\<close> and \<open>null\<close>; as whether it is \<open>true\<close>.\<close>

datatype wire = As_number | As_value json | As_flag | As_is

fun on_wire :: "wire \<Rightarrow> json \<Rightarrow> json" where
  "on_wire As_number v = number_text v"
| "on_wire (As_value d) v = coalesce v d"
| "on_wire As_flag v = Bool (v = Bool True)"
| "on_wire As_is v = v"

definition bundle_command_wire :: "(string \<times> wire) list" where
  "bundle_command_wire =
    [(''bundleExplicitCmd'', As_value Null), (''bundleImageCmd'', As_value Null),
     (''bundleSnapshotRestore'', As_flag), (''bundleVmstateRestore'', As_flag),
     (''bundleLiveMounts'', As_value (Arr [])), (''bundleCommandRequired'', As_flag),
     (''bundleImageEnv'', As_value (Obj [])), (''bundleGuestEnv'', As_value (Obj [])),
     (''bundleWorkspaceTempDir'', As_value Null), (''bundleConfigSynthDir'', As_value Null)]"

definition provision_wire :: "(string \<times> wire) list" where
  "provision_wire =
    [(''provisionGuestCpu'', As_value Null), (''provisionGuestArchOverride'', As_value Null),
     (''provisionHostArch'', As_value Null), (''provisionBasePath'', As_value Null),
     (''provisionKernelPath'', As_value Null), (''provisionDtbPath'', As_value Null),
     (''provisionUdsPath'', As_value Null), (''provisionScratchDiskPath'', As_value Null),
     (''provisionRootDiskPath'', As_value Null), (''provisionRepackDiskPath'', As_value Null),
     (''provisionRepackOutPath'', As_value Null), (''provisionRepackExtractDir'', As_value Null),
     (''provisionImageConfigCmd'', As_value (Arr [])), (''provisionImageConfigEnv'', As_value (Obj [])),
     (''provisionWorkDir'', As_value Null), (''provisionScratchSizeBytes'', As_number),
     (''provisionTimeoutMs'', As_number)]"

definition scratch_disk_wire :: "(string \<times> wire) list" where
  "scratch_disk_wire =
    [(''scratchMode'', As_value Null), (''scratchSnapshotPath'', As_value Null),
     (''scratchRestoreClonePath'', As_value Null), (''scratchAutoPath'', As_value Null)]"

definition root_disk_runtime_wire :: "(string \<times> wire) list" where
  "root_disk_runtime_wire =
    [(''rootDiskRuntimeMode'', As_value Null), (''rootDiskSourcePath'', As_value Null),
     (''rootDiskClonePath'', As_value Null)]"

definition mount_disk_runtime_wire :: "(string \<times> wire) list" where
  "mount_disk_runtime_wire =
    [(''mountDiskRuntimeMode'', As_value Null), (''mountDiskLowerPath'', As_value Null),
     (''mountDiskUpperPath'', As_value Null), (''mountDiskSourceUpperPath'', As_value Null),
     (''mountDiskGuest'', As_value Null), (''mountDiskUpperSize'', As_number),
     (''mountDiskLowerFd'', As_number), (''mountDiskUpperFd'', As_number)]"

definition registry_shape_wire :: "(string \<times> wire) list" where
  "registry_shape_wire =
    [(''registrySourceImagePath'', As_value Null), (''registryDiskPath'', As_value Null),
     (''registryForkedFrom'', As_value Null), (''registryMemoryCeilingMib'', As_number),
     (''registryStatsPath'', As_value Null), (''registryPerBootRootDisk'', As_value Null),
     (''registryCallerRootDiskPath'', As_value Null), (''registryBootLogRoot'', As_value Null),
     (''registryChildPid'', As_number), (''registryDetached'', As_flag),
     (''registryPerBootSnapDisk'', As_value Null), (''registryPerBootMountUpper'', As_value Null),
     (''registryBundleTempDir'', As_value Null), (''registryVsockTempDir'', As_value Null),
     (''registryStatsTempDir'', As_value Null), (''registryGvSocketDir'', As_value Null),
     (''registryCpuCgroupPath'', As_value Null), (''registryCpuControlStatus'', As_value Null),
     (''registryCpuControlReason'', As_value Null), (''registryVmstatePath'', As_value Null),
     (''registryVmstateChainId'', As_value Null), (''registryVmstateCheckpointParent'', As_value Null),
     (''registryVmstateCheckpointSequence'', As_number), (''registryNested'', As_flag),
     (''registryMountGuest'', As_value Null), (''registryMountLowerPath'', As_value Null),
     (''registryMountUpperPath'', As_value Null)]"

definition start_wire :: "(string \<times> wire) list" where
  "start_wire =
    [(''memoryMib'', As_number), (''autoMemoryMib'', As_number), (''hostTotalBytes'', As_number),
     (''vmmMemoryPreset'', As_is), (''hasImage'', As_is), (''hasCmd'', As_is), (''hasSnapshot'', As_flag),
     (''rootDisk'', As_is), (''guestCwd'', As_value Null), (''mountGuest'', As_value Null),
     (''mountUnsafeGuestPath'', As_flag), (''guestEnv'', As_value (Obj [])), (''name'', As_value Null),
     (''vsockUdsPath'', As_value Null), (''guestHostnamePid'', As_number),
     (''guestHostnameName'', As_value Null), (''existingVsockSpec'', As_value Null),
     (''autoVsockUdsPath'', As_value Null), (''autoVsockTempDir'', As_value Null),
     (''portForward'', As_value (Arr [])), (''vmmBinary'', As_value Null), (''vmmArgs'', As_value (Arr [])),
     (''pdeathsigPath'', As_value Null), (''pdeathsig'', As_value Null), (''detached'', As_flag)]"

definition device_wire :: "(string \<times> wire) list" where
  "device_wire =
    [(''kernelPath'', As_value Null), (''dtbPath'', As_value Null), (''initrdPath'', As_value Null),
     (''vmstatePath'', As_value Null), (''restorePath'', As_value Null), (''enableVmstateTiming'', As_flag),
     (''existingVmstateTiming'', As_value Null), (''bootVmstateStatePath'', As_value Null),
     (''bootVmstateTempDir'', As_value Null), (''bootVmstateChainId'', As_value Null),
     (''bootVmstateRestorePath'', As_value Null), (''bootVmstateForkedFrom'', As_value Null),
     (''nested'', As_flag), (''liveMountsResolved'', As_value (Arr [])),
     (''batchLiveMountValidationRequired'', As_flag), (''existingStatsFile'', As_value Null),
     (''statsFilePath'', As_value Null), (''statsFileTempDir'', As_value Null),
     (''configCmd'', As_value (Arr [])), (''configEnv'', As_value (Obj [])),
     (''configGuestCwd'', As_value Null), (''configImageCwd'', As_value Null),
     (''configLiveMounts'', As_value (Arr []))]"

definition BOOT_PLAN_WIRE :: "(string \<times> wire) list" where
  "BOOT_PLAN_WIRE =
     start_wire @ device_wire @ bundle_command_wire @ provision_wire @ scratch_disk_wire @ root_disk_runtime_wire @ mount_disk_runtime_wire @ registry_shape_wire"

text \<open>The values that a caller may give, which the types of the input ask for\<close>

fun wire_typed :: "wire \<Rightarrow> json \<Rightarrow> bool" where
  "wire_typed As_number v \<longleftrightarrow> (case v of Undefined \<Rightarrow> True | Num _ \<Rightarrow> True | _ \<Rightarrow> False)"
| "wire_typed (As_value d) v \<longleftrightarrow> v \<noteq> Null"
| "wire_typed As_flag v \<longleftrightarrow> v = Undefined \<or> is_bool v"
| "wire_typed As_is v \<longleftrightarrow> v \<noteq> Undefined"

text \<open>What an input means: an absent member is its default.\<close>

fun meant :: "wire \<Rightarrow> json \<Rightarrow> json" where
  "meant As_number v = v"
| "meant (As_value d) v = (if v = Undefined then d else v)"
| "meant As_flag v = (if v = Undefined then Bool False else v)"
| "meant As_is v = v"

lemma int_text_injective: "int_text m = int_text n \<Longrightarrow> m = n"
  using int_text_prefix [of m "[]" n "[]"] by simp

lemma on_wire_injective:
  assumes "on_wire w a = on_wire w b" "wire_typed w a" "wire_typed w b"
  shows "meant w a = meant w b"
proof (cases w)
  case As_number
  then show ?thesis
    using assms by (auto simp: number_text_def dest: int_text_injective split: json.splits if_splits)
next
  case (As_value d)
  then show ?thesis using assms by (cases a; cases b) (auto simp: coalesce_def)
next
  case As_flag
  then show ?thesis using assms by (auto simp: is_bool_iff)
next
  case As_is
  then show ?thesis using assms by simp
qed

end
