(* ===== verification/Boot_Plan_Laws.thy ===== *)
theory Boot_Plan_Laws
  imports Boot_Plan
begin

text \<open>
  Requests of the native planner: the helper knows all their members, and a request determines the input it
  was made from.
\<close>

section \<open>Members of a request\<close>

lemma start_members: "fst ` set (start_data input) \<subseteq> set start_fields"
  by (simp add: start_data_def start_fields_def)

lemma timeout_members: "fst ` set (boot_timeout_data input) \<subseteq> set start_fields"
  by (simp add: boot_timeout_data_def start_fields_def)

lemma device_members: "fst ` set (device_data input) \<subseteq> set device_fields"
  by (simp add: device_data_def device_fields_def)

lemma bundle_members: "fst ` set (bundle_command_data input) \<subseteq> set bundle_fields"
  by (simp add: bundle_command_data_def bundle_fields_def)

lemma provision_members: "fst ` set (provision_data input) \<subseteq> set provision_fields"
  by (simp add: provision_data_def provision_fields_def)

lemma disk_members:
  "fst ` set (scratch_disk_data input) \<subseteq> set disk_fields"
  "fst ` set (root_disk_runtime_data input) \<subseteq> set disk_fields"
  "fst ` set (mount_disk_runtime_data input) \<subseteq> set disk_fields"
  by (simp_all add: scratch_disk_data_def root_disk_runtime_data_def mount_disk_runtime_data_def disk_fields_def)

lemma registry_members: "fst ` set (registry_shape_data input) \<subseteq> set registry_fields"
  by (simp add: registry_shape_data_def registry_fields_def)

lemma sections_known:
  "set start_fields \<subseteq> set BOOT_PLAN_FIELDS" "set device_fields \<subseteq> set BOOT_PLAN_FIELDS"
  "set bundle_fields \<subseteq> set BOOT_PLAN_FIELDS" "set provision_fields \<subseteq> set BOOT_PLAN_FIELDS"
  "set disk_fields \<subseteq> set BOOT_PLAN_FIELDS" "set registry_fields \<subseteq> set BOOT_PLAN_FIELDS"
  by (simp_all only: BOOT_PLAN_FIELDS_def set_append Un_upper1 Un_upper2 le_supI1 le_supI2 order_refl)

text \<open>The planner of the helper rejects a request with a member it does not know. No request has one: whatever the
  input, the members of the request are among those that the helper lists.\<close>

theorem requests_are_known: "fst ` set (build_boot_plan_request_data input) \<subseteq> set BOOT_PLAN_FIELDS"
  by (simp only: build_boot_plan_request_data_def set_append image_Un Un_subset_iff)
    (intro conjI order_trans [OF start_members] order_trans [OF timeout_members] order_trans [OF device_members]
      order_trans [OF bundle_members] order_trans [OF provision_members] order_trans [OF disk_members(1)]
      order_trans [OF disk_members(2)] order_trans [OF disk_members(3)] order_trans [OF registry_members] sections_known)

section \<open>Reading the input back\<close>

text \<open>The members that are not written by the table\<close>

definition special_keys :: "string list" where
  "special_keys =
    [''resourcesMemory'', ''resourcesCpu'', ''bootTimeoutMs'', ''bootTimeoutForever'', ''liveMounts'',
     ''provisionImageConfigHasCmd'', ''provisionImageConfigHasEnv'', ''registryCpuPolicyMaxVcpus'',
     ''registryCpuPolicyQuotaCpus'', ''registryCpuPolicyWeight'']"

definition regular :: "js_object \<Rightarrow> js_object" where
  "regular fs = filter (\<lambda>m. fst m \<notin> set special_keys) fs"

definition written_by :: "(string \<times> wire) list \<Rightarrow> js_object \<Rightarrow> js_object" where
  "written_by table input = map (\<lambda>(k, w). (k, on_wire w (field input k))) table"

lemma null_default_wire: "null_default v = coalesce v Null"
  by (cases v) (simp_all add: null_default_def coalesce_def)

lemmas table_simps = regular_def written_by_def special_keys_def null_default_wire

lemma start_table: "regular (start_data input) = written_by start_wire input"
  by (simp add: start_data_def start_wire_def table_simps)

lemma timeout_table: "regular (boot_timeout_data input) = []"
  by (simp add: boot_timeout_data_def table_simps)

lemma device_table: "regular (device_data input) = written_by device_wire input"
  by (simp add: device_data_def device_wire_def table_simps)

lemma bundle_table: "regular (bundle_command_data input) = written_by bundle_command_wire input"
  by (simp add: bundle_command_data_def bundle_command_wire_def table_simps)

lemma provision_table: "regular (provision_data input) = written_by provision_wire input"
  by (simp add: provision_data_def provision_wire_def table_simps)

lemma disk_tables:
  "regular (scratch_disk_data input) = written_by scratch_disk_wire input"
  "regular (root_disk_runtime_data input) = written_by root_disk_runtime_wire input"
  "regular (mount_disk_runtime_data input) = written_by mount_disk_runtime_wire input"
  by (simp_all add: scratch_disk_data_def root_disk_runtime_data_def mount_disk_runtime_data_def
      scratch_disk_wire_def root_disk_runtime_wire_def mount_disk_runtime_wire_def table_simps)

lemma registry_table: "regular (registry_shape_data input) = written_by registry_shape_wire input"
  by (simp add: registry_shape_data_def registry_shape_wire_def table_simps)

lemma table_of_request: "regular (build_boot_plan_request_data input) = written_by BOOT_PLAN_WIRE input"
proof -
  have "regular (xs @ ys) = regular xs @ regular ys" for xs ys by (simp add: regular_def)
  moreover have "written_by (xs @ ys) input = written_by xs input @ written_by ys input" for xs ys by (simp add: written_by_def)
  ultimately show ?thesis
    by (simp add: build_boot_plan_request_data_def BOOT_PLAN_WIRE_def start_table timeout_table device_table bundle_table
        provision_table disk_tables registry_table)
qed

lemma request_text_injective:
  assumes "helper_request a = helper_request b" "plain_json a" "plain_json b"
  shows "a = b"
proof -
  let ?w = "\<lambda>v. Obj [(''protocolVersion'', Num PROTOCOL_VERSION), (''data'', v)]"
  have "json_text (?w a) = json_text (?w b)" using assms(1) by (simp add: helper_request_def)
  then have "?w a = ?w b"
    using json_text_prefix [of "?w a" "[]" "?w b" "[]"] assms(2,3) by simp
  then show ?thesis by simp
qed

text \<open>The timeout has a member of its own for \<open>null\<close>, which means no timeout.\<close>

lemma timeout_of_request:
  assumes "boot_timeout_data a = boot_timeout_data b"
    and "field a ''bootTimeoutMs'' = Null \<or> wire_typed As_number (field a ''bootTimeoutMs'')"
    and "field b ''bootTimeoutMs'' = Null \<or> wire_typed As_number (field b ''bootTimeoutMs'')"
  shows "field a ''bootTimeoutMs'' = field b ''bootTimeoutMs''"
  using assms by (auto simp: boot_timeout_data_def number_text_def dest: int_text_injective split: json.splits if_splits)

lemma section_lengths: "length (start_data a) = length (start_data b)" "length (boot_timeout_data a) = length (boot_timeout_data b)"
  by (simp_all add: start_data_def boot_timeout_data_def)

text \<open>Nothing of the input of the planner is lost on the way: two inputs whose requests have the same text agree in
  every member that the table writes, where an absent list, record or flag is the empty or false one, and in
  the timeout, where absent and forever differ.\<close>

theorem request_determines_input:
  assumes "helper_request (Obj (build_boot_plan_request_data a)) = helper_request (Obj (build_boot_plan_request_data b))"
    and "plain_json (Obj (build_boot_plan_request_data a))" "plain_json (Obj (build_boot_plan_request_data b))"
    and "\<And>k w input. (k, w) \<in> set BOOT_PLAN_WIRE \<Longrightarrow> input \<in> {a, b} \<Longrightarrow> wire_typed w (field input k)"
    and "\<And>input. input \<in> {a, b} \<Longrightarrow> field input ''bootTimeoutMs'' = Null \<or> wire_typed As_number (field input ''bootTimeoutMs'')"
  shows "(\<forall>(k, w) \<in> set BOOT_PLAN_WIRE. meant w (field a k) = meant w (field b k)) \<and>
    field a ''bootTimeoutMs'' = field b ''bootTimeoutMs''"
proof -
  have same: "build_boot_plan_request_data a = build_boot_plan_request_data b"
    using request_text_injective [OF assms(1-3)] by simp
  then have "written_by BOOT_PLAN_WIRE a = written_by BOOT_PLAN_WIRE b" by (metis table_of_request)
  then have wires: "on_wire w (field a k) = on_wire w (field b k)" if "(k, w) \<in> set BOOT_PLAN_WIRE" for k w
    using that unfolding written_by_def map_eq_conv by fastforce
  have "boot_timeout_data a = boot_timeout_data b"
    using same unfolding build_boot_plan_request_data_def
    by (simp add: append_eq_append_conv section_lengths)
  then have "field a ''bootTimeoutMs'' = field b ''bootTimeoutMs''"
    by (rule timeout_of_request) (use assms(5) in auto)
  moreover have "meant w (field a k) = meant w (field b k)" if "(k, w) \<in> set BOOT_PLAN_WIRE" for k w
    using on_wire_injective [OF wires [OF that]] assms(4) [OF that] by blast
  ultimately show ?thesis by blast
qed

end
