(* ===== verification/Spec2Isabelle.thy ===== *)
theory Spec2Isabelle
  imports Vmstate_Chain Vmstate_Facts Lazy_Pagemap Exec_Client Supervisor Fork_Args Restore_Args Cli_Target
    Registry_Laws Recipe_Laws Mount_Resolver Quiet Portable_Laws Access_Laws Initramfs_Laws Rootfs_Laws
    Restore_Samples Gvproxy_Install Boot_Plan_Laws
begin

text \<open>
  Machinen boots Linux guests in a small virtual machine monitor, talks to an agent inside the
  guest, takes and restores snapshots, and runs signed recipes. The monitor and the agents are
  written in Zig and Swift; the runtime library and the command line are TypeScript, and this
  development models the TypeScript that decides something: the protocols, the file formats, the
  registries, the policies and the parsers. Paths below are relative to \<^verbatim>\<open>src/packages\<close>.

  \<^bold>\<open>How the parts interact.\<close> \<^verbatim>\<open>machinen boot\<close> parses its arguments (\<^theory_text>\<open>Cli_Flags\<close>,
  \<^theory_text>\<open>Run_Args\<close>), starts a VM, reserves its name and records it (\<^theory_text>\<open>Registry\<close>), and shows the
  guest console through the noise filter (\<^theory_text>\<open>Quiet\<close>). Commands and terminals reach the guest over
  a socket (\<^theory_text>\<open>Exec_Wire\<close>, \<^theory_text>\<open>Exec_Client\<close>); several VMs share a terminal through the supervisor
  (\<^theory_text>\<open>Sandboxes\<close>, \<^theory_text>\<open>Supervisor\<close>); the guest's file requests are confined to a mount
  (\<^theory_text>\<open>Mount_Resolver\<close>). The machine boots from a small archive (\<^theory_text>\<open>Initramfs\<close>) and a clone of a
  cached disk image (\<^theory_text>\<open>Rootfs_Cache\<close>); its network is a helper program that is found or
  installed (\<^theory_text>\<open>Gvproxy\<close>, \<^theory_text>\<open>Gvproxy_Install\<close>), and much of its plan comes from a native helper that
  the runtime asks with a request and whose answer it checks (\<^theory_text>\<open>Native_Helper\<close>, \<^theory_text>\<open>Boot_Plan\<close>). A snapshot is a bundle of a vmstate file and a disk, or a delta on a parent
  bundle (\<^theory_text>\<open>Vmstate_Codec\<close>, \<^theory_text>\<open>Rootdisk_Delta\<close>, \<^theory_text>\<open>Vmstate_Chain\<close>); taking one pauses the machine,
  copies what belongs to the paused state and advances the chain (\<^theory_text>\<open>Snapshot_Flow\<close>,
  \<^theory_text>\<open>Checkpoint_Ram\<close>). A restore combines a chain of bundles, compares what a bundle
  records with the host (\<^theory_text>\<open>Restore_Check\<close>, \<^theory_text>\<open>Base_Assets\<close>, with the facts of the state file and
  the cached identities of large files of \<^theory_text>\<open>Vmstate_Facts\<close>), boots, reseeds the guest and names it
  (\<^theory_text>\<open>Restore_Flow\<close>); or it packs the process images of CRIU for a fresh guest (\<^theory_text>\<open>Restore_Criu\<close>), whose
  page maps a lazy restore marks first (\<^theory_text>\<open>Lazy_Pagemap\<close>). \<^verbatim>\<open>machinen run\<close> loads a recipe from the
  official registry, plans which host directories it may reach and asks for approval
  (\<^theory_text>\<open>Run_Recipe\<close>, \<^theory_text>\<open>Run_Access\<close>, \<^theory_text>\<open>Run_Approval\<close>). A portable snapshot is a set of documents
  that is validated before use (\<^theory_text>\<open>Portable_Snapshot\<close>).

  \<^bold>\<open>Shared theories.\<close> \<^theory_text>\<open>Prelude\<close>: results (\<open>Inl\<close> is what was thrown), byte buffers with the
  little-endian readers and writers, association lists. \<^theory_text>\<open>Js_Text\<close>: strings and numbers of the
  JavaScript library. \<^theory_text>\<open>Posix_Path\<close>: the lexical functions of Node's \<open>path\<close>. \<^theory_text>\<open>Json\<close>: parsed
  documents. \<^theory_text>\<open>Stream_Parser\<close>: the locale of incremental parsers, interpreted by both parsers of
  \<^theory_text>\<open>Exec_Wire\<close>. \<^theory_text>\<open>Effects\<close>: programs over a state that may throw, with a locale for the relations
  that every run obeys, interpreted by the logs, the writes and the parts of \<^theory_text>\<open>Snapshot_Laws\<close>, and
  rules for total correctness.

  \<^bold>\<open>Theories and sources.\<close>
    \<^item> \<^theory_text>\<open>Exec_Wire\<close>, \<^theory_text>\<open>Exec_Client\<close>: \<^verbatim>\<open>runtime/src/exec.ts\<close>. The parsers of agent frames and their
      buffers; requests as a state machine over socket events, retries, PTY sessions.
    \<^item> \<^theory_text>\<open>Vmstate_Codec\<close>, \<^theory_text>\<open>Rootdisk_Delta\<close>, \<^theory_text>\<open>Vmstate_Chain\<close>: \<^verbatim>\<open>runtime/src/vm/vmstate-chain.ts\<close>. The
      container, the disk deltas with short writes, chains of bundles over a store of files.
    \<^item> \<^theory_text>\<open>Vmstate_Facts\<close>: \<^verbatim>\<open>runtime/src/vm/vmstate-metadata.ts\<close>, and the reader of raw files in
      \<^verbatim>\<open>runtime/native/src/vmstate.zig\<close>, which checks every section of a file (the in-process reader, which
      stops at the register, gets the compressed files only); \<^theory_text>\<open>Lazy_Pagemap\<close>: \<^verbatim>\<open>runtime/src/lazy-pagemap.ts\<close>.
    \<^item> \<^theory_text>\<open>Sandboxes\<close>, \<^theory_text>\<open>Supervisor\<close>: the two classes of \<^verbatim>\<open>runtime/src/multiplex.ts\<close>. Subscribers and
      entries are a store; a session is an inductive sequence of events.
    \<^item> \<^theory_text>\<open>Pin_Tree\<close>, \<^theory_text>\<open>Registry\<close>, \<^theory_text>\<open>Registry_Laws\<close>: \<^verbatim>\<open>runtime/src/registry.ts\<close>, \<^verbatim>\<open>pid-validate.ts\<close>,
      \<^verbatim>\<open>gc.ts\<close>, \<open>claimNameOrThrow\<close> of \<^verbatim>\<open>vm/boot.ts\<close> and \<open>autoNameRestoredFork\<close> of \<^verbatim>\<open>vm/restore.ts\<close>.
      The names directory is a tree of pins with the error codes of its system calls.
    \<^item> \<^theory_text>\<open>Mount_Resolver\<close>: \<^verbatim>\<open>runtime/src/mount-resolver.ts\<close>.
    \<^item> \<^theory_text>\<open>Run_Recipe\<close>, \<^theory_text>\<open>Run_Approval\<close>, \<^theory_text>\<open>Recipe_Laws\<close>: \<^verbatim>\<open>cli/src/run-registry.ts\<close> and
      \<^verbatim>\<open>run-approval.ts\<close>.
    \<^item> \<^theory_text>\<open>Json_Text\<close>, \<^theory_text>\<open>Run_Access\<close>, \<^theory_text>\<open>Access_Laws\<close>: \<^verbatim>\<open>cli/src/run-access.ts\<close>. The host file
      system is a record of the answers of its calls.
    \<^item> \<^theory_text>\<open>Json_Schema\<close>, \<^theory_text>\<open>Portable_Snapshot\<close>, \<^theory_text>\<open>Portable_Laws\<close>: \<^verbatim>\<open>runtime/src/vm/portable-snapshot.ts\<close>,
      the published schemas and the hand-written validators.
    \<^item> \<^theory_text>\<open>Initramfs\<close>, \<^theory_text>\<open>Initramfs_Laws\<close>: \<^verbatim>\<open>runtime/src/mkinitramfs.ts\<close>, the archive writer and
      \<open>packTinyBundle\<close> over a store of files, with a reader of the archive format as reference.
    \<^item> \<^theory_text>\<open>Rootfs_Cache\<close>, \<^theory_text>\<open>Rootfs_Laws\<close>: \<^verbatim>\<open>runtime/src/rootfs-img.ts\<close>,
      \<^verbatim>\<open>rootfs-template-metadata.ts\<close> and \<open>materializeCachedRootdisk\<close> of \<^verbatim>\<open>vm/boot-rootdisk.ts\<close>. An
      operation returns the list of its writes, so a crash is a prefix.
    \<^item> \<^theory_text>\<open>Snapshot_World\<close>, \<^theory_text>\<open>Snapshot_Flow\<close>: \<^verbatim>\<open>runtime/src/vm/snapshot.ts\<close>, \<^verbatim>\<open>snapshot-engine.ts\<close>,
      \<^verbatim>\<open>snapshot-rootdisk.ts\<close>, \<^verbatim>\<open>vmstate-boot-assets.ts\<close>, \<^verbatim>\<open>vmstate-wait.ts\<close>, the documents of
      \<^verbatim>\<open>vm-handle.ts\<close> and the snapshot half of \<^verbatim>\<open>fork-core.ts\<close>. Files, documents, the machine and a log
      of signals, guest commands and copies are one state; the answers of the host are a record.
      \<^theory_text>\<open>Snapshot_Laws\<close>: what every run keeps, and what failure and success leave;
      \<^theory_text>\<open>Snapshot_Total\<close>: when a snapshot succeeds, and forks; \<^theory_text>\<open>Checkpoint_Ram\<close>: the memory of a machine
      through a session of writes, snapshots and restores, with the machine's record of written
      pages (\<^verbatim>\<open>microvm/src/boot_hvf.zig\<close>, \<^verbatim>\<open>boot_kvm.zig\<close>) as a specification; \<^theory_text>\<open>Snapshot_Samples\<close>: a small
      host and the instances of these theorems.
    \<^item> \<^theory_text>\<open>Base_Assets\<close>: \<^verbatim>\<open>runtime/src/base-assets.ts\<close>; \<^theory_text>\<open>Restore_Check\<close>, \<^theory_text>\<open>Restore_Flow\<close>,
      \<^theory_text>\<open>Restore_Criu\<close>: \<^verbatim>\<open>runtime/src/vm/restore.ts\<close>, \<^verbatim>\<open>restore-identity.ts\<close>, \<^verbatim>\<open>restore-reseed.ts\<close>,
      the checks of \<^verbatim>\<open>vmstate-boot-assets.ts\<close>, and what a restore uses of \<^verbatim>\<open>bundle.ts\<close> and \<^verbatim>\<open>helpers.ts\<close>,
      with the small plans of \<^verbatim>\<open>runtime/native/src/boot_plan.zig\<close> behind them. The host of a snapshot,
      the registry and a log are one state; \<open>boot()\<close> is a function of this state.
      \<^theory_text>\<open>Restore_Laws\<close>: each check as a predicate; \<^theory_text>\<open>Restore_Outcome\<close>: the cases of a run, the machine
      it asks for and what it leaves; \<^theory_text>\<open>Restore_Criu_Laws\<close>: quoting, hostnames and the scratch file;
      \<^theory_text>\<open>Restore_Taken\<close>: a restore of a bundle just taken; \<^theory_text>\<open>Restore_Samples\<close>: instances.
    \<^item> \<^theory_text>\<open>Gvproxy\<close>, \<^theory_text>\<open>Gvproxy_Install\<close>: \<^verbatim>\<open>runtime/src/gvproxy.ts\<close>. Lookup, start and stop, forwards; the
      installation as a step relation in which the system calls of several processes interleave.
    \<^item> \<^theory_text>\<open>Native_Helper\<close>: \<^verbatim>\<open>runtime/src/native-helper.ts\<close>, \<^verbatim>\<open>native/runtime-command.ts\<close>, \<^verbatim>\<open>errors.ts\<close>;
      \<^theory_text>\<open>Boot_Plan_Schema\<close>, \<^theory_text>\<open>Boot_Plan_Types\<close>: the types and the guard of \<^verbatim>\<open>native/boot-plan-schema.ts\<close>;
      \<^theory_text>\<open>Boot_Plan\<close>, \<^theory_text>\<open>Boot_Plan_Laws\<close>: the requests and projections of \<^verbatim>\<open>native/boot-plan.ts\<close>, whose
      members are those that \<^verbatim>\<open>native/src/commands/boot_plan.zig\<close> lists.
    \<^item> \<^theory_text>\<open>Quiet\<close>: \<^verbatim>\<open>cli/src/quiet.ts\<close>.
    \<^item> \<^theory_text>\<open>Cli_Flags\<close>, \<^theory_text>\<open>Run_Args\<close>, \<^theory_text>\<open>Fork_Args\<close>, \<^theory_text>\<open>Restore_Args\<close>, \<^theory_text>\<open>Cli_Target\<close>:
      \<^verbatim>\<open>cli/src/parse-run-args.ts\<close>, \<^verbatim>\<open>parse-fork-args.ts\<close>, \<^verbatim>\<open>parse-restore-args.ts\<close>, \<^verbatim>\<open>parse-target.ts\<close> and
      \<^verbatim>\<open>args.ts\<close>. The locale of flag loops is interpreted by three commands.
  Definitions keep the names of the functions they model, in snake case; a class is a record
  with one definition per method, an object that is mutated is passed and returned.

  \<^bold>\<open>What is shown.\<close> Protocols: output, commands and terminal input arrive unchanged however the
  socket cuts them, requests settle, retries end. Snapshots: files round-trip, chains are found
  and combined as documented, deltas are applied exactly, failures leave no trace; the source is
  resumed whatever fails, a successful snapshot records what was captured, and every checkpoint of a
  session without late failures restores the memory of its moment. Restores: a machine is asked for
  exactly when every check holds, and it is the checked one; a bundle just taken is accepted and boots
  from the bytes that were dumped; a handle means a reseeded guest; no temporary directory remains; no
  name of a VM reaches the shell of the guest. Lazy marking
  is exact and idempotent. The supervisor delivers, restores the terminal and echoes once; the
  registry stays well-formed, never gives away the name of a live VM, finds what it recorded and
  reaps exactly the dead. Recipes are signed, official, within their limits and cached; approvals
  are exact and fix the access, as far as SHA-256 does not collide; planned access is complete and
  minimal; portable snapshots are accepted exactly when their documents satisfy a lenient reading of the
  published schemas and fit together. Mounts are not escaped; the boot archive unpacks to its entries; a
  clean marker that can be removed stands for an intact image through crashes; at most one process
  installs the network helper and it never leaves a partial one; an answer of the native helper is
  checked, the guard of a plan accepts exactly the values of its declared type with usable numbers and an
  image configuration that is not empty, and a request determines its input; the noise filter loses nothing; accepted arguments are valid.
  Some theorems show where the code does not do what it promises: a detach pair that a chunk
  boundary cuts, exits and dead entries that take a successor's registration along, a reserved
  name that is lost until its entry is written, reserved guest paths written with two slashes or
  reached by a link, a mount of the root directory, overlay directories outside Latin-1, the
  digest of a disk image that was grown, a clean marker that cannot be removed and then lies, a lock of
  an installer that nobody removes, pages that a failed snapshot takes out of the chain, a
  fork that takes its source's chain along, a sync request to a paused guest, a machine that a failed
  reseed leaves running, and a scratch file that a missing overlay leaves behind.

  \<^bold>\<open>Parameters.\<close> Code that is not in the repository is an argument: SHA-256, Ed25519, zlib,
  \<open>JSON.parse\<close>, \<open>URL\<close>, UTF-8 decoding, \<open>realpath\<close>, the process table behind the native pid check,
  and how much of a write the kernel accepts. What a theorem needs of them is a hypothesis of
  documented behaviour, and its witness has an instance.

  \<^bold>\<open>Bounds and fuel.\<close> Loops are structural or have a measure; the only fuel is that of the code
  itself (attempts of a retry or of a claim, redirects) and the number of checkpoints in a store,
  which bounds a walk that visits none twice. Numbers that JavaScript keeps exactly are integers;
  the 32-bit operations on page flags and the little-endian fields are words.

  \<^bold>\<open>What is taken to succeed.\<close> Where the code swallows the failure of a cleanup (\<open>rmSync\<close> of a temporary
  directory in \<^verbatim>\<open>restore.ts\<close>, \<^verbatim>\<open>vmstate-chain.ts\<close>, \<^verbatim>\<open>fork-core.ts\<close> and \<^verbatim>\<open>gvproxy.ts\<close>) or of the signal
  that resumes a paused source, the model lets it succeed: the theorems on what remains and on the signals
  speak of what the code does then. The native helper is taken to be installed where a state file is
  read. Writes of devices into the memory of a guest are not in the specification of the machine.

  \<^bold>\<open>Not modelled.\<close> Starting processes and assembling command lines (the rest of \<^verbatim>\<open>vm/boot.ts\<close>,
  \<^verbatim>\<open>provision.ts\<close>): these files pass options to native code and to programs of
  the host, and what they decide is decided there. Likewise the HTTP services of the desktop
  application, the scanners of processes in \<^verbatim>\<open>cli/src/clean-service\<close> and
  \<^verbatim>\<open>move-pid-graph.ts\<close>, printing of tables and messages, and everything that is not TypeScript.
  Texts of error messages are modelled where callers look at them only.
\<close>

section \<open>Commands and terminals in the guest\<close>

text \<open>C7: a command's output arrives whole. However the bytes that the agent sends are cut into
  socket chunks, the promise of \<open>VsockExec.run\<close> resolves with the exit code of the X frame, the
  payloads of the O frames in order as stdout and those of the E frames as stderr.\<close>

theorem exec_output_arrives:
  assumes "concat chunks = encode_stream fs code" "[] \<notin> set chunks"
    and "\<forall>f \<in> set fs. length (frame_bytes f) < 2 ^ 53" "code < 2 ^ 53"
  shows "req_settled (run_request (start_request False False opt) (map Data chunks @ [Sock_close])) =
    Some (Inr \<lparr>res_exit = Fin (int code), res_stdout = concat (map out_payload fs),
               res_stderr = concat (map err_payload fs)\<rparr>)"
  using assms by (rule run_request_arrives)

abbreviation sample_stream :: bytes where
  "sample_stream \<equiv> encode_stream [Out_frame [104, 105], Err_frame [33], Out_frame [10]] 3"

theorem exec_output_arrives_witness:
  "req_settled (run_request (start_request False False Unset)
     (map Data [take 5 sample_stream, drop 5 sample_stream] @ [Sock_close])) =
   Some (Inr \<lparr>res_exit = Fin 3, res_stdout = [104, 105, 10], res_stderr = [33]\<rparr>)"
proof -
  have cut: "concat [take 5 sample_stream, drop 5 sample_stream] = sample_stream" by simp
  have cut': "[] \<notin> set [take 5 sample_stream, drop 5 sample_stream]"
    by code_simp
  show ?thesis by (subst exec_output_arrives [OF cut cut']) simp_all
qed

text \<open>A request settles. The close of its socket always settles it, whatever came before, and
  nothing that comes later changes the answer.\<close>

theorem request_settles_once:
  "req_settled (run_request r (evs @ [Sock_close])) \<noteq> None \<and>
   req_settled (run_request r (evs @ Sock_close # late)) = req_settled (run_request r (evs @ [Sock_close]))"
  by (rule run_request_close)

text \<open>Unless the timeout is disabled, a request settles when its deadline passes, also when the
  agent keeps sending or stays silent and never closes the socket.\<close>

theorem request_deadline_settles:
  assumes "exec_deadline opt \<noteq> None"
  shows "req_settled (run_request (start_request tee_out tee_err opt) (map Data ds @ [Timer_fires])) \<noteq> None"
  using assms by (rule run_request_deadline)

theorem request_deadline_settles_witness:
  "req_settled (run_request (start_request False True Unset) (map Data [[79, 32]] @ [Timer_fires])) \<noteq> None"
  by (rule request_deadline_settles) (simp add: exec_deadline_def)

text \<open>A PTY session shows what the agent sends. Under any chunking the bytes written to the
  terminal are the payloads of the O frames in order and nothing else, and the session resolves
  with the code of the X frame.\<close>

theorem pty_output_arrives:
  assumes "write_pty_start_frame cmd opts = Inr ws"
    and "concat chunks = encode_stream (map Out_frame ps) code" "[] \<notin> set chunks"
    and "\<forall>p \<in> set ps. length p < 2 ^ 53" "code < 2 ^ 53"
  shows "pty_settled (run_pty cmd opts start_pty (Pty_connected # map Pty_socket_data chunks @ [Pty_socket_close])) =
      Some (Inr (Fin (int code))) \<and>
    pty_shown (run_pty cmd opts start_pty (Pty_connected # map Pty_socket_data chunks @ [Pty_socket_close])) = concat ps"
  using assms by (rule pty_session_arrives)

abbreviation sample_pty :: pty_options where
  "sample_pty \<equiv> \<lparr>cols = 80, rows = 24, session = Named ''main''\<rparr>"

theorem pty_output_arrives_witness:
  "pty_shown (run_pty ''sh'' sample_pty start_pty
     (Pty_connected # map Pty_socket_data [encode_stream (map Out_frame [[36, 32], [13, 10]]) 0] @ [Pty_socket_close])) =
   [36, 32, 13, 10]"
proof -
  obtain ws where ws: "write_pty_start_frame ''sh'' sample_pty = Inr ws"
    by (simp add: write_pty_start_frame_def validate_pty_session_name_def session_char_def is_digit_def)
  have one: "concat [encode_stream (map Out_frame [[36, 32], [13, 10]]) 0] = encode_stream (map Out_frame [[36, 32], [13, 10]]) 0"
    "[] \<notin> set [encode_stream (map Out_frame [[36, 32], [13, 10]]) 0]"
    by (simp_all add: encode_stream_def header_line_def)
  show ?thesis using pty_output_arrives [OF ws one] by simp
qed

text \<open>C8: what is typed reaches the guest. After the start frame, the bytes on the socket decode, by
  the agent's reading of the protocol, to exactly the keystrokes and window sizes that were
  accepted while the session was open, in order.\<close>

theorem pty_input_arrives:
  assumes "write_pty_start_frame cmd opts = Inr ws"
    and "list_all input_fits (accepted_inputs cmd opts (connected_pty cmd opts start_pty) evs)"
  shows "\<exists>input. concat (pty_sent (run_pty cmd opts start_pty (Pty_connected # evs))) = concat ws @ input \<and>
    agent_inputs input = accepted_inputs cmd opts (connected_pty cmd opts start_pty) evs"
  using assms by (rule start_pty_sent)

theorem pty_input_arrives_witness:
  "\<exists>input. agent_inputs input = [Input [108, 115], Resize 100 40, Input [13]]"
proof -
  obtain ws where ws: "write_pty_start_frame ''sh'' sample_pty = Inr ws"
    by (simp add: write_pty_start_frame_def validate_pty_session_name_def session_char_def is_digit_def)
  let ?evs = "[Pty_stdin [108, 115], Pty_stdin [], Pty_resize 100 40, Pty_stdin [13]]"
  have acc: "accepted_inputs ''sh'' sample_pty (connected_pty ''sh'' sample_pty start_pty) ?evs =
      [Input [108, 115], Resize 100 40, Input [13]]"
    by (simp add: connected_pty_def ws start_pty_def on_stdin_data_def resize_pty_def)
  then have fits: "list_all input_fits (accepted_inputs ''sh'' sample_pty (connected_pty ''sh'' sample_pty start_pty) ?evs)"
    by (simp add: input_fits_def)
  show ?thesis using pty_input_arrives [OF ws fits] acc by auto
qed

text \<open>The agent receives the command that was given, in either form of the request (one line, or
  length-prefixed when the command has line breaks or is long), up to the agent's limit of 1 MiB.\<close>

theorem command_arrives:
  assumes "length cmd \<le> 1048576"
  shows "agent_command (concat (exec_request cmd)) = Some (bytes_of cmd)"
  using assms by (rule agent_command_request)

theorem command_arrives_witness:
  "agent_command (concat (exec_request (''echo a'' @ [nl_char] @ ''echo b''))) =
   Some (bytes_of (''echo a'' @ [nl_char] @ ''echo b''))"
  by (rule command_arrives) simp

text \<open>A result of \<open>run\<close> is the answer of one attempt, and every attempt before it failed in one
  of the ways that a booting or restoring agent explains. No other failure is retried.\<close>

theorem retry_returns_an_answer:
  assumes "vsock_exec_run uds label total_opt retry_opt now attempts = Some (Inr r)"
  shows "\<exists>pre d post. attempts = pre @ Answered r d # post \<and> (\<forall>a \<in> set pre. repeated a)"
  using assms unfolding vsock_exec_run_def Let_def by (rule run_with_retry_answer)

theorem retry_returns_an_answer_witness:
  "\<exists>pre d post. [Refused ''ENOENT'' 1, Connected 1, Broken (Socket_error (Some ''EPIPE'') '''') 2, Connected 1,
      Answered (7 :: nat) 5] = pre @ Answered 7 d # post \<and> (\<forall>a \<in> set pre. repeated a)"
  by (rule retry_returns_an_answer [of "''/s''" "''run''" None None 0])
     (simp add: vsock_exec_run_def run_with_retry.simps)

text \<open>C9: the retries end. Against an agent that refuses every connection, \<open>run\<close> throws after at
  most as many attempts as retry pauses fit into the connect timeout.\<close>

theorem retry_gives_up:
  assumes "or_else connect_ms 30000 \<le> length ds * or_else retry_opt 250"
  shows "\<exists>e. vsock_exec_run uds label connect_ms retry_opt now (refusals ds :: 'r attempt list) = Some (Inl e)"
  using assms unfolding vsock_exec_run_def Let_def or_else_def by (intro run_with_retry_gives_up) simp

theorem retry_gives_up_witness:
  "\<exists>e. vsock_exec_run ''/s'' ''run'' None None 5 (refusals (replicate 120 (''ENOENT'', 3)) :: nat attempt list) = Some (Inl e)"
  by (rule retry_gives_up) (simp add: or_else_def)

section \<open>Checkpoints\<close>

text \<open>C17: what the writer writes the reader reads back: a well-formed state is written, as the 64-byte
  header and the sections one after the other, and reading the file gives the same state.\<close>

theorem vmstate_write_read:
  assumes "wf_vmstate v"
  shows "\<exists>a bs. arch v = Some a \<and> write_vmstate v = Inr bs \<and>
    bs = encode_vmstate a (topology_hash v) (sections v) \<and> read_vmstate gunzip bs = Inr v"
proof -
  obtain a where a: "arch v = Some a" using assms by (auto simp: wf_vmstate_def)
  show ?thesis
    using a write_vmstate_format [OF assms a] write_read_vmstate [OF assms] by auto
qed

abbreviation sample_vmstate :: decoded_vmstate where
  "sample_vmstate \<equiv> \<lparr>arch = Some ARCH_AARCH64, topology_hash = replicate 32 7,
     sections = [\<lparr>sec_tag = TAG_RAM, sec_id = 0, payload = [1, 2, 3]\<rparr>]\<rparr>"

theorem vmstate_write_read_witness:
  "\<exists>bs. write_vmstate sample_vmstate = Inr bs \<and> read_vmstate (\<lambda>_. None) bs = Inr sample_vmstate"
  using vmstate_write_read [of sample_vmstate "\<lambda>_. None"] by (auto simp: wf_vmstate_def wf_section_def)

text \<open>Every file the reader accepts, compressed or not, can be written again, and the written
  file decodes to the same state.\<close>

theorem vmstate_read_write:
  assumes "read_vmstate gunzip raw = Inr v"
  shows "\<exists>bs. write_vmstate v = Inr bs \<and> read_vmstate gunzip bs = Inr v"
proof -
  have wf: "wf_vmstate v" using assms by (rule read_vmstate_wf)
  then obtain a where "arch v = Some a" by (auto simp: wf_vmstate_def)
  then show ?thesis using write_vmstate_format [OF wf] write_read_vmstate [OF wf] by blast
qed

theorem vmstate_read_write_witness:
  "\<exists>bs. write_vmstate sample_vmstate = Inr bs \<and> read_vmstate (\<lambda>_. None) bs = Inr sample_vmstate"
proof -
  have "read_vmstate (\<lambda>_. None) (encode_vmstate ARCH_AARCH64 (replicate 32 7) (sections sample_vmstate)) = Inr sample_vmstate"
    using parse_encode_vmstate [of ARCH_AARCH64 "replicate 32 7" "sections sample_vmstate" "[]"]
    by (simp add: read_vmstate_def encode_vmstate_not_gzip wf_section_def)
  then show ?thesis by (rule vmstate_read_write)
qed

text \<open>A parent link leads back. What \<open>relativeCheckpointParent\<close> records for a parent directory
  is never empty, and resolving it against the snapshot's directory gives the parent's directory,
  whatever the two paths look like.\<close>

theorem parent_link_resolves:
  assumes "canonical cwd" "parent_dir \<noteq> ''''"
  shows "\<exists>rel. relative_checkpoint_parent cwd snap_dir (Some parent_dir) = Some rel \<and> rel \<noteq> '''' \<and>
    resolve_checkpoint_parent (resolve cwd snap_dir) rel = resolve cwd parent_dir"
  using assms by (rule relative_parent_resolves)

theorem parent_link_resolves_witness:
  "\<exists>rel. resolve_checkpoint_parent (resolve [''home''] ''snaps/b'') rel = [''home'', ''base'', ''a'']"
  using parent_link_resolves [of "[''home'']" "''./base/x/../a''" "''snaps/b''"]
  by (auto simp: canonical_def segment_ok_def resolve_def is_absolute_def starts_with_def segments_def)

text \<open>A store with a base and one checkpoint on top of it, for the witnesses.\<close>

abbreviation no_gunzip :: "bytes \<Rightarrow> bytes option" where "no_gunzip \<equiv> \<lambda>_. None"
abbreviation zero_hash :: "bytes \<Rightarrow> bytes" where "zero_hash \<equiv> \<lambda>_. replicate 32 0"

abbreviation sample_delta :: bytes where "sample_delta \<equiv> encode_delta zero_hash 4 [(2, [9]), (0, [5, 6])]"

abbreviation delta_state :: decoded_vmstate where
  "delta_state \<equiv> \<lparr>arch = Some ARCH_AARCH64, topology_hash = replicate 32 7,
     sections = [\<lparr>sec_tag = TAG_RAM_DELTA, sec_id = 0, payload = [8]\<rparr>, \<lparr>sec_tag = TAG_ROOTDISK_DELTA, sec_id = 0, payload = sample_delta\<rparr>]\<rparr>"

abbreviation encoded :: "decoded_vmstate \<Rightarrow> bytes" where
  "encoded v \<equiv> encode_vmstate ARCH_AARCH64 (topology_hash v) (sections v)"

abbreviation base_meta :: snapshot_meta where
  "base_meta \<equiv> \<lparr>root_disk = Some (Block ''disk'' None 4 []), checkpoint_parent = None, other_fields = ''''\<rparr>"

abbreviation delta_meta :: snapshot_meta where
  "delta_meta \<equiv> \<lparr>root_disk = Some Delta, checkpoint_parent = Some ''../a'', other_fields = ''''\<rparr>"

abbreviation sample_store :: store where
  "sample_store \<equiv> \<lparr>blobs = [([''a'', VMSTATE_FILE], encoded sample_vmstate), ([''a'', ''disk''], [1, 2, 3, 4]),
       ([''b'', VMSTATE_FILE], encoded delta_state)],
     metas = [([''a'', ''meta.json''], Some base_meta), ([''b'', ''meta.json''], Some delta_meta)]\<rparr>"

abbreviation sample_chain :: "chain_item list" where
  "sample_chain \<equiv> [\<lparr>ck_dir = [''a''], ck_meta = base_meta, ck_state = sample_vmstate\<rparr>,
     \<lparr>ck_dir = [''b''], ck_meta = delta_meta, ck_state = delta_state\<rparr>]"

lemma delta_length: "length sample_delta < 1000"
  by (simp add: encode_delta_def)

lemma read_encoded:
  "read_vmstate no_gunzip (encoded sample_vmstate) = Inr sample_vmstate"
  "read_vmstate no_gunzip (encoded delta_state) = Inr delta_state"
  using parse_encode_vmstate [of ARCH_AARCH64 "replicate 32 7" "sections sample_vmstate" "[]"]
    parse_encode_vmstate [of ARCH_AARCH64 "replicate 32 7" "sections delta_state" "[]"] delta_length
  by (simp_all add: read_vmstate_def encode_vmstate_not_gzip wf_section_def)

lemma read_sample_chain:
  "read_checkpoint_chain no_gunzip [] sample_store ''b'' delta_meta = Inr sample_chain"
proof -
  have dirs: "resolve [] ''b'' = [''b'']" "resolve_checkpoint_parent [''b''] ''../a'' = [''a'']"
    by (simp_all add: resolve_checkpoint_parent_def resolve_def is_absolute_def starts_with_def segments_def)
  have names: "VMSTATE_FILE \<noteq> ''disk''" "VMSTATE_FILE \<noteq> ''meta.json''" by (simp_all add: VMSTATE_FILE_def)
  show ?thesis
    using read_encoded names
    by (simp add: read_checkpoint_chain_def read_chain.simps dirs read_meta_def del: encode_vmstate_def)
qed

text \<open>The chain that is read is a checkpoint chain. Its last item is the target, every later
  item's parent is the item before it, the first has no parent, no bundle occurs twice, and every
  state is the decoded file of its bundle. The walk ends for every store, also on a cycle of
  parents (\<open>read_chain\<close> is total).\<close>

theorem chain_read_sound:
  assumes "read_checkpoint_chain gunzip cwd st target_dir target_meta = Inr chain"
  shows "checkpoint_chain gunzip st chain \<and> ck_dir (last chain) = resolve cwd target_dir \<and>
    ck_meta (last chain) = target_meta"
  using read_checkpoint_chain_sound [OF assms] by blast

theorem chain_read_sound_witness: "checkpoint_chain no_gunzip sample_store sample_chain"
  using chain_read_sound [OF read_sample_chain] by blast

text \<open>Combining a chain succeeds exactly when some checkpoint holds full RAM.\<close>

theorem combine_needs_a_base:
  "(\<exists>v. combine_vmstate_ram chain = Inr v) \<longleftrightarrow> (\<exists>c \<in> set chain. has_ram c)"
  using combine_no_base [of chain] by (cases "combine_vmstate_ram chain") auto

text \<open>The combined state is the RAM of the latest full checkpoint, then the RAM deltas of the
  checkpoints after it in the order they were taken, then the device sections of the target. It
  has one RAM section and no disk delta.\<close>

theorem combined_sections:
  assumes "combine_vmstate_ram chain = Inr v"
  shows "(\<exists>pre base post ram. chain = pre @ base # post \<and> has_ram base \<and> (\<forall>c \<in> set post. \<not> has_ram c) \<and>
      ram \<in> set (sections (ck_state base)) \<and> sec_tag ram = TAG_RAM \<and>
      sections v = ram # concat (map (sections_with_tag TAG_RAM_DELTA) post) @ device_sections (last chain)) \<and>
    length (filter (\<lambda>s. sec_tag s = TAG_RAM) (sections v)) = 1 \<and>
    (\<forall>s \<in> set (sections v). sec_tag s \<noteq> TAG_ROOTDISK_DELTA)"
proof -
  obtain pre base post ram where "chain = pre @ base # post" "has_ram base" "\<forall>c \<in> set post. \<not> has_ram c"
    "ram \<in> set (sections (ck_state base))" "sec_tag ram = TAG_RAM"
    "sections v = ram # concat (map (sections_with_tag TAG_RAM_DELTA) post) @ device_sections (last chain)"
    using assms by (auto elim!: combine_cases)
  then show ?thesis using combine_sections_tags [OF assms] by blast
qed

abbreviation combined_state :: decoded_vmstate where
  "combined_state \<equiv> \<lparr>arch = Some ARCH_AARCH64, topology_hash = replicate 32 7,
     sections = [\<lparr>sec_tag = TAG_RAM, sec_id = 0, payload = [1, 2, 3]\<rparr>, \<lparr>sec_tag = TAG_RAM_DELTA, sec_id = 0, payload = [8]\<rparr>]\<rparr>"

lemma combine_sample: "combine_vmstate_ram sample_chain = Inr combined_state"
  using combine_split [of "hd sample_chain" "tl sample_chain" "hd (sections sample_vmstate)" "[]"]
  by (simp add: has_ram_def device_sections_def TAG_RAM_def TAG_RAM_DELTA_def TAG_ROOTDISK_DELTA_def sections_with_tag_def)

theorem combined_sections_witness:
  "length (filter (\<lambda>s. sec_tag s = TAG_RAM) (sections combined_state)) = 1"
  using combined_sections [OF combine_sample] by blast

text \<open>C18: a disk delta is applied exactly. Applying the encoding of a list of writes that fit the
  disk performs these writes in order, however short the kernel's writes are (as long as each
  takes at least one byte), and reports no error.\<close>

theorem delta_applied_exactly:
  assumes "\<And>n. 0 < n \<Longrightarrow> 0 < accept n" "\<And>x. length (sha256 x) = 32"
    and "length disk \<le> MAX_SAFE_INTEGER" "writes_fit (length disk) ws"
  shows "apply_rootdisk_delta sha256 accept (encode_delta sha256 (length disk) ws) disk = (apply_writes disk ws, None)"
  using assms by (rule apply_encoded_delta)

lemma sample_writes:
  "apply_writes [1, 2, 3, 4] [(2, [9]), (0, [5, 6])] = [5, 6, 9, 4]" "writes_fit 4 [(2, [9]), (0, [5, 6])]"
  "length [1 :: byte, 2, 3, 4] = 4"
  by (simp_all add: pwrite_def eval_nat_numeral)

theorem delta_applied_exactly_witness:
  "apply_rootdisk_delta zero_hash (\<lambda>n. 1) sample_delta [1, 2, 3, 4] = ([5, 6, 9, 4], None)"
  using delta_applied_exactly [of "\<lambda>n. 1" zero_hash "[1, 2, 3, 4]" "[(2, [9]), (0, [5, 6])]", unfolded sample_writes]
  by simp

text \<open>No delta, however malformed, changes the size of the disk, and one that is applied without
  an error had the hash that its header records.\<close>

theorem delta_checked:
  assumes "apply_rootdisk_delta sha256 accept p disk = (disk', e)"
  shows "length disk' = length disk \<and> (e = None \<longrightarrow> sha256 (drop DELTA_HEADER_SIZE p) = subarray p 16 48)"
  using assms apply_rootdisk_delta_length [of sha256 accept p disk] apply_rootdisk_delta_hash [of sha256 accept p disk disk']
  by simp

lemma sample_applied: "apply_rootdisk_delta zero_hash (\<lambda>n. n) sample_delta [1, 2, 3, 4] = ([5, 6, 9, 4], None)"
  using apply_encoded_delta [of "\<lambda>n. n" zero_hash "[1, 2, 3, 4]" "[(2, [9]), (0, [5, 6])]", unfolded sample_writes]
  by simp

theorem delta_checked_witness:
  "zero_hash (drop DELTA_HEADER_SIZE sample_delta) = subarray sample_delta 16 48"
  using delta_checked [OF sample_applied] by (simp only: simp_thms)

text \<open>The disk of a chain is replayed: the image of the latest full checkpoint with the writes of
  all later deltas applied in order is what the fresh directory holds, with its size and hash.\<close>

theorem disk_replayed:
  assumes "root_disk (ck_meta base) = Some (Block f q n h)" "\<forall>c \<in> set post. \<not> has_full_disk c"
    and "map_of (blobs st) (resolve (ck_dir base) f) = Some img" "\<not> is_absolute f"
    and "rootdisk_deltas post = map (encode_delta sha256 (length img)) wss"
    and "\<And>n. 0 < n \<Longrightarrow> 0 < accept n" "\<And>x. length (sha256 x) = 32"
    and "length img \<le> MAX_SAFE_INTEGER" "\<forall>ws \<in> set wss. writes_fit (length img) ws"
  shows "materialize_rootdisk sha256 accept temp_dir (pre @ base # post) st =
    (let disk = foldl apply_writes img wss; dest = temp_dir @ [VMSTATE_ROOTDISK_FILE]
     in (Inr (Block VMSTATE_ROOTDISK_FILE (Some dest) (length img) (sha256 disk)), write_blob dest disk st))"
  using assms by (rule materialize_rootdisk_replays)

lemma replay_sample:
  "rootdisk_deltas (tl sample_chain) = map (encode_delta zero_hash 4) [[(2, [9]), (0, [5, 6])]]"
  "resolve [''a''] ''disk'' = [''a'', ''disk'']" "\<not> is_absolute ''disk''"
  by (simp_all add: rootdisk_deltas_def sections_with_tag_def TAG_RAM_DELTA_def TAG_ROOTDISK_DELTA_def resolve_def
      is_absolute_def starts_with_def segments_def)

theorem disk_replayed_witness:
  "map_of (blobs (snd (materialize_rootdisk zero_hash (\<lambda>n. n) [''t''] sample_chain sample_store)))
     [''t'', VMSTATE_ROOTDISK_FILE] = Some [5, 6, 9, 4]"
  using disk_replayed [of "hd sample_chain" "''disk''" None 4 "[]" "tl sample_chain" sample_store "[1, 2, 3, 4]"
      zero_hash "[[(2, [9]), (0, [5, 6])]]" "\<lambda>n. n" "[''t'']" "[]", unfolded sample_writes] replay_sample
    sample_writes(1) by (simp add: has_full_disk_def VMSTATE_FILE_def map_of_write_blob Let_def del: apply_writes.simps)

text \<open>C19: a materialised bundle is what it says: the state file in the fresh directory decodes to the
  combined state of the chain, and the disk that the returned document names has the size and the
  hash that it records.\<close>

theorem materialized_bundle:
  assumes "materialize_vmstate_chain gunzip sha256 accept cwd temp_dir dir m st = (Inr r, st')"
  shows "(\<exists>chain v bs. read_checkpoint_chain gunzip cwd st dir m = Inr chain \<and> combine_vmstate_ram chain = Inr v \<and>
      map_of (blobs st') (state_path r) = Some bs \<and> read_vmstate gunzip bs = Inr v) \<and>
    disk_described sha256 st' (root_disk (meta_of r))"
  using materialize_success [OF assms] by blast

lemma sample_disk:
  assumes "map_of (blobs st) [''a'', ''disk''] = Some [1, 2, 3, 4]"
  shows "materialize_rootdisk zero_hash (\<lambda>n. n) tmp sample_chain st =
    (Inr (Block VMSTATE_ROOTDISK_FILE (Some (tmp @ [VMSTATE_ROOTDISK_FILE])) 4 (replicate 32 0)),
     write_blob (tmp @ [VMSTATE_ROOTDISK_FILE]) [5, 6, 9, 4] st)"
  using materialize_rootdisk_replays [of "hd sample_chain" "''disk''" None 4 "[]" "tl sample_chain" st "[1, 2, 3, 4]"
      zero_hash "[[(2, [9]), (0, [5, 6])]]" "\<lambda>n. n" tmp "[]", unfolded sample_writes] assms replay_sample
    sample_writes(1) by (simp add: has_full_disk_def Let_def del: apply_writes.simps)

lemma materialize_sample:
  "\<exists>r st'. materialize_vmstate_chain no_gunzip zero_hash (\<lambda>n. n) [] [''t''] ''b'' delta_meta sample_store = (Inr r, st')"
proof -
  let ?st = "write_blob [''t'', VMSTATE_FILE] (encoded combined_state) sample_store"
  have "map_of (blobs ?st) [''a'', ''disk''] = Some [1, 2, 3, 4]"
    by (simp add: map_of_write_blob VMSTATE_FILE_def)
  note disk = sample_disk [OF this, of "[''t'']"]
  have "wf_vmstate combined_state" by (simp add: wf_vmstate_def wf_section_def)
  then have w: "write_vmstate combined_state = Inr (encoded combined_state)"
    using write_vmstate_format [of combined_state ARCH_AARCH64] by simp
  obtain r st' where "materialize_in zero_hash (\<lambda>n. n) [''t''] sample_chain delta_meta sample_store = (Inr r, st')"
    using disk by (simp add: materialize_in_def Let_def combine_sample w)
  then show ?thesis using read_sample_chain by (simp add: materialize_vmstate_chain_def)
qed

theorem materialized_bundle_witness:
  "\<exists>(r :: materialized) (st' :: store) v bs. combine_vmstate_ram sample_chain = Inr v \<and> map_of (blobs st') (state_path r) = Some bs \<and>
     read_vmstate no_gunzip bs = Inr v \<and> disk_described zero_hash st' (root_disk (meta_of r))"
proof -
  obtain r st' where run: "materialize_vmstate_chain no_gunzip zero_hash (\<lambda>n. n) [] [''t''] ''b'' delta_meta sample_store = (Inr r, st')"
    using materialize_sample by blast
  then obtain chain v bs where c: "read_checkpoint_chain no_gunzip [] sample_store ''b'' delta_meta = Inr chain"
      "combine_vmstate_ram chain = Inr v" "map_of (blobs st') (state_path r) = Some bs" "read_vmstate no_gunzip bs = Inr v"
      "disk_described zero_hash st' (root_disk (meta_of r))"
    using materialized_bundle [OF run] by (elim conjE exE) (rule that)
  have "chain = sample_chain" using c(1) unfolding read_sample_chain by (simp only: sum.inject)
  then have "combine_vmstate_ram sample_chain = Inr v" using c(2) by (simp only:)
  then show ?thesis by (intro exI conjI) (assumption | rule c(3-5))+
qed

text \<open>Materialising writes nothing outside the fresh directory, whatever happens.\<close>

theorem materialize_writes_inside:
  "same_outside temp_dir st (snd (materialize_vmstate_chain gunzip sha256 accept cwd temp_dir dir m st))"
  by (rule materialize_frame)

text \<open>C25: a failure leaves nothing behind: when the directory was fresh, every file is as before. (The
  removal of the directory is taken to succeed; the code ignores its failure.)\<close>

theorem failure_leaves_no_trace:
  assumes "materialize_vmstate_chain gunzip sha256 accept cwd temp_dir dir m st = (Inl e, st')"
    and "fresh_dir temp_dir st"
  shows "map_of (blobs st') = map_of (blobs st) \<and> map_of (metas st') = map_of (metas st)"
  using assms by (rule materialize_failure)

theorem failure_leaves_no_trace_witness:
  "map_of (blobs (snd (materialize_vmstate_chain no_gunzip zero_hash (\<lambda>n. n) [] [''t''] ''a'' base_meta sample_store))) =
   map_of (blobs sample_store)"
proof -
  have "read_checkpoint_chain no_gunzip [] sample_store ''a'' base_meta =
      Inr [\<lparr>ck_dir = [''a''], ck_meta = base_meta, ck_state = sample_vmstate\<rparr>]"
    using read_encoded
    by (simp add: read_checkpoint_chain_def read_chain.simps resolve_def is_absolute_def starts_with_def segments_def
        del: encode_vmstate_def)
  moreover have "resolve [] ''a'' = [''a'']" by (simp add: resolve_def is_absolute_def starts_with_def segments_def)
  ultimately have "\<exists>e st'. materialize_vmstate_chain no_gunzip zero_hash (\<lambda>n. n) [] [''t''] ''a'' base_meta sample_store = (Inl e, st')"
    using read_encoded
    by (simp add: materialize_vmstate_chain_def state_has_delta_sections_def vmstate_section_tags_def TAG_RAM_def
        TAG_RAM_DELTA_def TAG_ROOTDISK_DELTA_def)
  moreover have "fresh_dir [''t''] sample_store"
    by (auto simp: fresh_dir_def under_def take_Cons' split: if_splits)
  ultimately show ?thesis using failure_leaves_no_trace by fastforce
qed

section \<open>Trusting a state file\<close>

text \<open>The facts that a restore checks are those of the decoded file. The lazy walk of
  \<open>readVmstateFacts\<close> finds the architecture, section count and topology hash that the decoder
  finds, the SCTLR_EL1 of the first vcpu section that has one, and reports pointer authentication
  exactly when one of its four key-enable bits is set.\<close>

theorem facts_of_decoded:
  assumes "read_vmstate gunzip raw = Inr v" "sctlr_as_read raw (sections v) = Inr r"
  shows "\<exists>a. arch v = Some a \<and> read_vmstate_facts gunzip raw =
    Inr \<lparr>f_header = \<lparr>h_arch = vmstate_arch_name a, h_section_count = length (sections v),
           h_topology_hash = topology_hash v\<rparr>,
         f_sctlr = r, f_pauth_active = map_option (\<lambda>x. bit x 31 \<or> bit x 30 \<or> bit x 27 \<or> bit x 13) r\<rparr>"
  using read_facts_decoded [OF assms] unfolding pauth_mask_bits .

abbreviation vcpu_state :: decoded_vmstate where
  "vcpu_state \<equiv> \<lparr>arch = Some ARCH_AARCH64, topology_hash = replicate 32 7,
     sections = [\<lparr>sec_tag = TAG_VCPU, sec_id = 0,
       payload = le_bytes 4 1 @ [9] @ bytes_of SCTLR_NAME @ le_bytes 4 8 @ le_bytes 8 0x80000000\<rparr>]\<rparr>"

theorem facts_of_decoded_witness:
  "\<exists>h. read_vmstate_facts no_gunzip (encoded vcpu_state) =
     Inr \<lparr>f_header = h, f_sctlr = Some 0x80000000, f_pauth_active = Some True\<rparr>"
proof -
  have v: "read_vmstate no_gunzip (encoded vcpu_state) = Inr vcpu_state"
    using parse_encode_vmstate [of ARCH_AARCH64 "replicate 32 7" "sections vcpu_state" "[]"]
    by (simp add: read_vmstate_def encode_vmstate_not_gzip wf_section_def SCTLR_NAME_def)
  have "is_ascii SCTLR_NAME" "length SCTLR_NAME = 9" by (simp_all add: is_ascii_def SCTLR_NAME_def)
  then have r: "sctlr_as_read raw (sections vcpu_state) = Inr (Some 0x80000000)" for raw
    using read_vcpu_first [of SCTLR_NAME 0 "0x80000000" "[]"]
    by (simp add: sctlr_as_read_def MAX_VCPU_PAYLOAD_BYTES_def buffer_simps)
  have "bit (0x80000000 :: 64 word) 31" by (simp only: bit_iff_odd) simp
  then show ?thesis using facts_of_decoded [OF v r] by auto
qed

abbreviation sample_file :: host_file where
  "sample_file \<equiv> \<lparr>st_dev = 1, st_ino = 20, st_mtime = 300, st_ctime = 301, content = [1, 2, 3]\<rparr>"

abbreviation sample_host :: host where "sample_host \<equiv> [''/v'' \<mapsto> sample_file]"

abbreviation sample_identity :: identity where
  "sample_identity \<equiv> \<lparr>id_path = Some ''/v'', id_size = 3, id_sha256 = replicate 32 0, id_sample = None\<rparr>"

abbreviation sample_caches :: identity_caches where
  "sample_caches \<equiv> \<lparr>trusted = [''/v'' \<mapsto> (sample_identity, \<lparr>s_dev = 1, s_ino = 20, s_size = 3, s_mtime = 300,
     s_ctime = 301, s_sample = replicate 32 0\<rparr>)], managed = Map.empty\<rparr>"

text \<open>A remembered identity is only returned for a file that has not been touched: the same
  device and inode, the size, modification and change times and sampled contents it was stamped
  with, and the size that the identity records.\<close>

theorem trusted_means_unchanged:
  assumes "caches_ok c" "trusted_identity sha256 host p c = Inr (Some i, c')"
  shows "c' = c \<and> (\<exists>f. host p = Some f \<and> id_path i = Some p \<and> id_size i = length (content f) \<and>
    trusted c p = Some (i, \<lparr>s_dev = st_dev f, s_ino = st_ino f, s_size = length (content f),
       s_mtime = st_mtime f, s_ctime = st_ctime f, s_sample = sample_sha256 sha256 (content f)\<rparr>))"
  using assms by (rule trusted_identity_hit) simp

theorem trusted_means_unchanged_witness:
  "trusted_identity zero_hash sample_host ''/v'' sample_caches = Inr (Some sample_identity, sample_caches) \<and>
   id_size sample_identity = length (content sample_file)"
proof -
  have hit: "trusted_identity zero_hash sample_host ''/v'' sample_caches = Inr (Some sample_identity, sample_caches)"
    by (simp add: trusted_identity_def identity_stamp_of_def stat_file_def sample_sha256_def)
  have "caches_ok sample_caches" by (simp add: caches_ok_def)
  then show ?thesis using trusted_means_unchanged [OF _ hit] hit by auto
qed

text \<open>A file whose stamp changed is forgotten: until it is remembered again no lookup trusts it,
  also when the host shows the old stamp again.\<close>

theorem changed_file_is_forgotten:
  assumes "trusted_identity sha256 host p c = Inr (None, c')"
  shows "trusted_identity sha256 host' p c' = Inr (None, c')"
  using assms by (rule trusted_identity_miss_forgets)

theorem changed_file_is_forgotten_witness:
  "trusted_identity zero_hash sample_host ''/v'' (sample_caches\<lparr>trusted := Map.empty\<rparr>) =
   Inr (None, sample_caches\<lparr>trusted := Map.empty\<rparr>)"
proof -
  have "trusted_identity zero_hash [''/v'' \<mapsto> sample_file\<lparr>st_mtime := 999\<rparr>] ''/v'' sample_caches =
      Inr (None, sample_caches\<lparr>trusted := Map.empty\<rparr>)"
    by (simp add: trusted_identity_def identity_stamp_of_def stat_file_def)
  then show ?thesis by (rule changed_file_is_forgotten)
qed

text \<open>A hash just computed and remembered is trusted as long as the file stays as it is.\<close>

theorem remembered_is_trusted:
  assumes "host p = Some f" "p \<noteq> ''''" "file_identity sha256 host p = Inr i"
  shows "\<exists>c'. remember_trusted sha256 host i c = Inr c' \<and> trusted_identity sha256 host p c' = Inr (Some i, c')"
  using assms by (rule remember_then_trusted)

theorem remembered_is_trusted_witness:
  "\<exists>c'. remember_trusted zero_hash sample_host sample_identity sample_caches = Inr c' \<and>
     trusted_identity zero_hash sample_host ''/v'' c' = Inr (Some sample_identity, c')"
  by (rule remembered_is_trusted [of _ _ sample_file]) (simp_all add: file_identity_def stat_file_def)

section \<open>Lazy restore\<close>

text \<open>A varint that is written is read back, wherever it stands in a buffer, and the reader stops
  at its end.\<close>

theorem varint_round_trip:
  assumes "v < 2 ^ 70"
  shows "read_varint (pre @ varint_bytes v @ post) (length pre) = Inr (v, length pre + length (varint_bytes v))"
  using assms by (rule read_varint_encoded)

theorem varint_round_trip_witness:
  "read_varint ([7] @ varint_bytes 300 @ [1, 2]) (length [7 :: byte]) =
   Inr (300, length [7 :: byte] + length (varint_bytes 300))"
  by (rule varint_round_trip) simp

lemma entry_is_already_lazy_bit: "entry_is_already_lazy f \<longleftrightarrow> bit (low32 (flags f)) 1"
  by (simp add: entry_is_already_lazy_def and_exp_eq_0_iff_not_bit [of _ 1, simplified])

lemma entry_rewrite_condition:
  "\<not> entry_is_already_lazy f \<and> entry_should_become_lazy f ranges \<longleftrightarrow>
    bit (low32 (flags f)) 2 \<and> \<not> bit (low32 (flags f)) 1 \<and>
      (\<exists>a lazy. vaddr f = Some a \<and> lazy \<in> set ranges \<and> lo lazy \<le> a \<and>
        a + 4096 * (case (nr_pages f, compat_nr_pages f) of
          (Some n, _) \<Rightarrow> n | (None, Some n) \<Rightarrow> n | (None, None) \<Rightarrow> 0) \<le> hi lazy)"
proof -
  have present: "low32 (flags f) AND PE_PRESENT \<noteq> 0 \<longleftrightarrow> bit (low32 (flags f)) 2"
    by (simp add: and_exp_eq_0_iff_not_bit [of _ 2, simplified])
  show ?thesis
    by (auto simp: entry_is_already_lazy_bit entry_should_become_lazy_def entry_page_count_def
        vaddr_in_lazy_range_def present mult.commute split: option.splits)
qed

text \<open>C26: an entry is flagged exactly when its flags have the present bit (bit 2) and not yet the lazy bit
  (bit 1) and its pages of 4096 bytes, from the first to the last, lie within one of the lazy ranges.
  Then the new message parses to the same address and page counts, and its flags are the old flags with
  the lazy bit set, also where the re-encoded varint has another length. Every other message is
  returned as it is, and reported as lazy before exactly when its lazy bit was set.\<close>

theorem entry_rewrite_exact:
  assumes "rewrite_entry msg ranges = Inr r" "parse_entry_fields msg = Inr f"
  shows "if bit (low32 (flags f)) 2 \<and> \<not> bit (low32 (flags f)) 1 \<and>
        (\<exists>a lazy. vaddr f = Some a \<and> lazy \<in> set ranges \<and> lo lazy \<le> a \<and>
          a + 4096 * (case (nr_pages f, compat_nr_pages f) of
            (Some n, _) \<Rightarrow> n | (None, Some n) \<Rightarrow> n | (None, None) \<Rightarrow> 0) \<le> hi lazy)
    then e_changed r \<and> (\<exists>g. parse_entry_fields (e_out r) = Inr g \<and> low32 (flags g) = low32 (flags f) OR 2 \<and>
      vaddr g = vaddr f \<and> nr_pages g = nr_pages f \<and> compat_nr_pages g = compat_nr_pages f)
    else e_out r = msg \<and> \<not> e_changed r \<and> (e_already r \<longleftrightarrow> bit (low32 (flags f)) 1)"
    (is "if ?flagged then ?rewritten else ?kept")
proof (cases "\<not> entry_is_already_lazy f \<and> entry_should_become_lazy f ranges")
  case True
  then have "e_changed r" using assms rewrite_entry_flags_changed [of msg f r] by (auto simp: rewrite_entry_def)
  then have ?rewritten using assms(2) by (auto elim!: rewrite_entry_changed [OF assms(1)])
  then show ?thesis unfolding if_P [OF True [unfolded entry_rewrite_condition]] .
next
  case False
  then have ?kept
    using assms unfolding entry_is_already_lazy_bit [symmetric]
    by (auto simp: rewrite_entry_def split: if_split_asm)
  then show ?thesis unfolding if_not_P [OF False [unfolded entry_rewrite_condition]] .
qed

abbreviation sample_entry :: bytes where "sample_entry \<equiv> [8, 16, 40, 1, 32, 4]"
abbreviation sample_fields :: entry_fields where
  "sample_fields \<equiv> \<lparr>flags_val = Some (5, 1), flags = 4, vaddr = Some 16, nr_pages = Some 1, compat_nr_pages = None\<rparr>"
abbreviation sample_ranges :: "vma_range list" where "sample_ranges \<equiv> [\<lparr>lo = 0, hi = 8192\<rparr>]"

lemma parse_sample_entry: "parse_entry_fields sample_entry = Inr sample_fields"
  by (simp add: parse_entry_fields_def parse_fields_from.simps read_entry_field_def read_varint_def
      read_varint_from.simps no_fields_def apply_entry_field_def)

lemma rewrite_sample_entry:
  "rewrite_entry sample_entry sample_ranges = Inr \<lparr>e_out = [8, 16, 40, 1, 32, 6], e_changed = True, e_already = False\<rparr>"
  unfolding rewrite_entry_def parse_sample_entry
  by (simp add: entry_is_already_lazy_def entry_should_become_lazy_def entry_page_count_def vaddr_in_lazy_range_def
      low32_def rewrite_entry_flags_def encode_varint_def varint_bytes.simps)

theorem entry_rewrite_exact_witness:
  "\<exists>g. parse_entry_fields [8, 16, 40, 1, 32, 6] = Inr g \<and> low32 (flags g) = low32 4 OR PE_LAZY \<and> vaddr g = Some 16"
proof -
  have bits: "bit (low32 4) 2" "\<not> bit (low32 4) (Suc 0)" by code_simp+
  show ?thesis using entry_rewrite_exact [OF rewrite_sample_entry parse_sample_entry] by (auto simp: bits)
qed

text \<open>Rewriting a pagemap is idempotent: a second pass over its result changes nothing and counts
  every entry that the first pass flagged or found flagged as already lazy. A pass that flags
  nothing returns the file as it was.\<close>

theorem pagemap_rewrite_idempotent:
  assumes "rewrite_pagemap input ranges = Inr st"
  shows "rewrite_pagemap (r_out st) ranges =
      Inr \<lparr>r_out = r_out st, r_changed = False, r_flagged = 0, r_already = r_already st + r_flagged st\<rparr> \<and>
    (r_changed st \<longleftrightarrow> 0 < r_flagged st) \<and> (r_changed st \<or> r_out st = input)"
  using rewrite_pagemap_idempotent [OF assms] by blast

abbreviation sample_pagemap :: bytes where
  "sample_pagemap \<equiv> (le_bytes 4 IMG_COMMON_MAGIC @ le_bytes 4 PAGEMAP_MAGIC) @ stream [[8, 1], sample_entry]"

lemma rewrite_sample_pagemap:
  "rewrite_pagemap sample_pagemap sample_ranges =
   Inr \<lparr>r_out = (le_bytes 4 IMG_COMMON_MAGIC @ le_bytes 4 PAGEMAP_MAGIC) @ stream [[8, 1], [8, 16, 40, 1, 32, 6]],
        r_changed = True, r_flagged = 1, r_already = 0\<rparr>"
proof -
  have "validate_pagemap_header sample_pagemap = Inr ()"
    by (simp add: validate_pagemap_header_def buffer_simps IMG_COMMON_MAGIC_def PAGEMAP_MAGIC_def)
  then show ?thesis
    using rewrite_sample_entry
    by (subst rewrite_pagemap_of_list) (simp_all add: append_rewritten_def rewrite_entry_message_def append_message_def frame_def)
qed

theorem pagemap_rewrite_idempotent_witness:
  "\<exists>st. rewrite_pagemap sample_pagemap sample_ranges = Inr st \<and> 0 < r_flagged st \<and>
     rewrite_pagemap (r_out st) sample_ranges = Inr \<lparr>r_out = r_out st, r_changed = False, r_flagged = 0, r_already = 1\<rparr>"
  using pagemap_rewrite_idempotent [OF rewrite_sample_pagemap] rewrite_sample_pagemap by auto

text \<open>Marking a directory touches the contents of pagemap files only, also when it throws half
  way; and it is idempotent: after a first pass that succeeds a second changes no file and counts
  every entry as already lazy.\<close>

theorem marking_idempotent:
  assumes "mark_pagemaps_lazy dir = (Inr c, dir')"
  shows "list_all2 same_file dir dir' \<and>
    mark_pagemaps_lazy dir' = (Inr (Counts 0 0 (entries_flagged c + entries_already_lazy c)), dir')"
  using mark_pagemaps_lazy_others [of dir] mark_pagemaps_lazy_second [OF assms] assms by simp

abbreviation sample_dir :: image_dir where
  "sample_dir \<equiv> [(''pagemap-7.img'', sample_pagemap), (''mm-7.img'',
     (le_bytes 4 IMG_COMMON_MAGIC @ le_bytes 4 MM_MAGIC) @ frame [218, 1, 7, 8, 0, 16, 128, 64, 56, 16])]"

lemma collect_sample: "collect_ranges sample_dir Map.empty = Inr [''7'' \<mapsto> sample_ranges]"
proof -
  have "parse_lazy_ranges_from_mm ((le_bytes 4 IMG_COMMON_MAGIC @ le_bytes 4 MM_MAGIC) @ frame [218, 1, 7, 8, 0, 16, 128, 64, 56, 16])
      = parse_ranges_from [218, 1, 7, 8, 0, 16, 128, 64, 56, 16] 0 []"
    by (simp add: parse_lazy_ranges_from_mm_def frame_def buffer_simps IMG_COMMON_MAGIC_def MM_MAGIC_def)
  also have "\<dots> = Inr sample_ranges"
    by (simp add: parse_ranges_from.simps parse_vma_entry_def parse_vma_from.simps read_varint_def read_varint_from.simps
        subarray_def lazy_range_of_def low32_def VMA_ANON_PRIVATE_def VMA_LAZY_INELIGIBLE_def)
  finally show ?thesis by (simp add: image_pid_def starts_with_def all_digits_def is_digit_def)
qed

lemma mark_sample:
  "\<exists>dir'. mark_pagemaps_lazy sample_dir = (Inr (Counts 1 1 0), dir')"
  using rewrite_sample_pagemap unfolding mark_pagemaps_lazy_def collect_sample sum.case
  by (simp add: image_pid_def starts_with_def all_digits_def is_digit_def)

theorem marking_idempotent_witness:
  "\<exists>dir'. list_all2 same_file sample_dir dir' \<and> mark_pagemaps_lazy dir' = (Inr (Counts 0 0 1), dir')"
proof -
  obtain dir' where "mark_pagemaps_lazy sample_dir = (Inr (Counts 1 1 0), dir')" using mark_sample by blast
  from marking_idempotent [OF this] show ?thesis by auto
qed

section \<open>One terminal, many sandboxes\<close>

text \<open>The scrollback of a sandbox is exactly the last \<open>scrollbackBytes\<close> bytes of its output,
  however the output was cut into chunks.\<close>

theorem scrollback_is_the_tail:
  assumes "e < length (entries s)" "length (scrollback (entries s ! e)) \<le> scrollback_bytes s"
  shows "scrollback (entries (record_all e chunks s) ! e) =
    keep_last (scrollback_bytes s) (scrollback (entries s ! e) @ concat chunks)"
  using assms by (rule record_all_scrollback)

abbreviation one_sandbox :: sandboxes where
  "one_sandbox \<equiv> (new_sandboxes (Some 3))\<lparr>items := [(''a'', 0)],
     entries := [\<lparr>entry_id = ''a'', entry_vm = 7, scrollback = [], added_at = 5\<rparr>]\<rparr>"

theorem scrollback_is_the_tail_witness:
  "scrollback (entries (record_all 0 [[1, 2], [3], [4, 5]] one_sandbox) ! 0) = [3, 4, 5]"
  using scrollback_is_the_tail [of 0 one_sandbox "[[1, 2], [3], [4, 5]]"]
  by (simp add: new_sandboxes_def keep_last_def numeral_2_eq_2)

abbreviation attached_supervisor :: "bool \<Rightarrow> supervisor" where
  "attached_supervisor gs \<equiv> (new_supervisor one_sandbox None None None False False False False (80, 24) [])
     \<lparr>running := True, attached_id := Some ''a'', last_gs := gs\<rparr>"

text \<open>While attached, what is typed is delivered to the sandbox byte for byte, however it is cut
  into chunks, as long as no two \<open>Ctrl-]\<close> come in a row (also across chunks); the session stays
  attached.\<close>

theorem typing_is_delivered:
  assumes "running s" "attached_id s = Some i" "i \<noteq> []" "get_sandbox i (registry s) \<noteq> None"
    and "no_pair (pending_gs (last_gs s) @ concat chunks)"
  shows "delivered_to i (registry (type_in s chunks)) = delivered_to i (registry s) @ concat chunks \<and>
    attached_id (type_in s chunks) = Some i"
  using type_in_delivers [OF assms] by simp

theorem typing_is_delivered_witness:
  "delivered_to ''a'' (registry (type_in (attached_supervisor False) [[108, 0x1d], [115], [0x1d]])) = [108, 0x1d, 115, 0x1d]"
  using typing_is_delivered [of "attached_supervisor False" "''a''" "[[108, 0x1d], [115], [0x1d]]"]
  by (simp add: new_supervisor_def new_sandboxes_def get_sandbox_def pending_gs_def delivered_to_def stdin_of_def)

text \<open>Two \<open>Ctrl-]\<close> in one chunk detach: the bytes before the pair are delivered, the pair is
  not, and the supervisor is back at its command line.\<close>

theorem pair_detaches:
  assumes "attached_id s = Some i" "i \<noteq> []" "get_sandbox i (registry s) \<noteq> None"
    and "no_pair (pending_gs (last_gs s) @ a @ [gs_byte])"
  shows "\<exists>t. ingest (a @ [gs_byte, gs_byte]) s = (t, None) \<and> attached_id t = None \<and>
    delivered_to i (registry t) = delivered_to i (registry s) @ a"
  using assms by (rule ingest_pair)

theorem pair_detaches_witness:
  "\<exists>t. ingest ([108, 115] @ [gs_byte, gs_byte]) (attached_supervisor False) = (t, None) \<and> attached_id t = None"
  using pair_detaches [of "attached_supervisor False" "''a''" "[108, 115]"]
  by (auto simp: new_supervisor_def new_sandboxes_def get_sandbox_def pending_gs_def)

text \<open>A pair that a chunk boundary cuts does not behave that way. When the chunk that completes
  the pair has more bytes behind it, \<open>subarray(0, -1)\<close> sends the completing \<open>Ctrl-]\<close> and all but the
  last of these bytes to the sandbox, and after the detach the same bytes are read as supervisor
  commands.\<close>

theorem cut_pair_is_sent_twice:
  assumes "attached_id s = Some i" "i \<noteq> []" "last_gs s" "rest \<noteq> []"
  shows "ingest (gs_byte # rest) s = ingest rest (detach (send_attached (gs_byte # butlast rest) s))"
  using assms by (rule ingest_cut_pair)

theorem cut_pair_is_sent_twice_witness:
  "ingest (gs_byte # [47, 108, 115, 10]) (attached_supervisor True) =
   ingest [47, 108, 115, 10] (detach (send_attached (gs_byte # butlast [47, 108, 115, 10]) (attached_supervisor True)))"
  by (rule cut_pair_is_sent_twice [where i = "''a''"]) (simp_all add: new_supervisor_def)

text \<open>C27: the terminal gets its mode back. In every state that a session reaches, whatever the order
  of input, output, exits, resizes, attaches and detaches, the terminal is in its initial mode
  unless the supervisor is attached; and while it is attached with a raw-capable terminal the
  initial mode is remembered.\<close>

theorem raw_mode_restored:
  assumes "sup_session (new_supervisor sb pfx raw_opt resize_opt in_tty has_set_raw raw0 out_tty win rs) s"
    and "[] \<notin> fst ` set (items sb)"
  shows "if is_attached s \<and> raw_capable s \<and> raw_tty_on_attach s
    then is_raw s \<and> prior_raw_state s = Some raw0 else is_raw s = raw0"
proof -
  have "raw_inv raw0 (new_supervisor sb pfx raw_opt resize_opt in_tty has_set_raw raw0 out_tty win rs)"
    using assms(2) by (simp add: raw_inv_def new_supervisor_def is_attached_def)
  then have "raw_inv raw0 s" by (rule raw.P_reached [OF assms(1)])
  then show ?thesis by (auto simp: raw_inv_def split: if_splits)
qed

abbreviation tty_supervisor :: supervisor where
  "tty_supervisor \<equiv> new_supervisor one_sandbox None None None True True False True (80, 24) []"

theorem raw_mode_restored_witness:
  "sup_session tty_supervisor (detach (fst (attach ''a'' tty_supervisor))) \<and>
   \<not> is_raw (detach (fst (attach ''a'' tty_supervisor)))"
proof -
  have "sup_session tty_supervisor (fst (sup_step tty_supervisor (Attach_call ''a'')))"
    by (rule sup_event_step) (simp_all add: sup_start)
  then have reach: "sup_session tty_supervisor (fst (sup_step (fst (sup_step tty_supervisor (Attach_call ''a''))) Detach_call))"
    by (rule sup_event_step) simp
  moreover have "[] \<notin> fst ` set (items one_sandbox)" by (simp add: new_sandboxes_def)
  ultimately show ?thesis using raw_mode_restored [OF reach] by (simp add: new_supervisor_def)
qed

text \<open>No output is lost or doubled. In every state that a session reaches, a chunk of a VM's
  output is written to the terminal at most once, also after any number of attaches and detaches;
  and right after attaching to a sandbox its next chunk is written exactly once.\<close>

theorem output_echoed_once:
  assumes "sup_session (new_supervisor (new_sandboxes n) pfx raw_opt resize_opt in_tty has_set_raw raw0 out_tty win rs) s"
    and "e < length (entries (registry s))"
  shows "out (fst (sup_step s (Vm_output e c src))) \<in> {out s, out s @ [c]} \<and>
    (map_of (items (registry s)) i = Some e \<longrightarrow>
      out (fst (sup_step (fst (attach i s)) (Vm_output e c src))) = out (fst (attach i s)) @ [c])"
proof -
  have "echo_inv (new_supervisor (new_sandboxes n) pfx raw_opt resize_opt in_tty has_set_raw raw0 out_tty win rs)"
    by (simp add: echo_inv_def new_supervisor_def registry_ok_new) (simp add: new_sandboxes_def)
  then have "echo_inv s" by (rule echo.P_reached [OF assms(1)])
  then show ?thesis using output_once assms(2) attach_echoes by blast
qed

abbreviation empty_supervisor :: supervisor where
  "empty_supervisor \<equiv> new_supervisor (new_sandboxes None) None None None False False False False (80, 24) []"

theorem output_echoed_once_witness:
  "\<exists>s. sup_session empty_supervisor s \<and> map_of (items (registry s)) ''a'' = Some 0 \<and>
     out (fst (sup_step (fst (attach ''a'' s)) (Vm_output 0 [1, 2] Stdout))) = out (fst (attach ''a'' s)) @ [[1, 2]]"
proof -
  let ?s = "fst (sup_step empty_supervisor (Add_call ''a'' 7 5))"
  have reach: "sup_session empty_supervisor ?s" by (rule sup_event_step) (simp_all add: sup_start)
  have "registry ?s = (new_sandboxes None)\<lparr>entries := [\<lparr>entry_id = ''a'', entry_vm = 7, scrollback = [], added_at = 5\<rparr>],
      items := [(''a'', 0)]\<rparr>"
    by (simp add: new_supervisor_def new_sandboxes_def add_sandbox_def)
  then have "0 < length (entries (registry ?s))" "map_of (items (registry ?s)) ''a'' = Some 0" by simp_all
  then show ?thesis using output_echoed_once [OF reach, of 0 "[1, 2]" Stdout "''a''"] reach by blast
qed

text \<open>The registry stays consistent through every session: ids and entries are in one-to-one
  correspondence, every entry is filed under its own id, and no scrollback exceeds its bound.\<close>

theorem registry_consistent:
  assumes "sup_session (new_supervisor (new_sandboxes n) pfx raw_opt resize_opt in_tty has_set_raw raw0 out_tty win rs) s"
  shows "registry_ok (registry s)"
proof -
  have "echo_inv (new_supervisor (new_sandboxes n) pfx raw_opt resize_opt in_tty has_set_raw raw0 out_tty win rs)"
    by (simp add: echo_inv_def new_supervisor_def registry_ok_new) (simp add: new_sandboxes_def)
  then have "echo_inv s" by (rule echo.P_reached [OF assms])
  then show ?thesis by (simp add: echo_inv_def)
qed

theorem registry_consistent_witness:
  "registry_ok (registry (fst (sup_step empty_supervisor (Add_call ''a'' 7 5))))"
  by (rule registry_consistent [of None None None None False False False False "(80, 24)" "[]"])
     (rule sup_event_step, simp_all add: sup_start)

text \<open>The exit of a VM that was removed takes its successor along. Once an id has been removed
  and registered again, the exit handler of the first VM removes the second one.\<close>

theorem stale_exit_removes_successor:
  assumes "add_sandbox i v1 t1 s = Inr (s1, e1)" "add_sandbox i v2 t2 (remove_sandbox i s1) = Inr (s2, e2)"
  shows "map_option entry_vm (get_sandbox i s2) = Some v2 \<and> get_sandbox i (vm_exited e1 s2) = None"
proof -
  have "entry_id (entries s2 ! e1) = i" "map_of (items s2) i = Some e2" "entry_vm (entries s2 ! e2) = v2"
    using assms by (auto simp: add_sandbox_def remove_sandbox_def Let_def nth_append map_add_def delete_conv'
        split: if_splits option.splits)
  then show ?thesis by (simp add: get_sandbox_def vm_exited_def remove_sandbox_def delete_conv')
qed

theorem stale_exit_removes_successor_witness:
  "\<exists>s2. map_option entry_vm (get_sandbox ''a'' s2) = Some 8 \<and> get_sandbox ''a'' (vm_exited 0 s2) = None"
proof -
  obtain s1 e1 where s1: "add_sandbox ''a'' 7 1 (new_sandboxes None) = Inr (s1, e1)" "e1 = 0"
    by (simp add: add_sandbox_def new_sandboxes_def)
  then obtain s2 e2 where s2: "add_sandbox ''a'' 8 2 (remove_sandbox ''a'' s1) = Inr (s2, e2)"
    by (auto simp: add_sandbox_def new_sandboxes_def remove_sandbox_def)
  show ?thesis using stale_exit_removes_successor [OF s1(1) s2] s1(2) by blast
qed

section \<open>The command line\<close>

text \<open>C29: what \<open>machinen boot\<close> accepts is in range: every published port is between 1 and 65535 and no
  host port is published twice, environment names are distinct, not empty and without an equals
  sign, live mounts name a host and a guest path, the memory size is positive, and the command
  after \<open>--\<close> is passed on untouched.\<close>

theorem boot_arguments_valid:
  assumes "parse_run_args quiet argv = Inr a"
  shows "valid_forwards (map host_port (or_else (run_port_forward a) [])) (or_else (run_port_forward a) []) \<and>
    env_ok (or_else (run_env a) []) \<and>
    (\<forall>m \<in> set (or_else (run_live_mounts a) []). live_host m \<noteq> [] \<and> live_guest m \<noteq> [] \<and> CHR '':'' \<notin> set (live_guest m)) \<and>
    run_memory a \<noteq> Some 0 \<and> run_double_dash_args a = snd (split_command_args argv)"
proof -
  obtain s where s: "run_state_ok s" "a = finish_run_args s (snd (split_command_args argv))"
    using parse_run_args_ok [OF assms] by blast
  then show ?thesis by (auto simp: run_state_ok_def finish_run_args_def valid_forwards_def)
qed

abbreviation sample_argv :: "string list" where
  "sample_argv \<equiv> [''-p'', ''80:8080'', ''--env=A=b'', ''--'', ''ls'']"

lemma parse_sample_ports: "parse_port ''80'' = Inr 80" "parse_port ''8080'' = Inr 8080"
  by (simp_all add: parse_port_def all_digits_def is_digit_def dec_value_def digit_val_def)

lemma parse_sample_argv: "\<exists>a. parse_run_args True sample_argv = Inr a"
  by (simp add: parse_run_args_def split_command_args_def parse_run_from.simps run_flag_for_def RUN_BARE_FLAGS_def
      RUN_VALUE_FLAGS_def run_handler_defs consume_defs take_value_def inner_colon_def parse_sample_ports
      new_run_parse_state_def)

theorem boot_arguments_valid_witness:
  "\<exists>a. parse_run_args True sample_argv = Inr a \<and> run_double_dash_args a = [''ls'']"
proof -
  obtain a where a: "parse_run_args True sample_argv = Inr a" using parse_sample_argv by blast
  then show ?thesis using boot_arguments_valid [OF a] by (auto simp: split_command_args_def)
qed

text \<open>What \<open>machinen fork\<close> accepts is in range in the same way, and a detached fork is never
  restored lazily.\<close>

theorem fork_arguments_valid:
  assumes "parse_fork_args argv = Inr a"
  shows "valid_forwards (map host_port (fork_port_forward a)) (fork_port_forward a) \<and>
    env_ok (or_else (fork_env a) []) \<and> fork_memory a \<noteq> Some 0 \<and> \<not> (fork_lazy a \<and> fork_detach a)"
proof -
  obtain s where s: "fork_state_ok s" "a = finish_fork_args s" using parse_fork_args_ok [OF assms] by blast
  then show ?thesis by (auto simp: fork_state_ok_def finish_fork_args_def valid_forwards_def)
qed

theorem fork_arguments_valid_witness:
  "\<exists>a. parse_fork_args [''--lazy'', ''-p=80:8080'', ''--detach'', ''web''] = Inr a \<and> fork_detach a \<and> \<not> fork_lazy a"
proof -
  obtain a where a: "parse_fork_args [''--lazy'', ''-p=80:8080'', ''--detach'', ''web''] = Inr a" "fork_detach a"
    by (simp add: parse_fork_args_def parse_fork_from.simps fork_flag_for_def FORK_BARE_FLAGS_def FORK_VALUE_FLAGS_def
        fork_handler_defs consume_defs take_value_def inner_colon_def parse_sample_ports new_fork_parse_state_def
        fork_rest_arg_def finish_fork_args_def)
  then show ?thesis using fork_arguments_valid [OF a(1)] by blast
qed

text \<open>What \<open>machinen restore\<close> accepts: ports in range, no guest path mounted twice, and a name and
  an image that are not empty where they are given.\<close>

theorem restore_arguments_valid:
  assumes "parse_restore_args argv = Inr a"
  shows "valid_forwards (map host_port (restore_port_forward a)) (restore_port_forward a) \<and>
    distinct (map live_guest (restore_live_mounts a)) \<and> restore_name a \<noteq> Some [] \<and> restore_image a \<noteq> Some []"
proof -
  obtain s where "restore_state_ok s" "a = finish_restore_args s" using parse_restore_args_ok [OF assms] by blast
  then show ?thesis by (auto simp: restore_state_ok_def finish_restore_args_def valid_forwards_def)
qed

theorem restore_arguments_valid_witness:
  "\<exists>a. parse_restore_args [''--name'', ''w'', ''-p'', ''80:8080'', ''snap''] = Inr a \<and> restore_name a = Some ''w'' \<and>
     valid_forwards (map host_port (restore_port_forward a)) (restore_port_forward a)"
proof -
  obtain a where a: "parse_restore_args [''--name'', ''w'', ''-p'', ''80:8080'', ''snap''] = Inr a" "restore_name a = Some ''w''"
    by (simp add: parse_restore_args_def parse_restore_from.simps restore_flag_for_def RESTORE_BARE_FLAGS_def
        RESTORE_VALUE_FLAGS_def restore_handler_defs consume_defs take_value_def inner_colon_def parse_sample_ports
        new_restore_parse_state_def restore_positional_arg_def starts_with_def finish_restore_args_def
        assert_flag_unused_def is_set_def)
  then show ?thesis using restore_arguments_valid [OF a(1)] by blast
qed

lemma run_value_flag:
  assumes "map_of RUN_VALUE_FLAGS flag = Some f"
  shows "run_flag_for flag = Some f" "run_flag_for (flag @ CHR ''='' # v) = Some f" "run_takes_value f"
    "CHR ''='' \<notin> set flag" "flag \<noteq> ''--''"
proof -
  have "(flag, f) \<in> set RUN_VALUE_FLAGS" using assms by (rule map_of_SomeD)
  then show eq: "CHR ''='' \<notin> set flag" and "flag \<noteq> ''--''" "run_takes_value f" "run_flag_for flag = Some f"
    by (auto simp: RUN_VALUE_FLAGS_def RUN_BARE_FLAGS_def run_flag_for_def)
  have "flag \<noteq> ''--nested''" using assms by (auto simp: RUN_VALUE_FLAGS_def)
  then show "run_flag_for (flag @ CHR ''='' # v) = Some f"
    using assms by (simp add: run_flag_for_def index_of_first [OF eq] Let_def)
qed

text \<open>\<open>--flag value\<close> and \<open>--flag=value\<close> mean the same, for every flag of \<open>boot\<close> that takes a
  value, anywhere on the command line (except that a separate \<open>--\<close> is never a value).\<close>

theorem flag_spellings_agree:
  assumes "map_of RUN_VALUE_FLAGS flag = Some f" "v \<noteq> ''--''"
    and "''--'' \<notin> set pre" "parse_run_from (new_run_parse_state quiet) pre 0 = Inr s"
  shows "parse_run_args quiet (pre @ (flag @ CHR ''='' # v) # rest) = parse_run_args quiet (pre @ flag # v # rest)"
proof -
  note flag = run_value_flag [OF assms(1)]
  have "CHR ''='' \<in> set (flag @ CHR ''='' # v)" "CHR ''='' \<notin> set ''--''" by simp_all
  then have joined: "flag @ CHR ''='' # v \<noteq> ''--''" by metis
  obtain ys zs where ys: "split_command_args rest = (ys, zs)" by (cases "split_command_args rest")
  have split: "split_command_args (xs @ rest) = (xs @ ys, zs)" if "''--'' \<notin> set xs" for xs
    using that ys by (auto simp: split_command_args_def index_of_append index_of_None_iff [symmetric] split: option.splits)
  have "parse_run_from s ((flag @ CHR ''='' # v) # ys) 0 = parse_run_from s (flag # v # ys) 0"
    by (rule run.joined_value [OF flag(1-4)])
  then have "parse_run_from (new_run_parse_state quiet) ((pre @ [flag @ CHR ''='' # v]) @ ys) 0 =
      parse_run_from (new_run_parse_state quiet) ((pre @ [flag, v]) @ ys) 0"
    by (simp add: run.parse_append [OF assms(4)])
  moreover have "''--'' \<notin> set (pre @ [flag @ CHR ''='' # v])" "''--'' \<notin> set (pre @ [flag, v])"
    using assms(2,3) flag(5) joined by auto
  ultimately show ?thesis
    using split [of "pre @ [flag @ CHR ''='' # v]"] split [of "pre @ [flag, v]"] by (simp add: parse_run_args_def)
qed

theorem flag_spellings_agree_witness:
  "parse_run_args True ([] @ (''--name'' @ CHR ''='' # ''web'') # [''ls'']) = parse_run_args True ([] @ ''--name'' # ''web'' # [''ls''])"
  by (rule flag_spellings_agree [where f = Run_name and s = "new_run_parse_state True"])
     (simp_all add: RUN_VALUE_FLAGS_def run.parse_end)

end
